(* ===== verification/Prelude.thy ===== *)
theory Prelude
  imports Main "HOL-Library.Word" "HOL-Library.Monad_Syntax"
begin

unbundle bit_operations_syntax

text \<open>
  Shared vocabulary of the development.

  \<^item> the fixed-width integers of \<open>type.h\<close> and \<open>common.h\<close> as words;
  \<^item> byte memory: a C array is a list of bytes of fixed length, a pointer into it is an
    offset, and reading or writing outside it is undefined behaviour.  Undefined behaviour
    (also: dereferencing NULL or a freed object) is the value \<open>None\<close>, so a computation that
    may go wrong has an \<open>option\<close> type and is written with the \<open>do\<close> notation of the library;
  \<^item> the interlocked operations of the Windows API on \<open>LONG\<close>;
  \<^item> little-endian layout of the integers that travel in packets;
  \<^item> the collections \<open>mem_simps\<close> (facts on byte memory) and \<open>inv_intros\<close> (introduction
    rules of the components' invariants).
\<close>

named_theorems mem_simps
named_theorems inv_intros

type_synonym byte = "8 word"
type_synonym u8 = "8 word"
type_synonym u16 = "16 word"
type_synonym u32 = "32 word"
type_synonym u64 = "64 word"
type_synonym i32 = "32 word"
type_synonym ptr = nat

abbreviation NULL :: ptr where "NULL \<equiv> 0"

section \<open>Byte memory\<close>

definition mem_read :: "'a list \<Rightarrow> nat \<Rightarrow> nat \<Rightarrow> 'a list option" where
  "mem_read buf off n = (if off + n \<le> length buf then Some (take n (drop off buf)) else None)"

definition mem_write :: "'a list \<Rightarrow> nat \<Rightarrow> 'a list \<Rightarrow> 'a list option" where
  "mem_write buf off xs =
     (if off + length xs \<le> length buf
      then Some (take off buf @ xs @ drop (off + length xs) buf) else None)"

text \<open>\<open>memcpy\<close> and \<open>memmove\<close> of \<open>n\<close> bytes; the second may overlap, which reading first covers.\<close>

definition memcpy :: "'a list \<Rightarrow> nat \<Rightarrow> 'a list \<Rightarrow> nat \<Rightarrow> nat \<Rightarrow> 'a list option" where
  "memcpy dst doff src soff n = do { xs \<leftarrow> mem_read src soff n; mem_write dst doff xs }"

definition memmove :: "'a list \<Rightarrow> nat \<Rightarrow> nat \<Rightarrow> nat \<Rightarrow> 'a list option" where
  "memmove buf doff soff n = memcpy buf doff buf soff n"

lemma mem_read_Some [simp]:
  "off + n \<le> length buf \<Longrightarrow> mem_read buf off n = Some (take n (drop off buf))"
  by (simp add: mem_read_def)

lemma mem_read_None [simp]: "length buf < off + n \<Longrightarrow> mem_read buf off n = None"
  by (simp add: mem_read_def)

lemma mem_write_Some [simp]:
  "off + length xs \<le> length buf \<Longrightarrow>
     mem_write buf off xs = Some (take off buf @ xs @ drop (off + length xs) buf)"
  by (simp add: mem_write_def)

lemma mem_write_None [simp]: "length buf < off + length xs \<Longrightarrow> mem_write buf off xs = None"
  by (simp add: mem_write_def)

lemma mem_read_length: "mem_read buf off n = Some xs \<Longrightarrow> length xs = n"
  by (auto simp: mem_read_def split: if_splits)

lemma mem_write_length: "mem_write buf off xs = Some buf' \<Longrightarrow> length buf' = length buf"
  by (auto simp: mem_write_def split: if_splits)

lemma mem_write_eq_Some_iff:
  "mem_write buf off xs = Some buf' \<longleftrightarrow>
     off + length xs \<le> length buf \<and> buf' = take off buf @ xs @ drop (off + length xs) buf"
  by (auto simp: mem_write_def)

lemma mem_read_eq_Some_iff:
  "mem_read buf off n = Some xs \<longleftrightarrow> off + n \<le> length buf \<and> xs = take n (drop off buf)"
  by (auto simp: mem_read_def)

lemma memcpy_Some [mem_simps]:
  "soff + n \<le> length src \<Longrightarrow> doff + n \<le> length dst \<Longrightarrow>
     memcpy dst doff src soff n = Some (take doff dst @ take n (drop soff src) @ drop (doff + n) dst)"
  by (simp add: memcpy_def)

lemma memcpy_src_None: "length src < soff + n \<Longrightarrow> memcpy dst doff src soff n = None"
  by (simp add: memcpy_def)

lemma memcpy_dst_None:
  "soff + n \<le> length src \<Longrightarrow> length dst < doff + n \<Longrightarrow> memcpy dst doff src soff n = None"
  by (simp add: memcpy_def)

lemma memcpy_length: "memcpy dst doff src soff n = Some dst' \<Longrightarrow> length dst' = length dst"
  by (auto simp: memcpy_def bind_eq_Some_conv dest: mem_write_length)

lemma memcpy_eq_Some_iff:
  "memcpy dst doff src soff n = Some dst' \<longleftrightarrow>
     soff + n \<le> length src \<and> doff + n \<le> length dst \<and>
     dst' = take doff dst @ take n (drop soff src) @ drop (doff + n) dst"
  by (auto simp: memcpy_def bind_eq_Some_conv mem_read_eq_Some_iff mem_write_eq_Some_iff)

lemma take_write [simp]:
  "off \<le> length buf \<Longrightarrow> take (off + length xs) (take off buf @ xs @ ys) = take off buf @ xs"
  by (simp add: min_def)

section \<open>Maps as object stores\<close>

lemma ex_store_fresh:
  "m k = None \<Longrightarrow> (\<exists>p c. (m(k \<mapsto> v)) p = Some c \<and> P p c) \<longleftrightarrow> P k v \<or> (\<exists>p c. m p = Some c \<and> P p c)"
  by (metis fun_upd_apply option.distinct(1) option.inject)

lemma ex_store_upd:
  "m k = Some v0 \<Longrightarrow> P k v = P k v0 \<Longrightarrow>
     (\<exists>p c. (m(k \<mapsto> v)) p = Some c \<and> P p c) \<longleftrightarrow> (\<exists>p c. m p = Some c \<and> P p c)"
  by (metis fun_upd_apply option.inject)

section \<open>Words and their values\<close>

lemma unat_less_u8 [simp]: "unat (w :: 8 word) < 256"
  using unsigned_less [of w, where ?'a = nat] by simp

lemma unat_less_u16 [simp]: "unat (w :: 16 word) < 65536"
  using unsigned_less [of w, where ?'a = nat] by simp

lemma unat_less_u32 [simp]: "unat (w :: 32 word) < 4294967296"
  using unsigned_less [of w, where ?'a = nat] by simp

lemma len32: "(2 :: nat) ^ LENGTH(32) = 4294967296"
  by simp

lemma len16: "(2 :: nat) ^ LENGTH(16) = 65536"
  by simp

lemma unat_ucast_down16: "unat (ucast (w :: 32 word) :: 16 word) = unat w mod 65536"
  by (simp add: unsigned_ucast_eq take_bit_eq_mod)

lemma unat_ucast_up32 [simp]: "unat (ucast (w :: 16 word) :: 32 word) = unat w"
proof -
  have "unat w < 2 ^ LENGTH(32)"
    using unat_less_u16 [of w] by (simp only: len32)
  then show ?thesis by (simp only: unsigned_ucast_eq take_bit_nat_eq_self)
qed

lemma word_of_unat: "of_nat (unat w) = (w :: 'a :: len word)"
  by simp

lemma unat_add_no_wrap:
  "unat (a :: 'a :: len word) + unat b < 2 ^ LENGTH('a) \<Longrightarrow> unat (a + b) = unat a + unat b"
  by (simp add: unat_word_ariths)

lemma unat_succ_less: "(k :: 'a :: len word) < n \<Longrightarrow> unat (k + 1) = Suc (unat k)"
  using unsigned_less [of n, where ?'a = nat]
  by (subst unat_add_no_wrap) (auto simp: word_less_nat_alt intro: le_less_trans Suc_leI)

lemma unat_sub_le: "b \<le> a \<Longrightarrow> unat (a - b :: 'a :: len word) = unat a - unat b"
  by (simp add: unat_sub_if' word_le_nat_alt)

lemma unat_of_nat_less: "n < 2 ^ LENGTH('a) \<Longrightarrow> unat (of_nat n :: 'a :: len word) = n"
  by (simp add: unat_of_nat)

section \<open>Interlocked operations\<close>

text \<open>\<open>InterlockedCompareExchange (&d, e, c)\<close> returns the old value and stores \<open>e\<close> when it was \<open>c\<close>.\<close>

definition InterlockedCompareExchange :: "i32 \<Rightarrow> i32 \<Rightarrow> i32 \<Rightarrow> i32 \<times> i32" where
  "InterlockedCompareExchange dest exch cmpd = (dest, if dest = cmpd then exch else dest)"

lemma cas_simps [simp]:
  "fst (InterlockedCompareExchange d e c) = d"
  "snd (InterlockedCompareExchange d e c) = (if d = c then e else d)"
  by (simp_all add: InterlockedCompareExchange_def)

section \<open>Little-endian integers\<close>

definition le16 :: "u16 \<Rightarrow> byte list" where
  "le16 w = [ucast w, ucast (drop_bit 8 w)]"

definition le32 :: "u32 \<Rightarrow> byte list" where
  "le32 w = [ucast w, ucast (drop_bit 8 w), ucast (drop_bit 16 w), ucast (drop_bit 24 w)]"

definition get16 :: "byte list \<Rightarrow> nat \<Rightarrow> u16" where
  "get16 bs i = ucast (bs ! i) OR push_bit 8 (ucast (bs ! (i + 1)))"

definition get32 :: "byte list \<Rightarrow> nat \<Rightarrow> u32" where
  "get32 bs i = ucast (bs ! i) OR push_bit 8 (ucast (bs ! (i + 1)))
     OR push_bit 16 (ucast (bs ! (i + 2))) OR push_bit 24 (ucast (bs ! (i + 3)))"

lemma length_le16 [simp]: "length (le16 w) = 2"
  by (simp add: le16_def)

lemma length_le32 [simp]: "length (le32 w) = 4"
  by (simp add: le32_def)

lemma le16_get: "ucast (ucast w :: byte) OR push_bit 8 (ucast (ucast (drop_bit 8 w) :: byte)) = (w :: u16)"
  (is "?l = w")
proof (rule bit_word_eqI)
  fix n assume "n < LENGTH(16)"
  then show "bit ?l n = bit w n"
    by (cases "n < 8") (auto simp: bit_simps)
qed

lemma get16_le16 [simp]: "get16 (le16 w @ xs) 0 = w"
  by (simp add: get16_def le16_def le16_get)

lemma get16_append: "i + 1 < length xs \<Longrightarrow> get16 (xs @ ys) i = get16 xs i"
  by (simp add: get16_def nth_append)

lemma get16_skip: "get16 (xs @ ys) (length xs + i) = get16 ys i"
  by (simp add: get16_def nth_append add.assoc)

lemma get16_take: "i + 1 < n \<Longrightarrow> get16 (take n xs) i = get16 xs i"
  by (simp add: get16_def)

lemma le32_get:
  "ucast (ucast w :: byte) OR push_bit 8 (ucast (ucast (drop_bit 8 w) :: byte))
     OR push_bit 16 (ucast (ucast (drop_bit 16 w) :: byte)) OR push_bit 24 (ucast (ucast (drop_bit 24 w) :: byte)) = (w :: u32)"
  (is "?l = w")
proof (rule bit_word_eqI)
  fix n assume "n < LENGTH(32)"
  then consider "n < 8" | "8 \<le> n" "n < 16" | "16 \<le> n" "n < 24" | "24 \<le> n" "n < 32" by fastforce
  then show "bit ?l n = bit w n"
    by cases (auto simp: bit_simps)
qed

lemma get32_le32 [simp]: "get32 (le32 w @ xs) 0 = w"
  by (simp add: get32_def le32_def le32_get)

lemma get32_append: "i + 3 < length xs \<Longrightarrow> get32 (xs @ ys) i = get32 xs i"
  by (simp add: get32_def nth_append)

lemma get32_skip: "get32 (xs @ ys) (length xs + i) = get32 ys i"
  by (simp add: get32_def nth_append add.assoc)

lemma get32_take: "i + 3 < n \<Longrightarrow> get32 (take n xs) i = get32 xs i"
  by (simp add: get32_def)

section \<open>Total correctness of computations\<close>

text \<open>\<open>wp X Q\<close>: the computation \<open>X\<close> is defined and its result satisfies \<open>Q\<close>.\<close>

named_theorems wp_rules

definition wp :: "'a option \<Rightarrow> ('a \<Rightarrow> bool) \<Rightarrow> bool" where
  "wp X Q \<longleftrightarrow> (\<exists>x. X = Some x \<and> Q x)"

lemma wp_Some [wp_rules]: "Q x \<Longrightarrow> wp (Some x) Q"
  by (simp add: wp_def)

lemma wp_if [wp_rules]: "(P \<Longrightarrow> wp X Q) \<Longrightarrow> (\<not> P \<Longrightarrow> wp Y Q) \<Longrightarrow> wp (if P then X else Y) Q"
  by simp

lemma wp_bind: "wp X (\<lambda>x. wp (f x) Q) \<Longrightarrow> wp (X \<bind> f) Q"
  by (auto simp: wp_def)

lemma wp_mono: "wp X Q \<Longrightarrow> (\<And>x. Q x \<Longrightarrow> Q' x) \<Longrightarrow> wp X Q'"
  by (auto simp: wp_def)

text \<open>\<open>lp X Q\<close>: if the computation \<open>X\<close> is defined, its result satisfies \<open>Q\<close>.\<close>

named_theorems lp_rules

definition lp :: "'a option \<Rightarrow> ('a \<Rightarrow> bool) \<Rightarrow> bool" where
  "lp X Q \<longleftrightarrow> (\<forall>x. X = Some x \<longrightarrow> Q x)"

lemma lp_Some [lp_rules]: "Q x \<Longrightarrow> lp (Some x) Q"
  by (simp add: lp_def)

lemma lp_None [lp_rules]: "lp None Q"
  by (simp add: lp_def)

lemma lp_if [lp_rules]: "(P \<Longrightarrow> lp X Q) \<Longrightarrow> (\<not> P \<Longrightarrow> lp Y Q) \<Longrightarrow> lp (if P then X else Y) Q"
  by simp

lemma lp_bind: "lp X (\<lambda>x. lp (f x) Q) \<Longrightarrow> lp (X \<bind> f) Q"
  by (auto simp: lp_def split: Option.bind_splits)

lemma lp_bind_any [lp_rules]: "(\<And>x. lp (f x) Q) \<Longrightarrow> lp (X \<bind> f) Q"
  by (auto simp: lp_def split: Option.bind_splits)

lemma lp_mono: "lp X Q \<Longrightarrow> (\<And>x. Q x \<Longrightarrow> Q' x) \<Longrightarrow> lp X Q'"
  by (auto simp: lp_def)

lemma wp_lp: "wp X Q \<Longrightarrow> lp X Q"
  by (auto simp: lp_def wp_def)

end
