(* ===== verification/ByteStack.thy ===== *)
theory ByteStack
  imports Prelude
begin

text \<open>
  The contract of the single-direction byte buffers: \<open>EasyBuffer\<close> (\<open>EasyLog/easy_buffer.c\<close>)
  and \<open>SingleBuffer\<close> (\<open>Tool/single_buffer.h\<close>) are the same data structure in C and in C++.
  A client pushes runs of bytes at the tail and pops runs of bytes from the tail; the abstract
  value is the list of stored bytes, oldest first.  The capacity is never reached exactly: a push
  that would fill the buffer is refused.

  What clients rely on is proved once here: a push followed by a pop of the same length gives the
  pushed bytes back, and popping everything after a series of accepted pushes gives their
  concatenation, in order.
\<close>

locale byte_stack =
  fixes invar :: "'b \<Rightarrow> bool"
    and cont :: "'b \<Rightarrow> byte list"
    and cap :: "'b \<Rightarrow> nat"
    and push :: "'b \<Rightarrow> byte list \<Rightarrow> u32 \<Rightarrow> (bool \<times> 'b) option"
    and pop :: "'b \<Rightarrow> byte list option \<Rightarrow> u32 \<Rightarrow> (u32 \<times> 'b \<times> byte list option) option"
  assumes cap_bound: "invar b \<Longrightarrow> cap b < 2 ^ 32"
    and cont_bound: "invar b \<Longrightarrow> length (cont b) \<le> cap b"
    and push_fits:
      "invar b \<Longrightarrow> length item = unat n \<Longrightarrow> length (cont b) + unat n < cap b \<Longrightarrow>
         \<exists>b'. push b item n = Some (True, b') \<and> invar b' \<and> cont b' = cont b @ item \<and> cap b' = cap b"
    and push_full:
      "invar b \<Longrightarrow> cap b \<le> length (cont b) + unat n \<Longrightarrow> length (cont b) + unat n < 2 ^ 32 \<Longrightarrow>
         push b item n = Some (False, b)"
    and pop_some:
      "invar b \<Longrightarrow> k = min (unat n) (length (cont b)) \<Longrightarrow> k \<le> length d \<Longrightarrow>
         \<exists>b'. pop b (Some d) n =
                Some (of_nat k, b', Some (drop (length (cont b) - k) (cont b) @ drop k d)) \<and>
              invar b' \<and> cont b' = take (length (cont b) - k) (cont b) \<and> cap b' = cap b"
    and pop_null: "pop b None n = Some (0, b, None)"
begin

lemma push_safe:
  assumes "invar b" and "length item = unat n" and "length (cont b) + unat n < 2 ^ 32"
  shows "\<exists>ok b'. push b item n = Some (ok, b') \<and> invar b' \<and> cap b' = cap b \<and>
           cont b' = (if ok then cont b @ item else cont b)"
  using assms push_fits [of b item n] push_full [of b n item]
  by (metis leI)

lemma push_accepts_iff:
  assumes "invar b" and "length item = unat n" and "length (cont b) + unat n < 2 ^ 32"
    and "push b item n = Some (ok, b')"
  shows "ok \<longleftrightarrow> length (cont b) + unat n < cap b"
  using assms push_fits [of b item n] push_full [of b n item]
  by (metis leI option.inject prod.inject)

lemma push_cont:
  assumes "invar b" and "length item = unat n" and "length (cont b) + unat n < 2 ^ 32"
    and "push b item n = Some (ok, b')"
  shows "invar b' \<and> cap b' = cap b \<and> cont b' = (if ok then cont b @ item else cont b)"
  using push_safe [OF assms(1-3)] assms(4) by auto

lemma push_pop:
  assumes "invar b" and "length item = unat n" and "length (cont b) + unat n < cap b"
    and "unat n \<le> length d"
  shows "\<exists>b1 b2. push b item n = Some (True, b1) \<and>
           pop b1 (Some d) n = Some (n, b2, Some (item @ drop (unat n) d)) \<and>
           invar b2 \<and> cont b2 = cont b \<and> cap b2 = cap b"
proof -
  obtain b1 where b1: "push b item n = Some (True, b1)" "invar b1" "cont b1 = cont b @ item" "cap b1 = cap b"
    using push_fits [OF assms(1-3)] by blast
  have "unat n = min (unat n) (length (cont b1))"
    using b1(3) assms(2) by simp
  from pop_some [OF b1(2) this assms(4)] b1 assms(2) show ?thesis
    by auto
qed

lemma pop_all:
  assumes "invar b" and "n = of_nat (length (cont b))" and "length (cont b) \<le> length d"
  shows "\<exists>b'. pop b (Some d) n = Some (n, b', Some (cont b @ drop (length (cont b)) d)) \<and>
           invar b' \<and> cont b' = [] \<and> cap b' = cap b"
proof -
  have len: "length (cont b) < 2 ^ 32"
    using cap_bound [OF assms(1)] cont_bound [OF assms(1)] by simp
  then have "unat n = length (cont b)"
    using assms(2) by (simp add: unat_of_nat_less)
  then have "length (cont b) = min (unat n) (length (cont b))" by simp
  from pop_some [OF assms(1) this assms(3)] assms(2) show ?thesis by auto
qed

end

end
