(* ===== verification/EasyLog.thy ===== *)
theory EasyLog
  imports ByteStack
begin

text \<open>
  The logger of the C network library: \<open>EasyNet/EasyLog/easy_buffer.c\<close> and
  \<open>EasyNet/EasyLog/easy_log.c\<close>.

  \<open>EasyBuffer\<close> keeps the struct of \<open>easy_buffer.h\<close>; \<open>size_t\<close> has 32 bits (the projects
  build for Win32 only), the block \<open>data_\<close> is a list of bytes and \<open>tail_\<close> an offset into it.
  \<open>EasyLog\<close> keeps the global \<open>easy_log_\<close>: every function holds the critical section \<open>cs_\<close>
  while it touches the buffer, so pushes and iterations of the output thread are atomic steps, and
  \<open>log_reach\<close> is any interleaving of them.  The expansion of the caller's format string and the
  local time are inputs of \<open>PushEasyLog\<close>; the console and debugger copies of a flushed block
  are not modelled, the file is.  Windows decides whether the file and the event can be created and how
  many bytes each \<open>WriteFile\<close> writes, which nobody checks: these are inputs of \<open>StartEasyLog\<close> and
  \<open>OutputEasyLog\<close>.
\<close>

section \<open>easy_buffer.c\<close>

record EasyBuffer =
  eb_data :: "byte list"
  eb_tail :: nat
  eb_size :: u32
  eb_curr_size :: u32

text \<open>The two allocations are not checked: when one fails, NULL is dereferenced.\<close>

definition CreateEasyBuffer :: "bool \<Rightarrow> bool \<Rightarrow> u32 \<Rightarrow> EasyBuffer option" where
  "CreateEasyBuffer malloc1 malloc2 max_size =
     (if \<not> malloc1 then None
      else if \<not> malloc2 then None
      else Some \<lparr>eb_data = replicate (unat max_size) 0, eb_tail = 0,
                 eb_size = max_size, eb_curr_size = 0\<rparr>)"

definition PushToEasyBuffer :: "EasyBuffer \<Rightarrow> byte list \<Rightarrow> u32 \<Rightarrow> (bool \<times> EasyBuffer) option" where
  "PushToEasyBuffer b pItem iLength =
     (if eb_size b \<le> eb_curr_size b + iLength then Some (False, b)
      else do {
        d \<leftarrow> memcpy (eb_data b) (eb_tail b) pItem 0 (unat iLength);
        Some (True, b\<lparr>eb_data := d, eb_tail := eb_tail b + unat iLength,
                      eb_curr_size := eb_curr_size b + iLength\<rparr>)
      })"

definition PopFromEasyBuffer ::
  "EasyBuffer \<Rightarrow> byte list option \<Rightarrow> u32 \<Rightarrow> (u32 \<times> EasyBuffer \<times> byte list option) option" where
  "PopFromEasyBuffer b pItem iLength =
     (case pItem of
        None \<Rightarrow> Some (0, b, None)
      | Some dst \<Rightarrow>
          (let iLength' = (if eb_curr_size b < iLength then eb_curr_size b else iLength) in
           if eb_tail b < unat iLength' then None
           else do {
             let tail' = eb_tail b - unat iLength';
             dst' \<leftarrow> memcpy dst 0 (eb_data b) tail' (unat iLength');
             Some (iLength', b\<lparr>eb_tail := tail', eb_curr_size := eb_curr_size b - iLength'\<rparr>, Some dst')
           }))"

definition eb_inv :: "EasyBuffer \<Rightarrow> bool" where
  "eb_inv b \<longleftrightarrow> length (eb_data b) = unat (eb_size b) \<and> eb_tail b = unat (eb_curr_size b) \<and>
     eb_curr_size b \<le> eb_size b"

definition eb_cont :: "EasyBuffer \<Rightarrow> byte list" where
  "eb_cont b = take (eb_tail b) (eb_data b)"

definition eb_cap :: "EasyBuffer \<Rightarrow> nat" where
  "eb_cap b = unat (eb_size b)"

lemma eb_inv_length: "eb_inv b \<Longrightarrow> length (eb_cont b) = unat (eb_curr_size b)"
  by (simp add: eb_inv_def eb_cont_def word_le_nat_alt)

lemma eb_create_inv:
  "CreateEasyBuffer m1 m2 n = Some b \<Longrightarrow> eb_inv b \<and> eb_cont b = [] \<and> eb_cap b = unat n"
  by (auto simp: CreateEasyBuffer_def eb_inv_def eb_cont_def eb_cap_def split: if_splits)

lemma eb_push_fits:
  assumes "eb_inv b" and "length item = unat n" and "length (eb_cont b) + unat n < eb_cap b"
  shows "\<exists>b'. PushToEasyBuffer b item n = Some (True, b') \<and> eb_inv b' \<and>
           eb_cont b' = eb_cont b @ item \<and> eb_cap b' = eb_cap b"
proof -
  have lt: "unat (eb_curr_size b) + unat n < unat (eb_size b)"
    using assms(1,3) by (simp add: eb_inv_length eb_cap_def)
  then have sum: "unat (eb_curr_size b + n) = unat (eb_curr_size b) + unat n"
    using unat_less_u32 [of "eb_size b"] by (intro unat_add_no_wrap) (simp only: len32)
  then have guard: "\<not> eb_size b \<le> eb_curr_size b + n"
    using lt by (simp add: word_le_nat_alt)
  show ?thesis
    using assms lt sum guard
    by (auto simp: PushToEasyBuffer_def eb_inv_def eb_cont_def eb_cap_def word_le_nat_alt mem_simps)
qed

lemma eb_push_full:
  assumes "eb_inv b" and "eb_cap b \<le> length (eb_cont b) + unat n"
    and "length (eb_cont b) + unat n < 2 ^ 32"
  shows "PushToEasyBuffer b item n = Some (False, b)"
proof -
  have "unat (eb_curr_size b + n) = unat (eb_curr_size b) + unat n"
    using assms(1,3) by (intro unat_add_no_wrap) (simp add: eb_inv_length)
  then show ?thesis
    using assms(1,2) by (simp add: PushToEasyBuffer_def word_le_nat_alt eb_inv_length eb_cap_def)
qed

lemma eb_pop_some:
  assumes "eb_inv b" and "k = min (unat n) (length (eb_cont b))" and "k \<le> length d"
  shows "\<exists>b'. PopFromEasyBuffer b (Some d) n =
            Some (of_nat k, b', Some (drop (length (eb_cont b) - k) (eb_cont b) @ drop k d)) \<and>
          eb_inv b' \<and> eb_cont b' = take (length (eb_cont b) - k) (eb_cont b) \<and> eb_cap b' = eb_cap b"
proof -
  define m where "m = (if eb_curr_size b < n then eb_curr_size b else n)"
  have k: "unat m = k" and le: "m \<le> eb_curr_size b"
    using assms(1,2) by (auto simp: m_def eb_inv_length word_less_nat_alt word_le_nat_alt min_def)
  have sub: "unat (eb_curr_size b - m) = unat (eb_curr_size b) - k"
    using unat_sub_le [OF le] k by simp
  have ofk: "m = of_nat k"
    using k by (metis word_of_unat)
  have bounds: "k \<le> eb_tail b" "eb_tail b \<le> length (eb_data b)" "length (eb_data b) = unat (eb_size b)"
    "eb_tail b = unat (eb_curr_size b)"
    using assms(1) le k by (auto simp: eb_inv_def word_le_nat_alt)
  have len: "length (eb_cont b) = eb_tail b"
    using bounds by (simp add: eb_cont_def)
  have pop: "PopFromEasyBuffer b (Some d) n =
      Some (m, b\<lparr>eb_tail := eb_tail b - k, eb_curr_size := eb_curr_size b - m\<rparr>,
        Some (take k (drop (eb_tail b - k) (eb_data b)) @ drop k d))"
    using bounds assms(3) by (simp add: PopFromEasyBuffer_def m_def [symmetric] k mem_simps Let_def)
  show ?thesis
    unfolding pop len ofk [symmetric] using assms(1) sub bounds
    by (auto simp: eb_inv_def eb_cont_def eb_cap_def word_le_nat_alt take_drop min_def)
qed

interpretation eb: byte_stack eb_inv eb_cont eb_cap PushToEasyBuffer PopFromEasyBuffer
proof unfold_locales
  fix b assume "eb_inv b"
  show "eb_cap b < 2 ^ 32" by (simp add: eb_cap_def)
next
  fix b assume "eb_inv b"
  then show "length (eb_cont b) \<le> eb_cap b"
    by (simp add: eb_inv_length eb_cap_def) (simp add: eb_inv_def word_le_nat_alt)
next
  fix b n show "PopFromEasyBuffer b None n = Some (0, b, None)"
    by (simp add: PopFromEasyBuffer_def)
qed (use eb_push_fits eb_push_full eb_pop_some in auto)


section \<open>easy_log.c\<close>

abbreviation BUFFER_MAX_SIZE :: nat where "BUFFER_MAX_SIZE \<equiv> 65535"

datatype log_level = LOG_DEBUG_LEVEL | LOG_STATE_LEVEL | LOG_WARNING_LEVEL | LOG_ERROR_LEVEL

text \<open>The objects the logger owns, to follow what \<open>StopEasyLog\<close> releases.\<close>

datatype log_object = CriticalSection | BufferStruct | BufferData | FileHandle | EventHandle | ThreadHandle

text \<open>
  \<open>el_event\<close> is whether the event is signalled, \<open>None\<close> when it could not be created.  \<open>el_file\<close> is
  the contents of the file and the position of its handle, \<open>None\<close> when the file could not be opened.
  \<open>el_writes\<close> is the trace of the calls of \<open>WriteFile\<close>: the block to write and how many bytes of it were written.
\<close>

record EasyLog =
  el_level :: log_level
  el_event :: "bool option"
  el_buffer :: EasyBuffer
  el_file :: "(byte list \<times> nat) option"
  el_writes :: "(byte list \<times> nat) list"
  el_live :: "log_object list"

record SYSTEMTIME =
  wYear :: u16
  wMonth :: u16
  wDay :: u16
  wHour :: u16
  wMinute :: u16
  wSecond :: u16

definition wstr :: "string \<Rightarrow> u16 list" where
  "wstr s = map of_char s"

fun dec_digits :: "nat \<Rightarrow> u16 list" where
  "dec_digits n = (if n < 10 then [48 + of_nat n] else dec_digits (n div 10) @ [48 + of_nat (n mod 10)])"

declare dec_digits.simps [simp del]

text \<open>The conversion \<open>%02d\<close>.\<close>

definition fmt02d :: "u16 \<Rightarrow> u16 list" where
  "fmt02d w = (let ds = dec_digits (unat w) in if length ds < 2 then 48 # ds else ds)"

fun Level2String :: "log_level \<Rightarrow> u16 list" where
  "Level2String LOG_DEBUG_LEVEL = wstr ''DEBUG''"
| "Level2String LOG_WARNING_LEVEL = wstr ''WARNI''"
| "Level2String LOG_ERROR_LEVEL = wstr ''ERROR''"
| "Level2String LOG_STATE_LEVEL = wstr ''STATE''"

text \<open>The line that \<open>PushEasyLog\<close> formats into \<open>realBuffer\<close>; \<open>%s\<close> ends at the first NUL of the message.\<close>

definition log_line :: "log_level \<Rightarrow> SYSTEMTIME \<Rightarrow> u16 list \<Rightarrow> u16 list" where
  "log_line lvl now msg =
     wstr ''['' @ fmt02d (wYear now) @ wstr ''.'' @ fmt02d (wMonth now) @ wstr ''.'' @ fmt02d (wDay now) @
     wstr '' '' @ fmt02d (wHour now) @ wstr '':'' @ fmt02d (wMinute now) @ wstr '':'' @ fmt02d (wSecond now) @
     wstr '']['' @ Level2String lvl @ wstr '']'' @ takeWhile (\<lambda>c. c \<noteq> 0) msg @ [13, 10]"

definition wcslen :: "u16 list \<Rightarrow> nat" where
  "wcslen s = length (takeWhile (\<lambda>c. c \<noteq> 0) s)"

definition wbytes :: "u16 list \<Rightarrow> byte list" where
  "wbytes s = concat (map le16 s)"

definition log_objects :: "log_object list" where
  "log_objects = [CriticalSection, BufferStruct, BufferData, FileHandle, EventHandle, ThreadHandle]"

text \<open>\<open>WriteFile\<close> at the position of the handle, of which the first \<open>k\<close> bytes get written: none when it fails.\<close>

definition WriteFile :: "nat \<Rightarrow> byte list \<Rightarrow> EasyLog \<Rightarrow> EasyLog" where
  "WriteFile k bs l = l\<lparr>el_writes := el_writes l @ [(bs, k)],
     el_file := map_option (\<lambda>(f, pos). (take pos f @ take k bs @ drop (pos + length (take k bs)) f, pos + length (take k bs))) (el_file l)\<rparr>"

text \<open>
  \<open>old\<close> is the answer of \<open>CreateFile\<close> with \<open>OPEN_ALWAYS\<close>: \<open>None\<close> when it fails, otherwise what the file
  holds already, nothing when it is new; the position is its start in any case.
\<close>

definition StartEasyLog :: "bool \<Rightarrow> bool \<Rightarrow> byte list option \<Rightarrow> nat \<Rightarrow> bool \<Rightarrow> log_level \<Rightarrow> EasyLog option" where
  "StartEasyLog malloc1 malloc2 old k event iLogLevel = do {
     b \<leftarrow> CreateEasyBuffer malloc1 malloc2 (of_nat BUFFER_MAX_SIZE);
     let l = \<lparr>el_level = iLogLevel, el_event = None, el_buffer = b, el_file = map_option (\<lambda>f. (f, 0)) old, el_writes = [],
              el_live = log_objects\<rparr>;
     let l = WriteFile k (le32 0xFEFF) l;
     Some (l\<lparr>el_event := (if event then Some False else None)\<rparr>)
   }"

definition StopEasyLog :: "EasyLog \<Rightarrow> EasyLog" where
  "StopEasyLog l = l\<lparr>el_live := filter (\<lambda>x. x \<notin> {CriticalSection, BufferStruct, FileHandle, EventHandle, ThreadHandle}) (el_live l)\<rparr>"

definition DestroyEasyBuffer :: "EasyLog \<Rightarrow> EasyLog" where
  "DestroyEasyBuffer l = l\<lparr>el_live := filter (\<lambda>x. x \<notin> {BufferData, BufferStruct}) (el_live l)\<rparr>"

definition GetEasyLogLevel :: "EasyLog \<Rightarrow> log_level" where
  "GetEasyLogLevel l = el_level l"

text \<open>
  \<open>msg\<close> is the expanded format string.  The bounds check counts it with its terminator;
  \<open>_stprintf_s\<close> aborts the process when the decorated line does not fit (\<open>None\<close>).
\<close>

definition PushEasyLog ::
  "EasyLog \<Rightarrow> log_level \<Rightarrow> SYSTEMTIME \<Rightarrow> u16 list \<Rightarrow> (bool \<times> EasyLog) option" where
  "PushEasyLog l iLogLevel now msg =
     (if length msg + 1 \<le> BUFFER_MAX_SIZE then
        (let realBuffer = log_line iLogLevel now msg in
         if length realBuffer + 1 \<le> BUFFER_MAX_SIZE then do {
           let n = wcslen realBuffer * 2;
           (bRet, b) \<leftarrow> PushToEasyBuffer (el_buffer l) (take n (wbytes realBuffer)) (of_nat n);
           Some (bRet, l\<lparr>el_event := map_option (\<lambda>_. True) (el_event l), el_buffer := b\<rparr>)
         } else None)
      else Some (False, l))"

text \<open>One iteration of the output thread, entered when the event is signalled; \<open>k\<close> bytes get written to the file.\<close>

definition OutputEasyLog :: "nat \<Rightarrow> EasyLog \<Rightarrow> EasyLog option" where
  "OutputEasyLog k l = do {
     let iCurrSize = (ucast (eb_curr_size (el_buffer l)) :: u16);
     (n, b, dst) \<leftarrow> PopFromEasyBuffer (el_buffer l) (Some (replicate (2 * BUFFER_MAX_SIZE) 0)) (ucast iCurrSize);
     let iLength = (ucast n :: u16);
     let l' = l\<lparr>el_buffer := b\<rparr>;
     if iLength \<noteq> 0
     then Some (WriteFile k (take (unat iLength) (the dst)) (l'\<lparr>el_event := map_option (\<lambda>_. False) (el_event l)\<rparr>))
     else Some l'
   }"

definition log_bytes :: "log_level \<Rightarrow> SYSTEMTIME \<Rightarrow> u16 list \<Rightarrow> byte list" where
  "log_bytes lvl now msg = take (wcslen (log_line lvl now msg) * 2) (wbytes (log_line lvl now msg))"

text \<open>
  Any interleaving of pushes by client threads and iterations of the output thread, from a start with any answers
  of Windows; the last argument lists the lines that were accepted, oldest first.
\<close>

inductive log_reach :: "byte list option \<Rightarrow> EasyLog \<Rightarrow> byte list list \<Rightarrow> bool" for old where
  start: "StartEasyLog m1 m2 old k event lvl = Some l \<Longrightarrow> log_reach old l []"
| push: "log_reach old l hs \<Longrightarrow> PushEasyLog l lvl now msg = Some (True, l') \<Longrightarrow>
    log_reach old l' (hs @ [log_bytes lvl now msg])"
| drop: "log_reach old l hs \<Longrightarrow> PushEasyLog l lvl now msg = Some (False, l') \<Longrightarrow> log_reach old l' hs"
| flush: "log_reach old l hs \<Longrightarrow> el_event l = Some True \<Longrightarrow> OutputEasyLog k l = Some l' \<Longrightarrow> log_reach old l' hs"

definition el_inv :: "EasyLog \<Rightarrow> bool" where
  "el_inv l \<longleftrightarrow> eb_inv (el_buffer l) \<and> eb_cap (el_buffer l) = BUFFER_MAX_SIZE"

definition log_BOM :: "byte list" where
  "log_BOM = le32 0xFEFF"

lemma length_wbytes [simp]: "length (wbytes s) = 2 * length s"
  by (induction s) (auto simp: wbytes_def)

lemma wcslen_le: "wcslen s \<le> length s"
  by (simp add: wcslen_def length_takeWhile_le)

lemma length_log_bytes:
  "length (log_bytes lvl now msg) = wcslen (log_line lvl now msg) * 2"
  using wcslen_le [of "log_line lvl now msg"] by (simp add: log_bytes_def min_def)

lemma PushEasyLog_cases:
  assumes "el_inv l" and "PushEasyLog l lvl now msg = Some (ok, l')"
  shows "el_inv l' \<and> el_file l' = el_file l \<and> el_writes l' = el_writes l \<and>
    eb_cont (el_buffer l') = (if ok then eb_cont (el_buffer l) @ log_bytes lvl now msg else eb_cont (el_buffer l))"
proof (cases "length msg + 1 \<le> BUFFER_MAX_SIZE")
  case False
  with assms show ?thesis by (auto simp: PushEasyLog_def)
next
  case True
  let ?b = "el_buffer l" and ?n = "wcslen (log_line lvl now msg) * 2"
  from True assms(2) have fit: "length (log_line lvl now msg) + 1 \<le> BUFFER_MAX_SIZE"
    by (auto simp: PushEasyLog_def Let_def split: if_splits)
  with wcslen_le [of "log_line lvl now msg"] have n: "?n < 131070" by simp
  then have un: "unat (of_nat ?n :: u32) = ?n" by (intro unat_of_nat_less) simp
  obtain b where b: "PushToEasyBuffer ?b (log_bytes lvl now msg) (of_nat ?n) = Some (ok, b)"
    and l': "l' = l\<lparr>el_event := map_option (\<lambda>_. True) (el_event l), el_buffer := b\<rparr>"
    using True fit assms(2) by (auto simp: PushEasyLog_def Let_def log_bytes_def bind_eq_Some_conv)
  have inv: "eb_inv ?b" "eb_cap ?b = BUFFER_MAX_SIZE"
    using assms(1) by (auto simp: el_inv_def)
  have "length (eb_cont ?b) \<le> BUFFER_MAX_SIZE"
    using eb.cont_bound [OF inv(1)] inv(2) by simp
  then have "length (eb_cont ?b) + unat (of_nat ?n :: u32) < 2 ^ 32"
    using n un by simp
  from eb.push_cont [OF inv(1) _ this b] l' inv(2) un show ?thesis
    by (simp add: el_inv_def length_log_bytes)
qed

lemma OutputEasyLog_cases:
  assumes "el_inv l"
  shows "\<exists>b. OutputEasyLog k l = Some (if eb_cont (el_buffer l) = [] then l\<lparr>el_buffer := b\<rparr>
      else WriteFile k (eb_cont (el_buffer l)) (l\<lparr>el_buffer := b, el_event := map_option (\<lambda>_. False) (el_event l)\<rparr>)) \<and>
    eb_inv b \<and> eb_cap b = BUFFER_MAX_SIZE \<and> eb_cont b = []"
proof -
  let ?b = "el_buffer l" and ?d = "replicate (2 * BUFFER_MAX_SIZE) (0 :: byte)"
  have inv: "eb_inv ?b" "eb_cap ?b = BUFFER_MAX_SIZE"
    using assms by (auto simp: el_inv_def)
  have len: "length (eb_cont ?b) \<le> BUFFER_MAX_SIZE"
    using eb.cont_bound [OF inv(1)] inv(2) by simp
  have cs: "unat (eb_curr_size ?b) = length (eb_cont ?b)"
    using inv(1) by (simp add: eb_inv_length)
  have small: "length (eb_cont ?b) mod 65536 = length (eb_cont ?b)"
    using len by simp
  have n: "(ucast (ucast (eb_curr_size ?b) :: u16) :: u32) = of_nat (length (eb_cont ?b))" (is "?n = _")
    by (rule word_unat_eq_iff [THEN iffD2])
      (use len in \<open>simp add: unat_ucast_down16 cs unat_of_nat\<close>)
  have un: "unat (ucast ?n :: u16) = length (eb_cont ?b)"
    using len by (simp only: unat_ucast_down16 unat_ucast_up32 cs small)
  obtain b' where b': "PopFromEasyBuffer ?b (Some ?d) ?n = Some (?n, b', Some (eb_cont ?b @ drop (length (eb_cont ?b)) ?d))"
    "eb_inv b'" "eb_cont b' = []" "eb_cap b' = eb_cap ?b"
    using eb.pop_all [OF inv(1) n, of ?d] len by auto
  show ?thesis
    using b' un inv(2) by (auto simp: OutputEasyLog_def Let_def el_inv_def unat_eq_zero [symmetric])
qed

lemma WriteFile_simps [simp]: "el_buffer (WriteFile k bs l) = el_buffer l" "el_writes (WriteFile k bs l) = el_writes l @ [(bs, k)]"
    "el_event (WriteFile k bs l) = el_event l" "el_inv (WriteFile k bs l) = el_inv l"
  by (simp_all add: WriteFile_def el_inv_def)

text \<open>What the calls of \<open>WriteFile\<close> were given, and what they wrote.\<close>

definition log_given :: "EasyLog \<Rightarrow> byte list" where
  "log_given l = concat (map fst (el_writes l))"

definition log_written :: "EasyLog \<Rightarrow> byte list" where
  "log_written l = concat (map (\<lambda>(bs, k). take k bs) (el_writes l))"

definition log_file_ok :: "byte list option \<Rightarrow> EasyLog \<Rightarrow> bool" where
  "log_file_ok old l \<longleftrightarrow> el_file l = map_option (\<lambda>f. (log_written l @ drop (length (log_written l)) f, length (log_written l))) old"

lemma WriteFile_file: "log_file_ok old l \<Longrightarrow> log_file_ok old (WriteFile k bs l)"
  by (cases old) (simp_all add: log_file_ok_def log_written_def WriteFile_def add.commute)

lemma log_reach_facts: "log_reach old l hs \<Longrightarrow>
    el_inv l \<and> log_file_ok old l \<and> log_given l @ eb_cont (el_buffer l) = log_BOM @ concat hs"
proof (induction rule: log_reach.induct)
  case (start m1 m2 k event lvl l)
  then obtain b where b: "CreateEasyBuffer m1 m2 (of_nat BUFFER_MAX_SIZE) = Some b"
    and l: "l = WriteFile k log_BOM \<lparr>el_level = lvl, el_event = None, el_buffer = b, el_file = map_option (\<lambda>f. (f, 0)) old, el_writes = [],
        el_live = log_objects\<rparr>\<lparr>el_event := (if event then Some False else None)\<rparr>" (is "_ = WriteFile k log_BOM ?l0\<lparr>el_event := ?e\<rparr>")
    by (auto simp: StartEasyLog_def log_BOM_def Let_def split: Option.bind_splits)
  have "log_file_ok old ?l0" by (cases old) (simp_all add: log_file_ok_def log_written_def)
  then have "log_file_ok old (WriteFile k log_BOM ?l0)" by (rule WriteFile_file)
  then show ?case using eb_create_inv [OF b] by (simp add: l el_inv_def log_file_ok_def log_written_def log_given_def)
next
  case (flush l hs k l')
  from flush.IH have I: "el_inv l" "log_file_ok old l" by simp_all
  obtain b where b: "l' = (if eb_cont (el_buffer l) = [] then l\<lparr>el_buffer := b\<rparr>
      else WriteFile k (eb_cont (el_buffer l)) (l\<lparr>el_buffer := b, el_event := map_option (\<lambda>_. False) (el_event l)\<rparr>))"
      "eb_inv b" "eb_cap b = BUFFER_MAX_SIZE" "eb_cont b = []"
    using OutputEasyLog_cases [OF I(1), of k] flush.hyps(3) by auto
  have "log_file_ok old (l\<lparr>el_buffer := b, el_event := e\<rparr>)" for e using I(2) by (simp add: log_file_ok_def log_written_def)
  then have "log_file_ok old (WriteFile k (eb_cont (el_buffer l)) (l\<lparr>el_buffer := b, el_event := e\<rparr>))" for e by (rule WriteFile_file)
  then show ?case using I flush.IH b by (auto simp: el_inv_def log_given_def log_file_ok_def log_written_def)
qed (auto simp: log_given_def log_file_ok_def log_written_def dest: PushEasyLog_cases)

lemma log_reach_inv: "log_reach old l hs \<Longrightarrow> el_inv l"
  using log_reach_facts by blast

text \<open>C21: Whatever the interleaving of pushes and of the output thread and whatever Windows answers, every byte
  of the byte-order mark and of the accepted lines is, in the order of acceptance and once, given to a call of \<open>WriteFile\<close> or still
  buffered.  The file, if it could be opened, starts with what those calls have written, of each block the part that its call wrote, and goes on
  with what it held before behind that position.  So a byte is lost exactly when the call that was given it did not write it.\<close>

theorem log_no_loss_no_reorder:
  assumes "log_reach old l hs"
  shows "concat (map fst (el_writes l)) @ eb_cont (el_buffer l) = log_BOM @ concat hs \<and>
    el_file l = map_option (\<lambda>f. let w = concat (map (\<lambda>(bs, k). take k bs) (el_writes l)) in (w @ drop (length w) f, length w)) old"
  using log_reach_facts [OF assms] by (simp add: log_given_def log_file_ok_def log_written_def Let_def)

text \<open>A small execution: one line accepted and flushed.\<close>

definition log_t0 :: SYSTEMTIME where
  "log_t0 = \<lparr>wYear = 2014, wMonth = 12, wDay = 3, wHour = 4, wMinute = 5, wSecond = 6\<rparr>"

definition log_l0 :: EasyLog where
  "log_l0 = \<lparr>el_level = LOG_DEBUG_LEVEL, el_event = Some False,
     el_buffer = \<lparr>eb_data = replicate BUFFER_MAX_SIZE 0, eb_tail = 0,
       eb_size = of_nat BUFFER_MAX_SIZE, eb_curr_size = 0\<rparr>,
     el_file = Some (le32 0xFEFF, 4), el_writes = [(le32 0xFEFF, 4)], el_live = log_objects\<rparr>"

lemma log_l0_start: "StartEasyLog True True (Some []) 4 True LOG_DEBUG_LEVEL = Some log_l0"
  by (simp add: StartEasyLog_def CreateEasyBuffer_def WriteFile_def log_l0_def le32_def)

lemma log_l0_reach: "log_reach (Some []) log_l0 []"
  by (rule log_reach.start [OF log_l0_start])

lemma length_fmt02d: "2 \<le> length (fmt02d w)"
  by (auto simp: fmt02d_def Let_def) (subst dec_digits.simps, simp)

lemma length_Level2String [simp]: "length (Level2String lvl) = 5"
  by (cases lvl) (simp_all add: wstr_def)

lemma length_log_line: "wcslen msg + 28 \<le> length (log_line lvl now msg)"
  using length_fmt02d [of "wYear now"] length_fmt02d [of "wMonth now"] length_fmt02d [of "wDay now"]
    length_fmt02d [of "wHour now"] length_fmt02d [of "wMinute now"] length_fmt02d [of "wSecond now"]
  by (simp add: log_line_def wstr_def wcslen_def)

lemma log_l0_push:
  "\<exists>l'. PushEasyLog log_l0 LOG_DEBUG_LEVEL log_t0 [65, 66] = Some (True, l')"
proof -
  let ?m = "[65, 66] :: u16 list" and ?n = "wcslen (log_line LOG_DEBUG_LEVEL log_t0 [65, 66]) * 2"
  have line: "log_line LOG_DEBUG_LEVEL log_t0 ?m = wstr ''[2014.12.03 04:05:06][DEBUG]AB'' @ [13, 10]"
    by (simp add: log_line_def log_t0_def fmt02d_def dec_digits.simps wstr_def)
  then have "?n = 64" by (simp add: wcslen_def wstr_def)
  moreover have "length (log_bytes LOG_DEBUG_LEVEL log_t0 ?m) = 64"
    using \<open>?n = 64\<close> by (simp add: length_log_bytes)
  moreover have "el_inv log_l0" by (rule log_reach_inv [OF log_l0_reach])
  ultimately obtain b where
    "PushToEasyBuffer (el_buffer log_l0) (log_bytes LOG_DEBUG_LEVEL log_t0 ?m) 64 = Some (True, b)"
    using eb.push_fits [of "el_buffer log_l0" "log_bytes LOG_DEBUG_LEVEL log_t0 ?m" 64]
    by (auto simp: el_inv_def log_l0_def eb_cont_def)
  then show ?thesis
    using \<open>?n = 64\<close> line by (simp add: PushEasyLog_def Let_def log_bytes_def wstr_def)
qed

theorem log_no_loss_no_reorder_witness:
  "\<exists>l. log_reach (Some []) l [log_bytes LOG_DEBUG_LEVEL log_t0 [65, 66]] \<and>
     concat (map fst (el_writes l)) @ eb_cont (el_buffer l) = log_BOM @ concat [log_bytes LOG_DEBUG_LEVEL log_t0 [65, 66]]"
proof -
  obtain l where "PushEasyLog log_l0 LOG_DEBUG_LEVEL log_t0 [65, 66] = Some (True, l)"
    using log_l0_push by blast
  from log_reach.push [OF log_l0_reach this] have "log_reach (Some []) l [log_bytes LOG_DEBUG_LEVEL log_t0 [65, 66]]"
    by simp
  from this log_no_loss_no_reorder [OF this] show ?thesis by blast
qed

text \<open>C31: In every reachable state one iteration of the output thread succeeds (no buffer overrun,
  and the 16-bit truncation of the size loses nothing) and empties the buffer: it calls \<open>WriteFile\<close> once, with everything that is
  buffered, or not at all when nothing is.  After it all accepted lines have been given to \<open>WriteFile\<close>; if every call wrote its whole block, the
  file starts with the byte-order mark and all accepted lines.\<close>

theorem log_drain:
  assumes "log_reach old l hs"
  shows "\<exists>l'. OutputEasyLog k l = Some l' \<and> eb_cont (el_buffer l') = [] \<and>
    el_writes l' = el_writes l @ (if eb_cont (el_buffer l) = [] then [] else [(eb_cont (el_buffer l), k)]) \<and>
    concat (map fst (el_writes l')) = log_BOM @ concat hs \<and>
    (\<forall>f. old = Some f \<and> (\<forall>(bs, n) \<in> set (el_writes l'). length bs \<le> n) \<longrightarrow>
      (\<exists>rest. el_file l' = Some (log_BOM @ concat hs @ rest, length (log_BOM @ concat hs))))"
proof -
  note L = log_reach_facts [OF assms]
  obtain b where b: "OutputEasyLog k l = Some (if eb_cont (el_buffer l) = [] then l\<lparr>el_buffer := b\<rparr>
      else WriteFile k (eb_cont (el_buffer l)) (l\<lparr>el_buffer := b, el_event := map_option (\<lambda>_. False) (el_event l)\<rparr>))" (is "_ = Some ?l'")
      "eb_cont b = []"
    using OutputEasyLog_cases [of l k] L by auto
  have "log_file_ok old (l\<lparr>el_buffer := b, el_event := e\<rparr>)" for e using L by (simp add: log_file_ok_def log_written_def)
  from WriteFile_file [OF this] have f: "log_file_ok old ?l'" using L by (simp add: log_file_ok_def log_written_def)
  have g: "concat (map fst (el_writes ?l')) = log_BOM @ concat hs" using L by (auto simp: log_given_def)
  have w: "log_written ?l' = log_given ?l'" if "\<forall>(bs, n) \<in> set (el_writes ?l'). length bs \<le> n"
    using that unfolding log_written_def log_given_def by (intro arg_cong [of _ _ concat] map_cong) auto
  show ?thesis
    using b g f w by (intro exI [of _ ?l']) (auto simp: log_file_ok_def log_given_def)
qed

theorem log_drain_witness:
  "log_reach (Some []) log_l0 [] \<and> (\<exists>l'. OutputEasyLog 0 log_l0 = Some l' \<and> eb_cont (el_buffer l') = [] \<and>
     concat (map fst (el_writes l')) = log_BOM @ concat [])"
  using log_l0_reach log_drain [OF log_l0_reach] by blast

text \<open>The length check of \<open>PushEasyLog\<close> counts the message alone: a message without NUL that passes it
  but leaves no room for the time stamp, the level and the line end makes \<open>_stprintf_s\<close> abort.\<close>

theorem log_push_abort:
  assumes "length msg + 1 \<le> BUFFER_MAX_SIZE" and "BUFFER_MAX_SIZE < wcslen msg + 29"
  shows "PushEasyLog l lvl now msg = None"
  using assms length_log_line [of msg lvl now] by (simp add: PushEasyLog_def Let_def)

theorem log_push_abort_witness:
  "length (replicate 65530 (65 :: u16)) + 1 \<le> BUFFER_MAX_SIZE \<and>
   PushEasyLog log_l0 LOG_DEBUG_LEVEL log_t0 (replicate 65530 65) = None"
  using log_push_abort [of "replicate 65530 65" log_l0 LOG_DEBUG_LEVEL log_t0] by (simp add: wcslen_def takeWhile_replicate)

text \<open>A line longer than the buffer, pushed on an empty buffer, is refused with the event
  signalled; the output thread then finds nothing to write and never resets the event, so its next
  iterations change nothing and never block.\<close>

theorem log_spins_on_oversized_line:
  assumes "el_inv l" and "eb_cont (el_buffer l) = []" and "el_event l \<noteq> None"
    and "length msg + 1 \<le> BUFFER_MAX_SIZE" and "length (log_line lvl now msg) + 1 \<le> BUFFER_MAX_SIZE"
    and "BUFFER_MAX_SIZE \<le> wcslen (log_line lvl now msg) * 2"
  shows "\<exists>l'. PushEasyLog l lvl now msg = Some (False, l') \<and> el_event l' = Some True \<and>
    (\<exists>l''. OutputEasyLog k l' = Some l'' \<and> el_event l'' = Some True \<and> el_writes l'' = el_writes l \<and>
       eb_cont (el_buffer l'') = [])"
proof -
  let ?n = "wcslen (log_line lvl now msg) * 2" and ?b = "el_buffer l"
  let ?l' = "l\<lparr>el_event := Some True\<rparr>"
  have un: "unat (of_nat ?n :: u32) = ?n"
    using assms(5) wcslen_le [of "log_line lvl now msg"] by (intro unat_of_nat_less) simp
  have "PushToEasyBuffer ?b (log_bytes lvl now msg) (of_nat ?n) = Some (False, ?b)"
    using assms un wcslen_le [of "log_line lvl now msg"]
    by (intro eb.push_full) (auto simp: el_inv_def)
  then have push: "PushEasyLog l lvl now msg = Some (False, ?l')"
    using assms(3-5) by (auto simp: PushEasyLog_def Let_def log_bytes_def)
  have "el_inv ?l'" and "eb_cont (el_buffer ?l') = []"
    using assms(1,2) by (simp_all add: el_inv_def)
  then show ?thesis
    using OutputEasyLog_cases [of ?l' k] push by auto
qed

theorem log_spins_on_oversized_line_witness:
  "\<exists>l'. PushEasyLog log_l0 LOG_DEBUG_LEVEL log_t0 (replicate 40000 65) = Some (False, l') \<and> el_event l' = Some True \<and>
    (\<exists>l''. OutputEasyLog 0 l' = Some l'' \<and> el_event l'' = Some True \<and> el_writes l'' = el_writes log_l0 \<and>
       eb_cont (el_buffer l'') = [])"
proof -
  have line: "log_line LOG_DEBUG_LEVEL log_t0 (replicate 40000 65) =
      wstr ''[2014.12.03 04:05:06][DEBUG]'' @ replicate 40000 65 @ [13, 10]"
    by (simp add: log_line_def log_t0_def fmt02d_def dec_digits.simps wstr_def takeWhile_replicate)
  show ?thesis
    by (rule log_spins_on_oversized_line)
      (simp_all add: log_reach_inv [OF log_l0_reach] line wcslen_def wstr_def takeWhile_append
        takeWhile_replicate, auto simp: log_l0_def eb_cont_def)
qed

text \<open>\<open>StopEasyLog\<close> releases every object of the logger but the byte block of its buffer,
  which \<open>DestroyEasyBuffer\<close> would have released.\<close>

theorem log_stop_leaks_block:
  assumes "StartEasyLog m1 m2 old k event lvl = Some l"
  shows "el_live (StopEasyLog l) = [BufferData] \<and> el_live (StopEasyLog (DestroyEasyBuffer l)) = []"
  using assms
  by (auto simp: StartEasyLog_def WriteFile_def StopEasyLog_def DestroyEasyBuffer_def log_objects_def Let_def bind_eq_Some_conv)

theorem log_stop_leaks_block_witness:
  "el_live (StopEasyLog log_l0) = [BufferData] \<and> el_live (StopEasyLog (DestroyEasyBuffer log_l0)) = []"
  by (rule log_stop_leaks_block [OF log_l0_start])

end
