(* ===== verification/EasyStream.thy ===== *)
theory EasyStream
  imports Prelude
begin

text \<open>
  The typed byte streams of the C++ layer: \<open>EasyServer/EasyMidware/easy_stream.h\<close>.

  A value of a template type \<open>T\<close> is its object representation, a list of \<open>sizeof(T)\<close> bytes;
  an array of such values is the list of their representations.  \<open>Serialize\<close> returns the C++ result
  together with the new stream; \<open>None\<close> is a copy outside one of the two arrays.
\<close>

section \<open>Streams\<close>

abbreviation STREAM_BUFFER :: nat where "STREAM_BUFFER \<equiv> 1024"

record OutputStream =
  o_iDataLength :: u16
  o_DataBuffer :: "byte list"

record InputStream =
  i_iDataLength :: u16
  i_iDataIndex :: u16
  i_DataBuffer :: "byte list"

definition OutputStream_new :: OutputStream where
  "OutputStream_new = \<lparr>o_iDataLength = 0, o_DataBuffer = replicate STREAM_BUFFER 0\<rparr>"

definition OutputStream_GetDataLength :: "OutputStream \<Rightarrow> u16" where
  "OutputStream_GetDataLength st = o_iDataLength st"

definition OutputStream_GetBuffer :: "OutputStream \<Rightarrow> byte list" where
  "OutputStream_GetBuffer st = o_DataBuffer st"

definition OutputStream_Serialize :: "byte list \<Rightarrow> OutputStream \<Rightarrow> (bool \<times> OutputStream) option" where
  "OutputStream_Serialize value st =
     (if unat (o_iDataLength st) + length value \<le> length (o_DataBuffer st)
      then do {
        buf \<leftarrow> memcpy (o_DataBuffer st) (unat (o_iDataLength st)) value 0 (length value);
        Some (True, \<lparr>o_iDataLength = o_iDataLength st + of_nat (length value), o_DataBuffer = buf\<rparr>)
      }
      else Some (False, st))"

text \<open>The array version computes its byte count in the 16-bit parameter itself.\<close>

definition OutputStream_SerializeArray :: "nat \<Rightarrow> u16 \<Rightarrow> byte list \<Rightarrow> OutputStream \<Rightarrow> (bool \<times> OutputStream) option" where
  "OutputStream_SerializeArray sizeof_T iCount arr st =
     (let iCount = iCount * of_nat sizeof_T in
      if unat (o_iDataLength st) + unat iCount \<le> length (o_DataBuffer st)
      then do {
        buf \<leftarrow> memcpy (o_DataBuffer st) (unat (o_iDataLength st)) arr 0 (unat iCount);
        Some (True, \<lparr>o_iDataLength = o_iDataLength st + iCount, o_DataBuffer = buf\<rparr>)
      }
      else Some (False, st))"

definition InputStream_new :: "u32 \<Rightarrow> byte list \<Rightarrow> InputStream" where
  "InputStream_new iLength pBuf = \<lparr>i_iDataLength = ucast iLength, i_iDataIndex = 0, i_DataBuffer = pBuf\<rparr>"

definition InputStream_GetDataLength :: "InputStream \<Rightarrow> u16" where
  "InputStream_GetDataLength st = i_iDataLength st"

definition InputStream_GetBuffer :: "InputStream \<Rightarrow> byte list" where
  "InputStream_GetBuffer st = i_DataBuffer st"

text \<open>\<open>m_iDataLength - m_iDataIndex\<close> is computed as an \<open>int\<close> and converted to \<open>size_t\<close> for the
  comparison.\<close>

definition InputStream_Serialize :: "nat \<Rightarrow> InputStream \<Rightarrow> ((bool \<times> byte list) \<times> InputStream) option" where
  "InputStream_Serialize sizeof_T st =
     (if sizeof_T \<le> unat (ucast (i_iDataLength st) - ucast (i_iDataIndex st) :: u32)
      then do {
        value \<leftarrow> mem_read (i_DataBuffer st) (unat (i_iDataIndex st)) sizeof_T;
        Some ((True, value), st\<lparr>i_iDataIndex := i_iDataIndex st + of_nat sizeof_T\<rparr>)
      }
      else Some ((False, []), st))"

definition InputStream_SerializeArray :: "nat \<Rightarrow> u16 \<Rightarrow> InputStream \<Rightarrow> ((bool \<times> byte list) \<times> InputStream) option" where
  "InputStream_SerializeArray sizeof_T iCount st =
     (let iCount = iCount * of_nat sizeof_T in
      if int (unat iCount) \<le> int (unat (i_iDataLength st)) - int (unat (i_iDataIndex st))
      then do {
        value \<leftarrow> mem_read (i_DataBuffer st) (unat (i_iDataIndex st)) (unat iCount);
        Some ((True, value), st\<lparr>i_iDataIndex := i_iDataIndex st + iCount\<rparr>)
      }
      else Some ((False, []), st))"

section \<open>Invariants\<close>

definition out_inv :: "OutputStream \<Rightarrow> bool" where
  "out_inv st \<longleftrightarrow> length (o_DataBuffer st) = STREAM_BUFFER \<and> unat (o_iDataLength st) \<le> STREAM_BUFFER"

definition in_inv :: "InputStream \<Rightarrow> bool" where
  "in_inv st \<longleftrightarrow> unat (i_iDataIndex st) \<le> unat (i_iDataLength st) \<and> unat (i_iDataLength st) \<le> length (i_DataBuffer st)"

definition written :: "OutputStream \<Rightarrow> byte list" where
  "written st = take (unat (o_iDataLength st)) (o_DataBuffer st)"

definition unread :: "InputStream \<Rightarrow> byte list" where
  "unread st = drop (unat (i_iDataIndex st)) (take (unat (i_iDataLength st)) (i_DataBuffer st))"

lemma out_new [simp]: "out_inv OutputStream_new" "written OutputStream_new = []"
  by (simp_all add: OutputStream_new_def out_inv_def written_def)

lemma unat_add_of_nat_u16:
  "unat (w :: u16) + n < 65536 \<Longrightarrow> unat (w + of_nat n) = unat w + n"
  by (subst unat_add_no_wrap) (simp_all add: unat_of_nat_less)

lemma out_Serialize:
  assumes "out_inv st"
  shows "\<exists>st'. OutputStream_Serialize v st = Some (length (written st) + length v \<le> STREAM_BUFFER, st') \<and> out_inv st' \<and>
    written st' = (if length (written st) + length v \<le> STREAM_BUFFER then written st @ v else written st)"
  using assms
  by (auto simp: OutputStream_Serialize_def out_inv_def written_def memcpy_Some unat_add_of_nat_u16)

lemma in_Serialize:
  assumes "in_inv st"
  shows "\<exists>st'. InputStream_Serialize n st = Some ((n \<le> length (unread st), if n \<le> length (unread st) then take n (unread st) else []), st') \<and>
    in_inv st' \<and> unread st' = (if n \<le> length (unread st) then drop n (unread st) else unread st)"
proof -
  have "unat (ucast (i_iDataLength st) - ucast (i_iDataIndex st) :: u32) = unat (i_iDataLength st) - unat (i_iDataIndex st)"
    using assms by (simp add: in_inv_def unat_sub_le word_le_nat_alt)
  moreover have "unat (i_iDataIndex st + of_nat n) = unat (i_iDataIndex st) + n"
    if "n \<le> unat (i_iDataLength st) - unat (i_iDataIndex st)" "in_inv st"
  proof -
    have "unat (i_iDataIndex st) + n \<le> unat (i_iDataLength st)" using that by (auto simp: in_inv_def)
    then have "unat (i_iDataIndex st) + n < 65536" by (rule le_less_trans) simp
    then show ?thesis by (rule unat_add_of_nat_u16)
  qed
  ultimately show ?thesis
    using assms by (auto simp: InputStream_Serialize_def in_inv_def unread_def drop_take min_def add.commute)
qed

section \<open>Sequences of values\<close>

text \<open>A message: its values one after the other, stopping at the first that does not fit.\<close>

primrec write_all :: "byte list list \<Rightarrow> OutputStream \<Rightarrow> (bool \<times> OutputStream) option" where
  "write_all [] st = Some (True, st)"
| "write_all (v # vs) st = do {
     (ok, st) \<leftarrow> OutputStream_Serialize v st;
     if ok then write_all vs st else Some (False, st)
   }"

primrec read_all :: "nat list \<Rightarrow> InputStream \<Rightarrow> ((bool \<times> byte list list) \<times> InputStream) option" where
  "read_all [] st = Some ((True, []), st)"
| "read_all (n # ns) st = do {
     ((ok, v), st) \<leftarrow> InputStream_Serialize n st;
     if ok then do { ((ok, vs), st) \<leftarrow> read_all ns st; Some ((ok, v # vs), st) } else Some ((False, []), st)
   }"

lemma write_all_ok:
  assumes "out_inv st" "length (written st) + length (concat vs) \<le> STREAM_BUFFER"
  shows "\<exists>st'. write_all vs st = Some (True, st') \<and> out_inv st' \<and> written st' = written st @ concat vs"
  using assms
proof (induction vs arbitrary: st)
  case (Cons v vs)
  obtain st1 where 1: "OutputStream_Serialize v st = Some (True, st1)" "out_inv st1" "written st1 = written st @ v"
    using out_Serialize [OF Cons.prems(1), of v] Cons.prems(2) by auto
  with Cons.IH [OF 1(2)] Cons.prems(2) show ?case by auto
qed simp

lemma read_all_ok:
  assumes "in_inv st" "unread st = concat vs @ rest"
  shows "\<exists>st'. read_all (map length vs) st = Some ((True, vs), st') \<and> in_inv st' \<and> unread st' = rest"
  using assms
proof (induction vs arbitrary: st)
  case (Cons v vs)
  obtain st1 where 1: "InputStream_Serialize (length v) st = Some ((True, v), st1)" "in_inv st1"
      "unread st1 = concat vs @ rest"
    using in_Serialize [OF Cons.prems(1), of "length v"] Cons.prems(2) by auto
  from Cons.IH [OF 1(2,3)] 1(1) show ?case by auto
qed simp

text \<open>C18: Round trip.  Values that fit together into the stream buffer are all written, and an input
  stream over the written bytes gives them back in order and is then exhausted.\<close>
theorem stream_roundtrip:
  assumes "length (concat vs) \<le> STREAM_BUFFER"
  shows "\<exists>st i. write_all vs OutputStream_new = Some (True, st) \<and>
    read_all (map length vs) (InputStream_new (ucast (OutputStream_GetDataLength st)) (OutputStream_GetBuffer st)) =
      Some ((True, vs), i) \<and> unread i = []"
proof -
  obtain st where st: "write_all vs OutputStream_new = Some (True, st)" "out_inv st" "written st = concat vs"
    using write_all_ok [OF out_new(1), of vs] assms by auto
  let ?i = "InputStream_new (ucast (OutputStream_GetDataLength st)) (OutputStream_GetBuffer st)"
  have "ucast (ucast (o_iDataLength st) :: u32) = o_iDataLength st"
    by (rule unsigned_word_eqI [where ?'a = nat]) (simp add: unat_ucast_down16)
  then have "in_inv ?i" "unread ?i = concat vs @ []"
    using st(2,3) by (simp_all add: InputStream_new_def in_inv_def out_inv_def unread_def written_def
        OutputStream_GetDataLength_def OutputStream_GetBuffer_def)
  from read_all_ok [OF this] st(1) show ?thesis by auto
qed

theorem stream_roundtrip_witness:
  "\<exists>st i. write_all [le16 7, le32 9, [1]] OutputStream_new = Some (True, st) \<and>
    read_all [2, 4, 1] (InputStream_new (ucast (OutputStream_GetDataLength st)) (OutputStream_GetBuffer st)) =
      Some ((True, [le16 7, le32 9, [1]]), i)"
  using stream_roundtrip [of "[le16 7, le32 9, [1]]"] by auto

text \<open>An array whose size in bytes does not fit 16 bits is silently cut to the size modulo
  65536, and the call still reports success.\<close>
theorem stream_array_truncates:
  assumes "out_inv st" "length arr = unat iCount * n" "length (written st) + (unat iCount * n) mod 65536 \<le> STREAM_BUFFER"
    and "n < 65536"
  shows "\<exists>st'. OutputStream_SerializeArray n iCount arr st = Some (True, st') \<and> out_inv st' \<and>
    written st' = written st @ take ((unat iCount * n) mod 65536) arr"
proof -
  have u: "unat (iCount * of_nat n) = (unat iCount * n) mod 65536"
    using assms(4) by (simp add: unat_word_ariths unat_of_nat_less)
  have l: "length (written st) = unat (o_iDataLength st)" using assms(1) by (simp add: out_inv_def written_def)
  have "unat (o_iDataLength st + iCount * of_nat n) = unat (o_iDataLength st) + (unat iCount * n) mod 65536"
    using assms(3) l u by (subst unat_add_no_wrap) simp_all
  moreover have "(unat iCount * n) mod 65536 \<le> length arr" using assms(2) by simp
  ultimately show ?thesis
    using assms(1,3) l u by (auto simp: OutputStream_SerializeArray_def Let_def out_inv_def written_def memcpy_Some)
qed

theorem stream_array_truncates_witness:
  "\<exists>st'. OutputStream_SerializeArray 4 16384 (replicate 65536 1) OutputStream_new = Some (True, st') \<and> written st' = []"
  using stream_array_truncates [of OutputStream_new "replicate 65536 1" 16384 4] by auto

end
