(* ===== verification/EasyNet.thy ===== *)
theory EasyNet
  imports Prelude
begin

text \<open>
  The C network library over I/O completion ports: \<open>EasyServer/EasyNet/*.c\<close>.

  \<^item> The state \<open>net\<close> holds the objects the library allocates (connections, I/O contexts,
    acceptors, workers) in one map per struct type, the open sockets, and \<open>pending\<close>: the
    contexts whose overlapped request is with the kernel, oldest first.  An address is never given
    out twice, so a dangling pointer stays dangling; using one, or NULL, is \<open>None\<close>.
    \<open>app\<close> is the state of the application behind the callbacks.
  \<^item> Windows is the parameter \<open>os\<close>: for each kind of call, whether the call made at a given
    time succeeds (an overlapped call succeeds when it returns at once or with
    \<open>ERROR_IO_PENDING\<close>; either way a completion packet follows).  Fresh memory has the arbitrary
    contents \<open>junk_conn\<close>, \<open>junk_ctx\<close>, \<open>junk_acc\<close>.  Calls whose result the code ignores
    (most \<open>setsockopt\<close>s, \<open>CloseHandle\<close>) and log output are left out, and
    \<open>_ASSERT\<close> is the no-op it is in a release build.
  \<^item> The callbacks of an \<open>EasyHandler\<close> are the parameter \<open>H\<close>, indexed by the handler stored
    in the object.
  \<^item> The context embedded in an acceptor is the separate object \<open>a_context\<close>; a pointer to the
    \<open>buffer_\<close> or the \<open>overlapped_\<close> of a context is the pointer to the context, which is what
    the \<open>BUFOFFSET\<close> and \<open>CTXOFFSET\<close> subtractions recover.
\<close>

section \<open>Data\<close>

datatype operation =
    INVALID_OPERATION | OPERATION_ACCEPT | OPERATION_CONNECT | OPERATION_DISCONNECT
  | OPERATION_RECV | OPERATION_SEND

abbreviation MAX_BUFFER :: nat where "MAX_BUFFER \<equiv> 1024"
abbreviation ADDR_BUFFER :: nat where "ADDR_BUFFER \<equiv> 64" \<comment> \<open>(sizeof(SOCKADDR)+16)*2\<close>
abbreviation INVALID_SOCKET :: nat where "INVALID_SOCKET \<equiv> 0"

record EasyContext =
  x_op :: operation
  x_wsabuf_buf :: ptr
  x_wsabuf_len :: u32
  x_connection :: ptr
  x_buffer :: "byte list"

record EasyConnection =
  c_socket :: nat
  c_handler :: nat
  c_worker :: ptr
  c_acceptor :: ptr
  c_context :: ptr
  c_client :: nat
  c_connected :: i32

record EasyAcceptor =
  a_socket :: nat
  a_handler :: nat
  a_server :: nat
  a_context :: ptr
  a_running :: i32
  a_worker :: ptr

text \<open>\<open>w_threads\<close> is not a field of the struct: it is the number of threads that run.\<close>

record EasyWorker =
  w_iocp :: bool
  w_thread_count :: u32
  w_threads :: nat

record 'app net =
  tick :: nat
  next_ptr :: ptr
  next_sock :: nat
  socks :: "nat \<Rightarrow> bool"
  conns :: "ptr \<rightharpoonup> EasyConnection"
  ctxs :: "ptr \<rightharpoonup> EasyContext"
  accs :: "ptr \<rightharpoonup> EasyAcceptor"
  workers :: "ptr \<rightharpoonup> EasyWorker"
  pending :: "ptr list"
  app :: 'app

record os =
  malloc_ok :: "nat \<Rightarrow> bool"
  socket_ok :: "nat \<Rightarrow> bool"
  iocp_ok :: "nat \<Rightarrow> bool"
  bind_ok :: "nat \<Rightarrow> bool"
  listen_ok :: "nat \<Rightarrow> bool"
  sockopt_ok :: "nat \<Rightarrow> bool"
  post_ok :: "nat \<Rightarrow> bool"
  thread_ok :: "nat \<Rightarrow> bool"
  junk_conn :: EasyConnection
  junk_ctx :: EasyContext
  junk_acc :: EasyAcceptor

record 'app EasyHandler =
  OnConnection :: "ptr \<Rightarrow> 'app net \<Rightarrow> (bool \<times> 'app net) option"
  OnDisconnect :: "ptr \<Rightarrow> 'app net \<Rightarrow> 'app net option"
  OnData :: "ptr \<Rightarrow> u32 \<Rightarrow> byte list \<Rightarrow> 'app net \<Rightarrow> 'app net option"
  OnConnectFailed :: "nat \<Rightarrow> 'app net \<Rightarrow> 'app net option"

section \<open>Windows calls and memory\<close>

definition os_call :: "(nat \<Rightarrow> bool) \<Rightarrow> 'app net \<Rightarrow> bool \<times> 'app net" where
  "os_call f s = (f (tick s), s\<lparr>tick := Suc (tick s)\<rparr>)"

definition malloc_conn :: "os \<Rightarrow> 'app net \<Rightarrow> ptr \<times> 'app net" where
  "malloc_conn os s =
     (if malloc_ok os (tick s)
      then (next_ptr s, s\<lparr>tick := Suc (tick s), next_ptr := Suc (next_ptr s),
              conns := (conns s)(next_ptr s \<mapsto> junk_conn os)\<rparr>)
      else (NULL, s\<lparr>tick := Suc (tick s)\<rparr>))"

definition malloc_ctx :: "os \<Rightarrow> nat \<Rightarrow> 'app net \<Rightarrow> ptr \<times> 'app net" where
  "malloc_ctx os n s =
     (if malloc_ok os (tick s)
      then (next_ptr s, s\<lparr>tick := Suc (tick s), next_ptr := Suc (next_ptr s),
              ctxs := (ctxs s)(next_ptr s \<mapsto> (junk_ctx os)\<lparr>x_buffer := replicate n 0\<rparr>)\<rparr>)
      else (NULL, s\<lparr>tick := Suc (tick s)\<rparr>))"

definition upd_conn :: "ptr \<Rightarrow> (EasyConnection \<Rightarrow> EasyConnection) \<Rightarrow> 'app net \<Rightarrow> 'app net option" where
  "upd_conn p f s = do { c \<leftarrow> conns s p; Some (s\<lparr>conns := (conns s)(p \<mapsto> f c)\<rparr>) }"

definition upd_ctx :: "ptr \<Rightarrow> (EasyContext \<Rightarrow> EasyContext) \<Rightarrow> 'app net \<Rightarrow> 'app net option" where
  "upd_ctx q f s = do { x \<leftarrow> ctxs s q; Some (s\<lparr>ctxs := (ctxs s)(q \<mapsto> f x)\<rparr>) }"

definition upd_acc :: "ptr \<Rightarrow> (EasyAcceptor \<Rightarrow> EasyAcceptor) \<Rightarrow> 'app net \<Rightarrow> 'app net option" where
  "upd_acc a f s = do { c \<leftarrow> accs s a; Some (s\<lparr>accs := (accs s)(a \<mapsto> f c)\<rparr>) }"

definition free_conn :: "ptr \<Rightarrow> 'app net \<Rightarrow> 'app net option" where
  "free_conn p s = do { c \<leftarrow> conns s p; Some (s\<lparr>conns := (conns s)(p := None)\<rparr>) }"

definition free_ctx :: "ptr \<Rightarrow> 'app net \<Rightarrow> 'app net option" where
  "free_ctx q s = do { x \<leftarrow> ctxs s q; Some (s\<lparr>ctxs := (ctxs s)(q := None)\<rparr>) }"

definition socket :: "os \<Rightarrow> 'app net \<Rightarrow> nat \<times> 'app net" where
  "socket os s =
     (if socket_ok os (tick s)
      then (next_sock s, s\<lparr>tick := Suc (tick s), next_sock := Suc (next_sock s),
              socks := (socks s)(next_sock s := True)\<rparr>)
      else (INVALID_SOCKET, s\<lparr>tick := Suc (tick s)\<rparr>))"

definition closesocket :: "nat \<Rightarrow> 'app net \<Rightarrow> 'app net" where
  "closesocket k s = s\<lparr>socks := (socks s)(k := False)\<rparr>"

text \<open>An overlapped call on context \<open>q\<close>: accepted, the context is with the kernel.\<close>

definition post_io :: "os \<Rightarrow> ptr \<Rightarrow> 'app net \<Rightarrow> bool \<times> 'app net" where
  "post_io os q s =
     (if post_ok os (tick s) then (True, s\<lparr>tick := Suc (tick s), pending := pending s @ [q]\<rparr>)
      else (False, s\<lparr>tick := Suc (tick s)\<rparr>))"

section \<open>easy_context.c\<close>

definition CreateContext :: "os \<Rightarrow> operation \<Rightarrow> 'app net \<Rightarrow> (ptr \<times> 'app net) option" where
  "CreateContext os iOperationType s = do {
     let (q, s) = malloc_ctx os (ADDR_BUFFER + MAX_BUFFER) s;
     s \<leftarrow> upd_ctx q (\<lambda>x. x\<lparr>x_op := iOperationType, x_wsabuf_buf := q\<rparr>) s;
     Some (q, s)
   }"

section \<open>easy_connection.c\<close>

definition CreateConnection :: "os \<Rightarrow> nat \<Rightarrow> ptr \<Rightarrow> ptr \<Rightarrow> 'app net \<Rightarrow> (ptr \<times> 'app net) option" where
  "CreateConnection os pHandler pWorker pAcceptor s = do {
     let (p, s) = malloc_conn os s;
     if p = NULL then Some (NULL, s) else do {
       let (k, s) = socket os s;
       s \<leftarrow> upd_conn p (\<lambda>c. c\<lparr>c_socket := k\<rparr>) s;
       if k = INVALID_SOCKET then do { s \<leftarrow> free_conn p s; Some (NULL, s) } else do {
         w \<leftarrow> workers s pWorker;
         let (ok, s) = os_call (iocp_ok os) s;
         if \<not> ok then do {
           let s = closesocket k s;
           s \<leftarrow> free_conn p s;
           Some (NULL, s)
         } else do {
           let (q, s) = malloc_ctx os ADDR_BUFFER s;
           s \<leftarrow> upd_conn p (\<lambda>c. c\<lparr>c_context := q\<rparr>) s;
           if q = NULL then do { s \<leftarrow> free_conn p s; Some (NULL, s) } else do {
             s \<leftarrow> upd_conn p (\<lambda>c. c\<lparr>c_handler := pHandler, c_worker := pWorker, c_acceptor := pAcceptor\<rparr>) s;
             s \<leftarrow> upd_ctx q (\<lambda>x. x\<lparr>x_connection := p\<rparr>) s;
             s \<leftarrow> upd_conn p (\<lambda>c. c\<lparr>c_connected := 0\<rparr>) s;
             if pAcceptor = NULL then do {
               let (ok, s) = os_call (bind_ok os) s;
               if ok then Some (p, s) else do { s \<leftarrow> free_conn p s; Some (NULL, s) }
             } else Some (p, s)
           }
         }
       }
     }
   }"

definition DeleteConnection :: "ptr \<Rightarrow> 'app net \<Rightarrow> 'app net option" where
  "DeleteConnection p s = do {
     c \<leftarrow> conns s p;
     let s = closesocket (c_socket c) s;
     s \<leftarrow> free_ctx (c_context c) s;
     free_conn p s
   }"

definition CloseConnection :: "ptr \<Rightarrow> 'app net \<Rightarrow> 'app net option" where
  "CloseConnection p s = DeleteConnection p s"

definition AsyncConnect :: "os \<Rightarrow> ptr \<Rightarrow> nat \<Rightarrow> 'app net \<Rightarrow> (bool \<times> 'app net) option" where
  "AsyncConnect os p client s = do {
     s \<leftarrow> upd_conn p (\<lambda>c. c\<lparr>c_client := client\<rparr>) s;
     c \<leftarrow> conns s p;
     s \<leftarrow> upd_ctx (c_context c) (\<lambda>x. x\<lparr>x_op := OPERATION_CONNECT\<rparr>) s;
     Some (post_io os (c_context c) s)
   }"

definition ConnectConnection :: "os \<Rightarrow> nat \<Rightarrow> ptr \<Rightarrow> nat \<Rightarrow> 'app net \<Rightarrow> (bool \<times> 'app net) option" where
  "ConnectConnection os pHandler pWorker pClient s = do {
     (p, s) \<leftarrow> CreateConnection os pHandler pWorker NULL s;
     if p \<noteq> NULL then do {
       (ok, s) \<leftarrow> AsyncConnect os p pClient s;
       if ok then Some (True, s)
       else do { s \<leftarrow> DeleteConnection p s; Some (False, s) }
     } else Some (False, s)
   }"

definition AsyncDisconnect :: "os \<Rightarrow> ptr \<Rightarrow> 'app net \<Rightarrow> 'app net option" where
  "AsyncDisconnect os p s = do {
     c \<leftarrow> conns s p;
     let (old, new) = InterlockedCompareExchange (c_connected c) 0 1;
     s \<leftarrow> upd_conn p (\<lambda>c. c\<lparr>c_connected := new\<rparr>) s;
     if old \<noteq> 0 then do {
       s \<leftarrow> upd_ctx (c_context c) (\<lambda>x. x\<lparr>x_op := OPERATION_DISCONNECT\<rparr>) s;
       Some (snd (post_io os (c_context c) s))
     } else Some s
   }"

definition AsyncSend :: "os \<Rightarrow> ptr \<Rightarrow> ptr \<Rightarrow> 'app net \<Rightarrow> 'app net option" where
  "AsyncSend os p q s = do {
     s \<leftarrow> upd_ctx q (\<lambda>x. x\<lparr>x_connection := p\<rparr>) s;
     c \<leftarrow> conns s p;
     let (ok, s) = post_io os q s;
     if ok then Some s else do { s \<leftarrow> free_ctx q s; AsyncDisconnect os p s }
   }"

definition AsyncRecv :: "os \<Rightarrow> ptr \<Rightarrow> ptr \<Rightarrow> 'app net \<Rightarrow> 'app net option" where
  "AsyncRecv os p q s = do {
     s \<leftarrow> upd_ctx q (\<lambda>x. x\<lparr>x_connection := p, x_wsabuf_len := of_nat MAX_BUFFER\<rparr>) s;
     c \<leftarrow> conns s p;
     let (ok, s) = post_io os q s;
     if ok then Some s else do { s \<leftarrow> free_ctx q s; AsyncDisconnect os p s }
   }"

definition AsyncRawSend :: "os \<Rightarrow> ptr \<Rightarrow> u32 \<Rightarrow> ptr \<Rightarrow> 'app net \<Rightarrow> 'app net option" where
  "AsyncRawSend os p len q s = do {
     x \<leftarrow> ctxs s q;
     if x_op x \<noteq> OPERATION_SEND then Some s else do {
       s \<leftarrow> upd_ctx q (\<lambda>x. x\<lparr>x_wsabuf_len := len\<rparr>) s;
       AsyncSend os p q s
     }
   }"

definition SetClientApp :: "ptr \<Rightarrow> nat \<Rightarrow> 'app net \<Rightarrow> 'app net option" where
  "SetClientApp p pClient s = upd_conn p (\<lambda>c. c\<lparr>c_client := pClient\<rparr>) s"

definition GetClientApp :: "ptr \<Rightarrow> 'app net \<Rightarrow> nat option" where
  "GetClientApp p s = map_option c_client (conns s p)"

definition IsConnected :: "ptr \<Rightarrow> 'app net \<Rightarrow> bool option" where
  "IsConnected p s = map_option (\<lambda>c. c_connected c \<noteq> 0) (conns s p)"

section \<open>easy_acceptor.c\<close>

definition AcceptConnection :: "os \<Rightarrow> ptr \<Rightarrow> 'app net \<Rightarrow> 'app net option" where
  "AcceptConnection os a s = do {
     acc \<leftarrow> accs s a;
     (p, s) \<leftarrow> CreateConnection os (a_handler acc) (a_worker acc) a s;
     s \<leftarrow> upd_conn p (\<lambda>c. c\<lparr>c_client := NULL\<rparr>) s;
     s \<leftarrow> upd_ctx (a_context acc) (\<lambda>x. x\<lparr>x_connection := p\<rparr>) s;
     let (ok, s) = post_io os (a_context acc) s;
     if ok then Some s else do {
       s \<leftarrow> CloseConnection p s;
       upd_acc a (\<lambda>c. c\<lparr>a_running := 0\<rparr>) s
     }
   }"

text \<open>The acceptor and its embedded context are one allocation.\<close>

definition malloc_acc :: "os \<Rightarrow> 'app net \<Rightarrow> ptr \<times> 'app net" where
  "malloc_acc os s =
     (if malloc_ok os (tick s)
      then (next_ptr s, s\<lparr>tick := Suc (tick s), next_ptr := Suc (Suc (next_ptr s)),
              accs := (accs s)(next_ptr s \<mapsto> (junk_acc os)\<lparr>a_context := Suc (next_ptr s)\<rparr>),
              ctxs := (ctxs s)(Suc (next_ptr s) \<mapsto> (junk_ctx os)\<lparr>x_buffer := replicate ADDR_BUFFER 0\<rparr>)\<rparr>)
      else (NULL, s\<lparr>tick := Suc (tick s)\<rparr>))"

definition CreateAcceptor :: "os \<Rightarrow> ptr \<Rightarrow> nat \<Rightarrow> 'app net \<Rightarrow> (ptr \<times> 'app net) option" where
  "CreateAcceptor os pWorker pHandler s = do {
     let (a, s) = malloc_acc os s;
     if a = NULL then Some (NULL, s) else do {
       s \<leftarrow> upd_acc a (\<lambda>c. c\<lparr>a_running := 0\<rparr>) s;
       let (k, s) = socket os s;
       s \<leftarrow> upd_acc a (\<lambda>c. c\<lparr>a_socket := k\<rparr>) s;
       if k = INVALID_SOCKET then Some (NULL, s) else do {
         acc \<leftarrow> accs s a;
         s \<leftarrow> upd_ctx (a_context acc) (\<lambda>x. x\<lparr>x_op := OPERATION_ACCEPT\<rparr>) s;
         w \<leftarrow> workers s pWorker;
         let (ok, s) = os_call (iocp_ok os) s;
         if \<not> ok then Some (NULL, s) else do {
           let (ok, s) = os_call (bind_ok os) s;
           if \<not> ok then Some (NULL, s) else do {
             let (ok, s) = os_call (listen_ok os) s;
             if \<not> ok then Some (NULL, s) else do {
               s \<leftarrow> upd_acc a (\<lambda>c. c\<lparr>a_worker := pWorker, a_handler := pHandler, a_server := NULL\<rparr>) s;
               acc \<leftarrow> accs s a;
               let (old, new) = InterlockedCompareExchange (a_running acc) 1 0;
               s \<leftarrow> upd_acc a (\<lambda>c. c\<lparr>a_running := new\<rparr>) s;
               s \<leftarrow> (if old = 0 then AcceptConnection os a s else Some s);
               Some (a, s)
             }
           }
         }
       }
     }
   }"

definition DestroyAcceptor :: "ptr \<Rightarrow> 'app net \<Rightarrow> 'app net option" where
  "DestroyAcceptor a s = do {
     s \<leftarrow> upd_acc a (\<lambda>c. c\<lparr>a_running := 0\<rparr>) s;
     acc \<leftarrow> accs s a;
     let s = (if a_socket acc \<noteq> INVALID_SOCKET then closesocket (a_socket acc) s else s);
     s \<leftarrow> free_ctx (a_context acc) s;
     Some (s\<lparr>accs := (accs s)(a := None)\<rparr>)
   }"

definition SetServerApp :: "ptr \<Rightarrow> nat \<Rightarrow> 'app net \<Rightarrow> 'app net option" where
  "SetServerApp a pServer s = upd_acc a (\<lambda>c. c\<lparr>a_server := pServer\<rparr>) s"

definition GetServerApp :: "ptr \<Rightarrow> 'app net \<Rightarrow> nat option" where
  "GetServerApp a s = map_option a_server (accs s a)"

section \<open>easy_worker.c\<close>

text \<open>What \<open>GetQueuedCompletionStatus\<close> returns: the result of the request on a context and the
  bytes it transferred, or the empty packet that \<open>DestroyWorker\<close> posts.  The kernel has put the
  bytes of a receive at the start of the buffer by then.\<close>

datatype packet = Packet bool "byte list" ptr | NoOverlapped

definition deliver :: "byte list \<Rightarrow> ptr \<Rightarrow> 'app net \<Rightarrow> 'app net option" where
  "deliver data q s = do {
     x \<leftarrow> ctxs s q;
     buf \<leftarrow> (if x_op x = OPERATION_RECV then mem_write (x_buffer x) 0 data else Some (x_buffer x));
     Some (s\<lparr>pending := remove1 q (pending s), ctxs := (ctxs s)(q \<mapsto> x\<lparr>x_buffer := buf\<rparr>)\<rparr>)
   }"

text \<open>After \<open>OnConnection\<close> succeeded or not: the common tail of the accept and connect cases.\<close>

definition after_OnConnection :: "os \<Rightarrow> ptr \<Rightarrow> bool \<Rightarrow> 'app net \<Rightarrow> 'app net option" where
  "after_OnConnection os p accepted s =
     (if accepted then do { (q, s) \<leftarrow> CreateContext os OPERATION_RECV s; AsyncRecv os p q s }
      else AsyncDisconnect os p s)"

definition on_accept :: "os \<Rightarrow> (nat \<Rightarrow> 'app EasyHandler) \<Rightarrow> bool \<Rightarrow> ptr \<Rightarrow> 'app net \<Rightarrow> 'app net option" where
  "on_accept os H bResult p s = do {
     c \<leftarrow> conns s p;
     if bResult then do {
       s \<leftarrow> AcceptConnection os (c_acceptor c) s;
       let (rc, s) = os_call (sockopt_ok os) s;
       if rc then do {
         s \<leftarrow> upd_conn p (\<lambda>c. c\<lparr>c_connected := 1\<rparr>) s;
         c \<leftarrow> conns s p;
         (ok, s) \<leftarrow> OnConnection (H (c_handler c)) p s;
         after_OnConnection os p ok s
       } else Some s
     } else Some s
   }"

definition on_connect :: "os \<Rightarrow> (nat \<Rightarrow> 'app EasyHandler) \<Rightarrow> bool \<Rightarrow> ptr \<Rightarrow> 'app net \<Rightarrow> 'app net option" where
  "on_connect os H bResult p s =
     (if bResult then do {
        s \<leftarrow> upd_conn p (\<lambda>c. c\<lparr>c_connected := 1\<rparr>) s;
        let (rc, s) = os_call (sockopt_ok os) s;
        if rc then do {
          c \<leftarrow> conns s p;
          (ok, s) \<leftarrow> OnConnection (H (c_handler c)) p s;
          after_OnConnection os p ok s
        } else Some s
      } else do {
        c \<leftarrow> conns s p;
        s \<leftarrow> OnConnectFailed (H (c_handler c)) (c_client c) s;
        CloseConnection p s
      })"

definition on_disconnect :: "(nat \<Rightarrow> 'app EasyHandler) \<Rightarrow> ptr \<Rightarrow> 'app net \<Rightarrow> 'app net option" where
  "on_disconnect H p s = do { c \<leftarrow> conns s p; OnDisconnect (H (c_handler c)) p s }"

definition on_recv :: "os \<Rightarrow> (nat \<Rightarrow> 'app EasyHandler) \<Rightarrow> u32 \<Rightarrow> ptr \<Rightarrow> ptr \<Rightarrow> 'app net \<Rightarrow> 'app net option" where
  "on_recv os H dwNumRead q p s =
     (if dwNumRead = 0 then do { s \<leftarrow> free_ctx q s; AsyncDisconnect os p s }
      else do {
        c \<leftarrow> conns s p;
        x \<leftarrow> ctxs s q;
        s \<leftarrow> OnData (H (c_handler c)) p dwNumRead (x_buffer x) s;
        AsyncRecv os p q s
      })"

definition worker_iteration ::
  "os \<Rightarrow> (nat \<Rightarrow> 'app EasyHandler) \<Rightarrow> bool \<Rightarrow> u32 \<Rightarrow> ptr \<Rightarrow> 'app net \<Rightarrow> 'app net option" where
  "worker_iteration os H bResult dwNumRead q s = do {
     x \<leftarrow> ctxs s q;
     (case x_op x of
        OPERATION_ACCEPT \<Rightarrow> on_accept os H bResult (x_connection x) s
      | OPERATION_CONNECT \<Rightarrow> on_connect os H bResult (x_connection x) s
      | OPERATION_DISCONNECT \<Rightarrow> on_disconnect H (x_connection x) s
      | OPERATION_RECV \<Rightarrow> on_recv os H dwNumRead q (x_connection x) s
      | OPERATION_SEND \<Rightarrow> free_ctx q s
      | INVALID_OPERATION \<Rightarrow> Some s)
   }"

text \<open>One round of the loop for a packet: wait for it, then dispatch it.\<close>

definition handle_packet ::
  "os \<Rightarrow> (nat \<Rightarrow> 'app EasyHandler) \<Rightarrow> bool \<Rightarrow> byte list \<Rightarrow> ptr \<Rightarrow> 'app net \<Rightarrow> 'app net option" where
  "handle_packet os H b data q s =
     do { s \<leftarrow> deliver data q s; worker_iteration os H b (of_nat (length data)) q s }"

text \<open>The loop of one worker thread over the packets it takes from the port: it stops at the first
  empty packet; the first component tells whether it has stopped.\<close>

fun EasyWorkerThread ::
  "os \<Rightarrow> (nat \<Rightarrow> 'app EasyHandler) \<Rightarrow> ptr \<Rightarrow> packet list \<Rightarrow> 'app net \<Rightarrow> (bool \<times> packet list \<times> 'app net) option" where
  "EasyWorkerThread os H w [] s = Some (False, [], s)"
| "EasyWorkerThread os H w (NoOverlapped # ps) s = do {
     k \<leftarrow> workers s w;
     Some (True, ps, s\<lparr>workers := (workers s)(w \<mapsto> k\<lparr>w_thread_count := w_thread_count k - 1, w_threads := w_threads k - 1\<rparr>)\<rparr>)
   }"
| "EasyWorkerThread os H w (Packet bResult data q # ps) s = do {
     s \<leftarrow> handle_packet os H bResult data q s;
     EasyWorkerThread os H w ps s
   }"

text \<open>The loop that starts the threads.  \<open>_beginthreadex\<close> may fail, which is not checked: the counter goes up anyway.  The second result
  is the number of threads that really run.\<close>

function start_threads :: "(nat \<Rightarrow> bool) \<Rightarrow> u32 \<Rightarrow> u32 \<Rightarrow> nat \<Rightarrow> u32 \<times> nat" where
  "start_threads ok iCount thread_count running =
     (if thread_count < iCount then start_threads ok iCount (thread_count + 1) (if ok (unat thread_count) then Suc running else running)
      else (thread_count, running))"
  by pat_completeness auto
termination
  by (relation "measure (\<lambda>(f, n, k, r). unat n - unat k)") (auto simp: unat_succ_less, auto simp: word_less_nat_alt)

declare start_threads.simps [simp del]

definition CreateWorker :: "os \<Rightarrow> u32 \<Rightarrow> 'app net \<Rightarrow> ptr \<times> 'app net" where
  "CreateWorker os iCount s =
     (if malloc_ok os (tick s)
      then (let (count, running) = start_threads (\<lambda>i. thread_ok os (tick s + 2 + i)) iCount 0 0 in
        (next_ptr s, s\<lparr>tick := tick s + 2 + unat count, next_ptr := Suc (next_ptr s),
              workers := (workers s)(next_ptr s \<mapsto>
                \<lparr>w_iocp = iocp_ok os (Suc (tick s)), w_thread_count = count, w_threads = running\<rparr>)\<rparr>))
      else (NULL, s\<lparr>tick := Suc (tick s)\<rparr>))"

text \<open>
  \<open>DestroyWorker\<close> posts one empty packet per round and sleeps, until the counter is zero.  A round of the list is whether the
  post succeeds and how many threads are free to look at the port before the next check; of the threads that still run, as many
  as there are empty packets then take one and count themselves out, and without a port every one does.  \<open>n\<close> is the number of threads that
  run, \<open>e\<close> of empty packets in the port, \<open>posted\<close> of rounds so far.  \<open>None\<close>: still waiting when the list is at its end.
\<close>

primrec DestroyWorker_wait :: "bool \<Rightarrow> (bool \<times> nat) list \<Rightarrow> u32 \<Rightarrow> nat \<Rightarrow> nat \<Rightarrow> nat \<Rightarrow> nat option" where
  "DestroyWorker_wait iocp [] k n e posted = (if k = 0 then Some posted else None)"
| "DestroyWorker_wait iocp (x # rs) k n e posted =
     (if k = 0 then Some posted else
        (let e = (if fst x then Suc e else e); r = min (snd x) (if iocp then min n e else n) in
         DestroyWorker_wait iocp rs (k - of_nat r) (n - r) (e - r) (Suc posted)))"

definition DestroyWorker :: "(bool \<times> nat) list \<Rightarrow> ptr \<Rightarrow> 'app net \<Rightarrow> 'app net option" where
  "DestroyWorker rs w s = do {
     k \<leftarrow> workers s w;
     posted \<leftarrow> DestroyWorker_wait (w_iocp k) rs (w_thread_count k) (w_threads k) 0 0;
     Some (s\<lparr>workers := (workers s)(w := None)\<rparr>)
   }"

section \<open>easy_net.c\<close>

text \<open>The winsock library: how often it is started and not cleaned up, and whether the four extension
  functions have been looked up.\<close>

record winsock =
  wsa_count :: nat
  wsa_loaded :: bool
  wsa_open :: nat

definition InitNet :: "bool \<Rightarrow> bool \<Rightarrow> winsock \<Rightarrow> int \<times> winsock" where
  "InitNet startup_ok sock_ok n =
     (if \<not> startup_ok then (-1, n)
      else (let n = n\<lparr>wsa_count := Suc (wsa_count n)\<rparr> in
        if \<not> sock_ok then (-2, n)
        else (let n = n\<lparr>wsa_open := Suc (wsa_open n)\<rparr>;
                  n = n\<lparr>wsa_loaded := True\<rparr>;
                  n = n\<lparr>wsa_open := wsa_open n - 1\<rparr> in (0, n))))"

definition DestroyNet :: "winsock \<Rightarrow> winsock" where
  "DestroyNet n = n\<lparr>wsa_count := wsa_count n - 1\<rparr>"

end
