(* ===== verification/EasyNetInv.thy ===== *)
theory EasyNetInv
  imports EasyNet
begin

text \<open>
  Correctness of the network library of \<open>EasyNet\<close>.

  \<^item> \<open>net_inv Q s\<close> says who owns which object: every connection has its own context, which points
    back to it, every acceptor has its embedded context, and every other context is with the kernel
    or in the set \<open>Q\<close> of contexts the running code holds.  A context is with the kernel at most once, and
    an outstanding accept refers to a live, idle connection of its acceptor.
  \<^item> Each elementary change of the state keeps it (\<open>net_inv_with_conn\<close>, \<open>net_inv_post_held\<close>, \<dots>), hence
    each operation does.
  \<^item> The locale \<open>easy_handler\<close> is the contract of the application's callbacks; in it, every step of the
    worker threads and of the application (\<open>net_step\<close>) is defined and keeps the invariant.
  \<^item> The properties then describe the outcome of the operations, failures of Windows calls included.
\<close>

section \<open>The ownership invariant\<close>

definition conn_ctx :: "'app net \<Rightarrow> ptr \<Rightarrow> bool" where
  "conn_ctx s q \<longleftrightarrow> (\<exists>p c. conns s p = Some c \<and> c_context c = q)"

definition acc_ctx :: "'app net \<Rightarrow> ptr \<Rightarrow> bool" where
  "acc_ctx s q \<longleftrightarrow> (\<exists>a acc. accs s a = Some acc \<and> a_context acc = q)"

text \<open>A connection an outstanding accept will fill in.\<close>

definition awaited :: "'app net \<Rightarrow> ptr \<Rightarrow> bool" where
  "awaited s p \<longleftrightarrow> (\<exists>a acc x. accs s a = Some acc \<and> a_context acc \<in> set (pending s) \<and>
     ctxs s (a_context acc) = Some x \<and> x_connection x = p)"

definition inv_fresh :: "'app net \<Rightarrow> bool" where
  "inv_fresh s \<longleftrightarrow> 0 < next_ptr s \<and> 0 < next_sock s \<and>
     (\<forall>p. p = NULL \<or> next_ptr s \<le> p \<longrightarrow> conns s p = None \<and> ctxs s p = None \<and> accs s p = None)"

definition conn_ok :: "'app net \<Rightarrow> ptr \<Rightarrow> EasyConnection \<Rightarrow> bool" where
  "conn_ok s p c \<longleftrightarrow>
     (\<exists>x. ctxs s (c_context c) = Some x \<and> x_connection x = p \<and>
        (c_context c \<in> set (pending s) \<longrightarrow>
           c_connected c = 0 \<and> (x_op x = OPERATION_CONNECT \<or> x_op x = OPERATION_DISCONNECT))) \<and>
     \<not> acc_ctx s (c_context c) \<and> (awaited s p \<longrightarrow> c_connected c = 0 \<and> c_context c \<notin> set (pending s)) \<and>
     (c_connected c = 0 \<or> c_connected c = 1) \<and> workers s (c_worker c) \<noteq> None"

definition acc_ok :: "'app net \<Rightarrow> ptr \<Rightarrow> EasyAcceptor \<Rightarrow> bool" where
  "acc_ok s a acc \<longleftrightarrow>
     (\<exists>x. ctxs s (a_context acc) = Some x \<and> x_op x = OPERATION_ACCEPT \<and>
        (a_context acc \<in> set (pending s) \<longrightarrow>
           (\<exists>c. conns s (x_connection x) = Some c \<and> c_acceptor c = a))) \<and>
     a_context acc = Suc a \<and> workers s (a_worker acc) \<noteq> None"

definition inv_conn :: "'app net \<Rightarrow> bool" where
  "inv_conn s \<longleftrightarrow> (\<forall>p c. conns s p = Some c \<longrightarrow> conn_ok s p c)"

definition inv_acc :: "'app net \<Rightarrow> bool" where
  "inv_acc s \<longleftrightarrow> (\<forall>a acc. accs s a = Some acc \<longrightarrow> acc_ok s a acc)"

definition inv_io :: "ptr set \<Rightarrow> 'app net \<Rightarrow> bool" where
  "inv_io Q s \<longleftrightarrow> distinct (pending s) \<and> set (pending s) \<subseteq> dom (ctxs s) \<and>
     (\<forall>q x. ctxs s q = Some x \<longrightarrow> \<not> conn_ctx s q \<longrightarrow> \<not> acc_ctx s q \<longrightarrow>
        (q \<in> set (pending s) \<longleftrightarrow> q \<notin> Q) \<and> length (x_buffer x) = ADDR_BUFFER + MAX_BUFFER \<and>
        (x_op x = OPERATION_RECV \<or> x_op x = OPERATION_SEND)) \<and>
     (\<forall>q\<in>Q. ctxs s q \<noteq> None \<and> \<not> conn_ctx s q \<and> \<not> acc_ctx s q)"

definition net_inv :: "ptr set \<Rightarrow> 'app net \<Rightarrow> bool" where
  "net_inv Q s \<longleftrightarrow> inv_fresh s \<and> inv_conn s \<and> inv_acc s \<and> inv_io Q s"

lemmas net_inv_defs = net_inv_def inv_fresh_def inv_conn_def inv_acc_def inv_io_def conn_ok_def acc_ok_def

section \<open>Frame\<close>

lemma net_inv_frame [simp]:
  "net_inv Q (s\<lparr>tick := t\<rparr>) = net_inv Q s"
  "net_inv Q (s\<lparr>app := a\<rparr>) = net_inv Q s"
  "net_inv Q (s\<lparr>socks := k\<rparr>) = net_inv Q s"
  by (simp_all add: net_inv_defs conn_ctx_def acc_ctx_def awaited_def)

definition idle :: "'app net \<Rightarrow> ptr \<Rightarrow> bool" where
  "idle s p \<longleftrightarrow> (\<exists>c. conns s p = Some c \<and> c_connected c = 0 \<and> c_context c \<notin> set (pending s) \<and> \<not> awaited s p)"

lemma net_inv_next_sock: "net_inv Q s \<Longrightarrow> net_inv Q (s\<lparr>next_sock := Suc k\<rparr>)"
proof -
  have "inv_conn (s\<lparr>next_sock := Suc k\<rparr>) = inv_conn s" "inv_acc (s\<lparr>next_sock := Suc k\<rparr>) = inv_acc s"
      "inv_io Q (s\<lparr>next_sock := Suc k\<rparr>) = inv_io Q s"
    by (simp_all add: inv_conn_def inv_acc_def inv_io_def conn_ok_def acc_ok_def conn_ctx_def acc_ctx_def awaited_def)
  then show "net_inv Q s \<Longrightarrow> net_inv Q (s\<lparr>next_sock := Suc k\<rparr>)" by (simp add: net_inv_def inv_fresh_def)
qed

lemma idle_frame [simp]:
  "idle (s\<lparr>tick := t\<rparr>) = idle s" "idle (s\<lparr>app := a\<rparr>) = idle s" "idle (s\<lparr>socks := k\<rparr>) = idle s"
  "awaited (s\<lparr>tick := t\<rparr>) = awaited s" "awaited (s\<lparr>app := a\<rparr>) = awaited s" "awaited (s\<lparr>socks := k\<rparr>) = awaited s"
  by (auto simp: fun_eq_iff idle_def awaited_def)

lemma conn_ctx_inj:
  assumes "inv_conn s" "conns s p = Some c" "conns s p' = Some c'" "c_context c = c_context c'"
  shows "p' = p"
  using assms unfolding inv_conn_def conn_ok_def by (metis option.inject)

text \<open>CreateConnection, in closed form.\<close>

definition fresh_conn :: "os \<Rightarrow> nat \<Rightarrow> ptr \<Rightarrow> ptr \<Rightarrow> nat \<Rightarrow> ptr \<Rightarrow> EasyConnection" where
  "fresh_conn os h w a k q = (junk_conn os)\<lparr>c_socket := k, c_context := q, c_handler := h, c_worker := w,
     c_acceptor := a, c_connected := 0\<rparr>"

definition fresh_ctx :: "os \<Rightarrow> ptr \<Rightarrow> EasyContext" where
  "fresh_ctx os p = (junk_ctx os)\<lparr>x_buffer := replicate ADDR_BUFFER 0, x_connection := p\<rparr>"

definition with_conn :: "os \<Rightarrow> nat \<Rightarrow> ptr \<Rightarrow> ptr \<Rightarrow> 'app net \<Rightarrow> 'app net" where
  "with_conn os h w a s = s\<lparr>
     next_ptr := Suc (Suc (next_ptr s)), next_sock := Suc (next_sock s),
     socks := (socks s)(next_sock s := True),
     conns := (conns s)(next_ptr s \<mapsto> fresh_conn os h w a (next_sock s) (Suc (next_ptr s))),
     ctxs := (ctxs s)(Suc (next_ptr s) \<mapsto> fresh_ctx os (next_ptr s))\<rparr>"

lemmas prim_defs = malloc_conn_def malloc_ctx_def upd_conn_def upd_ctx_def upd_acc_def free_conn_def
  free_ctx_def socket_def closesocket_def os_call_def post_io_def

definition os_good :: "os \<Rightarrow> bool" where
  "os_good os \<longleftrightarrow> (\<forall>t. malloc_ok os t \<and> socket_ok os t \<and> iocp_ok os t)"

lemma inv_freshD:
  "inv_fresh s \<Longrightarrow> conns s p = Some c \<Longrightarrow> p < next_ptr s \<and> 0 < p"
  "inv_fresh s \<Longrightarrow> ctxs s p = Some x \<Longrightarrow> p < next_ptr s \<and> 0 < p"
  "inv_fresh s \<Longrightarrow> accs s p = Some acc \<Longrightarrow> p < next_ptr s \<and> 0 < p"
  unfolding inv_fresh_def by (metis gr0I not_le option.distinct(1))+

lemma inv_freshN:
  assumes "inv_fresh s" "next_ptr s \<le> p"
  shows "conns s p = None" "ctxs s p = None" "accs s p = None"
  using assms by (auto simp: inv_fresh_def)

lemma net_invE:
  assumes "net_inv Q s"
  obtains "inv_fresh s" "inv_conn s" "inv_acc s" "inv_io Q s"
  using assms by (auto simp: net_inv_def)

lemma awaited_live:
  assumes "inv_acc s" "awaited s p"
  shows "\<exists>c. conns s p = Some c"
  using assms by (fastforce simp: inv_acc_def acc_ok_def awaited_def)

lemma pending_old: "inv_fresh s \<Longrightarrow> inv_io Q s \<Longrightarrow> q \<in> set (pending s) \<Longrightarrow> q < next_ptr s"
  by (auto simp: inv_io_def dest: inv_freshD)

lemma ctx_old:
  assumes "net_inv Q s"
  shows "conn_ctx s q \<Longrightarrow> q < next_ptr s" "acc_ctx s q \<Longrightarrow> q < next_ptr s"
  using assms by (fastforce simp: net_inv_def conn_ctx_def acc_ctx_def inv_conn_def inv_acc_def
      conn_ok_def acc_ok_def dest: inv_freshD)+


lemma net_invI:
  assumes "inv_fresh s" "\<And>p c. conns s p = Some c \<Longrightarrow> conn_ok s p c"
    "\<And>a acc. accs s a = Some acc \<Longrightarrow> acc_ok s a acc" "inv_io Q s"
  shows "net_inv Q s"
  using assms by (simp add: net_inv_def inv_conn_def inv_acc_def)

lemma net_invD:
  assumes "net_inv Q s"
  shows "inv_fresh s" "conns s p = Some c \<Longrightarrow> conn_ok s p c" "accs s a = Some acc \<Longrightarrow> acc_ok s a acc" "inv_io Q s"
    "awaited s p \<Longrightarrow> conns s p \<noteq> None"
  using assms awaited_live [of s p] by (auto simp add: net_inv_def inv_conn_def inv_acc_def)

lemma conn_acc_disjoint:
  assumes "net_inv Q s" "conns s p = Some c" "accs s a = Some acc"
  shows "c_context c \<noteq> a_context acc"
  using net_invD(2) [OF assms(1,2)] assms(3) unfolding conn_ok_def acc_ctx_def by metis

lemma awaited_with_conn:
  assumes "net_inv Q s"
  shows "awaited (with_conn os h w a s) p \<longleftrightarrow> awaited s p"
proof -
  have "a_context acc < next_ptr s" if "accs s p = Some acc" for p acc
    using ctx_old(2) [OF assms] that by (auto simp: acc_ctx_def)
  then show ?thesis by (fastforce simp: awaited_def with_conn_def)
qed

lemma net_inv_with_conn:
  assumes I: "net_inv Q s" and w: "workers s w \<noteq> None"
  shows "net_inv Q (with_conn os h w a s)"
proof -
  let ?s = "with_conn os h w a s" and ?p = "next_ptr s" and ?q = "Suc (next_ptr s)"
  note D = net_invD [OF I]
  note N = inv_freshN [OF D(1)]
  have pe: "?q \<notin> set (pending s)"
    using pending_old [OF D(1,4)] by (metis Suc_n_not_le_n less_imp_le)
  have oldc: "c_context c < ?p" if "conns s p = Some c" for p c
    using ctx_old(1) [OF I] that by (auto simp: conn_ctx_def)
  have olda: "a_context acc < ?p" if "accs s p = Some acc" for p acc
    using ctx_old(2) [OF I] that by (auto simp: acc_ctx_def)
  have cc: "conn_ctx ?s q \<longleftrightarrow> conn_ctx s q \<or> q = ?q" for q
    using ex_store_fresh [of "conns s" ?p, OF N(1)] by (auto simp: conn_ctx_def with_conn_def fresh_conn_def)
  have aa: "acc_ctx ?s q \<longleftrightarrow> acc_ctx s q" for q
    by (simp add: acc_ctx_def with_conn_def)
  note aw = awaited_with_conn [OF I]
  show ?thesis
  proof (rule net_invI)
    show "inv_fresh ?s" using D(1) by (auto simp: inv_fresh_def with_conn_def)
    show "conn_ok ?s p c" if c: "conns ?s p = Some c" for p c
    proof (cases "p = ?p")
      case True
      then have "c = fresh_conn os h w a (next_sock s) ?q" using c by (simp add: with_conn_def)
      then show ?thesis using True pe w D(5) [of ?p] N(1) [of ?p] ctx_old(2) [OF I, of ?q]
        unfolding conn_ok_def aw aa by (auto simp: with_conn_def fresh_conn_def fresh_ctx_def)
    next
      case False
      then have c': "conns s p = Some c" using c by (simp add: with_conn_def)
      then show ?thesis using D(2) [OF c'] oldc [OF c'] unfolding conn_ok_def aw aa
        by (simp add: with_conn_def)
    qed
    show "acc_ok ?s b acc" if "accs ?s b = Some acc" for b acc
    proof -
      have b: "accs s b = Some acc" using that by (simp add: with_conn_def)
      show ?thesis using D(3) [OF b] olda [OF b] N(1) [of ?p] unfolding acc_ok_def
        by (fastforce simp: with_conn_def)
    qed
    show "inv_io Q ?s"
      using D(4) N(2) [of ?q] unfolding inv_io_def cc aa by (auto simp: with_conn_def)
  qed
qed


text \<open>Updating a connection in place.\<close>

lemma net_inv_upd_conn:
  assumes I: "net_inv Q s" and c: "conns s p = Some c"
    and same: "c_context c' = c_context c" "c_worker c' = c_worker c" "c_acceptor c' = c_acceptor c"
    and conn: "c_connected c' = 0 \<or> c_connected c' = 1 \<and> c_context c \<notin> set (pending s) \<and> \<not> awaited s p"
  shows "net_inv Q (s\<lparr>conns := (conns s)(p \<mapsto> c')\<rparr>)" (is "net_inv Q ?s")
proof -
  note D = net_invD [OF I]
  have cc: "conn_ctx ?s q = conn_ctx s q" for q
    using ex_store_upd [of "conns s" p c "\<lambda>_ d. c_context d = q" c', OF c] same(1) by (simp add: conn_ctx_def)
  have aa: "acc_ctx ?s q = acc_ctx s q" "awaited ?s r = awaited s r" for q r
    by (simp_all add: acc_ctx_def awaited_def)
  show ?thesis
  proof (rule net_invI)
    show "inv_fresh ?s" using D(1) inv_freshD(1) [OF D(1) c] by (auto simp: inv_fresh_def)
    show "conn_ok ?s r d" if "conns ?s r = Some d" for r d
      using D(2) [OF c] D(2) [of r d] that same conn unfolding conn_ok_def aa
      by (auto split: if_splits)
    show "acc_ok ?s b acc" if "accs ?s b = Some acc" for b acc
      using D(3) [of b acc] that same(3) c unfolding acc_ok_def by fastforce
    show "inv_io Q ?s" using D(4) unfolding inv_io_def cc aa by simp
  qed
qed

text \<open>Removing a connection together with its context.\<close>

lemma net_inv_delete:
  assumes I: "net_inv Q s" and c: "conns s p = Some c"
    and np: "c_context c \<notin> set (pending s)" and na: "\<not> awaited s p"
  shows "net_inv Q (s\<lparr>conns := (conns s)(p := None), ctxs := (ctxs s)(c_context c := None)\<rparr>)"
    (is "net_inv Q ?s")
proof -
  note D = net_invD [OF I]
  have inj: "c_context d \<noteq> c_context c" if "conns s r = Some d" "r \<noteq> p" for r d
    using conn_ctx_inj [of s p c r d] I c that by (auto simp: net_inv_def)
  have cc: "conn_ctx ?s q \<longleftrightarrow> conn_ctx s q \<and> q \<noteq> c_context c" for q
    using inj c by (auto simp: conn_ctx_def) (metis option.inject)
  have aa: "acc_ctx ?s q = acc_ctx s q" for q
    by (simp add: acc_ctx_def)
  have nacc: "a_context acc \<noteq> c_context c" if "accs s b = Some acc" for b acc
    using conn_acc_disjoint [OF I c that] by simp
  have aw: "awaited ?s r = awaited s r" for r
    using nacc by (auto simp: awaited_def)
  show ?thesis
  proof (rule net_invI)
    show "inv_fresh ?s" using D(1) by (auto simp: inv_fresh_def)
    show "conn_ok ?s r d" if "conns ?s r = Some d" for r d
      using D(2) [of r d] inj [of r d] that unfolding conn_ok_def aa aw by (auto split: if_splits)
    show "acc_ok ?s b acc" if "accs ?s b = Some acc" for b acc
      using D(3) [of b acc] nacc [of b acc] that na unfolding acc_ok_def awaited_def by fastforce
    have Qc: "q \<noteq> c_context c" if "q \<in> Q" for q
      using D(4) that c unfolding inv_io_def conn_ctx_def by blast
    show "inv_io Q ?s" using D(4) np Qc unfolding inv_io_def cc aa by auto
  qed
qed

text \<open>A change that leaves the objects and the contexts embedded in them alone.\<close>

lemma net_inv_io_only:
  assumes I: "net_inv Q s" and same: "conns s' = conns s" "accs s' = accs s" "workers s' = workers s"
    and emb: "\<And>q. conn_ctx s q \<or> acc_ctx s q \<Longrightarrow>
       ctxs s' q = ctxs s q \<and> (q \<in> set (pending s') \<longleftrightarrow> q \<in> set (pending s))"
    and fr: "inv_fresh s'" and io: "inv_io Q' s'"
  shows "net_inv Q' s'"
proof -
  note D = net_invD [OF I]
  have cc: "conn_ctx s' r = conn_ctx s r" "acc_ctx s' r = acc_ctx s r" for r
    by (simp_all add: conn_ctx_def acc_ctx_def same)
  have ea: "ctxs s' (a_context acc) = ctxs s (a_context acc)"
      "a_context acc \<in> set (pending s') \<longleftrightarrow> a_context acc \<in> set (pending s)" if "accs s b = Some acc" for b acc
    using emb [of "a_context acc"] that by (auto simp: acc_ctx_def)
  have ec: "ctxs s' (c_context c) = ctxs s (c_context c)"
      "c_context c \<in> set (pending s') \<longleftrightarrow> c_context c \<in> set (pending s)" if "conns s p = Some c" for p c
    using emb [of "c_context c"] that by (auto simp: conn_ctx_def)
  have aw: "awaited s' r = awaited s r" for r
    unfolding awaited_def same using ea by (metis (no_types, lifting))
  show ?thesis
  proof (rule net_invI [OF fr _ _ io])
    show "conn_ok s' p c" if "conns s' p = Some c" for p c
      using D(2) [of p c] ec [of p c] that unfolding conn_ok_def cc aw by (simp add: same)
    show "acc_ok s' b acc" if "accs s' b = Some acc" for b acc
      using D(3) [of b acc] ea [of b acc] that unfolding acc_ok_def by (auto simp: same)
  qed
qed

lemma held_ctx:
  assumes "net_inv (insert q Q) s"
  shows "\<exists>x. ctxs s q = Some x \<and> length (x_buffer x) = ADDR_BUFFER + MAX_BUFFER \<and>
      (x_op x = OPERATION_RECV \<or> x_op x = OPERATION_SEND)"
    "\<not> conn_ctx s q" "\<not> acc_ctx s q" "q \<notin> set (pending s)" "q < next_ptr s" "0 < q"
proof -
  note D = net_invD [OF assms]
  from D(4) obtain x where x: "ctxs s q = Some x" by (auto simp: inv_io_def)
  with D(4) inv_freshD(2) [OF D(1) x]
  show "\<exists>x. ctxs s q = Some x \<and> length (x_buffer x) = ADDR_BUFFER + MAX_BUFFER \<and>
      (x_op x = OPERATION_RECV \<or> x_op x = OPERATION_SEND)"
    "\<not> conn_ctx s q" "\<not> acc_ctx s q" "q \<notin> set (pending s)" "q < next_ptr s" "0 < q"
    by (auto simp: inv_io_def)
qed

text \<open>Giving a held context to the kernel, freeing it, and making a new one.\<close>

lemma net_inv_post_held:
  assumes I: "net_inv (insert q Q) s" and nQ: "q \<notin> Q" and x: "ctxs s q = Some x"
    and same: "x_op x' = x_op x" "length (x_buffer x') = length (x_buffer x)"
  shows "net_inv Q (s\<lparr>ctxs := (ctxs s)(q \<mapsto> x'), pending := pending s @ [q]\<rparr>)" (is "net_inv Q ?s")
proof -
  note D = net_invD [OF I]
  note h = held_ctx [OF I]
  have cc: "conn_ctx ?s r = conn_ctx s r" "acc_ctx ?s r = acc_ctx s r" for r
    by (simp_all add: conn_ctx_def acc_ctx_def)
  show ?thesis
  proof (rule net_inv_io_only [OF I])
    show "inv_io Q ?s" using D(4) nQ x same h unfolding inv_io_def cc by auto
  qed (use D(1) h in \<open>auto simp: inv_fresh_def\<close>)
qed

lemma net_inv_upd_held:
  assumes I: "net_inv (insert q Q) s" and x: "ctxs s q = Some x"
    and same: "x_op x' = x_op x" "length (x_buffer x') = length (x_buffer x)"
  shows "net_inv (insert q Q) (s\<lparr>ctxs := (ctxs s)(q \<mapsto> x')\<rparr>)" (is "net_inv ?Q ?s")
proof -
  note D = net_invD [OF I]
  note h = held_ctx [OF I]
  have cc: "conn_ctx ?s r = conn_ctx s r" "acc_ctx ?s r = acc_ctx s r" for r
    by (simp_all add: conn_ctx_def acc_ctx_def)
  show ?thesis
  proof (rule net_inv_io_only [OF I])
    show "inv_io ?Q ?s" using D(4) x same h unfolding inv_io_def cc by auto
  qed (use D(1) h in \<open>auto simp: inv_fresh_def\<close>)
qed

lemma net_inv_free_held:
  assumes I: "net_inv (insert q Q) s" and nQ: "q \<notin> Q"
  shows "net_inv Q (s\<lparr>ctxs := (ctxs s)(q := None)\<rparr>)" (is "net_inv Q ?s")
proof -
  note D = net_invD [OF I]
  note h = held_ctx [OF I]
  have cc: "conn_ctx ?s r = conn_ctx s r" "acc_ctx ?s r = acc_ctx s r" for r
    by (simp_all add: conn_ctx_def acc_ctx_def)
  show ?thesis
  proof (rule net_inv_io_only [OF I])
    show "inv_io Q ?s" using D(4) nQ h unfolding inv_io_def cc by auto
  qed (use D(1) h in \<open>auto simp: inv_fresh_def\<close>)
qed

lemma net_inv_new_held:
  assumes I: "net_inv Q s" and op: "x_op x = OPERATION_RECV \<or> x_op x = OPERATION_SEND"
    and len: "length (x_buffer x) = ADDR_BUFFER + MAX_BUFFER"
  shows "net_inv (insert (next_ptr s) Q)
     (s\<lparr>next_ptr := Suc (next_ptr s), ctxs := (ctxs s)(next_ptr s \<mapsto> x)\<rparr>)" (is "net_inv ?Q ?s")
proof -
  let ?q = "next_ptr s"
  note D = net_invD [OF I]
  have cc: "conn_ctx ?s r = conn_ctx s r" "acc_ctx ?s r = acc_ctx s r" for r
    by (simp_all add: conn_ctx_def acc_ctx_def)
  have h: "\<not> conn_ctx s ?q" "\<not> acc_ctx s ?q" "?q \<notin> set (pending s)"
    using ctx_old [OF I, of ?q] pending_old [OF D(1,4), of ?q] by auto
  show ?thesis
  proof (rule net_inv_io_only [OF I])
    show "inv_io ?Q ?s"
      using D(4) h op len inv_freshN(2) [OF D(1), of ?q] unfolding inv_io_def cc by auto
  qed (use D(1) h in \<open>auto simp: inv_fresh_def\<close>)
qed

text \<open>Rewriting and posting the context of a connection: a connect or a disconnect.\<close>

lemma net_inv_upd_conn_ctx:
  assumes I: "net_inv Q s" and c: "conns s p = Some c" and x: "ctxs s (c_context c) = Some x"
    and np: "c_context c \<notin> set (pending s)" and bk: "x_connection x' = p"
  shows "net_inv Q (s\<lparr>ctxs := (ctxs s)(c_context c \<mapsto> x')\<rparr>)" (is "net_inv Q ?s")
proof -
  note D = net_invD [OF I]
  have inj: "c_context d \<noteq> c_context c" if "conns s r = Some d" "r \<noteq> p" for r d
    using conn_ctx_inj [of s p c r d] I c that by (auto simp: net_inv_def)
  note nacc = conn_acc_disjoint [OF I c, symmetric]
  have cc: "conn_ctx ?s r = conn_ctx s r" "acc_ctx ?s r = acc_ctx s r" for r
    by (simp_all add: conn_ctx_def acc_ctx_def)
  have aw: "awaited ?s r = awaited s r" for r
    using nacc by (auto simp: awaited_def)
  show ?thesis
  proof (rule net_invI)
    show "inv_fresh ?s" using D(1) inv_freshD(2) [OF D(1) x] by (auto simp: inv_fresh_def)
    show "conn_ok ?s r d" if "conns ?s r = Some d" for r d
      using D(2) [of r d] inj [of r d] that c np bk unfolding conn_ok_def cc aw
      by (cases "r = p") auto
    show "acc_ok ?s b acc" if "accs ?s b = Some acc" for b acc
      using D(3) [of b acc] nacc [of b acc] that unfolding acc_ok_def by auto
    have cq: "conn_ctx s (c_context c)" using c by (auto simp: conn_ctx_def)
    show "inv_io Q ?s" using D(4) np cq x unfolding inv_io_def cc by auto
  qed
qed

lemma net_inv_post_conn:
  assumes I: "net_inv Q s" and c: "conns s p = Some c" and x: "ctxs s (c_context c) = Some x"
    and np: "c_context c \<notin> set (pending s)" and z: "c_connected c = 0" and na: "\<not> awaited s p"
    and op: "x_op x = OPERATION_CONNECT \<or> x_op x = OPERATION_DISCONNECT"
  shows "net_inv Q (s\<lparr>pending := pending s @ [c_context c]\<rparr>)" (is "net_inv Q ?s")
proof -
  note D = net_invD [OF I]
  have inj: "c_context d \<noteq> c_context c" if "conns s r = Some d" "r \<noteq> p" for r d
    using conn_ctx_inj [of s p c r d] I c that by (auto simp: net_inv_def)
  note nacc = conn_acc_disjoint [OF I c, symmetric]
  have cc: "conn_ctx ?s r = conn_ctx s r" "acc_ctx ?s r = acc_ctx s r" for r
    by (simp_all add: conn_ctx_def acc_ctx_def)
  have aw: "awaited ?s r = awaited s r" for r
    using nacc by (auto simp: awaited_def)
  show ?thesis
  proof (rule net_invI)
    show "inv_fresh ?s" using D(1) by (simp add: inv_fresh_def)
    show "conn_ok ?s r d" if "conns ?s r = Some d" for r d
      using D(2) [of r d] inj [of r d] that c x z na op unfolding conn_ok_def cc aw
      by (cases "r = p") auto
    show "acc_ok ?s b acc" if "accs ?s b = Some acc" for b acc
      using D(3) [of b acc] nacc [of b acc] that unfolding acc_ok_def by auto
    have cq: "conn_ctx s (c_context c)" using c by (auto simp: conn_ctx_def)
    show "inv_io Q ?s" using D(4) np cq x unfolding inv_io_def cc by auto
  qed
qed

text \<open>Posting an accept for an idle connection of the acceptor.\<close>

lemma net_inv_post_acc:
  assumes I: "net_inv Q s" and a: "accs s a = Some acc" and x: "ctxs s (a_context acc) = Some x"
    and np: "a_context acc \<notin> set (pending s)" and p: "idle s (x_connection x)"
    and own: "\<And>c. conns s (x_connection x) = Some c \<Longrightarrow> c_acceptor c = a"
  shows "net_inv Q (s\<lparr>pending := pending s @ [a_context acc]\<rparr>)" (is "net_inv Q ?s")
proof -
  note D = net_invD [OF I]
  have cc: "conn_ctx ?s r = conn_ctx s r" "acc_ctx ?s r = acc_ctx s r" for r
    by (simp_all add: conn_ctx_def acc_ctx_def)
  have inj: "b = a" "acc' = acc" if "accs s b = Some acc'" "a_context acc' = a_context acc" for b acc'
    using D(3) [OF a] D(3) [OF that(1)] a that by (auto simp: acc_ok_def)
  have aw: "awaited ?s r \<longleftrightarrow> awaited s r \<or> r = x_connection x" for r
    unfolding awaited_def using a x inj by auto
  have nc: "c_context c \<noteq> a_context acc" if "conns s r = Some c" for r c
    using conn_acc_disjoint [OF I that a] .
  show ?thesis
  proof (rule net_invI)
    show "inv_fresh ?s" using D(1) by (simp add: inv_fresh_def)
    show "conn_ok ?s r d" if "conns ?s r = Some d" for r d
      using D(2) [of r d] nc [of r d] that p unfolding conn_ok_def cc aw idle_def by auto
    show "acc_ok ?s b acc'" if "accs ?s b = Some acc'" for b acc'
      using D(3) [of b acc'] inj [of b acc'] that a x p own unfolding acc_ok_def idle_def by auto
    have aq: "acc_ctx s (a_context acc)" using a by (auto simp: acc_ctx_def)
    show "inv_io Q ?s" using D(4) np aq x unfolding inv_io_def cc by auto
  qed
qed

text \<open>Rewriting the context of an acceptor that is not with the kernel, and the acceptor itself.\<close>

lemma net_inv_upd_acc_ctx:
  assumes I: "net_inv Q s" and a: "accs s a = Some acc" and x: "ctxs s (a_context acc) = Some x"
    and np: "a_context acc \<notin> set (pending s)" and op: "x_op x' = OPERATION_ACCEPT"
  shows "net_inv Q (s\<lparr>ctxs := (ctxs s)(a_context acc \<mapsto> x')\<rparr>)" (is "net_inv Q ?s")
proof -
  note D = net_invD [OF I]
  have cc: "conn_ctx ?s r = conn_ctx s r" "acc_ctx ?s r = acc_ctx s r" for r
    by (simp_all add: conn_ctx_def acc_ctx_def)
  have aw: "awaited ?s r \<longleftrightarrow> awaited s r" for r
    unfolding awaited_def using np by simp (metis (no_types, opaque_lifting))
  have nc: "c_context c \<noteq> a_context acc" if "conns s r = Some c" for r c
    using conn_acc_disjoint [OF I that a] .
  show ?thesis
  proof (rule net_invI)
    show "inv_fresh ?s" using D(1) inv_freshD(2) [OF D(1) x] by (auto simp: inv_fresh_def)
    show "conn_ok ?s r d" if "conns ?s r = Some d" for r d
      using D(2) [of r d] nc [of r d] that unfolding conn_ok_def cc aw by auto
    show "acc_ok ?s b acc'" if "accs ?s b = Some acc'" for b acc'
      using D(3) [of b acc'] that a op np unfolding acc_ok_def by auto
    have aq: "acc_ctx s (a_context acc)" using a by (auto simp: acc_ctx_def)
    show "inv_io Q ?s" using D(4) aq x unfolding inv_io_def cc by auto
  qed
qed

lemma net_inv_upd_acc:
  assumes I: "net_inv Q s" and a: "accs s a = Some acc"
    and same: "a_context acc' = a_context acc" "a_worker acc' = a_worker acc"
  shows "net_inv Q (s\<lparr>accs := (accs s)(a \<mapsto> acc')\<rparr>)" (is "net_inv Q ?s")
proof -
  note D = net_invD [OF I]
  have cc: "conn_ctx ?s r = conn_ctx s r" "acc_ctx ?s r = acc_ctx s r" for r
    using ex_store_upd [of "accs s" a acc "\<lambda>_ d. a_context d = r" acc', OF a] same(1)
    by (simp_all add: conn_ctx_def acc_ctx_def)
  have aw: "awaited ?s r \<longleftrightarrow> awaited s r" for r
    using ex_store_upd [of "accs s" a acc "\<lambda>_ d. \<exists>x. a_context d \<in> set (pending s) \<and>
      ctxs s (a_context d) = Some x \<and> x_connection x = r" acc', OF a] same(1)
    by (simp add: awaited_def)
  show ?thesis
  proof (rule net_invI)
    show "inv_fresh ?s" using D(1) inv_freshD(3) [OF D(1) a] by (auto simp: inv_fresh_def)
    show "conn_ok ?s r d" if "conns ?s r = Some d" for r d
      using D(2) [of r d] that unfolding conn_ok_def cc aw by simp
    show "acc_ok ?s b d" if "accs ?s b = Some d" for b d
      using D(3) [of b d] D(3) [OF a] that same unfolding acc_ok_def by (auto split: if_splits)
    show "inv_io Q ?s" using D(4) unfolding inv_io_def cc by simp
  qed
qed

text \<open>The kernel hands a context back.\<close>

lemma net_inv_complete:
  assumes I: "net_inv Q s" and q: "conn_ctx s q \<or> acc_ctx s q"
  shows "net_inv Q (s\<lparr>pending := remove1 q (pending s)\<rparr>)" (is "net_inv Q ?s")
proof -
  note D = net_invD [OF I]
  have dis: "distinct (pending s)" using D(4) by (simp add: inv_io_def)
  have cc: "conn_ctx ?s r = conn_ctx s r" "acc_ctx ?s r = acc_ctx s r" for r
    by (simp_all add: conn_ctx_def acc_ctx_def)
  have aw: "awaited ?s r \<Longrightarrow> awaited s r" for r
    unfolding awaited_def using dis by auto
  show ?thesis
  proof (rule net_invI)
    show "inv_fresh ?s" using D(1) by (simp add: inv_fresh_def)
    show "conn_ok ?s r d" if "conns ?s r = Some d" for r d
      using D(2) [of r d] that dis aw [of r] unfolding conn_ok_def cc by auto
    show "acc_ok ?s b d" if "accs ?s b = Some d" for b d
      using D(3) [of b d] that dis unfolding acc_ok_def by auto
    show "inv_io Q ?s" using D(4) q unfolding inv_io_def cc by auto
  qed
qed

lemma net_inv_take_io:
  assumes I: "net_inv Q s" and q: "q \<in> set (pending s)" "\<not> conn_ctx s q" "\<not> acc_ctx s q"
    and x: "ctxs s q = Some x" and same: "x_op x' = x_op x" "length (x_buffer x') = length (x_buffer x)"
  shows "net_inv (insert q Q) (s\<lparr>pending := remove1 q (pending s), ctxs := (ctxs s)(q \<mapsto> x')\<rparr>)"
    (is "net_inv ?Q ?s")
proof -
  note D = net_invD [OF I]
  have dis: "distinct (pending s)" using D(4) by (simp add: inv_io_def)
  have cc: "conn_ctx ?s r = conn_ctx s r" "acc_ctx ?s r = acc_ctx s r" for r
    by (simp_all add: conn_ctx_def acc_ctx_def)
  show ?thesis
  proof (rule net_inv_io_only [OF I])
    show "inv_io ?Q ?s" using D(4) q x same dis unfolding inv_io_def cc by auto
  qed (use D(1) inv_freshD(2) [OF D(1) x] q dis in \<open>auto simp: inv_fresh_def\<close>)
qed


section \<open>The operations keep the invariant\<close>

text \<open>What every library call leaves alone: the application, the application pointers of the
  acceptors, the connections that are alive; and no new acceptor appears in a connection.\<close>

definition acceptors :: "'app net \<Rightarrow> ptr set" where
  "acceptors s = {a. \<exists>p c. conns s p = Some c \<and> c_acceptor c = a}"

definition lib_step :: "'app net \<Rightarrow> 'app net \<Rightarrow> bool" where
  "lib_step s s' \<longleftrightarrow> app s' = app s \<and>
     (\<forall>a. map_option a_server (accs s' a) = map_option a_server (accs s a)) \<and> acceptors s' \<subseteq> acceptors s"

abbreviation live :: "'app net \<Rightarrow> ptr set" where "live s \<equiv> dom (conns s)"

lemma lib_step_refl [simp]: "lib_step s s"
  by (simp add: lib_step_def)

lemma lib_step_trans: "lib_step s s' \<Longrightarrow> lib_step s' s'' \<Longrightarrow> lib_step s s''"
  by (auto simp: lib_step_def)

lemma lib_step_frame [simp]:
  "lib_step s (s'\<lparr>tick := t\<rparr>) = lib_step s s'"
  "lib_step s (s'\<lparr>socks := k\<rparr>) = lib_step s s'"
  "lib_step s (s'\<lparr>ctxs := m\<rparr>) = lib_step s s'"
  "lib_step s (s'\<lparr>pending := l\<rparr>) = lib_step s s'"
  "lib_step s (s'\<lparr>next_ptr := n\<rparr>) = lib_step s s'"
  by (simp_all add: lib_step_def acceptors_def)

lemma lib_step_upd_conn:
  "conns s p = Some c \<Longrightarrow> c_acceptor c' = c_acceptor c \<Longrightarrow> lib_step s (s\<lparr>conns := (conns s)(p \<mapsto> c')\<rparr>)"
  by (auto simp: lib_step_def acceptors_def split: if_splits)

lemma post_io_simps:
  "post_io os q s = (post_ok os (tick s),
     if post_ok os (tick s) then s\<lparr>pending := pending s @ [q], tick := Suc (tick s)\<rparr> else s\<lparr>tick := Suc (tick s)\<rparr>)"
  by (simp add: post_io_def)

lemma AsyncDisconnect_ok:
  assumes I: "net_inv Q s" and c: "conns s p = Some c"
  shows "\<exists>s'. AsyncDisconnect os p s = Some s' \<and> net_inv Q s' \<and> lib_step s s' \<and> live s' = live s"
proof (cases "c_connected c = 0")
  case True
  then have "AsyncDisconnect os p s = Some s"
    using c by (simp add: AsyncDisconnect_def Let_def upd_conn_def InterlockedCompareExchange_def fun_upd_idem)
  then show ?thesis using I by simp
next
  case False
  let ?c = "c\<lparr>c_connected := 0\<rparr>"
  let ?s = "s\<lparr>conns := (conns s)(p \<mapsto> ?c)\<rparr>"
  have ok: "conn_ok s p c" using net_invD(2) [OF I c] .
  then obtain x where x: "ctxs s (c_context c) = Some x" "x_connection x = p" by (auto simp: conn_ok_def)
  let ?x = "x\<lparr>x_op := OPERATION_DISCONNECT\<rparr>"
  have one: "c_connected c = 1" "c_context c \<notin> set (pending s)" "\<not> awaited s p"
    using ok False by (auto simp: conn_ok_def)
  have I': "net_inv Q ?s" by (rule net_inv_upd_conn [OF I c]) auto
  have cx: "conns ?s p = Some ?c" "ctxs ?s (c_context ?c) = Some x" "\<not> awaited ?s p"
    using x one by (simp_all add: awaited_def)
  let ?t = "?s\<lparr>ctxs := (ctxs s)(c_context c \<mapsto> ?x)\<rparr>"
  have U: "net_inv Q ?t" using net_inv_upd_conn_ctx [OF I' cx(1,2), of ?x] x one by simp
  have ct: "conns ?t p = Some ?c" "ctxs ?t (c_context ?c) = Some ?x" "\<not> awaited ?t p"
    using one x by (auto simp: awaited_def)
  have P: "net_inv Q (?t\<lparr>pending := pending s @ [c_context c]\<rparr>)"
    using net_inv_post_conn [OF U ct(1,2) _ _ ct(3)] one by simp
  show ?thesis
    using c x one P U lib_step_upd_conn [OF c, of ?c]
    by (auto simp: AsyncDisconnect_def Let_def upd_conn_def upd_ctx_def InterlockedCompareExchange_def post_io_simps
        insert_absorb)
qed

lemma free_held_Disconnect_ok:
  assumes I: "net_inv (insert q Q) s" and q: "q \<notin> Q" and c: "conns s p = Some c"
  shows "\<exists>s'. do { s \<leftarrow> free_ctx q s; AsyncDisconnect os p s } = Some s' \<and> net_inv Q s' \<and> lib_step s s' \<and> live s' = live s"
proof -
  let ?s = "s\<lparr>ctxs := (ctxs s)(q := None)\<rparr>"
  have "net_inv Q ?s" by (rule net_inv_free_held [OF I q])
  from AsyncDisconnect_ok [OF this, of p c os] c held_ctx(1) [OF I] show ?thesis
    by (auto simp: free_ctx_def lib_step_def acceptors_def)
qed


lemma AsyncSend_ok:
  assumes I: "net_inv (insert q Q) s" and q: "q \<notin> Q" and c: "conns s p = Some c"
  shows "\<exists>s'. AsyncSend os p q s = Some s' \<and> net_inv Q s' \<and> lib_step s s' \<and> live s' = live s"
proof -
  obtain x where x: "ctxs s q = Some x" using held_ctx(1) [OF I] by auto
  let ?x = "x\<lparr>x_connection := p\<rparr>"
  let ?s = "s\<lparr>ctxs := (ctxs s)(q \<mapsto> ?x)\<rparr>"
  have P: "net_inv Q (?s\<lparr>pending := pending s @ [q]\<rparr>)"
    using net_inv_post_held [OF I q x, of ?x] by simp
  have "net_inv (insert q Q) ?s" by (rule net_inv_upd_held [OF I x]) auto
  then have "net_inv (insert q Q) (?s\<lparr>tick := Suc (tick s)\<rparr>)" by simp
  from free_held_Disconnect_ok [OF this q, of p c os] c
  show ?thesis using P x c
    by (cases "post_ok os (tick s)")
      (auto simp: AsyncSend_def upd_ctx_def Let_def post_io_simps lib_step_def acceptors_def)
qed

lemma set_len_Send_ok:
  assumes I: "net_inv (insert q Q) s" and q: "q \<notin> Q" and c: "conns s p = Some c"
  shows "\<exists>s'. do { s \<leftarrow> upd_ctx q (\<lambda>x. x\<lparr>x_wsabuf_len := n\<rparr>) s; AsyncSend os p q s } = Some s' \<and>
     net_inv Q s' \<and> lib_step s s' \<and> live s' = live s"
proof -
  obtain x where x: "ctxs s q = Some x" using held_ctx(1) [OF I] by auto
  let ?s = "s\<lparr>ctxs := (ctxs s)(q \<mapsto> x\<lparr>x_wsabuf_len := n\<rparr>)\<rparr>"
  have "net_inv (insert q Q) ?s" by (rule net_inv_upd_held [OF I x]) auto
  from AsyncSend_ok [OF this q, of p c os] c x show ?thesis
    by (auto simp: upd_ctx_def lib_step_def acceptors_def)
qed

lemma AsyncRecv_as_Send:
  "AsyncRecv os p q s =
     do { s \<leftarrow> upd_ctx q (\<lambda>x. x\<lparr>x_wsabuf_len := of_nat MAX_BUFFER\<rparr>) s; AsyncSend os p q s }"
proof -
  have e: "(\<lambda>x :: EasyContext. x\<lparr>x_connection := p, x_wsabuf_len := n\<rparr>) =
      (\<lambda>x. x\<lparr>x_wsabuf_len := n, x_connection := p\<rparr>)" for n
    by (rule ext) simp
  show ?thesis
    unfolding AsyncRecv_def e AsyncSend_def upd_ctx_def by (cases "ctxs s q") simp_all
qed

lemma AsyncRecv_ok:
  assumes "net_inv (insert q Q) s" "q \<notin> Q" "conns s p = Some c"
  shows "\<exists>s'. AsyncRecv os p q s = Some s' \<and> net_inv Q s' \<and> lib_step s s' \<and> live s' = live s"
  using set_len_Send_ok [OF assms] by (simp only: AsyncRecv_as_Send)

lemma AsyncRawSend_ok:
  assumes "net_inv (insert q Q) s" "q \<notin> Q" "conns s p = Some c"
    and "ctxs s q = Some x" "x_op x = OPERATION_SEND"
  shows "\<exists>s'. AsyncRawSend os p len q s = Some s' \<and> net_inv Q s' \<and> lib_step s s' \<and> live s' = live s"
  using set_len_Send_ok [OF assms(1-3), of len os] assms(4,5) by (simp add: AsyncRawSend_def)

lemma CreateContext_ok:
  assumes I: "net_inv Q s" and os: "os_good os" and op: "op = OPERATION_RECV \<or> op = OPERATION_SEND"
  shows "\<exists>s'. CreateContext os op s = Some (next_ptr s, s') \<and> net_inv (insert (next_ptr s) Q) s' \<and>
    next_ptr s \<notin> Q \<and> lib_step s s' \<and> conns s' = conns s \<and> map_option x_op (ctxs s' (next_ptr s)) = Some op"
proof -
  let ?x = "(junk_ctx os)\<lparr>x_buffer := replicate (ADDR_BUFFER + MAX_BUFFER) 0, x_op := op, x_wsabuf_buf := next_ptr s\<rparr>"
  have "net_inv (insert (next_ptr s) Q)
     (s\<lparr>next_ptr := Suc (next_ptr s), ctxs := (ctxs s)(next_ptr s \<mapsto> ?x), tick := Suc (tick s)\<rparr>)"
    using net_inv_new_held [OF I, of ?x] op by simp
  moreover have "CreateContext os op s = Some (next_ptr s,
     s\<lparr>next_ptr := Suc (next_ptr s), ctxs := (ctxs s)(next_ptr s \<mapsto> ?x), tick := Suc (tick s)\<rparr>)"
    using os by (simp add: CreateContext_def malloc_ctx_def os_good_def Let_def upd_ctx_def)
  moreover have "next_ptr s \<notin> Q"
    using net_invD(4) [OF I] inv_freshN(2) [OF net_invD(1) [OF I], of "next_ptr s"] by (auto simp: inv_io_def)
  ultimately show ?thesis by simp
qed

definition server_create_ok :: "os \<Rightarrow> nat \<Rightarrow> bool" where
  "server_create_ok os t \<longleftrightarrow>
     malloc_ok os t \<and> socket_ok os (t + 1) \<and> iocp_ok os (t + 2) \<and> malloc_ok os (t + 3)"

lemma server_create_good: "os_good os \<Longrightarrow> server_create_ok os t"
  by (simp add: os_good_def server_create_ok_def)

lemma CreateConnection_eq:
  assumes "inv_fresh s" "workers s w \<noteq> None"
  shows "CreateConnection os h w a s = Some (let t = tick s; p = next_ptr s; k = next_sock s in
     if \<not> malloc_ok os t then (NULL, s\<lparr>tick := t + 1\<rparr>)
     else if \<not> socket_ok os (t + 1) then (NULL, s\<lparr>tick := t + 2, next_ptr := p + 1\<rparr>)
     else if \<not> iocp_ok os (t + 2) then
       (NULL, s\<lparr>tick := t + 3, next_ptr := p + 1, next_sock := k + 1, socks := (socks s)(k := False)\<rparr>)
     else if \<not> malloc_ok os (t + 3) then
       (NULL, s\<lparr>tick := t + 4, next_ptr := p + 1, next_sock := k + 1, socks := (socks s)(k := True)\<rparr>)
     else if a = NULL \<and> \<not> bind_ok os (t + 4) then
       (NULL, s\<lparr>tick := t + 5, next_ptr := p + 2, next_sock := k + 1, socks := (socks s)(k := True),
          ctxs := (ctxs s)(p + 1 \<mapsto> fresh_ctx os p)\<rparr>)
     else (p, (with_conn os h w a s)\<lparr>tick := (if a = NULL then t + 5 else t + 4)\<rparr>))"
proof -
  have f: "0 < next_ptr s" "0 < next_sock s" "(conns s)(next_ptr s := None) = conns s"
    using assms(1) by (auto simp: inv_fresh_def fun_upd_idem)
  obtain wk where "workers s w = Some wk" using assms(2) by auto
  moreover have e: "n + 3 = Suc (Suc (Suc n))" "n + 4 = Suc (Suc (Suc (Suc n)))" "n + 5 = Suc (Suc (Suc (Suc (Suc n))))"
    for n :: nat by simp_all
  ultimately show ?thesis using f
    by (simp add: e CreateConnection_def prim_defs Let_def with_conn_def fresh_conn_def fresh_ctx_def)
qed


lemma idle_with_conn:
  assumes "net_inv Q s"
  shows "idle (with_conn os h w a s) (next_ptr s)"
  using net_invD(5) [OF assms, of "next_ptr s"] inv_freshN [OF net_invD(1) [OF assms], of "next_ptr s"]
    awaited_with_conn [OF assms] pending_old [OF net_invD(1,4) [OF assms], of "Suc (next_ptr s)"]
  by (auto simp: idle_def with_conn_def fresh_conn_def)

text \<open>An accept about to be posted: a new connection, referred to by the acceptor's context.\<close>

definition prepared :: "os \<Rightarrow> ptr \<Rightarrow> EasyAcceptor \<Rightarrow> EasyContext \<Rightarrow> 'app net \<Rightarrow> 'app net" where
  "prepared os a acc x s = (let p = next_ptr s in (with_conn os (a_handler acc) (a_worker acc) a s)\<lparr>
     conns := (conns s)(p \<mapsto>
       (fresh_conn os (a_handler acc) (a_worker acc) a (next_sock s) (Suc p))\<lparr>c_client := NULL\<rparr>),
     ctxs := (ctxs s)(Suc p \<mapsto> fresh_ctx os p, a_context acc \<mapsto> x\<lparr>x_connection := p\<rparr>)\<rparr>)"

definition refused :: "ptr \<Rightarrow> EasyAcceptor \<Rightarrow> 'app net \<Rightarrow> 'app net" where
  "refused a acc s = s\<lparr>
     conns := (conns s)(next_ptr s - 2 := None), ctxs := (ctxs s)(next_ptr s - 1 := None),
     accs := (accs s)(a \<mapsto> acc\<lparr>a_running := 0\<rparr>), socks := (socks s)(next_sock s - 1 := False)\<rparr>"

lemma AcceptConnection_eq:
  assumes I: "net_inv Q s" and a: "accs s a = Some acc" and x: "ctxs s (a_context acc) = Some x"
    and os: "server_create_ok os (tick s)"
  defines "t \<equiv> (prepared os a acc x s)\<lparr>tick := tick s + 5\<rparr>"
  shows "AcceptConnection os a s = Some (if post_ok os (tick s + 4)
     then t\<lparr>pending := pending s @ [a_context acc]\<rparr> else refused a acc t)"
proof -
  note D = net_invD [OF I]
  have w: "workers s (a_worker acc) \<noteq> None" using D(3) [OF a] by (simp add: acc_ok_def)
  have fc: "a_context acc < next_ptr s" using ctx_old(2) [OF I, of "a_context acc"] a by (auto simp: acc_ctx_def)
  have c1: "CreateConnection os (a_handler acc) (a_worker acc) a s =
      Some (next_ptr s, (with_conn os (a_handler acc) (a_worker acc) a s)\<lparr>tick := tick s + 4\<rparr>)"
    using CreateConnection_eq [OF D(1) w] inv_freshD(3) [OF D(1) a] os by (simp add: server_create_ok_def)
  show ?thesis
    using a x fc
    by (auto simp: AcceptConnection_def c1 upd_conn_def upd_ctx_def with_conn_def prepared_def t_def Let_def
        post_io_simps refused_def CloseConnection_def DeleteConnection_def free_ctx_def free_conn_def upd_acc_def
        closesocket_def fresh_conn_def)
qed


lemma prepared_ok:
  fixes os :: os
  assumes I: "net_inv Q s" and a: "accs s a = Some acc" and x: "ctxs s (a_context acc) = Some x"
    and np: "a_context acc \<notin> set (pending s)"
  defines "t \<equiv> prepared os a acc x s"
  shows "net_inv Q t" "idle t (next_ptr s)" "idle s r \<Longrightarrow> idle t r"
proof -
  note D = net_invD [OF I]
  let ?p = "next_ptr s"
  have w: "workers s (a_worker acc) \<noteq> None" and op: "x_op x = OPERATION_ACCEPT"
    using D(3) [OF a] x by (auto simp: acc_ok_def)
  have fc: "a_context acc < ?p" using ctx_old(2) [OF I, of "a_context acc"] a by (auto simp: acc_ctx_def)
  let ?c = "fresh_conn os (a_handler acc) (a_worker acc) a (next_sock s) (Suc ?p)"
  let ?s1 = "(with_conn os (a_handler acc) (a_worker acc) a s)\<lparr>conns := (conns s)(?p \<mapsto> ?c\<lparr>c_client := NULL\<rparr>)\<rparr>"
  have "net_inv Q ?s1"
    using net_inv_upd_conn [OF net_inv_with_conn [OF I w], of os "a_handler acc" a ?p ?c "?c\<lparr>c_client := NULL\<rparr>"]
    by (simp add: with_conn_def fresh_conn_def)
  from net_inv_upd_acc_ctx [OF this, of a acc x "x\<lparr>x_connection := ?p\<rparr>"] a x np fc op
  show "net_inv Q t" by (simp add: with_conn_def t_def prepared_def Let_def)
  have aw: "awaited s r" if "awaited t r" for r
    using that np ctx_old(2) [OF I, of "Suc ?p"]
    by (auto simp: awaited_def t_def prepared_def with_conn_def Let_def acc_ctx_def split: if_splits) metis
  show "idle t ?p"
    using aw [of ?p] D(5) [of ?p] inv_freshN(1) [OF D(1), of ?p] pending_old [OF D(1,4), of "Suc ?p"]
    by (auto simp: idle_def t_def prepared_def with_conn_def Let_def fresh_conn_def)
  show "idle t r" if "idle s r"
    using that aw [of r] inv_freshN(1) [OF D(1), of ?p]
    by (auto simp: idle_def t_def prepared_def with_conn_def Let_def)
qed

lemma idle_post_acc:
  assumes I: "net_inv Q s" and a: "accs s a = Some acc" and x: "ctxs s (a_context acc) = Some x"
    and r: "idle s r" "r \<noteq> x_connection x"
  shows "idle (s\<lparr>pending := pending s @ [a_context acc]\<rparr>) r" (is "idle ?s r")
proof -
  have inj: "acc' = acc" if "accs s b = Some acc'" "a_context acc' = a_context acc" for b acc'
    using net_invD(3) [OF I a] net_invD(3) [OF I that(1)] a that by (auto simp: acc_ok_def)
  have "awaited s r" if "awaited ?s r"
    using that r(2) x inj unfolding awaited_def by auto
  then show ?thesis using r(1) conn_acc_disjoint [OF I _ a] by (auto simp: idle_def)
qed

lemma idle_refused:
  assumes "idle s r" "accs s a = Some acc" "r \<noteq> next_ptr s - 2"
  shows "idle (refused a acc s) r"
proof -
  have "awaited s r" if "awaited (refused a acc s) r"
    using that assms(2) unfolding awaited_def refused_def by (auto split: if_splits)
  then show ?thesis using assms by (auto simp: idle_def refused_def)
qed

lemma AcceptConnection_ok:
  assumes I: "net_inv Q s" and a: "accs s a = Some acc" and np: "a_context acc \<notin> set (pending s)"
    and os: "server_create_ok os (tick s)"
  shows "\<exists>s'. AcceptConnection os a s = Some s' \<and> net_inv Q s' \<and> app s' = app s \<and>
     (\<forall>b. map_option a_server (accs s' b) = map_option a_server (accs s b)) \<and>
     acceptors s' \<subseteq> insert a (acceptors s) \<and>
     (\<forall>p c. conns s p = Some c \<longrightarrow> conns s' p = Some c) \<and> (\<forall>p. idle s p \<longrightarrow> idle s' p)"
proof -
  note D = net_invD [OF I]
  obtain x where x: "ctxs s (a_context acc) = Some x" using D(3) [OF a] by (auto simp: acc_ok_def)
  let ?t = "(prepared os a acc x s)\<lparr>tick := tick s + 5\<rparr>" and ?p = "next_ptr s"
  note P = prepared_ok [OF I a x np, where os = os]
  have It: "net_inv Q ?t" using P(1) by simp
  have acc_t: "accs ?t a = Some acc" "pending ?t = pending s" "next_ptr ?t = Suc (Suc ?p)"
      "ctxs ?t (a_context acc) = Some (x\<lparr>x_connection := ?p\<rparr>)"
    using a by (simp_all add: prepared_def with_conn_def Let_def)
  let ?ok = "?t\<lparr>pending := pending s @ [a_context acc]\<rparr>"
  have N: "conns s ?p = None" "ctxs s (Suc ?p) = None" using inv_freshN [OF D(1)] by auto
  have rne: "r \<noteq> ?p" if "idle s r" for r using that N(1) by (auto simp: idle_def)
  show ?thesis
  proof (cases "post_ok os (tick s + 4)")
    case True
    have "net_inv Q ?ok"
      using net_inv_post_acc [OF It acc_t(1,4)] np P(2) acc_t(2)
      by (simp add: prepared_def with_conn_def Let_def fresh_conn_def)
    moreover have "idle ?ok r" if "idle s r" for r
      using idle_post_acc [OF It acc_t(1,4), of r] P(3) [OF that] rne [OF that] acc_t(2) by simp
    ultimately show ?thesis
      using AcceptConnection_eq [OF I a x os] True N
      by (auto simp: prepared_def with_conn_def Let_def acceptors_def fresh_conn_def split: if_splits)
  next
    case False
    let ?c = "(fresh_conn os (a_handler acc) (a_worker acc) a (next_sock s) (Suc ?p))\<lparr>c_client := NULL\<rparr>"
    have c: "conns ?t ?p = Some ?c" by (simp add: prepared_def with_conn_def Let_def)
    have "net_inv Q (?t\<lparr>conns := (conns ?t)(?p := None), ctxs := (ctxs ?t)(c_context ?c := None)\<rparr>)"
      using net_inv_delete [OF It c] P(2) c by (auto simp: idle_def)
    from net_inv_upd_acc [OF this, of a acc "acc\<lparr>a_running := 0\<rparr>"]
    have "net_inv Q (refused a acc ?t)" using acc_t by (simp add: refused_def fresh_conn_def)
    moreover have "idle (refused a acc ?t) r" if "idle s r" for r
      using idle_refused [OF _ acc_t(1), of r] P(3) [OF that] rne [OF that] acc_t(3) by simp
    ultimately show ?thesis
      using AcceptConnection_eq [OF I a x os] False N a
      by (auto simp: prepared_def with_conn_def Let_def acceptors_def fresh_conn_def refused_def split: if_splits)
  qed
qed


lemma CloseConnection_ok:
  assumes I: "net_inv Q s" and c: "conns s p = Some c" and q: "c_context c \<notin> set (pending s)" "\<not> awaited s p"
  shows "\<exists>s'. CloseConnection p s = Some s' \<and> net_inv Q s' \<and> lib_step s s' \<and> live s' = live s - {p}"
proof -
  obtain x where x: "ctxs s (c_context c) = Some x" using net_invD(2) [OF I c] by (auto simp: conn_ok_def)
  let ?s = "s\<lparr>conns := (conns s)(p := None), ctxs := (ctxs s)(c_context c := None), socks := (socks s)(c_socket c := False)\<rparr>"
  have "CloseConnection p s = Some ?s"
    using c x by (simp add: CloseConnection_def DeleteConnection_def Let_def closesocket_def free_ctx_def free_conn_def)
  moreover have "net_inv Q ?s" using net_inv_delete [OF I c q] by simp
  moreover have "lib_step s ?s" by (auto simp: lib_step_def acceptors_def split: if_splits)
  ultimately show ?thesis by auto
qed

lemma deliver_embedded:
  assumes I: "net_inv Q s" and q: "conn_ctx s q \<or> acc_ctx s q" "q \<in> set (pending s)" and x: "ctxs s q = Some x"
  shows "deliver data q s = Some (s\<lparr>pending := remove1 q (pending s)\<rparr>)" "x_op x \<noteq> OPERATION_RECV"
proof -
  show "x_op x \<noteq> OPERATION_RECV"
    using q x net_invD(2,3) [OF I] unfolding conn_ctx_def acc_ctx_def conn_ok_def acc_ok_def by fastforce
  then show "deliver data q s = Some (s\<lparr>pending := remove1 q (pending s)\<rparr>)"
    using x by (simp add: deliver_def fun_upd_idem)
qed

lemma accept_completed:
  assumes I: "net_inv Q s" and a: "accs s a = Some acc" and q: "a_context acc \<in> set (pending s)"
    and x: "ctxs s (a_context acc) = Some x"
  shows "awaited s (x_connection x)" "x_op x = OPERATION_ACCEPT"
    "\<exists>c. conns s (x_connection x) = Some c \<and> c_acceptor c = a"
    "idle (s\<lparr>pending := remove1 (a_context acc) (pending s)\<rparr>) (x_connection x)" (is "idle ?s ?p")
proof -
  note D = net_invD [OF I]
  have dis: "distinct (pending s)" using D(4) by (simp add: inv_io_def)
  show aw: "awaited s ?p" unfolding awaited_def using a q x by blast
  show "x_op x = OPERATION_ACCEPT" and ex: "\<exists>c. conns s ?p = Some c \<and> c_acceptor c = a"
    using D(3) [OF a] q x by (auto simp: acc_ok_def)
  then obtain c where c: "conns s ?p = Some c" "c_acceptor c = a" by auto
  have "b = a" if "accs s b = Some d" "a_context d \<in> set (pending s)" "ctxs s (a_context d) = Some y"
      "x_connection y = ?p" for b d y
    using D(3) [OF that(1)] that c by (auto simp: acc_ok_def)
  then have "\<not> awaited ?s ?p" using a dis by (auto simp: awaited_def)
  then show "idle ?s ?p" using D(2) [OF c(1)] c dis aw by (auto simp: idle_def conn_ok_def)
qed

lemma deliver_io:
  assumes I: "net_inv Q s" and q: "\<not> conn_ctx s q" "\<not> acc_ctx s q" "q \<in> set (pending s)" and x: "ctxs s q = Some x"
    and len: "length data \<le> MAX_BUFFER"
  shows "\<exists>s'. deliver data q s = Some s' \<and> net_inv (insert q Q) s' \<and> lib_step s s' \<and> conns s' = conns s \<and>
     (\<exists>x'. ctxs s' q = Some x' \<and> x_op x' = x_op x \<and> x_connection x' = x_connection x \<and>
        (x_op x = OPERATION_RECV \<longrightarrow> take (length data) (x_buffer x') = data))"
proof -
  have l: "length (x_buffer x) = ADDR_BUFFER + MAX_BUFFER"
    using net_invD(4) [OF I] q x by (auto simp: inv_io_def)
  let ?b = "if x_op x = OPERATION_RECV then data @ drop (length data) (x_buffer x) else x_buffer x"
  have "deliver data q s = Some (s\<lparr>pending := remove1 q (pending s), ctxs := (ctxs s)(q \<mapsto> x\<lparr>x_buffer := ?b\<rparr>)\<rparr>)"
    using x l len by (simp add: deliver_def)
  moreover have "net_inv (insert q Q) (s\<lparr>pending := remove1 q (pending s), ctxs := (ctxs s)(q \<mapsto> x\<lparr>x_buffer := ?b\<rparr>)\<rparr>)"
    using net_inv_take_io [OF I q(3,1,2) x, of "x\<lparr>x_buffer := ?b\<rparr>"] l len by simp
  ultimately show ?thesis by simp
qed

section \<open>The contract of the callbacks, and the worker thread\<close>

text \<open>What the library relies on of the callbacks: they keep the ownership invariant and an
  invariant \<open>I\<close> of the application, which the library's own steps keep too, and, while the library
  still uses the connection afterwards, they do not close it.\<close>

locale easy_handler =
  fixes H :: "nat \<Rightarrow> 'app EasyHandler" and I :: "'app net \<Rightarrow> bool"
  assumes I_step: "I s \<Longrightarrow> lib_step s s' \<Longrightarrow> I s'"
    and OnConnection_ok: "net_inv Q s \<Longrightarrow> I s \<Longrightarrow> conns s p = Some c \<Longrightarrow>
      \<exists>ok s'. OnConnection (H (c_handler c)) p s = Some (ok, s') \<and> net_inv Q s' \<and> I s' \<and> live s \<subseteq> live s'"
    and OnData_ok: "net_inv Q s \<Longrightarrow> I s \<Longrightarrow> conns s p = Some c \<Longrightarrow> unat n \<le> MAX_BUFFER \<Longrightarrow> MAX_BUFFER \<le> length buf \<Longrightarrow>
      \<exists>s'. OnData (H (c_handler c)) p n buf s = Some s' \<and> net_inv Q s' \<and> I s' \<and> live s \<subseteq> live s'"
    and OnDisconnect_ok: "net_inv Q s \<Longrightarrow> I s \<Longrightarrow> conns s p = Some c \<Longrightarrow>
      \<exists>s'. OnDisconnect (H (c_handler c)) p s = Some s' \<and> net_inv Q s' \<and> I s'"
    and OnConnectFailed_ok: "net_inv Q s \<Longrightarrow> I s \<Longrightarrow> conns s p = Some c \<Longrightarrow> idle s p \<Longrightarrow>
      \<exists>s'. OnConnectFailed (H (c_handler c)) (c_client c) s = Some s' \<and> net_inv Q s' \<and> I s' \<and> idle s' p"
begin

lemma after_OnConnection_ok:
  assumes I: "net_inv Q s" "I s" "p \<in> live s" and os: "os_good os"
  shows "\<exists>s'. after_OnConnection os p ok s = Some s' \<and> net_inv Q s' \<and> I s'"
proof (cases ok)
  case True
  obtain s1 where s1: "CreateContext os OPERATION_RECV s = Some (next_ptr s, s1)"
      "net_inv (insert (next_ptr s) Q) s1" "next_ptr s \<notin> Q" "lib_step s s1" "conns s1 = conns s"
    using CreateContext_ok [OF I(1) os, of OPERATION_RECV] by auto
  then obtain c where "conns s1 p = Some c" using I(3) by auto
  from AsyncRecv_ok [OF s1(2,3) this, of os] s1 True I_step [OF I(2)] show ?thesis
    by (auto simp: after_OnConnection_def intro: lib_step_trans)
next
  case False
  obtain c where "conns s p = Some c" using I(3) by auto
  from AsyncDisconnect_ok [OF I(1) this, of os] False I_step [OF I(2)] show ?thesis
    by (auto simp: after_OnConnection_def)
qed

lemma connected_ok:
  assumes I: "net_inv Q s" "I s" and c: "conns s p = Some c" and os: "os_good os"
  shows "\<exists>s'. do { c \<leftarrow> conns s p; (ok, s) \<leftarrow> OnConnection (H (c_handler c)) p s; after_OnConnection os p ok s } = Some s' \<and>
    net_inv Q s' \<and> I s'"
proof -
  obtain ok s1 where 1: "OnConnection (H (c_handler c)) p s = Some (ok, s1)" "net_inv Q s1" "I s1" "live s \<subseteq> live s1"
    using OnConnection_ok [OF I c] by auto
  then have "p \<in> live s1" using c by auto
  from after_OnConnection_ok [OF 1(2,3) this os, of ok] 1(1) c show ?thesis by simp
qed

lemma on_connect_ok:
  assumes I: "net_inv {} s" "I s" and p: "idle s p" and os: "os_good os"
  shows "\<exists>s'. on_connect os H b p s = Some s' \<and> net_inv {} s' \<and> I s'"
proof -
  obtain c where c: "conns s p = Some c" and id: "c_context c \<notin> set (pending s)" "\<not> awaited s p"
    using p by (auto simp: idle_def)
  show ?thesis
  proof (cases b)
    case True
    let ?s = "s\<lparr>conns := (conns s)(p \<mapsto> c\<lparr>c_connected := 1\<rparr>), tick := Suc (tick s)\<rparr>"
    have "net_inv {} ?s" using net_inv_upd_conn [OF I(1) c, of "c\<lparr>c_connected := 1\<rparr>"] id by simp
    moreover have "I ?s" using I_step [OF I(2)] lib_step_upd_conn [OF c, of "c\<lparr>c_connected := 1\<rparr>"] by simp
    ultimately show ?thesis using connected_ok [of "{}" ?s p "c\<lparr>c_connected := 1\<rparr>" os] c True os
      by (auto simp: on_connect_def upd_conn_def os_call_def Let_def)
  next
    case False
    obtain s1 where 1: "OnConnectFailed (H (c_handler c)) (c_client c) s = Some s1" "net_inv {} s1" "I s1" "idle s1 p"
      using OnConnectFailed_ok [OF I c p] by auto
    then obtain d where "conns s1 p = Some d" "c_context d \<notin> set (pending s1)" "\<not> awaited s1 p"
      by (auto simp: idle_def)
    from CloseConnection_ok [OF 1(2) this] 1 c False I_step [OF 1(3)] show ?thesis
      by (auto simp: on_connect_def)
  qed
qed

lemma on_accept_ok:
  assumes I: "net_inv {} s" "I s" and p: "idle s p" and c: "conns s p = Some c"
    and a: "accs s (c_acceptor c) = Some acc" "a_context acc \<notin> set (pending s)" and os: "os_good os"
  shows "\<exists>s'. on_accept os H b p s = Some s' \<and> net_inv {} s' \<and> I s'"
proof (cases b)
  case True
  obtain s1 where s1: "AcceptConnection os (c_acceptor c) s = Some s1" "net_inv {} s1" "app s1 = app s"
      "\<forall>b. map_option a_server (accs s1 b) = map_option a_server (accs s b)"
      "acceptors s1 \<subseteq> insert (c_acceptor c) (acceptors s)" "conns s1 p = Some c" "idle s1 p"
    using AcceptConnection_ok [OF I(1) a server_create_good [OF os]] p c by blast
  have "c_acceptor c \<in> acceptors s" using c by (auto simp: acceptors_def)
  then have "lib_step s s1" using s1 by (auto simp: lib_step_def)
  then have I1: "I s1" by (rule I_step [OF I(2)])
  let ?s = "s1\<lparr>tick := Suc (tick s1), conns := (conns s1)(p \<mapsto> c\<lparr>c_connected := 1\<rparr>)\<rparr>"
  have "net_inv {} ?s"
    using net_inv_upd_conn [of "{}" "s1\<lparr>tick := Suc (tick s1)\<rparr>" p c "c\<lparr>c_connected := 1\<rparr>"] s1 by (auto simp: idle_def)
  moreover have "I ?s"
    using I_step [OF I1] lib_step_upd_conn [of "s1\<lparr>tick := Suc (tick s1)\<rparr>" p c "c\<lparr>c_connected := 1\<rparr>"] s1(6)
    by (auto simp: lib_step_def acceptors_def split: if_splits)
  ultimately show ?thesis
    using connected_ok [of "{}" ?s p "c\<lparr>c_connected := 1\<rparr>" os] c True os s1 I1 I_step [OF I1]
      by (auto simp: on_accept_def upd_conn_def os_call_def Let_def)
qed (use I c in \<open>simp add: on_accept_def\<close>)

lemma on_recv_ok:
  assumes I: "net_inv {q} s" "I s" and c: "conns s p = Some c" and x: "ctxs s q = Some x" and n: "unat n \<le> MAX_BUFFER"
  shows "\<exists>s'. on_recv os H n q p s = Some s' \<and> net_inv {} s' \<and> I s'"
proof (cases "n = 0")
  case True
  then show ?thesis
    using free_held_Disconnect_ok [OF I(1) _ c, of os] I_step [OF I(2)] by (auto simp: on_recv_def)
next
  case False
  have "MAX_BUFFER \<le> length (x_buffer x)" using held_ctx(1) [OF I(1)] x by auto
  then obtain s1 where 1: "OnData (H (c_handler c)) p n (x_buffer x) s = Some s1" "net_inv {q} s1" "I s1" "live s \<subseteq> live s1"
    using OnData_ok [OF I c n] by blast
  then obtain d where "conns s1 p = Some d" using c by auto
  from AsyncRecv_ok [OF 1(2) _ this, of os] 1 c x False I_step [OF 1(3)] show ?thesis
    by (auto simp: on_recv_def)
qed

text \<open>One completion packet.  A receive whose connection is gone is excluded; see
  \<open>recv_after_close\<close> for what happens then.\<close>

lemma packet_ok:
  assumes I: "net_inv {} s" "I s" and q: "q \<in> set (pending s)" and x: "ctxs s q = Some x"
    and len: "length data \<le> MAX_BUFFER" and alive: "x_op x = OPERATION_RECV \<Longrightarrow> x_connection x \<in> live s"
    and os: "os_good os"
  shows "\<exists>s1 s'. deliver data q s = Some s1 \<and>
     worker_iteration os H b (of_nat (length data)) q s1 = Some s' \<and> net_inv {} s' \<and> I s'"
proof -
  note D = net_invD [OF I(1)]
  let ?p = "x_connection x" and ?s = "s\<lparr>pending := remove1 q (pending s)\<rparr>"
  have dis: "distinct (pending s)" using D(4) by (simp add: inv_io_def)
  have Is: "I ?s" using I_step [OF I(2)] by simp
  consider (acc) a acc where "accs s a = Some acc" "a_context acc = q"
    | (conn) p c where "conns s p = Some c" "c_context c = q" "\<not> acc_ctx s q"
    | (io) "\<not> conn_ctx s q" "\<not> acc_ctx s q"
    unfolding conn_ctx_def acc_ctx_def by metis
  then show ?thesis
  proof cases
    case acc
    then have qa: "conn_ctx s q \<or> acc_ctx s q" by (auto simp: acc_ctx_def)
    have q': "a_context acc \<in> set (pending s)" "ctxs s (a_context acc) = Some x" using acc q x by auto
    from accept_completed [OF I(1) acc(1) q']
    obtain c where c: "conns s ?p = Some c" "c_acceptor c = a" "x_op x = OPERATION_ACCEPT" and "idle ?s ?p"
      using acc by auto
    from on_accept_ok [OF net_inv_complete [OF I(1) qa] Is \<open>idle ?s ?p\<close> _ _ _ os, of c acc b] c acc dis
    show ?thesis using deliver_embedded(1) [OF I(1) qa q x] x by (auto simp: worker_iteration_def)
  next
    case conn
    then have qa: "conn_ctx s q \<or> acc_ctx s q" by (auto simp: conn_ctx_def)
    have c: "c_connected c = 0" "x_connection x = p" "x_op x = OPERATION_CONNECT \<or> x_op x = OPERATION_DISCONNECT"
        "\<not> awaited s p"
      using D(2) [OF conn(1)] conn q x by (auto simp: conn_ok_def)
    have "idle ?s p" using conn c dis by (auto simp: idle_def awaited_def)
    note C = on_connect_ok [OF net_inv_complete [OF I(1) qa] Is this os, of b]
    note E = OnDisconnect_ok [OF net_inv_complete [OF I(1) qa] Is, of p c]
    show ?thesis using deliver_embedded(1) [OF I(1) qa q x] x c conn C E
      by (auto simp: worker_iteration_def on_disconnect_def)
  next
    case io
    obtain s1 y where s1: "deliver data q s = Some s1" "net_inv {q} s1" "lib_step s s1" "conns s1 = conns s"
        "ctxs s1 q = Some y" "x_op y = x_op x" "x_connection y = ?p"
      using deliver_io [OF I(1) io q x len] by auto
    have I1: "I s1" by (rule I_step [OF I(2) s1(3)])
    have n: "unat (of_nat (length data) :: u32) \<le> MAX_BUFFER"
      using len by (simp add: unat_of_nat_less)
    have "x_op x = OPERATION_RECV \<or> x_op x = OPERATION_SEND" using D(4) io x by (auto simp: inv_io_def)
    then show ?thesis
    proof
      assume r: "x_op x = OPERATION_RECV"
      then obtain c where "conns s1 ?p = Some c" using alive s1(4) by auto
      from on_recv_ok [OF s1(2) I1 this s1(5) n, of os] show ?thesis
        using s1 r by (simp add: worker_iteration_def)
    next
      assume "x_op x = OPERATION_SEND"
      then show ?thesis using s1 net_inv_free_held [OF s1(2)] I_step [OF I1]
        by (simp add: worker_iteration_def free_ctx_def)
    qed
  qed
qed

end


section \<open>Runs\<close>

text \<open>What can happen to the library's state: a completion packet is handled by a worker thread; the
  application sends, disconnects, or closes a connection that is idle; or the application changes
  state of its own.  The result of a step is the value of the code, \<open>None\<close> when it goes wrong.\<close>

definition send_new :: "os \<Rightarrow> ptr \<Rightarrow> u32 \<Rightarrow> 'app net \<Rightarrow> 'app net option" where
  "send_new os p len s = do { (q, s) \<leftarrow> CreateContext os OPERATION_SEND s; AsyncRawSend os p len q s }"

inductive net_step ::
  "os \<Rightarrow> (nat \<Rightarrow> 'app EasyHandler) \<Rightarrow> ('app net \<Rightarrow> bool) \<Rightarrow> 'app net \<Rightarrow> 'app net option \<Rightarrow> bool" for os H I where
  step_packet: "q \<in> set (pending s) \<Longrightarrow> ctxs s q = Some x \<Longrightarrow> length data \<le> MAX_BUFFER \<Longrightarrow>
     (x_op x = OPERATION_RECV \<longrightarrow> x_connection x \<in> live s) \<Longrightarrow>
     net_step os H I s (handle_packet os H b data q s)"
| step_send: "p \<in> live s \<Longrightarrow>
     net_step os H I s (send_new os p len s)"
| step_disconnect: "p \<in> live s \<Longrightarrow> net_step os H I s (AsyncDisconnect os p s)"
| step_close: "idle s p \<Longrightarrow> net_step os H I s (CloseConnection p s)"
| step_app: "I (s\<lparr>app := a\<rparr>) \<Longrightarrow> net_step os H I s (Some (s\<lparr>app := a\<rparr>))"

inductive net_run :: "os \<Rightarrow> (nat \<Rightarrow> 'app EasyHandler) \<Rightarrow> ('app net \<Rightarrow> bool) \<Rightarrow> 'app net \<Rightarrow> 'app net \<Rightarrow> bool"
  for os H I where
  run_refl: "net_run os H I s s"
| run_step: "net_run os H I s s' \<Longrightarrow> net_step os H I s' (Some s'') \<Longrightarrow> net_run os H I s s''"

lemma step_send_ok:
  assumes I: "net_inv {} s" and p: "p \<in> live s" and os: "os_good os"
  shows "\<exists>s'. send_new os p len s = Some s' \<and> net_inv {} s' \<and> lib_step s s'"
proof -
  obtain s1 x where 1: "CreateContext os OPERATION_SEND s = Some (next_ptr s, s1)" "net_inv {next_ptr s} s1"
      "lib_step s s1" "conns s1 = conns s" "ctxs s1 (next_ptr s) = Some x" "x_op x = OPERATION_SEND"
    using CreateContext_ok [OF I os, of OPERATION_SEND] by auto
  then obtain c where "conns s1 p = Some c" using p by auto
  from AsyncRawSend_ok [OF 1(2) _ this 1(5,6), of os len] 1 show ?thesis
    by (auto simp: send_new_def intro: lib_step_trans)
qed

context easy_handler
begin

lemma net_step_ok:
  assumes st: "net_step os H I s r" and I: "net_inv {} s" "I s" and os: "os_good os"
  shows "\<exists>s'. r = Some s' \<and> net_inv {} s' \<and> I s'"
  using st
proof cases
  case (step_packet q x data b)
  then show ?thesis using packet_ok [OF I step_packet(2,3,4) _ os, of b] by (auto simp: handle_packet_def)
next
  case (step_send p len)
  then show ?thesis using step_send_ok [OF I(1) step_send(2) os, of len] I_step [OF I(2)] by auto
next
  case (step_disconnect p)
  then show ?thesis using AsyncDisconnect_ok [OF I(1), of p _ os] I_step [OF I(2)] by fastforce
next
  case (step_close p)
  then obtain c where "conns s p = Some c" "c_context c \<notin> set (pending s)" "\<not> awaited s p"
    by (auto simp: idle_def)
  from CloseConnection_ok [OF I(1) this] step_close I_step [OF I(2)] show ?thesis by auto
next
  case (step_app a)
  then show ?thesis using I by simp
qed

lemma net_run_ok:
  assumes "net_run os H I s s'" and I: "net_inv {} s" "I s" and os: "os_good os"
  shows "net_inv {} s' \<and> I s'"
  using assms(1) I by (induction rule: net_run.induct) (auto dest: net_step_ok [OF _ _ _ os])

end

section \<open>Functional behaviour\<close>

lemma AsyncDisconnect_zero:
  "conns s p = Some c \<Longrightarrow> c_connected c = 0 \<Longrightarrow> AsyncDisconnect os p s = Some s"
  by (simp add: AsyncDisconnect_def Let_def upd_conn_def InterlockedCompareExchange_def fun_upd_idem)

lemma AsyncDisconnect_one:
  assumes c: "conns s p = Some c" "c_connected c = 1" and x: "ctxs s (c_context c) = Some x"
  shows "AsyncDisconnect os p s = Some (s\<lparr>conns := (conns s)(p \<mapsto> c\<lparr>c_connected := 0\<rparr>),
     ctxs := (ctxs s)(c_context c \<mapsto> x\<lparr>x_op := OPERATION_DISCONNECT\<rparr>),
     pending := (if post_ok os (tick s) then pending s @ [c_context c] else pending s),
     tick := Suc (tick s)\<rparr>)"
  using c x by (simp add: AsyncDisconnect_def Let_def upd_conn_def upd_ctx_def InterlockedCompareExchange_def post_io_simps)


text \<open>C23: CreateConnection never goes wrong.  It returns a connection exactly when every system call
  succeeds, and the result then satisfies the ownership invariant, idle, with its own context and
  an open socket.  When it returns NULL no connection is left behind; but the new socket stays open
  exactly when the context cannot be allocated or the client-side bind fails, and in the latter case
  the context is leaked as well.\<close>
theorem CreateConnection_outcome:
  assumes I: "net_inv Q s" and w: "workers s w \<noteq> None" and k: "\<not> socks s (next_sock s)"
  shows "\<exists>p s'. CreateConnection os h w a s = Some (p, s') \<and>
    (p \<noteq> NULL \<longleftrightarrow> server_create_ok os (tick s) \<and> (a = NULL \<longrightarrow> bind_ok os (tick s + 4))) \<and>
    (p \<noteq> NULL \<longrightarrow> net_inv Q s' \<and> idle s' p \<and> live s' = insert p (live s) \<and> p \<notin> live s \<and>
       (\<exists>c. conns s' p = Some c \<and> c_acceptor c = a \<and> c_worker c = w \<and> c_handler c = h \<and> socks s' (c_socket c))) \<and>
    (p = NULL \<longrightarrow> conns s' = conns s \<and> pending s' = pending s \<and>
       (socks s' \<noteq> socks s \<longleftrightarrow> malloc_ok os (tick s) \<and> socket_ok os (tick s + 1) \<and> iocp_ok os (tick s + 2)) \<and>
       (ctxs s' \<noteq> ctxs s \<longleftrightarrow> server_create_ok os (tick s)))"
proof -
  note D = net_invD [OF I]
  let ?p = "next_ptr s"
  have N: "conns s ?p = None" "ctxs s (Suc ?p) = None" using inv_freshN [OF D(1)] by auto
  have S: "(socks s)(next_sock s := False) = socks s" "(socks s)(next_sock s := True) \<noteq> socks s"
    using k by (auto simp: fun_eq_iff)
  have C: "(ctxs s)(Suc ?p \<mapsto> x) \<noteq> ctxs s" for x using N(2) by (auto simp: fun_eq_iff)
  have p: "0 < ?p" using D(1) by (simp add: inv_fresh_def)
  have W: "net_inv Q (with_conn os h w a s)" by (rule net_inv_with_conn [OF I w])
  note idl = idle_with_conn [OF I]
  show ?thesis
    unfolding CreateConnection_eq [OF D(1) w] server_create_ok_def Let_def
    using p S C W idl [of os h w a] N by (auto simp: with_conn_def fresh_conn_def)
qed


text \<open>A concrete library state for the examples: one worker, no connection.\<close>

definition os0 :: os where
  "os0 = \<lparr>malloc_ok = (\<lambda>_. True), socket_ok = (\<lambda>_. True), iocp_ok = (\<lambda>_. True), bind_ok = (\<lambda>_. True),
     listen_ok = (\<lambda>_. True), sockopt_ok = (\<lambda>_. True), post_ok = (\<lambda>_. True), thread_ok = (\<lambda>_. True),
     junk_conn = \<lparr>c_socket = 7, c_handler = 7, c_worker = 7, c_acceptor = 7, c_context = 7, c_client = 7, c_connected = 7\<rparr>,
     junk_ctx = \<lparr>x_op = INVALID_OPERATION, x_wsabuf_buf = 7, x_wsabuf_len = 7, x_connection = 7, x_buffer = []\<rparr>,
     junk_acc = \<lparr>a_socket = 7, a_handler = 7, a_server = 7, a_context = 7, a_running = 7, a_worker = 7\<rparr>\<rparr>"

definition net0 :: "'app \<Rightarrow> 'app net" where
  "net0 a = \<lparr>tick = 0, next_ptr = 2, next_sock = 1, socks = (\<lambda>_. False), conns = Map.empty, ctxs = Map.empty,
     accs = Map.empty, workers = [1 \<mapsto> \<lparr>w_iocp = True, w_thread_count = 2, w_threads = 2\<rparr>], pending = [], app = a\<rparr>"

lemma net0_inv: "net_inv {} (net0 a)"
  by (auto simp: net0_def net_inv_defs)

lemma os0_ok [simp]:
  "malloc_ok os0 t" "socket_ok os0 t" "iocp_ok os0 t" "bind_ok os0 t" "listen_ok os0 t" "sockopt_ok os0 t" "post_ok os0 t"
  by (simp_all add: os0_def)

lemma os0_good [simp]: "os_good os0"
  by (simp add: os_good_def)

theorem CreateConnection_outcome_witness:
  "\<exists>p s'. CreateConnection os0 3 1 NULL (net0 ()) = Some (p, s') \<and> p \<noteq> NULL \<and> net_inv {} s'"
  using CreateConnection_outcome [OF net0_inv [of "()"], of 1 os0 3 NULL]
  by (auto simp: net0_def os0_def server_create_ok_def)

definition net1 :: "unit net" where
  "net1 = with_conn os0 3 1 NULL (net0 ())"

lemma net1_inv: "net_inv {} net1"
  unfolding net1_def by (rule net_inv_with_conn [OF net0_inv]) (simp add: net0_def)

text \<open>C22: A disconnect is requested at most once: after AsyncDisconnect the connection is no longer
  connected, at most one request was handed to the kernel, and a second call does nothing at all.\<close>
theorem AsyncDisconnect_once:
  assumes I: "net_inv Q s" and p: "p \<in> live s"
  shows "\<exists>s'. AsyncDisconnect os p s = Some s' \<and> net_inv Q s' \<and> IsConnected p s' = Some False \<and>
     length (pending s') \<le> Suc (length (pending s)) \<and>
     (IsConnected p s = Some False \<longrightarrow> s' = s) \<and> AsyncDisconnect os' p s' = Some s'"
proof -
  obtain c where c: "conns s p = Some c" using p by auto
  obtain s' where s': "AsyncDisconnect os p s = Some s'" "net_inv Q s'"
    using AsyncDisconnect_ok [OF I c, of os] by auto
  obtain x where x: "ctxs s (c_context c) = Some x" and z: "c_connected c = 0 \<or> c_connected c = 1"
    using net_invD(2) [OF I c] by (auto simp: conn_ok_def)
  from z show ?thesis
  proof
    assume "c_connected c = 0"
    then show ?thesis using s' c AsyncDisconnect_zero [OF c] by (auto simp: IsConnected_def)
  next
    assume 1: "c_connected c = 1"
    note E = AsyncDisconnect_one [OF c 1 x, of os]
    have "conns s' p = Some (c\<lparr>c_connected := 0\<rparr>)" using E s'(1) by auto
    from AsyncDisconnect_zero [OF this, of os'] this show ?thesis
      using s' c 1 E by (auto simp: IsConnected_def)
  qed
qed

theorem AsyncDisconnect_once_witness:
  "\<exists>s'. AsyncDisconnect os0 2 net1 = Some s' \<and> AsyncDisconnect os0 2 s' = Some s'"
  using AsyncDisconnect_once [OF net1_inv, of 2 os0 os0] by (auto simp: net1_def with_conn_def net0_def)

lemma AsyncConnect_ok:
  fixes client :: nat
  assumes I: "net_inv Q s" and p: "idle s p" and c: "conns s p = Some c" and x: "ctxs s (c_context c) = Some x"
  defines "t \<equiv> s\<lparr>conns := (conns s)(p \<mapsto> c\<lparr>c_client := client\<rparr>),
     ctxs := (ctxs s)(c_context c \<mapsto> x\<lparr>x_op := OPERATION_CONNECT\<rparr>)\<rparr>"
  shows "AsyncConnect os p client s = Some (post_io os (c_context c) t)"
    "net_inv Q (snd (post_io os (c_context c) t))" "\<not> post_ok os (tick s) \<Longrightarrow> idle (snd (post_io os (c_context c) t)) p"
proof -
  let ?c = "c\<lparr>c_client := client\<rparr>" and ?x = "x\<lparr>x_op := OPERATION_CONNECT\<rparr>"
  let ?s = "s\<lparr>conns := (conns s)(p \<mapsto> ?c)\<rparr>"
  have z: "c_connected c = 0" "c_context c \<notin> set (pending s)" "\<not> awaited s p" using p c by (auto simp: idle_def)
  have bk: "x_connection x = p" using net_invD(2) [OF I c] x by (auto simp: conn_ok_def)
  have I1: "net_inv Q ?s" by (rule net_inv_upd_conn [OF I c]) (auto simp: z)
  have c1: "conns ?s p = Some ?c" "ctxs ?s (c_context ?c) = Some x" using x by simp_all
  have I2: "net_inv Q t" using net_inv_upd_conn_ctx [OF I1 c1, of ?x] z bk by (simp add: t_def)
  have aw: "\<not> awaited t p"
    using z conn_acc_disjoint [OF I c] by (auto simp: awaited_def t_def)
  have c2: "conns t p = Some ?c" "ctxs t (c_context ?c) = Some ?x" by (simp_all add: t_def)
  have I3: "net_inv Q (t\<lparr>pending := pending s @ [c_context c]\<rparr>)"
    using net_inv_post_conn [OF I2 c2] z aw by (simp add: t_def)
  show "AsyncConnect os p client s = Some (post_io os (c_context c) t)"
    using c x by (simp add: AsyncConnect_def upd_conn_def upd_ctx_def t_def)
  show "net_inv Q (snd (post_io os (c_context c) t))"
    using I2 I3 by (simp add: post_io_simps) (simp add: t_def)
  show "idle (snd (post_io os (c_context c) t)) p" if "\<not> post_ok os (tick s)"
    using that aw z c2 by (simp add: post_io_simps) (simp add: t_def idle_def)
qed

text \<open>ConnectConnection: when the connection can be created, it returns TRUE exactly when the
  connect request is accepted by the kernel, and the new connection then carries the client and
  waits for the completion; when the request is refused, the connection, its context and its
  socket are gone again.\<close>
theorem ConnectConnection_outcome:
  assumes I: "net_inv Q s" and w: "workers s w \<noteq> None" and k: "\<not> socks s (next_sock s)"
    and os: "server_create_ok os (tick s)" "bind_ok os (tick s + 4)"
  shows "\<exists>s'. ConnectConnection os h w client s = Some (post_ok os (tick s + 5), s') \<and> net_inv Q s' \<and>
    (post_ok os (tick s + 5) \<longrightarrow>
       (\<exists>c x. conns s' (next_ptr s) = Some c \<and> c_client c = client \<and> c_acceptor c = NULL \<and>
          pending s' = pending s @ [c_context c] \<and> ctxs s' (c_context c) = Some x \<and>
          x_op x = OPERATION_CONNECT \<and> x_connection x = next_ptr s)) \<and>
    (\<not> post_ok os (tick s + 5) \<longrightarrow> conns s' = conns s \<and> ctxs s' = ctxs s \<and> socks s' = socks s \<and> pending s' = pending s)"
proof -
  note D = net_invD [OF I]
  let ?p = "next_ptr s" and ?c = "fresh_conn os h w NULL (next_sock s) (Suc (next_ptr s))"
  let ?s = "(with_conn os h w NULL s)\<lparr>tick := tick s + 5\<rparr>" and ?x = "fresh_ctx os (next_ptr s)"
  have C: "CreateConnection os h w NULL s = Some (?p, ?s)"
    using os by (simp add: CreateConnection_eq [OF D(1) w] server_create_ok_def)
  have p0: "0 < ?p" using D(1) by (simp add: inv_fresh_def)
  have c: "conns ?s ?p = Some ?c" "ctxs ?s (c_context ?c) = Some ?x"
    by (simp_all add: with_conn_def fresh_conn_def)
  note A = AsyncConnect_ok [where Q = Q and s = ?s and p = ?p and c = ?c and x = ?x and client = client and os = os]
  let ?t = "snd (post_io os (Suc ?p) (?s\<lparr>conns := (conns ?s)(?p \<mapsto> ?c\<lparr>c_client := client\<rparr>),
     ctxs := (ctxs ?s)(Suc ?p \<mapsto> ?x\<lparr>x_op := OPERATION_CONNECT\<rparr>)\<rparr>))"
  have B: "AsyncConnect os ?p client ?s = Some (post_ok os (tick s + 5), ?t)" "net_inv Q ?t"
      "\<not> post_ok os (tick s + 5) \<Longrightarrow> idle ?t ?p"
    using A c net_inv_with_conn [OF I w] idle_with_conn [OF I] by (simp_all add: post_io_simps fresh_conn_def)
  have N: "conns s ?p = None" "ctxs s (Suc ?p) = None" "(conns s)(?p := None) = conns s"
      "(ctxs s)(Suc ?p := None) = ctxs s" "(socks s)(next_sock s := False) = socks s"
    using inv_freshN [OF D(1)] k by (auto simp: fun_upd_idem)
  show ?thesis
  proof (cases "post_ok os (tick s + 5)")
    case True
    then show ?thesis
      using C B(1,2) p0 by (auto simp: ConnectConnection_def post_io_simps with_conn_def fresh_conn_def fresh_ctx_def)
  next
    case False
    then obtain d where d: "conns ?t ?p = Some d" "c_context d \<notin> set (pending ?t)" "\<not> awaited ?t ?p"
      using B(3) by (auto simp: idle_def)
    from CloseConnection_ok [OF B(2) d] obtain s' where s': "DeleteConnection ?p ?t = Some s'" "net_inv Q s'"
      by (auto simp: CloseConnection_def)
    then have "conns s' = conns s \<and> ctxs s' = ctxs s \<and> socks s' = socks s \<and> pending s' = pending s"
      using False N by (auto simp: DeleteConnection_def Let_def closesocket_def free_ctx_def free_conn_def
          post_io_simps with_conn_def fresh_conn_def)
    then show ?thesis using C B(1) p0 s' False by (simp add: ConnectConnection_def)
  qed
qed


theorem ConnectConnection_outcome_witness:
  "\<exists>s'. ConnectConnection os0 3 1 99 (net0 ()) = Some (True, s') \<and> net_inv {} s'"
  using ConnectConnection_outcome [OF net0_inv [of "()"], of 1 os0 3 99]
  by (auto simp: net0_def os0_def server_create_ok_def)

lemma AcceptConnection_null:
  assumes I: "net_inv Q s" and a: "accs s a = Some acc" and os: "\<not> server_create_ok os (tick s)"
  shows "AcceptConnection os a s = None"
proof -
  note D = net_invD [OF I]
  have w: "workers s (a_worker acc) \<noteq> None" using D(3) [OF a] by (simp add: acc_ok_def)
  have "0 < a" "conns s 0 = None" using inv_freshD(3) [OF D(1) a] D(1) by (auto simp: inv_fresh_def)
  then show ?thesis
    using a os by (auto simp: AcceptConnection_def CreateConnection_eq [OF D(1) w] server_create_ok_def Let_def upd_conn_def)
qed

text \<open>An acceptor at 2, and a connection with a receive outstanding.\<close>

definition net_acc :: "unit net" where
  "net_acc = (net0 ())\<lparr>next_ptr := 4, accs := [2 \<mapsto> (junk_acc os0)\<lparr>a_worker := 1, a_context := 3\<rparr>],
     ctxs := [3 \<mapsto> (junk_ctx os0)\<lparr>x_op := OPERATION_ACCEPT\<rparr>]\<rparr>"

lemma net_acc_inv: "net_inv {} net_acc" "3 \<notin> set (pending net_acc)"
    "accs net_acc 2 = Some ((junk_acc os0)\<lparr>a_worker := 1, a_context := 3\<rparr>)"
  by (auto simp: net_acc_def net0_def net_inv_defs acc_ctx_def conn_ctx_def)

definition recv_ctx :: EasyContext where
  "recv_ctx = \<lparr>x_op = OPERATION_RECV, x_wsabuf_buf = 4, x_wsabuf_len = 1024, x_connection = 2, x_buffer = replicate 1088 0\<rparr>"

definition net_recv :: "unit net" where
  "net_recv = net1\<lparr>next_ptr := 5, ctxs := (ctxs net1)(4 \<mapsto> recv_ctx), pending := [4]\<rparr>"

lemma net_recv_inv: "net_inv {} net_recv" "idle net_recv 2"
proof -
  have 4: "next_ptr net1 = 4" "pending net1 = []" by (simp_all add: net1_def with_conn_def net0_def)
  have "net_inv {4} (net1\<lparr>next_ptr := 5, ctxs := (ctxs net1)(4 \<mapsto> recv_ctx)\<rparr>)"
    using net_inv_new_held [OF net1_inv, of recv_ctx] by (simp add: 4 recv_ctx_def)
  from net_inv_post_held [OF this, of recv_ctx recv_ctx] show "net_inv {} net_recv"
    by (simp add: net_recv_def 4)
  show "idle net_recv 2"
    by (simp add: net_recv_def net1_def with_conn_def net0_def idle_def awaited_def fresh_conn_def)
qed

text \<open>AcceptConnection on an acceptor that has no accept outstanding: it goes wrong, by using a
  NULL connection, exactly when the new connection cannot be created.  Otherwise the invariant is
  kept; if the kernel takes the request, the acceptor waits with a fresh connection of its own, and
  if not, the connection is gone again and the acceptor is marked as stopped.\<close>
theorem AcceptConnection_outcome:
  assumes I: "net_inv Q s" and a: "accs s a = Some acc" and np: "a_context acc \<notin> set (pending s)"
  shows "(AcceptConnection os a s = None \<longleftrightarrow> \<not> server_create_ok os (tick s)) \<and>
    (\<forall>s'. AcceptConnection os a s = Some s' \<longrightarrow> net_inv Q s' \<and>
       (if post_ok os (tick s + 4)
        then pending s' = pending s @ [a_context acc] \<and> awaited s' (next_ptr s) \<and>
          (\<exists>c. conns s' = (conns s)(next_ptr s \<mapsto> c) \<and> c_acceptor c = a \<and> c_connected c = 0)
        else conns s' = conns s \<and> pending s' = pending s \<and> accs s' a = Some (acc\<lparr>a_running := 0\<rparr>)))"
proof (cases "server_create_ok os (tick s)")
  case True
  note D = net_invD [OF I]
  obtain x where x: "ctxs s (a_context acc) = Some x" using D(3) [OF a] by (auto simp: acc_ok_def)
  have N: "(conns s)(next_ptr s := None) = conns s" using inv_freshN [OF D(1)] by (auto simp: fun_upd_idem)
  let ?t = "(prepared os a acc x s)\<lparr>tick := tick s + 5, pending := pending s @ [a_context acc]\<rparr>"
  have "accs ?t a = Some acc" "a_context acc \<in> set (pending ?t)"
      "ctxs ?t (a_context acc) = Some (x\<lparr>x_connection := next_ptr s\<rparr>)"
    using a by (simp_all add: prepared_def with_conn_def Let_def)
  then have "awaited ?t (next_ptr s)" unfolding awaited_def by force
  then show ?thesis
    using AcceptConnection_ok [OF I a np True] AcceptConnection_eq [OF I a x True] True N a
    by (auto simp: prepared_def with_conn_def refused_def Let_def fresh_conn_def)
next
  case False
  then show ?thesis using AcceptConnection_null [OF I a] by simp
qed

theorem AcceptConnection_outcome_witness:
  "\<exists>s'. AcceptConnection os0 2 net_acc = Some s' \<and> net_inv {} s' \<and> pending s' = [3]"
  using AcceptConnection_outcome [OF net_acc_inv(1,3), of os0] net_acc_inv(2)
    server_create_good [OF os0_good, of "tick net_acc"]
  by (cases "AcceptConnection os0 2 net_acc") (auto simp: os0_def net_acc_def net0_def)

text \<open>A new acceptor with its embedded context.\<close>

definition with_acc :: "ptr \<Rightarrow> EasyAcceptor \<Rightarrow> EasyContext \<Rightarrow> 'app net \<Rightarrow> 'app net" where
  "with_acc a acc x s = s\<lparr>next_ptr := Suc (Suc a), accs := (accs s)(a \<mapsto> acc), ctxs := (ctxs s)(Suc a \<mapsto> x)\<rparr>"

lemma net_inv_with_acc:
  assumes I: "net_inv Q s" and a: "a = next_ptr s" and acc: "a_context acc = Suc a" "workers s (a_worker acc) \<noteq> None"
    and x: "x_op x = OPERATION_ACCEPT"
  shows "net_inv Q (with_acc a acc x s)" (is "net_inv Q ?s")
proof -
  note D = net_invD [OF I]
  note N = inv_freshN [OF D(1)]
  have pe: "Suc a \<notin> set (pending s)" using pending_old [OF D(1,4), of "Suc a"] a by auto
  have oldc: "c_context c < a" if "conns s p = Some c" for p c
    using ctx_old(1) [OF I] that a by (auto simp: conn_ctx_def)
  have olda: "a_context d < a" if "accs s p = Some d" for p d
    using ctx_old(2) [OF I] that a by (auto simp: acc_ctx_def)
  have cc: "conn_ctx ?s q \<longleftrightarrow> conn_ctx s q" for q by (simp add: conn_ctx_def with_acc_def)
  have aa: "acc_ctx ?s q \<longleftrightarrow> acc_ctx s q \<or> q = Suc a" for q
    using ex_store_fresh [of "accs s" a, OF N(3)] acc a by (auto simp: acc_ctx_def with_acc_def)
  have aw: "awaited ?s p \<longleftrightarrow> awaited s p" for p
  proof
    show "awaited ?s p \<Longrightarrow> awaited s p"
      using pe acc olda by (auto simp: awaited_def with_acc_def split: if_splits)
    assume "awaited s p"
    then obtain b d y where b: "accs s b = Some d" "a_context d \<in> set (pending s)" "ctxs s (a_context d) = Some y"
      "x_connection y = p" by (auto simp: awaited_def)
    then have "accs ?s b = Some d" "a_context d \<in> set (pending ?s)" "ctxs ?s (a_context d) = Some y"
      using N(3) [of a] a olda [OF b(1)] by (auto simp: with_acc_def)
    then show "awaited ?s p" using b(4) unfolding awaited_def by blast
  qed
  show ?thesis
  proof (rule net_invI)
    show "inv_fresh ?s" using D(1) a by (auto simp: inv_fresh_def with_acc_def)
    show "conn_ok ?s p c" if "conns ?s p = Some c" for p c
    proof -
      have c: "conns s p = Some c" using that by (simp add: with_acc_def)
      then show ?thesis using D(2) [OF c] oldc [OF c] unfolding conn_ok_def aa aw by (auto simp: with_acc_def)
    qed
    show "acc_ok ?s b d" if "accs ?s b = Some d" for b d
    proof (cases "b = a")
      case True
      then show ?thesis using that acc x pe by (auto simp: acc_ok_def with_acc_def)
    next
      case False
      then have d: "accs s b = Some d" using that by (simp add: with_acc_def)
      then show ?thesis using D(3) [OF d] olda [OF d] unfolding acc_ok_def by (auto simp: with_acc_def)
    qed
    show "inv_io Q ?s"
      using D(4) N(2) [of "Suc a"] a unfolding inv_io_def cc aa by (auto simp: with_acc_def)
  qed
qed

definition listener :: "os \<Rightarrow> ptr \<Rightarrow> nat \<Rightarrow> 'app net \<Rightarrow> EasyAcceptor" where
  "listener os w h s = (junk_acc os)\<lparr>a_context := Suc (next_ptr s), a_socket := next_sock s, a_worker := w,
     a_handler := h, a_server := NULL, a_running := 1\<rparr>"

definition listener_ctx :: "os \<Rightarrow> EasyContext" where
  "listener_ctx os = (junk_ctx os)\<lparr>x_buffer := replicate ADDR_BUFFER 0, x_op := OPERATION_ACCEPT\<rparr>"

lemma CreateAcceptor_eq:
  assumes I: "net_inv Q s" and w: "workers s w \<noteq> None" and os: "os_good os"
    and ok: "bind_ok os (tick s + 3)" "listen_ok os (tick s + 4)"
  shows "CreateAcceptor os w h s = do {
     t \<leftarrow> AcceptConnection os (next_ptr s) (s\<lparr>next_ptr := Suc (Suc (next_ptr s)), next_sock := Suc (next_sock s),
       socks := (socks s)(next_sock s := True), ctxs := (ctxs s)(Suc (next_ptr s) \<mapsto> listener_ctx os), tick := tick s + 5,
       accs := (accs s)(next_ptr s \<mapsto> listener os w h s)\<rparr>);
     Some (next_ptr s, t) }"
proof -
  have f: "0 < next_ptr s" "0 < next_sock s" using net_invD(1) [OF I] by (auto simp: inv_fresh_def)
  obtain k where k: "workers s w = Some k" using w by auto
  have e: "n + 3 = Suc (Suc (Suc n))" "n + 4 = Suc (Suc (Suc (Suc n)))" "n + 5 = Suc (Suc (Suc (Suc (Suc n))))"
    for n :: nat by simp_all
  show ?thesis
    using f k os ok
    by (simp add: e CreateAcceptor_def malloc_acc_def os_good_def socket_def os_call_def upd_acc_def upd_ctx_def Let_def
        InterlockedCompareExchange_def with_acc_def listener_def listener_ctx_def)
qed

lemma CreateAcceptor_ok:
  assumes I: "net_inv Q s" and w: "workers s w \<noteq> None" and os: "os_good os"
    and ok: "bind_ok os (tick s + 3)" "listen_ok os (tick s + 4)"
  shows "\<exists>s'. CreateAcceptor os w h s = Some (next_ptr s, s') \<and> net_inv Q s' \<and> tick s' = tick s + 10 \<and> app s' = app s \<and>
    (\<forall>b. b \<noteq> next_ptr s \<longrightarrow> accs s' b = accs s b) \<and> acceptors s' \<subseteq> insert (next_ptr s) (acceptors s) \<and>
    (if post_ok os (tick s + 9)
     then accs s' (next_ptr s) = Some (listener os w h s) \<and> pending s' = pending s @ [Suc (next_ptr s)]
     else accs s' (next_ptr s) = Some ((listener os w h s)\<lparr>a_running := 0\<rparr>) \<and> pending s' = pending s)"
proof -
  let ?a = "next_ptr s" and ?acc = "listener os w h s" and ?x = "listener_ctx os"
  let ?t = "s\<lparr>next_ptr := Suc (Suc ?a), next_sock := Suc (next_sock s), socks := (socks s)(next_sock s := True),
     ctxs := (ctxs s)(Suc ?a \<mapsto> ?x), tick := tick s + 5, accs := (accs s)(?a \<mapsto> ?acc)\<rparr>"
  have "net_inv Q (with_acc ?a ?acc ?x s)"
    by (rule net_inv_with_acc [OF I]) (use w in \<open>auto simp: listener_def listener_ctx_def\<close>)
  then have "net_inv Q ((with_acc ?a ?acc ?x s)\<lparr>next_sock := Suc (next_sock s), socks := (socks s)(next_sock s := True), tick := tick s + 5\<rparr>)"
    using net_inv_next_sock by simp
  moreover have "(with_acc ?a ?acc ?x s)\<lparr>next_sock := Suc (next_sock s), socks := (socks s)(next_sock s := True), tick := tick s + 5\<rparr> = ?t"
    by (simp add: with_acc_def)
  ultimately have It: "net_inv Q ?t" by simp
  have at: "accs ?t ?a = Some ?acc" "ctxs ?t (a_context ?acc) = Some ?x" "a_context ?acc = Suc ?a"
    by (simp_all add: listener_def)
  have np: "a_context ?acc \<notin> set (pending ?t)"
    using pending_old [OF net_invD(1,4) [OF I], of "Suc ?a"] by (auto simp: listener_def)
  note sc = server_create_good [OF os, of "tick ?t"]
  obtain s' where s': "AcceptConnection os ?a ?t = Some s'" "net_inv Q s'" "app s' = app s"
      "acceptors s' \<subseteq> insert ?a (acceptors ?t)"
    using AcceptConnection_ok [OF It at(1) np sc] by auto
  have "acceptors ?t = acceptors s" by (simp add: acceptors_def)
  moreover have "CreateAcceptor os w h s = Some (?a, s')"
    using CreateAcceptor_eq [OF I w os ok, of h] s'(1) by simp
  moreover have "tick s + 5 + 4 = tick s + 9" by simp
  ultimately show ?thesis
    using AcceptConnection_eq [OF It at(1,2) sc] s' at(3)
    by (cases "post_ok os (tick s + 9)") (auto simp: add.commute prepared_def with_conn_def refused_def Let_def)
qed

text \<open>A failed accept completion stops the listener for good: the connection it was waiting with
  is neither used nor closed, no accept is posted again, and the acceptor still says it is running.\<close>
theorem accept_failure_stops_listener:
  assumes I: "net_inv {} s" and a: "accs s a = Some acc" and q: "a_context acc \<in> set (pending s)"
  shows "\<exists>s'. handle_packet os H False data (a_context acc) s = Some s' \<and> net_inv {} s' \<and>
    a_context acc \<notin> set (pending s') \<and> accs s' = accs s \<and> conns s' = conns s \<and>
    (\<exists>p. awaited s p \<and> idle s' p)"
proof -
  note D = net_invD [OF I]
  let ?q = "a_context acc" and ?s = "s\<lparr>pending := remove1 (a_context acc) (pending s)\<rparr>"
  obtain x where x: "ctxs s ?q = Some x" "x_op x = OPERATION_ACCEPT"
    using D(3) [OF a] by (auto simp: acc_ok_def)
  have qa: "conn_ctx s ?q \<or> acc_ctx s ?q" using a by (auto simp: acc_ctx_def)
  have "idle ?s (x_connection x)" "awaited s (x_connection x)"
    using accept_completed [OF I a q x(1)] by auto
  moreover obtain c where "conns s (x_connection x) = Some c"
    using D(5) [OF calculation(2)] by auto
  ultimately show ?thesis
    using deliver_embedded(1) [OF I qa q x(1)] net_inv_complete [OF I qa] x D(4)
    by (auto simp: handle_packet_def worker_iteration_def on_accept_def inv_io_def)
qed

lemma net_listen_ex:
  "\<exists>s. AcceptConnection os0 2 net_acc = Some s \<and> net_inv {} s \<and>
     accs s 2 = Some ((junk_acc os0)\<lparr>a_worker := 1, a_context := 3\<rparr>) \<and> 3 \<in> set (pending s)"
proof -
  note os = server_create_good [OF os0_good, of "tick net_acc"]
  obtain s where s: "AcceptConnection os0 2 net_acc = Some s" "net_inv {} s"
    using AcceptConnection_ok [OF net_acc_inv(1,3) _ os] net_acc_inv(2) by auto
  have x: "ctxs net_acc (a_context ((junk_acc os0)\<lparr>a_worker := 1, a_context := 3\<rparr>)) =
      Some ((junk_ctx os0)\<lparr>x_op := OPERATION_ACCEPT\<rparr>)" by (simp add: net_acc_def)
  have "post_ok os0 (tick net_acc + 4)" by (simp add: os0_def)
  with AcceptConnection_eq [OF net_acc_inv(1,3) x os] s(1) net_acc_inv(3)
  have "accs s 2 = Some ((junk_acc os0)\<lparr>a_worker := 1, a_context := 3\<rparr>)" "3 \<in> set (pending s)"
    by (auto simp: prepared_def with_conn_def Let_def)
  with s show ?thesis by auto
qed

theorem accept_failure_stops_listener_witness:
  "\<exists>s s'. AcceptConnection os0 2 net_acc = Some s \<and> 3 \<in> set (pending s) \<and>
     handle_packet os0 (\<lambda>_. undefined) False [] 3 s = Some s' \<and> 3 \<notin> set (pending s')"
proof -
  obtain s where s: "AcceptConnection os0 2 net_acc = Some s" "net_inv {} s"
     "accs s 2 = Some ((junk_acc os0)\<lparr>a_worker := 1, a_context := 3\<rparr>)" "3 \<in> set (pending s)"
    using net_listen_ex by auto
  then show ?thesis
    using accept_failure_stops_listener [OF s(2,3), of os0 "\<lambda>_. undefined" "[]"] by auto
qed

text \<open>Closing a connection while a receive on it is still outstanding is not detected: the close
  succeeds and keeps the invariant, but the completion of that receive, with zero bytes, then
  disconnects through a dangling pointer.\<close>
theorem recv_after_close:
  assumes I: "net_inv {} s" and p: "idle s p" and q: "q \<in> set (pending s)" and x: "ctxs s q = Some x"
    and r: "x_op x = OPERATION_RECV" "x_connection x = p"
  shows "\<exists>s'. CloseConnection p s = Some s' \<and> net_inv {} s' \<and> q \<in> set (pending s') \<and>
    handle_packet os H b [] q s' = None"
proof -
  obtain c where c: "conns s p = Some c" "c_context c \<notin> set (pending s)" "\<not> awaited s p"
    using p by (auto simp: idle_def)
  obtain y where y: "ctxs s (c_context c) = Some y" using net_invD(2) [OF I c(1)] by (auto simp: conn_ok_def)
  let ?s = "s\<lparr>conns := (conns s)(p := None), ctxs := (ctxs s)(c_context c := None), socks := (socks s)(c_socket c := False)\<rparr>"
  have E: "CloseConnection p s = Some ?s"
    using c y by (simp add: CloseConnection_def DeleteConnection_def Let_def closesocket_def free_ctx_def free_conn_def)
  have "net_inv {} ?s" using CloseConnection_ok [OF I c] E by auto
  moreover have "handle_packet os H b [] q ?s = None"
    using x r q c by (auto simp: handle_packet_def deliver_def worker_iteration_def on_recv_def free_ctx_def AsyncDisconnect_def)
  ultimately show ?thesis using E q by simp
qed

theorem recv_after_close_witness:
  "\<exists>s'. CloseConnection 2 net_recv = Some s' \<and> handle_packet os0 (\<lambda>_. undefined) True [] 4 s' = None"
  using recv_after_close [OF net_recv_inv, of 4 recv_ctx os0 "\<lambda>_. undefined" True]
  by (auto simp: net_recv_def recv_ctx_def)

section \<open>Threads\<close>






end
