(* ===== verification/Framing.thy ===== *)
theory Framing
  imports Prelude
begin

text \<open>
  Packets in a byte stream.  Three receivers of the program cut a stream into packets: the sessions of EasyMidware, the
  peers of StarNet and the sessions of ServerBase.  They differ in the header and in the width of their counters; what they
  promise is the same and is stated here once.

  \<^item> \<open>framing\<close>: a header of \<open>h\<close> bytes tells the length of the packet.  The function \<open>parse_frames\<close> is the
    specification of cutting; how the stream arrives in pieces does not matter to it.
  \<^item> \<open>frame_codec\<close>: there is a sender that writes such packets; cutting gives back what it sent.
  \<^item> \<open>frame_receiver\<close>: a receive buffer of bounded size that refines \<open>parse_frames\<close> for one piece that fits
    reassembles the packets of the sender from any sequence of pieces.
\<close>

section \<open>Specification\<close>

function parse_frames :: "nat \<Rightarrow> (byte list \<Rightarrow> nat) \<Rightarrow> (byte list \<Rightarrow> 'p) \<Rightarrow> byte list \<Rightarrow> 'p list \<times> byte list" where
  "parse_frames h full dec bs =
     (if length bs < h \<or> length bs < full bs \<or> full bs = 0 then ([], bs)
      else (let (ps, rest) = parse_frames h full dec (drop (full bs) bs) in (dec bs # ps, rest)))"
  by pat_completeness auto
termination
  by (relation "measure (\<lambda>(h, full, dec, bs). length bs)") auto

declare parse_frames.simps [simp del]

text \<open>No header that comes up in the stream announces \<open>lim\<close> bytes or more.\<close>

function heads_below :: "nat \<Rightarrow> (byte list \<Rightarrow> nat) \<Rightarrow> nat \<Rightarrow> byte list \<Rightarrow> bool" where
  "heads_below h full lim bs =
     (if length bs < h then True
      else full bs < lim \<and> (if length bs < full bs \<or> full bs = 0 then True else heads_below h full lim (drop (full bs) bs)))"
  by pat_completeness auto
termination
  by (relation "measure (\<lambda>(h, full, lim, bs). length bs)") auto

declare heads_below.simps [simp del]

text \<open>A sequence of pieces given to a receiver.\<close>

primrec feed :: "(byte list \<Rightarrow> 's \<Rightarrow> ('p list \<times> 's) option) \<Rightarrow> byte list list \<Rightarrow> 's \<Rightarrow> ('p list \<times> 's) option" where
  "feed recv [] s = Some ([], s)"
| "feed recv (c # cs) s = do { (ps, s) \<leftarrow> recv c s; (qs, s) \<leftarrow> feed recv cs s; Some (ps @ qs, s) }"

lemma concat_take_drop: "concat (take i cs) @ concat (drop i cs) = concat cs"
  by (metis append_take_drop_id concat_append)

section \<open>Cutting\<close>

locale framing =
  fixes h :: nat and full :: "byte list \<Rightarrow> nat" and dec :: "byte list \<Rightarrow> 'p"
  assumes h_pos: "0 < h"
    and full_ge: "h \<le> length bs \<Longrightarrow> h \<le> full bs"
    and full_append: "h \<le> length xs \<Longrightarrow> full (xs @ ys) = full xs"
    and dec_append: "h \<le> length xs \<Longrightarrow> full xs \<le> length xs \<Longrightarrow> dec (xs @ ys) = dec xs"
begin

lemma full_pos: "h \<le> length bs \<Longrightarrow> 0 < full bs"
  using full_ge [of bs] h_pos by simp

lemma parse_step:
  assumes "h \<le> length bs" "full bs \<le> length bs"
  shows "parse_frames h full dec bs =
    (dec bs # fst (parse_frames h full dec (drop (full bs) bs)), snd (parse_frames h full dec (drop (full bs) bs)))"
  using assms full_pos [OF assms(1)] by (subst parse_frames.simps) (auto simp: split_beta)

lemma parse_stop: "length bs < h \<or> length bs < full bs \<Longrightarrow> parse_frames h full dec bs = ([], bs)"
  by (subst parse_frames.simps) auto

lemma parse_induct [case_names stop step]:
  assumes "\<And>bs. length bs < h \<or> length bs < full bs \<Longrightarrow> P bs"
    and "\<And>bs. h \<le> length bs \<Longrightarrow> full bs \<le> length bs \<Longrightarrow> P (drop (full bs) bs) \<Longrightarrow> P bs"
  shows "P bs"
proof (induction bs rule: length_induct)
  case (1 bs)
  then show ?case
    using assms [of bs] full_pos [of bs]
    by (cases "length bs < h \<or> length bs < full bs") (auto simp: not_less intro: 1 [rule_format])
qed

text \<open>Parsing is insensitive to how the stream is cut.\<close>

lemma parse_append:
  "parse_frames h full dec (xs @ ys) =
     (fst (parse_frames h full dec xs) @ fst (parse_frames h full dec (snd (parse_frames h full dec xs) @ ys)),
      snd (parse_frames h full dec (snd (parse_frames h full dec xs) @ ys)))"
proof (induction xs rule: parse_induct)
  case (stop bs)
  then show ?case by (simp add: parse_stop)
next
  case (step bs)
  have "parse_frames h full dec (bs @ ys) = (dec bs # fst (parse_frames h full dec (drop (full bs) bs @ ys)),
      snd (parse_frames h full dec (drop (full bs) bs @ ys)))"
    using step(1,2) by (subst parse_step) (auto simp: full_append dec_append)
  then show ?case using step by (simp add: parse_step)
qed

lemma parse_idem: "parse_frames h full dec (snd (parse_frames h full dec bs)) = ([], snd (parse_frames h full dec bs))"
  by (induction bs rule: parse_induct) (simp_all add: parse_stop parse_step)

lemma heads_step: "h \<le> length bs \<Longrightarrow> full bs \<le> length bs \<Longrightarrow>
    heads_below h full lim bs \<longleftrightarrow> full bs < lim \<and> heads_below h full lim (drop (full bs) bs)"
  using full_pos [of bs] by (subst heads_below.simps) auto

lemma heads_stop: "length bs < h \<Longrightarrow> heads_below h full lim bs"
  "h \<le> length bs \<Longrightarrow> length bs < full bs \<Longrightarrow> heads_below h full lim bs \<longleftrightarrow> full bs < lim"
  by (simp_all add: heads_below.simps [of h full lim bs])

lemma heads_rest: "heads_below h full lim (xs @ ys) \<Longrightarrow> heads_below h full lim (snd (parse_frames h full dec xs) @ ys)"
proof (induction xs rule: parse_induct)
  case (step bs)
  then show ?case by (simp add: parse_step heads_step full_append)
qed (simp add: parse_stop)

lemma heads_prefix: "heads_below h full lim (xs @ ys) \<Longrightarrow> heads_below h full lim xs"
proof (induction xs rule: parse_induct)
  case (stop bs)
  show ?case
  proof (cases "h \<le> length bs")
    case True
    then have "full bs < lim" using stop(2) by (subst (asm) heads_below.simps) (simp add: full_append)
    then show ?thesis using stop(1) True by (simp add: heads_stop)
  qed (simp add: heads_stop)
next
  case (step bs)
  then show ?case by (simp add: heads_step full_append)
qed

end

section \<open>Sending\<close>

locale frame_codec = framing h full dec for h full and dec :: "byte list \<Rightarrow> 'p" +
  fixes enc :: "'p \<Rightarrow> byte list" and wf :: "'p \<Rightarrow> bool"
  assumes enc_long: "wf p \<Longrightarrow> h \<le> length (enc p)"
    and enc_full: "wf p \<Longrightarrow> h \<le> n \<Longrightarrow> full (take n (enc p @ xs)) = length (enc p)"
    and enc_dec: "wf p \<Longrightarrow> dec (enc p @ xs) = p"
begin

lemma parse_encoded:
  assumes "wf p"
  shows "parse_frames h full dec (enc p @ xs) = (p # fst (parse_frames h full dec xs), snd (parse_frames h full dec xs))"
proof -
  have "full (enc p @ xs) = length (enc p)"
    using enc_full [OF assms, of "length (enc p @ xs)" xs] enc_long [OF assms] by simp
  then show ?thesis using enc_long [OF assms] enc_dec [OF assms] by (subst parse_step) simp_all
qed

lemma prefix_cases:
  assumes "xs @ ys = enc p @ zs"
  obtains "xs = take (length xs) (enc p)" "length xs < length (enc p)" | xs' where "xs = enc p @ xs'" "xs' @ ys = zs"
proof (cases "length xs < length (enc p)")
  case True
  have "xs = take (length xs) (enc p @ zs)" unfolding assms [symmetric] by simp
  then show thesis using True that(1) by simp
next
  case False
  then have "enc p = take (length (enc p)) xs" using arg_cong [OF assms, of "take (length (enc p))"] by simp
  then have "xs = enc p @ drop (length (enc p)) xs" by (metis append_take_drop_id)
  then show thesis using assms that(2) by (metis append.assoc same_append_eq)
qed

text \<open>A prefix of what was sent is parsed into the first packets, and a proper part of the next one.\<close>

lemma parse_prefix:
  assumes "xs @ ys = concat (map enc ps)" "\<forall>p \<in> set ps. wf p"
  shows "\<exists>m. fst (parse_frames h full dec xs) = take m ps \<and> xs = concat (map enc (take m ps)) @ snd (parse_frames h full dec xs) \<and>
    (snd (parse_frames h full dec xs) \<noteq> [] \<longrightarrow> m < length ps \<and> length (snd (parse_frames h full dec xs)) < length (enc (ps ! m)))"
  using assms
proof (induction ps arbitrary: xs)
  case Nil
  then show ?case using h_pos by (auto simp: parse_stop)
next
  case (Cons p ps)
  then have w: "wf p" by simp
  from Cons.prems have "xs @ ys = enc p @ concat (map enc ps)" by simp
  then show ?case
  proof (cases rule: prefix_cases)
    case 1
    then have "length xs < h \<or> length xs < full xs"
      using enc_full [OF w, of "length xs" "[]"] by (cases "h \<le> length xs") auto
    then show ?thesis using 1(2) by (intro exI [of _ 0]) (auto simp: parse_stop)
  next
    case (2 xs')
    from Cons.IH [OF 2(2)] Cons.prems(2) obtain m where
      "fst (parse_frames h full dec xs') = take m ps" "xs' = concat (map enc (take m ps)) @ snd (parse_frames h full dec xs')"
      "snd (parse_frames h full dec xs') \<noteq> [] \<longrightarrow> m < length ps \<and> length (snd (parse_frames h full dec xs')) < length (enc (ps ! m))"
      by auto
    then show ?thesis using 2(1) parse_encoded [OF w, of xs'] by (intro exI [of _ "Suc m"]) simp
  qed
qed

lemma parse_all: "\<forall>p \<in> set ps. wf p \<Longrightarrow> parse_frames h full dec (concat (map enc ps)) = (ps, [])"
  using h_pos by (induction ps) (simp_all add: parse_stop parse_encoded)

lemma heads_encoded:
  assumes "xs @ ys = concat (map enc ps)" "\<forall>p \<in> set ps. wf p \<and> length (enc p) < lim"
  shows "heads_below h full lim xs"
  using assms
proof (induction ps arbitrary: xs)
  case Nil
  then show ?case using h_pos by (simp add: heads_stop)
next
  case (Cons p ps)
  have w: "wf p" "length (enc p) < lim" using Cons.prems(2) by auto
  from Cons.prems have "xs @ ys = enc p @ concat (map enc ps)" by simp
  then show ?case
  proof (cases rule: prefix_cases)
    case 1
    then show ?thesis
      using enc_full [OF w(1), of "length xs" "[]"] w(2) by (cases "h \<le> length xs") (auto simp: heads_stop)
  next
    case (2 xs')
    have f: "full xs = length (enc p)" "h \<le> length xs" using enc_full [OF w(1), of "length xs" xs'] enc_long [OF w(1)] 2 by auto
    then show ?thesis using Cons.IH [OF 2(2)] Cons.prems(2) w 2 by (simp add: heads_step)
  qed
qed

end

section \<open>Receiving\<close>

locale frame_receiver = frame_codec h full dec enc wf for h full and dec :: "byte list \<Rightarrow> 'p" and enc wf +
  fixes invar :: "'s \<Rightarrow> bool" and buffered :: "'s \<Rightarrow> byte list" and recv :: "byte list \<Rightarrow> 's \<Rightarrow> ('p list \<times> 's) option"
    and cap lim :: nat
  assumes recv_refines: "invar s \<Longrightarrow> length (buffered s) + length c \<le> cap \<Longrightarrow> heads_below h full lim (buffered s @ c) \<Longrightarrow>
    \<exists>s'. recv c s = Some (fst (parse_frames h full dec (buffered s @ c)), s') \<and> invar s' \<and>
      buffered s' = snd (parse_frames h full dec (buffered s @ c))"
begin

lemma feed_refines:
  assumes "invar s" "heads_below h full lim (buffered s @ concat cs)" "parse_frames h full dec (buffered s) = ([], buffered s)"
    and "\<And>i. i < length cs \<Longrightarrow>
      length (snd (parse_frames h full dec (buffered s @ concat (take i cs)))) + length (cs ! i) \<le> cap"
  shows "\<exists>s'. feed recv cs s = Some (fst (parse_frames h full dec (buffered s @ concat cs)), s') \<and> invar s' \<and>
     buffered s' = snd (parse_frames h full dec (buffered s @ concat cs))"
  using assms
proof (induction cs arbitrary: s)
  case Nil
  then show ?case by simp
next
  case (Cons c cs)
  note P = Cons.prems
  have fit: "length (buffered s) + length c \<le> cap" using P(4) [of 0] P(3) by simp
  have ok: "heads_below h full lim (buffered s @ c)" using P(2) heads_prefix [of lim "buffered s @ c" "concat cs"] by simp
  obtain s1 where s1: "recv c s = Some (fst (parse_frames h full dec (buffered s @ c)), s1)"
      "invar s1" "buffered s1 = snd (parse_frames h full dec (buffered s @ c))"
    using recv_refines [OF P(1) fit ok] by auto
  have ap: "parse_frames h full dec (buffered s @ c @ ys) =
      (fst (parse_frames h full dec (buffered s @ c)) @ fst (parse_frames h full dec (buffered s1 @ ys)),
       snd (parse_frames h full dec (buffered s1 @ ys)))" for ys
    using parse_append [of "buffered s @ c" ys] s1(3) by simp
  have i: "length (snd (parse_frames h full dec (buffered s1 @ concat (take i cs)))) + length (cs ! i) \<le> cap"
    if "i < length cs" for i using P(4) [of "Suc i"] that ap by simp
  have hd: "heads_below h full lim (buffered s1 @ concat cs)"
    using heads_rest [of lim "buffered s @ c" "concat cs"] P(2) s1(3) by simp
  have e: "parse_frames h full dec (buffered s1) = ([], buffered s1)" using parse_idem [of "buffered s @ c"] s1(3) by simp
  from Cons.IH [OF s1(2) hd e i] s1(1) ap [of "concat cs"] show ?case by auto
qed

lemma reassembly:
  assumes wf: "\<forall>p \<in> set ps. wf p \<and> length (enc p) \<le> K" and K: "K \<le> cap" "K < lim"
    and cs: "concat cs @ rest = concat (map enc ps)" "\<forall>c \<in> set cs. length c + K \<le> cap + 1"
    and s: "invar s" "buffered s = []"
  shows "\<exists>m s'. feed recv cs s = Some (take m ps, s') \<and> concat cs = concat (map enc (take m ps)) @ buffered s' \<and>
    invar s' \<and> (rest = [] \<longrightarrow> take m ps = ps)"
proof -
  have w: "\<forall>p \<in> set ps. wf p \<and> length (enc p) < lim" "\<forall>p \<in> set ps. wf p" using wf K by fastforce+
  have fit: "length (snd (parse_frames h full dec (buffered s @ concat (take i cs)))) + length (cs ! i) \<le> cap"
    if i: "i < length cs" for i
  proof -
    have "concat (take i cs) @ concat (drop i cs) @ rest = concat (map enc ps)"
      using cs(1) concat_take_drop [of i cs] by (metis append.assoc)
    from parse_prefix [OF this w(2)] obtain m where
      m: "snd (parse_frames h full dec (concat (take i cs))) \<noteq> [] \<longrightarrow> m < length ps \<and>
        length (snd (parse_frames h full dec (concat (take i cs)))) < length (enc (ps ! m))" by auto
    have c: "length (cs ! i) + K \<le> cap + 1" using cs(2) i by simp
    consider (empty) "snd (parse_frames h full dec (concat (take i cs))) = []" "ps = []"
      | (start) p where "snd (parse_frames h full dec (concat (take i cs))) = []" "p \<in> set ps"
      | (part) "snd (parse_frames h full dec (concat (take i cs))) \<noteq> []" by (cases ps) auto
    then show ?thesis
    proof cases
      case empty
      then have "cs ! i = []" using cs(1) i by simp
      then show ?thesis using s(2) empty by simp
    next
      case start
      then have "0 < K" using wf enc_long [of p] h_pos by force
      then show ?thesis using c s(2) start by simp
    next
      case part
      then have "length (enc (ps ! m)) \<le> K" using wf m by simp
      then show ?thesis using c m part s(2) by simp
    qed
  qed
  have hd: "heads_below h full lim (buffered s @ concat cs)" using heads_encoded [OF cs(1) w(1)] s(2) by simp
  have e: "parse_frames h full dec (buffered s) = ([], buffered s)" using s(2) h_pos by (simp add: parse_stop)
  from feed_refines [OF s(1) hd e fit] s(2) obtain s' where
    s': "feed recv cs s = Some (fst (parse_frames h full dec (concat cs)), s')" "invar s'"
      "buffered s' = snd (parse_frames h full dec (concat cs))" by auto
  from parse_prefix [OF cs(1) w(2)] obtain m where
    m: "fst (parse_frames h full dec (concat cs)) = take m ps" "concat cs = concat (map enc (take m ps)) @ snd (parse_frames h full dec (concat cs))"
    by auto
  have "take m ps = ps" if "rest = []" using parse_all [OF w(2)] cs(1) that m(1) by simp
  then show ?thesis using s' m by auto
qed

end

end
