(* ===== verification/EasySession.thy ===== *)
theory EasySession
  imports Framing
begin

text \<open>
  Packets and their reassembly: \<open>EasyServer/EasyNet/easy_packet.h\<close> and the receiving half of
  \<open>EasyServer/EasyMidware/easy_basesession.cpp\<close>.

  A received packet is recorded as the arguments \<open>HandlePacket\<close> passes on to the dispatcher: the
  type, the length field and the bytes behind it, as far as the receive buffer goes.  The two nested
  loops of \<open>OnData\<close> run with fuel: \<open>None\<close> is a copy outside an array, the boolean tells whether the
  code has returned within the fuel.  Fuel larger than the number of bytes present is enough
  when no header claims more than 65531 bytes; for larger claims the code may in fact never return
  (\<open>OnData_hangs\<close>).
\<close>

abbreviation PACKET_HEAD :: nat where "PACKET_HEAD \<equiv> 4" \<comment> \<open>sizeof(uint16) + sizeof(uint16)\<close>
abbreviation RECV_BUFFER :: nat where "RECV_BUFFER \<equiv> 1024"

record EasyPacket =
  pk_iTypeId :: u16
  pk_iLen :: u16
  pk_Buf :: "byte list"

record EasyBaseSession =
  ss_iSessionId :: u32
  ss_pConnection :: ptr
  ss_dwConnectionTime :: u32
  ss_dwLoggedInTime :: u32
  ss_iRecvBufLen :: u16
  ss_RecvBuf :: "byte list"

definition EasyBaseSession_new :: "byte list \<Rightarrow> EasyBaseSession" where
  "EasyBaseSession_new mem = \<lparr>ss_iSessionId = 0, ss_pConnection = NULL, ss_dwConnectionTime = 0,
     ss_dwLoggedInTime = 0, ss_iRecvBufLen = 0, ss_RecvBuf = mem[0 := 0]\<rparr>"

definition EasyBaseSession_Clear :: "EasyBaseSession \<Rightarrow> EasyBaseSession" where
  "EasyBaseSession_Clear ss = ss\<lparr>ss_pConnection := NULL, ss_iRecvBufLen := 0,
     ss_RecvBuf := (ss_RecvBuf ss)[0 := 0], ss_dwConnectionTime := 0, ss_dwLoggedInTime := 0\<rparr>"

definition HandlePacket :: "byte list \<Rightarrow> EasyPacket" where
  "HandlePacket buf = \<lparr>pk_iTypeId = get16 buf 0, pk_iLen = get16 buf 2,
     pk_Buf = take (unat (get16 buf 2)) (drop PACKET_HEAD buf)\<rparr>"

fun cut_packets :: "nat \<Rightarrow> byte list \<Rightarrow> u16 \<Rightarrow> EasyPacket list \<Rightarrow> (bool \<times> EasyPacket list \<times> byte list \<times> u16) option" where
  "cut_packets 0 buf iRecvBufLen hs = Some (False, hs, buf, iRecvBufLen)"
| "cut_packets (Suc n) buf iRecvBufLen hs =
     (if PACKET_HEAD \<le> unat iRecvBufLen then
        (let iFullLength = get16 buf 2 + of_nat PACKET_HEAD in
         if iFullLength \<le> iRecvBufLen then do {
           let hs = hs @ [HandlePacket buf];
           buf \<leftarrow> (if iFullLength < iRecvBufLen
                  then memmove buf 0 (unat iFullLength) (unat iRecvBufLen - unat iFullLength) else Some buf);
           cut_packets n buf (iRecvBufLen - iFullLength) hs
         } else Some (True, hs, buf, iRecvBufLen))
      else Some (True, hs, buf, iRecvBufLen))"

text \<open>\<open>iLen\<close> bytes of \<open>pBuf\<close> are still to be taken, starting at \<open>off\<close>.\<close>

fun OnData_loop :: "nat \<Rightarrow> EasyBaseSession \<Rightarrow> u16 \<Rightarrow> byte list \<Rightarrow> nat \<Rightarrow> EasyPacket list \<Rightarrow>
    (bool \<times> EasyPacket list \<times> EasyBaseSession) option" where
  "OnData_loop 0 ss iLen pBuf off hs = Some (False, hs, ss)"
| "OnData_loop (Suc n) ss iLen pBuf off hs = do {
     let iRecvBufLen = ss_iRecvBufLen ss;
     let iCopyLen = (if unat iRecvBufLen + unat iLen \<le> RECV_BUFFER then iLen
                     else of_nat (unat iRecvBufLen + unat iLen - RECV_BUFFER));
     buf \<leftarrow> memcpy (ss_RecvBuf ss) (unat iRecvBufLen) pBuf off (unat iCopyLen);
     (done, hs, buf, len) \<leftarrow> cut_packets n buf (iRecvBufLen + iCopyLen) hs;
     let ss = ss\<lparr>ss_RecvBuf := buf, ss_iRecvBufLen := len\<rparr>;
     if \<not> done then Some (False, hs, ss)
     else if iLen - iCopyLen \<noteq> 0 then OnData_loop n ss (iLen - iCopyLen) pBuf (off + unat iCopyLen) hs
     else Some (True, hs, ss)
   }"

definition EasyBaseSession_OnData :: "nat \<Rightarrow> u16 \<Rightarrow> byte list \<Rightarrow> EasyBaseSession \<Rightarrow>
    (bool \<times> EasyPacket list \<times> EasyBaseSession) option" where
  "EasyBaseSession_OnData fuel iLen pBuf ss = OnData_loop fuel ss iLen pBuf 0 []"

section \<open>Specification: the stream of packets\<close>

definition head_len :: "byte list \<Rightarrow> nat" where
  "head_len bs = PACKET_HEAD + unat (get16 bs 2)"

text \<open>What a peer sends.\<close>

definition encode :: "EasyPacket \<Rightarrow> byte list" where
  "encode p = le16 (pk_iTypeId p) @ le16 (pk_iLen p) @ pk_Buf p"

definition packet_wf :: "EasyPacket \<Rightarrow> bool" where
  "packet_wf p \<longleftrightarrow> unat (pk_iLen p) = length (pk_Buf p)"

abbreviation parse_stream :: "byte list \<Rightarrow> EasyPacket list \<times> byte list" where
  "parse_stream \<equiv> parse_frames PACKET_HEAD head_len HandlePacket"

text \<open>No header that comes up in the stream claims so many bytes that the sum with the header wraps.\<close>

abbreviation heads_ok :: "byte list \<Rightarrow> bool" where
  "heads_ok \<equiv> heads_below PACKET_HEAD head_len 65536"

lemma get16_second [simp]: "get16 (le16 a @ le16 b @ xs) 2 = b"
  using get16_skip [of "le16 a" "le16 b @ xs" 0] by simp

lemma encode_head:
  "length (encode p) = PACKET_HEAD + length (pk_Buf p)"
  "PACKET_HEAD \<le> n \<Longrightarrow> head_len (take n (encode p @ xs)) = PACKET_HEAD + unat (pk_iLen p)"
proof -
  show "length (encode p) = PACKET_HEAD + length (pk_Buf p)" by (simp add: encode_def)
  show "head_len (take n (encode p @ xs)) = PACKET_HEAD + unat (pk_iLen p)" if "PACKET_HEAD \<le> n"
    using that by (simp add: head_len_def get16_take encode_def)
qed

interpretation es: frame_codec PACKET_HEAD head_len HandlePacket encode packet_wf
proof unfold_locales
  show "head_len (take n (encode p @ xs)) = length (encode p)" if "packet_wf p" "PACKET_HEAD \<le> n" for p n xs
    using that encode_head(1) [of p] encode_head(2) [of n p xs] by (simp add: packet_wf_def)
  show "HandlePacket (encode p @ xs) = p" if "packet_wf p" for p xs
    using that by (simp add: HandlePacket_def encode_def packet_wf_def)
qed (simp_all add: head_len_def HandlePacket_def get16_append encode_def)

section \<open>The receive buffer refines the specification\<close>

definition recv_inv :: "EasyBaseSession \<Rightarrow> bool" where
  "recv_inv ss \<longleftrightarrow> length (ss_RecvBuf ss) = RECV_BUFFER \<and> unat (ss_iRecvBufLen ss) \<le> RECV_BUFFER"

definition buffered :: "EasyBaseSession \<Rightarrow> byte list" where
  "buffered ss = take (unat (ss_iRecvBufLen ss)) (ss_RecvBuf ss)"

lemma cut_packets_refines:
  assumes "length buf = RECV_BUFFER" "unat len \<le> RECV_BUFFER" "heads_ok (take (unat len) buf)" "unat len < n"
  shows "\<exists>buf' len'. cut_packets n buf len hs = Some (True, hs @ fst (parse_stream (take (unat len) buf)), buf', len') \<and>
    length buf' = RECV_BUFFER \<and> unat len' \<le> RECV_BUFFER \<and> take (unat len') buf' = snd (parse_stream (take (unat len) buf))"
  using assms
proof (induction n arbitrary: buf len hs)
  case (Suc n)
  let ?bs = "take (unat len) buf" and ?full = "get16 buf 2 + of_nat PACKET_HEAD :: u16"
  have lb: "length ?bs = unat len" using Suc.prems by simp
  show ?case
  proof (cases "PACKET_HEAD \<le> unat len")
    case False
    then show ?thesis using Suc.prems lb by (auto simp: es.parse_stop)
  next
    case True
    have h: "head_len ?bs = unat (get16 buf 2) + 4" using True by (simp add: head_len_def get16_take)
    have "head_len ?bs < 65536" using Suc.prems(3) True lb es.heads_step [of ?bs] es.heads_stop(2) [of ?bs] by (cases "head_len ?bs \<le> length ?bs") auto
    then have full: "unat ?full = head_len ?bs" using h by (subst unat_add_no_wrap) simp_all
    show ?thesis
    proof (cases "head_len ?bs \<le> unat len")
      case False
      then show ?thesis using Suc.prems lb True full by (auto simp: es.parse_stop word_le_nat_alt)
    next
      case ge: True
      let ?len = "len - ?full"
      have len: "unat ?len = unat len - head_len ?bs" using ge full by (simp add: unat_sub_le word_le_nat_alt)
      define buf1 where "buf1 = (if ?full < len then drop (unat ?full) (take (unat len) buf) @ drop (unat len - unat ?full) buf else buf)"
      have cp: "cut_packets (Suc n) buf len hs = cut_packets n buf1 ?len (hs @ [HandlePacket buf])"
        using True ge full Suc.prems(1,2)
        by (auto simp: word_le_nat_alt word_less_nat_alt memmove_def memcpy_Some buf1_def drop_take)
      have hp: "HandlePacket buf = HandlePacket ?bs"
        using True ge h by (simp add: HandlePacket_def get16_take drop_take)
      have t1: "take (unat ?len) buf1 = drop (head_len ?bs) ?bs" "length buf1 = RECV_BUFFER"
        using Suc.prems(1,2) ge full len by (auto simp: buf1_def word_less_nat_alt)
      have hk: "heads_ok (drop (head_len ?bs) ?bs)"
        using Suc.prems(3) True ge lb es.heads_step [of ?bs] by simp
      have "0 < head_len ?bs" by (simp add: head_len_def)
      then have "unat ?len < n" using len Suc.prems(4) True ge by linarith
      from Suc.IH [OF t1(2) _ _ this, of "hs @ [HandlePacket buf]"] t1 hk len Suc.prems(2) show ?thesis
        unfolding cp using es.parse_step [of ?bs] True ge lb hp by auto
    qed
  qed
qed simp


lemma recv_inv_length [simp]: "recv_inv ss \<Longrightarrow> length (buffered ss) = unat (ss_iRecvBufLen ss)"
  by (simp add: recv_inv_def buffered_def)

lemma OnData_refines:
  assumes I: "recv_inv ss" and fit: "length (buffered ss) + length chunk \<le> RECV_BUFFER"
    and ok: "heads_ok (buffered ss @ chunk)" and fuel: "RECV_BUFFER + 2 \<le> fuel"
  shows "\<exists>ss'. EasyBaseSession_OnData fuel (of_nat (length chunk)) chunk ss =
      Some (True, fst (parse_stream (buffered ss @ chunk)), ss') \<and> recv_inv ss' \<and>
    buffered ss' = snd (parse_stream (buffered ss @ chunk))"
proof -
  obtain n where n: "fuel = Suc n" "RECV_BUFFER < n" using fuel by (cases fuel) auto
  let ?r = "ss_iRecvBufLen ss" and ?c = "of_nat (length chunk) :: u16"
  have c: "unat ?c = length chunk" using fit by (simp add: unat_of_nat_less)
  have r: "unat ?r + length chunk \<le> RECV_BUFFER" using fit I by simp
  have rc: "unat (?r + ?c) = unat ?r + length chunk" using r c by (subst unat_add_no_wrap) simp_all
  let ?buf = "take (unat ?r) (ss_RecvBuf ss) @ chunk @ drop (unat ?r + length chunk) (ss_RecvBuf ss)"
  have lb: "length ?buf = RECV_BUFFER" using I r by (simp add: recv_inv_def)
  have tb: "take (unat (?r + ?c)) ?buf = buffered ss @ chunk"
    using I r rc by (simp add: recv_inv_def buffered_def)
  have "unat (?r + ?c) < n" using rc r n by simp
  from cut_packets_refines [OF lb _ _ this, of "[]"] obtain buf' len' where
    "cut_packets n ?buf (?r + ?c) [] = Some (True, fst (parse_stream (buffered ss @ chunk)), buf', len')"
    "length buf' = RECV_BUFFER" "unat len' \<le> RECV_BUFFER" "take (unat len') buf' = snd (parse_stream (buffered ss @ chunk))"
    using rc r ok unfolding tb by auto
  then show ?thesis
    using n c r I by (auto simp: EasyBaseSession_OnData_def Let_def memcpy_Some recv_inv_def buffered_def)
qed

text \<open>A sequence of receives.\<close>

primrec receive_all :: "nat \<Rightarrow> byte list list \<Rightarrow> EasyBaseSession \<Rightarrow> (bool \<times> EasyPacket list \<times> EasyBaseSession) option" where
  "receive_all fuel [] ss = Some (True, [], ss)"
| "receive_all fuel (c # cs) ss = do {
     (done, hs, ss) \<leftarrow> EasyBaseSession_OnData fuel (of_nat (length c)) c ss;
     if \<not> done then Some (False, hs, ss) else do {
       (done, hs', ss) \<leftarrow> receive_all fuel cs ss;
       Some (done, hs @ hs', ss)
     }
   }"

text \<open>A receive that has returned.\<close>

definition OnData_packets :: "nat \<Rightarrow> byte list \<Rightarrow> EasyBaseSession \<Rightarrow> (EasyPacket list \<times> EasyBaseSession) option" where
  "OnData_packets fuel c ss = (case EasyBaseSession_OnData fuel (of_nat (length c)) c ss of Some (True, hs, ss') \<Rightarrow> Some (hs, ss') | _ \<Rightarrow> None)"

lemma receive_all_feed: "feed (OnData_packets fuel) cs ss = Some (hs, ss') \<Longrightarrow> receive_all fuel cs ss = Some (True, hs, ss')"
  by (induction cs arbitrary: ss hs) (auto simp: OnData_packets_def split: Option.bind_splits option.splits bool.splits)

interpretation es_recv: frame_receiver PACKET_HEAD head_len HandlePacket encode packet_wf recv_inv buffered "OnData_packets (RECV_BUFFER + 2 + k)" RECV_BUFFER 65536 for k
proof unfold_locales
  fix ss c
  assume "recv_inv ss" "length (buffered ss) + length c \<le> RECV_BUFFER" "heads_ok (buffered ss @ c)"
  from OnData_refines [OF this, of "RECV_BUFFER + 2 + k"] show "\<exists>ss'. OnData_packets (RECV_BUFFER + 2 + k) c ss = Some (fst (parse_stream (buffered ss @ c)), ss') \<and>
      recv_inv ss' \<and> buffered ss' = snd (parse_stream (buffered ss @ c))"
    by (auto simp: OnData_packets_def)
qed

section \<open>Properties\<close>

lemma new_recv_inv: "length mem = RECV_BUFFER \<Longrightarrow> recv_inv (EasyBaseSession_new mem) \<and> buffered (EasyBaseSession_new mem) = []"
  by (simp add: EasyBaseSession_new_def recv_inv_def buffered_def)

text \<open>C4: Reassembly.  A peer sends well-formed packets of at most \<open>K\<close> bytes each, the network cuts the
  byte stream into pieces of at most \<open>1025 - K\<close> bytes in any way, and so far a prefix has arrived.
  Then OnData returns every time without leaving its arrays, the packets it has handled are the first
  packets sent, unchanged and in order, and the bytes not yet handled are exactly those buffered, less
  than one packet; when everything has arrived, every packet has been handled.\<close>
theorem session_reassembly:
  assumes wf: "\<forall>p \<in> set ps. packet_wf p \<and> length (encode p) \<le> K" and K: "K \<le> RECV_BUFFER"
    and cs: "concat cs @ rest = concat (map encode ps)" "\<forall>c \<in> set cs. length c + K \<le> RECV_BUFFER + 1"
    and mem: "length mem = RECV_BUFFER" and fuel: "RECV_BUFFER + 2 \<le> fuel"
  shows "\<exists>m ss. receive_all fuel cs (EasyBaseSession_new mem) = Some (True, take m ps, ss) \<and>
    concat cs = concat (map encode (take m ps)) @ buffered ss \<and> (rest = [] \<longrightarrow> take m ps = ps)"
proof -
  obtain k where k: "fuel = RECV_BUFFER + 2 + k" using fuel le_Suc_ex by blast
  have s: "recv_inv (EasyBaseSession_new mem)" "buffered (EasyBaseSession_new mem) = []" using new_recv_inv [OF mem] by auto
  have "K < 65536" using K by simp
  from es_recv.reassembly [OF wf K this cs s] receive_all_feed k show ?thesis by blast
qed

text \<open>A received chunk that does not fit behind the buffered bytes is copied with the length
  \<open>m_iRecvBufLen + iLen - sizeof(m_RecvBuf)\<close>, the excess, instead of the room that is left.  When the
  excess is larger than the room, the copy runs past the receive buffer.\<close>
theorem OnData_overflow:
  assumes I: "recv_inv ss" and c: "length chunk \<le> RECV_BUFFER"
    and ov: "2 * RECV_BUFFER < 2 * length (buffered ss) + length chunk"
  shows "EasyBaseSession_OnData (Suc n) (of_nat (length chunk)) chunk ss = None"
proof -
  let ?r = "ss_iRecvBufLen ss"
  have r: "unat ?r \<le> RECV_BUFFER" "length (ss_RecvBuf ss) = RECV_BUFFER" "length (buffered ss) = unat ?r"
    using I by (auto simp: recv_inv_def)
  have cu: "unat (of_nat (length chunk) :: u16) = length chunk" using c by (simp add: unat_of_nat_less)
  have "unat (of_nat (unat ?r + length chunk - RECV_BUFFER) :: u16) = unat ?r + length chunk - RECV_BUFFER"
    using c r by (simp add: unat_of_nat_less)
  then show ?thesis
    using r cu ov c by (auto simp: EasyBaseSession_OnData_def Let_def memcpy_def mem_read_def mem_write_def)
qed

lemma cut_packets_hangs:
  assumes "get16 buf 2 = 65532" "PACKET_HEAD \<le> unat len" "length buf = RECV_BUFFER" "unat len \<le> RECV_BUFFER"
  shows "\<exists>hs'. cut_packets n buf len hs = Some (False, hs', buf, len)"
  using assms(1,2)
proof (induction n arbitrary: hs)
  case (Suc n)
  have "0 < len" using Suc.prems(2) by (auto simp: word_less_nat_alt)
  moreover have z: "(65536 :: u16) = 0" by (rule unsigned_word_eqI [where ?'a = nat]) simp
  ultimately show ?case using Suc assms by (simp add: z memmove_def memcpy_Some)
qed simp

text \<open>A header that announces 65532 bytes makes the loop of OnData run forever: the length of the
  whole packet wraps to zero, so nothing is ever removed from the buffer.  Four bytes from a peer are
  enough.\<close>
theorem OnData_hangs:
  assumes I: "recv_inv ss" and b: "buffered ss = []"
  shows "\<exists>hs ss'. EasyBaseSession_OnData fuel 4 (le16 iTypeId @ le16 65532) ss = Some (False, hs, ss')"
proof (cases fuel)
  case (Suc n)
  have r: "ss_iRecvBufLen ss = 0" "length (ss_RecvBuf ss) = RECV_BUFFER"
    using I b recv_inv_length [OF I] by (auto simp: recv_inv_def unat_eq_0)
  have "get16 (le16 iTypeId @ le16 65532 @ drop 4 (ss_RecvBuf ss)) 2 = 65532" by (rule get16_second)
  from cut_packets_hangs [OF this, of 4 n "[]"] r show ?thesis
    by (auto simp: EasyBaseSession_OnData_def Suc Let_def memcpy_Some)
qed (simp add: EasyBaseSession_OnData_def)


section \<open>Examples\<close>

definition pk :: "nat \<Rightarrow> EasyPacket" where
  "pk n = \<lparr>pk_iTypeId = 5, pk_iLen = of_nat n, pk_Buf = replicate n 7\<rparr>"

lemma pk_wf: "n < 65536 \<Longrightarrow> packet_wf (pk n)" "length (encode (pk n)) = n + 4"
  by (simp_all add: pk_def packet_wf_def encode_def unat_of_nat_less)

lemma encode_pk: "encode (pk n) = le16 5 @ le16 (of_nat n) @ replicate n 7"
  by (simp add: encode_def pk_def)

theorem session_reassembly_witness:
  "\<exists>m ss. receive_all 1026 [take 3 (encode (pk 2)), drop 3 (encode (pk 2)) @ encode (pk 1)]
     (EasyBaseSession_new (replicate 1024 0)) = Some (True, take m [pk 2, pk 1], ss) \<and> take m [pk 2, pk 1] = [pk 2, pk 1]"
proof -
  have l: "\<forall>p \<in> set [pk 2, pk 1]. packet_wf p \<and> length (encode p) \<le> 6" by (simp add: pk_wf)
  have c: "concat [take 3 (encode (pk 2)), drop 3 (encode (pk 2)) @ encode (pk 1)] @ [] = concat (map encode [pk 2, pk 1])"
    by simp
  show ?thesis
    using session_reassembly [OF l _ c, of "replicate 1024 0" 1026] by (auto simp: pk_wf)
qed

theorem OnData_overflow_witness:
  "\<exists>ss. receive_all 1026 [take 900 (encode (pk 1000))] (EasyBaseSession_new (replicate 1024 0)) = Some (True, [], ss) \<and>
     EasyBaseSession_OnData 1026 300 (take 300 (drop 900 (encode (pk 1000) @ encode (pk 1000)))) ss = None"
proof -
  let ?s = "EasyBaseSession_new (replicate 1024 0)" and ?x = "take 900 (encode (pk 1000))"
  let ?y = "take 300 (drop 900 (encode (pk 1000) @ encode (pk 1000)))"
  have s: "recv_inv ?s" "buffered ?s = []" using new_recv_inv [of "replicate 1024 0"] by auto
  have l: "length ?x = 900" "length ?y = 300" by (simp_all add: pk_wf)
  have w: "\<forall>p \<in> set [pk 1000]. packet_wf p \<and> length (encode p) < 65536" by (simp add: pk_wf)
  have h: "heads_ok ?x" using es.heads_encoded [of ?x "drop 900 (encode (pk 1000))", OF _ w] by simp
  have "head_len ?x = 1004"
    using encode_head(2) [of 900 "pk 1000" "[]"] pk_wf(1) [of 1000] by (simp add: packet_wf_def pk_def)
  then have p: "parse_stream ?x = ([], ?x)" using l by (simp add: es.parse_stop)
  have b: "length (buffered ?s) + length ?x \<le> RECV_BUFFER" "heads_ok (buffered ?s @ ?x)" using s(2) l h by simp_all
  from OnData_refines [OF s(1) b, of 1026] p s(2) obtain ss where
    ss: "EasyBaseSession_OnData 1026 (of_nat (length ?x)) ?x ?s = Some (True, [], ss)" "recv_inv ss" "buffered ss = ?x"
    by auto
  have "EasyBaseSession_OnData (Suc 1025) (of_nat (length ?y)) ?y ss = None"
    by (rule OnData_overflow [OF ss(2)]) (use ss(3) l in simp_all)
  moreover have "Suc 1025 = 1026" by simp
  ultimately have "EasyBaseSession_OnData 1026 300 ?y ss = None" using l(2) by (metis of_nat_numeral)
  then show ?thesis using ss(1) by auto
qed

theorem OnData_hangs_witness:
  "\<exists>hs ss'. EasyBaseSession_OnData 9 4 (le16 1 @ le16 65532) (EasyBaseSession_new (replicate 1024 0)) = Some (False, hs, ss')"
  using OnData_hangs [of "EasyBaseSession_new (replicate 1024 0)" 9 1] new_recv_inv [of "replicate 1024 0"] by simp

end
