(* ===== verification/EasyMidware.thy ===== *)
theory EasyMidware
  imports EasyNetInv EasySession
begin

text \<open>
  The server layer on top of the C network library: \<open>easy_basecommand.cpp\<close>, \<open>easy_baseloop.cpp\<close>,
  \<open>easy_baseserver.cpp\<close>, \<open>easy_dispatcher.cpp\<close> and the rest of \<open>easy_basesession.cpp\<close> in
  \<open>EasyServer/EasyMidware\<close>.

  The application state behind the callbacks of \<open>EasyNet\<close> is \<open>midware\<close>: the server object at
  the address \<open>SRV\<close>, its main loop with the command queue, and the sessions.  A command is the
  datatype \<open>LogicCommand\<close> with one constructor per struct of \<open>easy_basecommand.h\<close>.  The queue is
  guarded by a critical section; a push appends to it and then releases the semaphore, the loop waits for the semaphore and then
  pops, and other threads may act in between: \<open>loop_run\<close> has a step for each of the four.  \<open>PushCommand\<close> is a push whose
  release succeeds at once, as a callback sees it.  \<open>new\<close> does not return NULL;
  \<open>_aligned_malloc\<close> may fail, as told by the parameter \<open>os\<close>.  The functions registered with the
  dispatcher are generated code: what they are called with is recorded in \<open>mw_dispatched\<close>, their
  effect is the parameter \<open>D\<close>.  \<open>_CreateSession\<close> is the virtual function of the concrete server: it
  returns a new session.
\<close>

section \<open>Data\<close>

datatype LogicCommand =
    LogicCommandOnConnect ptr
  | LogicCommandOnDisconnect ptr
  | LogicCommandOnData ptr "byte list"
  | LogicCommandSendData u32 u16 "byte list"
  | LogicCommandShutdown
  | LogicCommandDisconnect u32 u8
  | LogicCommandOther int

datatype shutdown_status = NOT_SHUTDOWN | START_SHUTDOWN | READY_FOR_SHUTDOWN

record 'u Dispatcher =
  d_iFuncCount :: u32
  d_pFunc :: "nat \<Rightarrow> ptr \<Rightarrow> EasyPacket \<Rightarrow> 'u \<Rightarrow> 'u"

record 'u midware =
  mw_hasMainLoop :: bool
  mw_bReadyForShutdown :: bool
  mw_CommandList :: "LogicCommand list"
  mw_semaphore :: nat
  mw_bQuit :: bool
  mw_dwCurrTime :: u32
  mw_dwDeltaTime :: u32
  mw_iShutdownStatus :: shutdown_status
  mw_mSessionMap :: "u32 \<rightharpoonup> ptr"
  mw_sessions :: "ptr \<rightharpoonup> EasyBaseSession"
  mw_next :: ptr
  mw_iSessionIdStart :: u32
  mw_dispatched :: "(ptr \<times> EasyPacket) list"
  mw_user :: 'u

type_synonym 'u snet = "'u midware net"

abbreviation SRV :: nat where "SRV \<equiv> 1"

section \<open>easy_basecommand.cpp\<close>

text \<open>\<open>CopyData\<close> of a data command: the copy of \<open>iLen\<close> bytes, or no memory.\<close>

definition CopyData :: "os \<Rightarrow> u16 \<Rightarrow> byte list \<Rightarrow> 'u snet \<Rightarrow> (byte list option \<times> 'u snet) option" where
  "CopyData os iLen pData s = do {
     let (ok, s) = os_call (malloc_ok os) s;
     if ok then do { m \<leftarrow> mem_read pData 0 (unat iLen); Some (Some m, s) }
     else Some (None, s)
   }"

section \<open>easy_baseloop.cpp: the queue\<close>

definition upd_mw :: "('u midware \<Rightarrow> 'u midware) \<Rightarrow> 'u snet \<Rightarrow> 'u snet" where
  "upd_mw f s = s\<lparr>app := f (app s)\<rparr>"

text \<open>\<open>PushCommand\<close> in its two steps: the critical section, and \<open>ReleaseSemaphore\<close>, which may fail.\<close>

definition PushCommand_list :: "LogicCommand \<Rightarrow> 'u midware \<Rightarrow> 'u midware" where
  "PushCommand_list cmd m = m\<lparr>mw_CommandList := mw_CommandList m @ [cmd]\<rparr>"

definition PushCommand_release :: "bool \<Rightarrow> 'u midware \<Rightarrow> 'u midware" where
  "PushCommand_release bRet m = (if bRet then m\<lparr>mw_semaphore := Suc (mw_semaphore m)\<rparr> else m)"

definition PushCommand :: "LogicCommand \<Rightarrow> 'u midware \<Rightarrow> 'u midware" where
  "PushCommand cmd m = PushCommand_release True (PushCommand_list cmd m)"

definition IsReadyForShutdown :: "'u midware \<Rightarrow> bool" where
  "IsReadyForShutdown m \<longleftrightarrow> mw_iShutdownStatus m = READY_FOR_SHUTDOWN"

definition ReadyForShutdown :: "'u midware \<Rightarrow> 'u midware" where
  "ReadyForShutdown m = (if mw_iShutdownStatus m = START_SHUTDOWN
     then m\<lparr>mw_iShutdownStatus := READY_FOR_SHUTDOWN\<rparr> else m)"

definition Loop :: "'u midware \<Rightarrow> u32 \<times> 'u midware" where
  "Loop m = (100, if mw_iShutdownStatus m = START_SHUTDOWN then ReadyForShutdown m else m)"

definition LoopStop :: "'u midware \<Rightarrow> 'u midware" where
  "LoopStop m = m\<lparr>mw_bQuit := True\<rparr>"

definition LoopDestroy :: "'u midware \<Rightarrow> 'u midware" where
  "LoopDestroy m = m\<lparr>mw_CommandList := []\<rparr>"

definition GetSession :: "u32 \<Rightarrow> 'u midware \<Rightarrow> ptr" where
  "GetSession iSessionId m = (case mw_mSessionMap m iSessionId of Some p \<Rightarrow> p | None \<Rightarrow> NULL)"

definition CreateSession :: "'u midware \<Rightarrow> ptr \<times> 'u midware" where
  "CreateSession m = (mw_next m, m\<lparr>mw_next := Suc (mw_next m),
     mw_sessions := (mw_sessions m)(mw_next m \<mapsto> EasyBaseSession_new (replicate RECV_BUFFER 0))\<rparr>)"

text \<open>\<open>hash_map::insert\<close> keeps the entry that is there.\<close>

definition map_insert :: "'k \<Rightarrow> 'v \<Rightarrow> ('k \<rightharpoonup> 'v) \<Rightarrow> ('k \<rightharpoonup> 'v)" where
  "map_insert k v m = (if m k = None then m(k \<mapsto> v) else m)"

section \<open>easy_basesession.cpp\<close>

definition upd_session :: "ptr \<Rightarrow> (EasyBaseSession \<Rightarrow> EasyBaseSession) \<Rightarrow> 'u midware \<Rightarrow> 'u midware option" where
  "upd_session p f m = do { ss \<leftarrow> mw_sessions m p; Some (m\<lparr>mw_sessions := (mw_sessions m)(p \<mapsto> f ss)\<rparr>) }"

definition Session_OnConnection :: "ptr \<Rightarrow> ptr \<Rightarrow> 'u snet \<Rightarrow> 'u snet option" where
  "Session_OnConnection sp connId s = do {
     let m = (app s)\<lparr>mw_iSessionIdStart := mw_iSessionIdStart (app s) + 1\<rparr>;
     m \<leftarrow> upd_session sp (\<lambda>ss. ss\<lparr>ss_iSessionId := mw_iSessionIdStart m, ss_pConnection := connId\<rparr>) m;
     s \<leftarrow> SetClientApp connId sp (s\<lparr>app := m\<rparr>);
     m \<leftarrow> upd_session sp (\<lambda>ss. ss\<lparr>ss_dwConnectionTime := mw_dwCurrTime (app s)\<rparr>) (app s);
     Some (s\<lparr>app := m\<rparr>)
   }"

definition Session_OnDisconnect :: "ptr \<Rightarrow> 'u snet \<Rightarrow> 'u snet option" where
  "Session_OnDisconnect sp s = do {
     ss \<leftarrow> mw_sessions (app s) sp;
     s \<leftarrow> (if ss_pConnection ss \<noteq> NULL then CloseConnection (ss_pConnection ss) s else Some s);
     m \<leftarrow> upd_session sp EasyBaseSession_Clear (app s);
     Some (s\<lparr>app := m\<rparr>)
   }"

definition Session_Disconnect :: "os \<Rightarrow> ptr \<Rightarrow> 'u snet \<Rightarrow> 'u snet option" where
  "Session_Disconnect os sp s = do {
     ss \<leftarrow> mw_sessions (app s) sp;
     if ss_pConnection ss \<noteq> NULL then AsyncDisconnect os (ss_pConnection ss) s else Session_OnDisconnect sp s
   }"

text \<open>\<open>SendData\<close> builds the packet in the buffer of a new context and sends it; the length is not
  checked against the buffer.\<close>

definition Session_SendData :: "os \<Rightarrow> ptr \<Rightarrow> u16 \<Rightarrow> u16 \<Rightarrow> byte list \<Rightarrow> 'u snet \<Rightarrow> 'u snet option" where
  "Session_SendData os sp iTypeId len data s = do {
     (q, s) \<leftarrow> CreateContext os OPERATION_SEND s;
     x \<leftarrow> ctxs s q;
     buf \<leftarrow> mem_write (x_buffer x) 0 (le16 iTypeId @ le16 len);
     buf \<leftarrow> memcpy buf PACKET_HEAD data 0 (unat len);
     s \<leftarrow> upd_ctx q (\<lambda>x. x\<lparr>x_buffer := buf\<rparr>) s;
     ss \<leftarrow> mw_sessions (app s) sp;
     AsyncRawSend os (ss_pConnection ss) (ucast len + of_nat PACKET_HEAD) q s
   }"

section \<open>easy_dispatcher.cpp\<close>

definition OnPacketReceived :: "'u Dispatcher \<Rightarrow> ptr \<Rightarrow> EasyPacket \<Rightarrow> 'u midware \<Rightarrow> 'u midware" where
  "OnPacketReceived D sp p m =
     (if unat (d_iFuncCount D) \<le> unat (pk_iTypeId p) then m
      else m\<lparr>mw_dispatched := mw_dispatched m @ [(sp, p)], mw_user := d_pFunc D (unat (pk_iTypeId p)) sp p (mw_user m)\<rparr>)"

definition Session_OnData :: "'u Dispatcher \<Rightarrow> nat \<Rightarrow> ptr \<Rightarrow> byte list \<Rightarrow> 'u snet \<Rightarrow> (bool \<times> 'u snet) option" where
  "Session_OnData D fuel sp data s = do {
     ss \<leftarrow> mw_sessions (app s) sp;
     (done, ps, ss) \<leftarrow> EasyBaseSession_OnData fuel (of_nat (length data)) data ss;
     let m = fold (OnPacketReceived D sp) ps ((app s)\<lparr>mw_sessions := (mw_sessions (app s))(sp \<mapsto> ss)\<rparr>);
     Some (done, s\<lparr>app := m\<rparr>)
   }"

section \<open>easy_baseloop.cpp: the commands\<close>

definition OnCommandOnConnect :: "ptr \<Rightarrow> 'u snet \<Rightarrow> 'u snet option" where
  "OnCommandOnConnect connId s = do {
     let (sp, m) = CreateSession (app s);
     ss \<leftarrow> mw_sessions m sp;
     let m = m\<lparr>mw_mSessionMap := map_insert (ss_iSessionId ss) sp (mw_mSessionMap m)\<rparr>;
     Session_OnConnection sp connId (s\<lparr>app := m\<rparr>)
   }"

definition OnCommandOnDisconnect :: "ptr \<Rightarrow> 'u snet \<Rightarrow> 'u snet option" where
  "OnCommandOnDisconnect connId s = do {
     c \<leftarrow> conns s connId;
     if c_client c \<noteq> NULL then do {
       ss \<leftarrow> mw_sessions (app s) (c_client c);
       Session_OnDisconnect (c_client c)
         (upd_mw (\<lambda>m. m\<lparr>mw_mSessionMap := (mw_mSessionMap m)(ss_iSessionId ss := None)\<rparr>) s)
     } else Some s
   }"

definition OnCommandDisconnect :: "os \<Rightarrow> u32 \<Rightarrow> 'u snet \<Rightarrow> 'u snet option" where
  "OnCommandDisconnect os iSessionId s =
     (let sp = GetSession iSessionId (app s) in if sp \<noteq> NULL then Session_Disconnect os sp s else Some s)"

definition OnCommandOnData :: "os \<Rightarrow> 'u Dispatcher \<Rightarrow> nat \<Rightarrow> ptr \<Rightarrow> byte list \<Rightarrow> 'u snet \<Rightarrow> (bool \<times> 'u snet) option" where
  "OnCommandOnData os D fuel connId data s = do {
     c \<leftarrow> conns s connId;
     if c_client c \<noteq> NULL then Session_OnData D fuel (c_client c) data s
     else do { s \<leftarrow> AsyncDisconnect os connId s; Some (True, s) }
   }"

definition OnCommandSendData :: "os \<Rightarrow> u32 \<Rightarrow> u16 \<Rightarrow> byte list \<Rightarrow> 'u snet \<Rightarrow> 'u snet option" where
  "OnCommandSendData os iSessionId iTypeId data s =
     (let sp = GetSession iSessionId (app s) in
      if sp \<noteq> NULL then Session_SendData os sp iTypeId (of_nat (length data)) data s else Some s)"

primrec disconnect_all :: "os \<Rightarrow> ptr list \<Rightarrow> 'u snet \<Rightarrow> 'u snet option" where
  "disconnect_all os [] s = Some s"
| "disconnect_all os (sp # sps) s = do { s \<leftarrow> Session_Disconnect os sp s; disconnect_all os sps s }"

text \<open>\<open>_OnCommandShutdown\<close> walks the session map in the order of the hash map: \<open>sps\<close> is that order.\<close>

definition OnCommandShutdown :: "os \<Rightarrow> ptr list \<Rightarrow> 'u snet \<Rightarrow> 'u snet option" where
  "OnCommandShutdown os sps s =
     disconnect_all os sps (upd_mw (\<lambda>m. m\<lparr>mw_iShutdownStatus := START_SHUTDOWN\<rparr>) s)"

text \<open>The result is false only when a data command has not returned within the fuel.\<close>

definition OnCommand :: "os \<Rightarrow> 'u Dispatcher \<Rightarrow> nat \<Rightarrow> ptr list \<Rightarrow> LogicCommand \<Rightarrow> 'u snet \<Rightarrow> (bool \<times> 'u snet) option" where
  "OnCommand os D fuel sps cmd s =
     (let is_open = (mw_iShutdownStatus (app s) = NOT_SHUTDOWN); ret = map_option (\<lambda>s. (True, s)) in
      case cmd of
        LogicCommandOnConnect c \<Rightarrow> if is_open then ret (OnCommandOnConnect c s) else Some (True, s)
      | LogicCommandOnDisconnect c \<Rightarrow> ret (OnCommandOnDisconnect c s)
      | LogicCommandDisconnect i r \<Rightarrow> ret (OnCommandDisconnect os i s)
      | LogicCommandOnData c data \<Rightarrow> if is_open then OnCommandOnData os D fuel c data s else Some (True, s)
      | LogicCommandSendData i t data \<Rightarrow> if is_open then ret (OnCommandSendData os i t data s) else Some (True, s)
      | LogicCommandShutdown \<Rightarrow> ret (OnCommandShutdown os sps s)
      | LogicCommandOther i \<Rightarrow> Some (True, s))"

text \<open>One command of the loop thread: \<open>WaitForSingleObject\<close> succeeds and counts down; then a critical section takes the
  first command.  With an empty list the thread would use a NULL command.\<close>

definition wait_semaphore :: "'u midware \<Rightarrow> 'u midware option" where
  "wait_semaphore m = (case mw_semaphore m of 0 \<Rightarrow> None | Suc n \<Rightarrow> Some (m\<lparr>mw_semaphore := n\<rparr>))"

definition pop_command :: "'u midware \<Rightarrow> (LogicCommand \<times> 'u midware) option" where
  "pop_command m = (case mw_CommandList m of [] \<Rightarrow> None | cmd # cmds \<Rightarrow> Some (cmd, m\<lparr>mw_CommandList := cmds\<rparr>))"

definition take_command :: "'u midware \<Rightarrow> (LogicCommand \<times> 'u midware) option" where
  "take_command m = do { m \<leftarrow> wait_semaphore m; pop_command m }"

definition loop_command :: "os \<Rightarrow> 'u Dispatcher \<Rightarrow> nat \<Rightarrow> ptr list \<Rightarrow> 'u snet \<Rightarrow> (bool \<times> 'u snet) option" where
  "loop_command os D fuel sps s = do {
     (cmd, m) \<leftarrow> take_command (app s);
     OnCommand os D fuel sps cmd (s\<lparr>app := m\<rparr>)
   }"

text \<open>One round of the thread: the clock, the commands that are waiting, then the logic loop.\<close>

primrec run_commands :: "os \<Rightarrow> 'u Dispatcher \<Rightarrow> nat \<Rightarrow> ptr list \<Rightarrow> nat \<Rightarrow> 'u snet \<Rightarrow> (bool \<times> 'u snet) option" where
  "run_commands os D fuel sps 0 s = Some (True, s)"
| "run_commands os D fuel sps (Suc n) s = do {
     (done, s) \<leftarrow> loop_command os D fuel sps s;
     if done then run_commands os D fuel sps n s else Some (False, s)
   }"

definition ThreadMain_round :: "os \<Rightarrow> 'u Dispatcher \<Rightarrow> nat \<Rightarrow> ptr list \<Rightarrow> u32 \<Rightarrow> 'u snet \<Rightarrow> (bool \<times> 'u snet) option" where
  "ThreadMain_round os D fuel sps now s =
     (if mw_bQuit (app s) then Some (True, s) else do {
        let s = upd_mw (\<lambda>m. m\<lparr>mw_dwCurrTime := now, mw_dwDeltaTime := now - mw_dwCurrTime m\<rparr>) s;
        (done, s) \<leftarrow> run_commands os D fuel sps (mw_semaphore (app s)) s;
        Some (done, if done then upd_mw (snd \<circ> Loop) s else s)
      })"

section \<open>easy_baseserver.cpp\<close>

text \<open>The server behind a connection: \<open>connId->acceptor_->server_\<close>.\<close>

definition server_of :: "ptr \<Rightarrow> 'u snet \<Rightarrow> 'u midware option" where
  "server_of connId s = do {
     c \<leftarrow> conns s connId;
     acc \<leftarrow> accs s (c_acceptor c);
     if a_server acc = SRV then Some (app s) else None
   }"

definition Server_OnConnection :: "ptr \<Rightarrow> 'u snet \<Rightarrow> (bool \<times> 'u snet) option" where
  "Server_OnConnection connId s = do {
     m \<leftarrow> server_of connId s;
     if mw_bReadyForShutdown m then Some (False, s)
     else if \<not> mw_hasMainLoop m then Some (False, s)
     else Some (True, upd_mw (PushCommand (LogicCommandOnConnect connId)) s)
   }"

definition Server_OnDisconnect :: "ptr \<Rightarrow> 'u snet \<Rightarrow> 'u snet option" where
  "Server_OnDisconnect connId s = do {
     m \<leftarrow> server_of connId s;
     if mw_bReadyForShutdown m then Some s
     else if \<not> mw_hasMainLoop m then Some s
     else Some (upd_mw (PushCommand (LogicCommandOnDisconnect connId)) s)
   }"

definition Server_OnData :: "os \<Rightarrow> ptr \<Rightarrow> u32 \<Rightarrow> byte list \<Rightarrow> 'u snet \<Rightarrow> 'u snet option" where
  "Server_OnData os connId iLen pBuf s = do {
     m \<leftarrow> server_of connId s;
     if mw_bReadyForShutdown m then Some s
     else if \<not> mw_hasMainLoop m then Some s
     else do {
       (r, s) \<leftarrow> CopyData os (ucast iLen) pBuf s;
       (case r of None \<Rightarrow> Some s
        | Some data \<Rightarrow> Some (upd_mw (PushCommand (LogicCommandOnData connId data)) s))
     }
   }"

definition Server_OnConnectFailed :: "nat \<Rightarrow> 'u snet \<Rightarrow> 'u snet option" where
  "Server_OnConnectFailed client s = Some s"

definition server_handler :: "os \<Rightarrow> 'u midware EasyHandler" where
  "server_handler os = \<lparr>OnConnection = Server_OnConnection, OnDisconnect = Server_OnDisconnect,
     OnData = Server_OnData os, OnConnectFailed = Server_OnConnectFailed\<rparr>"

definition InitAcceptor :: "os \<Rightarrow> nat \<Rightarrow> u32 \<Rightarrow> 'u snet \<Rightarrow> (int \<times> 'u snet) option" where
  "InitAcceptor os pHandler iThreadCount s = do {
     let (w, s) = CreateWorker os iThreadCount s;
     if w = NULL then Some (-1, s) else do {
       (a, s) \<leftarrow> CreateAcceptor os w pHandler s;
       if a = NULL then Some (-3, s) else do {
         s \<leftarrow> SetServerApp a SRV s;
         Some (0, s)
       }
     }
   }"

text \<open>\<open>Shutdown\<close> pushes the command and polls; \<open>ready\<close> is what the polls see, one after the other.\<close>

primrec Shutdown_poll :: "bool list \<Rightarrow> nat option" where
  "Shutdown_poll [] = None"
| "Shutdown_poll (r # rs) = (if r then Some 0 else map_option Suc (Shutdown_poll rs))"

definition Shutdown_request :: "'u midware \<Rightarrow> 'u midware" where
  "Shutdown_request = PushCommand LogicCommandShutdown"

definition Shutdown_done :: "'u midware \<Rightarrow> 'u midware" where
  "Shutdown_done m = m\<lparr>mw_bReadyForShutdown := True\<rparr>"


section \<open>The callbacks satisfy the contract of the network library\<close>

text \<open>Every connection came from an acceptor that is bound to the server.\<close>

definition server_bound :: "'u snet \<Rightarrow> bool" where
  "server_bound s \<longleftrightarrow> (\<forall>a \<in> acceptors s. map_option a_server (accs s a) = Some SRV)"

lemma server_of_bound:
  assumes "server_bound s" "conns s p = Some c"
  shows "server_of p s = Some (app s)"
proof -
  have "c_acceptor c \<in> acceptors s" using assms(2) by (auto simp: acceptors_def)
  then show ?thesis using assms by (auto simp: server_bound_def server_of_def)
qed

lemma bound_frame [simp]:
  "server_bound (upd_mw f s) = server_bound s" "net_inv Q (upd_mw f s) = net_inv Q s"
  "conns (upd_mw f s) = conns s" "idle (upd_mw f s) = idle s"
  "server_bound (s\<lparr>tick := t\<rparr>) = server_bound s" "server_bound (s\<lparr>app := m\<rparr>) = server_bound s"
  by (simp_all add: upd_mw_def server_bound_def acceptors_def)

lemma CopyData_ok:
  assumes "unat iLen \<le> length buf"
  shows "\<exists>r. CopyData os iLen buf s = Some (r, s\<lparr>tick := Suc (tick s)\<rparr>) \<and>
    (malloc_ok os (tick s) \<longrightarrow> r = Some (take (unat iLen) buf)) \<and> (\<not> malloc_ok os (tick s) \<longrightarrow> r = None)"
  using assms by (auto simp: CopyData_def os_call_def)

interpretation eh: easy_handler "\<lambda>_. server_handler os" server_bound
proof
  show "server_bound s \<Longrightarrow> lib_step s s' \<Longrightarrow> server_bound s'" for s s' :: "'a snet"
    by (auto simp: server_bound_def lib_step_def)
next
  fix Q p c and s :: "'a snet" assume "net_inv Q s" "server_bound s" "conns s p = Some c"
  then show "\<exists>ok s'. OnConnection (server_handler os) p s = Some (ok, s') \<and> net_inv Q s' \<and> server_bound s' \<and> live s \<subseteq> live s'"
    by (auto simp: server_handler_def Server_OnConnection_def server_of_bound)
next
  fix Q p c n buf and s :: "'a snet" assume A: "net_inv Q s" "server_bound s" "conns s p = Some c"
    and n: "unat (n :: u32) \<le> MAX_BUFFER" "MAX_BUFFER \<le> length (buf :: byte list)"
  have "unat (ucast n :: u16) \<le> length buf" using n by (simp add: unat_ucast_down16)
  from CopyData_ok [OF this, of os s] A
  show "\<exists>s'. OnData (server_handler os) p n buf s = Some s' \<and> net_inv Q s' \<and> server_bound s' \<and> live s \<subseteq> live s'"
    by (auto simp: server_handler_def Server_OnData_def server_of_bound split: option.splits)
next
  fix Q p c and s :: "'a snet" assume "net_inv Q s" "server_bound s" "conns s p = Some c"
  then show "\<exists>s'. OnDisconnect (server_handler os) p s = Some s' \<and> net_inv Q s' \<and> server_bound s'"
    by (auto simp: server_handler_def Server_OnDisconnect_def server_of_bound)
next
  fix Q p c and s :: "'a snet" assume "net_inv Q s" "server_bound s" "conns s p = Some c" "idle s p"
  then show "\<exists>s'. OnConnectFailed (server_handler os) (c_client c) s = Some s' \<and> net_inv Q s' \<and> server_bound s' \<and> idle s' p"
    by (auto simp: server_handler_def Server_OnConnectFailed_def)
qed




section \<open>The command queue and the session map\<close>

lemma AsyncDisconnect_app: "AsyncDisconnect os p s = Some s' \<Longrightarrow> app s' = app s"
proof (cases "conns s p")
  case (Some c)
  then show "AsyncDisconnect os p s = Some s' \<Longrightarrow> app s' = app s"
    by (cases "ctxs s (c_context c)"; cases "c_connected c = 0")
      (auto simp: AsyncDisconnect_def InterlockedCompareExchange_def upd_conn_def upd_ctx_def post_io_simps split: if_splits)
qed (simp add: AsyncDisconnect_def)

lemma CloseConnection_app: "CloseConnection p s = Some s' \<Longrightarrow> app s' = app s"
  by (auto simp: CloseConnection_def DeleteConnection_def free_conn_def free_ctx_def closesocket_def bind_eq_Some_conv Let_def)

lemma CreateContext_app: "CreateContext os op s = Some (q, s') \<Longrightarrow> app s' = app s"
  by (auto simp: CreateContext_def malloc_ctx_def upd_ctx_def bind_eq_Some_conv Let_def split: if_splits)

lemma AsyncSend_app: "AsyncSend os p q s = Some s' \<Longrightarrow> app s' = app s"
  by (auto simp: AsyncSend_def upd_ctx_def free_ctx_def post_io_simps bind_eq_Some_conv Let_def
      dest!: AsyncDisconnect_app split: if_splits)

lemma AsyncRawSend_app: "AsyncRawSend os p n q s = Some s' \<Longrightarrow> app s' = app s"
  by (auto simp: AsyncRawSend_def upd_ctx_def bind_eq_Some_conv dest!: AsyncSend_app split: if_splits)

text \<open>The part of the middleware the commands share: the queue \<open>k\<close> with its semaphore, which no command touches, and the map, which
  has no key but 0.\<close>

definition loop_inv :: "LogicCommand list \<times> nat \<Rightarrow> 'u midware \<Rightarrow> bool" where
  "loop_inv k m \<longleftrightarrow> (mw_CommandList m, mw_semaphore m) = k \<and> dom (mw_mSessionMap m) \<subseteq> {0}"

lemma loop_inv_frame [simp]:
  "loop_inv k (m\<lparr>mw_sessions := x\<rparr>) = loop_inv k m" "loop_inv k (m\<lparr>mw_iSessionIdStart := i\<rparr>) = loop_inv k m"
  "loop_inv k (m\<lparr>mw_iShutdownStatus := t\<rparr>) = loop_inv k m" "loop_inv k (m\<lparr>mw_next := n\<rparr>) = loop_inv k m"
  "loop_inv k (m\<lparr>mw_dispatched := l, mw_user := u\<rparr>) = loop_inv k m"
  "loop_inv k (m\<lparr>mw_dwCurrTime := a, mw_dwDeltaTime := b\<rparr>) = loop_inv k m"
  by (simp_all add: loop_inv_def)

lemma loop_inv_session: "upd_session p f m = Some m' \<Longrightarrow> loop_inv k m' = loop_inv k m"
  by (auto simp: upd_session_def bind_eq_Some_conv)

lemma loop_inv_dispatch: "loop_inv k (fold (OnPacketReceived D sp) ps m) = loop_inv k m"
  by (induction ps arbitrary: m) (simp_all add: OnPacketReceived_def)

lemma OnConnect_loop_inv:
  assumes "OnCommandOnConnect c s = Some s'" "loop_inv k (app s)"
  shows "loop_inv k (app s')"
proof -
  have "x = 0" if "dom f \<subseteq> {0}" "map_insert 0 sp f x = Some y" for f :: "u32 \<rightharpoonup> ptr" and sp x y
    using that by (auto simp: map_insert_def split: if_splits)
  then show ?thesis using assms
    by (auto simp: OnCommandOnConnect_def CreateSession_def Session_OnConnection_def SetClientApp_def upd_conn_def
        bind_eq_Some_conv Let_def EasyBaseSession_new_def upd_session_def loop_inv_def)
qed

lemma Session_OnDisconnect_loop_inv:
  "Session_OnDisconnect sp s = Some s' \<Longrightarrow> loop_inv k (app s) \<Longrightarrow> loop_inv k (app s')"
  by (auto simp: Session_OnDisconnect_def bind_eq_Some_conv dest!: loop_inv_session CloseConnection_app split: if_splits)

lemma Session_Disconnect_loop_inv:
  "Session_Disconnect os sp s = Some s' \<Longrightarrow> loop_inv k (app s) \<Longrightarrow> loop_inv k (app s')"
  by (auto simp: Session_Disconnect_def bind_eq_Some_conv dest: Session_OnDisconnect_loop_inv dest!: AsyncDisconnect_app split: if_splits)

lemma OnDisconnect_loop_inv:
  assumes "OnCommandOnDisconnect c s = Some s'" "loop_inv k (app s)"
  shows "loop_inv k (app s')"
proof -
  have "loop_inv k (m\<lparr>mw_mSessionMap := (mw_mSessionMap m)(i := None)\<rparr>)" if "loop_inv k m" for m :: "'a midware" and i
    using that by (auto simp: loop_inv_def)
  then show ?thesis using assms
    by (auto simp: OnCommandOnDisconnect_def bind_eq_Some_conv upd_mw_def
        elim!: Session_OnDisconnect_loop_inv split: if_splits)
qed

lemma OnData_loop_inv:
  assumes "OnCommandOnData os D fuel c data s = Some (b, s')" "loop_inv k (app s)"
  shows "loop_inv k (app s')"
  using assms
  by (auto simp: OnCommandOnData_def Session_OnData_def bind_eq_Some_conv loop_inv_dispatch Let_def
      dest!: AsyncDisconnect_app split: if_splits)

lemma SendData_loop_inv:
  assumes "OnCommandSendData os i t data s = Some s'" "loop_inv k (app s)"
  shows "loop_inv k (app s')"
  using assms
  by (auto simp: OnCommandSendData_def Session_SendData_def bind_eq_Some_conv Let_def upd_ctx_def
      dest!: AsyncRawSend_app CreateContext_app split: if_splits)

lemma Shutdown_loop_inv:
  assumes "OnCommandShutdown os sps s = Some s'" "loop_inv k (app s)"
  shows "loop_inv k (app s')"
proof -
  have "disconnect_all os sps s = Some s' \<Longrightarrow> loop_inv k (app s) \<Longrightarrow> loop_inv k (app s')" for s :: "'a snet"
    by (induction sps arbitrary: s) (auto simp: bind_eq_Some_conv dest: Session_Disconnect_loop_inv)
  then show ?thesis using assms by (auto simp: OnCommandShutdown_def upd_mw_def)
qed

lemma OnCommand_loop_inv:
  "OnCommand os D fuel sps cmd s = Some (b, s') \<Longrightarrow> loop_inv k (app s) \<Longrightarrow> loop_inv k (app s')"
  by (cases cmd)
    (auto simp: OnCommand_def Let_def OnCommandDisconnect_def split: if_splits
      dest: OnConnect_loop_inv OnDisconnect_loop_inv OnData_loop_inv SendData_loop_inv Shutdown_loop_inv
        Session_Disconnect_loop_inv)


text \<open>
  Runs of the server as the loop sees them.  Other threads push a command: first they append it, then they release the semaphore.  The
  loop thread waits for the semaphore, then takes a command and handles it.  The network library works, and the loop thread goes through its logic
  loop.  \<open>r\<close> counts the threads between appending and releasing, \<open>f\<close> the releases that failed, \<open>w\<close> says whether the loop thread is between waiting
  and taking, \<open>ps\<close> are the commands appended and \<open>ts\<close> those taken, oldest first.
\<close>

inductive loop_run :: "os \<Rightarrow> 'u Dispatcher \<Rightarrow> nat \<Rightarrow> 'u snet \<Rightarrow> 'u snet \<Rightarrow> nat \<Rightarrow> nat \<Rightarrow> bool \<Rightarrow> LogicCommand list \<Rightarrow> LogicCommand list \<Rightarrow> bool"
    for os D fuel s where
  lr_refl: "mw_CommandList (app s) = [] \<Longrightarrow> mw_semaphore (app s) = 0 \<Longrightarrow> loop_run os D fuel s s 0 0 False [] []"
| lr_push: "loop_run os D fuel s s' r f w ps ts \<Longrightarrow> app s'' = PushCommand_list cmd (app s') \<Longrightarrow>
    loop_run os D fuel s s'' (Suc r) f w (ps @ [cmd]) ts"
| lr_release: "loop_run os D fuel s s' (Suc r) f w ps ts \<Longrightarrow> app s'' = PushCommand_release bRet (app s') \<Longrightarrow>
    loop_run os D fuel s s'' r (if bRet then f else Suc f) w ps ts"
| lr_wait: "loop_run os D fuel s s' r f False ps ts \<Longrightarrow> wait_semaphore (app s') = Some m \<Longrightarrow>
    loop_run os D fuel s (s'\<lparr>app := m\<rparr>) r f True ps ts"
| lr_command: "loop_run os D fuel s s' r f True ps ts \<Longrightarrow> pop_command (app s') = Some (cmd, m) \<Longrightarrow>
    OnCommand os D fuel sps cmd (s'\<lparr>app := m\<rparr>) = Some (b, s'') \<Longrightarrow> loop_run os D fuel s s'' r f False ps (ts @ [cmd])"
| lr_net: "loop_run os D fuel s s' r f w ps ts \<Longrightarrow> app s'' = app s' \<Longrightarrow> loop_run os D fuel s s'' r f w ps ts"
| lr_loop: "loop_run os D fuel s s' r f False ps ts \<Longrightarrow> loop_run os D fuel s (upd_mw (snd \<circ> Loop) s') r f False ps ts"

lemma loop_run_inv:
  "loop_run os D fuel s s' r f w ps ts \<Longrightarrow> dom (mw_mSessionMap (app s)) \<subseteq> {0} \<Longrightarrow>
    \<exists>l n. loop_inv (l, n) (app s') \<and> length l = n + r + f + of_bool w \<and> ps = ts @ l"
proof (induction rule: loop_run.induct)
  case (lr_command s' r f ps ts cmd m sps b s'')
  then obtain l n where l: "loop_inv (l, n) (app s')" "length l = n + r + f + 1" "ps = ts @ l" by auto
  then have "m = (app s')\<lparr>mw_CommandList := tl l\<rparr> \<and> l = cmd # tl l"
    using lr_command.hyps(2) by (auto simp: pop_command_def loop_inv_def split: list.splits)
  then have "loop_inv (tl l, n) m" "l = cmd # tl l" using l(1) by (simp_all add: loop_inv_def)
  then have "loop_inv (tl l, n) (app s'')" using OnCommand_loop_inv [OF lr_command.hyps(3)] by simp
  then show ?case using l \<open>l = cmd # tl l\<close> by (cases l) auto
next
  case (lr_wait s' r f ps ts m)
  then obtain l n where l: "loop_inv (l, n) (app s')" "length l = n + r + f" "ps = ts @ l" by auto
  moreover obtain n' where "n = Suc n'" "m = (app s')\<lparr>mw_semaphore := n'\<rparr>"
    using l(1) lr_wait.hyps(2) by (auto simp: wait_semaphore_def loop_inv_def split: nat.splits)
  ultimately show ?case by (intro exI [of _ l] exI [of _ n']) (simp add: loop_inv_def)
next
  case (lr_loop s' r f ps ts)
  then show ?case by (auto simp: upd_mw_def Loop_def ReadyForShutdown_def)
qed (auto simp: loop_inv_def PushCommand_list_def PushCommand_release_def wait_semaphore_def split: nat.splits if_splits)

text \<open>C5: The queue, with every interleaving of the two steps of a push, by any number of threads, and of waiting and taking by the loop
  thread, and with releases of the semaphore that may fail.  The list holds one command for each unit of the semaphore, for each push that
  has not released yet, for each release that failed and for a wait that has not taken yet; the commands taken and then those in the list
  are the commands pushed, in their order.  So after a wait the list is never empty, whatever other threads have done meanwhile: the thread takes the oldest
  command.  And when the semaphore is at zero and nobody is in between, the commands still in the list are as many as releases have failed: with none
  failed, every command has been taken.\<close>
theorem queue_consistent:
  assumes "loop_run os D fuel s s' r f w ps ts" "dom (mw_mSessionMap (app s)) \<subseteq> {0}"
  shows "length (mw_CommandList (app s')) = mw_semaphore (app s') + r + f + of_bool w \<and> ps = ts @ mw_CommandList (app s') \<and>
    (w \<longrightarrow> (\<exists>cmd m. pop_command (app s') = Some (cmd, m) \<and> ps = ts @ cmd # mw_CommandList m)) \<and>
    (mw_semaphore (app s') = 0 \<and> r = 0 \<and> f = 0 \<and> \<not> w \<longrightarrow> ts = ps)"
  using loop_run_inv [OF assms] by (auto simp: loop_inv_def pop_command_def split: list.splits)

text \<open>Sessions cannot be found by their id.  A session is put into the map before it has an id, so
  the map only ever has the key 0: in every reachable state, looking up any other id gives nothing,
  and the commands that send to a session or disconnect it do nothing at all.\<close>
theorem session_lookup_fails:
  assumes "loop_run os D fuel s s' r f w ps ts" "dom (mw_mSessionMap (app s)) \<subseteq> {0}" "iSessionId \<noteq> 0"
  shows "GetSession iSessionId (app s') = NULL \<and>
    OnCommandSendData os iSessionId iTypeId data s' = Some s' \<and> OnCommandDisconnect os iSessionId s' = Some s'"
proof -
  have "mw_mSessionMap (app s') iSessionId = None"
    using loop_run_inv [OF assms(1,2)] assms(3) by (auto simp: loop_inv_def)
  then show ?thesis by (simp add: GetSession_def OnCommandSendData_def OnCommandDisconnect_def)
qed

section \<open>The path of received data\<close>

text \<open>C29: Data path.  When bytes arrive on a live connection of a running server, the worker thread
  pushes exactly these bytes as one command behind those already waiting, and the receive is
  posted again or its context is freed; the network state stays well-formed.\<close>
theorem received_data_is_queued:
  assumes I: "net_inv {} s" "server_bound s" and q: "q \<in> set (pending s)" "ctxs s q = Some x"
    and x: "x_op x = OPERATION_RECV" "x_connection x \<in> live s"
    and data: "data \<noteq> []" "length data \<le> MAX_BUFFER"
    and srv: "mw_hasMainLoop (app s)" "\<not> mw_bReadyForShutdown (app s)" and m: "malloc_ok os' (tick s)"
  shows "\<exists>s'. handle_packet os (\<lambda>_. server_handler os') True data q s = Some s' \<and> net_inv {} s' \<and>
    app s' = PushCommand (LogicCommandOnData (x_connection x) data) (app s)"
proof -
  let ?p = "x_connection x" and ?n = "of_nat (length data) :: u32"
  obtain c where c: "conns s ?p = Some c" using x(2) by auto
  have io: "\<not> conn_ctx s q" "\<not> acc_ctx s q"
    using deliver_embedded(2) [OF I(1) _ q] x(1) by auto
  obtain s1 y where 1: "deliver data q s = Some s1" "net_inv {q} s1" "lib_step s s1" "conns s1 = conns s"
      "ctxs s1 q = Some y" "x_op y = OPERATION_RECV" "x_connection y = ?p" "take (length data) (x_buffer y) = data"
    using deliver_io [OF I(1) io q data(2)] x(1) by auto
  have t1: "tick s1 = tick s" using 1(1) q(2) x(1) by (auto simp: deliver_def bind_eq_Some_conv)
  have B1: "server_bound s1" by (rule eh.I_step [OF I(2) 1(3)])
  have n: "unat ?n = length data" "?n \<noteq> 0" "unat (ucast ?n :: u16) = length data"
    using data by (simp_all add: unat_of_nat_less unat_ucast_down16 unat_eq_0 [symmetric] del: unat_eq_0)
  have lb: "length data \<le> length (x_buffer y)" using held_ctx(1) [OF 1(2)] 1(5) data(2) by auto
  let ?s2 = "upd_mw (PushCommand (LogicCommandOnData ?p data)) (s1\<lparr>tick := Suc (tick s1)\<rparr>)"
  have app1: "app s1 = app s" using 1(3) by (simp add: lib_step_def)
  have od: "Server_OnData os' ?p ?n (x_buffer y) s1 = Some ?s2"
    using server_of_bound [OF B1, of ?p c] c 1(4,8) srv m t1 app1 n lb
    by (simp add: Server_OnData_def CopyData_def os_call_def)
  have I2: "net_inv {q} ?s2" "conns ?s2 ?p = Some c" using 1(2,4) c by simp_all
  obtain s3 where s3: "AsyncRecv os ?p q ?s2 = Some s3" "net_inv {} s3" "lib_step ?s2 s3"
    using AsyncRecv_ok [OF I2(1) _ I2(2), of os] by auto
  have "handle_packet os (\<lambda>_. server_handler os') True data q s = Some s3"
    using 1 c n od s3(1) by (simp add: handle_packet_def worker_iteration_def on_recv_def server_handler_def)
  moreover have "app s3 = PushCommand (LogicCommandOnData ?p data) (app s)"
    using s3(3) app1 by (simp add: lib_step_def upd_mw_def)
  ultimately show ?thesis using s3(2) by blast
qed


text \<open>SendData.  The packet is laid out in a fresh context exactly as a peer's reassembly expects it
  and handed to the kernel with its full length, or dropped with the connection being disconnected; but
  data that does not fit behind the header in the context's buffer is written past the buffer.\<close>
theorem SendData_outcome:
  assumes I: "net_inv {} s" and os: "os_good os" and ss: "mw_sessions (app s) sp = Some ss" "ss_pConnection ss \<in> live s"
    and len: "length data < 65536"
  shows "(Session_SendData os sp iTypeId (of_nat (length data)) data s = None \<longleftrightarrow>
      ADDR_BUFFER + MAX_BUFFER < PACKET_HEAD + length data) \<and>
    (\<forall>s'. Session_SendData os sp iTypeId (of_nat (length data)) data s = Some s' \<longrightarrow> net_inv {} s' \<and>
       (post_ok os (Suc (tick s)) \<longrightarrow> pending s' = pending s @ [next_ptr s] \<and>
         (\<exists>x. ctxs s' (next_ptr s) = Some x \<and> x_connection x = ss_pConnection ss \<and>
            take (unat (x_wsabuf_len x)) (x_buffer x) =
              encode \<lparr>pk_iTypeId = iTypeId, pk_iLen = of_nat (length data), pk_Buf = data\<rparr>)))"
proof -
  let ?q = "next_ptr s" and ?len = "of_nat (length data) :: u16"
  let ?h = "le16 iTypeId @ le16 ?len"
  have u: "unat ?len = length data" using len by (simp add: unat_of_nat_less)
  let ?x0 = "(junk_ctx os)\<lparr>x_buffer := replicate (ADDR_BUFFER + MAX_BUFFER) 0, x_op := OPERATION_SEND, x_wsabuf_buf := ?q\<rparr>"
  obtain s1 where 1: "CreateContext os OPERATION_SEND s = Some (?q, s1)" "net_inv {?q} s1" "lib_step s s1" "conns s1 = conns s"
    using CreateContext_ok [OF I os, of OPERATION_SEND] by auto
  have s1: "ctxs s1 ?q = Some ?x0" "pending s1 = pending s" "tick s1 = Suc (tick s)" "app s1 = app s"
    using 1(1) os by (auto simp: CreateContext_def malloc_ctx_def os_good_def Let_def upd_ctx_def)
  show ?thesis
  proof (cases "PACKET_HEAD + length data \<le> ADDR_BUFFER + MAX_BUFFER")
    case False
    then show ?thesis using 1(1) s1 u by (auto simp: Session_SendData_def memcpy_def mem_write_def)
  next
    case True
    let ?buf = "?h @ data @ drop (PACKET_HEAD + length data) (x_buffer ?x0)"
    let ?x1 = "?x0\<lparr>x_buffer := ?buf\<rparr>" and ?n = "ucast ?len + of_nat PACKET_HEAD :: u32"
    let ?s2 = "s1\<lparr>ctxs := (ctxs s1)(?q \<mapsto> ?x1)\<rparr>"
    have n: "unat ?n = PACKET_HEAD + length data"
      using u len by (subst unat_add_no_wrap) (simp_all only: unat_ucast_up32 len32, simp_all)
    have "length ?buf = length (x_buffer ?x0)" using True by simp
    then have I2: "net_inv {?q} ?s2" using net_inv_upd_held [OF 1(2) s1(1), of ?x1] by simp
    obtain c where c: "conns ?s2 (ss_pConnection ss) = Some c" using ss(2) 1(4) by auto
    have E: "Session_SendData os sp iTypeId ?len data s = AsyncRawSend os (ss_pConnection ss) ?n ?q ?s2"
      using 1(1) s1 ss(1) u True by (simp add: Session_SendData_def memcpy_Some upd_ctx_def)
    obtain s3 where s3: "AsyncRawSend os (ss_pConnection ss) ?n ?q ?s2 = Some s3" "net_inv {} s3"
      using AsyncRawSend_ok [OF I2 _ c, of ?x1 os ?n] by auto
    have "pending s3 = pending s @ [?q] \<and> ctxs s3 ?q = Some (?x1\<lparr>x_wsabuf_len := ?n, x_connection := ss_pConnection ss\<rparr>)"
      if "post_ok os (Suc (tick s))"
      using s3(1) c that s1 by (auto simp: AsyncRawSend_def AsyncSend_def upd_ctx_def post_io_simps)
    moreover have "take (unat ?n) ?buf = encode \<lparr>pk_iTypeId = iTypeId, pk_iLen = ?len, pk_Buf = data\<rparr>"
      using n by (simp add: encode_def)
    ultimately show ?thesis using E s3 True by auto
  qed
qed

lemma accept_unbound:
  assumes I: "net_inv {} s" and a: "accs s a = Some acc" "a_server acc = NULL" and q: "a_context acc \<in> set (pending s)"
    and os: "os_good os" "sockopt_ok os (tick s + 5)"
  shows "handle_packet os (\<lambda>_. server_handler os') True data (a_context acc) s = None"
proof -
  let ?q = "a_context acc" and ?s = "s\<lparr>pending := remove1 (a_context acc) (pending s)\<rparr>"
  obtain x where x: "ctxs s ?q = Some x" using net_invD(3) [OF I a(1)] by (auto simp: acc_ok_def)
  have qa: "conn_ctx s ?q \<or> acc_ctx s ?q" using a by (auto simp: acc_ctx_def)
  note A = accept_completed [OF I a(1) q x]
  obtain c where c: "conns s (x_connection x) = Some c" "c_acceptor c = a" using A(3) by auto
  have np: "?q \<notin> set (pending ?s)" using net_invD(4) [OF I] by (simp add: inv_io_def)
  have I': "net_inv {} ?s" by (rule net_inv_complete [OF I qa])
  obtain s1 where s1: "AcceptConnection os a ?s = Some s1"
      "\<forall>b. map_option a_server (accs s1 b) = map_option a_server (accs s b)" "conns s1 (x_connection x) = Some c"
    using AcceptConnection_ok [OF I' _ np server_create_good [OF os(1)], of a] a(1) c(1) by auto
  have tk: "tick s1 = tick s + 5"
    using AcceptConnection_eq [OF I' _ _ server_create_good [OF os(1)], of a acc x] a(1) x s1(1)
    by (auto simp: refused_def split: if_splits)
  have "map_option a_server (accs s1 a) = Some NULL" using s1(2) a by simp
  then have "Server_OnConnection (x_connection x) (s1\<lparr>tick := Suc (tick s1), conns := (conns s1)(x_connection x \<mapsto> c\<lparr>c_connected := 1\<rparr>)\<rparr>) = None"
    using c by (auto simp: Server_OnConnection_def server_of_def)
  then show ?thesis
    using deliver_embedded(1) [OF I qa q x] x A(2) c s1 tk os(2)
    by (simp add: handle_packet_def worker_iteration_def on_accept_def os_call_def upd_conn_def server_handler_def)
qed


text \<open>CreateAcceptor posts the first accept itself, before InitAcceptor has bound the server to the
  acceptor: when a client connects in between, the completion of the accept makes OnConnection use
  a NULL server.\<close>
theorem accept_before_bind:
  assumes I: "net_inv {} s" and w: "workers s w \<noteq> None" and os: "os_good os"
    and ok: "bind_ok os (tick s + 3)" "listen_ok os (tick s + 4)" "post_ok os (tick s + 9)" "sockopt_ok os (tick s + 15)"
  shows "\<exists>a s'. CreateAcceptor os w h s = Some (a, s') \<and> a \<noteq> NULL \<and> Suc a \<in> set (pending s') \<and>
    handle_packet os (\<lambda>_. server_handler os') True data (Suc a) s' = None"
proof -
  let ?a = "next_ptr s" and ?acc = "listener os w h s"
  obtain s' where s': "CreateAcceptor os w h s = Some (?a, s')" "net_inv {} s'" "tick s' = tick s + 10"
      "accs s' ?a = Some ?acc" "pending s' = pending s @ [Suc ?a]"
    using CreateAcceptor_ok [OF I w os ok(1,2), of h] ok(3) by auto
  have "handle_packet os (\<lambda>_. server_handler os') True data (a_context ?acc) s' = None"
    by (rule accept_unbound [OF s'(2,4) _ _ os]) (use s' ok in \<open>auto simp: listener_def add.commute\<close>)
  moreover have "0 < ?a" using net_invD(1) [OF I] by (simp add: inv_fresh_def)
  ultimately show ?thesis using s' by (auto simp: listener_def)
qed


section \<open>Examples\<close>

definition mw0 :: "unit midware" where
  "mw0 = \<lparr>mw_hasMainLoop = True, mw_bReadyForShutdown = False, mw_CommandList = [], mw_semaphore = 0, mw_bQuit = False,
     mw_dwCurrTime = 0, mw_dwDeltaTime = 0, mw_iShutdownStatus = NOT_SHUTDOWN, mw_mSessionMap = Map.empty,
     mw_sessions = [1 \<mapsto> (EasyBaseSession_new (replicate RECV_BUFFER 0))\<lparr>ss_pConnection := 4\<rparr>], mw_next = 2,
     mw_iSessionIdStart = 0, mw_dispatched = [], mw_user = ()\<rparr>"

definition D0 :: "unit Dispatcher" where
  "D0 = \<lparr>d_iFuncCount = 10, d_pFunc = (\<lambda>_ _ _ u. u)\<rparr>"

text \<open>A bound acceptor at 2 with its context at 3, a connection of it at 4 with its context at 5, and a
  receive outstanding with the context at 6.\<close>

definition snet_acc :: "unit snet" where
  "snet_acc = with_acc 2 ((junk_acc os0)\<lparr>a_worker := 1, a_context := 3, a_server := SRV\<rparr>) (listener_ctx os0) (net0 mw0)"

definition srecv_ctx :: EasyContext where
  "srecv_ctx = recv_ctx\<lparr>x_connection := 4\<rparr>"

definition snet_conn :: "unit snet" where
  "snet_conn = with_conn os0 3 1 2 snet_acc"

definition snet_recv :: "unit snet" where
  "snet_recv = snet_conn\<lparr>next_ptr := 7, ctxs := (ctxs snet_conn)(6 \<mapsto> srecv_ctx), pending := [6]\<rparr>"

lemmas snet_defs = snet_recv_def snet_conn_def snet_acc_def with_conn_def with_acc_def net0_def

lemma snet_inv: "net_inv {} snet_acc" "net_inv {} snet_conn" "net_inv {} snet_recv"
proof -
  show 1: "net_inv {} snet_acc"
    unfolding snet_acc_def
    by (rule net_inv_with_acc [OF net0_inv]) (simp_all add: net0_def listener_ctx_def)
  show 2: "net_inv {} snet_conn"
    unfolding snet_conn_def by (rule net_inv_with_conn [OF 1]) (simp add: snet_defs)
  have 6: "next_ptr snet_conn = 6" "pending snet_conn = []" by (simp_all add: snet_defs)
  have "net_inv {6} (snet_conn\<lparr>next_ptr := 7, ctxs := (ctxs snet_conn)(6 \<mapsto> srecv_ctx)\<rparr>)"
    using net_inv_new_held [OF 2, of srecv_ctx] by (simp add: 6 srecv_ctx_def recv_ctx_def)
  from net_inv_post_held [OF this, of srecv_ctx srecv_ctx] show "net_inv {} snet_recv"
    by (simp add: snet_recv_def 6)
qed

lemma snet_bound: "server_bound snet_recv" "server_bound snet_conn"
  by (auto simp: server_bound_def acceptors_def snet_defs fresh_conn_def split: if_splits)


theorem received_data_is_queued_witness:
  "\<exists>s. handle_packet os0 (\<lambda>_. server_handler os0) True [1, 2] 6 snet_recv = Some s \<and>
    mw_CommandList (app s) = [LogicCommandOnData 4 [1, 2]]"
  using received_data_is_queued [OF snet_inv(3) snet_bound(1), of 6 srecv_ctx "[1, 2]" os0 os0]
  by (auto simp: snet_defs srecv_ctx_def recv_ctx_def mw0_def os0_def PushCommand_def PushCommand_list_def PushCommand_release_def)

theorem SendData_outcome_witness:
  "\<exists>s. Session_SendData os0 1 9 2 [3, 4] snet_conn = Some s \<and> net_inv {} s"
proof -
  have "mw_sessions (app snet_conn) 1 = Some ((EasyBaseSession_new (replicate RECV_BUFFER 0))\<lparr>ss_pConnection := 4\<rparr>)"
    by (simp add: snet_defs mw0_def)
  from SendData_outcome [OF snet_inv(2) os0_good this, of "[3, 4]" 9] show ?thesis
    by (auto simp: snet_defs)
qed

theorem accept_before_bind_witness:
  "\<exists>a s'. CreateAcceptor os0 1 3 (net0 mw0) = Some (a, s') \<and>
    handle_packet os0 (\<lambda>_. server_handler os0) True [] (Suc a) s' = None"
  using accept_before_bind [OF net0_inv [of mw0], of 1 os0 3 os0 "[]"] by (auto simp: net0_def)

text \<open>One thread pushes and releases, a second one has pushed and not released; the loop thread takes the first command.\<close>

lemma run_one_connect:
  "\<exists>s'. loop_run os0 D0 2000 snet_conn s' 1 0 False [LogicCommandOnConnect 4, LogicCommandShutdown] [LogicCommandOnConnect 4] \<and>
     mw_mSessionMap (app s') 0 = Some 2 \<and> map_option ss_iSessionId (mw_sessions (app s') 2) = Some 1"
proof -
  let ?s1 = "upd_mw (PushCommand_list (LogicCommandOnConnect 4)) snet_conn"
  let ?s2 = "upd_mw (PushCommand_release True) ?s1"
  let ?s3 = "upd_mw (PushCommand_list LogicCommandShutdown) ?s2"
  have "mw_CommandList (app snet_conn) = []" "mw_semaphore (app snet_conn) = 0" by (simp_all add: snet_defs mw0_def)
  then have "loop_run os0 D0 2000 snet_conn snet_conn 0 0 False [] []" by (rule lr_refl)
  then have "loop_run os0 D0 2000 snet_conn ?s1 1 0 False [LogicCommandOnConnect 4] []"
    using lr_push by (fastforce simp: upd_mw_def)
  then have "loop_run os0 D0 2000 snet_conn ?s2 0 0 False [LogicCommandOnConnect 4] []"
    using lr_release [where bRet = True] by (fastforce simp: upd_mw_def)
  then have "loop_run os0 D0 2000 snet_conn ?s3 1 0 False [LogicCommandOnConnect 4, LogicCommandShutdown] []"
    using lr_push by (fastforce simp: upd_mw_def)
  then have "loop_run os0 D0 2000 snet_conn (?s3\<lparr>app := (app ?s3)\<lparr>mw_semaphore := 0\<rparr>\<rparr>) 1 0 True [LogicCommandOnConnect 4, LogicCommandShutdown] []"
    by (rule lr_wait) (simp add: wait_semaphore_def upd_mw_def PushCommand_list_def PushCommand_release_def snet_defs mw0_def)
  moreover have "\<exists>m s'. pop_command (app (?s3\<lparr>app := (app ?s3)\<lparr>mw_semaphore := 0\<rparr>\<rparr>)) = Some (LogicCommandOnConnect 4, m) \<and>
      OnCommand os0 D0 2000 [] (LogicCommandOnConnect 4) (?s3\<lparr>app := (app ?s3)\<lparr>mw_semaphore := 0\<rparr>, app := m\<rparr>) = Some (True, s') \<and>
      mw_mSessionMap (app s') 0 = Some 2 \<and> map_option ss_iSessionId (mw_sessions (app s') 2) = Some 1"
    by (simp add: pop_command_def upd_mw_def PushCommand_list_def PushCommand_release_def snet_defs mw0_def OnCommand_def Let_def
        OnCommandOnConnect_def CreateSession_def EasyBaseSession_new_def map_insert_def Session_OnConnection_def
        upd_session_def SetClientApp_def upd_conn_def)
  ultimately show ?thesis using lr_command by fastforce
qed

lemma snet_conn_map: "dom (mw_mSessionMap (app snet_conn)) \<subseteq> {0}"
  by (simp add: snet_defs mw0_def)

theorem queue_consistent_witness:
  "\<exists>s'. loop_run os0 D0 2000 snet_conn s' 1 0 False [LogicCommandOnConnect 4, LogicCommandShutdown] [LogicCommandOnConnect 4] \<and>
     mw_CommandList (app s') = [LogicCommandShutdown] \<and> mw_semaphore (app s') = 0"
proof -
  obtain s' where s': "loop_run os0 D0 2000 snet_conn s' 1 0 False [LogicCommandOnConnect 4, LogicCommandShutdown] [LogicCommandOnConnect 4]"
    using run_one_connect by blast
  have q: "mw_CommandList (app s') = [LogicCommandShutdown]" using queue_consistent [OF s' snet_conn_map] by simp
  then have "mw_semaphore (app s') = 0" using queue_consistent [OF s' snet_conn_map] by simp
  with q s' show ?thesis by blast
qed

theorem session_lookup_fails_witness:
  "\<exists>s' :: unit snet. map_option ss_iSessionId (mw_sessions (app s') 2) = Some 1 \<and> GetSession 1 (app s') = NULL"
proof -
  obtain s' where s': "loop_run os0 D0 2000 snet_conn s' 1 0 False [LogicCommandOnConnect 4, LogicCommandShutdown] [LogicCommandOnConnect 4]"
      "map_option ss_iSessionId (mw_sessions (app s') 2) = Some 1"
    using run_one_connect by blast
  have "GetSession 1 (app s') = NULL" using session_lookup_fails [OF s'(1) snet_conn_map, of 1 0 "[]"] by simp
  with s'(2) show ?thesis by (intro exI [of _ s'] conjI)
qed

end
