(* ===== verification/EasyNetV1.thy ===== *)
theory EasyNetV1
  imports EasyNet
begin

text \<open>
  The first version of the C network library, \<open>EasyNet/EasyNet/*.c\<close>.  It has no \<open>connected_\<close> flag in
  the connection and no \<open>running_\<close> flag in the acceptor, and it keeps the addresses of both ends in
  the connection.  Contexts, workers, the handler table and the Windows calls are those of
  \<open>EasyNet\<close>; the headers \<open>easy_context.h\<close>, \<open>easy_handler.h\<close> and \<open>easy_worker.h\<close> are the same files
  in both versions.

  Memory returned by the allocator is not initialised; the values that happen to be in a new object are
  taken from the same parameter as in \<open>EasyNet\<close>.  What is shown: the operations agree with the second
  version on every state in which the flag of the connection is set, and without the flag two
  disconnects of one connection end in a use after free.
\<close>

section \<open>Data\<close>

record EasyConnection1 =
  c1_socket :: nat
  c1_local_sockaddr :: ptr
  c1_remote_sockaddr :: ptr
  c1_handler :: nat
  c1_worker :: ptr
  c1_acceptor :: ptr
  c1_context :: ptr
  c1_client :: nat

record EasyAcceptor1 =
  a1_socket :: nat
  a1_handler :: nat
  a1_server :: nat
  a1_context :: ptr
  a1_worker :: ptr

record 'app net_v1 =
  tick1 :: nat
  next_ptr1 :: ptr
  next_sock1 :: nat
  socks1 :: "nat \<Rightarrow> bool"
  conns1 :: "ptr \<rightharpoonup> EasyConnection1"
  ctxs1 :: "ptr \<rightharpoonup> EasyContext"
  accs1 :: "ptr \<rightharpoonup> EasyAcceptor1"
  workers1 :: "ptr \<rightharpoonup> EasyWorker"
  pending1 :: "ptr list"
  app1 :: 'app

record 'app EasyHandler1 =
  OnConnection1 :: "ptr \<Rightarrow> 'app net_v1 \<Rightarrow> (bool \<times> 'app net_v1) option"
  OnDisconnect1 :: "ptr \<Rightarrow> 'app net_v1 \<Rightarrow> 'app net_v1 option"
  OnData1 :: "ptr \<Rightarrow> u32 \<Rightarrow> byte list \<Rightarrow> 'app net_v1 \<Rightarrow> 'app net_v1 option"
  OnConnectFailed1 :: "nat \<Rightarrow> 'app net_v1 \<Rightarrow> 'app net_v1 option"

section \<open>Windows calls and memory\<close>

definition os_call1 :: "(nat \<Rightarrow> bool) \<Rightarrow> 'app net_v1 \<Rightarrow> bool \<times> 'app net_v1" where
  "os_call1 f s = (f (tick1 s), s\<lparr>tick1 := Suc (tick1 s)\<rparr>)"

definition forget_conn :: "EasyConnection \<Rightarrow> EasyConnection1" where
  "forget_conn c = \<lparr>c1_socket = c_socket c, c1_local_sockaddr = NULL, c1_remote_sockaddr = NULL,
     c1_handler = c_handler c, c1_worker = c_worker c, c1_acceptor = c_acceptor c,
     c1_context = c_context c, c1_client = c_client c\<rparr>"

definition forget_acc :: "EasyAcceptor \<Rightarrow> EasyAcceptor1" where
  "forget_acc a = \<lparr>a1_socket = a_socket a, a1_handler = a_handler a, a1_server = a_server a,
     a1_context = a_context a, a1_worker = a_worker a\<rparr>"

definition malloc_conn1 :: "os \<Rightarrow> 'app net_v1 \<Rightarrow> ptr \<times> 'app net_v1" where
  "malloc_conn1 os s =
     (if malloc_ok os (tick1 s)
      then (next_ptr1 s, s\<lparr>tick1 := Suc (tick1 s), next_ptr1 := Suc (next_ptr1 s),
              conns1 := (conns1 s)(next_ptr1 s \<mapsto> forget_conn (junk_conn os))\<rparr>)
      else (NULL, s\<lparr>tick1 := Suc (tick1 s)\<rparr>))"

definition malloc_ctx1 :: "os \<Rightarrow> nat \<Rightarrow> 'app net_v1 \<Rightarrow> ptr \<times> 'app net_v1" where
  "malloc_ctx1 os n s =
     (if malloc_ok os (tick1 s)
      then (next_ptr1 s, s\<lparr>tick1 := Suc (tick1 s), next_ptr1 := Suc (next_ptr1 s),
              ctxs1 := (ctxs1 s)(next_ptr1 s \<mapsto> (junk_ctx os)\<lparr>x_buffer := replicate n 0\<rparr>)\<rparr>)
      else (NULL, s\<lparr>tick1 := Suc (tick1 s)\<rparr>))"

definition malloc_acc1 :: "os \<Rightarrow> 'app net_v1 \<Rightarrow> ptr \<times> 'app net_v1" where
  "malloc_acc1 os s =
     (if malloc_ok os (tick1 s)
      then (next_ptr1 s, s\<lparr>tick1 := Suc (tick1 s), next_ptr1 := Suc (Suc (next_ptr1 s)),
              accs1 := (accs1 s)(next_ptr1 s \<mapsto> forget_acc ((junk_acc os)\<lparr>a_context := Suc (next_ptr1 s)\<rparr>)),
              ctxs1 := (ctxs1 s)(Suc (next_ptr1 s) \<mapsto> (junk_ctx os)\<lparr>x_buffer := replicate ADDR_BUFFER 0\<rparr>)\<rparr>)
      else (NULL, s\<lparr>tick1 := Suc (tick1 s)\<rparr>))"

definition upd_conn1 :: "ptr \<Rightarrow> (EasyConnection1 \<Rightarrow> EasyConnection1) \<Rightarrow> 'app net_v1 \<Rightarrow> 'app net_v1 option" where
  "upd_conn1 p f s = do { c \<leftarrow> conns1 s p; Some (s\<lparr>conns1 := (conns1 s)(p \<mapsto> f c)\<rparr>) }"

definition upd_ctx1 :: "ptr \<Rightarrow> (EasyContext \<Rightarrow> EasyContext) \<Rightarrow> 'app net_v1 \<Rightarrow> 'app net_v1 option" where
  "upd_ctx1 q f s = do { x \<leftarrow> ctxs1 s q; Some (s\<lparr>ctxs1 := (ctxs1 s)(q \<mapsto> f x)\<rparr>) }"

definition upd_acc1 :: "ptr \<Rightarrow> (EasyAcceptor1 \<Rightarrow> EasyAcceptor1) \<Rightarrow> 'app net_v1 \<Rightarrow> 'app net_v1 option" where
  "upd_acc1 a f s = do { c \<leftarrow> accs1 s a; Some (s\<lparr>accs1 := (accs1 s)(a \<mapsto> f c)\<rparr>) }"

definition free_conn1 :: "ptr \<Rightarrow> 'app net_v1 \<Rightarrow> 'app net_v1 option" where
  "free_conn1 p s = do { c \<leftarrow> conns1 s p; Some (s\<lparr>conns1 := (conns1 s)(p := None)\<rparr>) }"

definition free_ctx1 :: "ptr \<Rightarrow> 'app net_v1 \<Rightarrow> 'app net_v1 option" where
  "free_ctx1 q s = do { x \<leftarrow> ctxs1 s q; Some (s\<lparr>ctxs1 := (ctxs1 s)(q := None)\<rparr>) }"

definition socket1 :: "os \<Rightarrow> 'app net_v1 \<Rightarrow> nat \<times> 'app net_v1" where
  "socket1 os s =
     (if socket_ok os (tick1 s)
      then (next_sock1 s, s\<lparr>tick1 := Suc (tick1 s), next_sock1 := Suc (next_sock1 s),
              socks1 := (socks1 s)(next_sock1 s := True)\<rparr>)
      else (INVALID_SOCKET, s\<lparr>tick1 := Suc (tick1 s)\<rparr>))"

definition closesocket1 :: "nat \<Rightarrow> 'app net_v1 \<Rightarrow> 'app net_v1" where
  "closesocket1 k s = s\<lparr>socks1 := (socks1 s)(k := False)\<rparr>"

definition post_io1 :: "os \<Rightarrow> ptr \<Rightarrow> 'app net_v1 \<Rightarrow> bool \<times> 'app net_v1" where
  "post_io1 os q s =
     (if post_ok os (tick1 s) then (True, s\<lparr>tick1 := Suc (tick1 s), pending1 := pending1 s @ [q]\<rparr>)
      else (False, s\<lparr>tick1 := Suc (tick1 s)\<rparr>))"

section \<open>easy_context.c\<close>

definition CreateContext1 :: "os \<Rightarrow> operation \<Rightarrow> 'app net_v1 \<Rightarrow> (ptr \<times> 'app net_v1) option" where
  "CreateContext1 os iOperationType s = do {
     let (q, s) = malloc_ctx1 os (ADDR_BUFFER + MAX_BUFFER) s;
     s \<leftarrow> upd_ctx1 q (\<lambda>x. x\<lparr>x_op := iOperationType, x_wsabuf_buf := q\<rparr>) s;
     Some (q, s)
   }"

section \<open>easy_connection.c\<close>

definition CreateConnection1 :: "os \<Rightarrow> nat \<Rightarrow> ptr \<Rightarrow> ptr \<Rightarrow> 'app net_v1 \<Rightarrow> (ptr \<times> 'app net_v1) option" where
  "CreateConnection1 os pHandler pWorker pAcceptor s = do {
     let (p, s) = malloc_conn1 os s;
     if p = NULL then Some (NULL, s) else do {
       let (k, s) = socket1 os s;
       s \<leftarrow> upd_conn1 p (\<lambda>c. c\<lparr>c1_socket := k\<rparr>) s;
       if k = INVALID_SOCKET then do { s \<leftarrow> free_conn1 p s; Some (NULL, s) } else do {
         w \<leftarrow> workers1 s pWorker;
         let (ok, s) = os_call1 (iocp_ok os) s;
         if \<not> ok then do {
           let s = closesocket1 k s;
           s \<leftarrow> free_conn1 p s;
           Some (NULL, s)
         } else do {
           let (q, s) = malloc_ctx1 os ADDR_BUFFER s;
           s \<leftarrow> upd_conn1 p (\<lambda>c. c\<lparr>c1_context := q\<rparr>) s;
           if q = NULL then do { s \<leftarrow> free_conn1 p s; Some (NULL, s) } else do {
             s \<leftarrow> upd_conn1 p (\<lambda>c. c\<lparr>c1_handler := pHandler, c1_worker := pWorker, c1_acceptor := pAcceptor\<rparr>) s;
             s \<leftarrow> upd_ctx1 q (\<lambda>x. x\<lparr>x_connection := p\<rparr>) s;
             s \<leftarrow> upd_conn1 p (\<lambda>c. c\<lparr>c1_local_sockaddr := NULL, c1_remote_sockaddr := NULL\<rparr>) s;
             if pAcceptor = NULL then do {
               let (ok, s) = os_call1 (bind_ok os) s;
               if ok then Some (p, s) else do { s \<leftarrow> free_conn1 p s; Some (NULL, s) }
             } else Some (p, s)
           }
         }
       }
     }
   }"

definition CloseConnection1 :: "ptr \<Rightarrow> 'app net_v1 \<Rightarrow> 'app net_v1 option" where
  "CloseConnection1 p s = do {
     c \<leftarrow> conns1 s p;
     let s = closesocket1 (c1_socket c) s;
     s \<leftarrow> free_ctx1 (c1_context c) s;
     free_conn1 p s
   }"

definition AsyncConnect1 :: "os \<Rightarrow> ptr \<Rightarrow> nat \<Rightarrow> 'app net_v1 \<Rightarrow> (bool \<times> 'app net_v1) option" where
  "AsyncConnect1 os p client s = do {
     s \<leftarrow> upd_conn1 p (\<lambda>c. c\<lparr>c1_client := client\<rparr>) s;
     c \<leftarrow> conns1 s p;
     s \<leftarrow> upd_ctx1 (c1_context c) (\<lambda>x. x\<lparr>x_op := OPERATION_CONNECT\<rparr>) s;
     Some (post_io1 os (c1_context c) s)
   }"

definition ConnectConnection1 :: "os \<Rightarrow> nat \<Rightarrow> ptr \<Rightarrow> nat \<Rightarrow> 'app net_v1 \<Rightarrow> (bool \<times> 'app net_v1) option" where
  "ConnectConnection1 os pHandler pWorker pClient s = do {
     (p, s) \<leftarrow> CreateConnection1 os pHandler pWorker NULL s;
     if p \<noteq> NULL then do {
       (ok, s) \<leftarrow> AsyncConnect1 os p pClient s;
       if ok then Some (True, s)
       else do { s \<leftarrow> CloseConnection1 p s; Some (False, s) }
     } else Some (False, s)
   }"

definition AsyncDisconnect1 :: "os \<Rightarrow> ptr \<Rightarrow> 'app net_v1 \<Rightarrow> 'app net_v1 option" where
  "AsyncDisconnect1 os p s = do {
     c \<leftarrow> conns1 s p;
     s \<leftarrow> upd_ctx1 (c1_context c) (\<lambda>x. x\<lparr>x_op := OPERATION_DISCONNECT\<rparr>) s;
     Some (snd (post_io1 os (c1_context c) s))
   }"

definition AsyncSend1 :: "os \<Rightarrow> ptr \<Rightarrow> ptr \<Rightarrow> 'app net_v1 \<Rightarrow> 'app net_v1 option" where
  "AsyncSend1 os p q s = do {
     s \<leftarrow> upd_ctx1 q (\<lambda>x. x\<lparr>x_connection := p\<rparr>) s;
     c \<leftarrow> conns1 s p;
     let (ok, s) = post_io1 os q s;
     if ok then Some s else do { s \<leftarrow> free_ctx1 q s; AsyncDisconnect1 os p s }
   }"

definition AsyncRecv1 :: "os \<Rightarrow> ptr \<Rightarrow> ptr \<Rightarrow> 'app net_v1 \<Rightarrow> 'app net_v1 option" where
  "AsyncRecv1 os p q s = do {
     s \<leftarrow> upd_ctx1 q (\<lambda>x. x\<lparr>x_connection := p, x_wsabuf_len := of_nat MAX_BUFFER\<rparr>) s;
     c \<leftarrow> conns1 s p;
     let (ok, s) = post_io1 os q s;
     if ok then Some s else do { s \<leftarrow> free_ctx1 q s; AsyncDisconnect1 os p s }
   }"

definition AsyncRawSend1 :: "os \<Rightarrow> ptr \<Rightarrow> u32 \<Rightarrow> ptr \<Rightarrow> 'app net_v1 \<Rightarrow> 'app net_v1 option" where
  "AsyncRawSend1 os p len q s = do {
     x \<leftarrow> ctxs1 s q;
     if x_op x \<noteq> OPERATION_SEND then Some s else do {
       s \<leftarrow> upd_ctx1 q (\<lambda>x. x\<lparr>x_wsabuf_len := len\<rparr>) s;
       AsyncSend1 os p q s
     }
   }"

section \<open>easy_acceptor.c\<close>

definition AcceptConnection1 :: "os \<Rightarrow> ptr \<Rightarrow> 'app net_v1 \<Rightarrow> 'app net_v1 option" where
  "AcceptConnection1 os a s = do {
     acc \<leftarrow> accs1 s a;
     (p, s) \<leftarrow> CreateConnection1 os (a1_handler acc) (a1_worker acc) a s;
     s \<leftarrow> upd_conn1 p (\<lambda>c. c\<lparr>c1_client := NULL\<rparr>) s;
     s \<leftarrow> upd_ctx1 (a1_context acc) (\<lambda>x. x\<lparr>x_connection := p\<rparr>) s;
     let (ok, s) = post_io1 os (a1_context acc) s;
     if ok then Some s else CloseConnection1 p s
   }"

definition CreateAcceptor1 :: "os \<Rightarrow> ptr \<Rightarrow> nat \<Rightarrow> 'app net_v1 \<Rightarrow> (ptr \<times> 'app net_v1) option" where
  "CreateAcceptor1 os pWorker pHandler s = do {
     let (a, s) = malloc_acc1 os s;
     if a = NULL then Some (NULL, s) else do {
       let (k, s) = socket1 os s;
       s \<leftarrow> upd_acc1 a (\<lambda>c. c\<lparr>a1_socket := k\<rparr>) s;
       if k = INVALID_SOCKET then Some (NULL, s) else do {
         acc \<leftarrow> accs1 s a;
         s \<leftarrow> upd_ctx1 (a1_context acc) (\<lambda>x. x\<lparr>x_op := OPERATION_ACCEPT\<rparr>) s;
         w \<leftarrow> workers1 s pWorker;
         let (ok, s) = os_call1 (iocp_ok os) s;
         if \<not> ok then Some (NULL, s) else do {
           let (ok, s) = os_call1 (bind_ok os) s;
           if \<not> ok then Some (NULL, s) else do {
             let (ok, s) = os_call1 (listen_ok os) s;
             if \<not> ok then Some (NULL, s) else do {
               s \<leftarrow> upd_acc1 a (\<lambda>c. c\<lparr>a1_worker := pWorker, a1_handler := pHandler, a1_server := NULL\<rparr>) s;
               s \<leftarrow> AcceptConnection1 os a s;
               Some (a, s)
             }
           }
         }
       }
     }
   }"

definition DestroyAcceptor1 :: "ptr \<Rightarrow> 'app net_v1 \<Rightarrow> 'app net_v1 option" where
  "DestroyAcceptor1 a s = do {
     acc \<leftarrow> accs1 s a;
     let s = (if a1_socket acc \<noteq> INVALID_SOCKET then closesocket1 (a1_socket acc) s else s);
     s \<leftarrow> free_ctx1 (a1_context acc) s;
     Some (s\<lparr>accs1 := (accs1 s)(a := None)\<rparr>)
   }"

section \<open>easy_worker.c\<close>

definition deliver1 :: "byte list \<Rightarrow> ptr \<Rightarrow> 'app net_v1 \<Rightarrow> 'app net_v1 option" where
  "deliver1 data q s = do {
     x \<leftarrow> ctxs1 s q;
     buf \<leftarrow> (if x_op x = OPERATION_RECV then mem_write (x_buffer x) 0 data else Some (x_buffer x));
     Some (s\<lparr>pending1 := remove1 q (pending1 s), ctxs1 := (ctxs1 s)(q \<mapsto> x\<lparr>x_buffer := buf\<rparr>)\<rparr>)
   }"

definition after_OnConnection1 :: "os \<Rightarrow> ptr \<Rightarrow> bool \<Rightarrow> 'app net_v1 \<Rightarrow> 'app net_v1 option" where
  "after_OnConnection1 os p accepted s =
     (if accepted then do { (q, s) \<leftarrow> CreateContext1 os OPERATION_RECV s; AsyncRecv1 os p q s }
      else AsyncDisconnect1 os p s)"

text \<open>\<open>getacceptexsockaddrs_\<close> points both addresses into the buffer of the acceptor's context, which is the next
  accept's buffer as well; a pointer into that buffer is the pointer to the context.\<close>

definition on_accept1 :: "os \<Rightarrow> (nat \<Rightarrow> 'app EasyHandler1) \<Rightarrow> bool \<Rightarrow> ptr \<Rightarrow> 'app net_v1 \<Rightarrow> 'app net_v1 option" where
  "on_accept1 os H bResult p s = do {
     c \<leftarrow> conns1 s p;
     if bResult then do {
       acc \<leftarrow> accs1 s (c1_acceptor c);
       s \<leftarrow> upd_conn1 p (\<lambda>c. c\<lparr>c1_local_sockaddr := a1_context acc, c1_remote_sockaddr := a1_context acc\<rparr>) s;
       s \<leftarrow> AcceptConnection1 os (c1_acceptor c) s;
       let (rc, s) = os_call1 (sockopt_ok os) s;
       if rc then do {
         c \<leftarrow> conns1 s p;
         (ok, s) \<leftarrow> OnConnection1 (H (c1_handler c)) p s;
         after_OnConnection1 os p ok s
       } else Some s
     } else Some s
   }"

definition on_connect1 :: "os \<Rightarrow> (nat \<Rightarrow> 'app EasyHandler1) \<Rightarrow> bool \<Rightarrow> ptr \<Rightarrow> 'app net_v1 \<Rightarrow> 'app net_v1 option" where
  "on_connect1 os H bResult p s =
     (if bResult then do {
        let (rc, s) = os_call1 (sockopt_ok os) s;
        if rc then do {
          c \<leftarrow> conns1 s p;
          (ok, s) \<leftarrow> OnConnection1 (H (c1_handler c)) p s;
          after_OnConnection1 os p ok s
        } else Some s
      } else do {
        c \<leftarrow> conns1 s p;
        s \<leftarrow> OnConnectFailed1 (H (c1_handler c)) (c1_client c) s;
        CloseConnection1 p s
      })"

definition on_disconnect1 :: "(nat \<Rightarrow> 'app EasyHandler1) \<Rightarrow> ptr \<Rightarrow> 'app net_v1 \<Rightarrow> 'app net_v1 option" where
  "on_disconnect1 H p s = do { c \<leftarrow> conns1 s p; OnDisconnect1 (H (c1_handler c)) p s }"

definition on_recv1 :: "os \<Rightarrow> (nat \<Rightarrow> 'app EasyHandler1) \<Rightarrow> u32 \<Rightarrow> ptr \<Rightarrow> ptr \<Rightarrow> 'app net_v1 \<Rightarrow> 'app net_v1 option" where
  "on_recv1 os H dwNumRead q p s =
     (if dwNumRead = 0 then do { s \<leftarrow> free_ctx1 q s; AsyncDisconnect1 os p s }
      else do {
        c \<leftarrow> conns1 s p;
        x \<leftarrow> ctxs1 s q;
        s \<leftarrow> OnData1 (H (c1_handler c)) p dwNumRead (x_buffer x) s;
        AsyncRecv1 os p q s
      })"

definition handle_packet1 ::
  "os \<Rightarrow> (nat \<Rightarrow> 'app EasyHandler1) \<Rightarrow> bool \<Rightarrow> byte list \<Rightarrow> ptr \<Rightarrow> 'app net_v1 \<Rightarrow> 'app net_v1 option" where
  "handle_packet1 os H bResult data q s = do {
     s \<leftarrow> deliver1 data q s;
     x \<leftarrow> ctxs1 s q;
     (case x_op x of
        OPERATION_ACCEPT \<Rightarrow> on_accept1 os H bResult (x_connection x) s
      | OPERATION_CONNECT \<Rightarrow> on_connect1 os H bResult (x_connection x) s
      | OPERATION_DISCONNECT \<Rightarrow> on_disconnect1 H (x_connection x) s
      | OPERATION_RECV \<Rightarrow> on_recv1 os H (of_nat (length data)) q (x_connection x) s
      | OPERATION_SEND \<Rightarrow> free_ctx1 q s
      | INVALID_OPERATION \<Rightarrow> Some s)
   }"

fun EasyWorkerThread1 ::
  "os \<Rightarrow> (nat \<Rightarrow> 'app EasyHandler1) \<Rightarrow> ptr \<Rightarrow> packet list \<Rightarrow> 'app net_v1 \<Rightarrow> (bool \<times> packet list \<times> 'app net_v1) option" where
  "EasyWorkerThread1 os H w [] s = Some (False, [], s)"
| "EasyWorkerThread1 os H w (NoOverlapped # ps) s = do {
     k \<leftarrow> workers1 s w;
     Some (True, ps, s\<lparr>workers1 := (workers1 s)(w \<mapsto> k\<lparr>w_thread_count := w_thread_count k - 1, w_threads := w_threads k - 1\<rparr>)\<rparr>)
   }"
| "EasyWorkerThread1 os H w (Packet bResult data q # ps) s = do {
     s \<leftarrow> handle_packet1 os H bResult data q s;
     EasyWorkerThread1 os H w ps s
   }"

function start_threads1 :: "(nat \<Rightarrow> bool) \<Rightarrow> u32 \<Rightarrow> u32 \<Rightarrow> nat \<Rightarrow> u32 \<times> nat" where
  "start_threads1 ok iCount thread_count running =
     (if thread_count < iCount then start_threads1 ok iCount (thread_count + 1) (if ok (unat thread_count) then Suc running else running)
      else (thread_count, running))"
  by pat_completeness auto
termination
  by (relation "measure (\<lambda>(f, n, k, r). unat n - unat k)") (auto simp: unat_succ_less, auto simp: word_less_nat_alt)

declare start_threads1.simps [simp del]

definition CreateWorker1 :: "os \<Rightarrow> u32 \<Rightarrow> 'app net_v1 \<Rightarrow> ptr \<times> 'app net_v1" where
  "CreateWorker1 os iCount s =
     (if malloc_ok os (tick1 s)
      then (let (count, running) = start_threads1 (\<lambda>i. thread_ok os (tick1 s + 2 + i)) iCount 0 0 in
        (next_ptr1 s, s\<lparr>tick1 := tick1 s + 2 + unat count, next_ptr1 := Suc (next_ptr1 s),
              workers1 := (workers1 s)(next_ptr1 s \<mapsto>
                \<lparr>w_iocp = iocp_ok os (Suc (tick1 s)), w_thread_count = count, w_threads = running\<rparr>)\<rparr>))
      else (NULL, s\<lparr>tick1 := Suc (tick1 s)\<rparr>))"

text \<open>The wait is the same loop as in \<open>EasyNet\<close>.\<close>

definition DestroyWorker1 :: "(bool \<times> nat) list \<Rightarrow> ptr \<Rightarrow> 'app net_v1 \<Rightarrow> 'app net_v1 option" where
  "DestroyWorker1 rs w s = do {
     k \<leftarrow> workers1 s w;
     posted \<leftarrow> DestroyWorker_wait (w_iocp k) rs (w_thread_count k) (w_threads k) 0 0;
     Some (s\<lparr>workers1 := (workers1 s)(w := None)\<rparr>)
   }"

section \<open>easy_net.c\<close>

definition InitNet1 :: "bool \<Rightarrow> bool \<Rightarrow> winsock \<Rightarrow> int \<times> winsock" where
  "InitNet1 startup_ok sock_ok n =
     (if \<not> startup_ok then (-1, n)
      else (let n = n\<lparr>wsa_count := Suc (wsa_count n)\<rparr> in
        if \<not> sock_ok then (-2, n)
        else (let n = n\<lparr>wsa_open := Suc (wsa_open n)\<rparr>;
                  n = n\<lparr>wsa_loaded := True\<rparr>;
                  n = n\<lparr>wsa_open := wsa_open n - 1\<rparr> in (0, n))))"

definition DestroyNet1 :: "winsock \<Rightarrow> winsock" where
  "DestroyNet1 n = n\<lparr>wsa_count := wsa_count n - 1\<rparr>"

section \<open>The two versions compared\<close>

definition forget :: "'app net \<Rightarrow> 'app net_v1" where
  "forget s = \<lparr>tick1 = tick s, next_ptr1 = next_ptr s, next_sock1 = next_sock s, socks1 = socks s,
     conns1 = map_option forget_conn \<circ> conns s, ctxs1 = ctxs s, accs1 = map_option forget_acc \<circ> accs s,
     workers1 = workers s, pending1 = pending s, app1 = app s\<rparr>"

named_theorems forget_simps

lemma forget_sel [forget_simps]:
  "tick1 (forget s) = tick s" "next_ptr1 (forget s) = next_ptr s" "next_sock1 (forget s) = next_sock s"
  "socks1 (forget s) = socks s" "conns1 (forget s) p = map_option forget_conn (conns s p)" "ctxs1 (forget s) = ctxs s"
  "accs1 (forget s) a = map_option forget_acc (accs s a)" "workers1 (forget s) = workers s" "pending1 (forget s) = pending s"
  by (simp_all add: forget_def)

lemma forget_conn_sel [forget_simps]:
  "c1_socket (forget_conn c) = c_socket c" "c1_acceptor (forget_conn c) = c_acceptor c" "c1_context (forget_conn c) = c_context c"
  "c1_handler (forget_conn c) = c_handler c" "c1_client (forget_conn c) = c_client c"
  by (simp_all add: forget_conn_def)

lemma forget_acc_sel [forget_simps]:
  "a1_socket (forget_acc a) = a_socket a" "a1_handler (forget_acc a) = a_handler a" "a1_context (forget_acc a) = a_context a"
  "a1_worker (forget_acc a) = a_worker a"
  by (simp_all add: forget_acc_def)

lemma comp_upd: "map_option f \<circ> m(p \<mapsto> v) = (map_option f \<circ> m)(p \<mapsto> f v)" "map_option f \<circ> m(p := None) = (map_option f \<circ> m)(p := None)"
  by (auto simp: fun_eq_iff)

lemma forget_prims [forget_simps]:
  "os_call1 f (forget s) = map_prod id forget (os_call f s)"
  "malloc_conn1 os (forget s) = map_prod id forget (malloc_conn os s)"
  "malloc_ctx1 os n (forget s) = map_prod id forget (malloc_ctx os n s)"
  "malloc_acc1 os (forget s) = map_prod id forget (malloc_acc os s)"
  "socket1 os (forget s) = map_prod id forget (socket os s)"
  "closesocket1 k (forget s) = forget (closesocket k s)"
  "post_io1 os q (forget s) = map_prod id forget (post_io os q s)"
  "free_conn1 p (forget s) = map_option forget (free_conn p s)"
  "free_ctx1 q (forget s) = map_option forget (free_ctx q s)"
  "upd_ctx1 q g (forget s) = map_option forget (upd_ctx q g s)"
  by (simp_all add: forget_def os_call1_def os_call_def malloc_conn1_def malloc_conn_def malloc_ctx1_def malloc_ctx_def
      malloc_acc1_def malloc_acc_def socket1_def socket_def closesocket1_def closesocket_def post_io1_def post_io_def
      free_conn1_def free_conn_def free_ctx1_def free_ctx_def upd_ctx1_def upd_ctx_def comp_upd
      split: option.splits bind_split)

lemma forget_upd_conn:
  "(\<And>c. f1 (forget_conn c) = forget_conn (f c)) \<Longrightarrow> upd_conn1 p f1 (forget s) = map_option forget (upd_conn p f s)"
  by (cases "conns s p") (simp_all add: upd_conn1_def upd_conn_def forget_def comp_upd)

lemma forget_upd_acc:
  "(\<And>c. f1 (forget_acc c) = forget_acc (f c)) \<Longrightarrow> upd_acc1 p f1 (forget s) = map_option forget (upd_acc p f s)"
  by (cases "accs s p") (simp_all add: upd_acc1_def upd_acc_def forget_def comp_upd)

lemma map_bind [forget_simps]: "Option.bind (map_option f m) g = Option.bind m (\<lambda>x. g (f x))"
  by (cases m) simp_all

lemma bind_map [forget_simps]: "map_option f (Option.bind m h) = Option.bind m (\<lambda>x. map_option f (h x))"
  by (cases m) simp_all

lemma case_map_prod [forget_simps]: "(case map_prod f g r of (a, b) \<Rightarrow> h a b) = (case r of (a, b) \<Rightarrow> h (f a) (g b))"
  by (cases r) simp

lemma map_option_if [forget_simps]: "map_option f (if b then x else y) = (if b then map_option f x else map_option f y)"
  by simp

lemma map_option_case [forget_simps]: "map_option f (case r of (a, b) \<Rightarrow> h a b) = (case r of (a, b) \<Rightarrow> map_option f (h a b))"
  by (cases r) simp

lemma forget_upds [forget_simps]:
  "upd_conn1 p (\<lambda>c. c\<lparr>c1_socket := k\<rparr>) (forget s) = map_option forget (upd_conn p (\<lambda>c. c\<lparr>c_socket := k\<rparr>) s)"
  "upd_conn1 p (\<lambda>c. c\<lparr>c1_context := k\<rparr>) (forget s) = map_option forget (upd_conn p (\<lambda>c. c\<lparr>c_context := k\<rparr>) s)"
  "upd_conn1 p (\<lambda>c. c\<lparr>c1_client := k\<rparr>) (forget s) = map_option forget (upd_conn p (\<lambda>c. c\<lparr>c_client := k\<rparr>) s)"
  "upd_conn1 p (\<lambda>c. c\<lparr>c1_handler := h, c1_worker := w, c1_acceptor := a\<rparr>) (forget s) =
     map_option forget (upd_conn p (\<lambda>c. c\<lparr>c_handler := h, c_worker := w, c_acceptor := a\<rparr>) s)"
  "upd_conn1 p (\<lambda>c. c\<lparr>c1_local_sockaddr := NULL, c1_remote_sockaddr := NULL\<rparr>) (forget s) =
     map_option forget (upd_conn p (\<lambda>c. c\<lparr>c_connected := 0\<rparr>) s)"
  "upd_acc1 p (\<lambda>c. c\<lparr>a1_socket := k\<rparr>) (forget s) = map_option forget (upd_acc p (\<lambda>c. c\<lparr>a_socket := k\<rparr>) s)"
  "upd_acc1 p (\<lambda>c. c\<lparr>a1_worker := w, a1_handler := h, a1_server := k\<rparr>) (forget s) =
     map_option forget (upd_acc p (\<lambda>c. c\<lparr>a_worker := w, a_handler := h, a_server := k\<rparr>) s)"
  by (intro forget_upd_conn forget_upd_acc; simp add: forget_conn_def forget_acc_def)+

lemmas forget_congs = if_cong prod.case_cong option.case_cong

lemma forget_CreateContext [forget_simps]:
  "CreateContext1 os op0 (forget s) = map_option (map_prod id forget) (CreateContext os op0 s)"
  by (simp add: CreateContext1_def CreateContext_def Let_def forget_simps cong: forget_congs)

lemma forget_CreateConnection [forget_simps]:
  "CreateConnection1 os h w a (forget s) = map_option (map_prod id forget) (CreateConnection os h w a s)"
  by (simp add: CreateConnection1_def CreateConnection_def Let_def forget_simps cong: forget_congs)

lemma forget_CloseConnection [forget_simps]:
  "CloseConnection1 p (forget s) = map_option forget (CloseConnection p s)"
  by (simp add: CloseConnection1_def CloseConnection_def DeleteConnection_def forget_simps Let_def cong: forget_congs)

lemma forget_AsyncConnect [forget_simps]:
  "AsyncConnect1 os p k (forget s) = map_option (map_prod id forget) (AsyncConnect os p k s)"
  by (simp add: AsyncConnect1_def AsyncConnect_def forget_simps cong: forget_congs)

lemma forget_ConnectConnection:
  "ConnectConnection1 os h w k (forget s) = map_option (map_prod id forget) (ConnectConnection os h w k s)"
  by (simp add: ConnectConnection1_def ConnectConnection_def CloseConnection_def [symmetric] forget_simps cong: forget_congs)

lemma forget_upd_running: "map_option forget (upd_acc a (\<lambda>c. c\<lparr>a_running := k\<rparr>) s) = (case accs s a of None \<Rightarrow> None | Some c \<Rightarrow> Some (forget s))"
  by (auto simp: upd_acc_def forget_def fun_eq_iff forget_acc_def split: option.splits)

lemma accs_prims:
  "upd_conn p f s = Some s1 \<Longrightarrow> accs s1 = accs s" "upd_ctx q g s = Some s2 \<Longrightarrow> accs s2 = accs s"
  "free_conn p s = Some s3 \<Longrightarrow> accs s3 = accs s" "free_ctx q s = Some s4 \<Longrightarrow> accs s4 = accs s"
  "accs (snd (os_call h s)) = accs s" "accs (snd (malloc_conn os s)) = accs s" "accs (snd (malloc_ctx os n s)) = accs s"
  "accs (snd (socket os s)) = accs s" "accs (closesocket k s) = accs s" "accs (snd (post_io os q s)) = accs s"
  by (auto simp: upd_conn_def upd_ctx_def free_conn_def free_ctx_def os_call_def malloc_conn_def malloc_ctx_def socket_def
      closesocket_def post_io_def bind_eq_Some_conv)

lemma accs_snd: "os_call h s = (b, s') \<Longrightarrow> accs s' = accs s" "malloc_conn os s = (p, s') \<Longrightarrow> accs s' = accs s"
  "malloc_ctx os n s = (p, s') \<Longrightarrow> accs s' = accs s" "socket os s = (p, s') \<Longrightarrow> accs s' = accs s"
  "post_io os q s = (b, s') \<Longrightarrow> accs s' = accs s"
  by (metis accs_prims snd_conv)+

lemma accs_CloseConnection: "CloseConnection p s = Some s' \<Longrightarrow> accs s' = accs s"
  by (auto simp: CloseConnection_def DeleteConnection_def Let_def bind_eq_Some_conv accs_prims dest!: accs_prims(3,4))

lemma if_SomeE: "(if b then x else y) = Some z \<Longrightarrow> (b \<Longrightarrow> x = Some z \<Longrightarrow> R) \<Longrightarrow> (\<not> b \<Longrightarrow> y = Some z \<Longrightarrow> R) \<Longrightarrow> R"
  by (simp split: if_splits)

lemma bind_accsE:
  "Option.bind (upd_conn p f s) g = Some z \<Longrightarrow> (\<And>s'. accs s' = accs s \<Longrightarrow> g s' = Some z \<Longrightarrow> R) \<Longrightarrow> R"
  "Option.bind (upd_ctx p h s) g = Some z \<Longrightarrow> (\<And>s'. accs s' = accs s \<Longrightarrow> g s' = Some z \<Longrightarrow> R) \<Longrightarrow> R"
  "Option.bind (free_conn p s) g = Some z \<Longrightarrow> (\<And>s'. accs s' = accs s \<Longrightarrow> g s' = Some z \<Longrightarrow> R) \<Longrightarrow> R"
  by (auto simp: bind_eq_Some_conv dest: accs_prims(1-3))

lemma bind_workersE: "Option.bind (workers s w) k = Some z \<Longrightarrow> (\<And>x. k x = Some z \<Longrightarrow> R) \<Longrightarrow> R"
  by (auto simp: bind_eq_Some_conv)

lemma case_accsE:
  "(case os_call h s of (b, s') \<Rightarrow> k b s') = Some z \<Longrightarrow> (\<And>b s'. accs s' = accs s \<Longrightarrow> k b s' = Some z \<Longrightarrow> R) \<Longrightarrow> R"
  "(case malloc_conn os s of (b, s') \<Rightarrow> l b s') = Some z \<Longrightarrow> (\<And>b s'. accs s' = accs s \<Longrightarrow> l b s' = Some z \<Longrightarrow> R) \<Longrightarrow> R"
  "(case malloc_ctx os n s of (b, s') \<Rightarrow> l b s') = Some z \<Longrightarrow> (\<And>b s'. accs s' = accs s \<Longrightarrow> l b s' = Some z \<Longrightarrow> R) \<Longrightarrow> R"
  "(case socket os s of (b, s') \<Rightarrow> l b s') = Some z \<Longrightarrow> (\<And>b s'. accs s' = accs s \<Longrightarrow> l b s' = Some z \<Longrightarrow> R) \<Longrightarrow> R"
  by (auto split: prod.splits dest: accs_snd)

lemmas accs_elims = if_SomeE bind_accsE bind_workersE case_accsE

lemma accs_CreateConnection: "CreateConnection os h w a s = Some (p, s') \<Longrightarrow> accs s' = accs s"
  unfolding CreateConnection_def Let_def
  by (elim accs_elims; simp only: prod.inject option.inject; (elim conjE)?; simp add: accs_prims(9))

lemma forget_AcceptConnection:
  "AcceptConnection1 os a (forget s) = map_option forget (AcceptConnection os a s)"
proof (cases "accs s a")
  case None
  then show ?thesis by (simp add: AcceptConnection1_def AcceptConnection_def forget_simps)
next
  case (Some acc)
  have tail: "CloseConnection p s' \<bind> (\<lambda>x. map_option forget (upd_acc a (\<lambda>c. c\<lparr>a_running := 0\<rparr>) x)) = map_option forget (CloseConnection p s')"
    if "accs s' = accs s" for p s'
    using that Some accs_CloseConnection [of p s']
    by (cases "CloseConnection p s'") (simp_all add: forget_upd_running)
  have run: "(case post_io os q s2 of (ok, s) \<Rightarrow> if ok then Some (forget s) else map_option forget (CloseConnection p s)) =
      (case post_io os q s2 of (ok, s) \<Rightarrow> if ok then Some (forget s)
        else CloseConnection p s \<bind> (\<lambda>x. map_option forget (upd_acc a (\<lambda>c. c\<lparr>a_running := 0\<rparr>) x)))"
    if "accs s2 = accs s" for p q s2
    using that accs_snd(5) [of os q s2] tail by (cases "post_io os q s2") (simp add: tail)
  have "AcceptConnection1 os a (forget s) = CreateConnection os (a_handler acc) (a_worker acc) a s \<bind> (\<lambda>(p, s).
      upd_conn p (\<lambda>c. c\<lparr>c_client := NULL\<rparr>) s \<bind> (\<lambda>s. upd_ctx (a_context acc) (\<lambda>x. x\<lparr>x_connection := p\<rparr>) s \<bind> (\<lambda>s.
      case post_io os (a_context acc) s of (ok, s) \<Rightarrow> if ok then Some (forget s) else map_option forget (CloseConnection p s))))"
    using Some by (simp add: AcceptConnection1_def forget_simps cong: forget_congs)
  also have "\<dots> = map_option forget (AcceptConnection os a s)"
    using Some
    by (auto simp: AcceptConnection_def forget_simps run accs_CreateConnection accs_prims(1,2)
        intro!: Option.bind_cong cong: forget_congs)
  finally show ?thesis .
qed

lemma forget_AsyncDisconnect:
  assumes "\<forall>c. conns s p = Some c \<longrightarrow> c_connected c = 1"
  shows "AsyncDisconnect1 os p (forget s) = map_option forget (AsyncDisconnect os p s)"
proof (cases "conns s p")
  case (Some c)
  let ?s1 = "s\<lparr>conns := (conns s)(p \<mapsto> c\<lparr>c_connected := 0\<rparr>)\<rparr>"
  have "forget ?s1 = forget s" using Some by (auto simp: forget_def fun_eq_iff forget_conn_def)
  then have "upd_ctx1 q g (forget s) = map_option forget (upd_ctx q g ?s1)" for q g by (metis forget_prims(10))
  then show ?thesis using Some assms
    by (simp add: AsyncDisconnect1_def AsyncDisconnect_def InterlockedCompareExchange_def upd_conn_def forget_simps cong: forget_congs)
qed (simp add: AsyncDisconnect1_def AsyncDisconnect_def forget_simps)

lemma forget_running: "accs s a = Some c \<Longrightarrow> forget (s\<lparr>accs := (accs s)(a \<mapsto> c\<lparr>a_running := k\<rparr>)\<rparr>) = forget s"
  by (auto simp: forget_def fun_eq_iff forget_acc_def)

lemma forget_DestroyAcceptor: "DestroyAcceptor1 a (forget s) = map_option forget (DestroyAcceptor a s)"
proof (cases "accs s a")
  case (Some c)
  let ?s1 = "s\<lparr>accs := (accs s)(a \<mapsto> c\<lparr>a_running := 0\<rparr>)\<rparr>"
  have f: "forget s = forget ?s1" using forget_running [OF Some] by simp
  have r: "(forget t)\<lparr>accs1 := (accs1 (forget t))(a := None)\<rparr> = forget (t\<lparr>accs := (accs t)(a := None)\<rparr>)" for t :: "'a net"
    by (simp add: forget_def comp_upd)
  show ?thesis
    unfolding f DestroyAcceptor1_def
    using Some by (simp add: DestroyAcceptor_def upd_acc_def forget_simps r Let_def cong: forget_congs)
qed (simp add: DestroyAcceptor1_def DestroyAcceptor_def upd_acc_def forget_simps)

lemma bind_AcceptConnection:
  "AcceptConnection os a s \<bind> (\<lambda>s. Some (b, forget s)) = AcceptConnection1 os a (forget s) \<bind> (\<lambda>s. Some (b, s))"
  by (simp add: forget_AcceptConnection forget_simps)

lemma forget_CreateAcceptor:
  "CreateAcceptor1 os w h (forget s) = map_option (map_prod id forget) (CreateAcceptor os w h s)"
  by (simp add: CreateAcceptor1_def CreateAcceptor_def malloc_acc_def socket_def upd_acc_def upd_ctx_def os_call_def
      InterlockedCompareExchange_def bind_AcceptConnection forget_simps Let_def)
    (simp add: forget_def comp_upd forget_acc_def cong: if_cong)

lemma conns_prims: "upd_ctx q g s = Some s1 \<Longrightarrow> conns s1 = conns s" "post_io os q s = (b, s2) \<Longrightarrow> conns s2 = conns s"
  "free_ctx q s = Some s3 \<Longrightarrow> conns s3 = conns s"
  by (auto simp: free_ctx_def upd_ctx_def post_io_def bind_eq_Some_conv split: if_splits)

lemma forget_post:
  assumes "\<forall>c. conns s p = Some c \<longrightarrow> c_connected c = 1"
  shows "Option.bind (upd_ctx1 q g (forget s)) (\<lambda>s. Option.bind (conns1 s p) (\<lambda>c. case post_io1 os q s of (ok, s) \<Rightarrow>
       if ok then Some s else Option.bind (free_ctx1 q s) (AsyncDisconnect1 os p))) =
     map_option forget (Option.bind (upd_ctx q g s) (\<lambda>s. Option.bind (conns s p) (\<lambda>c. case post_io os q s of (ok, s) \<Rightarrow>
       if ok then Some s else Option.bind (free_ctx q s) (AsyncDisconnect os p))))"
  using assms
  by (auto simp: forget_simps conns_prims split: prod.splits intro!: Option.bind_cong forget_AsyncDisconnect)

lemma forget_AsyncSend:
  assumes "\<forall>c. conns s p = Some c \<longrightarrow> c_connected c = 1"
  shows "AsyncSend1 os p q (forget s) = map_option forget (AsyncSend os p q s)"
  unfolding AsyncSend1_def AsyncSend_def Let_def by (rule forget_post [OF assms])

lemma forget_AsyncRecv:
  assumes "\<forall>c. conns s p = Some c \<longrightarrow> c_connected c = 1"
  shows "AsyncRecv1 os p q (forget s) = map_option forget (AsyncRecv os p q s)"
  unfolding AsyncRecv1_def AsyncRecv_def Let_def by (rule forget_post [OF assms])

lemma forget_AsyncRawSend:
  assumes "\<forall>c. conns s p = Some c \<longrightarrow> c_connected c = 1"
  shows "AsyncRawSend1 os p len q (forget s) = map_option forget (AsyncRawSend os p len q s)"
  using assms by (auto simp: AsyncRawSend1_def AsyncRawSend_def forget_simps forget_AsyncSend conns_prims intro!: Option.bind_cong)

text \<open>
  Only the first version keeps the addresses of the two ends in a connection.  None of the operations below reads them:
  they commute with forgetting the addresses of all connections.
\<close>

definition no_addr :: "'app net_v1 \<Rightarrow> 'app net_v1" where
  "no_addr s = s\<lparr>conns1 := map_option (\<lambda>c. c\<lparr>c1_local_sockaddr := NULL, c1_remote_sockaddr := NULL\<rparr>) \<circ> conns1 s\<rparr>"

named_theorems no_addr_simps

lemma no_addr_sel [no_addr_simps]:
  "tick1 (no_addr s) = tick1 s" "next_ptr1 (no_addr s) = next_ptr1 s" "next_sock1 (no_addr s) = next_sock1 s" "ctxs1 (no_addr s) = ctxs1 s"
  "conns1 (no_addr s) p = map_option (\<lambda>c. c\<lparr>c1_local_sockaddr := NULL, c1_remote_sockaddr := NULL\<rparr>) (conns1 s p)"
  "accs1 (no_addr s) = accs1 s" "workers1 (no_addr s) = workers1 s" "pending1 (no_addr s) = pending1 s"
  by (simp_all add: no_addr_def)

lemma no_addr_prims [no_addr_simps]:
  "os_call1 f (no_addr s) = map_prod id no_addr (os_call1 f s)"
  "malloc_conn1 os (no_addr s) = map_prod id no_addr (malloc_conn1 os s)"
  "malloc_ctx1 os n (no_addr s) = map_prod id no_addr (malloc_ctx1 os n s)"
  "malloc_acc1 os (no_addr s) = map_prod id no_addr (malloc_acc1 os s)"
  "socket1 os (no_addr s) = map_prod id no_addr (socket1 os s)"
  "closesocket1 k (no_addr s) = no_addr (closesocket1 k s)"
  "post_io1 os q (no_addr s) = map_prod id no_addr (post_io1 os q s)"
  "free_conn1 p (no_addr s) = map_option no_addr (free_conn1 p s)"
  "free_ctx1 q (no_addr s) = map_option no_addr (free_ctx1 q s)"
  "upd_ctx1 q g (no_addr s) = map_option no_addr (upd_ctx1 q g s)"
  "upd_acc1 a h (no_addr s) = map_option no_addr (upd_acc1 a h s)"
  by (simp_all add: no_addr_def os_call1_def malloc_conn1_def malloc_ctx1_def malloc_acc1_def socket1_def closesocket1_def post_io1_def
      free_conn1_def free_ctx1_def upd_ctx1_def upd_acc1_def comp_upd forget_conn_def split: option.splits bind_split)

lemma no_addr_upd_conn:
  "(\<And>c. f (c\<lparr>c1_local_sockaddr := NULL, c1_remote_sockaddr := NULL\<rparr>) = (f c)\<lparr>c1_local_sockaddr := NULL, c1_remote_sockaddr := NULL\<rparr>) \<Longrightarrow>
     upd_conn1 p f (no_addr s) = map_option no_addr (upd_conn1 p f s)"
  by (cases "conns1 s p") (simp_all add: upd_conn1_def no_addr_def comp_upd)

lemma no_addr_upds [no_addr_simps]:
  "upd_conn1 p (\<lambda>c. c\<lparr>c1_socket := k\<rparr>) (no_addr s) = map_option no_addr (upd_conn1 p (\<lambda>c. c\<lparr>c1_socket := k\<rparr>) s)"
  "upd_conn1 p (\<lambda>c. c\<lparr>c1_context := k\<rparr>) (no_addr s) = map_option no_addr (upd_conn1 p (\<lambda>c. c\<lparr>c1_context := k\<rparr>) s)"
  "upd_conn1 p (\<lambda>c. c\<lparr>c1_client := k\<rparr>) (no_addr s) = map_option no_addr (upd_conn1 p (\<lambda>c. c\<lparr>c1_client := k\<rparr>) s)"
  "upd_conn1 p (\<lambda>c. c\<lparr>c1_handler := h, c1_worker := w, c1_acceptor := a\<rparr>) (no_addr s) =
     map_option no_addr (upd_conn1 p (\<lambda>c. c\<lparr>c1_handler := h, c1_worker := w, c1_acceptor := a\<rparr>) s)"
  "upd_conn1 p (\<lambda>c. c\<lparr>c1_local_sockaddr := NULL, c1_remote_sockaddr := NULL\<rparr>) (no_addr s) =
     map_option no_addr (upd_conn1 p (\<lambda>c. c\<lparr>c1_local_sockaddr := NULL, c1_remote_sockaddr := NULL\<rparr>) s)"
  by (intro no_addr_upd_conn; simp)+

lemmas no_addr_rules = no_addr_simps map_bind bind_map case_map_prod map_option_if map_option_case

lemma no_addr_ops:
  "CreateContext1 os op0 (no_addr s) = map_option (map_prod id no_addr) (CreateContext1 os op0 s)"
  "CreateConnection1 os h w a (no_addr s) = map_option (map_prod id no_addr) (CreateConnection1 os h w a s)"
  "CloseConnection1 p (no_addr s) = map_option no_addr (CloseConnection1 p s)"
  "AsyncConnect1 os p k (no_addr s) = map_option (map_prod id no_addr) (AsyncConnect1 os p k s)"
  "AsyncDisconnect1 os p (no_addr s) = map_option no_addr (AsyncDisconnect1 os p s)"
  by (simp_all add: CreateContext1_def CreateConnection1_def CloseConnection1_def AsyncConnect1_def AsyncDisconnect1_def Let_def no_addr_rules
      cong: forget_congs)

lemma no_addr_more:
  "ConnectConnection1 os h w k (no_addr s) = map_option (map_prod id no_addr) (ConnectConnection1 os h w k s)"
  "AcceptConnection1 os a (no_addr s) = map_option no_addr (AcceptConnection1 os a s)"
  "AsyncSend1 os p q (no_addr s) = map_option no_addr (AsyncSend1 os p q s)"
  "AsyncRecv1 os p q (no_addr s) = map_option no_addr (AsyncRecv1 os p q s)"
  by (simp_all add: ConnectConnection1_def AcceptConnection1_def AsyncSend1_def AsyncRecv1_def Let_def no_addr_rules no_addr_ops cong: forget_congs)

lemma no_addr_last:
  "AsyncRawSend1 os p len q (no_addr s) = map_option no_addr (AsyncRawSend1 os p len q s)"
  "CreateAcceptor1 os w h (no_addr s) = map_option (map_prod id no_addr) (CreateAcceptor1 os w h s)"
  by (simp_all add: AsyncRawSend1_def CreateAcceptor1_def Let_def no_addr_rules no_addr_ops no_addr_more cong: forget_congs)

lemma no_addr_DestroyAcceptor: "DestroyAcceptor1 a (no_addr s) = map_option no_addr (DestroyAcceptor1 a s)"
proof -
  have r: "(no_addr t)\<lparr>accs1 := (accs1 (no_addr t))(a := None)\<rparr> = no_addr (t\<lparr>accs1 := (accs1 t)(a := None)\<rparr>)" for t :: "'a net_v1"
    by (simp add: no_addr_def)
  have i: "(if b then no_addr x else no_addr y) = no_addr (if b then x else y)" for b and x y :: "'a net_v1" by simp
  show ?thesis by (simp add: DestroyAcceptor1_def Let_def no_addr_rules i r [unfolded no_addr_sel] cong: forget_congs)
qed

text \<open>C37: Ten operations of the library in its two versions.  Two states agree when they are equal up to what only one
  version has: the addresses in the connections of the first one, which may be anything, and the flags of the second one.  From states that agree, and for
  every answer of the operating system, the operations creating a context, creating, connecting and closing a connection and creating, arming and destroying an
  acceptor are defined in both versions or in none, have the same result and end in states that agree; so do disconnecting, receiving and
  sending, on a connection whose flag \<open>connected_\<close> is set.  The operations of the worker threads, which fill the addresses in, are not
  compared.\<close>
theorem versions_agree:
  assumes "no_addr s1 = forget s"
  shows "map_option (map_prod id no_addr) (CreateContext1 os op0 s1) = map_option (map_prod id forget) (CreateContext os op0 s) \<and>
   map_option (map_prod id no_addr) (CreateConnection1 os h w a s1) = map_option (map_prod id forget) (CreateConnection os h w a s) \<and>
   map_option (map_prod id no_addr) (ConnectConnection1 os h w k s1) = map_option (map_prod id forget) (ConnectConnection os h w k s) \<and>
   map_option (map_prod id no_addr) (CreateAcceptor1 os w h s1) = map_option (map_prod id forget) (CreateAcceptor os w h s) \<and>
   map_option no_addr (AcceptConnection1 os a s1) = map_option forget (AcceptConnection os a s) \<and>
   map_option no_addr (DestroyAcceptor1 a s1) = map_option forget (DestroyAcceptor a s) \<and>
   map_option no_addr (CloseConnection1 p s1) = map_option forget (CloseConnection p s) \<and>
   ((\<forall>c. conns s p = Some c \<longrightarrow> c_connected c = 1) \<longrightarrow>
      map_option no_addr (AsyncDisconnect1 os p s1) = map_option forget (AsyncDisconnect os p s) \<and>
      map_option no_addr (AsyncRecv1 os p q s1) = map_option forget (AsyncRecv os p q s) \<and>
      map_option no_addr (AsyncRawSend1 os p len q s1) = map_option forget (AsyncRawSend os p len q s))"
  unfolding no_addr_ops [symmetric] no_addr_more [symmetric] no_addr_last [symmetric] no_addr_DestroyAcceptor [symmetric] assms
  by (simp add: forget_CreateContext forget_CreateConnection forget_ConnectConnection forget_CreateAcceptor forget_AcceptConnection
      forget_DestroyAcceptor forget_CloseConnection forget_AsyncDisconnect forget_AsyncRecv forget_AsyncRawSend)

definition os_fine :: os where
  "os_fine = \<lparr>malloc_ok = \<lambda>t. True, socket_ok = \<lambda>t. True, iocp_ok = \<lambda>t. True, bind_ok = \<lambda>t. True, listen_ok = \<lambda>t. True,
     sockopt_ok = \<lambda>t. True, post_ok = \<lambda>t. True, thread_ok = \<lambda>t. True,
     junk_conn = \<lparr>c_socket = 0, c_handler = 0, c_worker = 0, c_acceptor = 0, c_context = 0, c_client = 0, c_connected = 0\<rparr>,
     junk_ctx = \<lparr>x_op = INVALID_OPERATION, x_wsabuf_buf = 0, x_wsabuf_len = 0, x_connection = 0, x_buffer = []\<rparr>,
     junk_acc = \<lparr>a_socket = 0, a_handler = 0, a_server = 0, a_context = 0, a_running = 0, a_worker = 0\<rparr>\<rparr>"

definition net_one :: "unit net" where
  "net_one = \<lparr>tick = 0, next_ptr = 3, next_sock = 2, socks = (\<lambda>k. k = 1),
     conns = [1 \<mapsto> \<lparr>c_socket = 1, c_handler = 0, c_worker = 0, c_acceptor = 0, c_context = 2, c_client = 0, c_connected = 1\<rparr>],
     ctxs = [2 \<mapsto> \<lparr>x_op = OPERATION_CONNECT, x_wsabuf_buf = 0, x_wsabuf_len = 0, x_connection = 1, x_buffer = replicate 64 0\<rparr>],
     accs = Map.empty, workers = Map.empty, pending = [], app = ()\<rparr>"

definition net_one1 :: "unit net_v1" where
  "net_one1 = (forget net_one)\<lparr>conns1 := [1 \<mapsto> (forget_conn (the (conns net_one 1)))\<lparr>c1_local_sockaddr := 7, c1_remote_sockaddr := 8\<rparr>]\<rparr>"

theorem versions_agree_witness:
  "\<exists>s s1. AsyncDisconnect os_fine 1 net_one = Some s \<and> AsyncDisconnect1 os_fine 1 net_one1 = Some s1 \<and> no_addr s1 = forget s \<and> pending s = [2]"
proof -
  have a: "no_addr net_one1 = forget net_one"
    by (auto simp: net_one1_def net_one_def no_addr_def forget_def forget_conn_def fun_eq_iff)
  have f: "\<forall>c. conns net_one 1 = Some c \<longrightarrow> c_connected c = 1" by (simp add: net_one_def)
  obtain s where s: "AsyncDisconnect os_fine 1 net_one = Some s" "pending s = [2]"
    by (simp add: net_one_def os_fine_def AsyncDisconnect_def upd_conn_def upd_ctx_def post_io_def InterlockedCompareExchange_def)
  have "map_option no_addr (AsyncDisconnect1 os_fine 1 net_one1) = Some (forget s)"
    using versions_agree [OF a, of os_fine INVALID_OPERATION 0 0 0 0 1 0 0] f s(1) by simp
  with s show ?thesis by auto
qed

text \<open>What the first version lacks.  Two disconnects of one connection, say by a failed send and by the peer's close, hand
  the same context to the kernel twice.  The callback \<open>OnDisconnect\<close> of the server only queues a command (\<open>easy_baseserver.cpp\<close>); when the
  loop has handled the first one, by closing the connection, the second completion uses the context after its memory was freed; and when
  both completions come first, the command of the second one finds the connection freed.\<close>
theorem double_disconnect_use_after_free:
  assumes c: "conns1 s p = Some c" and x: "ctxs1 s (c1_context c) = Some x" "x_connection x = p"
    and ok: "post_ok os (tick1 s)" "post_ok os (Suc (tick1 s))"
    and H: "\<And>s. OnDisconnect1 (H (c1_handler c)) p s = Some (s\<lparr>app1 := f (app1 s)\<rparr>)"
  shows "\<exists>s1 s2 s3 s4 s5 s6. AsyncDisconnect1 os p s = Some s1 \<and> AsyncDisconnect1 os p s1 = Some s2 \<and>
     pending1 s2 = pending1 s @ [c1_context c, c1_context c] \<and>
     handle_packet1 os H True [] (c1_context c) s2 = Some s3 \<and> app1 s3 = f (app1 s) \<and> c1_context c \<in> set (pending1 s3) \<and>
     CloseConnection1 p s3 = Some s4 \<and> handle_packet1 os H True [] (c1_context c) s4 = None \<and>
     handle_packet1 os H True [] (c1_context c) s3 = Some s5 \<and> app1 s5 = f (f (app1 s)) \<and>
     CloseConnection1 p s5 = Some s6 \<and> conns1 s6 p = None \<and> CloseConnection1 p s6 = None"
  using c x ok H
  by (auto simp: AsyncDisconnect1_def upd_ctx1_def post_io1_def handle_packet1_def deliver1_def on_disconnect1_def
      CloseConnection1_def closesocket1_def free_ctx1_def free_conn1_def remove1_append Let_def)

text \<open>A server that queues the connections to be closed.\<close>

definition queueing_handler :: "nat \<Rightarrow> ptr list EasyHandler1" where
  "queueing_handler k = \<lparr>OnConnection1 = \<lambda>p s. Some (True, s), OnDisconnect1 = \<lambda>p s. Some (s\<lparr>app1 := app1 s @ [1]\<rparr>),
     OnData1 = \<lambda>p n b s. Some s, OnConnectFailed1 = \<lambda>k s. Some s\<rparr>"

definition net_queue1 :: "ptr list net_v1" where
  "net_queue1 = \<lparr>tick1 = 0, next_ptr1 = 3, next_sock1 = 2, socks1 = (\<lambda>k. k = 1),
     conns1 = [1 \<mapsto> \<lparr>c1_socket = 1, c1_local_sockaddr = 0, c1_remote_sockaddr = 0, c1_handler = 0, c1_worker = 0, c1_acceptor = 0, c1_context = 2,
       c1_client = 0\<rparr>],
     ctxs1 = [2 \<mapsto> \<lparr>x_op = OPERATION_CONNECT, x_wsabuf_buf = 0, x_wsabuf_len = 0, x_connection = 1, x_buffer = replicate 64 0\<rparr>],
     accs1 = Map.empty, workers1 = Map.empty, pending1 = [], app1 = []\<rparr>"

theorem double_disconnect_use_after_free_witness:
  "\<exists>s1 s2 s3 s4. AsyncDisconnect1 os_fine 1 net_queue1 = Some s1 \<and> AsyncDisconnect1 os_fine 1 s1 = Some s2 \<and>
     handle_packet1 os_fine queueing_handler True [] 2 s2 = Some s3 \<and> app1 s3 = [1] \<and> CloseConnection1 1 s3 = Some s4 \<and>
     handle_packet1 os_fine queueing_handler True [] 2 s4 = None"
  using double_disconnect_use_after_free
    [of net_queue1 1 "the (conns1 net_queue1 1)" "the (ctxs1 net_queue1 2)" os_fine queueing_handler "\<lambda>l. l @ [1]"]
  by (auto simp: net_queue1_def os_fine_def queueing_handler_def)

end
