(* ===== verification/EasyNetwork.thy ===== *)
theory EasyNetwork
  imports Prelude
begin

text \<open>
  The select-based variant of the network library, \<open>EasyNetwork/EasyNetwork\<close>: the C files
  \<open>easy_acceptor.c\<close>, \<open>easy_connection.c\<close>, \<open>easy_net.c\<close> and the worker thread of \<open>easy_worker.cpp\<close>,
  an echo server for one thread.

  Objects live in one map per struct type and addresses are never reused; using a NULL or dangling
  pointer is \<open>None\<close>.  Winsock is the parameter \<open>ws\<close>: the outcome of the call made at a given time.
  \<open>nw_sent\<close> records the calls of \<open>send\<close>.  \<open>_ASSERT\<close> is compiled out, as in a release build.
  The loop over the connections may run forever, so it takes fuel; \<open>FUEL_OUT\<close> says that it ran out.
\<close>

section \<open>Data\<close>

abbreviation NW_INVALID_SOCKET :: nat where "NW_INVALID_SOCKET \<equiv> 0"
abbreviation NW_BUFFER :: nat where "NW_BUFFER \<equiv> 1024"
abbreviation FD_SETSIZE :: nat where "FD_SETSIZE \<equiv> 64"

record nw_acceptor =
  na_socket :: nat
  na_server :: nat

record nw_connection =
  nc_socket :: nat
  nc_buffer :: "byte list"
  nc_buffer_size :: int
  nc_acceptor :: ptr
  nc_client :: nat

record nw =
  nw_tick :: nat
  nw_next :: ptr
  nw_next_sock :: nat
  nw_socks :: "nat list"
  nw_accs :: "ptr \<rightharpoonup> nw_acceptor"
  nw_conns :: "ptr \<rightharpoonup> nw_connection"
  nw_wsa :: bool
  nw_ConnectionList :: "ptr list"
  nw_sent :: "(nat \<times> byte list) list"

type_synonym fd_set = "nat list"

record winsock_api =
  ws_malloc :: "nat \<Rightarrow> bool"
  ws_startup :: "nat \<Rightarrow> bool"
  ws_socket :: "nat \<Rightarrow> bool"
  ws_bind :: "nat \<Rightarrow> bool"
  ws_listen :: "nat \<Rightarrow> bool"
  ws_accept :: "nat \<Rightarrow> bool"
  ws_recv :: "nat \<Rightarrow> nat \<Rightarrow> byte list option"
  ws_send :: "nat \<Rightarrow> byte list \<Rightarrow> int"
  ws_select :: "nat \<Rightarrow> fd_set \<times> fd_set \<times> fd_set \<Rightarrow> (fd_set \<times> fd_set \<times> fd_set) option"
  ws_junk :: nw_connection

definition nw_call :: "(nat \<Rightarrow> 'a) \<Rightarrow> nw \<Rightarrow> 'a \<times> nw" where
  "nw_call f s = (f (nw_tick s), s\<lparr>nw_tick := Suc (nw_tick s)\<rparr>)"

definition new_socket :: "(nat \<Rightarrow> bool) \<Rightarrow> nw \<Rightarrow> nat \<times> nw" where
  "new_socket f s = (let (ok, s) = nw_call f s in
     if ok then (nw_next_sock s, s\<lparr>nw_next_sock := Suc (nw_next_sock s), nw_socks := nw_next_sock s # nw_socks s\<rparr>)
     else (NW_INVALID_SOCKET, s))"

definition nw_upd_conn :: "ptr \<Rightarrow> (nw_connection \<Rightarrow> nw_connection) \<Rightarrow> nw \<Rightarrow> nw option" where
  "nw_upd_conn p f s = do { c \<leftarrow> nw_conns s p; Some (s\<lparr>nw_conns := (nw_conns s)(p \<mapsto> f c)\<rparr>) }"

section \<open>easy_net.c\<close>

definition nw_InitNet :: "winsock_api \<Rightarrow> nw \<Rightarrow> int \<times> nw" where
  "nw_InitNet ws s = (let (ok, s) = nw_call (ws_startup ws) s in
     if \<not> ok then (-1, s) else (0, s\<lparr>nw_wsa := True\<rparr>))"

definition nw_DestroyNet :: "nw \<Rightarrow> nw" where
  "nw_DestroyNet s = s\<lparr>nw_wsa := False\<rparr>"

section \<open>easy_connection.c\<close>

definition nw_CreateConnection :: "winsock_api \<Rightarrow> ptr \<Rightarrow> nw \<Rightarrow> (ptr \<times> nw) option" where
  "nw_CreateConnection ws pAcceptor s = do {
     let (ok, s) = nw_call (ws_malloc ws) s;
     let (p, s) = (if ok then (nw_next s, s\<lparr>nw_next := Suc (nw_next s),
                       nw_conns := (nw_conns s)(nw_next s \<mapsto> (ws_junk ws)\<lparr>nc_buffer := replicate NW_BUFFER 0\<rparr>)\<rparr>)
                   else (NULL, s));
     s \<leftarrow> nw_upd_conn p (\<lambda>c. c\<lparr>nc_buffer := (nc_buffer c)[0 := 0]\<rparr>) s;
     s \<leftarrow> nw_upd_conn p (\<lambda>c. c\<lparr>nc_buffer_size := 0\<rparr>) s;
     s \<leftarrow> nw_upd_conn p (\<lambda>c. c\<lparr>nc_acceptor := pAcceptor\<rparr>) s;
     Some (p, s)
   }"

section \<open>easy_acceptor.c\<close>

definition nw_CreateAcceptor :: "winsock_api \<Rightarrow> nw \<Rightarrow> (ptr \<times> nw) option" where
  "nw_CreateAcceptor ws s = do {
     let (ok, s) = nw_call (ws_malloc ws) s;
     if \<not> ok then Some (NULL, s) else do {
       let a = nw_next s;
       let (k, s) = new_socket (ws_socket ws) (s\<lparr>nw_next := Suc a\<rparr>);
       let s = s\<lparr>nw_accs := (nw_accs s)(a \<mapsto> \<lparr>na_socket = k, na_server = 0\<rparr>)\<rparr>;
       if k = NW_INVALID_SOCKET then Some (NULL, s) else do {
         let (ok, s) = nw_call (ws_bind ws) s;
         if \<not> ok then Some (NULL, s) else do {
           let (ok, s) = nw_call (ws_listen ws) s;
           if \<not> ok then Some (NULL, s) else do {
             acc \<leftarrow> nw_accs s a;
             Some (a, s\<lparr>nw_accs := (nw_accs s)(a \<mapsto> acc\<lparr>na_server := NULL\<rparr>)\<rparr>)
           }
         }
       }
     }
   }"

definition nw_DestroyAcceptor :: "ptr \<Rightarrow> nw \<Rightarrow> nw option" where
  "nw_DestroyAcceptor a s = do {
     acc \<leftarrow> nw_accs s a;
     let s = (if na_socket acc \<noteq> NW_INVALID_SOCKET then s\<lparr>nw_socks := removeAll (na_socket acc) (nw_socks s)\<rparr> else s);
     Some (s\<lparr>nw_accs := (nw_accs s)(a := None)\<rparr>)
   }"

definition nw_AcceptConnection :: "winsock_api \<Rightarrow> ptr \<Rightarrow> nw \<Rightarrow> (ptr \<times> nw) option" where
  "nw_AcceptConnection ws a s = do {
     (p, s) \<leftarrow> nw_CreateConnection ws a s;
     s \<leftarrow> nw_upd_conn p (\<lambda>c. c\<lparr>nc_client := NULL\<rparr>) s;
     acc \<leftarrow> nw_accs s a;
     let (k, s) = new_socket (ws_accept ws) s;
     s \<leftarrow> nw_upd_conn p (\<lambda>c. c\<lparr>nc_socket := k\<rparr>) s;
     Some (p, s)
   }"

section \<open>easy_worker.cpp\<close>

text \<open>The macros of Winsock on sets of sockets: at most \<open>FD_SETSIZE\<close> members, further ones are dropped silently.\<close>

definition FD_SET :: "nat \<Rightarrow> fd_set \<Rightarrow> fd_set" where
  "FD_SET k S = (if k \<in> set S \<or> length S \<ge> FD_SETSIZE then S else S @ [k])"

definition FD_CLR :: "nat \<Rightarrow> fd_set \<Rightarrow> fd_set" where
  "FD_CLR k S = remove1 k S"

definition ReadData :: "winsock_api \<Rightarrow> ptr \<Rightarrow> nw \<Rightarrow> (bool \<times> nw) option" where
  "ReadData ws p s = do {
     c \<leftarrow> nw_conns s p;
     if nc_buffer_size c < 0 \<or> nc_buffer_size c > 1024 then None else do {
       let (r, s) = nw_call (\<lambda>t. ws_recv ws t (nat (1024 - nc_buffer_size c))) s;
       case r of
         None \<Rightarrow> do { s \<leftarrow> nw_upd_conn p (\<lambda>c. c\<lparr>nc_buffer_size := nc_buffer_size c - 1\<rparr>) s; Some (True, s) }
       | Some d \<Rightarrow>
           (if d = [] then Some (False, s) else do {
              b \<leftarrow> mem_write (nc_buffer c) (nat (nc_buffer_size c)) d;
              s \<leftarrow> nw_upd_conn p (\<lambda>c. c\<lparr>nc_buffer := b, nc_buffer_size := nc_buffer_size c + int (length d)\<rparr>) s;
              Some (True, s)
            })
     }
   }"

definition WriteData :: "winsock_api \<Rightarrow> ptr \<Rightarrow> nw \<Rightarrow> (bool \<times> nw) option" where
  "WriteData ws p s = do {
     c \<leftarrow> nw_conns s p;
     out \<leftarrow> (if nc_buffer_size c < 0 then None else mem_read (nc_buffer c) 0 (nat (nc_buffer_size c)));
     let (nBytes, s) = nw_call (\<lambda>t. ws_send ws t out) s;
     let s = s\<lparr>nw_sent := nw_sent s @ [(nc_socket c, out)]\<rparr>;
     if nBytes = nc_buffer_size c
     then do { s \<leftarrow> nw_upd_conn p (\<lambda>c. c\<lparr>nc_buffer_size := 0\<rparr>) s; Some (True, s) }
     else do {
       let n = nc_buffer_size c - nBytes;
       b \<leftarrow> (if nBytes < 0 \<or> n < 0 then None else memmove (nc_buffer c) 0 (nat nBytes) (nat n));
       s \<leftarrow> nw_upd_conn p (\<lambda>c. c\<lparr>nc_buffer_size := n, nc_buffer := b\<rparr>) s;
       Some (True, s)
     }
   }"

datatype outcome = CONTINUE | EXIT | FUEL_OUT

definition visit_one :: "winsock_api \<Rightarrow> ptr \<Rightarrow> fd_set \<times> fd_set \<times> fd_set \<Rightarrow> nw \<Rightarrow> (bool \<times> (fd_set \<times> fd_set \<times> fd_set) \<times> nw) option" where
  "visit_one ws p fds s = do {
     let (R, W, E) = fds;
     c \<leftarrow> nw_conns s p;
     if nc_socket c \<in> set E then Some (False, (R, W, E), s)
     else do {
       (bOK, R, s) \<leftarrow> (if nc_socket c \<in> set R then do {
            (bOK, s) \<leftarrow> ReadData ws p s;
            s \<leftarrow> nw_upd_conn p (\<lambda>c. c\<lparr>nc_buffer := (nc_buffer c)[0 := 0], nc_buffer_size := 0\<rparr>) s;
            Some (bOK, FD_CLR (nc_socket c) R, s)
          } else Some (True, R, s));
       (bOK, W, s) \<leftarrow> (if nc_socket c \<in> set W then do {
            (bOK, s) \<leftarrow> WriteData ws p s;
            Some (bOK, FD_CLR (nc_socket c) W, s)
          } else Some (bOK, W, s));
       Some (bOK, (R, W, E), s)
     }
   }"

fun visit :: "nat \<Rightarrow> winsock_api \<Rightarrow> ptr list \<Rightarrow> fd_set \<times> fd_set \<times> fd_set \<Rightarrow> nw \<Rightarrow> (outcome \<times> nw) option" where
  "visit fuel ws [] fds s = Some (CONTINUE, s)"
| "visit 0 ws (p # ps) fds s = Some (FUEL_OUT, s)"
| "visit (Suc n) ws (p # ps) fds s = do {
     (bOK, fds, s) \<leftarrow> visit_one ws p fds s;
     if \<not> bOK then visit n ws (p # ps) fds s else visit n ws ps fds s
   }"

fun fill_sets :: "nw \<Rightarrow> ptr list \<Rightarrow> fd_set \<times> fd_set \<times> fd_set \<Rightarrow> (fd_set \<times> fd_set \<times> fd_set) option" where
  "fill_sets s [] fds = Some fds"
| "fill_sets s (p # ps) (R, W, E) = do {
     c \<leftarrow> nw_conns s p;
     let R = (if nc_buffer_size c < 1024 then FD_SET (nc_socket c) R else R);
     let W = (if nc_buffer_size c > 0 then FD_SET (nc_socket c) W else W);
     fill_sets s ps (R, W, FD_SET (nc_socket c) E)
   }"

text \<open>One turn of the endless loop of the thread.\<close>

definition EasyThread_turn :: "nat \<Rightarrow> winsock_api \<Rightarrow> ptr \<Rightarrow> nw \<Rightarrow> (outcome \<times> nw) option" where
  "EasyThread_turn fuel ws pAcceptor s = do {
     acc \<leftarrow> nw_accs s pAcceptor;
     fds \<leftarrow> fill_sets s (nw_ConnectionList s) (FD_SET (na_socket acc) [], FD_SET (na_socket acc) [], []);
     let (res, s) = nw_call (\<lambda>t. ws_select ws t fds) s;
     case res of
       None \<Rightarrow> Some (CONTINUE, s)
     | Some (R, W, E) \<Rightarrow>
         (if na_socket acc \<in> set R then do {
            (p, s) \<leftarrow> nw_AcceptConnection ws pAcceptor s;
            let s = s\<lparr>nw_ConnectionList := nw_ConnectionList s @ [p]\<rparr>;
            visit fuel ws (nw_ConnectionList s) (R, W, E) s
          }
          else if na_socket acc \<in> set E then Some (EXIT, s)
          else visit fuel ws (nw_ConnectionList s) (R, W, E) s)
   }"

section \<open>Behaviour of the echo server\<close>

definition empty_conn :: "ptr \<Rightarrow> nw \<Rightarrow> bool" where
  "empty_conn p s \<longleftrightarrow> (case nw_conns s p of None \<Rightarrow> False
     | Some c \<Rightarrow> nc_buffer_size c = 0 \<and> length (nc_buffer c) = NW_BUFFER)"

definition sock :: "nw \<Rightarrow> ptr \<Rightarrow> nat" where
  "sock s p = (case nw_conns s p of None \<Rightarrow> NW_INVALID_SOCKET | Some c \<Rightarrow> nc_socket c)"

definition echo_inv :: "ptr \<Rightarrow> nw \<Rightarrow> bool" where
  "echo_inv a s \<longleftrightarrow> (case nw_accs s a of None \<Rightarrow> False | Some acc \<Rightarrow>
     0 < na_socket acc \<and> na_socket acc < nw_next_sock s \<and>
     (\<forall>p \<in> set (nw_ConnectionList s). empty_conn p s \<and> sock s p \<noteq> na_socket acc \<and> p < nw_next s) \<and> 0 < nw_next s)"

text \<open>What is documented of Winsock: \<open>select\<close> only removes members of the sets, and \<open>recv\<close> stays within the
  length it is given.\<close>

definition winsock_ok :: "winsock_api \<Rightarrow> bool" where
  "winsock_ok ws \<longleftrightarrow>
     (\<forall>t R W E R' W' E'. ws_select ws t (R, W, E) = Some (R', W', E') \<longrightarrow>
        set R' \<subseteq> set R \<and> set W' \<subseteq> set W \<and> set E' \<subseteq> set E \<and> distinct R' \<and> length R' \<le> length R) \<and>
     (\<forall>t n d. ws_recv ws t n = Some d \<longrightarrow> length d \<le> n)"

text \<open>States that agree on everything but the clock and the buffers.\<close>

definition calm :: "nw \<Rightarrow> nw \<Rightarrow> bool" where
  "calm s s' \<longleftrightarrow> nw_accs s' = nw_accs s \<and> nw_ConnectionList s' = nw_ConnectionList s \<and> nw_next s' = nw_next s \<and>
     nw_next_sock s' = nw_next_sock s \<and> nw_sent s' = nw_sent s \<and> sock s' = sock s \<and>
     (\<forall>p. empty_conn p s \<longrightarrow> empty_conn p s')"

lemma calm_trans: "calm s s' \<Longrightarrow> calm s' s'' \<Longrightarrow> calm s s''"
  by (simp add: calm_def)

lemma calm_tick: "calm s (s\<lparr>nw_tick := t\<rparr>)"
  by (simp add: calm_def sock_def empty_conn_def fun_eq_iff)

lemma ReadData_calm:
  assumes "winsock_ok ws" "empty_conn p s"
  shows "\<exists>b s'. ReadData ws p s = Some (b, s') \<and>
    (\<exists>s''. nw_upd_conn p (\<lambda>c. c\<lparr>nc_buffer := (nc_buffer c)[0 := 0], nc_buffer_size := 0\<rparr>) s' = Some s'' \<and> calm s s'')"
proof -
  obtain c where c: "nw_conns s p = Some c" "nc_buffer_size c = 0" "length (nc_buffer c) = NW_BUFFER"
    using assms(2) by (auto simp: empty_conn_def split: option.splits)
  have d: "length d \<le> 1024" if "ws_recv ws (nw_tick s) 1024 = Some d" for d
    using assms(1) that by (auto simp: winsock_ok_def)
  show ?thesis
    using c d
    by (cases "ws_recv ws (nw_tick s) 1024")
      (auto simp: ReadData_def nw_call_def nw_upd_conn_def calm_def sock_def empty_conn_def fun_eq_iff Let_def split: option.splits)
qed

lemma visit_one_calm:
  assumes ws: "winsock_ok ws" and p: "empty_conn p s" and W: "sock s p \<notin> set W" and E: "sock s p \<notin> set E"
  shows "\<exists>b R' s'. visit_one ws p (R, W, E) s = Some (b, (R', W, E), s') \<and> calm s s' \<and>
    R' = FD_CLR (sock s p) R \<and> (\<not> b \<longrightarrow> sock s p \<in> set R)"
proof -
  obtain c where c: "nw_conns s p = Some c" "sock s p = nc_socket c"
    using p by (auto simp: empty_conn_def sock_def split: option.splits)
  obtain b s' s'' where r: "ReadData ws p s = Some (b, s')" "calm s s''"
      "nw_upd_conn p (\<lambda>c. c\<lparr>nc_buffer := (nc_buffer c)[0 := 0], nc_buffer_size := 0\<rparr>) s' = Some s''"
    using ReadData_calm [OF ws p] by auto
  have s: "calm s s" by (simp add: calm_def)
  show ?thesis
  proof (cases "sock s p \<in> set R")
    case True
    then show ?thesis using c W E r by (simp add: visit_one_def)
  next
    case False
    then show ?thesis using c W E s by (auto simp: visit_one_def FD_CLR_def remove1_idem)
  qed
qed

lemma visit_one_except:
  "empty_conn p s \<Longrightarrow> sock s p \<in> set E \<Longrightarrow> visit_one ws p (R, W, E) s = Some (False, (R, W, E), s)"
  by (auto simp: visit_one_def empty_conn_def sock_def split: option.splits)

lemma visit_calm:
  assumes ws: "winsock_ok ws" and "distinct R" and "\<forall>p \<in> set ps. empty_conn p s \<and> sock s p \<notin> set W"
  shows "\<exists>r s'. visit fuel ws ps (R, W, E) s = Some (r, s') \<and> calm s s' \<and> r \<noteq> EXIT \<and>
    ((\<forall>p \<in> set ps. sock s p \<notin> set E) \<and> length ps + length R \<le> fuel \<longrightarrow> r = CONTINUE) \<and>
    ((\<exists>p \<in> set ps. sock s p \<in> set E) \<longrightarrow> r = FUEL_OUT)"
  using assms(2,3)
proof (induction fuel arbitrary: ps R s)
  case 0
  then show ?case by (cases ps) (auto simp: calm_def)
next
  case (Suc n)
  show ?case
  proof (cases ps)
    case Nil
    then show ?thesis by (simp add: calm_def)
  next
    case (Cons p qs)
    show ?thesis
    proof (cases "sock s p \<in> set E")
      case True
      then show ?thesis using Suc.IH [of R ps s] Suc.prems visit_one_except [of p s E ws R W] Cons by auto
    next
      case False
      obtain b s1 where v: "visit_one ws p (R, W, E) s = Some (b, (FD_CLR (sock s p) R, W, E), s1)" "calm s s1"
          "\<not> b \<longrightarrow> sock s p \<in> set R"
        using visit_one_calm [OF ws _ _ False, of W R] Suc.prems(2) Cons by auto
      let ?R = "FD_CLR (sock s p) R" and ?ps = "if b then qs else ps"
      have d: "distinct ?R" using Suc.prems(1) by (simp add: FD_CLR_def)
      have e: "\<forall>p \<in> set ?ps. empty_conn p s1 \<and> sock s1 p \<notin> set W"
        using Suc.prems(2) v(2) Cons by (auto simp: calm_def)
      have pos: "\<not> b \<Longrightarrow> 0 < length R" using v(3) by (cases R) simp_all
      have len: "length ps + length R \<le> Suc n \<Longrightarrow> length ?ps + length ?R \<le> n"
        using v(3) Cons pos by (cases b) (auto simp: FD_CLR_def length_remove1 simp del: length_greater_0_conv)
      have "visit (Suc n) ws ps (R, W, E) s = visit n ws ?ps (?R, W, E) s1" using v Cons by simp
      moreover have "(\<exists>p \<in> set ps. sock s p \<in> set E) \<longleftrightarrow> (\<exists>p \<in> set ?ps. sock s1 p \<in> set E)"
        using v(2) Cons False by (auto simp: calm_def)
      ultimately show ?thesis
        using Suc.IH [OF d e] len calm_trans [OF v(2)] by auto
    qed
  qed
qed

subsection \<open>The sets handed to select\<close>

lemma set_FD_SET: "set (FD_SET k S) \<subseteq> insert k (set S)" "length S \<le> 64 \<Longrightarrow> length (FD_SET k S) \<le> 64"
  by (auto simp: FD_SET_def)

lemma fill_sets_ok:
  assumes "\<forall>p \<in> set ps. empty_conn p s"
  shows "\<exists>R' E'. fill_sets s ps (R, W, E) = Some (R', W, E') \<and> set R' \<subseteq> set R \<union> sock s ` set ps \<and>
     set E' \<subseteq> set E \<union> sock s ` set ps \<and> (length R \<le> 64 \<longrightarrow> length R' \<le> 64)"
  using assms
proof (induction ps arbitrary: R E)
  case (Cons p ps)
  obtain c where c: "nw_conns s p = Some c" "nc_buffer_size c = 0" "sock s p = nc_socket c"
    using Cons.prems by (auto simp: empty_conn_def sock_def split: option.splits)
  show ?case
    using Cons.IH [of "FD_SET (nc_socket c) R" "FD_SET (nc_socket c) E"] Cons.prems c
      set_FD_SET(1) [of "nc_socket c" R] set_FD_SET(2) [of R "nc_socket c"] set_FD_SET(1) [of "nc_socket c" E]
    by simp blast
qed auto

text \<open>The exceptional sockets that select reports in the turn that starts in this state.\<close>

definition reported :: "winsock_api \<Rightarrow> ptr \<Rightarrow> nw \<Rightarrow> fd_set" where
  "reported ws a s = (case do {
       acc \<leftarrow> nw_accs s a;
       fds \<leftarrow> fill_sets s (nw_ConnectionList s) (FD_SET (na_socket acc) [], FD_SET (na_socket acc) [], []);
       ws_select ws (nw_tick s) fds } of
     None \<Rightarrow> [] | Some (R, W, E) \<Rightarrow> E)"

lemma accept_keeps_inv:
  assumes I: "echo_inv a s" and m: "\<forall>t. ws_malloc ws t"
  shows "\<exists>p s'. nw_AcceptConnection ws a s = Some (p, s') \<and> echo_inv a (s'\<lparr>nw_ConnectionList := nw_ConnectionList s' @ [p]\<rparr>) \<and>
     nw_sent s' = nw_sent s \<and> nw_ConnectionList s' = nw_ConnectionList s \<and> nw_accs s' = nw_accs s \<and>
     (\<forall>q \<in> set (nw_ConnectionList s). sock s' q = sock s q) \<and> (sock s' p = nw_next_sock s \<or> sock s' p = 0)"
proof -
  obtain acc where a: "nw_accs s a = Some acc" using I by (auto simp: echo_inv_def split: option.splits)
  have f: "\<forall>q \<in> set (nw_ConnectionList s). q \<noteq> nw_next s" using a I by (auto simp: echo_inv_def)
  show ?thesis using a f I m
    by (cases "ws_accept ws (Suc (nw_tick s))")
      (auto simp: nw_AcceptConnection_def nw_CreateConnection_def nw_call_def nw_upd_conn_def new_socket_def
        echo_inv_def sock_def empty_conn_def)
qed

text \<open>C39: The worker thread of the select server.  Each turn of its loop keeps every connection's buffer empty and
  sends nothing: what is read is thrown away before it could be echoed.  A turn in which select reports no
  exceptional socket ends and the loop goes on, even when peers have closed; with an exceptional socket the
  walk over the connections never ends, however long it runs.\<close>
theorem echo_turn:
  assumes I: "echo_inv a s" and ws: "winsock_ok ws" and m: "\<forall>t. ws_malloc ws t"
  shows "\<exists>r s'. EasyThread_turn fuel ws a s = Some (r, s') \<and> echo_inv a s' \<and> nw_sent s' = nw_sent s \<and> r \<noteq> EXIT \<and>
    (reported ws a s = [] \<and> length (nw_ConnectionList s) + 65 \<le> fuel \<longrightarrow> r = CONTINUE) \<and>
    (reported ws a s \<noteq> [] \<longrightarrow> r = FUEL_OUT)"
proof -
  obtain acc where a: "nw_accs s a = Some acc" using I by (auto simp: echo_inv_def split: option.splits)
  let ?k = "na_socket acc" and ?L = "nw_ConnectionList s"
  have L: "\<forall>p \<in> set ?L. empty_conn p s \<and> sock s p \<noteq> ?k" "0 < ?k" "?k < nw_next_sock s"
    using I a by (auto simp: echo_inv_def)
  obtain R0 E0 where f: "fill_sets s ?L ([?k], [?k], []) = Some (R0, [?k], E0)" "set E0 \<subseteq> sock s ` set ?L" "length R0 \<le> 64"
    using fill_sets_ok [of ?L s "[?k]" "[?k]" "[]"] L(1) by auto
  let ?s1 = "s\<lparr>nw_tick := Suc (nw_tick s)\<rparr>"
  have I1: "echo_inv a ?s1" using I a by (simp add: echo_inv_def sock_def empty_conn_def)
  show ?thesis
  proof (cases "ws_select ws (nw_tick s) (R0, [?k], E0)")
    case None
    then show ?thesis using I1 a f by (simp add: EasyThread_turn_def reported_def FD_SET_def nw_call_def)
  next
    case (Some q)
    then obtain R W E where q: "ws_select ws (nw_tick s) (R0, [?k], E0) = Some (R, W, E)" by (cases q) auto
    have sub: "set W \<subseteq> {?k}" "set E \<subseteq> set E0" "distinct R" "length R \<le> 64"
      using ws q f(3) unfolding winsock_ok_def by fastforce+
    have rep: "reported ws a s = E" using a f q by (simp add: reported_def FD_SET_def)
    have kE: "?k \<notin> set E" using sub(2) f(2) L(1) by (metis imageE subsetD)
    have main: "\<exists>r s'. visit fuel ws (nw_ConnectionList s2) (R, W, E) s2 = Some (r, s') \<and> echo_inv a s' \<and>
        nw_sent s' = nw_sent s \<and> r \<noteq> EXIT \<and> (E = [] \<and> length ?L + 65 \<le> fuel \<longrightarrow> r = CONTINUE) \<and> (E \<noteq> [] \<longrightarrow> r = FUEL_OUT)"
      if s2: "echo_inv a s2" "nw_accs s2 = nw_accs s" "nw_sent s2 = nw_sent s" "set ?L \<subseteq> set (nw_ConnectionList s2)"
        "length (nw_ConnectionList s2) \<le> Suc (length ?L)" "\<forall>p \<in> set ?L. sock s2 p = sock s p" for s2
    proof -
      have e: "\<forall>p \<in> set (nw_ConnectionList s2). empty_conn p s2 \<and> sock s2 p \<notin> set W"
        using s2(1,2) a sub(1) by (auto simp: echo_inv_def)
      have x: "E \<noteq> [] \<longrightarrow> (\<exists>p \<in> set (nw_ConnectionList s2). sock s2 p \<in> set E)"
        using sub(2) f(2) s2(4,6) by (cases E) force+
      obtain r s' where v: "visit fuel ws (nw_ConnectionList s2) (R, W, E) s2 = Some (r, s')" "calm s2 s'" "r \<noteq> EXIT"
          "(\<forall>p \<in> set (nw_ConnectionList s2). sock s2 p \<notin> set E) \<and> length (nw_ConnectionList s2) + length R \<le> fuel \<longrightarrow> r = CONTINUE"
          "(\<exists>p \<in> set (nw_ConnectionList s2). sock s2 p \<in> set E) \<longrightarrow> r = FUEL_OUT"
        using visit_calm [OF ws sub(3) e] by blast
      have "echo_inv a s'" using s2(1) v(2) by (auto simp: echo_inv_def calm_def split: option.splits)
      then show ?thesis using v x s2(3,5) sub(4) by (auto simp: calm_def)
    qed
    show ?thesis
    proof (cases "?k \<in> set R")
      case True
      obtain p s2 where A: "nw_AcceptConnection ws a ?s1 = Some (p, s2)" "echo_inv a (s2\<lparr>nw_ConnectionList := nw_ConnectionList s2 @ [p]\<rparr>)"
          "nw_sent s2 = nw_sent s" "nw_ConnectionList s2 = ?L" "nw_accs s2 = nw_accs s" "\<forall>q \<in> set ?L. sock s2 q = sock s q"
        using accept_keeps_inv [OF I1 m] by (auto simp: sock_def)
      let ?s2 = "s2\<lparr>nw_ConnectionList := nw_ConnectionList s2 @ [p]\<rparr>"
      have "sock ?s2 = sock s2" by (simp add: sock_def fun_eq_iff)
      then obtain r s' where "visit fuel ws (nw_ConnectionList ?s2) (R, W, E) ?s2 = Some (r, s')" "echo_inv a s'"
          "nw_sent s' = nw_sent s" "r \<noteq> EXIT" "E = [] \<and> length ?L + 65 \<le> fuel \<longrightarrow> r = CONTINUE" "E \<noteq> [] \<longrightarrow> r = FUEL_OUT"
        using main [OF A(2)] A(3-6) by auto
      then show ?thesis
        using A True a f(1) q
        by (simp add: EasyThread_turn_def FD_SET_def nw_call_def rep sock_def)
    next
      case False
      have "sock ?s1 = sock s" by (simp add: sock_def fun_eq_iff)
      then show ?thesis
        using False main [OF I1] a f(1) q kE
        by (simp add: EasyThread_turn_def FD_SET_def nw_call_def rep sock_def)
    qed
  qed
qed

text \<open>A server started on a working Winsock, with a client that sends one byte.\<close>

definition ws0 :: winsock_api where
  "ws0 = \<lparr>ws_malloc = \<lambda>t. True, ws_startup = \<lambda>t. True, ws_socket = \<lambda>t. True, ws_bind = \<lambda>t. True,
     ws_listen = \<lambda>t. True, ws_accept = \<lambda>t. True, ws_recv = \<lambda>t n. Some (take n [65]), ws_send = \<lambda>t bs. int (length bs),
     ws_select = \<lambda>t (R, W, E). Some (remdups R, W, []),
     ws_junk = \<lparr>nc_socket = 0, nc_buffer = [], nc_buffer_size = 0, nc_acceptor = 0, nc_client = 0\<rparr>\<rparr>"

definition nw0 :: nw where
  "nw0 = \<lparr>nw_tick = 0, nw_next = 1, nw_next_sock = 1, nw_socks = [], nw_accs = Map.empty, nw_conns = Map.empty,
     nw_wsa = False, nw_ConnectionList = [], nw_sent = []\<rparr>"

lemma ws0_ok: "winsock_ok ws0" "ws_malloc ws0 t"
  by (auto simp: winsock_ok_def ws0_def length_remdups_leq)

lemma start_inv:
  "\<exists>s. nw_CreateAcceptor ws0 (snd (nw_InitNet ws0 nw0)) = Some (1, s) \<and> echo_inv 1 s \<and> nw_ConnectionList s = [] \<and> nw_sent s = []"
  by (simp add: nw_CreateAcceptor_def nw_InitNet_def nw_call_def new_socket_def ws0_def nw0_def echo_inv_def)

theorem echo_turn_witness:
  "\<exists>s s'. nw_CreateAcceptor ws0 (snd (nw_InitNet ws0 nw0)) = Some (1, s) \<and> EasyThread_turn 65 ws0 1 s = Some (CONTINUE, s') \<and> nw_sent s' = []"
proof -
  obtain s where s: "nw_CreateAcceptor ws0 (snd (nw_InitNet ws0 nw0)) = Some (1, s)" "echo_inv 1 s" "nw_ConnectionList s = []" "nw_sent s = []"
    using start_inv by blast
  have r: "reported ws0 1 s = []" using s(2,3) by (auto simp: reported_def ws0_def bind_eq_Some_conv split: option.splits)
  show ?thesis using echo_turn [OF s(2) ws0_ok(1), of 65] ws0_ok(2) s r by auto
qed

end
