(* ===== verification/FSM.thy ===== *)
theory FSM
  imports Prelude
begin

text \<open>
  The finite state machine of the tool library: \<open>FTCommon/Src/Tool/state_machine.h\<close> and \<open>.cpp\<close>.

  States and events are \<open>int32\<close> values, here integers: they are stored and compared only.  The table of
  a state is an array of \<open>FSM_STATE_MAX\<close> output states indexed by the event; an index outside
  it is undefined behaviour, the value \<open>None\<close>.  A \<open>StateMachine\<close> owns its \<open>FSMState\<close> objects, so
  the map holds them directly.  The machines of the session servers are built from lists of rows, which
  \<open>add_rows\<close> does; its meaning is the partial function \<open>rows_fun\<close>, in which the first row counts.
\<close>

abbreviation FSM_STATE_MAX :: int where "FSM_STATE_MAX \<equiv> 256"
abbreviation INVALID_FSM_STATE :: int where "INVALID_FSM_STATE \<equiv> - 1"

record FSMState =
  fs_iState :: int
  fs_arrayOutputState :: "int list"

record StateMachine =
  sm_iCurrState :: int
  sm_mStateMap :: "int \<rightharpoonup> FSMState"

section \<open>FSMState\<close>

definition FSMState_new :: "int \<Rightarrow> FSMState" where
  "FSMState_new iState = \<lparr>fs_iState = iState, fs_arrayOutputState = replicate (nat FSM_STATE_MAX) INVALID_FSM_STATE\<rparr>"

definition array_get :: "int list \<Rightarrow> int \<Rightarrow> int option" where
  "array_get xs i = (if 0 \<le> i \<and> i < int (length xs) then Some (xs ! nat i) else None)"

definition array_set :: "int list \<Rightarrow> int \<Rightarrow> int \<Rightarrow> int list option" where
  "array_set xs i v = (if 0 \<le> i \<and> i < int (length xs) then Some (xs[nat i := v]) else None)"

definition AddTransition :: "int \<Rightarrow> int \<Rightarrow> FSMState \<Rightarrow> FSMState option" where
  "AddTransition iEvent iOutputState st =
     (if iEvent \<ge> FSM_STATE_MAX then Some st else do {
        v \<leftarrow> array_get (fs_arrayOutputState st) iEvent;
        if v \<noteq> INVALID_FSM_STATE then Some st else do {
          xs \<leftarrow> array_set (fs_arrayOutputState st) iEvent iOutputState;
          Some (st\<lparr>fs_arrayOutputState := xs\<rparr>)
        }
      })"

definition DeleteTransition :: "int \<Rightarrow> FSMState \<Rightarrow> FSMState option" where
  "DeleteTransition iEvent st =
     (if iEvent \<ge> FSM_STATE_MAX then Some st else do {
        xs \<leftarrow> array_set (fs_arrayOutputState st) iEvent INVALID_FSM_STATE;
        Some (st\<lparr>fs_arrayOutputState := xs\<rparr>)
      })"

definition GetOutputState :: "int \<Rightarrow> FSMState \<Rightarrow> int option" where
  "GetOutputState iEvent st = array_get (fs_arrayOutputState st) iEvent"

section \<open>StateMachine\<close>

definition StateMachine_new :: "int \<Rightarrow> StateMachine" where
  "StateMachine_new iState = \<lparr>sm_iCurrState = iState, sm_mStateMap = Map.empty\<rparr>"

definition SetCurrState :: "int \<Rightarrow> StateMachine \<Rightarrow> StateMachine" where
  "SetCurrState iState m = m\<lparr>sm_iCurrState := iState\<rparr>"

definition GetCurrState :: "StateMachine \<Rightarrow> int" where
  "GetCurrState m = sm_iCurrState m"

definition GetFSMState :: "int \<Rightarrow> StateMachine \<Rightarrow> FSMState option" where
  "GetFSMState iState m = sm_mStateMap m iState"

text \<open>\<open>std::map::insert\<close> does not replace an entry.\<close>

definition AddFSMState :: "FSMState \<Rightarrow> StateMachine \<Rightarrow> StateMachine" where
  "AddFSMState st m = (if sm_mStateMap m (fs_iState st) = None
     then m\<lparr>sm_mStateMap := (sm_mStateMap m)(fs_iState st \<mapsto> st)\<rparr> else m)"

definition ForceGetFSMState :: "int \<Rightarrow> StateMachine \<Rightarrow> FSMState \<times> StateMachine" where
  "ForceGetFSMState iState m =
     (case GetFSMState iState m of
        Some st \<Rightarrow> (st, m)
      | None \<Rightarrow> (let st = FSMState_new iState in (st, AddFSMState st m)))"

definition DeleteFSMState :: "int \<Rightarrow> StateMachine \<Rightarrow> StateMachine" where
  "DeleteFSMState iState m = m\<lparr>sm_mStateMap := (sm_mStateMap m)(iState := None)\<rparr>"

definition StateTransition :: "int \<Rightarrow> bool \<Rightarrow> StateMachine \<Rightarrow> (int \<times> StateMachine) option" where
  "StateTransition iEvent bNeedChange m = do {
     iNewState \<leftarrow> (case GetFSMState (sm_iCurrState m) m of
         Some st \<Rightarrow> GetOutputState iEvent st
       | None \<Rightarrow> Some INVALID_FSM_STATE);
     Some (iNewState, if bNeedChange \<and> iNewState \<noteq> INVALID_FSM_STATE then m\<lparr>sm_iCurrState := iNewState\<rparr> else m)
   }"

text \<open>\<open>ForceGetFSMState(s)->AddTransition(e, o)\<close>, the way machines are built.\<close>

definition add_row :: "int \<Rightarrow> int \<Rightarrow> int \<Rightarrow> StateMachine \<Rightarrow> StateMachine option" where
  "add_row s e out m = do {
     let (st, m) = ForceGetFSMState s m;
     st \<leftarrow> AddTransition e out st;
     Some (m\<lparr>sm_mStateMap := (sm_mStateMap m)(s \<mapsto> st)\<rparr>)
   }"

primrec add_rows :: "(int \<times> int \<times> int) list \<Rightarrow> StateMachine \<Rightarrow> StateMachine option" where
  "add_rows [] m = Some m"
| "add_rows (r # rs) m = do { m \<leftarrow> add_row (fst r) (fst (snd r)) (snd (snd r)) m; add_rows rs m }"

primrec run_events :: "int list \<Rightarrow> StateMachine \<Rightarrow> (int list \<times> StateMachine) option" where
  "run_events [] m = Some ([], m)"
| "run_events (e # es) m = do {
     (r, m) \<leftarrow> StateTransition e True m;
     (rs, m) \<leftarrow> run_events es m;
     Some (r # rs, m)
   }"

section \<open>Specification and invariant\<close>

text \<open>The meaning of a table of rows: a partial transition function, the first row for a state and an
  event counts; a row that leads to \<open>INVALID_FSM_STATE\<close> is no row.\<close>

primrec rows_fun :: "(int \<times> int \<times> int) list \<Rightarrow> int \<times> int \<rightharpoonup> int" where
  "rows_fun [] = Map.empty"
| "rows_fun (r # rs) = (\<lambda>k. if k = (fst r, fst (snd r)) \<and> snd (snd r) \<noteq> INVALID_FSM_STATE
     then Some (snd (snd r)) else rows_fun rs k)"

definition fsm_inv :: "StateMachine \<Rightarrow> bool" where
  "fsm_inv m \<longleftrightarrow> (\<forall>s st. sm_mStateMap m s = Some st \<longrightarrow>
     fs_iState st = s \<and> length (fs_arrayOutputState st) = nat FSM_STATE_MAX)"

definition fsm_fun :: "StateMachine \<Rightarrow> int \<times> int \<rightharpoonup> int" where
  "fsm_fun m = (\<lambda>(s, e). case sm_mStateMap m s of None \<Rightarrow> None
     | Some st \<Rightarrow> (if 0 \<le> e \<and> e < FSM_STATE_MAX \<and> fs_arrayOutputState st ! nat e \<noteq> INVALID_FSM_STATE
         then Some (fs_arrayOutputState st ! nat e) else None))"

definition event_ok :: "int \<Rightarrow> bool" where
  "event_ok e \<longleftrightarrow> 0 \<le> e \<and> e < FSM_STATE_MAX"

primrec spec_run :: "(int \<times> int \<rightharpoonup> int) \<Rightarrow> int list \<Rightarrow> int \<Rightarrow> int list \<times> int" where
  "spec_run f [] c = ([], c)"
| "spec_run f (e # es) c = (case f (c, e) of
     None \<Rightarrow> (let (rs, c') = spec_run f es c in (INVALID_FSM_STATE # rs, c'))
   | Some c1 \<Rightarrow> (let (rs, c') = spec_run f es c1 in (c1 # rs, c')))"

lemma new_inv: "fsm_inv (StateMachine_new s)" "fsm_fun (StateMachine_new s) = Map.empty"
  by (auto simp: StateMachine_new_def fsm_inv_def fsm_fun_def)

lemma add_row_ok:
  assumes "fsm_inv m" "event_ok e"
  shows "\<exists>m'. add_row s e out m = Some m' \<and> fsm_inv m' \<and> sm_iCurrState m' = sm_iCurrState m \<and>
    fsm_fun m' = (\<lambda>k. case fsm_fun m k of Some v \<Rightarrow> Some v | None \<Rightarrow>
      if k = (s, e) \<and> out \<noteq> INVALID_FSM_STATE then Some out else None)"
proof -
  let ?st = "case sm_mStateMap m s of Some st \<Rightarrow> st | None \<Rightarrow> FSMState_new s"
  have st: "fs_iState ?st = s" "length (fs_arrayOutputState ?st) = 256"
    using assms(1) by (auto simp: fsm_inv_def FSMState_new_def split: option.splits)
  have f: "fsm_fun m (s, e') = (if 0 \<le> e' \<and> e' < 256 \<and> fs_arrayOutputState ?st ! nat e' \<noteq> - 1
      then Some (fs_arrayOutputState ?st ! nat e') else None)" for e'
    by (auto simp: fsm_fun_def FSMState_new_def split: option.splits)
  define st' where "st' = (if fs_arrayOutputState ?st ! nat e = - 1
      then ?st\<lparr>fs_arrayOutputState := (fs_arrayOutputState ?st)[nat e := out]\<rparr> else ?st)"
  have "AddTransition e out ?st = Some st'"
    using assms(2) st by (auto simp: AddTransition_def array_get_def array_set_def event_ok_def st'_def)
  then have eq: "add_row s e out m = Some (m\<lparr>sm_mStateMap := (sm_mStateMap m)(s \<mapsto> st')\<rparr>)"
    by (auto simp: add_row_def ForceGetFSMState_def GetFSMState_def AddFSMState_def FSMState_new_def Let_def split: option.splits)
  have st'2: "fs_iState st' = s" "length (fs_arrayOutputState st') = 256" using st by (auto simp: st'_def)
  have "fsm_fun (m\<lparr>sm_mStateMap := (sm_mStateMap m)(s \<mapsto> st')\<rparr>) (a, b) =
      (case fsm_fun m (a, b) of Some v \<Rightarrow> Some v | None \<Rightarrow> if (a, b) = (s, e) \<and> out \<noteq> - 1 then Some out else None)" for a b
  proof (cases "a = s")
    case True
    then show ?thesis using f [of b] st assms(2)
      by (auto simp: fsm_fun_def st'_def event_ok_def nth_list_update eq_nat_nat_iff split: option.splits)
  qed (auto simp: fsm_fun_def split: option.splits)
  then show ?thesis using eq assms(1) st'2 by (auto simp: fsm_inv_def)
qed

lemma add_rows_ok:
  assumes "fsm_inv m" "\<forall>(s, e, out) \<in> set rs. event_ok e"
  shows "\<exists>m'. add_rows rs m = Some m' \<and> fsm_inv m' \<and> sm_iCurrState m' = sm_iCurrState m \<and>
    fsm_fun m' = (\<lambda>k. case fsm_fun m k of Some v \<Rightarrow> Some v | None \<Rightarrow> rows_fun rs k)"
  using assms
proof (induction rs arbitrary: m)
  case (Cons r rs)
  obtain s e out where r: "r = (s, e, out)" by (cases r)
  obtain m1 where 1: "add_row s e out m = Some m1" "fsm_inv m1" "sm_iCurrState m1 = sm_iCurrState m"
      "fsm_fun m1 = (\<lambda>k. case fsm_fun m k of Some v \<Rightarrow> Some v | None \<Rightarrow>
        if k = (s, e) \<and> out \<noteq> INVALID_FSM_STATE then Some out else None)"
    using add_row_ok [OF Cons.prems(1), of e s out] Cons.prems(2) r by auto
  obtain m2 where 2: "add_rows rs m1 = Some m2" "fsm_inv m2" "sm_iCurrState m2 = sm_iCurrState m1"
      "fsm_fun m2 = (\<lambda>k. case fsm_fun m1 k of Some v \<Rightarrow> Some v | None \<Rightarrow> rows_fun rs k)"
    using Cons.IH [OF 1(2)] Cons.prems(2) by auto
  have "fsm_fun m2 k = (case fsm_fun m k of Some v \<Rightarrow> Some v | None \<Rightarrow> rows_fun (r # rs) k)" for k
    unfolding 2(4) 1(4) r by (cases "fsm_fun m k") auto
  with 1 2 r show ?case by auto
qed (auto simp: fun_eq_iff split: option.splits)

lemma StateTransition_ok:
  assumes "fsm_inv m" "event_ok e"
  shows "StateTransition e change m =
    (case fsm_fun m (sm_iCurrState m, e) of
       None \<Rightarrow> Some (INVALID_FSM_STATE, m)
     | Some s \<Rightarrow> Some (s, if change then m\<lparr>sm_iCurrState := s\<rparr> else m))"
  using assms by (auto simp: StateTransition_def GetFSMState_def GetOutputState_def array_get_def fsm_fun_def
      fsm_inv_def event_ok_def split: option.splits)

lemma fsm_frame [simp]: "fsm_fun (m\<lparr>sm_iCurrState := s\<rparr>) = fsm_fun m" "fsm_inv (m\<lparr>sm_iCurrState := s\<rparr>) = fsm_inv m"
  by (simp_all add: fsm_fun_def fsm_inv_def)

lemma run_events_ok:
  assumes "fsm_inv m" "\<forall>e \<in> set es. event_ok e"
  shows "\<exists>m'. run_events es m = Some (fst (spec_run (fsm_fun m) es (sm_iCurrState m)), m') \<and>
    sm_iCurrState m' = snd (spec_run (fsm_fun m) es (sm_iCurrState m)) \<and> fsm_fun m' = fsm_fun m \<and> fsm_inv m'"
  using assms
proof (induction es arbitrary: m)
  case (Cons e es)
  have e: "event_ok e" using Cons.prems(2) by simp
  show ?case
  proof (cases "fsm_fun m (sm_iCurrState m, e)")
    case None
    then show ?thesis using Cons.IH [OF Cons.prems(1)] Cons.prems StateTransition_ok [OF Cons.prems(1) e, of True]
      by (auto simp: split_beta)
  next
    case (Some s)
    then show ?thesis using Cons.IH [of "m\<lparr>sm_iCurrState := s\<rparr>"] Cons.prems StateTransition_ok [OF Cons.prems(1) e, of True]
      by (auto simp: split_beta)
  qed
qed simp

text \<open>C26: A machine built from a table behaves as the table says.  Whatever rows are added (with
  events between 0 and 255), the machine's run on any sequence of events is the run of the partial
  function the table describes, first row first: an event without a row is answered with -1 and
  leaves the state alone, every other event moves to the state of its row.\<close>
theorem fsm_refines_table:
  assumes "\<forall>(s, e, out) \<in> set rs. event_ok e" "\<forall>e \<in> set es. event_ok e"
  shows "\<exists>m m'. add_rows rs (StateMachine_new s0) = Some m \<and>
    run_events es m = Some (fst (spec_run (rows_fun rs) es s0), m') \<and>
    GetCurrState m' = snd (spec_run (rows_fun rs) es s0)"
proof -
  obtain m where m: "add_rows rs (StateMachine_new s0) = Some m" "fsm_inv m" "sm_iCurrState m = s0" "fsm_fun m = rows_fun rs"
    using add_rows_ok [OF new_inv(1) assms(1), of s0] by (auto simp: new_inv(2)) (simp add: StateMachine_new_def)
  from run_events_ok [OF m(2) assms(2)] m show ?thesis by (auto simp: GetCurrState_def)
qed

theorem fsm_refines_table_witness:
  "\<exists>m m'. add_rows [(0, 1, 5), (5, 2, 0), (0, 1, 7)] (StateMachine_new 0) = Some m \<and>
    run_events [1, 1, 2] m = Some ([5, - 1, 0], m') \<and> GetCurrState m' = 0"
  using fsm_refines_table [of "[(0, 1, 5), (5, 2, 0), (0, 1, 7)]" "[1, 1, 2]" 0]
  by (auto simp: event_ok_def)

section \<open>Machines built state by state\<close>

text \<open>The way the servers' \<open>InitStateMachine\<close> methods build their machines: for one state after the
  other \<open>ForceGetFSMState\<close>, then its transitions.\<close>

primrec init_states :: "(int \<times> (int \<times> int) list) list \<Rightarrow> StateMachine \<Rightarrow> StateMachine option" where
  "init_states [] m = Some m"
| "init_states (r # rs) m = do {
     m \<leftarrow> add_rows (map (\<lambda>(e, out). (fst r, e, out)) (snd r)) (snd (ForceGetFSMState (fst r) m));
     init_states rs m
   }"

definition rows_of :: "(int \<times> (int \<times> int) list) list \<Rightarrow> (int \<times> int \<times> int) list" where
  "rows_of t = concat (map (\<lambda>r. map (\<lambda>(e, out). (fst r, e, out)) (snd r)) t)"

lemma ForceGetFSMState_ok:
  "fsm_inv m \<Longrightarrow> fsm_inv (snd (ForceGetFSMState s m)) \<and> fsm_fun (snd (ForceGetFSMState s m)) = fsm_fun m \<and>
     sm_iCurrState (snd (ForceGetFSMState s m)) = sm_iCurrState m"
  by (auto simp: ForceGetFSMState_def GetFSMState_def AddFSMState_def FSMState_new_def fsm_inv_def fsm_fun_def
      Let_def fun_eq_iff split: option.splits)

lemma rows_fun_mem: "rows_fun rs (s, e) = Some v \<Longrightarrow> (s, e, v) \<in> set rs"
  by (induction rs) (auto split: if_splits)

lemma rows_of_append: "rows_of (t @ t') = rows_of t @ rows_of t'"
  by (simp add: rows_of_def)

lemma rows_fun_append: "rows_fun (rs @ rs') k = (case rows_fun rs k of Some v \<Rightarrow> Some v | None \<Rightarrow> rows_fun rs' k)"
  by (induction rs) auto

lemma init_states_ok:
  assumes "fsm_inv m" "\<forall>(s, e, out) \<in> set (rows_of t). event_ok e"
  shows "\<exists>m'. init_states t m = Some m' \<and> fsm_inv m' \<and> sm_iCurrState m' = sm_iCurrState m \<and>
    fsm_fun m' = (\<lambda>k. case fsm_fun m k of Some v \<Rightarrow> Some v | None \<Rightarrow> rows_fun (rows_of t) k)"
  using assms
proof (induction t arbitrary: m)
  case (Cons r t)
  let ?rs = "map (\<lambda>(e, out). (fst r, e, out)) (snd r)" and ?m = "snd (ForceGetFSMState (fst r) m)"
  note F = ForceGetFSMState_ok [OF Cons.prems(1), of "fst r"]
  have split: "rows_of (r # t) = ?rs @ rows_of t" by (simp add: rows_of_def)
  obtain m1 where 1: "add_rows ?rs ?m = Some m1" "fsm_inv m1" "sm_iCurrState m1 = sm_iCurrState m"
      "fsm_fun m1 = (\<lambda>k. case fsm_fun m k of Some v \<Rightarrow> Some v | None \<Rightarrow> rows_fun ?rs k)"
    using add_rows_ok [of ?m ?rs] F Cons.prems(2) by (auto simp: split)
  obtain m2 where 2: "init_states t m1 = Some m2" "fsm_inv m2" "sm_iCurrState m2 = sm_iCurrState m1"
      "fsm_fun m2 = (\<lambda>k. case fsm_fun m1 k of Some v \<Rightarrow> Some v | None \<Rightarrow> rows_fun (rows_of t) k)"
    using Cons.IH [OF 1(2)] Cons.prems(2) by (auto simp: split)
  have "fsm_fun m2 = (\<lambda>k. case fsm_fun m k of Some v \<Rightarrow> Some v | None \<Rightarrow> rows_fun (rows_of (r # t)) k)"
    by (auto simp: 2(4) 1(4) split rows_fun_append fun_eq_iff split: option.splits)
  with 1 2 show ?case by auto
qed (auto simp: fun_eq_iff rows_of_def split: option.splits)

end
