(* ===== verification/ToolBuffer.thy ===== *)
theory ToolBuffer
  imports EasyLog
begin

text \<open>
  The byte buffers of the tool library: \<open>single_buffer.h\<close>, \<open>ring_buffer.h\<close> and \<open>ring_buffer.cpp\<close> in
  \<open>FTCommon/Src/Tool\<close>.

  \<open>SingleBuffer\<close> is the C++ original of \<open>EasyBuffer\<close> and satisfies the same contract \<open>byte_stack\<close>.
  In \<open>RingBuffer\<close> head and tail are offsets into the block and \<open>size_t\<close> has 32 bits; the memory a
  pop writes to is passed in and given back.
\<close>

section \<open>SingleBuffer\<close>

record SingleBuffer =
  sb_pData :: "byte list"
  sb_pTail :: nat
  sb_iSize :: u32
  sb_iCurrSize :: u32

definition SingleBuffer_new :: "u32 \<Rightarrow> SingleBuffer" where
  "SingleBuffer_new max_size = \<lparr>sb_pData = replicate (unat max_size) 0, sb_pTail = 0, sb_iSize = max_size, sb_iCurrSize = 0\<rparr>"

definition SingleBuffer_Push :: "SingleBuffer \<Rightarrow> byte list \<Rightarrow> u32 \<Rightarrow> (bool \<times> SingleBuffer) option" where
  "SingleBuffer_Push b pItem iLength =
     (if sb_iCurrSize b + iLength \<ge> sb_iSize b then Some (False, b) else do {
        data \<leftarrow> memcpy (sb_pData b) (sb_pTail b) pItem 0 (unat iLength);
        Some (True, b\<lparr>sb_pData := data, sb_pTail := sb_pTail b + unat iLength, sb_iCurrSize := sb_iCurrSize b + iLength\<rparr>)
      })"

definition SingleBuffer_Pop :: "SingleBuffer \<Rightarrow> byte list option \<Rightarrow> u32 \<Rightarrow> (u32 \<times> SingleBuffer \<times> byte list option) option" where
  "SingleBuffer_Pop b pItem iLength =
     (case pItem of None \<Rightarrow> Some (0, b, None)
      | Some dst \<Rightarrow> do {
          let iLength = (if sb_iCurrSize b < iLength then sb_iCurrSize b else iLength);
          if sb_pTail b < unat iLength then None else do {
            let tail = sb_pTail b - unat iLength;
            dst \<leftarrow> memcpy dst 0 (sb_pData b) tail (unat iLength);
            Some (iLength, b\<lparr>sb_pTail := tail, sb_iCurrSize := sb_iCurrSize b - iLength\<rparr>, Some dst)
          }
        })"

definition SingleBuffer_GetCurrSize :: "SingleBuffer \<Rightarrow> u32" where
  "SingleBuffer_GetCurrSize b = sb_iCurrSize b"

definition SingleBuffer_GetRemainSize :: "SingleBuffer \<Rightarrow> u32" where
  "SingleBuffer_GetRemainSize b = sb_iSize b - sb_iCurrSize b"

section \<open>RingBuffer\<close>

record RingBuffer =
  rb_pData :: "byte list"
  rb_pHead :: nat
  rb_pTail :: nat
  rb_iSize :: u32

definition RingBuffer_new :: "u32 \<Rightarrow> RingBuffer" where
  "RingBuffer_new max_size = \<lparr>rb_pData = replicate (unat max_size) 0, rb_pHead = 0, rb_pTail = 0, rb_iSize = max_size\<rparr>"

definition RingBuffer_Push :: "byte list \<Rightarrow> u32 \<Rightarrow> RingBuffer \<Rightarrow> (bool \<times> RingBuffer) option" where
  "RingBuffer_Push pItem iLength b =
     (let dataEnd = unat (rb_iSize b); n = unat iLength in
      if rb_pTail b > rb_pHead b then
        (if dataEnd - (rb_pTail b - rb_pHead b) < n then Some (False, b)
         else if dataEnd - rb_pTail b \<ge> n then do {
           data \<leftarrow> memcpy (rb_pData b) (rb_pTail b) pItem 0 n;
           Some (True, b\<lparr>rb_pData := data, rb_pTail := rb_pTail b + n\<rparr>)
         } else do {
           let iRemainSize = dataEnd - rb_pTail b;
           data \<leftarrow> memcpy (rb_pData b) (rb_pTail b) pItem 0 iRemainSize;
           data \<leftarrow> memcpy data 0 pItem iRemainSize (n - iRemainSize);
           Some (True, b\<lparr>rb_pData := data, rb_pTail := n - iRemainSize\<rparr>)
         })
      else
        (if rb_pHead b - rb_pTail b < n then Some (False, b) else do {
           data \<leftarrow> memcpy (rb_pData b) (rb_pTail b) pItem 0 n;
           Some (True, b\<lparr>rb_pData := data, rb_pTail := rb_pTail b + n\<rparr>)
         }))"

definition RingBuffer_Pop :: "byte list \<Rightarrow> u32 \<Rightarrow> RingBuffer \<Rightarrow> ((nat \<times> byte list) \<times> RingBuffer) option" where
  "RingBuffer_Pop pItem iLength b =
     (let dataEnd = unat (rb_iSize b); n = unat iLength in
      if rb_pTail b > rb_pHead b then do {
        let n = min n (rb_pTail b - rb_pHead b);
        dst \<leftarrow> memcpy pItem 0 (rb_pData b) (rb_pHead b) n;
        Some ((n, dst), b\<lparr>rb_pHead := rb_pHead b + n\<rparr>)
      }
      else (let iCurrSize = dataEnd - rb_pHead b in
        if iCurrSize \<ge> n then do {
          dst \<leftarrow> memcpy pItem 0 (rb_pData b) (rb_pHead b) n;
          Some ((n, dst), b\<lparr>rb_pHead := rb_pHead b + n\<rparr>)
        } else do {
          dst \<leftarrow> memcpy pItem 0 (rb_pData b) (rb_pHead b) iCurrSize;
          let iRemainSize = min (rb_pTail b) (n - iCurrSize);
          dst \<leftarrow> memcpy dst 0 (rb_pData b) 0 iRemainSize;
          Some ((iCurrSize + iRemainSize, dst), b\<lparr>rb_pHead := iRemainSize\<rparr>)
        }))"

section \<open>SingleBuffer refines EasyBuffer\<close>

definition to_eb :: "SingleBuffer \<Rightarrow> EasyBuffer" where
  "to_eb b = \<lparr>eb_data = sb_pData b, eb_tail = sb_pTail b, eb_size = sb_iSize b, eb_curr_size = sb_iCurrSize b\<rparr>"

definition of_eb :: "EasyBuffer \<Rightarrow> SingleBuffer" where
  "of_eb b = \<lparr>sb_pData = eb_data b, sb_pTail = eb_tail b, sb_iSize = eb_size b, sb_iCurrSize = eb_curr_size b\<rparr>"

lemma to_of_eb [simp]: "to_eb (of_eb b) = b" "of_eb (to_eb c) = c"
  by (simp_all add: to_eb_def of_eb_def)

lemma SingleBuffer_Push_eq:
  "SingleBuffer_Push b x n = map_option (\<lambda>(ok, b). (ok, of_eb b)) (PushToEasyBuffer (to_eb b) x n)"
  by (cases "memcpy (sb_pData b) (sb_pTail b) x 0 (unat n)")
    (auto simp: SingleBuffer_Push_def PushToEasyBuffer_def to_eb_def of_eb_def)

lemma SingleBuffer_Pop_eq:
  "SingleBuffer_Pop b d n = map_option (\<lambda>(k, b, d). (k, of_eb b, d)) (PopFromEasyBuffer (to_eb b) d n)"
  by (cases b; cases d)
    (auto simp: SingleBuffer_Pop_def PopFromEasyBuffer_def to_eb_def of_eb_def Let_def map_option_bind comp_def)

interpretation sb: byte_stack "\<lambda>b. eb_inv (to_eb b)" "\<lambda>b. eb_cont (to_eb b)" "\<lambda>b. eb_cap (to_eb b)" SingleBuffer_Push SingleBuffer_Pop
proof unfold_locales
  fix b show "eb_inv (to_eb b) \<Longrightarrow> eb_cap (to_eb b) < 2 ^ 32" by (rule eb.cap_bound)
  show "eb_inv (to_eb b) \<Longrightarrow> length (eb_cont (to_eb b)) \<le> eb_cap (to_eb b)" by (rule eb.cont_bound)
qed (use eb.push_fits eb.push_full eb.pop_some eb.pop_null in \<open>fastforce simp: SingleBuffer_Push_eq SingleBuffer_Pop_eq\<close>)+


section \<open>The ring buffer\<close>

text \<open>A fresh ring buffer is treated as full and as filled at the same time: head and tail coincide,
  so every push of at least one byte is refused, whatever the size of the buffer, while a pop
  delivers that many bytes, which nobody pushed.\<close>
theorem ring_buffer_never_starts:
  assumes "0 < n" "n \<le> k" "unat n \<le> length dst"
  shows "RingBuffer_Push pItem n (RingBuffer_new k) = Some (False, RingBuffer_new k) \<and>
    RingBuffer_Pop dst n (RingBuffer_new k) =
      Some ((unat n, replicate (unat n) 0 @ drop (unat n) dst), (RingBuffer_new k)\<lparr>rb_pHead := unat n\<rparr>)"
  using assms by (auto simp: RingBuffer_Push_def RingBuffer_Pop_def RingBuffer_new_def Let_def memcpy_Some
      word_less_nat_alt word_le_nat_alt)

theorem ring_buffer_never_starts_witness:
  "RingBuffer_Push [7] 1 (RingBuffer_new 8) = Some (False, RingBuffer_new 8) \<and>
    RingBuffer_Pop [9, 9] 1 (RingBuffer_new 8) = Some ((1, [0, 9]), (RingBuffer_new 8)\<lparr>rb_pHead := 1\<rparr>)"
  using ring_buffer_never_starts [of 1 8 "[9, 9]" "[7]"] by simp

end
