(* ===== verification/ToolPool.thy ===== *)
theory ToolPool
  imports Prelude
begin

text \<open>
  The pools and the alarm clock of the tool library: \<open>util.cpp\<close> (\<open>NumberPower\<close>), \<open>memory_pool.cpp\<close>,
  \<open>object_pool.h\<close> and \<open>alarm.cpp\<close> in \<open>FTCommon/Src/Tool\<close>.

  A node of the memory pool is an address with its index and the size of its buffer; the free
  lists are the interlocked lists of the source, last in, first out, whose operations are atomic.
  \<open>mp_used\<close> lists the nodes that are in use: it is no field of the class, it records what clients hold.
\<close>

section \<open>NumberPower\<close>

lemma u8_succ_31: "(i :: u8) < 31 \<Longrightarrow> unat (i + 1) = Suc (unat i) \<and> unat i < 31"
  using unat_succ_less [of i 31] by (simp add: word_less_nat_alt)

function NumberPower_loop :: "u8 \<Rightarrow> u32 \<Rightarrow> u8" where
  "NumberPower_loop i iNumber =
     (if i < 31 \<and> iNumber \<noteq> 0 then NumberPower_loop (i + 1) (drop_bit 1 iNumber) else i)"
  by pat_completeness auto
termination
  by (relation "measure (\<lambda>(i, n). 31 - unat i)") (auto dest!: u8_succ_31)

declare NumberPower_loop.simps [simp del]

definition NumberPower :: "u32 \<Rightarrow> u8" where
  "NumberPower iNumber = NumberPower_loop 0 iNumber"

lemma NumberPower_loop_stop: "\<not> (i < 31 \<and> n \<noteq> 0) \<Longrightarrow> NumberPower_loop i n = i"
  by (subst NumberPower_loop.simps) (simp only: if_False)

lemma NumberPower_loop_step:
  "i < 31 \<Longrightarrow> n \<noteq> 0 \<Longrightarrow> NumberPower_loop i n = NumberPower_loop (i + 1) (drop_bit 1 n)"
  by (subst NumberPower_loop.simps) simp

lemma NumberPower_loop_range:
  "unat i \<le> 31 \<Longrightarrow> unat (NumberPower_loop i n) \<le> 31 \<and> unat i \<le> unat (NumberPower_loop i n)"
proof (induction i n rule: NumberPower_loop.induct)
  case (1 i n)
  then show ?case
    by (cases "i < 31 \<and> n \<noteq> 0") (auto simp: NumberPower_loop_stop NumberPower_loop_step dest: u8_succ_31)
qed

lemma unat_half: "unat (drop_bit (Suc 0) (n :: u32)) = unat n div 2"
  by (simp add: drop_bit_eq_div unat_div_distrib)

lemma NumberPower_loop_upper:
  assumes "unat i \<le> 31" "unat n < 2 ^ (31 - unat i)"
  shows "unat n < 2 ^ (unat (NumberPower_loop i n) - unat i)"
  using assms
proof (induction i n rule: NumberPower_loop.induct)
  case (1 i n)
  show ?case
  proof (cases "i < 31 \<and> n \<noteq> 0")
    case False
    then show ?thesis using 1 by (auto simp: NumberPower_loop_stop word_less_nat_alt)
  next
    case True
    let ?r = "NumberPower_loop (i + 1) (drop_bit 1 n)"
    have i: "unat (i + 1) = Suc (unat i)" "unat i < 31" using u8_succ_31 True by auto
    have r: "Suc (unat i) \<le> unat ?r" using NumberPower_loop_range [of "i + 1" "drop_bit 1 n"] i by simp
    have "31 - unat i = Suc (31 - Suc (unat i))" using i by simp
    then have "(2 :: nat) ^ (31 - unat i) = 2 * 2 ^ (31 - Suc (unat i))" by (simp only: power_Suc)
    then have "unat n div 2 < 2 ^ (31 - Suc (unat i))" using "1.prems"(2) by linarith
    then have "unat n div 2 < 2 ^ (unat ?r - Suc (unat i))" using 1 True i by (simp add: unat_half)
    then have "unat n < 2 * 2 ^ (unat ?r - Suc (unat i))" by linarith
    moreover have "unat ?r - unat i = Suc (unat ?r - Suc (unat i))" using r by simp
    ultimately show ?thesis using True by (simp add: NumberPower_loop_step)
  qed
qed

lemma NumberPower_loop_lower:
  assumes "unat i < 31" "n \<noteq> 0"
  shows "2 ^ (unat (NumberPower_loop i n) - Suc (unat i)) \<le> unat n"
  using assms
proof (induction i n rule: NumberPower_loop.induct)
  case (1 i n)
  have T: "i < 31 \<and> n \<noteq> 0" using 1 by (simp add: word_less_nat_alt)
  let ?r = "NumberPower_loop (i + 1) (drop_bit 1 n)"
  have i: "unat (i + 1) = Suc (unat i)" "unat i < 31" using u8_succ_31 T by auto
  have n0: "0 < unat n" using T by (simp add: unat_gt_0)
  show ?case
  proof (cases "i + 1 < 31 \<and> drop_bit 1 n \<noteq> 0")
    case False
    then have "?r = i + 1" by (rule NumberPower_loop_stop)
    then show ?thesis using T i n0 by (simp add: NumberPower_loop_step)
  next
    case True
    have r: "Suc (Suc (unat i)) \<le> unat ?r"
      using NumberPower_loop_step [of "i + 1" "drop_bit 1 n"] True u8_succ_31 [of "i + 1"] i
        NumberPower_loop_range [of "i + 1 + 1" "drop_bit 1 (drop_bit 1 n)"] by simp
    have "2 ^ (unat ?r - Suc (Suc (unat i))) \<le> unat n div 2"
      using 1(1) [OF T] True i u8_succ_31 [of "i + 1"] by (simp add: unat_half)
    then have "2 * 2 ^ (unat ?r - Suc (Suc (unat i))) \<le> unat n" by linarith
    moreover have "unat ?r - Suc (unat i) = Suc (unat ?r - Suc (Suc (unat i)))" using r by simp
    ultimately show ?thesis using T by (simp add: NumberPower_loop_step)
  qed
qed

text \<open>\<open>NumberPower\<close> is the number of binary digits, for numbers below \<open>2^31\<close>.\<close>

lemma NumberPower_spec:
  assumes "unat n < 2 ^ 31"
  shows "unat n < 2 ^ unat (NumberPower n)" "n \<noteq> 0 \<Longrightarrow> 2 ^ (unat (NumberPower n) - 1) \<le> unat n" "unat (NumberPower n) \<le> 31"
  using NumberPower_loop_upper [of 0 n] NumberPower_loop_lower [of 0 n] NumberPower_loop_range [of 0 n] assms
  by (simp_all add: NumberPower_def)


section \<open>The contract of a pool\<close>

text \<open>What the users of a pool rely on: an object that is handed out is not in use, and an object that
  is in use can be given back.  A pool may also refuse.\<close>

locale pool =
  fixes invar :: "'s \<Rightarrow> bool" and used :: "'s \<Rightarrow> 'o set"
    and alloc :: "'r \<Rightarrow> 's \<Rightarrow> ('o option \<times> 's) option" and free :: "'o \<Rightarrow> 's \<Rightarrow> 's option"
  assumes alloc_ok: "invar s \<Longrightarrow> alloc r s = Some (res, s') \<Longrightarrow>
      invar s' \<and> (case res of None \<Rightarrow> used s' = used s | Some x \<Rightarrow> x \<notin> used s \<and> used s' = insert x (used s))"
    and free_ok: "invar s \<Longrightarrow> x \<in> used s \<Longrightarrow> \<exists>s'. free x s = Some s' \<and> invar s' \<and> used s' = used s - {x}"
begin

lemma alloc_distinct:
  assumes "invar s" "alloc r s = Some (Some x, s1)" "alloc r' s1 = Some (Some y, s2)"
  shows "x \<noteq> y \<and> {x, y} \<subseteq> used s2"
  using alloc_ok [OF assms(1,2)] alloc_ok [of s1 r' "Some y" s2] assms(3) by auto

lemma alloc_free:
  assumes "invar s" "alloc r s = Some (Some x, s1)"
  shows "\<exists>s2. free x s1 = Some s2 \<and> invar s2 \<and> used s2 = used s"
  using alloc_ok [OF assms] free_ok [of s1 x] by auto

end

section \<open>MemoryPool\<close>

record Node =
  n_addr :: nat
  n_iIndex :: u8
  n_size :: nat

record MemoryPool =
  mp_iMinPower :: u32
  mp_iMaxPower :: u32
  mp_iCount :: i32
  mp_Headers :: "Node list list"
  mp_iHeaderCount :: u32
  mp_next :: nat
  mp_used :: "Node list"

definition MemoryPool_Init :: "u32 \<Rightarrow> u32 \<Rightarrow> Node list list \<Rightarrow> nat \<Rightarrow> MemoryPool option" where
  "MemoryPool_Init iMin iMax junk next = do {
     let minp = ucast (NumberPower iMin);
     let maxp = ucast (NumberPower iMax);
     let count = maxp - minp + 1;
     if unat count \<le> length junk then
       Some \<lparr>mp_iMinPower = minp, mp_iMaxPower = maxp, mp_iCount = 0,
         mp_Headers = replicate (unat count) [] @ drop (unat count) junk, mp_iHeaderCount = count,
         mp_next = next, mp_used = []\<rparr>
     else None
   }"

text \<open>The first component of the argument tells whether \<open>_aligned_malloc\<close> succeeds: the source uses the new node
  without a check, so that a failure is a crash (\<open>None\<close>).  The \<open>_ASSERT\<close> on the size is compiled out in a
  release build, which returns NULL.\<close>

definition MemoryPool_Allocate :: "bool \<times> u32 \<Rightarrow> MemoryPool \<Rightarrow> (Node option \<times> MemoryPool) option" where
  "MemoryPool_Allocate r m =
     (let iPower = NumberPower (snd r) in
      if ucast iPower > mp_iMaxPower m then Some (None, m)
      else (let iPower = (if ucast iPower < mp_iMinPower m then ucast (mp_iMinPower m) else iPower);
                iIndex = iPower - ucast (mp_iMinPower m) in
        if unat iIndex \<ge> length (mp_Headers m) then None
        else (case mp_Headers m ! unat iIndex of
            n # ns \<Rightarrow> Some (Some n, m\<lparr>mp_Headers := (mp_Headers m)[unat iIndex := ns], mp_used := n # mp_used m\<rparr>)
          | [] \<Rightarrow>
              (if \<not> fst r then None else
               (let n = \<lparr>n_addr = mp_next m, n_iIndex = iIndex, n_size = 2 ^ unat iPower\<rparr> in
                Some (Some n, m\<lparr>mp_iCount := mp_iCount m + 1, mp_next := Suc (mp_next m), mp_used := n # mp_used m\<rparr>))))))"

definition MemoryPool_Free :: "Node \<Rightarrow> MemoryPool \<Rightarrow> MemoryPool option" where
  "MemoryPool_Free n m =
     (if n \<in> set (mp_used m) \<and> unat (n_iIndex n) < length (mp_Headers m)
      then Some (m\<lparr>mp_Headers := (mp_Headers m)[unat (n_iIndex n) := n # mp_Headers m ! unat (n_iIndex n)],
                   mp_used := remove1 n (mp_used m)\<rparr>)
      else None)"

text \<open>The destructor pops nodes while \<open>QueryDepthSList\<close> is not zero.  This depth has 16 bits, so that a list whose
  length is a multiple of 65536 counts as empty.  \<open>free_list\<close> returns the count and the nodes that stay, \<open>MemoryPool_delete\<close> the
  count, whether its assertion holds, and the nodes that are never freed.\<close>

fun free_list :: "i32 \<Rightarrow> Node list \<Rightarrow> i32 \<times> Node list" where
  "free_list c [] = (c, [])"
| "free_list c (n # ns) = (if (word_of_nat (length (n # ns)) :: u16) = 0 then (c, n # ns) else free_list (c - 1) ns)"

fun free_lists :: "i32 \<Rightarrow> Node list list \<Rightarrow> i32 \<times> Node list" where
  "free_lists c [] = (c, [])"
| "free_lists c (ns # nss) = (let (c, rest) = free_list c ns; (c, rests) = free_lists c nss in (c, rest @ rests))"

definition MemoryPool_delete :: "MemoryPool \<Rightarrow> i32 \<times> bool \<times> Node list" where
  "MemoryPool_delete m =
     (let (c, rest) = free_lists (mp_iCount m) (take (unat (mp_iHeaderCount m)) (mp_Headers m)) in (c, c = 0, rest))"

definition mp_total :: "MemoryPool \<Rightarrow> nat" where
  "mp_total m = sum_list (map length (take (unat (mp_iHeaderCount m)) (mp_Headers m))) + length (mp_used m)"

definition node_ok :: "MemoryPool \<Rightarrow> Node \<Rightarrow> bool" where
  "node_ok m n \<longleftrightarrow> n_size n = 2 ^ (unat (mp_iMinPower m) + unat (n_iIndex n)) \<and>
     unat (n_iIndex n) < unat (mp_iHeaderCount m) \<and> n_addr n < mp_next m"

definition header_ok :: "MemoryPool \<Rightarrow> nat \<Rightarrow> bool" where
  "header_ok m i \<longleftrightarrow> distinct (mp_Headers m ! i) \<and>
     (\<forall>n \<in> set (mp_Headers m ! i). node_ok m n \<and> unat (n_iIndex n) = i \<and> n \<notin> set (mp_used m))"

definition mp_headers_inv :: "MemoryPool \<Rightarrow> bool" where
  "mp_headers_inv m \<longleftrightarrow> (\<forall>i < unat (mp_iHeaderCount m). header_ok m i)"

definition mp_inv :: "MemoryPool \<Rightarrow> bool" where
  "mp_inv m \<longleftrightarrow> unat (mp_iMinPower m) \<le> unat (mp_iMaxPower m) \<and> unat (mp_iMaxPower m) \<le> 31 \<and>
     unat (mp_iHeaderCount m) = unat (mp_iMaxPower m) - unat (mp_iMinPower m) + 1 \<and>
     length (mp_Headers m) = 32 \<and>
     mp_headers_inv m \<and> mp_iCount m = word_of_nat (mp_total m) \<and>
     (\<forall>n \<in> set (mp_used m). node_ok m n) \<and> distinct (mp_used m)"

lemma free_list_count: "free_list c ns = (c', rest) \<Longrightarrow>
    c' = c - word_of_nat (length ns) + word_of_nat (length rest) \<and> length rest = 65536 * (length ns div 65536)"
proof (induction ns arbitrary: c)
  case (Cons n ns)
  have dvd: "(word_of_nat (length (n # ns)) :: u16) = 0 \<longleftrightarrow> 65536 dvd length (n # ns)" by (simp only: word_of_nat_eq_0_iff) simp
  show ?case
  proof (cases "(word_of_nat (length (n # ns)) :: u16) = 0")
    case True
    then have "65536 dvd length (n # ns)" by (simp only: dvd)
    then have "65536 * (length (n # ns) div 65536) = length (n # ns)" by (rule dvd_mult_div_cancel)
    then show ?thesis using Cons.prems True by auto
  next
    case False
    then have "\<not> 65536 dvd Suc (length ns)" using dvd by simp
    then have "Suc (length ns) div 65536 = length ns div 65536" by (simp add: div_Suc dvd_eq_mod_eq_0)
    then show ?thesis using Cons.IH [of "c - 1"] Cons.prems False by (simp add: algebra_simps)
  qed
qed simp

lemma free_lists_count: "free_lists c nss = (c', rest) \<Longrightarrow>
    c' = c - word_of_nat (sum_list (map length nss)) + word_of_nat (length rest) \<and>
    length rest = 65536 * sum_list (map (\<lambda>ns. length ns div 65536) nss)"
proof (induction nss arbitrary: c c' rest)
  case (Cons ns nss)
  obtain c1 r1 where 1: "free_list c ns = (c1, r1)" by (cases "free_list c ns")
  obtain c2 r2 where 2: "free_lists c1 nss = (c2, r2)" by (cases "free_lists c1 nss")
  have "c' = c2" "rest = r1 @ r2" using Cons.prems 1 2 by simp_all
  then show ?case using Cons.IH [OF 2] free_list_count [OF 1] by (simp add: algebra_simps)
qed simp

lemma mp_total_update:
  assumes "i < unat (mp_iHeaderCount m)" "i < length (mp_Headers m)"
    "length ns + length us = length (mp_Headers m ! i) + length (mp_used m)"
  shows "mp_total (m\<lparr>mp_Headers := (mp_Headers m)[i := ns], mp_used := us\<rparr>) = mp_total m"
proof -
  let ?l = "map length (take (unat (mp_iHeaderCount m)) (mp_Headers m))"
  have "?l ! i \<in> set ?l" using assms(1,2) by (intro nth_mem) simp
  then have "?l ! i \<le> sum_list ?l" by (rule member_le_sum_list) simp
  then show ?thesis
    using assms by (simp add: mp_total_def take_update_swap map_update sum_list_update)
qed

lemma ucast8_32 [simp]: "unat (ucast (w :: u8) :: u32) = unat w"
proof -
  have "unat w < 2 ^ LENGTH(32)" by (rule less_trans [OF unat_less_u8]) simp
  then show ?thesis by (simp only: unsigned_ucast_eq take_bit_nat_eq_self)
qed

lemma ucast32_8: "unat (w :: u32) < 256 \<Longrightarrow> unat (ucast w :: u8) = unat w"
  by (simp add: unsigned_ucast_eq take_bit_eq_mod)

lemma NumberPower_mono: "unat a < 2 ^ 31 \<Longrightarrow> unat b < 2 ^ 31 \<Longrightarrow> a \<le> b \<Longrightarrow> unat (NumberPower a) \<le> unat (NumberPower b)"
proof (rule ccontr)
  assume a: "unat a < 2 ^ 31" "unat b < 2 ^ 31" "a \<le> b" "\<not> unat (NumberPower a) \<le> unat (NumberPower b)"
  then have "a \<noteq> 0" by (auto simp: NumberPower_def NumberPower_loop_stop)
  then have "2 ^ (unat (NumberPower a) - 1) \<le> unat a" using NumberPower_spec(2) a(1) by blast
  moreover have "unat b < 2 ^ unat (NumberPower b)" using NumberPower_spec(1) a(2) by blast
  moreover have "(2 :: nat) ^ unat (NumberPower b) \<le> 2 ^ (unat (NumberPower a) - 1)"
    using a(4) by (intro power_increasing) auto
  moreover have "unat a \<le> unat b" using a(3) by (simp add: word_le_nat_alt)
  ultimately show False by linarith
qed

lemma MemoryPool_Init_ok:
  assumes "unat iMin < 2 ^ 31" "unat iMax < 2 ^ 31" "iMin \<le> iMax" "length junk = 32"
  shows "\<exists>m. MemoryPool_Init iMin iMax junk nx = Some m \<and> mp_inv m \<and> mp_used m = [] \<and>
    unat (mp_iMaxPower m) = unat (NumberPower iMax)"
proof -
  let ?a = "ucast (NumberPower iMin) :: u32" and ?b = "ucast (NumberPower iMax) :: u32"
  have le: "unat ?a \<le> unat ?b" "unat ?b \<le> 31"
    using NumberPower_mono [OF assms(1-3)] NumberPower_spec(3) [OF assms(2)] by simp_all
  define k where "k = unat (?b - ?a + 1)"
  have k: "k = unat ?b - unat ?a + 1"
    unfolding k_def using le by (subst unat_add_no_wrap) (simp_all add: unat_sub_le word_le_nat_alt)
  have "(replicate k [] @ drop k junk) ! i = []" if "i < k" for i using that by (simp add: nth_append)
  moreover have "k \<le> 32" using k le by simp
  ultimately show ?thesis
    using le assms(4) k by (simp add: MemoryPool_Init_def mp_inv_def mp_headers_inv_def header_ok_def mp_total_def sum_list_replicate Let_def k_def [symmetric])
qed


lemma MemoryPool_Allocate_ok:
  assumes I: "mp_inv m"
  shows "MemoryPool_Allocate (ok, iSize) m = Some (None, m) \<longleftrightarrow> unat (mp_iMaxPower m) < unat (NumberPower iSize)"
    and "unat (NumberPower iSize) \<le> unat (mp_iMaxPower m) \<Longrightarrow> ok \<Longrightarrow>
      \<exists>n m'. MemoryPool_Allocate (ok, iSize) m = Some (Some n, m')"
    and "MemoryPool_Allocate (ok, iSize) m = Some (Some n, m') \<Longrightarrow>
      mp_inv m' \<and> n \<notin> set (mp_used m) \<and> mp_used m' = n # mp_used m \<and> 2 ^ unat (NumberPower iSize) \<le> n_size n"
proof -
  let ?p = "NumberPower iSize" and ?min = "mp_iMinPower m"
  let ?q = "if ucast ?p < ?min then ucast ?min else ?p"
  let ?i = "?q - ucast ?min :: u8"
  have b: "unat ?min \<le> 31" "unat (mp_iMaxPower m) \<le> 31" using I by (auto simp: mp_inv_def)
  have q: "unat ?q = max (unat ?p) (unat ?min)" using b by (auto simp: word_less_nat_alt ucast32_8)
  have i: "unat ?i = max (unat ?p) (unat ?min) - unat ?min"
    using q b by (simp add: unat_sub_le word_le_nat_alt ucast32_8)
  show "MemoryPool_Allocate (ok, iSize) m = Some (None, m) \<longleftrightarrow> unat (mp_iMaxPower m) < unat ?p"
    by (auto simp: MemoryPool_Allocate_def Let_def word_less_nat_alt split: list.splits if_splits)
  show "\<exists>n m'. MemoryPool_Allocate (ok, iSize) m = Some (Some n, m')" if "unat ?p \<le> unat (mp_iMaxPower m)" ok
    using that I i b by (auto simp: MemoryPool_Allocate_def Let_def word_less_nat_alt mp_inv_def split: list.splits)
  assume A: "MemoryPool_Allocate (ok, iSize) m = Some (Some n, m')"
  have le: "unat ?p \<le> unat (mp_iMaxPower m)"
    using A by (auto simp: MemoryPool_Allocate_def Let_def word_less_nat_alt split: if_splits)
  have ih: "unat ?i < unat (mp_iHeaderCount m)" "unat ?i < length (mp_Headers m)" using I i le by (auto simp: mp_inv_def)
  show "mp_inv m' \<and> n \<notin> set (mp_used m) \<and> mp_used m' = n # mp_used m \<and> 2 ^ unat ?p \<le> n_size n"
  proof (cases "mp_Headers m ! unat ?i")
    case Nil
    then have m': "n = \<lparr>n_addr = mp_next m, n_iIndex = ?i, n_size = 2 ^ unat ?q\<rparr>"
        "m' = m\<lparr>mp_iCount := mp_iCount m + 1, mp_next := Suc (mp_next m), mp_used := n # mp_used m\<rparr>"
      using A le by (auto simp: MemoryPool_Allocate_def Let_def word_less_nat_alt split: if_splits)
    have fr: "node_ok m' x" if "node_ok m x" for x using that m' by (auto simp: node_ok_def)
    have nn: "\<not> node_ok m n" using m'(1) by (simp add: node_ok_def)
    have "node_ok m' n" using m' ih q i by (simp add: node_ok_def power_add [symmetric])
    moreover have "mp_headers_inv m'"
      using I fr nn m'(2) by (auto simp: mp_inv_def mp_headers_inv_def header_ok_def)
    ultimately have "mp_inv m'" using I fr nn m'(2) by (auto simp: mp_inv_def mp_total_def)
    moreover have "n \<notin> set (mp_used m)" using I nn by (auto simp: mp_inv_def)
    moreover have "2 ^ unat ?p \<le> n_size n" using m'(1) q by (auto intro: power_increasing)
    ultimately show ?thesis using m'(2) by simp
  next
    case (Cons x xs)
    then have m': "n = x" "m' = m\<lparr>mp_Headers := (mp_Headers m)[unat ?i := xs], mp_used := x # mp_used m\<rparr>"
      using A le by (auto simp: MemoryPool_Allocate_def Let_def word_less_nat_alt split: if_splits)
    have hd: "\<forall>y \<in> set (x # xs). node_ok m y \<and> unat (n_iIndex y) = unat ?i \<and> y \<notin> set (mp_used m)"
      using I ih(1) unfolding mp_inv_def mp_headers_inv_def header_ok_def Cons [symmetric] by blast
    have d: "distinct (x # xs)"
      using I ih(1) unfolding mp_inv_def mp_headers_inv_def header_ok_def Cons [symmetric] by blast
    have x: "node_ok m x" "unat (n_iIndex x) = unat ?i" "x \<notin> set (mp_used m)" "x \<notin> set xs" "distinct xs"
      using hd d by auto
    have mp: "mp_headers_inv m' \<longleftrightarrow> (\<forall>j < unat (mp_iHeaderCount m). header_ok m' j)"
      by (simp add: mp_headers_inv_def m'(2))
    have "header_ok m' j" if j: "j < unat (mp_iHeaderCount m)" for j
    proof (cases "j = unat ?i")
      case True
      then show ?thesis using hd d ih(2) by (auto simp: header_ok_def m'(2) node_ok_def)
    next
      case False
      have "header_ok m j" using I j by (simp add: mp_inv_def mp_headers_inv_def)
      then show ?thesis using False x(2) by (auto simp: header_ok_def m'(2) node_ok_def)
    qed
    then have "mp_headers_inv m'" by (simp only: mp) blast
    moreover have "node_ok m' = node_ok m" by (simp add: fun_eq_iff node_ok_def m'(2))
    moreover have "mp_total m' = mp_total m"
      unfolding m'(2) using ih Cons by (intro mp_total_update) simp_all
    ultimately have "mp_inv m'" using I x(1,3) by (simp add: mp_inv_def) (simp add: m'(2))
    moreover have "2 ^ unat ?p \<le> n_size x"
    proof -
      have "unat ?p \<le> unat ?min + unat ?i" using i by simp
      then show ?thesis using x(1,2) by (simp add: node_ok_def power_increasing)
    qed
    ultimately show ?thesis using m' x(3) by simp
  qed
qed


lemma MemoryPool_Free_ok:
  assumes I: "mp_inv m" and n: "n \<in> set (mp_used m)"
  shows "\<exists>m'. MemoryPool_Free n m = Some m' \<and> mp_inv m' \<and> mp_used m' = remove1 n (mp_used m)"
proof -
  let ?i = "unat (n_iIndex n)"
  have i: "?i < unat (mp_iHeaderCount m)" "?i < length (mp_Headers m)" "node_ok m n"
    using I n by (auto simp: mp_inv_def node_ok_def)
  define m' where "m' = m\<lparr>mp_Headers := (mp_Headers m)[?i := n # mp_Headers m ! ?i], mp_used := remove1 n (mp_used m)\<rparr>"
  have nk: "node_ok m' = node_ok m" by (auto simp: m'_def node_ok_def fun_eq_iff)
  have dn: "distinct (mp_used m)" "\<forall>y \<in> set (mp_used m). node_ok m y" using I by (simp_all add: mp_inv_def)
  have "header_ok m' j" if j: "j < unat (mp_iHeaderCount m)" for j
  proof -
    have h: "header_ok m j" using I j by (simp add: mp_inv_def mp_headers_inv_def)
    then have "n \<notin> set (mp_Headers m ! j)" using n by (auto simp: header_ok_def)
    then show ?thesis
      using h i dn unfolding header_ok_def nk by (cases "j = ?i") (auto simp: m'_def)
  qed
  then have "mp_headers_inv m'" by (simp add: mp_headers_inv_def m'_def)
  moreover have "mp_total m' = mp_total m"
    unfolding m'_def using i n length_pos_if_in_set [OF n] by (intro mp_total_update) (auto simp: length_remove1)
  ultimately have "mp_inv m'" using I dn unfolding mp_inv_def nk by (auto simp: m'_def)
  then show ?thesis using n i(2) by (auto simp: MemoryPool_Free_def m'_def)
qed

interpretation mp: pool mp_inv "\<lambda>m. set (mp_used m)" MemoryPool_Allocate MemoryPool_Free
proof
  fix s r res s' assume "mp_inv s" "MemoryPool_Allocate r s = Some (res, s')"
  then show "mp_inv s' \<and> (case res of None \<Rightarrow> set (mp_used s') = set (mp_used s) | Some x \<Rightarrow> x \<notin> set (mp_used s) \<and> set (mp_used s') = insert x (set (mp_used s)))"
    using MemoryPool_Allocate_ok(3) [of s "fst r" "snd r"]
    by (cases res) (auto simp: MemoryPool_Allocate_def Let_def split: if_splits list.splits)
next
  fix s x assume "mp_inv s" "x \<in> set (mp_used s)"
  then show "\<exists>s'. MemoryPool_Free x s = Some s' \<and> mp_inv s' \<and> set (mp_used s') = set (mp_used s) - {x}"
    using MemoryPool_Free_ok [of s x] by (auto simp: mp_inv_def)
qed

text \<open>The free list in which Allocate looks for a block.\<close>

definition mp_list :: "MemoryPool \<Rightarrow> u32 \<Rightarrow> Node list" where
  "mp_list m iSize = mp_Headers m ! (max (unat (NumberPower iSize)) (unat (mp_iMinPower m)) - unat (mp_iMinPower m))"

lemma Allocate_without_memory:
  assumes I: "mp_inv m" and le: "unat (NumberPower iSize) \<le> unat (mp_iMaxPower m)"
  shows "if mp_list m iSize = [] then MemoryPool_Allocate (False, iSize) m = None
    else \<exists>n m'. MemoryPool_Allocate (False, iSize) m = Some (Some n, m')"
proof -
  let ?p = "NumberPower iSize" and ?min = "mp_iMinPower m"
  let ?q = "if ucast ?p < ?min then ucast ?min else ?p"
  let ?i = "?q - ucast ?min :: u8"
  have b: "unat ?min \<le> 31" "unat (mp_iMaxPower m) \<le> 31" using I by (auto simp: mp_inv_def)
  have q: "unat ?q = max (unat ?p) (unat ?min)" using b by (auto simp: word_less_nat_alt ucast32_8)
  have i: "unat ?i = max (unat ?p) (unat ?min) - unat ?min"
    using q b by (simp add: unat_sub_le word_le_nat_alt ucast32_8)
  have "\<not> ucast ?p > mp_iMaxPower m" "\<not> length (mp_Headers m) \<le> unat ?i"
    using I le b i by (auto simp: word_less_nat_alt mp_inv_def)
  then have "MemoryPool_Allocate (False, iSize) m = (case mp_Headers m ! unat ?i of
      n # ns \<Rightarrow> Some (Some n, m\<lparr>mp_Headers := (mp_Headers m)[unat ?i := ns], mp_used := n # mp_used m\<rparr>) | [] \<Rightarrow> None)"
    unfolding MemoryPool_Allocate_def Let_def snd_conv fst_conv by (simp only: if_False not_False_eq_True if_True cong: list.case_cong)
  then show ?thesis unfolding mp_list_def i [symmetric] by (cases "mp_Headers m ! unat ?i") simp_all
qed

text \<open>C27: The memory pool.  For a size below \<open>2^31\<close> and up to the pool's maximum Allocate returns a block with room for
  it that nobody else holds, recycled or, when there is memory, new; without memory and without a block to recycle it uses the NULL pointer.
  A larger size is refused with NULL and changes nothing.
  A block can always be given back, and the pool is then as usable as before.  When every block has been
  given back, the destructor leaves as many blocks as its count then says, a multiple of 65536 for each list, because the depth of a list has 16 bits.  Below \<open>2^32\<close> blocks
  it frees all of them, and its assertion on the count holds, exactly if no list has 65536 or more.\<close>
theorem memory_pool_correct:
  assumes I: "mp_inv m" and sz: "unat iSize < 2 ^ 31"
  shows "(if unat (NumberPower iSize) \<le> unat (mp_iMaxPower m)
    then if memory \<or> mp_list m iSize \<noteq> []
      then \<exists>n m1 m2. MemoryPool_Allocate (memory, iSize) m = Some (Some n, m1) \<and> unat iSize < n_size n \<and>
        n \<notin> set (mp_used m) \<and> mp_inv m1 \<and> MemoryPool_Free n m1 = Some m2 \<and> mp_inv m2 \<and> set (mp_used m2) = set (mp_used m)
      else MemoryPool_Allocate (memory, iSize) m = None
    else MemoryPool_Allocate (memory, iSize) m = Some (None, m)) \<and>
   (mp_used m = [] \<longrightarrow> (\<exists>c holds rest. MemoryPool_delete m = (c, holds, rest) \<and> c = word_of_nat (length rest) \<and>
      (mp_total m < 2 ^ 32 \<longrightarrow> (rest = [] \<longleftrightarrow> holds) \<and>
         (holds \<longleftrightarrow> (\<forall>ns \<in> set (take (unat (mp_iHeaderCount m)) (mp_Headers m)). length ns < 65536)))))"
proof
  show "mp_used m = [] \<longrightarrow> (\<exists>c holds rest. MemoryPool_delete m = (c, holds, rest) \<and> c = word_of_nat (length rest) \<and>
      (mp_total m < 2 ^ 32 \<longrightarrow> (rest = [] \<longleftrightarrow> holds) \<and>
         (holds \<longleftrightarrow> (\<forall>ns \<in> set (take (unat (mp_iHeaderCount m)) (mp_Headers m)). length ns < 65536))))"
  proof
    assume u: "mp_used m = []"
    let ?nss = "take (unat (mp_iHeaderCount m)) (mp_Headers m)"
    obtain c rest where d: "free_lists (mp_iCount m) ?nss = (c, rest)" by (cases "free_lists (mp_iCount m) ?nss")
    have tot: "mp_total m = sum_list (map length ?nss)" using u by (simp add: mp_total_def)
    have c: "c = word_of_nat (length rest)" "length rest = 65536 * sum_list (map (\<lambda>ns. length ns div 65536) ?nss)"
      using free_lists_count [OF d] I tot by (simp_all add: mp_inv_def)
    have empty: "rest = [] \<longleftrightarrow> (\<forall>ns \<in> set ?nss. length ns < 65536)"
      using c(2) by (simp add: sum_list_eq_0_iff div_eq_0_iff flip: length_0_conv)
    have "length rest \<le> mp_total m" unfolding tot c(2) sum_list_const_mult [symmetric] by (rule sum_list_mono) simp
    then have "c = 0 \<longleftrightarrow> rest = []" if "mp_total m < 2 ^ 32"
      using that unfolding c(1) by (auto simp: word_of_nat_eq_0_iff dest: dvd_imp_le)
    then show "\<exists>c holds rest. MemoryPool_delete m = (c, holds, rest) \<and> c = word_of_nat (length rest) \<and>
      (mp_total m < 2 ^ 32 \<longrightarrow> (rest = [] \<longleftrightarrow> holds) \<and> (holds \<longleftrightarrow> (\<forall>ns \<in> set ?nss. length ns < 65536)))"
      using c(1) empty by (intro exI [of _ c] exI [of _ "c = 0"] exI [of _ rest]) (simp add: MemoryPool_delete_def d)
  qed
  show "if unat (NumberPower iSize) \<le> unat (mp_iMaxPower m)
    then if memory \<or> mp_list m iSize \<noteq> []
      then \<exists>n m1 m2. MemoryPool_Allocate (memory, iSize) m = Some (Some n, m1) \<and> unat iSize < n_size n \<and>
        n \<notin> set (mp_used m) \<and> mp_inv m1 \<and> MemoryPool_Free n m1 = Some m2 \<and> mp_inv m2 \<and> set (mp_used m2) = set (mp_used m)
      else MemoryPool_Allocate (memory, iSize) m = None
    else MemoryPool_Allocate (memory, iSize) m = Some (None, m)"
  proof (cases "unat (NumberPower iSize) \<le> unat (mp_iMaxPower m)")
    case le: True
    show ?thesis
    proof (cases "memory \<or> mp_list m iSize \<noteq> []")
      case True
      obtain n m1 where a: "MemoryPool_Allocate (memory, iSize) m = Some (Some n, m1)"
        using True MemoryPool_Allocate_ok(2) [OF I le, of True] Allocate_without_memory [OF I le] by (cases memory) auto
      have "unat iSize < 2 ^ unat (NumberPower iSize)" by (rule NumberPower_spec(1) [OF sz])
      then show ?thesis
        using True le a MemoryPool_Allocate_ok(3) [OF I a] mp.alloc_free [OF I a] by (auto intro: less_le_trans)
    next
      case False
      then show ?thesis using le Allocate_without_memory [OF I le] by simp
    qed
  qed (use MemoryPool_Allocate_ok(1) [OF I] in auto)
qed

theorem memory_pool_correct_witness:
  "\<exists>m n m1. MemoryPool_Init 16 1024 (replicate 32 []) 0 = Some m \<and>
    MemoryPool_Allocate (True, 100) m = Some (Some n, m1) \<and> 100 < n_size n"
proof -
  obtain m where m: "MemoryPool_Init 16 1024 (replicate 32 []) 0 = Some m" "mp_inv m"
      "unat (mp_iMaxPower m) = unat (NumberPower 1024)"
    using MemoryPool_Init_ok [of 16 1024 "replicate 32 []" 0] by auto
  have "unat (NumberPower 100) \<le> unat (mp_iMaxPower m)"
    unfolding m(3) by (rule NumberPower_mono) simp_all
  then show ?thesis using memory_pool_correct [of m 100 True] m by auto
qed

section \<open>ObjectPool\<close>

text \<open>Objects are addresses; \<open>ob_out\<close> records those that clients hold.\<close>

record ObjectPool =
  ob_ObjectList :: "nat list"
  ob_iMaxSize :: u16
  ob_iUsedSize :: u16
  ob_next :: nat
  ob_out :: "nat list"

definition ObjectPool_new :: "u16 \<Rightarrow> ObjectPool" where
  "ObjectPool_new iObjectMax = \<lparr>ob_ObjectList = [], ob_iMaxSize = iObjectMax, ob_iUsedSize = 0, ob_next = 0, ob_out = []\<rparr>"

definition ObjectPool_Allocate :: "unit \<Rightarrow> ObjectPool \<Rightarrow> (nat option \<times> ObjectPool) option" where
  "ObjectPool_Allocate u p =
     (if ob_iMaxSize p > ob_iUsedSize p then
        (case ob_ObjectList p of
           [] \<Rightarrow> Some (Some (ob_next p), p\<lparr>ob_next := Suc (ob_next p), ob_iUsedSize := ob_iUsedSize p + 1, ob_out := ob_next p # ob_out p\<rparr>)
         | x # xs \<Rightarrow> Some (Some x, p\<lparr>ob_ObjectList := xs, ob_iUsedSize := ob_iUsedSize p + 1, ob_out := x # ob_out p\<rparr>))
      else Some (None, p))"

definition ObjectPool_Free :: "nat \<Rightarrow> ObjectPool \<Rightarrow> ObjectPool option" where
  "ObjectPool_Free x p = Some (p\<lparr>ob_ObjectList := ob_ObjectList p @ [x], ob_iUsedSize := ob_iUsedSize p - 1,
     ob_out := remove1 x (ob_out p)\<rparr>)"

definition op_inv :: "ObjectPool \<Rightarrow> bool" where
  "op_inv p \<longleftrightarrow> distinct (ob_ObjectList p @ ob_out p) \<and> (\<forall>x \<in> set (ob_ObjectList p @ ob_out p). x < ob_next p) \<and>
     unat (ob_iUsedSize p) = length (ob_out p) \<and> ob_iUsedSize p \<le> ob_iMaxSize p"

lemma op_new: "op_inv (ObjectPool_new k)" "ob_out (ObjectPool_new k) = []"
  by (simp_all add: op_inv_def ObjectPool_new_def)

lemma ObjectPool_Allocate_ok:
  assumes I: "op_inv p" and a: "ObjectPool_Allocate u p = Some (res, p')"
  shows "op_inv p' \<and> ob_iMaxSize p' = ob_iMaxSize p \<and> (case res of
     None \<Rightarrow> p' = p \<and> length (ob_out p) = unat (ob_iMaxSize p)
   | Some x \<Rightarrow> x \<notin> set (ob_out p) \<and> ob_out p' = x # ob_out p \<and> length (ob_out p) < unat (ob_iMaxSize p))"
proof (cases "ob_iMaxSize p > ob_iUsedSize p")
  case True
  have u: "unat (ob_iUsedSize p + 1) = Suc (unat (ob_iUsedSize p))" by (rule unat_succ_less [OF True])
  show ?thesis
    using I a True u
    by (cases "ob_ObjectList p") (auto simp: ObjectPool_Allocate_def op_inv_def word_less_nat_alt word_le_nat_alt less_Suc_eq)
qed (use I a in \<open>auto simp: ObjectPool_Allocate_def op_inv_def word_less_nat_alt word_le_nat_alt\<close>)

lemma ObjectPool_Free_ok:
  assumes I: "op_inv p" and x: "x \<in> set (ob_out p)"
  shows "\<exists>p'. ObjectPool_Free x p = Some p' \<and> op_inv p' \<and> ob_out p' = remove1 x (ob_out p)"
proof -
  have "0 < unat (ob_iUsedSize p)" using x I by (cases "ob_out p") (auto simp: op_inv_def)
  then have "1 \<le> ob_iUsedSize p" by (simp add: word_le_nat_alt Suc_le_eq)
  then have "unat (ob_iUsedSize p - 1) = unat (ob_iUsedSize p) - 1" by (simp add: unat_sub_le)
  then show ?thesis using I x
    by (auto simp: ObjectPool_Free_def op_inv_def length_remove1 word_le_nat_alt)
qed

interpretation ob: pool op_inv "\<lambda>p. set (ob_out p)" ObjectPool_Allocate ObjectPool_Free
proof
  fix s r res s' assume "op_inv s" "ObjectPool_Allocate r s = Some (res, s')"
  from ObjectPool_Allocate_ok [OF this]
  show "op_inv s' \<and> (case res of None \<Rightarrow> set (ob_out s') = set (ob_out s) | Some x \<Rightarrow> x \<notin> set (ob_out s) \<and> set (ob_out s') = insert x (set (ob_out s)))"
    by (auto split: option.splits)
next
  fix s x assume "op_inv s" "x \<in> set (ob_out s)"
  then show "\<exists>s'. ObjectPool_Free x s = Some s' \<and> op_inv s' \<and> set (ob_out s') = set (ob_out s) - {x}"
    using ObjectPool_Free_ok [of s x] by (auto simp: op_inv_def)
qed

text \<open>The object pool.  Starting from a fresh pool, as long as fewer than the maximum are out,
  Allocate hands out an object that nobody else holds; with the maximum out it returns NULL and changes
  nothing; and giving an object back makes room for one more.\<close>
theorem object_pool_correct:
  assumes I: "op_inv p"
  shows "(if length (ob_out p) < unat (ob_iMaxSize p)
     then \<exists>x p1 p2. ObjectPool_Allocate () p = Some (Some x, p1) \<and> x \<notin> set (ob_out p) \<and> ob_out p1 = x # ob_out p \<and>
       op_inv p1 \<and> ObjectPool_Free x p1 = Some p2 \<and> op_inv p2 \<and> set (ob_out p2) = set (ob_out p)
     else ObjectPool_Allocate () p = Some (None, p)) \<and>
   length (ob_out p) \<le> unat (ob_iMaxSize p)"
proof -
  have le: "length (ob_out p) \<le> unat (ob_iMaxSize p)" using I by (auto simp: op_inv_def word_le_nat_alt)
  obtain res p1 where a: "ObjectPool_Allocate () p = Some (res, p1)"
    by (fastforce simp: ObjectPool_Allocate_def split: list.splits if_splits)
  note ok = ObjectPool_Allocate_ok [OF I a]
  show ?thesis
  proof (cases res)
    case None
    then show ?thesis using ok a le by simp
  next
    case (Some x)
    then show ?thesis using ok a le ob.alloc_free [OF I, of "()" x p1] by auto
  qed
qed

theorem object_pool_correct_witness:
  "\<exists>x p1. ObjectPool_Allocate () (ObjectPool_new 1) = Some (Some x, p1) \<and> ObjectPool_Allocate () p1 = Some (None, p1)"
proof -
  obtain x p1 where a: "ObjectPool_Allocate () (ObjectPool_new 1) = Some (Some x, p1)" "op_inv p1" "ob_out p1 = [x]"
    using object_pool_correct [OF op_new(1) [of 1]] by (auto simp: op_new ObjectPool_new_def)
  have "ob_iMaxSize p1 = 1" using ObjectPool_Allocate_ok [OF op_new(1) a(1)] by (simp add: ObjectPool_new_def)
  then show ?thesis using object_pool_correct [OF a(2)] a by simp
qed

section \<open>Alarm\<close>

text \<open>A listener is an action on the state of its object; \<open>al_log\<close> records the calls, by event name, in order.\<close>

record AlarmEvent =
  ev_strEventName :: string
  ev_dwStartTime :: u32
  ev_dwInterval :: u32

record Alarm =
  al_dwCurrTime :: u32
  al_AlarmEventList :: "AlarmEvent list"
  al_log :: "string list"

definition Alarm_new :: Alarm where
  "Alarm_new = \<lparr>al_dwCurrTime = 0, al_AlarmEventList = [], al_log = []\<rparr>"

definition Alarm_Start :: "u32 \<Rightarrow> Alarm \<Rightarrow> Alarm" where
  "Alarm_Start t a = (if al_dwCurrTime a = 0 then a\<lparr>al_dwCurrTime := t\<rparr> else a)"

definition Alarm_RegisterEvent :: "string \<Rightarrow> u32 \<Rightarrow> u32 \<Rightarrow> Alarm \<Rightarrow> Alarm" where
  "Alarm_RegisterEvent nm start interval a = a\<lparr>al_AlarmEventList := al_AlarmEventList a @
     [\<lparr>ev_strEventName = nm, ev_dwStartTime = start, ev_dwInterval = interval\<rparr>]\<rparr>"

fun Alarm_fire :: "u32 \<Rightarrow> AlarmEvent list \<Rightarrow> AlarmEvent list \<times> string list" where
  "Alarm_fire t [] = ([], [])"
| "Alarm_fire t (e # es) =
     (let (es', l) = Alarm_fire t es in
      if t - ev_dwStartTime e \<ge> ev_dwInterval e
      then (e\<lparr>ev_dwStartTime := ev_dwStartTime e + (t - ev_dwStartTime e)\<rparr> # es', ev_strEventName e # l)
      else (e # es', l))"

definition Alarm_Tick :: "u32 \<Rightarrow> Alarm \<Rightarrow> Alarm" where
  "Alarm_Tick t a =
     (if al_dwCurrTime a = 0 then a\<lparr>al_dwCurrTime := t\<rparr>
      else (let (es, l) = Alarm_fire t (al_AlarmEventList a) in
        a\<lparr>al_dwCurrTime := t, al_AlarmEventList := es, al_log := al_log a @ l\<rparr>))"

text \<open>The clock that ticks past \<open>2^32\<close> milliseconds, and an event in terms of it.\<close>

definition clock :: "nat \<Rightarrow> u32" where
  "clock ms = word_of_nat ms"

lemma clock_elapsed: "s \<le> ms \<Longrightarrow> ms - s < 2 ^ 32 \<Longrightarrow> unat (clock ms - clock s) = ms - s"
proof -
  assume a: "s \<le> ms" "ms - s < 2 ^ 32"
  have "clock ms - clock s = word_of_nat (ms - s)" using a(1) by (simp add: clock_def of_nat_diff)
  then show ?thesis using a(2) by (simp add: unsigned_of_nat take_bit_nat_eq_self)
qed

lemma Alarm_fire_spec:
  "fst (Alarm_fire t es) = map (\<lambda>e. if ev_dwInterval e \<le> t - ev_dwStartTime e then e\<lparr>ev_dwStartTime := t\<rparr> else e) es"
  "snd (Alarm_fire t es) = map ev_strEventName (filter (\<lambda>e. ev_dwInterval e \<le> t - ev_dwStartTime e) es)"
  by (induction es) (auto simp: Let_def split: prod.splits)

text \<open>C28: The alarm clock across the wrap-around of the 32-bit tick counter.  When every event was
  last started less than \<open>2^32\<close> milliseconds ago in real time, a tick calls exactly the listeners whose
  interval has really passed, in the order of registration, and restarts exactly those at the current time, except when
  the counter had the value zero at the tick before: then the clock takes itself as not started, and the tick only sets the time and calls nobody.\<close>
theorem alarm_wraps_correctly:
  assumes ev: "al_AlarmEventList a = map (\<lambda>(nm, s, d). \<lparr>ev_strEventName = nm, ev_dwStartTime = clock s, ev_dwInterval = d\<rparr>) evs"
    and ok: "\<forall>(nm, s, d) \<in> set evs. s \<le> now \<and> now - s < 2 ^ 32"
  shows "Alarm_Tick (clock now) a = (if al_dwCurrTime a = 0 then a\<lparr>al_dwCurrTime := clock now\<rparr>
     else a\<lparr>al_dwCurrTime := clock now,
       al_AlarmEventList := map (\<lambda>(nm, s, d). \<lparr>ev_strEventName = nm,
          ev_dwStartTime = clock (if unat d \<le> now - s then now else s), ev_dwInterval = d\<rparr>) evs,
       al_log := al_log a @ map fst (filter (\<lambda>(nm, s, d). unat d \<le> now - s) evs)\<rparr>)"
proof -
  have el: "d \<le> clock now - clock s \<longleftrightarrow> unat d \<le> now - s" if "(nm, s, d) \<in> set evs" for nm s d
    using that ok clock_elapsed [of s now] by (auto simp: word_le_nat_alt)
  have f: "fst (Alarm_fire (clock now) (al_AlarmEventList a)) =
     map (\<lambda>(nm, s, d). \<lparr>ev_strEventName = nm, ev_dwStartTime = clock (if unat d \<le> now - s then now else s), ev_dwInterval = d\<rparr>) evs"
    unfolding ev Alarm_fire_spec(1) using el by (auto simp: split_beta)
  have "filter (\<lambda>e. ev_dwInterval e \<le> clock now - ev_dwStartTime e) (al_AlarmEventList a) =
     map (\<lambda>(nm, s, d). \<lparr>ev_strEventName = nm, ev_dwStartTime = clock s, ev_dwInterval = d\<rparr>) (filter (\<lambda>(nm, s, d). unat d \<le> now - s) evs)"
    unfolding ev filter_map using el by (auto simp: split_beta comp_def intro!: arg_cong2 [where f = map] filter_cong)
  then have l: "snd (Alarm_fire (clock now) (al_AlarmEventList a)) = map fst (filter (\<lambda>(nm, s, d). unat d \<le> now - s) evs)"
    unfolding Alarm_fire_spec(2) by (simp add: split_beta comp_def)
  show ?thesis using f l by (simp add: Alarm_Tick_def split_beta Let_def)
qed

theorem alarm_wraps_correctly_witness:
  "al_log (Alarm_Tick (clock 4294967300) (Alarm_RegisterEvent ''save'' (clock 4294967200) 200
     (Alarm_RegisterEvent ''ping'' (clock 4294967200) 100 (Alarm_Start 7 Alarm_new)))) = [''ping'']"
proof -
  let ?a = "Alarm_RegisterEvent ''save'' (clock 4294967200) 200
     (Alarm_RegisterEvent ''ping'' (clock 4294967200) 100 (Alarm_Start 7 Alarm_new))"
  show ?thesis
    using alarm_wraps_correctly [of ?a "[(''ping'', 4294967200, 100), (''save'', 4294967200, 200)]" 4294967300]
    by (simp add: Alarm_RegisterEvent_def Alarm_Start_def Alarm_new_def)
qed

end
