(* ===== verification/StarNet.thy ===== *)
theory StarNet
  imports Prelude EasyNet
begin

text \<open>
  The network layer of the FT servers: \<open>connection.cpp\<close>, \<open>context_pool.cpp\<close>, \<open>acceptor.cpp\<close> and
  \<open>worker.cpp\<close> in \<open>FTServer/Src/StarNet\<close>.

  It differs from the C library in three ways: contexts are recycled through two interlocked lists of a
  context pool; a connection counts its outstanding receives and sends in \<open>iorefs_\<close>, and a disconnect
  that completes while the count is not zero is posted to the port again; and a closed connection of
  an acceptor goes to the acceptor's list of free connections, for the next accept.

  The state has one map per struct type, as in \<open>EasyNet\<close>; Windows is the same kind of parameter.  An interlocked
  list is a list; pushing an entry that is already on the list makes it cyclic, which is \<open>None\<close>.
  A pointer to the \<open>buffer_\<close> of a context is the pointer to the context.  \<open>_ASSERT\<close> and the
  debugging output are compiled out, but what the debugging output dereferences is kept.
\<close>

section \<open>Data\<close>

abbreviation BUFEXTENT :: nat where "BUFEXTENT \<equiv> 1024"

record Context =
  k_op :: operation
  k_wsabuf_off :: nat
  k_wsabuf_len :: u32
  k_connection :: ptr
  k_context_pool :: ptr
  k_offset :: u32
  k_avail_len :: u32
  k_buffer :: "byte list"

record Connection =
  n_socket :: nat
  n_handler :: nat
  n_context_pool :: ptr
  n_worker :: ptr
  n_acceptor :: ptr
  n_context :: ptr
  n_client :: nat
  n_iorefs :: i32
  n_connected :: i32
  n_iorefmax :: i32

record ContextPool =
  cp_input_buffer_size :: u32
  cp_input_context_count :: u32
  cp_output_buffer_size :: u32
  cp_output_context_count :: u32
  cp_input_context_pool :: "ptr list"
  cp_output_context_pool :: "ptr list"

record Acceptor =
  ac_socket :: nat
  ac_handler :: nat
  ac_worker :: ptr
  ac_context_pool :: ptr
  ac_server :: nat
  ac_context :: ptr
  ac_iorefs :: i32
  ac_running :: i32
  ac_total_connection :: u32
  ac_free_connection :: "ptr list option"

record 'app sn =
  sn_tick :: nat
  sn_next :: ptr
  sn_next_sock :: nat
  sn_socks :: "nat \<Rightarrow> bool"
  sn_conns :: "ptr \<rightharpoonup> Connection"
  sn_ctxs :: "ptr \<rightharpoonup> Context"
  sn_pools :: "ptr \<rightharpoonup> ContextPool"
  sn_accs :: "ptr \<rightharpoonup> Acceptor"
  sn_workers :: "ptr \<rightharpoonup> EasyWorker"
  sn_pending :: "ptr list"
  sn_app :: 'app

record sn_os =
  sno_malloc :: "nat \<Rightarrow> bool"
  sno_socket :: "nat \<Rightarrow> bool"
  sno_iocp :: "nat \<Rightarrow> bool"
  sno_bind :: "nat \<Rightarrow> bool"
  sno_listen :: "nat \<Rightarrow> bool"
  sno_sockopt :: "nat \<Rightarrow> bool"
  sno_post :: "nat \<Rightarrow> bool"
  sno_thread :: "nat \<Rightarrow> bool"
  sno_conn :: Connection
  sno_ctx :: Context
  sno_acc :: Acceptor

record 'app Handler =
  h_OnConnection :: "ptr \<Rightarrow> 'app sn \<Rightarrow> (bool \<times> 'app sn) option"
  h_OnDisconnect :: "ptr \<Rightarrow> 'app sn \<Rightarrow> 'app sn option"
  h_OnData :: "ptr \<Rightarrow> u32 \<Rightarrow> ptr \<Rightarrow> u32 \<Rightarrow> 'app sn \<Rightarrow> (u32 \<times> u32 \<times> 'app sn) option"
  h_OnConnectFailed :: "nat \<Rightarrow> 'app sn \<Rightarrow> 'app sn option"

section \<open>Windows calls and memory\<close>

definition sn_call :: "(nat \<Rightarrow> bool) \<Rightarrow> 'app sn \<Rightarrow> bool \<times> 'app sn" where
  "sn_call f s = (f (sn_tick s), s\<lparr>sn_tick := Suc (sn_tick s)\<rparr>)"

definition sn_upd_conn :: "ptr \<Rightarrow> (Connection \<Rightarrow> Connection) \<Rightarrow> 'app sn \<Rightarrow> 'app sn option" where
  "sn_upd_conn p f s = do { c \<leftarrow> sn_conns s p; Some (s\<lparr>sn_conns := (sn_conns s)(p \<mapsto> f c)\<rparr>) }"

definition sn_upd_ctx :: "ptr \<Rightarrow> (Context \<Rightarrow> Context) \<Rightarrow> 'app sn \<Rightarrow> 'app sn option" where
  "sn_upd_ctx q f s = do { x \<leftarrow> sn_ctxs s q; Some (s\<lparr>sn_ctxs := (sn_ctxs s)(q \<mapsto> f x)\<rparr>) }"

definition sn_upd_pool :: "ptr \<Rightarrow> (ContextPool \<Rightarrow> ContextPool) \<Rightarrow> 'app sn \<Rightarrow> 'app sn option" where
  "sn_upd_pool r f s = do { x \<leftarrow> sn_pools s r; Some (s\<lparr>sn_pools := (sn_pools s)(r \<mapsto> f x)\<rparr>) }"

definition sn_upd_acc :: "ptr \<Rightarrow> (Acceptor \<Rightarrow> Acceptor) \<Rightarrow> 'app sn \<Rightarrow> 'app sn option" where
  "sn_upd_acc a f s = do { x \<leftarrow> sn_accs s a; Some (s\<lparr>sn_accs := (sn_accs s)(a \<mapsto> f x)\<rparr>) }"

definition sn_free_conn :: "ptr \<Rightarrow> 'app sn \<Rightarrow> 'app sn option" where
  "sn_free_conn p s = do { c \<leftarrow> sn_conns s p; Some (s\<lparr>sn_conns := (sn_conns s)(p := None)\<rparr>) }"

definition sn_free_ctx :: "ptr \<Rightarrow> 'app sn \<Rightarrow> 'app sn option" where
  "sn_free_ctx q s = do { x \<leftarrow> sn_ctxs s q; Some (s\<lparr>sn_ctxs := (sn_ctxs s)(q := None)\<rparr>) }"

definition sn_malloc_ctx :: "sn_os \<Rightarrow> nat \<Rightarrow> 'app sn \<Rightarrow> ptr \<times> 'app sn" where
  "sn_malloc_ctx os n s = (let (ok, s) = sn_call (sno_malloc os) s in
     if ok then (sn_next s, s\<lparr>sn_next := Suc (sn_next s), sn_ctxs := (sn_ctxs s)(sn_next s \<mapsto> (sno_ctx os)\<lparr>k_buffer := replicate n 0\<rparr>)\<rparr>)
     else (NULL, s))"

definition sn_post :: "sn_os \<Rightarrow> ptr \<Rightarrow> 'app sn \<Rightarrow> bool \<times> 'app sn" where
  "sn_post os q s = (let (ok, s) = sn_call (sno_post os) s in
     if ok then (True, s\<lparr>sn_pending := sn_pending s @ [q]\<rparr>) else (False, s))"

definition slist_push :: "ptr \<Rightarrow> ptr list \<Rightarrow> ptr list option" where
  "slist_push x xs = (if x \<in> set xs then None else Some (x # xs))"

text \<open>\<open>QueryDepthSList\<close> returns a \<open>USHORT\<close>; the callers compare it with 32 bit counters.\<close>

definition QueryDepthSList :: "ptr list \<Rightarrow> u32" where
  "QueryDepthSList xs = ucast (of_nat (length xs) :: u16)"

section \<open>context_pool.cpp\<close>

definition ContextPool_Init :: "u32 \<Rightarrow> u32 \<Rightarrow> ContextPool" where
  "ContextPool_Init input_buffer_size output_buffer_size =
     \<lparr>cp_input_buffer_size = input_buffer_size, cp_input_context_count = 0,
      cp_output_buffer_size = output_buffer_size, cp_output_context_count = 0,
      cp_input_context_pool = [], cp_output_context_pool = []\<rparr>"

definition CreateContextPool :: "sn_os \<Rightarrow> u32 \<Rightarrow> u32 \<Rightarrow> 'app sn \<Rightarrow> ptr \<times> 'app sn" where
  "CreateContextPool os input_buffer_size output_buffer_size s = (let (ok, s) = sn_call (sno_malloc os) s in
     if ok then (sn_next s, s\<lparr>sn_next := Suc (sn_next s),
       sn_pools := (sn_pools s)(sn_next s \<mapsto> ContextPool_Init input_buffer_size output_buffer_size)\<rparr>)
     else (NULL, s))"

definition PopInputContext :: "sn_os \<Rightarrow> ptr \<Rightarrow> 'app sn \<Rightarrow> (ptr \<times> 'app sn) option" where
  "PopInputContext os r s = do {
     pool \<leftarrow> sn_pools s r;
     case cp_input_context_pool pool of
       q # qs \<Rightarrow> Some (q, s\<lparr>sn_pools := (sn_pools s)(r \<mapsto> pool\<lparr>cp_input_context_pool := qs\<rparr>)\<rparr>)
     | [] \<Rightarrow> do {
         let (q, s) = sn_malloc_ctx os (ADDR_BUFFER + unat (cp_input_buffer_size pool) + BUFEXTENT) s;
         if q = NULL then Some (NULL, s) else do {
           s \<leftarrow> sn_upd_ctx q (\<lambda>x. x\<lparr>k_op := OPERATION_RECV, k_context_pool := r, k_wsabuf_off := 0, k_avail_len := 0, k_offset := 0\<rparr>) s;
           s \<leftarrow> sn_upd_pool r (\<lambda>x. x\<lparr>cp_input_context_count := cp_input_context_count x + 1\<rparr>) s;
           Some (q, s)
         }
       }
   }"

definition PopOutputContext :: "sn_os \<Rightarrow> ptr \<Rightarrow> 'app sn \<Rightarrow> (ptr \<times> 'app sn) option" where
  "PopOutputContext os r s = do {
     pool \<leftarrow> sn_pools s r;
     case cp_output_context_pool pool of
       q # qs \<Rightarrow> Some (q, s\<lparr>sn_pools := (sn_pools s)(r \<mapsto> pool\<lparr>cp_output_context_pool := qs\<rparr>)\<rparr>)
     | [] \<Rightarrow> do {
         let (q, s) = sn_malloc_ctx os (ADDR_BUFFER + unat (cp_output_buffer_size pool) + BUFEXTENT) s;
         if q = NULL then Some (NULL, s) else do {
           s \<leftarrow> sn_upd_ctx q (\<lambda>x. x\<lparr>k_op := OPERATION_SEND, k_context_pool := r, k_wsabuf_off := 0, k_avail_len := 0, k_offset := 0\<rparr>) s;
           s \<leftarrow> sn_upd_pool r (\<lambda>x. x\<lparr>cp_output_context_count := cp_output_context_count x + 1\<rparr>) s;
           Some (q, s)
         }
       }
   }"

definition PushInputContext :: "ptr \<Rightarrow> ptr \<Rightarrow> 'app sn \<Rightarrow> 'app sn option" where
  "PushInputContext r q s = do {
     pool \<leftarrow> sn_pools s r;
     x \<leftarrow> sn_ctxs s q;
     qs \<leftarrow> slist_push q (cp_input_context_pool pool);
     Some (s\<lparr>sn_pools := (sn_pools s)(r \<mapsto> pool\<lparr>cp_input_context_pool := qs\<rparr>)\<rparr>)
   }"

definition PushOutputContext :: "ptr \<Rightarrow> ptr \<Rightarrow> 'app sn \<Rightarrow> 'app sn option" where
  "PushOutputContext r q s = do {
     pool \<leftarrow> sn_pools s r;
     x \<leftarrow> sn_ctxs s q;
     qs \<leftarrow> slist_push q (cp_output_context_pool pool);
     Some (s\<lparr>sn_pools := (sn_pools s)(r \<mapsto> pool\<lparr>cp_output_context_pool := qs\<rparr>)\<rparr>)
   }"

definition PopOutputBuffer :: "sn_os \<Rightarrow> ptr \<Rightarrow> 'app sn \<Rightarrow> (ptr \<times> 'app sn) option" where
  "PopOutputBuffer os r s = PopOutputContext os r s"

definition PushOutputBuffer :: "ptr \<Rightarrow> ptr \<Rightarrow> 'app sn \<Rightarrow> 'app sn option" where
  "PushOutputBuffer r buffer s = PushOutputContext r buffer s"

text \<open>\<open>Destroy\<close> waits until every context is back on its list; \<open>None\<close>: it waits forever when nobody else acts.\<close>

fun free_ctxs :: "ptr list \<Rightarrow> 'app sn \<Rightarrow> (ptr list \<times> 'app sn) option" where
  "free_ctxs [] s = Some ([], s)"
| "free_ctxs (q # qs) s =
     (if QueryDepthSList (q # qs) = 0 then Some (q # qs, s) else do { s \<leftarrow> sn_free_ctx q s; free_ctxs qs s })"

definition ContextPool_Destroy :: "ptr \<Rightarrow> 'app sn \<Rightarrow> 'app sn option" where
  "ContextPool_Destroy r s = do {
     pool \<leftarrow> sn_pools s r;
     if QueryDepthSList (cp_input_context_pool pool) \<noteq> cp_input_context_count pool then None else do {
       (is, s) \<leftarrow> free_ctxs (cp_input_context_pool pool) s;
       if QueryDepthSList (cp_output_context_pool pool) \<noteq> cp_output_context_count pool then None else do {
         (os, s) \<leftarrow> free_ctxs (cp_output_context_pool pool) s;
         Some (s\<lparr>sn_pools := (sn_pools s)(r \<mapsto> pool\<lparr>cp_input_context_pool := is, cp_output_context_pool := os\<rparr>)\<rparr>)
       }
     }
   }"

definition DestroyContextPool :: "ptr \<Rightarrow> 'app sn \<Rightarrow> 'app sn option" where
  "DestroyContextPool r s = do { s \<leftarrow> ContextPool_Destroy r s; Some (s\<lparr>sn_pools := (sn_pools s)(r := None)\<rparr>) }"

section \<open>connection.cpp\<close>

definition Connection_AsyncConnect :: "sn_os \<Rightarrow> ptr \<Rightarrow> nat \<Rightarrow> 'app sn \<Rightarrow> (bool \<times> 'app sn) option" where
  "Connection_AsyncConnect os p client s = do {
     s \<leftarrow> sn_upd_conn p (\<lambda>c. c\<lparr>n_client := client\<rparr>) s;
     c \<leftarrow> sn_conns s p;
     if n_context c = NULL then Some (False, s) else do {
       s \<leftarrow> sn_upd_ctx (n_context c) (\<lambda>x. x\<lparr>k_op := OPERATION_CONNECT\<rparr>) s;
       Some (sn_post os (n_context c) s)
     }
   }"

definition Connection_AsyncDisconnect :: "sn_os \<Rightarrow> ptr \<Rightarrow> 'app sn \<Rightarrow> 'app sn option" where
  "Connection_AsyncDisconnect os p s = do {
     c \<leftarrow> sn_conns s p;
     let (old, new) = InterlockedCompareExchange (n_connected c) 0 1;
     s \<leftarrow> sn_upd_conn p (\<lambda>c. c\<lparr>n_connected := new\<rparr>) s;
     if old \<noteq> 0 then do {
       s \<leftarrow> sn_upd_ctx (n_context c) (\<lambda>x. x\<lparr>k_op := OPERATION_DISCONNECT\<rparr>) s;
       Some (snd (sn_post os (n_context c) s))
     } else Some s
   }"

text \<open>The counters are \<open>LONG\<close>, compared as signed numbers.\<close>

definition Connection_AsyncSend :: "sn_os \<Rightarrow> ptr \<Rightarrow> ptr \<Rightarrow> 'app sn \<Rightarrow> 'app sn option" where
  "Connection_AsyncSend os p q s = do {
     s \<leftarrow> sn_upd_ctx q (\<lambda>x. x\<lparr>k_connection := p\<rparr>) s;
     c \<leftarrow> sn_conns s p;
     if sint (n_iorefs c) > sint (n_iorefmax c) then do {
       s \<leftarrow> PushOutputContext (n_context_pool c) q s;
       Connection_AsyncDisconnect os p s
     } else do {
       s \<leftarrow> sn_upd_conn p (\<lambda>c. c\<lparr>n_iorefs := n_iorefs c + 1\<rparr>) s;
       let (ok, s) = sn_post os q s;
       if ok then Some s else do {
         s \<leftarrow> PushOutputContext (n_context_pool c) q s;
         s \<leftarrow> Connection_AsyncDisconnect os p s;
         sn_upd_conn p (\<lambda>c. c\<lparr>n_iorefs := n_iorefs c - 1\<rparr>) s
       }
     }
   }"

definition recv_window :: "ContextPool \<Rightarrow> ContextPool \<Rightarrow> Context \<Rightarrow> Context option" where
  "recv_window own pool x = do {
     x \<leftarrow> (if k_offset x + k_avail_len x \<ge> cp_input_buffer_size own
           then do { b \<leftarrow> memmove (k_buffer x) 0 (unat (k_offset x)) (unat (k_avail_len x)); Some (x\<lparr>k_buffer := b, k_offset := 0\<rparr>) }
           else Some x);
     Some (x\<lparr>k_wsabuf_len := cp_input_buffer_size pool - k_offset x - k_avail_len x,
             k_wsabuf_off := unat (k_offset x) + unat (k_avail_len x)\<rparr>)
   }"

definition Connection_AsyncRecv :: "sn_os \<Rightarrow> ptr \<Rightarrow> ptr \<Rightarrow> 'app sn \<Rightarrow> 'app sn option" where
  "Connection_AsyncRecv os p q s = do {
     s \<leftarrow> sn_upd_ctx q (\<lambda>x. x\<lparr>k_connection := p\<rparr>) s;
     x \<leftarrow> sn_ctxs s q;
     own \<leftarrow> sn_pools s (k_context_pool x);
     c \<leftarrow> sn_conns s p;
     pool \<leftarrow> sn_pools s (n_context_pool c);
     x \<leftarrow> recv_window own pool x;
     s \<leftarrow> sn_upd_ctx q (\<lambda>_. x) s;
     s \<leftarrow> sn_upd_conn p (\<lambda>c. c\<lparr>n_iorefs := n_iorefs c + 1\<rparr>) s;
     let (ok, s) = sn_post os q s;
     if ok then Some s else do {
       s \<leftarrow> PushInputContext (n_context_pool c) q s;
       s \<leftarrow> Connection_AsyncDisconnect os p s;
       sn_upd_conn p (\<lambda>c. c\<lparr>n_iorefs := n_iorefs c - 1\<rparr>) s
     }
   }"

definition Connection_AsyncSendBuf :: "sn_os \<Rightarrow> ptr \<Rightarrow> u32 \<Rightarrow> ptr \<Rightarrow> 'app sn \<Rightarrow> 'app sn option" where
  "Connection_AsyncSendBuf os p len buf s = do {
     x \<leftarrow> sn_ctxs s buf;
     if k_op x \<noteq> OPERATION_SEND then Some s else do {
       pool \<leftarrow> sn_pools s (k_context_pool x);
       if cp_output_buffer_size pool < len then Some s else do {
         s \<leftarrow> sn_upd_ctx buf (\<lambda>x. x\<lparr>k_wsabuf_len := len\<rparr>) s;
         Connection_AsyncSend os p buf s
       }
     }
   }"

definition Connection_SetClient :: "ptr \<Rightarrow> nat \<Rightarrow> 'app sn \<Rightarrow> 'app sn option" where
  "Connection_SetClient p pClient s = sn_upd_conn p (\<lambda>c. c\<lparr>n_client := pClient\<rparr>) s"

definition Connection_GetClient :: "ptr \<Rightarrow> 'app sn \<Rightarrow> nat option" where
  "Connection_GetClient p s = map_option n_client (sn_conns s p)"

definition Connection_SetRefMax :: "ptr \<Rightarrow> u16 \<Rightarrow> 'app sn \<Rightarrow> 'app sn option" where
  "Connection_SetRefMax p iMax s = sn_upd_conn p (\<lambda>c. c\<lparr>n_iorefmax := ucast iMax\<rparr>) s"

definition Connection_IsConnected :: "ptr \<Rightarrow> 'app sn \<Rightarrow> bool option" where
  "Connection_IsConnected p s = map_option (\<lambda>c. n_connected c \<noteq> 0) (sn_conns s p)"

definition Connection_Create :: "sn_os \<Rightarrow> nat \<Rightarrow> ptr \<Rightarrow> ptr \<Rightarrow> ptr \<Rightarrow> 'app sn \<Rightarrow> (ptr \<times> 'app sn) option" where
  "Connection_Create os pHandler pContextPool pWorker pAcceptor s = do {
     let (ok, s) = sn_call (sno_malloc os) s;
     if \<not> ok then Some (NULL, s) else do {
       let p = sn_next s;
       let s = s\<lparr>sn_next := Suc p, sn_conns := (sn_conns s)(p \<mapsto> sno_conn os)\<rparr>;
       let (ok, s) = sn_call (sno_socket os) s;
       let k = (if ok then sn_next_sock s else INVALID_SOCKET);
       let s = (if ok then s\<lparr>sn_next_sock := Suc k, sn_socks := (sn_socks s)(k := True)\<rparr> else s);
       s \<leftarrow> sn_upd_conn p (\<lambda>c. c\<lparr>n_socket := k\<rparr>) s;
       if k = INVALID_SOCKET then do { s \<leftarrow> sn_free_conn p s; Some (NULL, s) } else do {
         w \<leftarrow> sn_workers s pWorker;
         let (ok, s) = sn_call (sno_iocp os) s;
         if \<not> ok then do { s \<leftarrow> sn_free_conn p (s\<lparr>sn_socks := (sn_socks s)(k := False)\<rparr>); Some (NULL, s) } else do {
           let (q, s) = sn_malloc_ctx os ADDR_BUFFER s;
           s \<leftarrow> sn_upd_conn p (\<lambda>c. c\<lparr>n_context := q\<rparr>) s;
           if q = NULL then do { s \<leftarrow> sn_free_conn p s; Some (NULL, s) } else do {
             s \<leftarrow> sn_upd_conn p (\<lambda>c. c\<lparr>n_handler := pHandler, n_context_pool := pContextPool, n_worker := pWorker, n_acceptor := pAcceptor\<rparr>) s;
             s \<leftarrow> sn_upd_ctx q (\<lambda>x. x\<lparr>k_connection := p\<rparr>) s;
             s \<leftarrow> sn_upd_conn p (\<lambda>c. c\<lparr>n_connected := 0, n_iorefs := 0, n_iorefmax := 65536\<rparr>) s;
             if pAcceptor = NULL then do {
               let (ok, s) = sn_call (sno_bind os) s;
               if ok then Some (p, s) else do { s \<leftarrow> sn_free_conn p s; Some (NULL, s) }
             } else Some (p, s)
           }
         }
       }
     }
   }"

definition Connection_Delete :: "ptr \<Rightarrow> 'app sn \<Rightarrow> 'app sn option" where
  "Connection_Delete p s = do {
     c \<leftarrow> sn_conns s p;
     s \<leftarrow> sn_free_ctx (n_context c) (s\<lparr>sn_socks := (sn_socks s)(n_socket c := False)\<rparr>);
     sn_free_conn p s
   }"

definition Connection_Connect :: "sn_os \<Rightarrow> nat \<Rightarrow> ptr \<Rightarrow> ptr \<Rightarrow> nat \<Rightarrow> 'app sn \<Rightarrow> (bool \<times> 'app sn) option" where
  "Connection_Connect os pHandler pContextPool pWorker pClient s = do {
     (p, s) \<leftarrow> Connection_Create os pHandler pContextPool pWorker NULL s;
     if p \<noteq> NULL then do {
       (ok, s) \<leftarrow> Connection_AsyncConnect os p pClient s;
       if ok then Some (True, s) else do { s \<leftarrow> Connection_Delete p s; Some (False, s) }
     } else Some (False, s)
   }"

definition Connection_Close :: "ptr \<Rightarrow> 'app sn \<Rightarrow> 'app sn option" where
  "Connection_Close p s = do {
     c \<leftarrow> sn_conns s p;
     if n_iorefs c \<noteq> 0 \<or> n_connected c \<noteq> 0 then Some s
     else if n_acceptor c \<noteq> NULL then do {
       a \<leftarrow> sn_accs s (n_acceptor c);
       free \<leftarrow> ac_free_connection a;
       ps \<leftarrow> slist_push p free;
       sn_upd_acc (n_acceptor c) (\<lambda>a. a\<lparr>ac_free_connection := Some ps\<rparr>) s
     } else Connection_Delete p s
   }"

section \<open>acceptor.cpp\<close>

text \<open>The second half of \<open>Accept\<close>: the request for the connection \<open>p\<close>.\<close>

definition accept_request :: "sn_os \<Rightarrow> ptr \<Rightarrow> ptr \<Rightarrow> 'app sn \<Rightarrow> 'app sn option" where
  "accept_request os a p s = do {
     acc \<leftarrow> sn_accs s a;
     s \<leftarrow> sn_upd_conn p (\<lambda>c. c\<lparr>n_client := NULL\<rparr>) s;
     s \<leftarrow> sn_upd_ctx (ac_context acc) (\<lambda>x. x\<lparr>k_connection := p\<rparr>) s;
     s \<leftarrow> sn_upd_acc a (\<lambda>x. x\<lparr>ac_iorefs := ac_iorefs x + 1\<rparr>) s;
     let (ok, s) = sn_post os (ac_context acc) s;
     if ok then Some s else do {
       s \<leftarrow> Connection_Close p s;
       acc \<leftarrow> sn_accs s a;
       free \<leftarrow> ac_free_connection acc;
       ps \<leftarrow> slist_push p free;
       sn_upd_acc a (\<lambda>x. x\<lparr>ac_free_connection := Some ps, ac_total_connection := ac_total_connection x + 1,
         ac_iorefs := ac_iorefs x - 1, ac_running := 0\<rparr>) s
     }
   }"

definition Acceptor_Accept :: "sn_os \<Rightarrow> ptr \<Rightarrow> 'app sn \<Rightarrow> 'app sn option" where
  "Acceptor_Accept os a s = do {
     acc \<leftarrow> sn_accs s a;
     free \<leftarrow> ac_free_connection acc;
     case free of
       [] \<Rightarrow> do {
         (p, s) \<leftarrow> Connection_Create os (ac_handler acc) (ac_context_pool acc) (ac_worker acc) a s;
         if p = NULL then sn_upd_acc a (\<lambda>x. x\<lparr>ac_running := 0\<rparr>) s else accept_request os a p s
       }
     | p # ps \<Rightarrow> do {
         s \<leftarrow> sn_upd_acc a (\<lambda>x. x\<lparr>ac_free_connection := Some ps, ac_total_connection := ac_total_connection x - 1\<rparr>) s;
         accept_request os a p s
       }
   }"

text \<open>\<open>Start\<close> waits for outstanding accepts; \<open>None\<close>: it waits forever when nobody else acts.\<close>

definition Acceptor_Start :: "sn_os \<Rightarrow> ptr \<Rightarrow> 'app sn \<Rightarrow> 'app sn option" where
  "Acceptor_Start os a s = do {
     acc \<leftarrow> sn_accs s a;
     let (old, new) = InterlockedCompareExchange (ac_running acc) 1 0;
     s \<leftarrow> sn_upd_acc a (\<lambda>x. x\<lparr>ac_running := new\<rparr>) s;
     if old = 0 then (if ac_iorefs acc \<noteq> 0 then None else Acceptor_Accept os a s) else Some s
   }"

definition Acceptor_Stop :: "ptr \<Rightarrow> 'app sn \<Rightarrow> 'app sn option" where
  "Acceptor_Stop a s = sn_upd_acc a (\<lambda>x. x\<lparr>ac_running := 0\<rparr>) s"

definition Acceptor_SetServer :: "ptr \<Rightarrow> nat \<Rightarrow> 'app sn \<Rightarrow> 'app sn option" where
  "Acceptor_SetServer a pServer s = sn_upd_acc a (\<lambda>x. x\<lparr>ac_server := pServer\<rparr>) s"

definition Acceptor_GetServer :: "ptr \<Rightarrow> 'app sn \<Rightarrow> nat option" where
  "Acceptor_GetServer a s = map_option ac_server (sn_accs s a)"

definition Acceptor_Init :: "sn_os \<Rightarrow> ptr \<Rightarrow> ptr \<Rightarrow> ptr \<Rightarrow> nat \<Rightarrow> 'app sn \<Rightarrow> (int \<times> 'app sn) option" where
  "Acceptor_Init os a pWorker pContextPool pHandler s = do {
     s \<leftarrow> sn_upd_acc a (\<lambda>x. x\<lparr>ac_iorefs := 0, ac_running := 0, ac_total_connection := 0\<rparr>) s;
     let (ok, s) = sn_call (sno_socket os) s;
     let k = (if ok then sn_next_sock s else INVALID_SOCKET);
     let s = (if ok then s\<lparr>sn_next_sock := Suc k, sn_socks := (sn_socks s)(k := True)\<rparr> else s);
     s \<leftarrow> sn_upd_acc a (\<lambda>x. x\<lparr>ac_socket := k\<rparr>) s;
     if k = INVALID_SOCKET then Some (-1, s) else do {
       let (ok, s) = sn_call (sno_malloc os) s;
       s \<leftarrow> sn_upd_acc a (\<lambda>x. x\<lparr>ac_free_connection := (if ok then Some [] else None)\<rparr>) s;
       if \<not> ok then Some (-2, s) else do {
         acc \<leftarrow> sn_accs s a;
         s \<leftarrow> sn_upd_ctx (ac_context acc) (\<lambda>x. x\<lparr>k_op := OPERATION_ACCEPT\<rparr>) s;
         w \<leftarrow> sn_workers s pWorker;
         let (ok, s) = sn_call (sno_iocp os) s;
         if \<not> ok then Some (-4, s) else do {
           let (ok, s) = sn_call (sno_bind os) s;
           if \<not> ok then Some (-5, s) else do {
             let (ok, s) = sn_call (sno_listen os) s;
             if \<not> ok then Some (-6, s) else do {
               s \<leftarrow> sn_upd_acc a (\<lambda>x. x\<lparr>ac_worker := pWorker, ac_handler := pHandler, ac_context_pool := pContextPool, ac_server := NULL\<rparr>) s;
               Some (0, s)
             }
           }
         }
       }
     }
   }"

text \<open>The result of \<open>Init\<close> is not looked at; the acceptor is returned in any case.\<close>

definition Acceptor_CreateAcceptor :: "sn_os \<Rightarrow> ptr \<Rightarrow> ptr \<Rightarrow> nat \<Rightarrow> 'app sn \<Rightarrow> (ptr \<times> 'app sn) option" where
  "Acceptor_CreateAcceptor os pWorker pContextPool pHandler s = do {
     let (ok, s) = sn_call (sno_malloc os) s;
     if \<not> ok then Some (NULL, s) else do {
       let a = sn_next s;
       let s = s\<lparr>sn_next := Suc (Suc a), sn_accs := (sn_accs s)(a \<mapsto> (sno_acc os)\<lparr>ac_context := Suc a\<rparr>),
         sn_ctxs := (sn_ctxs s)(Suc a \<mapsto> (sno_ctx os)\<lparr>k_buffer := replicate ADDR_BUFFER 0\<rparr>)\<rparr>;
       (rc, s) \<leftarrow> Acceptor_Init os a pWorker pContextPool pHandler s;
       Some (a, s)
     }
   }"

text \<open>The loop that closes the free connections, with fuel; \<open>False\<close>: it has not ended.\<close>

fun destroy_loop :: "nat \<Rightarrow> ptr \<Rightarrow> 'app sn \<Rightarrow> (bool \<times> 'app sn) option" where
  "destroy_loop 0 a s = Some (False, s)"
| "destroy_loop (Suc n) a s = do {
     acc \<leftarrow> sn_accs s a;
     free \<leftarrow> ac_free_connection acc;
     if QueryDepthSList free = 0 then Some (True, s) else do {
       let p = hd free;
       s \<leftarrow> sn_upd_acc a (\<lambda>x. x\<lparr>ac_free_connection := Some (tl free)\<rparr>) s;
       s \<leftarrow> Connection_Close p s;
       destroy_loop n a s
     }
   }"

text \<open>
  A loop that sleeps while a condition holds.  The list is what the other threads do during each sleep, one after the other; the
  result has what is left of it, and is \<open>False\<close> when the loop is still waiting after the last one.
\<close>

primrec sleep_while :: "('s \<Rightarrow> bool option) \<Rightarrow> ('s \<Rightarrow> 's option) list \<Rightarrow> 's \<Rightarrow> (bool \<times> ('s \<Rightarrow> 's option) list \<times> 's) option" where
  "sleep_while busy [] s = do { b \<leftarrow> busy s; Some (\<not> b, [], s) }"
| "sleep_while busy (e # es) s = do {
     b \<leftarrow> busy s;
     if b then do { s \<leftarrow> e s; sleep_while busy es s } else Some (True, e # es, s)
   }"

definition accept_outstanding :: "ptr \<Rightarrow> 'app sn \<Rightarrow> bool option" where
  "accept_outstanding a s = do { acc \<leftarrow> sn_accs s a; Some (ac_iorefs acc \<noteq> 0) }"

text \<open>The second wait, and the list, are only there when \<open>free_connection_\<close> is not NULL.\<close>

definition list_incomplete :: "ptr \<Rightarrow> 'app sn \<Rightarrow> bool option" where
  "list_incomplete a s = do {
     acc \<leftarrow> sn_accs s a;
     Some (case ac_free_connection acc of None \<Rightarrow> False | Some free \<Rightarrow> QueryDepthSList free \<noteq> ac_total_connection acc)
   }"

text \<open>\<open>False\<close>: the function is still waiting for outstanding accepts or connections, or still in its loop.\<close>

definition Acceptor_Destroy :: "nat \<Rightarrow> ('app sn \<Rightarrow> 'app sn option) list \<Rightarrow> ptr \<Rightarrow> 'app sn \<Rightarrow> (bool \<times> 'app sn) option" where
  "Acceptor_Destroy fuel es a s = do {
     s \<leftarrow> Acceptor_Stop a s;
     (done, es, s) \<leftarrow> sleep_while (accept_outstanding a) es s;
     if \<not> done then Some (False, s) else do {
       (done, es, s) \<leftarrow> sleep_while (list_incomplete a) es s;
       if \<not> done then Some (False, s) else do {
         acc \<leftarrow> sn_accs s a;
         (done, s) \<leftarrow> (if ac_free_connection acc = None then Some (True, s) else destroy_loop fuel a s);
         if \<not> done then Some (False, s) else
           Some (True, if ac_socket acc \<noteq> INVALID_SOCKET then s\<lparr>sn_socks := (sn_socks s)(ac_socket acc := False)\<rparr> else s)
       }
     }
   }"

definition Acceptor_DestroyAcceptor :: "nat \<Rightarrow> ('app sn \<Rightarrow> 'app sn option) list \<Rightarrow> ptr \<Rightarrow> 'app sn \<Rightarrow> (bool \<times> 'app sn) option" where
  "Acceptor_DestroyAcceptor fuel es a s = do {
     (done, s) \<leftarrow> Acceptor_Destroy fuel es a s;
     Some (done, if done then s\<lparr>sn_accs := (sn_accs s)(a := None)\<rparr> else s)
   }"

section \<open>worker.cpp\<close>

definition Worker_Init :: "sn_os \<Rightarrow> ptr \<Rightarrow> u32 \<Rightarrow> 'app sn \<Rightarrow> 'app sn" where
  "Worker_Init os w iThreadCount s = (let (io, s) = sn_call (sno_iocp os) s;
       (count, running) = start_threads (\<lambda>i. sno_thread os (sn_tick s + i)) iThreadCount 0 0 in
     s\<lparr>sn_tick := sn_tick s + unat count,
       sn_workers := (sn_workers s)(w \<mapsto> \<lparr>w_iocp = io, w_thread_count = count, w_threads = running\<rparr>)\<rparr>)"

text \<open>The rounds \<open>rs\<close> are those of \<open>DestroyWorker_wait\<close>; \<open>None\<close>: it waits forever.\<close>

definition Worker_Destroy :: "(bool \<times> nat) list \<Rightarrow> ptr \<Rightarrow> 'app sn \<Rightarrow> 'app sn option" where
  "Worker_Destroy rs w s = do {
     k \<leftarrow> sn_workers s w;
     posted \<leftarrow> DestroyWorker_wait (w_iocp k) rs (w_thread_count k) (w_threads k) 0 0;
     Some (s\<lparr>sn_workers := (sn_workers s)(w \<mapsto> k\<lparr>w_iocp := False, w_thread_count := 0, w_threads := 0\<rparr>)\<rparr>)
   }"

definition Worker_CreateWorker :: "sn_os \<Rightarrow> u32 \<Rightarrow> 'app sn \<Rightarrow> ptr \<times> 'app sn" where
  "Worker_CreateWorker os iCount s = (let (ok, s) = sn_call (sno_malloc os) s in
     if \<not> ok then (NULL, s) else (sn_next s, Worker_Init os (sn_next s) iCount (s\<lparr>sn_next := Suc (sn_next s)\<rparr>)))"

definition Worker_DestroyWorker :: "(bool \<times> nat) list \<Rightarrow> ptr \<Rightarrow> 'app sn \<Rightarrow> 'app sn option" where
  "Worker_DestroyWorker rs w s = do { s \<leftarrow> Worker_Destroy rs w s; Some (s\<lparr>sn_workers := (sn_workers s)(w := None)\<rparr>) }"

text \<open>After the connection is established: the handler, then a receive with a context of the pool, or a disconnect.\<close>

definition sn_established :: "sn_os \<Rightarrow> (nat \<Rightarrow> 'app Handler) \<Rightarrow> ptr \<Rightarrow> 'app sn \<Rightarrow> 'app sn option" where
  "sn_established os H p s = do {
     c \<leftarrow> sn_conns s p;
     (ok, s) \<leftarrow> h_OnConnection (H (n_handler c)) p s;
     if \<not> ok then Connection_AsyncDisconnect os p s else do {
       c \<leftarrow> sn_conns s p;
       (q, s) \<leftarrow> PopInputContext os (n_context_pool c) s;
       if q \<noteq> NULL then Connection_AsyncRecv os p q s else Connection_AsyncDisconnect os p s
     }
   }"

definition sn_on_accept :: "sn_os \<Rightarrow> (nat \<Rightarrow> 'app Handler) \<Rightarrow> bool \<Rightarrow> ptr \<Rightarrow> 'app sn \<Rightarrow> 'app sn option" where
  "sn_on_accept os H bResult p s = do {
     c \<leftarrow> sn_conns s p;
     let a = n_acceptor c;
     if bResult then do {
       s \<leftarrow> Acceptor_Accept os a s;
       let (rc, s) = sn_call (sno_sockopt os) s;
       s \<leftarrow> (if rc then do { s \<leftarrow> sn_upd_conn p (\<lambda>c. c\<lparr>n_connected := 1\<rparr>) s; sn_established os H p s } else Some s);
       sn_upd_acc a (\<lambda>x. x\<lparr>ac_iorefs := ac_iorefs x - 1\<rparr>) s
     } else Some s
   }"

definition sn_on_connect :: "sn_os \<Rightarrow> (nat \<Rightarrow> 'app Handler) \<Rightarrow> bool \<Rightarrow> ptr \<Rightarrow> 'app sn \<Rightarrow> 'app sn option" where
  "sn_on_connect os H bResult p s =
     (if bResult then do {
        s \<leftarrow> sn_upd_conn p (\<lambda>c. c\<lparr>n_connected := 1\<rparr>) s;
        let (rc, s) = sn_call (sno_sockopt os) s;
        if rc then sn_established os H p s else Some s
      } else do {
        c \<leftarrow> sn_conns s p;
        s \<leftarrow> h_OnConnectFailed (H (n_handler c)) (n_client c) s;
        Connection_Close p s
      })"

definition sn_on_disconnect :: "sn_os \<Rightarrow> (nat \<Rightarrow> 'app Handler) \<Rightarrow> ptr \<Rightarrow> ptr \<Rightarrow> 'app sn \<Rightarrow> 'app sn option" where
  "sn_on_disconnect os H q p s = do {
     c \<leftarrow> sn_conns s p;
     if n_iorefs c \<noteq> 0 then Some (snd (sn_post os q s)) else h_OnDisconnect (H (n_handler c)) p s
   }"

text \<open>The call of \<open>OnData\<close> is commented out in the source: received bytes are not passed on.\<close>

definition sn_on_recv :: "sn_os \<Rightarrow> u32 \<Rightarrow> ptr \<Rightarrow> ptr \<Rightarrow> 'app sn \<Rightarrow> 'app sn option" where
  "sn_on_recv os dwNumRead q p s = do {
     s \<leftarrow> (if dwNumRead = 0 then do {
         c \<leftarrow> sn_conns s p;
         s \<leftarrow> PushInputContext (n_context_pool c) q s;
         s \<leftarrow> Connection_AsyncDisconnect os p s;
         acc \<leftarrow> sn_accs s (n_acceptor c);
         Some s
       } else Connection_AsyncRecv os p q s);
     sn_upd_conn p (\<lambda>c. c\<lparr>n_iorefs := n_iorefs c - 1\<rparr>) s
   }"

definition sn_on_send :: "ptr \<Rightarrow> ptr \<Rightarrow> 'app sn \<Rightarrow> 'app sn option" where
  "sn_on_send q p s = do {
     c \<leftarrow> sn_conns s p;
     s \<leftarrow> PushOutputContext (n_context_pool c) q s;
     sn_upd_conn p (\<lambda>c. c\<lparr>n_iorefs := n_iorefs c - 1\<rparr>) s
   }"

text \<open>The packet for context \<open>q\<close> is taken from the port; for a receive, the kernel has put the data into the window.\<close>

definition sn_deliver :: "byte list \<Rightarrow> ptr \<Rightarrow> 'app sn \<Rightarrow> 'app sn option" where
  "sn_deliver data q s = do {
     x \<leftarrow> sn_ctxs s q;
     buf \<leftarrow> (if k_op x = OPERATION_RECV then mem_write (k_buffer x) (k_wsabuf_off x) data else Some (k_buffer x));
     Some (s\<lparr>sn_pending := remove1 q (sn_pending s), sn_ctxs := (sn_ctxs s)(q \<mapsto> x\<lparr>k_buffer := buf\<rparr>)\<rparr>)
   }"

definition sn_handle :: "sn_os \<Rightarrow> (nat \<Rightarrow> 'app Handler) \<Rightarrow> bool \<Rightarrow> byte list \<Rightarrow> ptr \<Rightarrow> 'app sn \<Rightarrow> 'app sn option" where
  "sn_handle os H bResult data q s = do {
     s \<leftarrow> sn_deliver data q s;
     x \<leftarrow> sn_ctxs s q;
     (case k_op x of
        OPERATION_ACCEPT \<Rightarrow> sn_on_accept os H bResult (k_connection x) s
      | OPERATION_CONNECT \<Rightarrow> sn_on_connect os H bResult (k_connection x) s
      | OPERATION_DISCONNECT \<Rightarrow> sn_on_disconnect os H q (k_connection x) s
      | OPERATION_RECV \<Rightarrow> sn_on_recv os (of_nat (length data)) q (k_connection x) s
      | OPERATION_SEND \<Rightarrow> sn_on_send q (k_connection x) s
      | INVALID_OPERATION \<Rightarrow> Some s)
   }"

fun Worker_WorkerThread ::
  "sn_os \<Rightarrow> (nat \<Rightarrow> 'app Handler) \<Rightarrow> ptr \<Rightarrow> packet list \<Rightarrow> 'app sn \<Rightarrow> (bool \<times> packet list \<times> 'app sn) option" where
  "Worker_WorkerThread os H w [] s = Some (False, [], s)"
| "Worker_WorkerThread os H w (NoOverlapped # ps) s = do {
     k \<leftarrow> sn_workers s w;
     Some (True, ps, s\<lparr>sn_workers := (sn_workers s)(w \<mapsto> k\<lparr>w_thread_count := w_thread_count k - 1, w_threads := w_threads k - 1\<rparr>)\<rparr>)
   }"
| "Worker_WorkerThread os H w (Packet bResult data q # ps) s = do {
     s \<leftarrow> sn_handle os H bResult data q s;
     Worker_WorkerThread os H w ps s
   }"

end
