(* ===== verification/StarNetInv.thy ===== *)
theory StarNetInv
  imports StarNet
begin

text \<open>
  Reference counting in StarNet.  The invariant is stated on a view of the state that keeps only what it
  is about: counters and contexts of the connections, kind and connection of the contexts, the
  lists of the pools, the contexts of the acceptors, and the requests that are with the kernel.
  It says that \<open>iorefs_\<close> is the number of outstanding receives and sends of the connection, up to a
  correction \<open>d\<close> for the places inside an operation where the counter is ahead of the requests.
\<close>

section \<open>The view\<close>

record rview =
  v_conn :: "ptr \<rightharpoonup> i32 \<times> ptr"
  v_ctx :: "ptr \<rightharpoonup> operation \<times> ptr"
  v_pool :: "ptr \<rightharpoonup> ptr list \<times> ptr list"
  v_acc :: "ptr \<rightharpoonup> ptr"
  v_pend :: "ptr list"
  v_next :: ptr

definition view :: "'app sn \<Rightarrow> rview" where
  "view s = \<lparr>v_conn = (\<lambda>p. map_option (\<lambda>c. (n_iorefs c, n_context c)) (sn_conns s p)),
     v_ctx = (\<lambda>q. map_option (\<lambda>x. (k_op x, k_connection x)) (sn_ctxs s q)),
     v_pool = (\<lambda>r. map_option (\<lambda>x. (cp_input_context_pool x, cp_output_context_pool x)) (sn_pools s r)),
     v_acc = (\<lambda>a. map_option ac_context (sn_accs s a)), v_pend = sn_pending s, v_next = sn_next s\<rparr>"

definition io_ops :: "operation set" where
  "io_ops = {OPERATION_RECV, OPERATION_SEND}"

definition is_io :: "rview \<Rightarrow> ptr \<Rightarrow> bool" where
  "is_io v q \<longleftrightarrow> (case v_ctx v q of None \<Rightarrow> False | Some (op, p) \<Rightarrow> op \<in> io_ops)"

definition io_of :: "rview \<Rightarrow> ptr \<Rightarrow> ptr \<Rightarrow> bool" where
  "io_of v p q \<longleftrightarrow> (case v_ctx v q of None \<Rightarrow> False | Some (op, p') \<Rightarrow> op \<in> io_ops \<and> p' = p)"

definition outstanding :: "rview \<Rightarrow> ptr \<Rightarrow> nat" where
  "outstanding v p = length (filter (io_of v p) (v_pend v))"

definition conn_ctxs :: "rview \<Rightarrow> ptr set" where
  "conn_ctxs v = {e. \<exists>p r. v_conn v p = Some (r, e)}"

definition embedded :: "rview \<Rightarrow> ptr set" where
  "embedded v = conn_ctxs v \<union> ran (v_acc v)"

definition on_input :: "rview \<Rightarrow> ptr \<Rightarrow> ptr set" where
  "on_input v r = (case v_pool v r of None \<Rightarrow> {} | Some (is, os) \<Rightarrow> set is)"

definition on_output :: "rview \<Rightarrow> ptr \<Rightarrow> ptr set" where
  "on_output v r = (case v_pool v r of None \<Rightarrow> {} | Some (is, os) \<Rightarrow> set os)"

definition pooled :: "rview \<Rightarrow> ptr set" where
  "pooled v = (\<Union>r. on_input v r \<union> on_output v r)"

text \<open>A context that the running code holds: on no list, in no request, in no connection.\<close>

definition held :: "rview \<Rightarrow> ptr \<Rightarrow> bool" where
  "held v q \<longleftrightarrow> q \<notin> pooled v \<and> q \<notin> set (v_pend v) \<and> q \<notin> embedded v \<and> q < v_next v \<and> is_io v q"

definition rv_count :: "(ptr \<Rightarrow> i32) \<Rightarrow> rview \<Rightarrow> bool" where
  "rv_count d v \<longleftrightarrow> (\<forall>p r q. v_conn v p = Some (r, q) \<longrightarrow> r = of_nat (outstanding v p) + d p)"

definition op_of :: "rview \<Rightarrow> ptr \<Rightarrow> operation option" where
  "op_of v q = map_option fst (v_ctx v q)"

text \<open>The lists of the pools have no context twice, and no two lists share one.\<close>

definition rv_lists :: "rview \<Rightarrow> bool" where
  "rv_lists v \<longleftrightarrow> (\<forall>r is os. v_pool v r = Some (is, os) \<longrightarrow> distinct (is @ os)) \<and>
     (\<forall>r r' q. q \<in> on_input v r \<union> on_output v r \<longrightarrow> q \<in> on_input v r' \<union> on_output v r' \<longrightarrow> r = r')"

definition rv_pools :: "rview \<Rightarrow> bool" where
  "rv_pools v \<longleftrightarrow> (\<forall>r. \<forall>q \<in> on_input v r. op_of v q = Some OPERATION_RECV) \<and>
     (\<forall>r. \<forall>q \<in> on_output v r. op_of v q = Some OPERATION_SEND) \<and>
     (\<forall>q \<in> pooled v. q \<notin> set (v_pend v) \<and> q \<notin> embedded v)"

definition rv_embedded :: "rview \<Rightarrow> bool" where
  "rv_embedded v \<longleftrightarrow> (\<forall>q \<in> embedded v. q \<in> set (v_pend v) \<longrightarrow> \<not> is_io v q) \<and>
     (\<forall>q \<in> ran (v_acc v). op_of v q = Some OPERATION_ACCEPT) \<and>
     conn_ctxs v \<inter> ran (v_acc v) = {}"

text \<open>Every address in use is below the next free one.\<close>

definition addrs :: "rview \<Rightarrow> ptr set" where
  "addrs v = pooled v \<union> embedded v \<union> set (v_pend v) \<union> dom (v_conn v) \<union> dom (v_ctx v)"

definition targets :: "rview \<Rightarrow> ptr set" where
  "targets v = {p. \<exists>q \<in> set (v_pend v). io_of v p q}"

definition rv_fresh :: "rview \<Rightarrow> bool" where
  "rv_fresh v \<longleftrightarrow> 0 < v_next v \<and> (\<forall>q \<in> addrs v \<union> targets v. q < v_next v)"

definition rv_inv :: "(ptr \<Rightarrow> i32) \<Rightarrow> rview \<Rightarrow> bool" where
  "rv_inv d v \<longleftrightarrow> rv_count d v \<and> rv_lists v \<and> rv_pools v \<and> rv_embedded v \<and> rv_fresh v \<and> distinct (filter (is_io v) (v_pend v))"

definition refs_inv :: "'app sn \<Rightarrow> bool" where
  "refs_inv s \<longleftrightarrow> rv_inv (\<lambda>p. 0) (view s)"

section \<open>Steps of the view\<close>

lemma conn_ctxs_upd: "v_conn v p = Some (r, e) \<Longrightarrow> conn_ctxs (v\<lparr>v_conn := (v_conn v)(p \<mapsto> (r', e))\<rparr>) = conn_ctxs v"
  by (auto simp: conn_ctxs_def) (metis option.inject prod.inject)

lemma conn_ctxs_frame [simp]:
  "conn_ctxs (v\<lparr>v_ctx := a\<rparr>) = conn_ctxs v" "conn_ctxs (v\<lparr>v_pend := b\<rparr>) = conn_ctxs v"
  "conn_ctxs (v\<lparr>v_pool := c\<rparr>) = conn_ctxs v" "conn_ctxs (v\<lparr>v_next := n\<rparr>) = conn_ctxs v" "conn_ctxs (v\<lparr>v_acc := e\<rparr>) = conn_ctxs v"
  by (simp_all add: conn_ctxs_def)

lemma pool_frame:
  assumes "v_pool v' = v_pool v"
  shows "on_input v' = on_input v" "on_output v' = on_output v" "pooled v' = pooled v" "rv_lists v' = rv_lists v"
  using assms by (simp_all add: on_input_def on_output_def pooled_def rv_lists_def fun_eq_iff)

lemma in_pooled: "q \<in> on_input v r \<Longrightarrow> q \<in> pooled v" "q \<in> on_output v r \<Longrightarrow> q \<in> pooled v"
  by (auto simp: pooled_def)

lemma rv_pools_frame:
  assumes "rv_pools v" "v_pool v' = v_pool v" "\<And>q. q \<in> pooled v \<Longrightarrow> op_of v' q = op_of v q"
    "\<And>q. q \<in> pooled v \<Longrightarrow> q \<notin> set (v_pend v') \<and> q \<notin> embedded v'"
  shows "rv_pools v'"
  using assms(1,3,4) unfolding rv_pools_def pool_frame [OF assms(2)] by (simp add: in_pooled)

lemma rv_embedded_frame:
  assumes "rv_embedded v" "v_acc v' = v_acc v" "conn_ctxs v' \<inter> ran (v_acc v) = {}"
    "\<And>q. q \<in> embedded v' \<Longrightarrow> q \<in> set (v_pend v') \<Longrightarrow> \<not> is_io v' q"
    "\<And>q. q \<in> ran (v_acc v) \<Longrightarrow> op_of v' q = op_of v q"
  shows "rv_embedded v'"
  using assms unfolding rv_embedded_def by simp

lemma rv_fresh_frame:
  assumes "rv_fresh v" "v_next v \<le> v_next v'" "\<And>q. q \<in> addrs v' \<Longrightarrow> q \<in> addrs v \<or> q < v_next v'"
    "\<And>q. q \<in> targets v' \<Longrightarrow> q \<in> targets v \<or> q < v_next v'"
  shows "rv_fresh v'"
proof -
  have "q < v_next v'" if "q \<in> addrs v' \<union> targets v'" for q
    using assms(1,2) assms(3,4) [of q] that by (auto simp: rv_fresh_def intro: less_le_trans)
  then show ?thesis using assms(1,2) by (auto simp: rv_fresh_def intro: less_le_trans)
qed

lemma rv_fresh_conn: "rv_fresh v \<Longrightarrow> v_conn v p = Some c \<Longrightarrow> p < v_next v"
  by (auto simp: rv_fresh_def addrs_def)

lemma rv_invI:
  "rv_count d v \<Longrightarrow> rv_lists v \<Longrightarrow> rv_pools v \<Longrightarrow> rv_embedded v \<Longrightarrow> rv_fresh v \<Longrightarrow> distinct (filter (is_io v) (v_pend v)) \<Longrightarrow> rv_inv d v"
  by (simp add: rv_inv_def)

lemma rv_invD:
  assumes "rv_inv d v"
  shows "rv_count d v" "rv_lists v" "rv_pools v" "rv_embedded v" "rv_fresh v" "distinct (filter (is_io v) (v_pend v))"
  using assms by (simp_all add: rv_inv_def)

lemma is_io_iff: "is_io v q \<longleftrightarrow> (\<exists>op. op_of v q = Some op \<and> op \<in> io_ops)"
  by (auto simp: is_io_def op_of_def split: option.splits)

lemma pooled_io:
  assumes "rv_pools v" "q \<in> pooled v"
  shows "is_io v q"
proof -
  from assms(2) obtain r where "q \<in> on_input v r \<or> q \<in> on_output v r" by (auto simp: pooled_def)
  then have "op_of v q = Some OPERATION_RECV \<or> op_of v q = Some OPERATION_SEND" using assms(1) unfolding rv_pools_def by blast
  then show ?thesis by (auto simp: is_io_iff io_ops_def)
qed

text \<open>A request is handed to the kernel: the counter was counted up before.\<close>

lemma rv_post_io:
  assumes I: "rv_inv d v" and h: "held v q" and x: "v_ctx v q = Some (op, p)" and p: "p < v_next v"
  shows "rv_inv (d(p := d p - 1)) (v\<lparr>v_pend := v_pend v @ [q]\<rparr>)" (is "rv_inv ?d ?v")
proof (rule rv_invI)
  note i = rv_invD [OF I]
  have io: "op \<in> io_ops" using h x by (simp add: held_def is_io_def)
  have q: "q \<notin> set (v_pend v)" "q \<notin> pooled v" "q \<notin> embedded v" "q < v_next v" using h by (auto simp: held_def)
  have iso: "is_io ?v = is_io v" "op_of ?v = op_of v" "io_of ?v = io_of v" by (auto simp: is_io_def op_of_def io_of_def fun_eq_iff)
  have emb: "embedded ?v = embedded v" by (simp add: embedded_def)
  have pl: "v_pool ?v = v_pool v" by simp
  have out: "outstanding ?v p' = outstanding v p' + (if p' = p then 1 else 0)" for p'
    using io x by (simp add: outstanding_def iso) (simp add: io_of_def)
  show "rv_count ?d ?v" using i(1) by (auto simp: rv_count_def out)
  show "rv_lists ?v" using i(2) pool_frame(4) [OF pl] by simp
  show "rv_pools ?v" by (rule rv_pools_frame [OF i(3) pl]) (use i(3) q emb iso in \<open>auto simp: rv_pools_def\<close>)
  show "rv_embedded ?v" by (rule rv_embedded_frame [OF i(4)]) (use i(4) q emb iso in \<open>auto simp: rv_embedded_def\<close>)
  show "rv_fresh ?v"
  proof (rule rv_fresh_frame [OF i(5)])
    show "q' \<in> addrs v \<or> q' < v_next ?v" if "q' \<in> addrs ?v" for q'
      using that q(4) emb pool_frame(3) [OF pl] by (auto simp: addrs_def)
    show "p' \<in> targets v \<or> p' < v_next ?v" if "p' \<in> targets ?v" for p'
      using that x p by (auto simp: targets_def iso) (auto simp: io_of_def)
  qed simp
  show "distinct (filter (is_io ?v) (v_pend ?v))" using i(6) q(1) unfolding iso by auto
qed

lemma rv_post_other:
  assumes I: "rv_inv d v" and x: "v_ctx v q = Some (op, p)" "op \<notin> io_ops"
  shows "rv_inv d (v\<lparr>v_pend := v_pend v @ [q]\<rparr>)" (is "rv_inv d ?v")
proof (rule rv_invI)
  note i = rv_invD [OF I]
  have nio: "\<not> is_io v q" "\<not> io_of v p' q" for p' using x by (auto simp: is_io_def io_of_def)
  have q: "q \<notin> pooled v" using pooled_io [OF i(3)] nio(1) by blast
  have iso: "is_io ?v = is_io v" "op_of ?v = op_of v" "io_of ?v = io_of v" by (auto simp: is_io_def op_of_def io_of_def fun_eq_iff)
  have emb: "embedded ?v = embedded v" by (simp add: embedded_def)
  have pl: "v_pool ?v = v_pool v" by simp
  have out: "outstanding ?v p' = outstanding v p'" for p' by (simp add: outstanding_def iso nio)
  show "rv_count d ?v" using i(1) by (auto simp: rv_count_def out)
  show "rv_lists ?v" using i(2) pool_frame(4) [OF pl] by simp
  show "rv_pools ?v" by (rule rv_pools_frame [OF i(3) pl]) (use i(3) q emb iso in \<open>auto simp: rv_pools_def\<close>)
  show "rv_embedded ?v" by (rule rv_embedded_frame [OF i(4)]) (use i(4) nio emb iso in \<open>auto simp: rv_embedded_def\<close>)
  show "rv_fresh ?v"
    by (rule rv_fresh_frame [OF i(5)]) (use x nio emb iso pool_frame(3) [OF pl] in \<open>auto simp: addrs_def targets_def\<close>)
  show "distinct (filter (is_io ?v) (v_pend ?v))" using i(6) nio unfolding iso by auto
qed

lemma outstanding_cong:
  assumes "v_pend v' = v_pend v" "\<And>q. q \<in> set (v_pend v) \<Longrightarrow> io_of v' p q = io_of v p q"
  shows "outstanding v' p = outstanding v p"
  using assms by (auto simp: outstanding_def intro!: arg_cong [where f = length] filter_cong)

text \<open>A context that is in no request may be pointed at a connection.\<close>

lemma rv_point:
  assumes I: "rv_inv d v" and x: "v_ctx v q = Some (op, p0)" and q: "q \<notin> set (v_pend v)"
  shows "rv_inv d (v\<lparr>v_ctx := (v_ctx v)(q \<mapsto> (op, p))\<rparr>)" (is "rv_inv d ?v")
    and "held v q' \<Longrightarrow> held (v\<lparr>v_ctx := (v_ctx v)(q \<mapsto> (op, p))\<rparr>) q'"
proof -
  note i = rv_invD [OF I]
  have opo: "op_of ?v = op_of v" using x by (auto simp: op_of_def fun_eq_iff)
  then have iso: "is_io ?v = is_io v" by (auto simp: is_io_iff fun_eq_iff)
  have emb: "embedded ?v = embedded v" by (simp add: embedded_def)
  have pl: "v_pool ?v = v_pool v" by simp
  have out: "outstanding ?v p' = outstanding v p'" for p' by (rule outstanding_cong) (use q in \<open>auto simp: io_of_def\<close>)
  show "rv_inv d ?v"
  proof (rule rv_invI)
    show "rv_count d ?v" using i(1) by (auto simp: rv_count_def out)
    show "rv_lists ?v" using i(2) pool_frame(4) [OF pl] by simp
    show "rv_pools ?v" by (rule rv_pools_frame [OF i(3) pl]) (use i(3) emb opo in \<open>auto simp: rv_pools_def\<close>)
    show "rv_embedded ?v" by (rule rv_embedded_frame [OF i(4)]) (use i(4) emb iso opo in \<open>auto simp: rv_embedded_def\<close>)
    show "rv_fresh ?v"
      by (rule rv_fresh_frame [OF i(5)])
        (use x q emb pool_frame(3) [OF pl] in \<open>auto simp: addrs_def targets_def io_of_def split: if_splits\<close>)
    show "distinct (filter (is_io ?v) (v_pend ?v))" using i(6) unfolding iso by simp
  qed
  show "held v q' \<Longrightarrow> held ?v q'" using iso emb pool_frame(3) [OF pl] by (simp add: held_def)
qed

text \<open>The context of a connection or an acceptor gets its operation and may be handed to the kernel.\<close>

lemma rv_embed:
  assumes I: "rv_inv d v" and e: "e \<in> embedded v" and x: "v_ctx v e = Some x0" and op: "op \<notin> io_ops"
    and acc: "e \<in> ran (v_acc v) \<Longrightarrow> op = OPERATION_ACCEPT" and pd: "pend = v_pend v \<or> pend = v_pend v @ [e]"
  shows "rv_inv d (v\<lparr>v_ctx := (v_ctx v)(e \<mapsto> (op, p)), v_pend := pend\<rparr>)" (is "rv_inv d ?v")
    and "held v q' \<Longrightarrow> held (v\<lparr>v_ctx := (v_ctx v)(e \<mapsto> (op, p)), v_pend := pend\<rparr>) q'"
proof -
  note i = rv_invD [OF I]
  have ns: "e \<in> set (v_pend v) \<Longrightarrow> \<not> is_io v e" using i(4) e by (auto simp: rv_embedded_def)
  have ops: "q \<noteq> e \<Longrightarrow> op_of ?v q = op_of v q" "op_of ?v e = Some op" for q by (simp_all add: op_of_def)
  have iso: "q \<in> set (v_pend v) \<Longrightarrow> is_io ?v q = is_io v q" "\<not> is_io ?v e" for q
    using ns ops op by (cases "q = e"; auto simp: is_io_iff)+
  have iof: "io_of ?v p' q = io_of v p' q" if "q \<in> set (v_pend v)" for p' q
    using that ns op by (cases "q = e") (auto simp: io_of_def is_io_def split: option.splits)
  have emb: "embedded ?v = embedded v" by (simp add: embedded_def)
  have pl: "v_pool ?v = v_pool v" by simp
  have epl: "e \<notin> pooled v" using i(3) e by (auto simp: rv_pools_def)
  have ioe: "\<not> io_of ?v p' e" for p' using op by (simp add: io_of_def)
  have out: "outstanding ?v p' = outstanding v p'" for p'
  proof -
    have "filter (io_of ?v p') pend = filter (io_of ?v p') (v_pend v)" using pd ioe by auto
    also have "\<dots> = filter (io_of v p') (v_pend v)" using iof by (auto intro: filter_cong)
    finally show ?thesis by (simp add: outstanding_def)
  qed
  have fi: "filter (is_io ?v) pend = filter (is_io v) (v_pend v)"
  proof -
    have "filter (is_io ?v) pend = filter (is_io ?v) (v_pend v)" using pd iso(2) by auto
    also have "\<dots> = filter (is_io v) (v_pend v)" using iso(1) by (auto intro: filter_cong)
    finally show ?thesis .
  qed
  have elt: "e < v_next v" using i(5) e by (auto simp: rv_fresh_def addrs_def)
  show "rv_inv d ?v"
  proof (rule rv_invI)
    show "rv_count d ?v" using i(1) by (auto simp: rv_count_def out)
    show "rv_lists ?v" using i(2) pool_frame(4) [OF pl] by simp
    show "rv_pools ?v"
    proof (rule rv_pools_frame [OF i(3) pl])
      show "op_of ?v q = op_of v q" if "q \<in> pooled v" for q using that epl ops(1) by metis
      show "q \<notin> set (v_pend ?v) \<and> q \<notin> embedded ?v" if "q \<in> pooled v" for q
        using that i(3) pd epl emb by (auto simp: rv_pools_def)
    qed
    show "rv_embedded ?v"
    proof (rule rv_embedded_frame [OF i(4)])
      show "op_of ?v q = op_of v q" if "q \<in> ran (v_acc v)" for q
        using that acc i(4) ops by (cases "q = e") (auto simp: rv_embedded_def)
      show "\<not> is_io ?v q" if "q \<in> embedded ?v" "q \<in> set (v_pend ?v)" for q
        using that i(4) iso pd emb by (cases "q = e") (auto simp: rv_embedded_def)
    qed (use i(4) in \<open>auto simp: rv_embedded_def\<close>)
    show "rv_fresh ?v"
    proof (rule rv_fresh_frame [OF i(5)])
      show "q \<in> addrs v \<or> q < v_next ?v" if "q \<in> addrs ?v" for q
        using that pd elt x emb pool_frame(3) [OF pl] by (auto simp: addrs_def split: if_splits)
      show "p' \<in> targets v \<or> p' < v_next ?v" if "p' \<in> targets ?v" for p'
      proof -
        from that obtain q where "q \<in> set pend" "io_of ?v p' q" by (auto simp: targets_def)
        then have "q \<in> set (v_pend v)" "io_of v p' q" using pd iof ioe by auto
        then show ?thesis by (auto simp: targets_def)
      qed
    qed simp
    show "distinct (filter (is_io ?v) (v_pend ?v))" using i(6) fi by simp
  qed
  show "held ?v q'" if "held v q'"
  proof -
    have "q' \<noteq> e" using that e by (auto simp: held_def)
    then show ?thesis using that pd emb pool_frame(3) [OF pl] ops by (auto simp: held_def is_io_iff)
  qed
qed

text \<open>A completed request leaves the kernel.\<close>

lemma rv_take_io:
  assumes I: "rv_inv d v" and q: "q \<in> set (v_pend v)" and x: "v_ctx v q = Some (op, p)" "op \<in> io_ops"
  shows "rv_inv (d(p := d p + 1)) (v\<lparr>v_pend := remove1 q (v_pend v)\<rparr>)" (is "rv_inv ?d ?v")
    and "held (v\<lparr>v_pend := remove1 q (v_pend v)\<rparr>) q"
proof -
  note i = rv_invD [OF I]
  have iq: "is_io v q" "io_of v p q" using x by (auto simp: is_io_def io_of_def)
  have iso: "is_io ?v = is_io v" "io_of ?v = io_of v" "op_of ?v = op_of v" by (auto simp: is_io_def io_of_def op_of_def fun_eq_iff)
  have emb: "embedded ?v = embedded v" by (simp add: embedded_def)
  have pl: "v_pool ?v = v_pool v" by simp
  have sub: "set (v_pend ?v) \<subseteq> set (v_pend v)" by (simp add: set_remove1_subset)
  have out: "outstanding v p' = outstanding ?v p' + (if p' = p then 1 else 0)" for p'
  proof (cases "io_of v p' q")
    case True
    then have "p' = p" using x by (auto simp: io_of_def)
    have "q \<in> set (filter (io_of v p') (v_pend v))" using q True by simp
    then have "length (remove1 q (filter (io_of v p') (v_pend v))) + 1 = length (filter (io_of v p') (v_pend v))"
      using length_pos_if_in_set by (fastforce simp: length_remove1)
    then show ?thesis using \<open>p' = p\<close> True by (simp add: outstanding_def iso(2) filter_remove1)
  next
    case False
    then have "p' \<noteq> p" using iq by auto
    then show ?thesis using False by (simp add: outstanding_def iso(2) filter_remove1 remove1_idem)
  qed
  show "rv_inv ?d ?v"
  proof (rule rv_invI)
    show "rv_count ?d ?v"
      unfolding rv_count_def
    proof (intro allI impI)
      fix p' r e assume "v_conn ?v p' = Some (r, e)"
      then have "r = of_nat (outstanding v p') + d p'" using i(1) by (simp add: rv_count_def)
      then show "r = of_nat (outstanding ?v p') + ?d p'" by (simp add: out [of p'])
    qed
    show "rv_lists ?v" using i(2) pool_frame(4) [OF pl] by simp
    show "rv_pools ?v" by (rule rv_pools_frame [OF i(3) pl]) (use i(3) emb iso sub in \<open>auto simp: rv_pools_def\<close>)
    show "rv_embedded ?v" by (rule rv_embedded_frame [OF i(4)]) (use i(4) emb iso sub in \<open>auto simp: rv_embedded_def\<close>)
    show "rv_fresh ?v"
      by (rule rv_fresh_frame [OF i(5)]) (use sub iso emb pool_frame(3) [OF pl] in \<open>auto simp: addrs_def targets_def\<close>)
    show "distinct (filter (is_io ?v) (v_pend ?v))" using i(6) by (simp add: iso filter_remove1)
  qed
  have "q \<notin> set (remove1 q (v_pend v))"
  proof
    assume "q \<in> set (remove1 q (v_pend v))"
    then have "q \<in> set (remove1 q (filter (is_io v) (v_pend v)))" using iq by (simp add: filter_remove1 [symmetric])
    then show False using i(6) by simp
  qed
  then show "held ?v q"
    using i(3-5) q iq iso emb pool_frame(3) [OF pl] by (auto simp: held_def rv_pools_def rv_embedded_def rv_fresh_def addrs_def)
qed

lemma rv_take_other:
  assumes I: "rv_inv d v" and x: "\<not> is_io v q"
  shows "rv_inv d (v\<lparr>v_pend := remove1 q (v_pend v)\<rparr>)" (is "rv_inv d ?v")
proof (rule rv_invI)
  note i = rv_invD [OF I]
  have iso: "is_io ?v = is_io v" "io_of ?v = io_of v" "op_of ?v = op_of v" by (auto simp: is_io_def io_of_def op_of_def fun_eq_iff)
  have emb: "embedded ?v = embedded v" by (simp add: embedded_def)
  have pl: "v_pool ?v = v_pool v" by simp
  have sub: "set (v_pend ?v) \<subseteq> set (v_pend v)" by (simp add: set_remove1_subset)
  have "\<not> io_of v p' q" for p' using x by (auto simp: io_of_def is_io_def split: option.splits)
  then have out: "outstanding ?v p' = outstanding v p'" for p'
    by (simp add: outstanding_def iso filter_remove1 remove1_idem)
  show "rv_count d ?v" using i(1) out by (auto simp: rv_count_def)
  show "rv_lists ?v" using i(2) pool_frame(4) [OF pl] by simp
  show "rv_pools ?v" by (rule rv_pools_frame [OF i(3) pl]) (use i(3) emb iso sub in \<open>auto simp: rv_pools_def\<close>)
  show "rv_embedded ?v" by (rule rv_embedded_frame [OF i(4)]) (use i(4) emb iso sub in \<open>auto simp: rv_embedded_def\<close>)
  show "rv_fresh ?v"
    by (rule rv_fresh_frame [OF i(5)]) (use sub iso emb pool_frame(3) [OF pl] in \<open>auto simp: addrs_def targets_def\<close>)
  show "distinct (filter (is_io ?v) (v_pend ?v))" using i(6) by (simp add: iso filter_remove1)
qed

text \<open>The counter of a connection is changed.\<close>

lemma rv_count_add:
  assumes I: "rv_inv d v" and c: "v_conn v p = Some (r, e)"
  shows "rv_inv (d(p := d p + k)) (v\<lparr>v_conn := (v_conn v)(p \<mapsto> (r + k, e))\<rparr>)" (is "rv_inv ?d ?v")
    and "held v q \<Longrightarrow> held (v\<lparr>v_conn := (v_conn v)(p \<mapsto> (r + k, e))\<rparr>) q"
proof -
  note i = rv_invD [OF I]
  have cc: "conn_ctxs ?v = conn_ctxs v" by (rule conn_ctxs_upd [OF c])
  then have emb: "embedded ?v = embedded v" by (simp add: embedded_def)
  have pl: "v_pool ?v = v_pool v" by simp
  have iso: "is_io ?v = is_io v" "op_of ?v = op_of v" by (auto simp: is_io_def op_of_def fun_eq_iff)
  have out: "outstanding ?v p' = outstanding v p'" for p' by (rule outstanding_cong) (auto simp: io_of_def)
  show "rv_inv ?d ?v"
  proof (rule rv_invI)
    show "rv_count ?d ?v" using i(1) c by (auto simp: rv_count_def out split: if_splits)
    show "rv_lists ?v" using i(2) pool_frame(4) [OF pl] by simp
    show "rv_pools ?v" by (rule rv_pools_frame [OF i(3) pl]) (use i(3) emb iso in \<open>auto simp: rv_pools_def\<close>)
    show "rv_embedded ?v" by (rule rv_embedded_frame [OF i(4)]) (use i(4) cc emb iso in \<open>auto simp: rv_embedded_def\<close>)
    show "rv_fresh ?v"
      by (rule rv_fresh_frame [OF i(5)])
        (use c emb pool_frame(3) [OF pl] in \<open>auto simp: addrs_def targets_def io_of_def split: if_splits\<close>)
    show "distinct (filter (is_io ?v) (v_pend ?v))" using i(6) by (simp add: iso)
  qed
  show "held v q \<Longrightarrow> held ?v q" using emb pool_frame(3) [OF pl] iso by (simp add: held_def)
qed

lemma rv_count_none: "rv_inv d v \<Longrightarrow> v_conn v p = None \<Longrightarrow> rv_inv (d(p := k)) v"
  by (auto simp: rv_inv_def rv_count_def)

text \<open>Contexts go onto a list of a pool and come from it.\<close>

definition set_lists :: "ptr \<Rightarrow> ptr list \<Rightarrow> ptr list \<Rightarrow> rview \<Rightarrow> rview" where
  "set_lists r is os v = v\<lparr>v_pool := (v_pool v)(r \<mapsto> (is, os))\<rparr>"

lemma on_set_lists:
  "on_input (set_lists r is os v) r' = (if r' = r then set is else on_input v r')"
  "on_output (set_lists r is os v) r' = (if r' = r then set os else on_output v r')"
  by (simp_all add: on_input_def on_output_def set_lists_def)

lemma pooled_iff: "q \<in> pooled v \<longleftrightarrow> (\<exists>r. q \<in> on_input v r \<or> q \<in> on_output v r)"
  by (auto simp: pooled_def)

lemma rv_set_lists:
  assumes I: "rv_inv d v" and L: "rv_lists (set_lists r is os v)"
    and i': "\<And>q. q \<in> set is \<Longrightarrow> q \<in> on_input v r \<or> held v q \<and> op_of v q = Some OPERATION_RECV"
    and o': "\<And>q. q \<in> set os \<Longrightarrow> q \<in> on_output v r \<or> held v q \<and> op_of v q = Some OPERATION_SEND"
  shows "rv_inv d (set_lists r is os v)" (is "rv_inv d ?v")
proof (rule rv_invI)
  note i = rv_invD [OF I]
  have iso: "is_io ?v = is_io v" "op_of ?v = op_of v" by (auto simp: is_io_def op_of_def fun_eq_iff set_lists_def)
  have emb: "embedded ?v = embedded v" "conn_ctxs ?v = conn_ctxs v" "v_acc ?v = v_acc v" "v_pend ?v = v_pend v"
    by (simp_all add: embedded_def set_lists_def)
  have out: "outstanding ?v p' = outstanding v p'" for p' by (rule outstanding_cong) (auto simp: io_of_def set_lists_def)
  have sub: "q \<in> pooled v \<or> held v q" if "q \<in> pooled ?v" for q
    using that i' o' by (auto simp: pooled_iff on_set_lists split: if_splits)
  show "rv_count d ?v" using i(1) by (auto simp: rv_count_def out) (simp add: set_lists_def)
  show "rv_lists ?v" by (rule L)
  show "rv_pools ?v"
    unfolding rv_pools_def iso emb
  proof (intro conjI allI ballI)
    fix r' q assume "q \<in> on_input ?v r'"
    then show "op_of v q = Some OPERATION_RECV"
      using i(3) i' [of q] by (cases "r' = r") (auto simp: on_set_lists rv_pools_def)
  next
    fix r' q assume "q \<in> on_output ?v r'"
    then show "op_of v q = Some OPERATION_SEND"
      using i(3) o' [of q] by (cases "r' = r") (auto simp: on_set_lists rv_pools_def)
  next
    fix q assume "q \<in> pooled ?v"
    from sub [OF this] show "q \<notin> set (v_pend v)" "q \<notin> embedded v"
      using i(3) by (auto simp: rv_pools_def held_def)
  qed
  show "rv_embedded ?v" using i(4) unfolding rv_embedded_def emb iso by simp
  show "rv_fresh ?v"
  proof (rule rv_fresh_frame [OF i(5)])
    show "q \<in> addrs v \<or> q < v_next ?v" if "q \<in> addrs ?v" for q
      using that sub [of q] unfolding addrs_def emb by (auto simp: set_lists_def held_def)
  qed (auto simp: set_lists_def targets_def io_of_def)
  show "distinct (filter (is_io ?v) (v_pend ?v))" using i(6) by (simp add: iso emb)
qed

lemma rv_push:
  assumes I: "rv_inv d v" and h: "held v q" and r: "v_pool v r = Some (is, os)"
  shows "op_of v q = Some OPERATION_RECV \<Longrightarrow> rv_inv d (set_lists r (q # is) os v)"
    and "op_of v q = Some OPERATION_SEND \<Longrightarrow> rv_inv d (set_lists r is (q # os) v)"
proof -
  note i = rv_invD [OF I]
  have q: "q \<notin> pooled v" using h by (simp add: held_def)
  have on: "on_input v r = set is" "on_output v r = set os" using r by (simp_all add: on_input_def on_output_def)
  have D: "distinct (is @ os)" using i(2) r by (auto simp: rv_lists_def)
  have *: "rv_lists (set_lists r is' os' v)" if "distinct (is' @ os')" "set is' \<union> set os' = insert q (set is \<union> set os)" for is' os'
    unfolding rv_lists_def on_set_lists
  proof (intro conjI allI impI)
    fix r1 is1 os1 assume "v_pool (set_lists r is' os' v) r1 = Some (is1, os1)"
    then show "distinct (is1 @ os1)" using that(1) i(2) by (auto simp: set_lists_def rv_lists_def split: if_splits)
  next
    fix r1 r2 q1 assume a: "q1 \<in> (if r1 = r then set is' else on_input v r1) \<union> (if r1 = r then set os' else on_output v r1)"
      "q1 \<in> (if r2 = r then set is' else on_input v r2) \<union> (if r2 = r then set os' else on_output v r2)"
    have u: "q1 \<in> on_input v a \<union> on_output v a \<Longrightarrow> q1 \<in> on_input v b \<union> on_output v b \<Longrightarrow> a = b" for a b
      using i(2) by (auto simp: rv_lists_def)
    have n: "q \<notin> on_input v a \<union> on_output v a" for a using q by (auto simp: pooled_iff)
    have w: "q1 \<in> insert q (on_input v r \<union> on_output v r)" if "a = r" "q1 \<in> set is' \<union> set os'" for a
      using that \<open>set is' \<union> set os' = insert q (set is \<union> set os)\<close> on by auto
    show "r1 = r2"
    proof (cases "q1 = q")
      case True
      then show ?thesis using a n [of r1] n [of r2] by (auto split: if_splits)
    next
      case False
      then have "q1 \<in> on_input v r1 \<union> on_output v r1" "q1 \<in> on_input v r2 \<union> on_output v r2"
        using a w [of r1] w [of r2] by (auto split: if_splits)
      then show ?thesis by (rule u)
    qed
  qed
  have n: "q \<notin> set is" "q \<notin> set os" using q on by (auto simp: pooled_iff)
  show "op_of v q = Some OPERATION_RECV \<Longrightarrow> rv_inv d (set_lists r (q # is) os v)"
    by (rule rv_set_lists [OF I *]) (use D n on h in auto)
  show "op_of v q = Some OPERATION_SEND \<Longrightarrow> rv_inv d (set_lists r is (q # os) v)"
    by (rule rv_set_lists [OF I *]) (use D n on h in auto)
qed

lemma rv_pop:
  assumes I: "rv_inv d v" and r: "v_pool v r = Some (is, os)" and s: "is = q # is' \<and> os' = os \<or> os = q # os' \<and> is' = is"
  shows "rv_inv d (set_lists r is' os' v) \<and> held (set_lists r is' os' v) q \<and>
    op_of (set_lists r is' os' v) q = Some (if os' = os then OPERATION_RECV else OPERATION_SEND)"
proof -
  note i = rv_invD [OF I]
  let ?v = "set_lists r is' os' v"
  have on: "on_input v r = set is" "on_output v r = set os" using r by (simp_all add: on_input_def on_output_def)
  have D: "distinct (is @ os)" using i(2) r by (auto simp: rv_lists_def)
  have u: "q1 \<in> on_input v a \<union> on_output v a \<Longrightarrow> q1 \<in> on_input v b \<union> on_output v b \<Longrightarrow> a = b" for a b q1
    using i(2) by (auto simp: rv_lists_def)
  have L: "rv_lists ?v"
    unfolding rv_lists_def on_set_lists
  proof (intro conjI allI impI)
    fix r1 is1 os1 assume "v_pool ?v r1 = Some (is1, os1)"
    then show "distinct (is1 @ os1)" using D s i(2) by (auto simp: set_lists_def rv_lists_def split: if_splits)
  next
    fix r1 r2 q1 assume a: "q1 \<in> (if r1 = r then set is' else on_input v r1) \<union> (if r1 = r then set os' else on_output v r1)"
      "q1 \<in> (if r2 = r then set is' else on_input v r2) \<union> (if r2 = r then set os' else on_output v r2)"
    then have "q1 \<in> on_input v r1 \<union> on_output v r1" "q1 \<in> on_input v r2 \<union> on_output v r2"
      using s on by (auto split: if_splits)
    then show "r1 = r2" by (rule u)
  qed
  have inv: "rv_inv d ?v" by (rule rv_set_lists [OF I L]) (use s on in auto)
  have q: "q \<in> on_input v r \<union> on_output v r" using s on by auto
  have "q \<notin> pooled ?v"
  proof
    assume "q \<in> pooled ?v"
    then obtain r1 where r1: "q \<in> on_input ?v r1 \<union> on_output ?v r1" by (auto simp: pooled_iff)
    show False
    proof (cases "r1 = r")
      case True
      then show False using r1 D s by (auto simp: on_set_lists)
    next
      case False
      then have "q \<in> on_input v r1 \<union> on_output v r1" using r1 by (auto simp: on_set_lists)
      then show False using u q False by metis
    qed
  qed
  moreover have pq: "q \<in> pooled v" using q by (auto simp: pooled_iff)
  moreover have op: "op_of v q = Some (if os' = os then OPERATION_RECV else OPERATION_SEND)"
  proof (cases "is = q # is' \<and> os' = os")
    case True
    then have "q \<in> on_input v r" using on by simp
    then show ?thesis using True i(3) by (auto simp: rv_pools_def)
  next
    case False
    then have "q \<in> on_output v r" "os' \<noteq> os" using s on by auto
    then show ?thesis using i(3) by (auto simp: rv_pools_def)
  qed
  moreover have "op_of ?v = op_of v" "embedded ?v = embedded v" "v_pend ?v = v_pend v" "v_next ?v = v_next v"
    by (simp_all add: op_of_def fun_eq_iff embedded_def set_lists_def)
  ultimately show ?thesis using inv i(3,5) by (auto simp: held_def is_io_iff io_ops_def rv_pools_def rv_fresh_def addrs_def)
qed

text \<open>New objects at fresh addresses.\<close>

lemma rv_freshD:
  assumes "rv_fresh v" "v_next v \<le> n"
  shows "n \<notin> pooled v" "n \<notin> embedded v" "n \<notin> set (v_pend v)" "v_conn v n = None" "v_ctx v n = None"
proof -
  have "n \<notin> addrs v" using assms by (metis UnI1 not_le rv_fresh_def)
  then show "n \<notin> pooled v" "n \<notin> embedded v" "n \<notin> set (v_pend v)" "v_conn v n = None" "v_ctx v n = None"
    by (auto simp: addrs_def)
qed

lemma outstanding_fresh: "rv_fresh v \<Longrightarrow> v_next v \<le> n \<Longrightarrow> outstanding v n = 0"
proof -
  assume "rv_fresh v" "v_next v \<le> n"
  then have "n \<notin> targets v" by (metis UnI2 not_le rv_fresh_def)
  then show ?thesis by (auto simp: outstanding_def targets_def filter_empty_conv)
qed

lemma rv_new_ctx:
  assumes I: "rv_inv d v" and n: "v_next v \<le> n" "n < k"
  shows "rv_inv d (v\<lparr>v_next := k, v_ctx := (v_ctx v)(n \<mapsto> x)\<rparr>)" (is "rv_inv d ?v")
    and "fst x \<in> io_ops \<Longrightarrow> held (v\<lparr>v_next := k, v_ctx := (v_ctx v)(n \<mapsto> x)\<rparr>) n"
proof -
  note i = rv_invD [OF I]
  note f = rv_freshD [OF i(5) n(1)]
  have iso: "q \<noteq> n \<Longrightarrow> is_io ?v q = is_io v q" "q \<noteq> n \<Longrightarrow> op_of ?v q = op_of v q" for q by (auto simp: is_io_def op_of_def)
  have emb: "embedded ?v = embedded v" by (simp add: embedded_def)
  have pl: "v_pool ?v = v_pool v" by simp
  have out: "outstanding ?v p' = outstanding v p'" for p' by (rule outstanding_cong) (use f in \<open>auto simp: io_of_def\<close>)
  show "rv_inv d ?v"
  proof (rule rv_invI)
    show "rv_count d ?v" using i(1) by (auto simp: rv_count_def out)
    show "rv_lists ?v" using i(2) pool_frame(4) [OF pl] by simp
    show "rv_pools ?v"
    proof (rule rv_pools_frame [OF i(3) pl])
      show "op_of ?v q = op_of v q" if "q \<in> pooled v" for q using that f(1) iso(2) by metis
    qed (use i(3) emb in \<open>auto simp: rv_pools_def\<close>)
    show "rv_embedded ?v"
    proof (rule rv_embedded_frame [OF i(4)])
      show "op_of ?v q = op_of v q" if "q \<in> ran (v_acc v)" for q using that f(2) iso(2) by (metis embedded_def UnI2)
      show "\<not> is_io ?v q" if "q \<in> embedded ?v" "q \<in> set (v_pend ?v)" for q
        using that i(4) f(2) iso(1) [of q] emb by (cases "q = n") (auto simp: rv_embedded_def)
    qed (use i(4) in \<open>auto simp: rv_embedded_def\<close>)
    show "rv_fresh ?v"
      by (rule rv_fresh_frame [OF i(5)])
        (use n f(3) emb pool_frame(3) [OF pl] in \<open>auto simp: addrs_def targets_def io_of_def split: if_splits\<close>)
    show "distinct (filter (is_io ?v) (v_pend ?v))"
    proof -
      have "filter (is_io ?v) (v_pend v) = filter (is_io v) (v_pend v)" using iso(1) f(3) by (metis (mono_tags, lifting) filter_cong)
      then show ?thesis using i(6) by simp
    qed
  qed
  show "held ?v n" if "fst x \<in> io_ops"
    using that f n emb pool_frame(3) [OF pl] by (cases x) (auto simp: held_def is_io_def)
qed

lemma rv_bump:
  assumes I: "rv_inv d v" and n: "v_next v \<le> k"
  shows "rv_inv d (v\<lparr>v_next := k\<rparr>)" (is "rv_inv d ?v")
proof (rule rv_invI)
  note i = rv_invD [OF I]
  have iso: "is_io ?v = is_io v" "op_of ?v = op_of v" by (auto simp: is_io_def op_of_def fun_eq_iff)
  have emb: "embedded ?v = embedded v" by (simp add: embedded_def)
  have pl: "v_pool ?v = v_pool v" by simp
  have out: "outstanding ?v p' = outstanding v p'" for p' by (rule outstanding_cong) (auto simp: io_of_def)
  show "rv_count d ?v" using i(1) by (auto simp: rv_count_def out)
  show "rv_lists ?v" using i(2) pool_frame(4) [OF pl] by simp
  show "rv_pools ?v" by (rule rv_pools_frame [OF i(3) pl]) (use i(3) emb iso in \<open>auto simp: rv_pools_def\<close>)
  show "rv_embedded ?v" by (rule rv_embedded_frame [OF i(4)]) (use i(4) emb iso in \<open>auto simp: rv_embedded_def\<close>)
  show "rv_fresh ?v"
    by (rule rv_fresh_frame [OF i(5)]) (use n emb pool_frame(3) [OF pl] in \<open>auto simp: addrs_def targets_def io_of_def\<close>)
  show "distinct (filter (is_io ?v) (v_pend ?v))" using i(6) by (simp add: iso)
qed

lemma rv_new_conn:
  assumes I: "rv_inv d v" and p: "v_conn v p = None" "p < v_next v" "outstanding v p = 0" "d p = 0"
    and e: "e \<notin> pooled v" "e \<notin> set (v_pend v)" "e \<notin> ran (v_acc v)" "e < v_next v"
  shows "rv_inv d (v\<lparr>v_conn := (v_conn v)(p \<mapsto> (0, e))\<rparr>)" (is "rv_inv d ?v")
proof (rule rv_invI)
  note i = rv_invD [OF I]
  have iso: "is_io ?v = is_io v" "op_of ?v = op_of v" by (auto simp: is_io_def op_of_def fun_eq_iff)
  have cc: "conn_ctxs ?v = insert e (conn_ctxs v)" using p(1) by (auto simp: conn_ctxs_def) (metis option.distinct(1))
  then have emb: "embedded ?v = insert e (embedded v)" by (simp add: embedded_def)
  have pl: "v_pool ?v = v_pool v" by simp
  have out: "outstanding ?v p' = outstanding v p'" for p' by (rule outstanding_cong) (auto simp: io_of_def)
  show "rv_count d ?v" using i(1) p by (auto simp: rv_count_def out)
  show "rv_lists ?v" using i(2) pool_frame(4) [OF pl] by simp
  show "rv_pools ?v" by (rule rv_pools_frame [OF i(3) pl]) (use i(3) emb iso e in \<open>auto simp: rv_pools_def\<close>)
  show "rv_embedded ?v" by (rule rv_embedded_frame [OF i(4)]) (use i(4) emb cc iso e in \<open>auto simp: rv_embedded_def\<close>)
  show "rv_fresh ?v"
    by (rule rv_fresh_frame [OF i(5)])
      (use p(2) e(4) emb pool_frame(3) [OF pl] in \<open>auto simp: addrs_def targets_def io_of_def split: if_splits\<close>)
  show "distinct (filter (is_io ?v) (v_pend ?v))" using i(6) by (simp add: iso)
qed

lemma rv_delete:
  assumes I: "rv_inv d v" and c: "v_conn v p = Some (r, e)"
  shows "rv_inv d (v\<lparr>v_conn := (v_conn v)(p := None), v_ctx := (v_ctx v)(e := None)\<rparr>)" (is "rv_inv d ?v")
proof (rule rv_invI)
  note i = rv_invD [OF I]
  have ec: "e \<in> conn_ctxs v" using c by (auto simp: conn_ctxs_def)
  then have e: "e \<in> embedded v" "e \<notin> ran (v_acc v)" "e \<notin> pooled v" "e \<in> set (v_pend v) \<Longrightarrow> \<not> is_io v e"
    using i(3,4) by (auto simp: embedded_def rv_pools_def rv_embedded_def)
  have iso: "q \<noteq> e \<Longrightarrow> is_io ?v q = is_io v q" "q \<noteq> e \<Longrightarrow> op_of ?v q = op_of v q" "\<not> is_io ?v e" for q
    by (auto simp: is_io_def op_of_def)
  have cc: "conn_ctxs ?v \<subseteq> conn_ctxs v" by (auto simp: conn_ctxs_def split: if_splits)
  then have emb: "embedded ?v \<subseteq> embedded v" by (auto simp: embedded_def)
  have pl: "v_pool ?v = v_pool v" by simp
  have isp: "is_io ?v q = is_io v q" if "q \<in> set (v_pend v)" for q using that e(4) iso by (cases "q = e") auto
  have iof: "io_of ?v p' q = io_of v p' q" if "q \<in> set (v_pend v)" for p' q
    using that e(4) by (cases "q = e") (auto simp: io_of_def is_io_def split: option.splits)
  have out: "outstanding ?v p' = outstanding v p'" for p' by (rule outstanding_cong) (use iof in auto)
  show "rv_count d ?v" using i(1) by (auto simp: rv_count_def out split: if_splits)
  show "rv_lists ?v" using i(2) pool_frame(4) [OF pl] by simp
  show "rv_pools ?v"
  proof (rule rv_pools_frame [OF i(3) pl])
    show "op_of ?v q = op_of v q" if "q \<in> pooled v" for q using that e(3) iso(2) by metis
  qed (use i(3) emb in \<open>auto simp: rv_pools_def\<close>)
  show "rv_embedded ?v"
  proof (rule rv_embedded_frame [OF i(4)])
    show "op_of ?v q = op_of v q" if "q \<in> ran (v_acc v)" for q using that e(2) iso(2) by metis
    show "\<not> is_io ?v q" if "q \<in> embedded ?v" "q \<in> set (v_pend ?v)" for q
      using that i(4) isp emb by (auto simp: rv_embedded_def)
  qed (use i(4) cc in \<open>auto simp: rv_embedded_def\<close>)
  show "rv_fresh ?v"
  proof (rule rv_fresh_frame [OF i(5)])
    show "q \<in> addrs v \<or> q < v_next ?v" if "q \<in> addrs ?v" for q
      using that emb pool_frame(3) [OF pl] by (auto simp: addrs_def split: if_splits)
  qed (use iof in \<open>auto simp: targets_def\<close>)
  show "distinct (filter (is_io ?v) (v_pend ?v))"
  proof -
    have "filter (is_io ?v) (v_pend v) = filter (is_io v) (v_pend v)" using isp by (auto intro: filter_cong)
    then show ?thesis using i(6) by simp
  qed
qed

lemma rv_new_acc:
  assumes I: "rv_inv d v" and e: "e \<notin> pooled v" "e \<notin> set (v_pend v)" "e \<notin> conn_ctxs v" "e < v_next v"
    and a: "op_of v e = Some OPERATION_ACCEPT"
  shows "rv_inv d (v\<lparr>v_acc := (v_acc v)(a \<mapsto> e)\<rparr>)" (is "rv_inv d ?v")
proof (rule rv_invI)
  note i = rv_invD [OF I]
  have iso: "is_io ?v = is_io v" "op_of ?v = op_of v" by (auto simp: is_io_def op_of_def fun_eq_iff)
  have rn: "ran ((v_acc v)(a \<mapsto> e)) \<subseteq> insert e (ran (v_acc v))" by (auto simp: ran_def)
  then have emb: "embedded ?v \<subseteq> insert e (embedded v)" by (auto simp: embedded_def)
  have pl: "v_pool ?v = v_pool v" by simp
  have out: "outstanding ?v p' = outstanding v p'" for p' by (rule outstanding_cong) (auto simp: io_of_def)
  show "rv_count d ?v" using i(1) by (auto simp: rv_count_def out)
  show "rv_lists ?v" using i(2) pool_frame(4) [OF pl] by simp
  show "rv_pools ?v" by (rule rv_pools_frame [OF i(3) pl]) (use i(3) emb iso e in \<open>auto simp: rv_pools_def\<close>)
  show "rv_embedded ?v"
    unfolding rv_embedded_def iso
  proof (intro conjI ballI impI)
    show "\<not> is_io v q" if "q \<in> embedded ?v" "q \<in> set (v_pend ?v)" for q
      using that emb e(2) i(4) by (auto simp: rv_embedded_def)
    show "op_of v q = Some OPERATION_ACCEPT" if "q \<in> ran (v_acc ?v)" for q
      using that rn a i(4) by (auto simp: rv_embedded_def)
    show "conn_ctxs ?v \<inter> ran (v_acc ?v) = {}" using rn e(3) i(4) by (auto simp: rv_embedded_def)
  qed
  show "rv_fresh ?v"
    by (rule rv_fresh_frame [OF i(5)])
      (use e(4) emb pool_frame(3) [OF pl] in \<open>auto simp: addrs_def targets_def io_of_def split: if_splits\<close>)
  show "distinct (filter (is_io ?v) (v_pend ?v))" using i(6) by (simp add: iso)
qed

end
