(* ===== verification/StarNetRefs.thy ===== *)
theory StarNetRefs
  imports StarNetInv
begin

text \<open>
  Every operation of StarNet keeps the reference counting invariant of \<open>StarNetInv\<close>.  Each operation is
  shown to be a sequence of steps of the view; what an operation needs of the context it is given
  is that the running code holds it.
\<close>

section \<open>Views of updated states\<close>

lemma view_fields:
  "v_conn (view s) p = map_option (\<lambda>c. (n_iorefs c, n_context c)) (sn_conns s p)"
  "v_ctx (view s) q = map_option (\<lambda>x. (k_op x, k_connection x)) (sn_ctxs s q)"
  "v_pool (view s) r = map_option (\<lambda>x. (cp_input_context_pool x, cp_output_context_pool x)) (sn_pools s r)"
  "v_acc (view s) a = map_option ac_context (sn_accs s a)"
  "v_pend (view s) = sn_pending s" "v_next (view s) = sn_next s"
  by (simp_all add: view_def)

lemma view_frame [simp]:
  "view (s\<lparr>sn_tick := t\<rparr>) = view s" "view (s\<lparr>sn_socks := k\<rparr>) = view s" "view (s\<lparr>sn_next_sock := n\<rparr>) = view s"
  by (simp_all add: view_def)

lemma view_frame_worker [simp]: "view (s\<lparr>sn_workers := w\<rparr>) = view s"
  by (simp add: view_def)

lemma view_frame_app [simp]: "view (s\<lparr>sn_app := a\<rparr>) = view s"
  by (simp add: view_def)

lemma view_next: "view (s\<lparr>sn_next := n\<rparr>) = (view s)\<lparr>v_next := n\<rparr>"
  by (simp add: view_def)

lemma view_pending: "view (s\<lparr>sn_pending := ps\<rparr>) = (view s)\<lparr>v_pend := ps\<rparr>"
  by (simp add: view_def)

lemma view_conn: "view (s\<lparr>sn_conns := (sn_conns s)(p \<mapsto> c)\<rparr>) = (view s)\<lparr>v_conn := (v_conn (view s))(p \<mapsto> (n_iorefs c, n_context c))\<rparr>"
  by (auto simp: view_def fun_eq_iff)

lemma view_ctx: "view (s\<lparr>sn_ctxs := (sn_ctxs s)(q \<mapsto> x)\<rparr>) = (view s)\<lparr>v_ctx := (v_ctx (view s))(q \<mapsto> (k_op x, k_connection x))\<rparr>"
  by (auto simp: view_def fun_eq_iff)

lemma view_pool: "view (s\<lparr>sn_pools := (sn_pools s)(r \<mapsto> x)\<rparr>) = set_lists r (cp_input_context_pool x) (cp_output_context_pool x) (view s)"
  by (auto simp: view_def set_lists_def fun_eq_iff)

lemma view_acc: "view (s\<lparr>sn_accs := (sn_accs s)(a \<mapsto> x)\<rparr>) = (view s)\<lparr>v_acc := (v_acc (view s))(a \<mapsto> ac_context x)\<rparr>"
  by (auto simp: view_def fun_eq_iff)

lemma rview_triv:
  "v_conn v p = Some c \<Longrightarrow> v\<lparr>v_conn := (v_conn v)(p \<mapsto> c)\<rparr> = v" "v_ctx v q = Some x \<Longrightarrow> v\<lparr>v_ctx := (v_ctx v)(q \<mapsto> x)\<rparr> = v"
  by (simp_all add: map_upd_triv)

lemma view_acc_same: "sn_accs s a = Some x \<Longrightarrow> ac_context y = ac_context x \<Longrightarrow> view (s\<lparr>sn_accs := (sn_accs s)(a \<mapsto> y)\<rparr>) = view s"
  by (auto simp: view_def fun_eq_iff)

lemma view_conn_same:
  "sn_conns s p = Some c \<Longrightarrow> n_iorefs c' = n_iorefs c \<Longrightarrow> n_context c' = n_context c \<Longrightarrow> view (s\<lparr>sn_conns := (sn_conns s)(p \<mapsto> c')\<rparr>) = view s"
  by (auto simp: view_def fun_eq_iff)

lemma view_ctx_same:
  "sn_ctxs s q = Some x \<Longrightarrow> k_op x' = k_op x \<Longrightarrow> k_connection x' = k_connection x \<Longrightarrow> view (s\<lparr>sn_ctxs := (sn_ctxs s)(q \<mapsto> x')\<rparr>) = view s"
  by (auto simp: view_def fun_eq_iff)

lemma view_pool_same:
  "sn_pools s r = Some x \<Longrightarrow> cp_input_context_pool x' = cp_input_context_pool x \<Longrightarrow> cp_output_context_pool x' = cp_output_context_pool x \<Longrightarrow>
   view (s\<lparr>sn_pools := (sn_pools s)(r \<mapsto> x')\<rparr>) = view s"
  by (auto simp: view_def fun_eq_iff)

text \<open>What an operation leaves as it is, as far as its callers rely on it.\<close>

definition keeps :: "rview \<Rightarrow> rview \<Rightarrow> bool" where
  "keeps v v' \<longleftrightarrow> v_conn v' = v_conn v \<and> v_next v' = v_next v \<and> (\<forall>q. held v q \<longrightarrow> held v' q) \<and>
     (\<forall>q. held v q \<longrightarrow> v_ctx v' q = v_ctx v q)"

lemma keeps_refl [simp]: "keeps v v"
  by (simp add: keeps_def)

lemma sn_post_cases:
  obtains "fst (sn_post os q s)" "view (snd (sn_post os q s)) = (view s)\<lparr>v_pend := v_pend (view s) @ [q]\<rparr>"
  | "\<not> fst (sn_post os q s)" "view (snd (sn_post os q s)) = view s"
  by (cases "sno_post os (sn_tick s)") (auto simp: sn_post_def sn_call_def view_def)

lemma sn_post_pend:
  "\<exists>pend. (pend = v_pend (view s) \<or> pend = v_pend (view s) @ [q]) \<and> view (snd (sn_post os q s)) = (view s)\<lparr>v_pend := pend\<rparr>"
proof -
  have "view s = (view s)\<lparr>v_pend := v_pend (view s)\<rparr>" by simp
  then show ?thesis by (cases rule: sn_post_cases [of os q s]) metis+
qed

section \<open>Disconnecting\<close>

lemma conn_embedded: "v_conn v p = Some (r, e) \<Longrightarrow> e \<in> embedded v"
  by (auto simp: embedded_def conn_ctxs_def)

lemma conn_not_acc: "rv_inv d v \<Longrightarrow> v_conn v p = Some (r, e) \<Longrightarrow> e \<notin> ran (v_acc v)"
proof -
  assume "rv_inv d v" "v_conn v p = Some (r, e)"
  then have "conn_ctxs v \<inter> ran (v_acc v) = {}" "e \<in> conn_ctxs v"
    by (simp_all add: rv_inv_def rv_embedded_def) (auto simp: conn_ctxs_def)
  then show ?thesis by blast
qed

lemma AsyncDisconnect_inv:
  assumes I: "rv_inv d (view s)" and f: "Connection_AsyncDisconnect os p s = Some s'"
  shows "rv_inv d (view s') \<and> keeps (view s) (view s') \<and> v_pool (view s') = v_pool (view s)"
proof -
  note on = InterlockedCompareExchange_def
  from f obtain c where c: "sn_conns s p = Some c" by (auto simp: Connection_AsyncDisconnect_def split: Option.bind_splits)
  let ?s = "s\<lparr>sn_conns := (sn_conns s)(p \<mapsto> c\<lparr>n_connected := (if n_connected c = 1 then 0 else n_connected c)\<rparr>)\<rparr>"
  have vs: "view ?s = view s" by (rule view_conn_same [OF c]) simp_all
  show ?thesis
  proof (cases "n_connected c = 0")
    case True
    then have "s' = ?s" using f c by (simp add: Connection_AsyncDisconnect_def on sn_upd_conn_def)
    then show ?thesis using I vs by simp
  next
    case False
    from f c False obtain x where x: "sn_ctxs s (n_context c) = Some x"
      and s': "s' = snd (sn_post os (n_context c) (?s\<lparr>sn_ctxs := (sn_ctxs s)(n_context c \<mapsto> x\<lparr>k_op := OPERATION_DISCONNECT\<rparr>)\<rparr>))"
      by (auto simp: Connection_AsyncDisconnect_def on sn_upd_conn_def sn_upd_ctx_def split: Option.bind_splits)
    let ?t = "?s\<lparr>sn_ctxs := (sn_ctxs s)(n_context c \<mapsto> x\<lparr>k_op := OPERATION_DISCONNECT\<rparr>)\<rparr>"
    let ?v = "(view s)\<lparr>v_ctx := (v_ctx (view s))(n_context c \<mapsto> (OPERATION_DISCONNECT, k_connection x))\<rparr>"
    have vt: "view ?t = ?v" using view_ctx [of ?s "n_context c" "x\<lparr>k_op := OPERATION_DISCONNECT\<rparr>"] vs by simp
    have vc: "v_conn (view s) p = Some (n_iorefs c, n_context c)" using c by (simp add: view_fields)
    have vx: "v_ctx (view s) (n_context c) = Some (k_op x, k_connection x)" using x by (simp add: view_fields)
    obtain pend where pe: "pend = v_pend (view s) \<or> pend = v_pend (view s) @ [n_context c]" and v': "view s' = ?v\<lparr>v_pend := pend\<rparr>"
      using sn_post_pend [of ?t "n_context c" os] unfolding s' vt by auto
    have nio: "OPERATION_DISCONNECT \<notin> io_ops" by (simp add: io_ops_def)
    note em = rv_embed [OF I conn_embedded [OF vc] vx nio _ pe]
    have "q \<noteq> n_context c" if "held (view s) q" for q using that conn_embedded [OF vc] by (auto simp: held_def)
    then show ?thesis
      using em conn_not_acc [OF I vc] v' by (auto simp: keeps_def io_ops_def)
  qed
qed

section \<open>Counters and pools\<close>

lemma iorefs_add_inv:
  assumes I: "rv_inv d (view s)" and f: "sn_upd_conn p (\<lambda>c. c\<lparr>n_iorefs := n_iorefs c + k\<rparr>) s = Some s'"
  shows "rv_inv (d(p := d p + k)) (view s')" and "held (view s) q \<Longrightarrow> held (view s') q"
    and "v_ctx (view s') = v_ctx (view s)" and "\<exists>c. v_conn (view s') p = Some c"
proof -
  from f obtain c where c: "sn_conns s p = Some c" and s': "s' = s\<lparr>sn_conns := (sn_conns s)(p \<mapsto> c\<lparr>n_iorefs := n_iorefs c + k\<rparr>)\<rparr>"
    by (auto simp: sn_upd_conn_def split: Option.bind_splits)
  have vc: "v_conn (view s) p = Some (n_iorefs c, n_context c)" using c by (simp add: view_fields)
  have v': "view s' = (view s)\<lparr>v_conn := (v_conn (view s))(p \<mapsto> (n_iorefs c + k, n_context c))\<rparr>"
    unfolding s' by (simp add: view_conn)
  show "rv_inv (d(p := d p + k)) (view s')" "held (view s) q \<Longrightarrow> held (view s') q"
    unfolding v' by (rule rv_count_add [OF I vc])+
  show "v_ctx (view s') = v_ctx (view s)" "\<exists>c. v_conn (view s') p = Some c" unfolding v' by simp_all
qed

lemma iorefs_down_inv:
  assumes "rv_inv (d(p := d p + 1)) (view s)" "sn_upd_conn p (\<lambda>c. c\<lparr>n_iorefs := n_iorefs c - 1\<rparr>) s = Some s'"
  shows "rv_inv d (view s')"
  using iorefs_add_inv(1) [OF assms(1), of p "-1" s'] assms(2) by simp

lemma PushInputContext_inv:
  assumes I: "rv_inv d (view s)" and h: "held (view s) q" "op_of (view s) q = Some OPERATION_RECV" and f: "PushInputContext r q s = Some s'"
  shows "rv_inv d (view s')"
proof -
  from f obtain pool where p: "sn_pools s r = Some pool"
    and s': "s' = s\<lparr>sn_pools := (sn_pools s)(r \<mapsto> pool\<lparr>cp_input_context_pool := q # cp_input_context_pool pool\<rparr>)\<rparr>"
    by (auto simp: PushInputContext_def slist_push_def split: Option.bind_splits if_splits)
  have "v_pool (view s) r = Some (cp_input_context_pool pool, cp_output_context_pool pool)" using p by (simp add: view_fields)
  from rv_push(1) [OF I h(1) this h(2)] show ?thesis unfolding s' by (simp add: view_pool)
qed

lemma PushOutputContext_inv:
  assumes I: "rv_inv d (view s)" and h: "held (view s) q" "op_of (view s) q = Some OPERATION_SEND" and f: "PushOutputContext r q s = Some s'"
  shows "rv_inv d (view s')"
proof -
  from f obtain pool where p: "sn_pools s r = Some pool"
    and s': "s' = s\<lparr>sn_pools := (sn_pools s)(r \<mapsto> pool\<lparr>cp_output_context_pool := q # cp_output_context_pool pool\<rparr>)\<rparr>"
    by (auto simp: PushOutputContext_def slist_push_def split: Option.bind_splits if_splits)
  have "v_pool (view s) r = Some (cp_input_context_pool pool, cp_output_context_pool pool)" using p by (simp add: view_fields)
  from rv_push(2) [OF I h(1) this h(2)] show ?thesis unfolding s' by (simp add: view_pool)
qed

section \<open>Sending and receiving\<close>

lemma give_up_inv:
  assumes "rv_inv (d(p := d p + 1)) (view s)" "Connection_AsyncDisconnect os p s = Some s1"
    "sn_upd_conn p (\<lambda>c. c\<lparr>n_iorefs := n_iorefs c - 1\<rparr>) s1 = Some s'"
  shows "rv_inv d (view s')"
  using iorefs_down_inv [OF _ assms(3)] AsyncDisconnect_inv [OF assms(1,2)] by blast

lemma point_inv:
  assumes I: "rv_inv d (view s)" and h: "held (view s) q" and f: "sn_upd_ctx q (\<lambda>x. x\<lparr>k_connection := p\<rparr>) s = Some s'"
  shows "rv_inv d (view s')" "held (view s') q" "op_of (view s') q = op_of (view s) q"
    "v_ctx (view s') q = Some (the (op_of (view s) q), p)" "sn_conns s' = sn_conns s" "sn_pools s' = sn_pools s"
proof -
  from f obtain x where x: "sn_ctxs s q = Some x" and s': "s' = s\<lparr>sn_ctxs := (sn_ctxs s)(q \<mapsto> x\<lparr>k_connection := p\<rparr>)\<rparr>"
    by (auto simp: sn_upd_ctx_def split: Option.bind_splits)
  have vx: "v_ctx (view s) q = Some (k_op x, k_connection x)" using x by (simp add: view_fields)
  have v': "view s' = (view s)\<lparr>v_ctx := (v_ctx (view s))(q \<mapsto> (k_op x, p))\<rparr>" unfolding s' by (simp add: view_ctx)
  have "q \<notin> set (v_pend (view s))" using h by (simp add: held_def)
  note pt = rv_point [OF I vx this]
  show "rv_inv d (view s')" "held (view s') q" unfolding v' using pt h by blast+
  show "op_of (view s') q = op_of (view s) q" "v_ctx (view s') q = Some (the (op_of (view s) q), p)"
    unfolding v' using vx by (simp_all add: op_of_def)
  show "sn_conns s' = sn_conns s" "sn_pools s' = sn_pools s" unfolding s' by simp_all
qed

lemma post_io_inv:
  assumes I: "rv_inv (d(p := d p + 1)) (view s)" and h: "held (view s) q" and x: "v_ctx (view s) q = Some (op, p)"
    and c: "\<exists>c. v_conn (view s) p = Some c" and f: "sn_post os q s = (ok, s')"
  shows "ok \<Longrightarrow> rv_inv d (view s')" and "\<not> ok \<Longrightarrow> view s' = view s"
proof -
  from c rv_fresh_conn [OF rv_invD(5) [OF I]] have p: "p < v_next (view s)" by blast
  show "ok \<Longrightarrow> rv_inv d (view s')"
    using rv_post_io [OF I h x p] f by (cases rule: sn_post_cases [of os q s]) simp_all
  show "\<not> ok \<Longrightarrow> view s' = view s"
    using f by (cases rule: sn_post_cases [of os q s]) simp_all
qed

lemma AsyncSend_inv:
  assumes I: "rv_inv d (view s)" and h: "held (view s) q" "op_of (view s) q = Some OPERATION_SEND" and f: "Connection_AsyncSend os p q s = Some s'"
  shows "rv_inv d (view s')"
proof -
  from f obtain s1 c where s1: "sn_upd_ctx q (\<lambda>x. x\<lparr>k_connection := p\<rparr>) s = Some s1" and c: "sn_conns s1 p = Some c"
    by (auto simp: Connection_AsyncSend_def split: Option.bind_splits)
  note p1 = point_inv [OF I h(1) s1]
  show ?thesis
  proof (cases "sint (n_iorefs c) > sint (n_iorefmax c)")
    case True
    with f s1 c obtain s2 where "PushOutputContext (n_context_pool c) q s1 = Some s2" "Connection_AsyncDisconnect os p s2 = Some s'"
      by (auto simp: Connection_AsyncSend_def split: Option.bind_splits)
    then show ?thesis using PushOutputContext_inv [OF p1(1,2)] p1(3) h(2) AsyncDisconnect_inv by metis
  next
    case False
    with f s1 c obtain s2 where s2: "sn_upd_conn p (\<lambda>c. c\<lparr>n_iorefs := n_iorefs c + 1\<rparr>) s1 = Some s2"
      by (auto simp: Connection_AsyncSend_def split: Option.bind_splits)
    note p2 = iorefs_add_inv [OF p1(1) s2]
    obtain ok s3 where s3: "sn_post os q s2 = (ok, s3)" by (cases "sn_post os q s2")
    have x2: "v_ctx (view s2) q = Some (OPERATION_SEND, p)" using p2(3) p1(4) h(2) by simp
    note p3 = post_io_inv [OF p2(1) p2(2) [OF p1(2)] x2 p2(4) s3]
    show ?thesis
    proof (cases ok)
      case True
      then have "s' = s3" using f s1 c \<open>\<not> _\<close> s2 s3 by (simp add: Connection_AsyncSend_def)
      then show ?thesis using p3(1) True by simp
    next
      case nok: False
      with f s1 c \<open>\<not> sint _ < _\<close> s2 s3 obtain s4 s5 where r: "PushOutputContext (n_context_pool c) q s3 = Some s4"
        "Connection_AsyncDisconnect os p s4 = Some s5" "sn_upd_conn p (\<lambda>c. c\<lparr>n_iorefs := n_iorefs c - 1\<rparr>) s5 = Some s'"
        by (auto simp: Connection_AsyncSend_def split: Option.bind_splits)
      have "rv_inv (d(p := d p + 1)) (view s4)"
        using PushOutputContext_inv [OF _ _ _ r(1)] p2 p1 p3(2) nok x2 by (simp add: op_of_def)
      from give_up_inv [OF this r(2,3)] show ?thesis .
    qed
  qed
qed

lemma AsyncRecv_inv:
  assumes I: "rv_inv d (view s)" and h: "held (view s) q" "op_of (view s) q = Some OPERATION_RECV" and f: "Connection_AsyncRecv os p q s = Some s'"
  shows "rv_inv d (view s')"
proof -
  from f obtain s1 x own c pool y s2 s3 where s1: "sn_upd_ctx q (\<lambda>x. x\<lparr>k_connection := p\<rparr>) s = Some s1"
    and x: "sn_ctxs s1 q = Some x" and y: "recv_window own pool x = Some y" and c: "sn_conns s1 p = Some c"
    and s2: "sn_upd_ctx q (\<lambda>_. y) s1 = Some s2" and s3: "sn_upd_conn p (\<lambda>c. c\<lparr>n_iorefs := n_iorefs c + 1\<rparr>) s2 = Some s3"
    and r: "(case sn_post os q s3 of (ok, s) \<Rightarrow> if ok then Some s else do {
       s \<leftarrow> PushInputContext (n_context_pool c) q s; s \<leftarrow> Connection_AsyncDisconnect os p s;
       sn_upd_conn p (\<lambda>c. c\<lparr>n_iorefs := n_iorefs c - 1\<rparr>) s }) = Some s'"
    by (auto simp: Connection_AsyncRecv_def split: Option.bind_splits)
  note p1 = point_inv [OF I h(1) s1]
  have "k_op y = k_op x" "k_connection y = k_connection x"
    using y by (auto simp: recv_window_def split: Option.bind_splits if_splits)
  then have v2: "view s2 = view s1" using s2 x view_ctx_same [OF x, of y] by (auto simp: sn_upd_ctx_def split: Option.bind_splits)
  note p2 = iorefs_add_inv [OF p1(1) [folded v2] s3]
  obtain ok s4 where s4: "sn_post os q s3 = (ok, s4)" by (cases "sn_post os q s3")
  have h3: "held (view s3) q" using p2(2) p1(2) v2 by simp
  have x3: "v_ctx (view s3) q = Some (OPERATION_RECV, p)" using p2(3) p1(4) h(2) v2 by simp
  note p3 = post_io_inv [OF p2(1) h3 x3 p2(4) s4]
  show ?thesis
  proof (cases ok)
    case True
    then show ?thesis using r s4 p3(1) by simp
  next
    case False
    with r s4 obtain s5 s6 where r: "PushInputContext (n_context_pool c) q s4 = Some s5"
      "Connection_AsyncDisconnect os p s5 = Some s6" "sn_upd_conn p (\<lambda>c. c\<lparr>n_iorefs := n_iorefs c - 1\<rparr>) s6 = Some s'"
      by (auto split: Option.bind_splits)
    have "rv_inv (d(p := d p + 1)) (view s5)"
      using PushInputContext_inv [OF _ _ _ r(1)] p2(1) h3 p3(2) False x3 by (simp add: op_of_def)
    from give_up_inv [OF this r(2,3)] show ?thesis .
  qed
qed

lemma AsyncSendBuf_inv:
  assumes I: "rv_inv d (view s)" and h: "held (view s) q" and f: "Connection_AsyncSendBuf os p len q s = Some s'"
  shows "rv_inv d (view s')"
proof -
  from f obtain x where x: "sn_ctxs s q = Some x" by (auto simp: Connection_AsyncSendBuf_def split: Option.bind_splits)
  let ?s = "s\<lparr>sn_ctxs := (sn_ctxs s)(q \<mapsto> x\<lparr>k_wsabuf_len := len\<rparr>)\<rparr>"
  have v: "view ?s = view s" by (rule view_ctx_same [OF x]) simp_all
  have "s' = s \<or> k_op x = OPERATION_SEND \<and> Connection_AsyncSend os p q ?s = Some s'"
    using f x by (auto simp: Connection_AsyncSendBuf_def sn_upd_ctx_def split: Option.bind_splits if_splits)
  moreover have "op_of (view s) q = Some (k_op x)" using x by (simp add: op_of_def view_fields)
  ultimately show ?thesis using I h v AsyncSend_inv [of d ?s q os p s'] by auto
qed

text \<open>A context from a pool is held by the caller.\<close>

lemma malloc_ctx_inv:
  assumes I: "rv_inv d (view s)" and n: "0 < sn_next s" and op: "op \<in> io_ops"
    and m: "sn_malloc_ctx os n s = (q, s1)" "q \<noteq> NULL" and r: "sn_upd_ctx q f s1 = Some s2"
    and f: "\<And>x. k_connection (f x) = k_connection x" "\<And>x. k_op (f x) = op"
  shows "rv_inv d (view s2) \<and> held (view s2) q \<and> op_of (view s2) q = Some op \<and> sn_pools s2 = sn_pools s"
proof -
  let ?x = "f ((sno_ctx os)\<lparr>k_buffer := replicate n 0\<rparr>)"
  from m have q: "q = sn_next s" and s1: "s1 = s\<lparr>sn_tick := Suc (sn_tick s), sn_next := Suc q, sn_ctxs := (sn_ctxs s)(q \<mapsto> (sno_ctx os)\<lparr>k_buffer := replicate n 0\<rparr>)\<rparr>"
    by (auto simp: sn_malloc_ctx_def sn_call_def split: if_splits)
  have s2: "s2 = s\<lparr>sn_tick := Suc (sn_tick s), sn_next := Suc q, sn_ctxs := (sn_ctxs s)(q \<mapsto> ?x)\<rparr>"
    using r by (simp add: s1 sn_upd_ctx_def)
  have v2: "view s2 = (view s)\<lparr>v_next := Suc q, v_ctx := (v_ctx (view s))(q \<mapsto> (op, k_connection (sno_ctx os)))\<rparr>"
    unfolding s2 by (auto simp: view_def fun_eq_iff f)
  have "v_next (view s) \<le> q" "q < Suc q" by (simp_all add: q view_fields)
  from rv_new_ctx [OF I this, of "(op, k_connection (sno_ctx os))"] op
  show ?thesis unfolding v2 by (auto simp: op_of_def s2)
qed

lemma sn_upd_pool_count:
  assumes "sn_upd_pool r g s = Some s'" "\<And>x. cp_input_context_pool (g x) = cp_input_context_pool x"
    "\<And>x. cp_output_context_pool (g x) = cp_output_context_pool x"
  shows "view s' = view s"
  using assms view_pool_same by (fastforce simp: sn_upd_pool_def split: Option.bind_splits)

lemma PopInputContext_inv:
  assumes I: "rv_inv d (view s)" and f: "PopInputContext os r s = Some (q, s')"
  shows "rv_inv d (view s') \<and> (q \<noteq> NULL \<longrightarrow> held (view s') q \<and> op_of (view s') q = Some OPERATION_RECV)"
proof -
  from f obtain pool where pool: "sn_pools s r = Some pool" by (auto simp: PopInputContext_def split: Option.bind_splits)
  have vp: "v_pool (view s) r = Some (cp_input_context_pool pool, cp_output_context_pool pool)" using pool by (simp add: view_fields)
  show ?thesis
  proof (cases "cp_input_context_pool pool")
    case (Cons q' qs)
    then have "q = q'" "view s' = set_lists r qs (cp_output_context_pool pool) (view s)"
      using f pool by (auto simp: PopInputContext_def view_pool)
    then show ?thesis using rv_pop [OF I vp, of q' qs "cp_output_context_pool pool"] Cons by simp
  next
    case Nil
    obtain q' s1 where m: "sn_malloc_ctx os (ADDR_BUFFER + unat (cp_input_buffer_size pool) + BUFEXTENT) s = (q', s1)"
      by (cases "sn_malloc_ctx os (ADDR_BUFFER + unat (cp_input_buffer_size pool) + BUFEXTENT) s")
    show ?thesis
    proof (cases "q' = NULL")
      case True
      then have "q = NULL" "view s' = view s"
        using f pool Nil m I by (auto simp: PopInputContext_def sn_malloc_ctx_def sn_call_def rv_inv_def rv_fresh_def view_fields split: if_splits)
      then show ?thesis using I by simp
    next
      case False
      with f pool Nil m obtain s2 where q: "q = q'"
        and s2: "sn_upd_ctx q' (\<lambda>x. x\<lparr>k_op := OPERATION_RECV, k_context_pool := r, k_wsabuf_off := 0, k_avail_len := 0, k_offset := 0\<rparr>) s1 = Some s2"
        and s3: "sn_upd_pool r (\<lambda>x. x\<lparr>cp_input_context_count := cp_input_context_count x + 1\<rparr>) s2 = Some s'"
        by (auto simp: PopInputContext_def split: Option.bind_splits)
      have "0 < sn_next s" using I by (simp add: rv_inv_def rv_fresh_def view_fields)
      from malloc_ctx_inv [OF I this _ m False s2] sn_upd_pool_count [OF s3] q show ?thesis by (simp add: io_ops_def)
    qed
  qed
qed

lemma PopOutputContext_inv:
  assumes I: "rv_inv d (view s)" and f: "PopOutputContext os r s = Some (q, s')"
  shows "rv_inv d (view s') \<and> (q \<noteq> NULL \<longrightarrow> held (view s') q \<and> op_of (view s') q = Some OPERATION_SEND)"
proof -
  from f obtain pool where pool: "sn_pools s r = Some pool" by (auto simp: PopOutputContext_def split: Option.bind_splits)
  have vp: "v_pool (view s) r = Some (cp_input_context_pool pool, cp_output_context_pool pool)" using pool by (simp add: view_fields)
  show ?thesis
  proof (cases "cp_output_context_pool pool")
    case (Cons q' qs)
    then have "q = q'" "view s' = set_lists r (cp_input_context_pool pool) qs (view s)"
      using f pool by (auto simp: PopOutputContext_def view_pool)
    then show ?thesis using rv_pop [OF I vp, of q' "cp_input_context_pool pool" qs] Cons by simp
  next
    case Nil
    obtain q' s1 where m: "sn_malloc_ctx os (ADDR_BUFFER + unat (cp_output_buffer_size pool) + BUFEXTENT) s = (q', s1)"
      by (cases "sn_malloc_ctx os (ADDR_BUFFER + unat (cp_output_buffer_size pool) + BUFEXTENT) s")
    show ?thesis
    proof (cases "q' = NULL")
      case True
      then have "q = NULL" "view s' = view s"
        using f pool Nil m I by (auto simp: PopOutputContext_def sn_malloc_ctx_def sn_call_def rv_inv_def rv_fresh_def view_fields split: if_splits)
      then show ?thesis using I by simp
    next
      case False
      with f pool Nil m obtain s2 where q: "q = q'"
        and s2: "sn_upd_ctx q' (\<lambda>x. x\<lparr>k_op := OPERATION_SEND, k_context_pool := r, k_wsabuf_off := 0, k_avail_len := 0, k_offset := 0\<rparr>) s1 = Some s2"
        and s3: "sn_upd_pool r (\<lambda>x. x\<lparr>cp_output_context_count := cp_output_context_count x + 1\<rparr>) s2 = Some s'"
        by (auto simp: PopOutputContext_def split: Option.bind_splits)
      have "0 < sn_next s" using I by (simp add: rv_inv_def rv_fresh_def view_fields)
      from malloc_ctx_inv [OF I this _ m False s2] sn_upd_pool_count [OF s3] q show ?thesis by (simp add: io_ops_def)
    qed
  qed
qed

section \<open>Creating and closing connections\<close>

lemma Delete_inv:
  assumes I: "rv_inv d (view s)" and f: "Connection_Delete p s = Some s'"
  shows "rv_inv d (view s')"
proof -
  from f obtain c where c: "sn_conns s p = Some c"
    and s': "s' = s\<lparr>sn_socks := (sn_socks s)(n_socket c := False), sn_ctxs := (sn_ctxs s)(n_context c := None), sn_conns := (sn_conns s)(p := None)\<rparr>"
    by (auto simp: Connection_Delete_def sn_free_ctx_def sn_free_conn_def split: Option.bind_splits)
  have "view s' = (view s)\<lparr>v_conn := (v_conn (view s))(p := None), v_ctx := (v_ctx (view s))(n_context c := None)\<rparr>"
    unfolding s' by (auto simp: view_def fun_eq_iff)
  moreover have "v_conn (view s) p = Some (n_iorefs c, n_context c)" using c by (simp add: view_fields)
  ultimately show ?thesis using rv_delete [OF I] by metis
qed

lemma Close_inv:
  assumes I: "rv_inv d (view s)" and f: "Connection_Close p s = Some s'"
  shows "rv_inv d (view s')"
proof -
  have "view s' = view s \<or> Connection_Delete p s = Some s'"
    using f by (auto simp: Connection_Close_def sn_upd_acc_def view_acc_same split: Option.bind_splits if_splits)
  then show ?thesis using I Delete_inv [OF I] by auto
qed

text \<open>The outcome of \<open>Create\<close> in the view: nothing but addresses used up, a context that is lost, or a new connection with its context.\<close>

lemma Create_shape:
  assumes f: "Connection_Create os h r w a s = Some (p, s')"
  shows "(p = NULL \<and> sn_next s \<le> sn_next s' \<and> sn_ctxs s' = sn_ctxs s \<and> (sn_conns s' = sn_conns s \<or> sn_conns s' = (sn_conns s)(sn_next s := None))) \<or>
    (sn_next s' = Suc (Suc (sn_next s)) \<and> k_connection (the (sn_ctxs s' (Suc (sn_next s)))) = sn_next s \<and>
      sn_ctxs s' = (sn_ctxs s)(Suc (sn_next s) \<mapsto> the (sn_ctxs s' (Suc (sn_next s)))) \<and>
      (p = NULL \<and> sn_conns s' = (sn_conns s)(sn_next s := None) \<or>
       p = sn_next s \<and> n_iorefs (the (sn_conns s' p)) = 0 \<and> n_context (the (sn_conns s' p)) = Suc (sn_next s) \<and>
         sn_conns s' = (sn_conns s)(sn_next s \<mapsto> the (sn_conns s' p))))"
  using f
  by (auto simp: Connection_Create_def sn_call_def sn_upd_conn_def sn_upd_ctx_def sn_malloc_ctx_def Let_def sn_free_conn_def
      split: if_splits Option.bind_splits)

lemma Create_view:
  assumes f: "Connection_Create os h r w a s = Some (p, s')" and n: "v_conn (view s) (sn_next s) = None"
  shows "(\<exists>k. sn_next s \<le> k \<and> view s' = (view s)\<lparr>v_next := k\<rparr> \<and> p = NULL) \<or>
    (\<exists>op. view s' = (view s)\<lparr>v_next := Suc (Suc (sn_next s)), v_ctx := (v_ctx (view s))(Suc (sn_next s) \<mapsto> (op, sn_next s))\<rparr> \<and> p = NULL) \<or>
    (\<exists>op. view s' = (view s)\<lparr>v_next := Suc (Suc (sn_next s)), v_ctx := (v_ctx (view s))(Suc (sn_next s) \<mapsto> (op, sn_next s)),
       v_conn := (v_conn (view s))(sn_next s \<mapsto> (0, Suc (sn_next s)))\<rparr> \<and> p = sn_next s)"
proof -
  have fr: "sn_pools s' = sn_pools s" "sn_accs s' = sn_accs s" "sn_pending s' = sn_pending s"
    using f by (auto simp: Connection_Create_def sn_call_def sn_upd_conn_def sn_upd_ctx_def sn_malloc_ctx_def Let_def sn_free_conn_def
      split: if_splits Option.bind_splits)
  have "sn_conns s (sn_next s) = None" using n by (simp add: view_fields)
  then have nn: "(sn_conns s)(sn_next s := None) = sn_conns s" by auto
  from Create_shape [OF f] consider
      (none) "p = NULL" "sn_next s \<le> sn_next s'" "sn_ctxs s' = sn_ctxs s" "sn_conns s' = sn_conns s"
    | (ctx) x where "p = NULL" "sn_next s' = Suc (Suc (sn_next s))" "k_connection x = sn_next s"
        "sn_ctxs s' = (sn_ctxs s)(Suc (sn_next s) \<mapsto> x)" "sn_conns s' = sn_conns s"
    | (conn) x c where "p = sn_next s" "sn_next s' = Suc (Suc (sn_next s))" "k_connection x = sn_next s"
        "sn_ctxs s' = (sn_ctxs s)(Suc (sn_next s) \<mapsto> x)" "n_iorefs c = 0" "n_context c = Suc (sn_next s)"
        "sn_conns s' = (sn_conns s)(sn_next s \<mapsto> c)"
    unfolding nn by metis
  then show ?thesis
  proof cases
    case none
    then have "view s' = (view s)\<lparr>v_next := sn_next s'\<rparr>" by (simp add: view_def fr)
    then show ?thesis using none(1,2) by blast
  next
    case ctx
    then have "view s' = (view s)\<lparr>v_next := Suc (Suc (sn_next s)), v_ctx := (v_ctx (view s))(Suc (sn_next s) \<mapsto> (k_op x, sn_next s))\<rparr>"
      by (simp add: view_def fr fun_eq_iff)
    then show ?thesis using ctx(1) by blast
  next
    case conn
    then have "view s' = (view s)\<lparr>v_next := Suc (Suc (sn_next s)), v_ctx := (v_ctx (view s))(Suc (sn_next s) \<mapsto> (k_op x, sn_next s)),
       v_conn := (v_conn (view s))(sn_next s \<mapsto> (0, Suc (sn_next s)))\<rparr>"
      by (simp add: view_def fr fun_eq_iff)
    then show ?thesis using conn(1) by blast
  qed
qed

lemma Create_inv:
  assumes I: "rv_inv d (view s)" and d: "d (sn_next s) = 0" and f: "Connection_Create os h r w a s = Some (p, s')"
  shows "rv_inv d (view s')"
proof -
  note i = rv_invD [OF I]
  have n: "v_next (view s) = sn_next s" by (simp add: view_fields)
  note fr = rv_freshD [OF i(5), of "sn_next s"] rv_freshD [OF i(5), of "Suc (sn_next s)"]
  have two: "v_next (view s) \<le> Suc (sn_next s)" "Suc (sn_next s) < Suc (Suc (sn_next s))" by (simp_all add: n)
  have x: "rv_inv d ((view s)\<lparr>v_next := Suc (Suc (sn_next s)), v_ctx := (v_ctx (view s))(Suc (sn_next s) \<mapsto> (op, sn_next s))\<rparr>)"
    for op by (rule rv_new_ctx(1) [OF I two])
  let ?v = "\<lambda>op. (view s)\<lparr>v_next := Suc (Suc (sn_next s)), v_ctx := (v_ctx (view s))(Suc (sn_next s) \<mapsto> (op, sn_next s))\<rparr>"
  have pe: "outstanding (?v op) (sn_next s) = 0" for op
  proof -
    have "outstanding (?v op) (sn_next s) = outstanding (view s) (sn_next s)"
      by (rule outstanding_cong) (use fr n in \<open>auto simp: io_of_def\<close>)
    then show ?thesis using outstanding_fresh [OF i(5), of "sn_next s"] n by simp
  qed
  have em: "pooled (?v op) = pooled (view s)" for op by (rule pool_frame(3)) simp
  have "Suc (sn_next s) \<notin> ran (v_acc (view s))" using fr(7) n by (auto simp: embedded_def)
  then have acc: "Suc (sn_next s) \<notin> ran (v_acc (?v op))" for op by simp
  have c: "rv_inv d ((?v op)\<lparr>v_conn := (v_conn (view s))(sn_next s \<mapsto> (0, Suc (sn_next s)))\<rparr>)" for op
  proof -
    have "v_conn (?v op) (sn_next s) = None" "sn_next s < v_next (?v op)" "Suc (sn_next s) < v_next (?v op)"
      "Suc (sn_next s) \<notin> set (v_pend (?v op))" "Suc (sn_next s) \<notin> pooled (?v op)"
      using fr n em by simp_all
    from rv_new_conn [OF x [of op] this(1,2) pe d this(5,4) acc this(3)] show ?thesis by simp
  qed
  have "v_conn (view s) (sn_next s) = None" using fr(4) n by simp
  from Create_view [OF f this] rv_bump [OF I] x c n show ?thesis by auto
qed

lemma sn_upd_conn_same:
  assumes "sn_upd_conn p g s = Some s'" "\<And>c. n_iorefs (g c) = n_iorefs c" "\<And>c. n_context (g c) = n_context c"
  shows "view s' = view s"
  using assms view_conn_same by (fastforce simp: sn_upd_conn_def split: Option.bind_splits)

lemma sn_upd_acc_same:
  assumes "sn_upd_acc a g s = Some s'" "\<And>c. ac_context (g c) = ac_context c"
  shows "view s' = view s"
  using assms view_acc_same by (fastforce simp: sn_upd_acc_def split: Option.bind_splits)

lemma AsyncConnect_inv:
  assumes I: "rv_inv d (view s)" and f: "Connection_AsyncConnect os p client s = Some (ok, s')"
  shows "rv_inv d (view s')"
proof -
  from f obtain s1 c where s1: "sn_upd_conn p (\<lambda>c. c\<lparr>n_client := client\<rparr>) s = Some s1" and c: "sn_conns s1 p = Some c"
    by (auto simp: Connection_AsyncConnect_def split: Option.bind_splits)
  have v1: "view s1 = view s" by (rule sn_upd_conn_same [OF s1]) simp_all
  show ?thesis
  proof (cases "n_context c = NULL")
    case True
    then show ?thesis using f s1 c v1 I by (simp add: Connection_AsyncConnect_def)
  next
    case False
    with f s1 c obtain x where x: "sn_ctxs s1 (n_context c) = Some x"
      and s': "s' = snd (sn_post os (n_context c) (s1\<lparr>sn_ctxs := (sn_ctxs s1)(n_context c \<mapsto> x\<lparr>k_op := OPERATION_CONNECT\<rparr>)\<rparr>))"
      by (auto simp: Connection_AsyncConnect_def sn_upd_ctx_def split: Option.bind_splits dest!: arg_cong [where f = snd])
    let ?t = "s1\<lparr>sn_ctxs := (sn_ctxs s1)(n_context c \<mapsto> x\<lparr>k_op := OPERATION_CONNECT\<rparr>)\<rparr>"
    let ?v = "(view s)\<lparr>v_ctx := (v_ctx (view s))(n_context c \<mapsto> (OPERATION_CONNECT, k_connection x))\<rparr>"
    have vt: "view ?t = ?v" using view_ctx [of s1 "n_context c" "x\<lparr>k_op := OPERATION_CONNECT\<rparr>"] v1 by simp
    have vc: "v_conn (view s) p = Some (n_iorefs c, n_context c)" using c v1 [symmetric] by (simp add: view_fields)
    have vx: "v_ctx (view s) (n_context c) = Some (k_op x, k_connection x)" using x v1 [symmetric] by (simp add: view_fields)
    obtain pend where pe: "pend = v_pend (view s) \<or> pend = v_pend (view s) @ [n_context c]" and v': "view s' = ?v\<lparr>v_pend := pend\<rparr>"
      using sn_post_pend [of ?t "n_context c" os] unfolding s' vt by auto
    have "OPERATION_CONNECT \<notin> io_ops" by (simp add: io_ops_def)
    from rv_embed(1) [OF I conn_embedded [OF vc] vx this _ pe] conn_not_acc [OF I vc] v' show ?thesis by simp
  qed
qed

lemma Connect_inv:
  assumes I: "rv_inv d (view s)" and d: "d (sn_next s) = 0" and f: "Connection_Connect os h r w client s = Some (ok, s')"
  shows "rv_inv d (view s')"
proof -
  from f obtain p s1 where s1: "Connection_Create os h r w NULL s = Some (p, s1)"
    by (auto simp: Connection_Connect_def split: Option.bind_splits)
  note I1 = Create_inv [OF I d s1]
  show ?thesis
  proof (cases "p = NULL")
    case True
    then show ?thesis using f s1 I1 by (simp add: Connection_Connect_def)
  next
    case False
    with f s1 obtain b s2 where s2: "Connection_AsyncConnect os p client s1 = Some (b, s2)"
      and r: "(if b then Some (True, s2) else do { s \<leftarrow> Connection_Delete p s2; Some (False, s) }) = Some (ok, s')"
      by (auto simp: Connection_Connect_def split: Option.bind_splits)
    show ?thesis using r AsyncConnect_inv [OF I1 s2] Delete_inv by (auto split: if_splits Option.bind_splits)
  qed
qed

section \<open>Completed requests\<close>

lemma deliver_view:
  assumes "sn_deliver data q s = Some s1" "sn_ctxs s q = Some x"
  shows "view s1 = (view s)\<lparr>v_pend := remove1 q (v_pend (view s))\<rparr>"
    and "\<exists>x'. sn_ctxs s1 q = Some x' \<and> k_op x' = k_op x \<and> k_connection x' = k_connection x"
proof -
  from assms obtain b where s1: "s1 = s\<lparr>sn_pending := remove1 q (sn_pending s), sn_ctxs := (sn_ctxs s)(q \<mapsto> x\<lparr>k_buffer := b\<rparr>)\<rparr>"
    by (auto simp: sn_deliver_def split: Option.bind_splits)
  show "view s1 = (view s)\<lparr>v_pend := remove1 q (v_pend (view s))\<rparr>" using assms(2) unfolding s1 by (auto simp: view_def fun_eq_iff)
  show "\<exists>x'. sn_ctxs s1 q = Some x' \<and> k_op x' = k_op x \<and> k_connection x' = k_connection x" unfolding s1 by simp
qed

lemma deliver_io_inv:
  assumes I: "rv_inv d (view s)" and q: "q \<in> set (sn_pending s)" and x: "sn_ctxs s q = Some x" "k_op x \<in> io_ops"
    and f: "sn_deliver data q s = Some s1"
  shows "rv_inv (d(k_connection x := d (k_connection x) + 1)) (view s1)" "held (view s1) q" "op_of (view s1) q = Some (k_op x)"
proof -
  note v = deliver_view(1) [OF f x(1)]
  have "q \<in> set (v_pend (view s))" "v_ctx (view s) q = Some (k_op x, k_connection x)" using q x by (simp_all add: view_fields)
  note t = rv_take_io [OF I this x(2)]
  show "rv_inv (d(k_connection x := d (k_connection x) + 1)) (view s1)" "held (view s1) q" unfolding v by (fact t)+
  show "op_of (view s1) q = Some (k_op x)" unfolding v using x(1) by (simp add: op_of_def view_fields)
qed

lemma deliver_other_inv:
  assumes I: "rv_inv d (view s)" and x: "sn_ctxs s q = Some x" "k_op x \<notin> io_ops" and f: "sn_deliver data q s = Some s1"
  shows "rv_inv d (view s1)"
proof -
  have "\<not> is_io (view s) q" using x by (simp add: is_io_def view_fields)
  from rv_take_other [OF I this] show ?thesis unfolding deliver_view(1) [OF f x(1)] .
qed

lemma on_recv_inv:
  assumes I: "rv_inv (d(p := d p + 1)) (view s)" and h: "held (view s) q" "op_of (view s) q = Some OPERATION_RECV"
    and f: "sn_on_recv os n q p s = Some s'"
  shows "rv_inv d (view s')"
proof -
  from f obtain s2 where r: "sn_upd_conn p (\<lambda>c. c\<lparr>n_iorefs := n_iorefs c - 1\<rparr>) s2 = Some s'"
    and s2: "(\<exists>r s1. PushInputContext r q s = Some s1 \<and> Connection_AsyncDisconnect os p s1 = Some s2) \<or> Connection_AsyncRecv os p q s = Some s2"
    by (auto simp: sn_on_recv_def split: Option.bind_splits if_splits)
  from s2 have "rv_inv (d(p := d p + 1)) (view s2)"
    using PushInputContext_inv [OF I h] AsyncDisconnect_inv AsyncRecv_inv [OF I h] by metis
  from iorefs_down_inv [OF this r] show ?thesis .
qed

lemma on_send_inv:
  assumes I: "rv_inv (d(p := d p + 1)) (view s)" and h: "held (view s) q" "op_of (view s) q = Some OPERATION_SEND"
    and f: "sn_on_send q p s = Some s'"
  shows "rv_inv d (view s')"
proof -
  from f obtain s2 r where "sn_upd_conn p (\<lambda>c. c\<lparr>n_iorefs := n_iorefs c - 1\<rparr>) s2 = Some s'" "PushOutputContext r q s = Some s2"
    by (auto simp: sn_on_send_def split: Option.bind_splits)
  then show ?thesis using iorefs_down_inv PushOutputContext_inv [OF I h] by blast
qed

section \<open>Accepting\<close>

lemma accept_request_inv:
  assumes I: "rv_inv d (view s)" and f: "accept_request os a p s = Some s'"
  shows "rv_inv d (view s')"
proof -
  from f obtain acc s1 x s3 where acc: "sn_accs s a = Some acc" and s1: "sn_upd_conn p (\<lambda>c. c\<lparr>n_client := NULL\<rparr>) s = Some s1"
    and x: "sn_ctxs s1 (ac_context acc) = Some x"
    and s3: "sn_upd_acc a (\<lambda>x. x\<lparr>ac_iorefs := ac_iorefs x + 1\<rparr>) (s1\<lparr>sn_ctxs := (sn_ctxs s1)(ac_context acc \<mapsto> x\<lparr>k_connection := p\<rparr>)\<rparr>) = Some s3"
    by (auto simp: accept_request_def sn_upd_ctx_def split: Option.bind_splits)
  let ?e = "ac_context acc"
  let ?v = "(view s)\<lparr>v_ctx := (v_ctx (view s))(?e \<mapsto> (OPERATION_ACCEPT, p))\<rparr>"
  have v1: "view s1 = view s" by (rule sn_upd_conn_same [OF s1]) simp_all
  have ra: "?e \<in> ran (v_acc (view s))" using acc by (auto simp: ran_def view_fields)
  then have e: "?e \<in> embedded (view s)" by (simp add: embedded_def)
  have vx: "v_ctx (view s) ?e = Some (k_op x, k_connection x)" using x v1 [symmetric] by (simp add: view_fields)
  have "op_of (view s) ?e = Some OPERATION_ACCEPT" using rv_invD(4) [OF I] ra by (simp add: rv_embedded_def)
  then have op: "k_op x = OPERATION_ACCEPT" using vx by (simp add: op_of_def)
  have v3: "view s3 = ?v"
    using sn_upd_acc_same [OF s3] view_ctx [of s1 ?e "x\<lparr>k_connection := p\<rparr>"] v1 op by simp
  have nio: "OPERATION_ACCEPT \<notin> io_ops" by (simp add: io_ops_def)
  obtain ok s4 where s4: "sn_post os ?e s3 = (ok, s4)" by (cases "sn_post os ?e s3")
  obtain pend where pe: "pend = v_pend (view s) \<or> pend = v_pend (view s) @ [?e]" and v4: "view s4 = ?v\<lparr>v_pend := pend\<rparr>"
    using sn_post_pend [of s3 ?e os] s4 v3 by auto
  have I4: "rv_inv d (view s4)" unfolding v4 by (rule rv_embed(1) [OF I e vx nio _ pe]) simp
  have "(if ok then Some s4 else do { s \<leftarrow> Connection_Close p s4; acc \<leftarrow> sn_accs s a; free \<leftarrow> ac_free_connection acc;
      ps \<leftarrow> slist_push p free; sn_upd_acc a (\<lambda>x. x\<lparr>ac_free_connection := Some ps, ac_total_connection := ac_total_connection x + 1,
         ac_iorefs := ac_iorefs x - 1, ac_running := 0\<rparr>) s }) = Some s'"
    using f acc s1 x s3 s4 by (simp add: accept_request_def sn_upd_ctx_def)
  then show ?thesis using I4 Close_inv [OF I4] by (auto split: if_splits Option.bind_splits dest!: sn_upd_acc_same)
qed

lemma Accept_inv:
  assumes I: "rv_inv d (view s)" and d: "d (sn_next s) = 0" and f: "Acceptor_Accept os a s = Some s'"
  shows "rv_inv d (view s')"
proof -
  from f obtain acc fl where acc: "sn_accs s a = Some acc" "ac_free_connection acc = Some fl" by (auto simp: Acceptor_Accept_def split: Option.bind_splits)
  show ?thesis
  proof (cases fl)
    case Nil
    with f acc obtain p s1 where s1: "Connection_Create os (ac_handler acc) (ac_context_pool acc) (ac_worker acc) a s = Some (p, s1)"
      and r: "(if p = NULL then sn_upd_acc a (\<lambda>x. x\<lparr>ac_running := 0\<rparr>) s1 else accept_request os a p s1) = Some s'"
      by (auto simp: Acceptor_Accept_def split: Option.bind_splits)
    from r Create_inv [OF I d s1] accept_request_inv show ?thesis by (auto split: if_splits dest: sn_upd_acc_same)
  next
    case (Cons p ps)
    with f acc obtain s1 g where s1: "sn_upd_acc a g s = Some s1" "\<And>c. ac_context (g c) = ac_context c" and r: "accept_request os a p s1 = Some s'"
      by (auto simp: Acceptor_Accept_def split: Option.bind_splits)
    from sn_upd_acc_same [OF s1] I r accept_request_inv show ?thesis by metis
  qed
qed

end
