(* ===== verification/StarNetPeer.thy ===== *)
theory StarNetPeer
  imports StarNet
begin

text \<open>
  Servers talking to servers: \<open>peer_client.cpp\<close>, \<open>peer_server.cpp\<close>, \<open>peer_dispatch.cpp\<close>, \<open>peer_stream.h\<close>,
  \<open>peer_packet.h\<close> and \<open>starnet.cpp\<close> in \<open>FTServer/Src/StarNet\<close>.

  The peers are the application of the network layer: their objects and the two singletons are the field
  \<open>sn_app\<close> of the state, and \<open>peer_handlers\<close> are the callbacks they install.  The message functions that
  \<open>Dispatch\<close> looks up are generated code and a parameter.  Waiting for the worker thread means handling the packets of a list;
  \<open>None\<close> also stands for waiting forever.
\<close>

section \<open>Data\<close>

abbreviation MAX_INPUT_BUFFER :: nat where "MAX_INPUT_BUFFER \<equiv> 1024"
abbreviation MAX_OUTPUT_BUFFER :: nat where "MAX_OUTPUT_BUFFER \<equiv> 65500"
abbreviation MAX_PEER_BUFFER :: nat where "MAX_PEER_BUFFER \<equiv> 65536"
abbreviation PEER_PACKET_HEAD :: nat where "PEER_PACKET_HEAD \<equiv> 8" \<comment> \<open>sizeof(uint16)*2 + sizeof(uint32)\<close>
abbreviation PEER_DISPATCH_FILTER_MAX :: nat where "PEER_DISPATCH_FILTER_MAX \<equiv> 255"

datatype PeerState = NOT_CONNECT | CONNECTING | CONNECTED | CONNECT_FAILED | DISCONNECTED | DESTORYING

text \<open>The receive buffer that both kinds of peers have.\<close>

record PeerRecv =
  pr_iRecvBufLen :: u32
  pr_RecvBuf :: "byte list"

record PeerClient =
  pc_ConnId :: ptr
  pc_recv :: PeerRecv

record PeerServer =
  ps_ConnId :: ptr
  ps_sin_addr :: u32
  ps_sin_port :: u16
  ps_recv :: PeerRecv
  ps_iState :: PeerState

record PeerClientSet =
  pcs_pWorker :: ptr
  pcs_pContextPool :: ptr
  pcs_pAcceptor :: ptr
  pcs_iIP :: u32
  pcs_iPort :: u16
  pcs_vPeerClients :: "ptr list"

record PeerServerSet =
  pss_pWorker :: ptr
  pss_pContextPool :: ptr
  pss_vPeerServers :: "ptr list"

record peers =
  pe_clients :: "ptr \<rightharpoonup> PeerClient"
  pe_servers :: "ptr \<rightharpoonup> PeerServer"
  pe_cset :: PeerClientSet
  pe_sset :: PeerServerSet
  pe_wsa :: winsock

type_synonym psn = "peers sn"

definition htons :: "u16 \<Rightarrow> u16" where
  "htons w = push_bit 8 w OR drop_bit 8 w"

definition pe_upd_client :: "ptr \<Rightarrow> (PeerClient \<Rightarrow> PeerClient) \<Rightarrow> psn \<Rightarrow> psn option" where
  "pe_upd_client k f s = do {
     c \<leftarrow> pe_clients (sn_app s) k;
     Some (s\<lparr>sn_app := (sn_app s)\<lparr>pe_clients := (pe_clients (sn_app s))(k \<mapsto> f c)\<rparr>\<rparr>)
   }"

definition pe_upd_server :: "ptr \<Rightarrow> (PeerServer \<Rightarrow> PeerServer) \<Rightarrow> psn \<Rightarrow> psn option" where
  "pe_upd_server k f s = do {
     c \<leftarrow> pe_servers (sn_app s) k;
     Some (s\<lparr>sn_app := (sn_app s)\<lparr>pe_servers := (pe_servers (sn_app s))(k \<mapsto> f c)\<rparr>\<rparr>)
   }"

section \<open>Streams\<close>

text \<open>A value of a template type is the list of its \<open>sizeof(T)\<close> bytes, as in \<open>EasyStream\<close>.\<close>

record PeerInputStream =
  pi_iDataLength :: u32
  pi_iDataIndex :: u32
  pi_DataBuffer :: "byte list"

definition PeerInputStream_new :: "u32 \<Rightarrow> byte list \<Rightarrow> PeerInputStream" where
  "PeerInputStream_new iLength pBuf = \<lparr>pi_iDataLength = iLength, pi_iDataIndex = 0, pi_DataBuffer = pBuf\<rparr>"

definition PeerInputStream_Serialize :: "nat \<Rightarrow> PeerInputStream \<Rightarrow> ((bool \<times> byte list) \<times> PeerInputStream) option" where
  "PeerInputStream_Serialize sizeof_T st =
     (if sizeof_T \<le> unat (pi_iDataLength st - pi_iDataIndex st) then do {
        v \<leftarrow> mem_read (pi_DataBuffer st) (unat (pi_iDataIndex st)) sizeof_T;
        Some ((True, v), st\<lparr>pi_iDataIndex := pi_iDataIndex st + of_nat sizeof_T\<rparr>)
      } else Some ((False, []), st))"

text \<open>The array version returns a pointer into the buffer, an offset here.\<close>

definition PeerInputStream_SerializeArray :: "nat \<Rightarrow> u16 \<Rightarrow> PeerInputStream \<Rightarrow> (bool \<times> nat) \<times> PeerInputStream" where
  "PeerInputStream_SerializeArray sizeof_T iCount st = (let iCount = iCount * of_nat sizeof_T in
     if ucast iCount \<le> pi_iDataLength st - pi_iDataIndex st
     then ((True, unat (pi_iDataIndex st)), st\<lparr>pi_iDataIndex := pi_iDataIndex st + ucast iCount\<rparr>)
     else ((False, 0), st))"

text \<open>A packet under construction lives in the buffer of an output context; its length field is at offset 4.\<close>

definition pkt_iLen :: "ptr \<Rightarrow> psn \<Rightarrow> u32 option" where
  "pkt_iLen q s = do { x \<leftarrow> sn_ctxs s q; bs \<leftarrow> mem_read (k_buffer x) 4 4; Some (get32 bs 0) }"

definition pkt_write :: "ptr \<Rightarrow> nat \<Rightarrow> byte list \<Rightarrow> psn \<Rightarrow> psn option" where
  "pkt_write q off bs s = do {
     x \<leftarrow> sn_ctxs s q;
     b \<leftarrow> mem_write (k_buffer x) off bs;
     sn_upd_ctx q (\<lambda>x. x\<lparr>k_buffer := b\<rparr>) s
   }"

definition PeerOutputStream_new :: "sn_os \<Rightarrow> psn \<Rightarrow> (ptr \<times> psn) option" where
  "PeerOutputStream_new os s = do {
     (q, s) \<leftarrow> PopOutputBuffer os (pss_pContextPool (pe_sset (sn_app s))) s;
     if q = NULL then Some (q, s) else do { s \<leftarrow> pkt_write q 4 (le32 0) s; Some (q, s) }
   }"

definition PeerOutputStream_delete :: "ptr \<Rightarrow> psn \<Rightarrow> psn option" where
  "PeerOutputStream_delete q s = (if q = NULL then Some s else PushOutputBuffer (pss_pContextPool (pe_sset (sn_app s))) q s)"

definition PeerOutputStream_SetId :: "ptr \<Rightarrow> u16 \<Rightarrow> u16 \<Rightarrow> psn \<Rightarrow> psn option" where
  "PeerOutputStream_SetId q iFilterId iFuncId s = do { s \<leftarrow> pkt_write q 0 (le16 iFilterId) s; pkt_write q 2 (le16 iFuncId) s }"

definition PeerOutputStream_Serialize :: "ptr \<Rightarrow> byte list \<Rightarrow> psn \<Rightarrow> (bool \<times> psn) option" where
  "PeerOutputStream_Serialize q value s = do {
     iLen \<leftarrow> pkt_iLen q s;
     if iLen + of_nat (length value) \<le> of_nat MAX_PEER_BUFFER then do {
       s \<leftarrow> pkt_write q (PEER_PACKET_HEAD + unat iLen) value s;
       s \<leftarrow> pkt_write q 4 (le32 (iLen + of_nat (length value))) s;
       Some (True, s)
     } else Some (False, s)
   }"

definition PeerOutputStream_SerializeArray :: "nat \<Rightarrow> ptr \<Rightarrow> u16 \<Rightarrow> byte list \<Rightarrow> psn \<Rightarrow> (bool \<times> psn) option" where
  "PeerOutputStream_SerializeArray sizeof_T q iCount arr s = do {
     let iCount = iCount * of_nat sizeof_T;
     iLen \<leftarrow> pkt_iLen q s;
     if iLen + ucast iCount \<le> of_nat MAX_PEER_BUFFER then do {
       bs \<leftarrow> mem_read arr 0 (unat iCount);
       s \<leftarrow> pkt_write q (PEER_PACKET_HEAD + unat iLen) bs s;
       s \<leftarrow> pkt_write q 4 (le32 (iLen + ucast iCount)) s;
       Some (True, s)
     } else Some (False, s)
   }"

section \<open>peer_dispatch.cpp\<close>

record 's PeerDispatchFilter =
  pf_iFuncCount :: u32
  pf_pFunc :: "nat \<Rightarrow> ptr \<Rightarrow> PeerInputStream \<Rightarrow> 's \<Rightarrow> (bool \<times> 's) option"

definition GetFilter :: "'s PeerDispatchFilter list \<Rightarrow> u16 \<Rightarrow> 's PeerDispatchFilter option" where
  "GetFilter arr iFilterId = (if unat iFilterId < length arr then Some (arr ! unat iFilterId) else None)"

text \<open>\<open>arr\<close> is the array of 255 filters of the clients and of the servers.\<close>

definition PeerServer_Dispatch ::
  "'s PeerDispatchFilter list \<Rightarrow> ptr \<Rightarrow> u16 \<Rightarrow> u16 \<Rightarrow> u32 \<Rightarrow> byte list \<Rightarrow> 's \<Rightarrow> (bool \<times> 's) option" where
  "PeerServer_Dispatch arr k iFilterId iFuncId iLen pBuf s = do {
     filter \<leftarrow> GetFilter arr iFilterId;
     if pf_iFuncCount filter \<le> ucast iFuncId then Some (False, s)
     else pf_pFunc filter (unat iFuncId) k (PeerInputStream_new iLen pBuf) s
   }"

definition PeerClient_Dispatch ::
  "'s PeerDispatchFilter list \<Rightarrow> ptr \<Rightarrow> u16 \<Rightarrow> u16 \<Rightarrow> u32 \<Rightarrow> byte list \<Rightarrow> 's \<Rightarrow> (bool \<times> 's) option" where
  "PeerClient_Dispatch arr k iFilterId iFuncId iLen pBuf s = do {
     filter \<leftarrow> GetFilter arr iFilterId;
     if pf_iFuncCount filter \<le> ucast iFuncId then Some (False, s)
     else pf_pFunc filter (unat iFuncId) k (PeerInputStream_new iLen pBuf) s
   }"

section \<open>Receiving\<close>

datatype peer_outcome = Returned | DispatchFailed | Running

fun cut_peer_packets :: "(u16 \<Rightarrow> u16 \<Rightarrow> u32 \<Rightarrow> byte list \<Rightarrow> 's \<Rightarrow> (bool \<times> 's) option) \<Rightarrow> nat \<Rightarrow> PeerRecv \<Rightarrow> 's \<Rightarrow>
    (peer_outcome \<times> PeerRecv \<times> 's) option" where
  "cut_peer_packets disp 0 r s = Some (Running, r, s)"
| "cut_peer_packets disp (Suc n) r s =
     (let buf = pr_RecvBuf r; len = pr_iRecvBufLen r in
      if PEER_PACKET_HEAD \<le> unat len then
        (let iFullLength = ucast (get32 buf 4 + of_nat PEER_PACKET_HEAD) :: u16 in
         if ucast iFullLength \<le> len then do {
           (bRet, s) \<leftarrow> disp (get16 buf 0) (get16 buf 2) (get32 buf 4) (drop PEER_PACKET_HEAD buf) s;
           if \<not> bRet then Some (DispatchFailed, r, s) else do {
             buf \<leftarrow> (if ucast iFullLength < len
                    then memmove buf 0 (unat iFullLength) (unat len - unat iFullLength) else Some buf);
             cut_peer_packets disp n \<lparr>pr_iRecvBufLen = len - ucast iFullLength, pr_RecvBuf = buf\<rparr> s
           }
         } else Some (Returned, r, s))
      else Some (Returned, r, s))"

fun OnPeerData_loop :: "(u16 \<Rightarrow> u16 \<Rightarrow> u32 \<Rightarrow> byte list \<Rightarrow> 's \<Rightarrow> (bool \<times> 's) option) \<Rightarrow> nat \<Rightarrow> PeerRecv \<Rightarrow> u32 \<Rightarrow> byte list \<Rightarrow> nat \<Rightarrow> 's \<Rightarrow>
    (peer_outcome \<times> PeerRecv \<times> 's) option" where
  "OnPeerData_loop disp 0 r iLen pBuf off s = Some (Running, r, s)"
| "OnPeerData_loop disp (Suc n) r iLen pBuf off s = do {
     let len = pr_iRecvBufLen r;
     let iCopyLen = (if len + iLen \<le> of_nat MAX_PEER_BUFFER then iLen else len + iLen - of_nat MAX_PEER_BUFFER);
     buf \<leftarrow> memcpy (pr_RecvBuf r) (unat len) pBuf off (unat iCopyLen);
     (out, r, s) \<leftarrow> cut_peer_packets disp n \<lparr>pr_iRecvBufLen = len + iCopyLen, pr_RecvBuf = buf\<rparr> s;
     if out \<noteq> Returned then Some (out, r, s)
     else if iLen - iCopyLen \<noteq> 0 then OnPeerData_loop disp n r (iLen - iCopyLen) pBuf (off + unat iCopyLen) s
     else Some (Returned, r, s)
   }"

definition PeerClient_OnPeerData :: "psn PeerDispatchFilter list \<Rightarrow> nat \<Rightarrow> ptr \<Rightarrow> u32 \<Rightarrow> byte list \<Rightarrow> psn \<Rightarrow> (peer_outcome \<times> psn) option" where
  "PeerClient_OnPeerData arr fuel k iLen pBuf s = do {
     c \<leftarrow> pe_clients (sn_app s) k;
     b \<leftarrow> Connection_IsConnected (pc_ConnId c) s;
     if \<not> b then Some (Returned, s) else do {
       (out, r, s) \<leftarrow> OnPeerData_loop (PeerClient_Dispatch arr k) fuel (pc_recv c) iLen pBuf 0 s;
       s \<leftarrow> pe_upd_client k (\<lambda>c. c\<lparr>pc_recv := r\<rparr>) s;
       Some (out, s)
     }
   }"

definition PeerServer_OnPeerData :: "psn PeerDispatchFilter list \<Rightarrow> nat \<Rightarrow> ptr \<Rightarrow> u32 \<Rightarrow> byte list \<Rightarrow> psn \<Rightarrow> (peer_outcome \<times> psn) option" where
  "PeerServer_OnPeerData arr fuel k iLen pBuf s = do {
     c \<leftarrow> pe_servers (sn_app s) k;
     b \<leftarrow> Connection_IsConnected (ps_ConnId c) s;
     if \<not> b then Some (Returned, s) else do {
       (out, r, s) \<leftarrow> OnPeerData_loop (PeerServer_Dispatch arr k) fuel (ps_recv c) iLen pBuf 0 s;
       s \<leftarrow> pe_upd_server k (\<lambda>c. c\<lparr>ps_recv := r\<rparr>) s;
       Some (out, s)
     }
   }"

section \<open>peer_client.cpp\<close>

text \<open>The connector is compared before its \<open>m_ConnId\<close> is set: \<open>mem\<close> is what the allocator returns.\<close>

fun has_connector :: "(ptr \<rightharpoonup> PeerClient) \<Rightarrow> ptr \<Rightarrow> ptr list \<Rightarrow> bool option" where
  "has_connector m connId [] = Some False"
| "has_connector m connId (k # ks) = do { c \<leftarrow> m k; if pc_ConnId c = connId then Some True else has_connector m connId ks }"

definition AddConnector :: "ptr \<Rightarrow> psn \<Rightarrow> (bool \<times> psn) option" where
  "AddConnector k s = do {
     c \<leftarrow> pe_clients (sn_app s) k;
     found \<leftarrow> has_connector (pe_clients (sn_app s)) (pc_ConnId c) (pcs_vPeerClients (pe_cset (sn_app s)));
     if found then Some (False, s)
     else Some (True, s\<lparr>sn_app := (sn_app s)\<lparr>pe_cset := (pe_cset (sn_app s))\<lparr>pcs_vPeerClients := pcs_vPeerClients (pe_cset (sn_app s)) @ [k]\<rparr>\<rparr>\<rparr>)
   }"

fun erase_connector :: "(ptr \<rightharpoonup> PeerClient) \<Rightarrow> ptr \<Rightarrow> ptr list \<Rightarrow> ptr list option" where
  "erase_connector m connId [] = Some []"
| "erase_connector m connId (k # ks) = do {
     c \<leftarrow> m k;
     if pc_ConnId c = connId then Some ks else map_option ((#) k) (erase_connector m connId ks)
   }"

definition DeleteConnector :: "ptr \<Rightarrow> psn \<Rightarrow> psn option" where
  "DeleteConnector connId s = do {
     ks \<leftarrow> erase_connector (pe_clients (sn_app s)) connId (pcs_vPeerClients (pe_cset (sn_app s)));
     Some (s\<lparr>sn_app := (sn_app s)\<lparr>pe_cset := (pe_cset (sn_app s))\<lparr>pcs_vPeerClients := ks\<rparr>\<rparr>\<rparr>)
   }"

definition pe_free_client :: "ptr \<Rightarrow> psn \<Rightarrow> psn option" where
  "pe_free_client k s = do { c \<leftarrow> pe_clients (sn_app s) k; Some (s\<lparr>sn_app := (sn_app s)\<lparr>pe_clients := (pe_clients (sn_app s))(k := None)\<rparr>\<rparr>) }"

definition PeerClientSet_OnConnection :: "sn_os \<Rightarrow> PeerClient \<Rightarrow> ptr \<Rightarrow> psn \<Rightarrow> (bool \<times> psn) option" where
  "PeerClientSet_OnConnection os mem connId s = do {
     let (ok, s) = sn_call (sno_malloc os) s;
     if \<not> ok then Some (False, s) else do {
       let k = sn_next s;
       let s = s\<lparr>sn_next := Suc k, sn_app := (sn_app s)\<lparr>pe_clients := (pe_clients (sn_app s))(k \<mapsto> mem)\<rparr>\<rparr>;
       (added, s) \<leftarrow> AddConnector k s;
       if added then do {
         s \<leftarrow> pe_upd_client k (\<lambda>c. c\<lparr>pc_ConnId := connId, pc_recv := (pc_recv c)\<lparr>pr_iRecvBufLen := 0\<rparr>\<rparr>) s;
         s \<leftarrow> Connection_SetClient connId k s;
         Some (True, s)
       } else do { s \<leftarrow> pe_free_client k s; Some (False, s) }
     }
   }"

definition PeerClientSet_OnDisconnect :: "ptr \<Rightarrow> psn \<Rightarrow> psn option" where
  "PeerClientSet_OnDisconnect connId s = do {
     k \<leftarrow> Connection_GetClient connId s;
     s \<leftarrow> (if k \<noteq> NULL then do { s \<leftarrow> DeleteConnector connId s; pe_free_client k s } else Some s);
     Connection_Close connId s
   }"

definition PeerClientSet_OnData :: "psn PeerDispatchFilter list \<Rightarrow> nat \<Rightarrow> ptr \<Rightarrow> u32 \<Rightarrow> byte list \<Rightarrow> psn \<Rightarrow> (peer_outcome \<times> psn) option" where
  "PeerClientSet_OnData arr fuel connId iLen pBuf s = do { k \<leftarrow> Connection_GetClient connId s; PeerClient_OnPeerData arr fuel k iLen pBuf s }"

definition PeerOutputStream_SendClient :: "sn_os \<Rightarrow> ptr \<Rightarrow> ptr \<Rightarrow> psn \<Rightarrow> psn option" where
  "PeerOutputStream_SendClient os q k s = do {
     c \<leftarrow> pe_clients (sn_app s) k;
     iLen \<leftarrow> pkt_iLen q s;
     Connection_AsyncSendBuf os (pc_ConnId c) (of_nat PEER_PACKET_HEAD + iLen) q s
   }"

definition PeerClientSet_Init :: "sn_os \<Rightarrow> u32 \<Rightarrow> u16 \<Rightarrow> psn \<Rightarrow> (bool \<times> psn) option" where
  "PeerClientSet_Init os iIP iPort s = do {
     let (w, s) = Worker_CreateWorker os 1 s;
     let (r, s) = CreateContextPool os (of_nat MAX_INPUT_BUFFER) (of_nat MAX_OUTPUT_BUFFER) s;
     (a, s) \<leftarrow> Acceptor_CreateAcceptor os w r 0 s;
     let s = s\<lparr>sn_app := (sn_app s)\<lparr>pe_cset := (pe_cset (sn_app s))\<lparr>pcs_iIP := iIP, pcs_iPort := iPort,
       pcs_pWorker := w, pcs_pContextPool := r, pcs_pAcceptor := a\<rparr>\<rparr>\<rparr>;
     if a \<noteq> NULL then do { s \<leftarrow> Acceptor_Start os a s; Some (True, s) } else Some (False, s)
   }"

fun disconnect_clients :: "sn_os \<Rightarrow> ptr list \<Rightarrow> psn \<Rightarrow> psn option" where
  "disconnect_clients os [] s = Some s"
| "disconnect_clients os (k # ks) s = do {
     c \<leftarrow> pe_clients (sn_app s) k;
     s \<leftarrow> Connection_AsyncDisconnect os (pc_ConnId c) s;
     disconnect_clients os ks s
   }"

definition PeerClientSet_Destroy :: "sn_os \<Rightarrow> nat \<Rightarrow> (psn \<Rightarrow> psn option) list \<Rightarrow> (bool \<times> nat) list \<Rightarrow> psn \<Rightarrow> psn option" where
  "PeerClientSet_Destroy os fuel es rs s = do {
     let set = pe_cset (sn_app s);
     s \<leftarrow> (if pcs_pAcceptor set = NULL then Some s else do {
         s \<leftarrow> Acceptor_Stop (pcs_pAcceptor set) s;
         s \<leftarrow> disconnect_clients os (pcs_vPeerClients set) s;
         (done, s) \<leftarrow> Acceptor_DestroyAcceptor fuel es (pcs_pAcceptor set) s;
         if done then Some s else None });
     s \<leftarrow> (if pcs_pContextPool set = NULL then Some s else do {
         s \<leftarrow> DestroyContextPool (pcs_pContextPool set) s;
         Some (s\<lparr>sn_app := (sn_app s)\<lparr>pe_cset := (pe_cset (sn_app s))\<lparr>pcs_pContextPool := NULL\<rparr>\<rparr>\<rparr>) });
     if pcs_pWorker set = NULL then Some s else do {
       s \<leftarrow> Worker_DestroyWorker rs (pcs_pWorker set) s;
       Some (s\<lparr>sn_app := (sn_app s)\<lparr>pe_cset := (pe_cset (sn_app s))\<lparr>pcs_pWorker := NULL\<rparr>\<rparr>\<rparr>)
     }
   }"

section \<open>peer_server.cpp\<close>

definition PeerServer_Init :: "ptr \<Rightarrow> u32 \<Rightarrow> u16 \<Rightarrow> psn \<Rightarrow> psn option" where
  "PeerServer_Init k iIP iPort s = pe_upd_server k (\<lambda>c. c\<lparr>ps_sin_port := htons iPort, ps_sin_addr := iIP, ps_iState := NOT_CONNECT\<rparr>) s"

definition PeerServer_OnConnection :: "ptr \<Rightarrow> psn \<Rightarrow> (bool \<times> psn) option" where
  "PeerServer_OnConnection connId s = do {
     k \<leftarrow> Connection_GetClient connId s;
     s \<leftarrow> pe_upd_server k (\<lambda>c. c\<lparr>ps_ConnId := connId, ps_iState := CONNECTED, ps_recv := (ps_recv c)\<lparr>pr_iRecvBufLen := 0\<rparr>\<rparr>) s;
     Some (True, s)
   }"

definition PeerServer_OnDisconnect :: "ptr \<Rightarrow> psn \<Rightarrow> psn option" where
  "PeerServer_OnDisconnect connId s = do {
     k \<leftarrow> Connection_GetClient connId s;
     pe_upd_server k (\<lambda>c. c\<lparr>ps_iState := DISCONNECTED\<rparr>) s
   }"

definition PeerServer_OnData :: "psn PeerDispatchFilter list \<Rightarrow> nat \<Rightarrow> ptr \<Rightarrow> u32 \<Rightarrow> byte list \<Rightarrow> psn \<Rightarrow> (peer_outcome \<times> psn) option" where
  "PeerServer_OnData arr fuel connId iLen pBuf s = do { k \<leftarrow> Connection_GetClient connId s; PeerServer_OnPeerData arr fuel k iLen pBuf s }"

definition PeerServer_Connect :: "sn_os \<Rightarrow> ptr \<Rightarrow> psn \<Rightarrow> (bool \<times> psn) option" where
  "PeerServer_Connect os k s =
     Connection_Connect os 1 (pss_pContextPool (pe_sset (sn_app s))) (pss_pWorker (pe_sset (sn_app s))) k s"

definition PeerServer_OnConnectFailed :: "sn_os \<Rightarrow> ptr \<Rightarrow> psn \<Rightarrow> psn option" where
  "PeerServer_OnConnectFailed os k s = do {
     c \<leftarrow> pe_servers (sn_app s) k;
     if ps_iState c = DESTORYING then pe_upd_server k (\<lambda>c. c\<lparr>ps_iState := NOT_CONNECT\<rparr>) s
     else if ps_iState c = CONNECTING then pe_upd_server k (\<lambda>c. c\<lparr>ps_iState := CONNECT_FAILED\<rparr>) s
     else do {
       (ok, s) \<leftarrow> PeerServer_Connect os k s;
       if ok then Some s else pe_upd_server k (\<lambda>c. c\<lparr>ps_iState := NOT_CONNECT\<rparr>) s
     }
   }"

text \<open>Handler 0 is the one of \<open>PeerClientSet\<close> (its \<open>OnConnectFailed\<close> is a null pointer), handler 1 the one of \<open>PeerServer\<close>.\<close>

definition data_at :: "psn \<Rightarrow> ptr \<Rightarrow> u32 \<Rightarrow> byte list option" where
  "data_at s q n = do { x \<leftarrow> sn_ctxs s q; mem_read (k_buffer x) 0 (unat n) }"

definition peer_handlers :: "sn_os \<Rightarrow> PeerClient \<Rightarrow> psn PeerDispatchFilter list \<Rightarrow> psn PeerDispatchFilter list \<Rightarrow> nat \<Rightarrow> nat \<Rightarrow> peers Handler" where
  "peer_handlers os mem carr sarr fuel i =
     (if i = 0 then
       \<lparr>h_OnConnection = PeerClientSet_OnConnection os mem, h_OnDisconnect = PeerClientSet_OnDisconnect,
        h_OnData = (\<lambda>p n q off s. do { bs \<leftarrow> data_at s q n; (out, s) \<leftarrow> PeerClientSet_OnData carr fuel p n bs s; Some (n, off, s) }),
        h_OnConnectFailed = (\<lambda>k s. None)\<rparr>
     else
       \<lparr>h_OnConnection = PeerServer_OnConnection, h_OnDisconnect = PeerServer_OnDisconnect,
        h_OnData = (\<lambda>p n q off s. do { bs \<leftarrow> data_at s q n; (out, s) \<leftarrow> PeerServer_OnData sarr fuel p n bs s; Some (n, off, s) }),
        h_OnConnectFailed = PeerServer_OnConnectFailed os\<rparr>)"

text \<open>Waiting: the worker thread handles packets until the state of the peer is no longer \<open>st\<close>.\<close>

fun wait_while :: "sn_os \<Rightarrow> (nat \<Rightarrow> peers Handler) \<Rightarrow> PeerState \<Rightarrow> ptr \<Rightarrow> packet list \<Rightarrow> psn \<Rightarrow> (packet list \<times> psn) option" where
  "wait_while os H st k [] s = do { c \<leftarrow> pe_servers (sn_app s) k; if ps_iState c = st then None else Some ([], s) }"
| "wait_while os H st k (pk # pks) s = do {
     c \<leftarrow> pe_servers (sn_app s) k;
     if ps_iState c \<noteq> st then Some (pk # pks, s) else (case pk of
       NoOverlapped \<Rightarrow> None
     | Packet bResult data q \<Rightarrow> do { s \<leftarrow> sn_handle os H bResult data q s; wait_while os H st k pks s })
   }"

definition PeerServer_Destroy :: "sn_os \<Rightarrow> (nat \<Rightarrow> peers Handler) \<Rightarrow> packet list \<Rightarrow> ptr \<Rightarrow> psn \<Rightarrow> (packet list \<times> psn) option" where
  "PeerServer_Destroy os H pks k s = do {
     c \<leftarrow> pe_servers (sn_app s) k;
     let connId = ps_ConnId c;
     (pks, s) \<leftarrow> (if ps_iState c = CONNECTED then do {
         s \<leftarrow> Connection_AsyncDisconnect os connId s;
         wait_while os H CONNECTED k pks s
       } else Some (pks, s));
     c \<leftarrow> pe_servers (sn_app s) k;
     if ps_iState c = DISCONNECTED then do { s \<leftarrow> Connection_Close connId s; Some (pks, s) } else Some (pks, s)
   }"

definition PeerServer_GetConnId :: "sn_os \<Rightarrow> (nat \<Rightarrow> peers Handler) \<Rightarrow> packet list \<Rightarrow> ptr \<Rightarrow> psn \<Rightarrow> (ptr \<times> packet list \<times> psn) option" where
  "PeerServer_GetConnId os H pks k s = do {
     c \<leftarrow> pe_servers (sn_app s) k;
     case ps_iState c of
       CONNECTED \<Rightarrow> Some (ps_ConnId c, pks, s)
     | DISCONNECTED \<Rightarrow> do {
         s \<leftarrow> Connection_Close (ps_ConnId c) s;
         s \<leftarrow> pe_upd_server k (\<lambda>c. c\<lparr>ps_iState := NOT_CONNECT\<rparr>) s;
         Some (NULL, pks, s)
       }
     | NOT_CONNECT \<Rightarrow> do {
         s \<leftarrow> pe_upd_server k (\<lambda>c. c\<lparr>ps_iState := CONNECTING\<rparr>) s;
         (ok, s) \<leftarrow> PeerServer_Connect os k s;
         if ok then do {
           (pks, s) \<leftarrow> wait_while os H CONNECTING k pks s;
           c \<leftarrow> pe_servers (sn_app s) k;
           Some (if ps_iState c = CONNECTED then ps_ConnId c else NULL, pks, s)
         } else do {
           s \<leftarrow> pe_upd_server k (\<lambda>c. c\<lparr>ps_iState := NOT_CONNECT\<rparr>) s;
           Some (NULL, pks, s)
         }
       }
     | _ \<Rightarrow> Some (NULL, pks, s)
   }"

text \<open>The stream gives up its packet only when it was sent.\<close>

definition PeerOutputStream_SendServer :: "sn_os \<Rightarrow> (nat \<Rightarrow> peers Handler) \<Rightarrow> packet list \<Rightarrow> ptr \<Rightarrow> ptr \<Rightarrow> psn \<Rightarrow> (int \<times> ptr \<times> packet list \<times> psn) option" where
  "PeerOutputStream_SendServer os H pks q k s = do {
     (connId, pks, s) \<leftarrow> PeerServer_GetConnId os H pks k s;
     if connId \<noteq> NULL then do {
       iLen \<leftarrow> pkt_iLen q s;
       s \<leftarrow> Connection_AsyncSendBuf os connId (of_nat PEER_PACKET_HEAD + iLen) q s;
       Some (0, NULL, pks, s)
     } else Some (-1, q, pks, s)
   }"

section \<open>starnet.cpp\<close>

definition StarNet_Init :: "bool \<Rightarrow> bool \<Rightarrow> psn \<Rightarrow> int \<times> psn" where
  "StarNet_Init startup_ok sock_ok s = (let n = pe_wsa (sn_app s); put = (\<lambda>n. s\<lparr>sn_app := (sn_app s)\<lparr>pe_wsa := n\<rparr>\<rparr>) in
     if \<not> startup_ok then (-1, s)
     else (let n = n\<lparr>wsa_count := Suc (wsa_count n)\<rparr> in
       if \<not> sock_ok then (-2, put n)
       else (let n = n\<lparr>wsa_open := Suc (wsa_open n)\<rparr>; n = n\<lparr>wsa_loaded := True\<rparr>; n = n\<lparr>wsa_open := wsa_open n - 1\<rparr> in (0, put n))))"

definition StarNet_Destroy :: "psn \<Rightarrow> psn" where
  "StarNet_Destroy s = s\<lparr>sn_app := (sn_app s)\<lparr>pe_wsa := (pe_wsa (sn_app s))\<lparr>wsa_count := wsa_count (pe_wsa (sn_app s)) - 1\<rparr>\<rparr>\<rparr>"

definition StarNet_StartPeerServer :: "sn_os \<Rightarrow> u32 \<Rightarrow> u16 \<Rightarrow> u32 \<Rightarrow> psn \<Rightarrow> (bool \<times> psn) option" where
  "StarNet_StartPeerServer os iIP iPort iWorkerCount s = PeerClientSet_Init os iIP iPort s"

definition StarNet_StopPeerServer :: "sn_os \<Rightarrow> nat \<Rightarrow> (psn \<Rightarrow> psn option) list \<Rightarrow> (bool \<times> nat) list \<Rightarrow> psn \<Rightarrow> psn option" where
  "StarNet_StopPeerServer os fuel es rs s = PeerClientSet_Destroy os fuel es rs s"

section \<open>The set of peer servers\<close>

definition PeerServerSet_new :: "sn_os \<Rightarrow> bool \<Rightarrow> bool \<Rightarrow> psn \<Rightarrow> psn" where
  "PeerServerSet_new os startup_ok sock_ok s = (let (rc, s) = StarNet_Init startup_ok sock_ok s;
     (w, s) = Worker_CreateWorker os 1 s;
     (r, s) = CreateContextPool os (of_nat MAX_INPUT_BUFFER) (of_nat MAX_OUTPUT_BUFFER) s in
     s\<lparr>sn_app := (sn_app s)\<lparr>pe_sset := \<lparr>pss_pWorker = w, pss_pContextPool = r, pss_vPeerServers = []\<rparr>\<rparr>\<rparr>)"

fun find_server :: "(ptr \<rightharpoonup> PeerServer) \<Rightarrow> u32 \<Rightarrow> u16 \<Rightarrow> ptr list \<Rightarrow> ptr option option" where
  "find_server m iIP iPort [] = Some None"
| "find_server m iIP iPort (k # ks) = do {
     c \<leftarrow> m k;
     if ps_sin_port c = htons iPort \<and> ps_sin_addr c = iIP then Some (Some k) else find_server m iIP iPort ks
   }"

definition PeerServerSet_GetPeerServer :: "sn_os \<Rightarrow> PeerServer \<Rightarrow> u32 \<Rightarrow> u16 \<Rightarrow> psn \<Rightarrow> (ptr \<times> psn) option" where
  "PeerServerSet_GetPeerServer os mem iIP iPort s = do {
     f \<leftarrow> find_server (pe_servers (sn_app s)) iIP iPort (pss_vPeerServers (pe_sset (sn_app s)));
     case f of Some k \<Rightarrow> Some (k, s) | None \<Rightarrow> do {
       let (ok, s) = sn_call (sno_malloc os) s;
       if \<not> ok then Some (NULL, s) else do {
         let k = sn_next s;
         let s = s\<lparr>sn_next := Suc k, sn_app := (sn_app s)\<lparr>pe_servers := (pe_servers (sn_app s))(k \<mapsto> mem)\<rparr>\<rparr>;
         s \<leftarrow> PeerServer_Init k iIP iPort s;
         Some (k, s)
       }
     }
   }"

definition StarNet_GetPeerServer :: "sn_os \<Rightarrow> PeerServer \<Rightarrow> u32 \<Rightarrow> u16 \<Rightarrow> psn \<Rightarrow> (ptr \<times> psn) option" where
  "StarNet_GetPeerServer os mem iIP iPort s = PeerServerSet_GetPeerServer os mem iIP iPort s"

fun destroy_servers :: "sn_os \<Rightarrow> (nat \<Rightarrow> peers Handler) \<Rightarrow> packet list \<Rightarrow> ptr list \<Rightarrow> psn \<Rightarrow> (packet list \<times> psn) option" where
  "destroy_servers os H pks [] s = Some (pks, s)"
| "destroy_servers os H pks (k # ks) s = do {
     (pks, s) \<leftarrow> PeerServer_Destroy os H pks k s;
     c \<leftarrow> pe_servers (sn_app s) k;
     destroy_servers os H pks ks (s\<lparr>sn_app := (sn_app s)\<lparr>pe_servers := (pe_servers (sn_app s))(k := None)\<rparr>\<rparr>)
   }"

definition PeerServerSet_delete :: "sn_os \<Rightarrow> (nat \<Rightarrow> peers Handler) \<Rightarrow> packet list \<Rightarrow> (bool \<times> nat) list \<Rightarrow> psn \<Rightarrow> psn option" where
  "PeerServerSet_delete os H pks rs s = do {
     let set = pe_sset (sn_app s);
     (pks, s) \<leftarrow> destroy_servers os H pks (pss_vPeerServers set) s;
     let s = s\<lparr>sn_app := (sn_app s)\<lparr>pe_sset := (pe_sset (sn_app s))\<lparr>pss_vPeerServers := []\<rparr>\<rparr>\<rparr>;
     s \<leftarrow> (if pss_pContextPool set = NULL then Some s else do {
         s \<leftarrow> DestroyContextPool (pss_pContextPool set) s;
         Some (s\<lparr>sn_app := (sn_app s)\<lparr>pe_sset := (pe_sset (sn_app s))\<lparr>pss_pContextPool := NULL\<rparr>\<rparr>\<rparr>) });
     s \<leftarrow> (if pss_pWorker set = NULL then Some s else do {
         s \<leftarrow> Worker_DestroyWorker rs (pss_pWorker set) s;
         Some (s\<lparr>sn_app := (sn_app s)\<lparr>pe_sset := (pe_sset (sn_app s))\<lparr>pss_pWorker := NULL\<rparr>\<rparr>\<rparr>) });
     Some (StarNet_Destroy s)
   }"

end
