(* ===== verification/StarNetAcc.thy ===== *)
theory StarNetAcc
  imports StarNet
begin

text \<open>
  The acceptor of StarNet and its list of free connections: what \<open>Destroy\<close> waits for, and what becomes of
  the list when \<open>AcceptEx\<close> fails.
\<close>

text \<open>No connection on the free list of \<open>a\<close> has a request outstanding, and none is there twice.\<close>

definition idle_acceptor :: "ptr \<Rightarrow> ptr list \<Rightarrow> 'app sn \<Rightarrow> bool" where
  "idle_acceptor a free s \<longleftrightarrow> a \<noteq> NULL \<and> (case sn_accs s a of None \<Rightarrow> False | Some acc \<Rightarrow>
     ac_free_connection acc = Some free \<and> distinct free \<and> length free < 65536 \<and> (\<exists>x. sn_ctxs s (ac_context acc) = Some x) \<and>
     (\<forall>p \<in> set free. \<exists>c. sn_conns s p = Some c \<and> n_iorefs c = 0 \<and> n_connected c = 0 \<and> n_acceptor c = a))"

lemma QueryDepthSList_less:
  assumes "length xs < 65536"
  shows "unat (QueryDepthSList xs) = length xs" "QueryDepthSList xs = 0 \<longleftrightarrow> xs = []"
proof -
  show u: "unat (QueryDepthSList xs) = length xs"
    using assms by (simp add: QueryDepthSList_def unsigned_of_nat take_bit_nat_eq_self)
  then show "QueryDepthSList xs = 0 \<longleftrightarrow> xs = []" by (metis length_0_conv unat_eq_0)
qed

text \<open>Closing an idle connection of an acceptor puts it onto the free list.\<close>

lemma Close_idle:
  assumes "sn_conns s p = Some c" "n_iorefs c = 0" "n_connected c = 0" "n_acceptor c = a" "a \<noteq> NULL" "sn_accs s a = Some acc"
    "ac_free_connection acc = Some free"
  shows "Connection_Close p s =
    (if p \<in> set free then None
     else Some (s\<lparr>sn_accs := (sn_accs s)(a \<mapsto> acc\<lparr>ac_free_connection := Some (p # free)\<rparr>)\<rparr>))"
  using assms by (simp add: Connection_Close_def slist_push_def sn_upd_acc_def)

lemma destroy_loop_idle:
  assumes "idle_acceptor a free s"
  shows "destroy_loop n a s = Some (0 < n \<and> free = [], s)"
proof (induction n)
  case 0
  then show ?case by simp
next
  case (Suc n)
  obtain acc where acc: "sn_accs s a = Some acc" "ac_free_connection acc = Some free" and f: "a \<noteq> NULL" "distinct free" "length free < 65536"
      "\<And>p. p \<in> set free \<Longrightarrow> \<exists>c. sn_conns s p = Some c \<and> n_iorefs c = 0 \<and> n_connected c = 0 \<and> n_acceptor c = a"
    using assms by (auto simp: idle_acceptor_def split: option.splits)
  show ?case
  proof (cases free)
    case Nil
    then show ?thesis using acc by (simp add: QueryDepthSList_less)
  next
    case (Cons p ps)
    let ?s = "s\<lparr>sn_accs := (sn_accs s)(a \<mapsto> acc\<lparr>ac_free_connection := Some ps\<rparr>)\<rparr>"
    obtain c where c: "sn_conns s p = Some c" "n_iorefs c = 0" "n_connected c = 0" "n_acceptor c = a" using f(4) [of p] Cons by auto
    have bk: "acc\<lparr>ac_free_connection := Some (p # ps)\<rparr> = acc" using Cons acc(2) by (cases acc) simp
    have "Connection_Close p ?s = Some (s\<lparr>sn_accs := (sn_accs s)(a \<mapsto> acc\<lparr>ac_free_connection := Some (p # ps)\<rparr>)\<rparr>)"
      using Close_idle [of ?s p c a "acc\<lparr>ac_free_connection := Some ps\<rparr>" ps] c f Cons by simp
    also have "\<dots> = Some s" unfolding bk using acc(1) by (simp add: fun_upd_triv map_upd_triv)
    finally have "Connection_Close p ?s = Some s" .
    then show ?thesis
      using Suc.IH Cons acc QueryDepthSList_less(2) [OF f(3)] by (simp add: sn_upd_acc_def)
  qed
qed

text \<open>A running acceptor with one free connection.\<close>

definition demo_conn :: Connection where
  "demo_conn = \<lparr>n_socket = 2, n_handler = 0, n_context_pool = 1, n_worker = 2, n_acceptor = 3, n_context = 6, n_client = 0,
     n_iorefs = 0, n_connected = 0, n_iorefmax = 65536\<rparr>"

definition demo_ctx :: "operation \<Rightarrow> ptr \<Rightarrow> Context" where
  "demo_ctx op p = \<lparr>k_op = op, k_wsabuf_off = 0, k_wsabuf_len = 0, k_connection = p, k_context_pool = 1, k_offset = 0,
     k_avail_len = 0, k_buffer = []\<rparr>"

definition demo_acc :: Acceptor where
  "demo_acc = \<lparr>ac_socket = 1, ac_handler = 0, ac_worker = 2, ac_context_pool = 1, ac_server = 0, ac_context = 4, ac_iorefs = 0,
     ac_running = 1, ac_total_connection = 1, ac_free_connection = Some [5]\<rparr>"

definition demo_sn :: "unit sn" where
  "demo_sn = \<lparr>sn_tick = 0, sn_next = 7, sn_next_sock = 3, sn_socks = (\<lambda>k. k = 1 \<or> k = 2), sn_conns = [5 \<mapsto> demo_conn],
     sn_ctxs = [4 \<mapsto> demo_ctx OPERATION_ACCEPT 5, 6 \<mapsto> demo_ctx INVALID_OPERATION 5],
     sn_pools = [1 \<mapsto> ContextPool_Init 1024 1024], sn_accs = [3 \<mapsto> demo_acc], sn_workers = Map.empty, sn_pending = [], sn_app = ()\<rparr>"

definition demo_os :: sn_os where
  "demo_os = \<lparr>sno_malloc = (\<lambda>_. True), sno_socket = (\<lambda>_. True), sno_iocp = (\<lambda>_. True), sno_bind = (\<lambda>_. True), sno_listen = (\<lambda>_. True),
     sno_sockopt = (\<lambda>_. True), sno_post = (\<lambda>_. True), sno_thread = (\<lambda>_. True), sno_conn = demo_conn, sno_ctx = demo_ctx INVALID_OPERATION 0, sno_acc = demo_acc\<rparr>"

lemmas demo_defs = demo_conn_def demo_ctx_def demo_acc_def demo_sn_def demo_os_def

lemma idle_demo: "idle_acceptor 3 [5] demo_sn" "sn_accs demo_sn 3 = Some demo_acc"
  by (simp_all add: idle_acceptor_def demo_defs)

text \<open>C40: \<open>Acceptor::Destroy\<close> pops a free connection and closes it, and closing it pushes it onto the same list.  Whatever other
  threads do while the function sleeps: when its two waits are over, so that no accept is outstanding and the list has as many connections as the
  counter says, and the connections on it are idle and no other thread acts any more, the function returns if the list is empty at that moment, and
  closes the socket; if there is a connection on it, the loop goes on forever and changes nothing.\<close>

theorem acceptor_destroy_ends_iff:
  assumes "Acceptor_Stop a s = Some s0" "sleep_while (accept_outstanding a) es s0 = Some (True, es1, s1)"
    and "sleep_while (list_incomplete a) es1 s1 = Some (True, es2, s2)" "idle_acceptor a free s2" "sn_accs s2 a = Some acc"
  shows "(free \<noteq> [] \<longrightarrow> (\<forall>fuel. Acceptor_Destroy fuel es a s = Some (False, s2))) \<and>
    (free = [] \<longrightarrow> (\<forall>fuel > 0. Acceptor_Destroy fuel es a s =
       Some (True, if ac_socket acc \<noteq> INVALID_SOCKET then s2\<lparr>sn_socks := (sn_socks s2)(ac_socket acc := False)\<rparr> else s2)))"
proof -
  have "ac_free_connection acc = Some free" using assms(4,5) by (simp add: idle_acceptor_def)
  then show ?thesis using assms(1-3,5) destroy_loop_idle [OF assms(4)] by (simp add: Acceptor_Destroy_def)
qed

text \<open>The accept that is outstanding when the acceptor is destroyed fails, and another thread counts it down.\<close>

theorem acceptor_destroy_ends_iff_witness:
  "\<exists>s. Acceptor_Destroy 1000 [sn_upd_acc 3 (\<lambda>x. x\<lparr>ac_iorefs := ac_iorefs x - 1\<rparr>)] 3
       (demo_sn\<lparr>sn_accs := [3 \<mapsto> demo_acc\<lparr>ac_iorefs := 1\<rparr>]\<rparr>) = Some (False, s) \<and>
     map_option ac_free_connection (sn_accs s 3) = Some (Some [5])"
proof -
  let ?f = "sn_upd_acc 3 (\<lambda>x. x\<lparr>ac_iorefs := ac_iorefs x - 1\<rparr>)"
  let ?s = "demo_sn\<lparr>sn_accs := [3 \<mapsto> demo_acc\<lparr>ac_iorefs := 1\<rparr>]\<rparr>" and ?s2 = "demo_sn\<lparr>sn_accs := [3 \<mapsto> demo_acc\<lparr>ac_running := 0\<rparr>]\<rparr>"
  let ?t = "demo_sn\<lparr>sn_accs := [3 \<mapsto> demo_acc\<lparr>ac_iorefs := 1, ac_running := 0\<rparr>]\<rparr>"
  have 0: "Acceptor_Stop 3 ?s = Some ?t" by (simp add: Acceptor_Stop_def sn_upd_acc_def)
  have 1: "sleep_while (accept_outstanding 3) [?f] ?t = Some (True, [], ?s2)"
    by (simp add: accept_outstanding_def sn_upd_acc_def demo_acc_def)
  have 2: "sleep_while (list_incomplete 3) [] ?s2 = Some (True, [], ?s2)"
    by (simp add: list_incomplete_def demo_acc_def QueryDepthSList_def)
  have 3: "idle_acceptor 3 [5] ?s2" by (simp add: idle_acceptor_def demo_defs)
  have "Acceptor_Destroy 1000 [?f] 3 ?s = Some (False, ?s2)"
    using acceptor_destroy_ends_iff [OF 0 1 2 3, of "demo_acc\<lparr>ac_running := 0\<rparr>"] by simp
  moreover have "map_option ac_free_connection (sn_accs ?s2 3) = Some (Some [5])" by (simp add: demo_acc_def)
  ultimately show ?thesis by (intro exI conjI)
qed

text \<open>What \<open>Create\<close> promises of the connection it returns.\<close>

lemma Create_result:
  assumes "Connection_Create os h r w a s = Some (p, s')" "p \<noteq> NULL"
  shows "\<exists>c. sn_conns s' p = Some c \<and> n_iorefs c = 0 \<and> n_connected c = 0 \<and> n_acceptor c = a"
    and "sn_accs s' = sn_accs s"
  using assms
  by (auto simp: Connection_Create_def sn_call_def sn_upd_conn_def sn_upd_ctx_def sn_malloc_ctx_def Let_def sn_free_conn_def
      split: if_splits option.splits Option.bind_splits)

lemma Create_accs: "Connection_Create os h r w a s = Some (p, s') \<Longrightarrow> sn_accs s' = sn_accs s \<and> sn_pending s' = sn_pending s"
  by (auto simp: Connection_Create_def sn_call_def sn_upd_conn_def sn_upd_ctx_def sn_malloc_ctx_def Let_def sn_free_conn_def
      split: if_splits option.splits Option.bind_splits)

lemma accept_request_idle:
  assumes "accept_request os a p s = Some s'" "a \<noteq> NULL" "sn_accs s a = Some acc"
    "sn_conns s p = Some c" "n_iorefs c = 0" "n_connected c = 0" "n_acceptor c = a" "ac_free_connection acc = Some free"
  shows "sno_post os (sn_tick s) \<and> sn_pending s' = sn_pending s @ [ac_context acc] \<and>
    sn_accs s' = (sn_accs s)(a \<mapsto> acc\<lparr>ac_iorefs := ac_iorefs acc + 1\<rparr>)"
proof -
  from assms(1,3) obtain x where x: "sn_ctxs s (ac_context acc) = Some x"
    by (auto simp: accept_request_def sn_upd_ctx_def sn_upd_conn_def split: Option.bind_splits)
  let ?acc = "acc\<lparr>ac_iorefs := ac_iorefs acc + 1\<rparr>"
  let ?s = "s\<lparr>sn_conns := (sn_conns s)(p \<mapsto> c\<lparr>n_client := NULL\<rparr>),
    sn_ctxs := (sn_ctxs s)(ac_context acc \<mapsto> x\<lparr>k_connection := p\<rparr>),
    sn_accs := (sn_accs s)(a \<mapsto> ?acc), sn_tick := Suc (sn_tick s)\<rparr>"
  have cl: "Connection_Close p ?s = (if p \<in> set free then None
     else Some (?s\<lparr>sn_accs := (sn_accs ?s)(a \<mapsto> ?acc\<lparr>ac_free_connection := Some (p # free)\<rparr>)\<rparr>))"
    using Close_idle [of ?s p "c\<lparr>n_client := NULL\<rparr>" a ?acc free] assms by simp
  show ?thesis
    using assms(1,3,4,8) x cl
    by (auto simp: accept_request_def sn_upd_conn_def sn_upd_ctx_def sn_upd_acc_def sn_post_def sn_call_def slist_push_def
        split: if_splits)
qed

text \<open>When \<open>AcceptEx\<close> is refused, \<open>Accept\<close> closes the connection, which puts it onto the free list, and then pushes
  it onto the free list itself: the entry is linked to itself.  So, from an idle acceptor, \<open>Accept\<close> has a defined result only
  when the request is taken, and then it is with the kernel and counted in \<open>iorefs_\<close>; or when no connection could be created,
  and then the acceptor is stopped and nothing is requested.
\<close>

theorem accept_outcome:
  assumes "idle_acceptor a free s" "sn_accs s a = Some acc" "Acceptor_Accept os a s = Some s'"
  shows "\<exists>acc'. sn_accs s' a = Some acc' \<and> ac_free_connection acc' = Some (tl free) \<and>
    (sn_pending s' = sn_pending s @ [ac_context acc] \<and> ac_iorefs acc' = ac_iorefs acc + 1 \<and> ac_running acc' = ac_running acc
     \<or> sn_pending s' = sn_pending s \<and> ac_iorefs acc' = ac_iorefs acc \<and> ac_running acc' = 0 \<and> free = [])"
proof -
  have fr: "ac_free_connection acc = Some free" and a: "a \<noteq> NULL" using assms(1,2) by (simp_all add: idle_acceptor_def)
  show ?thesis
  proof (cases free)
    case Nil
    from assms(2,3) fr Nil obtain p s1 where c: "Connection_Create os (ac_handler acc) (ac_context_pool acc) (ac_worker acc) a s = Some (p, s1)"
      and r: "(if p = NULL then sn_upd_acc a (\<lambda>x. x\<lparr>ac_running := 0\<rparr>) s1 else accept_request os a p s1) = Some s'"
      by (auto simp: Acceptor_Accept_def split: Option.bind_splits)
    note cr = Create_accs [OF c]
    show ?thesis
    proof (cases "p = NULL")
      case True
      then show ?thesis using r cr Nil fr assms(2) by (auto simp: sn_upd_acc_def)
    next
      case False
      then obtain cn where cn: "sn_conns s1 p = Some cn" "n_iorefs cn = 0" "n_connected cn = 0" "n_acceptor cn = a"
        using Create_result(1) [OF c] by blast
      have "sn_accs s1 a = Some acc" using assms(2) cr by simp
      from accept_request_idle [OF _ a this cn fr] r False cr Nil fr show ?thesis by auto
    qed
  next
    case (Cons p ps)
    let ?acc = "acc\<lparr>ac_free_connection := Some ps, ac_total_connection := ac_total_connection acc - 1\<rparr>"
    let ?s = "s\<lparr>sn_accs := (sn_accs s)(a \<mapsto> ?acc)\<rparr>"
    have r: "accept_request os a p ?s = Some s'" using assms(2,3) fr Cons by (simp add: Acceptor_Accept_def sn_upd_acc_def)
    have "\<exists>c. sn_conns s p = Some c \<and> n_iorefs c = 0 \<and> n_connected c = 0 \<and> n_acceptor c = a"
      using assms(1,2) Cons by (simp add: idle_acceptor_def)
    then obtain c where "sn_conns ?s p = Some c" "n_iorefs c = 0" "n_connected c = 0" "n_acceptor c = a" by auto
    from accept_request_idle [OF r a _ this, of ?acc ps] Cons show ?thesis by simp
  qed
qed

theorem accept_outcome_witness:
  "\<exists>s' acc'. Acceptor_Accept demo_os 3 demo_sn = Some s' \<and> sn_accs s' 3 = Some acc' \<and>
     sn_pending s' = [4] \<and> ac_iorefs acc' = 1 \<and> ac_free_connection acc' = Some []"
proof -
  have "\<exists>s'. Acceptor_Accept demo_os 3 demo_sn = Some s'"
    by (simp add: Acceptor_Accept_def accept_request_def demo_defs sn_upd_acc_def sn_upd_conn_def sn_upd_ctx_def sn_post_def sn_call_def)
  then obtain s' where "Acceptor_Accept demo_os 3 demo_sn = Some s'" ..
  with accept_outcome [OF idle_demo this] show ?thesis by (auto simp: demo_acc_def demo_sn_def)
qed

end
