(* ===== verification/StarNetReach.thy ===== *)
theory StarNetReach
  imports StarNetRefs StarNetPeer StarNetAcc
begin

text \<open>
  Reachable states of StarNet.  A step is one call of the interface by the application, or one packet of the
  completion port handled by the worker thread.  What the network layer relies on in the application is
  the locale \<open>sn_handlers\<close>: its callbacks keep the reference counting invariant.  The peers of \<open>StarNetPeer\<close> are an instance.
\<close>

section \<open>Steps\<close>

inductive sn_step :: "sn_os \<Rightarrow> (nat \<Rightarrow> 'app Handler) \<Rightarrow> 'app sn \<Rightarrow> 'app sn \<Rightarrow> bool" for os H where
  packet: "q \<in> set (sn_pending s) \<Longrightarrow> sn_handle os H bResult data q s = Some s' \<Longrightarrow> sn_step os H s s'"
| worker: "Worker_CreateWorker os n s = (w, s') \<Longrightarrow> sn_step os H s s'"
| pool: "CreateContextPool os i o' s = (r, s') \<Longrightarrow> sn_step os H s s'"
| acceptor: "Acceptor_CreateAcceptor os w r h s = Some (a, s') \<Longrightarrow>
     (a \<noteq> NULL \<Longrightarrow> map_option k_op (sn_ctxs s' (Suc a)) = Some OPERATION_ACCEPT) \<Longrightarrow> sn_step os H s s'"
| start: "Acceptor_Start os a s = Some s' \<Longrightarrow> sn_step os H s s'"
| stop: "Acceptor_Stop a s = Some s' \<Longrightarrow> sn_step os H s s'"
| send: "PopOutputBuffer os r s = Some (q, s1) \<Longrightarrow> q \<noteq> NULL \<Longrightarrow> sn_upd_ctx q (\<lambda>x. x\<lparr>k_buffer := bytes\<rparr>) s1 = Some s2 \<Longrightarrow>
     Connection_AsyncSendBuf os p len q s2 = Some s' \<Longrightarrow> sn_step os H s s'"
| unused: "PopOutputBuffer os r s = Some (q, s1) \<Longrightarrow> q \<noteq> NULL \<Longrightarrow> PushOutputBuffer r' q s1 = Some s' \<Longrightarrow> sn_step os H s s'"
| connect: "Connection_Connect os h r w client s = Some (ok, s') \<Longrightarrow> sn_step os H s s'"
| disconnect: "Connection_AsyncDisconnect os p s = Some s' \<Longrightarrow> sn_step os H s s'"
| close: "Connection_Close p s = Some s' \<Longrightarrow> sn_step os H s s'"
| client: "Connection_SetClient p k s = Some s' \<Longrightarrow> sn_step os H s s'"
| refmax: "Connection_SetRefMax p n s = Some s' \<Longrightarrow> sn_step os H s s'"
| app: "sn_step os H s (s\<lparr>sn_app := x\<rparr>)"

definition sn_start :: "'app \<Rightarrow> 'app sn" where
  "sn_start x = \<lparr>sn_tick = 0, sn_next = 1, sn_next_sock = 1, sn_socks = (\<lambda>_. False), sn_conns = Map.empty, sn_ctxs = Map.empty,
     sn_pools = Map.empty, sn_accs = Map.empty, sn_workers = Map.empty, sn_pending = [], sn_app = x\<rparr>"

lemma sn_start_inv: "refs_inv (sn_start x)"
  by (auto simp: refs_inv_def rv_inv_def rv_count_def rv_lists_def rv_pools_def rv_embedded_def rv_fresh_def view_def sn_start_def
      on_input_def on_output_def pooled_def embedded_def conn_ctxs_def addrs_def targets_def)

section \<open>Set-up\<close>

lemma bump_inv: "refs_inv s \<Longrightarrow> view s' = (view s)\<lparr>v_next := k\<rparr> \<Longrightarrow> sn_next s \<le> k \<Longrightarrow> refs_inv s'"
  unfolding refs_inv_def by (metis rv_bump view_fields(6))

lemma view_next_frame:
  "view (s\<lparr>sn_tick := t, sn_next := n, sn_workers := w\<rparr>) = (view s)\<lparr>v_next := n\<rparr>"
  "view (s\<lparr>sn_tick := t, sn_next := n\<rparr>) = (view s)\<lparr>v_next := n\<rparr>"
  by (simp_all add: view_def)

lemma CreateWorker_inv: "refs_inv s \<Longrightarrow> Worker_CreateWorker os n s = (w, s') \<Longrightarrow> refs_inv s'"
  by (rule bump_inv [of s s' "sn_next s'"])
    (auto simp: Worker_CreateWorker_def Worker_Init_def sn_call_def Let_def view_def split: if_splits prod.splits)

lemma CreateContextPool_inv:
  assumes "refs_inv s" "CreateContextPool os i o' s = (r, s')"
  shows "refs_inv s'"
proof (cases "sno_malloc os (sn_tick s)")
  case False
  then have "view s' = view s" using assms(2) by (auto simp: CreateContextPool_def sn_call_def)
  then show ?thesis using assms(1) by (simp add: refs_inv_def)
next
  case True
  let ?v = "(view s)\<lparr>v_next := Suc (sn_next s)\<rparr>"
  have v: "view s' = set_lists (sn_next s) [] [] ?v"
    using True assms(2) by (auto simp: CreateContextPool_def sn_call_def ContextPool_Init_def set_lists_def view_def fun_eq_iff)
  have b: "rv_inv (\<lambda>p. 0) ?v" using assms(1) rv_bump [of "\<lambda>p. 0" "view s"] by (simp add: refs_inv_def view_fields)
  have "rv_lists (set_lists (sn_next s) [] [] ?v)"
    using rv_invD(2) [OF b] unfolding rv_lists_def on_set_lists by (auto simp: set_lists_def split: if_splits)
  then show ?thesis unfolding refs_inv_def v by (rule rv_set_lists [OF b]) simp_all
qed

lemma CreateAcceptor_inv:
  assumes I: "refs_inv s" and f: "Acceptor_CreateAcceptor os w r h s = Some (a, s')"
    and op: "a \<noteq> NULL \<Longrightarrow> map_option k_op (sn_ctxs s' (Suc a)) = Some OPERATION_ACCEPT"
  shows "refs_inv s'"
proof (cases "a = NULL")
  case True
  have "0 < sn_next s" using I by (simp add: refs_inv_def rv_inv_def rv_fresh_def view_fields)
  with True have "view s' = view s"
    using f by (auto simp: Acceptor_CreateAcceptor_def sn_call_def Let_def split: if_splits Option.bind_splits)
  then show ?thesis using I by (simp add: refs_inv_def)
next
  case False
  let ?n = "sn_next s"
  have I0: "rv_inv (\<lambda>p. 0) (view s)" using I by (simp add: refs_inv_def)
  define s1 where "s1 = s\<lparr>sn_tick := Suc (sn_tick s), sn_next := Suc (Suc ?n), sn_accs := (sn_accs s)(?n \<mapsto> (sno_acc os)\<lparr>ac_context := Suc ?n\<rparr>),
         sn_ctxs := (sn_ctxs s)(Suc ?n \<mapsto> (sno_ctx os)\<lparr>k_buffer := replicate ADDR_BUFFER 0\<rparr>)\<rparr>"
  from f False obtain rc where a: "a = ?n" and i: "Acceptor_Init os ?n w r h s1 = Some (rc, s')"
    by (auto simp: Acceptor_CreateAcceptor_def sn_call_def Let_def s1_def split: if_splits Option.bind_splits)
  have shape: "sn_conns s' = sn_conns s1" "sn_pools s' = sn_pools s1" "sn_pending s' = sn_pending s1" "sn_next s' = sn_next s1"
    "\<forall>b. map_option ac_context (sn_accs s' b) = map_option ac_context (sn_accs s1 b)"
    "\<forall>q. q \<noteq> Suc ?n \<longrightarrow> sn_ctxs s' q = sn_ctxs s1 q"
    "map_option k_connection (sn_ctxs s' (Suc ?n)) = map_option k_connection (sn_ctxs s1 (Suc ?n))"
    using i by (auto simp: s1_def Acceptor_Init_def sn_call_def sn_upd_acc_def sn_upd_ctx_def Let_def split: if_splits Option.bind_splits)
  from op [OF False] a obtain x where x: "sn_ctxs s' (Suc ?n) = Some x" "k_op x = OPERATION_ACCEPT" by auto
  let ?v = "(view s)\<lparr>v_next := Suc (Suc ?n), v_ctx := (v_ctx (view s))(Suc ?n \<mapsto> (OPERATION_ACCEPT, k_connection x))\<rparr>"
  have v: "view s' = ?v\<lparr>v_acc := (v_acc (view s))(?n \<mapsto> Suc ?n)\<rparr>"
    using shape x by (simp add: view_def fun_eq_iff s1_def)
  have n: "v_next (view s) = ?n" by (simp add: view_fields)
  have le: "v_next (view s) \<le> Suc ?n" "Suc ?n < Suc (Suc ?n)" by (simp_all add: n)
  note fr = rv_freshD [OF rv_invD(5) [OF I0] le(1)]
  have i1: "rv_inv (\<lambda>p. 0) ?v" by (rule rv_new_ctx(1) [OF I0 le])
  show ?thesis
    unfolding refs_inv_def v
  proof (rule rv_new_acc [OF i1, of "Suc ?n" ?n, simplified])
    show "Suc ?n \<notin> pooled ?v" using fr(1) pool_frame(3) [of ?v "view s"] by simp
  qed (use fr n in \<open>auto simp: embedded_def op_of_def view_fields\<close>)
qed

lemma Start_inv:
  assumes I: "refs_inv s" and f: "Acceptor_Start os a s = Some s'"
  shows "refs_inv s'"
proof -
  from f obtain acc s1 where s1: "\<exists>new. sn_upd_acc a (\<lambda>x. x\<lparr>ac_running := new\<rparr>) s = Some s1" "s' = s1 \<or> Acceptor_Accept os a s1 = Some s'"
    by (auto simp: Acceptor_Start_def InterlockedCompareExchange_def split: Option.bind_splits if_splits)
  have "view s1 = view s" using s1(1) sn_upd_acc_same by fastforce
  then show ?thesis using I s1(2) Accept_inv [of "\<lambda>p. 0" s1] unfolding refs_inv_def by auto
qed

lemma Stop_inv: "refs_inv s \<Longrightarrow> Acceptor_Stop a s = Some s' \<Longrightarrow> refs_inv s'"
  unfolding refs_inv_def Acceptor_Stop_def using sn_upd_acc_same by fastforce

section \<open>The contract of the application\<close>

locale sn_handlers =
  fixes H :: "nat \<Rightarrow> 'app Handler"
  assumes OnConnection_keeps: "refs_inv s \<Longrightarrow> h_OnConnection (H i) p s = Some (ok, s') \<Longrightarrow> refs_inv s'"
    and OnDisconnect_keeps: "refs_inv s \<Longrightarrow> h_OnDisconnect (H i) p s = Some s' \<Longrightarrow> refs_inv s'"
    and OnConnectFailed_keeps: "refs_inv s \<Longrightarrow> h_OnConnectFailed (H i) k s = Some s' \<Longrightarrow> refs_inv s'"
begin

lemma established_inv:
  assumes I: "refs_inv s" and f: "sn_established os H p s = Some s'"
  shows "refs_inv s'"
proof -
  from f consider
      (refused) i s1 where "h_OnConnection (H i) p s = Some (False, s1)" "Connection_AsyncDisconnect os p s1 = Some s'"
    | (taken) i s1 r q s2 where "h_OnConnection (H i) p s = Some (True, s1)" "PopInputContext os r s1 = Some (q, s2)"
        "if q \<noteq> NULL then Connection_AsyncRecv os p q s2 = Some s' else Connection_AsyncDisconnect os p s2 = Some s'"
    by (auto simp: sn_established_def split: Option.bind_splits if_splits)
  then show ?thesis
  proof cases
    case refused
    then show ?thesis using OnConnection_keeps [OF I] AsyncDisconnect_inv unfolding refs_inv_def by blast
  next
    case taken
    have I1: "rv_inv (\<lambda>p. 0) (view s1)" using OnConnection_keeps [OF I taken(1)] by (simp add: refs_inv_def)
    show ?thesis
      using taken(3) PopInputContext_inv [OF I1 taken(2)] AsyncRecv_inv [of "\<lambda>p. 0" s2 q os p s'] AsyncDisconnect_inv [of "\<lambda>p. 0" s2 os p s']
      by (auto simp: refs_inv_def split: if_splits)
  qed
qed

lemma on_accept_inv:
  assumes I: "refs_inv s" and f: "sn_on_accept os H b p s = Some s'"
  shows "refs_inv s'"
proof (cases b)
  case False
  then show ?thesis using I f by (auto simp: sn_on_accept_def split: Option.bind_splits)
next
  case True
  with f obtain a s1 s2 where s1: "Acceptor_Accept os a s = Some s1"
    and s2: "s2 = s1\<lparr>sn_tick := Suc (sn_tick s1)\<rparr> \<or> (\<exists>s4. sn_upd_conn p (\<lambda>c. c\<lparr>n_connected := 1\<rparr>) (s1\<lparr>sn_tick := Suc (sn_tick s1)\<rparr>) = Some s4 \<and> sn_established os H p s4 = Some s2)"
    and s3: "sn_upd_acc a (\<lambda>x. x\<lparr>ac_iorefs := ac_iorefs x - 1\<rparr>) s2 = Some s'"
    by (auto simp: sn_on_accept_def sn_call_def Let_def split: Option.bind_splits if_splits)
  have I1: "refs_inv s1" using I Accept_inv [OF _ _ s1, of "\<lambda>p. 0"] by (simp add: refs_inv_def)
  from s2 have "refs_inv s2"
  proof (elim disjE exE conjE)
    fix s4 assume s4: "sn_upd_conn p (\<lambda>c. c\<lparr>n_connected := 1\<rparr>) (s1\<lparr>sn_tick := Suc (sn_tick s1)\<rparr>) = Some s4" and e: "sn_established os H p s4 = Some s2"
    have "view s4 = view s1" using sn_upd_conn_same [OF s4] by simp
    then show ?thesis using I1 established_inv [OF _ e] by (simp add: refs_inv_def)
  qed (use I1 in \<open>simp add: refs_inv_def\<close>)
  moreover have "view s' = view s2" using sn_upd_acc_same [OF s3] by simp
  ultimately show ?thesis by (simp add: refs_inv_def)
qed

lemma on_connect_inv:
  assumes I: "refs_inv s" and f: "sn_on_connect os H b p s = Some s'"
  shows "refs_inv s'"
proof (cases b)
  case True
  with f obtain s1 where s1: "sn_upd_conn p (\<lambda>c. c\<lparr>n_connected := 1\<rparr>) s = Some s1"
    and r: "(if sno_sockopt os (sn_tick s1) then sn_established os H p (s1\<lparr>sn_tick := Suc (sn_tick s1)\<rparr>)
      else Some (s1\<lparr>sn_tick := Suc (sn_tick s1)\<rparr>)) = Some s'"
    by (auto simp: sn_on_connect_def sn_call_def Let_def split: Option.bind_splits)
  have "refs_inv (s1\<lparr>sn_tick := Suc (sn_tick s1)\<rparr>)" using I sn_upd_conn_same [OF s1] by (simp add: refs_inv_def)
  then show ?thesis using r established_inv by (auto split: if_splits)
next
  case False
  with f obtain i k s1 where s1: "h_OnConnectFailed (H i) k s = Some s1" and r: "Connection_Close p s1 = Some s'"
    by (auto simp: sn_on_connect_def split: Option.bind_splits)
  show ?thesis using OnConnectFailed_keeps [OF I s1] Close_inv [OF _ r] by (simp add: refs_inv_def)
qed

lemma handle_inv:
  assumes I: "refs_inv s" and q: "q \<in> set (sn_pending s)" and f: "sn_handle os H b data q s = Some s'"
  shows "refs_inv s'"
proof -
  from f obtain s1 where s1: "sn_deliver data q s = Some s1" by (auto simp: sn_handle_def split: Option.bind_splits)
  then obtain x0 where x0: "sn_ctxs s q = Some x0" by (auto simp: sn_deliver_def split: Option.bind_splits)
  from deliver_view(2) [OF s1 x0] obtain x where x: "sn_ctxs s1 q = Some x" "k_op x = k_op x0" "k_connection x = k_connection x0" by blast
  have I0: "rv_inv (\<lambda>p. 0) (view s)" using I by (simp add: refs_inv_def)
  note rest = f [unfolded sn_handle_def s1 bind.bind_lunit x(1)]
  show ?thesis
  proof (cases "k_op x0 \<in> io_ops")
    case True
    note d = deliver_io_inv [OF I0 q x0 True s1]
    then have io: "k_op x = OPERATION_RECV \<or> k_op x = OPERATION_SEND" using True x(2) by (auto simp: io_ops_def)
    show ?thesis
    proof (cases "k_op x = OPERATION_RECV")
      case True
      then have "sn_on_recv os (of_nat (length data)) q (k_connection x0) s1 = Some s'" using rest x(3) by simp
      from on_recv_inv [OF _ d(2) _ this] d(1,3) True x(2) show ?thesis by (simp add: refs_inv_def)
    next
      case False
      then have sd: "k_op x = OPERATION_SEND" using io by blast
      then have "sn_on_send q (k_connection x0) s1 = Some s'" using rest x(3) by simp
      from on_send_inv [OF _ d(2) _ this] d(1,3) sd x(2) show ?thesis by (simp add: refs_inv_def)
    qed
  next
    case False
    then have I1: "refs_inv s1" using deliver_other_inv [OF I0 x0 _ s1] by (simp add: refs_inv_def)
    have vq: "v_ctx (view s1) q = Some (k_op x, k_connection x)" "k_op x \<notin> io_ops" using x False by (simp_all add: view_fields)
    show ?thesis
    proof (cases "k_op x")
      case OPERATION_DISCONNECT
      then have f1: "sn_on_disconnect os H q (k_connection x0) s1 = Some s'" using rest x(3) by simp
      then obtain c where c: "sn_conns s1 (k_connection x0) = Some c" by (auto simp: sn_on_disconnect_def split: Option.bind_splits)
      show ?thesis
      proof (cases "n_iorefs c = 0")
        case True
        then have "h_OnDisconnect (H (n_handler c)) (k_connection x0) s1 = Some s'" using f1 c by (simp add: sn_on_disconnect_def)
        then show ?thesis by (rule OnDisconnect_keeps [OF I1])
      next
        case False
        then have "s' = snd (sn_post os q s1)" using f1 c by (simp add: sn_on_disconnect_def)
        then show ?thesis using I1 rv_post_other [OF _ vq] by (cases rule: sn_post_cases [of os q s1]) (simp_all add: refs_inv_def)
      qed
    next
      case OPERATION_ACCEPT
      then have "sn_on_accept os H b (k_connection x) s1 = Some s'" using rest by simp
      then show ?thesis by (rule on_accept_inv [OF I1])
    next
      case OPERATION_CONNECT
      then have "sn_on_connect os H b (k_connection x) s1 = Some s'" using rest by simp
      then show ?thesis by (rule on_connect_inv [OF I1])
    next
      case INVALID_OPERATION
      then show ?thesis using rest I1 by simp
    qed (use vq(2) in \<open>simp_all add: io_ops_def\<close>)
  qed
qed

lemma step_inv: "sn_step os H s s' \<Longrightarrow> refs_inv s \<Longrightarrow> refs_inv s'"
proof (induction rule: sn_step.induct)
  case (send r s q s1 bytes s2 p len s')
  have I1: "rv_inv (\<lambda>p. 0) (view s1)" "held (view s1) q"
    using PopOutputContext_inv [of "\<lambda>p. 0" s os r q s1] send by (auto simp: PopOutputBuffer_def refs_inv_def)
  have "view s2 = view s1" using send(3) view_ctx_same by (fastforce simp: sn_upd_ctx_def split: Option.bind_splits)
  then show ?case using I1 AsyncSendBuf_inv [OF _ _ send(4)] by (simp add: refs_inv_def)
next
  case (unused r s q s1 r' s')
  then show ?case
    using PopOutputContext_inv [of "\<lambda>p. 0" s os r q s1] PushOutputContext_inv [of "\<lambda>p. 0" s1 q r' s']
    by (auto simp: PopOutputBuffer_def PushOutputBuffer_def refs_inv_def)
next
  case (client p k s s')
  then show ?case using sn_upd_conn_same by (fastforce simp: Connection_SetClient_def refs_inv_def)
next
  case (refmax p n s s')
  then show ?case using sn_upd_conn_same by (fastforce simp: Connection_SetRefMax_def refs_inv_def)
next
  case (app s x)
  then show ?case by (simp add: refs_inv_def)
next
  case (connect h r w client s ok s')
  then show ?case using Connect_inv [of "\<lambda>p. 0" s] by (simp add: refs_inv_def)
next
  case (disconnect p s s')
  then show ?case using AsyncDisconnect_inv [of "\<lambda>p. 0" s os p s'] by (simp add: refs_inv_def)
next
  case (close p s s')
  then show ?case using Close_inv [of "\<lambda>p. 0" s p s'] by (simp add: refs_inv_def)
qed (auto intro: handle_inv CreateWorker_inv CreateContextPool_inv CreateAcceptor_inv Start_inv Stop_inv)

lemma reach_inv: "(sn_step os H)\<^sup>*\<^sup>* s s' \<Longrightarrow> refs_inv s \<Longrightarrow> refs_inv s'"
  by (induction rule: rtranclp_induct) (auto intro: step_inv)

end

section \<open>The peers meet the contract\<close>

lemma pe_upd_client_view: "pe_upd_client k f s = Some s' \<Longrightarrow> view s' = view s"
  by (auto simp: pe_upd_client_def split: Option.bind_splits)

lemma pe_upd_server_view: "pe_upd_server k f s = Some s' \<Longrightarrow> view s' = view s"
  by (auto simp: pe_upd_server_def split: Option.bind_splits)

lemma AddConnector_view: "AddConnector k s = Some (b, s') \<Longrightarrow> view s' = view s"
  by (auto simp: AddConnector_def split: Option.bind_splits if_splits)

lemma DeleteConnector_view: "DeleteConnector p s = Some s' \<Longrightarrow> view s' = view s"
  by (auto simp: DeleteConnector_def split: Option.bind_splits)

lemma pe_free_client_view: "pe_free_client k s = Some s' \<Longrightarrow> view s' = view s"
  by (auto simp: pe_free_client_def split: Option.bind_splits)

lemma SetClient_view: "Connection_SetClient p k s = Some s' \<Longrightarrow> view s' = view s"
  unfolding Connection_SetClient_def using sn_upd_conn_same [of p "\<lambda>c. c\<lparr>n_client := k\<rparr>" s s'] by simp

lemmas peer_views = pe_upd_client_view pe_upd_server_view AddConnector_view DeleteConnector_view pe_free_client_view SetClient_view

lemma client_OnConnection_keeps:
  assumes "refs_inv s" "PeerClientSet_OnConnection os mem p s = Some (ok, s')"
  shows "refs_inv s'"
proof -
  have "view s' = view s \<or> view s' = (view s)\<lparr>v_next := Suc (sn_next s)\<rparr>"
    using assms(2)
    by (auto simp: PeerClientSet_OnConnection_def sn_call_def Let_def split: Option.bind_splits if_splits dest!: peer_views)
      (auto simp: view_def)
  then show ?thesis using assms(1) bump_inv [of s s' "Suc (sn_next s)"] by (auto simp: refs_inv_def)
qed

lemma client_OnDisconnect_keeps:
  assumes "refs_inv s" "PeerClientSet_OnDisconnect p s = Some s'"
  shows "refs_inv s'"
proof -
  from assms(2) obtain s1 where "view s1 = view s" "Connection_Close p s1 = Some s'"
    by (auto simp: PeerClientSet_OnDisconnect_def split: Option.bind_splits if_splits dest!: peer_views)
  then show ?thesis using assms(1) Close_inv [of "\<lambda>p. 0" s1] by (simp add: refs_inv_def)
qed

lemma server_OnConnectFailed_keeps:
  assumes "refs_inv s" "PeerServer_OnConnectFailed os k s = Some s'"
  shows "refs_inv s'"
proof -
  from assms(2) have "view s' = view s \<or> (\<exists>ok s1. PeerServer_Connect os k s = Some (ok, s1) \<and> view s' = view s1)"
    by (auto simp: PeerServer_OnConnectFailed_def split: Option.bind_splits if_splits dest!: peer_views)
  then show ?thesis using assms(1) Connect_inv [of "\<lambda>p. 0" s] unfolding PeerServer_Connect_def by (auto simp: refs_inv_def)
qed

interpretation peer: sn_handlers "peer_handlers os mem carr sarr fuel" for os mem carr sarr fuel
proof unfold_locales
  show "refs_inv s'" if "refs_inv s" "h_OnConnection (peer_handlers os mem carr sarr fuel i) p s = Some (ok, s')" for s i p ok s'
    using that client_OnConnection_keeps
    by (auto simp: peer_handlers_def PeerServer_OnConnection_def refs_inv_def split: if_splits Option.bind_splits dest!: peer_views)
  show "refs_inv s'" if "refs_inv s" "h_OnDisconnect (peer_handlers os mem carr sarr fuel i) p s = Some s'" for s i p s'
    using that client_OnDisconnect_keeps
    by (auto simp: peer_handlers_def PeerServer_OnDisconnect_def refs_inv_def split: if_splits Option.bind_splits dest!: peer_views)
  show "refs_inv s'" if "refs_inv s" "h_OnConnectFailed (peer_handlers os mem carr sarr fuel i) k s = Some s'" for s i k s'
    using that server_OnConnectFailed_keeps by (auto simp: peer_handlers_def split: if_splits)
qed

section \<open>Reference counting\<close>

text \<open>The receives and sends of connection \<open>p\<close> that are with the kernel.\<close>

definition io_requests :: "'app sn \<Rightarrow> ptr \<Rightarrow> ptr list" where
  "io_requests s p = filter (\<lambda>q. case sn_ctxs s q of None \<Rightarrow> False
     | Some x \<Rightarrow> (k_op x = OPERATION_RECV \<or> k_op x = OPERATION_SEND) \<and> k_connection x = p) (sn_pending s)"

lemma outstanding_io: "outstanding (view s) p = length (io_requests s p)"
  by (auto simp: outstanding_def io_requests_def io_of_def view_fields io_ops_def intro!: arg_cong [where f = length] filter_cong split: option.splits)

text \<open>C3: Reference counting.  From the start of the program, whatever the application calls, whatever the kernel
  answers and in whatever order requests complete, \<open>iorefs_\<close> of every connection is the number of its receives and sends
  that are with the kernel; no context is in two of them; and a connection that \<open>Close\<close> gives up has none.\<close>
theorem starnet_refcount:
  assumes r: "(sn_step os (peer_handlers os mem carr sarr fuel))\<^sup>*\<^sup>* (sn_start x) s" and c: "sn_conns s p = Some c"
  shows "n_iorefs c = of_nat (length (io_requests s p)) \<and> distinct (io_requests s p) \<and>
    (length (sn_pending s) < 2 ^ 32 \<longrightarrow> Connection_Close p s \<noteq> Some s \<longrightarrow> io_requests s p = [])"
proof -
  have I: "rv_inv (\<lambda>p. 0) (view s)" using peer.reach_inv [OF r sn_start_inv] by (simp add: refs_inv_def)
  have n: "n_iorefs c = of_nat (length (io_requests s p))"
    using rv_invD(1) [OF I] c by (auto simp: rv_count_def view_fields outstanding_io)
  have le: "length (io_requests s p) \<le> length (sn_pending s)" by (simp add: io_requests_def)
  have d: "distinct (io_requests s p)"
  proof -
    have "io_requests s p = filter (\<lambda>q. io_of (view s) p q) (filter (is_io (view s)) (v_pend (view s)))"
      by (auto simp: io_requests_def io_of_def is_io_def view_fields io_ops_def intro!: filter_cong split: option.splits)
    then show ?thesis using rv_invD(6) [OF I] by (metis distinct_filter)
  qed
  have "io_requests s p = []" if "length (sn_pending s) < 2 ^ 32" "Connection_Close p s \<noteq> Some s"
  proof -
    have "n_iorefs c = 0" using that(2) c by (auto simp: Connection_Close_def split: if_splits)
    then have "unat (of_nat (length (io_requests s p)) :: i32) = 0" using n by simp
    then show ?thesis using that(1) le by (simp add: unat_of_nat_less)
  qed
  then show ?thesis using n d by blast
qed

text \<open>A client connection whose connect has completed.\<close>

definition demo_server :: PeerServer where
  "demo_server = \<lparr>ps_ConnId = 0, ps_sin_addr = 0, ps_sin_port = 0, ps_recv = \<lparr>pr_iRecvBufLen = 0, pr_RecvBuf = []\<rparr>, ps_iState = CONNECTING\<rparr>"

definition demo_peers :: peers where
  "demo_peers = \<lparr>pe_clients = Map.empty, pe_servers = [100 \<mapsto> demo_server],
     pe_cset = \<lparr>pcs_pWorker = 0, pcs_pContextPool = 0, pcs_pAcceptor = 0, pcs_iIP = 0, pcs_iPort = 0, pcs_vPeerClients = []\<rparr>,
     pe_sset = \<lparr>pss_pWorker = 0, pss_pContextPool = 0, pss_vPeerServers = []\<rparr>, pe_wsa = \<lparr>wsa_count = 0, wsa_loaded = False, wsa_open = 0\<rparr>\<rparr>"

definition demo_client :: PeerClient where
  "demo_client = \<lparr>pc_ConnId = 0, pc_recv = \<lparr>pr_iRecvBufLen = 0, pr_RecvBuf = []\<rparr>\<rparr>"

abbreviation demo_H :: "nat \<Rightarrow> peers Handler" where
  "demo_H \<equiv> peer_handlers demo_os demo_client [] [] 0"

definition demo_s2 :: psn where
  "demo_s2 = snd (CreateContextPool demo_os 1024 65500 (snd (Worker_CreateWorker demo_os 1 (sn_start demo_peers))))"

lemma demo_connect: "case Connection_Connect demo_os 1 2 1 100 demo_s2 of None \<Rightarrow> False | Some (ok, s3) \<Rightarrow> 4 \<in> set (sn_pending s3) \<and>
   (case sn_handle demo_os demo_H True [] 4 s3 of None \<Rightarrow> False | Some s4 \<Rightarrow>
      (case sn_conns s4 3 of None \<Rightarrow> False | Some c \<Rightarrow> n_iorefs c = 1) \<and> length (sn_pending s4) = 1)"
  by code_simp

theorem starnet_refcount_witness:
  "\<exists>s c. (sn_step demo_os demo_H)\<^sup>*\<^sup>* (sn_start demo_peers) s \<and> sn_conns s 3 = Some c \<and> n_iorefs c = 1 \<and> length (io_requests s 3) = 1 \<and>
     distinct (io_requests s 3)"
proof -
  from demo_connect obtain ok s3 s4 c where s: "Connection_Connect demo_os 1 2 1 100 demo_s2 = Some (ok, s3)" "4 \<in> set (sn_pending s3)"
    "sn_handle demo_os demo_H True [] 4 s3 = Some s4" "sn_conns s4 3 = Some c" "n_iorefs c = 1" "length (sn_pending s4) = 1"
    by (auto split: option.splits)
  let ?s1 = "snd (Worker_CreateWorker demo_os 1 (sn_start demo_peers))"
  have "sn_step demo_os demo_H (sn_start demo_peers) ?s1" "sn_step demo_os demo_H ?s1 demo_s2"
    using sn_step.worker [of demo_os 1 "sn_start demo_peers"] sn_step.pool [of demo_os 1024 65500 ?s1] unfolding demo_s2_def by (metis surjective_pairing)+
  moreover have "sn_step demo_os demo_H demo_s2 s3" "sn_step demo_os demo_H s3 s4"
    using sn_step.connect [OF s(1)] sn_step.packet [OF s(2,3)] by blast+
  ultimately have r: "(sn_step demo_os demo_H)\<^sup>*\<^sup>* (sn_start demo_peers) s4" by (meson converse_rtranclp_into_rtranclp rtranclp.rtrancl_refl)
  note p = starnet_refcount [OF r s(4)]
  have "length (io_requests s4 3) \<le> length (sn_pending s4)" by (simp add: io_requests_def)
  then have "length (io_requests s4 3) = 0 \<or> length (io_requests s4 3) = 1" using s(6) by linarith
  then show ?thesis using p s(4,5) r by auto
qed

end
