(* ===== verification/PeerData.thy ===== *)
theory PeerData
  imports Framing StarNetPeer StarNetAcc
begin

text \<open>
  Messages between peers: the receive buffer of \<open>OnPeerData\<close> against the specification of \<open>Framing\<close>, and the streams that
  write and read the messages.
\<close>

section \<open>Specification\<close>

record PeerMsg =
  pm_iFilterId :: u16
  pm_iFuncId :: u16
  pm_iLen :: u32
  pm_Buf :: "byte list"

definition peer_full :: "byte list \<Rightarrow> nat" where
  "peer_full bs = PEER_PACKET_HEAD + unat (get32 bs 4)"

definition peer_dec :: "byte list \<Rightarrow> PeerMsg" where
  "peer_dec bs = \<lparr>pm_iFilterId = get16 bs 0, pm_iFuncId = get16 bs 2, pm_iLen = get32 bs 4,
     pm_Buf = take (unat (get32 bs 4)) (drop PEER_PACKET_HEAD bs)\<rparr>"

definition peer_enc :: "PeerMsg \<Rightarrow> byte list" where
  "peer_enc m = le16 (pm_iFilterId m) @ le16 (pm_iFuncId m) @ le32 (pm_iLen m) @ pm_Buf m"

definition peer_wf :: "PeerMsg \<Rightarrow> bool" where
  "peer_wf m \<longleftrightarrow> unat (pm_iLen m) = length (pm_Buf m)"

text \<open>The messages are given to \<open>Dispatch\<close> one after the other, each accepted.\<close>

primrec deliver_all :: "(u16 \<Rightarrow> u16 \<Rightarrow> u32 \<Rightarrow> byte list \<Rightarrow> 's \<Rightarrow> (bool \<times> 's) option) \<Rightarrow> PeerMsg list \<Rightarrow> 's \<Rightarrow> 's option" where
  "deliver_all disp [] s = Some s"
| "deliver_all disp (m # ms) s = do {
     (ok, s) \<leftarrow> disp (pm_iFilterId m) (pm_iFuncId m) (pm_iLen m) (pm_Buf m) s;
     if ok then deliver_all disp ms s else None
   }"

text \<open>A message function looks at the bytes of its message only.\<close>

definition local_disp :: "(u16 \<Rightarrow> u16 \<Rightarrow> u32 \<Rightarrow> byte list \<Rightarrow> 's \<Rightarrow> (bool \<times> 's) option) \<Rightarrow> bool" where
  "local_disp disp \<longleftrightarrow> (\<forall>f g n b s. disp f g n (take (unat n) b) s = disp f g n b s)"

abbreviation peer_parse :: "byte list \<Rightarrow> PeerMsg list \<times> byte list" where
  "peer_parse \<equiv> parse_frames PEER_PACKET_HEAD peer_full peer_dec"

lemma enc_fields:
  "get16 (peer_enc m @ xs) 0 = pm_iFilterId m" "get16 (peer_enc m @ xs) 2 = pm_iFuncId m" "get32 (peer_enc m @ xs) 4 = pm_iLen m"
  "length (peer_enc m) = PEER_PACKET_HEAD + length (pm_Buf m)"
proof -
  show "get16 (peer_enc m @ xs) 0 = pm_iFilterId m" "length (peer_enc m) = PEER_PACKET_HEAD + length (pm_Buf m)" by (simp_all add: peer_enc_def)
  show "get16 (peer_enc m @ xs) 2 = pm_iFuncId m"
    using get16_skip [of "le16 (pm_iFilterId m)" "le16 (pm_iFuncId m) @ le32 (pm_iLen m) @ pm_Buf m @ xs" 0] by (simp add: peer_enc_def)
  show "get32 (peer_enc m @ xs) 4 = pm_iLen m"
    using get32_skip [of "le16 (pm_iFilterId m) @ le16 (pm_iFuncId m)" "le32 (pm_iLen m) @ pm_Buf m @ xs" 0] by (simp add: peer_enc_def)
qed

interpretation pd: frame_codec PEER_PACKET_HEAD peer_full peer_dec peer_enc peer_wf
proof unfold_locales
  show "peer_full (take n (peer_enc m @ xs)) = length (peer_enc m)" if "peer_wf m" "PEER_PACKET_HEAD \<le> n" for m n xs
  proof -
    have "get32 (take n (peer_enc m @ xs)) 4 = pm_iLen m" using that(2) enc_fields(3) [of m xs] get32_take [of 4 n] by (simp del: take_append)
    then show ?thesis using that(1) enc_fields(4) [of m] by (simp add: peer_full_def peer_wf_def del: take_append)
  qed
  show "peer_dec (peer_enc m @ xs) = m" if "peer_wf m" for m xs
    using that enc_fields(1-3) [of m xs] by (simp add: peer_dec_def peer_wf_def) (simp add: peer_enc_def)
qed (simp_all add: peer_full_def peer_dec_def get16_append get32_append enc_fields)

section \<open>The receive buffer refines the specification\<close>

definition peer_recv_inv :: "PeerRecv \<Rightarrow> bool" where
  "peer_recv_inv r \<longleftrightarrow> length (pr_RecvBuf r) = MAX_PEER_BUFFER \<and> unat (pr_iRecvBufLen r) \<le> MAX_PEER_BUFFER"

definition peer_buffered :: "PeerRecv \<Rightarrow> byte list" where
  "peer_buffered r = take (unat (pr_iRecvBufLen r)) (pr_RecvBuf r)"

text \<open>Dispatching that only records the messages.\<close>

definition log_disp :: "u16 \<Rightarrow> u16 \<Rightarrow> u32 \<Rightarrow> byte list \<Rightarrow> PeerMsg list \<Rightarrow> (bool \<times> PeerMsg list) option" where
  "log_disp f g n b ms = Some (True, ms @ [\<lparr>pm_iFilterId = f, pm_iFuncId = g, pm_iLen = n, pm_Buf = take (unat n) b\<rparr>])"

lemma log_disp_dec: "log_disp (get16 bs 0) (get16 bs 2) (get32 bs 4) (drop PEER_PACKET_HEAD bs) ms = Some (True, ms @ [peer_dec bs])"
  by (simp add: log_disp_def peer_dec_def)

lemma cut_peer_refines:
  assumes "peer_recv_inv r" "heads_below PEER_PACKET_HEAD peer_full 65536 (peer_buffered r)" "unat (pr_iRecvBufLen r) < n"
  shows "\<exists>r'. cut_peer_packets log_disp n r ms = Some (Returned, r', ms @ fst (peer_parse (peer_buffered r))) \<and>
    peer_recv_inv r' \<and> peer_buffered r' = snd (peer_parse (peer_buffered r))"
  using assms
proof (induction n arbitrary: r ms)
  case (Suc n)
  define buf len where "buf = pr_RecvBuf r" and "len = pr_iRecvBufLen r"
  let ?bs = "peer_buffered r" and ?full = "ucast (get32 buf 4 + of_nat PEER_PACKET_HEAD :: u32) :: u16"
  have b: "length buf = MAX_PEER_BUFFER" "unat len \<le> MAX_PEER_BUFFER" "?bs = take (unat len) buf"
    using Suc.prems(1) by (simp_all add: peer_recv_inv_def peer_buffered_def buf_def len_def)
  have lb: "length ?bs = unat len" using b by simp
  note cut = cut_peer_packets.simps(2) [of log_disp n r ms, folded buf_def len_def]
  show ?case
  proof (cases "PEER_PACKET_HEAD \<le> unat len")
    case False
    then show ?thesis using Suc.prems(1) lb cut by (auto simp: pd.parse_stop)
  next
    case True
    have h: "peer_full ?bs = unat (get32 buf 4) + PEER_PACKET_HEAD" using True b(3) by (simp add: peer_full_def get32_take)
    have "peer_full ?bs < 65536"
      using Suc.prems(2) True lb pd.heads_step [of ?bs] pd.heads_stop(2) [of ?bs] by (cases "peer_full ?bs \<le> length ?bs") auto
    then have full: "unat ?full = peer_full ?bs"
      using h by (simp add: unat_ucast_down16) (subst unat_add_no_wrap, simp_all)
    show ?thesis
    proof (cases "peer_full ?bs \<le> unat len")
      case False
      then have "\<not> ucast ?full \<le> len" using full by (simp add: word_le_nat_alt)
      then show ?thesis using Suc.prems(1) True False lb cut by (auto simp: pd.parse_stop)
    next
      case ge: True
      let ?len = "len - ucast ?full"
      have le: "ucast ?full \<le> len" using ge full by (simp add: word_le_nat_alt)
      have len': "unat ?len = unat len - peer_full ?bs" using unat_sub_le [OF le] full by simp
      define buf1 where "buf1 = (if ucast ?full < len then drop (unat ?full) (take (unat len) buf) @ drop (unat len - unat ?full) buf else buf)"
      have d: "log_disp (get16 buf 0) (get16 buf 2) (get32 buf 4) (drop PEER_PACKET_HEAD buf) ms = Some (True, ms @ [peer_dec ?bs])"
        using True ge h b by (simp add: log_disp_def peer_dec_def get16_take get32_take drop_take)
      have cp: "cut_peer_packets log_disp (Suc n) r ms = cut_peer_packets log_disp n \<lparr>pr_iRecvBufLen = ?len, pr_RecvBuf = buf1\<rparr> (ms @ [peer_dec ?bs])"
        unfolding cut using True le d ge full b(1,2)
        by (auto simp: memmove_def memcpy_Some buf1_def drop_take word_less_nat_alt)
      let ?r = "\<lparr>pr_iRecvBufLen = ?len, pr_RecvBuf = buf1\<rparr>"
      have t1: "take (unat ?len) buf1 = drop (peer_full ?bs) ?bs" "length buf1 = MAX_PEER_BUFFER"
        using b ge full len' by (auto simp: buf1_def word_less_nat_alt)
      have r1: "peer_recv_inv ?r" "peer_buffered ?r = drop (peer_full ?bs) ?bs"
        using t1 len' b(2) by (simp_all add: peer_recv_inv_def peer_buffered_def)
      have hk: "heads_below PEER_PACKET_HEAD peer_full 65536 (peer_buffered ?r)"
        using Suc.prems(2) True ge lb pd.heads_step [of ?bs] r1(2) by simp
      have "unat (pr_iRecvBufLen ?r) < n" using len' Suc.prems(3) True ge h by (simp add: len_def)
      from Suc.IH [OF r1(1) hk this, of "ms @ [peer_dec ?bs]"] r1(2) show ?thesis
        unfolding cp using pd.parse_step [of ?bs] True ge lb by auto
    qed
  qed
qed simp

lemma OnPeerData_refines:
  assumes I: "peer_recv_inv r" and fit: "length (peer_buffered r) + length c \<le> MAX_PEER_BUFFER"
    and ok: "heads_below PEER_PACKET_HEAD peer_full 65536 (peer_buffered r @ c)" and fuel: "MAX_PEER_BUFFER + 2 \<le> fuel"
  shows "\<exists>r'. OnPeerData_loop log_disp fuel r (of_nat (length c)) c 0 ms = Some (Returned, r', ms @ fst (peer_parse (peer_buffered r @ c))) \<and>
    peer_recv_inv r' \<and> peer_buffered r' = snd (peer_parse (peer_buffered r @ c))"
proof -
  obtain n where n: "fuel = Suc n" "MAX_PEER_BUFFER < n" using fuel by (cases fuel) auto
  let ?l = "pr_iRecvBufLen r" and ?c = "of_nat (length c) :: u32"
  have b: "length (pr_RecvBuf r) = MAX_PEER_BUFFER" "unat ?l \<le> MAX_PEER_BUFFER" "length (peer_buffered r) = unat ?l"
    using I by (simp_all add: peer_recv_inv_def peer_buffered_def)
  have c: "unat ?c = length c" using fit by (simp add: unat_of_nat_less)
  have lc: "unat (?l + ?c) = unat ?l + length c" using b fit c by (subst unat_add_no_wrap) simp_all
  then have le: "?l + ?c \<le> 65536" using fit b by (simp add: word_le_nat_alt)
  let ?buf = "take (unat ?l) (pr_RecvBuf r) @ c @ drop (unat ?l + length c) (pr_RecvBuf r)"
  let ?r = "\<lparr>pr_iRecvBufLen = ?l + ?c, pr_RecvBuf = ?buf\<rparr>"
  have r1: "peer_recv_inv ?r" "peer_buffered ?r = peer_buffered r @ c"
    using b fit lc by (simp_all add: peer_recv_inv_def peer_buffered_def)
  have "unat (pr_iRecvBufLen ?r) < n" using lc fit b n by simp
  from cut_peer_refines [OF r1(1) _ this, of ms] ok r1(2) obtain r' where
    "cut_peer_packets log_disp n ?r ms = Some (Returned, r', ms @ fst (peer_parse (peer_buffered r @ c)))"
    "peer_recv_inv r'" "peer_buffered r' = snd (peer_parse (peer_buffered r @ c))" by auto
  then show ?thesis using n c le b fit by (simp add: Let_def memcpy_Some)
qed

text \<open>What is recorded is what any dispatcher is given.\<close>

lemma cut_peer_log:
  assumes "local_disp disp" "cut_peer_packets log_disp n r ms = Some (out, r', ms')"
  shows "\<exists>ps. ms' = ms @ ps \<and> (\<forall>s s'. deliver_all disp ps s = Some s' \<longrightarrow> cut_peer_packets disp n r s = Some (out, r', s'))"
  using assms(2)
proof (induction n arbitrary: r ms)
  case (Suc n)
  let ?buf = "pr_RecvBuf r" and ?len = "pr_iRecvBufLen r"
  define full where "full = (ucast (get32 ?buf 4 + of_nat PEER_PACKET_HEAD :: u32) :: u16)"
  note cut = cut_peer_packets.simps(2) [of _ n r, unfolded Let_def, folded full_def]
  show ?case
  proof (cases "PEER_PACKET_HEAD \<le> unat ?len \<and> ucast full \<le> ?len")
    case False
    then show ?thesis using Suc.prems unfolding cut by (auto split: if_splits)
  next
    case True
    then obtain buf where buf: "(if ucast full < ?len then memmove ?buf 0 (unat full) (unat ?len - unat full) else Some ?buf) = Some buf"
      and c: "cut_peer_packets log_disp n \<lparr>pr_iRecvBufLen = ?len - ucast full, pr_RecvBuf = buf\<rparr> (ms @ [peer_dec ?buf]) = Some (out, r', ms')"
      using Suc.prems unfolding cut by (auto simp: log_disp_dec simp del: of_nat_numeral split: Option.bind_splits)
    from Suc.IH [OF c] obtain ps where ps: "ms' = (ms @ [peer_dec ?buf]) @ ps"
      "\<And>s s'. deliver_all disp ps s = Some s' \<Longrightarrow> cut_peer_packets disp n \<lparr>pr_iRecvBufLen = ?len - ucast full, pr_RecvBuf = buf\<rparr> s = Some (out, r', s')"
      by blast
    have "cut_peer_packets disp (Suc n) r s = Some (out, r', s')" if "deliver_all disp (peer_dec ?buf # ps) s = Some s'" for s s'
    proof -
      from that obtain s1 where "disp (get16 ?buf 0) (get16 ?buf 2) (get32 ?buf 4) (take (unat (get32 ?buf 4)) (drop PEER_PACKET_HEAD ?buf)) s = Some (True, s1)"
        "deliver_all disp ps s1 = Some s'"
        by (auto simp: peer_dec_def split: Option.bind_splits if_splits)
      then show ?thesis unfolding cut using True buf ps(2) assms(1) by (simp add: local_disp_def)
    qed
    then show ?thesis using ps(1) by (intro exI [of _ "peer_dec ?buf # ps"]) simp
  qed
qed auto

lemma deliver_append: "deliver_all disp (xs @ ys) s = (deliver_all disp xs s \<bind> deliver_all disp ys)"
  by (induction xs arbitrary: s) (auto split: Option.bind_splits)

lemma OnPeerData_log:
  assumes "local_disp disp" "OnPeerData_loop log_disp n r iLen pBuf off ms = Some (Returned, r', ms')"
  shows "\<exists>ps. ms' = ms @ ps \<and> (\<forall>s s'. deliver_all disp ps s = Some s' \<longrightarrow> OnPeerData_loop disp n r iLen pBuf off s = Some (Returned, r', s'))"
  using assms(2)
proof (induction n arbitrary: r iLen off ms)
  case (Suc n)
  define iCopyLen where "iCopyLen = (if pr_iRecvBufLen r + iLen \<le> of_nat MAX_PEER_BUFFER then iLen else pr_iRecvBufLen r + iLen - of_nat MAX_PEER_BUFFER)"
  from Suc.prems obtain buf r1 ms1 where buf: "memcpy (pr_RecvBuf r) (unat (pr_iRecvBufLen r)) pBuf off (unat iCopyLen) = Some buf"
    and c: "cut_peer_packets log_disp n \<lparr>pr_iRecvBufLen = pr_iRecvBufLen r + iCopyLen, pr_RecvBuf = buf\<rparr> ms = Some (Returned, r1, ms1)"
    and l: "(if iLen - iCopyLen \<noteq> 0 then OnPeerData_loop log_disp n r1 (iLen - iCopyLen) pBuf (off + unat iCopyLen) ms1 else Some (Returned, r1, ms1)) = Some (Returned, r', ms')"
    unfolding OnPeerData_loop.simps Let_def iCopyLen_def [symmetric] by (auto split: Option.bind_splits if_splits)
  from cut_peer_log [OF assms(1) c] obtain ps where ps: "ms1 = ms @ ps"
    "\<And>s s'. deliver_all disp ps s = Some s' \<Longrightarrow> cut_peer_packets disp n \<lparr>pr_iRecvBufLen = pr_iRecvBufLen r + iCopyLen, pr_RecvBuf = buf\<rparr> s = Some (Returned, r1, s')"
    by blast
  show ?case
  proof (cases "iLen - iCopyLen = 0")
    case True
    then have "OnPeerData_loop disp (Suc n) r iLen pBuf off s = Some (Returned, r', s')" if "deliver_all disp ps s = Some s'" for s s'
      unfolding OnPeerData_loop.simps Let_def iCopyLen_def [symmetric] using buf ps(2) [OF that] l by simp
    then show ?thesis using l ps(1) True by auto
  next
    case False
    with l have "OnPeerData_loop log_disp n r1 (iLen - iCopyLen) pBuf (off + unat iCopyLen) ms1 = Some (Returned, r', ms')" by simp
    from Suc.IH [OF this] obtain qs where qs: "ms' = ms1 @ qs"
      "\<And>s s'. deliver_all disp qs s = Some s' \<Longrightarrow> OnPeerData_loop disp n r1 (iLen - iCopyLen) pBuf (off + unat iCopyLen) s = Some (Returned, r', s')"
      by blast
    have "OnPeerData_loop disp (Suc n) r iLen pBuf off s = Some (Returned, r', s')" if d: "deliver_all disp (ps @ qs) s = Some s'" for s s'
    proof -
      from d obtain s1 where "deliver_all disp ps s = Some s1" "deliver_all disp qs s1 = Some s'" by (auto simp: deliver_append split: Option.bind_splits)
      then show ?thesis unfolding OnPeerData_loop.simps Let_def iCopyLen_def [symmetric] using buf ps(2) qs(2) False by simp
    qed
    then show ?thesis using qs(1) ps(1) by (intro exI [of _ "ps @ qs"]) simp
  qed
qed simp

definition OnPeerData_msgs :: "nat \<Rightarrow> byte list \<Rightarrow> PeerRecv \<Rightarrow> (PeerMsg list \<times> PeerRecv) option" where
  "OnPeerData_msgs fuel c r = (case OnPeerData_loop log_disp fuel r (of_nat (length c)) c 0 [] of
     Some (Returned, r', ms) \<Rightarrow> Some (ms, r') | _ \<Rightarrow> None)"

interpretation pd_recv: frame_receiver PEER_PACKET_HEAD peer_full peer_dec peer_enc peer_wf peer_recv_inv peer_buffered
  "OnPeerData_msgs (MAX_PEER_BUFFER + 2 + k)" MAX_PEER_BUFFER 65536 for k
proof unfold_locales
  fix r c
  assume "peer_recv_inv r" "length (peer_buffered r) + length c \<le> MAX_PEER_BUFFER" "heads_below PEER_PACKET_HEAD peer_full 65536 (peer_buffered r @ c)"
  from OnPeerData_refines [OF this, of "MAX_PEER_BUFFER + 2 + k" "[]"] show "\<exists>r'. OnPeerData_msgs (MAX_PEER_BUFFER + 2 + k) c r =
      Some (fst (peer_parse (peer_buffered r @ c)), r') \<and> peer_recv_inv r' \<and> peer_buffered r' = snd (peer_parse (peer_buffered r @ c))"
    by (auto simp: OnPeerData_msgs_def)
qed

text \<open>A sequence of receives.\<close>

primrec receive_peer :: "(u16 \<Rightarrow> u16 \<Rightarrow> u32 \<Rightarrow> byte list \<Rightarrow> 's \<Rightarrow> (bool \<times> 's) option) \<Rightarrow> nat \<Rightarrow> byte list list \<Rightarrow> PeerRecv \<Rightarrow> 's \<Rightarrow> (PeerRecv \<times> 's) option" where
  "receive_peer disp fuel [] r s = Some (r, s)"
| "receive_peer disp fuel (c # cs) r s = do {
     (out, r, s) \<leftarrow> OnPeerData_loop disp fuel r (of_nat (length c)) c 0 s;
     if out = Returned then receive_peer disp fuel cs r s else None
   }"

lemma receive_peer_feed:
  assumes "local_disp disp"
  shows "feed (OnPeerData_msgs fuel) cs r = Some (ms, r') \<Longrightarrow> deliver_all disp ms s = Some s' \<Longrightarrow> receive_peer disp fuel cs r s = Some (r', s')"
proof (induction cs arbitrary: r ms s)
  case (Cons c cs)
  from Cons.prems(1) obtain ms1 r1 ms2 where m: "OnPeerData_msgs fuel c r = Some (ms1, r1)" "feed (OnPeerData_msgs fuel) cs r1 = Some (ms2, r')" "ms = ms1 @ ms2"
    by (auto split: Option.bind_splits)
  from m(1) have l: "OnPeerData_loop log_disp fuel r (of_nat (length c)) c 0 [] = Some (Returned, r1, ms1)"
    by (auto simp: OnPeerData_msgs_def split: option.splits peer_outcome.splits)
  from Cons.prems(2) m(3) obtain s1 where s1: "deliver_all disp ms1 s = Some s1" "deliver_all disp ms2 s1 = Some s'"
    by (auto simp: deliver_append split: Option.bind_splits)
  from OnPeerData_log [OF assms l] s1(1) Cons.IH [OF m(2) s1(2)] show ?case by auto
qed simp

section \<open>Properties\<close>

text \<open>C6: Messages between servers.  A peer sends well-formed messages of at most \<open>K < 65536\<close> bytes with their headers, the network cuts
  the byte stream into pieces of at most \<open>65537 - K\<close> bytes in any way (longer ones take the faulty split in \<open>peer_client.cpp\<close>), and so far a
  prefix has arrived.  The message functions depend on the message and their state only and accept every message.  Then \<open>OnPeerData\<close>
  returns every time without leaving its arrays; what the message functions have done is what they do when they are given the first
  messages, unchanged and in order; the bytes not yet handled are exactly those buffered; and when everything has arrived every message
  has been handled.\<close>
theorem peer_reassembly:
  assumes wf: "\<forall>m \<in> set ms. peer_wf m \<and> length (peer_enc m) \<le> K" and K: "K < MAX_PEER_BUFFER"
    and cs: "concat cs @ rest = concat (map peer_enc ms)" "\<forall>c \<in> set cs. length c + K \<le> MAX_PEER_BUFFER + 1"
    and r: "peer_recv_inv r" "peer_buffered r = []" and fuel: "MAX_PEER_BUFFER + 2 \<le> fuel"
    and disp: "local_disp disp" "deliver_all disp ms s = Some s1"
  shows "\<exists>n r' s'. receive_peer disp fuel cs r s = Some (r', s') \<and> deliver_all disp (take n ms) s = Some s' \<and>
    concat cs = concat (map peer_enc (take n ms)) @ peer_buffered r' \<and> (rest = [] \<longrightarrow> take n ms = ms)"
proof -
  obtain k where k: "fuel = MAX_PEER_BUFFER + 2 + k" using fuel le_Suc_ex by blast
  have "K \<le> MAX_PEER_BUFFER" using K by simp
  from pd_recv.reassembly [OF wf this K cs r, of k] obtain n r' where
    n: "feed (OnPeerData_msgs fuel) cs r = Some (take n ms, r')" "concat cs = concat (map peer_enc (take n ms)) @ peer_buffered r'" "rest = [] \<longrightarrow> take n ms = ms"
    using k by blast
  have "deliver_all disp (take n ms @ drop n ms) s = Some s1" using disp(2) by simp
  then obtain s' where "deliver_all disp (take n ms) s = Some s'" by (simp only: deliver_append) (auto split: Option.bind_splits)
  then show ?thesis using receive_peer_feed [OF disp(1) n(1)] n(2,3) by blast
qed

definition demo_filter :: "nat PeerDispatchFilter" where
  "demo_filter = \<lparr>pf_iFuncCount = 1, pf_pFunc = (\<lambda>i k st s. Some (True, s + unat (pi_iDataLength st)))\<rparr>"

definition peer_msg :: "u16 \<Rightarrow> u16 \<Rightarrow> byte list \<Rightarrow> PeerMsg" where
  "peer_msg f g bs = \<lparr>pm_iFilterId = f, pm_iFuncId = g, pm_iLen = of_nat (length bs), pm_Buf = bs\<rparr>"

theorem peer_reassembly_witness:
  "\<exists>r'. receive_peer (PeerClient_Dispatch [demo_filter] 7) 65538 [take 3 (peer_enc (peer_msg 0 0 [1, 2])), drop 3 (peer_enc (peer_msg 0 0 [1, 2])) @ peer_enc (peer_msg 0 0 [3])]
     \<lparr>pr_iRecvBufLen = 0, pr_RecvBuf = replicate 65536 0\<rparr> 0 = Some (r', 3)"
proof -
  let ?ms = "[peer_msg 0 0 [1, 2], peer_msg 0 0 [3]]" and ?r = "\<lparr>pr_iRecvBufLen = 0, pr_RecvBuf = replicate 65536 0\<rparr>"
  let ?disp = "PeerClient_Dispatch [demo_filter] 7" and ?cs = "[take 3 (peer_enc (peer_msg 0 0 [1, 2])), drop 3 (peer_enc (peer_msg 0 0 [1, 2])) @ peer_enc (peer_msg 0 0 [3])]"
  have l: "local_disp ?disp" by (simp add: local_disp_def PeerClient_Dispatch_def GetFilter_def demo_filter_def PeerInputStream_new_def)
  have d: "deliver_all ?disp ?ms 0 = Some 3" by (simp add: PeerClient_Dispatch_def GetFilter_def demo_filter_def PeerInputStream_new_def peer_msg_def)
  have w: "\<forall>m \<in> set ?ms. peer_wf m \<and> length (peer_enc m) \<le> 10" by (simp add: peer_wf_def enc_fields peer_msg_def)
  have c: "concat ?cs @ [] = concat (map peer_enc ?ms)" "\<forall>c \<in> set ?cs. length c + 10 \<le> MAX_PEER_BUFFER + 1" by (simp_all add: enc_fields peer_msg_def)
  have r: "peer_recv_inv ?r" "peer_buffered ?r = []" by (simp_all add: peer_recv_inv_def peer_buffered_def)
  from peer_reassembly [OF w _ c r _ l d, of 65538] obtain n r' s' where
    "receive_peer ?disp 65538 ?cs ?r 0 = Some (r', s')" "deliver_all ?disp (take n ?ms) 0 = Some s'" "take n ?ms = ?ms" by auto
  then show ?thesis using d by (metis option.inject)
qed

section \<open>Writing and reading messages\<close>

primrec serialize_all :: "ptr \<Rightarrow> byte list list \<Rightarrow> psn \<Rightarrow> (bool \<times> psn) option" where
  "serialize_all q [] s = Some (True, s)"
| "serialize_all q (v # vs) s = do { (ok, s) \<leftarrow> PeerOutputStream_Serialize q v s; if ok then serialize_all q vs s else Some (False, s) }"

primrec peer_read_all :: "nat list \<Rightarrow> PeerInputStream \<Rightarrow> byte list list option" where
  "peer_read_all [] st = Some []"
| "peer_read_all (n # ns) st = do { ((ok, v), st) \<leftarrow> PeerInputStream_Serialize n st; vs \<leftarrow> peer_read_all ns st; Some (v # vs) }"

text \<open>The packet in the buffer of context \<open>q\<close> so far: its header and the bytes written.\<close>

definition msg_in :: "ptr \<Rightarrow> psn \<Rightarrow> u16 \<Rightarrow> u16 \<Rightarrow> byte list \<Rightarrow> bool" where
  "msg_in q s f g bs \<longleftrightarrow> (case sn_ctxs s q of None \<Rightarrow> False | Some x \<Rightarrow>
     length (k_buffer x) = ADDR_BUFFER + MAX_OUTPUT_BUFFER + BUFEXTENT \<and> length bs \<le> MAX_PEER_BUFFER \<and>
     take (PEER_PACKET_HEAD + length bs) (k_buffer x) = le16 f @ le16 g @ le32 (of_nat (length bs)) @ bs)"

lemma msg_inE:
  assumes "msg_in q s f g bs"
  obtains x tail where "sn_ctxs s q = Some x" "k_buffer x = le16 f @ le16 g @ le32 (of_nat (length bs)) @ bs @ tail"
    "length bs \<le> MAX_PEER_BUFFER" "8 + length bs + length tail = 66588"
proof -
  from assms obtain x where x: "sn_ctxs s q = Some x" "length (k_buffer x) = 66588" "length bs \<le> MAX_PEER_BUFFER"
    "take (8 + length bs) (k_buffer x) = le16 f @ le16 g @ le32 (of_nat (length bs)) @ bs"
    by (auto simp: msg_in_def split: option.splits)
  have "k_buffer x = take (8 + length bs) (k_buffer x) @ drop (8 + length bs) (k_buffer x)" by simp
  then have b: "k_buffer x = le16 f @ le16 g @ le32 (of_nat (length bs)) @ bs @ drop (8 + length bs) (k_buffer x)" unfolding x(4) by simp
  show thesis by (rule that [OF x(1) b x(3)]) (use x(2,3) in simp)
qed

lemma msg_inI:
  "sn_ctxs s q = Some x \<Longrightarrow> k_buffer x = le16 f @ le16 g @ le32 (of_nat (length bs)) @ bs @ tail \<Longrightarrow> length bs \<le> MAX_PEER_BUFFER \<Longrightarrow>
     8 + length bs + length tail = 66588 \<Longrightarrow> msg_in q s f g bs"
  by (simp add: msg_in_def)

lemma pkt_iLen_in: "msg_in q s f g bs \<Longrightarrow> pkt_iLen q s = Some (of_nat (length bs))"
  by (erule msg_inE) (simp add: pkt_iLen_def get32_le32 [of _ "[]", simplified])

lemma Serialize_in:
  assumes m: "msg_in q s f g bs" and l: "length bs + length v \<le> MAX_PEER_BUFFER"
  shows "\<exists>s'. PeerOutputStream_Serialize q v s = Some (True, s') \<and> msg_in q s' f g (bs @ v)"
proof -
  from m obtain x tail where x: "sn_ctxs s q = Some x" "k_buffer x = le16 f @ le16 g @ le32 (of_nat (length bs)) @ bs @ tail"
    "length bs \<le> MAX_PEER_BUFFER" "8 + length bs + length tail = 66588" by (rule msg_inE)
  have u: "unat (of_nat (length bs) :: u32) = length bs" using x(3) by (simp add: unat_of_nat_less)
  have w: "(of_nat (length bs) + of_nat (length v) :: u32) \<le> 65536"
  proof -
    have "unat (of_nat (length bs + length v) :: u32) = length bs + length v" using l by (simp add: unat_of_nat_less del: of_nat_add)
    then show ?thesis using l by (simp add: word_le_nat_alt)
  qed
  let ?b1 = "le16 f @ le16 g @ le32 (of_nat (length bs)) @ bs @ v @ drop (length v) tail"
  let ?b2 = "le16 f @ le16 g @ le32 (of_nat (length bs) + of_nat (length v)) @ bs @ v @ drop (length v) tail"
  have 1: "pkt_write q (8 + length bs) v s = Some (s\<lparr>sn_ctxs := (sn_ctxs s)(q \<mapsto> x\<lparr>k_buffer := ?b1\<rparr>)\<rparr>)"
    using x l by (simp add: pkt_write_def sn_upd_ctx_def)
  let ?s1 = "s\<lparr>sn_ctxs := (sn_ctxs s)(q \<mapsto> x\<lparr>k_buffer := ?b1\<rparr>)\<rparr>"
  have 2: "pkt_write q 4 (le32 (of_nat (length bs) + of_nat (length v))) ?s1 = Some (s\<lparr>sn_ctxs := (sn_ctxs s)(q \<mapsto> x\<lparr>k_buffer := ?b2\<rparr>)\<rparr>)"
    using x l by (simp add: pkt_write_def sn_upd_ctx_def)
  have 3: "PeerOutputStream_Serialize q v s = Some (True, s\<lparr>sn_ctxs := (sn_ctxs s)(q \<mapsto> x\<lparr>k_buffer := ?b2\<rparr>)\<rparr>)"
    using 1 2 w u by (simp add: PeerOutputStream_Serialize_def pkt_iLen_in [OF m])
  have "msg_in q (s\<lparr>sn_ctxs := (sn_ctxs s)(q \<mapsto> x\<lparr>k_buffer := ?b2\<rparr>)\<rparr>) f g (bs @ v)"
    by (rule msg_inI [where x = "x\<lparr>k_buffer := ?b2\<rparr>" and tail = "drop (length v) tail"]) (use x l in simp_all)
  with 3 show ?thesis by blast
qed

lemma serialize_all_in:
  assumes "msg_in q s f g bs" "length bs + length (concat vs) \<le> MAX_PEER_BUFFER"
  shows "\<exists>s'. serialize_all q vs s = Some (True, s') \<and> msg_in q s' f g (bs @ concat vs)"
  using assms
proof (induction vs arbitrary: s bs)
  case (Cons v vs)
  then obtain s1 where "PeerOutputStream_Serialize q v s = Some (True, s1)" "msg_in q s1 f g (bs @ v)"
    using Serialize_in [of q s f g bs v] by auto
  with Cons.IH [of s1 "bs @ v"] Cons.prems(2) show ?case by auto
qed auto

lemma peer_read_all_at:
  assumes "unat (pi_iDataLength st) = length bs" "unat (pi_iDataIndex st) = i" "drop i bs = concat vs" "i \<le> length bs"
    "pi_DataBuffer st = bs @ tail"
  shows "peer_read_all (map length vs) st = Some vs"
  using assms
proof (induction vs arbitrary: st i)
  case (Cons v vs)
  have l: "length bs = i + length v + length (concat vs)" using Cons.prems(3,4) by (metis append_take_drop_id concat.simps(2) length_append length_take min.absorb2 add.assoc)
  have d: "unat (pi_iDataLength st - pi_iDataIndex st) = length bs - i" using Cons.prems l by (subst unat_sub_le) (auto simp: word_le_nat_alt)
  have v: "take (length v) (drop i (bs @ tail)) = v" using Cons.prems(3,4) by simp
  have n: "unat (pi_iDataIndex st + of_nat (length v)) = i + length v"
  proof -
    have lt: "i + length v < 2 ^ 32" using l Cons.prems(1) unat_less_u32 [of "pi_iDataLength st"] by simp
    then have "unat (of_nat (length v) :: u32) = length v" by (simp add: unat_of_nat_less)
    then show ?thesis using lt Cons.prems(2) by (subst unat_add_no_wrap) simp_all
  qed
  let ?st = "st\<lparr>pi_iDataIndex := pi_iDataIndex st + of_nat (length v)\<rparr>"
  have "drop (length v) (drop i bs) = concat vs" using Cons.prems(3) by simp
  then have dv: "drop (i + length v) bs = concat vs" by (simp add: add.commute)
  have "peer_read_all (map length vs) ?st = Some vs"
    by (rule Cons.IH [of ?st "i + length v"]) (use Cons.prems n l dv in simp_all)
  then show ?case using d l v Cons.prems(2,5) by (simp add: PeerInputStream_Serialize_def)
qed simp

text \<open>A new stream: a context of the pool of the peer servers, with an empty message.\<close>

definition peer_pool_ok :: "sn_os \<Rightarrow> psn \<Rightarrow> bool" where
  "peer_pool_ok os s \<longleftrightarrow> 0 < sn_next s \<and> sno_malloc os (sn_tick s) \<and>
     (case sn_pools s (pss_pContextPool (pe_sset (sn_app s))) of None \<Rightarrow> False | Some pool \<Rightarrow>
        cp_output_buffer_size pool = of_nat MAX_OUTPUT_BUFFER \<and>
        (\<forall>q \<in> set (cp_output_context_pool pool). q \<noteq> NULL \<and>
           map_option (length \<circ> k_buffer) (sn_ctxs s q) = Some (ADDR_BUFFER + MAX_OUTPUT_BUFFER + BUFEXTENT)))"

definition start_message :: "sn_os \<Rightarrow> u16 \<Rightarrow> u16 \<Rightarrow> psn \<Rightarrow> (ptr \<times> psn) option" where
  "start_message os f g s = do { (q, s) \<leftarrow> PeerOutputStream_new os s; s \<leftarrow> PeerOutputStream_SetId q f g s; Some (q, s) }"

lemma pop_full:
  assumes "peer_pool_ok os s"
  shows "\<exists>q s1 x. PopOutputBuffer os (pss_pContextPool (pe_sset (sn_app s))) s = Some (q, s1) \<and> q \<noteq> NULL \<and> sn_ctxs s1 q = Some x \<and>
    length (k_buffer x) = ADDR_BUFFER + MAX_OUTPUT_BUFFER + BUFEXTENT"
proof -
  from assms obtain pool where p: "sn_pools s (pss_pContextPool (pe_sset (sn_app s))) = Some pool"
    "cp_output_buffer_size pool = of_nat MAX_OUTPUT_BUFFER" "0 < sn_next s" "sno_malloc os (sn_tick s)"
    "\<forall>q \<in> set (cp_output_context_pool pool). q \<noteq> NULL \<and> map_option (length \<circ> k_buffer) (sn_ctxs s q) = Some (ADDR_BUFFER + MAX_OUTPUT_BUFFER + BUFEXTENT)"
    by (auto simp: peer_pool_ok_def split: option.splits)
  show ?thesis
  proof (cases "cp_output_context_pool pool")
    case Nil
    then show ?thesis using p by (simp add: PopOutputBuffer_def PopOutputContext_def sn_malloc_ctx_def sn_call_def sn_upd_ctx_def sn_upd_pool_def)
  next
    case (Cons q qs)
    then have "q \<noteq> NULL" "map_option (length \<circ> k_buffer) (sn_ctxs s q) = Some (ADDR_BUFFER + MAX_OUTPUT_BUFFER + BUFEXTENT)" using p(5) by auto
    then show ?thesis using p Cons by (auto simp: PopOutputBuffer_def PopOutputContext_def)
  qed
qed

lemma start_message_in:
  assumes "peer_pool_ok os s"
  shows "\<exists>q s1. start_message os f g s = Some (q, s1) \<and> q \<noteq> NULL \<and> msg_in q s1 f g []"
proof -
  from pop_full [OF assms] obtain q s1 x where q: "PopOutputBuffer os (pss_pContextPool (pe_sset (sn_app s))) s = Some (q, s1)" "q \<noteq> NULL"
    "sn_ctxs s1 q = Some x" "length (k_buffer x) = 66588" by auto
  let ?b = "le16 f @ le16 g @ le32 0 @ drop 8 (k_buffer x)"
  have "start_message os f g s = Some (q, s1\<lparr>sn_ctxs := (sn_ctxs s1)(q \<mapsto> x\<lparr>k_buffer := ?b\<rparr>)\<rparr>)"
    using q by (simp add: start_message_def PeerOutputStream_new_def PeerOutputStream_SetId_def pkt_write_def sn_upd_ctx_def)
  moreover have "msg_in q (s1\<lparr>sn_ctxs := (sn_ctxs s1)(q \<mapsto> x\<lparr>k_buffer := ?b\<rparr>)\<rparr>) f g []"
    by (rule msg_inI [where x = "x\<lparr>k_buffer := ?b\<rparr>" and tail = "drop 8 (k_buffer x)"]) (use q(4) in simp_all)
  ultimately show ?thesis using q(2) by blast
qed

text \<open>C12: Messages are read as they were written.  Any values of up to 65536 bytes in total can be written into a new stream; the
  buffer then holds the message with its header, and reading values of the same sizes from the receiving stream gives
  them back, whatever follows the message in the receive buffer.\<close>
theorem peer_stream_roundtrip:
  assumes "peer_pool_ok os s" "length (concat vs) \<le> MAX_PEER_BUFFER"
  shows "\<exists>q s1 s' x. start_message os f g s = Some (q, s1) \<and> serialize_all q vs s1 = Some (True, s') \<and> sn_ctxs s' q = Some x \<and>
    take (length (peer_enc (peer_msg f g (concat vs)))) (k_buffer x) = peer_enc (peer_msg f g (concat vs)) \<and> peer_wf (peer_msg f g (concat vs)) \<and>
    peer_read_all (map length vs) (PeerInputStream_new (pm_iLen (peer_msg f g (concat vs))) (pm_Buf (peer_msg f g (concat vs)) @ tail)) = Some vs"
proof -
  obtain q s1 where q: "start_message os f g s = Some (q, s1)" "msg_in q s1 f g []" using start_message_in [OF assms(1)] by blast
  from serialize_all_in [OF q(2), of vs] assms(2) obtain s' where s': "serialize_all q vs s1 = Some (True, s')" "msg_in q s' f g (concat vs)" by auto
  from s'(2) obtain x tl where x: "sn_ctxs s' q = Some x" "k_buffer x = le16 f @ le16 g @ le32 (of_nat (length (concat vs))) @ concat vs @ tl"
    by (rule msg_inE)
  have u: "unat (of_nat (length (concat vs)) :: u32) = length (concat vs)" using assms(2) by (simp add: unat_of_nat_less)
  have "take (length (peer_enc (peer_msg f g (concat vs)))) (k_buffer x) = peer_enc (peer_msg f g (concat vs))" "peer_wf (peer_msg f g (concat vs))" using x(2) u by (simp_all add: peer_msg_def peer_enc_def peer_wf_def)
  moreover have "peer_read_all (map length vs) (PeerInputStream_new (pm_iLen (peer_msg f g (concat vs))) (pm_Buf (peer_msg f g (concat vs)) @ tail)) = Some vs"
    by (rule peer_read_all_at [of _ "concat vs" 0 _ tail]) (use u in \<open>simp_all add: PeerInputStream_new_def peer_msg_def\<close>)
  ultimately show ?thesis using q(1) s'(1) x(1) by blast
qed

text \<open>The bytes a send request gives to the kernel.\<close>

definition request_bytes :: "Context \<Rightarrow> byte list" where
  "request_bytes x = take (unat (k_wsabuf_len x)) (drop (k_wsabuf_off x) (k_buffer x))"

text \<open>Sending a message to a connected peer.  When the message with its header fits the output buffers of the pool, 65500 bytes, exactly
  its bytes are given to the kernel in one request, counted in \<open>iorefs_\<close>.  A larger message, which the stream accepts up to
  65536 bytes without its header, is dropped without an error: nothing is requested and the context goes to no list.\<close>
theorem peer_send_outcome:
  assumes m: "msg_in q s f g bs" and x: "sn_ctxs s q = Some x" "k_op x = OPERATION_SEND" "k_wsabuf_off x = 0"
    and pool: "sn_pools s (k_context_pool x) = Some pool" "cp_output_buffer_size pool = of_nat MAX_OUTPUT_BUFFER"
    and peer: "pe_clients (sn_app s) k = Some c" "sn_conns s (pc_ConnId c) = Some cn"
    and ok: "sint (n_iorefs cn) \<le> sint (n_iorefmax cn)" "sno_post os (sn_tick s)"
  shows "if PEER_PACKET_HEAD + length bs \<le> MAX_OUTPUT_BUFFER
    then \<exists>s' x' cn'. PeerOutputStream_SendClient os q k s = Some s' \<and> sn_pending s' = sn_pending s @ [q] \<and> sn_ctxs s' q = Some x' \<and>
      request_bytes x' = peer_enc (peer_msg f g bs) \<and> k_connection x' = pc_ConnId c \<and> sn_conns s' (pc_ConnId c) = Some cn' \<and> n_iorefs cn' = n_iorefs cn + 1
    else PeerOutputStream_SendClient os q k s = Some s"
proof -
  from m obtain tail where b: "k_buffer x = le16 f @ le16 g @ le32 (of_nat (length bs)) @ bs @ tail" "length bs \<le> MAX_PEER_BUFFER"
    using x(1) by (auto elim!: msg_inE)
  have "unat (of_nat (8 + length bs) :: u32) = 8 + length bs" using b(2) by (simp add: unat_of_nat_less del: of_nat_add)
  then have u: "unat (8 + of_nat (length bs) :: u32) = 8 + length bs" by simp
  have le: "(65500 :: u32) < 8 + of_nat (length bs) \<longleftrightarrow> \<not> PEER_PACKET_HEAD + length bs \<le> MAX_OUTPUT_BUFFER" by (simp add: word_less_nat_alt u not_le)
  have nlt: "\<not> sint (n_iorefmax cn) < sint (n_iorefs cn)" using ok(1) by simp
  show ?thesis
    using x pool peer nlt ok(2) u
    by (auto simp: PeerOutputStream_SendClient_def pkt_iLen_in [OF m] Connection_AsyncSendBuf_def Connection_AsyncSend_def sn_upd_ctx_def sn_upd_conn_def
        sn_post_def sn_call_def le request_bytes_def b(1) peer_msg_def peer_enc_def)
qed

section \<open>Examples\<close>

text \<open>A connected peer, and a context with a message of 65493 bytes.\<close>

definition demo_psn :: psn where
  "demo_psn = \<lparr>sn_tick = 0, sn_next = 10, sn_next_sock = 3, sn_socks = (\<lambda>k. k = 1 \<or> k = 2), sn_conns = [3 \<mapsto> demo_conn],
     sn_ctxs = [9 \<mapsto> (demo_ctx OPERATION_SEND 0)\<lparr>k_buffer := le16 1 @ le16 2 @ le32 (of_nat (length (replicate 65493 (5 :: byte)))) @ replicate 65493 5 @ replicate 1087 0\<rparr>],
     sn_pools = [1 \<mapsto> ContextPool_Init 1024 65500], sn_accs = Map.empty, sn_workers = Map.empty, sn_pending = [],
     sn_app = \<lparr>pe_clients = [7 \<mapsto> \<lparr>pc_ConnId = 3, pc_recv = \<lparr>pr_iRecvBufLen = 0, pr_RecvBuf = []\<rparr>\<rparr>], pe_servers = Map.empty,
       pe_cset = \<lparr>pcs_pWorker = 0, pcs_pContextPool = 0, pcs_pAcceptor = 0, pcs_iIP = 0, pcs_iPort = 0, pcs_vPeerClients = [7]\<rparr>,
       pe_sset = \<lparr>pss_pWorker = 0, pss_pContextPool = 1, pss_vPeerServers = []\<rparr>, pe_wsa = \<lparr>wsa_count = 0, wsa_loaded = False, wsa_open = 0\<rparr>\<rparr>\<rparr>"

theorem peer_stream_roundtrip_witness:
  "peer_pool_ok demo_os demo_psn \<and> (\<exists>q s1 s'. start_message demo_os 1 2 demo_psn = Some (q, s1) \<and> serialize_all q [[1, 2], [3]] s1 = Some (True, s')) \<and>
   peer_read_all (map length [[1, 2], [3 :: byte]]) (PeerInputStream_new (pm_iLen (peer_msg 1 2 (concat [[1, 2], [3]]))) (pm_Buf (peer_msg 1 2 (concat [[1, 2], [3]])) @ [9])) =
     Some [[1, 2], [3]]"
proof -
  have p: "peer_pool_ok demo_os demo_psn" by (simp add: peer_pool_ok_def demo_psn_def demo_os_def ContextPool_Init_def)
  have "length (concat [[1, 2], [3 :: byte]]) \<le> MAX_PEER_BUFFER" by simp
  then show ?thesis using p peer_stream_roundtrip [OF p, of "[[1, 2], [3]]" 1 2 "[9]"] by blast
qed

theorem peer_send_outcome_witness:
  "msg_in 9 demo_psn 1 2 (replicate 65493 5) \<and> PeerOutputStream_SendClient demo_os 9 7 demo_psn = Some demo_psn"
proof -
  let ?x = "(demo_ctx OPERATION_SEND 0)\<lparr>k_buffer := le16 1 @ le16 2 @ le32 (of_nat (length (replicate 65493 (5 :: byte)))) @ replicate 65493 5 @ replicate 1087 0\<rparr>"
  have x: "sn_ctxs demo_psn 9 = Some ?x" by (simp add: demo_psn_def)
  have m: "msg_in 9 demo_psn 1 2 (replicate 65493 5)" by (rule msg_inI [OF x, where tail = "replicate 1087 0"]) simp_all
  have "if PEER_PACKET_HEAD + length (replicate 65493 (5 :: byte)) \<le> MAX_OUTPUT_BUFFER
    then \<exists>s' x' cn'. PeerOutputStream_SendClient demo_os 9 7 demo_psn = Some s' \<and> sn_pending s' = sn_pending demo_psn @ [9] \<and> sn_ctxs s' 9 = Some x' \<and>
      request_bytes x' = peer_enc (peer_msg 1 2 (replicate 65493 5)) \<and> k_connection x' = 3 \<and> sn_conns s' 3 = Some cn' \<and> n_iorefs cn' = n_iorefs demo_conn + 1
    else PeerOutputStream_SendClient demo_os 9 7 demo_psn = Some demo_psn"
    using peer_send_outcome [OF m x, of "ContextPool_Init 1024 65500" 7 "\<lparr>pc_ConnId = 3, pc_recv = \<lparr>pr_iRecvBufLen = 0, pr_RecvBuf = []\<rparr>\<rparr>" demo_conn demo_os]
    by (simp add: demo_psn_def demo_ctx_def demo_os_def demo_conn_def ContextPool_Init_def)
  then show ?thesis using m by simp
qed

end
