(* ===== verification/MasterStates.thy ===== *)
theory MasterStates
  imports FSM
begin

text \<open>
  The states of a player on the master server: the enumerations of
  \<open>MasterServer/master_player_context.h\<close> and the machine of \<open>master_player_state.cpp\<close>.

  States and events are integers in the code; the enumerators are constructors here and \<open>st\<close> and \<open>ev\<close>
  give their values.  \<open>master_table\<close> has the states and transitions in the order in which
  \<open>_InitStateMachine\<close> adds them; one of them leads to the number of an event instead of a state.
  \<open>live_states\<close> are the states that the handlers' events reach.
\<close>

datatype player_state =
       PLAYER_STATE_NONE | PLAYER_STATE_ONLOGINREQ | PLAYER_STATE_GATEALLOCREQ | PLAYER_STATE_GATEALLOCACK
     | PLAYER_STATE_GATEALLOCFAILACK | PLAYER_STATE_GATEALLOCNTF | PLAYER_STATE_ONGATELOGINREQ
     | PLAYER_STATE_CACHELOGINREQ | PLAYER_STATE_ONAVATARLISTREQ | PLAYER_STATE_AVATARLISTREQ
     | PLAYER_STATE_ONAVATARLISTACK | PLAYER_STATE_AVATARLISTACK | PLAYER_STATE_ONAVATARCREATEREQ
     | PLAYER_STATE_AVATARCREATEREQ | PLAYER_STATE_ONAVATARCREATEACK | PLAYER_STATE_ONAVATARSELECTREQ
     | PLAYER_STATE_AVATARSELECTREQ | PLAYER_STATE_ONAVATARSELECTACK | PLAYER_STATE_AVATARSELECTACK
     | PLAYER_STATE_CHANNELLISTNTF | PLAYER_STATE_ONCHANNELSELECTREQ | PLAYER_STATE_REGIONALLOCREQ
     | PLAYER_STATE_ONREGIONALLOCACK | PLAYER_STATE_ONREGIONALLOCFAILACK | PLAYER_STATE_CHANNELSELECTACK
     | PLAYER_STATE_CHANNELSELECTFAILACK | PLAYER_STATE_REGIONENTERREQ | PLAYER_STATE_ONCHANNELLEAVEREQ
     | PLAYER_STATE_ONCHANNELLEAVE_ONREGIONLEAVEREQ | PLAYER_STATE_ONCHANNELLEAVE_REGIONLEAVEACK
     | PLAYER_STATE_FINALIZING | PLAYER_STATE_FINALIZING_ONREGIONLEAVEREQ
     | PLAYER_STATE_FINALIZING_REGIONLEAVEACK | PLAYER_STATE_LOGOUT

datatype player_event =
       PLAYER_EVENT_ONLOGINREQ | PLAYER_EVENT_GATEALLOCREQ | PLAYER_EVENT_GATEALLOCACK
     | PLAYER_EVENT_GATEALLOCFAILACK | PLAYER_EVENT_GATEALLOCNTF | PLAYER_EVENT_ONGATELOGINREQ
     | PLAYER_EVENT_ONSESSIONDISCONNECT | PLAYER_EVENT_CACHELOGINREQ | PLAYER_EVENT_ONAVATARLISTREQ
     | PLAYER_EVENT_AVATARLISTREQ | PLAYER_EVENT_ONAVATARLISTACK | PLAYER_EVENT_AVATARLISTACK
     | PLAYER_EVENT_ONAVATARCREATEREQ | PLAYER_EVENT_AVATARCREATEREQ | PLAYER_EVENT_ONAVATARCREATEACK
     | PLAYER_EVENT_AVATARCREATEACK | PLAYER_EVENT_ONAVATARSELECTREQ | PLAYER_EVENT_AVATARSELECTREQ
     | PLAYER_EVENT_ONAVATARSELECTACK | PLAYER_EVENT_AVATARSELECTACK | PLAYER_EVENT_CHANNELLISTNTF
     | PLAYER_EVENT_ONCHANNELSELECTREQ | PLAYER_EVENT_REGIONALLOCREQ | PLAYER_EVENT_ONREGIONALLOCACK
     | PLAYER_EVENT_ONREGIONALLOCFAILACK | PLAYER_EVENT_CHANNELSELECTACK | PLAYER_EVENT_REGIONENTERREQ
     | PLAYER_EVENT_ONCHANNELLEAVEREQ | PLAYER_EVENT_ONREGIONLEAVEREQ | PLAYER_EVENT_REGIONLEAVEACK
     | PLAYER_EVENT_FINALIZE | PLAYER_EVENT_LOGOUT

text \<open>The numbers of the enumerators.\<close>

primrec st :: "player_state \<Rightarrow> int" where
  "st PLAYER_STATE_NONE = 0"
| "st PLAYER_STATE_ONLOGINREQ = 1"
| "st PLAYER_STATE_GATEALLOCREQ = 2"
| "st PLAYER_STATE_GATEALLOCACK = 3"
| "st PLAYER_STATE_GATEALLOCFAILACK = 4"
| "st PLAYER_STATE_GATEALLOCNTF = 5"
| "st PLAYER_STATE_ONGATELOGINREQ = 6"
| "st PLAYER_STATE_CACHELOGINREQ = 7"
| "st PLAYER_STATE_ONAVATARLISTREQ = 8"
| "st PLAYER_STATE_AVATARLISTREQ = 9"
| "st PLAYER_STATE_ONAVATARLISTACK = 10"
| "st PLAYER_STATE_AVATARLISTACK = 11"
| "st PLAYER_STATE_ONAVATARCREATEREQ = 12"
| "st PLAYER_STATE_AVATARCREATEREQ = 13"
| "st PLAYER_STATE_ONAVATARCREATEACK = 14"
| "st PLAYER_STATE_ONAVATARSELECTREQ = 15"
| "st PLAYER_STATE_AVATARSELECTREQ = 16"
| "st PLAYER_STATE_ONAVATARSELECTACK = 17"
| "st PLAYER_STATE_AVATARSELECTACK = 18"
| "st PLAYER_STATE_CHANNELLISTNTF = 19"
| "st PLAYER_STATE_ONCHANNELSELECTREQ = 20"
| "st PLAYER_STATE_REGIONALLOCREQ = 21"
| "st PLAYER_STATE_ONREGIONALLOCACK = 22"
| "st PLAYER_STATE_ONREGIONALLOCFAILACK = 23"
| "st PLAYER_STATE_CHANNELSELECTACK = 24"
| "st PLAYER_STATE_CHANNELSELECTFAILACK = 25"
| "st PLAYER_STATE_REGIONENTERREQ = 26"
| "st PLAYER_STATE_ONCHANNELLEAVEREQ = 27"
| "st PLAYER_STATE_ONCHANNELLEAVE_ONREGIONLEAVEREQ = 28"
| "st PLAYER_STATE_ONCHANNELLEAVE_REGIONLEAVEACK = 29"
| "st PLAYER_STATE_FINALIZING = 30"
| "st PLAYER_STATE_FINALIZING_ONREGIONLEAVEREQ = 31"
| "st PLAYER_STATE_FINALIZING_REGIONLEAVEACK = 32"
| "st PLAYER_STATE_LOGOUT = 33"

primrec ev :: "player_event \<Rightarrow> int" where
  "ev PLAYER_EVENT_ONLOGINREQ = 0"
| "ev PLAYER_EVENT_GATEALLOCREQ = 1"
| "ev PLAYER_EVENT_GATEALLOCACK = 2"
| "ev PLAYER_EVENT_GATEALLOCFAILACK = 3"
| "ev PLAYER_EVENT_GATEALLOCNTF = 4"
| "ev PLAYER_EVENT_ONGATELOGINREQ = 5"
| "ev PLAYER_EVENT_ONSESSIONDISCONNECT = 6"
| "ev PLAYER_EVENT_CACHELOGINREQ = 7"
| "ev PLAYER_EVENT_ONAVATARLISTREQ = 8"
| "ev PLAYER_EVENT_AVATARLISTREQ = 9"
| "ev PLAYER_EVENT_ONAVATARLISTACK = 10"
| "ev PLAYER_EVENT_AVATARLISTACK = 11"
| "ev PLAYER_EVENT_ONAVATARCREATEREQ = 12"
| "ev PLAYER_EVENT_AVATARCREATEREQ = 13"
| "ev PLAYER_EVENT_ONAVATARCREATEACK = 14"
| "ev PLAYER_EVENT_AVATARCREATEACK = 15"
| "ev PLAYER_EVENT_ONAVATARSELECTREQ = 16"
| "ev PLAYER_EVENT_AVATARSELECTREQ = 17"
| "ev PLAYER_EVENT_ONAVATARSELECTACK = 18"
| "ev PLAYER_EVENT_AVATARSELECTACK = 19"
| "ev PLAYER_EVENT_CHANNELLISTNTF = 20"
| "ev PLAYER_EVENT_ONCHANNELSELECTREQ = 21"
| "ev PLAYER_EVENT_REGIONALLOCREQ = 22"
| "ev PLAYER_EVENT_ONREGIONALLOCACK = 23"
| "ev PLAYER_EVENT_ONREGIONALLOCFAILACK = 24"
| "ev PLAYER_EVENT_CHANNELSELECTACK = 25"
| "ev PLAYER_EVENT_REGIONENTERREQ = 26"
| "ev PLAYER_EVENT_ONCHANNELLEAVEREQ = 27"
| "ev PLAYER_EVENT_ONREGIONLEAVEREQ = 28"
| "ev PLAYER_EVENT_REGIONLEAVEACK = 29"
| "ev PLAYER_EVENT_FINALIZE = 30"
| "ev PLAYER_EVENT_LOGOUT = 31"

section \<open>The transitions\<close>

definition master_table :: "(int \<times> (int \<times> int) list) list" where
  "master_table = [
     (st PLAYER_STATE_NONE,
       [(ev PLAYER_EVENT_ONLOGINREQ, st PLAYER_STATE_ONLOGINREQ)]),
     (st PLAYER_STATE_ONLOGINREQ,
       [(ev PLAYER_EVENT_GATEALLOCREQ, st PLAYER_STATE_GATEALLOCREQ),
        (ev PLAYER_EVENT_ONSESSIONDISCONNECT, st PLAYER_STATE_GATEALLOCREQ)]),
     (st PLAYER_STATE_GATEALLOCREQ,
       [(ev PLAYER_EVENT_GATEALLOCACK, st PLAYER_STATE_GATEALLOCACK),
        (ev PLAYER_EVENT_GATEALLOCFAILACK, st PLAYER_STATE_GATEALLOCFAILACK),
        (ev PLAYER_EVENT_ONSESSIONDISCONNECT, st PLAYER_STATE_GATEALLOCACK)]),
     (st PLAYER_STATE_GATEALLOCACK,
       [(ev PLAYER_EVENT_GATEALLOCNTF, st PLAYER_STATE_GATEALLOCNTF),
        (ev PLAYER_EVENT_ONSESSIONDISCONNECT, st PLAYER_STATE_GATEALLOCACK)]),
     (st PLAYER_STATE_GATEALLOCFAILACK,
       [(ev PLAYER_EVENT_ONSESSIONDISCONNECT, st PLAYER_STATE_GATEALLOCFAILACK)]),
     (st PLAYER_STATE_GATEALLOCNTF,
       [(ev PLAYER_EVENT_ONGATELOGINREQ, st PLAYER_STATE_ONGATELOGINREQ),
        (ev PLAYER_EVENT_ONSESSIONDISCONNECT, st PLAYER_STATE_GATEALLOCNTF)]),
     (st PLAYER_STATE_ONGATELOGINREQ,
       [(ev PLAYER_EVENT_ONSESSIONDISCONNECT, st PLAYER_STATE_ONGATELOGINREQ),
        (ev PLAYER_EVENT_CACHELOGINREQ, st PLAYER_STATE_CACHELOGINREQ)]),
     (st PLAYER_STATE_CACHELOGINREQ,
       [(ev PLAYER_EVENT_ONSESSIONDISCONNECT, st PLAYER_STATE_CACHELOGINREQ),
        (ev PLAYER_EVENT_ONAVATARLISTREQ, st PLAYER_STATE_ONAVATARLISTREQ)]),
     (st PLAYER_STATE_ONAVATARLISTREQ,
       [(ev PLAYER_EVENT_AVATARLISTREQ, st PLAYER_STATE_AVATARLISTREQ),
        (ev PLAYER_EVENT_ONSESSIONDISCONNECT, st PLAYER_STATE_ONAVATARLISTREQ)]),
     (st PLAYER_STATE_AVATARLISTREQ,
       [(ev PLAYER_EVENT_ONAVATARLISTACK, st PLAYER_STATE_ONAVATARLISTACK),
        (ev PLAYER_EVENT_ONSESSIONDISCONNECT, st PLAYER_STATE_AVATARLISTREQ)]),
     (st PLAYER_STATE_ONAVATARLISTACK,
       [(ev PLAYER_EVENT_AVATARLISTACK, st PLAYER_STATE_AVATARLISTACK),
        (ev PLAYER_EVENT_ONSESSIONDISCONNECT, st PLAYER_STATE_ONAVATARLISTACK)]),
     (st PLAYER_STATE_AVATARLISTACK,
       [(ev PLAYER_EVENT_ONAVATARCREATEREQ, st PLAYER_STATE_ONAVATARCREATEREQ),
        (ev PLAYER_EVENT_ONAVATARSELECTREQ, st PLAYER_STATE_ONAVATARSELECTREQ),
        (ev PLAYER_EVENT_ONSESSIONDISCONNECT, st PLAYER_STATE_AVATARLISTACK)]),
     (st PLAYER_STATE_ONAVATARCREATEREQ,
       [(ev PLAYER_EVENT_AVATARCREATEREQ, st PLAYER_STATE_AVATARCREATEREQ),
        (ev PLAYER_EVENT_AVATARCREATEACK, st PLAYER_STATE_AVATARLISTACK),
        (ev PLAYER_EVENT_ONSESSIONDISCONNECT, st PLAYER_STATE_ONAVATARCREATEREQ)]),
     (st PLAYER_STATE_AVATARCREATEREQ,
       [(ev PLAYER_EVENT_ONAVATARCREATEACK, st PLAYER_STATE_ONAVATARCREATEACK),
        (ev PLAYER_EVENT_ONSESSIONDISCONNECT, st PLAYER_STATE_AVATARCREATEREQ)]),
     (st PLAYER_STATE_ONAVATARCREATEACK,
       [(ev PLAYER_EVENT_AVATARCREATEACK, st PLAYER_STATE_AVATARLISTACK),
        (ev PLAYER_EVENT_ONSESSIONDISCONNECT, st PLAYER_STATE_ONAVATARCREATEACK)]),
     (st PLAYER_STATE_ONAVATARSELECTREQ,
       [(ev PLAYER_EVENT_AVATARSELECTREQ, st PLAYER_STATE_AVATARSELECTREQ),
        (ev PLAYER_EVENT_ONSESSIONDISCONNECT, st PLAYER_STATE_AVATARSELECTREQ)]),
     (st PLAYER_STATE_AVATARSELECTREQ,
       [(ev PLAYER_EVENT_ONAVATARSELECTACK, st PLAYER_STATE_ONAVATARSELECTACK),
        (ev PLAYER_EVENT_ONSESSIONDISCONNECT, st PLAYER_STATE_AVATARSELECTREQ)]),
     (st PLAYER_STATE_ONAVATARSELECTACK,
       [(ev PLAYER_EVENT_AVATARSELECTACK, st PLAYER_STATE_AVATARSELECTACK),
        (ev PLAYER_EVENT_ONSESSIONDISCONNECT, st PLAYER_STATE_ONAVATARSELECTACK)]),
     (st PLAYER_STATE_AVATARSELECTACK,
       [(ev PLAYER_EVENT_CHANNELLISTNTF, st PLAYER_STATE_CHANNELLISTNTF),
        (ev PLAYER_EVENT_ONSESSIONDISCONNECT, st PLAYER_STATE_AVATARSELECTACK)]),
     (st PLAYER_STATE_CHANNELLISTNTF,
       [(ev PLAYER_EVENT_ONCHANNELSELECTREQ, st PLAYER_STATE_ONCHANNELSELECTREQ),
        (ev PLAYER_EVENT_ONAVATARLISTREQ, st PLAYER_STATE_ONAVATARLISTREQ),
        (ev PLAYER_EVENT_ONSESSIONDISCONNECT, st PLAYER_STATE_CHANNELLISTNTF)]),
     (st PLAYER_STATE_ONCHANNELSELECTREQ,
       [(ev PLAYER_EVENT_REGIONALLOCREQ, st PLAYER_STATE_REGIONALLOCREQ),
        (ev PLAYER_EVENT_ONSESSIONDISCONNECT, st PLAYER_STATE_ONCHANNELSELECTREQ)]),
     (st PLAYER_STATE_REGIONALLOCREQ,
       [(ev PLAYER_EVENT_ONREGIONALLOCACK, st PLAYER_STATE_ONREGIONALLOCACK),
        (ev PLAYER_EVENT_ONREGIONALLOCFAILACK, st PLAYER_STATE_ONREGIONALLOCFAILACK),
        (ev PLAYER_EVENT_ONSESSIONDISCONNECT, st PLAYER_STATE_REGIONALLOCREQ)]),
     (st PLAYER_STATE_ONREGIONALLOCACK,
       [(ev PLAYER_EVENT_CHANNELSELECTACK, st PLAYER_STATE_CHANNELSELECTACK),
        (ev PLAYER_EVENT_ONSESSIONDISCONNECT, st PLAYER_STATE_ONREGIONALLOCACK)]),
     (st PLAYER_STATE_ONREGIONALLOCFAILACK,
       [(ev PLAYER_EVENT_CHANNELSELECTACK, st PLAYER_STATE_CHANNELSELECTFAILACK),
        (ev PLAYER_EVENT_ONSESSIONDISCONNECT, st PLAYER_STATE_ONREGIONALLOCFAILACK)]),
     (st PLAYER_STATE_CHANNELSELECTACK,
       [(ev PLAYER_EVENT_REGIONENTERREQ, st PLAYER_STATE_REGIONENTERREQ),
        (ev PLAYER_EVENT_ONSESSIONDISCONNECT, st PLAYER_STATE_CHANNELSELECTACK)]),
     (st PLAYER_STATE_CHANNELSELECTFAILACK,
       [(ev PLAYER_EVENT_CHANNELLISTNTF, st PLAYER_STATE_CHANNELLISTNTF),
        (ev PLAYER_EVENT_ONSESSIONDISCONNECT, st PLAYER_STATE_CHANNELSELECTFAILACK)]),
     (st PLAYER_STATE_REGIONENTERREQ,
       [(ev PLAYER_EVENT_ONCHANNELLEAVEREQ, st PLAYER_STATE_ONCHANNELLEAVEREQ),
        (ev PLAYER_EVENT_FINALIZE, st PLAYER_STATE_FINALIZING),
        (ev PLAYER_EVENT_ONSESSIONDISCONNECT, st PLAYER_STATE_FINALIZING)]),
     (st PLAYER_STATE_ONCHANNELLEAVEREQ,
       [(ev PLAYER_EVENT_REGIONLEAVEACK, st PLAYER_STATE_ONCHANNELLEAVE_REGIONLEAVEACK),
        (ev PLAYER_EVENT_ONSESSIONDISCONNECT, ev PLAYER_EVENT_ONCHANNELLEAVEREQ)]),
     (st PLAYER_STATE_ONCHANNELLEAVE_REGIONLEAVEACK,
       [(ev PLAYER_EVENT_ONREGIONLEAVEREQ, st PLAYER_STATE_ONCHANNELLEAVE_ONREGIONLEAVEREQ),
        (ev PLAYER_EVENT_ONSESSIONDISCONNECT, st PLAYER_STATE_FINALIZING_REGIONLEAVEACK)]),
     (st PLAYER_STATE_ONCHANNELLEAVE_ONREGIONLEAVEREQ,
       [(ev PLAYER_EVENT_CHANNELLISTNTF, st PLAYER_STATE_CHANNELLISTNTF),
        (ev PLAYER_EVENT_ONSESSIONDISCONNECT, st PLAYER_STATE_ONCHANNELLEAVE_ONREGIONLEAVEREQ)]),
     (st PLAYER_STATE_FINALIZING,
       [(ev PLAYER_EVENT_REGIONLEAVEACK, st PLAYER_STATE_FINALIZING_REGIONLEAVEACK),
        (ev PLAYER_EVENT_ONSESSIONDISCONNECT, st PLAYER_STATE_FINALIZING)]),
     (st PLAYER_STATE_FINALIZING_REGIONLEAVEACK,
       [(ev PLAYER_EVENT_ONREGIONLEAVEREQ, st PLAYER_STATE_FINALIZING_ONREGIONLEAVEREQ),
        (ev PLAYER_EVENT_ONSESSIONDISCONNECT, st PLAYER_STATE_FINALIZING_REGIONLEAVEACK)]),
     (st PLAYER_STATE_FINALIZING_ONREGIONLEAVEREQ,
       [(ev PLAYER_EVENT_LOGOUT, st PLAYER_STATE_LOGOUT),
        (ev PLAYER_EVENT_ONSESSIONDISCONNECT, st PLAYER_STATE_FINALIZING_ONREGIONLEAVEREQ)]),
     (st PLAYER_STATE_LOGOUT,
       [(ev PLAYER_EVENT_ONSESSIONDISCONNECT, st PLAYER_STATE_LOGOUT)])]"

definition master_InitStateMachine :: "StateMachine \<Rightarrow> StateMachine option" where
  "master_InitStateMachine m = init_states master_table m"

text \<open>The events that some handler raises: all but \<open>ONCHANNELLEAVEREQ\<close> (whose handler is empty) and
  \<open>ONSESSIONDISCONNECT\<close> (which shuts the player down instead).\<close>

definition raised_events :: "player_event list" where
  "raised_events = [PLAYER_EVENT_ONLOGINREQ, PLAYER_EVENT_GATEALLOCREQ, PLAYER_EVENT_GATEALLOCACK,
     PLAYER_EVENT_GATEALLOCFAILACK, PLAYER_EVENT_GATEALLOCNTF, PLAYER_EVENT_ONGATELOGINREQ, PLAYER_EVENT_CACHELOGINREQ,
     PLAYER_EVENT_ONAVATARLISTREQ, PLAYER_EVENT_AVATARLISTREQ, PLAYER_EVENT_ONAVATARLISTACK, PLAYER_EVENT_AVATARLISTACK,
     PLAYER_EVENT_ONAVATARCREATEREQ, PLAYER_EVENT_AVATARCREATEREQ, PLAYER_EVENT_ONAVATARCREATEACK,
     PLAYER_EVENT_AVATARCREATEACK, PLAYER_EVENT_ONAVATARSELECTREQ, PLAYER_EVENT_AVATARSELECTREQ,
     PLAYER_EVENT_ONAVATARSELECTACK, PLAYER_EVENT_AVATARSELECTACK, PLAYER_EVENT_CHANNELLISTNTF,
     PLAYER_EVENT_ONCHANNELSELECTREQ, PLAYER_EVENT_REGIONALLOCREQ, PLAYER_EVENT_ONREGIONALLOCACK,
     PLAYER_EVENT_ONREGIONALLOCFAILACK, PLAYER_EVENT_CHANNELSELECTACK, PLAYER_EVENT_REGIONENTERREQ,
     PLAYER_EVENT_ONREGIONLEAVEREQ, PLAYER_EVENT_REGIONLEAVEACK, PLAYER_EVENT_FINALIZE, PLAYER_EVENT_LOGOUT]"

definition live_states :: "player_state list" where
  "live_states = [PLAYER_STATE_NONE, PLAYER_STATE_ONLOGINREQ, PLAYER_STATE_GATEALLOCREQ, PLAYER_STATE_GATEALLOCACK,
     PLAYER_STATE_GATEALLOCFAILACK, PLAYER_STATE_GATEALLOCNTF, PLAYER_STATE_ONGATELOGINREQ, PLAYER_STATE_CACHELOGINREQ,
     PLAYER_STATE_ONAVATARLISTREQ, PLAYER_STATE_AVATARLISTREQ, PLAYER_STATE_ONAVATARLISTACK, PLAYER_STATE_AVATARLISTACK,
     PLAYER_STATE_ONAVATARCREATEREQ, PLAYER_STATE_AVATARCREATEREQ, PLAYER_STATE_ONAVATARCREATEACK,
     PLAYER_STATE_ONAVATARSELECTREQ, PLAYER_STATE_AVATARSELECTREQ, PLAYER_STATE_ONAVATARSELECTACK,
     PLAYER_STATE_AVATARSELECTACK, PLAYER_STATE_CHANNELLISTNTF, PLAYER_STATE_ONCHANNELSELECTREQ,
     PLAYER_STATE_REGIONALLOCREQ, PLAYER_STATE_ONREGIONALLOCACK, PLAYER_STATE_ONREGIONALLOCFAILACK,
     PLAYER_STATE_CHANNELSELECTACK, PLAYER_STATE_CHANNELSELECTFAILACK, PLAYER_STATE_REGIONENTERREQ,
     PLAYER_STATE_FINALIZING, PLAYER_STATE_FINALIZING_ONREGIONLEAVEREQ, PLAYER_STATE_FINALIZING_REGIONLEAVEACK,
     PLAYER_STATE_LOGOUT]"

section \<open>The machine and its table\<close>

definition tr :: "int \<Rightarrow> int \<Rightarrow> int option" where
  "tr s e = rows_fun (rows_of master_table) (s, e)"

lemma ev_ok [simp]: "event_ok (ev e)"
  by (cases e) (simp_all add: event_ok_def)

text \<open>The enumerators in their order: \<open>st\<close> is the position.\<close>

definition all_states :: "player_state list" where
  "all_states = [PLAYER_STATE_NONE, PLAYER_STATE_ONLOGINREQ, PLAYER_STATE_GATEALLOCREQ, PLAYER_STATE_GATEALLOCACK, 
     PLAYER_STATE_GATEALLOCFAILACK, PLAYER_STATE_GATEALLOCNTF, PLAYER_STATE_ONGATELOGINREQ, 
     PLAYER_STATE_CACHELOGINREQ, PLAYER_STATE_ONAVATARLISTREQ, PLAYER_STATE_AVATARLISTREQ, 
     PLAYER_STATE_ONAVATARLISTACK, PLAYER_STATE_AVATARLISTACK, PLAYER_STATE_ONAVATARCREATEREQ, 
     PLAYER_STATE_AVATARCREATEREQ, PLAYER_STATE_ONAVATARCREATEACK, PLAYER_STATE_ONAVATARSELECTREQ, 
     PLAYER_STATE_AVATARSELECTREQ, PLAYER_STATE_ONAVATARSELECTACK, PLAYER_STATE_AVATARSELECTACK, 
     PLAYER_STATE_CHANNELLISTNTF, PLAYER_STATE_ONCHANNELSELECTREQ, PLAYER_STATE_REGIONALLOCREQ, 
     PLAYER_STATE_ONREGIONALLOCACK, PLAYER_STATE_ONREGIONALLOCFAILACK, PLAYER_STATE_CHANNELSELECTACK, 
     PLAYER_STATE_CHANNELSELECTFAILACK, PLAYER_STATE_REGIONENTERREQ, PLAYER_STATE_ONCHANNELLEAVEREQ, 
     PLAYER_STATE_ONCHANNELLEAVE_ONREGIONLEAVEREQ, PLAYER_STATE_ONCHANNELLEAVE_REGIONLEAVEACK, 
     PLAYER_STATE_FINALIZING, PLAYER_STATE_FINALIZING_ONREGIONLEAVEREQ, PLAYER_STATE_FINALIZING_REGIONLEAVEACK, 
     PLAYER_STATE_LOGOUT]"

lemma all_states_st: "all_states ! nat (st a) = a"
  by (cases a) (simp_all add: all_states_def)

lemma st_inj [simp]: "st a = st b \<longleftrightarrow> a = b"
  by (metis all_states_st)

lemma master_rows_ok: "\<forall>(s, e, out) \<in> set (rows_of master_table). event_ok e"
  by (simp add: rows_of_def master_table_def del: ev.simps)

lemma master_InitStateMachine_ok:
  "\<exists>m. master_InitStateMachine (StateMachine_new s) = Some m \<and> fsm_inv m \<and> sm_iCurrState m = s \<and>
     fsm_fun m = (\<lambda>(s, e). tr s e)"
  using init_states_ok [OF new_inv(1) master_rows_ok, of s]
  by (auto simp: master_InitStateMachine_def new_inv(2) tr_def fun_eq_iff) (auto simp: StateMachine_new_def)

lemma live_closed:
  "list_all (\<lambda>r. fst r \<in> set (map st live_states) \<longrightarrow> fst (snd r) \<in> set (map ev raised_events) \<longrightarrow>
     snd (snd r) \<in> set (map st live_states)) (rows_of master_table)"
  by code_simp

lemma live_step:
  assumes "s \<in> st ` set live_states" "e \<in> set raised_events" "tr s (ev e) = Some s'"
  shows "s' \<in> st ` set live_states"
  using live_closed rows_fun_mem [OF assms(3) [unfolded tr_def]] assms(1,2) by (auto simp: list_all_iff)

end
