(* ===== verification/ServerBase.thy ===== *)
theory ServerBase
  imports ToolPool
begin

text \<open>
  The base of the FT servers (\<open>FTServer/Src/ServerBase\<close>): what all of them share, and \<open>LogicLoop\<close>
  (\<open>logic_loop.cpp\<close>), the thread that executes the commands of a server.

  Other threads push commands; the thread of the loop takes them one after the other while the semaphore is
  signalled, and when waiting for it times out it runs the alarm clock and the server's own \<open>_Loop\<close> and begins the
  next round.  \<open>thread_step\<close> has one event for each of these.  The server is a parameter: what it does for a
  command (\<open>_OnCommand\<close>) and at the end of a round (\<open>Alarm::Tick\<close>, \<open>_Loop\<close>, reading the clock).

  A command is removed from the list before it is executed and deleted afterwards, so it can be a value.
\<close>

type_synonym tstring = "16 word list"

datatype loop_status = NOT_SHUTDOWN | START_SHUTDOWN | READY_FOR_SHUTDOWN

text \<open>\<open>hash_map::insert\<close> does not replace an entry.\<close>

definition hm_insert :: "'k \<Rightarrow> 'v \<Rightarrow> ('k \<rightharpoonup> 'v) \<Rightarrow> ('k \<rightharpoonup> 'v)" where
  "hm_insert k v m = (if m k = None then m(k \<mapsto> v) else m)"

text \<open>\<open>Char2WChar\<close> and \<open>WChar2Char\<close> into a buffer of \<open>n\<close> characters: 0 (here \<open>None\<close>) when the text cannot be
  converted or does not fit with its terminator.  The conversion itself is the system's.\<close>

definition Char2WChar :: "(byte list \<Rightarrow> tstring option) \<Rightarrow> byte list \<Rightarrow> nat \<Rightarrow> tstring option" where
  "Char2WChar conv s n = do { w \<leftarrow> conv s; if length w < n then Some w else None }"

definition WChar2Char :: "(tstring \<Rightarrow> byte list option) \<Rightarrow> tstring \<Rightarrow> nat \<Rightarrow> byte list option" where
  "WChar2Char conv s n = do { w \<leftarrow> conv s; if length w < n then Some w else None }"

text \<open>\<open>wcscpy_s\<close> into an array of \<open>n\<close> characters; a longer text aborts.\<close>

definition wcscpy_s :: "nat \<Rightarrow> tstring \<Rightarrow> tstring option" where
  "wcscpy_s n s = (if length s < n then Some s else None)"

definition LowerCase :: "tstring \<Rightarrow> tstring" where
  "LowerCase = map (\<lambda>c. if 65 \<le> c \<and> c \<le> 90 then c + 32 else c)"

section \<open>The logic loop\<close>

record 'c LogicLoop =
  ll_hCommandSemaphore :: "nat option"
  ll_CommandList :: "'c list"
  ll_bQuit :: bool
  ll_dwCurrTime :: u32
  ll_dwDeltaTime :: u32
  ll_bRunning :: bool

definition LogicLoop_new :: "'c LogicLoop" where
  "LogicLoop_new = \<lparr>ll_hCommandSemaphore = None, ll_CommandList = [], ll_bQuit = False, ll_dwCurrTime = 0, ll_dwDeltaTime = 0,
     ll_bRunning = False\<rparr>"

text \<open>\<open>m_pMainLoop\<close> is a static pointer.\<close>

definition LogicLoop_Init :: "bool \<Rightarrow> ptr \<Rightarrow> ptr \<Rightarrow> int \<times> ptr" where
  "LogicLoop_Init bMainLoop this m_pMainLoop =
     (if bMainLoop then (if m_pMainLoop \<noteq> NULL then (- 1, m_pMainLoop) else (0, this)) else (0, m_pMainLoop))"

definition LogicLoop_Destroy :: "'c LogicLoop \<Rightarrow> 'c LogicLoop" where
  "LogicLoop_Destroy L = L\<lparr>ll_CommandList := []\<rparr>"

text \<open>\<open>CreateSemaphore\<close> may fail; \<open>_beginthreadex\<close> is tested against 1, which it never returns.\<close>

definition LogicLoop_Start :: "u32 \<Rightarrow> bool \<Rightarrow> 'c LogicLoop \<Rightarrow> int \<times> 'c LogicLoop" where
  "LogicLoop_Start now semaphore L =
     (let L = L\<lparr>ll_dwCurrTime := now, ll_dwDeltaTime := 0\<rparr> in
      if \<not> semaphore then (- 1, L) else (0, L\<lparr>ll_hCommandSemaphore := Some 0, ll_bRunning := True\<rparr>))"

definition LogicLoop_Stop :: "'c LogicLoop \<Rightarrow> 'c LogicLoop" where
  "LogicLoop_Stop L = L\<lparr>ll_bQuit := True\<rparr>"

definition LogicLoop_Join :: "'c LogicLoop \<Rightarrow> 'c LogicLoop" where
  "LogicLoop_Join L = L\<lparr>ll_hCommandSemaphore := None, ll_CommandList := []\<rparr>"

text \<open>\<open>ReleaseSemaphore\<close> of a semaphore that does not exist yet fails, and the command stays in the list.  Appending under the lock and
  releasing after it are one step here: the thread of the loop only takes a command after the release, and the order of the list is the order of appending.\<close>

definition LogicLoop_PushCommand :: "'c \<Rightarrow> 'c LogicLoop \<Rightarrow> 'c LogicLoop" where
  "LogicLoop_PushCommand c L =
     L\<lparr>ll_CommandList := ll_CommandList L @ [c], ll_hCommandSemaphore := map_option Suc (ll_hCommandSemaphore L)\<rparr>"

section \<open>The thread\<close>

datatype 'c thread_event = Pushed 'c | Took | TimedOut u32 | Stopped

text \<open>Which events can happen: the thread takes a command when the semaphore is signalled, and ends its round when it
  is not.\<close>

definition thread_can :: "'c LogicLoop \<Rightarrow> 'c thread_event \<Rightarrow> bool" where
  "thread_can L e = (case e of
     Took \<Rightarrow> ll_bRunning L \<and> (case ll_hCommandSemaphore L of Some n \<Rightarrow> n > 0 | None \<Rightarrow> False)
   | TimedOut now \<Rightarrow> ll_bRunning L \<and> ll_hCommandSemaphore L = Some 0
   | _ \<Rightarrow> True)"

text \<open>\<open>None\<close>: the server's handlers fail, or the list is empty although the semaphore was signalled, so that the
  command of the round before is executed again after it was deleted.\<close>

definition thread_step :: "('c \<Rightarrow> 's \<Rightarrow> 's option) \<Rightarrow> (u32 \<Rightarrow> 's \<Rightarrow> 's option) \<Rightarrow> 'c thread_event \<Rightarrow>
    'c LogicLoop \<times> 's \<Rightarrow> ('c LogicLoop \<times> 's) option" where
  "thread_step OnCommand EndRound e = (\<lambda>(L, s). case e of
     Pushed c \<Rightarrow> Some (LogicLoop_PushCommand c L, s)
   | Stopped \<Rightarrow> Some (LogicLoop_Stop L, s)
   | Took \<Rightarrow> (case ll_CommandList L of
        [] \<Rightarrow> None
      | c # cs \<Rightarrow> do {
          s \<leftarrow> OnCommand c s;
          Some (L\<lparr>ll_hCommandSemaphore := map_option (\<lambda>n. n - 1) (ll_hCommandSemaphore L), ll_CommandList := cs\<rparr>, s)
        })
   | TimedOut now \<Rightarrow> do {
       s \<leftarrow> EndRound now s;
       Some (if ll_bQuit L then L\<lparr>ll_bRunning := False\<rparr>
             else L\<lparr>ll_dwDeltaTime := now - ll_dwCurrTime L, ll_dwCurrTime := now\<rparr>, s)
     })"

primrec thread_run :: "('c \<Rightarrow> 's \<Rightarrow> 's option) \<Rightarrow> (u32 \<Rightarrow> 's \<Rightarrow> 's option) \<Rightarrow> 'c thread_event list \<Rightarrow>
    'c LogicLoop \<times> 's \<Rightarrow> ('c LogicLoop \<times> 's) option" where
  "thread_run f g [] x = Some x"
| "thread_run f g (e # es) x = (if thread_can (fst x) e then do { x \<leftarrow> thread_step f g e x; thread_run f g es x } else None)"

text \<open>The same server without threads: a list of commands and ends of rounds.\<close>

datatype 'c server_event = DoCommand 'c | DoRound u32

primrec serve :: "('c \<Rightarrow> 's \<Rightarrow> 's option) \<Rightarrow> (u32 \<Rightarrow> 's \<Rightarrow> 's option) \<Rightarrow> 'c server_event list \<Rightarrow> 's \<Rightarrow> 's option" where
  "serve f g [] s = Some s"
| "serve f g (e # es) s = do { s \<leftarrow> (case e of DoCommand c \<Rightarrow> f c s | DoRound now \<Rightarrow> g now s); serve f g es s }"

definition pushed :: "'c thread_event list \<Rightarrow> 'c list" where
  "pushed es = List.map_filter (\<lambda>e. case e of Pushed c \<Rightarrow> Some c | _ \<Rightarrow> None) es"

definition executed :: "'c server_event list \<Rightarrow> 'c list" where
  "executed es = List.map_filter (\<lambda>e. case e of DoCommand c \<Rightarrow> Some c | _ \<Rightarrow> None) es"

definition rounds :: "'c thread_event list \<Rightarrow> u32 list" where
  "rounds es = List.map_filter (\<lambda>e. case e of TimedOut now \<Rightarrow> Some now | _ \<Rightarrow> None) es"

definition loop_ok :: "'c LogicLoop \<Rightarrow> bool" where
  "loop_ok L \<longleftrightarrow> ll_hCommandSemaphore L = Some (length (ll_CommandList L))"

lemma pushed_simps [simp]:
  "pushed [] = []" "pushed (Pushed c # es) = c # pushed es" "pushed (Took # es) = pushed es" "pushed (TimedOut t # es) = pushed es"
  "pushed (Stopped # es) = pushed es" "pushed (es @ es') = pushed es @ pushed es'"
  by (simp_all add: pushed_def map_filter_def)

lemma executed_simps [simp]:
  "executed [] = []" "executed (DoCommand c # es) = c # executed es" "executed (DoRound t # es) = executed es"
  by (simp_all add: executed_def map_filter_def)

lemma thread_step_ok:
  assumes "loop_ok L" "thread_can L e" "thread_step f g e (L, s) = Some (L', s')"
  shows "loop_ok L' \<and> (\<exists>d. serve f g d s = Some s' \<and> executed d @ ll_CommandList L' = ll_CommandList L @ pushed [e])"
proof (cases e)
  case (Pushed c)
  then show ?thesis using assms
    by (intro conjI exI [of _ "[]"]) (auto simp: thread_step_def LogicLoop_PushCommand_def loop_ok_def)
next
  case Took
  then obtain c cs where c: "ll_CommandList L = c # cs" "f c s = Some s'"
      "L' = L\<lparr>ll_hCommandSemaphore := map_option (\<lambda>n. n - 1) (ll_hCommandSemaphore L), ll_CommandList := cs\<rparr>"
    using assms(3) by (auto simp: thread_step_def split: list.splits Option.bind_splits)
  then show ?thesis using assms(1) Took by (intro conjI exI [of _ "[DoCommand c]"]) (auto simp: loop_ok_def)
next
  case (TimedOut t)
  then show ?thesis using assms
    by (intro conjI exI [of _ "[DoRound t]"]) (auto simp: thread_step_def loop_ok_def split: Option.bind_splits if_splits)
next
  case Stopped
  then show ?thesis using assms
    by (intro conjI exI [of _ "[]"]) (auto simp: thread_step_def LogicLoop_Stop_def loop_ok_def)
qed

lemma serve_append: "serve f g (d @ d') s = serve f g d s \<bind> serve f g d'"
  by (induction d arbitrary: s) (auto split: Option.bind_splits)

lemma executed_append [simp]: "executed (d @ d') = executed d @ executed d'"
  by (simp add: executed_def map_filter_def)

lemma thread_run_ok:
  "loop_ok L \<Longrightarrow> thread_run f g es (L, s) = Some (L', s') \<Longrightarrow>
     loop_ok L' \<and> (\<exists>d. serve f g d s = Some s' \<and> executed d @ ll_CommandList L' = ll_CommandList L @ pushed es)"
proof (induction es arbitrary: L s)
  case Nil
  then show ?case by (intro conjI exI [of _ "[]"]) auto
next
  case (Cons e es)
  then obtain L1 s1 where 1: "thread_can L e" "thread_step f g e (L, s) = Some (L1, s1)" "thread_run f g es (L1, s1) = Some (L', s')"
    by (auto split: if_splits Option.bind_splits)
  obtain d where d: "serve f g d s = Some s1" "executed d @ ll_CommandList L1 = ll_CommandList L @ pushed [e]" "loop_ok L1"
    using thread_step_ok [OF Cons.prems(1) 1(1,2)] by blast
  obtain d' where d': "serve f g d' s1 = Some s'" "executed d' @ ll_CommandList L' = ll_CommandList L1 @ pushed es" "loop_ok L'"
    using Cons.IH [OF d(3) 1(3)] by blast
  have "serve f g (d @ d') s = Some s'" using d(1) d'(1) by (simp add: serve_append)
  moreover have "executed (d @ d') @ ll_CommandList L' = ll_CommandList L @ pushed (e # es)"
    using d(2) d'(2) pushed_simps(6) [of "[e]" es] by simp
  ultimately show ?case using d'(3) by blast
qed

text \<open>C11: The logic loop.  Whatever the interleaving of threads that push commands with the thread of the loop, the
  server reaches the state that it reaches by executing the commands one after the other in the order in which they
  were pushed, up to those still in the list; the semaphore counts exactly these, so the thread never finds the list empty after
  it was signalled, and it never stops taking commands while there are any.\<close>
theorem logic_loop_refines:
  assumes "loop_ok L" "ll_bRunning L" "thread_run f g es (L, s) = Some (L', s')"
  shows "(\<exists>d. serve f g d s = Some s' \<and> executed d @ ll_CommandList L' = ll_CommandList L @ pushed es) \<and>
    (thread_can L' Took \<longleftrightarrow> ll_bRunning L' \<and> ll_CommandList L' \<noteq> []) \<and>
    (\<forall>c cs s''. ll_CommandList L' = c # cs \<and> f c s' = Some s'' \<longrightarrow>
       (\<exists>L''. thread_step f g Took (L', s') = Some (L'', s'') \<and> ll_CommandList L'' = cs)) \<and>
    (Stopped \<notin> set es \<and> \<not> ll_bQuit L \<longrightarrow> ll_bRunning L')"
proof -
  have ok: "loop_ok L'" and d: "\<exists>d. serve f g d s = Some s' \<and> executed d @ ll_CommandList L' = ll_CommandList L @ pushed es"
    using thread_run_ok [OF assms(1,3)] by auto
  have run: "ll_bRunning L' \<and> \<not> ll_bQuit L'" if "Stopped \<notin> set es" "\<not> ll_bQuit L"
    using that assms(2,3)
  proof (induction es arbitrary: L s)
    case (Cons e es)
    then obtain L1 s1 where 1: "thread_step f g e (L, s) = Some (L1, s1)" "thread_run f g es (L1, s1) = Some (L', s')"
      by (auto split: if_splits Option.bind_splits)
    have "ll_bRunning L1 \<and> \<not> ll_bQuit L1"
      using 1(1) Cons.prems by (cases e) (auto simp: thread_step_def LogicLoop_PushCommand_def split: list.splits Option.bind_splits)
    then show ?case using Cons.IH [of L1 s1] 1(2) Cons.prems(1) by simp
  qed auto
  have "thread_can L' Took \<longleftrightarrow> ll_bRunning L' \<and> ll_CommandList L' \<noteq> []" using ok by (simp add: thread_can_def loop_ok_def)
  with d run show ?thesis by (auto simp: thread_step_def)
qed

text \<open>A server that adds up numbers.\<close>

theorem logic_loop_refines_witness:
  "\<exists>L d. thread_run (\<lambda>c s. Some (s + c)) (\<lambda>t s. Some s) [Pushed (1 :: nat), Pushed 2, Took, Pushed 3, Took]
       (snd (LogicLoop_Start 5 True LogicLoop_new), 0 :: nat) = Some (L, 3) \<and>
     serve (\<lambda>c s. Some (s + c)) (\<lambda>t s. Some s) d 0 = Some (3 :: nat) \<and> executed d @ [3] = [1, 2, 3]"
proof -
  let ?L = "snd (LogicLoop_Start 5 True LogicLoop_new) :: nat LogicLoop"
  let ?L' = "?L\<lparr>ll_hCommandSemaphore := Some 1, ll_CommandList := [3]\<rparr>"
  have run: "thread_run (\<lambda>c s. Some (s + c)) (\<lambda>t s. Some s) [Pushed (1 :: nat), Pushed 2, Took, Pushed 3, Took] (?L, 0 :: nat) = Some (?L', 3)"
    by (simp add: thread_can_def thread_step_def LogicLoop_Start_def LogicLoop_new_def LogicLoop_PushCommand_def)
  have "loop_ok ?L" "ll_bRunning ?L" by (simp_all add: loop_ok_def LogicLoop_Start_def LogicLoop_new_def)
  from logic_loop_refines [OF this run] obtain d where "serve (\<lambda>c s. Some (s + c)) (\<lambda>t s. Some s) d 0 = Some (3 :: nat)" "executed d @ [3] = [1, 2, 3]"
    by (auto simp: LogicLoop_Start_def LogicLoop_new_def)
  with run show ?thesis by blast
qed

end
