(* ===== verification/MasterServer.thy ===== *)
theory MasterServer
  imports MasterStates ServerBase
begin

text \<open>
  The master server (\<open>FTServer/Src/MasterServer\<close>): \<open>MasterServerLoop\<close>, which keeps the players that are
  logged in, and \<open>MasterPlayerContext\<close>, one player, whose handlers run when a command or a forwarded
  packet arrives.  All of it runs in the one thread of the logic loop.

  \<^item> A player context is an address of the object pool.  Contexts are constructed when the pool first
    hands them out and are never destroyed while the loop runs, so \<open>ml_ctx\<close> is total: an address
    that was never handed out has the value the constructor gives it.
  \<^item> \<open>menv\<close> collects what the code reads from outside: the configuration (gates, channels and which
    server ids have an entry), the result of the \<open>k\<close>-th message sent to another server, the decoding of
    packets by the generated receive functions, the character conversions of Windows and the order in which
    a hash map is traversed.
  \<^item> \<open>ml_sent\<close> records the messages handed to the peer layer with the results of sending them.
  \<^item> Strings are lists of characters without the terminator.
  \<^item> An index outside an array and sending through the NULL handle that \<open>GetPeerServer\<close> returns for
    an unknown server are undefined behaviour, the value \<open>None\<close>.  \<open>_ASSERT\<close> does nothing, as in a release build.
\<close>

abbreviation SERVERCOUNT_MAX :: nat where "SERVERCOUNT_MAX \<equiv> 128"
abbreviation CHANNEL_MAX :: nat where "CHANNEL_MAX \<equiv> 16"
abbreviation AVATARCOUNT_MAX :: nat where "AVATARCOUNT_MAX \<equiv> 10"
abbreviation NAME_MAX :: nat where "NAME_MAX \<equiv> 32"
abbreviation INVALID_CHANNEL_ID :: u8 where "INVALID_CHANNEL_ID \<equiv> 255"
abbreviation INVALID_SERVER_ID :: u8 where "INVALID_SERVER_ID \<equiv> 255"
abbreviation DELAY_MAX :: nat where "DELAY_MAX \<equiv> 1024"

section \<open>Data\<close>

record prdAvatar =
  av_iAvatarId :: u64
  av_strAvatarName :: tstring

record ftdAvatar =
  fa_iAvatarId :: u64
  fa_strAvatarName :: "byte list"

record GateConfigItem =
  gc_iServerId :: u8
  gc_iServerIP :: u32
  gc_iServerPort :: u16
  gc_iSessionMax :: u16

record RegionConfigItem =
  rc_iServerId :: u8
  rc_iChannelId :: u8
  rc_iPlayerMax :: u16

record ChannelConfigItem =
  cc_strChannelName :: tstring
  cc_iChannelId :: u8
  cc_iPlayerMax :: u16
  cc_iInitialRegionServerId :: u8
  cc_arrayRegionConfig :: "RegionConfigItem list"

record LoginServerContext =
  lc_iServerId :: u8
  lc_dwLastReportTime :: u32
  lc_bIsConnected :: bool
  lc_mPlayerContext :: "u32 \<rightharpoonup> ptr"

record GateServerContext =
  gs_iServerId :: u8
  gs_dwLastReportTime :: u32
  gs_bIsConnected :: bool
  gs_iSessionMax :: u16
  gs_iSessionCount :: u16
  gs_mPlayerContext :: "u32 \<rightharpoonup> ptr"

record RegionServerContext =
  rs_iServerId :: u8
  rs_iChannelId :: u8
  rs_iPlayerMax :: u16
  rs_mPlayerContext :: "u32 \<rightharpoonup> ptr"

record ChannelContext =
  ch_iChannelId :: u8
  ch_iAvatarMax :: u16
  ch_strChannelName :: tstring
  ch_iInitialRegionServerId :: u8
  ch_arrayRegionContext :: "RegionServerContext list"

record MasterPlayerContext =
  mp_iSessionId :: u32
  mp_strAccountName :: tstring
  mp_bFinalizing :: bool
  mp_StateMachine :: StateMachine
  mp_iGateServerId :: u8
  mp_iAvatarCount :: u8
  mp_arrayAvatar :: "prdAvatar list"
  mp_strAvatarName :: tstring
  mp_iAvatarId :: u64
  mp_iLastChannelId :: u8
  mp_iRegionServerId :: u8

text \<open>The receivers of messages and the messages themselves.\<close>

datatype server = LoginServer | CacheServer | Server u8

datatype server_msg =
    Msg_GateAllocReq u32 tstring | Msg_GateReleaseReq u32 tstring
  | Msg_PacketForward u32 u16 "byte list" | Msg_SendData u32 u16 "byte list" | Msg_Disconnect u32 u8
  | Msg_OnLoginFailedAck u32 u8 | Msg_CacheLoginReq u32 tstring | Msg_CacheLogoutReq u32
  | Msg_RegionAllocReq u32 u64 tstring | Msg_RegionReleaseReq u32 | Msg_RegionEnterReq u32 | Msg_RegionLeaveReq u32

record MasterServerLoop =
  ml_iShutdownStatus :: loop_status
  ml_PlayerContextPool :: ObjectPool
  ml_mPlayerContextByName :: "tstring \<rightharpoonup> ptr"
  ml_mPlayerContextBySessionId :: "u32 \<rightharpoonup> ptr"
  ml_LoginServerContext :: LoginServerContext
  ml_arrayGateServerContext :: "GateServerContext option list"
  ml_arrayChannelContext :: "ChannelContext option list"
  ml_iChannelCount :: u8
  ml_PlayerFinalizingQueue :: "ptr list"
  ml_dwCurrTime :: u32
  ml_Delay :: "u16 \<times> byte list"
  ml_ctx :: "ptr \<Rightarrow> MasterPlayerContext"
  ml_sent :: "(server \<times> server_msg \<times> i32) list"

text \<open>The packets of the gate protocol, as the generated receive functions decode them.\<close>

datatype gate_packet =
    AvatarListReq | AvatarListAck i32 "ftdAvatar list" | AvatarCreateReq "byte list" | AvatarCreateAck i32 ftdAvatar
  | AvatarSelectReq "byte list" | AvatarSelectAck i32 "byte list" u64 u8 | ChannelSelectReq "byte list" | ChannelLeaveReq
  | ChannelListNtf | ChannelSelectAck | ChannelLeaveAck

datatype master_command =
    COMMAND_SHUTDOWN | COMMAND_ONLOGINREPORT u8 | COMMAND_ONGATEREPORT u8 u16 | COMMAND_ONCACHEREPORT u8
  | COMMAND_ONREGIONREPORT u8 u16 | COMMAND_ONLOGINREQ u32 tstring | COMMAND_GATEALLOCACK u32 u32 u8 tstring
  | COMMAND_ONGATELOGINREQ u32 tstring | COMMAND_ONREGIONALLOCACK u32 u8 i32 | COMMAND_ONREGIONLEAVEREQ u32 u8
  | COMMAND_ONREGIONPLAYERFAILREQ u32 i32 | COMMAND_ONSESSIONDISCONNECT u32 | COMMAND_PACKETFORWARD u32 u16 "byte list"

record menv =
  me_gates :: "GateConfigItem list"
  me_channels :: "ChannelConfigItem list"
  me_server :: "u8 \<Rightarrow> bool"
  me_net :: "nat \<Rightarrow> i32"
  me_recv :: "u16 \<Rightarrow> byte list \<Rightarrow> gate_packet option"
  me_wide :: "byte list \<Rightarrow> tstring option"
  me_narrow :: "tstring \<Rightarrow> byte list option"
  me_order :: "(tstring \<rightharpoonup> ptr) \<Rightarrow> ptr list"

section \<open>Basic operations\<close>

definition arr :: "'a list \<Rightarrow> u8 \<Rightarrow> 'a option" where
  "arr xs i = (if unat i < length xs then Some (xs ! unat i) else None)"

definition ctx_upd :: "ptr \<Rightarrow> (MasterPlayerContext \<Rightarrow> MasterPlayerContext) \<Rightarrow> MasterServerLoop \<Rightarrow> MasterServerLoop" where
  "ctx_upd p f m = m\<lparr>ml_ctx := (ml_ctx m)(p := f (ml_ctx m p))\<rparr>"

definition fsm :: "ptr \<Rightarrow> player_event \<Rightarrow> MasterServerLoop \<Rightarrow> (int \<times> MasterServerLoop) option" where
  "fsm p e m = do {
     (r, sm) \<leftarrow> StateTransition (ev e) True (mp_StateMachine (ml_ctx m p));
     Some (r, ctx_upd p (\<lambda>c. c\<lparr>mp_StateMachine := sm\<rparr>) m)
   }"

definition curr :: "ptr \<Rightarrow> MasterServerLoop \<Rightarrow> int" where
  "curr p m = GetCurrState (mp_StateMachine (ml_ctx m p))"

definition in_states :: "int \<Rightarrow> player_state list \<Rightarrow> bool" where
  "in_states s ss = (s \<in> set (map st ss))"

definition GetPeerServer :: "menv \<Rightarrow> u8 \<Rightarrow> bool" where
  "GetPeerServer E iServerId = (unat iServerId < SERVERCOUNT_MAX \<and> me_server E iServerId)"

definition peer_send :: "menv \<Rightarrow> server \<Rightarrow> server_msg \<Rightarrow> MasterServerLoop \<Rightarrow> (i32 \<times> MasterServerLoop) option" where
  "peer_send E dest msg m =
     (if (case dest of Server i \<Rightarrow> GetPeerServer E i | _ \<Rightarrow> True)
      then (let r = me_net E (length (ml_sent m)) in Some (r, m\<lparr>ml_sent := ml_sent m @ [(dest, msg, r)]\<rparr>))
      else None)"

section \<open>Sending to the client\<close>

definition DelaySendData :: "u16 \<Rightarrow> byte list \<Rightarrow> MasterServerLoop \<Rightarrow> MasterServerLoop option" where
  "DelaySendData iTypeId pBuf m = (if length pBuf \<le> DELAY_MAX then Some (m\<lparr>ml_Delay := (iTypeId, pBuf)\<rparr>) else None)"

text \<open>The generated send functions write their arguments into an \<open>OutputStream\<close> of \<open>MAX_INPUT_BUFFER\<close>
  bytes and call \<open>Sender::SendPacket\<close>, which is \<open>DelaySendData\<close>.\<close>

definition SendPacket :: "u16 \<Rightarrow> byte list \<Rightarrow> MasterServerLoop \<Rightarrow> (i32 \<times> MasterServerLoop) option" where
  "SendPacket iTypeId bs m =
     (if length bs \<le> DELAY_MAX then do { m \<leftarrow> DelaySendData iTypeId bs m; Some (0, m) } else Some (- 1, m))"

definition LoginNtf :: "u32 \<Rightarrow> u16 \<Rightarrow> MasterServerLoop \<Rightarrow> (i32 \<times> MasterServerLoop) option" where
  "LoginNtf iGateIP iGatePort m = SendPacket 0x0102 (le32 iGateIP @ le16 iGatePort) m"

definition Send_ChannelListNtf :: "u8 \<Rightarrow> byte list \<Rightarrow> MasterServerLoop \<Rightarrow> (i32 \<times> MasterServerLoop) option" where
  "Send_ChannelListNtf iChannelCount arrayData m = SendPacket 0x0303 (iChannelCount # le16 (ucast iChannelCount) @ arrayData) m"

definition Send_ChannelSelectAck :: "i32 \<Rightarrow> MasterServerLoop \<Rightarrow> (i32 \<times> MasterServerLoop) option" where
  "Send_ChannelSelectAck iReturn m = SendPacket 0x0304 (le32 iReturn) m"

definition Send_ChannelLeaveAck :: "MasterServerLoop \<Rightarrow> (i32 \<times> MasterServerLoop) option" where
  "Send_ChannelLeaveAck m = SendPacket 0x0305 [] m"

text \<open>\<open>SessionPeerSend::SendData\<close> to the player's gate with the delayed packet.\<close>

definition send_delayed :: "menv \<Rightarrow> ptr \<Rightarrow> MasterServerLoop \<Rightarrow> (i32 \<times> MasterServerLoop) option" where
  "send_delayed E p m =
     peer_send E (Server (mp_iGateServerId (ml_ctx m p)))
       (Msg_SendData (mp_iSessionId (ml_ctx m p)) (fst (ml_Delay m)) (snd (ml_Delay m))) m"

definition forward_delayed :: "menv \<Rightarrow> server \<Rightarrow> ptr \<Rightarrow> MasterServerLoop \<Rightarrow> (i32 \<times> MasterServerLoop) option" where
  "forward_delayed E dest p m =
     peer_send E dest (Msg_PacketForward (mp_iSessionId (ml_ctx m p)) (fst (ml_Delay m)) (snd (ml_Delay m))) m"

section \<open>The tables of the loop\<close>

definition DeletePlayerFromLoginServerContext :: "ptr \<Rightarrow> MasterServerLoop \<Rightarrow> MasterServerLoop" where
  "DeletePlayerFromLoginServerContext p m =
     m\<lparr>ml_LoginServerContext := (ml_LoginServerContext m)\<lparr>lc_mPlayerContext :=
        (lc_mPlayerContext (ml_LoginServerContext m))(mp_iSessionId (ml_ctx m p) := None)\<rparr>\<rparr>"

definition DeletePlayerFromGateServerContext :: "ptr \<Rightarrow> MasterServerLoop \<Rightarrow> MasterServerLoop option" where
  "DeletePlayerFromGateServerContext p m =
     (let g = mp_iGateServerId (ml_ctx m p) in
      if unat g \<ge> SERVERCOUNT_MAX then Some m else do {
        pContext \<leftarrow> arr (ml_arrayGateServerContext m) g;
        case pContext of None \<Rightarrow> Some m
        | Some c \<Rightarrow> Some (m\<lparr>ml_arrayGateServerContext := (ml_arrayGateServerContext m)[unat g :=
            Some (c\<lparr>gs_mPlayerContext := (gs_mPlayerContext c)(mp_iSessionId (ml_ctx m p) := None)\<rparr>)]\<rparr>)
      })"

definition region_upd :: "ptr \<Rightarrow> ((u32 \<rightharpoonup> ptr) \<Rightarrow> (u32 \<rightharpoonup> ptr)) \<Rightarrow> MasterServerLoop \<Rightarrow> MasterServerLoop option" where
  "region_upd p f m = do {
     let c = mp_iLastChannelId (ml_ctx m p);
     pChannelContext \<leftarrow> arr (ml_arrayChannelContext m) c;
     case pChannelContext of None \<Rightarrow> Some m
     | Some ch \<Rightarrow> do {
         let r = mp_iRegionServerId (ml_ctx m p);
         rs \<leftarrow> arr (ch_arrayRegionContext ch) r;
         Some (m\<lparr>ml_arrayChannelContext := (ml_arrayChannelContext m)[unat c :=
           Some (ch\<lparr>ch_arrayRegionContext := (ch_arrayRegionContext ch)[unat r :=
             rs\<lparr>rs_mPlayerContext := f (rs_mPlayerContext rs)\<rparr>]\<rparr>)]\<rparr>)
       }
   }"

definition AddPlayerToRegionServerContext :: "ptr \<Rightarrow> MasterServerLoop \<Rightarrow> MasterServerLoop option" where
  "AddPlayerToRegionServerContext p m = region_upd p (hm_insert (mp_iSessionId (ml_ctx m p)) p) m"

definition DeletePlayerFromRegionServerContext :: "ptr \<Rightarrow> MasterServerLoop \<Rightarrow> MasterServerLoop option" where
  "DeletePlayerFromRegionServerContext p m = region_upd p (\<lambda>f. f(mp_iSessionId (ml_ctx m p) := None)) m"

definition LoginSession2GateSession :: "ptr \<Rightarrow> u32 \<Rightarrow> u32 \<Rightarrow> MasterServerLoop \<Rightarrow> MasterServerLoop option" where
  "LoginSession2GateSession p iLoginSessionId iGateSessionId m = do {
     let m = m\<lparr>ml_LoginServerContext := (ml_LoginServerContext m)\<lparr>lc_mPlayerContext :=
        (lc_mPlayerContext (ml_LoginServerContext m))(iLoginSessionId := None)\<rparr>\<rparr>;
     let iServerId = (ucast (drop_bit 24 iGateSessionId) :: u8);
     pContext \<leftarrow> arr (ml_arrayGateServerContext m) iServerId;
     case pContext of None \<Rightarrow> Some m
     | Some c \<Rightarrow> do {
         let m = ctx_upd p (\<lambda>c. c\<lparr>mp_iSessionId := iGateSessionId\<rparr>) m;
         let m = m\<lparr>ml_arrayGateServerContext := (ml_arrayGateServerContext m)[unat iServerId :=
            Some (c\<lparr>gs_mPlayerContext := hm_insert iGateSessionId p (gs_mPlayerContext c)\<rparr>)]\<rparr>;
         Some (if ml_mPlayerContextBySessionId m iLoginSessionId \<noteq> None
           then m\<lparr>ml_mPlayerContextBySessionId :=
              hm_insert iGateSessionId p ((ml_mPlayerContextBySessionId m)(iLoginSessionId := None))\<rparr> else m)
       }
   }"

primrec gate_search :: "GateServerContext option list \<Rightarrow> nat \<Rightarrow> (nat \<times> GateServerContext) option" where
  "gate_search [] i = None"
| "gate_search (g # gs) i = (case g of
     Some c \<Rightarrow> (if gs_iSessionMax c > gs_iSessionCount c then Some (i, c) else gate_search gs (Suc i))
   | None \<Rightarrow> gate_search gs (Suc i))"

definition GateAllocReq :: "MasterServerLoop \<Rightarrow> int \<times> MasterServerLoop" where
  "GateAllocReq m = (case gate_search (ml_arrayGateServerContext m) 0 of
     None \<Rightarrow> (- 1, m)
   | Some (i, c) \<Rightarrow> (uint (gs_iServerId c), m\<lparr>ml_arrayGateServerContext := (ml_arrayGateServerContext m)[i :=
       Some (c\<lparr>gs_iSessionCount := gs_iSessionCount c + 1\<rparr>)]\<rparr>))"

definition AddPlayerToFinalizingQueue :: "ptr \<Rightarrow> MasterServerLoop \<Rightarrow> MasterServerLoop" where
  "AddPlayerToFinalizingQueue p m =
     (let m = ctx_upd p (\<lambda>c. c\<lparr>mp_bFinalizing := True\<rparr>) m in
      m\<lparr>ml_PlayerFinalizingQueue := ml_PlayerFinalizingQueue m @ [p]\<rparr>)"

definition Master_IsReadyForShutdown :: "MasterServerLoop \<Rightarrow> bool" where
  "Master_IsReadyForShutdown m \<longleftrightarrow> ml_iShutdownStatus m = READY_FOR_SHUTDOWN"

section \<open>Shutting players down\<close>

text \<open>The flags that the \<open>switch\<close> of \<open>ShutdownPlayer\<close> sets, as functions of the state.\<close>

definition bSendOnLoginFailedAck :: "int \<Rightarrow> bool" where
  "bSendOnLoginFailedAck s = in_states s [PLAYER_STATE_ONLOGINREQ, PLAYER_STATE_GATEALLOCREQ, PLAYER_STATE_GATEALLOCACK,
     PLAYER_STATE_GATEALLOCFAILACK]"

definition bSendGateReleaseReq :: "int \<Rightarrow> bool" where
  "bSendGateReleaseReq s = in_states s [PLAYER_STATE_GATEALLOCREQ, PLAYER_STATE_GATEALLOCACK, PLAYER_STATE_GATEALLOCNTF]"

definition bSendRegionRelease :: "int \<Rightarrow> bool" where
  "bSendRegionRelease s = in_states s [PLAYER_STATE_REGIONALLOCREQ, PLAYER_STATE_ONREGIONALLOCACK, PLAYER_STATE_CHANNELSELECTACK]"

definition bSendRegionLeave :: "int \<Rightarrow> bool" where
  "bSendRegionLeave s = in_states s [PLAYER_STATE_REGIONENTERREQ, PLAYER_STATE_ONCHANNELLEAVEREQ, PLAYER_STATE_FINALIZING]"

definition bSendCacheDisconnect :: "int \<Rightarrow> bool" where
  "bSendCacheDisconnect s \<longleftrightarrow> in_states s [PLAYER_STATE_CACHELOGINREQ, PLAYER_STATE_ONAVATARLISTREQ, PLAYER_STATE_AVATARLISTREQ,
     PLAYER_STATE_ONAVATARLISTACK, PLAYER_STATE_AVATARLISTACK, PLAYER_STATE_ONAVATARCREATEREQ, PLAYER_STATE_AVATARCREATEREQ,
     PLAYER_STATE_ONAVATARCREATEACK, PLAYER_STATE_ONAVATARSELECTREQ, PLAYER_STATE_AVATARSELECTREQ,
     PLAYER_STATE_ONAVATARSELECTACK, PLAYER_STATE_AVATARSELECTACK, PLAYER_STATE_CHANNELLISTNTF,
     PLAYER_STATE_ONCHANNELSELECTREQ, PLAYER_STATE_ONREGIONALLOCFAILACK, PLAYER_STATE_CHANNELSELECTFAILACK,
     PLAYER_STATE_ONCHANNELLEAVE_ONREGIONLEAVEREQ, PLAYER_STATE_FINALIZING_ONREGIONLEAVEREQ] \<or>
     bSendRegionRelease s \<or> bSendRegionLeave s"

definition bSendGateDisconnect :: "int \<Rightarrow> bool" where
  "bSendGateDisconnect s \<longleftrightarrow> in_states s [PLAYER_STATE_ONGATELOGINREQ, PLAYER_STATE_LOGOUT] \<or> bSendCacheDisconnect s"

text \<open>\<open>if (flag && !IsReadyForShutdown()) send\<close>, the result being ignored.\<close>

definition send_if :: "menv \<Rightarrow> bool \<Rightarrow> server \<Rightarrow> server_msg \<Rightarrow> MasterServerLoop \<Rightarrow> MasterServerLoop option" where
  "send_if E flag dest msg m =
     (if flag \<and> \<not> Master_IsReadyForShutdown m then do { (iRet, m) \<leftarrow> peer_send E dest msg m; Some m } else Some m)"

text \<open>The part of \<open>ShutdownPlayer\<close> that asks the region to let the player go; \<open>True\<close> when it returns early.\<close>

definition leave_region :: "menv \<Rightarrow> ptr \<Rightarrow> int \<Rightarrow> MasterServerLoop \<Rightarrow> (bool \<times> MasterServerLoop) option" where
  "leave_region E p s m =
     (if bSendRegionLeave s \<and> \<not> Master_IsReadyForShutdown m then do {
        (iRet, m) \<leftarrow> peer_send E (Server (mp_iRegionServerId (ml_ctx m p))) (Msg_RegionLeaveReq (mp_iSessionId (ml_ctx m p))) m;
        if iRet \<noteq> 0 then Some (False, m) else do {
          (r, m) \<leftarrow> fsm p PLAYER_EVENT_REGIONLEAVEACK m;
          Some (True, m)
        }
      } else Some (False, m))"

definition ShutdownPlayer :: "menv \<Rightarrow> ptr \<Rightarrow> MasterServerLoop \<Rightarrow> MasterServerLoop option" where
  "ShutdownPlayer E p m =
     (if mp_bFinalizing (ml_ctx m p) then Some m else do {
        let s = curr p m;
        m \<leftarrow> (if s = st PLAYER_STATE_REGIONENTERREQ then do { (r, m) \<leftarrow> fsm p PLAYER_EVENT_FINALIZE m; Some m } else Some m);
        m \<leftarrow> (if bSendRegionRelease s \<and> \<not> Master_IsReadyForShutdown m then do {
            (iRet, m) \<leftarrow> peer_send E (Server (mp_iRegionServerId (ml_ctx m p))) (Msg_RegionReleaseReq (mp_iSessionId (ml_ctx m p))) m;
            DeletePlayerFromRegionServerContext p m
          } else Some m);
        (left, m) \<leftarrow> leave_region E p s m;
        if left then Some m else do {
          m \<leftarrow> send_if E (bSendOnLoginFailedAck s) LoginServer (Msg_OnLoginFailedAck (mp_iSessionId (ml_ctx m p)) 3) m;
          m \<leftarrow> send_if E (bSendGateReleaseReq s) (Server (mp_iGateServerId (ml_ctx m p)))
            (Msg_GateReleaseReq (mp_iSessionId (ml_ctx m p)) (mp_strAccountName (ml_ctx m p))) m;
          m \<leftarrow> send_if E (bSendGateDisconnect s) (Server (mp_iGateServerId (ml_ctx m p)))
            (Msg_Disconnect (mp_iSessionId (ml_ctx m p)) 0) m;
          m \<leftarrow> send_if E (bSendCacheDisconnect s) CacheServer (Msg_CacheLogoutReq (mp_iSessionId (ml_ctx m p))) m;
          Some (AddPlayerToFinalizingQueue p m)
        }
      })"

definition MasterPlayer_Clear :: "MasterPlayerContext \<Rightarrow> MasterPlayerContext" where
  "MasterPlayer_Clear c = c\<lparr>mp_iSessionId := 0, mp_strAccountName := [], mp_iGateServerId := 0, mp_bFinalizing := False,
     mp_StateMachine := SetCurrState (st PLAYER_STATE_NONE) (mp_StateMachine c), mp_iAvatarCount := 0,
     mp_strAvatarName := [], mp_iAvatarId := 0, mp_iLastChannelId := 0, mp_iRegionServerId := 0\<rparr>"

definition DeletePlayer :: "ptr \<Rightarrow> MasterServerLoop \<Rightarrow> MasterServerLoop option" where
  "DeletePlayer p m = do {
     let s = curr p m;
     let bNeedDeleteLoginServerContext = in_states s [PLAYER_STATE_ONLOGINREQ, PLAYER_STATE_GATEALLOCREQ, PLAYER_STATE_GATEALLOCFAILACK];
     let bNeedDeleteRegionServerContext = in_states s [PLAYER_STATE_ONREGIONALLOCFAILACK, PLAYER_STATE_CHANNELSELECTFAILACK,
       PLAYER_STATE_ONCHANNELLEAVE_ONREGIONLEAVEREQ, PLAYER_STATE_ONCHANNELLEAVE_REGIONLEAVEACK,
       PLAYER_STATE_FINALIZING_ONREGIONLEAVEREQ, PLAYER_STATE_REGIONALLOCREQ, PLAYER_STATE_ONREGIONALLOCACK,
       PLAYER_STATE_CHANNELSELECTACK, PLAYER_STATE_REGIONENTERREQ, PLAYER_STATE_ONCHANNELLEAVEREQ, PLAYER_STATE_FINALIZING,
       PLAYER_STATE_FINALIZING_REGIONLEAVEACK, PLAYER_STATE_LOGOUT];
     let bNeedDeleteGateServerContext = (in_states s [PLAYER_STATE_GATEALLOCACK, PLAYER_STATE_GATEALLOCNTF, PLAYER_STATE_ONGATELOGINREQ,
       PLAYER_STATE_CACHELOGINREQ, PLAYER_STATE_ONAVATARLISTREQ, PLAYER_STATE_AVATARLISTREQ, PLAYER_STATE_ONAVATARLISTACK,
       PLAYER_STATE_AVATARLISTACK, PLAYER_STATE_ONAVATARCREATEREQ, PLAYER_STATE_AVATARCREATEREQ, PLAYER_STATE_ONAVATARCREATEACK,
       PLAYER_STATE_ONAVATARSELECTREQ, PLAYER_STATE_AVATARSELECTREQ, PLAYER_STATE_ONAVATARSELECTACK, PLAYER_STATE_AVATARSELECTACK,
       PLAYER_STATE_CHANNELLISTNTF, PLAYER_STATE_ONCHANNELSELECTREQ] \<or> bNeedDeleteRegionServerContext);
     let m = (if bNeedDeleteLoginServerContext then DeletePlayerFromLoginServerContext p m else m);
     m \<leftarrow> (if bNeedDeleteGateServerContext then DeletePlayerFromGateServerContext p m else Some m);
     m \<leftarrow> (if bNeedDeleteRegionServerContext then DeletePlayerFromRegionServerContext p m else Some m);
     let m = m\<lparr>ml_mPlayerContextByName := (ml_mPlayerContextByName m)(mp_strAccountName (ml_ctx m p) := None)\<rparr>;
     let m = m\<lparr>ml_mPlayerContextBySessionId := (ml_mPlayerContextBySessionId m)(mp_iSessionId (ml_ctx m p) := None)\<rparr>;
     let m = ctx_upd p MasterPlayer_Clear m;
     pool \<leftarrow> ObjectPool_Free p (ml_PlayerContextPool m);
     Some (m\<lparr>ml_PlayerContextPool := pool\<rparr>)
   }"

section \<open>The channels\<close>

text \<open>One \<open>ftdChannelData\<close>: the name, padded with zeros to 33 bytes, and the state.\<close>

definition ftdChannelData_bytes :: "byte list \<Rightarrow> byte list" where
  "ftdChannelData_bytes name = name @ replicate (NAME_MAX + 1 - length name) 0 @ [0]"

primrec channel_data :: "menv \<Rightarrow> ChannelContext option list \<Rightarrow> byte list option option" where
  "channel_data E [] = Some (Some [])"
| "channel_data E (c # cs) = (case c of None \<Rightarrow> None
     | Some ch \<Rightarrow> (case WChar2Char (me_narrow E) (ch_strChannelName ch) (NAME_MAX + 1) of
         None \<Rightarrow> Some None
       | Some name \<Rightarrow> do { r \<leftarrow> channel_data E cs; Some (map_option (\<lambda>ds. ftdChannelData_bytes name @ ds) r) }))"

definition MasterPlayer_SendChannelList :: "menv \<Rightarrow> ptr \<Rightarrow> u8 \<Rightarrow> byte list \<Rightarrow> MasterServerLoop \<Rightarrow> (i32 \<times> MasterServerLoop) option" where
  "MasterPlayer_SendChannelList E p iChannelCount arrayData m = do {
     (iRet, m) \<leftarrow> Send_ChannelListNtf iChannelCount arrayData m;
     if iRet \<noteq> 0 then Some (- 1, m) else do {
       (iRet, m) \<leftarrow> send_delayed E p m;
       Some (if iRet \<noteq> 0 then - 1 else 0, m)
     }
   }"

definition channels_in_use :: "MasterServerLoop \<Rightarrow> ChannelContext option list option" where
  "channels_in_use m = (if unat (ml_iChannelCount m) \<le> length (ml_arrayChannelContext m)
     then Some (take (unat (ml_iChannelCount m)) (ml_arrayChannelContext m)) else None)"

definition SendChannelList :: "menv \<Rightarrow> ptr \<Rightarrow> MasterServerLoop \<Rightarrow> (i32 \<times> MasterServerLoop) option" where
  "SendChannelList E p m = do {
     cs \<leftarrow> channels_in_use m;
     r \<leftarrow> channel_data E cs;
     case r of None \<Rightarrow> Some (- 1, m)
     | Some ds \<Rightarrow> MasterPlayer_SendChannelList E p (ml_iChannelCount m) ds m
   }"

definition GetChannelId :: "tstring \<Rightarrow> MasterServerLoop \<Rightarrow> u8 option" where
  "GetChannelId strChannelName m = do {
     cs \<leftarrow> channels_in_use m;
     Some (case find (\<lambda>c. case c of None \<Rightarrow> False | Some ch \<Rightarrow> ch_strChannelName ch = strChannelName) cs of
       Some (Some ch) \<Rightarrow> ch_iChannelId ch | _ \<Rightarrow> INVALID_CHANNEL_ID)
   }"

definition GetInitialRegionServerId :: "u8 \<Rightarrow> MasterServerLoop \<Rightarrow> u8 option" where
  "GetInitialRegionServerId iChannelId m = do {
     cs \<leftarrow> channels_in_use m;
     Some (case find (\<lambda>c. case c of None \<Rightarrow> False | Some ch \<Rightarrow> ch_iChannelId ch = iChannelId) cs of
       Some (Some ch) \<Rightarrow> ch_iInitialRegionServerId ch | _ \<Rightarrow> INVALID_SERVER_ID)
   }"

section \<open>The player's handlers: login\<close>

definition MasterPlayer_OnLoginReq :: "menv \<Rightarrow> ptr \<Rightarrow> u32 \<Rightarrow> tstring \<Rightarrow> MasterServerLoop \<Rightarrow> MasterServerLoop option" where
  "MasterPlayer_OnLoginReq E p iSessionId strAccountName m = do {
     (r, m) \<leftarrow> fsm p PLAYER_EVENT_ONLOGINREQ m;
     if r \<noteq> st PLAYER_STATE_ONLOGINREQ then ShutdownPlayer E p m else do {
       let m = ctx_upd p (\<lambda>c. c\<lparr>mp_iSessionId := iSessionId, mp_strAccountName := strAccountName\<rparr>) m;
       let (iRet, m) = GateAllocReq m;
       if iRet < 0 then Some m else do {
         let m = ctx_upd p (\<lambda>c. c\<lparr>mp_iGateServerId := word_of_int iRet\<rparr>) m;
         (iRet, m) \<leftarrow> peer_send E (Server (mp_iGateServerId (ml_ctx m p))) (Msg_GateAllocReq (mp_iSessionId (ml_ctx m p)) strAccountName) m;
         if iRet \<noteq> 0 then Some m else do {
           (r, m) \<leftarrow> fsm p PLAYER_EVENT_GATEALLOCREQ m;
           if r \<noteq> st PLAYER_STATE_GATEALLOCREQ then ShutdownPlayer E p m else Some m
         }
       }
     }
   }"

definition GetGateConfigItem :: "menv \<Rightarrow> u8 \<Rightarrow> GateConfigItem option" where
  "GetGateConfigItem E iServerId = find (\<lambda>g. gc_iServerId g = iServerId) (me_gates E)"

definition MasterPlayer_GateAllocAck :: "menv \<Rightarrow> ptr \<Rightarrow> u8 \<Rightarrow> u32 \<Rightarrow> MasterServerLoop \<Rightarrow> MasterServerLoop option" where
  "MasterPlayer_GateAllocAck E p iGateServerId iGateSessionId m =
     (if iGateServerId = 0 then do {
        (r, m) \<leftarrow> fsm p PLAYER_EVENT_GATEALLOCFAILACK m;
        ShutdownPlayer E p m
      } else do {
        (r, m) \<leftarrow> fsm p PLAYER_EVENT_GATEALLOCACK m;
        if r \<noteq> st PLAYER_STATE_GATEALLOCACK then ShutdownPlayer E p m else do {
          let m = ctx_upd p (\<lambda>c. c\<lparr>mp_iGateServerId := iGateServerId\<rparr>) m;
          case GetGateConfigItem E iGateServerId of
            None \<Rightarrow> ShutdownPlayer E p m
          | Some pConfigItem \<Rightarrow> do {
              (iRet, m) \<leftarrow> LoginNtf (gc_iServerIP pConfigItem) (gc_iServerPort pConfigItem) m;
              if iRet \<noteq> 0 then ShutdownPlayer E p m else do {
                (iRet, m) \<leftarrow> forward_delayed E LoginServer p m;
                if iRet \<noteq> 0 then ShutdownPlayer E p m else do {
                  (r, m) \<leftarrow> fsm p PLAYER_EVENT_GATEALLOCNTF m;
                  if r \<noteq> st PLAYER_STATE_GATEALLOCNTF then ShutdownPlayer E p m
                  else LoginSession2GateSession p (mp_iSessionId (ml_ctx m p)) iGateSessionId m
                }
              }
            }
        }
      })"

definition MasterPlayer_OnGateLoginReq :: "menv \<Rightarrow> ptr \<Rightarrow> MasterServerLoop \<Rightarrow> MasterServerLoop option" where
  "MasterPlayer_OnGateLoginReq E p m =
     (if mp_bFinalizing (ml_ctx m p) then Some m else do {
        (r, m) \<leftarrow> fsm p PLAYER_EVENT_ONGATELOGINREQ m;
        if r \<noteq> st PLAYER_STATE_ONGATELOGINREQ then ShutdownPlayer E p m else do {
          (iRet, m) \<leftarrow> peer_send E CacheServer (Msg_CacheLoginReq (mp_iSessionId (ml_ctx m p)) (mp_strAccountName (ml_ctx m p))) m;
          if iRet \<noteq> 0 then ShutdownPlayer E p m else do {
            (r, m) \<leftarrow> fsm p PLAYER_EVENT_CACHELOGINREQ m;
            Some m
          }
        }
      })"

definition MasterPlayer_OnSessionDisconnect :: "menv \<Rightarrow> ptr \<Rightarrow> MasterServerLoop \<Rightarrow> MasterServerLoop option" where
  "MasterPlayer_OnSessionDisconnect E p m = ShutdownPlayer E p m"

section \<open>The player's handlers: avatars\<close>

definition MasterPlayer_OnAvatarListReq :: "menv \<Rightarrow> ptr \<Rightarrow> MasterServerLoop \<Rightarrow> MasterServerLoop option" where
  "MasterPlayer_OnAvatarListReq E p m =
     (if mp_bFinalizing (ml_ctx m p) then Some m else do {
        (r, m) \<leftarrow> fsm p PLAYER_EVENT_ONAVATARLISTREQ m;
        if r \<noteq> st PLAYER_STATE_ONAVATARLISTREQ then ShutdownPlayer E p m else do {
          (iRet, m) \<leftarrow> forward_delayed E CacheServer p m;
          if iRet \<noteq> 0 then ShutdownPlayer E p m else do {
            (r, m) \<leftarrow> fsm p PLAYER_EVENT_AVATARLISTREQ m;
            if r \<noteq> st PLAYER_STATE_AVATARLISTREQ then ShutdownPlayer E p m else Some m
          }
        }
      })"

definition MasterPlayer_OnAvatarListAck :: "menv \<Rightarrow> ptr \<Rightarrow> i32 \<Rightarrow> prdAvatar list \<Rightarrow> MasterServerLoop \<Rightarrow> MasterServerLoop option" where
  "MasterPlayer_OnAvatarListAck E p iReturn arrayAvatar m =
     (if mp_bFinalizing (ml_ctx m p) then Some m else do {
        (r, m) \<leftarrow> fsm p PLAYER_EVENT_ONAVATARLISTACK m;
        if r \<noteq> st PLAYER_STATE_ONAVATARLISTACK then ShutdownPlayer E p m else
        if iReturn \<noteq> 0 then ShutdownPlayer E p m else do {
          avatars \<leftarrow> mem_write (mp_arrayAvatar (ml_ctx m p)) 0 arrayAvatar;
          let m = ctx_upd p (\<lambda>c. c\<lparr>mp_iAvatarCount := of_nat (length arrayAvatar), mp_arrayAvatar := avatars\<rparr>) m;
          (iRet, m) \<leftarrow> send_delayed E p m;
          m \<leftarrow> (if iRet \<noteq> 0 then ShutdownPlayer E p m else Some m);
          (r, m) \<leftarrow> fsm p PLAYER_EVENT_AVATARLISTACK m;
          Some m
        }
      })"

definition MasterPlayer_OnAvatarCreateReq :: "menv \<Rightarrow> ptr \<Rightarrow> MasterServerLoop \<Rightarrow> MasterServerLoop option" where
  "MasterPlayer_OnAvatarCreateReq E p m =
     (if mp_bFinalizing (ml_ctx m p) then Some m else do {
        (r, m) \<leftarrow> fsm p PLAYER_EVENT_ONAVATARCREATEREQ m;
        if r \<noteq> st PLAYER_STATE_ONAVATARCREATEREQ then ShutdownPlayer E p m else
        if unat (mp_iAvatarCount (ml_ctx m p)) \<ge> AVATARCOUNT_MAX then ShutdownPlayer E p m else do {
          (iRet, m) \<leftarrow> forward_delayed E CacheServer p m;
          if iRet \<noteq> 0 then ShutdownPlayer E p m else do {
            (r, m) \<leftarrow> fsm p PLAYER_EVENT_AVATARCREATEREQ m;
            Some m
          }
        }
      })"

definition MasterPlayer_OnAvatarCreateAck :: "menv \<Rightarrow> ptr \<Rightarrow> i32 \<Rightarrow> prdAvatar \<Rightarrow> MasterServerLoop \<Rightarrow> MasterServerLoop option" where
  "MasterPlayer_OnAvatarCreateAck E p iReturn newAvatar m =
     (if mp_bFinalizing (ml_ctx m p) then Some m else do {
        (r, m) \<leftarrow> fsm p PLAYER_EVENT_ONAVATARCREATEACK m;
        if r \<noteq> st PLAYER_STATE_ONAVATARCREATEACK then ShutdownPlayer E p m else
        if iReturn \<noteq> 0 then ShutdownPlayer E p m else
        if unat (mp_iAvatarCount (ml_ctx m p)) \<ge> AVATARCOUNT_MAX then Some m else do {
          avatars \<leftarrow> mem_write (mp_arrayAvatar (ml_ctx m p)) (unat (mp_iAvatarCount (ml_ctx m p))) [newAvatar];
          let m = ctx_upd p (\<lambda>c. c\<lparr>mp_iAvatarCount := mp_iAvatarCount c + 1, mp_arrayAvatar := avatars\<rparr>) m;
          (iRet, m) \<leftarrow> send_delayed E p m;
          m \<leftarrow> (if iRet \<noteq> 0 then ShutdownPlayer E p m else Some m);
          (r, m) \<leftarrow> fsm p PLAYER_EVENT_AVATARCREATEACK m;
          Some m
        }
      })"

definition MasterPlayer_OnAvatarSelectReq :: "menv \<Rightarrow> ptr \<Rightarrow> tstring \<Rightarrow> MasterServerLoop \<Rightarrow> MasterServerLoop option" where
  "MasterPlayer_OnAvatarSelectReq E p strAvatarName m =
     (if mp_bFinalizing (ml_ctx m p) then Some m else do {
        (r, m) \<leftarrow> fsm p PLAYER_EVENT_ONAVATARSELECTREQ m;
        if r \<noteq> st PLAYER_STATE_ONAVATARSELECTREQ then ShutdownPlayer E p m else do {
          avatars \<leftarrow> mem_read (mp_arrayAvatar (ml_ctx m p)) 0 (unat (mp_iAvatarCount (ml_ctx m p)));
          if \<not> list_ex (\<lambda>a. av_strAvatarName a = strAvatarName) avatars then ShutdownPlayer E p m else do {
            (iRet, m) \<leftarrow> forward_delayed E CacheServer p m;
            if iRet \<noteq> 0 then ShutdownPlayer E p m else do {
              (r, m) \<leftarrow> fsm p PLAYER_EVENT_AVATARSELECTREQ m;
              Some m
            }
          }
        }
      })"

definition MasterPlayer_OnAvatarSelectAck :: "menv \<Rightarrow> ptr \<Rightarrow> i32 \<Rightarrow> tstring \<Rightarrow> u64 \<Rightarrow> u8 \<Rightarrow> MasterServerLoop \<Rightarrow> MasterServerLoop option" where
  "MasterPlayer_OnAvatarSelectAck E p iReturn strAvatarName iAvatarId iLastChannelId m =
     (if mp_bFinalizing (ml_ctx m p) then Some m else do {
        (r, m) \<leftarrow> fsm p PLAYER_EVENT_ONAVATARSELECTACK m;
        if r \<noteq> st PLAYER_STATE_ONAVATARSELECTACK then ShutdownPlayer E p m else
        if iReturn \<noteq> 0 then ShutdownPlayer E p m else do {
          let m = ctx_upd p (\<lambda>c. c\<lparr>mp_strAvatarName := strAvatarName, mp_iAvatarId := iAvatarId, mp_iLastChannelId := iLastChannelId\<rparr>) m;
          (iRet, m) \<leftarrow> send_delayed E p m;
          m \<leftarrow> (if iRet \<noteq> 0 then ShutdownPlayer E p m else Some m);
          (r, m) \<leftarrow> fsm p PLAYER_EVENT_AVATARSELECTACK m;
          if r \<noteq> st PLAYER_STATE_AVATARSELECTACK then Some m else do {
            (iRet, m) \<leftarrow> SendChannelList E p m;
            if iRet \<noteq> 0 then ShutdownPlayer E p m else do {
              (r, m) \<leftarrow> fsm p PLAYER_EVENT_CHANNELLISTNTF m;
              Some m
            }
          }
        }
      })"

section \<open>The player's handlers: channels and regions\<close>

definition MasterPlayer_OnChannelSelectReq :: "menv \<Rightarrow> ptr \<Rightarrow> tstring \<Rightarrow> MasterServerLoop \<Rightarrow> MasterServerLoop option" where
  "MasterPlayer_OnChannelSelectReq E p strChannelName m =
     (if mp_bFinalizing (ml_ctx m p) then Some m else do {
        (r, m) \<leftarrow> fsm p PLAYER_EVENT_ONCHANNELSELECTREQ m;
        if r \<noteq> st PLAYER_STATE_ONCHANNELSELECTREQ then ShutdownPlayer E p m else do {
          iChannelId \<leftarrow> GetChannelId strChannelName m;
          if iChannelId = INVALID_CHANNEL_ID then do {
            (iRet, m) \<leftarrow> Send_ChannelSelectAck (- 1) m;
            if iRet \<noteq> 0 then Some m else do {
              (iRet, m) \<leftarrow> send_delayed E p m;
              Some m
            }
          } else do {
            iRegionServerId \<leftarrow> GetInitialRegionServerId iChannelId m;
            (iRet, m) \<leftarrow> peer_send E (Server iRegionServerId)
              (Msg_RegionAllocReq (mp_iSessionId (ml_ctx m p)) (mp_iAvatarId (ml_ctx m p)) (mp_strAvatarName (ml_ctx m p))) m;
            if iRet \<noteq> 0 then ShutdownPlayer E p m else do {
              let m = ctx_upd p (\<lambda>c. c\<lparr>mp_iLastChannelId := iChannelId\<rparr>) m;
              (r, m) \<leftarrow> fsm p PLAYER_EVENT_REGIONALLOCREQ m;
              Some m
            }
          }
        }
      })"

definition MasterPlayer_OnChannelLeaveReq :: "ptr \<Rightarrow> MasterServerLoop \<Rightarrow> MasterServerLoop option" where
  "MasterPlayer_OnChannelLeaveReq p m = Some m"

text \<open>The two ends of \<open>OnRegionAllocAck\<close>: the region has refused, the region has accepted.\<close>

definition region_refused :: "menv \<Rightarrow> ptr \<Rightarrow> i32 \<Rightarrow> MasterServerLoop \<Rightarrow> MasterServerLoop option" where
  "region_refused E p iReturn m = do {
     (r, m) \<leftarrow> fsm p PLAYER_EVENT_ONREGIONALLOCFAILACK m;
     (iRet, m) \<leftarrow> Send_ChannelSelectAck iReturn m;
     if iRet \<noteq> 0 then ShutdownPlayer E p m else do {
       (iRet, m) \<leftarrow> send_delayed E p m;
       if iRet \<noteq> 0 then ShutdownPlayer E p m else do {
         (r, m) \<leftarrow> fsm p PLAYER_EVENT_CHANNELSELECTACK m;
         (iRet, m) \<leftarrow> SendChannelList E p m;
         if iRet \<noteq> 0 then ShutdownPlayer E p m else do {
           (r, m) \<leftarrow> fsm p PLAYER_EVENT_CHANNELLISTNTF m;
           Some m
         }
       }
     }
   }"

definition region_accepted :: "menv \<Rightarrow> ptr \<Rightarrow> u8 \<Rightarrow> MasterServerLoop \<Rightarrow> MasterServerLoop option" where
  "region_accepted E p iRegionServerId m = do {
     let m = ctx_upd p (\<lambda>c. c\<lparr>mp_iRegionServerId := iRegionServerId\<rparr>) m;
     (iRet, m) \<leftarrow> Send_ChannelSelectAck 0 m;
     if iRet \<noteq> 0 then ShutdownPlayer E p m else do {
       (iRet, m) \<leftarrow> send_delayed E p m;
       if iRet \<noteq> 0 then ShutdownPlayer E p m else do {
         (r, m) \<leftarrow> fsm p PLAYER_EVENT_CHANNELSELECTACK m;
         if r \<noteq> st PLAYER_STATE_CHANNELSELECTACK then Some m else do {
           (iRet, m) \<leftarrow> peer_send E (Server (mp_iRegionServerId (ml_ctx m p))) (Msg_RegionEnterReq (mp_iSessionId (ml_ctx m p))) m;
           if iRet \<noteq> 0 then ShutdownPlayer E p m else do {
             (r, m) \<leftarrow> fsm p PLAYER_EVENT_REGIONENTERREQ m;
             if r \<noteq> st PLAYER_STATE_REGIONENTERREQ then Some m else AddPlayerToRegionServerContext p m
           }
         }
       }
     }
   }"

definition MasterPlayer_OnRegionAllocAck :: "menv \<Rightarrow> ptr \<Rightarrow> u8 \<Rightarrow> i32 \<Rightarrow> MasterServerLoop \<Rightarrow> MasterServerLoop option" where
  "MasterPlayer_OnRegionAllocAck E p iRegionServerId iReturn m =
     (if mp_bFinalizing (ml_ctx m p) then Some m else do {
        (r, m) \<leftarrow> fsm p PLAYER_EVENT_ONREGIONALLOCACK m;
        if r \<noteq> st PLAYER_STATE_ONREGIONALLOCACK then ShutdownPlayer E p m else
        if iReturn \<noteq> 0 then region_refused E p iReturn m else region_accepted E p iRegionServerId m
      })"

definition MasterPlayer_OnRegionLeaveReq :: "menv \<Rightarrow> ptr \<Rightarrow> MasterServerLoop \<Rightarrow> MasterServerLoop option" where
  "MasterPlayer_OnRegionLeaveReq E p m = do {
     (r, m) \<leftarrow> fsm p PLAYER_EVENT_ONREGIONLEAVEREQ m;
     if r < 0 then ShutdownPlayer E p m else do {
       m \<leftarrow> DeletePlayerFromRegionServerContext p m;
       (iRet, m) \<leftarrow> Send_ChannelLeaveAck m;
       if iRet \<noteq> 0 then ShutdownPlayer E p m else do {
         (iRet, m) \<leftarrow> send_delayed E p m;
         if iRet \<noteq> 0 then ShutdownPlayer E p m else
         if curr p m = st PLAYER_STATE_ONCHANNELLEAVE_ONREGIONLEAVEREQ then do {
           (iRet, m) \<leftarrow> SendChannelList E p m;
           (r, m) \<leftarrow> fsm p PLAYER_EVENT_CHANNELLISTNTF m;
           Some m
         } else if curr p m = st PLAYER_STATE_ONCHANNELLEAVE_REGIONLEAVEACK then do {
           (iRet, m) \<leftarrow> peer_send E CacheServer (Msg_CacheLogoutReq (mp_iSessionId (ml_ctx m p))) m;
           if iRet \<noteq> 0 then ShutdownPlayer E p m else do {
             (r, m) \<leftarrow> fsm p PLAYER_EVENT_LOGOUT m;
             ShutdownPlayer E p m
           }
         } else Some m
       }
     }
   }"

definition MasterPlayer_OnRegionPlayerFailReq :: "menv \<Rightarrow> ptr \<Rightarrow> MasterServerLoop \<Rightarrow> MasterServerLoop option" where
  "MasterPlayer_OnRegionPlayerFailReq E p m =
     (if mp_bFinalizing (ml_ctx m p) then Some m else do {
        (iRet, m) \<leftarrow> peer_send E (Server (mp_iGateServerId (ml_ctx m p))) (Msg_Disconnect (mp_iSessionId (ml_ctx m p)) 0) m;
        (iRet, m) \<leftarrow> peer_send E CacheServer (Msg_CacheLogoutReq (mp_iSessionId (ml_ctx m p))) m;
        Some (AddPlayerToFinalizingQueue p m)
      })"

section \<open>Packets forwarded by the gate and the cache\<close>

definition ftdAvatar2prdAvatar :: "menv \<Rightarrow> ftdAvatar \<Rightarrow> prdAvatar option" where
  "ftdAvatar2prdAvatar E a = do {
     w \<leftarrow> Char2WChar (me_wide E) (fa_strAvatarName a) (NAME_MAX + 1);
     Some \<lparr>av_iAvatarId = fa_iAvatarId a, av_strAvatarName = w\<rparr>
   }"

text \<open>The loop of \<open>AvatarListAck\<close> fills an array of \<open>AVATARCOUNT_MAX\<close>; a conversion that fails ends the handler.\<close>

primrec convert_avatars :: "menv \<Rightarrow> ftdAvatar list \<Rightarrow> nat \<Rightarrow> prdAvatar list option option" where
  "convert_avatars E [] i = Some (Some [])"
| "convert_avatars E (a # as) i =
     (if i \<ge> AVATARCOUNT_MAX then None else
      case ftdAvatar2prdAvatar E a of None \<Rightarrow> Some None
      | Some b \<Rightarrow> do { r \<leftarrow> convert_avatars E as (Suc i); Some (map_option (\<lambda>bs. b # bs) r) })"

text \<open>The conversion of a name into a local array of \<open>NAME_MAX + 1\<close> characters, which is then terminated
  once more at the returned length: a name of the full length is terminated behind the array.\<close>

definition wide_name :: "menv \<Rightarrow> byte list \<Rightarrow> tstring option option" where
  "wide_name E s = (case Char2WChar (me_wide E) s (NAME_MAX + 1) of
     None \<Rightarrow> Some None
   | Some w \<Rightarrow> (if length w + 1 < NAME_MAX + 1 then Some (Some w) else None))"

definition on_packet :: "menv \<Rightarrow> ptr \<Rightarrow> gate_packet \<Rightarrow> MasterServerLoop \<Rightarrow> MasterServerLoop option" where
  "on_packet E p pk m = (case pk of
     AvatarListReq \<Rightarrow> MasterPlayer_OnAvatarListReq E p m
   | AvatarListAck iReturn avs \<Rightarrow> do {
       r \<leftarrow> convert_avatars E avs 0;
       case r of None \<Rightarrow> Some m | Some as \<Rightarrow> MasterPlayer_OnAvatarListAck E p iReturn as m
     }
   | AvatarCreateReq name \<Rightarrow> (case Char2WChar (me_wide E) name (NAME_MAX + 1) of
       None \<Rightarrow> Some m | Some w \<Rightarrow> MasterPlayer_OnAvatarCreateReq E p m)
   | AvatarCreateAck iReturn av \<Rightarrow> (case ftdAvatar2prdAvatar E av of
       None \<Rightarrow> Some m | Some a \<Rightarrow> MasterPlayer_OnAvatarCreateAck E p iReturn a m)
   | AvatarSelectReq name \<Rightarrow> do {
       r \<leftarrow> wide_name E name;
       case r of None \<Rightarrow> Some m | Some w \<Rightarrow> MasterPlayer_OnAvatarSelectReq E p w m
     }
   | AvatarSelectAck iReturn name iAvatarId iLastChannelId \<Rightarrow> (case Char2WChar (me_wide E) name (NAME_MAX + 1) of
       None \<Rightarrow> Some m | Some w \<Rightarrow> MasterPlayer_OnAvatarSelectAck E p iReturn w iAvatarId iLastChannelId m)
   | ChannelSelectReq name \<Rightarrow> do {
       r \<leftarrow> wide_name E name;
       case r of None \<Rightarrow> Some m | Some w \<Rightarrow> MasterPlayer_OnChannelSelectReq E p w m
     }
   | ChannelLeaveReq \<Rightarrow> MasterPlayer_OnChannelLeaveReq p m
   | _ \<Rightarrow> Some m)"

section \<open>Commands\<close>

definition by_session :: "u32 \<Rightarrow> (ptr \<Rightarrow> MasterServerLoop \<Rightarrow> MasterServerLoop option) \<Rightarrow> MasterServerLoop \<Rightarrow> MasterServerLoop option" where
  "by_session iSessionId f m = (case ml_mPlayerContextBySessionId m iSessionId of None \<Rightarrow> Some m | Some p \<Rightarrow> f p m)"

primrec shutdown_all :: "menv \<Rightarrow> ptr list \<Rightarrow> MasterServerLoop \<Rightarrow> MasterServerLoop option" where
  "shutdown_all E [] m = Some m"
| "shutdown_all E (p # ps) m = do { m \<leftarrow> ShutdownPlayer E p m; shutdown_all E ps m }"

definition Master_OnCommandShutdown :: "menv \<Rightarrow> MasterServerLoop \<Rightarrow> MasterServerLoop option" where
  "Master_OnCommandShutdown E m =
     shutdown_all E (me_order E (ml_mPlayerContextByName m)) (m\<lparr>ml_iShutdownStatus := START_SHUTDOWN\<rparr>)"

definition Master_OnCommandOnLoginReport :: "u8 \<Rightarrow> MasterServerLoop \<Rightarrow> MasterServerLoop option" where
  "Master_OnCommandOnLoginReport iServerId m = Some (m\<lparr>ml_LoginServerContext := (ml_LoginServerContext m)\<lparr>lc_bIsConnected := True,
     lc_iServerId := iServerId, lc_dwLastReportTime := ml_dwCurrTime m\<rparr>\<rparr>)"

definition Master_OnCommandOnGateReport :: "u8 \<Rightarrow> u16 \<Rightarrow> MasterServerLoop \<Rightarrow> MasterServerLoop option" where
  "Master_OnCommandOnGateReport iServerId iSessionCount m =
     (if unat iServerId > SERVERCOUNT_MAX then Some m else do {
        pContext \<leftarrow> arr (ml_arrayGateServerContext m) iServerId;
        case pContext of None \<Rightarrow> Some m
        | Some c \<Rightarrow> Some (m\<lparr>ml_arrayGateServerContext := (ml_arrayGateServerContext m)[unat iServerId :=
            Some (c\<lparr>gs_bIsConnected := True, gs_dwLastReportTime := ml_dwCurrTime m, gs_iSessionCount := iSessionCount\<rparr>)]\<rparr>)
      })"

definition Master_OnCommandOnLoginReq :: "menv \<Rightarrow> u32 \<Rightarrow> tstring \<Rightarrow> MasterServerLoop \<Rightarrow> MasterServerLoop option" where
  "Master_OnCommandOnLoginReq E iSessionId strAccountName m =
     (if \<not> lc_bIsConnected (ml_LoginServerContext m) then do {
        (iRet, m) \<leftarrow> peer_send E LoginServer (Msg_OnLoginFailedAck iSessionId 1) m;
        Some m
      } else case ml_mPlayerContextByName m strAccountName of
        Some p \<Rightarrow> do {
          (iRet, m) \<leftarrow> peer_send E LoginServer (Msg_OnLoginFailedAck iSessionId 2) m;
          ShutdownPlayer E p m
        }
      | None \<Rightarrow> do {
          (pPlayerContext, pool) \<leftarrow> ObjectPool_Allocate () (ml_PlayerContextPool m);
          let m = m\<lparr>ml_PlayerContextPool := pool\<rparr>;
          case pPlayerContext of
            None \<Rightarrow> do {
              (iRet, m) \<leftarrow> peer_send E LoginServer (Msg_OnLoginFailedAck iSessionId 2) m;
              Some m
            }
          | Some p \<Rightarrow> do {
              let m = m\<lparr>ml_mPlayerContextByName := hm_insert strAccountName p (ml_mPlayerContextByName m)\<rparr>;
              let m = m\<lparr>ml_mPlayerContextBySessionId := hm_insert iSessionId p (ml_mPlayerContextBySessionId m)\<rparr>;
              let m = m\<lparr>ml_LoginServerContext := (ml_LoginServerContext m)\<lparr>lc_mPlayerContext :=
                 hm_insert iSessionId p (lc_mPlayerContext (ml_LoginServerContext m))\<rparr>\<rparr>;
              MasterPlayer_OnLoginReq E p iSessionId strAccountName m
            }
        })"

definition Master_OnCommandGateAllocAck :: "menv \<Rightarrow> u32 \<Rightarrow> u32 \<Rightarrow> u8 \<Rightarrow> tstring \<Rightarrow> MasterServerLoop \<Rightarrow> MasterServerLoop option" where
  "Master_OnCommandGateAllocAck E iLoginSessionId iGateSessionId iServerId strAccountName m =
     (case ml_mPlayerContextByName m strAccountName of None \<Rightarrow> Some m
      | Some p \<Rightarrow> (if mp_iSessionId (ml_ctx m p) = iLoginSessionId
          then MasterPlayer_GateAllocAck E p iServerId iGateSessionId m else Some m))"

definition Master_OnCommandPacketForward :: "menv \<Rightarrow> u32 \<Rightarrow> u16 \<Rightarrow> byte list \<Rightarrow> MasterServerLoop \<Rightarrow> MasterServerLoop option" where
  "Master_OnCommandPacketForward E iSessionId iTypeId data m = by_session iSessionId (\<lambda>p m. do {
     m \<leftarrow> DelaySendData iTypeId data m;
     case me_recv E iTypeId data of None \<Rightarrow> Some m | Some pk \<Rightarrow> on_packet E p pk m
   }) m"

definition Master_OnCommand :: "menv \<Rightarrow> master_command \<Rightarrow> MasterServerLoop \<Rightarrow> MasterServerLoop option" where
  "Master_OnCommand E cmd m =
     (if ml_iShutdownStatus m \<noteq> NOT_SHUTDOWN then Some m else
      case cmd of
        COMMAND_SHUTDOWN \<Rightarrow> Master_OnCommandShutdown E m
      | COMMAND_ONLOGINREPORT iServerId \<Rightarrow> Master_OnCommandOnLoginReport iServerId m
      | COMMAND_ONGATEREPORT iServerId iSessionCount \<Rightarrow> Master_OnCommandOnGateReport iServerId iSessionCount m
      | COMMAND_ONCACHEREPORT iServerId \<Rightarrow> Some m
      | COMMAND_ONREGIONREPORT iServerId iPlayerCount \<Rightarrow> Some m
      | COMMAND_ONLOGINREQ iSessionId strAccountName \<Rightarrow> Master_OnCommandOnLoginReq E iSessionId strAccountName m
      | COMMAND_GATEALLOCACK iLoginSessionId iGateSessionId iServerId strAccountName \<Rightarrow>
          Master_OnCommandGateAllocAck E iLoginSessionId iGateSessionId iServerId strAccountName m
      | COMMAND_ONGATELOGINREQ iSessionId strAccountName \<Rightarrow> by_session iSessionId (MasterPlayer_OnGateLoginReq E) m
      | COMMAND_ONREGIONALLOCACK iSessionId iServerId iReturn \<Rightarrow>
          by_session iSessionId (\<lambda>p. MasterPlayer_OnRegionAllocAck E p iServerId iReturn) m
      | COMMAND_ONREGIONLEAVEREQ iSessionId iServerId \<Rightarrow> by_session iSessionId (MasterPlayer_OnRegionLeaveReq E) m
      | COMMAND_ONREGIONPLAYERFAILREQ iSessionId iReason \<Rightarrow> by_session iSessionId (MasterPlayer_OnRegionPlayerFailReq E) m
      | COMMAND_ONSESSIONDISCONNECT iSessionId \<Rightarrow> by_session iSessionId (MasterPlayer_OnSessionDisconnect E) m
      | COMMAND_PACKETFORWARD iSessionId iTypeId data \<Rightarrow> Master_OnCommandPacketForward E iSessionId iTypeId data m)"

section \<open>The tick\<close>

text \<open>\<open>while (!queue.empty()) { DeletePlayer(queue.back()); queue.pop(); }\<close>: \<open>pop\<close> takes the front.
  \<open>DeletePlayer\<close> does not touch the queue.\<close>

fun finalize_loop :: "ptr list \<Rightarrow> MasterServerLoop \<Rightarrow> MasterServerLoop option" where
  "finalize_loop [] m = Some m"
| "finalize_loop (q # qs) m = do {
     m \<leftarrow> DeletePlayer (last (q # qs)) m;
     finalize_loop qs (m\<lparr>ml_PlayerFinalizingQueue := qs\<rparr>)
   }"

definition Master_Loop :: "MasterServerLoop \<Rightarrow> MasterServerLoop option" where
  "Master_Loop m = do {
     m \<leftarrow> finalize_loop (ml_PlayerFinalizingQueue m) m;
     Some (if ml_iShutdownStatus m = START_SHUTDOWN \<and> ml_mPlayerContextBySessionId m = Map.empty
       then m\<lparr>ml_iShutdownStatus := READY_FOR_SHUTDOWN\<rparr> else m)
   }"

section \<open>Start-up\<close>

definition MasterPlayerContext_new :: "MasterPlayerContext option" where
  "MasterPlayerContext_new = do {
     sm \<leftarrow> master_InitStateMachine (StateMachine_new (st PLAYER_STATE_NONE));
     Some \<lparr>mp_iSessionId = 0, mp_strAccountName = [], mp_bFinalizing = False, mp_StateMachine = sm, mp_iGateServerId = 0,
       mp_iAvatarCount = 0, mp_arrayAvatar = replicate AVATARCOUNT_MAX \<lparr>av_iAvatarId = 0, av_strAvatarName = []\<rparr>,
       mp_strAvatarName = [], mp_iAvatarId = 0, mp_iLastChannelId = 0, mp_iRegionServerId = 0\<rparr>
   }"

definition MasterServerLoop_new :: "MasterServerLoop option" where
  "MasterServerLoop_new = do {
     c \<leftarrow> MasterPlayerContext_new;
     Some \<lparr>ml_iShutdownStatus = NOT_SHUTDOWN, ml_PlayerContextPool = ObjectPool_new 5000, ml_mPlayerContextByName = Map.empty,
       ml_mPlayerContextBySessionId = Map.empty,
       ml_LoginServerContext = \<lparr>lc_iServerId = 0, lc_dwLastReportTime = 0, lc_bIsConnected = False, lc_mPlayerContext = Map.empty\<rparr>,
       ml_arrayGateServerContext = replicate SERVERCOUNT_MAX None, ml_arrayChannelContext = replicate CHANNEL_MAX None,
       ml_iChannelCount = 0, ml_PlayerFinalizingQueue = [], ml_dwCurrTime = 0, ml_Delay = (0, []), ml_ctx = (\<lambda>_. c), ml_sent = []\<rparr>
   }"

definition GateServerContext_of :: "GateConfigItem \<Rightarrow> GateServerContext" where
  "GateServerContext_of g = \<lparr>gs_iServerId = gc_iServerId g, gs_dwLastReportTime = 0, gs_bIsConnected = False,
     gs_iSessionMax = gc_iSessionMax g, gs_iSessionCount = 0, gs_mPlayerContext = Map.empty\<rparr>"

definition ChannelContext_of :: "ChannelConfigItem \<Rightarrow> ChannelContext" where
  "ChannelContext_of c = \<lparr>ch_iChannelId = cc_iChannelId c, ch_iAvatarMax = cc_iPlayerMax c, ch_strChannelName = cc_strChannelName c,
     ch_iInitialRegionServerId = cc_iInitialRegionServerId c,
     ch_arrayRegionContext = map (\<lambda>r. \<lparr>rs_iServerId = rc_iServerId r, rs_iChannelId = rc_iChannelId r,
       rs_iPlayerMax = rc_iPlayerMax r, rs_mPlayerContext = Map.empty\<rparr>) (cc_arrayRegionConfig c)\<rparr>"

text \<open>The loops of \<open>Init\<close> over the two configurations; the test \<open>>\<close> lets an index one too large through.\<close>

primrec init_gates :: "GateConfigItem list \<Rightarrow> GateServerContext option list \<Rightarrow> GateServerContext option list option" where
  "init_gates [] xs = Some xs"
| "init_gates (g # gs) xs =
     (if unat (gc_iServerId g) > SERVERCOUNT_MAX then init_gates gs xs else do {
        old \<leftarrow> arr xs (gc_iServerId g);
        init_gates gs (if old \<noteq> None then xs else xs[unat (gc_iServerId g) := Some (GateServerContext_of g)])
      })"

primrec init_channels :: "ChannelConfigItem list \<Rightarrow> ChannelContext option list \<Rightarrow> ChannelContext option list option" where
  "init_channels [] xs = Some xs"
| "init_channels (c # cs) xs =
     (if unat (cc_iChannelId c) > CHANNEL_MAX then init_channels cs xs else do {
        old \<leftarrow> arr xs (cc_iChannelId c);
        init_channels cs (if old \<noteq> None then xs else xs[unat (cc_iChannelId c) := Some (ChannelContext_of c)])
      })"

definition Master_Init :: "menv \<Rightarrow> MasterServerLoop \<Rightarrow> MasterServerLoop option" where
  "Master_Init E m = do {
     gs \<leftarrow> init_gates (me_gates E) (ml_arrayGateServerContext m);
     cs \<leftarrow> init_channels (me_channels E) (ml_arrayChannelContext m);
     Some (m\<lparr>ml_arrayGateServerContext := gs, ml_iChannelCount := of_nat (length (me_channels E)), ml_arrayChannelContext := cs\<rparr>)
   }"

section \<open>Runs\<close>

text \<open>A run of the loop: commands and ticks in any order (after the tick the clock is read for the next round).\<close>

datatype master_event = Cmd master_command | Tick u32

definition master_step :: "menv \<Rightarrow> master_event \<Rightarrow> MasterServerLoop \<Rightarrow> MasterServerLoop option" where
  "master_step E a m = (case a of Cmd c \<Rightarrow> Master_OnCommand E c m | Tick now \<Rightarrow> do { m \<leftarrow> Master_Loop m; Some (m\<lparr>ml_dwCurrTime := now\<rparr>) })"

end
