(* ===== verification/MasterInv.thy ===== *)
theory MasterInv
  imports MasterServer
begin

text \<open>
  The invariant of the master server.

  \<^item> \<open>ctx_ok\<close>: every player context has the machine of \<open>master_table\<close> in a live state, ids of configured
    servers, a channel id inside the array and at most \<open>AVATARCOUNT_MAX\<close> avatars;
  \<^item> \<open>tables_ok\<close>: the arrays of the loop have their sizes and hold ids that are configured;
  \<^item> \<open>reg_ok\<close>: the two maps of players, the object pool and the finalizing queue agree.

  The handlers of a player are verified with a weakest precondition \<open>wp\<close> whose rules follow the
  basic operations: each of them keeps \<open>frame\<close>, which says what a handler of player \<open>p\<close> leaves alone.
\<close>

section \<open>The invariant\<close>

definition ctx_ok :: "menv \<Rightarrow> MasterPlayerContext \<Rightarrow> bool" where
  "ctx_ok E c \<longleftrightarrow> fsm_inv (mp_StateMachine c) \<and> fsm_fun (mp_StateMachine c) = (\<lambda>(s, e). tr s e) \<and>
     sm_iCurrState (mp_StateMachine c) \<in> st ` set live_states \<and>
     GetPeerServer E (mp_iGateServerId c) \<and> GetPeerServer E (mp_iRegionServerId c) \<and>
     unat (mp_iLastChannelId c) < CHANNEL_MAX \<and> unat (mp_iAvatarCount c) \<le> AVATARCOUNT_MAX \<and>
     length (mp_arrayAvatar c) = AVATARCOUNT_MAX"

definition gates_ok :: "menv \<Rightarrow> GateServerContext option list \<Rightarrow> bool" where
  "gates_ok E gs \<longleftrightarrow> length gs = SERVERCOUNT_MAX \<and> (\<forall>c. Some c \<in> set gs \<longrightarrow> GetPeerServer E (gs_iServerId c))"

definition channel_ok :: "menv \<Rightarrow> ChannelContext \<Rightarrow> bool" where
  "channel_ok E c \<longleftrightarrow> unat (ch_iChannelId c) < CHANNEL_MAX \<and> GetPeerServer E (ch_iInitialRegionServerId c) \<and>
     length (ch_arrayRegionContext c) = SERVERCOUNT_MAX"

definition channels_ok :: "menv \<Rightarrow> u8 \<Rightarrow> ChannelContext option list \<Rightarrow> bool" where
  "channels_ok E n cs \<longleftrightarrow> length cs = CHANNEL_MAX \<and> unat n \<le> CHANNEL_MAX \<and> (\<forall>i < unat n. cs ! i \<noteq> None) \<and>
     (\<forall>c. Some c \<in> set cs \<longrightarrow> channel_ok E c)"

definition heap_ok :: "menv \<Rightarrow> MasterServerLoop \<Rightarrow> bool" where
  "heap_ok E m \<longleftrightarrow> gates_ok E (ml_arrayGateServerContext m) \<and>
     channels_ok E (ml_iChannelCount m) (ml_arrayChannelContext m) \<and> (\<forall>p. ctx_ok E (ml_ctx m p))"

definition cleared :: "MasterPlayerContext \<Rightarrow> bool" where
  "cleared c \<longleftrightarrow> sm_iCurrState (mp_StateMachine c) = st PLAYER_STATE_NONE \<and> \<not> mp_bFinalizing c"

definition reg_ok :: "MasterServerLoop \<Rightarrow> bool" where
  "reg_ok m \<longleftrightarrow> op_inv (ml_PlayerContextPool m) \<and>
     (\<forall>n p. ml_mPlayerContextByName m n = Some p \<longleftrightarrow>
        p \<in> set (ob_out (ml_PlayerContextPool m)) \<and> mp_strAccountName (ml_ctx m p) = n) \<and>
     (\<forall>s p. ml_mPlayerContextBySessionId m s = Some p \<longleftrightarrow>
        p \<in> set (ob_out (ml_PlayerContextPool m)) \<and> mp_iSessionId (ml_ctx m p) = s) \<and>
     distinct (ml_PlayerFinalizingQueue m) \<and>
     (\<forall>p. p \<in> set (ml_PlayerFinalizingQueue m) \<longleftrightarrow>
        p \<in> set (ob_out (ml_PlayerContextPool m)) \<and> mp_bFinalizing (ml_ctx m p)) \<and>
     (\<forall>p. p \<notin> set (ob_out (ml_PlayerContextPool m)) \<longrightarrow> cleared (ml_ctx m p))"

text \<open>What a handler of player \<open>p\<close> leaves alone; with \<open>b\<close> it may have put the player into the queue.\<close>

definition frame :: "bool \<Rightarrow> ptr \<Rightarrow> MasterServerLoop \<Rightarrow> MasterServerLoop \<Rightarrow> bool" where
  "frame b p m m' \<longleftrightarrow> ml_mPlayerContextByName m' = ml_mPlayerContextByName m \<and>
     ml_mPlayerContextBySessionId m' = ml_mPlayerContextBySessionId m \<and>
     ml_PlayerContextPool m' = ml_PlayerContextPool m \<and> ml_iShutdownStatus m' = ml_iShutdownStatus m \<and>
     (\<forall>q. q \<noteq> p \<longrightarrow> ml_ctx m' q = ml_ctx m q) \<and>
     mp_strAccountName (ml_ctx m' p) = mp_strAccountName (ml_ctx m p) \<and>
     mp_iSessionId (ml_ctx m' p) = mp_iSessionId (ml_ctx m p) \<and>
     (mp_bFinalizing (ml_ctx m' p) = mp_bFinalizing (ml_ctx m p) \<and> ml_PlayerFinalizingQueue m' = ml_PlayerFinalizingQueue m \<or>
      b \<and> \<not> mp_bFinalizing (ml_ctx m p) \<and> mp_bFinalizing (ml_ctx m' p) \<and>
        ml_PlayerFinalizingQueue m' = ml_PlayerFinalizingQueue m @ [p])"

definition R :: "bool \<Rightarrow> menv \<Rightarrow> ptr \<Rightarrow> MasterServerLoop \<Rightarrow> MasterServerLoop \<Rightarrow> bool" where
  "R b E p m0 m \<longleftrightarrow> heap_ok E m \<and> frame b p m0 m"

lemma raised_iff [simp]:
  "e \<in> set raised_events \<longleftrightarrow> e \<noteq> PLAYER_EVENT_ONCHANNELLEAVEREQ \<and> e \<noteq> PLAYER_EVENT_ONSESSIONDISCONNECT"
  by (cases e) (simp_all add: raised_events_def)

lemma frame_refl [simp]: "frame b p m m"
  by (simp add: frame_def)

lemma R_refl: "heap_ok E m \<Longrightarrow> R b E p m m"
  by (simp add: R_def)

section \<open>The basic operations\<close>

lemma heap_ctx_upd: "heap_ok E m \<Longrightarrow> ctx_ok E (f (ml_ctx m p)) \<Longrightarrow> heap_ok E (ctx_upd p f m)"
  by (simp add: heap_ok_def ctx_upd_def)

lemma frame_ctx_upd:
  "frame b p m0 m \<Longrightarrow> mp_strAccountName (f (ml_ctx m p)) = mp_strAccountName (ml_ctx m p) \<Longrightarrow>
     mp_iSessionId (f (ml_ctx m p)) = mp_iSessionId (ml_ctx m p) \<Longrightarrow>
     mp_bFinalizing (f (ml_ctx m p)) = mp_bFinalizing (ml_ctx m p) \<Longrightarrow> frame b p m0 (ctx_upd p f m)"
  by (simp add: frame_def ctx_upd_def)

lemma R_ctx_upd:
  "R b E p m0 m \<Longrightarrow> ctx_ok E (f (ml_ctx m p)) \<Longrightarrow> mp_strAccountName (f (ml_ctx m p)) = mp_strAccountName (ml_ctx m p) \<Longrightarrow>
     mp_iSessionId (f (ml_ctx m p)) = mp_iSessionId (ml_ctx m p) \<Longrightarrow>
     mp_bFinalizing (f (ml_ctx m p)) = mp_bFinalizing (ml_ctx m p) \<Longrightarrow> R b E p m0 (ctx_upd p f m)"
  unfolding R_def by (blast intro: heap_ctx_upd frame_ctx_upd)

lemma R_ctx: "R b E p m0 m \<Longrightarrow> ctx_ok E (ml_ctx m q)"
  by (simp add: R_def heap_ok_def)

lemma fsm_ok:
  assumes "heap_ok E m" "e \<in> set raised_events"
  shows "\<exists>r sm. fsm p e m = Some (r, ctx_upd p (\<lambda>c. c\<lparr>mp_StateMachine := sm\<rparr>) m) \<and>
    ctx_ok E ((ml_ctx m p)\<lparr>mp_StateMachine := sm\<rparr>) \<and>
    (case tr (curr p m) (ev e) of None \<Rightarrow> r = - 1 \<and> sm = mp_StateMachine (ml_ctx m p)
     | Some s \<Rightarrow> r = s \<and> sm = (mp_StateMachine (ml_ctx m p))\<lparr>sm_iCurrState := s\<rparr>)"
proof -
  have c: "ctx_ok E (ml_ctx m p)" using assms(1) by (simp add: heap_ok_def)
  then have i: "fsm_inv (mp_StateMachine (ml_ctx m p))" by (simp add: ctx_ok_def)
  show ?thesis
  proof (cases "tr (curr p m) (ev e)")
    case None
    then show ?thesis using c StateTransition_ok [OF i ev_ok, of e True]
      by (auto simp: fsm_def ctx_ok_def curr_def GetCurrState_def intro!: exI)
  next
    case (Some s)
    then have "s \<in> st ` set live_states"
      using c assms(2) live_step [of "curr p m" e s] by (auto simp: ctx_ok_def curr_def GetCurrState_def)
    with Some show ?thesis using c StateTransition_ok [OF i ev_ok, of e True]
      by (auto simp: fsm_def ctx_ok_def curr_def GetCurrState_def intro!: exI)
  qed
qed

lemma wp_fsm [wp_rules]:
  assumes "R b E p m0 m" "e \<in> set raised_events" "\<And>r m1. R b E p m0 m1 \<Longrightarrow> wp (f r m1) Q"
  shows "wp (fsm p e m \<bind> case_prod f) Q"
proof -
  obtain r sm where *: "fsm p e m = Some (r, ctx_upd p (\<lambda>c. c\<lparr>mp_StateMachine := sm\<rparr>) m)"
      "ctx_ok E ((ml_ctx m p)\<lparr>mp_StateMachine := sm\<rparr>)"
    using fsm_ok [OF _ assms(2), of E m p] assms(1) by (auto simp: R_def)
  then have "R b E p m0 (ctx_upd p (\<lambda>c. c\<lparr>mp_StateMachine := sm\<rparr>) m)"
    using assms(1) by (simp add: R_ctx_upd)
  with * assms(3) show ?thesis by simp
qed

lemma R_sent [simp]: "R b E p m0 (m\<lparr>ml_sent := x\<rparr>) = R b E p m0 m"
  by (simp add: R_def heap_ok_def frame_def)

lemma R_delay [simp]: "R b E p m0 (m\<lparr>ml_Delay := x\<rparr>) = R b E p m0 m"
  by (simp add: R_def heap_ok_def frame_def)

definition dest_ok :: "menv \<Rightarrow> server \<Rightarrow> bool" where
  "dest_ok E d = (case d of Server i \<Rightarrow> GetPeerServer E i | _ \<Rightarrow> True)"

lemma dest_ok_simps [simp]: "dest_ok E LoginServer" "dest_ok E CacheServer" "dest_ok E (Server i) = GetPeerServer E i"
  by (simp_all add: dest_ok_def)

lemma R_servers: "R b E p m0 m \<Longrightarrow> GetPeerServer E (mp_iGateServerId (ml_ctx m q))"
  "R b E p m0 m \<Longrightarrow> GetPeerServer E (mp_iRegionServerId (ml_ctx m q))"
  by (simp_all add: R_def heap_ok_def ctx_ok_def)

lemma wp_peer_send [wp_rules]:
  assumes "R b E p m0 m" "dest_ok E d" "\<And>r m1. R b E p m0 m1 \<Longrightarrow> wp (f r m1) Q"
  shows "wp (peer_send E d msg m \<bind> case_prod f) Q"
  using assms by (auto simp: peer_send_def dest_ok_def Let_def split: server.splits)

lemma wp_SendPacket [wp_rules]:
  assumes "R b E p m0 m" "\<And>r m1. R b E p m0 m1 \<Longrightarrow> wp (f r m1) Q"
  shows "wp (SendPacket t bs m \<bind> case_prod f) Q"
  using assms by (auto simp: SendPacket_def DelaySendData_def)

lemma wp_send_delayed [wp_rules]:
  assumes "R b E p m0 m" "\<And>r m1. R b E p m0 m1 \<Longrightarrow> wp (f r m1) Q"
  shows "wp (send_delayed E p m \<bind> case_prod f) Q"
  unfolding send_delayed_def using assms R_servers(1) [OF assms(1)] by (auto intro!: wp_peer_send)

lemma wp_forward_delayed [wp_rules]:
  assumes "R b E p m0 m" "dest_ok E d" "\<And>r m1. R b E p m0 m1 \<Longrightarrow> wp (f r m1) Q"
  shows "wp (forward_delayed E d p m \<bind> case_prod f) Q"
  unfolding forward_delayed_def using assms by (auto intro!: wp_peer_send)

lemma channels_ok_update:
  "channels_ok E n cs \<Longrightarrow> channel_ok E x \<Longrightarrow> channels_ok E n (cs[i := Some x])"
  using set_update_subset_insert [of cs i "Some x"]
  by (cases "i < length cs") (auto simp: channels_ok_def nth_list_update)

lemma region_upd_eq:
  assumes "heap_ok E m"
  shows "\<exists>cs. region_upd p f m = Some (m\<lparr>ml_arrayChannelContext := cs\<rparr>) \<and> channels_ok E (ml_iChannelCount m) cs"
proof -
  have c: "unat (mp_iLastChannelId (ml_ctx m p)) < 16" "unat (mp_iRegionServerId (ml_ctx m p)) < 128"
    and cs: "channels_ok E (ml_iChannelCount m) (ml_arrayChannelContext m)"
    using assms by (auto simp: heap_ok_def ctx_ok_def GetPeerServer_def)
  then obtain x where x: "arr (ml_arrayChannelContext m) (mp_iLastChannelId (ml_ctx m p)) = Some x" "x \<in> set (ml_arrayChannelContext m)"
    by (auto simp: arr_def channels_ok_def)
  show ?thesis
  proof (cases x)
    case None
    then show ?thesis using x(1) cs by (auto simp: region_upd_def Let_def intro!: exI [of _ "ml_arrayChannelContext m"])
  next
    case (Some ch)
    then have ch: "channel_ok E ch" using x(2) cs by (simp add: channels_ok_def)
    then obtain r where "arr (ch_arrayRegionContext ch) (mp_iRegionServerId (ml_ctx m p)) = Some r"
      using c(2) by (auto simp: arr_def channel_ok_def)
    then show ?thesis using x(1) Some ch cs
      by (auto simp: region_upd_def Let_def channel_ok_def intro!: channels_ok_update)
  qed
qed

lemma wp_region_upd:
  assumes "R b E p m0 m" "\<And>m1. R b E p m0 m1 \<Longrightarrow> Q m1"
  shows "wp (region_upd p f m) Q"
proof -
  obtain cs where cs: "region_upd p f m = Some (m\<lparr>ml_arrayChannelContext := cs\<rparr>)" "channels_ok E (ml_iChannelCount m) cs"
    using region_upd_eq [of E m p f] assms(1) by (auto simp: R_def)
  then have "R b E p m0 (m\<lparr>ml_arrayChannelContext := cs\<rparr>)" using assms(1) by (simp add: R_def heap_ok_def frame_def)
  with cs(1) assms(2) show ?thesis by (simp add: wp_def)
qed

lemma wp_DeleteRegion: "R b E p m0 m \<Longrightarrow> (\<And>m1. R b E p m0 m1 \<Longrightarrow> Q m1) \<Longrightarrow> wp (DeletePlayerFromRegionServerContext p m) Q"
  unfolding DeletePlayerFromRegionServerContext_def by (rule wp_region_upd)

lemma wp_AddRegion [wp_rules]:
  "R b E p m0 m \<Longrightarrow> (\<And>m1. R b E p m0 m1 \<Longrightarrow> Q m1) \<Longrightarrow> wp (AddPlayerToRegionServerContext p m) Q"
  unfolding AddPlayerToRegionServerContext_def by (rule wp_region_upd)

lemma wp_DeleteRegion_bind [wp_rules]:
  "R b E p m0 m \<Longrightarrow> (\<And>m1. R b E p m0 m1 \<Longrightarrow> wp (f m1) Q) \<Longrightarrow> wp (DeletePlayerFromRegionServerContext p m \<bind> f) Q"
  by (rule wp_bind, rule wp_DeleteRegion)

lemma R_trans: "R False E p m0 m \<Longrightarrow> R b E p m m1 \<Longrightarrow> R b E p m0 m1"
  by (auto simp: R_def frame_def)

lemma R_True: "R False E p m0 m \<Longrightarrow> R b E p m0 m"
  by (auto simp: R_def frame_def)

lemma heap_ok_queue [simp]: "heap_ok E (m\<lparr>ml_PlayerFinalizingQueue := x\<rparr>) = heap_ok E m"
  by (simp add: heap_ok_def)

lemma R_finalize:
  assumes "R False E p m0 m" "\<not> mp_bFinalizing (ml_ctx m0 p)"
  shows "R True E p m0 (AddPlayerToFinalizingQueue p m)"
proof -
  have "ctx_ok E ((ml_ctx m p)\<lparr>mp_bFinalizing := True\<rparr>)" using R_ctx [OF assms(1), of p] by (simp add: ctx_ok_def)
  then have "heap_ok E (AddPlayerToFinalizingQueue p m)"
    using assms(1) by (simp add: AddPlayerToFinalizingQueue_def Let_def heap_ctx_upd R_def)
  with assms show ?thesis
    by (simp add: R_def frame_def AddPlayerToFinalizingQueue_def ctx_upd_def Let_def)
qed

section \<open>Shutting a player down\<close>

lemma wp_bind_R: "wp X (R b E p m0) \<Longrightarrow> (\<And>m1. R b E p m0 m1 \<Longrightarrow> wp (f m1) Q) \<Longrightarrow> wp (X \<bind> f) Q"
  by (auto simp: wp_def)

lemma wp_bind_R2:
  "wp X (\<lambda>(r, m). R b E p m0 m) \<Longrightarrow> (\<And>r m1. R b E p m0 m1 \<Longrightarrow> wp (f r m1) Q) \<Longrightarrow> wp (X \<bind> case_prod f) Q"
  by (auto simp: wp_def)

lemma wp_send_if:
  "R b E p m0 m \<Longrightarrow> dest_ok E d \<Longrightarrow> (\<And>m1. R b E p m0 m1 \<Longrightarrow> wp (f m1) Q) \<Longrightarrow> wp (send_if E c d msg m \<bind> f) Q"
  unfolding send_if_def by (rule wp_bind_R [OF wp_if]) (auto intro: wp_peer_send wp_Some)

lemma wp_leave_region:
  "R b E p m0 m \<Longrightarrow> (\<And>r m1. R b E p m0 m1 \<Longrightarrow> wp (f r m1) Q) \<Longrightarrow> wp (leave_region E p s m \<bind> case_prod f) Q"
  unfolding leave_region_def
  by (rule wp_bind_R2 [OF wp_if]) (auto intro!: wp_peer_send wp_Some wp_fsm R_servers)

lemma ShutdownPlayer_ok:
  assumes "heap_ok E m"
  shows "wp (ShutdownPlayer E p m) (R True E p m)"
proof (cases "mp_bFinalizing (ml_ctx m p)")
  case True
  then show ?thesis using assms by (simp add: ShutdownPlayer_def wp_def R_refl)
next
  case False
  note start = R_refl [OF assms, where b = False and p = p]
  have fin: "wp (if s = st PLAYER_STATE_REGIONENTERREQ then fsm p PLAYER_EVENT_FINALIZE m \<bind> (\<lambda>(r, m). Some m) else Some m)
      (R False E p m)" for s
    by (rule wp_if) (auto intro!: wp_fsm [OF start] wp_Some start)
  have rel: "wp (if c then peer_send E (Server (mp_iRegionServerId (ml_ctx m1 p))) msg m1 \<bind>
      (\<lambda>(r, m). DeletePlayerFromRegionServerContext p m) else Some m1) (R False E p m)" if "R False E p m m1" for c msg m1
    using that by (intro wp_if) (auto intro!: wp_peer_send [OF that] wp_DeleteRegion wp_Some R_servers)
  show ?thesis
    unfolding ShutdownPlayer_def Let_def if_not_P [OF False]
    by (rule wp_bind_R [OF fin], rule wp_bind_R [OF rel], assumption, erule wp_leave_region)
      (rule wp_if, rule wp_Some, erule R_True, (rule wp_send_if, assumption, simp add: R_servers)+, rule wp_Some, erule R_finalize [OF _ False])
qed

lemma wp_Shutdown [wp_rules]:
  assumes "R True E p m0 m" "\<And>m1. R True E p m0 m1 \<Longrightarrow> Q m1"
  shows "wp (ShutdownPlayer E p m) Q"
proof (rule wp_mono [OF ShutdownPlayer_ok])
  show "heap_ok E m" using assms(1) by (simp add: R_def)
  fix m1 assume "R True E p m m1"
  then have "R True E p m0 m1" using assms(1) by (auto simp: R_def frame_def)
  then show "Q m1" by (rule assms(2))
qed

lemma wp_Shutdown_bind [wp_rules]:
  "R True E p m0 m \<Longrightarrow> (\<And>m1. R True E p m0 m1 \<Longrightarrow> wp (f m1) Q) \<Longrightarrow> wp ((if c then ShutdownPlayer E p m else Some m) \<bind> f) Q"
  by (rule wp_bind, rule wp_if, rule wp_Shutdown) (auto simp: wp_def)

section \<open>The handlers of a player\<close>

lemma R_fields [wp_rules]:
  "R b E p m0 m \<Longrightarrow> GetPeerServer E i \<Longrightarrow> R b E p m0 (ctx_upd p (\<lambda>c. c\<lparr>mp_iGateServerId := i\<rparr>) m)"
  "R b E p m0 m \<Longrightarrow> GetPeerServer E i \<Longrightarrow> R b E p m0 (ctx_upd p (\<lambda>c. c\<lparr>mp_iRegionServerId := i\<rparr>) m)"
  "R b E p m0 m \<Longrightarrow> unat ch < CHANNEL_MAX \<Longrightarrow> R b E p m0 (ctx_upd p (\<lambda>c. c\<lparr>mp_iLastChannelId := ch\<rparr>) m)"
  "R b E p m0 m \<Longrightarrow> unat ch < CHANNEL_MAX \<Longrightarrow>
     R b E p m0 (ctx_upd p (\<lambda>c. c\<lparr>mp_strAvatarName := w, mp_iAvatarId := a, mp_iLastChannelId := ch\<rparr>) m)"
  "R b E p m0 m \<Longrightarrow> unat n \<le> AVATARCOUNT_MAX \<Longrightarrow> length as = AVATARCOUNT_MAX \<Longrightarrow>
     R b E p m0 (ctx_upd p (\<lambda>c. c\<lparr>mp_iAvatarCount := n, mp_arrayAvatar := as\<rparr>) m)"
  by (rule R_ctx_upd; frule R_ctx [of _ _ _ _ _ p]; simp add: ctx_ok_def)+

lemma R_add_avatar [wp_rules]:
  assumes "R b E p m0 m" "unat (mp_iAvatarCount (ml_ctx m p)) < AVATARCOUNT_MAX" "length as = AVATARCOUNT_MAX"
  shows "R b E p m0 (ctx_upd p (\<lambda>c. c\<lparr>mp_iAvatarCount := mp_iAvatarCount c + 1, mp_arrayAvatar := as\<rparr>) m)"
proof -
  have "unat (mp_iAvatarCount (ml_ctx m p) + 1) = Suc (unat (mp_iAvatarCount (ml_ctx m p)))"
    using assms(2) by (intro unat_succ_less [where n = 10]) (simp add: word_less_nat_alt)
  with assms(1-3) R_ctx [OF assms(1), of p] show ?thesis by (intro R_ctx_upd) (simp_all add: ctx_ok_def)
qed

lemma channels_in_use_ok:
  assumes "R b E p m0 m"
  shows "\<exists>cs. channels_in_use m = Some (map Some cs) \<and> (\<forall>c \<in> set cs. channel_ok E c)"
proof -
  have c: "channels_ok E (ml_iChannelCount m) (ml_arrayChannelContext m)" using assms by (simp add: R_def heap_ok_def)
  let ?xs = "take (unat (ml_iChannelCount m)) (ml_arrayChannelContext m)"
  have "x \<noteq> None" if "x \<in> set ?xs" for x
    using that c by (auto simp: channels_ok_def in_set_conv_nth)
  then have "map Some (map the ?xs) = ?xs" by (auto intro!: map_idI)
  moreover have "channel_ok E (the x)" if "x \<in> set ?xs" for x
    using that c \<open>\<And>x. x \<in> set ?xs \<Longrightarrow> x \<noteq> None\<close> by (metis channels_ok_def in_set_takeD option.collapse)
  ultimately show ?thesis using c
    by (intro exI [of _ "map the ?xs"]) (auto simp: channels_in_use_def channels_ok_def)
qed

lemma find_map_Some:
  "find (\<lambda>c. case c of None \<Rightarrow> False | Some ch \<Rightarrow> P ch) (map Some cs) = map_option Some (find P cs)"
  by (induction cs) auto

lemma find_mem: "find P xs = Some x \<Longrightarrow> x \<in> set xs \<and> P x"
  by (induction xs) (auto split: if_splits)

lemma find_ex: "x \<in> set xs \<Longrightarrow> P x \<Longrightarrow> \<exists>y. find P xs = Some y"
  by (induction xs) auto

lemma wp_GetChannelId [wp_rules]:
  assumes "R b E p m0 m"
    "\<And>i. GetChannelId n m = Some i \<Longrightarrow> i = INVALID_CHANNEL_ID \<or> unat i < CHANNEL_MAX \<Longrightarrow> wp (f i) Q"
  shows "wp (GetChannelId n m \<bind> f) Q"
proof -
  obtain cs where cs: "channels_in_use m = Some (map Some cs)" "\<forall>c \<in> set cs. channel_ok E c"
    using channels_in_use_ok [OF assms(1)] by blast
  show ?thesis
  proof (cases "find (\<lambda>ch. ch_strChannelName ch = n) cs")
    case None
    then have "GetChannelId n m = Some INVALID_CHANNEL_ID" by (simp add: GetChannelId_def cs(1) find_map_Some)
    then show ?thesis using assms(2) by simp
  next
    case (Some c)
    then have "c \<in> set cs" by (simp add: find_mem)
    moreover have "GetChannelId n m = Some (ch_iChannelId c)" using Some by (simp add: GetChannelId_def cs(1) find_map_Some)
    ultimately show ?thesis using assms(2) cs(2) by (simp add: channel_ok_def)
  qed
qed

lemma wp_GetInitialRegionServerId [wp_rules]:
  assumes "R b E p m0 m" "GetChannelId n m = Some i" "i \<noteq> INVALID_CHANNEL_ID"
    "\<And>r. GetPeerServer E r \<Longrightarrow> wp (f r) Q"
  shows "wp (GetInitialRegionServerId i m \<bind> f) Q"
proof -
  obtain cs where cs: "channels_in_use m = Some (map Some cs)" "\<forall>c \<in> set cs. channel_ok E c"
    using channels_in_use_ok [OF assms(1)] by blast
  obtain c where "find (\<lambda>ch. ch_strChannelName ch = n) cs = Some c" "ch_iChannelId c = i"
    using assms(2,3) by (cases "find (\<lambda>ch. ch_strChannelName ch = n) cs") (simp_all add: GetChannelId_def cs(1) find_map_Some)
  then obtain c' where c': "find (\<lambda>c. ch_iChannelId c = i) cs = Some c'"
    using find_mem [of _ cs c] find_ex [of c cs "\<lambda>c. ch_iChannelId c = i"] by blast
  then have "c' \<in> set cs" by (simp add: find_mem)
  then show ?thesis using cs c' assms(4)
    by (simp add: GetInitialRegionServerId_def find_map_Some channel_ok_def)
qed

lemma channel_data_ok: "\<exists>r. channel_data E (map Some cs) = Some r"
  by (induction cs) (auto split: option.splits)

lemma wp_SendChannelList [wp_rules]:
  assumes "R b E p m0 m" "\<And>r m1. R b E p m0 m1 \<Longrightarrow> wp (f r m1) Q"
  shows "wp (SendChannelList E p m \<bind> case_prod f) Q"
proof -
  obtain cs r where cs: "channels_in_use m = Some (map Some cs)" "channel_data E (map Some cs) = Some r"
    using channels_in_use_ok [OF assms(1)] channel_data_ok by blast
  have "wp (MasterPlayer_SendChannelList E p n ds m) (\<lambda>(r, m). R b E p m0 m)" for n ds
    unfolding MasterPlayer_SendChannelList_def Send_ChannelListNtf_def using assms(1)
    by (intro wp_SendPacket wp_if wp_send_delayed wp_Some) simp_all
  moreover have "wp (Some (- 1, m)) (\<lambda>(r, m). R b E p m0 m)" using assms(1) by (simp add: wp_def)
  ultimately have "wp (SendChannelList E p m) (\<lambda>(r, m). R b E p m0 m)"
    by (cases r) (simp_all add: SendChannelList_def cs)
  from wp_bind_R2 [OF this assms(2)] show ?thesis .
qed

lemmas handler_unfold = Let_def Send_ChannelSelectAck_def Send_ChannelLeaveAck_def LoginNtf_def

lemma start: "heap_ok E m \<Longrightarrow> R True E p m m"
  by (rule R_refl)

lemma wp_write_avatars [wp_rules]:
  assumes "R b E p m0 m" "off + length as \<le> AVATARCOUNT_MAX" "\<And>xs. length xs = AVATARCOUNT_MAX \<Longrightarrow> wp (f xs) Q"
  shows "wp (mem_write (mp_arrayAvatar (ml_ctx m p)) off as \<bind> f) Q"
  using assms(2,3) R_ctx [OF assms(1), of p] by (simp add: ctx_ok_def)

lemma wp_read_avatars [wp_rules]:
  assumes "R b E p m0 m" "\<And>xs. wp (f xs) Q"
  shows "wp (mem_read (mp_arrayAvatar (ml_ctx m p)) 0 (unat (mp_iAvatarCount (ml_ctx m p))) \<bind> f) Q"
  using assms(2) R_ctx [OF assms(1), of p] by (simp add: ctx_ok_def)

lemma unat_of_nat_le: "n \<le> k \<Longrightarrow> unat (of_nat n :: 'a :: len word) \<le> k"
  by (rule le_trans [of _ n]) (simp_all add: unsigned_of_nat)

lemmas handler_defs = MasterPlayer_OnGateLoginReq_def MasterPlayer_OnAvatarListReq_def MasterPlayer_OnAvatarListAck_def
  MasterPlayer_OnAvatarCreateReq_def MasterPlayer_OnAvatarCreateAck_def MasterPlayer_OnAvatarSelectReq_def
  MasterPlayer_OnAvatarSelectAck_def MasterPlayer_OnChannelSelectReq_def MasterPlayer_OnRegionAllocAck_def
  region_refused_def region_accepted_def MasterPlayer_OnRegionLeaveReq_def MasterPlayer_OnSessionDisconnect_def

lemma handlers_ok:
  assumes "heap_ok E m"
  shows "wp (MasterPlayer_OnGateLoginReq E p m) (R True E p m)"
    "wp (MasterPlayer_OnAvatarListReq E p m) (R True E p m)"
    "wp (MasterPlayer_OnAvatarCreateReq E p m) (R True E p m)"
    "wp (MasterPlayer_OnAvatarCreateAck E p i a m) (R True E p m)"
    "wp (MasterPlayer_OnAvatarSelectReq E p n m) (R True E p m)"
    "wp (MasterPlayer_OnChannelSelectReq E p n m) (R True E p m)"
    "wp (MasterPlayer_OnRegionLeaveReq E p m) (R True E p m)"
    "wp (MasterPlayer_OnSessionDisconnect E p m) (R True E p m)"
    "length as \<le> AVATARCOUNT_MAX \<Longrightarrow> wp (MasterPlayer_OnAvatarListAck E p i as m) (R True E p m)"
    "unat ch < CHANNEL_MAX \<Longrightarrow> wp (MasterPlayer_OnAvatarSelectAck E p i n ai ch m) (R True E p m)"
    "GetPeerServer E r \<Longrightarrow> wp (MasterPlayer_OnRegionAllocAck E p r i m) (R True E p m)"
  unfolding handler_defs handler_unfold
  by (insert R_refl [OF assms, of True p]) (assumption | rule wp_rules | simp add: R_servers unat_of_nat_le; fail)+

lemma OnRegionPlayerFailReq_ok:
  assumes "heap_ok E m"
  shows "wp (MasterPlayer_OnRegionPlayerFailReq E p m) (R True E p m)"
proof (cases "mp_bFinalizing (ml_ctx m p)")
  case False
  note start = R_refl [OF assms, where b = False and p = p]
  show ?thesis unfolding MasterPlayer_OnRegionPlayerFailReq_def if_not_P [OF False]
    using start by (intro wp_peer_send wp_Some) (auto simp: R_servers R_finalize False)
qed (simp add: MasterPlayer_OnRegionPlayerFailReq_def wp_def R_refl assms)

section \<open>The login of a player\<close>

lemma gates_ok_update:
  "gates_ok E gs \<Longrightarrow> GetPeerServer E (gs_iServerId c) \<Longrightarrow> gates_ok E (gs[i := Some c])"
  using set_update_subset_insert [of gs i "Some c"] by (auto simp: gates_ok_def)

lemma gate_search_ok:
  "gate_search gs k = Some (i, c) \<Longrightarrow> Some c \<in> set gs"
  by (induction gs arbitrary: k) (auto split: option.splits if_splits)

lemma R_gates: "R b E p m0 m \<Longrightarrow> gates_ok E gs \<Longrightarrow> R b E p m0 (m\<lparr>ml_arrayGateServerContext := gs\<rparr>)"
  by (simp add: R_def heap_ok_def frame_def)

lemma GateAllocReq_ok:
  assumes "R b E p m0 m" "GateAllocReq m = (iRet, m1)"
  shows "R b E p m0 m1 \<and> (iRet \<ge> 0 \<longrightarrow> GetPeerServer E (word_of_int iRet))"
proof (cases "gate_search (ml_arrayGateServerContext m) 0")
  case (Some x)
  obtain i c where x: "x = (i, c)" by (cases x)
  have g: "gates_ok E (ml_arrayGateServerContext m)" using assms(1) by (simp add: R_def heap_ok_def)
  then have "GetPeerServer E (gs_iServerId c)" using gate_search_ok [of _ 0 i c] Some x by (auto simp: gates_ok_def)
  then show ?thesis using assms Some x g by (auto simp: GateAllocReq_def intro!: R_gates gates_ok_update)
qed (use assms in \<open>simp add: GateAllocReq_def\<close>)

text \<open>The part of \<open>OnLoginReq\<close> after the player has got its account and session.\<close>

lemma OnLoginReq_ok:
  assumes "heap_ok E m" "sm_iCurrState (mp_StateMachine (ml_ctx m p)) = st PLAYER_STATE_NONE"
  shows "\<exists>sm. wp (MasterPlayer_OnLoginReq E p sid name m) (R True E p (m\<lparr>ml_ctx := (ml_ctx m)(p := (ml_ctx m p)\<lparr>mp_StateMachine := sm,
     mp_iSessionId := sid, mp_strAccountName := name\<rparr>)\<rparr>))"
proof -
  have t: "tr (st PLAYER_STATE_NONE) (ev PLAYER_EVENT_ONLOGINREQ) = Some (st PLAYER_STATE_ONLOGINREQ)" by code_simp
  obtain sm where f: "fsm p PLAYER_EVENT_ONLOGINREQ m = Some (st PLAYER_STATE_ONLOGINREQ, ctx_upd p (\<lambda>c. c\<lparr>mp_StateMachine := sm\<rparr>) m)"
      "ctx_ok E ((ml_ctx m p)\<lparr>mp_StateMachine := sm\<rparr>)"
    using fsm_ok [OF assms(1), of PLAYER_EVENT_ONLOGINREQ p] t assms(2) by (auto simp: curr_def GetCurrState_def)
  define m1 where "m1 = ctx_upd p (\<lambda>c. c\<lparr>mp_iSessionId := sid, mp_strAccountName := name\<rparr>) (ctx_upd p (\<lambda>c. c\<lparr>mp_StateMachine := sm\<rparr>) m)"
  have "heap_ok E m1" using assms(1) f(2) by (auto simp: m1_def ctx_upd_def heap_ok_def ctx_ok_def)
  then have r: "R True E p m1 m1" by (rule R_refl)
  obtain iRet m2 where g: "GateAllocReq m1 = (iRet, m2)" by (cases "GateAllocReq m1")
  note G = GateAllocReq_ok [OF r g]
  have "wp (MasterPlayer_OnLoginReq E p sid name m) (R True E p m1)"
    using G by (simp only: MasterPlayer_OnLoginReq_def f(1) Option.bind.bind_lunit prod.case Let_def m1_def [symmetric] g simp_thms if_False)
      (elim conjE, (assumption | rule wp_rules | simp add: R_servers ctx_upd_def; fail)+)
  then show ?thesis by (auto simp: m1_def ctx_upd_def)
qed

text \<open>The player moves from its login session to its gate session.\<close>

lemma LoginSession2GateSession_ok:
  assumes "heap_ok E m" "unat (drop_bit 24 gsid) < SERVERCOUNT_MAX"
  shows "wp (LoginSession2GateSession p lsid gsid m) (\<lambda>m'. heap_ok E m' \<and>
     (frame False p m m' \<or>
      ml_ctx m' = (ml_ctx m)(p := (ml_ctx m p)\<lparr>mp_iSessionId := gsid\<rparr>) \<and>
      ml_mPlayerContextByName m' = ml_mPlayerContextByName m \<and> ml_PlayerContextPool m' = ml_PlayerContextPool m \<and>
      ml_PlayerFinalizingQueue m' = ml_PlayerFinalizingQueue m \<and>
      ml_mPlayerContextBySessionId m' = (if ml_mPlayerContextBySessionId m lsid \<noteq> None
        then hm_insert gsid p ((ml_mPlayerContextBySessionId m)(lsid := None)) else ml_mPlayerContextBySessionId m)))"
proof -
  let ?i = "ucast (drop_bit 24 gsid) :: u8"
  have "unat ?i < 128" using assms(2) by (simp add: unsigned_ucast_eq take_bit_nat_eq_self)
  moreover have g: "gates_ok E (ml_arrayGateServerContext m)" using assms(1) by (simp add: heap_ok_def)
  ultimately obtain x where x: "arr (ml_arrayGateServerContext m) ?i = Some x" "x \<in> set (ml_arrayGateServerContext m)"
    by (auto simp: arr_def gates_ok_def)
  have h: "heap_ok E (m\<lparr>ml_LoginServerContext := y\<rparr>)" for y using assms(1) by (simp add: heap_ok_def)
  show ?thesis
  proof (cases x)
    case None
    then show ?thesis using h x(1) by (simp add: LoginSession2GateSession_def Let_def wp_def frame_def)
  next
    case (Some c)
    then have c: "GetPeerServer E (gs_iServerId c)" using x(2) g by (simp add: gates_ok_def)
    have ctx: "ctx_ok E ((ml_ctx m p)\<lparr>mp_iSessionId := gsid\<rparr>)" using assms(1) by (simp add: heap_ok_def ctx_ok_def)
    have gs: "gates_ok E ((ml_arrayGateServerContext m)[unat ?i := Some (c\<lparr>gs_mPlayerContext := f\<rparr>)])" for f
      using g c by (simp add: gates_ok_update)
    show ?thesis using h x(1) Some ctx gs assms(1)
      by (simp add: LoginSession2GateSession_def Let_def wp_def ctx_upd_def heap_ok_def)
  qed
qed

lemma GateAllocAck_ok:
  assumes "heap_ok E m" "GetPeerServer E srv" "unat (drop_bit 24 gsid) < SERVERCOUNT_MAX"
  shows "wp (MasterPlayer_GateAllocAck E p srv gsid m) (\<lambda>m'. heap_ok E m' \<and> (\<exists>m1. R True E p m m1 \<and> (frame False p m1 m' \<or>
      ml_ctx m' = (ml_ctx m1)(p := (ml_ctx m1 p)\<lparr>mp_iSessionId := gsid\<rparr>) \<and>
      ml_mPlayerContextByName m' = ml_mPlayerContextByName m1 \<and> ml_PlayerContextPool m' = ml_PlayerContextPool m1 \<and>
      ml_PlayerFinalizingQueue m' = ml_PlayerFinalizingQueue m1 \<and>
      ml_mPlayerContextBySessionId m' = (if ml_mPlayerContextBySessionId m1 (mp_iSessionId (ml_ctx m1 p)) \<noteq> None
        then hm_insert gsid p ((ml_mPlayerContextBySessionId m1)(mp_iSessionId (ml_ctx m1 p) := None))
        else ml_mPlayerContextBySessionId m1))))" (is "wp _ ?Q")
proof -
  have Q: "?Q m1" if "R True E p m m1" for m1 using that by (auto simp: R_def intro!: exI [of _ m1])
  have L: "wp (LoginSession2GateSession p (mp_iSessionId (ml_ctx m1 p)) gsid m1) ?Q" if "R True E p m m1" for m1
    by (rule wp_mono [OF LoginSession2GateSession_ok]) (use that assms(3) in \<open>auto simp: R_def\<close>)
  have opt: "wp (case x of None \<Rightarrow> A | Some y \<Rightarrow> B y) P" if "wp A P" "\<And>y. wp (B y) P" for x A and B :: "GateConfigItem \<Rightarrow> _" and P
    using that by (cases x) auto
  show ?thesis
    unfolding MasterPlayer_GateAllocAck_def handler_unfold
    by (insert R_refl [OF assms(1), of True p] assms(2))
      (assumption | rule wp_rules opt L Q | simp add: R_servers; fail)+
qed

end
