(* ===== verification/MasterReach.thy ===== *)
theory MasterReach
  imports MasterInv
begin

text \<open>
  The master server over whole runs: every command and every tick keeps the invariant, and the states
  that can be reached from a well-formed configuration.
\<close>

section \<open>The registry\<close>

abbreviation out :: "MasterServerLoop \<Rightarrow> ptr set" where
  "out m \<equiv> set (ob_out (ml_PlayerContextPool m))"

definition master_inv :: "menv \<Rightarrow> MasterServerLoop \<Rightarrow> bool" where
  "master_inv E m \<longleftrightarrow> heap_ok E m \<and> reg_ok m"

lemma reg_name: "reg_ok m \<Longrightarrow> ml_mPlayerContextByName m n = Some p \<longleftrightarrow> p \<in> out m \<and> mp_strAccountName (ml_ctx m p) = n"
  by (simp add: reg_ok_def)

lemma reg_sid: "reg_ok m \<Longrightarrow> ml_mPlayerContextBySessionId m s = Some p \<longleftrightarrow> p \<in> out m \<and> mp_iSessionId (ml_ctx m p) = s"
  by (simp add: reg_ok_def)

lemma reg_queue: "reg_ok m \<Longrightarrow> p \<in> set (ml_PlayerFinalizingQueue m) \<longleftrightarrow> p \<in> out m \<and> mp_bFinalizing (ml_ctx m p)"
  by (simp add: reg_ok_def)

lemma reg_frame:
  assumes "reg_ok m" "frame b p m m'" "p \<in> out m"
  shows "reg_ok m'"
proof -
  have ctx: "mp_strAccountName (ml_ctx m' q) = mp_strAccountName (ml_ctx m q)" "mp_iSessionId (ml_ctx m' q) = mp_iSessionId (ml_ctx m q)" for q
    using assms(2) by (cases "q = p"; simp add: frame_def)+
  have q: "distinct (ml_PlayerFinalizingQueue m') \<and> (\<forall>q. q \<in> set (ml_PlayerFinalizingQueue m') \<longleftrightarrow> q \<in> out m' \<and> mp_bFinalizing (ml_ctx m' q))"
  proof (cases "ml_PlayerFinalizingQueue m' = ml_PlayerFinalizingQueue m")
    case True
    then have "mp_bFinalizing (ml_ctx m' q) = mp_bFinalizing (ml_ctx m q)" for q
      using assms(2) by (cases "q = p") (auto simp: frame_def)
    with True assms(1,2) show ?thesis by (simp add: frame_def reg_ok_def)
  next
    case False
    then show ?thesis using assms by (auto simp: frame_def reg_ok_def)
  qed
  have "cleared (ml_ctx m' q)" if "q \<notin> out m'" for q
    using that assms by (cases "q = p") (auto simp: frame_def reg_ok_def)
  with q ctx assms(1,2) show ?thesis by (simp add: reg_ok_def frame_def)
qed

lemma inv_R: "reg_ok m \<Longrightarrow> p \<in> out m \<Longrightarrow> R b E p m m' \<Longrightarrow> master_inv E m'"
  by (auto simp: R_def master_inv_def intro: reg_frame)

lemma by_session_ok:
  assumes "master_inv E m" "\<And>p. wp (f p m) (R True E p m)"
  shows "wp (by_session s f m) (master_inv E)"
proof (cases "ml_mPlayerContextBySessionId m s")
  case (Some p)
  then have "p \<in> out m" "reg_ok m" using assms(1) by (auto simp: master_inv_def reg_ok_def)
  then show ?thesis using Some assms(2) [of p] inv_R by (auto simp: by_session_def wp_def)
qed (use assms(1) in \<open>simp add: by_session_def wp_def\<close>)

section \<open>Commands\<close>

text \<open>What the master server relies on in the messages of the other servers: session ids are fresh when a
  player logs in or gets its gate session, server ids are configured, channel ids and the number of avatars
  fit the arrays, forwarded packets fit the buffer, names are shorter than the maximum.  For the shutdown: a
  traversal of the map of players meets each of them once.\<close>

definition gate_packet_ok :: "menv \<Rightarrow> gate_packet \<Rightarrow> bool" where
  "gate_packet_ok E pk = (case pk of
     AvatarListAck i as \<Rightarrow> length as \<le> AVATARCOUNT_MAX
   | AvatarSelectReq n \<Rightarrow> wide_name E n \<noteq> None
   | AvatarSelectAck i n a ch \<Rightarrow> unat ch < CHANNEL_MAX
   | ChannelSelectReq n \<Rightarrow> wide_name E n \<noteq> None
   | _ \<Rightarrow> True)"

definition cmd_ok :: "menv \<Rightarrow> MasterServerLoop \<Rightarrow> master_command \<Rightarrow> bool" where
  "cmd_ok E m cmd = (case cmd of
     COMMAND_ONGATEREPORT srv n \<Rightarrow> unat srv \<noteq> SERVERCOUNT_MAX
   | COMMAND_ONLOGINREQ sid name \<Rightarrow> ml_mPlayerContextBySessionId m sid = None
   | COMMAND_GATEALLOCACK lsid gsid srv name \<Rightarrow>
       GetPeerServer E srv \<and> unat (drop_bit 24 gsid) < SERVERCOUNT_MAX \<and> ml_mPlayerContextBySessionId m gsid = None
   | COMMAND_ONREGIONALLOCACK sid srv r \<Rightarrow> GetPeerServer E srv
   | COMMAND_SHUTDOWN \<Rightarrow> distinct (me_order E (ml_mPlayerContextByName m)) \<and>
       set (me_order E (ml_mPlayerContextByName m)) = ran (ml_mPlayerContextByName m)
   | COMMAND_PACKETFORWARD sid t data \<Rightarrow> length data \<le> DELAY_MAX \<and>
       (case me_recv E t data of None \<Rightarrow> True | Some pk \<Rightarrow> gate_packet_ok E pk)
   | _ \<Rightarrow> True)"

lemma convert_avatars_ok:
  "i + length as \<le> AVATARCOUNT_MAX \<Longrightarrow>
     \<exists>r. convert_avatars E as i = Some r \<and> (case r of None \<Rightarrow> True | Some bs \<Rightarrow> length bs = length as)"
proof (induction as arbitrary: i)
  case (Cons a as)
  have "Suc i + length as \<le> AVATARCOUNT_MAX" using Cons.prems by simp
  then obtain r where "convert_avatars E as (Suc i) = Some r" "case r of None \<Rightarrow> True | Some bs \<Rightarrow> length bs = length as"
    using Cons.IH by blast
  then show ?case using Cons.prems by (cases r) (auto split: option.splits)
qed simp

lemma on_packet_ok:
  assumes "heap_ok E m" "gate_packet_ok E pk"
  shows "wp (on_packet E p pk m) (R True E p m)"
proof -
  have id: "wp (Some m) (R True E p m)" using R_refl [OF assms(1)] by (simp add: wp_def)
  show ?thesis
  proof (cases pk)
    case (AvatarListAck i as)
    then obtain r where r: "convert_avatars E as 0 = Some r" "case r of None \<Rightarrow> True | Some bs \<Rightarrow> length bs = length as"
      using convert_avatars_ok [of 0 as E] assms(2) by (auto simp: gate_packet_ok_def)
    show ?thesis using r AvatarListAck assms id handlers_ok(9) [OF assms(1)]
      by (cases r) (simp_all add: on_packet_def gate_packet_ok_def)
  next
    case (AvatarSelectReq n)
    then show ?thesis using assms(2) id handlers_ok(5) [OF assms(1)]
      by (auto simp: on_packet_def gate_packet_ok_def split: option.splits)
  next
    case (ChannelSelectReq n)
    then show ?thesis using assms(2) id handlers_ok(6) [OF assms(1)]
      by (auto simp: on_packet_def gate_packet_ok_def split: option.splits)
  qed (use id assms(2) handlers_ok [OF assms(1)] in
      \<open>auto simp: on_packet_def gate_packet_ok_def MasterPlayer_OnChannelLeaveReq_def split: option.splits\<close>)
qed

lemma PacketForward_ok:
  assumes "master_inv E m" "cmd_ok E m (COMMAND_PACKETFORWARD sid t data)"
  shows "wp (Master_OnCommandPacketForward E sid t data m) (master_inv E)"
  unfolding Master_OnCommandPacketForward_def
proof (rule by_session_ok [OF assms(1)])
  fix p
  let ?m = "m\<lparr>ml_Delay := (t, data)\<rparr>"
  have h: "heap_ok E ?m" "frame True p m ?m" using assms(1) by (simp_all add: master_inv_def heap_ok_def frame_def)
  have f: "R True E p m m'" if "R True E p ?m m'" for m' using that by (auto simp: R_def frame_def)
  show "wp (DelaySendData t data m \<bind> (\<lambda>m. case me_recv E t data of None \<Rightarrow> Some m | Some pk \<Rightarrow> on_packet E p pk m)) (R True E p m)"
  proof (cases "me_recv E t data")
    case None
    then show ?thesis using assms(2) h by (simp add: cmd_ok_def DelaySendData_def R_def wp_def)
  next
    case (Some pk)
    then show ?thesis using assms(2) wp_mono [OF on_packet_ok [OF h(1)] f] by (simp add: cmd_ok_def DelaySendData_def)
  qed
qed

text \<open>A new player is registered under its account and its session.\<close>

lemma reg_add:
  assumes "reg_ok m" "op_inv pl" "p \<notin> out m" "ob_out pl = p # ob_out (ml_PlayerContextPool m)"
    "ml_mPlayerContextByName m name = None" "ml_mPlayerContextBySessionId m sid = None"
    "ml_PlayerContextPool m2 = pl" "ml_mPlayerContextByName m2 = (ml_mPlayerContextByName m)(name \<mapsto> p)"
    "ml_mPlayerContextBySessionId m2 = (ml_mPlayerContextBySessionId m)(sid \<mapsto> p)"
    "ml_PlayerFinalizingQueue m2 = ml_PlayerFinalizingQueue m" "\<And>q. q \<noteq> p \<Longrightarrow> ml_ctx m2 q = ml_ctx m q"
    "mp_strAccountName (ml_ctx m2 p) = name" "mp_iSessionId (ml_ctx m2 p) = sid" "\<not> mp_bFinalizing (ml_ctx m2 p)"
  shows "reg_ok m2"
proof -
  have other: "q \<in> out m \<Longrightarrow> mp_strAccountName (ml_ctx m q) \<noteq> name" "q \<in> out m \<Longrightarrow> mp_iSessionId (ml_ctx m q) \<noteq> sid" for q
    using reg_name [OF assms(1), of name q] reg_sid [OF assms(1), of sid q] assms(5,6) by auto
  have name: "ml_mPlayerContextByName m2 n = Some q \<longleftrightarrow> q \<in> out m2 \<and> mp_strAccountName (ml_ctx m2 q) = n" for n q
    using assms(3,4,7-12) other [of q] reg_name [OF assms(1), of n q] by (cases "q = p") auto
  have sid: "ml_mPlayerContextBySessionId m2 s = Some q \<longleftrightarrow> q \<in> out m2 \<and> mp_iSessionId (ml_ctx m2 q) = s" for s q
    using assms(3,4,7-13) other [of q] reg_sid [OF assms(1), of s q] by (cases "q = p") auto
  have queue: "q \<in> set (ml_PlayerFinalizingQueue m2) \<longleftrightarrow> q \<in> out m2 \<and> mp_bFinalizing (ml_ctx m2 q)" for q
    using assms(3,4,7-14) reg_queue [OF assms(1), of q] by (cases "q = p") auto
  have "cleared (ml_ctx m2 q)" if "q \<notin> out m2" for q
    using that assms(1,4,7,11) by (cases "q = p") (auto simp: reg_ok_def)
  with name sid queue assms(1,2,7,10) show ?thesis by (simp add: reg_ok_def)
qed

lemma LoginReq_ok:
  assumes "master_inv E m" "ml_mPlayerContextBySessionId m sid = None"
  shows "wp (Master_OnCommandOnLoginReq E sid name m) (master_inv E)"
proof -
  have I: "heap_ok E m" "reg_ok m" using assms(1) by (simp_all add: master_inv_def)
  have sent: "master_inv E (m\<lparr>ml_sent := x\<rparr>)" for x
    using I by (simp add: master_inv_def heap_ok_def reg_ok_def)
  have failed: "wp (peer_send E LoginServer msg m' \<bind> (\<lambda>(r, m). Some m)) (master_inv E)" if "m' = m" for msg m'
    using that sent by (simp add: peer_send_def wp_def Let_def)
  show ?thesis
  proof (cases "ml_mPlayerContextByName m name")
    case (Some p)
    then have p: "p \<in> out m" using I(2) by (simp add: reg_ok_def)
    have "wp (peer_send E LoginServer msg m \<bind> (\<lambda>(r, m). ShutdownPlayer E p m)) (master_inv E)" for msg
      by (rule wp_peer_send [OF R_refl [OF I(1), of True p]], simp, erule wp_Shutdown) (rule inv_R [OF I(2) p])
    with Some failed show ?thesis by (simp add: Master_OnCommandOnLoginReq_def)
  next
    case None
    obtain res pl where a: "ObjectPool_Allocate () (ml_PlayerContextPool m) = Some (res, pl)"
      by (fastforce simp: ObjectPool_Allocate_def split: list.splits if_splits)
    note A = ObjectPool_Allocate_ok [OF _ a]
    have oi: "op_inv (ml_PlayerContextPool m)" using I(2) by (simp add: reg_ok_def)
    show ?thesis
    proof (cases res)
      case no: None
      then have "pl = ml_PlayerContextPool m" using A oi by simp
      then have "m\<lparr>ml_PlayerContextPool := pl\<rparr> = m" by simp
      then show ?thesis using None no a failed by (simp add: Master_OnCommandOnLoginReq_def)
    next
      case (Some p)
      define m1 where "m1 = m\<lparr>ml_PlayerContextPool := pl, ml_mPlayerContextByName := hm_insert name p (ml_mPlayerContextByName m),
        ml_mPlayerContextBySessionId := hm_insert sid p (ml_mPlayerContextBySessionId m),
        ml_LoginServerContext := (ml_LoginServerContext m)\<lparr>lc_mPlayerContext :=
           hm_insert sid p (lc_mPlayerContext (ml_LoginServerContext m))\<rparr>\<rparr>"
      have pl_ok: "op_inv pl" "p \<notin> out m" "ob_out pl = p # ob_out (ml_PlayerContextPool m)" using A oi Some by auto
      have "heap_ok E m1" using I(1) by (simp add: m1_def heap_ok_def)
      moreover have "cleared (ml_ctx m1 p)" using I(2) pl_ok(2) by (simp add: m1_def reg_ok_def)
      ultimately obtain sm where w: "wp (MasterPlayer_OnLoginReq E p sid name m1) (R True E p
          (m1\<lparr>ml_ctx := (ml_ctx m1)(p := (ml_ctx m1 p)\<lparr>mp_StateMachine := sm, mp_iSessionId := sid, mp_strAccountName := name\<rparr>)\<rparr>))"
          (is "wp _ (R True E p ?m2)")
        using OnLoginReq_ok [of E m1 p sid name] by (auto simp: cleared_def)
      have "\<not> mp_bFinalizing (ml_ctx m p)" using I(2) pl_ok(2) by (simp add: reg_ok_def cleared_def)
      then have "reg_ok ?m2" by (intro reg_add [OF I(2) pl_ok None assms(2)]) (simp_all add: m1_def hm_insert_def None assms(2))
      moreover have "p \<in> out ?m2" using pl_ok(3) by (simp add: m1_def)
      ultimately have "wp (MasterPlayer_OnLoginReq E p sid name m1) (master_inv E)"
        using wp_mono [OF w] inv_R by blast
      then show ?thesis using None Some a failed by (simp add: Master_OnCommandOnLoginReq_def Let_def m1_def)
    qed
  qed
qed

text \<open>A player gets a new session id.\<close>

lemma reg_resession:
  assumes "reg_ok m" "p \<in> out m" "ml_mPlayerContextBySessionId m gsid = None"
    "ml_ctx m' = (ml_ctx m)(p := (ml_ctx m p)\<lparr>mp_iSessionId := gsid\<rparr>)"
    "ml_mPlayerContextByName m' = ml_mPlayerContextByName m" "ml_PlayerContextPool m' = ml_PlayerContextPool m"
    "ml_PlayerFinalizingQueue m' = ml_PlayerFinalizingQueue m"
    "ml_mPlayerContextBySessionId m' = (if ml_mPlayerContextBySessionId m (mp_iSessionId (ml_ctx m p)) \<noteq> None
        then hm_insert gsid p ((ml_mPlayerContextBySessionId m)(mp_iSessionId (ml_ctx m p) := None))
        else ml_mPlayerContextBySessionId m)"
  shows "reg_ok m'"
proof -
  let ?s = "mp_iSessionId (ml_ctx m p)"
  have own: "ml_mPlayerContextBySessionId m ?s = Some p" using reg_sid [OF assms(1), of ?s p] assms(2) by simp
  have ne: "gsid \<noteq> ?s" using own assms(3) by auto
  then have map: "ml_mPlayerContextBySessionId m' = (ml_mPlayerContextBySessionId m)(?s := None, gsid \<mapsto> p)"
    using assms(3,8) own by (simp add: hm_insert_def)
  have same: "mp_strAccountName (ml_ctx m' q) = mp_strAccountName (ml_ctx m q)" "mp_bFinalizing (ml_ctx m' q) = mp_bFinalizing (ml_ctx m q)"
      "cleared (ml_ctx m' q) = cleared (ml_ctx m q)" for q
    by (simp_all add: assms(4) cleared_def)
  have sid: "ml_mPlayerContextBySessionId m' s = Some q \<longleftrightarrow> q \<in> out m' \<and> mp_iSessionId (ml_ctx m' q) = s" for s q
  proof (cases "q = p")
    case True
    then show ?thesis using map assms(2,4,6) ne reg_sid [OF assms(1), of s p] by auto
  next
    case False
    then have "mp_iSessionId (ml_ctx m q) \<noteq> ?s" if "q \<in> out m"
      using that own reg_sid [OF assms(1), of ?s q] by auto
    then show ?thesis using False map assms(4,6) assms(3) reg_sid [OF assms(1), of s q] by auto
  qed
  with same assms(1,5,6,7) show ?thesis by (simp add: reg_ok_def)
qed

lemma GateAllocAck_cmd_ok:
  assumes I: "master_inv E m" and "GetPeerServer E srv" "unat (drop_bit 24 gsid) < SERVERCOUNT_MAX"
    "ml_mPlayerContextBySessionId m gsid = None"
  shows "wp (Master_OnCommandGateAllocAck E lsid gsid srv name m) (master_inv E)"
proof (cases "ml_mPlayerContextByName m name")
  case (Some p)
  have reg: "reg_ok m" and h: "heap_ok E m" using I by (simp_all add: master_inv_def)
  have p: "p \<in> out m" using Some reg_name [OF reg, of name p] by simp
  have "wp (MasterPlayer_GateAllocAck E p srv gsid m) (master_inv E)"
  proof (rule wp_mono [OF GateAllocAck_ok [OF h assms(2,3)]], elim conjE exE)
    fix m' m1 assume h': "heap_ok E m'" and r: "R True E p m m1"
      and d: "frame False p m1 m' \<or> ml_ctx m' = (ml_ctx m1)(p := (ml_ctx m1 p)\<lparr>mp_iSessionId := gsid\<rparr>) \<and>
        ml_mPlayerContextByName m' = ml_mPlayerContextByName m1 \<and> ml_PlayerContextPool m' = ml_PlayerContextPool m1 \<and>
        ml_PlayerFinalizingQueue m' = ml_PlayerFinalizingQueue m1 \<and>
        ml_mPlayerContextBySessionId m' = (if ml_mPlayerContextBySessionId m1 (mp_iSessionId (ml_ctx m1 p)) \<noteq> None
          then hm_insert gsid p ((ml_mPlayerContextBySessionId m1)(mp_iSessionId (ml_ctx m1 p) := None))
          else ml_mPlayerContextBySessionId m1)"
    have 1: "reg_ok m1" "p \<in> out m1" "ml_mPlayerContextBySessionId m1 gsid = None"
      using inv_R [OF reg p r] r p assms(4) by (simp_all add: master_inv_def R_def frame_def)
    then have "reg_ok m'" using d reg_resession [OF 1] reg_frame [OF 1(1) _ 1(2)] by blast
    with h' show "master_inv E m'" by (simp add: master_inv_def)
  qed
  with Some I show ?thesis by (simp add: Master_OnCommandGateAllocAck_def wp_def)
qed (use I in \<open>simp add: Master_OnCommandGateAllocAck_def wp_def\<close>)

section \<open>Shutting down all players\<close>

lemma shutdown_all_ok:
  "master_inv E m \<Longrightarrow> set ps \<subseteq> out m \<Longrightarrow> wp (shutdown_all E ps m) (master_inv E)"
proof (induction ps arbitrary: m)
  case (Cons p ps)
  have h: "heap_ok E m" "reg_ok m" using Cons.prems(1) by (simp_all add: master_inv_def)
  have "wp (shutdown_all E ps m1) (master_inv E)" if "R True E p m m1" for m1
    using inv_R [OF h(2) _ that] Cons.prems(2) that by (intro Cons.IH) (auto simp: R_def frame_def)
  then show ?case by (simp, intro wp_bind wp_mono [OF ShutdownPlayer_ok [OF h(1)]])
qed (simp add: wp_def)

lemma reg_ran: "reg_ok m \<Longrightarrow> ran (ml_mPlayerContextByName m) = out m"
  using reg_name [of m] by (auto simp: ran_def)

lemma status_inv [simp]: "master_inv E (m\<lparr>ml_iShutdownStatus := x\<rparr>) = master_inv E m"
  by (simp add: master_inv_def heap_ok_def reg_ok_def)

lemma Shutdown_ok:
  assumes "cmd_ok E m COMMAND_SHUTDOWN" "master_inv E m"
  shows "wp (Master_OnCommandShutdown E m) (master_inv E)"
  unfolding Master_OnCommandShutdown_def
  using assms reg_ran [of m] by (intro shutdown_all_ok) (simp_all add: cmd_ok_def master_inv_def [of E m])

lemma GateReport_ok:
  assumes "master_inv E m" "unat srv \<noteq> SERVERCOUNT_MAX"
  shows "wp (Master_OnCommandOnGateReport srv n m) (master_inv E)"
proof (cases "unat srv < SERVERCOUNT_MAX")
  case True
  have g: "gates_ok E (ml_arrayGateServerContext m)" using assms(1) by (simp add: master_inv_def heap_ok_def)
  then obtain x where x: "arr (ml_arrayGateServerContext m) srv = Some x" "x \<in> set (ml_arrayGateServerContext m)"
    using True by (auto simp: arr_def gates_ok_def)
  have upd: "master_inv E (m\<lparr>ml_arrayGateServerContext := gs\<rparr>)" if "gates_ok E gs" for gs
    using assms(1) that by (simp add: master_inv_def heap_ok_def reg_ok_def)
  show ?thesis using True assms(1) x g upd
    by (cases x) (auto simp: Master_OnCommandOnGateReport_def wp_def gates_ok_def intro!: upd gates_ok_update)
qed (use assms in \<open>simp add: Master_OnCommandOnGateReport_def wp_def\<close>)

lemma LoginReport_ok: "master_inv E m \<Longrightarrow> wp (Master_OnCommandOnLoginReport srv m) (master_inv E)"
  by (simp add: Master_OnCommandOnLoginReport_def wp_def master_inv_def heap_ok_def reg_ok_def)

lemma OnCommand_ok:
  assumes "master_inv E m" "cmd_ok E m cmd"
  shows "wp (Master_OnCommand E cmd m) (master_inv E)"
proof (cases "ml_iShutdownStatus m = NOT_SHUTDOWN")
  case True
  have h: "heap_ok E m" using assms(1) by (simp add: master_inv_def)
  show ?thesis using True assms
    by (cases cmd)
      (auto simp: Master_OnCommand_def cmd_ok_def wp_Some intro!: Shutdown_ok LoginReport_ok GateReport_ok LoginReq_ok
        GateAllocAck_cmd_ok by_session_ok handlers_ok [OF h] OnRegionPlayerFailReq_ok [OF h] PacketForward_ok)
qed (use assms(1) in \<open>simp add: Master_OnCommand_def wp_def\<close>)

section \<open>The tick\<close>

definition deleted :: "ptr \<Rightarrow> MasterServerLoop \<Rightarrow> MasterServerLoop \<Rightarrow> bool" where
  "deleted p m m' \<longleftrightarrow> (\<exists>lc gs cs. m' = m\<lparr>ml_LoginServerContext := lc, ml_arrayGateServerContext := gs, ml_arrayChannelContext := cs,
     ml_mPlayerContextByName := (ml_mPlayerContextByName m)(mp_strAccountName (ml_ctx m p) := None),
     ml_mPlayerContextBySessionId := (ml_mPlayerContextBySessionId m)(mp_iSessionId (ml_ctx m p) := None),
     ml_ctx := (ml_ctx m)(p := MasterPlayer_Clear (ml_ctx m p)),
     ml_PlayerContextPool := the (ObjectPool_Free p (ml_PlayerContextPool m))\<rparr>)"

lemma DeleteGate_eq:
  assumes "heap_ok E m"
  shows "\<exists>gs. DeletePlayerFromGateServerContext p m = Some (m\<lparr>ml_arrayGateServerContext := gs\<rparr>) \<and> gates_ok E gs"
proof -
  have g: "gates_ok E (ml_arrayGateServerContext m)" and i: "unat (mp_iGateServerId (ml_ctx m p)) < 128"
    using assms by (auto simp: heap_ok_def ctx_ok_def GetPeerServer_def)
  then obtain x where x: "arr (ml_arrayGateServerContext m) (mp_iGateServerId (ml_ctx m p)) = Some x" "x \<in> set (ml_arrayGateServerContext m)"
    by (auto simp: arr_def gates_ok_def)
  show ?thesis
  proof (cases x)
    case None
    then show ?thesis using x(1) g i
      by (auto simp: DeletePlayerFromGateServerContext_def Let_def intro!: exI [of _ "ml_arrayGateServerContext m"])
  next
    case (Some c)
    then have "GetPeerServer E (gs_iServerId c)" using x(2) g by (simp add: gates_ok_def)
    then show ?thesis using x(1) Some g i
      by (auto simp: DeletePlayerFromGateServerContext_def Let_def intro!: gates_ok_update)
  qed
qed

lemma clear_ok: "GetPeerServer E 0 \<Longrightarrow> ctx_ok E c \<Longrightarrow> ctx_ok E (MasterPlayer_Clear c) \<and> cleared (MasterPlayer_Clear c)"
  by (auto simp: ctx_ok_def cleared_def MasterPlayer_Clear_def SetCurrState_def live_states_def)

lemma DeletePlayer_ok:
  assumes "GetPeerServer E 0" "heap_ok E m"
  shows "wp (DeletePlayer p m) (\<lambda>m'. deleted p m m' \<and> heap_ok E m')"
proof -
  let ?s = "curr p m"
  define m1 where "m1 = (if in_states ?s [PLAYER_STATE_ONLOGINREQ, PLAYER_STATE_GATEALLOCREQ, PLAYER_STATE_GATEALLOCFAILACK]
      then DeletePlayerFromLoginServerContext p m else m)"
  define lc where "lc = ml_LoginServerContext m1"
  have m1: "m1 = m\<lparr>ml_LoginServerContext := lc\<rparr>" by (simp add: m1_def lc_def DeletePlayerFromLoginServerContext_def)
  have h1: "heap_ok E m1" using assms(2) by (simp add: m1 heap_ok_def)
  have gate: "wp (if c then DeletePlayerFromGateServerContext p m1 else Some m1)
      (\<lambda>m2. heap_ok E m2 \<and> (\<exists>gs. m2 = m1\<lparr>ml_arrayGateServerContext := gs\<rparr>))" for c
    using DeleteGate_eq [OF h1, of p] h1 by (cases c) (auto simp: wp_def heap_ok_def intro: exI [of _ "ml_arrayGateServerContext m1"])
  have region: "wp (if c then DeletePlayerFromRegionServerContext p m2 else Some m2)
      (\<lambda>m3. heap_ok E m3 \<and> (\<exists>cs. m3 = m2\<lparr>ml_arrayChannelContext := cs\<rparr>))" if "heap_ok E m2" for c m2
    using region_upd_eq [OF that, of p "\<lambda>f. f(mp_iSessionId (ml_ctx m2 p) := None)"] that
    by (cases c) (auto simp: wp_def DeletePlayerFromRegionServerContext_def heap_ok_def intro: exI [of _ "ml_arrayChannelContext m2"])
  have fin: "wp (ObjectPool_Free p (ml_PlayerContextPool m4) \<bind> (\<lambda>pl. Some (m4\<lparr>ml_PlayerContextPool := pl\<rparr>)))
      (\<lambda>m'. deleted p m m' \<and> heap_ok E m')"
    if "heap_ok E m3" "m3 = m\<lparr>ml_LoginServerContext := lc, ml_arrayGateServerContext := gs, ml_arrayChannelContext := cs\<rparr>"
      "m4 = ctx_upd p MasterPlayer_Clear (m3\<lparr>ml_mPlayerContextByName := (ml_mPlayerContextByName m3)(mp_strAccountName (ml_ctx m3 p) := None),
        ml_mPlayerContextBySessionId := (ml_mPlayerContextBySessionId m3)(mp_iSessionId (ml_ctx m3 p) := None)\<rparr>)" for m3 m4 gs cs
  proof -
    have "ctx_ok E (MasterPlayer_Clear (ml_ctx m p))" using clear_ok [OF assms(1)] assms(2) by (simp add: heap_ok_def)
    with that show ?thesis by (auto simp: wp_def ObjectPool_Free_def deleted_def ctx_upd_def heap_ok_def)
  qed
  show ?thesis
    unfolding DeletePlayer_def Let_def m1_def [symmetric]
    by (rule wp_bind, rule wp_mono [OF gate], elim conjE exE, rule wp_bind, rule wp_mono [OF region], assumption, elim conjE exE)
      (rule fin, assumption, simp_all add: m1)
qed

text \<open>Deleting the one player in the queue.\<close>

lemma reg_remove:
  assumes r: "reg_ok m" and q: "ml_PlayerFinalizingQueue m = [p]" and d: "deleted p m m'" and cl: "cleared (ml_ctx m' p)"
  shows "reg_ok (m'\<lparr>ml_PlayerFinalizingQueue := []\<rparr>)" and "out m' = out m - {p}"
proof -
  have p: "p \<in> out m" using reg_queue [OF r, of p] q by simp
  obtain lc gs cs where m': "m' = m\<lparr>ml_LoginServerContext := lc, ml_arrayGateServerContext := gs, ml_arrayChannelContext := cs,
     ml_mPlayerContextByName := (ml_mPlayerContextByName m)(mp_strAccountName (ml_ctx m p) := None),
     ml_mPlayerContextBySessionId := (ml_mPlayerContextBySessionId m)(mp_iSessionId (ml_ctx m p) := None),
     ml_ctx := (ml_ctx m)(p := MasterPlayer_Clear (ml_ctx m p)),
     ml_PlayerContextPool := the (ObjectPool_Free p (ml_PlayerContextPool m))\<rparr>" using d by (auto simp: deleted_def)
  have op: "op_inv (ml_PlayerContextPool m)" using r by (simp add: reg_ok_def)
  then have pool': "op_inv (ml_PlayerContextPool m')" "ob_out (ml_PlayerContextPool m') = remove1 p (ob_out (ml_PlayerContextPool m))"
    using ObjectPool_Free_ok [OF op p] by (auto simp: m')
  then show out': "out m' = out m - {p}" using op by (simp add: op_inv_def)
  have name: "ml_mPlayerContextByName m' n = Some x \<longleftrightarrow> x \<in> out m' \<and> mp_strAccountName (ml_ctx m' x) = n" for n x
    using reg_name [OF r, of n x] reg_name [OF r, of "mp_strAccountName (ml_ctx m p)" p] p
    unfolding out' by (auto simp: m')
  have sid: "ml_mPlayerContextBySessionId m' s = Some x \<longleftrightarrow> x \<in> out m' \<and> mp_iSessionId (ml_ctx m' x) = s" for s x
    using reg_sid [OF r, of s x] reg_sid [OF r, of "mp_iSessionId (ml_ctx m p)" p] p
    unfolding out' by (auto simp: m')
  have queue: "\<not> (x \<in> out m' \<and> mp_bFinalizing (ml_ctx m' x))" for x
    using reg_queue [OF r, of x] q unfolding out' by (auto simp: m')
  have "cleared (ml_ctx m' x)" if "x \<notin> out m'" for x
    using that r cl unfolding out' by (cases "x = p") (auto simp: m' reg_ok_def)
  with name sid queue pool'(1) show "reg_ok (m'\<lparr>ml_PlayerFinalizingQueue := []\<rparr>)" by (simp add: reg_ok_def)
qed

lemma time_inv [simp]: "master_inv E (m\<lparr>ml_dwCurrTime := t\<rparr>) = master_inv E m"
  by (simp add: master_inv_def heap_ok_def reg_ok_def)

lemma Tick_ok:
  assumes "GetPeerServer E 0" "master_inv E m" "length (ml_PlayerFinalizingQueue m) \<le> 1"
  shows "wp (master_step E (Tick t) m) (\<lambda>m'. master_inv E m' \<and> ml_PlayerFinalizingQueue m' = [] \<and>
    out m' = out m - set (ml_PlayerFinalizingQueue m))"
proof -
  have h: "heap_ok E m" "reg_ok m" using assms(2) by (simp_all add: master_inv_def)
  have "wp (finalize_loop (ml_PlayerFinalizingQueue m) m) (\<lambda>m'. master_inv E m' \<and> ml_PlayerFinalizingQueue m' = [] \<and>
      out m' = out m - set (ml_PlayerFinalizingQueue m))"
  proof (cases "ml_PlayerFinalizingQueue m")
    case (Cons p qs)
    then have q: "ml_PlayerFinalizingQueue m = [p]" using assms(3) by simp
    obtain m' where d: "DeletePlayer p m = Some m'" "deleted p m m'" "heap_ok E m'"
      using DeletePlayer_ok [OF assms(1) h(1), of p] by (auto simp: wp_def)
    have "cleared (ml_ctx m' p)" using d(2) clear_ok [OF assms(1)] h(1) by (auto simp: deleted_def heap_ok_def)
    from reg_remove [OF h(2) q d(2) this] d q show ?thesis by (simp add: wp_def master_inv_def)
  qed (use assms(2) in \<open>simp add: wp_def\<close>)
  then obtain m1 where "finalize_loop (ml_PlayerFinalizingQueue m) m = Some m1" "master_inv E m1" "ml_PlayerFinalizingQueue m1 = []"
      "out m1 = out m - set (ml_PlayerFinalizingQueue m)" by (auto simp: wp_def)
  then show ?thesis by (simp add: wp_def master_step_def Master_Loop_def)
qed

section \<open>Start-up\<close>

text \<open>A well-formed configuration: gates and channels have configured servers and ids inside the arrays, the
  channels are numbered from 0 without gaps, and every channel has its array of regions.\<close>

definition config_ok :: "menv \<Rightarrow> bool" where
  "config_ok E \<longleftrightarrow> GetPeerServer E 0 \<and>
     (\<forall>g \<in> set (me_gates E). GetPeerServer E (gc_iServerId g)) \<and>
     length (me_channels E) \<le> CHANNEL_MAX \<and>
     (\<lambda>c. unat (cc_iChannelId c)) ` set (me_channels E) = {..<length (me_channels E)} \<and>
     (\<forall>c \<in> set (me_channels E). GetPeerServer E (cc_iInitialRegionServerId c) \<and> length (cc_arrayRegionConfig c) = SERVERCOUNT_MAX)"

lemma init_gates_ok:
  "gates_ok E xs \<Longrightarrow> (\<forall>g \<in> set gs. GetPeerServer E (gc_iServerId g)) \<Longrightarrow> wp (init_gates gs xs) (gates_ok E)"
proof (induction gs arbitrary: xs)
  case (Cons g gs)
  have g: "unat (gc_iServerId g) < 128" using Cons.prems(2) by (simp add: GetPeerServer_def)
  then obtain x where "arr xs (gc_iServerId g) = Some x" using Cons.prems(1) by (simp add: arr_def gates_ok_def)
  moreover have "gates_ok E (xs[i := Some (GateServerContext_of g)])" for i
    using Cons.prems by (intro gates_ok_update) (simp_all add: GateServerContext_of_def)
  ultimately show ?case using Cons g by simp
qed (simp add: wp_def)

definition channels_init :: "menv \<Rightarrow> nat set \<Rightarrow> ChannelContext option list \<Rightarrow> bool" where
  "channels_init E I cs \<longleftrightarrow> length cs = CHANNEL_MAX \<and> (\<forall>i \<in> I. cs ! i \<noteq> None) \<and> (\<forall>c. Some c \<in> set cs \<longrightarrow> channel_ok E c)"

lemma init_channels_ok:
  "channels_init E I xs \<Longrightarrow> (\<forall>c \<in> set cs. unat (cc_iChannelId c) < CHANNEL_MAX \<and> GetPeerServer E (cc_iInitialRegionServerId c) \<and>
     length (cc_arrayRegionConfig c) = SERVERCOUNT_MAX) \<Longrightarrow>
   wp (init_channels cs xs) (channels_init E (I \<union> (\<lambda>c. unat (cc_iChannelId c)) ` set cs))"
proof (induction cs arbitrary: xs I)
  case (Cons c cs)
  let ?i = "unat (cc_iChannelId c)"
  let ?xs = "if xs ! ?i \<noteq> None then xs else xs[?i := Some (ChannelContext_of c)]"
  have i: "?i < 16" "length xs = 16" using Cons.prems by (simp_all add: channels_init_def)
  have "channel_ok E (ChannelContext_of c)" using Cons.prems(2) by (simp add: channel_ok_def ChannelContext_of_def)
  then have "channels_init E (insert ?i I) ?xs"
    using Cons.prems(1) i set_update_subset_insert [of xs ?i "Some (ChannelContext_of c)"]
    by (auto simp: channels_init_def nth_list_update)
  from Cons.IH [OF this] show ?case using Cons.prems(2) i by (simp add: arr_def)
qed (simp add: wp_def)

lemma new_ctx:
  assumes "GetPeerServer E 0"
  shows "\<exists>c. MasterPlayerContext_new = Some c \<and> ctx_ok E c \<and> cleared c \<and> mp_strAccountName c = []"
  using master_InitStateMachine_ok [of "st PLAYER_STATE_NONE"] assms
  by (auto simp: MasterPlayerContext_new_def ctx_ok_def cleared_def live_states_def)

lemma Init_ok:
  assumes "config_ok E" "MasterServerLoop_new = Some m"
  shows "wp (Master_Init E m) (master_inv E)"
proof -
  have E: "GetPeerServer E 0" using assms(1) by (simp add: config_ok_def)
  obtain c where c: "MasterPlayerContext_new = Some c" "ctx_ok E c" "cleared c" using new_ctx [OF E] by blast
  have m: "ml_arrayGateServerContext m = replicate 128 None" "ml_arrayChannelContext m = replicate 16 None" "ml_ctx m = (\<lambda>_. c)"
      "reg_ok m"
    using assms(2) [unfolded MasterServerLoop_new_def c(1) Option.bind.bind_lunit, symmetric] c(3) op_new by (auto simp: reg_ok_def)
  have len: "length (me_channels E) \<le> 16" using assms(1) by (simp add: config_ok_def)
  obtain gs where gs: "init_gates (me_gates E) (replicate 128 None) = Some gs" "gates_ok E gs"
    using init_gates_ok [of E "replicate 128 None" "me_gates E"] assms(1) by (auto simp: wp_def gates_ok_def config_ok_def)
  have ids: "(\<lambda>c. unat (cc_iChannelId c)) ` set (me_channels E) = {..<length (me_channels E)}"
    using assms(1) by (simp add: config_ok_def)
  then have "unat (cc_iChannelId x) < 16" if "x \<in> set (me_channels E)" for x using that len by (metis image_eqI lessThan_iff less_le_trans)
  then obtain cs where cs: "init_channels (me_channels E) (replicate 16 None) = Some cs" "channels_init E {..<length (me_channels E)} cs"
    using init_channels_ok [of E "{}" "replicate 16 None" "me_channels E"] assms(1) ids
    by (auto simp: wp_def channels_init_def config_ok_def)
  have "channels_ok E (of_nat (length (me_channels E))) cs"
    using cs(2) len by (simp add: channels_init_def channels_ok_def unsigned_of_nat take_bit_nat_eq_self)
  then show ?thesis using gs cs(1) m c(2)
    by (simp add: wp_def Master_Init_def master_inv_def heap_ok_def reg_ok_def)
qed

section \<open>Reachable states\<close>

text \<open>The states reached within the conditions of the invariant proof: commands as in \<open>cmd_ok\<close>, and ticks while at most one player waits in the
  finalizing queue.  The code has neither condition; \<open>MasterProps\<close> says what happens at an event outside them.\<close>

inductive master_reach :: "menv \<Rightarrow> MasterServerLoop \<Rightarrow> bool" for E where
  Start: "MasterServerLoop_new = Some m0 \<Longrightarrow> Master_Init E m0 = Some m \<Longrightarrow> master_reach E m"
| Command: "master_reach E m \<Longrightarrow> cmd_ok E m cmd \<Longrightarrow> master_step E (Cmd cmd) m = Some m' \<Longrightarrow> master_reach E m'"
| Ticked: "master_reach E m \<Longrightarrow> length (ml_PlayerFinalizingQueue m) \<le> 1 \<Longrightarrow> master_step E (Tick t) m = Some m' \<Longrightarrow> master_reach E m'"

lemma master_reach_inv:
  assumes "config_ok E" "master_reach E m"
  shows "master_inv E m"
  using assms(2)
proof induction
  case (Start m0 m)
  then show ?case using Init_ok [OF assms(1) Start(1)] by (simp add: wp_def)
next
  case (Command m cmd m')
  then show ?case using OnCommand_ok [of E m cmd] assms(1) by (auto simp: config_ok_def wp_def master_step_def)
next
  case (Ticked m t m')
  then show ?case using Tick_ok [of E m t] assms(1) by (auto simp: config_ok_def wp_def)
qed

end
