(* ===== verification/Runs.thy ===== *)
theory Runs
  imports Prelude
begin

text \<open>
  Runs of a loop over an arbitrary list of events.

  A server of this repository executes whatever commands and rounds arrive, so its properties are stated for every list of events:
  \<open>orun\<close> executes it, \<open>None\<close> is undefined behaviour.  The interface \<open>guarded_system\<close> is what an invariant proof of a server provides: a
  condition on the next event under which the step keeps the invariant.  Its lemma cuts an arbitrary run at the first event that
  violates the condition; \<open>total_system\<close> adds that the steps under the condition are defined.  The interpretations
  are with the servers.
\<close>

primrec orun :: "('a \<Rightarrow> 's \<Rightarrow> 's option) \<Rightarrow> 'a list \<Rightarrow> 's \<Rightarrow> 's option" where
  "orun step [] s = Some s"
| "orun step (a # as) s = do { s \<leftarrow> step a s; orun step as s }"

lemma orun_append: "orun step (as @ bs) s = orun step as s \<bind> orun step bs"
  by (induction as arbitrary: s) (auto split: Option.bind_splits)

lemma orun_next: "orun step (bs @ cs) s = Some u \<Longrightarrow> orun step bs s = Some t \<Longrightarrow> cs \<noteq> [] \<Longrightarrow> step (hd cs) t \<noteq> None"
  by (cases cs) (auto simp: orun_append split: Option.bind_splits)

locale guarded_system =
  fixes step :: "'a \<Rightarrow> 's \<Rightarrow> 's option" and ok :: "'a \<Rightarrow> 's \<Rightarrow> bool" and inv :: "'s \<Rightarrow> bool"
  assumes step_inv: "inv s \<Longrightarrow> ok a s \<Longrightarrow> step a s = Some s' \<Longrightarrow> inv s'"
begin

lemma run_until:
  assumes "inv s"
  shows "\<exists>bs cs t. as = bs @ cs \<and> orun step bs s = Some t \<and> inv t \<and> (cs = [] \<or> \<not> ok (hd cs) t \<or> step (hd cs) t = None)"
  using assms
proof (induction as arbitrary: s)
  case (Cons a as)
  show ?case
  proof (cases "ok a s \<and> step a s \<noteq> None")
    case True
    then obtain s' where s': "step a s = Some s'" "inv s'" using step_inv [OF Cons.prems] by blast
    from Cons.IH [OF s'(2)] obtain bs cs t where "as = bs @ cs" "orun step bs s' = Some t" "inv t"
      "cs = [] \<or> \<not> ok (hd cs) t \<or> step (hd cs) t = None" by blast
    with s'(1) show ?thesis by (intro exI [of _ "a # bs"] exI [of _ cs] exI [of _ t]) simp
  next
    case False
    with Cons.prems show ?thesis by (intro exI [of _ "[]"] exI [of _ "a # as"] exI [of _ s]) auto
  qed
qed simp

end

locale total_system = guarded_system +
  assumes step_defined: "inv s \<Longrightarrow> ok a s \<Longrightarrow> step a s \<noteq> None"
begin

lemma run_defined_until:
  assumes "inv s"
  shows "\<exists>bs cs t. as = bs @ cs \<and> orun step bs s = Some t \<and> inv t \<and> (cs = [] \<or> \<not> ok (hd cs) t)"
proof -
  obtain bs cs t where "as = bs @ cs" "orun step bs s = Some t" "inv t" "cs = [] \<or> \<not> ok (hd cs) t \<or> step (hd cs) t = None"
    using run_until [OF assms] by blast
  with step_defined show ?thesis by blast
qed

end

end
