(* ===== verification/MasterProps.thy ===== *)
theory MasterProps
  imports MasterReach Runs
begin

text \<open>
  The properties of the master server: what holds in every reachable state, the login of a player, and what
  goes wrong when more than one player is finalized in a tick, when a player in a region is shut down
  with the server, and when a player leaves while its region is being allocated.
\<close>

section \<open>Computing with the handlers\<close>

definition set_state :: "ptr \<Rightarrow> int \<Rightarrow> MasterServerLoop \<Rightarrow> MasterServerLoop" where
  "set_state p s m = ctx_upd p (\<lambda>c. c\<lparr>mp_StateMachine := (mp_StateMachine c)\<lparr>sm_iCurrState := s\<rparr>\<rparr>) m"

lemma fsm_eq:
  assumes "heap_ok E m" "curr p m = s" "tr s (ev e) = Some s'"
  shows "fsm p e m = Some (s', set_state p s' m)"
proof -
  have "fsm_inv (mp_StateMachine (ml_ctx m p))" "fsm_fun (mp_StateMachine (ml_ctx m p)) = (\<lambda>(s, e). tr s e)"
    using assms(1) by (simp_all add: heap_ok_def ctx_ok_def)
  then show ?thesis using StateTransition_ok [of "mp_StateMachine (ml_ctx m p)" "ev e" True] assms(2,3)
    by (simp add: fsm_def set_state_def curr_def GetCurrState_def ctx_upd_def)
qed

lemma set_state_heap: "heap_ok E m \<Longrightarrow> s \<in> set live_states \<Longrightarrow> heap_ok E (set_state p (st s) m)"
  by (auto simp: set_state_def intro!: heap_ctx_upd) (auto simp: heap_ok_def ctx_ok_def)

lemma set_state_simps [simp]:
  "curr p (set_state p s m) = s"
  "ml_ctx (set_state p s m) p = (ml_ctx m p)\<lparr>mp_StateMachine := (mp_StateMachine (ml_ctx m p))\<lparr>sm_iCurrState := s\<rparr>\<rparr>"
  "q \<noteq> p \<Longrightarrow> ml_ctx (set_state p s m) q = ml_ctx m q"
  "ml_mPlayerContextByName (set_state p s m) = ml_mPlayerContextByName m"
  "ml_mPlayerContextBySessionId (set_state p s m) = ml_mPlayerContextBySessionId m"
  "ml_PlayerContextPool (set_state p s m) = ml_PlayerContextPool m"
  "ml_PlayerFinalizingQueue (set_state p s m) = ml_PlayerFinalizingQueue m"
  "ml_iShutdownStatus (set_state p s m) = ml_iShutdownStatus m" "ml_LoginServerContext (set_state p s m) = ml_LoginServerContext m"
  "ml_arrayGateServerContext (set_state p s m) = ml_arrayGateServerContext m"
  "ml_sent (set_state p s m) = ml_sent m" "ml_Delay (set_state p s m) = ml_Delay m"
  by (simp_all add: set_state_def ctx_upd_def curr_def GetCurrState_def)

lemma ctx_upd_simps [simp]:
  "ml_ctx (ctx_upd p f m) p = f (ml_ctx m p)" "q \<noteq> p \<Longrightarrow> ml_ctx (ctx_upd p f m) q = ml_ctx m q"
  "ml_mPlayerContextByName (ctx_upd p f m) = ml_mPlayerContextByName m"
  "ml_mPlayerContextBySessionId (ctx_upd p f m) = ml_mPlayerContextBySessionId m"
  "ml_PlayerContextPool (ctx_upd p f m) = ml_PlayerContextPool m"
  "ml_PlayerFinalizingQueue (ctx_upd p f m) = ml_PlayerFinalizingQueue m"
  "ml_iShutdownStatus (ctx_upd p f m) = ml_iShutdownStatus m" "ml_LoginServerContext (ctx_upd p f m) = ml_LoginServerContext m"
  "ml_arrayGateServerContext (ctx_upd p f m) = ml_arrayGateServerContext m"
  "ml_sent (ctx_upd p f m) = ml_sent m" "ml_Delay (ctx_upd p f m) = ml_Delay m"
  by (simp_all add: ctx_upd_def)

lemma tr_facts:
  "tr (st PLAYER_STATE_NONE) (ev PLAYER_EVENT_ONLOGINREQ) = Some (st PLAYER_STATE_ONLOGINREQ)"
  "tr (st PLAYER_STATE_ONLOGINREQ) (ev PLAYER_EVENT_GATEALLOCREQ) = Some (st PLAYER_STATE_GATEALLOCREQ)"
  "tr (st PLAYER_STATE_GATEALLOCREQ) (ev PLAYER_EVENT_GATEALLOCACK) = Some (st PLAYER_STATE_GATEALLOCACK)"
  "tr (st PLAYER_STATE_GATEALLOCACK) (ev PLAYER_EVENT_GATEALLOCNTF) = Some (st PLAYER_STATE_GATEALLOCNTF)"
  "tr (st PLAYER_STATE_CHANNELLISTNTF) (ev PLAYER_EVENT_ONCHANNELSELECTREQ) = Some (st PLAYER_STATE_ONCHANNELSELECTREQ)"
  "tr (st PLAYER_STATE_ONCHANNELSELECTREQ) (ev PLAYER_EVENT_REGIONALLOCREQ) = Some (st PLAYER_STATE_REGIONALLOCREQ)"
  "tr (st PLAYER_STATE_REGIONENTERREQ) (ev PLAYER_EVENT_FINALIZE) = Some (st PLAYER_STATE_FINALIZING)"
  "tr (st PLAYER_STATE_FINALIZING) (ev PLAYER_EVENT_REGIONLEAVEACK) = Some (st PLAYER_STATE_FINALIZING_REGIONLEAVEACK)"
  by code_simp+

lemma peer_send_eq:
  "dest_ok E d \<Longrightarrow> peer_send E d msg m = Some (me_net E (length (ml_sent m)), m\<lparr>ml_sent := ml_sent m @ [(d, msg, me_net E (length (ml_sent m)))]\<rparr>)"
  by (cases d) (simp_all add: peer_send_def Let_def)

section \<open>Reachable states\<close>

text \<open>Types of the players.  In every reachable state of the master server the state of every player context
  is one of the declared states of the enumeration, in fact one of the 31 that the handlers can reach, and
  every event that a handler raises is answered by such a state or with -1.\<close>
theorem master_states_typed:
  assumes "config_ok E" "master_reach E m" "e \<in> set raised_events"
  shows "\<exists>s r m'. s \<in> set live_states \<and> curr p m = st s \<and> fsm p e m = Some (r, m') \<and>
    (r = INVALID_FSM_STATE \<and> curr p m' = st s \<or> r = curr p m' \<and> (\<exists>s' \<in> set live_states. r = st s'))"
proof -
  have h: "heap_ok E m" using master_reach_inv [OF assms(1,2)] by (simp add: master_inv_def)
  obtain s where s: "s \<in> set live_states" "curr p m = st s"
    using h by (auto simp: heap_ok_def ctx_ok_def curr_def GetCurrState_def)
  obtain r sm where f: "fsm p e m = Some (r, ctx_upd p (\<lambda>c. c\<lparr>mp_StateMachine := sm\<rparr>) m)"
      "case tr (curr p m) (ev e) of None \<Rightarrow> r = - 1 \<and> sm = mp_StateMachine (ml_ctx m p)
     | Some s \<Rightarrow> r = s \<and> sm = (mp_StateMachine (ml_ctx m p))\<lparr>sm_iCurrState := s\<rparr>"
    using fsm_ok [OF h assms(3)] by blast
  show ?thesis
  proof (cases "tr (st s) (ev e)")
    case None
    then show ?thesis using f s by (auto simp: curr_def GetCurrState_def)
  next
    case (Some s')
    then have "s' \<in> st ` set live_states" using live_step [of "st s" e s'] s(1) assms(3) by simp
    with Some f s show ?thesis by (auto simp: curr_def GetCurrState_def)
  qed
qed

text \<open>The configuration that is shipped with the servers.\<close>

definition demo_env :: menv where
  "demo_env = \<lparr>me_gates = [\<lparr>gc_iServerId = 3, gc_iServerIP = 0x0100007F, gc_iServerPort = 8001, gc_iSessionMax = 500\<rparr>],
     me_channels = [\<lparr>cc_strChannelName = [70, 97, 110], cc_iChannelId = 0, cc_iPlayerMax = 1000, cc_iInitialRegionServerId = 4,
       cc_arrayRegionConfig = replicate SERVERCOUNT_MAX \<lparr>rc_iServerId = 4, rc_iChannelId = 0, rc_iPlayerMax = 500\<rparr>\<rparr>],
     me_server = (\<lambda>i. i \<le> 4), me_net = (\<lambda>_. 0),
     me_recv = (\<lambda>t d. if t = 0x0203 then Some (ChannelSelectReq d) else None), me_wide = (\<lambda>s. Some (map ucast s)),
     me_narrow = (\<lambda>s. Some (map ucast s)), me_order = (\<lambda>f. case f [97] of Some p \<Rightarrow> [p] | None \<Rightarrow> [])\<rparr>"

lemma demo_peer: "GetPeerServer demo_env i \<longleftrightarrow> i \<le> 4"
  by (auto simp: GetPeerServer_def demo_env_def word_le_nat_alt)

lemma demo_config: "config_ok demo_env"
  unfolding config_ok_def demo_peer by (simp add: demo_env_def lessThan_Suc)

lemma demo_start:
  "\<exists>m0 m. MasterServerLoop_new = Some m0 \<and> Master_Init demo_env m0 = Some m \<and> master_reach demo_env m \<and> master_inv demo_env m \<and>
     ml_iShutdownStatus m = NOT_SHUTDOWN \<and> ml_PlayerContextPool m = ObjectPool_new 5000 \<and>
     ml_mPlayerContextByName m = Map.empty \<and> ml_mPlayerContextBySessionId m = Map.empty \<and> ml_PlayerFinalizingQueue m = [] \<and> ml_sent m = [] \<and>
     ml_arrayGateServerContext m = (replicate SERVERCOUNT_MAX None)[3 := Some (GateServerContext_of (hd (me_gates demo_env)))] \<and>
     ml_iChannelCount m = 1 \<and> ml_arrayChannelContext m = (replicate CHANNEL_MAX None)[0 := Some (ChannelContext_of (hd (me_channels demo_env)))] \<and>
     (\<forall>p. mp_iRegionServerId (ml_ctx m p) = 0 \<and> mp_iGateServerId (ml_ctx m p) = 0 \<and> mp_iAvatarId (ml_ctx m p) = 0 \<and>
        mp_strAvatarName (ml_ctx m p) = [] \<and> \<not> mp_bFinalizing (ml_ctx m p))"
proof -
  obtain c where c: "MasterPlayerContext_new = Some c" using new_ctx [of demo_env] by (auto simp: demo_peer)
  obtain m0 where m0: "MasterServerLoop_new = Some m0" unfolding MasterServerLoop_new_def c by simp
  obtain m where m: "Master_Init demo_env m0 = Some m" "master_inv demo_env m"
    using Init_ok [OF demo_config m0] by (auto simp: wp_def)
  have f: "ml_iShutdownStatus m0 = NOT_SHUTDOWN" "ml_PlayerContextPool m0 = ObjectPool_new 5000" "ml_mPlayerContextByName m0 = Map.empty"
      "ml_mPlayerContextBySessionId m0 = Map.empty" "ml_PlayerFinalizingQueue m0 = []" "ml_sent m0 = []"
      "ml_arrayGateServerContext m0 = replicate SERVERCOUNT_MAX None" "ml_arrayChannelContext m0 = replicate CHANNEL_MAX None"
      "ml_ctx m0 = (\<lambda>_. c)"
    using m0 [unfolded MasterServerLoop_new_def c Option.bind.bind_lunit, symmetric] by auto
  have g: "init_gates (me_gates demo_env) (replicate SERVERCOUNT_MAX None) =
      Some ((replicate SERVERCOUNT_MAX None)[3 := Some (GateServerContext_of (hd (me_gates demo_env)))])"
    by (simp add: demo_env_def arr_def)
  have ch: "init_channels (me_channels demo_env) (replicate CHANNEL_MAX None) =
      Some ((replicate CHANNEL_MAX None)[0 := Some (ChannelContext_of (hd (me_channels demo_env)))])" "length (me_channels demo_env) = 1"
    by (simp_all add: demo_env_def arr_def)
  have cf: "mp_iRegionServerId c = 0" "mp_iGateServerId c = 0" "mp_iAvatarId c = 0" "mp_strAvatarName c = []" "\<not> mp_bFinalizing c"
    using c by (auto simp: MasterPlayerContext_new_def split: Option.bind_splits)
  have "master_reach demo_env m" using m0 m(1) by (rule master_reach.Start)
  moreover have "ml_iShutdownStatus m = ml_iShutdownStatus m0 \<and> ml_PlayerContextPool m = ml_PlayerContextPool m0 \<and>
      ml_mPlayerContextByName m = ml_mPlayerContextByName m0 \<and> ml_mPlayerContextBySessionId m = ml_mPlayerContextBySessionId m0 \<and>
      ml_PlayerFinalizingQueue m = ml_PlayerFinalizingQueue m0 \<and> ml_sent m = ml_sent m0 \<and>
      ml_arrayGateServerContext m = (replicate SERVERCOUNT_MAX None)[3 := Some (GateServerContext_of (hd (me_gates demo_env)))]"
    using m(1) by (auto simp: Master_Init_def f(7) g split: bind_splits)
  moreover have "ml_iChannelCount m = 1 \<and> ml_arrayChannelContext m = (replicate CHANNEL_MAX None)[0 := Some (ChannelContext_of (hd (me_channels demo_env)))] \<and>
      ml_ctx m = (\<lambda>_. c)"
    using m(1) by (simp add: Master_Init_def f(7,8,9) g ch) (auto simp: f(9))
  ultimately show ?thesis using m0 m f cf by (intro exI [of _ m0] exI [of _ m]) simp
qed

theorem master_states_typed_witness:
  "\<exists>m s r m'. master_reach demo_env m \<and> s \<in> set live_states \<and> fsm 0 PLAYER_EVENT_ONLOGINREQ m = Some (r, m') \<and> curr 0 m = st s"
proof -
  obtain m where m: "master_reach demo_env m" using demo_start by blast
  from master_states_typed [OF demo_config m, of PLAYER_EVENT_ONLOGINREQ 0] m show ?thesis by auto
qed

section \<open>The login of a player\<close>

lemma heap_ok_sent [simp]: "heap_ok E (m\<lparr>ml_sent := x\<rparr>) = heap_ok E m"
  by (simp add: heap_ok_def)

lemma curr_sent [simp]: "curr p (m\<lparr>ml_sent := x\<rparr>) = curr p m" "curr p (m\<lparr>ml_Delay := d\<rparr>) = curr p m"
  "curr p (m\<lparr>ml_arrayGateServerContext := gs\<rparr>) = curr p m"
  by (simp_all add: curr_def)

lemma curr_upd [simp]: "(\<And>c. mp_StateMachine (f c) = mp_StateMachine c) \<Longrightarrow> curr p (ctx_upd p f m) = curr p m"
  by (simp add: curr_def)

lemma gate_search_set:
  "gate_search gs k = Some (i, g) \<Longrightarrow> k \<le> i \<and> i - k < length gs \<and> gs ! (i - k) = Some g"
  by (induction gs arbitrary: k) (fastforce split: option.splits if_splits simp: Suc_diff_le nth_Cons')+

lemma heap_ctx: "heap_ok E m \<Longrightarrow> ctx_ok E (ml_ctx m p)"
  by (simp add: heap_ok_def)

lemma ctx_ok_ids:
  "ctx_ok E c \<Longrightarrow> ctx_ok E (c\<lparr>mp_iSessionId := a, mp_strAccountName := b\<rparr>)"
  "ctx_ok E c \<Longrightarrow> ctx_ok E (c\<lparr>mp_iSessionId := a\<rparr>)"
  "ctx_ok E c \<Longrightarrow> GetPeerServer E g \<Longrightarrow> ctx_ok E (c\<lparr>mp_iGateServerId := g\<rparr>)"
  "ctx_ok E c \<Longrightarrow> unat ch < CHANNEL_MAX \<Longrightarrow> ctx_ok E (c\<lparr>mp_iLastChannelId := ch\<rparr>)"
  by (simp_all add: ctx_ok_def)

text \<open>\<open>OnLoginReq\<close> of a fresh context, when a gate has room and the message to it is sent.\<close>

lemma OnLoginReq_eq:
  assumes "heap_ok E m" "curr p m = st PLAYER_STATE_NONE" "gate_search (ml_arrayGateServerContext m) 0 = Some (i, g)"
    "me_net E (length (ml_sent m)) = 0"
  shows "\<exists>m'. MasterPlayer_OnLoginReq E p sid name m = Some m' \<and> curr p m' = st PLAYER_STATE_GATEALLOCREQ \<and>
    mp_iSessionId (ml_ctx m' p) = sid \<and> mp_strAccountName (ml_ctx m' p) = name \<and> mp_iGateServerId (ml_ctx m' p) = gs_iServerId g \<and>
    ml_sent m' = ml_sent m @ [(Server (gs_iServerId g), Msg_GateAllocReq sid name, 0)] \<and>
    ml_arrayGateServerContext m' = (ml_arrayGateServerContext m)[i := Some (g\<lparr>gs_iSessionCount := gs_iSessionCount g + 1\<rparr>)] \<and>
    ml_mPlayerContextByName m' = ml_mPlayerContextByName m \<and> ml_mPlayerContextBySessionId m' = ml_mPlayerContextBySessionId m \<and>
    ml_iShutdownStatus m' = ml_iShutdownStatus m \<and> ml_LoginServerContext m' = ml_LoginServerContext m \<and>
    ml_PlayerContextPool m' = ml_PlayerContextPool m \<and> ml_PlayerFinalizingQueue m' = ml_PlayerFinalizingQueue m \<and>
    (\<forall>q. q \<noteq> p \<longrightarrow> ml_ctx m' q = ml_ctx m q)"
proof -
  have gs: "Some g \<in> set (ml_arrayGateServerContext m)" using gate_search_ok [OF assms(3)] .
  then have g: "GetPeerServer E (gs_iServerId g)" using assms(1) by (simp add: heap_ok_def gates_ok_def)
  let ?m1 = "ctx_upd p (\<lambda>c. c\<lparr>mp_iSessionId := sid, mp_strAccountName := name\<rparr>) (set_state p (st PLAYER_STATE_ONLOGINREQ) m)"
  let ?m2 = "?m1\<lparr>ml_arrayGateServerContext := (ml_arrayGateServerContext m)[i := Some (g\<lparr>gs_iSessionCount := gs_iSessionCount g + 1\<rparr>)]\<rparr>"
  let ?m3 = "ctx_upd p (\<lambda>c. c\<lparr>mp_iGateServerId := gs_iServerId g\<rparr>) ?m2"
  let ?m4 = "?m3\<lparr>ml_sent := ml_sent m @ [(Server (gs_iServerId g), Msg_GateAllocReq sid name, 0)]\<rparr>"
  have h0: "heap_ok E (set_state p (st PLAYER_STATE_ONLOGINREQ) m)"
    by (rule set_state_heap [OF assms(1)]) (simp add: live_states_def)
  then have "heap_ok E ?m1" by (intro heap_ctx_upd ctx_ok_ids heap_ctx)
  then have "heap_ok E ?m2" using gates_ok_update [of E "ml_arrayGateServerContext m"] g by (simp add: heap_ok_def)
  then have "heap_ok E ?m3" using g by (intro heap_ctx_upd ctx_ok_ids heap_ctx)
  then have h4: "heap_ok E ?m4" by simp
  have alloc: "GateAllocReq ?m1 = (uint (gs_iServerId g), ?m2)" using assms(3) by (simp add: GateAllocReq_def)
  have fin: "fsm p PLAYER_EVENT_GATEALLOCREQ ?m4 = Some (st PLAYER_STATE_GATEALLOCREQ, set_state p (st PLAYER_STATE_GATEALLOCREQ) ?m4)"
    by (rule fsm_eq [OF h4 _ tr_facts(2)]) simp
  have "MasterPlayer_OnLoginReq E p sid name m = Some (set_state p (st PLAYER_STATE_GATEALLOCREQ) ?m4)"
    using fin g assms(4)
    by (simp only: MasterPlayer_OnLoginReq_def fsm_eq [OF assms(1,2) tr_facts(1)] Option.bind.bind_lunit prod.case Let_def alloc
        simp_thms if_False)
      (simp add: peer_send_eq)
  then show ?thesis by simp
qed

text \<open>\<open>GateAllocAck\<close> of a player that waits for it.\<close>

lemma SendPacket_eq: "length bs \<le> DELAY_MAX \<Longrightarrow> SendPacket t bs m = Some (0, m\<lparr>ml_Delay := (t, bs)\<rparr>)"
  by (simp add: SendPacket_def DelaySendData_def)

lemma heap_ok_delay [simp]: "heap_ok E (m\<lparr>ml_Delay := d\<rparr>) = heap_ok E m"
  by (simp add: heap_ok_def)

lemma GateAllocAck_eq:
  assumes h: "heap_ok E m" and c: "curr p m = st PLAYER_STATE_GATEALLOCREQ" and srv: "srv \<noteq> 0" "GetPeerServer E srv"
    and item: "GetGateConfigItem E srv = Some it" and net: "me_net E (length (ml_sent m)) = 0"
    and gate: "arr (ml_arrayGateServerContext m) (ucast (drop_bit 24 gsid)) = Some (Some g)"
    and sid: "mp_iSessionId (ml_ctx m p) = lsid" "ml_mPlayerContextBySessionId m lsid = Some p"
    and fresh: "ml_mPlayerContextBySessionId m gsid = None"
  shows "\<exists>m'. MasterPlayer_GateAllocAck E p srv gsid m = Some m' \<and> curr p m' = st PLAYER_STATE_GATEALLOCNTF \<and>
    mp_iSessionId (ml_ctx m' p) = gsid \<and>
    ml_sent m' = ml_sent m @ [(LoginServer, Msg_PacketForward lsid 0x0102 (le32 (gc_iServerIP it) @ le16 (gc_iServerPort it)), 0)] \<and>
    ml_mPlayerContextByName m' = ml_mPlayerContextByName m \<and>
    ml_mPlayerContextBySessionId m' = (ml_mPlayerContextBySessionId m)(lsid := None, gsid \<mapsto> p)"
proof -
  let ?b = "le32 (gc_iServerIP it) @ le16 (gc_iServerPort it)"
  let ?m1 = "ctx_upd p (\<lambda>c. c\<lparr>mp_iGateServerId := srv\<rparr>) (set_state p (st PLAYER_STATE_GATEALLOCACK) m)"
  let ?m2 = "?m1\<lparr>ml_Delay := (0x0102, ?b), ml_sent := ml_sent m @ [(LoginServer, Msg_PacketForward lsid 0x0102 ?b, 0)]\<rparr>"
  let ?m3 = "set_state p (st PLAYER_STATE_GATEALLOCNTF) ?m2"
  have "heap_ok E (set_state p (st PLAYER_STATE_GATEALLOCACK) m)"
    by (rule set_state_heap [OF h]) (simp add: live_states_def)
  then have "heap_ok E ?m1" using srv(2) by (intro heap_ctx_upd ctx_ok_ids heap_ctx)
  then have h2: "heap_ok E ?m2" by simp
  have ntf: "fsm p PLAYER_EVENT_GATEALLOCNTF ?m2 = Some (st PLAYER_STATE_GATEALLOCNTF, ?m3)"
    by (rule fsm_eq [OF h2 _ tr_facts(4)]) simp
  have "MasterPlayer_GateAllocAck E p srv gsid m = LoginSession2GateSession p lsid gsid ?m3"
    using ntf net srv(1) sid(1)
    by (simp only: MasterPlayer_GateAllocAck_def fsm_eq [OF h c tr_facts(3)] Option.bind.bind_lunit prod.case Let_def item option.case
        simp_thms if_False)
      (simp add: LoginNtf_def SendPacket_eq forward_delayed_def peer_send_eq)
  moreover have "gsid \<noteq> lsid" using sid(2) fresh by auto
  ultimately show ?thesis using gate sid(2) fresh
    by (simp add: LoginSession2GateSession_def Let_def hm_insert_def curr_def GetCurrState_def)
qed

lemma LoginReq_eq:
  assumes I: "master_inv E m" and nd: "ml_iShutdownStatus m = NOT_SHUTDOWN" "lc_bIsConnected (ml_LoginServerContext m)"
    and free: "ml_mPlayerContextByName m name = None" "ml_mPlayerContextBySessionId m sid = None"
    and room: "ob_iUsedSize (ml_PlayerContextPool m) < ob_iMaxSize (ml_PlayerContextPool m)"
    and gate: "gate_search (ml_arrayGateServerContext m) 0 = Some (i, g)" and net: "me_net E (length (ml_sent m)) = 0"
  shows "\<exists>p m'. p \<notin> out m \<and> Master_OnCommand E (COMMAND_ONLOGINREQ sid name) m = Some m' \<and>
    curr p m' = st PLAYER_STATE_GATEALLOCREQ \<and> mp_iSessionId (ml_ctx m' p) = sid \<and> mp_iGateServerId (ml_ctx m' p) = gs_iServerId g \<and>
    ml_sent m' = ml_sent m @ [(Server (gs_iServerId g), Msg_GateAllocReq sid name, 0)] \<and>
    ml_arrayGateServerContext m' = (ml_arrayGateServerContext m)[i := Some (g\<lparr>gs_iSessionCount := gs_iSessionCount g + 1\<rparr>)] \<and>
    ml_mPlayerContextByName m' = (ml_mPlayerContextByName m)(name \<mapsto> p) \<and>
    ml_mPlayerContextBySessionId m' = (ml_mPlayerContextBySessionId m)(sid \<mapsto> p) \<and> ml_iShutdownStatus m' = NOT_SHUTDOWN \<and>
    ml_PlayerFinalizingQueue m' = ml_PlayerFinalizingQueue m \<and> (\<forall>q. q \<noteq> p \<longrightarrow> ml_ctx m' q = ml_ctx m q) \<and>
    lc_bIsConnected (ml_LoginServerContext m') \<and> ob_iUsedSize (ml_PlayerContextPool m') = ob_iUsedSize (ml_PlayerContextPool m) + 1 \<and>
    ob_iMaxSize (ml_PlayerContextPool m') = ob_iMaxSize (ml_PlayerContextPool m)"
proof -
  have h: "heap_ok E m" and r: "reg_ok m" using I by (simp_all add: master_inv_def)
  obtain p pl where a: "ObjectPool_Allocate () (ml_PlayerContextPool m) = Some (Some p, pl)"
    using room by (cases "ob_ObjectList (ml_PlayerContextPool m)") (simp_all add: ObjectPool_Allocate_def)
  have p: "p \<notin> out m" using ObjectPool_Allocate_ok [OF _ a] r by (simp add: reg_ok_def)
  have pl: "ob_iUsedSize pl = ob_iUsedSize (ml_PlayerContextPool m) + 1" "ob_iMaxSize pl = ob_iMaxSize (ml_PlayerContextPool m)"
    using a room by (auto simp: ObjectPool_Allocate_def split: list.splits)
  define m1 where "m1 = m\<lparr>ml_PlayerContextPool := pl, ml_mPlayerContextByName := (ml_mPlayerContextByName m)(name \<mapsto> p),
    ml_mPlayerContextBySessionId := (ml_mPlayerContextBySessionId m)(sid \<mapsto> p),
    ml_LoginServerContext := (ml_LoginServerContext m)\<lparr>lc_mPlayerContext :=
      hm_insert sid p (lc_mPlayerContext (ml_LoginServerContext m))\<rparr>\<rparr>"
  have h1: "heap_ok E m1" using h by (simp add: m1_def heap_ok_def)
  have c1: "curr p m1 = st PLAYER_STATE_NONE" using r p by (simp add: m1_def curr_def GetCurrState_def reg_ok_def cleared_def)
  have "Master_OnCommand E (COMMAND_ONLOGINREQ sid name) m = MasterPlayer_OnLoginReq E p sid name m1"
    using nd free a by (simp add: Master_OnCommand_def Master_OnCommandOnLoginReq_def m1_def hm_insert_def Let_def)
  with OnLoginReq_eq [OF h1 c1, of i g sid name] gate net p nd pl show ?thesis by (auto simp: m1_def)
qed

text \<open>C7: The login.  When a new account logs in while a gate has room, and the messages get through, the player is
  registered under its account, the request goes to the first gate with room, and the acknowledgement of a
  gate makes the master server send the client that gate's address and move the player from its login
  session to its gate session; these are the only messages sent.\<close>
theorem master_login_handshake:
  assumes "config_ok E" "master_reach E m" "ml_iShutdownStatus m = NOT_SHUTDOWN" "lc_bIsConnected (ml_LoginServerContext m)"
    and "ml_mPlayerContextByName m name = None" "ml_mPlayerContextBySessionId m lsid = None" "ml_mPlayerContextBySessionId m gsid = None"
    and "gsid \<noteq> lsid" "ob_iUsedSize (ml_PlayerContextPool m) < ob_iMaxSize (ml_PlayerContextPool m)"
    and "gate_search (ml_arrayGateServerContext m) 0 = Some (i, g)" "\<forall>k. me_net E k = 0"
    and "srv \<noteq> 0" "GetPeerServer E srv" "GetGateConfigItem E srv = Some it"
    and "arr (ml_arrayGateServerContext m) (ucast (drop_bit 24 gsid)) = Some (Some g')"
  shows "\<exists>p m'. p \<notin> out m \<and>
    (do { m1 \<leftarrow> Master_OnCommand E (COMMAND_ONLOGINREQ lsid name) m;
          Master_OnCommand E (COMMAND_GATEALLOCACK lsid gsid srv name) m1 }) = Some m' \<and>
    ml_mPlayerContextByName m' = (ml_mPlayerContextByName m)(name \<mapsto> p) \<and>
    ml_mPlayerContextBySessionId m' = (ml_mPlayerContextBySessionId m)(gsid \<mapsto> p) \<and>
    curr p m' = st PLAYER_STATE_GATEALLOCNTF \<and> mp_iSessionId (ml_ctx m' p) = gsid \<and>
    ml_sent m' = ml_sent m @ [(Server (gs_iServerId g), Msg_GateAllocReq lsid name, 0),
      (LoginServer, Msg_PacketForward lsid 0x0102 (le32 (gc_iServerIP it) @ le16 (gc_iServerPort it)), 0)]"
proof -
  have I: "master_inv E m" by (rule master_reach_inv [OF assms(1,2)])
  obtain p m1 where p: "p \<notin> out m" and s: "Master_OnCommand E (COMMAND_ONLOGINREQ lsid name) m = Some m1"
    and m1: "curr p m1 = st PLAYER_STATE_GATEALLOCREQ" "mp_iSessionId (ml_ctx m1 p) = lsid"
      "ml_sent m1 = ml_sent m @ [(Server (gs_iServerId g), Msg_GateAllocReq lsid name, 0)]"
      "ml_arrayGateServerContext m1 = (ml_arrayGateServerContext m)[i := Some (g\<lparr>gs_iSessionCount := gs_iSessionCount g + 1\<rparr>)]"
      "ml_mPlayerContextByName m1 = (ml_mPlayerContextByName m)(name \<mapsto> p)"
      "ml_mPlayerContextBySessionId m1 = (ml_mPlayerContextBySessionId m)(lsid \<mapsto> p)" "ml_iShutdownStatus m1 = NOT_SHUTDOWN"
    using LoginReq_eq [OF I assms(3-6,9,10)] assms(11) by blast
  have h1: "heap_ok E m1"
    using OnCommand_ok [OF I, of "COMMAND_ONLOGINREQ lsid name"] s assms(6) by (simp add: wp_def cmd_ok_def master_inv_def)
  have "\<exists>g2. arr (ml_arrayGateServerContext m1) (ucast (drop_bit 24 gsid)) = Some (Some g2)"
    using assms(15) m1(4) by (cases "i = unat (ucast (drop_bit 24 gsid) :: u8)") (auto simp: arr_def split: if_splits)
  then obtain g2 where "arr (ml_arrayGateServerContext m1) (ucast (drop_bit 24 gsid)) = Some (Some g2)" ..
  from GateAllocAck_eq [OF h1 m1(1) assms(12,13,14) _ this m1(2)] obtain m' where
      "MasterPlayer_GateAllocAck E p srv gsid m1 = Some m'" "curr p m' = st PLAYER_STATE_GATEALLOCNTF" "mp_iSessionId (ml_ctx m' p) = gsid"
      "ml_sent m' = ml_sent m1 @ [(LoginServer, Msg_PacketForward lsid 0x0102 (le32 (gc_iServerIP it) @ le16 (gc_iServerPort it)), 0)]"
      "ml_mPlayerContextByName m' = ml_mPlayerContextByName m1"
      "ml_mPlayerContextBySessionId m' = (ml_mPlayerContextBySessionId m1)(lsid := None, gsid \<mapsto> p)"
    using assms(7,8,11) m1(6) by auto
  moreover have "(ml_mPlayerContextBySessionId m)(lsid := None, gsid \<mapsto> p) = (ml_mPlayerContextBySessionId m)(gsid \<mapsto> p)"
    using assms(6) by (simp add: fun_upd_idem)
  ultimately show ?thesis using p s m1
    by (auto simp: Master_OnCommand_def Master_OnCommandGateAllocAck_def)
qed

lemma demo_gate: "gate_search ((replicate SERVERCOUNT_MAX None)[3 := Some (GateServerContext_of (hd (me_gates demo_env)))]) 0 =
    Some (3, GateServerContext_of (hd (me_gates demo_env)))"
  by code_simp

lemma demo_gate1: "\<exists>g. gate_search ((replicate SERVERCOUNT_MAX None)[3 := Some (GateServerContext_of (hd (me_gates demo_env))),
    3 := Some ((GateServerContext_of (hd (me_gates demo_env)))\<lparr>gs_iSessionCount :=
       gs_iSessionCount (GateServerContext_of (hd (me_gates demo_env))) + 1\<rparr>)]) 0 = Some (3, g)"
  by (intro exI) code_simp

text \<open>The state after the login server has reported.\<close>

lemma demo_connected:
  "\<exists>m. master_reach demo_env m \<and> ml_iShutdownStatus m = NOT_SHUTDOWN \<and> lc_bIsConnected (ml_LoginServerContext m) \<and>
     ml_PlayerContextPool m = ObjectPool_new 5000 \<and> ml_mPlayerContextByName m = Map.empty \<and> ml_mPlayerContextBySessionId m = Map.empty \<and>
     ml_arrayGateServerContext m = (replicate SERVERCOUNT_MAX None)[3 := Some (GateServerContext_of (hd (me_gates demo_env)))] \<and>
     ml_PlayerFinalizingQueue m = [] \<and>
     ml_sent m = [] \<and> gate_search (ml_arrayGateServerContext m) 0 = Some (3, GateServerContext_of (hd (me_gates demo_env))) \<and>
     arr (ml_arrayGateServerContext m) 3 = Some (Some (GateServerContext_of (hd (me_gates demo_env))))"
proof -
  obtain m where m: "master_reach demo_env m" "ml_iShutdownStatus m = NOT_SHUTDOWN" "ml_PlayerContextPool m = ObjectPool_new 5000"
      "ml_mPlayerContextByName m = Map.empty" "ml_mPlayerContextBySessionId m = Map.empty" "ml_sent m = []" "ml_PlayerFinalizingQueue m = []"
      "ml_arrayGateServerContext m = (replicate SERVERCOUNT_MAX None)[3 := Some (GateServerContext_of (hd (me_gates demo_env)))]"
    using demo_start by blast
  let ?m = "m\<lparr>ml_LoginServerContext := (ml_LoginServerContext m)\<lparr>lc_bIsConnected := True, lc_iServerId := 0,
    lc_dwLastReportTime := ml_dwCurrTime m\<rparr>\<rparr>"
  have "master_step demo_env (Cmd (COMMAND_ONLOGINREPORT 0)) m = Some ?m"
    using m(2) by (simp add: master_step_def Master_OnCommand_def Master_OnCommandOnLoginReport_def)
  moreover have "cmd_ok demo_env m (COMMAND_ONLOGINREPORT 0)" by (simp add: cmd_ok_def)
  ultimately have "master_reach demo_env ?m" using master_reach.Command [OF m(1)] by blast
  then show ?thesis using m demo_gate by (intro exI [of _ ?m]) (simp add: arr_def)
qed

theorem master_login_handshake_witness:
  "\<exists>m p m'. master_reach demo_env m \<and>
    (do { m1 \<leftarrow> Master_OnCommand demo_env (COMMAND_ONLOGINREQ 7 [97]) m;
          Master_OnCommand demo_env (COMMAND_GATEALLOCACK 7 0x03000001 3 [97]) m1 }) = Some m' \<and>
    ml_mPlayerContextByName m' = [[97] \<mapsto> p] \<and> ml_mPlayerContextBySessionId m' = [0x03000001 \<mapsto> p] \<and>
    ml_sent m' = [(Server 3, Msg_GateAllocReq 7 [97], 0), (LoginServer, Msg_PacketForward 7 0x0102 [127, 0, 0, 1, 65, 31], 0)]"
proof -
  obtain m where m: "master_reach demo_env m" "ml_iShutdownStatus m = NOT_SHUTDOWN" "lc_bIsConnected (ml_LoginServerContext m)"
     "ml_PlayerContextPool m = ObjectPool_new 5000" "ml_mPlayerContextByName m = Map.empty" "ml_mPlayerContextBySessionId m = Map.empty"
     "ml_sent m = []" "gate_search (ml_arrayGateServerContext m) 0 = Some (3, GateServerContext_of (hd (me_gates demo_env)))"
     "arr (ml_arrayGateServerContext m) 3 = Some (Some (GateServerContext_of (hd (me_gates demo_env))))"
    using demo_connected by blast
  have item: "GetGateConfigItem demo_env 3 = Some (hd (me_gates demo_env))" by (simp add: GetGateConfigItem_def demo_env_def)
  have bytes: "le32 (gc_iServerIP (hd (me_gates demo_env))) @ le16 (gc_iServerPort (hd (me_gates demo_env))) = [127, 0, 0, 1, 65, 31]"
    "gs_iServerId (GateServerContext_of (hd (me_gates demo_env))) = 3" "(ucast (drop_bit 24 (0x03000001 :: u32)) :: u8) = 3"
    by code_simp+
  have net: "\<forall>k. me_net demo_env k = 0" by (simp add: demo_env_def)
  show ?thesis
    using master_login_handshake [OF demo_config m(1,2,3) _ _ _ _ _ m(8) net _ _ item, of "[97]" 7 "0x03000001"] m bytes
    by (auto simp: demo_peer ObjectPool_new_def)
qed

section \<open>The registry of players\<close>

text \<open>What the invariant proof asks of the next event: a command as in \<open>cmd_ok\<close>, a tick with at most one player to finalize.\<close>

primrec master_ok :: "menv \<Rightarrow> master_event \<Rightarrow> MasterServerLoop \<Rightarrow> bool" where
  "master_ok E (Cmd c) m = cmd_ok E m c"
| "master_ok E (Tick now) m = (length (ml_PlayerFinalizingQueue m) \<le> 1)"

interpretation master: total_system "master_step E" "master_ok E" "\<lambda>m. config_ok E \<and> master_inv E m" for E
proof
  have ok: "wp (master_step E a m) (master_inv E)" if "config_ok E \<and> master_inv E m" "master_ok E a m" for a m
  proof (cases a)
    case (Cmd c)
    then show ?thesis using OnCommand_ok [of E m c] that by (simp add: master_step_def)
  next
    case (Tick now)
    then show ?thesis using wp_mono [OF Tick_ok [of E m now]] that by (simp add: config_ok_def)
  qed
  show "config_ok E \<and> master_inv E s'" if "config_ok E \<and> master_inv E s" "master_ok E a s" "master_step E a s = Some s'" for s a s'
    using ok [OF that(1,2)] that by (simp add: wp_def)
  show "master_step E a s \<noteq> None" if "config_ok E \<and> master_inv E s" "master_ok E a s" for s a
    using ok [OF that] by (auto simp: wp_def)
qed

text \<open>C2: The registry.  Start the server and let any sequence of commands and ticks arrive.  Every event is executed without
  undefined behaviour, and at its end the two maps of players hold exactly the contexts that the pool
  has handed out, each under its own account and its own session, so no account and no session belongs to two
  players; the finalizing queue holds, once each, the players that are being finalized; and a tick with one of them deletes
  it and nobody else: unless the run comes, in a state in which all this still holds, to an event outside
  \<open>master_ok\<close>.  These are: a tick with two or more players in the finalizing queue; a login request for a session, or a gate
  acknowledgement with a session, that is in the map already; an acknowledgement that names a server without a peer, and a gate report
  with the id 128; a forwarded packet that is longer than the buffer or whose values the code does not check; and a
  shutdown in which the iteration over the map of accounts does not visit each player once.\<close>
theorem master_registry:
  assumes "config_ok E" "MasterServerLoop_new = Some m0" "Master_Init E m0 = Some m1"
  shows "\<exists>bs cs m. es = bs @ cs \<and> orun (master_step E) bs m1 = Some m \<and> (cs = [] \<or> \<not> master_ok E (hd cs) m) \<and>
    (\<forall>n p. ml_mPlayerContextByName m n = Some p \<longleftrightarrow> p \<in> out m \<and> mp_strAccountName (ml_ctx m p) = n) \<and>
    (\<forall>s p. ml_mPlayerContextBySessionId m s = Some p \<longleftrightarrow> p \<in> out m \<and> mp_iSessionId (ml_ctx m p) = s) \<and>
    distinct (ml_PlayerFinalizingQueue m) \<and>
    set (ml_PlayerFinalizingQueue m) = {p \<in> out m. mp_bFinalizing (ml_ctx m p)} \<and>
    (\<forall>t p. ml_PlayerFinalizingQueue m = [p] \<longrightarrow> (\<exists>m'. master_step E (Tick t) m = Some m' \<and>
       ml_PlayerFinalizingQueue m' = [] \<and> out m' = out m - {p}))"
proof -
  have "config_ok E \<and> master_inv E m1" using Init_ok [OF assms(1,2)] assms(1,3) by (simp add: wp_def)
  from master.run_defined_until [OF this] obtain bs cs m where run: "es = bs @ cs" "orun (master_step E) bs m1 = Some m"
      "cs = [] \<or> \<not> master_ok E (hd cs) m" and I: "master_inv E m" by blast
  have r: "reg_ok m" and E: "GetPeerServer E 0" using I assms(1) by (simp_all add: master_inv_def config_ok_def)
  have tick: "\<exists>m'. master_step E (Tick t) m = Some m' \<and> ml_PlayerFinalizingQueue m' = [] \<and> out m' = out m - {p}"
    if l: "ml_PlayerFinalizingQueue m = [p]" for t p
    using Tick_ok [OF E I, of t] l by (auto simp: wp_def)
  have queue: "set (ml_PlayerFinalizingQueue m) = {p \<in> out m. mp_bFinalizing (ml_ctx m p)}" using reg_queue [OF r] by blast
  have "distinct (ml_PlayerFinalizingQueue m)" using r by (simp add: reg_ok_def)
  with run queue tick reg_name [OF r] reg_sid [OF r] show ?thesis by blast
qed

theorem master_registry_witness:
  "\<exists>m0 m1 m. MasterServerLoop_new = Some m0 \<and> Master_Init demo_env m0 = Some m1 \<and>
     orun (master_step demo_env) [Cmd (COMMAND_ONLOGINREPORT 0)] m1 = Some m \<and>
     (\<forall>n p. ml_mPlayerContextByName m n = Some p \<longleftrightarrow> p \<in> out m \<and> mp_strAccountName (ml_ctx m p) = n)"
proof -
  obtain m0 m1 where m0: "MasterServerLoop_new = Some m0" and m1: "Master_Init demo_env m0 = Some m1"
    using demo_start by (elim exE conjE) (rule that)
  have ok: "master_ok demo_env (Cmd (COMMAND_ONLOGINREPORT 0)) m" for m by (simp add: cmd_ok_def)
  obtain bs cs m where r: "[Cmd (COMMAND_ONLOGINREPORT 0)] = bs @ cs" "orun (master_step demo_env) bs m1 = Some m"
      "cs = [] \<or> \<not> master_ok demo_env (hd cs) m"
      "\<forall>n p. ml_mPlayerContextByName m n = Some p \<longleftrightarrow> p \<in> out m \<and> mp_strAccountName (ml_ctx m p) = n"
    using master_registry [OF demo_config m0 m1, of "[Cmd (COMMAND_ONLOGINREPORT 0)]"] by (elim exE conjE) (rule that)
  then have "cs = []" using ok by (cases bs) auto
  with r(1,2) have "orun (master_step demo_env) [Cmd (COMMAND_ONLOGINREPORT 0)] m1 = Some m" by (simp only: append_Nil2)
  with r(4) m0 m1 show ?thesis by blast
qed

section \<open>Two players finalized in one tick\<close>

text \<open>The loop deletes the last player of the queue as often as the queue is long.\<close>

lemma finalize_last:
  assumes E: "GetPeerServer E 0"
  shows "heap_ok E m \<Longrightarrow> \<exists>m'. finalize_loop (qs @ [p]) m = Some m' \<and> ml_PlayerFinalizingQueue m' = [] \<and>
     ob_ObjectList (ml_PlayerContextPool m') = ob_ObjectList (ml_PlayerContextPool m) @ replicate (Suc (length qs)) p \<and>
     (\<forall>q. q \<noteq> p \<longrightarrow> ml_ctx m' q = ml_ctx m q \<and> (q \<in> out m' \<longleftrightarrow> q \<in> out m)) \<and>
     (\<forall>n. n \<noteq> [] \<and> n \<noteq> mp_strAccountName (ml_ctx m p) \<longrightarrow> ml_mPlayerContextByName m' n = ml_mPlayerContextByName m n) \<and>
     (\<forall>s. s \<noteq> 0 \<and> s \<noteq> mp_iSessionId (ml_ctx m p) \<longrightarrow> ml_mPlayerContextBySessionId m' s = ml_mPlayerContextBySessionId m s)"
proof (induction qs arbitrary: m)
  case (Cons q qs)
  obtain m1 where d: "DeletePlayer p m = Some m1" "deleted p m m1" "heap_ok E m1"
    using DeletePlayer_ok [OF E Cons.prems, of p] by (auto simp: wp_def)
  let ?m1 = "m1\<lparr>ml_PlayerFinalizingQueue := qs @ [p]\<rparr>"
  have "heap_ok E ?m1" using d(3) by simp
  from Cons.IH [OF this] obtain m' where m': "finalize_loop (qs @ [p]) ?m1 = Some m'" "ml_PlayerFinalizingQueue m' = []"
     "ob_ObjectList (ml_PlayerContextPool m') = ob_ObjectList (ml_PlayerContextPool m1) @ replicate (Suc (length qs)) p"
     "\<And>q. q \<noteq> p \<Longrightarrow> ml_ctx m' q = ml_ctx m1 q \<and> (q \<in> out m' \<longleftrightarrow> q \<in> out m1)"
     "\<And>n. n \<noteq> [] \<Longrightarrow> n \<noteq> mp_strAccountName (ml_ctx m1 p) \<Longrightarrow> ml_mPlayerContextByName m' n = ml_mPlayerContextByName m1 n"
     "\<And>s. s \<noteq> 0 \<Longrightarrow> s \<noteq> mp_iSessionId (ml_ctx m1 p) \<Longrightarrow> ml_mPlayerContextBySessionId m' s = ml_mPlayerContextBySessionId m1 s"
    by auto
  moreover have "finalize_loop ((q # qs) @ [p]) m = Some m'" using d(1) m'(1) by simp
  ultimately show ?case using d(2)
    by (intro exI [of _ m']) (auto simp: deleted_def MasterPlayer_Clear_def ObjectPool_Free_def)
next
  case Nil
  obtain m1 where "DeletePlayer p m = Some m1" "deleted p m m1"
    using DeletePlayer_ok [OF E Nil, of p] by (auto simp: wp_def)
  then show ?case by (auto simp: deleted_def ObjectPool_Free_def)
qed

text \<open>C36: Finalizing more than one player.  When a tick finds several players in the finalizing queue, it empties the
  queue but deletes only the last one, whose context goes back to the pool once for every player of the
  queue; right after the tick the others are still registered under account and session, though no longer in the queue, and shutting them down
  again does nothing.  (All of them have an account name and a session id.)\<close>
theorem master_finalize_loses_players:
  assumes "config_ok E" "master_reach E m" "ml_PlayerFinalizingQueue m = qs @ [p]"
    and "\<forall>x \<in> set qs. mp_strAccountName (ml_ctx m x) \<noteq> [] \<and> mp_iSessionId (ml_ctx m x) \<noteq> 0"
  shows "\<exists>m'. master_step E (Tick t) m = Some m' \<and> ml_PlayerFinalizingQueue m' = [] \<and>
    ob_ObjectList (ml_PlayerContextPool m') = ob_ObjectList (ml_PlayerContextPool m) @ replicate (Suc (length qs)) p \<and>
    (\<forall>x \<in> set qs. ml_mPlayerContextByName m' (mp_strAccountName (ml_ctx m x)) = Some x \<and>
       ml_mPlayerContextBySessionId m' (mp_iSessionId (ml_ctx m x)) = Some x \<and> ml_ctx m' x = ml_ctx m x \<and>
       ShutdownPlayer E x m' = Some m')"
proof -
  have h: "heap_ok E m" "reg_ok m" and E: "GetPeerServer E 0"
    using master_reach_inv [OF assms(1,2)] assms(1) by (simp_all add: master_inv_def config_ok_def)
  obtain m1 where m1: "finalize_loop (qs @ [p]) m = Some m1" "ml_PlayerFinalizingQueue m1 = []"
     "ob_ObjectList (ml_PlayerContextPool m1) = ob_ObjectList (ml_PlayerContextPool m) @ replicate (Suc (length qs)) p"
     "\<And>q. q \<noteq> p \<Longrightarrow> ml_ctx m1 q = ml_ctx m q"
     "\<And>n. n \<noteq> [] \<Longrightarrow> n \<noteq> mp_strAccountName (ml_ctx m p) \<Longrightarrow> ml_mPlayerContextByName m1 n = ml_mPlayerContextByName m n"
     "\<And>s. s \<noteq> 0 \<Longrightarrow> s \<noteq> mp_iSessionId (ml_ctx m p) \<Longrightarrow> ml_mPlayerContextBySessionId m1 s = ml_mPlayerContextBySessionId m s"
    using finalize_last [OF E h(1), of qs p] by blast
  obtain m' where m': "master_step E (Tick t) m = Some m'" "ml_PlayerFinalizingQueue m' = []" "ml_PlayerContextPool m' = ml_PlayerContextPool m1"
      "ml_ctx m' = ml_ctx m1" "ml_mPlayerContextByName m' = ml_mPlayerContextByName m1"
      "ml_mPlayerContextBySessionId m' = ml_mPlayerContextBySessionId m1"
    using m1(1,2) by (simp add: master_step_def Master_Loop_def assms(3))
  have q: "x \<noteq> p" "x \<in> out m" "p \<in> out m" "mp_bFinalizing (ml_ctx m x)" if "x \<in> set qs" for x
    using that h(2) assms(3) reg_queue [OF h(2), of x] reg_queue [OF h(2), of p] by (auto simp: reg_ok_def)
  have other: "mp_strAccountName (ml_ctx m x) \<noteq> mp_strAccountName (ml_ctx m p)" "mp_iSessionId (ml_ctx m x) \<noteq> mp_iSessionId (ml_ctx m p)"
    if "x \<in> set qs" for x
    using q [OF that] reg_name [OF h(2), of "mp_strAccountName (ml_ctx m p)" p] reg_name [OF h(2), of "mp_strAccountName (ml_ctx m p)" x]
      reg_sid [OF h(2), of "mp_iSessionId (ml_ctx m p)" p] reg_sid [OF h(2), of "mp_iSessionId (ml_ctx m p)" x] by auto
  have "ml_mPlayerContextByName m' (mp_strAccountName (ml_ctx m x)) = Some x \<and>
       ml_mPlayerContextBySessionId m' (mp_iSessionId (ml_ctx m x)) = Some x \<and> ml_ctx m' x = ml_ctx m x \<and>
       ShutdownPlayer E x m' = Some m'" if x: "x \<in> set qs" for x
    using q [OF x] other [OF x] assms(4) x m' m1(4-6) reg_name [OF h(2), of _ x] reg_sid [OF h(2), of _ x]
    by (simp add: ShutdownPlayer_def)
  with m' m1(3) show ?thesis by auto
qed

text \<open>A player whose session disconnects while it waits for its gate.\<close>

lemma waiting_flags:
  "\<not> bSendRegionRelease (st PLAYER_STATE_GATEALLOCREQ)" "\<not> bSendRegionLeave (st PLAYER_STATE_GATEALLOCREQ)"
  "bSendOnLoginFailedAck (st PLAYER_STATE_GATEALLOCREQ)" "bSendGateReleaseReq (st PLAYER_STATE_GATEALLOCREQ)"
  "\<not> bSendGateDisconnect (st PLAYER_STATE_GATEALLOCREQ)" "\<not> bSendCacheDisconnect (st PLAYER_STATE_GATEALLOCREQ)"
  "st PLAYER_STATE_GATEALLOCREQ \<noteq> st PLAYER_STATE_REGIONENTERREQ"
  by code_simp+

lemma Disconnect_waiting:
  assumes "master_inv E m" "curr p m = st PLAYER_STATE_GATEALLOCREQ" "ml_mPlayerContextBySessionId m sid = Some p"
    "p \<notin> set (ml_PlayerFinalizingQueue m)" "ml_iShutdownStatus m = NOT_SHUTDOWN"
  shows "\<exists>m'. master_step E (Cmd (COMMAND_ONSESSIONDISCONNECT sid)) m = Some m' \<and>
    ml_PlayerFinalizingQueue m' = ml_PlayerFinalizingQueue m @ [p] \<and> ml_iShutdownStatus m' = NOT_SHUTDOWN \<and>
    ml_mPlayerContextByName m' = ml_mPlayerContextByName m \<and> ml_mPlayerContextBySessionId m' = ml_mPlayerContextBySessionId m \<and>
    (\<forall>q. q \<noteq> p \<longrightarrow> ml_ctx m' q = ml_ctx m q)"
proof -
  have h: "GetPeerServer E (mp_iGateServerId (ml_ctx m p))" and r: "reg_ok m"
    using assms(1) by (simp_all add: master_inv_def heap_ok_def ctx_ok_def)
  have "\<not> mp_bFinalizing (ml_ctx m p)" using reg_queue [OF r, of p] reg_sid [OF r, of sid p] assms(3,4) by simp
  with h assms(2,3,5) waiting_flags show ?thesis
    by (simp add: master_step_def Master_OnCommand_def by_session_def MasterPlayer_OnSessionDisconnect_def ShutdownPlayer_def Let_def
        leave_region_def send_if_def peer_send_eq Master_IsReadyForShutdown_def AddPlayerToFinalizingQueue_def)
qed

text \<open>Two accounts log in and both disconnect before the next tick.\<close>

lemma demo_two_logged_in:
  "\<exists>m p q. master_reach demo_env m \<and> p \<noteq> q \<and> curr p m = st PLAYER_STATE_GATEALLOCREQ \<and> curr q m = st PLAYER_STATE_GATEALLOCREQ \<and>
     ml_mPlayerContextBySessionId m = [7 \<mapsto> p, 8 \<mapsto> q] \<and> ml_mPlayerContextByName m = [[97] \<mapsto> p, [98] \<mapsto> q] \<and>
     ml_PlayerFinalizingQueue m = [] \<and> ml_iShutdownStatus m = NOT_SHUTDOWN"
proof -
  obtain m where m: "master_reach demo_env m" "ml_iShutdownStatus m = NOT_SHUTDOWN" "lc_bIsConnected (ml_LoginServerContext m)"
     "ml_PlayerContextPool m = ObjectPool_new 5000" "ml_mPlayerContextByName m = Map.empty" "ml_mPlayerContextBySessionId m = Map.empty"
     "ml_arrayGateServerContext m = (replicate SERVERCOUNT_MAX None)[3 := Some (GateServerContext_of (hd (me_gates demo_env)))]"
     "ml_PlayerFinalizingQueue m = []"
    using demo_connected by blast
  have net: "me_net demo_env k = 0" for k by (simp add: demo_env_def)
  have gate: "gate_search (ml_arrayGateServerContext m) 0 = Some (3, GateServerContext_of (hd (me_gates demo_env)))"
    "\<exists>g. gate_search ((ml_arrayGateServerContext m)[3 := Some ((GateServerContext_of (hd (me_gates demo_env)))\<lparr>gs_iSessionCount :=
       gs_iSessionCount (GateServerContext_of (hd (me_gates demo_env))) + 1\<rparr>)]) 0 = Some (3, g)"
    using demo_gate demo_gate1 by (simp_all add: m(7))
  obtain p m1 where 1: "Master_OnCommand demo_env (COMMAND_ONLOGINREQ 7 [97]) m = Some m1" "curr p m1 = st PLAYER_STATE_GATEALLOCREQ"
      "ml_arrayGateServerContext m1 = (ml_arrayGateServerContext m)[3 := Some ((GateServerContext_of (hd (me_gates demo_env)))\<lparr>gs_iSessionCount :=
       gs_iSessionCount (GateServerContext_of (hd (me_gates demo_env))) + 1\<rparr>)]"
      "ml_mPlayerContextByName m1 = [[97] \<mapsto> p]" "ml_mPlayerContextBySessionId m1 = [7 \<mapsto> p]" "ml_iShutdownStatus m1 = NOT_SHUTDOWN"
      "ml_PlayerFinalizingQueue m1 = []" "lc_bIsConnected (ml_LoginServerContext m1)"
      "ob_iUsedSize (ml_PlayerContextPool m1) < ob_iMaxSize (ml_PlayerContextPool m1)"
    using LoginReq_eq [OF master_reach_inv [OF demo_config m(1)] m(2,3) _ _ _ gate(1), of "[97]" 7] m(4-8) net by (auto simp: ObjectPool_new_def)
  have r1: "master_reach demo_env m1"
    by (rule master_reach.Command [OF m(1)]) (use 1(1) m(6) in \<open>auto simp: cmd_ok_def master_step_def\<close>)
  have I1: "master_inv demo_env m1" by (rule master_reach_inv [OF demo_config r1])
  then have p: "p \<in> out m1" using reg_sid [of m1 7 p] 1(5) by (simp add: master_inv_def)
  obtain g where g: "gate_search (ml_arrayGateServerContext m1) 0 = Some (3, g)" using gate(2) 1(3) by auto
  obtain q m2 where 2: "q \<notin> out m1" "Master_OnCommand demo_env (COMMAND_ONLOGINREQ 8 [98]) m1 = Some m2" "curr q m2 = st PLAYER_STATE_GATEALLOCREQ"
      "ml_mPlayerContextByName m2 = [[97] \<mapsto> p, [98] \<mapsto> q]" "ml_mPlayerContextBySessionId m2 = [7 \<mapsto> p, 8 \<mapsto> q]"
      "ml_iShutdownStatus m2 = NOT_SHUTDOWN" "ml_PlayerFinalizingQueue m2 = []" "\<forall>x. x \<noteq> q \<longrightarrow> ml_ctx m2 x = ml_ctx m1 x"
    using LoginReq_eq [OF I1 1(6,8) _ _ 1(9) g, of "[98]" 8] 1(4,5,7) net by auto
  have r2: "master_reach demo_env m2"
    by (rule master_reach.Command [OF r1]) (use 2(2) 1(5) in \<open>auto simp: cmd_ok_def master_step_def\<close>)
  have "p \<noteq> q" using p 2(1) by auto
  moreover from this have "curr p m2 = st PLAYER_STATE_GATEALLOCREQ" using 2(8) 1(2) by (simp add: curr_def)
  ultimately show ?thesis using r2 2(3-7) by blast
qed

theorem master_finalize_loses_players_witness:
  "\<exists>m p q m'. master_reach demo_env m \<and> ml_PlayerFinalizingQueue m = [p, q] \<and> master_step demo_env (Tick 0) m = Some m' \<and>
     ml_mPlayerContextByName m' [97] = Some p \<and> ml_PlayerFinalizingQueue m' = []"
proof -
  obtain m p q where m: "master_reach demo_env m" "p \<noteq> q" "curr p m = st PLAYER_STATE_GATEALLOCREQ" "curr q m = st PLAYER_STATE_GATEALLOCREQ"
     "ml_mPlayerContextBySessionId m = [7 \<mapsto> p, 8 \<mapsto> q]" "ml_mPlayerContextByName m = [[97] \<mapsto> p, [98] \<mapsto> q]"
     "ml_PlayerFinalizingQueue m = []" "ml_iShutdownStatus m = NOT_SHUTDOWN" using demo_two_logged_in by blast
  have ok: "cmd_ok demo_env x (COMMAND_ONSESSIONDISCONNECT s)" for x s by (simp add: cmd_ok_def)
  obtain m1 where 1: "master_step demo_env (Cmd (COMMAND_ONSESSIONDISCONNECT 7)) m = Some m1" "ml_PlayerFinalizingQueue m1 = [p]"
      "ml_mPlayerContextByName m1 = ml_mPlayerContextByName m" "ml_mPlayerContextBySessionId m1 = ml_mPlayerContextBySessionId m"
      "ml_iShutdownStatus m1 = NOT_SHUTDOWN" "\<forall>x. x \<noteq> p \<longrightarrow> ml_ctx m1 x = ml_ctx m x"
    using Disconnect_waiting [OF master_reach_inv [OF demo_config m(1)] m(3) _ _ m(8), of 7] m(5,7) by auto
  have r1: "master_reach demo_env m1" by (rule master_reach.Command [OF m(1) ok 1(1)])
  have "curr q m1 = st PLAYER_STATE_GATEALLOCREQ" using 1(6) m(2,4) by (simp add: curr_def)
  then obtain m2 where 2: "master_step demo_env (Cmd (COMMAND_ONSESSIONDISCONNECT 8)) m1 = Some m2" "ml_PlayerFinalizingQueue m2 = [p] @ [q]"
      "ml_mPlayerContextByName m2 = ml_mPlayerContextByName m" "ml_mPlayerContextBySessionId m2 = ml_mPlayerContextBySessionId m"
    using Disconnect_waiting [OF master_reach_inv [OF demo_config r1] _ _ _ 1(5), of q 8] 1(2-4) m(2,5) by auto
  have r2: "master_reach demo_env m2" by (rule master_reach.Command [OF r1 ok 2(1)])
  have reg: "reg_ok m2" using master_reach_inv [OF demo_config r2] by (simp add: master_inv_def)
  have x: "mp_strAccountName (ml_ctx m2 p) = [97]" "mp_iSessionId (ml_ctx m2 p) = 7"
    using reg_name [OF reg, of "[97]" p] reg_sid [OF reg, of 7 p] 2(3,4) m(2,5,6) by auto
  from master_finalize_loses_players [OF demo_config r2 2(2), of 0] x r2 2(2) show ?thesis by auto
qed

section \<open>Shutting the server down while a player is in a region\<close>

lemma region_flags:
  "\<not> bSendRegionRelease (st PLAYER_STATE_REGIONENTERREQ)" "bSendRegionLeave (st PLAYER_STATE_REGIONENTERREQ)" by code_simp+

lemma Shutdown_in_region:
  assumes h: "heap_ok E m" and c: "curr p m = st PLAYER_STATE_REGIONENTERREQ" and f: "\<not> mp_bFinalizing (ml_ctx m p)"
    and net: "\<forall>k. me_net E k = 0" and sd: "ml_iShutdownStatus m = START_SHUTDOWN"
  shows "\<exists>m'. ShutdownPlayer E p m = Some m' \<and> \<not> mp_bFinalizing (ml_ctx m' p)"
proof -
  let ?m1 = "set_state p (st PLAYER_STATE_FINALIZING) m"
  let ?m2 = "?m1\<lparr>ml_sent := ml_sent m @ [(Server (mp_iRegionServerId (ml_ctx m p)), Msg_RegionLeaveReq (mp_iSessionId (ml_ctx m p)), 0)]\<rparr>"
  have "heap_ok E ?m1" by (rule set_state_heap [OF h]) (simp add: live_states_def)
  then have h2: "heap_ok E ?m2" by simp
  have t: "fsm p PLAYER_EVENT_REGIONLEAVEACK ?m2 = Some (st PLAYER_STATE_FINALIZING_REGIONLEAVEACK, set_state p (st PLAYER_STATE_FINALIZING_REGIONLEAVEACK) ?m2)"
    by (rule fsm_eq [OF h2 _ tr_facts(8)]) simp
  have g: "GetPeerServer E (mp_iRegionServerId (ml_ctx m p))" using h by (simp add: heap_ok_def ctx_ok_def)
  have "ShutdownPlayer E p m = Some (set_state p (st PLAYER_STATE_FINALIZING_REGIONLEAVEACK) ?m2)"
    using t g net sd region_flags c f
    by (simp add: ShutdownPlayer_def Let_def fsm_eq [OF h c tr_facts(7)] leave_region_def Master_IsReadyForShutdown_def peer_send_eq)
  then show ?thesis using f by simp
qed

lemma shutdown_all_append: "shutdown_all E (xs @ ys) m = shutdown_all E xs m \<bind> shutdown_all E ys"
  by (induction xs arbitrary: m) (auto split: Option.bind_splits)

lemma shutdown_all_frame:
  assumes "heap_ok E m" "p \<notin> set ps"
  shows "wp (shutdown_all E ps m) (\<lambda>m'. heap_ok E m' \<and> ml_ctx m' p = ml_ctx m p \<and> ml_iShutdownStatus m' = ml_iShutdownStatus m \<and>
    ml_mPlayerContextBySessionId m' = ml_mPlayerContextBySessionId m)"
  using assms
proof (induction ps arbitrary: m)
  case (Cons x ps)
  have "wp (shutdown_all E ps m1) (\<lambda>m'. heap_ok E m' \<and> ml_ctx m' p = ml_ctx m p \<and> ml_iShutdownStatus m' = ml_iShutdownStatus m \<and>
      ml_mPlayerContextBySessionId m' = ml_mPlayerContextBySessionId m)" if r: "R True E x m m1" for m1
    by (rule wp_mono [OF Cons.IH]) (use r Cons.prems in \<open>auto simp: R_def frame_def\<close>)
  then show ?case by (simp, intro wp_bind wp_mono [OF ShutdownPlayer_ok [OF Cons.prems(1)]])
qed (simp add: wp_def)

text \<open>What holds for ever after the shutdown command: the session stays registered.\<close>

definition hung :: "menv \<Rightarrow> u32 \<Rightarrow> ptr \<Rightarrow> MasterServerLoop \<Rightarrow> bool" where
  "hung E s p m \<longleftrightarrow> heap_ok E m \<and> ml_iShutdownStatus m = START_SHUTDOWN \<and> ml_mPlayerContextBySessionId m s = Some p \<and>
     (\<forall>x \<in> set (ml_PlayerFinalizingQueue m). mp_iSessionId (ml_ctx m x) \<noteq> s)"

primrec master_run :: "menv \<Rightarrow> master_event list \<Rightarrow> MasterServerLoop \<Rightarrow> MasterServerLoop option" where
  "master_run E [] m = Some m"
| "master_run E (a # as) m = do { m \<leftarrow> master_step E a m; master_run E as m }"

lemma deleted_facts:
  assumes "deleted x m m1"
  shows "ml_iShutdownStatus m1 = ml_iShutdownStatus m" "s \<noteq> mp_iSessionId (ml_ctx m x) \<Longrightarrow> ml_mPlayerContextBySessionId m1 s = ml_mPlayerContextBySessionId m s"
    "mp_iSessionId (ml_ctx m1 y) = (if y = x then 0 else mp_iSessionId (ml_ctx m y))"
  using assms by (auto simp: deleted_def MasterPlayer_Clear_def)

lemma finalize_hung:
  assumes E: "GetPeerServer E 0" and s: "s \<noteq> 0"
  shows "hung E s p m \<Longrightarrow> \<exists>m'. finalize_loop (ml_PlayerFinalizingQueue m) m = Some m' \<and> hung E s p m'"
proof (induction "ml_PlayerFinalizingQueue m" arbitrary: m)
  case (Cons q qs)
  let ?x = "last (q # qs)"
  have "?x \<in> set (ml_PlayerFinalizingQueue m)" unfolding Cons.hyps(2) [symmetric] by (rule last_in_set) simp
  then have x: "mp_iSessionId (ml_ctx m ?x) \<noteq> s" using Cons.prems by (simp add: hung_def)
  obtain m1 where d: "DeletePlayer ?x m = Some m1" "deleted ?x m m1" "heap_ok E m1"
    using DeletePlayer_ok [OF E, of m ?x] Cons.prems by (auto simp: wp_def hung_def)
  let ?m1 = "m1\<lparr>ml_PlayerFinalizingQueue := qs\<rparr>"
  have "hung E s p ?m1" using Cons.prems d(3) x s unfolding hung_def Cons.hyps(2) [symmetric]
    by (simp add: deleted_facts [OF d(2)])
  from Cons.hyps(1) [of ?m1, OF _ this] d(1) show ?case by (simp flip: Cons.hyps(2))
qed simp

lemma hung_step:
  assumes "GetPeerServer E 0" "s \<noteq> 0" "hung E s p m"
  shows "\<exists>m'. master_step E a m = Some m' \<and> hung E s p m'"
proof (cases a)
  case (Cmd c)
  then show ?thesis using assms(3) by (simp add: master_step_def Master_OnCommand_def hung_def)
next
  case (Tick t)
  obtain m1 where m1: "finalize_loop (ml_PlayerFinalizingQueue m) m = Some m1" "hung E s p m1" using finalize_hung [OF assms] by blast
  then have "ml_mPlayerContextBySessionId m1 \<noteq> Map.empty" by (auto simp: hung_def)
  with m1 Tick show ?thesis by (simp add: master_step_def Master_Loop_def hung_def heap_ok_def)
qed

lemma hung_run: "GetPeerServer E 0 \<Longrightarrow> s \<noteq> 0 \<Longrightarrow> hung E s p m \<Longrightarrow> \<exists>m'. master_run E as m = Some m' \<and> hung E s p m'"
proof (induction as arbitrary: m)
  case (Cons a as)
  from hung_step [OF Cons.prems, of a] Cons.IH Cons.prems(1,2) show ?case by fastforce
qed simp

text \<open>C35: Shutting down with a player in a region.  When the server is told to shut down while a player is in a region, and
  all messages get through, it waits for the region's answer before it forgets the player; but commands are
  ignored from then on, so whatever commands and ticks follow, the server never becomes ready for shutdown.\<close>
theorem master_shutdown_hangs:
  assumes "config_ok E" "master_inv E m" "ml_iShutdownStatus m = NOT_SHUTDOWN" "cmd_ok E m COMMAND_SHUTDOWN"
    and "ml_mPlayerContextBySessionId m s = Some p" "s \<noteq> 0" "curr p m = st PLAYER_STATE_REGIONENTERREQ"
    and "\<not> mp_bFinalizing (ml_ctx m p)" "\<forall>k. me_net E k = 0"
  shows "\<exists>m'. master_run E (Cmd COMMAND_SHUTDOWN # as) m = Some m' \<and> \<not> Master_IsReadyForShutdown m' \<and>
    ml_mPlayerContextBySessionId m' s = Some p"
proof -
  have E: "GetPeerServer E 0" using assms(1) by (simp add: config_ok_def)
  have h: "heap_ok E (m\<lparr>ml_iShutdownStatus := START_SHUTDOWN\<rparr>)" and r: "reg_ok m" using assms(2) by (simp_all add: master_inv_def heap_ok_def)
  have "p \<in> set (me_order E (ml_mPlayerContextByName m))" using reg_sid [OF r, of s p] reg_ran [OF r] assms(4,5) by (simp add: cmd_ok_def)
  then obtain xs ys where o: "me_order E (ml_mPlayerContextByName m) = xs @ p # ys" by (meson split_list)
  then have d: "p \<notin> set xs" "p \<notin> set ys" using assms(4) by (auto simp: cmd_ok_def)
  obtain m1 where 1: "shutdown_all E xs (m\<lparr>ml_iShutdownStatus := START_SHUTDOWN\<rparr>) = Some m1" "heap_ok E m1" "ml_ctx m1 p = ml_ctx m p"
      "ml_iShutdownStatus m1 = START_SHUTDOWN" "ml_mPlayerContextBySessionId m1 s = Some p" using assms(5) shutdown_all_frame [OF h d(1)] by (auto simp: wp_def)
  obtain m2 where 2: "ShutdownPlayer E p m1 = Some m2" "\<not> mp_bFinalizing (ml_ctx m2 p)"
    using Shutdown_in_region [OF 1(2) _ _ assms(9) 1(4), of p] assms(7,8) 1(3) by (auto simp: curr_def)
  have h2: "heap_ok E m2" "ml_iShutdownStatus m2 = START_SHUTDOWN" "ml_mPlayerContextBySessionId m2 s = Some p"
    using ShutdownPlayer_ok [OF 1(2), of p] 2(1) 1(4,5) by (auto simp: wp_def R_def frame_def)
  obtain m3 where 3: "shutdown_all E ys m2 = Some m3" "ml_ctx m3 p = ml_ctx m2 p" "ml_iShutdownStatus m3 = START_SHUTDOWN"
      and sid: "ml_mPlayerContextBySessionId m3 s = Some p"
    using shutdown_all_frame [OF h2(1) d(2)] h2(2,3) by (auto simp: wp_def)
  have s3: "master_step E (Cmd COMMAND_SHUTDOWN) m = Some m3"
    using 1(1) 2(1) 3(1) assms(3) o
    by (simp add: master_step_def Master_OnCommand_def Master_OnCommandShutdown_def shutdown_all_append)
  then have I3: "heap_ok E m3" "reg_ok m3" using OnCommand_ok [OF assms(2,4)] by (auto simp: wp_def master_step_def master_inv_def)
  have "mp_iSessionId (ml_ctx m3 x) \<noteq> s" if "x \<in> set (ml_PlayerFinalizingQueue m3)" for x
    using that reg_queue [OF I3(2), of x] reg_sid [OF I3(2), of s x] sid 2(2) 3(2) by auto
  then have "hung E s p m3" using I3 3(3) sid by (simp add: hung_def)
  from hung_run [OF E assms(6) this, of as] s3 show ?thesis by (auto simp: hung_def Master_IsReadyForShutdown_def)
qed

text \<open>A state of the demo server with one player, account \<open>a\<close> and session 7, in a given state.\<close>

lemma demo_player:
  assumes "x \<in> set live_states"
  shows "\<exists>m. master_inv demo_env m \<and> ml_iShutdownStatus m = NOT_SHUTDOWN \<and> ml_mPlayerContextByName m = [[97] \<mapsto> 0] \<and>
    ml_mPlayerContextBySessionId m = [7 \<mapsto> 0] \<and> curr 0 m = st x \<and> \<not> mp_bFinalizing (ml_ctx m 0) \<and> ml_sent m = [] \<and>
    mp_iRegionServerId (ml_ctx m 0) = 0 \<and> mp_iGateServerId (ml_ctx m 0) = 0 \<and> mp_iAvatarId (ml_ctx m 0) = 0 \<and>
    mp_strAvatarName (ml_ctx m 0) = [] \<and> ml_iChannelCount m = 1 \<and>
    ml_arrayChannelContext m = (replicate CHANNEL_MAX None)[0 := Some (ChannelContext_of (hd (me_channels demo_env)))]"
proof -
  obtain m where m: "master_inv demo_env m" "ml_iShutdownStatus m = NOT_SHUTDOWN" "ml_PlayerContextPool m = ObjectPool_new 5000"
      "ml_mPlayerContextByName m = Map.empty" "ml_mPlayerContextBySessionId m = Map.empty" "ml_PlayerFinalizingQueue m = []" "ml_sent m = []"
      "ml_iChannelCount m = 1" "ml_arrayChannelContext m = (replicate CHANNEL_MAX None)[0 := Some (ChannelContext_of (hd (me_channels demo_env)))]"
      "mp_iRegionServerId (ml_ctx m 0) = 0" "mp_iGateServerId (ml_ctx m 0) = 0" "mp_iAvatarId (ml_ctx m 0) = 0"
      "mp_strAvatarName (ml_ctx m 0) = []" "\<not> mp_bFinalizing (ml_ctx m 0)" using demo_start by blast
  obtain pl where a: "ObjectPool_Allocate () (ObjectPool_new 5000) = Some (Some 0, pl)" by (simp add: ObjectPool_Allocate_def ObjectPool_new_def)
  note A = ObjectPool_Allocate_ok [OF op_new(1) a]
  let ?m1 = "set_state 0 (st x) (ctx_upd 0 (\<lambda>c. c\<lparr>mp_iSessionId := 7, mp_strAccountName := [97]\<rparr>) m)"
  let ?m2 = "?m1\<lparr>ml_PlayerContextPool := pl, ml_mPlayerContextByName := [[97] \<mapsto> 0], ml_mPlayerContextBySessionId := [7 \<mapsto> 0]\<rparr>"
  have r: "reg_ok m" and h: "heap_ok demo_env m" using m(1) by (simp_all add: master_inv_def)
  have "heap_ok demo_env (ctx_upd 0 (\<lambda>c. c\<lparr>mp_iSessionId := 7, mp_strAccountName := [97]\<rparr>) m)"
    using h by (intro heap_ctx_upd ctx_ok_ids heap_ctx)
  then have "heap_ok demo_env ?m1" by (rule set_state_heap [OF _ assms])
  then have "heap_ok demo_env ?m2" by (simp add: heap_ok_def)
  moreover have "reg_ok ?m2"
    by (rule reg_add [OF r, of pl 0 "[97]" 7]) (use A m op_new(2) in simp_all)
  ultimately have "master_inv demo_env ?m2" by (simp add: master_inv_def)
  then show ?thesis using m by (intro exI [of _ ?m2]) (simp add: curr_def GetCurrState_def set_state_def ctx_upd_def)
qed

theorem master_shutdown_hangs_witness:
  "\<exists>m. \<exists>p. ml_mPlayerContextBySessionId m 7 = Some p \<and> curr p m = st PLAYER_STATE_REGIONENTERREQ \<and> (\<forall>n. \<exists>m'.
     master_run demo_env (Cmd COMMAND_SHUTDOWN # replicate n (Tick 0)) m = Some m' \<and> \<not> Master_IsReadyForShutdown m')"
proof -
  obtain m where m: "master_inv demo_env m" "ml_iShutdownStatus m = NOT_SHUTDOWN" "ml_mPlayerContextByName m = [[97] \<mapsto> 0]"
      "ml_mPlayerContextBySessionId m = [7 \<mapsto> 0]" "curr 0 m = st PLAYER_STATE_REGIONENTERREQ" "\<not> mp_bFinalizing (ml_ctx m 0)"
    using demo_player [of PLAYER_STATE_REGIONENTERREQ] by (auto simp: live_states_def)
  have ok: "cmd_ok demo_env m COMMAND_SHUTDOWN" by (simp add: cmd_ok_def m(3) demo_env_def)
  have s: "ml_mPlayerContextBySessionId m 7 = Some 0" by (simp add: m(4))
  have net: "\<forall>k. me_net demo_env k = 0" by (simp add: demo_env_def)
  from master_shutdown_hangs [OF demo_config m(1,2) ok s _ m(5,6) net] m s show ?thesis
    by (intro exI [of _ m] exI [of _ 0]) auto
qed

section \<open>Leaving while the region is allocated\<close>

lemma alloc_flags:
  "bSendRegionRelease (st PLAYER_STATE_REGIONALLOCREQ)" "\<not> bSendRegionLeave (st PLAYER_STATE_REGIONALLOCREQ)"
  "\<not> bSendOnLoginFailedAck (st PLAYER_STATE_REGIONALLOCREQ)" "\<not> bSendGateReleaseReq (st PLAYER_STATE_REGIONALLOCREQ)"
  "bSendGateDisconnect (st PLAYER_STATE_REGIONALLOCREQ)" "bSendCacheDisconnect (st PLAYER_STATE_REGIONALLOCREQ)"
  "st PLAYER_STATE_REGIONALLOCREQ \<noteq> st PLAYER_STATE_REGIONENTERREQ"
  by code_simp+

lemma Shutdown_allocating:
  assumes h: "heap_ok E m" and c: "curr p m = st PLAYER_STATE_REGIONALLOCREQ" and f: "\<not> mp_bFinalizing (ml_ctx m p)"
    and net: "\<forall>k. me_net E k = 0" and sd: "ml_iShutdownStatus m = NOT_SHUTDOWN"
  shows "\<exists>m'. ShutdownPlayer E p m = Some m' \<and> ml_PlayerFinalizingQueue m' = ml_PlayerFinalizingQueue m @ [p] \<and>
    ml_sent m' = ml_sent m @ [(Server (mp_iRegionServerId (ml_ctx m p)), Msg_RegionReleaseReq (mp_iSessionId (ml_ctx m p)), 0),
      (Server (mp_iGateServerId (ml_ctx m p)), Msg_Disconnect (mp_iSessionId (ml_ctx m p)) 0, 0),
      (CacheServer, Msg_CacheLogoutReq (mp_iSessionId (ml_ctx m p)), 0)]"
proof -
  let ?m1 = "m\<lparr>ml_sent := ml_sent m @ [(Server (mp_iRegionServerId (ml_ctx m p)), Msg_RegionReleaseReq (mp_iSessionId (ml_ctx m p)), 0)]\<rparr>"
  have "heap_ok E ?m1" using h by simp
  from region_upd_eq [OF this] obtain cs where
    d: "DeletePlayerFromRegionServerContext p ?m1 = Some (?m1\<lparr>ml_arrayChannelContext := cs\<rparr>)" unfolding DeletePlayerFromRegionServerContext_def by blast
  have g: "GetPeerServer E (mp_iRegionServerId (ml_ctx m p))" "GetPeerServer E (mp_iGateServerId (ml_ctx m p))"
    using h by (simp_all add: heap_ok_def ctx_ok_def)
  show ?thesis using d g net sd c f alloc_flags
    by (simp add: ShutdownPlayer_def Let_def leave_region_def send_if_def peer_send_eq Master_IsReadyForShutdown_def
        AddPlayerToFinalizingQueue_def)
qed

lemma channel_lookup_set [simp]:
  "GetChannelId n (set_state p s m) = GetChannelId n m" "GetInitialRegionServerId i (set_state p s m) = GetInitialRegionServerId i m"
  "GetChannelId n (m\<lparr>ml_Delay := d\<rparr>) = GetChannelId n m" "GetInitialRegionServerId i (m\<lparr>ml_Delay := d\<rparr>) = GetInitialRegionServerId i m"
  by (simp_all add: GetChannelId_def GetInitialRegionServerId_def channels_in_use_def set_state_def ctx_upd_def)

lemma ChannelSelect_eq:
  assumes h: "heap_ok E m" and c: "curr p m = st PLAYER_STATE_CHANNELLISTNTF" and f: "\<not> mp_bFinalizing (ml_ctx m p)"
    and net: "\<forall>k. me_net E k = 0" and ch: "GetChannelId w m = Some ch" "ch \<noteq> INVALID_CHANNEL_ID" "GetInitialRegionServerId ch m = Some r"
  shows "\<exists>m'. MasterPlayer_OnChannelSelectReq E p w m = Some m' \<and> curr p m' = st PLAYER_STATE_REGIONALLOCREQ \<and>
    ml_sent m' = ml_sent m @ [(Server r, Msg_RegionAllocReq (mp_iSessionId (ml_ctx m p)) (mp_iAvatarId (ml_ctx m p)) (mp_strAvatarName (ml_ctx m p)), 0)] \<and>
    mp_iSessionId (ml_ctx m' p) = mp_iSessionId (ml_ctx m p) \<and> mp_iGateServerId (ml_ctx m' p) = mp_iGateServerId (ml_ctx m p) \<and>
    mp_iRegionServerId (ml_ctx m' p) = mp_iRegionServerId (ml_ctx m p) \<and> \<not> mp_bFinalizing (ml_ctx m' p) \<and> heap_ok E m' \<and>
    ml_mPlayerContextBySessionId m' = ml_mPlayerContextBySessionId m \<and> ml_iShutdownStatus m' = ml_iShutdownStatus m"
proof -
  let ?m1 = "set_state p (st PLAYER_STATE_ONCHANNELSELECTREQ) m"
  let ?m2 = "?m1\<lparr>ml_sent := ml_sent m @ [(Server r, Msg_RegionAllocReq (mp_iSessionId (ml_ctx m p)) (mp_iAvatarId (ml_ctx m p)) (mp_strAvatarName (ml_ctx m p)), 0)]\<rparr>"
  let ?m3 = "ctx_upd p (\<lambda>c. c\<lparr>mp_iLastChannelId := ch\<rparr>) ?m2"
  have h1: "heap_ok E ?m1" by (rule set_state_heap [OF h]) (simp add: live_states_def)
  have R1: "R True E p ?m1 ?m1" by (rule R_refl [OF h1])
  have lt: "unat ch < CHANNEL_MAX" using wp_GetChannelId [OF R1, of w Some "\<lambda>i. i = INVALID_CHANNEL_ID \<or> unat i < CHANNEL_MAX"] ch
    by (auto simp: wp_def)
  have g: "GetPeerServer E r" using wp_GetInitialRegionServerId [OF R1, of w ch Some "GetPeerServer E"] ch by (auto simp: wp_def)
  have h2: "heap_ok E ?m2" using h1 by simp
  have h3: "heap_ok E ?m3" by (rule heap_ctx_upd [OF h2], rule ctx_ok_ids(4) [OF heap_ctx [OF h2] lt])
  have t: "fsm p PLAYER_EVENT_REGIONALLOCREQ ?m3 = Some (st PLAYER_STATE_REGIONALLOCREQ, set_state p (st PLAYER_STATE_REGIONALLOCREQ) ?m3)"
    by (rule fsm_eq [OF h3 _ tr_facts(6)]) simp
  have "MasterPlayer_OnChannelSelectReq E p w m = Some (set_state p (st PLAYER_STATE_REGIONALLOCREQ) ?m3)"
    using t g net f ch
    by (simp add: MasterPlayer_OnChannelSelectReq_def fsm_eq [OF h c tr_facts(5)] peer_send_eq)
  moreover have "heap_ok E (set_state p (st PLAYER_STATE_REGIONALLOCREQ) ?m3)"
    by (rule set_state_heap [OF h3]) (simp add: live_states_def)
  ultimately show ?thesis using f by simp
qed

text \<open>Leaving while a region is allocated.  When a player selects a channel and its session ends before the region has
  answered, the request to release the player goes to the region stored in its context, which is 0 for a player that has not
  been in a region yet, and not to the region that was asked to allocate it; that region is told nothing.\<close>
theorem master_releases_wrong_region:
  assumes "master_inv E m" "ml_iShutdownStatus m = NOT_SHUTDOWN" "ml_mPlayerContextBySessionId m s = Some p"
    and "curr p m = st PLAYER_STATE_CHANNELLISTNTF" "\<not> mp_bFinalizing (ml_ctx m p)" "\<forall>k. me_net E k = 0"
    and "length data \<le> DELAY_MAX" "me_recv E t data = Some (ChannelSelectReq n)" "wide_name E n = Some (Some w)"
    and "GetChannelId w m = Some ch" "ch \<noteq> INVALID_CHANNEL_ID" "GetInitialRegionServerId ch m = Some r"
    and "mp_iRegionServerId (ml_ctx m p) \<noteq> r" "mp_iGateServerId (ml_ctx m p) \<noteq> r"
  shows "\<exists>m'. master_run E [Cmd (COMMAND_PACKETFORWARD s t data), Cmd (COMMAND_ONSESSIONDISCONNECT s)] m = Some m' \<and>
    p \<in> set (ml_PlayerFinalizingQueue m') \<and>
    filter (\<lambda>(d, msg, res). d = Server r) (drop (length (ml_sent m)) (ml_sent m')) =
      [(Server r, Msg_RegionAllocReq s (mp_iAvatarId (ml_ctx m p)) (mp_strAvatarName (ml_ctx m p)), 0)] \<and>
    (Server (mp_iRegionServerId (ml_ctx m p)), Msg_RegionReleaseReq s, 0) \<in> set (ml_sent m')"
proof -
  let ?m = "m\<lparr>ml_Delay := (t, data)\<rparr>"
  have h: "heap_ok E ?m" and r: "reg_ok m" using assms(1) by (simp_all add: master_inv_def)
  have sid: "mp_iSessionId (ml_ctx m p) = s" using reg_sid [OF r, of s p] assms(3) by simp
  have ch: "GetChannelId w ?m = Some ch" "GetInitialRegionServerId ch ?m = Some r"
    using assms(10,12) by simp_all
  have c: "curr p ?m = st PLAYER_STATE_CHANNELLISTNTF" and f: "\<not> mp_bFinalizing (ml_ctx ?m p)" using assms(4,5) by simp_all
  obtain m1 where m1: "MasterPlayer_OnChannelSelectReq E p w ?m = Some m1" "curr p m1 = st PLAYER_STATE_REGIONALLOCREQ"
      "ml_sent m1 = ml_sent m @ [(Server r, Msg_RegionAllocReq s (mp_iAvatarId (ml_ctx m p)) (mp_strAvatarName (ml_ctx m p)), 0)]"
      "mp_iSessionId (ml_ctx m1 p) = s" "mp_iGateServerId (ml_ctx m1 p) = mp_iGateServerId (ml_ctx m p)"
      "mp_iRegionServerId (ml_ctx m1 p) = mp_iRegionServerId (ml_ctx m p)" "\<not> mp_bFinalizing (ml_ctx m1 p)" "heap_ok E m1"
      "ml_mPlayerContextBySessionId m1 s = Some p" "ml_iShutdownStatus m1 = NOT_SHUTDOWN"
    using ChannelSelect_eq [OF h c f assms(6) ch(1) assms(11) ch(2)] sid assms(2,3) by auto
  have s1: "master_step E (Cmd (COMMAND_PACKETFORWARD s t data)) m = Some m1"
    using m1(1) assms(2,3,7,8,9)
    by (simp add: master_step_def Master_OnCommand_def Master_OnCommandPacketForward_def by_session_def DelaySendData_def on_packet_def)
  obtain m2 where m2: "ShutdownPlayer E p m1 = Some m2" "ml_PlayerFinalizingQueue m2 = ml_PlayerFinalizingQueue m1 @ [p]"
      "ml_sent m2 = ml_sent m1 @ [(Server (mp_iRegionServerId (ml_ctx m p)), Msg_RegionReleaseReq s, 0),
        (Server (mp_iGateServerId (ml_ctx m p)), Msg_Disconnect s 0, 0), (CacheServer, Msg_CacheLogoutReq s, 0)]"
    using Shutdown_allocating [OF m1(8,2,7) assms(6) m1(10)] m1(4-6) by auto
  have s2: "master_step E (Cmd (COMMAND_ONSESSIONDISCONNECT s)) m1 = Some m2"
    using m2(1) m1(9,10) by (simp add: master_step_def Master_OnCommand_def by_session_def MasterPlayer_OnSessionDisconnect_def)
  show ?thesis using s1 s2 m2(2,3) m1(3) assms(13,14) by simp
qed

theorem master_releases_wrong_region_witness:
  "\<exists>m p m'. master_run demo_env [Cmd (COMMAND_PACKETFORWARD 7 0x0203 [70, 97, 110]), Cmd (COMMAND_ONSESSIONDISCONNECT 7)] m = Some m' \<and>
     p \<in> set (ml_PlayerFinalizingQueue m') \<and> (Server 0, Msg_RegionReleaseReq 7, 0) \<in> set (ml_sent m') \<and>
     filter (\<lambda>(d, msg, res). d = Server 4) (ml_sent m') = [(Server 4, Msg_RegionAllocReq 7 0 [], 0)]"
proof -
  obtain m where m: "master_inv demo_env m" "ml_iShutdownStatus m = NOT_SHUTDOWN" "ml_mPlayerContextBySessionId m = [7 \<mapsto> 0]"
      "curr 0 m = st PLAYER_STATE_CHANNELLISTNTF" "\<not> mp_bFinalizing (ml_ctx m 0)" "ml_sent m = []" "mp_iRegionServerId (ml_ctx m 0) = 0"
      "mp_iGateServerId (ml_ctx m 0) = 0" "mp_iAvatarId (ml_ctx m 0) = 0" "mp_strAvatarName (ml_ctx m 0) = []" "ml_iChannelCount m = 1"
      "ml_arrayChannelContext m = (replicate CHANNEL_MAX None)[0 := Some (ChannelContext_of (hd (me_channels demo_env)))]"
    using demo_player [of PLAYER_STATE_CHANNELLISTNTF] by (auto simp: live_states_def)
  have s: "ml_mPlayerContextBySessionId m 7 = Some 0" by (simp add: m(3))
  have cu: "channels_in_use m = Some [Some (ChannelContext_of (hd (me_channels demo_env)))]"
    by (simp add: channels_in_use_def m(11,12) numeral_eq_Suc)
  have ch: "GetChannelId [70, 97, 110] m = Some 0" "GetInitialRegionServerId 0 m = Some 4"
    by (simp_all add: GetChannelId_def GetInitialRegionServerId_def cu ChannelContext_of_def demo_env_def)
  have E: "\<forall>k. me_net demo_env k = 0" "me_recv demo_env 0x0203 [70, 97, 110] = Some (ChannelSelectReq [70, 97, 110])"
      "wide_name demo_env [70, 97, 110] = Some (Some [70, 97, 110])"
    by (simp_all add: demo_env_def wide_name_def Char2WChar_def)
  have "length ([70, 97, 110] :: byte list) \<le> DELAY_MAX" by simp
  from master_releases_wrong_region [OF m(1,2) s m(4,5) E(1) this E(2,3) ch(1) _ ch(2)] m(6-10) show ?thesis by auto
qed

end
