(* ===== verification/SessionBase.thy ===== *)
theory SessionBase
  imports FSM ServerBase
begin

text \<open>
  The sessions of the session servers: \<open>Session\<close> (\<open>session.cpp\<close>, \<open>session_state.cpp\<close>) and
  \<open>SessionServerLoop\<close> (\<open>session_server_loop.inl\<close>) of \<open>FTServer/Src/ServerBase\<close>.

  \<open>Session\<close> is a base class and \<open>SessionServerLoop<T>\<close> a template over the classes derived from it.  Here
  \<open>Session\<close> is an extensible record, the loop a record with a map from addresses to sessions of a type \<open>'s\<close>, and
  the virtual methods that the base class calls are arguments (\<open>vClear\<close>, \<open>vOnDisconnect\<close> and so on), bundled in
  \<open>vtable\<close> for the loop.  A server passes its own methods.

  The network layer below is seen through the calls on it, \<open>net_call\<close>, which \<open>sl_calls\<close> records, and the field
  \<open>client_\<close> of its connections, which belongs to the layer above: \<open>sl_client\<close>.  \<open>senv\<close> has what comes from
  outside: the private key and OpenSSL, the pool of output buffers, the decoding of packets by generated code,
  the conversion of strings, the results of sending messages to the master server, and the configuration.  \<open>None\<close> is undefined behaviour: a
  write outside a buffer, a call through a NULL pointer, or a string function that aborts.
\<close>

abbreviation SB_INPUT_BUFFER :: nat where "SB_INPUT_BUFFER \<equiv> 1024"
abbreviation SB_OUTPUT_BUFFER :: nat where "SB_OUTPUT_BUFFER \<equiv> 65500"
abbreviation MAX_TOKEN_LEN :: nat where "MAX_TOKEN_LEN \<equiv> 512"
abbreviation SERVER_PACKET_HEAD :: nat where "SERVER_PACKET_HEAD \<equiv> 4"

text \<open>The states and events of the base class.\<close>

abbreviation SESSION_STATE_NONE :: int where "SESSION_STATE_NONE \<equiv> 0"
abbreviation SESSION_STATE_ONCONNECTION :: int where "SESSION_STATE_ONCONNECTION \<equiv> 1"
abbreviation SESSION_STATE_DISCONNECT :: int where "SESSION_STATE_DISCONNECT \<equiv> 2"
abbreviation SESSION_STATE_ONDISCONNECT :: int where "SESSION_STATE_ONDISCONNECT \<equiv> 3"
abbreviation SESSION_STATE_LOGGEDIN :: int where "SESSION_STATE_LOGGEDIN \<equiv> 4"
abbreviation SESSION_STATE_USERDEFINED :: int where "SESSION_STATE_USERDEFINED \<equiv> 5"
abbreviation SESSION_EVENT_ONCONNECTION :: int where "SESSION_EVENT_ONCONNECTION \<equiv> 0"
abbreviation SESSION_EVENT_DISCONNECT :: int where "SESSION_EVENT_DISCONNECT \<equiv> 1"
abbreviation SESSION_EVENT_ONDISCONNECT :: int where "SESSION_EVENT_ONDISCONNECT \<equiv> 2"
abbreviation SESSION_EVENT_ONDATA :: int where "SESSION_EVENT_ONDATA \<equiv> 3"
abbreviation SESSION_EVENT_SEND :: int where "SESSION_EVENT_SEND \<equiv> 4"
abbreviation SESSION_EVENT_LOGGEDIN :: int where "SESSION_EVENT_LOGGEDIN \<equiv> 5"
abbreviation SESSION_EVENT_USERDEFINED :: int where "SESSION_EVENT_USERDEFINED \<equiv> 6"

definition session_table :: "(int \<times> (int \<times> int) list) list" where
  "session_table = [
     (SESSION_STATE_NONE, [(SESSION_EVENT_ONCONNECTION, SESSION_STATE_ONCONNECTION)]),
     (SESSION_STATE_ONCONNECTION,
       [(SESSION_EVENT_DISCONNECT, SESSION_STATE_DISCONNECT),
        (SESSION_EVENT_ONDISCONNECT, SESSION_STATE_ONDISCONNECT),
        (SESSION_EVENT_ONDATA, SESSION_STATE_ONCONNECTION)]),
     (SESSION_STATE_DISCONNECT, [(SESSION_EVENT_ONDISCONNECT, SESSION_STATE_ONDISCONNECT)]),
     (SESSION_STATE_ONDISCONNECT, [])]"

definition Session_InitStateMachine :: "StateMachine \<Rightarrow> StateMachine option" where
  "Session_InitStateMachine m = init_states session_table m"

section \<open>Session ids\<close>

text \<open>The packed union: the low byte is the sequence number, then the index of the session in the server's
  array, then the id of the server.\<close>

definition mk_id :: "u8 \<Rightarrow> u16 \<Rightarrow> u8 \<Rightarrow> u32" where
  "mk_id sequence index server = word_cat server (word_cat index sequence :: 24 word)"

definition id_sequence :: "u32 \<Rightarrow> u8" where
  "id_sequence i = ucast i"

definition id_index :: "u32 \<Rightarrow> u16" where
  "id_index i = ucast (drop_bit 8 i)"

definition id_server :: "u32 \<Rightarrow> u8" where
  "id_server i = ucast (drop_bit 24 i)"

definition next_sequence :: "u32 \<Rightarrow> u32" where
  "next_sequence i = mk_id (id_sequence i + 1) (id_index i) (id_server i)"

section \<open>Data\<close>

record Session =
  se_iSessionId :: u32
  se_pConnection :: ptr
  se_StateMachine :: StateMachine
  se_dwConnectionTime :: u32
  se_dwLoggedInTime :: u32
  se_iRecvBufLen :: u16
  se_RecvBuf :: "byte list"
  se_iLoginBufLen :: u16
  se_TokenPacket :: "byte list"
  se_DesSchedule :: "byte list option"
  se_DesBlock :: "byte list"

datatype net_call = AsyncDisconnect ptr | AsyncSend ptr "byte list" | Connection_Close ptr | SetRefMax ptr nat

record 's sloop =
  sl_Session :: "ptr \<Rightarrow> 's"
  sl_mSessionMap :: "u32 \<rightharpoonup> ptr"
  sl_arraySession :: "ptr list"
  sl_iSessionMax :: u16
  sl_SessionPool :: ObjectPool
  sl_iShutdownStatus :: loop_status
  sl_dwCurrTime :: u32
  sl_client :: "ptr \<rightharpoonup> ptr"
  sl_pops :: nat
  sl_calls :: "net_call list"

record 'pk senv =
  sv_keyLen :: u16
  sv_decrypt :: "byte list \<Rightarrow> byte list option"
  sv_des_check :: "byte list \<Rightarrow> bool"
  sv_des_key :: "nat \<Rightarrow> byte list"
  sv_des_encrypt :: "byte list \<Rightarrow> byte list \<Rightarrow> byte list"
  sv_pop :: "nat \<Rightarrow> bool"
  sv_recv :: "u16 \<Rightarrow> byte list \<Rightarrow> 'pk option"
  sv_wide :: "byte list \<Rightarrow> tstring option"
  sv_net :: "nat \<Rightarrow> i32"
  sv_connectionTimeout :: u32
  sv_loginTimeout :: u32

section \<open>Basic operations\<close>

definition ses_upd :: "ptr \<Rightarrow> ('s \<Rightarrow> 's) \<Rightarrow> ('s, 'l) sloop_scheme \<Rightarrow> ('s, 'l) sloop_scheme" where
  "ses_upd p f l = l\<lparr>sl_Session := (sl_Session l)(p := f (sl_Session l p))\<rparr>"

definition net_do :: "net_call \<Rightarrow> ('s, 'l) sloop_scheme \<Rightarrow> ('s, 'l) sloop_scheme" where
  "net_do c l = l\<lparr>sl_calls := sl_calls l @ [c]\<rparr>"

definition ses_fsm :: "ptr \<Rightarrow> int \<Rightarrow> bool \<Rightarrow> ('a Session_scheme, 'l) sloop_scheme \<Rightarrow>
    (int \<times> ('a Session_scheme, 'l) sloop_scheme) option" where
  "ses_fsm p e change l = do {
     (r, sm) \<leftarrow> StateTransition e change (se_StateMachine (sl_Session l p));
     Some (r, ses_upd p (\<lambda>s. s\<lparr>se_StateMachine := sm\<rparr>) l)
   }"

definition ses_state :: "ptr \<Rightarrow> ('a Session_scheme, 'l) sloop_scheme \<Rightarrow> int" where
  "ses_state p l = GetCurrState (se_StateMachine (sl_Session l p))"

text \<open>\<open>SB_PopOutputBuffer\<close> hands out a buffer or NULL.\<close>

definition SB_PopOutputBuffer :: "('pk, 'e) senv_scheme \<Rightarrow> ('s, 'l) sloop_scheme \<Rightarrow> bool \<times> ('s, 'l) sloop_scheme" where
  "SB_PopOutputBuffer E l = (sv_pop E (sl_pops l), l\<lparr>sl_pops := Suc (sl_pops l)\<rparr>)"

section \<open>The methods of a session\<close>

definition Session_new :: "Session" where
  "Session_new = \<lparr>se_iSessionId = 0, se_pConnection = NULL, se_StateMachine = StateMachine_new SESSION_STATE_NONE, se_dwConnectionTime = 0,
     se_dwLoggedInTime = 0, se_iRecvBufLen = 0, se_RecvBuf = replicate SB_INPUT_BUFFER 0, se_iLoginBufLen = 0,
     se_TokenPacket = replicate (10 + MAX_TOKEN_LEN) 0, se_DesSchedule = None, se_DesBlock = replicate 8 0\<rparr>"

definition Session_Clear :: "'a Session_scheme \<Rightarrow> 'a Session_scheme" where
  "Session_Clear s = s\<lparr>se_pConnection := NULL, se_iRecvBufLen := 0, se_RecvBuf := (se_RecvBuf s)[0 := 0], se_dwConnectionTime := 0,
     se_dwLoggedInTime := 0, se_iLoginBufLen := 0, se_TokenPacket := replicate (10 + MAX_TOKEN_LEN) 0,
     se_StateMachine := SetCurrState SESSION_STATE_NONE (se_StateMachine s), se_DesSchedule := None, se_DesBlock := replicate 8 0\<rparr>"

definition SBSession_OnConnection :: "ptr \<Rightarrow> ptr \<Rightarrow> ('a Session_scheme, 'l) sloop_scheme \<Rightarrow>
    (int \<times> ('a Session_scheme, 'l) sloop_scheme) option" where
  "SBSession_OnConnection connId p l = do {
     (r, l) \<leftarrow> ses_fsm p SESSION_EVENT_ONCONNECTION False l;
     if r \<noteq> SESSION_STATE_ONCONNECTION then Some (- 1, l) else do {
       let l = ses_upd p (\<lambda>s. s\<lparr>se_iSessionId := next_sequence (se_iSessionId s), se_pConnection := connId\<rparr>) l;
       let l = net_do (SetRefMax connId 256) (l\<lparr>sl_client := (sl_client l)(connId \<mapsto> p)\<rparr>);
       (r, l) \<leftarrow> ses_fsm p SESSION_EVENT_ONCONNECTION True l;
       if r < 0 then Some (- 1, l)
       else Some (0, ses_upd p (\<lambda>s. s\<lparr>se_dwConnectionTime := sl_dwCurrTime l\<rparr>) l)
     }
   }"

definition SBSession_OnDisconnect :: "('a Session_scheme \<Rightarrow> 'a Session_scheme) \<Rightarrow> ptr \<Rightarrow> ('a Session_scheme, 'l) sloop_scheme \<Rightarrow>
    ('a Session_scheme, 'l) sloop_scheme option" where
  "SBSession_OnDisconnect vClear p l = do {
     (r, l) \<leftarrow> ses_fsm p SESSION_EVENT_ONDISCONNECT True l;
     if r \<noteq> SESSION_STATE_ONDISCONNECT then Some l else do {
       let c = se_pConnection (sl_Session l p);
       let l = (if c \<noteq> NULL then ses_upd p (\<lambda>s. s\<lparr>se_pConnection := NULL\<rparr>) (net_do (Connection_Close c) l) else l);
       let l = ses_upd p (\<lambda>s. s\<lparr>se_iSessionId := next_sequence (se_iSessionId s)\<rparr>) l;
       Some (ses_upd p vClear l)
     }
   }"

definition SBSession_Disconnect :: "(ptr \<Rightarrow> ('a Session_scheme, 'l) sloop_scheme \<Rightarrow> ('a Session_scheme, 'l) sloop_scheme option) \<Rightarrow>
    ptr \<Rightarrow> ('a Session_scheme, 'l) sloop_scheme \<Rightarrow> ('a Session_scheme, 'l) sloop_scheme option" where
  "SBSession_Disconnect vOnDisconnect p l =
     (let c = se_pConnection (sl_Session l p) in
      if c \<noteq> NULL then Some (net_do (AsyncDisconnect c) l) else vOnDisconnect p l)"

text \<open>The packet is built in an output buffer: type id, length, data.\<close>

definition SBSession_SendData :: "('pk, 'e) senv_scheme \<Rightarrow> u16 \<Rightarrow> byte list \<Rightarrow> ptr \<Rightarrow> ('a Session_scheme, 'l) sloop_scheme \<Rightarrow>
    (int \<times> ('a Session_scheme, 'l) sloop_scheme) option" where
  "SBSession_SendData E iTypeId pData p l =
     (let (ok, l) = SB_PopOutputBuffer E l; c = se_pConnection (sl_Session l p) in
      if \<not> ok then Some (- 1, l)
      else if length pData + SERVER_PACKET_HEAD > SB_OUTPUT_BUFFER \<or> c = NULL then None
      else Some (0, net_do (AsyncSend c (le16 iTypeId @ le16 (of_nat (length pData)) @ pData)) l))"

definition SBSession_LoggedInNtf :: "ptr \<Rightarrow> ('a Session_scheme, 'l) sloop_scheme \<Rightarrow> (int \<times> ('a Session_scheme, 'l) sloop_scheme) option" where
  "SBSession_LoggedInNtf p l = do {
     (r, l) \<leftarrow> ses_fsm p SESSION_EVENT_LOGGEDIN True l;
     if r \<noteq> SESSION_STATE_LOGGEDIN then Some (- 1, l)
     else Some (0, ses_upd p (\<lambda>s. s\<lparr>se_dwLoggedInTime := sl_dwCurrTime l\<rparr>) l)
   }"

section \<open>The login packets\<close>

text \<open>The virtual methods of a session that the base class and the loop call.\<close>

record 'l vtable =
  vt_OnConnection :: "ptr \<Rightarrow> ptr \<Rightarrow> 'l \<Rightarrow> (int \<times> 'l) option"
  vt_OnDisconnect :: "ptr \<Rightarrow> 'l \<Rightarrow> 'l option"
  vt_Disconnect :: "ptr \<Rightarrow> 'l \<Rightarrow> 'l option"
  vt_HandlePacket :: "u16 \<Rightarrow> u16 \<Rightarrow> byte list \<Rightarrow> ptr \<Rightarrow> 'l \<Rightarrow> 'l option"
  vt_CheckLoginToken :: "ptr \<Rightarrow> 'l \<Rightarrow> (int \<times> 'l) option"
  vt_LoggedInNtf :: "ptr \<Rightarrow> 'l \<Rightarrow> (int \<times> 'l) option"

text \<open>\<open>Disconnect(); return r;\<close>\<close>

definition drop_session :: "'l vtable \<Rightarrow> ptr \<Rightarrow> int \<Rightarrow> 'l \<Rightarrow> (int \<times> 'l) option" where
  "drop_session V p r l = do { l \<leftarrow> vt_Disconnect V p l; Some (r, l) }"

text \<open>The key of the client has arrived with its token: check both and answer with a fresh key.\<close>

definition accept_token :: "('pk, 'e) senv_scheme \<Rightarrow> ('a Session_scheme, 'l) sloop_scheme vtable \<Rightarrow> ptr \<Rightarrow> ('a Session_scheme, 'l) sloop_scheme \<Rightarrow>
    (int \<times> ('a Session_scheme, 'l) sloop_scheme) option" where
  "accept_token E V p l =
     (let key = take 8 (se_TokenPacket (sl_Session l p)) in
      if \<not> sv_des_check E key then drop_session V p (- 3) l else do {
        let l = ses_upd p (\<lambda>s. s\<lparr>se_DesSchedule := Some key\<rparr>) l;
        (r, l) \<leftarrow> vt_CheckLoginToken V p l;
        if r \<noteq> 0 then drop_session V p (- 2) l else do {
          let (ok, l) = SB_PopOutputBuffer E l;
          if \<not> ok then drop_session V p (- 3) l else do {
            let new = sv_des_key E (sl_pops l);
            let pDes = sv_des_encrypt E key new;
            let l = ses_upd p (\<lambda>s. s\<lparr>se_DesBlock := new, se_DesSchedule := Some new\<rparr>) l;
            let pConnection = se_pConnection (sl_Session l p);
            (r, l) \<leftarrow> vt_LoggedInNtf V p l;
            if r \<noteq> 0 then drop_session V p (- 3) l
            else if pConnection = NULL then None
            else Some (1, net_do (AsyncSend pConnection pDes) l)
          }
        }
      })"

definition HandleLoginPacket :: "('pk, 'e) senv_scheme \<Rightarrow> ('a Session_scheme, 'l) sloop_scheme vtable \<Rightarrow> ptr \<Rightarrow> ('a Session_scheme, 'l) sloop_scheme \<Rightarrow>
    (int \<times> ('a Session_scheme, 'l) sloop_scheme) option" where
  "HandleLoginPacket E V p l =
     (case sv_decrypt E (take (unat (sv_keyLen E)) (se_RecvBuf (sl_Session l p))) of
        None \<Rightarrow> drop_session V p (- 1) l
      | Some bs \<Rightarrow> do {
          tok \<leftarrow> mem_write (se_TokenPacket (sl_Session l p)) (unat (se_iLoginBufLen (sl_Session l p))) bs;
          let l = ses_upd p (\<lambda>s. s\<lparr>se_TokenPacket := tok, se_iLoginBufLen := se_iLoginBufLen s + of_nat (length bs)\<rparr>) l;
          let iLoginBufLen = se_iLoginBufLen (sl_Session l p);
          if unat iLoginBufLen < 10 then Some (0, l) else do {
            let iTokenLen = get16 tok 8;
            let iTotalLen = 10 + iTokenLen;
            if iLoginBufLen > iTotalLen \<or> unat iTokenLen > MAX_TOKEN_LEN then drop_session V p (- 1) l
            else if iTotalLen = iLoginBufLen then accept_token E V p l
            else Some (0, l)
          }
        })"

text \<open>What the servers use to take a token apart.\<close>

text \<open>\<open>strtok_s\<close> with the separator \<open>;\<close> from position \<open>k\<close>: the token or NULL, where to go on, and the buffer with
  the separator behind the token overwritten.  A string that is not terminated inside the buffer is read behind it.\<close>

definition strtok_s :: "byte list \<Rightarrow> nat \<Rightarrow> (byte list option \<times> nat \<times> byte list) option" where
  "strtok_s buf k =
     (let k1 = k + length (takeWhile (\<lambda>c. c = 59) (drop k buf)); tok = takeWhile (\<lambda>c. c \<noteq> 59 \<and> c \<noteq> 0) (drop k1 buf); e = k1 + length tok in
      if e \<ge> length buf then None
      else if tok = [] then Some (None, k1, buf)
      else if buf ! e = 59 then Some (Some tok, Suc e, buf[e := 0])
      else Some (Some tok, e, buf))"

text \<open>\<open>strcpy_s\<close> into an array of \<open>n\<close> bytes aborts when the string does not fit.\<close>

definition strcpy_s :: "nat \<Rightarrow> byte list \<Rightarrow> byte list option" where
  "strcpy_s n s = (if length s < n then Some s else None)"

definition put_token :: "ptr \<Rightarrow> byte list \<Rightarrow> ('a Session_scheme, 'l) sloop_scheme \<Rightarrow> ('a Session_scheme, 'l) sloop_scheme" where
  "put_token p buf l = ses_upd p (\<lambda>s. s\<lparr>se_TokenPacket := take 10 (se_TokenPacket s) @ buf\<rparr>) l"

section \<open>Received data\<close>

text \<open>\<open>memmove\<close> what is behind the first \<open>n\<close> bytes of the buffer to its start.\<close>

definition cut_front :: "u16 \<Rightarrow> 'a Session_scheme \<Rightarrow> 'a Session_scheme option" where
  "cut_front n s = do {
     buf \<leftarrow> (if se_iRecvBufLen s > n then memmove (se_RecvBuf s) 0 (unat n) (unat (se_iRecvBufLen s - n)) else Some (se_RecvBuf s));
     Some (s\<lparr>se_RecvBuf := buf, se_iRecvBufLen := se_iRecvBufLen s - n\<rparr>)
   }"

text \<open>The two inner loops with fuel; the flags say whether the loop has ended and whether \<open>OnData\<close> goes on.\<close>

primrec login_loop :: "nat \<Rightarrow> ('pk, 'e) senv_scheme \<Rightarrow> ('a Session_scheme, 'l) sloop_scheme vtable \<Rightarrow> ptr \<Rightarrow> ('a Session_scheme, 'l) sloop_scheme \<Rightarrow>
    (bool \<times> bool \<times> ('a Session_scheme, 'l) sloop_scheme) option" where
  "login_loop 0 E V p l = Some (False, False, l)"
| "login_loop (Suc n) E V p l =
     (if se_iRecvBufLen (sl_Session l p) \<ge> sv_keyLen E then do {
        (r, l) \<leftarrow> HandleLoginPacket E V p l;
        if r < 0 then Some (True, False, l) else do {
          s \<leftarrow> cut_front (sv_keyLen E) (sl_Session l p);
          login_loop n E V p (ses_upd p (\<lambda>_. s) l)
        }
      } else Some (True, True, l))"

primrec packet_loop :: "nat \<Rightarrow> ('a Session_scheme, 'l) sloop_scheme vtable \<Rightarrow> ptr \<Rightarrow> ('a Session_scheme, 'l) sloop_scheme \<Rightarrow>
    (bool \<times> ('a Session_scheme, 'l) sloop_scheme) option" where
  "packet_loop 0 V p l = Some (False, l)"
| "packet_loop (Suc n) V p l =
     (let s = sl_Session l p; iLen = get16 (se_RecvBuf s) 2; iFullLength = iLen + of_nat SERVER_PACKET_HEAD in
      if unat (se_iRecvBufLen s) \<ge> SERVER_PACKET_HEAD \<and> se_iRecvBufLen s \<ge> iFullLength then do {
        l \<leftarrow> vt_HandlePacket V (get16 (se_RecvBuf s) 0) iLen (take (unat iLen) (drop SERVER_PACKET_HEAD (se_RecvBuf s))) p l;
        s \<leftarrow> cut_front iFullLength (sl_Session l p);
        packet_loop n V p (ses_upd p (\<lambda>_. s) l)
      } else Some (True, l))"

text \<open>\<open>OnData\<close>: the result says whether the loops have ended.\<close>

primrec SBSession_OnData_loop :: "nat \<Rightarrow> ('pk, 'e) senv_scheme \<Rightarrow> ('a Session_scheme, 'l) sloop_scheme vtable \<Rightarrow> byte list \<Rightarrow> ptr \<Rightarrow>
    ('a Session_scheme, 'l) sloop_scheme \<Rightarrow> (bool \<times> ('a Session_scheme, 'l) sloop_scheme) option" where
  "SBSession_OnData_loop 0 E V data p l = Some (False, l)"
| "SBSession_OnData_loop (Suc n) E V data p l = do {
     let s = sl_Session l p;
     let iCopyLen = (if unat (se_iRecvBufLen s) + length data \<le> SB_INPUT_BUFFER then length data
       else unat (se_iRecvBufLen s) + length data - SB_INPUT_BUFFER);
     buf \<leftarrow> mem_write (se_RecvBuf s) (unat (se_iRecvBufLen s)) (take iCopyLen data);
     let l = ses_upd p (\<lambda>s. s\<lparr>se_RecvBuf := buf, se_iRecvBufLen := se_iRecvBufLen s + of_nat iCopyLen\<rparr>) l;
     if ses_state p l = SESSION_STATE_ONCONNECTION then do {
       (done, on, l) \<leftarrow> login_loop n E V p l;
       if \<not> done then Some (False, l) else if \<not> on then Some (True, l)
       else if drop iCopyLen data \<noteq> [] then SBSession_OnData_loop n E V (drop iCopyLen data) p l else Some (True, l)
     } else do {
       (done, l) \<leftarrow> packet_loop n V p l;
       if \<not> done then Some (False, l)
       else if drop iCopyLen data \<noteq> [] then SBSession_OnData_loop n E V (drop iCopyLen data) p l else Some (True, l)
     }
   }"

definition SBSession_OnData :: "nat \<Rightarrow> ('pk, 'e) senv_scheme \<Rightarrow> ('a Session_scheme, 'l) sloop_scheme vtable \<Rightarrow> byte list \<Rightarrow> ptr \<Rightarrow>
    ('a Session_scheme, 'l) sloop_scheme \<Rightarrow> (bool \<times> ('a Session_scheme, 'l) sloop_scheme) option" where
  "SBSession_OnData fuel E V data p l = do {
     (r, l) \<leftarrow> ses_fsm p SESSION_EVENT_ONDATA False l;
     if r \<noteq> ses_state p l then Some (True, l) else SBSession_OnData_loop fuel E V data p l
   }"

section \<open>The loop of a session server\<close>

datatype session_command =
    SC_ONCONNECT ptr | SC_ONDISCONNECT ptr | SC_ONDATA ptr "byte list" | SC_SENDDATA u32 u16 "byte list"
  | SC_BROADCASTDATA "u32 list" u16 "byte list" | SC_SHUTDOWN | SC_DISCONNECT u32 u8 | SC_PACKETFORWARD u32 u16 "byte list"

definition sloop_new :: "'s \<Rightarrow> u16 \<Rightarrow> 's sloop" where
  "sloop_new s0 iSessionMax = \<lparr>sl_Session = (\<lambda>_. s0), sl_mSessionMap = Map.empty, sl_arraySession = [], sl_iSessionMax = iSessionMax,
     sl_SessionPool = ObjectPool_new (ucast iSessionMax), sl_iShutdownStatus = NOT_SHUTDOWN, sl_dwCurrTime = 0, sl_client = Map.empty,
     sl_pops = 0, sl_calls = []\<rparr>"

text \<open>The loops of \<open>Init\<close>: all sessions are taken from the pool once, numbered, and put back.\<close>

primrec init_sessions :: "u8 \<Rightarrow> nat list \<Rightarrow> ('a Session_scheme, 'l) sloop_scheme \<Rightarrow> (bool \<times> ('a Session_scheme, 'l) sloop_scheme) option" where
  "init_sessions iServerId [] l = Some (True, l)"
| "init_sessions iServerId (i # is) l = do {
     (pSession, pool) \<leftarrow> ObjectPool_Allocate () (sl_SessionPool l);
     case pSession of None \<Rightarrow> Some (False, l)
     | Some p \<Rightarrow> init_sessions iServerId is
         (ses_upd p (\<lambda>s. s\<lparr>se_iSessionId := mk_id 0 (of_nat i) iServerId\<rparr>)
           (l\<lparr>sl_SessionPool := pool, sl_arraySession := sl_arraySession l @ [p]\<rparr>))
   }"

primrec free_sessions :: "ptr list \<Rightarrow> ObjectPool \<Rightarrow> ObjectPool option" where
  "free_sessions [] pl = Some pl"
| "free_sessions (p # ps) pl = do { pl \<leftarrow> ObjectPool_Free p pl; free_sessions ps pl }"

definition SessionServerLoop_Init :: "u8 \<Rightarrow> ('a Session_scheme, 'l) sloop_scheme \<Rightarrow> (int \<times> ('a Session_scheme, 'l) sloop_scheme) option" where
  "SessionServerLoop_Init iServerId l = do {
     (ok, l) \<leftarrow> init_sessions iServerId [0..<unat (sl_iSessionMax l)] l;
     if \<not> ok then Some (- 1, l) else do {
       pool \<leftarrow> free_sessions (sl_arraySession l) (sl_SessionPool l);
       Some (0, l\<lparr>sl_SessionPool := pool\<rparr>)
     }
   }"

definition ClearSession :: "ptr \<Rightarrow> ('a Session_scheme, 'l) sloop_scheme \<Rightarrow> ('a Session_scheme, 'l) sloop_scheme" where
  "ClearSession p l = l\<lparr>sl_mSessionMap := (sl_mSessionMap l)(se_iSessionId (sl_Session l p) := None)\<rparr>"

text \<open>\<open>GetSession\<close>: the inner value is NULL or the session; an index equal to the number of sessions gets past the
  check and reads behind the array.\<close>

definition SL_GetSession :: "u32 \<Rightarrow> ('a Session_scheme, 'l) sloop_scheme \<Rightarrow> ptr option option" where
  "SL_GetSession iSessionId l =
     (if id_index iSessionId > sl_iSessionMax l then Some None
      else if unat (id_index iSessionId) < length (sl_arraySession l) then
        (let p = sl_arraySession l ! unat (id_index iSessionId) in
         Some (if se_iSessionId (sl_Session l p) \<noteq> iSessionId then None else Some p))
      else None)"

definition SL_IsReadyForShutdown :: "('s, 'l) sloop_scheme \<Rightarrow> bool" where
  "SL_IsReadyForShutdown l \<longleftrightarrow> sl_iShutdownStatus l = READY_FOR_SHUTDOWN"

definition SL_IsStartShutdown :: "('s, 'l) sloop_scheme \<Rightarrow> bool" where
  "SL_IsStartShutdown l \<longleftrightarrow> sl_iShutdownStatus l = START_SHUTDOWN"

definition SL_OnCommandOnConnect :: "('a Session_scheme, 'l) sloop_scheme vtable \<Rightarrow> ptr \<Rightarrow> ('a Session_scheme, 'l) sloop_scheme \<Rightarrow>
    ('a Session_scheme, 'l) sloop_scheme option" where
  "SL_OnCommandOnConnect V connId l = do {
     (pSession, pool) \<leftarrow> ObjectPool_Allocate () (sl_SessionPool l);
     let l = l\<lparr>sl_SessionPool := pool\<rparr>;
     case pSession of
       Some p \<Rightarrow> do {
         let l = l\<lparr>sl_mSessionMap := hm_insert (se_iSessionId (sl_Session l p)) p (sl_mSessionMap l)\<rparr>;
         (iRet, l) \<leftarrow> vt_OnConnection V connId p l;
         Some l
       }
     | None \<Rightarrow> Some (net_do (AsyncDisconnect connId) l)
   }"

definition SL_OnCommandOnDisconnect :: "('a Session_scheme, 'l) sloop_scheme vtable \<Rightarrow> ptr \<Rightarrow> ('a Session_scheme, 'l) sloop_scheme \<Rightarrow>
    ('a Session_scheme, 'l) sloop_scheme option" where
  "SL_OnCommandOnDisconnect V connId l = (case sl_client l connId of
     None \<Rightarrow> Some l
   | Some p \<Rightarrow> do {
       let l = l\<lparr>sl_mSessionMap := (sl_mSessionMap l)(se_iSessionId (sl_Session l p) := None)\<rparr>;
       l \<leftarrow> vt_OnDisconnect V p l;
       pool \<leftarrow> ObjectPool_Free p (sl_SessionPool l);
       Some (l\<lparr>sl_SessionPool := pool\<rparr>)
     })"

definition SL_OnCommandDisconnect :: "('a Session_scheme, 'l) sloop_scheme vtable \<Rightarrow> u32 \<Rightarrow> ('a Session_scheme, 'l) sloop_scheme \<Rightarrow>
    ('a Session_scheme, 'l) sloop_scheme option" where
  "SL_OnCommandDisconnect V iSessionId l = do {
     pSession \<leftarrow> SL_GetSession iSessionId l;
     case pSession of None \<Rightarrow> Some l | Some p \<Rightarrow> vt_Disconnect V p l
   }"

text \<open>The fuel is that of \<open>OnData\<close>; running out of it is \<open>None\<close> here.\<close>

definition SL_OnCommandOnData :: "nat \<Rightarrow> ('pk, 'e) senv_scheme \<Rightarrow> ('a Session_scheme, 'l) sloop_scheme vtable \<Rightarrow> ptr \<Rightarrow> byte list \<Rightarrow>
    ('a Session_scheme, 'l) sloop_scheme \<Rightarrow> ('a Session_scheme, 'l) sloop_scheme option" where
  "SL_OnCommandOnData fuel E V connId data l = (case sl_client l connId of
     None \<Rightarrow> Some (net_do (AsyncDisconnect connId) l)
   | Some p \<Rightarrow> do {
       (done, l) \<leftarrow> SBSession_OnData fuel E V data p l;
       if done then Some l else None
     })"

definition SL_OnCommandSendData :: "('pk, 'e) senv_scheme \<Rightarrow> u32 \<Rightarrow> u16 \<Rightarrow> byte list \<Rightarrow> ('a Session_scheme, 'l) sloop_scheme \<Rightarrow>
    ('a Session_scheme, 'l) sloop_scheme option" where
  "SL_OnCommandSendData E iSessionId iTypeId data l = do {
     pSession \<leftarrow> SL_GetSession iSessionId l;
     case pSession of None \<Rightarrow> Some l
     | Some p \<Rightarrow> do { (iRet, l) \<leftarrow> SBSession_SendData E iTypeId data p l; Some l }
   }"

primrec SL_OnCommandBroadcastData :: "('pk, 'e) senv_scheme \<Rightarrow> u32 list \<Rightarrow> u16 \<Rightarrow> byte list \<Rightarrow> ('a Session_scheme, 'l) sloop_scheme \<Rightarrow>
    ('a Session_scheme, 'l) sloop_scheme option" where
  "SL_OnCommandBroadcastData E [] iTypeId data l = Some l"
| "SL_OnCommandBroadcastData E (sid # sids) iTypeId data l = do {
     l \<leftarrow> SL_OnCommandSendData E sid iTypeId data l;
     SL_OnCommandBroadcastData E sids iTypeId data l
   }"

text \<open>\<open>order\<close> is the order in which the hash map is traversed.\<close>

primrec disconnect_sessions :: "('a Session_scheme, 'l) sloop_scheme vtable \<Rightarrow> ptr list \<Rightarrow> ('a Session_scheme, 'l) sloop_scheme \<Rightarrow>
    ('a Session_scheme, 'l) sloop_scheme option" where
  "disconnect_sessions V [] l = Some l"
| "disconnect_sessions V (p # ps) l = do { l \<leftarrow> vt_Disconnect V p l; disconnect_sessions V ps l }"

definition SL_OnCommandShutdown :: "('a Session_scheme, 'l) sloop_scheme vtable \<Rightarrow> ((u32 \<rightharpoonup> ptr) \<Rightarrow> ptr list) \<Rightarrow>
    ('a Session_scheme, 'l) sloop_scheme \<Rightarrow> ('a Session_scheme, 'l) sloop_scheme option" where
  "SL_OnCommandShutdown V order l = disconnect_sessions V (order (sl_mSessionMap l)) (l\<lparr>sl_iShutdownStatus := START_SHUTDOWN\<rparr>)"

text \<open>\<open>Sender::SendPacket\<close> of the session servers is \<open>SendData\<close> of the session.\<close>

definition SL_OnCommandPacketForward :: "('pk, 'e) senv_scheme \<Rightarrow> u32 \<Rightarrow> u16 \<Rightarrow> byte list \<Rightarrow> ('a Session_scheme, 'l) sloop_scheme \<Rightarrow>
    ('a Session_scheme, 'l) sloop_scheme option" where
  "SL_OnCommandPacketForward E iSessionId iTypeId data l = SL_OnCommandSendData E iSessionId iTypeId data l"

definition SL_OnCommand :: "nat \<Rightarrow> ('pk, 'e) senv_scheme \<Rightarrow> ('a Session_scheme, 'l) sloop_scheme vtable \<Rightarrow> ((u32 \<rightharpoonup> ptr) \<Rightarrow> ptr list) \<Rightarrow> session_command \<Rightarrow>
    ('a Session_scheme, 'l) sloop_scheme \<Rightarrow> ('a Session_scheme, 'l) sloop_scheme option" where
  "SL_OnCommand fuel E V order cmd l =
     (let up = (sl_iShutdownStatus l = NOT_SHUTDOWN) in case cmd of
        SC_ONCONNECT c \<Rightarrow> (if up then SL_OnCommandOnConnect V c l else Some l)
      | SC_ONDISCONNECT c \<Rightarrow> SL_OnCommandOnDisconnect V c l
      | SC_DISCONNECT sid r \<Rightarrow> SL_OnCommandDisconnect V sid l
      | SC_ONDATA c data \<Rightarrow> (if up then SL_OnCommandOnData fuel E V c data l else Some l)
      | SC_SENDDATA sid t data \<Rightarrow> (if up then SL_OnCommandSendData E sid t data l else Some l)
      | SC_BROADCASTDATA sids t data \<Rightarrow> (if up then SL_OnCommandBroadcastData E sids t data l else Some l)
      | SC_SHUTDOWN \<Rightarrow> SL_OnCommandShutdown V order l
      | SC_PACKETFORWARD sid t data \<Rightarrow> (if up then SL_OnCommandPacketForward E sid t data l else Some l))"

definition SL_ReadyForShutdown :: "('s, 'l) sloop_scheme \<Rightarrow> ('s, 'l) sloop_scheme" where
  "SL_ReadyForShutdown l = (if sl_iShutdownStatus l = START_SHUTDOWN then l\<lparr>sl_iShutdownStatus := READY_FOR_SHUTDOWN\<rparr> else l)"

section \<open>The callbacks of the network layer\<close>

text \<open>\<open>session_server.cpp\<close>: the callbacks turn what happens on a connection into commands of the logic loop.
  \<open>CopyData\<close> fails when there is no memory.  \<open>wrap\<close> makes a command of the server out of one of the base.\<close>

record 'c SessionServer =
  sr_bReadyForShutdown :: bool
  sr_pMainLoop :: "'c LogicLoop option"

definition SessionServer_OnConnection :: "(session_command \<Rightarrow> 'c) \<Rightarrow> ptr \<Rightarrow> 'c SessionServer \<Rightarrow> bool \<times> 'c SessionServer" where
  "SessionServer_OnConnection wrap connId S =
     (if sr_bReadyForShutdown S then (False, S) else case sr_pMainLoop S of None \<Rightarrow> (False, S)
      | Some L \<Rightarrow> (True, S\<lparr>sr_pMainLoop := Some (LogicLoop_PushCommand (wrap (SC_ONCONNECT connId)) L)\<rparr>))"

definition SessionServer_OnDisconnect :: "(session_command \<Rightarrow> 'c) \<Rightarrow> ptr \<Rightarrow> 'c SessionServer \<Rightarrow> 'c SessionServer" where
  "SessionServer_OnDisconnect wrap connId S =
     (if sr_bReadyForShutdown S then S else case sr_pMainLoop S of None \<Rightarrow> S
      | Some L \<Rightarrow> S\<lparr>sr_pMainLoop := Some (LogicLoop_PushCommand (wrap (SC_ONDISCONNECT connId)) L)\<rparr>)"

definition SessionServer_OnData :: "(session_command \<Rightarrow> 'c) \<Rightarrow> bool \<Rightarrow> ptr \<Rightarrow> byte list \<Rightarrow> 'c SessionServer \<Rightarrow> 'c SessionServer" where
  "SessionServer_OnData wrap memory connId data S =
     (if sr_bReadyForShutdown S then S else case sr_pMainLoop S of None \<Rightarrow> S
      | Some L \<Rightarrow> (if \<not> memory then S else S\<lparr>sr_pMainLoop := Some (LogicLoop_PushCommand (wrap (SC_ONDATA connId data)) L)\<rparr>))"

end
