(* ===== verification/SessionTable.thy ===== *)
theory SessionTable
  imports SessionBase
begin

text \<open>
  What the servers share about their sessions: the parts of session ids, the state machine of a session as a function on states, and
  the table of sessions with its pool.  \<open>machine_ok f s\<close>: the machine of \<open>s\<close> is the transition function \<open>f\<close>; \<open>table_ok\<close>: the array has every
  session at the index in its id; \<open>pool_ok\<close>: the pool and the sessions it has handed out, \<open>ses_out\<close>, are those of the array.
\<close>

section \<open>Session ids\<close>

lemma mk_id_parts [simp]:
  "id_sequence (mk_id s i v) = s" "id_index (mk_id s i v) = i" "id_server (mk_id s i v) = v"
  by (simp_all add: mk_id_def id_sequence_def id_index_def id_server_def bit_eq_iff bit_simps)

lemma next_sequence_parts [simp]:
  "id_sequence (next_sequence i) = id_sequence i + 1" "id_index (next_sequence i) = id_index i" "id_server (next_sequence i) = id_server i"
  by (simp_all add: next_sequence_def)

lemma id_eqI:
  assumes "id_sequence i = id_sequence j" "id_index i = id_index j" "id_server i = id_server j"
  shows "i = j"
proof (rule bit_word_eqI)
  fix n assume n: "n < LENGTH(32)"
  consider "n < 8" | "8 \<le> n" "n < 24" | "24 \<le> n" by linarith
  then show "bit i n = bit j n"
  proof cases
    case 1
    then show ?thesis using arg_cong [OF assms(1), of "\<lambda>w. bit w n"] by (simp add: id_sequence_def bit_simps)
  next
    case 2
    then have "n - 8 < 16" by linarith
    with 2 show ?thesis using arg_cong [OF assms(2), of "\<lambda>w. bit w (n - 8)"] by (simp add: id_index_def bit_simps)
  next
    case 3
    then have "n - 24 < 8" using n by simp
    with 3 show ?thesis using arg_cong [OF assms(3), of "\<lambda>w. bit w (n - 24)"] by (simp add: id_server_def bit_simps)
  qed
qed

section \<open>The state machine of a session\<close>

definition machine_ok :: "(int \<Rightarrow> int \<Rightarrow> int option) \<Rightarrow> 'a Session_scheme \<Rightarrow> bool" where
  "machine_ok f s \<longleftrightarrow> fsm_inv (se_StateMachine s) \<and> fsm_fun (se_StateMachine s) = (\<lambda>(s, e). f s e) \<and> length (se_RecvBuf s) = SB_INPUT_BUFFER"

abbreviation sess_state :: "'a Session_scheme \<Rightarrow> int" where
  "sess_state s \<equiv> sm_iCurrState (se_StateMachine s)"

definition table_fun :: "(int \<times> (int \<times> int) list) list \<Rightarrow> int \<Rightarrow> int \<Rightarrow> int option" where
  "table_fun t s e = rows_fun (rows_of (session_table @ t)) (s, e)"

lemma session_rows_ok: "\<forall>(s, e, out) \<in> set (rows_of session_table). event_ok e"
  by (simp add: rows_of_def session_table_def event_ok_def)

text \<open>The machine of a server: the table of the base class, then its own.\<close>

lemma two_tables_ok:
  assumes "\<forall>(s, e, out) \<in> set (rows_of t). event_ok e"
  shows "\<exists>m. do { m \<leftarrow> Session_InitStateMachine (StateMachine_new s); init_states t m } = Some m \<and> fsm_inv m \<and> sm_iCurrState m = s \<and>
    fsm_fun m = (\<lambda>(s, e). table_fun t s e)"
proof -
  obtain m1 where 1: "init_states session_table (StateMachine_new s) = Some m1" "fsm_inv m1" "sm_iCurrState m1 = s"
      "fsm_fun m1 = (\<lambda>k. rows_fun (rows_of session_table) k)"
    using init_states_ok [OF new_inv(1) session_rows_ok, of s] by (auto simp: new_inv(2)) (auto simp: StateMachine_new_def)
  obtain m2 where 2: "init_states t m1 = Some m2" "fsm_inv m2" "sm_iCurrState m2 = s"
      "fsm_fun m2 = (\<lambda>k. case fsm_fun m1 k of Some v \<Rightarrow> Some v | None \<Rightarrow> rows_fun (rows_of t) k)"
    using init_states_ok [OF 1(2) assms] 1(3) by auto
  then show ?thesis using 1
    by (auto simp: Session_InitStateMachine_def table_fun_def rows_of_append rows_fun_append fun_eq_iff split: option.splits)
qed

text \<open>A transition of a session, computed from the table.\<close>

lemma ses_fsm_eq:
  assumes "machine_ok f (sl_Session l p)" "event_ok e"
  shows "ses_fsm p e b l = Some (case f (sess_state (sl_Session l p)) e of
     None \<Rightarrow> (- 1, l)
   | Some s \<Rightarrow> (s, if b then ses_upd p (\<lambda>x. x\<lparr>se_StateMachine := (se_StateMachine x)\<lparr>sm_iCurrState := s\<rparr>\<rparr>) l else l))"
  using assms StateTransition_ok [of "se_StateMachine (sl_Session l p)" e b]
  by (auto simp: ses_fsm_def machine_ok_def ses_upd_def split: option.splits)

section \<open>The table of sessions\<close>

abbreviation ses_out :: "('s, 'l) sloop_scheme \<Rightarrow> ptr set" where
  "ses_out l \<equiv> set (ob_out (sl_SessionPool l))"

definition table_ok :: "u8 \<Rightarrow> ('a Session_scheme, 'l) sloop_scheme \<Rightarrow> bool" where
  "table_ok v l \<longleftrightarrow> length (sl_arraySession l) = unat (sl_iSessionMax l) \<and> distinct (sl_arraySession l) \<and>
     (\<forall>i < length (sl_arraySession l). id_index (se_iSessionId (sl_Session l (sl_arraySession l ! i))) = of_nat i \<and>
        id_server (se_iSessionId (sl_Session l (sl_arraySession l ! i))) = v)"

definition pool_ok :: "('s, 'l) sloop_scheme \<Rightarrow> bool" where
  "pool_ok l \<longleftrightarrow> op_inv (sl_SessionPool l) \<and> ob_iMaxSize (sl_SessionPool l) = ucast (sl_iSessionMax l) \<and>
     set (ob_ObjectList (sl_SessionPool l)) \<union> ses_out l = set (sl_arraySession l)"

lemma GetSession_found:
  assumes "table_ok v l" "id_index sid \<noteq> sl_iSessionMax l"
  shows "\<exists>r. SL_GetSession sid l = Some r \<and> (case r of
     None \<Rightarrow> True | Some p \<Rightarrow> p \<in> set (sl_arraySession l) \<and> se_iSessionId (sl_Session l p) = sid)"
proof (cases "id_index sid > sl_iSessionMax l")
  case False
  then have "id_index sid < sl_iSessionMax l" using assms(2) by auto
  then have i: "unat (id_index sid) < length (sl_arraySession l)" using assms(1) by (simp add: table_ok_def word_less_nat_alt)
  then show ?thesis using False by (auto simp: SL_GetSession_def Let_def)
qed (simp add: SL_GetSession_def)

lemma GetSession_self:
  assumes "table_ok v l" "p \<in> set (sl_arraySession l)"
  shows "SL_GetSession (se_iSessionId (sl_Session l p)) l = Some (Some p)"
proof -
  obtain i where i: "i < length (sl_arraySession l)" "sl_arraySession l ! i = p" using assms(2) by (auto simp: in_set_conv_nth)
  have len: "length (sl_arraySession l) = unat (sl_iSessionMax l)" and ix: "id_index (se_iSessionId (sl_Session l p)) = of_nat i"
    using assms(1) i by (auto simp: table_ok_def)
  have "i < 65536" using i(1) len unat_less_u16 [of "sl_iSessionMax l"] by linarith
  then have "unat (of_nat i :: u16) = i" by (simp add: unat_of_nat)
  then show ?thesis using i len ix by (simp add: SL_GetSession_def word_less_nat_alt)
qed

lemma pool_out: "pool_ok l \<Longrightarrow> p \<in> ses_out l \<Longrightarrow> p \<in> set (sl_arraySession l)"
  by (auto simp: pool_ok_def)

lemma fresh_session:
  assumes "table_ok v l" "pool_ok l" "ObjectPool_Allocate () (sl_SessionPool l) = Some (Some p, pl)"
  shows "p \<notin> ses_out l" "p \<in> set (sl_arraySession l)" "ob_out pl = p # ob_out (sl_SessionPool l)" "op_inv pl"
    "ob_iMaxSize pl = ob_iMaxSize (sl_SessionPool l)" "set (ob_ObjectList pl) \<union> set (ob_out pl) = set (sl_arraySession l)"
proof -
  let ?pl = "sl_SessionPool l"
  have oi: "op_inv ?pl" and mx: "ob_iMaxSize ?pl = ucast (sl_iSessionMax l)" and un: "set (ob_ObjectList ?pl) \<union> ses_out l = set (sl_arraySession l)"
      and len: "length (sl_arraySession l) = unat (sl_iSessionMax l)" "distinct (sl_arraySession l)"
    using assms(1,2) by (simp_all add: table_ok_def pool_ok_def)
  note A = ObjectPool_Allocate_ok [OF oi assms(3)]
  show "p \<notin> ses_out l" "ob_out pl = p # ob_out ?pl" "op_inv pl" "ob_iMaxSize pl = ob_iMaxSize ?pl" using A by simp_all
  have "ob_ObjectList ?pl \<noteq> []"
  proof
    assume e: "ob_ObjectList ?pl = []"
    then have "length (ob_out ?pl) = unat (sl_iSessionMax l)"
      using un len oi by (simp add: op_inv_def) (metis distinct_card)
    then have "ob_iUsedSize ?pl = ob_iMaxSize ?pl" using oi mx by (simp add: op_inv_def unsigned_ucast_eq word_unat_eq_iff take_bit_nat_eq_self)
    then show False using assms(3) by (simp add: ObjectPool_Allocate_def)
  qed
  then obtain xs where "ob_ObjectList ?pl = p # xs" "ob_ObjectList pl = xs"
    using assms(3) by (cases "ob_ObjectList ?pl") (auto simp: ObjectPool_Allocate_def split: if_splits)
  then show "p \<in> set (sl_arraySession l)" "set (ob_ObjectList pl) \<union> set (ob_out pl) = set (sl_arraySession l)"
    using un \<open>ob_out pl = p # ob_out ?pl\<close> by auto
qed

lemma pool_give_back:
  assumes "pool_ok l" "p \<in> ses_out l" "sl_SessionPool l' = sl_SessionPool l" "sl_arraySession l' = sl_arraySession l" "sl_iSessionMax l' = sl_iSessionMax l"
  shows "\<exists>pl. ObjectPool_Free p (sl_SessionPool l') = Some pl \<and> pool_ok (l'\<lparr>sl_SessionPool := pl\<rparr>) \<and> set (ob_out pl) = ses_out l - {p}"
proof -
  have oi: "op_inv (sl_SessionPool l)" using assms(1) by (simp add: pool_ok_def)
  obtain pl where pl: "ObjectPool_Free p (sl_SessionPool l) = Some pl" "op_inv pl" "ob_out pl = remove1 p (ob_out (sl_SessionPool l))"
    using ObjectPool_Free_ok [OF oi assms(2)] by blast
  have d: "set (ob_out pl) = ses_out l - {p}" using oi pl(3) by (simp add: op_inv_def)
  have "ob_ObjectList pl = ob_ObjectList (sl_SessionPool l) @ [p]" "ob_iMaxSize pl = ob_iMaxSize (sl_SessionPool l)"
    using pl(1) by (auto simp: ObjectPool_Free_def)
  then show ?thesis using assms pl d unfolding pool_ok_def by auto
qed

section \<open>Starting up\<close>

definition starting :: "u8 \<Rightarrow> ('a Session_scheme, 'l) sloop_scheme \<Rightarrow> nat \<Rightarrow> ('a Session_scheme, 'l) sloop_scheme \<Rightarrow> bool" where
  "starting v l0 k l \<longleftrightarrow> l = l0\<lparr>sl_arraySession := [0..<k], sl_SessionPool := (sl_SessionPool l0)\<lparr>ob_iUsedSize := of_nat k, ob_next := k, ob_out := rev [0..<k]\<rparr>,
     sl_Session := (\<lambda>p. if p < k then (sl_Session l0 p)\<lparr>se_iSessionId := mk_id 0 (of_nat p) v\<rparr> else sl_Session l0 p)\<rparr>"

lemma init_sessions_ok:
  assumes "ob_ObjectList (sl_SessionPool l0) = []" "ob_iMaxSize (sl_SessionPool l0) = sl_iSessionMax l0"
  shows "k + n = unat (sl_iSessionMax l0) \<Longrightarrow> starting v l0 k l \<Longrightarrow>
    \<exists>l'. init_sessions v [k..<k + n] l = Some (True, l') \<and> starting v l0 (k + n) l'"
proof (induction n arbitrary: k l)
  case (Suc n)
  have lt: "(of_nat k :: u16) < sl_iSessionMax l0"
    using Suc.prems(1) unsigned_less [of "sl_iSessionMax l0"] by (simp add: word_less_nat_alt unat_of_nat take_bit_nat_eq_self)
  let ?l = "ses_upd k (\<lambda>s. s\<lparr>se_iSessionId := mk_id 0 (of_nat k) v\<rparr>)
     (l\<lparr>sl_SessionPool := (sl_SessionPool l)\<lparr>ob_next := Suc k, ob_iUsedSize := of_nat (Suc k), ob_out := k # ob_out (sl_SessionPool l)\<rparr>,
        sl_arraySession := sl_arraySession l @ [k]\<rparr>)"
  have a: "ObjectPool_Allocate () (sl_SessionPool l) = Some (Some k, (sl_SessionPool l)\<lparr>ob_next := Suc k, ob_iUsedSize := of_nat (Suc k),
      ob_out := k # ob_out (sl_SessionPool l)\<rparr>)"
    using Suc.prems(2) assms lt by (simp add: starting_def ObjectPool_Allocate_def add.commute)
  have st: "starting v l0 (Suc k) ?l"
    using Suc.prems(2) by (auto simp: starting_def ses_upd_def fun_eq_iff less_Suc_eq)
  obtain l' where l': "init_sessions v [Suc k..<Suc k + n] ?l = Some (True, l')" "starting v l0 (Suc k + n) l'"
    using Suc.IH [of "Suc k" ?l, OF _ st] Suc.prems(1) by auto
  have u: "[k..<k + Suc n] = k # [Suc k..<Suc k + n]" by (simp add: upt_rec)
  show ?case unfolding u init_sessions.simps a using l' by simp
qed simp

lemma free_sessions_ok: "op_inv pl \<Longrightarrow> distinct ps \<Longrightarrow> set ps \<subseteq> set (ob_out pl) \<Longrightarrow>
   \<exists>pl'. free_sessions ps pl = Some pl' \<and> op_inv pl' \<and> set (ob_out pl') = set (ob_out pl) - set ps \<and> ob_iMaxSize pl' = ob_iMaxSize pl \<and>
     ob_ObjectList pl' = ob_ObjectList pl @ ps"
proof (induction ps arbitrary: pl)
  case (Cons p ps)
  obtain pl1 where p1: "ObjectPool_Free p pl = Some pl1" "op_inv pl1" "ob_out pl1 = remove1 p (ob_out pl)"
    using ObjectPool_Free_ok [OF Cons.prems(1)] Cons.prems(3) by auto
  have "set (ob_out pl1) = set (ob_out pl) - {p}" "ob_iMaxSize pl1 = ob_iMaxSize pl" "ob_ObjectList pl1 = ob_ObjectList pl @ [p]"
    using p1 Cons.prems(1) by (auto simp: op_inv_def ObjectPool_Free_def)
  moreover from this have "set ps \<subseteq> set (ob_out pl1)" using Cons.prems(2,3) by auto
  ultimately show ?case using Cons.IH [OF p1(2)] Cons.prems(2) by (auto simp: p1(1))
qed simp

lemma SessionServerLoop_Init_ok:
  assumes "sl_SessionPool l0 = ObjectPool_new (ucast (sl_iSessionMax l0))" "sl_arraySession l0 = []"
  defines "n \<equiv> unat (sl_iSessionMax l0)"
  shows "\<exists>pl. let l = l0\<lparr>sl_arraySession := [0..<n], sl_SessionPool := pl,
      sl_Session := (\<lambda>p. if p < n then (sl_Session l0 p)\<lparr>se_iSessionId := mk_id 0 (of_nat p) v\<rparr> else sl_Session l0 p)\<rparr> in
    SessionServerLoop_Init v l0 = Some (0, l) \<and> table_ok v l \<and> pool_ok l \<and> ob_out pl = []"
proof -
  have f: "ob_ObjectList (sl_SessionPool l0) = []" "ob_iMaxSize (sl_SessionPool l0) = sl_iSessionMax l0" using assms(1) by (simp_all add: ObjectPool_new_def)
  have "starting v l0 0 l0" using assms(1,2) by (simp add: starting_def ObjectPool_new_def)
  then obtain l1 where l1: "init_sessions v [0..<n] l0 = Some (True, l1)" "starting v l0 n l1"
    using init_sessions_ok [OF f, of 0 n v l0] by (auto simp: n_def)
  have p: "op_inv (sl_SessionPool l1)" "set (ob_out (sl_SessionPool l1)) = {0..<n}" "ob_iMaxSize (sl_SessionPool l1) = sl_iSessionMax l0"
      "ob_ObjectList (sl_SessionPool l1) = []" "sl_arraySession l1 = [0..<n]"
    using l1(2) f unfolding starting_def by (simp_all add: op_inv_def n_def)
  obtain pl where pl: "free_sessions [0..<n] (sl_SessionPool l1) = Some pl" "op_inv pl" "ob_out pl = []" "ob_iMaxSize pl = sl_iSessionMax l0"
      "ob_ObjectList pl = [0..<n]"
    using free_sessions_ok [OF p(1), of "[0..<n]"] p by auto
  let ?l = "l1\<lparr>sl_SessionPool := pl\<rparr>"
  have eq: "?l = l0\<lparr>sl_arraySession := [0..<n], sl_SessionPool := pl,
      sl_Session := (\<lambda>p. if p < n then (sl_Session l0 p)\<lparr>se_iSessionId := mk_id 0 (of_nat p) v\<rparr> else sl_Session l0 p)\<rparr>"
    using l1(2) by (simp add: starting_def)
  have "SessionServerLoop_Init v l0 = Some (0, ?l)" using l1(1) p(5) pl(1) by (simp add: SessionServerLoop_Init_def n_def)
  moreover have "table_ok v ?l" "pool_ok ?l" unfolding eq using pl by (simp_all add: table_ok_def pool_ok_def n_def)
  ultimately show ?thesis using pl(3) unfolding eq by (auto simp: Let_def)
qed

end
