(* ===== verification/SessionFrame.thy ===== *)
theory SessionFrame
  imports SessionTable
begin

text \<open>
  What receiving data keeps.  The locale \<open>session_frame\<close> is the contract between the base class \<open>Session\<close> and the servers: a property
  \<open>I\<close> of the loop that the methods of the server keep, and that does not depend on the buffers of the session
  \<open>p\<close>, is kept by \<open>OnData\<close>.  \<open>may_login\<close> is what is known of a session that handles login packets.  All rules are of partial correctness (\<open>lp\<close>): if the computation is defined.
\<close>

text \<open>Sessions that differ in their buffers only.\<close>

definition data_eq :: "'a Session_scheme \<Rightarrow> 'a Session_scheme \<Rightarrow> bool" where
  "data_eq s s' \<longleftrightarrow> se_iSessionId s' = se_iSessionId s \<and> se_pConnection s' = se_pConnection s \<and> se_StateMachine s' = se_StateMachine s \<and>
     se_dwConnectionTime s' = se_dwConnectionTime s \<and> se_dwLoggedInTime s' = se_dwLoggedInTime s \<and> Session.more s' = Session.more s \<and>
     length (se_RecvBuf s') = length (se_RecvBuf s)"

lemma lp_bind_eq: "(\<And>x. X = Some x \<Longrightarrow> lp (f x) Q) \<Longrightarrow> lp (X \<bind> f) Q"
  by (auto simp: lp_def split: Option.bind_splits)

lemma lp_bind2: "lp X (\<lambda>(r, l). P l) \<Longrightarrow> (\<And>r l. P l \<Longrightarrow> lp (f r l) Q) \<Longrightarrow> lp (X \<bind> case_prod f) Q"
  by (auto simp: lp_def split: Option.bind_splits)

lemma lp_bind3: "lp X (\<lambda>(r, r', l). P l) \<Longrightarrow> (\<And>r r' l. P l \<Longrightarrow> lp (f r r' l) Q) \<Longrightarrow> lp (X \<bind> (\<lambda>(r, r', l). f r r' l)) Q"
  by (auto simp: lp_def split: Option.bind_splits)

lemma memmove_length: "memmove buf d k n = Some buf' \<Longrightarrow> length buf' = length buf"
  by (auto simp: memmove_def memcpy_def split: Option.bind_splits dest: mem_write_length)

lemma cut_front_data: "cut_front n s = Some s' \<Longrightarrow> data_eq s s'"
  by (auto simp: cut_front_def data_eq_def memmove_length split: Option.bind_splits if_splits)

text \<open>Asking the state machine without changing its state changes nothing.\<close>

lemma StateTransition_False: "StateTransition e False m = Some (r, m') \<Longrightarrow> m' = m"
  by (auto simp: StateTransition_def split: Option.bind_splits)

lemma ses_fsm_False: "ses_fsm p e False l = Some (r, l') \<Longrightarrow> l' = l"
  by (auto simp: ses_fsm_def ses_upd_def split: Option.bind_splits dest!: StateTransition_False)

locale session_frame =
  fixes V :: "('a Session_scheme, 'l) sloop_scheme vtable" and p :: ptr and I :: "('a Session_scheme, 'l) sloop_scheme \<Rightarrow> bool"
    and may_login :: bool
  assumes data: "I l \<Longrightarrow> data_eq (sl_Session l p) (f (sl_Session l p)) \<Longrightarrow> I (ses_upd p f l)"
    and pops: "I l \<Longrightarrow> I (l\<lparr>sl_pops := n\<rparr>)"
    and calls: "I l \<Longrightarrow> I (net_do c l)"
    and Disconnect: "I l \<Longrightarrow> lp (vt_Disconnect V p l) I"
    and login_state: "I l \<Longrightarrow> ses_state p l = SESSION_STATE_ONCONNECTION \<Longrightarrow> may_login"
    and CheckLoginToken: "may_login \<Longrightarrow> I l \<Longrightarrow> lp (vt_CheckLoginToken V p l) (\<lambda>(r, l). I l)"
    and LoggedInNtf: "may_login \<Longrightarrow> I l \<Longrightarrow> lp (vt_LoggedInNtf V p l) (\<lambda>(r, l). I l)"
    and HandlePacket: "I l \<Longrightarrow> lp (vt_HandlePacket V t iLen bs p l) I"
begin

lemma drop_session_ok: "I l \<Longrightarrow> lp (drop_session V p r l) (\<lambda>(r, l). I l)"
  unfolding drop_session_def by (rule lp_bind, rule lp_mono [OF Disconnect]) (auto intro: lp_Some)

lemma accept_token_ok:
  assumes "I l" and ml: may_login
  shows "lp (accept_token E V p l) (\<lambda>(r, l). I l)"
proof -
  have sch: "I (ses_upd p (\<lambda>s. s\<lparr>se_DesSchedule := a\<rparr>) l)" "I (ses_upd p (\<lambda>s. s\<lparr>se_DesBlock := b, se_DesSchedule := a\<rparr>) l)"
    if "I l" for a b l using that by (auto intro!: data simp: data_eq_def)
  show ?thesis
    unfolding accept_token_def Let_def SB_PopOutputBuffer_def prod.case
    by (intro lp_if drop_session_ok lp_bind2 [OF CheckLoginToken [OF ml]] lp_bind2 [OF LoggedInNtf [OF ml]] lp_None)
      (auto intro: sch assms lp_Some pops calls)
qed

lemma HandleLoginPacket_ok:
  assumes "I l" may_login
  shows "lp (HandleLoginPacket E V p l) (\<lambda>(r, l). I l)"
proof -
  have tok: "I (ses_upd p (\<lambda>s. s\<lparr>se_TokenPacket := t, se_iLoginBufLen := se_iLoginBufLen s + n\<rparr>) l)" for t n
    using assms by (auto intro!: data simp: data_eq_def)
  show ?thesis
    unfolding HandleLoginPacket_def Let_def
    by (cases "sv_decrypt E (take (unat (sv_keyLen E)) (se_RecvBuf (sl_Session l p)))")
      (auto intro!: drop_session_ok assms lp_rules accept_token_ok tok)
qed

lemma lp_cut: "I l \<Longrightarrow> (\<And>s. I (ses_upd p (\<lambda>_. s) l) \<Longrightarrow> lp (f s) Q) \<Longrightarrow> lp (cut_front n (sl_Session l p) \<bind> f) Q"
  by (rule lp_bind_eq) (use data [of l "\<lambda>_. s" for s] cut_front_data in \<open>auto dest: cut_front_data\<close>)

lemma login_loop_ok: "I l \<Longrightarrow> may_login \<Longrightarrow> lp (login_loop n E V p l) (\<lambda>(d, on, l). I l)"
proof (induction n arbitrary: l)
  case (Suc n)
  show ?case unfolding login_loop.simps
    by (intro lp_if lp_bind2 [OF HandleLoginPacket_ok [OF Suc.prems]] lp_cut Suc.IH) (auto intro: lp_Some Suc.prems(1) Suc.prems(2))
qed (simp add: lp_def)

lemma packet_loop_ok: "I l \<Longrightarrow> lp (packet_loop n V p l) (\<lambda>(d, l). I l)"
proof (induction n arbitrary: l)
  case (Suc n)
  show ?case unfolding packet_loop.simps Let_def
    by (intro lp_if lp_bind [OF lp_mono [OF HandlePacket [OF Suc.prems]]] lp_cut Suc.IH) (auto intro: lp_Some Suc.prems)
qed (simp add: lp_def)

lemma OnData_loop_ok: "I l \<Longrightarrow> lp (SBSession_OnData_loop n E V bs p l) (\<lambda>(d, l). I l)"
proof (induction n arbitrary: l bs)
  case (Suc n)
  have upd: "I (ses_upd p (\<lambda>s. s\<lparr>se_RecvBuf := b, se_iRecvBufLen := se_iRecvBufLen s + m\<rparr>) l)"
    if "mem_write (se_RecvBuf (sl_Session l p)) k xs = Some b" for b m k xs
    using Suc.prems mem_write_length [OF that] by (auto intro!: data simp: data_eq_def)
  show ?case unfolding SBSession_OnData_loop.simps Let_def
    by (rule lp_bind_eq, intro lp_if lp_bind3 [OF login_loop_ok] lp_bind2 [OF packet_loop_ok] Suc.IH upd) (auto intro: lp_Some upd login_state)
qed (simp add: lp_def)

lemma OnData_ok:
  assumes "I l"
  shows "lp (SBSession_OnData n E V bs p l) (\<lambda>(d, l). I l)"
  unfolding SBSession_OnData_def
  by (rule lp_bind_eq, clarsimp dest!: ses_fsm_False) (use OnData_loop_ok [OF assms] assms in \<open>auto simp: lp_Some\<close>)

end

end
