(* ===== verification/LoginServer.thy ===== *)
theory LoginServer
  imports SessionFrame
begin

text \<open>
  The login server (\<open>FTServer/Src/LoginServer\<close>): \<open>LoginSession\<close> (\<open>login_session.cpp\<close>, \<open>login_session_state.cpp\<close>) and
  \<open>LoginServerLoop\<close> (\<open>login_server_loop.cpp\<close>), built on the sessions and the loop of \<open>SessionBase\<close>, with the functions that receive
  messages (\<open>peer_impl.cpp\<close>, \<open>packet_impl.cpp\<close>).

  A client connects, sends its account and password encrypted, then its version; the login server asks the master server
  for a gate and forwards the answer.  \<open>lg_sent\<close> records the messages to the master server with the results of sending.
\<close>

abbreviation ACCOUNTNAME_MAX :: nat where "ACCOUNTNAME_MAX \<equiv> 32"
abbreviation PASSWORD_MAX :: nat where "PASSWORD_MAX \<equiv> 32"
abbreviation CLIENT_VERSION :: u32 where "CLIENT_VERSION \<equiv> 1"

abbreviation SESSION_STATE_ONLOGINREQ :: int where "SESSION_STATE_ONLOGINREQ \<equiv> 6"
abbreviation SESSION_STATE_ONLOGINFAILEDACK :: int where "SESSION_STATE_ONLOGINFAILEDACK \<equiv> 7"
abbreviation SESSION_STATE_ONGATEALLOCNTF :: int where "SESSION_STATE_ONGATEALLOCNTF \<equiv> 8"
abbreviation SESSION_STATE_ONVERSIONREQ :: int where "SESSION_STATE_ONVERSIONREQ \<equiv> 9"
abbreviation SESSION_EVENT_ONLOGINREQ :: int where "SESSION_EVENT_ONLOGINREQ \<equiv> 7"
abbreviation SESSION_EVENT_ONLOGINFAILEDACK :: int where "SESSION_EVENT_ONLOGINFAILEDACK \<equiv> 8"
abbreviation SESSION_EVENT_ONGATEALLOCNTF :: int where "SESSION_EVENT_ONGATEALLOCNTF \<equiv> 9"
abbreviation SESSION_EVENT_ONVERSIONREQ :: int where "SESSION_EVENT_ONVERSIONREQ \<equiv> 10"

definition login_table :: "(int \<times> (int \<times> int) list) list" where
  "login_table = [
     (SESSION_STATE_ONCONNECTION, [(SESSION_EVENT_LOGGEDIN, SESSION_STATE_LOGGEDIN)]),
     (SESSION_STATE_LOGGEDIN,
       [(SESSION_EVENT_DISCONNECT, SESSION_STATE_DISCONNECT),
        (SESSION_EVENT_ONDISCONNECT, SESSION_STATE_ONDISCONNECT),
        (SESSION_EVENT_ONDATA, SESSION_STATE_LOGGEDIN),
        (SESSION_EVENT_SEND, SESSION_STATE_LOGGEDIN),
        (SESSION_EVENT_ONVERSIONREQ, SESSION_STATE_ONVERSIONREQ)]),
     (SESSION_STATE_ONVERSIONREQ,
       [(SESSION_EVENT_DISCONNECT, SESSION_STATE_DISCONNECT),
        (SESSION_EVENT_ONDISCONNECT, SESSION_STATE_ONDISCONNECT),
        (SESSION_EVENT_ONLOGINREQ, SESSION_STATE_ONLOGINREQ),
        (SESSION_EVENT_SEND, SESSION_STATE_ONVERSIONREQ)]),
     (SESSION_STATE_ONLOGINREQ,
       [(SESSION_EVENT_DISCONNECT, SESSION_STATE_DISCONNECT),
        (SESSION_EVENT_ONDISCONNECT, SESSION_STATE_ONDISCONNECT),
        (SESSION_EVENT_ONDATA, SESSION_STATE_ONLOGINREQ),
        (SESSION_EVENT_SEND, SESSION_STATE_ONLOGINREQ),
        (SESSION_EVENT_ONLOGINFAILEDACK, SESSION_STATE_ONLOGINFAILEDACK),
        (SESSION_EVENT_ONGATEALLOCNTF, SESSION_STATE_ONGATEALLOCNTF)]),
     (SESSION_STATE_ONLOGINFAILEDACK,
       [(SESSION_EVENT_DISCONNECT, SESSION_STATE_DISCONNECT),
        (SESSION_EVENT_ONDISCONNECT, SESSION_STATE_ONDISCONNECT),
        (SESSION_EVENT_ONDATA, SESSION_STATE_ONLOGINFAILEDACK),
        (SESSION_EVENT_SEND, SESSION_STATE_ONLOGINFAILEDACK)]),
     (SESSION_STATE_ONGATEALLOCNTF,
       [(SESSION_EVENT_DISCONNECT, SESSION_STATE_DISCONNECT),
        (SESSION_EVENT_ONDISCONNECT, SESSION_STATE_ONDISCONNECT),
        (SESSION_EVENT_ONDATA, SESSION_STATE_ONGATEALLOCNTF),
        (SESSION_EVENT_SEND, SESSION_STATE_ONGATEALLOCNTF)])]"

definition LoginSession_InitStateMachine :: "StateMachine \<Rightarrow> StateMachine option" where
  "LoginSession_InitStateMachine m = do { m \<leftarrow> Session_InitStateMachine m; init_states login_table m }"

section \<open>Data\<close>

record LoginSession = Session +
  ls_strAccountName :: tstring

datatype login_msg = Msg_OnSessionDisconnect u32 | Msg_OnLoginReq u32 tstring | Msg_LoginReportState u8

datatype login_packet = VersionReq u32

datatype login_command = LC_SESSION session_command | LC_ONLOGINFAILEDACK u32 u8

record LoginServerLoop = "LoginSession sloop" +
  lg_Alarm :: Alarm
  lg_iServerId :: u8
  lg_bReadyForShutdown :: bool
  lg_sent :: "(login_msg \<times> i32) list"

type_synonym lenv = "login_packet senv"

definition send_master :: "lenv \<Rightarrow> login_msg \<Rightarrow> LoginServerLoop \<Rightarrow> i32 \<times> LoginServerLoop" where
  "send_master E msg l = (let r = sv_net E (length (lg_sent l)) in (r, l\<lparr>lg_sent := lg_sent l @ [(msg, r)]\<rparr>))"

section \<open>The session\<close>

definition LoginSession_Clear :: "LoginSession \<Rightarrow> LoginSession" where
  "LoginSession_Clear s = (Session_Clear s)\<lparr>ls_strAccountName := []\<rparr>"

definition LoginSession_new :: "LoginSession option" where
  "LoginSession_new = do {
     sm \<leftarrow> LoginSession_InitStateMachine (se_StateMachine Session_new);
     Some (Session.extend (Session_new\<lparr>se_StateMachine := sm\<rparr>) (LoginSession.fields []))
   }"

definition LoginSession_OnConnection :: "ptr \<Rightarrow> ptr \<Rightarrow> LoginServerLoop \<Rightarrow> (int \<times> LoginServerLoop) option" where
  "LoginSession_OnConnection connId p l = SBSession_OnConnection connId p l"

text \<open>The base class has cleared the session when its state is looked at.\<close>

definition LoginSession_OnDisconnect :: "lenv \<Rightarrow> ptr \<Rightarrow> LoginServerLoop \<Rightarrow> LoginServerLoop option" where
  "LoginSession_OnDisconnect E p l = do {
     l \<leftarrow> SBSession_OnDisconnect LoginSession_Clear p l;
     if ses_state p l = SESSION_STATE_ONLOGINREQ \<and> \<not> lg_bReadyForShutdown l
     then Some (snd (send_master E (Msg_OnSessionDisconnect (se_iSessionId (sl_Session l p))) l)) else Some l
   }"

definition LoginSession_Disconnect :: "lenv \<Rightarrow> ptr \<Rightarrow> LoginServerLoop \<Rightarrow> LoginServerLoop option" where
  "LoginSession_Disconnect E p l = SBSession_Disconnect (LoginSession_OnDisconnect E) p l"

text \<open>The generated send functions ignore the result of sending.\<close>

definition LoginServerSend_VersionAck :: "lenv \<Rightarrow> i32 \<Rightarrow> ptr \<Rightarrow> LoginServerLoop \<Rightarrow> (int \<times> LoginServerLoop) option" where
  "LoginServerSend_VersionAck E iReason p l = do { (r, l) \<leftarrow> SBSession_SendData E 0x0100 (le32 iReason) p l; Some (0, l) }"

definition LoginServerSend_LoginFailedAck :: "lenv \<Rightarrow> i32 \<Rightarrow> ptr \<Rightarrow> LoginServerLoop \<Rightarrow> (int \<times> LoginServerLoop) option" where
  "LoginServerSend_LoginFailedAck E iReason p l = do { (r, l) \<leftarrow> SBSession_SendData E 0x0101 (le32 iReason) p l; Some (0, l) }"

definition LoginSession_OnLoginFailedAck :: "lenv \<Rightarrow> u8 \<Rightarrow> ptr \<Rightarrow> LoginServerLoop \<Rightarrow> LoginServerLoop option" where
  "LoginSession_OnLoginFailedAck E iReturn p l = do {
     (r, l) \<leftarrow> ses_fsm p SESSION_EVENT_ONLOGINFAILEDACK True l;
     if r \<noteq> SESSION_STATE_ONLOGINFAILEDACK then LoginSession_Disconnect E p l else do {
       (iRet, l) \<leftarrow> LoginServerSend_LoginFailedAck E (scast iReturn) p l;
       LoginSession_Disconnect E p l
     }
   }"

definition LoginSession_OnVersionReq :: "lenv \<Rightarrow> u32 \<Rightarrow> ptr \<Rightarrow> LoginServerLoop \<Rightarrow> LoginServerLoop option" where
  "LoginSession_OnVersionReq E iVersion p l = do {
     (r, l) \<leftarrow> ses_fsm p SESSION_EVENT_ONVERSIONREQ True l;
     if r \<noteq> SESSION_STATE_ONVERSIONREQ then LoginSession_Disconnect E p l
     else if iVersion \<noteq> CLIENT_VERSION then do {
       (iRet, l) \<leftarrow> LoginServerSend_VersionAck E 1 p l;
       LoginSession_Disconnect E p l
     } else do {
       (iRet, l) \<leftarrow> LoginServerSend_VersionAck E 0 p l;
       if iRet \<noteq> 0 then LoginSession_Disconnect E p l else do {
         let (iRet, l) = send_master E (Msg_OnLoginReq (se_iSessionId (sl_Session l p)) (ls_strAccountName (sl_Session l p))) l;
         if iRet \<noteq> 0 then LoginSession_Disconnect E p l else do {
           (r, l) \<leftarrow> ses_fsm p SESSION_EVENT_ONLOGINREQ True l;
           Some l
         }
       }
     }
   }"

definition LoginSession_CheckLoginToken :: "lenv \<Rightarrow> ptr \<Rightarrow> LoginServerLoop \<Rightarrow> (int \<times> LoginServerLoop) option" where
  "LoginSession_CheckLoginToken E p l = do {
     (pToken, k, buf) \<leftarrow> strtok_s (drop 10 (se_TokenPacket (sl_Session l p))) 0;
     let l = put_token p buf l;
     case pToken of None \<Rightarrow> Some (- 1, l)
     | Some t \<Rightarrow> (if length t > ACCOUNTNAME_MAX * 3 + 1 then Some (- 1, l) else do {
         strAccountName \<leftarrow> strcpy_s (ACCOUNTNAME_MAX * 3 + 1) t;
         (pToken, k, buf) \<leftarrow> strtok_s buf k;
         let l = put_token p buf l;
         case pToken of None \<Rightarrow> Some (- 1, l)
         | Some t \<Rightarrow> (if length t > PASSWORD_MAX + 1 then Some (- 1, l) else do {
             strPassword \<leftarrow> strcpy_s (PASSWORD_MAX + 1) t;
             case Char2WChar (sv_wide E) strAccountName (ACCOUNTNAME_MAX + 1) of
               None \<Rightarrow> Some (- 1, l)
             | Some w \<Rightarrow> (let l = ses_upd p (\<lambda>s. s\<lparr>ls_strAccountName := w\<rparr>) l in
                 if w = [] then Some (- 1, l)
                 else Some (0, ses_upd p (\<lambda>s. s\<lparr>ls_strAccountName := LowerCase w\<rparr>) l))
           })
       })
   }"

definition LoginSession_LoggedInNtf :: "ptr \<Rightarrow> LoginServerLoop \<Rightarrow> (int \<times> LoginServerLoop) option" where
  "LoginSession_LoggedInNtf p l = SBSession_LoggedInNtf p l"

text \<open>\<open>Receiver::OnPacketReceived\<close> decodes the packet and calls its handler.\<close>

definition LoginSession_HandlePacket :: "lenv \<Rightarrow> u16 \<Rightarrow> u16 \<Rightarrow> byte list \<Rightarrow> ptr \<Rightarrow> LoginServerLoop \<Rightarrow> LoginServerLoop option" where
  "LoginSession_HandlePacket E iTypeId iLen data p l = (case sv_recv E iTypeId data of
     None \<Rightarrow> Some l | Some (VersionReq v) \<Rightarrow> LoginSession_OnVersionReq E v p l)"

definition LoginSession_vtable :: "lenv \<Rightarrow> LoginServerLoop vtable" where
  "LoginSession_vtable E = \<lparr>vt_OnConnection = LoginSession_OnConnection, vt_OnDisconnect = LoginSession_OnDisconnect E,
     vt_Disconnect = LoginSession_Disconnect E, vt_HandlePacket = LoginSession_HandlePacket E,
     vt_CheckLoginToken = LoginSession_CheckLoginToken E, vt_LoggedInNtf = LoginSession_LoggedInNtf\<rparr>"

section \<open>The loop\<close>

definition LoginServerLoop_new :: "u8 \<Rightarrow> u16 \<Rightarrow> LoginServerLoop option" where
  "LoginServerLoop_new iServerId iSessionMax = do {
     s \<leftarrow> LoginSession_new;
     Some (sloop.extend (sloop_new s iSessionMax) (LoginServerLoop.fields Alarm_new iServerId False []))
   }"

definition LoginServerLoop_Init :: "LoginServerLoop \<Rightarrow> (int \<times> LoginServerLoop) option" where
  "LoginServerLoop_Init l = SessionServerLoop_Init (lg_iServerId l) l"

definition LoginServerLoop_Start :: "u32 \<Rightarrow> u32 \<Rightarrow> u32 \<Rightarrow> LoginServerLoop \<Rightarrow> LoginServerLoop" where
  "LoginServerLoop_Start now iCheckSessionInterval iReportInterval l =
     l\<lparr>sl_dwCurrTime := now, lg_Alarm := Alarm_RegisterEvent ''ReportState'' now iReportInterval
        (Alarm_RegisterEvent ''CheckSession'' now iCheckSessionInterval (Alarm_Start now (lg_Alarm l)))\<rparr>"

definition LoginServerLoop_Loop :: "LoginServerLoop \<Rightarrow> LoginServerLoop" where
  "LoginServerLoop_Loop l = (if sl_iShutdownStatus l = START_SHUTDOWN then SL_ReadyForShutdown l else l)"

definition Login_OnCommandOnLoginFailedAck :: "lenv \<Rightarrow> u32 \<Rightarrow> u8 \<Rightarrow> LoginServerLoop \<Rightarrow> LoginServerLoop option" where
  "Login_OnCommandOnLoginFailedAck E iSessionId iReason l = do {
     pSession \<leftarrow> SL_GetSession iSessionId l;
     case pSession of None \<Rightarrow> Some l | Some p \<Rightarrow> LoginSession_OnLoginFailedAck E iReason p l
   }"

definition Login_OnCommand :: "nat \<Rightarrow> lenv \<Rightarrow> ((u32 \<rightharpoonup> ptr) \<Rightarrow> ptr list) \<Rightarrow> login_command \<Rightarrow> LoginServerLoop \<Rightarrow> LoginServerLoop option" where
  "Login_OnCommand fuel E order cmd l = (case cmd of
     LC_ONLOGINFAILEDACK sid r \<Rightarrow> (if sl_iShutdownStatus l = NOT_SHUTDOWN then Login_OnCommandOnLoginFailedAck E sid r l else Some l)
   | LC_SESSION c \<Rightarrow> SL_OnCommand fuel E (LoginSession_vtable E) order c l)"

text \<open>\<open>_CheckSessionState\<close>: sessions that have not logged in, or not sent their version, in time are disconnected.\<close>

definition timed_out :: "lenv \<Rightarrow> ptr \<Rightarrow> LoginServerLoop \<Rightarrow> bool" where
  "timed_out E p l = (let s = sl_Session l p in
     if ses_state p l = SESSION_STATE_ONCONNECTION then se_dwConnectionTime s + sv_connectionTimeout E \<le> sl_dwCurrTime l
     else if ses_state p l = SESSION_STATE_LOGGEDIN then se_dwLoggedInTime s + sv_loginTimeout E \<le> sl_dwCurrTime l else False)"

primrec check_sessions :: "lenv \<Rightarrow> ptr list \<Rightarrow> LoginServerLoop \<Rightarrow> LoginServerLoop option" where
  "check_sessions E [] l = Some l"
| "check_sessions E (p # ps) l = do {
     l \<leftarrow> (if timed_out E p l then LoginSession_Disconnect E p l else Some l);
     check_sessions E ps l
   }"

definition CheckSessionState :: "lenv \<Rightarrow> LoginServerLoop \<Rightarrow> LoginServerLoop option" where
  "CheckSessionState E l = (if sl_iShutdownStatus l \<noteq> NOT_SHUTDOWN then Some l
     else if unat (sl_iSessionMax l) \<le> length (sl_arraySession l)
     then check_sessions E (take (unat (sl_iSessionMax l)) (sl_arraySession l)) l else None)"

definition ReportState :: "lenv \<Rightarrow> LoginServerLoop \<Rightarrow> LoginServerLoop" where
  "ReportState E l = (if sl_iShutdownStatus l \<noteq> NOT_SHUTDOWN then l else snd (send_master E (Msg_LoginReportState (lg_iServerId l)) l))"

primrec run_alarms :: "lenv \<Rightarrow> string list \<Rightarrow> LoginServerLoop \<Rightarrow> LoginServerLoop option" where
  "run_alarms E [] l = Some l"
| "run_alarms E (n # ns) l = do {
     l \<leftarrow> (if n = ''CheckSession'' then CheckSessionState E l else Some (ReportState E l));
     run_alarms E ns l
   }"

text \<open>The end of a round of the logic loop: the alarm clock, \<open>_Loop\<close>, and the clock is read for the next round.\<close>

definition Login_EndRound :: "lenv \<Rightarrow> u32 \<Rightarrow> LoginServerLoop \<Rightarrow> LoginServerLoop option" where
  "Login_EndRound E now l = do {
     let a = Alarm_Tick (sl_dwCurrTime l) (lg_Alarm l);
     l \<leftarrow> run_alarms E (drop (length (al_log (lg_Alarm l))) (al_log a)) (l\<lparr>lg_Alarm := a\<rparr>);
     Some ((LoginServerLoop_Loop l)\<lparr>sl_dwCurrTime := now\<rparr>)
   }"

section \<open>Messages from the master server\<close>

definition SessionPeerRecv_PacketForward :: "bool \<Rightarrow> u32 \<Rightarrow> u16 \<Rightarrow> byte list \<Rightarrow> login_command LogicLoop \<Rightarrow> login_command LogicLoop" where
  "SessionPeerRecv_PacketForward memory iSessionId iTypeId data L =
     (if memory then LogicLoop_PushCommand (LC_SESSION (SC_PACKETFORWARD iSessionId iTypeId data)) L else L)"

definition LoginPeerRecv_OnLoginFailedAck :: "bool \<Rightarrow> u32 \<Rightarrow> u8 \<Rightarrow> login_command LogicLoop \<Rightarrow> login_command LogicLoop" where
  "LoginPeerRecv_OnLoginFailedAck memory iSessionId iReason L =
     (if memory then LogicLoop_PushCommand (LC_ONLOGINFAILEDACK iSessionId iReason) L else L)"

end
