(* ===== verification/LoginInv.thy ===== *)
theory LoginInv
  imports LoginServer
begin

text \<open>
  The invariant of the login server: the sessions of the pool, the array of sessions, their ids and the connections fit together.

  \<open>sess_live\<close> is a session in use, \<open>sess_free\<close> one in the pool.  The sequence number in the id of a session is odd exactly
  while it is in use: both connecting and disconnecting advance it.  \<open>kept\<close> says what the handlers of a session keep.
\<close>

section \<open>The states of a session\<close>

definition ltr :: "int \<Rightarrow> int \<Rightarrow> int option" where
  "ltr = table_fun login_table"

lemma LoginSession_InitStateMachine_ok:
  "\<exists>m. LoginSession_InitStateMachine (StateMachine_new s) = Some m \<and> fsm_inv m \<and> sm_iCurrState m = s \<and> fsm_fun m = (\<lambda>(s, e). ltr s e)"
  using two_tables_ok [of login_table s]
  by (simp add: rows_of_def login_table_def event_ok_def LoginSession_InitStateMachine_def ltr_def)

abbreviation sess_fsm :: "'a Session_scheme \<Rightarrow> bool" where
  "sess_fsm \<equiv> machine_ok ltr"

definition used_states :: "int list" where
  "used_states = [SESSION_STATE_ONCONNECTION, SESSION_STATE_LOGGEDIN, SESSION_STATE_ONLOGINREQ, SESSION_STATE_ONLOGINFAILEDACK,
     SESSION_STATE_ONVERSIONREQ]"

definition used_events :: "int list" where
  "used_events = [SESSION_EVENT_ONDATA, SESSION_EVENT_LOGGEDIN, SESSION_EVENT_ONLOGINREQ, SESSION_EVENT_ONLOGINFAILEDACK,
     SESSION_EVENT_ONVERSIONREQ]"

definition sess_live :: "'a Session_scheme \<Rightarrow> bool" where
  "sess_live s \<longleftrightarrow> sess_fsm s \<and> sess_state s \<in> set used_states \<and> se_pConnection s \<noteq> NULL \<and> odd (id_sequence (se_iSessionId s))"

definition sess_free :: "'a Session_scheme \<Rightarrow> bool" where
  "sess_free s \<longleftrightarrow> sess_fsm s \<and> sess_state s = SESSION_STATE_NONE \<and> se_pConnection s = NULL \<and> even (id_sequence (se_iSessionId s)) \<and>
     se_iRecvBufLen s = 0"

lemma used_closed:
  "list_all (\<lambda>r. fst r \<in> set used_states \<longrightarrow> fst (snd r) \<in> set used_events \<longrightarrow> snd (snd r) \<in> set used_states) (rows_of (session_table @ login_table))"
  by code_simp

lemma used_step: "s \<in> set used_states \<Longrightarrow> e \<in> set used_events \<Longrightarrow> ltr s e = Some s' \<Longrightarrow> s' \<in> set used_states"
  using used_closed rows_fun_mem [of "rows_of (session_table @ login_table)" s e s'] by (auto simp: list_all_iff ltr_def table_fun_def)

lemma used_event_ok [simp]: "e \<in> set used_events \<Longrightarrow> event_ok e"
  by (auto simp: used_events_def event_ok_def)

lemma ltr_disconnect: "s \<in> set used_states \<Longrightarrow> ltr s SESSION_EVENT_ONDISCONNECT = Some SESSION_STATE_ONDISCONNECT"
proof -
  have "list_all (\<lambda>s. ltr s SESSION_EVENT_ONDISCONNECT = Some SESSION_STATE_ONDISCONNECT) used_states" by code_simp
  then show "s \<in> set used_states \<Longrightarrow> ?thesis" by (simp add: list_all_iff)
qed

lemma ltr_facts:
  "ltr SESSION_STATE_NONE SESSION_EVENT_ONCONNECTION = Some SESSION_STATE_ONCONNECTION"
  "ltr SESSION_STATE_NONE SESSION_EVENT_ONDISCONNECT = None"
  "ltr SESSION_STATE_LOGGEDIN SESSION_EVENT_ONVERSIONREQ = Some SESSION_STATE_ONVERSIONREQ"
  "ltr SESSION_STATE_ONVERSIONREQ SESSION_EVENT_ONLOGINREQ = Some SESSION_STATE_ONLOGINREQ"
  "ltr SESSION_STATE_ONLOGINREQ SESSION_EVENT_ONLOGINFAILEDACK = Some SESSION_STATE_ONLOGINFAILEDACK"
  by code_simp+

section \<open>What the handlers keep\<close>

definition kept :: "ptr \<Rightarrow> LoginServerLoop \<Rightarrow> LoginServerLoop \<Rightarrow> bool" where
  "kept p l0 l \<longleftrightarrow> sl_mSessionMap l = sl_mSessionMap l0 \<and> sl_arraySession l = sl_arraySession l0 \<and> sl_iSessionMax l = sl_iSessionMax l0 \<and>
     sl_SessionPool l = sl_SessionPool l0 \<and> sl_client l = sl_client l0 \<and> sl_iShutdownStatus l = sl_iShutdownStatus l0 \<and>
     lg_iServerId l = lg_iServerId l0 \<and> (\<forall>q. q \<noteq> p \<longrightarrow> sl_Session l q = sl_Session l0 q) \<and>
     se_iSessionId (sl_Session l p) = se_iSessionId (sl_Session l0 p) \<and> se_pConnection (sl_Session l p) = se_pConnection (sl_Session l0 p) \<and>
     sess_live (sl_Session l p)"

lemma K_refl: "sess_live (sl_Session l p) \<Longrightarrow> kept p l l"
  by (simp add: kept_def)

lemma K_live: "kept p l0 l \<Longrightarrow> sess_live (sl_Session l p)" "kept p l0 l \<Longrightarrow> se_pConnection (sl_Session l p) \<noteq> NULL"
  unfolding kept_def sess_live_def by blast+

lemma K_trans: "kept p l0 l1 \<Longrightarrow> kept p l1 l2 \<Longrightarrow> kept p l0 l2"
  by (simp add: kept_def)

lemma K_ses_upd:
  "kept p l0 l \<Longrightarrow> se_iSessionId (f (sl_Session l p)) = se_iSessionId (sl_Session l p) \<Longrightarrow>
     se_pConnection (f (sl_Session l p)) = se_pConnection (sl_Session l p) \<Longrightarrow> sess_live (f (sl_Session l p)) \<Longrightarrow> kept p l0 (ses_upd p f l)"
  by (simp add: kept_def ses_upd_def)

lemma K_simps [simp]:
  "kept p l0 (net_do c l) = kept p l0 l" "kept p l0 (l\<lparr>sl_pops := n\<rparr>) = kept p l0 l" "kept p l0 (l\<lparr>lg_sent := m\<rparr>) = kept p l0 l"
  by (simp_all add: kept_def net_do_def)

lemma K_fsm [wp_rules]:
  assumes "kept p l0 l" "e \<in> set used_events" "\<And>r l1. kept p l0 l1 \<Longrightarrow> wp (f r l1) Q"
  shows "wp (ses_fsm p e b l \<bind> case_prod f) Q"
proof -
  have live: "sess_live (sl_Session l p)" using K_live(1) [OF assms(1)] .
  then have ok: "sess_fsm (sl_Session l p)" by (simp add: sess_live_def)
  show ?thesis
  proof (cases "ltr (sess_state (sl_Session l p)) e")
    case None
    then show ?thesis using assms by (simp add: ses_fsm_eq [OF ok])
  next
    case (Some s)
    then have "s \<in> set used_states" using used_step live assms(2) by (auto simp: sess_live_def)
    then have "kept p l0 (ses_upd p (\<lambda>x. x\<lparr>se_StateMachine := (se_StateMachine x)\<lparr>sm_iCurrState := s\<rparr>\<rparr>) l)"
      using live by (intro K_ses_upd [OF assms(1)]) (auto simp: sess_live_def machine_ok_def fsm_inv_def fsm_fun_def)
    then show ?thesis using Some assms by (simp add: ses_fsm_eq [OF ok])
  qed
qed

lemma K_SendData [wp_rules]:
  assumes "kept p l0 l" "length data + SERVER_PACKET_HEAD \<le> SB_OUTPUT_BUFFER" "\<And>r l1. kept p l0 l1 \<Longrightarrow> wp (f r l1) Q"
  shows "wp (SBSession_SendData E t data p l \<bind> case_prod f) Q"
  using assms K_live(2) [OF assms(1)] by (simp add: SBSession_SendData_def SB_PopOutputBuffer_def Let_def)

lemma K_Disconnect [wp_rules]:
  assumes "kept p l0 l" "\<And>l1. kept p l0 l1 \<Longrightarrow> Q l1"
  shows "wp (LoginSession_Disconnect E p l) Q"
  using assms K_live(2) [OF assms(1)] by (simp add: LoginSession_Disconnect_def SBSession_Disconnect_def wp_def)

lemma K_send_master [wp_rules]:
  assumes "kept p l0 l" "\<And>r l1. kept p l0 l1 \<Longrightarrow> wp (f r l1) Q"
  shows "wp (let (r, l1) = send_master E msg l in f r l1) Q"
  using assms by (simp add: send_master_def Let_def)

lemma K_Acks [wp_rules]:
  assumes "kept p l0 l" "\<And>r l1. kept p l0 l1 \<Longrightarrow> wp (f r l1) Q"
  shows "wp (LoginServerSend_VersionAck E i p l \<bind> case_prod f) Q" "wp (LoginServerSend_LoginFailedAck E i p l \<bind> case_prod f) Q"
proof -
  have len: "length (le32 i) + SERVER_PACKET_HEAD \<le> SB_OUTPUT_BUFFER" by (simp add: le32_def)
  show "wp (LoginServerSend_VersionAck E i p l \<bind> case_prod f) Q" "wp (LoginServerSend_LoginFailedAck E i p l \<bind> case_prod f) Q"
    using assms K_live(2) [OF assms(1)] len
    by (simp_all add: LoginServerSend_VersionAck_def LoginServerSend_LoginFailedAck_def SBSession_SendData_def SB_PopOutputBuffer_def Let_def)
qed

lemma K_Some [wp_rules]: "kept p l0 l \<Longrightarrow> (\<And>l. kept p l0 l \<Longrightarrow> Q l) \<Longrightarrow> wp (Some l) Q"
  by (simp add: wp_def)

lemma used_mem [simp]:
  "SESSION_EVENT_ONDATA \<in> set used_events" "SESSION_EVENT_LOGGEDIN \<in> set used_events" "SESSION_EVENT_ONLOGINREQ \<in> set used_events"
  "SESSION_EVENT_ONLOGINFAILEDACK \<in> set used_events" "SESSION_EVENT_ONVERSIONREQ \<in> set used_events"
  by (simp_all add: used_events_def)

lemma OnLoginFailedAck_ok: "kept p l0 l \<Longrightarrow> wp (LoginSession_OnLoginFailedAck E r p l) (kept p l0)"
  unfolding LoginSession_OnLoginFailedAck_def by (assumption | rule wp_rules | simp; fail)+

lemma OnVersionReq_ok: "kept p l0 l \<Longrightarrow> wp (LoginSession_OnVersionReq E v p l) (kept p l0)"
  unfolding LoginSession_OnVersionReq_def by (assumption | rule wp_rules | simp; fail)+

lemma HandlePacket_ok: "kept p l0 l \<Longrightarrow> wp (LoginSession_HandlePacket E t n data p l) (kept p l0)"
  using OnVersionReq_ok by (auto simp: LoginSession_HandlePacket_def wp_def split: option.splits login_packet.splits)

section \<open>Received data\<close>

lemma K_plain:
  assumes "kept p l0 l" "\<And>s :: LoginSession. se_StateMachine (f s) = se_StateMachine s \<and> se_iSessionId (f s) = se_iSessionId s \<and> se_pConnection (f s) = se_pConnection s \<and>
    length (se_RecvBuf s) = length (se_RecvBuf (f s))"
  shows "kept p l0 (ses_upd p f l)"
  using assms K_live(1) [OF assms(1)] by (intro K_ses_upd) (auto simp: sess_live_def machine_ok_def)

lemma CheckLoginToken_ok:
  assumes "kept p l0 l"
  shows "lp (LoginSession_CheckLoginToken E p l) (\<lambda>(r, l). kept p l0 l)"
proof -
  have tok: "kept p l0 (put_token p b l)" if "kept p l0 l" for b l unfolding put_token_def using that by (intro K_plain) auto
  have name: "kept p l0 (ses_upd p (\<lambda>s. s\<lparr>ls_strAccountName := w\<rparr>) l)" if "kept p l0 l" for w l using that by (intro K_plain) auto
  show ?thesis
    unfolding LoginSession_CheckLoginToken_def Let_def split_beta
    by (rule lp_bind_any, auto split: option.splits intro!: lp_rules tok name assms)
qed

lemma LoggedInNtf_ok:
  assumes "kept p l0 l"
  shows "lp (LoginSession_LoggedInNtf p l) (\<lambda>(r, l). kept p l0 l)"
proof -
  have "kept p l0 (ses_upd p (\<lambda>s. s\<lparr>se_dwLoggedInTime := t\<rparr>) l)" if "kept p l0 l" for t l using that by (intro K_plain) auto
  then show ?thesis unfolding LoginSession_LoggedInNtf_def SBSession_LoggedInNtf_def
    by (intro wp_lp K_fsm [OF assms]) (simp_all add: wp_def)
qed

interpretation login: session_frame "LoginSession_vtable E" p "kept p l0" True for E p l0
proof
  fix l f assume "kept p l0 l" "data_eq (sl_Session l p) (f (sl_Session l p))"
  then show "kept p l0 (ses_upd p f l)"
    using K_live(1) [of p l0 l] by (intro K_ses_upd) (auto simp: data_eq_def sess_live_def machine_ok_def)
next
  fix l assume k: "kept p l0 l"
  show "lp (vt_Disconnect (LoginSession_vtable E) p l) (kept p l0)"
    using K_Disconnect [OF k, of "kept p l0" E] wp_lp by (simp add: LoginSession_vtable_def)
  show "lp (vt_CheckLoginToken (LoginSession_vtable E) p l) (\<lambda>(r, l). kept p l0 l)"
    "lp (vt_LoggedInNtf (LoginSession_vtable E) p l) (\<lambda>(r, l). kept p l0 l)"
    using CheckLoginToken_ok [OF k] LoggedInNtf_ok [OF k] by (simp_all add: LoginSession_vtable_def)
  fix t n bs
  show "lp (vt_HandlePacket (LoginSession_vtable E) t n bs p l) (kept p l0)"
    using wp_lp [OF HandlePacket_ok [OF k]] by (simp add: LoginSession_vtable_def)
qed simp_all

end
