(* ===== verification/LoginReach.thy ===== *)
theory LoginReach
  imports LoginInv
begin

text \<open>
  The login server over whole runs.  The network layer accepts connections (which clears their \<open>client_\<close>), and for each
  of them the commands \<open>ONCONNECT\<close>, any number of \<open>ONDATA\<close>, and \<open>ONDISCONNECT\<close> arrive in this order; \<open>phase\<close> says how far a connection
  is.  Other commands and ends of rounds come at any time.
\<close>

datatype phase = Idle | Accepted | Open

definition login_conn_ok :: "(ptr \<Rightarrow> phase) \<Rightarrow> LoginServerLoop \<Rightarrow> bool" where
  "login_conn_ok ph l \<longleftrightarrow>
     (\<forall>p \<in> ses_out l. sess_live (sl_Session l p) \<and> sl_client l (se_pConnection (sl_Session l p)) = Some p \<and>
        ph (se_pConnection (sl_Session l p)) = Open) \<and>
     (\<forall>p. p \<notin> ses_out l \<longrightarrow> sess_free (sl_Session l p)) \<and>
     (\<forall>c p. sl_client l c = Some p \<longrightarrow> ph c = Open \<longrightarrow> p \<in> ses_out l \<and> se_pConnection (sl_Session l p) = c) \<and>
     (\<forall>c. ph c = Accepted \<longrightarrow> sl_client l c = None \<and> c \<noteq> NULL)"

lemma conn_used:
  assumes "login_conn_ok ph l" "p \<in> ses_out l"
  shows "sl_client l (se_pConnection (sl_Session l p)) = Some p" "ph (se_pConnection (sl_Session l p)) = Open"
  using assms unfolding login_conn_ok_def by blast+

text \<open>The map of sessions: its keys have even sequence numbers.\<close>

definition map_ok :: "LoginServerLoop \<Rightarrow> bool" where
  "map_ok l \<longleftrightarrow> (\<forall>k p. sl_mSessionMap l k = Some p \<longrightarrow> even (id_sequence k) \<and> p \<in> set (sl_arraySession l) \<and>
     id_index k = id_index (se_iSessionId (sl_Session l p)) \<and> id_server k = lg_iServerId l)"

definition login_inv :: "(ptr \<Rightarrow> phase) \<Rightarrow> LoginServerLoop \<Rightarrow> bool" where
  "login_inv ph l \<longleftrightarrow> table_ok (lg_iServerId l) l \<and> pool_ok l \<and> login_conn_ok ph l \<and> map_ok l"

lemmas inv_defs = login_inv_def table_ok_def pool_ok_def login_conn_ok_def map_ok_def

lemma inv_live: "login_inv ph l \<Longrightarrow> p \<in> ses_out l \<Longrightarrow> sess_live (sl_Session l p)"
  by (simp add: inv_defs)

lemma inv_free: "login_inv ph l \<Longrightarrow> p \<notin> ses_out l \<Longrightarrow> sess_free (sl_Session l p)"
  by (simp add: inv_defs)

lemma inv_K:
  assumes "login_inv ph l" "p \<in> ses_out l" "kept p l l'"
  shows "login_inv ph l'"
proof -
  have k: "sl_mSessionMap l' = sl_mSessionMap l" "sl_arraySession l' = sl_arraySession l" "sl_iSessionMax l' = sl_iSessionMax l"
      "sl_SessionPool l' = sl_SessionPool l" "sl_client l' = sl_client l" "lg_iServerId l' = lg_iServerId l"
    using assms(3) by (simp_all add: kept_def)
  have id: "se_iSessionId (sl_Session l' q) = se_iSessionId (sl_Session l q)" "se_pConnection (sl_Session l' q) = se_pConnection (sl_Session l q)" for q
    using assms(3) by (cases "q = p"; simp add: kept_def)+
  have live: "sess_live (sl_Session l' q)" if "q \<in> ses_out l" for q
    using that inv_live [OF assms(1)] K_live(1) [OF assms(3)] assms(3) by (cases "q = p") (auto simp: kept_def)
  have free: "sess_free (sl_Session l' q)" if "q \<notin> ses_out l" for q
    using that inv_free [OF assms(1), of q] assms(2,3) by (cases "q = p") (auto simp: kept_def)
  show ?thesis using assms(1) live free unfolding inv_defs k id by blast
qed

section \<open>Finding sessions\<close>

text \<open>With an odd sequence number \<open>GetSession\<close> finds sessions in use only.\<close>

lemma GetSession_ok:
  assumes "login_inv ph l" "id_index sid \<noteq> sl_iSessionMax l"
  shows "\<exists>r. SL_GetSession sid l = Some r \<and> (case r of
     None \<Rightarrow> True | Some p \<Rightarrow> p \<in> set (sl_arraySession l) \<and> se_iSessionId (sl_Session l p) = sid \<and> (odd (id_sequence sid) \<longrightarrow> p \<in> ses_out l))"
proof -
  have T: "table_ok (lg_iServerId l) l" using assms(1) by (simp add: login_inv_def)
  have "p \<in> ses_out l" if "se_iSessionId (sl_Session l p) = sid" "odd (id_sequence sid)" for p
    using inv_free [OF assms(1), of p] that by (auto simp: sess_free_def)
  then show ?thesis using GetSession_found [OF T assms(2)] by (auto split: option.splits)
qed

lemma GetSession_own:
  assumes "login_inv ph l" "p \<in> ses_out l"
  shows "SL_GetSession (se_iSessionId (sl_Session l p)) l = Some (Some p)"
  using assms by (auto simp: login_inv_def intro: GetSession_self pool_out)

section \<open>Commands\<close>

text \<open>A connection gets a session.\<close>

definition connected :: "ptr \<Rightarrow> ptr \<Rightarrow> LoginServerLoop \<Rightarrow> LoginServerLoop \<Rightarrow> bool" where
  "connected c p l l' \<longleftrightarrow> sess_live (sl_Session l' p) \<and> sess_state (sl_Session l' p) = SESSION_STATE_ONCONNECTION \<and>
     se_iRecvBufLen (sl_Session l' p) = 0 \<and> se_pConnection (sl_Session l' p) = c \<and>
     se_iSessionId (sl_Session l' p) = next_sequence (se_iSessionId (sl_Session l p)) \<and> (\<forall>q. q \<noteq> p \<longrightarrow> sl_Session l' q = sl_Session l q) \<and>
     sl_client l' = (sl_client l)(c \<mapsto> p) \<and> sl_mSessionMap l' = sl_mSessionMap l \<and> sl_arraySession l' = sl_arraySession l \<and>
     sl_iSessionMax l' = sl_iSessionMax l \<and> sl_SessionPool l' = sl_SessionPool l \<and> sl_iShutdownStatus l' = sl_iShutdownStatus l \<and>
     lg_iServerId l' = lg_iServerId l"

lemma OnConnection_ok:
  assumes "sess_free (sl_Session l p)" "c \<noteq> NULL"
  shows "wp (LoginSession_OnConnection c p l) (\<lambda>(r, l'). r = 0 \<and> connected c p l l')"
proof -
  have f: "sess_fsm (sl_Session l p)" "sess_state (sl_Session l p) = SESSION_STATE_NONE" "even (id_sequence (se_iSessionId (sl_Session l p)))"
      "se_iRecvBufLen (sl_Session l p) = 0"
    using assms(1) by (simp_all add: sess_free_def)
  let ?l1 = "net_do (SetRefMax c 256) ((ses_upd p (\<lambda>s. s\<lparr>se_iSessionId := next_sequence (se_iSessionId s), se_pConnection := c\<rparr>) l)
     \<lparr>sl_client := (sl_client l)(c \<mapsto> p)\<rparr>)"
  have f1: "sess_fsm (sl_Session ?l1 p)" "sess_state (sl_Session ?l1 p) = SESSION_STATE_NONE"
    using f by (simp_all add: net_do_def ses_upd_def machine_ok_def)
  have e: "event_ok SESSION_EVENT_ONCONNECTION" by (simp add: event_ok_def)
  show ?thesis
    using ses_fsm_eq [OF f(1) e, of False] ses_fsm_eq [OF f1(1) e, of True] f f1(2) assms(2)
    by (simp add: LoginSession_OnConnection_def SBSession_OnConnection_def ltr_facts(1) Let_def wp_def connected_def)
      (auto simp: ses_upd_def net_do_def sess_live_def machine_ok_def fsm_inv_def fsm_fun_def used_states_def)
qed

lemma conn_connect:
  assumes I: "login_conn_ok ph l" and ph: "ph c = Accepted" and p: "p \<notin> ses_out l" and con: "connected c p l1 l'"
    and l1: "sl_Session l1 = sl_Session l" "sl_client l1 = sl_client l" "ob_out (sl_SessionPool l1) = p # ob_out (sl_SessionPool l)"
  shows "login_conn_ok (ph(c := Open)) l'"
proof -
  have ou: "ses_out l' = insert p (ses_out l)" and cl: "sl_client l' = (sl_client l)(c \<mapsto> p)" and live: "sess_live (sl_Session l' p)"
    and pc: "se_pConnection (sl_Session l' p) = c" and other: "\<And>q. q \<noteq> p \<Longrightarrow> sl_Session l' q = sl_Session l q"
    using con l1 by (simp_all add: connected_def)
  have ne: "se_pConnection (sl_Session l q) \<noteq> c" if "q \<in> ses_out l" for q using I ph that unfolding login_conn_ok_def by (metis phase.distinct(5))
  have used: "sess_live (sl_Session l' q) \<and> sl_client l' (se_pConnection (sl_Session l' q)) = Some q \<and> (ph(c := Open)) (se_pConnection (sl_Session l' q)) = Open"
    if "q \<in> ses_out l'" for q
  proof (cases "q = p")
    case False
    then have "q \<in> ses_out l" using that ou by simp
    with False show ?thesis using I ne [of q] other [of q] cl by (simp add: login_conn_ok_def)
  qed (use live pc cl in simp)
  have free: "sess_free (sl_Session l' q)" if "q \<notin> ses_out l'" for q using that ou I other [of q] by (simp add: login_conn_ok_def)
  have bk: "q \<in> ses_out l' \<and> se_pConnection (sl_Session l' q) = x" if "sl_client l' x = Some q" "(ph(c := Open)) x = Open" for x q
  proof (cases "x = c")
    case False
    then have "q \<in> ses_out l" "se_pConnection (sl_Session l q) = x" using that cl I by (simp_all add: login_conn_ok_def)
    moreover from this have "q \<noteq> p" using p by auto
    ultimately show ?thesis using other [of q] ou by simp
  qed (use that cl ou pc in auto)
  have "sl_client l' x = None \<and> x \<noteq> NULL" if "(ph(c := Open)) x = Accepted" for x
    using that cl I by (auto simp: login_conn_ok_def split: if_splits)
  with used free bk show ?thesis unfolding login_conn_ok_def by blast
qed

lemma map_connect:
  assumes I: "map_ok l" and p: "p \<in> set (sl_arraySession l)" "even (id_sequence (se_iSessionId (sl_Session l p)))"
      "id_server (se_iSessionId (sl_Session l p)) = lg_iServerId l"
    and con: "connected c p (l\<lparr>sl_SessionPool := pl, sl_mSessionMap := hm_insert (se_iSessionId (sl_Session l p)) p (sl_mSessionMap l)\<rparr>) l'"
  shows "map_ok l'"
proof -
  have m: "sl_mSessionMap l' = hm_insert (se_iSessionId (sl_Session l p)) p (sl_mSessionMap l)" "sl_arraySession l' = sl_arraySession l"
      "lg_iServerId l' = lg_iServerId l" using con by (simp_all add: connected_def)
  have id: "id_index (se_iSessionId (sl_Session l' q)) = id_index (se_iSessionId (sl_Session l q))" for q
    using con by (cases "q = p") (simp_all add: connected_def)
  show ?thesis using I p unfolding map_ok_def m id by (auto simp: hm_insert_def split: if_splits)
qed

text \<open>\<open>moved\<close>: the ids of exactly those sessions have advanced that were taken from the pool or given back.\<close>

definition moved :: "LoginServerLoop \<Rightarrow> LoginServerLoop \<Rightarrow> bool" where
  "moved l l' \<longleftrightarrow> sl_mSessionMap l \<subseteq>\<^sub>m sl_mSessionMap l' \<and> sl_arraySession l' = sl_arraySession l \<and> (\<forall>q. se_iSessionId (sl_Session l' q) =
     (if (q \<in> ses_out l) = (q \<in> ses_out l') then se_iSessionId (sl_Session l q) else next_sequence (se_iSessionId (sl_Session l q))))"

lemma moved_simps [simp]: "moved l l" "moved l (net_do c l') = moved l l'"
  by (simp_all add: moved_def net_do_def map_le_def)

lemma hm_insert_grows: "m \<subseteq>\<^sub>m hm_insert k p m"
  by (auto simp: hm_insert_def map_le_def)

lemma moved_connect:
  assumes "connected c p (l\<lparr>sl_SessionPool := pl, sl_mSessionMap := hm_insert k p (sl_mSessionMap l)\<rparr>) l'" "p \<notin> ses_out l"
    "ob_out pl = p # ob_out (sl_SessionPool l)"
  shows "moved l l'"
proof -
  have "se_iSessionId (sl_Session l' q) =
     (if (q \<in> ses_out l) = (q \<in> ses_out l') then se_iSessionId (sl_Session l q) else next_sequence (se_iSessionId (sl_Session l q)))" for q
    using assms(1,2) by (cases "q = p") (simp_all add: connected_def assms(3))
  then show ?thesis using assms(1) hm_insert_grows by (simp add: moved_def connected_def)
qed

lemma login_inv_open:
  assumes "login_inv ph l" "ph c = Accepted"
  shows "login_inv (ph(c := Open)) l"
proof -
  have I: "login_conn_ok ph l" and c: "sl_client l c = None" using assms by (simp_all add: inv_defs)
  have ph: "(ph(c := Open)) x = Open \<longleftrightarrow> ph x = Open \<or> x = c" "(ph(c := Open)) x = Accepted \<longleftrightarrow> ph x = Accepted \<and> x \<noteq> c" for x by simp_all
  have "login_conn_ok (ph(c := Open)) l" unfolding login_conn_ok_def ph
    by (intro conjI allI ballI impI) (use I c in \<open>auto simp: login_conn_ok_def\<close>)
  with assms(1) show ?thesis by (simp add: login_inv_def)
qed

definition connect_post :: "ptr \<Rightarrow> LoginServerLoop \<Rightarrow> LoginServerLoop \<Rightarrow> bool" where
  "connect_post c l l' \<longleftrightarrow> (if length (ob_out (sl_SessionPool l)) = unat (sl_iSessionMax l) then l' = net_do (AsyncDisconnect c) l
     else \<exists>p. p \<notin> ses_out l \<and> ses_out l' = insert p (ses_out l) \<and> sl_client l' c = Some p \<and> sl_iShutdownStatus l' = sl_iShutdownStatus l \<and>
       sess_state (sl_Session l' p) = SESSION_STATE_ONCONNECTION \<and> se_iRecvBufLen (sl_Session l' p) = 0)"

lemma OnConnect_ok:
  assumes I: "login_inv ph l" and ph: "ph c = Accepted"
  shows "wp (SL_OnCommandOnConnect (LoginSession_vtable E) c l) (\<lambda>l'. login_inv (ph(c := Open)) l' \<and> moved l l' \<and> connect_post c l l')"
proof -
  have c: "sl_client l c = None" "c \<noteq> NULL" using I ph by (simp_all add: inv_defs)
  obtain r pl where a: "ObjectPool_Allocate () (sl_SessionPool l) = Some (r, pl)"
    by (fastforce simp: ObjectPool_Allocate_def split: list.splits if_splits)
  have mx: "unat (ob_iMaxSize (sl_SessionPool l)) = unat (sl_iSessionMax l)" using I by (simp add: inv_defs)
  show ?thesis
  proof (cases r)
    case None
    then have "pl = sl_SessionPool l" and full: "length (ob_out (sl_SessionPool l)) = unat (sl_iSessionMax l)"
      using ObjectPool_Allocate_ok [OF _ a] I mx by (simp_all add: inv_defs)
    then have "l\<lparr>sl_SessionPool := pl\<rparr> = l" by simp
    moreover have "login_inv (ph(c := Open)) (net_do x l)" for x using login_inv_open [OF I ph] by (simp add: inv_defs net_do_def)
    ultimately show ?thesis using None a full by (simp add: SL_OnCommandOnConnect_def wp_def connect_post_def)
  next
    case (Some p)
    have T: "table_ok (lg_iServerId l) l" "pool_ok l" using I by (simp_all add: login_inv_def)
    note F = fresh_session [OF T a [unfolded Some]]
    let ?l1 = "l\<lparr>sl_SessionPool := pl, sl_mSessionMap := hm_insert (se_iSessionId (sl_Session l p)) p (sl_mSessionMap l)\<rparr>"
    have free: "sess_free (sl_Session l p)" by (rule inv_free [OF I F(1)])
    have server: "id_server (se_iSessionId (sl_Session l p)) = lg_iServerId l" using I F(2) by (auto simp: inv_defs in_set_conv_nth)
    obtain l' where l': "LoginSession_OnConnection c p ?l1 = Some (0, l')" "connected c p ?l1 l'"
      using OnConnection_ok [of ?l1 p c] free c(2) by (auto simp: wp_def)
    have t: "table_ok (lg_iServerId l') l'" using I l'(2) by (auto simp: inv_defs connected_def) (metis next_sequence_parts(2,3))+
    have q: "pool_ok l'" using I l'(2) F by (simp add: inv_defs connected_def)
    have k: "login_conn_ok (ph(c := Open)) l'" by (rule conn_connect [where ph = ph, OF _ ph F(1) l'(2)]) (use I F(3) in \<open>simp_all add: login_inv_def\<close>)
    have m: "map_ok l'" by (rule map_connect [OF _ F(2) _ server l'(2)]) (use I free in \<open>simp_all add: login_inv_def sess_free_def\<close>)
    have "length (ob_out (sl_SessionPool l)) < unat (sl_iSessionMax l)"
      using ObjectPool_Allocate_ok [OF _ a] I mx Some by (simp add: inv_defs)
    then have "connect_post c l l'" using F(1,3) l'(2) by (auto simp: connect_post_def connected_def)
    moreover have "moved l l'" by (rule moved_connect [OF l'(2) F(1,3)])
    ultimately show ?thesis using t q k m l'(1) Some a by (simp add: SL_OnCommandOnConnect_def wp_def login_inv_def LoginSession_vtable_def Let_def)
  qed
qed

text \<open>A session is given back.\<close>

definition disconnected :: "ptr \<Rightarrow> LoginServerLoop \<Rightarrow> LoginServerLoop \<Rightarrow> bool" where
  "disconnected p l l' \<longleftrightarrow> sess_free (sl_Session l' p) \<and>
     se_iSessionId (sl_Session l' p) = next_sequence (se_iSessionId (sl_Session l p)) \<and> (\<forall>q. q \<noteq> p \<longrightarrow> sl_Session l' q = sl_Session l q) \<and>
     sl_client l' = sl_client l \<and> sl_mSessionMap l' = sl_mSessionMap l \<and> sl_arraySession l' = sl_arraySession l \<and>
     sl_iSessionMax l' = sl_iSessionMax l \<and> sl_SessionPool l' = sl_SessionPool l \<and> sl_iShutdownStatus l' = sl_iShutdownStatus l \<and>
     lg_iServerId l' = lg_iServerId l \<and> lg_sent l' = lg_sent l \<and>
     sl_calls l' = sl_calls l @ [Connection_Close (se_pConnection (sl_Session l p))]"

lemma OnDisconnect_ok:
  assumes "sess_live (sl_Session l p)"
  shows "wp (LoginSession_OnDisconnect E p l) (disconnected p l)"
proof -
  have f: "sess_fsm (sl_Session l p)" "sess_state (sl_Session l p) \<in> set used_states" "odd (id_sequence (se_iSessionId (sl_Session l p)))"
      "se_pConnection (sl_Session l p) \<noteq> NULL"
    using assms by (simp_all add: sess_live_def)
  have e: "event_ok SESSION_EVENT_ONDISCONNECT" by (simp add: event_ok_def)
  show ?thesis
    using ses_fsm_eq [OF f(1) e, of True] ltr_disconnect [OF f(2)] f
    by (simp add: LoginSession_OnDisconnect_def SBSession_OnDisconnect_def Let_def wp_def ses_state_def GetCurrState_def)
      (auto simp: disconnected_def ses_upd_def net_do_def sess_free_def machine_ok_def fsm_inv_def fsm_fun_def LoginSession_Clear_def Session_Clear_def
        SetCurrState_def)
qed

lemma conn_disconnect:
  assumes I: "login_conn_ok ph l" and p: "p \<in> ses_out l" "se_pConnection (sl_Session l p) = c" and con: "disconnected p l l'"
    and pl: "set (ob_out pl) = ses_out l - {p}"
  shows "login_conn_ok (ph(c := Idle)) (l'\<lparr>sl_SessionPool := pl\<rparr>)"
proof -
  have cl: "sl_client l' = sl_client l" and free: "sess_free (sl_Session l' p)" and other: "\<And>q. q \<noteq> p \<Longrightarrow> sl_Session l' q = sl_Session l q"
    using con by (simp_all add: disconnected_def)
  have cp: "sl_client l c = Some p" using I p by (auto simp: login_conn_ok_def)
  have used: "sess_live (sl_Session l' q) \<and> sl_client l' (se_pConnection (sl_Session l' q)) = Some q \<and> (ph(c := Idle)) (se_pConnection (sl_Session l' q)) = Open"
    if "q \<in> set (ob_out pl)" for q
  proof -
    from that pl have q: "q \<in> ses_out l" "q \<noteq> p" by simp_all
    then have "sl_client l (se_pConnection (sl_Session l q)) = Some q" "ph (se_pConnection (sl_Session l q)) = Open" "sess_live (sl_Session l q)"
      using I by (simp_all add: login_conn_ok_def)
    moreover from this cp q(2) have "se_pConnection (sl_Session l q) \<noteq> c" by auto
    ultimately show ?thesis using other [OF q(2)] cl by simp
  qed
  have fr: "sess_free (sl_Session l' q)" if "q \<notin> set (ob_out pl)" for q
    using that pl free other [of q] I by (cases "q = p") (simp_all add: login_conn_ok_def)
  have bk: "q \<in> set (ob_out pl) \<and> se_pConnection (sl_Session l' q) = x" if "sl_client l' x = Some q" "(ph(c := Idle)) x = Open" for x q
  proof -
    have x: "x \<noteq> c" "sl_client l x = Some q" "ph x = Open" using that cl by (auto split: if_splits)
    then have q: "q \<in> ses_out l" "se_pConnection (sl_Session l q) = x" using I by (simp_all add: login_conn_ok_def)
    then have "q \<noteq> p" using x p by auto
    then show ?thesis using q other [of q] pl by simp
  qed
  have "sl_client l' x = None \<and> x \<noteq> NULL" if "(ph(c := Idle)) x = Accepted" for x
    using that cl I by (auto simp: login_conn_ok_def split: if_splits)
  with used fr bk show ?thesis unfolding login_conn_ok_def by simp
qed

lemma login_inv_idle:
  assumes "login_inv ph l" "sl_client l c = None"
  shows "login_inv (ph(c := Idle)) l"
proof -
  have I: "login_conn_ok ph l" using assms(1) by (simp add: login_inv_def)
  have ph: "(ph(c := Idle)) x = Open \<longleftrightarrow> ph x = Open \<and> x \<noteq> c" "(ph(c := Idle)) x = Accepted \<longleftrightarrow> ph x = Accepted \<and> x \<noteq> c" for x by simp_all
  have ne: "se_pConnection (sl_Session l p) \<noteq> c" if "p \<in> ses_out l" for p
  proof
    assume "se_pConnection (sl_Session l p) = c"
    with I that have "sl_client l c = Some p" unfolding login_conn_ok_def by blast
    with assms(2) show False by simp
  qed
  have "login_conn_ok (ph(c := Idle)) l" unfolding login_conn_ok_def ph
    by (intro conjI allI ballI impI) (use I ne in \<open>simp_all add: login_conn_ok_def\<close>)
  with assms(1) show ?thesis by (simp add: login_inv_def)
qed

lemma odd_next_sequence [simp]: "odd (id_sequence (next_sequence i)) = even (id_sequence i)"
  by simp

text \<open>The erasure in \<open>OnCommandOnDisconnect\<close> misses: the key of the session has the sequence number before it was connected.\<close>

lemma map_disconnect_same:
  assumes "map_ok l" "odd (id_sequence k)"
  shows "(sl_mSessionMap l)(k := None) = sl_mSessionMap l"
proof -
  have "sl_mSessionMap l k = None" using assms unfolding map_ok_def by (metis option.exhaust)
  then show ?thesis by (simp add: fun_eq_iff)
qed

definition disconnect_post :: "ptr \<Rightarrow> LoginServerLoop \<Rightarrow> LoginServerLoop \<Rightarrow> bool" where
  "disconnect_post c l l' \<longleftrightarrow> (case sl_client l c of None \<Rightarrow> l' = l
   | Some p \<Rightarrow> ses_out l' = ses_out l - {p} \<and> disconnected p l (l'\<lparr>sl_SessionPool := sl_SessionPool l\<rparr>))"

lemma OnCommandOnDisconnect_ok:
  assumes I: "login_inv ph l" and ph: "ph c = Open"
  shows "wp (SL_OnCommandOnDisconnect (LoginSession_vtable E) c l) (\<lambda>l'. login_inv (ph(c := Idle)) l' \<and> moved l l' \<and> disconnect_post c l l')"
proof (cases "sl_client l c")
  case None
  then show ?thesis using login_inv_idle [OF I] by (simp add: SL_OnCommandOnDisconnect_def wp_def disconnect_post_def)
next
  case (Some p)
  then have p: "p \<in> ses_out l" "se_pConnection (sl_Session l p) = c" using I ph by (auto simp: inv_defs)
  have live: "sess_live (sl_Session l p)" by (rule inv_live [OF I p(1)])
  have m: "(sl_mSessionMap l)(se_iSessionId (sl_Session l p) := None) = sl_mSessionMap l"
    using map_disconnect_same I live by (simp add: login_inv_def sess_live_def)
  have same: "l\<lparr>sl_mSessionMap := sl_mSessionMap l\<rparr> = l" by simp
  obtain l' where l': "LoginSession_OnDisconnect E p l = Some l'" "disconnected p l l'"
    using OnDisconnect_ok [OF live] by (auto simp: wp_def)
  obtain pl where pl: "ObjectPool_Free p (sl_SessionPool l') = Some pl" "pool_ok (l'\<lparr>sl_SessionPool := pl\<rparr>)" "set (ob_out pl) = ses_out l - {p}"
    using pool_give_back [OF _ p(1), of l'] I l'(2) by (auto simp: login_inv_def disconnected_def)
  let ?l = "l'\<lparr>sl_SessionPool := pl\<rparr>"
  have id: "id_index (se_iSessionId (sl_Session l' q)) = id_index (se_iSessionId (sl_Session l q))"
      "id_server (se_iSessionId (sl_Session l' q)) = id_server (se_iSessionId (sl_Session l q))" for q
    using l'(2) by (cases "q = p"; simp add: disconnected_def)+
  have f: "sl_mSessionMap l' = sl_mSessionMap l" "sl_arraySession l' = sl_arraySession l" "sl_iSessionMax l' = sl_iSessionMax l"
      "lg_iServerId l' = lg_iServerId l" "lg_sent l' = lg_sent l"
    using l'(2) by (simp_all add: disconnected_def)
  have t: "table_ok (lg_iServerId ?l) ?l" "map_ok ?l" using I f id by (simp_all add: login_inv_def table_ok_def map_ok_def)
  have k: "login_conn_ok (ph(c := Idle)) ?l" by (rule conn_disconnect [OF _ p l'(2) pl(3)]) (use I in \<open>simp add: login_inv_def\<close>)
  have V: "vt_OnDisconnect (LoginSession_vtable E) = LoginSession_OnDisconnect E" by (simp add: LoginSession_vtable_def)
  have "SL_OnCommandOnDisconnect (LoginSession_vtable E) c l = Some ?l"
    unfolding SL_OnCommandOnDisconnect_def Let_def Some option.case m same V l'(1) Option.bind.bind_lunit pl(1) by (rule refl)
  moreover have "login_inv (ph(c := Idle)) ?l" unfolding login_inv_def using t k pl(2) by blast
  moreover have "disconnect_post c l ?l" using l'(2) pl(3) Some by (simp add: disconnect_post_def disconnected_def)
  moreover have "moved l ?l" using l'(2) pl(3) p(1) f by (auto simp: moved_def disconnected_def)
  ultimately show ?thesis by (simp add: wp_def)
qed

section \<open>The other commands\<close>

text \<open>Everything else keeps the pool and the ids of the sessions.\<close>

definition keeps_ids :: "(ptr \<Rightarrow> phase) \<Rightarrow> LoginServerLoop \<Rightarrow> LoginServerLoop \<Rightarrow> bool" where
  "keeps_ids ph l0 l \<longleftrightarrow> login_inv ph l \<and> sl_SessionPool l = sl_SessionPool l0 \<and> sl_mSessionMap l = sl_mSessionMap l0 \<and>
     sl_arraySession l = sl_arraySession l0 \<and> (\<forall>q. se_iSessionId (sl_Session l q) = se_iSessionId (sl_Session l0 q))"

lemma keeps_ids_refl: "login_inv ph l \<Longrightarrow> keeps_ids ph l l"
  by (simp add: keeps_ids_def)

lemma keeps_ids_inv: "keeps_ids ph l0 l \<Longrightarrow> login_inv ph l"
  by (simp add: keeps_ids_def)

lemma keeps_ids_moved: "keeps_ids ph l0 l \<Longrightarrow> moved l0 l"
  by (simp add: keeps_ids_def moved_def)

lemma keeps_ids_K:
  assumes "keeps_ids ph l0 l" "p \<in> ses_out l" "kept p l l'"
  shows "keeps_ids ph l0 l'"
proof -
  have "se_iSessionId (sl_Session l' q) = se_iSessionId (sl_Session l q)" for q using assms(3) by (cases "q = p") (simp_all add: kept_def)
  moreover have "sl_SessionPool l' = sl_SessionPool l" "sl_mSessionMap l' = sl_mSessionMap l" "sl_arraySession l' = sl_arraySession l"
    using assms(3) by (simp_all add: kept_def)
  ultimately show ?thesis using assms(1) inv_K [OF keeps_ids_inv [OF assms(1)] assms(2,3)] by (simp add: keeps_ids_def)
qed

lemma keeps_ids_wp: "keeps_ids ph l0 l \<Longrightarrow> p \<in> ses_out l \<Longrightarrow> (kept p l l \<Longrightarrow> wp X (kept p l)) \<Longrightarrow> wp X (keeps_ids ph l0)"
  using keeps_ids_K [of ph l0 l p] K_refl [OF inv_live, OF keeps_ids_inv, of ph l0 l p] by (auto simp: wp_def)

lemma any_Disconnect:
  assumes I: "keeps_ids ph l0 l"
  shows "wp (LoginSession_Disconnect E p l) (keeps_ids ph l0)"
proof (cases "p \<in> ses_out l")
  case True
  then show ?thesis by (rule keeps_ids_wp [OF I]) (rule K_Disconnect)
next
  case False
  then have "sess_free (sl_Session l p)" by (rule inv_free [OF keeps_ids_inv [OF I]])
  then have f: "sess_fsm (sl_Session l p)" "sess_state (sl_Session l p) = SESSION_STATE_NONE" "se_pConnection (sl_Session l p) = NULL"
    by (simp_all add: sess_free_def)
  have e: "event_ok SESSION_EVENT_ONDISCONNECT" by (simp add: event_ok_def)
  show ?thesis using ses_fsm_eq [OF f(1) e, of True] f ltr_facts(2) I
    by (simp add: LoginSession_Disconnect_def SBSession_Disconnect_def LoginSession_OnDisconnect_def SBSession_OnDisconnect_def Let_def wp_def
        ses_state_def GetCurrState_def)
qed

lemma disconnect_all_ok: "keeps_ids ph l0 l \<Longrightarrow> wp (disconnect_sessions (LoginSession_vtable E) ps l) (keeps_ids ph l0)"
proof (induction ps arbitrary: l)
  case (Cons p ps)
  have "vt_Disconnect (LoginSession_vtable E) = LoginSession_Disconnect E" by (simp add: LoginSession_vtable_def)
  then show ?case by (simp add: wp_bind [OF wp_mono [OF any_Disconnect [OF Cons.prems]]] Cons.IH)
qed (simp add: wp_def)

lemma check_sessions_ok: "keeps_ids ph l0 l \<Longrightarrow> wp (check_sessions E ps l) (keeps_ids ph l0)"
proof (induction ps arbitrary: l)
  case (Cons p ps)
  show ?case unfolding check_sessions.simps
    by (rule wp_bind, rule wp_if) (auto intro!: wp_mono [OF any_Disconnect] Cons.IH simp: Cons.prems wp_def [of "Some _"])
qed (simp add: wp_def)

lemma inv_simps [simp]:
  "keeps_ids ph l0 (l\<lparr>sl_iShutdownStatus := s\<rparr>) = keeps_ids ph l0 l" "keeps_ids ph l0 (l\<lparr>lg_sent := m\<rparr>) = keeps_ids ph l0 l"
  "keeps_ids ph l0 (l\<lparr>lg_Alarm := a\<rparr>) = keeps_ids ph l0 l" "keeps_ids ph l0 (l\<lparr>sl_dwCurrTime := t\<rparr>) = keeps_ids ph l0 l"
  "keeps_ids ph l0 (net_do c l) = keeps_ids ph l0 l" "keeps_ids ph l0 (l\<lparr>sl_pops := n\<rparr>) = keeps_ids ph l0 l"
  by (simp_all add: keeps_ids_def inv_defs net_do_def)

lemma CheckSessionState_ok: "keeps_ids ph l0 l \<Longrightarrow> wp (CheckSessionState E l) (keeps_ids ph l0)"
  using check_sessions_ok [of ph l0 l] by (auto simp: CheckSessionState_def keeps_ids_def inv_defs wp_def [of "Some _"])

lemma run_alarms_ok: "keeps_ids ph l0 l \<Longrightarrow> wp (run_alarms E ns l) (keeps_ids ph l0)"
proof (induction ns arbitrary: l)
  case (Cons n ns)
  have "keeps_ids ph l0 (ReportState E l)" using Cons.prems by (simp add: ReportState_def send_master_def Let_def)
  then show ?case unfolding run_alarms.simps
    by (intro wp_bind wp_if wp_Some Cons.IH) (auto intro!: wp_mono [OF CheckSessionState_ok] Cons.IH simp: Cons.prems)
qed (simp add: wp_def)

lemma EndRound_ok:
  assumes "keeps_ids ph l0 l"
  shows "wp (Login_EndRound E now l) (keeps_ids ph l0)"
proof -
  have L: "keeps_ids ph l0 (LoginServerLoop_Loop l)" if "keeps_ids ph l0 l" for l
    using that by (simp add: LoginServerLoop_Loop_def SL_ReadyForShutdown_def)
  show ?thesis unfolding Login_EndRound_def Let_def
    by (rule wp_bind, rule wp_mono, rule run_alarms_ok [of ph l0]) (use assms in \<open>auto intro!: wp_Some L\<close>)
qed

text \<open>The ids of commands from the master server: those of a session in use, so with an odd sequence number, and not the one index
  that \<open>GetSession\<close> fails to refuse.\<close>

definition id_ok :: "u16 \<Rightarrow> u32 \<Rightarrow> bool" where
  "id_ok iSessionMax sid \<longleftrightarrow> odd (id_sequence sid) \<and> id_index sid \<noteq> iSessionMax"

definition len_ok :: "byte list \<Rightarrow> bool" where
  "len_ok data \<longleftrightarrow> length data + SERVER_PACKET_HEAD \<le> SB_OUTPUT_BUFFER"

lemma wp_GetSession:
  assumes "keeps_ids ph l0 l" "id_ok (sl_iSessionMax l) sid" "wp (f None) Q"
    "\<And>p. p \<in> ses_out l \<Longrightarrow> se_iSessionId (sl_Session l p) = sid \<Longrightarrow> wp (f (Some p)) Q"
  shows "wp (SL_GetSession sid l \<bind> f) Q"
proof -
  obtain r where "SL_GetSession sid l = Some r" "r \<noteq> None \<longrightarrow> the r \<in> ses_out l \<and> se_iSessionId (sl_Session l (the r)) = sid"
    using GetSession_ok [OF keeps_ids_inv [OF assms(1)], of sid] assms(2) by (auto simp: id_ok_def split: option.splits)
  then show ?thesis using assms(3,4) by (cases r) auto
qed

lemma SendData_cmd_ok:
  assumes "keeps_ids ph l0 l" "id_ok (sl_iSessionMax l) sid" "len_ok data"
  shows "wp (SL_OnCommandSendData E sid t data l) (\<lambda>l'. keeps_ids ph l0 l' \<and> sl_iSessionMax l' = sl_iSessionMax l)"
  unfolding SL_OnCommandSendData_def
proof (rule wp_GetSession [OF assms(1,2)])
  fix p assume "p \<in> ses_out l"
  note p = this K_refl [OF inv_live [OF keeps_ids_inv [OF assms(1)] this]]
  show "wp (case Some p of None \<Rightarrow> Some l | Some p \<Rightarrow> SBSession_SendData E t data p l \<bind> (\<lambda>(iRet, l). Some l))
      (\<lambda>l'. keeps_ids ph l0 l' \<and> sl_iSessionMax l' = sl_iSessionMax l)"
    unfolding option.case
  proof (rule K_SendData [OF p(2)])
    fix r l1 assume k: "kept p l l1"
    show "wp (Some l1) (\<lambda>l'. keeps_ids ph l0 l' \<and> sl_iSessionMax l' = sl_iSessionMax l)"
      using keeps_ids_K [OF assms(1) p(1) k] k by (simp add: wp_def kept_def)
  qed (use assms(3) in \<open>simp add: len_ok_def\<close>)
qed (use assms in \<open>simp add: wp_def\<close>)

lemma BroadcastData_ok:
  "keeps_ids ph l0 l \<Longrightarrow> \<forall>sid \<in> set sids. id_ok (sl_iSessionMax l) sid \<Longrightarrow> len_ok data \<Longrightarrow>
     wp (SL_OnCommandBroadcastData E sids t data l) (keeps_ids ph l0)"
proof (induction sids arbitrary: l)
  case (Cons sid sids)
  show ?case unfolding SL_OnCommandBroadcastData.simps
    by (rule wp_bind, rule wp_mono [OF SendData_cmd_ok [of ph l0 l sid data]]) (use Cons in auto)
qed (simp add: wp_def)

lemma Login_FailedAck_ok:
  assumes "keeps_ids ph l0 l" "id_ok (sl_iSessionMax l) sid"
  shows "wp (Login_OnCommandOnLoginFailedAck E sid r l) (keeps_ids ph l0)"
  unfolding Login_OnCommandOnLoginFailedAck_def
  by (rule wp_GetSession [OF assms]) (use keeps_ids_wp [OF assms(1)] OnLoginFailedAck_ok in \<open>simp_all add: assms(1) wp_Some\<close>)

lemma OnCommandDisconnect_ok:
  assumes "keeps_ids ph l0 l" "id_index sid \<noteq> sl_iSessionMax l"
  shows "wp (SL_OnCommandDisconnect (LoginSession_vtable E) sid l) (keeps_ids ph l0)"
proof -
  have V: "vt_Disconnect (LoginSession_vtable E) = LoginSession_Disconnect E" by (simp add: LoginSession_vtable_def)
  obtain r where "SL_GetSession sid l = Some r" using GetSession_ok [OF keeps_ids_inv [OF assms(1)] assms(2)] by blast
  then show ?thesis using any_Disconnect [OF assms(1)] assms(1) V
    by (cases r) (simp_all add: SL_OnCommandDisconnect_def wp_Some)
qed

lemma OnCommandOnData_ok:
  assumes "keeps_ids ph l0 l" "ph c = Open"
  shows "lp (SL_OnCommandOnData fuel E (LoginSession_vtable E) c data l) (keeps_ids ph l0)"
proof (cases "sl_client l c")
  case (Some p)
  then have p: "p \<in> ses_out l" using assms by (auto simp: keeps_ids_def inv_defs)
  have "lp (SBSession_OnData fuel E (LoginSession_vtable E) data p l) (\<lambda>(d, l'). kept p l l')"
    by (rule login.OnData_ok [OF K_refl [OF inv_live [OF keeps_ids_inv [OF assms(1)] p]]])
  then show ?thesis using Some keeps_ids_K [OF assms(1) p] by (auto simp: SL_OnCommandOnData_def lp_def split: Option.bind_splits if_splits)
qed (use assms in \<open>simp add: SL_OnCommandOnData_def lp_Some\<close>)

text \<open>The commands that do not come from the network layer.\<close>

fun login_cmd_ok :: "u16 \<Rightarrow> login_command \<Rightarrow> bool" where
  "login_cmd_ok m (LC_ONLOGINFAILEDACK sid r) = id_ok m sid"
| "login_cmd_ok m (LC_SESSION (SC_SENDDATA sid t data)) = (id_ok m sid \<and> len_ok data)"
| "login_cmd_ok m (LC_SESSION (SC_PACKETFORWARD sid t data)) = (id_ok m sid \<and> len_ok data)"
| "login_cmd_ok m (LC_SESSION (SC_BROADCASTDATA sids t data)) = (list_all (id_ok m) sids \<and> len_ok data)"
| "login_cmd_ok m (LC_SESSION (SC_DISCONNECT sid r)) = (id_index sid \<noteq> m)"
| "login_cmd_ok m (LC_SESSION SC_SHUTDOWN) = True"
| "login_cmd_ok m (LC_SESSION c) = False"

lemma cmd_ok_defined:
  assumes "keeps_ids ph l0 l" "login_cmd_ok (sl_iSessionMax l) cmd"
  shows "wp (Login_OnCommand fuel E order cmd l) (keeps_ids ph l0)"
  using assms(2)
proof (cases rule: login_cmd_ok.elims(2))
  case (1 sid r)
  then show ?thesis using Login_FailedAck_ok [OF assms(1)] assms(1) by (simp add: Login_OnCommand_def wp_Some)
next
  case (2 sid t data)
  then show ?thesis using wp_mono [OF SendData_cmd_ok [OF assms(1), of sid data E t], where Q' = "keeps_ids ph l0"] assms(1)
    by (simp add: Login_OnCommand_def SL_OnCommand_def wp_Some)
next
  case (3 sid t data)
  then show ?thesis using wp_mono [OF SendData_cmd_ok [OF assms(1), of sid data E t], where Q' = "keeps_ids ph l0"] assms(1)
    by (simp add: Login_OnCommand_def SL_OnCommand_def SL_OnCommandPacketForward_def wp_Some)
next
  case (4 sids t data)
  then show ?thesis using BroadcastData_ok [OF assms(1), of sids data E t] assms(1)
    by (simp add: Login_OnCommand_def SL_OnCommand_def wp_Some list_all_iff)
next
  case (5 sid r)
  then show ?thesis using OnCommandDisconnect_ok [OF assms(1)] by (simp add: Login_OnCommand_def SL_OnCommand_def)
next
  case 6
  then show ?thesis using disconnect_all_ok [of ph l0 "l\<lparr>sl_iShutdownStatus := START_SHUTDOWN\<rparr>"] assms(1)
    by (simp add: Login_OnCommand_def SL_OnCommand_def SL_OnCommandShutdown_def)
qed

section \<open>Starting up\<close>

lemma LoginSession_new_ok: "\<exists>s. LoginSession_new = Some s \<and> sess_free s"
proof -
  obtain m where m: "LoginSession_InitStateMachine (se_StateMachine Session_new) = Some m" "fsm_inv m" "sm_iCurrState m = SESSION_STATE_NONE"
      "fsm_fun m = (\<lambda>(s, e). ltr s e)"
    using LoginSession_InitStateMachine_ok [of SESSION_STATE_NONE] by (auto simp: Session_new_def)
  then show ?thesis
    by (simp add: LoginSession_new_def sess_free_def machine_ok_def Session.extend_def LoginSession.fields_def) (simp add: Session_new_def id_sequence_def)
qed

theorem login_starts:
  "\<exists>l0 l. LoginServerLoop_new iServerId iSessionMax = Some l0 \<and> LoginServerLoop_Init l0 = Some (0, l) \<and> login_inv (\<lambda>_. Idle) l \<and>
     sl_mSessionMap l = Map.empty \<and> sl_iSessionMax l = iSessionMax \<and> sl_arraySession l = [0..<unat iSessionMax] \<and>
     ses_out l = {} \<and> sl_iShutdownStatus l = NOT_SHUTDOWN"
proof -
  obtain s where s: "LoginSession_new = Some s" "sess_free s" using LoginSession_new_ok by blast
  let ?init = "sloop.extend (sloop_new s iSessionMax) (LoginServerLoop.fields Alarm_new iServerId False [])"
  have new: "LoginServerLoop_new iServerId iSessionMax = Some ?init" unfolding LoginServerLoop_new_def s(1) Option.bind.bind_lunit by (rule refl)
  have f: "sl_SessionPool ?init = ObjectPool_new (ucast (sl_iSessionMax ?init))" "sl_arraySession ?init = []" "sl_iSessionMax ?init = iSessionMax"
      "lg_iServerId ?init = iServerId" "sl_Session ?init = (\<lambda>_. s)" "sl_mSessionMap ?init = Map.empty" "sl_client ?init = Map.empty"
      "sl_iShutdownStatus ?init = NOT_SHUTDOWN"
    by (simp_all add: sloop_new_def sloop.extend_def LoginServerLoop.fields_def)
  obtain pl fin where fin: "fin = ?init\<lparr>sl_arraySession := [0..<unat iSessionMax], sl_SessionPool := pl,
      sl_Session := (\<lambda>p. if p < unat iSessionMax then s\<lparr>se_iSessionId := mk_id 0 (of_nat p) iServerId\<rparr> else s)\<rparr>"
      "SessionServerLoop_Init iServerId ?init = Some (0, fin)" "table_ok iServerId fin" "pool_ok fin" "ob_out pl = []"
    using SessionServerLoop_Init_ok [OF f(1,2), of iServerId] unfolding f(3,5) Let_def by blast
  have g: "lg_iServerId fin = iServerId" "sl_mSessionMap fin = Map.empty" "sl_iSessionMax fin = iSessionMax" "sl_client fin = Map.empty"
      "sl_iShutdownStatus fin = NOT_SHUTDOWN" "sl_arraySession fin = [0..<unat iSessionMax]" "ses_out fin = {}"
      "\<And>p. sess_free (sl_Session fin p)"
    using f fin(5) s(2) unfolding fin(1) by (simp_all add: sess_free_def machine_ok_def)
  have "login_inv (\<lambda>_. Idle) fin" using fin(3,4) g by (simp add: login_inv_def login_conn_ok_def map_ok_def)
  moreover have "LoginServerLoop_Init ?init = Some (0, fin)" unfolding LoginServerLoop_Init_def f(4) by (rule fin(2))
  ultimately show ?thesis using new g by blast
qed

end
