(* ===== verification/LoginProps.thy ===== *)
theory LoginProps
  imports LoginReach Runs
begin

text \<open>
  The runs of the login server and its properties.

  \<open>login_step\<close> is one step: the network layer accepts a connection, one of its commands or another command is
  executed, or a round of the loop ends.  \<open>login_reach\<close> holds of the states after starting, \<open>login_run p n\<close> of two states when the
  session \<open>p\<close> has been taken from the pool or put back \<open>n\<close> times in between.
\<close>

section \<open>Runs\<close>

type_synonym lstate = "(ptr \<Rightarrow> phase) \<times> LoginServerLoop"
type_synonym map_order = "(u32 \<rightharpoonup> ptr) \<Rightarrow> ptr list"

inductive login_step :: "lenv \<Rightarrow> map_order \<Rightarrow> lstate \<Rightarrow> lstate \<Rightarrow> bool" for E order where
  accept: "ph c = Idle \<Longrightarrow> c \<noteq> NULL \<Longrightarrow>
    login_step E order (ph, l) (ph(c := Accepted), l\<lparr>sl_client := (sl_client l)(c := None)\<rparr>)"
| connect: "ph c = Accepted \<Longrightarrow> Login_OnCommand fuel E order (LC_SESSION (SC_ONCONNECT c)) l = Some l' \<Longrightarrow>
    login_step E order (ph, l) (ph(c := Open), l')"
| data: "ph c = Open \<Longrightarrow> Login_OnCommand fuel E order (LC_SESSION (SC_ONDATA c data)) l = Some l' \<Longrightarrow> login_step E order (ph, l) (ph, l')"
| disconnect: "ph c = Open \<Longrightarrow> Login_OnCommand fuel E order (LC_SESSION (SC_ONDISCONNECT c)) l = Some l' \<Longrightarrow>
    login_step E order (ph, l) (ph(c := Idle), l')"
| other: "login_cmd_ok (sl_iSessionMax l) cmd \<Longrightarrow> Login_OnCommand fuel E order cmd l = Some l' \<Longrightarrow> login_step E order (ph, l) (ph, l')"
| round: "Login_EndRound E now l = Some l' \<Longrightarrow> login_step E order (ph, l) (ph, l')"

inductive login_reach :: "lenv \<Rightarrow> map_order \<Rightarrow> lstate \<Rightarrow> bool" for E order where
  start: "LoginServerLoop_new iServerId iSessionMax = Some l0 \<Longrightarrow> LoginServerLoop_Init l0 = Some (0, l) \<Longrightarrow>
    login_reach E order (\<lambda>_. Idle, LoginServerLoop_Start now a b l)"
| step: "login_reach E order s \<Longrightarrow> login_step E order s s' \<Longrightarrow> login_reach E order s'"

inductive login_run :: "lenv \<Rightarrow> map_order \<Rightarrow> ptr \<Rightarrow> nat \<Rightarrow> lstate \<Rightarrow> lstate \<Rightarrow> bool" for E order p where
  none: "login_run E order p 0 s s"
| more: "login_run E order p n s s1 \<Longrightarrow> login_step E order s1 s2 \<Longrightarrow>
    login_run E order p (if (p \<in> ses_out (snd s1)) = (p \<in> ses_out (snd s2)) then n else Suc n) s s2"

lemma login_inv_simps [simp]:
  "login_inv ph (l\<lparr>sl_dwCurrTime := t, lg_Alarm := a\<rparr>) = login_inv ph l"
  by (simp add: inv_defs)

lemma login_inv_accept:
  assumes "login_inv ph l" "ph c = Idle" "c \<noteq> NULL"
  shows "login_inv (ph(c := Accepted)) (l\<lparr>sl_client := (sl_client l)(c := None)\<rparr>)"
proof -
  have I: "login_conn_ok ph l" using assms by (simp add: inv_defs)
  have ph: "(ph(c := Accepted)) x = Open \<longleftrightarrow> ph x = Open \<and> x \<noteq> c" "(ph(c := Accepted)) x = Accepted \<longleftrightarrow> ph x = Accepted \<or> x = c" for x
    using assms(2) by simp_all
  have ne: "se_pConnection (sl_Session l p) \<noteq> c" if "p \<in> ses_out l" for p
    using conn_used(2) [OF I that] assms(2) by force
  have "login_conn_ok (ph(c := Accepted)) (l\<lparr>sl_client := (sl_client l)(c := None)\<rparr>)" unfolding login_conn_ok_def ph
  proof (intro conjI allI ballI impI)
    fix x q assume "sl_client (l\<lparr>sl_client := (sl_client l)(c := None)\<rparr>) x = Some q" "ph x = Open \<and> x \<noteq> c"
    then have "q \<in> ses_out l \<and> se_pConnection (sl_Session l q) = x" using I by (simp add: login_conn_ok_def)
    then show "q \<in> ses_out (l\<lparr>sl_client := (sl_client l)(c := None)\<rparr>)"
      "se_pConnection (sl_Session (l\<lparr>sl_client := (sl_client l)(c := None)\<rparr>) q) = x" by simp_all
  next
    fix x assume "ph x = Accepted \<or> x = c"
    then show "sl_client (l\<lparr>sl_client := (sl_client l)(c := None)\<rparr>) x = None" "x \<noteq> NULL" using I assms(3) by (auto simp: login_conn_ok_def)
  qed (use I ne in \<open>simp_all add: login_conn_ok_def\<close>)
  with assms(1) show ?thesis by (simp add: inv_defs)
qed

lemma session_command_eqs:
  "Login_OnCommand fuel E order (LC_SESSION (SC_ONCONNECT c)) l =
     (if sl_iShutdownStatus l = NOT_SHUTDOWN then SL_OnCommandOnConnect (LoginSession_vtable E) c l else Some l)"
  "Login_OnCommand fuel E order (LC_SESSION (SC_ONDATA c data)) l =
     (if sl_iShutdownStatus l = NOT_SHUTDOWN then SL_OnCommandOnData fuel E (LoginSession_vtable E) c data l else Some l)"
  "Login_OnCommand fuel E order (LC_SESSION (SC_ONDISCONNECT c)) l = SL_OnCommandOnDisconnect (LoginSession_vtable E) c l"
  by (simp_all add: Login_OnCommand_def SL_OnCommand_def)

text \<open>What the commands from the network layer and the end of a round keep.\<close>

lemma connect_cmd_ok:
  assumes "login_inv ph l" "ph c = Accepted"
  shows "wp (Login_OnCommand fuel E order (LC_SESSION (SC_ONCONNECT c)) l)
    (\<lambda>l'. login_inv (ph(c := Open)) l' \<and> moved l l' \<and> (if sl_iShutdownStatus l = NOT_SHUTDOWN then connect_post c l l' else l' = l))"
  unfolding session_command_eqs
  by (rule wp_if) (use OnConnect_ok [OF assms] login_inv_open [OF assms] in \<open>simp_all add: wp_Some\<close>)

lemma disconnect_cmd_ok:
  assumes "login_inv ph l" "ph c = Open"
  shows "wp (Login_OnCommand fuel E order (LC_SESSION (SC_ONDISCONNECT c)) l) (\<lambda>l'. login_inv (ph(c := Idle)) l' \<and> moved l l' \<and> disconnect_post c l l')"
  unfolding session_command_eqs by (rule OnCommandOnDisconnect_ok [OF assms])

lemma data_cmd_ok:
  assumes "login_inv ph l" "ph c = Open"
  shows "lp (Login_OnCommand fuel E order (LC_SESSION (SC_ONDATA c data)) l) (keeps_ids ph l)"
  unfolding session_command_eqs by (rule lp_if) (use OnCommandOnData_ok [OF keeps_ids_refl [OF assms(1)] assms(2)] keeps_ids_refl [OF assms(1)] in \<open>simp_all add: lp_Some\<close>)

lemma step_ok:
  assumes "login_inv (fst s) (snd s)" "login_step E order s s'"
  shows "login_inv (fst s') (snd s') \<and> moved (snd s) (snd s')"
  using assms(2)
proof cases
  case (accept ph c l)
  then show ?thesis using login_inv_accept [of ph l c] assms(1) by (simp add: moved_def)
next
  case (connect ph c fuel l l')
  then show ?thesis using connect_cmd_ok [of ph l c fuel E order] assms(1) by (simp add: wp_def)
next
  case (data ph c fuel d l l')
  then have "keeps_ids ph l l'" using data_cmd_ok [of ph l c fuel E order d] assms(1) by (simp add: lp_def)
  then show ?thesis using data keeps_ids_inv keeps_ids_moved by simp
next
  case (disconnect ph c fuel l l')
  then show ?thesis using disconnect_cmd_ok [of ph l c fuel E order] assms(1) by (simp add: wp_def)
next
  case (other l cmd fuel l' ph)
  then have "keeps_ids ph l l'" using cmd_ok_defined [OF keeps_ids_refl, of ph l cmd fuel E order] assms(1) by (simp add: wp_def)
  then show ?thesis using other keeps_ids_inv keeps_ids_moved by simp
next
  case (round now l l' ph)
  then have "keeps_ids ph l l'" using EndRound_ok [OF keeps_ids_refl, of ph l E now] assms(1) by (simp add: wp_def)
  then show ?thesis using round keeps_ids_inv keeps_ids_moved by simp
qed

lemma login_reach_inv: "login_reach E order s \<Longrightarrow> login_inv (fst s) (snd s)"
proof (induction rule: login_reach.induct)
  case (start iServerId iSessionMax l0 l now a b)
  then show ?case using login_starts [of iServerId iSessionMax] by (auto simp: LoginServerLoop_Start_def)
qed (use step_ok in blast)

lemma run_reach: "login_run E order p n s s' \<Longrightarrow> login_reach E order s \<Longrightarrow> login_reach E order s'"
  by (induction rule: login_run.induct) (auto intro: login_reach.step)

section \<open>Sessions and connections\<close>

text \<open>The events as functions of the state.  \<open>login_ok\<close> has two parts: the network layer reports a connection after it has accepted it, and
  data and the loss of a connection only of a reported one; the other commands are as in \<open>login_cmd_ok\<close>.\<close>

datatype login_event = LE_Accept ptr | LE_Command nat login_command | LE_Round u32

definition next_phase :: "login_command \<Rightarrow> (ptr \<Rightarrow> phase) \<Rightarrow> ptr \<Rightarrow> phase" where
  "next_phase cmd ph = (case cmd of LC_SESSION (SC_ONCONNECT c) \<Rightarrow> ph(c := Open) | LC_SESSION (SC_ONDISCONNECT c) \<Rightarrow> ph(c := Idle) | _ \<Rightarrow> ph)"

primrec login_next :: "lenv \<Rightarrow> map_order \<Rightarrow> login_event \<Rightarrow> lstate \<Rightarrow> lstate option" where
  "login_next E order (LE_Accept c) s = Some ((fst s)(c := Accepted), (snd s)\<lparr>sl_client := (sl_client (snd s))(c := None)\<rparr>)"
| "login_next E order (LE_Command fuel cmd) s = map_option (Pair (next_phase cmd (fst s))) (Login_OnCommand fuel E order cmd (snd s))"
| "login_next E order (LE_Round now) s = map_option (Pair (fst s)) (Login_EndRound E now (snd s))"

definition login_ok :: "login_event \<Rightarrow> lstate \<Rightarrow> bool" where
  "login_ok e s = (case e of
     LE_Accept c \<Rightarrow> fst s c = Idle \<and> c \<noteq> NULL
   | LE_Command fuel cmd \<Rightarrow> (case cmd of
        LC_SESSION (SC_ONCONNECT c) \<Rightarrow> fst s c = Accepted
      | LC_SESSION (SC_ONDATA c data) \<Rightarrow> fst s c = Open
      | LC_SESSION (SC_ONDISCONNECT c) \<Rightarrow> fst s c = Open
      | _ \<Rightarrow> login_cmd_ok (sl_iSessionMax (snd s)) cmd)
   | LE_Round now \<Rightarrow> True)"

definition is_login_data :: "login_event \<Rightarrow> bool" where
  "is_login_data e \<longleftrightarrow> (\<exists>fuel c data. e = LE_Command fuel (LC_SESSION (SC_ONDATA c data)))"

lemma login_other_step:
  "login_cmd_ok (sl_iSessionMax (snd s)) cmd \<Longrightarrow> Login_OnCommand fuel E order cmd (snd s) = Some l' \<Longrightarrow>
     next_phase cmd (fst s) = fst s \<and> login_step E order s (fst s, l')"
  by (cases s, cases rule: login_cmd_ok.elims(2)) (auto simp: next_phase_def intro: login_step.other)

lemma login_next_step:
  assumes "login_ok e s" "login_next E order e s = Some s'"
  shows "login_step E order s s'"
proof (cases s)
  case (Pair ph l)
  show ?thesis
  proof (cases e)
    case (LE_Accept c)
    then show ?thesis using assms Pair by (auto simp: login_ok_def intro: login_step.accept)
  next
    case (LE_Round now)
    then show ?thesis using assms Pair by (auto intro: login_step.round)
  next
    case (LE_Command fuel cmd)
    then obtain l' where l': "Login_OnCommand fuel E order cmd l = Some l'" "s' = (next_phase cmd ph, l')" using assms(2) Pair by auto
    show ?thesis
    proof (cases "login_cmd_ok (sl_iSessionMax l) cmd")
      case True
      then show ?thesis using login_other_step [of s cmd fuel E order l'] l' Pair by simp
    next
      case False
      then show ?thesis using assms(1) l' LE_Command Pair
        by (auto simp: login_ok_def next_phase_def intro: login_step.connect login_step.data login_step.disconnect
            split: login_command.splits session_command.splits)
    qed
  qed
qed

lemma login_next_defined:
  assumes I: "login_inv (fst s) (snd s)" and ok: "login_ok e s" "\<not> is_login_data e"
  shows "login_next E order e s \<noteq> None"
proof (cases e)
  case (LE_Round now)
  then show ?thesis using EndRound_ok [OF keeps_ids_refl [OF I], of E now] by (auto simp: wp_def)
next
  case (LE_Command fuel cmd)
  show ?thesis
  proof (cases "login_cmd_ok (sl_iSessionMax (snd s)) cmd")
    case True
    then show ?thesis using LE_Command cmd_ok_defined [OF keeps_ids_refl [OF I], of cmd fuel E order] by (auto simp: wp_def)
  next
    case False
    then show ?thesis using LE_Command ok connect_cmd_ok [OF I, of _ fuel E order] disconnect_cmd_ok [OF I, of _ fuel E order]
      by (fastforce simp: login_ok_def is_login_data_def wp_def split: login_command.splits session_command.splits)
  qed
qed simp

interpretation login_runs: guarded_system "login_next E order" login_ok "\<lambda>s. login_inv (fst s) (snd s)" for E order
  by unfold_locales (use step_ok login_next_step in blast)

text \<open>C8: Sessions and connections.  Start the server and let any sequence of accepted connections, commands and rounds of the loop
  arrive.  At its end the sessions in use are connected, each to a connection of its own that leads back to it, and are
  found by their ids, which are odd; the others are idle and have no connection: unless the run comes, in a state in which all this still holds, to bytes of a client
  whose processing is undefined or to an event outside \<open>login_ok\<close>.  Outside are reports of connections out of their order, which the
  network layer does not make, commands for a session id with an even sequence number or (also for a disconnect) with the size of the table as index, and data that does not
  fit the send buffer.\<close>

theorem login_sessions:
  assumes "LoginServerLoop_new iServerId iSessionMax = Some l0" "LoginServerLoop_Init l0 = Some (0, l1)"
  shows "\<exists>bs cs ph l. es = bs @ cs \<and> orun (login_next E order) bs (\<lambda>_. Idle, LoginServerLoop_Start now a b l1) = Some (ph, l) \<and>
    (cs = [] \<or> (if is_login_data (hd cs) \<and> login_ok (hd cs) (ph, l) then login_next E order (hd cs) (ph, l) = None else \<not> login_ok (hd cs) (ph, l))) \<and>
    (\<forall>p \<in> ses_out l. let s = sl_Session l p in
      ph (se_pConnection s) = Open \<and> sl_client l (se_pConnection s) = Some p \<and> odd (id_sequence (se_iSessionId s)) \<and>
      SL_GetSession (se_iSessionId s) l = Some (Some p)) \<and>
    inj_on (\<lambda>p. se_pConnection (sl_Session l p)) (ses_out l) \<and>
    (\<forall>p. p \<notin> ses_out l \<longrightarrow> se_pConnection (sl_Session l p) = NULL \<and> ses_state p l = SESSION_STATE_NONE)"
proof -
  let ?s = "(\<lambda>_. Idle, LoginServerLoop_Start now a b l1) :: lstate"
  have "login_inv (fst ?s) (snd ?s)" using login_reach_inv [OF login_reach.start [OF assms, of E order now a b]] by simp
  then obtain bs cs s where run: "es = bs @ cs" "orun (login_next E order) bs ?s = Some s" and I: "login_inv (fst s) (snd s)"
      and c: "cs = [] \<or> \<not> login_ok (hd cs) s \<or> login_next E order (hd cs) s = None"
    using login_runs.run_until [of ?s es E order] by blast
  have d: "cs = [] \<or> (if is_login_data (hd cs) \<and> login_ok (hd cs) s then login_next E order (hd cs) s = None else \<not> login_ok (hd cs) s)"
    using c login_next_defined [OF I, of "hd cs" E order] by (cases "is_login_data (hd cs)") auto
  obtain ph l where s: "s = (ph, l)" by (cases s)
  note J = I [unfolded s, simplified]
  have "let s = sl_Session l p in ph (se_pConnection s) = Open \<and> sl_client l (se_pConnection s) = Some p \<and> odd (id_sequence (se_iSessionId s)) \<and>
      SL_GetSession (se_iSessionId s) l = Some (Some p)" if "p \<in> ses_out l" for p
    using that J inv_live [OF J that] GetSession_own [OF J that] by (simp add: inv_defs sess_live_def Let_def)
  moreover have "inj_on (\<lambda>p. se_pConnection (sl_Session l p)) (ses_out l)"
    using J by (intro inj_onI) (metis login_conn_ok_def login_inv_def option.inject)
  moreover have "se_pConnection (sl_Session l p) = NULL \<and> ses_state p l = SESSION_STATE_NONE" if "p \<notin> ses_out l" for p
    using inv_free [OF J that] by (simp add: sess_free_def ses_state_def GetCurrState_def)
  ultimately show ?thesis using run d unfolding s by blast
qed

section \<open>Session ids are used again\<close>

lemma sequence_power: "id_sequence ((next_sequence ^^ n) i) = id_sequence i + of_nat n"
    "id_index ((next_sequence ^^ n) i) = id_index i" "id_server ((next_sequence ^^ n) i) = id_server i"
  by (induction n) (simp_all add: add.assoc)

lemma sequence_repeats: "(next_sequence ^^ n) i = i \<longleftrightarrow> 256 dvd n"
proof -
  have "(next_sequence ^^ n) i = i \<longleftrightarrow> (of_nat n :: u8) = 0"
    using id_eqI [of "(next_sequence ^^ n) i" i] sequence_power [of n i] by (metis add_cancel_left_right)
  also have "\<dots> \<longleftrightarrow> 256 dvd n" by (simp add: word_of_nat_eq_0_iff)
  finally show ?thesis .
qed

lemma run_ids:
  assumes "login_run E order p n s s'" "login_reach E order s"
  shows "se_iSessionId (sl_Session (snd s') p) = (next_sequence ^^ n) (se_iSessionId (sl_Session (snd s) p)) \<and>
    sl_arraySession (snd s') = sl_arraySession (snd s) \<and> sl_mSessionMap (snd s) \<subseteq>\<^sub>m sl_mSessionMap (snd s')"
  using assms
proof (induction rule: login_run.induct)
  case (more n s s1 s2)
  have "moved (snd s1) (snd s2)" using step_ok [OF login_reach_inv [OF run_reach [OF more.hyps(1) more.prems]] more.hyps(2)] by blast
  then show ?case using more.IH [OF more.prems] by (auto simp: moved_def intro: map_le_trans)
qed simp

text \<open>C25: The id of a session in use finds this session again exactly when the session has been taken from the pool and put back a multiple of 256 times
  in between: after 128 reconnections an old id reaches somebody else's connection.\<close>

theorem session_id_reuse:
  assumes "login_reach E order s" "p \<in> ses_out (snd s)" "login_run E order p n s s'"
  shows "(p \<in> ses_out (snd s') \<longleftrightarrow> even n) \<and>
    (SL_GetSession (se_iSessionId (sl_Session (snd s) p)) (snd s') = Some (Some p) \<longleftrightarrow> 256 dvd n)"
proof -
  let ?id = "se_iSessionId (sl_Session (snd s) p)" and ?l = "snd s'"
  have flip: "(p \<in> ses_out (snd s')) = even n" using assms(3,2) by (induction rule: login_run.induct) (auto split: if_splits)
  have id: "se_iSessionId (sl_Session ?l p) = (next_sequence ^^ n) ?id" using run_ids [OF assms(3,1)] by blast
  have "SL_GetSession ?id ?l = Some (Some p)" if "256 dvd n"
  proof -
    have "even n" using that by (rule dvd_trans [rotated]) simp
    moreover have "se_iSessionId (sl_Session ?l p) = ?id" using id sequence_repeats that by simp
    ultimately show ?thesis using GetSession_own [OF login_reach_inv [OF run_reach [OF assms(3,1)]]] flip by metis
  qed
  moreover have "256 dvd n" if "SL_GetSession ?id ?l = Some (Some p)"
  proof -
    have "se_iSessionId (sl_Session ?l p) = ?id" using that by (auto simp: SL_GetSession_def Let_def split: if_splits)
    then show ?thesis using id sequence_repeats by simp
  qed
  ultimately show ?thesis using flip by blast
qed

text \<open>For the witness: a server with one session whose only connection reconnects.\<close>

definition busy :: "lstate \<Rightarrow> bool" where
  "busy s \<longleftrightarrow> ses_out (snd s) = {0} \<and> sl_iShutdownStatus (snd s) = NOT_SHUTDOWN \<and> fst s 1 = Open \<and> sl_client (snd s) 1 = Some 0 \<and>
     sl_arraySession (snd s) = [0] \<and> ses_state 0 (snd s) = SESSION_STATE_ONCONNECTION \<and> se_iRecvBufLen (sl_Session (snd s) 0) = 0"

lemma connect_busy:
  assumes "login_reach E order (ph, l)" "ph 1 = Idle" "ses_out l = {}" "sl_iShutdownStatus l = NOT_SHUTDOWN" "sl_arraySession l = [0]"
  shows "\<exists>s1 s2. login_step E order (ph, l) s1 \<and> ses_out (snd s1) = {} \<and> login_step E order s1 s2 \<and> busy s2 \<and>
    orun (login_next E order) [LE_Accept 1, LE_Command 0 (LC_SESSION (SC_ONCONNECT 1))] (ph, l) = Some s2"
proof -
  let ?s1 = "(ph(1 := Accepted), l\<lparr>sl_client := (sl_client l)(1 := None)\<rparr>)"
  have s1: "login_step E order (ph, l) ?s1" using assms(2) by (intro login_step.accept) simp_all
  then have I: "login_inv (fst ?s1) (snd ?s1)" by (rule login_reach_inv [OF login_reach.step [OF assms(1)]])
  obtain l2 where l2: "Login_OnCommand 0 E order (LC_SESSION (SC_ONCONNECT 1)) (snd ?s1) = Some l2" "moved (snd ?s1) l2" "connect_post 1 (snd ?s1) l2"
      "login_inv ((fst ?s1)(1 := Open)) l2"
    using connect_cmd_ok [OF I, of 1 0 E order] assms(4) by (auto simp: wp_def)
  have max: "unat (sl_iSessionMax l) = 1" using login_reach_inv [OF assms(1)] assms(5) by (simp add: inv_defs)
  then obtain p where p: "ses_out l2 = {p}" "sl_client l2 1 = Some p" "sl_iShutdownStatus l2 = NOT_SHUTDOWN"
      "sess_state (sl_Session l2 p) = SESSION_STATE_ONCONNECTION" "se_iRecvBufLen (sl_Session l2 p) = 0"
    using l2(3) assms(3,4) by (auto simp: connect_post_def)
  have "p \<in> set (sl_arraySession l2)" using l2(4) p(1) by (auto simp: login_inv_def pool_ok_def)
  moreover have arr: "sl_arraySession l2 = [0]" using l2(2) assms(5) by (simp add: moved_def)
  ultimately have "p = 0" by simp
  with p arr have "busy (ph(1 := Open), l2)" by (simp add: busy_def ses_state_def GetCurrState_def)
  moreover have "login_step E order ?s1 (ph(1 := Open), l2)"
    using login_step.connect [OF _ l2(1), of "fst ?s1"] by simp
  moreover have "orun (login_next E order) [LE_Accept 1, LE_Command 0 (LC_SESSION (SC_ONCONNECT 1))] (ph, l) = Some (ph(1 := Open), l2)"
    using l2(1) by (simp add: next_phase_def)
  ultimately show ?thesis using s1 assms(3) by (intro exI [of _ ?s1] exI [of _ "(ph(1 := Open), l2)"]) simp
qed

lemma reconnect_busy:
  assumes "login_reach E order s" "busy s" "login_run E order 0 n s0 s"
  shows "\<exists>s'. login_reach E order s' \<and> busy s' \<and> login_run E order 0 (n + 2) s0 s'"
proof -
  obtain ph l where s: "s = (ph, l)" by (cases s)
  have b: "ses_out l = {0}" "sl_iShutdownStatus l = NOT_SHUTDOWN" "ph 1 = Open" "sl_client l 1 = Some 0" "sl_arraySession l = [0]"
    using assms(2) by (simp_all add: busy_def s)
  obtain l1 where l1: "Login_OnCommand 0 E order (LC_SESSION (SC_ONDISCONNECT 1)) l = Some l1" "disconnect_post 1 l l1"
    using disconnect_cmd_ok [OF login_reach_inv [OF assms(1)], of 1 0 E order] b(3) by (auto simp: wp_def s)
  have o1: "ses_out l1 = {}" "sl_iShutdownStatus l1 = NOT_SHUTDOWN" "sl_arraySession l1 = [0]"
    using l1(2) b by (simp_all add: disconnect_post_def disconnected_def)
  have st1: "login_step E order s (ph(1 := Idle), l1)" unfolding s by (rule login_step.disconnect [of ph 1, OF b(3) l1(1)])
  then have r1: "login_reach E order (ph(1 := Idle), l1)" by (rule login_reach.step [OF assms(1)])
  obtain s2 s3 where s3: "login_step E order (ph(1 := Idle), l1) s2" "ses_out (snd s2) = {}" "login_step E order s2 s3" "busy s3"
    using connect_busy [OF r1 _ o1] by auto
  have "login_run E order 0 (Suc n) s0 (ph(1 := Idle), l1)" using login_run.more [OF assms(3) st1] s b(1) o1(1) by simp
  from login_run.more [OF this s3(1)] have "login_run E order 0 (Suc n) s0 s2" using o1(1) s3(2) by simp
  from login_run.more [OF this s3(3)] have "login_run E order 0 (n + 2) s0 s3" using s3(2,4) by (simp add: busy_def)
  moreover have "login_reach E order s3" using login_reach.step [OF login_reach.step [OF r1 s3(1)] s3(3)] .
  ultimately show ?thesis using s3(4) by blast
qed

lemma busy_runs: "\<exists>s0. login_reach E order s0 \<and> busy s0 \<and> (\<forall>k. \<exists>s. login_reach E order s \<and> busy s \<and> login_run E order 0 (2 * k) s0 s)"
proof -
  obtain l0 l where l: "LoginServerLoop_new 0 1 = Some l0" "LoginServerLoop_Init l0 = Some (0, l)" "login_inv (\<lambda>_. Idle) l" "ses_out l = {}"
      "sl_iShutdownStatus l = NOT_SHUTDOWN" "sl_arraySession l = [0]"
    using login_starts [of 0 1] by auto
  let ?l = "LoginServerLoop_Start 0 0 0 l"
  have "login_reach E order (\<lambda>_. Idle, ?l)" by (rule login_reach.start [OF l(1,2)])
  moreover have "ses_out ?l = {}" "sl_iShutdownStatus ?l = NOT_SHUTDOWN" "sl_arraySession ?l = [0]" using l by (simp_all add: LoginServerLoop_Start_def)
  ultimately obtain s0 where s0: "login_reach E order s0" "busy s0" using connect_busy login_reach.step by (metis (no_types, lifting))
  have "\<exists>s. login_reach E order s \<and> busy s \<and> login_run E order 0 (2 * k) s0 s" for k
  proof (induction k)
    case 0
    have "login_run E order 0 (2 * 0) s0 s0" by (simp add: login_run.none)
    with s0 show ?case by blast
  next
    case (Suc k)
    then obtain s where "login_reach E order s" "busy s" "login_run E order 0 (2 * k) s0 s" by blast
    from reconnect_busy [OF this] show ?case by simp
  qed
  with s0 show ?thesis by blast
qed

theorem login_sessions_witness:
  "\<exists>l0 l1 ph l. LoginServerLoop_new 0 1 = Some l0 \<and> LoginServerLoop_Init l0 = Some (0, l1) \<and>
     orun (login_next undefined undefined) [LE_Accept 1, LE_Command 0 (LC_SESSION (SC_ONCONNECT 1))] (\<lambda>_. Idle, LoginServerLoop_Start 0 0 0 l1) = Some (ph, l) \<and>
     ses_out l = {0} \<and> ph (se_pConnection (sl_Session l 0)) = Open \<and> SL_GetSession (se_iSessionId (sl_Session l 0)) l = Some (Some 0)"
proof -
  let ?es = "[LE_Accept 1, LE_Command 0 (LC_SESSION (SC_ONCONNECT 1))]" and ?ph = "\<lambda>_. Idle"
  obtain l0 l where l: "LoginServerLoop_new 0 1 = Some l0" "LoginServerLoop_Init l0 = Some (0, l)" "login_inv (\<lambda>_. Idle) l" "ses_out l = {}"
      "sl_iShutdownStatus l = NOT_SHUTDOWN" "sl_arraySession l = [0]"
    using login_starts [of 0 1] by auto
  let ?l = "LoginServerLoop_Start 0 0 0 l"
  have r: "login_reach undefined undefined (?ph, ?l)" by (rule login_reach.start [OF l(1,2)])
  obtain s2 where s2: "busy s2" "orun (login_next undefined undefined) ?es (?ph, ?l) = Some s2"
    using connect_busy [OF r] l(4-6) by (auto simp: LoginServerLoop_Start_def)
  obtain bs cs ph l' where p: "?es = bs @ cs" "orun (login_next undefined undefined) bs (?ph, ?l) = Some (ph, l')"
      "cs = [] \<or> (if is_login_data (hd cs) \<and> login_ok (hd cs) (ph, l') then login_next undefined undefined (hd cs) (ph, l') = None
         else \<not> login_ok (hd cs) (ph, l'))"
      "\<forall>p \<in> ses_out l'. let s = sl_Session l' p in ph (se_pConnection s) = Open \<and> sl_client l' (se_pConnection s) = Some p \<and>
         odd (id_sequence (se_iSessionId s)) \<and> SL_GetSession (se_iSessionId s) l' = Some (Some p)"
    using login_sessions [OF l(1,2), where E = undefined and order = undefined and es = ?es and now = 0 and a = 0 and b = 0]
    by (elim exE conjE) (rule that)
  consider "bs = []" "cs = ?es" | "bs = [LE_Accept 1]" "cs = tl ?es" | "bs = ?es" "cs = []" using p(1) by (auto simp: Cons_eq_append_conv)
  then have "bs = ?es"
  proof cases
    case 1
    then show ?thesis using p(2,3) by (auto simp: login_ok_def is_login_data_def)
  next
    case 2
    then show ?thesis using p(2,3) by (auto simp: login_ok_def is_login_data_def)
  qed
  then have "s2 = (ph, l')" using p(2) s2(2) by (simp only: option.inject)
  then have "ses_out l' = {0}" using s2(1) by (simp add: busy_def)
  with p(4) l(1,2) s2(2) \<open>s2 = (ph, l')\<close> show ?thesis by (intro exI [of _ l0] exI [of _ l] exI [of _ ph] exI [of _ l']) (simp only: Let_def, simp)
qed

theorem session_id_reuse_witness:
  "\<exists>E order s s'. login_run E order 0 256 s s' \<and> 0 \<in> ses_out (snd s') \<and>
     SL_GetSession (se_iSessionId (sl_Session (snd s) 0)) (snd s') = Some (Some 0)"
proof -
  obtain s0 s where s: "login_reach undefined undefined s0" "busy s0" "login_run undefined undefined 0 (2 * 128) s0 s"
    using busy_runs by blast
  have "0 \<in> ses_out (snd s0)" using s(2) by (simp add: busy_def)
  from session_id_reuse [OF s(1) this s(3)] have "0 \<in> ses_out (snd s)"
      "SL_GetSession (se_iSessionId (sl_Session (snd s0) 0)) (snd s) = Some (Some 0)" by simp_all
  moreover have "login_run undefined undefined 0 256 s0 s" using s(3) by simp
  ultimately show ?thesis by blast
qed

section \<open>The map of sessions only grows\<close>

text \<open>The map of sessions only grows, and looking up the id of a session in use finds nothing: sessions are inserted under the id they had before
  their sequence number was advanced, and erased under the id after it.\<close>

theorem session_map_never_erased:
  assumes "login_reach E order s" "login_run E order p n s s'"
  shows "sl_mSessionMap (snd s) \<subseteq>\<^sub>m sl_mSessionMap (snd s') \<and>
    (\<forall>q \<in> ses_out (snd s'). sl_mSessionMap (snd s') (se_iSessionId (sl_Session (snd s') q)) = None)"
proof (intro conjI ballI)
  show "sl_mSessionMap (snd s) \<subseteq>\<^sub>m sl_mSessionMap (snd s')" using run_ids [OF assms(2,1)] by blast
  note I = login_reach_inv [OF run_reach [OF assms(2,1)]]
  fix q assume "q \<in> ses_out (snd s')"
  then have "odd (id_sequence (se_iSessionId (sl_Session (snd s') q)))" using inv_live [OF I] by (simp add: sess_live_def)
  then show "sl_mSessionMap (snd s') (se_iSessionId (sl_Session (snd s') q)) = None"
    using I unfolding login_inv_def map_ok_def by (metis option.exhaust)
qed

theorem session_map_never_erased_witness:
  "\<exists>E order s s'. login_run E order 0 2 s s' \<and> sl_mSessionMap (snd s) \<subseteq>\<^sub>m sl_mSessionMap (snd s') \<and>
     sl_mSessionMap (snd s') (se_iSessionId (sl_Session (snd s') 0)) = None"
proof -
  obtain s0 s where s: "login_reach undefined undefined s0" "busy s" "login_run undefined undefined 0 (2 * 1) s0 s"
    using busy_runs by blast
  then have "0 \<in> ses_out (snd s)" by (simp add: busy_def)
  moreover have "login_run undefined undefined 0 2 s0 s" using s(3) by simp
  ultimately show ?thesis using session_map_never_erased [OF s(1,3)] by blast
qed

section \<open>Disconnecting\<close>

text \<open>C30: When a client disconnects, its session is given back with the next sequence number and its connection closed, and nothing is sent
  to the master server, also when the session was waiting for a gate: the session is cleared before its state is looked at.\<close>

theorem login_disconnect_unreported:
  assumes "login_reach E order (ph, l)" "ph c = Open" "sl_client l c = Some p"
  shows "\<exists>l'. Login_OnCommand fuel E order (LC_SESSION (SC_ONDISCONNECT c)) l = Some l' \<and> ses_out l' = ses_out l - {p} \<and>
    ses_state p l' = SESSION_STATE_NONE \<and> se_pConnection (sl_Session l' p) = NULL \<and>
    se_iSessionId (sl_Session l' p) = next_sequence (se_iSessionId (sl_Session l p)) \<and> (\<forall>q. q \<noteq> p \<longrightarrow> sl_Session l' q = sl_Session l q) \<and>
    sl_calls l' = sl_calls l @ [Connection_Close c] \<and> sl_mSessionMap l' = sl_mSessionMap l \<and> lg_sent l' = lg_sent l"
proof -
  note I = login_reach_inv [OF assms(1), simplified]
  obtain l' where l': "Login_OnCommand fuel E order (LC_SESSION (SC_ONDISCONNECT c)) l = Some l'" "disconnect_post c l l'"
    using disconnect_cmd_ok [OF I assms(2), of fuel E order] by (auto simp: wp_def)
  have "se_pConnection (sl_Session l p) = c" using I assms(2,3) by (simp add: inv_defs)
  with l' assms(3) show ?thesis
    by (simp add: disconnect_post_def disconnected_def sess_free_def ses_state_def GetCurrState_def)
qed

theorem login_disconnect_unreported_witness:
  "\<exists>E order l l'. Login_OnCommand 0 E order (LC_SESSION (SC_ONDISCONNECT 1)) l = Some l' \<and> ses_out l = {0} \<and> ses_out l' = {} \<and>
     sl_calls l' = sl_calls l @ [Connection_Close 1] \<and> lg_sent l' = lg_sent l"
proof -
  obtain ph l where r: "login_reach undefined undefined (ph, l)" "busy (ph, l)" using busy_runs by (metis surj_pair)
  then have b: "ses_out l = {0}" "ph 1 = Open" "sl_client l 1 = Some 0" by (simp_all add: busy_def)
  from login_disconnect_unreported [OF r(1) b(2,3), of 0] b(1) show ?thesis by (metis Diff_cancel)
qed

section \<open>The version of the client\<close>

lemma version_row: "s \<in> set used_states \<Longrightarrow> s \<noteq> SESSION_STATE_LOGGEDIN \<Longrightarrow> ltr s SESSION_EVENT_ONVERSIONREQ = None"
proof -
  have "list_all (\<lambda>s. s \<noteq> SESSION_STATE_LOGGEDIN \<longrightarrow> ltr s SESSION_EVENT_ONVERSIONREQ = None) used_states" by code_simp
  then show "s \<in> set used_states \<Longrightarrow> s \<noteq> SESSION_STATE_LOGGEDIN \<Longrightarrow> ?thesis" by (simp add: list_all_iff)
qed

text \<open>The calls that answer a version: the packet, if there is a buffer for it, and disconnecting.\<close>

definition version_ack :: "bool \<Rightarrow> ptr \<Rightarrow> i32 \<Rightarrow> net_call list" where
  "version_ack buffer c reason = (if buffer then [AsyncSend c (le16 0x0100 @ le16 4 @ le32 reason)] else [])"

lemma VersionAck_eq:
  assumes "se_pConnection (sl_Session l p) \<noteq> NULL"
  shows "LoginServerSend_VersionAck E i p l = Some (0, l\<lparr>sl_pops := Suc (sl_pops l),
    sl_calls := sl_calls l @ version_ack (sv_pop E (sl_pops l)) (se_pConnection (sl_Session l p)) i\<rparr>)"
  using assms by (simp add: LoginServerSend_VersionAck_def SBSession_SendData_def SB_PopOutputBuffer_def net_do_def version_ack_def Let_def le32_def)

lemma Disconnect_eq:
  "se_pConnection (sl_Session l p) \<noteq> NULL \<Longrightarrow>
     LoginSession_Disconnect E p l = Some (net_do (AsyncDisconnect (se_pConnection (sl_Session l p))) l)"
  by (simp add: LoginSession_Disconnect_def SBSession_Disconnect_def Let_def)

text \<open>C24: A version request is accepted exactly in the state after logging in, with the right version, when the master server can be asked; then
  the client is told and the master server is sent the login request with the name of the account.  Otherwise the client is disconnected, with an answer if only
  the version was wrong.\<close>

theorem login_version_check:
  fixes E :: lenv and l :: LoginServerLoop
  assumes "login_reach E order (ph, l)" "p \<in> ses_out l"
  defines "c \<equiv> se_pConnection (sl_Session l p)" and "ack \<equiv> version_ack (sv_pop E (sl_pops l)) (se_pConnection (sl_Session l p))"
    and "r \<equiv> sv_net E (length (lg_sent l))"
    and "req \<equiv> Msg_OnLoginReq (se_iSessionId (sl_Session l p)) (ls_strAccountName (sl_Session l p))"
  shows "\<exists>l'. LoginSession_OnVersionReq E iVersion p l = Some l' \<and> (\<forall>q. q \<noteq> p \<longrightarrow> sl_Session l' q = sl_Session l q) \<and>
    (if ses_state p l \<noteq> SESSION_STATE_LOGGEDIN
       then ses_state p l' = ses_state p l \<and> sl_calls l' = sl_calls l @ [AsyncDisconnect c] \<and> lg_sent l' = lg_sent l
     else if iVersion \<noteq> CLIENT_VERSION
       then ses_state p l' = SESSION_STATE_ONVERSIONREQ \<and> sl_calls l' = sl_calls l @ ack 1 @ [AsyncDisconnect c] \<and> lg_sent l' = lg_sent l
     else if r \<noteq> 0
       then ses_state p l' = SESSION_STATE_ONVERSIONREQ \<and> sl_calls l' = sl_calls l @ ack 0 @ [AsyncDisconnect c] \<and> lg_sent l' = lg_sent l @ [(req, r)]
     else ses_state p l' = SESSION_STATE_ONLOGINREQ \<and> sl_calls l' = sl_calls l @ ack 0 \<and> lg_sent l' = lg_sent l @ [(req, r)])"
proof -
  note live = inv_live [OF login_reach_inv [OF assms(1), simplified] assms(2)]
  have f: "sess_fsm (sl_Session l p)" "sess_state (sl_Session l p) \<in> set used_states" "se_pConnection (sl_Session l p) \<noteq> NULL"
    using live by (simp_all add: sess_live_def)
  have e: "event_ok SESSION_EVENT_ONVERSIONREQ" "event_ok SESSION_EVENT_ONLOGINREQ" by (simp_all add: event_ok_def)
  define l1 where "l1 = ses_upd p (\<lambda>x. x\<lparr>se_StateMachine := (se_StateMachine x)\<lparr>sm_iCurrState := SESSION_STATE_ONVERSIONREQ\<rparr>\<rparr>) l"
  have l1: "sl_Session l1 p = (sl_Session l p)\<lparr>se_StateMachine := (se_StateMachine (sl_Session l p))\<lparr>sm_iCurrState := SESSION_STATE_ONVERSIONREQ\<rparr>\<rparr>"
      "\<And>q. q \<noteq> p \<Longrightarrow> sl_Session l1 q = sl_Session l q" "sl_calls l1 = sl_calls l" "lg_sent l1 = lg_sent l" "sl_pops l1 = sl_pops l"
    by (simp_all add: l1_def ses_upd_def)
  have fsm1: "sess_fsm (sl_Session l2 p)" if "sl_Session l2 = sl_Session l1" for l2 :: LoginServerLoop
    using f(1) that by (simp add: l1 machine_ok_def fsm_inv_def fsm_fun_def)
  show ?thesis
  proof (cases "sess_state (sl_Session l p) = SESSION_STATE_LOGGEDIN")
    case False
    then show ?thesis using ses_fsm_eq [OF f(1) e(1), of True] version_row [OF f(2)] f(3)
      by (simp add: LoginSession_OnVersionReq_def Disconnect_eq ses_state_def GetCurrState_def net_do_def c_def)
  next
    case True
    then have "ses_fsm p SESSION_EVENT_ONVERSIONREQ True l = Some (SESSION_STATE_ONVERSIONREQ, l1)"
      using ses_fsm_eq [OF f(1) e(1), of True] ltr_facts(3) by (simp add: l1_def)
    then show ?thesis
      using True f(3) ses_fsm_eq [OF fsm1 e(2), of _ True] ltr_facts(4)
      by (simp add: LoginSession_OnVersionReq_def VersionAck_eq Disconnect_eq send_master_def Let_def l1 net_do_def ses_state_def GetCurrState_def
          c_def ack_def r_def req_def) (simp add: ses_upd_def l1)
  qed
qed

theorem login_version_check_witness:
  "\<exists>(E :: lenv) l l'. LoginSession_OnVersionReq E 1 0 l = Some l' \<and> ses_state 0 l = SESSION_STATE_ONCONNECTION \<and>
     sl_calls l' = sl_calls l @ [AsyncDisconnect (se_pConnection (sl_Session l 0))]"
proof -
  obtain ph l where r: "login_reach undefined undefined (ph, l)" "busy (ph, l)" using busy_runs by (metis surj_pair)
  then have b: "0 \<in> ses_out l" "ses_state 0 l = SESSION_STATE_ONCONNECTION" by (simp_all add: busy_def)
  from login_version_check [OF r(1) b(1), of 1] b(2) show ?thesis by auto
qed

section \<open>Receiving\<close>

text \<open>A session that handles data does not change state before the first packet.\<close>

lemma OnData_start:
  assumes "sess_fsm (sl_Session l p)" "ltr (ses_state p l) SESSION_EVENT_ONDATA = Some (ses_state p l)"
  shows "SBSession_OnData n E V data p l = SBSession_OnData_loop n E V data p l"
proof -
  have "event_ok SESSION_EVENT_ONDATA" by (simp add: event_ok_def)
  from ses_fsm_eq [OF assms(1) this, of False] assms(2) show ?thesis
    by (simp add: SBSession_OnData_def ses_state_def GetCurrState_def)
qed

lemma data_rows:
  "ltr SESSION_STATE_ONCONNECTION SESSION_EVENT_ONDATA = Some SESSION_STATE_ONCONNECTION"
  "ltr SESSION_STATE_LOGGEDIN SESSION_EVENT_ONDATA = Some SESSION_STATE_LOGGEDIN"
  by code_simp+

text \<open>A receive that does not fit behind the buffered bytes is copied with the excess as its length: when the excess is larger than
  the room left, the copy runs over the end of the buffer.\<close>

theorem session_receive_overflow:
  assumes "login_reach E order (ph, l)" "p \<in> ses_out l" "ses_state p l \<in> {SESSION_STATE_ONCONNECTION, SESSION_STATE_LOGGEDIN}"
    and "sl_iShutdownStatus l = NOT_SHUTDOWN"
    and "unat (se_iRecvBufLen (sl_Session l p)) + length data > SB_INPUT_BUFFER"
    and "2 * unat (se_iRecvBufLen (sl_Session l p)) + length data > 2 * SB_INPUT_BUFFER"
  shows "SBSession_OnData (Suc fuel) E (LoginSession_vtable E) data p l = None \<and>
    Login_OnCommand (Suc fuel) E order (LC_SESSION (SC_ONDATA (se_pConnection (sl_Session l p)) data)) l = None"
proof -
  note I = login_reach_inv [OF assms(1), simplified]
  have f: "sess_fsm (sl_Session l p)" using inv_live [OF I assms(2)] by (simp add: sess_live_def)
  have "ltr (ses_state p l) SESSION_EVENT_ONDATA = Some (ses_state p l)" using assms(3) data_rows by auto
  note start = OnData_start [OF f this]
  have "length (se_RecvBuf (sl_Session l p)) = SB_INPUT_BUFFER" using f by (simp add: machine_ok_def)
  then have none: "SBSession_OnData (Suc fuel) E (LoginSession_vtable E) data p l = None"
    using assms(5,6) unfolding start by (simp add: Let_def)
  have "sl_client l (se_pConnection (sl_Session l p)) = Some p" using conn_used(1) [OF _ assms(2)] I unfolding login_inv_def by blast
  with none show ?thesis using assms(4) unfolding session_command_eqs by (simp add: SL_OnCommandOnData_def)
qed

theorem session_receive_overflow_witness:
  "\<exists>E order l. ses_out l = {0} \<and> Login_OnCommand 9 E order (LC_SESSION (SC_ONDATA (se_pConnection (sl_Session l 0)) (replicate 2049 0))) l = None"
proof -
  obtain ph l where r: "login_reach undefined undefined (ph, l)" "busy (ph, l)" using busy_runs by (metis surj_pair)
  then have b: "0 \<in> ses_out l" "ses_out l = {0}" "ses_state 0 l \<in> {SESSION_STATE_ONCONNECTION, SESSION_STATE_LOGGEDIN}"
      "sl_iShutdownStatus l = NOT_SHUTDOWN" "se_iRecvBufLen (sl_Session l 0) = 0"
    by (simp_all add: busy_def)
  have "Login_OnCommand (Suc 8) undefined undefined (LC_SESSION (SC_ONDATA (se_pConnection (sl_Session l 0)) (replicate 2049 0))) l = None"
    using session_receive_overflow [OF r(1) b(1,3,4), of "replicate 2049 0" 8] b(5) by simp
  with b(2) show ?thesis by auto
qed

text \<open>The length in a packet and the four bytes of its head overflow together: a packet of length 65532 has full length 0, so
  taking it from the buffer leaves the buffer as it is.\<close>

lemma cut_front_0:
  assumes "length (se_RecvBuf s) = SB_INPUT_BUFFER" "unat (se_iRecvBufLen s) \<le> SB_INPUT_BUFFER"
  shows "cut_front 0 s = Some s"
  using assms by (simp add: cut_front_def memmove_def memcpy_def)

lemma packet_loop_stuck:
  assumes "length (se_RecvBuf (sl_Session l p)) = SB_INPUT_BUFFER" "unat (se_iRecvBufLen (sl_Session l p)) \<le> SB_INPUT_BUFFER"
    "SERVER_PACKET_HEAD \<le> unat (se_iRecvBufLen (sl_Session l p))" "get16 (se_RecvBuf (sl_Session l p)) 2 = 65532"
    "vt_HandlePacket V (get16 (se_RecvBuf (sl_Session l p)) 0) 65532 (take 65532 (drop SERVER_PACKET_HEAD (se_RecvBuf (sl_Session l p)))) p l = Some l"
  shows "packet_loop n V p l = Some (False, l)"
proof (induction n)
  case (Suc n)
  have "ses_upd p (\<lambda>_. sl_Session l p) l = l" by (simp add: ses_upd_def)
  moreover have "(65532 :: u16) + of_nat SERVER_PACKET_HEAD = 0" by simp
  ultimately show ?case using Suc assms cut_front_0 [OF assms(1,2)]
    by (simp del: of_nat_numeral add: Let_def)
qed simp

lemma SBSession_OnData_packets:
  assumes "sess_fsm (sl_Session l p)" "ltr (ses_state p l) SESSION_EVENT_ONDATA = Some (ses_state p l)"
    and "ses_state p l \<noteq> SESSION_STATE_ONCONNECTION" "unat (se_iRecvBufLen (sl_Session l p)) + length data \<le> SB_INPUT_BUFFER"
    and "mem_write (se_RecvBuf (sl_Session l p)) (unat (se_iRecvBufLen (sl_Session l p))) data = Some buf"
    and "l1 = ses_upd p (\<lambda>s. s\<lparr>se_RecvBuf := buf, se_iRecvBufLen := se_iRecvBufLen s + of_nat (length data)\<rparr>) l"
    and "packet_loop n V p l1 = Some (False, l2)"
  shows "SBSession_OnData (Suc n) E V data p l = Some (False, l2)"
proof -
  have "ses_state p l1 \<noteq> SESSION_STATE_ONCONNECTION" using assms(3) unfolding assms(6) by (simp add: ses_state_def ses_upd_def)
  with assms(4-7) show ?thesis unfolding OnData_start [OF assms(1,2)] by (simp add: Let_def)
qed

text \<open>A packet of length 65532 makes \<open>OnData\<close> loop forever: with any fuel the loop has not ended.\<close>

theorem packet_length_hangs:
  assumes "sess_fsm (sl_Session l p)" "ses_state p l = SESSION_STATE_LOGGEDIN" "se_iRecvBufLen (sl_Session l p) = 0"
    and "\<And>data. sv_recv E (get16 [a, b] 0) data = None" and "length rest \<le> 1000"
  shows "\<exists>l'. SBSession_OnData n E (LoginSession_vtable E) ([a, b, 0xFC, 0xFF] @ rest) p l = Some (False, l')"
proof (cases n)
  case (Suc m)
  let ?data = "[a, b, 0xFC, 0xFF] @ rest"
  have buf: "length (se_RecvBuf (sl_Session l p)) = SB_INPUT_BUFFER" using assms(1) by (simp add: machine_ok_def)
  let ?buf = "?data @ drop (length ?data) (se_RecvBuf (sl_Session l p))"
  let ?l = "ses_upd p (\<lambda>s. s\<lparr>se_RecvBuf := ?buf, se_iRecvBufLen := se_iRecvBufLen s + of_nat (length ?data)\<rparr>) l"
  have w: "mem_write (se_RecvBuf (sl_Session l p)) (unat (se_iRecvBufLen (sl_Session l p))) ?data = Some ?buf"
    using assms(3,5) buf by simp
  have len: "se_iRecvBufLen (sl_Session ?l p) = of_nat (length ?data)" using assms(3) by (simp add: ses_upd_def)
  have n: "unat (of_nat (length ?data) :: u16) = length ?data"
    using assms(5) by (subst unat_of_nat) simp
  have "packet_loop m (LoginSession_vtable E) p ?l = Some (False, ?l)"
  proof (rule packet_loop_stuck)
    show "length (se_RecvBuf (sl_Session ?l p)) = SB_INPUT_BUFFER" using assms(5) buf by (simp add: ses_upd_def)
    show "unat (se_iRecvBufLen (sl_Session ?l p)) \<le> SB_INPUT_BUFFER" "SERVER_PACKET_HEAD \<le> unat (se_iRecvBufLen (sl_Session ?l p))"
      unfolding len n using assms(5) by simp_all
    show "get16 (se_RecvBuf (sl_Session ?l p)) 2 = 65532" by (simp add: ses_upd_def get16_def)
    have "get16 (se_RecvBuf (sl_Session ?l p)) 0 = get16 [a, b] 0" by (simp add: ses_upd_def get16_def)
    then show "vt_HandlePacket (LoginSession_vtable E) (get16 (se_RecvBuf (sl_Session ?l p)) 0) 65532
        (take 65532 (drop SERVER_PACKET_HEAD (se_RecvBuf (sl_Session ?l p)))) p ?l = Some ?l"
      using assms(4) by (simp add: LoginSession_vtable_def LoginSession_HandlePacket_def)
  qed
  then show ?thesis unfolding Suc
    by (intro exI, intro SBSession_OnData_packets [OF assms(1) _ _ _ w refl]) (use assms(2,3,5) data_rows in simp_all)
next
  case 0
  have "ltr (ses_state p l) SESSION_EVENT_ONDATA = Some (ses_state p l)" using assms(2) data_rows by simp
  then show ?thesis using OnData_start [OF assms(1), of 0 E "LoginSession_vtable E" "[a, b, 0xFC, 0xFF] @ rest"] 0 by simp
qed

theorem packet_length_hangs_witness:
  "\<exists>(E :: lenv) l. ses_state 0 l = SESSION_STATE_LOGGEDIN \<and>
     (\<forall>n. \<exists>l'. SBSession_OnData n E (LoginSession_vtable E) ([0, 0, 0xFC, 0xFF] @ []) 0 l = Some (False, l'))"
proof -
  let ?E = "(undefined :: lenv)\<lparr>sv_recv := \<lambda>_ _. None\<rparr>"
  obtain s where s: "login_reach undefined undefined s" "busy s" using busy_runs by blast
  then have b: "0 \<in> ses_out (snd s)" "se_iRecvBufLen (sl_Session (snd s) 0) = 0" by (simp_all add: busy_def)
  have f: "sess_fsm (sl_Session (snd s) 0)" using inv_live [OF login_reach_inv [OF s(1)] b(1)] by (simp add: sess_live_def)
  let ?l = "ses_upd 0 (\<lambda>s. s\<lparr>se_StateMachine := (se_StateMachine s)\<lparr>sm_iCurrState := SESSION_STATE_LOGGEDIN\<rparr>\<rparr>) (snd s)"
  have l: "sess_fsm (sl_Session ?l 0)" "ses_state 0 ?l = SESSION_STATE_LOGGEDIN" "se_iRecvBufLen (sl_Session ?l 0) = 0"
    using f b(2) by (simp_all add: ses_upd_def machine_ok_def fsm_inv_def fsm_fun_def ses_state_def GetCurrState_def)
  have "\<exists>l'. SBSession_OnData n ?E (LoginSession_vtable ?E) ([0, 0, 0xFC, 0xFF] @ []) 0 ?l = Some (False, l')" for n
    by (rule packet_length_hangs [OF l]) simp_all
  with l(2) show ?thesis by blast
qed

end
