(* ===== verification/GateServer.thy ===== *)
theory GateServer
  imports SessionFrame
begin

text \<open>
  The gate server (\<open>FTServer/Src/GateServer\<close>): \<open>GateSession\<close> (\<open>gate_session.cpp\<close>, \<open>gate_session_state.cpp\<close>) and
  \<open>GateServerLoop\<close> (\<open>gate_server_loop.cpp\<close>) on the sessions of \<open>SessionBase\<close>, with the packets of clients (\<open>packet_impl.cpp\<close>) and the
  messages of the other servers (\<open>peer_impl.cpp\<close>).

  The master server announces an account, for which a session is taken from the pool.  When the client connects it gets a
  temporary session; after its token is checked the connection is handed over to the session of the account, and the
  temporary one is finalized.  Packets of the client are forwarded as they came to the master server or to the region server the session is bound
  to.  \<open>gl_sent\<close> records the messages to other servers with the results of sending.
\<close>

abbreviation GATE_ACCOUNTNAME_MAX :: nat where "GATE_ACCOUNTNAME_MAX \<equiv> 32"
abbreviation GATE_PASSWORD_MAX :: nat where "GATE_PASSWORD_MAX \<equiv> 32"
abbreviation BROADCAST_SESSION_MAX :: nat where "BROADCAST_SESSION_MAX \<equiv> 128"

abbreviation SESSION_STATE_TRANSFERED :: int where "SESSION_STATE_TRANSFERED \<equiv> 6"
abbreviation SESSION_STATE_ONGATEALLOCREQ :: int where "SESSION_STATE_ONGATEALLOCREQ \<equiv> 7"
abbreviation SESSION_STATE_GATEALLOCACK :: int where "SESSION_STATE_GATEALLOCACK \<equiv> 8"
abbreviation SESSION_STATE_GATERELEASEREQ :: int where "SESSION_STATE_GATERELEASEREQ \<equiv> 9"
abbreviation SESSION_STATE_GATELOGINREQ :: int where "SESSION_STATE_GATELOGINREQ \<equiv> 10"
abbreviation SESSION_STATE_HOLDCONNECTION :: int where "SESSION_STATE_HOLDCONNECTION \<equiv> 11"
abbreviation SESSION_STATE_ONMASTERDISCONNECT :: int where "SESSION_STATE_ONMASTERDISCONNECT \<equiv> 12"
abbreviation SESSION_EVENT_TRANSFERED :: int where "SESSION_EVENT_TRANSFERED \<equiv> 7"
abbreviation SESSION_EVENT_ONGATEALLOCREQ :: int where "SESSION_EVENT_ONGATEALLOCREQ \<equiv> 8"
abbreviation SESSION_EVENT_GATEALLOCACK :: int where "SESSION_EVENT_GATEALLOCACK \<equiv> 9"
abbreviation SESSION_EVENT_GATERELEASEREQ :: int where "SESSION_EVENT_GATERELEASEREQ \<equiv> 10"
abbreviation SESSION_EVENT_GATELOGINREQ :: int where "SESSION_EVENT_GATELOGINREQ \<equiv> 11"
abbreviation SESSION_EVENT_ONMASTERDISCONNECT :: int where "SESSION_EVENT_ONMASTERDISCONNECT \<equiv> 12"
abbreviation SESSION_EVENT_SESSIONDISCONNECTREQ :: int where "SESSION_EVENT_SESSIONDISCONNECTREQ \<equiv> 13"

definition gate_table :: "(int \<times> (int \<times> int) list) list" where
  "gate_table = [
     (SESSION_STATE_NONE, [(SESSION_EVENT_ONGATEALLOCREQ, SESSION_STATE_ONGATEALLOCREQ)]),
     (SESSION_STATE_ONCONNECTION, [(SESSION_EVENT_LOGGEDIN, SESSION_STATE_TRANSFERED)]),
     (SESSION_STATE_TRANSFERED, []),
     (SESSION_STATE_ONGATEALLOCREQ, [(SESSION_EVENT_GATEALLOCACK, SESSION_STATE_GATEALLOCACK)]),
     (SESSION_STATE_GATEALLOCACK, [(SESSION_EVENT_TRANSFERED, SESSION_STATE_LOGGEDIN)]),
     (SESSION_STATE_GATERELEASEREQ, []),
     (SESSION_STATE_LOGGEDIN, [(SESSION_EVENT_GATELOGINREQ, SESSION_STATE_GATELOGINREQ)]),
     (SESSION_STATE_GATELOGINREQ,
       [(SESSION_EVENT_DISCONNECT, SESSION_STATE_DISCONNECT),
        (SESSION_EVENT_ONDISCONNECT, SESSION_STATE_HOLDCONNECTION),
        (SESSION_EVENT_ONDATA, SESSION_STATE_GATELOGINREQ),
        (SESSION_EVENT_SEND, SESSION_STATE_GATELOGINREQ),
        (SESSION_EVENT_ONMASTERDISCONNECT, SESSION_STATE_ONMASTERDISCONNECT)]),
     (SESSION_STATE_HOLDCONNECTION, [(SESSION_EVENT_SESSIONDISCONNECTREQ, SESSION_STATE_ONDISCONNECT)]),
     (SESSION_STATE_ONMASTERDISCONNECT, [(SESSION_EVENT_ONDISCONNECT, SESSION_STATE_ONDISCONNECT)])]"

definition GateSession_InitStateMachine :: "StateMachine \<Rightarrow> StateMachine option" where
  "GateSession_InitStateMachine m = do { m \<leftarrow> Session_InitStateMachine m; init_states gate_table m }"

section \<open>Data\<close>

record GateSession = Session +
  gs_strAccountName :: tstring
  gs_iLoginSessionId :: u32
  gs_bFinalizing :: bool
  gs_bTempSession :: bool
  gs_pRegionServer :: ptr

datatype gate_msg =
    GMsg_OnSessionDisconnect u32 | GMsg_GateAllocAck u8 u32 tstring u32 | GMsg_OnGateLoginReq u32 tstring
  | GMsg_PacketForward "ptr option" u32 u16 "byte list" | GMsg_GateReportState u8 u16

text \<open>The packets a client sends: those for the master server and those for a region server.  Their handlers do not look at what
  is in them.\<close>

datatype client_packet =
    AvatarListReq | AvatarCreateReq "byte list" | AvatarSelectReq "byte list" | ChannelSelectReq "byte list" | ChannelLeaveReq
  | ClientTimeReq u32 | RegionChatReq "byte list"

datatype gate_command =
    GC_SESSION session_command | GC_GATEALLOCREQ u32 tstring | GC_GATERELEASEREQ u32 tstring | GC_REGIONBINDREQ u32 u8

record GateServerLoop = "GateSession sloop" +
  gl_Alarm :: Alarm
  gl_iServerId :: u8
  gl_mSessionMapByName :: "tstring \<rightharpoonup> ptr"
  gl_SessionFinalizingQueue :: "ptr list"
  gl_iSessionMax :: u16
  gl_iTempSessionMax :: u16
  gl_iSessionCount :: u16
  gl_iTempSessionCount :: u16
  gl_iDelayTypeId :: u16
  gl_iDelayLen :: u16
  gl_DelayBuf :: "byte list"
  gl_sent :: "(gate_msg \<times> i32) list"

text \<open>\<open>gv_peer\<close> is \<open>GetPeerServer\<close>.\<close>

record genv = "client_packet senv" +
  gv_peer :: "u8 \<Rightarrow> ptr"

definition send_peer :: "genv \<Rightarrow> gate_msg \<Rightarrow> GateServerLoop \<Rightarrow> i32 \<times> GateServerLoop" where
  "send_peer E msg l = (let r = sv_net E (length (gl_sent l)) in (r, l\<lparr>gl_sent := gl_sent l @ [(msg, r)]\<rparr>))"

section \<open>The session\<close>

definition GateSession_Clear :: "GateSession \<Rightarrow> GateSession" where
  "GateSession_Clear s = (Session_Clear s)\<lparr>gs_strAccountName := [], gs_bTempSession := True, gs_bFinalizing := False, gs_pRegionServer := NULL\<rparr>"

definition GateSession_new :: "GateSession option" where
  "GateSession_new = do {
     sm \<leftarrow> GateSession_InitStateMachine (se_StateMachine Session_new);
     Some (Session.extend (Session_new\<lparr>se_StateMachine := sm\<rparr>) (GateSession.fields [] 0 False True NULL))
   }"

text \<open>The loop's \<open>CloseSession\<close>.\<close>

definition Gate_CloseSession :: "genv \<Rightarrow> bool \<Rightarrow> ptr \<Rightarrow> GateServerLoop \<Rightarrow> GateServerLoop option" where
  "Gate_CloseSession E isByMaster p l =
     (let s = sl_Session l p; st = ses_state p l in
      if gs_bFinalizing s then Some l
      else if st = SESSION_STATE_ONCONNECTION \<or> st = SESSION_STATE_LOGGEDIN \<or> st = SESSION_STATE_GATELOGINREQ then
        (if se_pConnection s = NULL then None else Some (net_do (AsyncDisconnect (se_pConnection s)) l))
      else
        (let l = (if st = SESSION_STATE_ONGATEALLOCREQ \<and> \<not> isByMaster \<and> sl_iShutdownStatus l \<noteq> START_SHUTDOWN
           then snd (send_peer E (GMsg_GateAllocAck (gl_iServerId l) (gs_iLoginSessionId s) (gs_strAccountName s) (se_iSessionId s)) l) else l) in
         Some (ses_upd p (\<lambda>s. s\<lparr>gs_bFinalizing := True\<rparr>)
           (l\<lparr>gl_SessionFinalizingQueue := gl_SessionFinalizingQueue l @ [p]\<rparr>))))"

definition GateSession_OnConnection :: "ptr \<Rightarrow> ptr \<Rightarrow> GateServerLoop \<Rightarrow> (int \<times> GateServerLoop) option" where
  "GateSession_OnConnection connId p l = do {
     (r, l) \<leftarrow> SBSession_OnConnection connId p l;
     Some (0, ses_upd p (\<lambda>s. s\<lparr>gs_bTempSession := True\<rparr>) l)
   }"

definition GateSession_OnDisconnect :: "genv \<Rightarrow> ptr \<Rightarrow> GateServerLoop \<Rightarrow> GateServerLoop option" where
  "GateSession_OnDisconnect E p l = do {
     (r, l) \<leftarrow> ses_fsm p SESSION_EVENT_ONDISCONNECT True l;
     if r < 0 then Some l else do {
       let c = se_pConnection (sl_Session l p);
       let l = (if c \<noteq> NULL then ses_upd p (\<lambda>s. s\<lparr>se_pConnection := NULL\<rparr>) (net_do (Connection_Close c) l) else l);
       let st = ses_state p l;
       if st = SESSION_STATE_HOLDCONNECTION then
         (if SL_IsStartShutdown l then Gate_CloseSession E False p l else do {
            let (iRet, l) = send_peer E (GMsg_OnSessionDisconnect (se_iSessionId (sl_Session l p))) l;
            if iRet \<noteq> 0 then Some l else do {
              (r, l) \<leftarrow> ses_fsm p SESSION_EVENT_SESSIONDISCONNECTREQ True l;
              Gate_CloseSession E False p l
            }
          })
       else if st = SESSION_STATE_ONDISCONNECT then do {
         let (iRet, l) = send_peer E (GMsg_OnSessionDisconnect (se_iSessionId (sl_Session l p))) l;
         if iRet \<noteq> 0 then Some l else Gate_CloseSession E False p l
       }
       else Some l
     }
   }"

definition GateSession_Disconnect :: "genv \<Rightarrow> ptr \<Rightarrow> GateServerLoop \<Rightarrow> GateServerLoop option" where
  "GateSession_Disconnect E p l = (if gs_bFinalizing (sl_Session l p) then Some l else do {
     (r, l) \<leftarrow> ses_fsm p SESSION_EVENT_DISCONNECT True l;
     if r < 0 then Some l else SBSession_Disconnect (GateSession_OnDisconnect E) p l
   })"

definition GateSession_OnGateAllocReq :: "genv \<Rightarrow> u32 \<Rightarrow> tstring \<Rightarrow> ptr \<Rightarrow> GateServerLoop \<Rightarrow> GateServerLoop option" where
  "GateSession_OnGateAllocReq E iLoginSessionId strAccountName p l = do {
     (r, l) \<leftarrow> ses_fsm p SESSION_EVENT_ONGATEALLOCREQ True l;
     if r \<noteq> SESSION_STATE_ONGATEALLOCREQ then Some l else do {
       name \<leftarrow> wcscpy_s (GATE_ACCOUNTNAME_MAX + 1) strAccountName;
       let l = ses_upd p (\<lambda>s. s\<lparr>se_iSessionId := next_sequence (se_iSessionId s), gs_strAccountName := name,
         gs_iLoginSessionId := iLoginSessionId, gs_bTempSession := False\<rparr>) l;
       let (iRet, l) = send_peer E (GMsg_GateAllocAck (gl_iServerId l) iLoginSessionId strAccountName (se_iSessionId (sl_Session l p))) l;
       if iRet \<noteq> 0 then Some l else do {
         (r, l) \<leftarrow> ses_fsm p SESSION_EVENT_GATEALLOCACK True l;
         Some l
       }
     }
   }"

definition GateSession_OnGateReleaseReq :: "genv \<Rightarrow> ptr \<Rightarrow> GateServerLoop \<Rightarrow> GateServerLoop option" where
  "GateSession_OnGateReleaseReq E p l = (if gs_bFinalizing (sl_Session l p) then Some l else do {
     (r, l) \<leftarrow> ses_fsm p SESSION_EVENT_GATERELEASEREQ True l;
     Gate_CloseSession E True p l
   })"

definition GateSession_OnRegionBindReq :: "genv \<Rightarrow> u8 \<Rightarrow> ptr \<Rightarrow> GateServerLoop \<Rightarrow> GateServerLoop" where
  "GateSession_OnRegionBindReq E iRegionServerId p l =
     (if gs_bFinalizing (sl_Session l p) then l else ses_upd p (\<lambda>s. s\<lparr>gs_pRegionServer := gv_peer E iRegionServerId\<rparr>) l)"

text \<open>\<open>p->Clone(q)\<close> takes over the connection of \<open>q\<close>.\<close>

definition GateSession_Clone :: "ptr \<Rightarrow> ptr \<Rightarrow> GateServerLoop \<Rightarrow> GateServerLoop option" where
  "GateSession_Clone p q l =
     (if gs_bTempSession (sl_Session l p) \<or> \<not> gs_bTempSession (sl_Session l q) then Some l else do {
        let src = sl_Session l q;
        let l = ses_upd p (\<lambda>s. s\<lparr>se_dwConnectionTime := se_dwConnectionTime src, se_dwLoggedInTime := se_dwLoggedInTime src,
          se_pConnection := se_pConnection src, gs_strAccountName := gs_strAccountName src\<rparr>) l;
        if se_pConnection src = NULL then None else Some (l\<lparr>sl_client := (sl_client l)(se_pConnection src \<mapsto> p)\<rparr>)
      })"

definition GateSession_OnSessionTransfered :: "genv \<Rightarrow> ptr \<Rightarrow> GateServerLoop \<Rightarrow> GateServerLoop option" where
  "GateSession_OnSessionTransfered E p l = do {
     (r, l) \<leftarrow> ses_fsm p SESSION_EVENT_TRANSFERED True l;
     if r \<noteq> SESSION_STATE_LOGGEDIN then Some l else do {
       let (iRet, l) = send_peer E (GMsg_OnGateLoginReq (se_iSessionId (sl_Session l p)) (gs_strAccountName (sl_Session l p))) l;
       if iRet \<noteq> 0 then GateSession_Disconnect E p l else do {
         (r, l) \<leftarrow> ses_fsm p SESSION_EVENT_GATELOGINREQ True l;
         Some l
       }
     }
   }"

definition GateSession_OnMasterDisconnect :: "genv \<Rightarrow> ptr \<Rightarrow> GateServerLoop \<Rightarrow> GateServerLoop option" where
  "GateSession_OnMasterDisconnect E p l = (if gs_bFinalizing (sl_Session l p) then Some l else do {
     (r, l) \<leftarrow> ses_fsm p SESSION_EVENT_ONMASTERDISCONNECT True l;
     if r \<noteq> SESSION_STATE_ONMASTERDISCONNECT then Some l
     else if se_pConnection (sl_Session l p) = NULL then None
     else Some (net_do (AsyncDisconnect (se_pConnection (sl_Session l p))) l)
   })"

text \<open>The loop's \<open>TransferSession\<close>: the temporary session must exist.\<close>

definition Gate_TransferSession :: "genv \<Rightarrow> u32 \<Rightarrow> tstring \<Rightarrow> GateServerLoop \<Rightarrow> (int \<times> GateServerLoop) option" where
  "Gate_TransferSession E iTempSessionId strAccountName l = (case gl_mSessionMapByName l strAccountName of
     None \<Rightarrow> Some (- 1, l)
   | Some q \<Rightarrow> do {
       pTempSession \<leftarrow> SL_GetSession iTempSessionId l;
       if ses_state q l \<noteq> SESSION_STATE_GATEALLOCACK \<and> ses_state q l \<noteq> SESSION_STATE_HOLDCONNECTION then Some (- 1, l)
       else case pTempSession of None \<Rightarrow> None
       | Some p \<Rightarrow> do {
           l \<leftarrow> GateSession_Clone q p l;
           l \<leftarrow> GateSession_OnSessionTransfered E q l;
           Some (0, l)
         }
     })"

definition GateSession_LoggedInNtf :: "genv \<Rightarrow> ptr \<Rightarrow> GateServerLoop \<Rightarrow> (int \<times> GateServerLoop) option" where
  "GateSession_LoggedInNtf E p l = (if gs_bFinalizing (sl_Session l p) then Some (- 1, l) else do {
     (r, l) \<leftarrow> ses_fsm p SESSION_EVENT_LOGGEDIN False l;
     if r = - 1 then Some (- 1, l) else do {
       (iRet, l) \<leftarrow> Gate_TransferSession E (se_iSessionId (sl_Session l p)) (gs_strAccountName (sl_Session l p)) l;
       if iRet \<noteq> 0 then do { l \<leftarrow> GateSession_Disconnect E p l; Some (- 1, l) } else do {
         (r, l) \<leftarrow> ses_fsm p SESSION_EVENT_LOGGEDIN True l;
         if r \<noteq> SESSION_STATE_TRANSFERED then Some (- 1, l) else do {
           l \<leftarrow> Gate_CloseSession E False p l;
           Some (0, l)
         }
       }
     }
   })"

definition GateSession_CheckLoginToken :: "genv \<Rightarrow> ptr \<Rightarrow> GateServerLoop \<Rightarrow> (int \<times> GateServerLoop) option" where
  "GateSession_CheckLoginToken E p l = (if gs_bFinalizing (sl_Session l p) then Some (- 1, l) else do {
     (pToken, k, buf) \<leftarrow> strtok_s (drop 10 (se_TokenPacket (sl_Session l p))) 0;
     let l = put_token p buf l;
     case pToken of None \<Rightarrow> Some (- 1, l)
     | Some t \<Rightarrow> (if length t > GATE_ACCOUNTNAME_MAX * 3 + 1 then Some (- 1, l) else do {
         strAccountName \<leftarrow> strcpy_s (GATE_ACCOUNTNAME_MAX * 3 + 1) t;
         (pToken, k, buf) \<leftarrow> strtok_s buf k;
         let l = put_token p buf l;
         case pToken of None \<Rightarrow> Some (- 1, l)
         | Some t \<Rightarrow> (if length t > GATE_PASSWORD_MAX + 1 then Some (- 1, l) else do {
             strPassword \<leftarrow> strcpy_s (GATE_PASSWORD_MAX + 1) t;
             case Char2WChar (sv_wide E) strAccountName (GATE_ACCOUNTNAME_MAX + 1) of
               None \<Rightarrow> Some (- 1, l)
             | Some w \<Rightarrow> (let l = ses_upd p (\<lambda>s. s\<lparr>gs_strAccountName := w\<rparr>) l in
                 if w = [] then Some (- 1, l)
                 else Some (0, ses_upd p (\<lambda>s. s\<lparr>gs_strAccountName := LowerCase w\<rparr>) l))
           })
       })
   })"

section \<open>Packets of clients\<close>

text \<open>A packet is saved before it is decoded, and its handler forwards what was saved.  The copy reads and writes \<open>iLen\<close> bytes,
  also when the buffers are shorter.\<close>

definition GateSession_DelaySendData :: "u16 \<Rightarrow> u16 \<Rightarrow> byte list \<Rightarrow> GateServerLoop \<Rightarrow> GateServerLoop option" where
  "GateSession_DelaySendData iTypeId iLen data l = (if length data < unat iLen then None else do {
     buf \<leftarrow> mem_write (gl_DelayBuf l) 0 (take (unat iLen) data);
     Some (l\<lparr>gl_iDelayTypeId := iTypeId, gl_iDelayLen := iLen, gl_DelayBuf := buf\<rparr>)
   })"

text \<open>\<open>SessionPeerSend::PacketForward\<close> to the master server (\<open>None\<close>) or to a region server, which must not be NULL.\<close>

definition gate_forward :: "genv \<Rightarrow> ptr option \<Rightarrow> ptr \<Rightarrow> GateServerLoop \<Rightarrow> GateServerLoop option" where
  "gate_forward E peer p l = (if peer = Some NULL then None else do {
     let (iRet, l) = send_peer E (GMsg_PacketForward peer (se_iSessionId (sl_Session l p)) (gl_iDelayTypeId l)
       (take (unat (gl_iDelayLen l)) (gl_DelayBuf l))) l;
     if iRet \<noteq> 0 then GateSession_Disconnect E p l else Some l
   })"

definition gate_on_packet :: "genv \<Rightarrow> client_packet \<Rightarrow> ptr \<Rightarrow> GateServerLoop \<Rightarrow> GateServerLoop option" where
  "gate_on_packet E pk p l = (case pk of
     ClientTimeReq t \<Rightarrow> gate_forward E (Some (gs_pRegionServer (sl_Session l p))) p l
   | RegionChatReq s \<Rightarrow> gate_forward E (Some (gs_pRegionServer (sl_Session l p))) p l
   | _ \<Rightarrow> gate_forward E None p l)"

definition GateSession_HandlePacket :: "genv \<Rightarrow> u16 \<Rightarrow> u16 \<Rightarrow> byte list \<Rightarrow> ptr \<Rightarrow> GateServerLoop \<Rightarrow> GateServerLoop option" where
  "GateSession_HandlePacket E iTypeId iLen data p l = do {
     l \<leftarrow> GateSession_DelaySendData iTypeId iLen data l;
     case sv_recv E iTypeId data of None \<Rightarrow> Some l | Some pk \<Rightarrow> gate_on_packet E pk p l
   }"

definition GateSession_vtable :: "genv \<Rightarrow> GateServerLoop vtable" where
  "GateSession_vtable E = \<lparr>vt_OnConnection = GateSession_OnConnection, vt_OnDisconnect = GateSession_OnDisconnect E,
     vt_Disconnect = GateSession_Disconnect E, vt_HandlePacket = GateSession_HandlePacket E,
     vt_CheckLoginToken = GateSession_CheckLoginToken E, vt_LoggedInNtf = GateSession_LoggedInNtf E\<rparr>"

section \<open>The loop\<close>

definition GateServerLoop_new :: "u8 \<Rightarrow> u16 \<Rightarrow> GateServerLoop option" where
  "GateServerLoop_new iServerId iSessionMax = do {
     s \<leftarrow> GateSession_new;
     let n = iSessionMax + iSessionMax div 5;
     Some (sloop.extend (sloop_new s (iSessionMax * 2)) (GateServerLoop.fields Alarm_new iServerId Map.empty [] n (iSessionMax * 2 - n) 0 0
       0 0 (replicate SB_INPUT_BUFFER 0) []))
   }"

definition GateServerLoop_Init :: "GateServerLoop \<Rightarrow> (int \<times> GateServerLoop) option" where
  "GateServerLoop_Init l = SessionServerLoop_Init (gl_iServerId l) l"

definition GateServerLoop_Start :: "u32 \<Rightarrow> u32 \<Rightarrow> u32 \<Rightarrow> GateServerLoop \<Rightarrow> GateServerLoop" where
  "GateServerLoop_Start now iCheckSessionInterval iReportInterval l =
     l\<lparr>sl_dwCurrTime := now, gl_Alarm := Alarm_RegisterEvent ''ReportState'' now iReportInterval
        (Alarm_RegisterEvent ''CheckSession'' now iCheckSessionInterval (Alarm_Start now (gl_Alarm l)))\<rparr>"

definition Gate_ClearSession :: "ptr \<Rightarrow> GateServerLoop \<Rightarrow> GateServerLoop option" where
  "Gate_ClearSession p l = do {
     let l = ClearSession p l;
     let s = sl_Session l p;
     let l = (if gs_bTempSession s then l\<lparr>gl_iTempSessionCount := gl_iTempSessionCount l - 1\<rparr>
       else l\<lparr>gl_iSessionCount := gl_iSessionCount l - 1, gl_mSessionMapByName := (gl_mSessionMapByName l)(gs_strAccountName s := None)\<rparr>);
     let l = ses_upd p GateSession_Clear l;
     pool \<leftarrow> ObjectPool_Free p (sl_SessionPool l);
     Some (l\<lparr>sl_SessionPool := pool\<rparr>)
   }"

text \<open>\<open>_Loop\<close> clears the last session of the queue and removes the first, until the queue is empty.\<close>

fun gate_finalize_loop :: "ptr list \<Rightarrow> GateServerLoop \<Rightarrow> GateServerLoop option" where
  "gate_finalize_loop [] l = Some l"
| "gate_finalize_loop (q # qs) l = do {
     l \<leftarrow> Gate_ClearSession (last (q # qs)) l;
     gate_finalize_loop qs (l\<lparr>gl_SessionFinalizingQueue := qs\<rparr>)
   }"

definition GateServerLoop_Loop :: "GateServerLoop \<Rightarrow> GateServerLoop option" where
  "GateServerLoop_Loop l = do {
     l \<leftarrow> gate_finalize_loop (gl_SessionFinalizingQueue l) l;
     Some (if sl_iShutdownStatus l = START_SHUTDOWN then SL_ReadyForShutdown l else l)
   }"

definition Gate_OnCommandOnConnect :: "genv \<Rightarrow> ptr \<Rightarrow> GateServerLoop \<Rightarrow> GateServerLoop option" where
  "Gate_OnCommandOnConnect E connId l =
     (if gl_iTempSessionCount l \<ge> gl_iTempSessionMax l then Some (net_do (AsyncDisconnect connId) l) else do {
        (pSession, pool) \<leftarrow> ObjectPool_Allocate () (sl_SessionPool l);
        let l = l\<lparr>sl_SessionPool := pool\<rparr>;
        case pSession of None \<Rightarrow> Some (net_do (AsyncDisconnect connId) l)
        | Some p \<Rightarrow> do {
            (iRet, l) \<leftarrow> GateSession_OnConnection connId p l;
            Some (l\<lparr>gl_iTempSessionCount := gl_iTempSessionCount l + 1\<rparr>)
          }
      })"

definition Gate_OnCommandOnData :: "nat \<Rightarrow> genv \<Rightarrow> ptr \<Rightarrow> byte list \<Rightarrow> GateServerLoop \<Rightarrow> GateServerLoop option" where
  "Gate_OnCommandOnData fuel E connId data l = (case sl_client l connId of None \<Rightarrow> Some l
   | Some p \<Rightarrow> (if gs_bFinalizing (sl_Session l p) then Some l else SL_OnCommandOnData fuel E (GateSession_vtable E) connId data l))"

definition Gate_OnCommandOnDisconnect :: "genv \<Rightarrow> ptr \<Rightarrow> GateServerLoop \<Rightarrow> GateServerLoop option" where
  "Gate_OnCommandOnDisconnect E connId l = (case sl_client l connId of None \<Rightarrow> Some l
   | Some p \<Rightarrow> GateSession_OnDisconnect E p (ClearSession p l))"

definition Gate_OnCommandDisconnect :: "genv \<Rightarrow> u32 \<Rightarrow> GateServerLoop \<Rightarrow> GateServerLoop option" where
  "Gate_OnCommandDisconnect E iSessionId l = do {
     pSession \<leftarrow> SL_GetSession iSessionId l;
     case pSession of None \<Rightarrow> Some l
     | Some p \<Rightarrow> (if gs_bFinalizing (sl_Session l p) then Some l else GateSession_OnMasterDisconnect E p l)
   }"

definition Gate_OnCommandSendData :: "genv \<Rightarrow> u32 \<Rightarrow> u16 \<Rightarrow> byte list \<Rightarrow> GateServerLoop \<Rightarrow> GateServerLoop option" where
  "Gate_OnCommandSendData E iSessionId iTypeId data l = do {
     pSession \<leftarrow> SL_GetSession iSessionId l;
     case pSession of None \<Rightarrow> Some l
     | Some p \<Rightarrow> (if gs_bFinalizing (sl_Session l p) then Some l else do {
         (r, l) \<leftarrow> ses_fsm p SESSION_EVENT_SEND False l;
         if r < 0 then Some l else SL_OnCommandSendData E iSessionId iTypeId data l
       })
   }"

primrec Gate_OnCommandBroadcastData :: "genv \<Rightarrow> u32 list \<Rightarrow> u16 \<Rightarrow> byte list \<Rightarrow> GateServerLoop \<Rightarrow> GateServerLoop option" where
  "Gate_OnCommandBroadcastData E [] iTypeId data l = Some l"
| "Gate_OnCommandBroadcastData E (sid # sids) iTypeId data l = do {
     pSession \<leftarrow> SL_GetSession sid l;
     l \<leftarrow> (case pSession of None \<Rightarrow> Some l
       | Some p \<Rightarrow> (if gs_bFinalizing (sl_Session l p) \<or> gs_pRegionServer (sl_Session l p) = NULL then Some l else do {
           (r, l) \<leftarrow> ses_fsm p SESSION_EVENT_SEND False l;
           if r < 0 then Some l else do { (iRet, l) \<leftarrow> SBSession_SendData E iTypeId data p l; Some l }
         }));
     Gate_OnCommandBroadcastData E sids iTypeId data l
   }"

primrec gate_shutdown_sessions :: "genv \<Rightarrow> ptr list \<Rightarrow> GateServerLoop \<Rightarrow> GateServerLoop option" where
  "gate_shutdown_sessions E [] l = Some l"
| "gate_shutdown_sessions E (p # ps) l = do {
     l \<leftarrow> (if se_pConnection (sl_Session l p) \<noteq> NULL then GateSession_Disconnect E p l else Gate_CloseSession E False p l);
     gate_shutdown_sessions E ps l
   }"

definition Gate_OnCommandShutdown :: "genv \<Rightarrow> ((u32 \<rightharpoonup> ptr) \<Rightarrow> ptr list) \<Rightarrow> GateServerLoop \<Rightarrow> GateServerLoop option" where
  "Gate_OnCommandShutdown E order l = gate_shutdown_sessions E (order (sl_mSessionMap l)) (l\<lparr>sl_iShutdownStatus := START_SHUTDOWN\<rparr>)"

text \<open>The session that is allocated for the account is used without a check for NULL.\<close>

definition Gate_OnCommandGateAllocReq :: "genv \<Rightarrow> u32 \<Rightarrow> tstring \<Rightarrow> GateServerLoop \<Rightarrow> GateServerLoop option" where
  "Gate_OnCommandGateAllocReq E iLoginSessionId strAccountName l =
     (if gl_mSessionMapByName l strAccountName \<noteq> None then Some l
      else if gl_iSessionCount l \<ge> gl_iSessionMax l
        then Some (snd (send_peer E (GMsg_GateAllocAck (gl_iServerId l) iLoginSessionId strAccountName 0) l))
      else do {
        (pSession, pool) \<leftarrow> ObjectPool_Allocate () (sl_SessionPool l);
        p \<leftarrow> pSession;
        GateSession_OnGateAllocReq E iLoginSessionId strAccountName p
          (l\<lparr>sl_SessionPool := pool, gl_iSessionCount := gl_iSessionCount l + 1,
             gl_mSessionMapByName := hm_insert strAccountName p (gl_mSessionMapByName l)\<rparr>)
      })"

definition Gate_OnCommandGateReleaseReq :: "genv \<Rightarrow> u32 \<Rightarrow> tstring \<Rightarrow> GateServerLoop \<Rightarrow> GateServerLoop option" where
  "Gate_OnCommandGateReleaseReq E iLoginSessionId strAccountName l = (case gl_mSessionMapByName l strAccountName of
     None \<Rightarrow> Some l | Some p \<Rightarrow> GateSession_OnGateReleaseReq E p l)"

definition Gate_OnCommandRegionBindReq :: "genv \<Rightarrow> u32 \<Rightarrow> u8 \<Rightarrow> GateServerLoop \<Rightarrow> GateServerLoop option" where
  "Gate_OnCommandRegionBindReq E iSessionId iRegionServerId l = do {
     pSession \<leftarrow> SL_GetSession iSessionId l;
     Some (case pSession of None \<Rightarrow> l | Some p \<Rightarrow> GateSession_OnRegionBindReq E iRegionServerId p l)
   }"

text \<open>\<open>_OnCommand\<close>, with the dispatch of the base class to the handlers that \<open>GateServerLoop\<close> overrides.\<close>

definition Gate_OnCommand :: "nat \<Rightarrow> genv \<Rightarrow> ((u32 \<rightharpoonup> ptr) \<Rightarrow> ptr list) \<Rightarrow> gate_command \<Rightarrow> GateServerLoop \<Rightarrow> GateServerLoop option" where
  "Gate_OnCommand fuel E order cmd l =
     (let up = (sl_iShutdownStatus l = NOT_SHUTDOWN) in case cmd of
        GC_GATEALLOCREQ sid name \<Rightarrow> (if up then Gate_OnCommandGateAllocReq E sid name l else Some l)
      | GC_GATERELEASEREQ sid name \<Rightarrow> (if up then Gate_OnCommandGateReleaseReq E sid name l else Some l)
      | GC_REGIONBINDREQ sid r \<Rightarrow> (if up then Gate_OnCommandRegionBindReq E sid r l else Some l)
      | GC_SESSION c \<Rightarrow> (case c of
          SC_ONCONNECT c \<Rightarrow> (if up then Gate_OnCommandOnConnect E c l else Some l)
        | SC_ONDISCONNECT c \<Rightarrow> Gate_OnCommandOnDisconnect E c l
        | SC_DISCONNECT sid r \<Rightarrow> Gate_OnCommandDisconnect E sid l
        | SC_ONDATA c data \<Rightarrow> (if up then Gate_OnCommandOnData fuel E c data l else Some l)
        | SC_SENDDATA sid t data \<Rightarrow> (if up then Gate_OnCommandSendData E sid t data l else Some l)
        | SC_BROADCASTDATA sids t data \<Rightarrow> (if up then Gate_OnCommandBroadcastData E sids t data l else Some l)
        | SC_SHUTDOWN \<Rightarrow> Gate_OnCommandShutdown E order l
        | SC_PACKETFORWARD sid t data \<Rightarrow> (if up then SL_OnCommandPacketForward E sid t data l else Some l)))"

primrec gate_check_sessions :: "genv \<Rightarrow> ptr list \<Rightarrow> GateServerLoop \<Rightarrow> GateServerLoop option" where
  "gate_check_sessions E [] l = Some l"
| "gate_check_sessions E (p # ps) l = do {
     l \<leftarrow> (if ses_state p l = SESSION_STATE_ONCONNECTION \<and>
              se_dwConnectionTime (sl_Session l p) + sv_connectionTimeout E \<le> sl_dwCurrTime l
            then GateSession_Disconnect E p l else Some l);
     gate_check_sessions E ps l
   }"

text \<open>\<open>m_iSessionMax\<close> is here the field of \<open>GateServerLoop\<close>, which hides that of the base class.\<close>

definition Gate_CheckSessionState :: "genv \<Rightarrow> GateServerLoop \<Rightarrow> GateServerLoop option" where
  "Gate_CheckSessionState E l = (if sl_iShutdownStatus l \<noteq> NOT_SHUTDOWN then Some l
     else if unat (gl_iSessionMax l) \<le> length (sl_arraySession l)
     then gate_check_sessions E (take (unat (gl_iSessionMax l)) (sl_arraySession l)) l else None)"

definition Gate_ReportState :: "genv \<Rightarrow> GateServerLoop \<Rightarrow> GateServerLoop" where
  "Gate_ReportState E l = (if sl_iShutdownStatus l \<noteq> NOT_SHUTDOWN then l
     else snd (send_peer E (GMsg_GateReportState (gl_iServerId l) (gl_iSessionCount l)) l))"

primrec gate_run_alarms :: "genv \<Rightarrow> string list \<Rightarrow> GateServerLoop \<Rightarrow> GateServerLoop option" where
  "gate_run_alarms E [] l = Some l"
| "gate_run_alarms E (n # ns) l = do {
     l \<leftarrow> (if n = ''CheckSession'' then Gate_CheckSessionState E l else Some (Gate_ReportState E l));
     gate_run_alarms E ns l
   }"

definition Gate_EndRound :: "genv \<Rightarrow> u32 \<Rightarrow> GateServerLoop \<Rightarrow> GateServerLoop option" where
  "Gate_EndRound E now l = do {
     let a = Alarm_Tick (sl_dwCurrTime l) (gl_Alarm l);
     l \<leftarrow> gate_run_alarms E (drop (length (al_log (gl_Alarm l))) (al_log a)) (l\<lparr>gl_Alarm := a\<rparr>);
     l \<leftarrow> GateServerLoop_Loop l;
     Some (l\<lparr>sl_dwCurrTime := now\<rparr>)
   }"

section \<open>Messages from the other servers\<close>

text \<open>They become commands.  A name that does not fit makes \<open>wcscpy_s\<close> abort; the ids of a broadcast are copied into an array
  of fixed size.\<close>

definition GatePeerRecv_GateAllocReq :: "bool \<Rightarrow> u32 \<Rightarrow> tstring \<Rightarrow> gate_command LogicLoop \<Rightarrow> gate_command LogicLoop option" where
  "GatePeerRecv_GateAllocReq memory iLoginSessionId strAccountName L = (if \<not> memory then Some L else do {
     name \<leftarrow> wcscpy_s (GATE_ACCOUNTNAME_MAX + 1) strAccountName;
     Some (LogicLoop_PushCommand (GC_GATEALLOCREQ iLoginSessionId name) L)
   })"

definition GatePeerRecv_GateReleaseReq :: "bool \<Rightarrow> u32 \<Rightarrow> tstring \<Rightarrow> gate_command LogicLoop \<Rightarrow> gate_command LogicLoop option" where
  "GatePeerRecv_GateReleaseReq memory iLoginSessionId strAccountName L = (if \<not> memory then Some L else do {
     name \<leftarrow> wcscpy_s (GATE_ACCOUNTNAME_MAX + 1) strAccountName;
     Some (LogicLoop_PushCommand (GC_GATERELEASEREQ iLoginSessionId name) L)
   })"

definition GatePeerRecv_RegionBindReq :: "bool \<Rightarrow> u32 \<Rightarrow> u8 \<Rightarrow> gate_command LogicLoop \<Rightarrow> gate_command LogicLoop" where
  "GatePeerRecv_RegionBindReq memory iSessionId iRegionServerId L =
     (if memory then LogicLoop_PushCommand (GC_REGIONBINDREQ iSessionId iRegionServerId) L else L)"

definition GatePeerRecv_BroadcastData :: "bool \<Rightarrow> u32 list \<Rightarrow> u16 \<Rightarrow> byte list \<Rightarrow> gate_command LogicLoop \<Rightarrow> gate_command LogicLoop option" where
  "GatePeerRecv_BroadcastData memory sids iTypeId data L = (if \<not> memory then Some L
     else if length sids > BROADCAST_SESSION_MAX then None
     else Some (LogicLoop_PushCommand (GC_SESSION (SC_BROADCASTDATA sids iTypeId data)) L))"

definition Gate_SessionPeerRecv_Disconnect :: "bool \<Rightarrow> u32 \<Rightarrow> u8 \<Rightarrow> gate_command LogicLoop \<Rightarrow> gate_command LogicLoop" where
  "Gate_SessionPeerRecv_Disconnect memory iSessionId iReason L =
     (if memory then LogicLoop_PushCommand (GC_SESSION (SC_DISCONNECT iSessionId iReason)) L else L)"

definition Gate_SessionPeerRecv_PacketForward :: "bool \<Rightarrow> u32 \<Rightarrow> u16 \<Rightarrow> byte list \<Rightarrow> gate_command LogicLoop \<Rightarrow> gate_command LogicLoop" where
  "Gate_SessionPeerRecv_PacketForward memory iSessionId iTypeId data L =
     (if memory then LogicLoop_PushCommand (GC_SESSION (SC_PACKETFORWARD iSessionId iTypeId data)) L else L)"

definition Gate_SessionPeerRecv_SendData :: "bool \<Rightarrow> u32 \<Rightarrow> u16 \<Rightarrow> byte list \<Rightarrow> gate_command LogicLoop \<Rightarrow> gate_command LogicLoop" where
  "Gate_SessionPeerRecv_SendData memory iSessionId iTypeId data L =
     (if memory then LogicLoop_PushCommand (GC_SESSION (SC_SENDDATA iSessionId iTypeId data)) L else L)"

end
