(* ===== verification/GateInv.thy ===== *)
theory GateInv
  imports GateServer
begin

text \<open>
  The invariant of the gate server.  \<open>gs_ok\<close> is a session in use, temporary or of an account, with the states it can be in and the states
  in which it has a connection; \<open>gs_free\<close> one in the pool.  \<open>gate_inv\<close>: the table and the pool fit together, the counters count, the map of
  names has exactly the sessions of accounts, the finalizing queue exactly the sessions marked as finalizing, and the map of
  sessions by id is empty.  \<open>gate_keeps l0\<close> is what the handlers of a session keep: the invariant, the pool, the kind of every
  session and its id.
\<close>

section \<open>States\<close>

definition gtr :: "int \<Rightarrow> int \<Rightarrow> int option" where
  "gtr = table_fun gate_table"

lemma GateSession_InitStateMachine_ok:
  "\<exists>m. GateSession_InitStateMachine (StateMachine_new s) = Some m \<and> fsm_inv m \<and> sm_iCurrState m = s \<and> fsm_fun m = (\<lambda>(s, e). gtr s e)"
  using two_tables_ok [of gate_table s] by (simp add: rows_of_def gate_table_def event_ok_def GateSession_InitStateMachine_def gtr_def)

definition temp_states :: "int list" where
  "temp_states = [SESSION_STATE_ONCONNECTION, SESSION_STATE_DISCONNECT, SESSION_STATE_ONDISCONNECT, SESSION_STATE_TRANSFERED]"

definition named_states :: "int list" where
  "named_states = [SESSION_STATE_ONGATEALLOCREQ, SESSION_STATE_GATEALLOCACK, SESSION_STATE_LOGGEDIN, SESSION_STATE_GATELOGINREQ,
     SESSION_STATE_DISCONNECT, SESSION_STATE_ONDISCONNECT, SESSION_STATE_HOLDCONNECTION, SESSION_STATE_ONMASTERDISCONNECT]"

definition conn_states :: "int list" where
  "conn_states = [SESSION_STATE_ONCONNECTION, SESSION_STATE_LOGGEDIN, SESSION_STATE_GATELOGINREQ, SESSION_STATE_DISCONNECT,
     SESSION_STATE_ONMASTERDISCONNECT]"

lemmas gate_states = temp_states_def named_states_def conn_states_def

definition gs_ok :: "GateSession \<Rightarrow> bool" where
  "gs_ok s \<longleftrightarrow> machine_ok gtr s \<and> (sess_state s \<in> set conn_states \<longrightarrow> se_pConnection s \<noteq> NULL) \<and>
     sess_state s \<in> set (if gs_bTempSession s then temp_states else named_states)"

definition gs_free :: "GateSession \<Rightarrow> bool" where
  "gs_free s \<longleftrightarrow> machine_ok gtr s \<and> sess_state s = SESSION_STATE_NONE \<and> se_pConnection s = NULL \<and> gs_bTempSession s \<and> \<not> gs_bFinalizing s"

text \<open>One check over all rows: from a state of a session in use a transition leads to another, with a connection if the target needs one and
  the source has none only when the connection is handed over.\<close>

definition row_ok :: "int \<times> int \<times> int \<Rightarrow> bool" where
  "row_ok = (\<lambda>(s, e, s'). (s \<in> set temp_states \<longrightarrow> s' \<in> set temp_states) \<and> (s \<in> set named_states \<longrightarrow> s' \<in> set named_states) \<and>
     (s' \<in> set conn_states \<longrightarrow> s \<in> set conn_states \<or> e = SESSION_EVENT_TRANSFERED \<or> s = SESSION_STATE_NONE) \<and>
     (e = SESSION_EVENT_ONDISCONNECT \<longrightarrow> s' \<notin> set conn_states))"

lemma gate_rows_ok: "list_all row_ok (rows_of (session_table @ gate_table))"
  by code_simp


lemma gtr_row: "gtr s e = Some s' \<Longrightarrow> row_ok (s, e, s')"
  using gate_rows_ok rows_fun_mem [of "rows_of (session_table @ gate_table)" s e s'] by (auto simp: list_all_iff gtr_def table_fun_def)

lemma gs_transition:
  assumes "gs_ok s" "gtr (sess_state s) e = Some st" "e = SESSION_EVENT_TRANSFERED \<longrightarrow> se_pConnection s \<noteq> NULL"
  shows "gs_ok (s\<lparr>se_StateMachine := (se_StateMachine s)\<lparr>sm_iCurrState := st\<rparr>\<rparr>)"
proof -
  have r: "row_ok (sess_state s, e, st)" by (rule gtr_row [OF assms(2)])
  have m: "machine_ok gtr (s\<lparr>se_StateMachine := (se_StateMachine s)\<lparr>sm_iCurrState := st\<rparr>\<rparr>)"
    using assms(1) by (simp add: gs_ok_def machine_ok_def fsm_inv_def fsm_fun_def)
  have "sess_state s \<noteq> SESSION_STATE_NONE"
    using assms(1) by (cases "gs_bTempSession s") (simp_all add: gs_ok_def temp_states_def named_states_def, force+)
  then show ?thesis using assms(1,3) r m by (auto simp: gs_ok_def row_ok_def split: if_splits)
qed

section \<open>The invariant\<close>

definition gate_sessions :: "GateServerLoop \<Rightarrow> bool" where
  "gate_sessions l \<longleftrightarrow> (\<forall>p \<in> ses_out l. gs_ok (sl_Session l p)) \<and> (\<forall>p. p \<notin> ses_out l \<longrightarrow> gs_free (sl_Session l p))"

definition temps :: "GateServerLoop \<Rightarrow> ptr set" where
  "temps l = {p \<in> ses_out l. gs_bTempSession (sl_Session l p)}"

definition named :: "GateServerLoop \<Rightarrow> ptr set" where
  "named l = {p \<in> ses_out l. \<not> gs_bTempSession (sl_Session l p)}"

definition gate_counts :: "GateServerLoop \<Rightarrow> bool" where
  "gate_counts l \<longleftrightarrow> unat (gl_iTempSessionCount l) = card (temps l) \<and> unat (gl_iSessionCount l) = card (named l) \<and>
     gl_iTempSessionCount l \<le> gl_iTempSessionMax l \<and> gl_iSessionCount l \<le> gl_iSessionMax l \<and>
     unat (gl_iTempSessionMax l) + unat (gl_iSessionMax l) = unat (sl_iSessionMax l)"

definition gate_names :: "GateServerLoop \<Rightarrow> bool" where
  "gate_names l \<longleftrightarrow> (\<forall>n p. gl_mSessionMapByName l n = Some p \<longleftrightarrow> p \<in> named l \<and> gs_strAccountName (sl_Session l p) = n)"

definition gate_queue :: "GateServerLoop \<Rightarrow> bool" where
  "gate_queue l \<longleftrightarrow> distinct (gl_SessionFinalizingQueue l) \<and>
     set (gl_SessionFinalizingQueue l) = {p \<in> ses_out l. gs_bFinalizing (sl_Session l p)}"

definition gate_inv :: "GateServerLoop \<Rightarrow> bool" where
  "gate_inv l \<longleftrightarrow> table_ok (gl_iServerId l) l \<and> pool_ok l \<and> gate_sessions l \<and> gate_counts l \<and> gate_names l \<and> gate_queue l \<and>
     sl_mSessionMap l = Map.empty \<and> length (gl_DelayBuf l) = SB_INPUT_BUFFER"

lemmas gate_defs = gate_inv_def table_ok_def pool_ok_def gate_sessions_def gate_counts_def gate_names_def gate_queue_def temps_def named_def

definition gate_keeps :: "GateServerLoop \<Rightarrow> GateServerLoop \<Rightarrow> bool" where
  "gate_keeps l0 l \<longleftrightarrow> gate_inv l \<and> sl_SessionPool l = sl_SessionPool l0 \<and>
     (\<forall>q. gs_bTempSession (sl_Session l q) = gs_bTempSession (sl_Session l0 q))"

lemma G_refl: "gate_inv l \<Longrightarrow> gate_keeps l l"
  by (simp add: gate_keeps_def)

lemma G_inv: "gate_keeps l0 l \<Longrightarrow> gate_inv l"
  by (simp add: gate_keeps_def)

lemma G_trans: "gate_keeps l0 l1 \<Longrightarrow> gate_keeps l1 l2 \<Longrightarrow> gate_keeps l0 l2"
  by (simp add: gate_keeps_def)

lemma G_ok: "gate_keeps l0 l \<Longrightarrow> p \<in> ses_out l0 \<Longrightarrow> gs_ok (sl_Session l p)"
  by (simp add: gate_keeps_def gate_inv_def gate_sessions_def)

text \<open>What the invariant does not look at.\<close>

lemma G_simps [simp]:
  "gate_inv (net_do c l) = gate_inv l" "gate_inv (l\<lparr>sl_pops := n\<rparr>) = gate_inv l" "gate_inv (l\<lparr>gl_sent := m\<rparr>) = gate_inv l"
  "gate_inv (l\<lparr>sl_client := c'\<rparr>) = gate_inv l" "gate_inv (l\<lparr>sl_dwCurrTime := t\<rparr>) = gate_inv l" "gate_inv (l\<lparr>gl_Alarm := a\<rparr>) = gate_inv l"
  "gate_inv (l\<lparr>sl_iShutdownStatus := s\<rparr>) = gate_inv l"
  "gate_keeps l0 (net_do c l) = gate_keeps l0 l" "gate_keeps l0 (l\<lparr>sl_pops := n\<rparr>) = gate_keeps l0 l" "gate_keeps l0 (l\<lparr>gl_sent := m\<rparr>) = gate_keeps l0 l"
  "gate_keeps l0 (l\<lparr>sl_client := c'\<rparr>) = gate_keeps l0 l" "gate_keeps l0 (l\<lparr>gl_Alarm := a\<rparr>) = gate_keeps l0 l"
  "gate_keeps l0 (l\<lparr>sl_iShutdownStatus := s\<rparr>) = gate_keeps l0 l" "gate_keeps l0 (l\<lparr>sl_dwCurrTime := t\<rparr>) = gate_keeps l0 l"
  by (simp_all add: gate_keeps_def gate_defs net_do_def)

text \<open>Changing a session in use: its kind and its marks stay, and the name of the session of an account.\<close>

lemma G_ses_upd:
  assumes "gate_keeps l0 l" "p \<in> ses_out l0" and s: "s = sl_Session l p"
    and f: "gs_ok (f s)" "gs_bTempSession (f s) = gs_bTempSession s" "gs_bFinalizing (f s) = gs_bFinalizing s" "se_iSessionId (f s) = se_iSessionId s"
      "\<not> gs_bTempSession s \<Longrightarrow> gs_strAccountName (f s) = gs_strAccountName s"
  shows "gate_keeps l0 (ses_upd p f l)"
proof -
  let ?l = "ses_upd p f l"
  have I: "gate_inv l" and p: "p \<in> ses_out l" using assms(1,2) by (simp_all add: gate_keeps_def)
  have e: "sl_SessionPool ?l = sl_SessionPool l" "sl_arraySession ?l = sl_arraySession l" "sl_iSessionMax ?l = sl_iSessionMax l"
      "gl_iServerId ?l = gl_iServerId l" "gl_iTempSessionCount ?l = gl_iTempSessionCount l" "gl_iSessionCount ?l = gl_iSessionCount l"
      "gl_iTempSessionMax ?l = gl_iTempSessionMax l" "gl_iSessionMax ?l = gl_iSessionMax l" "gl_mSessionMapByName ?l = gl_mSessionMapByName l"
      "gl_SessionFinalizingQueue ?l = gl_SessionFinalizingQueue l" "sl_mSessionMap ?l = sl_mSessionMap l" "gl_DelayBuf ?l = gl_DelayBuf l"
    by (simp_all add: ses_upd_def)
  have q: "gs_bTempSession (sl_Session ?l q) = gs_bTempSession (sl_Session l q)" "gs_bFinalizing (sl_Session ?l q) = gs_bFinalizing (sl_Session l q)"
      "se_iSessionId (sl_Session ?l q) = se_iSessionId (sl_Session l q)" for q using f s by (simp_all add: ses_upd_def)
  have n: "gs_strAccountName (sl_Session ?l q) = gs_strAccountName (sl_Session l q)" if "q \<in> named l" for q
    using that f(5) s by (auto simp: ses_upd_def named_def)
  have t: "temps ?l = temps l" "named ?l = named l" by (simp_all add: temps_def named_def e q)
  have "table_ok (gl_iServerId ?l) ?l" "pool_ok ?l" "gate_counts ?l" "gate_queue ?l"
    using I by (simp_all add: gate_inv_def table_ok_def pool_ok_def gate_counts_def gate_queue_def e q t)
  moreover have "gate_names ?l" using I n unfolding gate_inv_def gate_names_def e t by metis
  moreover have "gate_sessions ?l" using I p f(1) s by (auto simp: gate_inv_def gate_sessions_def ses_upd_def)
  ultimately show ?thesis using I assms(1) by (simp add: gate_keeps_def gate_inv_def e q)
qed

text \<open>An event for a session in use.\<close>

lemma G_fsm:
  assumes "gate_keeps l0 l" "p \<in> ses_out l0" "event_ok e" "e = SESSION_EVENT_TRANSFERED \<longrightarrow> se_pConnection (sl_Session l p) \<noteq> NULL"
    and none: "gtr (sess_state (sl_Session l p)) e = None \<Longrightarrow> wp (f (- 1) l) Q"
    and some: "\<And>st l1. gtr (sess_state (sl_Session l p)) e = Some st \<Longrightarrow> gate_keeps l0 l1 \<Longrightarrow>
      l1 = (if b then ses_upd p (\<lambda>x. x\<lparr>se_StateMachine := (se_StateMachine x)\<lparr>sm_iCurrState := st\<rparr>\<rparr>) l else l) \<Longrightarrow> wp (f st l1) Q"
  shows "wp (ses_fsm p e b l \<bind> case_prod f) Q"
proof -
  have ok: "gs_ok (sl_Session l p)" by (rule G_ok [OF assms(1,2)])
  then have m: "machine_ok gtr (sl_Session l p)" by (simp add: gs_ok_def)
  show ?thesis
  proof (cases "gtr (sess_state (sl_Session l p)) e")
    case None
    then show ?thesis using none by (simp add: ses_fsm_eq [OF m assms(3)])
  next
    case (Some st)
    have "gate_keeps l0 (ses_upd p (\<lambda>x. x\<lparr>se_StateMachine := (se_StateMachine x)\<lparr>sm_iCurrState := st\<rparr>\<rparr>) l)"
      using assms(1,2) gs_transition [OF ok Some assms(4)] by (intro G_ses_upd [OF _ _ refl]) simp_all
    then show ?thesis using Some some [OF Some] assms(1) by (simp add: ses_fsm_eq [OF m assms(3)])
  qed
qed

section \<open>The handlers of a session\<close>

lemma G_finalize:
  assumes "gate_keeps l0 l" "p \<in> ses_out l0" "\<not> gs_bFinalizing (sl_Session l p)"
  shows "gate_keeps l0 (ses_upd p (\<lambda>s. s\<lparr>gs_bFinalizing := True\<rparr>) (l\<lparr>gl_SessionFinalizingQueue := gl_SessionFinalizingQueue l @ [p]\<rparr>))"
    (is "gate_keeps l0 ?l")
proof -
  have I: "gate_inv l" and p: "p \<in> ses_out l" using assms(1,2) by (simp_all add: gate_keeps_def)
  have t: "temps ?l = temps l" "named ?l = named l" by (auto simp: temps_def named_def ses_upd_def)
  have "gate_queue ?l" using I p assms(3) by (auto simp: gate_inv_def gate_queue_def ses_upd_def)
  moreover have "gate_sessions ?l" using I p by (auto simp: gate_inv_def gate_sessions_def ses_upd_def gs_ok_def machine_ok_def)
  moreover have "table_ok (gl_iServerId ?l) ?l" "pool_ok ?l" using I by (auto simp: gate_inv_def table_ok_def pool_ok_def ses_upd_def)
  moreover have "gate_counts ?l" using I by (simp add: gate_inv_def gate_counts_def t) (simp add: ses_upd_def)
  moreover have "gate_names ?l" using I unfolding gate_inv_def gate_names_def t by (auto simp: ses_upd_def)
  ultimately show ?thesis using I assms(1) by (simp add: gate_keeps_def gate_inv_def) (simp add: ses_upd_def)
qed

lemma CloseSession_ok:
  assumes "gate_keeps l0 l" "p \<in> ses_out l0"
  shows "wp (Gate_CloseSession E b p l) (gate_keeps l0)"
proof -
  have ok: "gs_ok (sl_Session l p)" by (rule G_ok [OF assms])
  then have c: "se_pConnection (sl_Session l p) \<noteq> NULL"
    if "ses_state p l = SESSION_STATE_ONCONNECTION \<or> ses_state p l = SESSION_STATE_LOGGEDIN \<or> ses_state p l = SESSION_STATE_GATELOGINREQ"
    using that by (auto simp: gs_ok_def ses_state_def GetCurrState_def conn_states_def)
  have sent: "gate_keeps l0 (snd (send_peer E m l))" "sl_Session (snd (send_peer E m l)) = sl_Session l" for m
    using assms(1) by (simp_all add: send_peer_def Let_def)
  show ?thesis unfolding Gate_CloseSession_def Let_def
    by (intro wp_if wp_Some G_finalize) (use assms c sent in \<open>auto simp: wp_Some\<close>)
qed

lemma G_drop_connection:
  assumes "gate_keeps l0 l" "p \<in> ses_out l0" "sess_state (sl_Session l p) \<notin> set conn_states"
  shows "gate_keeps l0 (ses_upd p (\<lambda>s. s\<lparr>se_pConnection := NULL\<rparr>) l)"
  using G_ok [OF assms(1,2)] assms(3) by (intro G_ses_upd [OF assms(1,2) refl]) (auto simp: gs_ok_def machine_ok_def)

lemma wp_send_peer: "gate_keeps l0 l \<Longrightarrow> (\<And>r l1. gate_keeps l0 l1 \<Longrightarrow> sl_Session l1 = sl_Session l \<Longrightarrow> wp (f r l1) Q) \<Longrightarrow>
    wp (let (r, l1) = send_peer E m l in f r l1) Q"
  by (simp add: send_peer_def Let_def)

lemma Gate_OnDisconnect_ok:
  assumes G: "gate_keeps l0 l" and p: "p \<in> ses_out l0"
  shows "wp (GateSession_OnDisconnect E p l) (gate_keeps l0)"
  unfolding GateSession_OnDisconnect_def
proof (rule G_fsm [OF G p])
  fix st l1
  assume row: "gtr (sess_state (sl_Session l p)) SESSION_EVENT_ONDISCONNECT = Some st" and G1: "gate_keeps l0 l1"
    and l1: "l1 = (if True then ses_upd p (\<lambda>x. x\<lparr>se_StateMachine := (se_StateMachine x)\<lparr>sm_iCurrState := st\<rparr>\<rparr>) l else l)"
  have st: "sess_state (sl_Session l1 p) \<notin> set conn_states" using gtr_row [OF row] by (simp add: l1 ses_upd_def row_ok_def)
  define l2 where "l2 = (if se_pConnection (sl_Session l1 p) \<noteq> NULL
    then ses_upd p (\<lambda>s. s\<lparr>se_pConnection := NULL\<rparr>) (net_do (Connection_Close (se_pConnection (sl_Session l1 p))) l1) else l1)"
  have G2: "gate_keeps l0 l2" using G1 st by (auto simp: l2_def net_do_def intro!: G_drop_connection p) (auto simp: gate_keeps_def gate_defs)
  show "wp (if st < 0 then Some l1 else do {
       let c = se_pConnection (sl_Session l1 p);
       let l = (if c \<noteq> NULL then ses_upd p (\<lambda>s. s\<lparr>se_pConnection := NULL\<rparr>) (net_do (Connection_Close c) l1) else l1);
       let st = ses_state p l;
       if st = SESSION_STATE_HOLDCONNECTION then
         (if SL_IsStartShutdown l then Gate_CloseSession E False p l else do {
            let (iRet, l) = send_peer E (GMsg_OnSessionDisconnect (se_iSessionId (sl_Session l p))) l;
            if iRet \<noteq> 0 then Some l else do {
              (r, l) \<leftarrow> ses_fsm p SESSION_EVENT_SESSIONDISCONNECTREQ True l;
              Gate_CloseSession E False p l
            }
          })
       else if st = SESSION_STATE_ONDISCONNECT then do {
         let (iRet, l) = send_peer E (GMsg_OnSessionDisconnect (se_iSessionId (sl_Session l p))) l;
         if iRet \<noteq> 0 then Some l else Gate_CloseSession E False p l
       }
       else Some l
     }) (gate_keeps l0)"
    unfolding Let_def [of "se_pConnection _"] l2_def [symmetric] Let_def [of l2] Let_def [of "ses_state p l2"]
    by (intro wp_if wp_Some CloseSession_ok wp_send_peer G_fsm p) (auto simp: event_ok_def G1 G2 intro: CloseSession_ok p)
qed (simp_all add: event_ok_def wp_Some G)

lemma Gate_Disconnect_ok:
  assumes "gate_keeps l0 l" "p \<in> ses_out l0"
  shows "wp (GateSession_Disconnect E p l) (gate_keeps l0)"
  unfolding GateSession_Disconnect_def SBSession_Disconnect_def Let_def
  by (intro wp_if wp_Some G_fsm Gate_OnDisconnect_ok) (auto simp: event_ok_def assms)

lemma OnGateReleaseReq_ok:
  assumes "gate_keeps l0 l" "p \<in> ses_out l0"
  shows "wp (GateSession_OnGateReleaseReq E p l) (gate_keeps l0)"
  unfolding GateSession_OnGateReleaseReq_def
  by (intro wp_if wp_Some G_fsm CloseSession_ok) (auto simp: event_ok_def assms)

lemma gtr_facts:
  "gtr s SESSION_EVENT_ONMASTERDISCONNECT = Some SESSION_STATE_ONMASTERDISCONNECT \<Longrightarrow> s \<in> set conn_states"
  "gtr s SESSION_EVENT_SEND = Some s' \<Longrightarrow> s \<in> set conn_states"
  "gtr SESSION_STATE_NONE SESSION_EVENT_ONCONNECTION = Some SESSION_STATE_ONCONNECTION"
  "gtr SESSION_STATE_NONE SESSION_EVENT_ONGATEALLOCREQ = Some SESSION_STATE_ONGATEALLOCREQ"
  "gtr SESSION_STATE_NONE SESSION_EVENT_ONDISCONNECT = None" "gtr SESSION_STATE_NONE SESSION_EVENT_ONDATA = None"
  "gtr SESSION_STATE_NONE SESSION_EVENT_ONMASTERDISCONNECT = None" "gtr SESSION_STATE_NONE SESSION_EVENT_SEND = None"
  "gtr SESSION_STATE_GATEALLOCACK SESSION_EVENT_TRANSFERED = Some SESSION_STATE_LOGGEDIN"
  "gtr SESSION_STATE_LOGGEDIN SESSION_EVENT_GATELOGINREQ = Some SESSION_STATE_GATELOGINREQ"
  "gtr SESSION_STATE_ONCONNECTION SESSION_EVENT_LOGGEDIN = Some SESSION_STATE_TRANSFERED"
proof -
  have "list_all (\<lambda>(s, e, s'). e = SESSION_EVENT_ONMASTERDISCONNECT \<or> e = SESSION_EVENT_SEND \<longrightarrow> s \<in> set conn_states) (rows_of (session_table @ gate_table))"
    by code_simp
  then show "gtr s SESSION_EVENT_ONMASTERDISCONNECT = Some SESSION_STATE_ONMASTERDISCONNECT \<Longrightarrow> s \<in> set conn_states"
    "gtr s SESSION_EVENT_SEND = Some s' \<Longrightarrow> s \<in> set conn_states"
    unfolding gtr_def table_fun_def by (auto simp: list_all_iff dest!: rows_fun_mem)
qed code_simp+

lemma G_connection: "gate_keeps l0 l \<Longrightarrow> p \<in> ses_out l0 \<Longrightarrow> sess_state (sl_Session l p) \<in> set conn_states \<Longrightarrow> se_pConnection (sl_Session l p) \<noteq> NULL"
  using G_ok by (simp add: gs_ok_def)

lemma OnMasterDisconnect_ok:
  assumes "gate_keeps l0 l" "p \<in> ses_out l0"
  shows "wp (GateSession_OnMasterDisconnect E p l) (gate_keeps l0)"
  unfolding GateSession_OnMasterDisconnect_def
  by (intro wp_if wp_Some G_fsm [OF assms]) (auto simp: event_ok_def assms ses_upd_def wp_Some dest: gtr_facts(1) G_connection [OF assms])

text \<open>Changes of an account's region server or of a temporary session's name.\<close>

lemma G_plain:
  assumes "gate_keeps l0 l" "p \<in> ses_out l0"
    and "\<And>s :: GateSession. se_StateMachine (f s) = se_StateMachine s \<and> se_pConnection (f s) = se_pConnection s \<and>
      se_iSessionId (f s) = se_iSessionId s \<and> length (se_RecvBuf (f s)) = length (se_RecvBuf s) \<and>
      gs_bTempSession (f s) = gs_bTempSession s \<and> gs_bFinalizing (f s) = gs_bFinalizing s"
    and "gs_bTempSession (sl_Session l0 p) \<or> (\<forall>s. gs_strAccountName (f s) = gs_strAccountName s)"
  shows "gate_keeps l0 (ses_upd p f l)"
proof (rule G_ses_upd [OF assms(1,2) refl])
  show "gs_ok (f (sl_Session l p))" using G_ok [OF assms(1,2)] assms(3) by (simp add: gs_ok_def machine_ok_def)
  show "gs_strAccountName (f (sl_Session l p)) = gs_strAccountName (sl_Session l p)" if "\<not> gs_bTempSession (sl_Session l p)"
    using that assms(1,4) by (auto simp: gate_keeps_def)
qed (use assms(3) in simp_all)

section \<open>The hand-over of a connection\<close>

lemma OnSessionTransfered_ok:
  assumes "gate_keeps l0 l" "q \<in> ses_out l0" "se_pConnection (sl_Session l q) \<noteq> NULL"
  shows "wp (GateSession_OnSessionTransfered E q l) (gate_keeps l0)"
  unfolding GateSession_OnSessionTransfered_def
  by (intro wp_if wp_Some G_fsm wp_send_peer Gate_Disconnect_ok) (auto simp: event_ok_def assms)

lemma Clone_ok:
  assumes "gate_keeps l0 l" "q \<in> ses_out l0" "\<not> gs_bTempSession (sl_Session l0 q)" "gs_bTempSession (sl_Session l0 p)"
    and "se_pConnection (sl_Session l p) \<noteq> NULL" "gs_strAccountName (sl_Session l p) = gs_strAccountName (sl_Session l q)"
  shows "wp (GateSession_Clone q p l) (\<lambda>l. gate_keeps l0 l \<and> se_pConnection (sl_Session l q) \<noteq> NULL)"
proof -
  have t: "gs_bTempSession (sl_Session l r) = gs_bTempSession (sl_Session l0 r)" for r using assms(1) by (simp add: gate_keeps_def)
  have "gate_keeps l0 (ses_upd q (\<lambda>s. s\<lparr>se_dwConnectionTime := a, se_dwLoggedInTime := b, se_pConnection := se_pConnection (sl_Session l p),
      gs_strAccountName := gs_strAccountName (sl_Session l p)\<rparr>) l)" for a b
    using G_ok [OF assms(1,2)] assms(5,6) by (intro G_ses_upd [OF assms(1,2) refl]) (auto simp: gs_ok_def machine_ok_def)
  then show ?thesis using assms(3-5) t by (simp add: GateSession_Clone_def Let_def wp_def) (simp add: ses_upd_def)
qed

lemma TransferSession_ok:
  assumes G: "gate_keeps l0 l" and p: "p \<in> ses_out l0" "gs_bTempSession (sl_Session l0 p)" "se_pConnection (sl_Session l p) \<noteq> NULL"
  shows "wp (Gate_TransferSession E (se_iSessionId (sl_Session l p)) (gs_strAccountName (sl_Session l p)) l) (\<lambda>(r, l). gate_keeps l0 l)"
proof (cases "gl_mSessionMapByName l (gs_strAccountName (sl_Session l p))")
  case (Some q)
  have I: "table_ok (gl_iServerId l) l" "pool_ok l" "gate_names l" and out: "ses_out l = ses_out l0"
      and t: "gs_bTempSession (sl_Session l r) = gs_bTempSession (sl_Session l0 r)" for r
    using G by (simp_all add: gate_keeps_def gate_inv_def)
  have q: "q \<in> ses_out l0" "\<not> gs_bTempSession (sl_Session l0 q)" "gs_strAccountName (sl_Session l p) = gs_strAccountName (sl_Session l q)"
    using I(3) Some out t by (auto simp: gate_names_def named_def)
  have "SL_GetSession (se_iSessionId (sl_Session l p)) l = Some (Some p)"
    using GetSession_self [OF I(1) pool_out [OF I(2)]] p(1) out by simp
  then show ?thesis using Some
    by (auto simp: Gate_TransferSession_def G wp_Some
      intro!: wp_bind wp_mono [OF Clone_ok [OF G q(1,2) p(2,3) q(3)]] wp_mono [OF OnSessionTransfered_ok [OF _ q(1)]])
qed (simp add: Gate_TransferSession_def wp_Some G)

lemma Gate_LoggedInNtf_ok:
  assumes G: "gate_keeps l0 l" and p: "p \<in> ses_out l0" "gs_bTempSession (sl_Session l0 p)"
  shows "wp (GateSession_LoggedInNtf E p l) (\<lambda>(r, l). gate_keeps l0 l)"
proof -
  have c: "se_pConnection (sl_Session l p) \<noteq> NULL" if "gtr (sess_state (sl_Session l p)) SESSION_EVENT_LOGGEDIN = Some st" for st
  proof (rule G_connection [OF G p(1)])
    have "list_all (\<lambda>(s, e, s'). e = SESSION_EVENT_LOGGEDIN \<longrightarrow> s \<in> set conn_states) (rows_of (session_table @ gate_table))" by code_simp
    with that show "sess_state (sl_Session l p) \<in> set conn_states"
      unfolding gtr_def table_fun_def by (auto simp: list_all_iff dest!: rows_fun_mem)
  qed
  have d: "wp (GateSession_Disconnect E p l1 \<bind> (\<lambda>l. Some (- 1, l))) (\<lambda>(r, l). gate_keeps l0 l)" if "gate_keeps l0 l1" for l1
    by (rule wp_bind, rule wp_mono [OF Gate_Disconnect_ok [OF that p(1)]]) (simp add: wp_Some)
  have f: "wp (ses_fsm p SESSION_EVENT_LOGGEDIN True l1 \<bind> (\<lambda>(r, l). if r \<noteq> SESSION_STATE_TRANSFERED then Some (- 1, l)
      else Gate_CloseSession E False p l \<bind> (\<lambda>l. Some (0, l)))) (\<lambda>(r, l). gate_keeps l0 l)" if "gate_keeps l0 l1" for l1
    by (rule G_fsm [OF that p(1)]) (auto simp: event_ok_def wp_Some that intro!: wp_bind wp_mono [OF CloseSession_ok [OF _ p(1)]])
  show ?thesis unfolding GateSession_LoggedInNtf_def
    by (intro wp_if wp_Some G_fsm [OF G p(1)])
      (auto simp: event_ok_def G wp_Some intro!: wp_bind wp_mono [OF TransferSession_ok [OF G p c]] d f)
qed

lemma Gate_CheckLoginToken_ok:
  assumes G: "gate_keeps l0 l" and p: "p \<in> ses_out l0" "gs_bTempSession (sl_Session l0 p)"
  shows "lp (GateSession_CheckLoginToken E p l) (\<lambda>(r, l). gate_keeps l0 l)"
proof -
  have tok: "gate_keeps l0 (put_token p b l)" if "gate_keeps l0 l" for b l
    unfolding put_token_def by (rule G_plain [OF that p(1)]) (simp_all add: p(2))
  have name: "gate_keeps l0 (ses_upd p (\<lambda>s. s\<lparr>gs_strAccountName := w\<rparr>) l)" if "gate_keeps l0 l" for w l
    by (rule G_plain [OF that p(1)]) (simp_all add: p(2))
  show ?thesis
    unfolding GateSession_CheckLoginToken_def Let_def split_beta
    by (rule lp_if, simp add: lp_Some G, rule lp_bind_any) (auto split: option.splits intro!: lp_rules tok name G)
qed

section \<open>Received data\<close>

lemma gate_forward_ok: "gate_keeps l0 l \<Longrightarrow> p \<in> ses_out l0 \<Longrightarrow> lp (gate_forward E peer p l) (gate_keeps l0)"
  using wp_lp [OF Gate_Disconnect_ok] by (auto simp: gate_forward_def send_peer_def Let_def intro!: lp_None lp_if lp_Some)

lemma Gate_HandlePacket_ok:
  assumes "gate_keeps l0 l" "p \<in> ses_out l0"
  shows "lp (GateSession_HandlePacket E t n bs p l) (gate_keeps l0)"
proof -
  have "gate_keeps l0 (l\<lparr>gl_iDelayTypeId := t, gl_iDelayLen := n, gl_DelayBuf := b\<rparr>)"
    if "mem_write (gl_DelayBuf l) 0 xs = Some b" for b xs
  proof -
    have "gate_inv l" using assms(1) by (rule G_inv)
    then have "gate_inv (l\<lparr>gl_iDelayTypeId := t, gl_iDelayLen := n, gl_DelayBuf := b\<rparr>)"
      using mem_write_length [OF that] by (simp add: gate_defs)
    then show ?thesis using assms(1) by (simp add: gate_keeps_def)
  qed
  then have "lp (GateSession_DelaySendData t n bs l) (gate_keeps l0)"
    by (auto simp: GateSession_DelaySendData_def lp_def split: Option.bind_splits)
  then show ?thesis unfolding GateSession_HandlePacket_def
    by (intro lp_bind) (auto elim!: lp_mono intro: lp_Some gate_forward_ok assms(2) simp: gate_on_packet_def split: option.split client_packet.split)
qed

interpretation gate: session_frame "GateSession_vtable E" p "\<lambda>l. gate_keeps l0 l \<and> p \<in> ses_out l0" "gs_bTempSession (sl_Session l0 p)" for E p l0
proof
  fix l f assume k: "gate_keeps l0 l \<and> p \<in> ses_out l0" and e: "data_eq (sl_Session l p) (f (sl_Session l p))"
  have m: "gs_bTempSession (f (sl_Session l p)) = gs_bTempSession (sl_Session l p)" "gs_bFinalizing (f (sl_Session l p)) = gs_bFinalizing (sl_Session l p)"
      "gs_strAccountName (f (sl_Session l p)) = gs_strAccountName (sl_Session l p)"
    using e by (cases "sl_Session l p"; cases "f (sl_Session l p)"; simp add: data_eq_def)+
  have "gs_ok (sl_Session l p)" using G_ok k by blast
  then have "gs_ok (f (sl_Session l p))" using e m by (simp add: gs_ok_def data_eq_def machine_ok_def)
  then show "gate_keeps l0 (ses_upd p f l) \<and> p \<in> ses_out l0" using k e m by (auto simp: data_eq_def intro!: G_ses_upd [OF _ _ refl])
next
  fix l assume k: "gate_keeps l0 l \<and> p \<in> ses_out l0"
  show "lp (vt_Disconnect (GateSession_vtable E) p l) (\<lambda>l. gate_keeps l0 l \<and> p \<in> ses_out l0)"
    using wp_lp [OF Gate_Disconnect_ok] k by (simp add: GateSession_vtable_def)
  {
    assume "ses_state p l = SESSION_STATE_ONCONNECTION"
    moreover have "gs_ok (sl_Session l p)" "gs_bTempSession (sl_Session l p) = gs_bTempSession (sl_Session l0 p)"
      using G_ok k by (blast, simp add: gate_keeps_def)
    ultimately show "gs_bTempSession (sl_Session l0 p)"
      by (cases "gs_bTempSession (sl_Session l0 p)") (auto simp: gs_ok_def ses_state_def GetCurrState_def named_states_def)
  }
  show "lp (vt_CheckLoginToken (GateSession_vtable E) p l) (\<lambda>(r, l). gate_keeps l0 l \<and> p \<in> ses_out l0)"
    "lp (vt_LoggedInNtf (GateSession_vtable E) p l) (\<lambda>(r, l). gate_keeps l0 l \<and> p \<in> ses_out l0)" if "gs_bTempSession (sl_Session l0 p)"
    using that k Gate_CheckLoginToken_ok wp_lp [OF Gate_LoggedInNtf_ok] by (simp_all add: GateSession_vtable_def)
  show "lp (vt_HandlePacket (GateSession_vtable E) t n bs p l) (\<lambda>l. gate_keeps l0 l \<and> p \<in> ses_out l0)" for t n bs
    using Gate_HandlePacket_ok k by (simp add: GateSession_vtable_def)
qed simp_all

end
