(* ===== verification/GateReach.thy ===== *)
theory GateReach
  imports GateInv
begin

text \<open>
  The gate server over whole runs: taking a session from the pool and giving it back, every command, the round of the loop, and
  the start.  \<open>gate_cmd_ok\<close> is what the commands rely on, \<open>gate_reach\<close> the states of a run.
\<close>

section \<open>Sessions taken from the pool\<close>

lemma gate_id: "gate_inv l \<Longrightarrow> id_server (se_iSessionId (sl_Session l p)) = gl_iServerId l" if "p \<in> set (sl_arraySession l)"
  using that by (auto simp: gate_inv_def table_ok_def in_set_conv_nth)

text \<open>A session from the pool gets in use, as a temporary one or under the name of an account.\<close>

lemma take_session:
  assumes I: "gate_inv l" and a: "ObjectPool_Allocate () (sl_SessionPool l) = Some (Some p, pl)"
    and s: "gs_ok s" "\<not> gs_bFinalizing s" "id_index (se_iSessionId s) = id_index (se_iSessionId (sl_Session l p))"
      "id_server (se_iSessionId s) = id_server (se_iSessionId (sl_Session l p))"
    and k: "if gs_bTempSession s then gl_iTempSessionCount l < gl_iTempSessionMax l \<and> t = gl_iTempSessionCount l + 1 \<and>
        n = gl_iSessionCount l \<and> names = gl_mSessionMapByName l
      else gl_iSessionCount l < gl_iSessionMax l \<and> n = gl_iSessionCount l + 1 \<and> t = gl_iTempSessionCount l \<and>
        gl_mSessionMapByName l (gs_strAccountName s) = None \<and> names = (gl_mSessionMapByName l)(gs_strAccountName s \<mapsto> p)"
  shows "gate_inv (l\<lparr>sl_SessionPool := pl, sl_Session := (sl_Session l)(p := s), gl_iTempSessionCount := t, gl_iSessionCount := n,
      gl_mSessionMapByName := names\<rparr>)" (is "gate_inv ?l")
proof -
  have J: "table_ok (gl_iServerId l) l" "pool_ok l" "gate_sessions l" "gate_counts l" "gate_names l" "gate_queue l"
    using I by (simp_all add: gate_inv_def)
  note F = fresh_session [OF J(1,2) a]
  have o: "ses_out ?l = insert p (ses_out l)" using F(3) by simp
  have f: "gs_bTempSession (sl_Session l p)" "\<not> gs_bFinalizing (sl_Session l p)" using J(3) F(1) by (simp_all add: gate_sessions_def gs_free_def)
  have t: "temps ?l = (if gs_bTempSession s then insert p (temps l) else temps l)" "named ?l = (if gs_bTempSession s then named l else insert p (named l))"
    using F(1,3) by (auto simp: temps_def named_def)
  have fin: "finite (temps l)" "finite (named l)" "p \<notin> temps l" "p \<notin> named l" using F(1) by (simp_all add: temps_def named_def)
  have "table_ok (gl_iServerId ?l) ?l" using J(1) s(3,4) by (auto simp: table_ok_def)
  moreover have "pool_ok ?l" using J(2) F by (simp add: pool_ok_def)
  moreover have "gate_sessions ?l" using J(3) s(1) F(3) by (auto simp: gate_sessions_def)
  moreover have "gate_counts ?l" using J(4) k fin unfolding gate_counts_def t
    by (auto simp: unat_succ_less inc_le split: if_splits)
  moreover have "gate_names ?l" unfolding gate_names_def t
  proof (intro allI)
    fix nm q
    have "gl_mSessionMapByName l (gs_strAccountName (sl_Session l q)) = Some q" if "q \<in> named l"
      using J(5) that by (simp add: gate_names_def)
    then have ne: "gs_strAccountName (sl_Session l q) \<noteq> gs_strAccountName s" if "q \<in> named l" "\<not> gs_bTempSession s" using that k by auto
    show "gl_mSessionMapByName ?l nm = Some q \<longleftrightarrow>
        q \<in> (if gs_bTempSession s then named l else insert p (named l)) \<and> gs_strAccountName (sl_Session ?l q) = nm"
      using J(5) k fin(4) ne by (cases "q = p") (auto simp: gate_names_def split: if_splits)
  qed
  moreover have "gate_queue ?l" using J(6) s(2) F(1,3) by (auto simp: gate_queue_def)
  ultimately show ?thesis using I by (simp add: gate_inv_def)
qed

lemma Allocate_cases:
  obtains pl where "ObjectPool_Allocate () P = Some (None, pl)" | p pl where "ObjectPool_Allocate () P = Some (Some p, pl)"
  by (cases "ob_iMaxSize P > ob_iUsedSize P"; cases "ob_ObjectList P") (auto simp: ObjectPool_Allocate_def)

lemma gate_fresh:
  assumes "gate_inv l" "ObjectPool_Allocate () (sl_SessionPool l) = Some (Some p, pl)"
  shows "gs_free (sl_Session l p)" "machine_ok gtr (sl_Session l p)" "sess_state (sl_Session l p) = SESSION_STATE_NONE"
  using fresh_session(1) [OF _ _ assms(2)] assms(1) by (auto simp: gate_inv_def gate_sessions_def gs_free_def)

lemma gate_pool_same:
  assumes "gate_inv l" "ObjectPool_Allocate () (sl_SessionPool l) = Some (None, pl)"
  shows "l\<lparr>sl_SessionPool := pl\<rparr> = l" "length (ob_out (sl_SessionPool l)) = unat (sl_iSessionMax l)"
  using ObjectPool_Allocate_ok [OF _ assms(2)] assms(1) by (auto simp: gate_inv_def pool_ok_def)

text \<open>The pool has a session left when a client or an account may get one, so NULL is not dereferenced.\<close>

lemma gate_pool_free:
  assumes I: "gate_inv l" and lt: "gl_iSessionCount l < gl_iSessionMax l \<or> gl_iTempSessionCount l < gl_iTempSessionMax l"
  obtains p pl where "ObjectPool_Allocate () (sl_SessionPool l) = Some (Some p, pl)"
proof (cases rule: Allocate_cases [of "sl_SessionPool l"])
  case (1 pl)
  have "ses_out l = temps l \<union> named l" "temps l \<inter> named l = {}" "finite (temps l)" "finite (named l)"
    by (auto simp: temps_def named_def)
  then have "card (ses_out l) = card (temps l) + card (named l)" by (simp add: card_Un_disjoint)
  moreover have "card (ses_out l) = length (ob_out (sl_SessionPool l))"
    using I by (simp add: gate_inv_def pool_ok_def op_inv_def distinct_card)
  ultimately have False using gate_pool_same(2) [OF I 1] I lt by (simp add: gate_inv_def gate_counts_def word_less_nat_alt word_le_nat_alt)
  then show ?thesis ..
qed (use that in blast)

text \<open>Session \<open>p\<close> has been taken from the pool and is now \<open>s\<close>.\<close>

definition taken :: "ptr \<Rightarrow> GateSession \<Rightarrow> GateServerLoop \<Rightarrow> GateServerLoop \<Rightarrow> bool" where
  "taken p s l l' \<longleftrightarrow> gate_inv l' \<and> p \<notin> ses_out l \<and> ses_out l' = insert p (ses_out l) \<and> sl_Session l' = (sl_Session l)(p := s) \<and>
     \<not> gs_bFinalizing s \<and> gl_SessionFinalizingQueue l' = gl_SessionFinalizingQueue l \<and> sl_iShutdownStatus l' = sl_iShutdownStatus l \<and>
     gl_iTempSessionMax l' = gl_iTempSessionMax l \<and> gl_iSessionMax l' = gl_iSessionMax l \<and> gl_sent l' = gl_sent l \<and> gl_iServerId l' = gl_iServerId l"

lemma gate_out: "gate_inv l \<Longrightarrow> ObjectPool_Allocate () (sl_SessionPool l) = Some (Some p, pl) \<Longrightarrow> p \<notin> ses_out l \<and> set (ob_out pl) = insert p (ses_out l)"
  using fresh_session(1,3) [of "gl_iServerId l" l p pl] by (simp add: gate_inv_def)

lemma Connect_result:
  assumes I: "gate_inv l" and c: "c \<noteq> NULL" and lt: "gl_iTempSessionCount l < gl_iTempSessionMax l"
  shows "\<exists>p s l'. Gate_OnCommandOnConnect E c l = Some l' \<and> taken p s l l' \<and> sess_state s = SESSION_STATE_ONCONNECTION \<and> se_pConnection s = c \<and>
    gs_bTempSession s \<and> sl_client l' = (sl_client l)(c \<mapsto> p) \<and> gl_mSessionMapByName l' = gl_mSessionMapByName l"
proof -
  obtain p pl where a: "ObjectPool_Allocate () (sl_SessionPool l) = Some (Some p, pl)" by (rule gate_pool_free [OF I disjI2 [OF lt]])
  note g = gate_fresh [OF I a]
  let ?s = "(sl_Session l p)\<lparr>se_iSessionId := next_sequence (se_iSessionId (sl_Session l p)), se_pConnection := c,
    se_StateMachine := (se_StateMachine (sl_Session l p))\<lparr>sm_iCurrState := SESSION_STATE_ONCONNECTION\<rparr>,
    se_dwConnectionTime := sl_dwCurrTime l, gs_bTempSession := True\<rparr>"
  let ?l = "l\<lparr>sl_SessionPool := pl, sl_Session := (sl_Session l)(p := ?s), gl_iTempSessionCount := gl_iTempSessionCount l + 1,
    gl_iSessionCount := gl_iSessionCount l, gl_mSessionMapByName := gl_mSessionMapByName l\<rparr>"
  let ?r = "net_do (SetRefMax c 256) (?l\<lparr>sl_client := (sl_client l)(c \<mapsto> p)\<rparr>)"
  have ok: "gs_ok ?s" using g c by (simp add: gs_ok_def machine_ok_def fsm_inv_def fsm_fun_def temp_states_def)
  have "gate_inv ?l" using g lt ok by (intro take_session [OF I a]) (simp_all add: gs_free_def)
  then have "gate_inv ?r" by (simp only: G_simps)
  then have "taken p ?s l ?r" using gate_out [OF I a] g unfolding taken_def by (simp add: gs_free_def) (simp add: net_do_def)
  moreover have "Gate_OnCommandOnConnect E c l = Some ?r"
    using lt [unfolded linorder_not_le [symmetric]] a g by (simp add: Gate_OnCommandOnConnect_def GateSession_OnConnection_def SBSession_OnConnection_def
      ses_fsm_eq [of gtr] event_ok_def gtr_facts) (simp add: ses_fsm_eq [of gtr] machine_ok_def event_ok_def gtr_facts ses_upd_def net_do_def)
  ultimately show ?thesis by (intro exI [of _ p] exI [of _ ?s] exI [of _ ?r]) (simp add: net_do_def)
qed

lemma Gate_OnConnect_ok:
  assumes I: "gate_inv l" and c: "c \<noteq> NULL"
  shows "wp (Gate_OnCommandOnConnect E c l) gate_inv"
proof (cases "gl_iTempSessionCount l \<ge> gl_iTempSessionMax l")
  case False
  then have lt: "gl_iTempSessionCount l < gl_iTempSessionMax l" by simp
  show ?thesis using Connect_result [OF I c lt, of E] by (auto simp: wp_def taken_def)
qed (simp add: Gate_OnCommandOnConnect_def wp_Some I)

section \<open>Sessions given back\<close>

lemma Session_Clear_free: "gs_ok s \<Longrightarrow> gs_free (GateSession_Clear s)"
  by (simp add: gs_ok_def gs_free_def machine_ok_def GateSession_Clear_def Session_Clear_def SetCurrState_def fsm_inv_def fsm_fun_def)

lemma gate_finalize_ok:
  assumes I: "gate_inv l" and q: "gl_SessionFinalizingQueue l = [p]"
  shows "wp (gate_finalize_loop [p] l) (\<lambda>l'. gate_inv l' \<and> sl_calls l' = sl_calls l \<and> gl_sent l' = gl_sent l \<and>
    sl_iShutdownStatus l' = sl_iShutdownStatus l \<and> sl_Session l' = (sl_Session l)(p := GateSession_Clear (sl_Session l p)) \<and>
    ses_out l' = ses_out l - {p} \<and> gl_SessionFinalizingQueue l' = [])"
proof -
  have J: "table_ok (gl_iServerId l) l" "pool_ok l" "gate_sessions l" "gate_counts l" "gate_names l" "gate_queue l"
      "sl_mSessionMap l = Map.empty" "length (gl_DelayBuf l) = SB_INPUT_BUFFER"
    using I by (simp_all add: gate_inv_def)
  let ?s = "sl_Session l p"
  have p: "p \<in> ses_out l" "{r \<in> ses_out l. gs_bFinalizing (sl_Session l r)} = {p}" using J(6) q by (auto simp: gate_queue_def)
  have ok: "gs_ok ?s" using J(3) p(1) by (simp add: gate_sessions_def)
  obtain pl where pl: "ObjectPool_Free p (sl_SessionPool l) = Some pl" "pool_ok (l\<lparr>sl_SessionPool := pl\<rparr>)" "set (ob_out pl) = ses_out l - {p}"
    using pool_give_back [OF J(2) p(1), of l] by auto
  define l' where "l' = l\<lparr>sl_mSessionMap := Map.empty, gl_SessionFinalizingQueue := [], sl_SessionPool := pl, sl_Session := (sl_Session l)(p := GateSession_Clear ?s),
    gl_iTempSessionCount := (if gs_bTempSession ?s then gl_iTempSessionCount l - 1 else gl_iTempSessionCount l),
    gl_iSessionCount := (if gs_bTempSession ?s then gl_iSessionCount l else gl_iSessionCount l - 1),
    gl_mSessionMapByName := (if gs_bTempSession ?s then gl_mSessionMapByName l else (gl_mSessionMapByName l)(gs_strAccountName ?s := None))\<rparr>"
  have t: "temps l' = temps l - {p}" "named l' = named l - {p}" using pl(3) by (auto simp: temps_def named_def l'_def)
  have m: "if gs_bTempSession ?s then p \<in> temps l \<and> p \<notin> named l else p \<in> named l \<and> p \<notin> temps l" "finite (temps l)" "finite (named l)"
    using p(1) by (auto simp: temps_def named_def)
  have id: "se_iSessionId (GateSession_Clear ?s) = se_iSessionId ?s" by (simp add: GateSession_Clear_def Session_Clear_def)
  have "table_ok (gl_iServerId l') l'" using J(1) id by (auto simp: table_ok_def l'_def)
  moreover have "pool_ok l'" using pl(2) by (simp add: pool_ok_def l'_def)
  moreover have "gate_sessions l'" using J(3) pl(3) Session_Clear_free [OF ok] by (auto simp: gate_sessions_def l'_def)
  moreover have "gate_counts l'"
  proof (cases "gs_bTempSession ?s")
    case True
    then have "0 < card (temps l)" "p \<in> temps l" using m by (auto simp: card_gt_0_iff)
    then show ?thesis using J(4) m True unfolding gate_counts_def t by (auto simp: l'_def card_Diff_singleton unat_minus_one word_le_nat_alt unat_eq_0 simp flip: unat_gt_0)
  next
    case False
    then have "0 < card (named l)" "p \<in> named l" using m by (auto simp: card_gt_0_iff)
    then show ?thesis using J(4) m False unfolding gate_counts_def t by (auto simp: l'_def card_Diff_singleton unat_minus_one word_le_nat_alt unat_eq_0 simp flip: unat_gt_0)
  qed
  moreover have "gate_names l'" unfolding gate_names_def t
  proof (intro allI)
    fix nm r
    have "gl_mSessionMapByName l nm = Some r \<longleftrightarrow> r \<in> named l \<and> gs_strAccountName (sl_Session l r) = nm" for nm r using J(5) by (simp add: gate_names_def)
    moreover from this have "gs_strAccountName (sl_Session l r) \<noteq> gs_strAccountName ?s" if "r \<in> named l" "p \<in> named l" "r \<noteq> p"
      using that by (metis option.inject)
    ultimately show "gl_mSessionMapByName l' nm = Some r \<longleftrightarrow> r \<in> named l - {p} \<and> gs_strAccountName (sl_Session l' r) = nm"
      using m(1) by (cases "r = p") (auto simp: l'_def split: if_splits)
  qed
  moreover have "gate_queue l'" using pl(3) p(2) by (auto simp: gate_queue_def l'_def)
  ultimately have inv: "gate_inv l'" using J(8) by (simp add: gate_inv_def) (simp add: l'_def)
  have eq: "gate_finalize_loop [p] l = Some l'"
    using pl(1) by (simp add: Gate_ClearSession_def ClearSession_def l'_def ses_upd_def J(7) Let_def)
  show ?thesis unfolding eq by (rule wp_Some, rule conjI [OF inv]) (simp add: l'_def pl(3))
qed

lemma GateLoop_ok:
  assumes "gate_inv l" "length (gl_SessionFinalizingQueue l) \<le> 1"
  shows "wp (GateServerLoop_Loop l) (\<lambda>l'. gate_inv l' \<and> sl_calls l' = sl_calls l \<and> gl_sent l' = gl_sent l \<and> gl_SessionFinalizingQueue l' = [] \<and>
    (\<forall>p. p \<notin> set (gl_SessionFinalizingQueue l) \<longrightarrow> sl_Session l' p = sl_Session l p) \<and>
    sl_iShutdownStatus l' = (if sl_iShutdownStatus l = START_SHUTDOWN then READY_FOR_SHUTDOWN else sl_iShutdownStatus l))"
  unfolding GateServerLoop_Loop_def
proof (cases "gl_SessionFinalizingQueue l")
  case (Cons p ps)
  then have q: "gl_SessionFinalizingQueue l = [p]" using assms(2) by simp
  show "wp (gate_finalize_loop (gl_SessionFinalizingQueue l) l \<bind>
      (\<lambda>l. Some (if sl_iShutdownStatus l = START_SHUTDOWN then SL_ReadyForShutdown l else l))) (\<lambda>l'. gate_inv l' \<and> sl_calls l' = sl_calls l \<and>
      gl_sent l' = gl_sent l \<and> gl_SessionFinalizingQueue l' = [] \<and>
      (\<forall>p. p \<notin> set (gl_SessionFinalizingQueue l) \<longrightarrow> sl_Session l' p = sl_Session l p) \<and>
      sl_iShutdownStatus l' = (if sl_iShutdownStatus l = START_SHUTDOWN then READY_FOR_SHUTDOWN else sl_iShutdownStatus l))"
    unfolding q by (rule wp_bind, rule wp_mono, rule gate_finalize_ok [OF assms(1) q]) (auto simp: SL_ReadyForShutdown_def wp_Some)
qed (use assms(1) in \<open>simp add: SL_ReadyForShutdown_def wp_Some\<close>)

section \<open>Commands\<close>

lemma G_self: "gate_inv l \<Longrightarrow> wp X (gate_keeps l) \<Longrightarrow> wp X gate_inv"
  by (erule wp_mono) (rule G_inv)

lemma gate_free_session: "gate_inv l \<Longrightarrow> p \<notin> ses_out l \<Longrightarrow> gs_free (sl_Session l p)"
  by (simp add: gate_inv_def gate_sessions_def)

text \<open>A session in the pool does not react to an event that state NONE has no transition for.\<close>

lemma free_fsm: "gate_inv l \<Longrightarrow> p \<notin> ses_out l \<Longrightarrow> gtr SESSION_STATE_NONE e = None \<Longrightarrow> event_ok e \<Longrightarrow> ses_fsm p e b l = Some (- 1, l)"
  using gate_free_session [of l p] by (simp add: gs_free_def ses_fsm_eq [of gtr])

lemma Gate_OnDisconnect_any: "gate_inv l \<Longrightarrow> wp (GateSession_OnDisconnect E p l) gate_inv"
proof (cases "p \<in> ses_out l")
  case False
  then show "gate_inv l \<Longrightarrow> ?thesis" by (simp add: GateSession_OnDisconnect_def free_fsm gtr_facts event_ok_def wp_Some)
qed (rule G_self [OF _ Gate_OnDisconnect_ok [OF G_refl]])

lemma Gate_OnMasterDisconnect_any: "gate_inv l \<Longrightarrow> wp (GateSession_OnMasterDisconnect E p l) gate_inv"
proof (cases "p \<in> ses_out l")
  case False
  then show "gate_inv l \<Longrightarrow> ?thesis" by (simp add: GateSession_OnMasterDisconnect_def free_fsm gtr_facts event_ok_def wp_Some)
qed (rule G_self [OF _ OnMasterDisconnect_ok [OF G_refl]])

text \<open>Binding can hit a session in the pool: its id stays until it is taken again.\<close>

lemma Gate_OnRegionBindReq_any:
  assumes I: "gate_inv l"
  shows "gate_inv (GateSession_OnRegionBindReq E r p l)"
proof (cases "p \<in> ses_out l")
  case True
  show ?thesis
    using G_plain [OF G_refl [OF I] True, of "\<lambda>s. s\<lparr>gs_pRegionServer := gv_peer E r\<rparr>"] I by (simp add: GateSession_OnRegionBindReq_def G_inv)
next
  case False
  let ?l = "ses_upd p (\<lambda>s. s\<lparr>gs_pRegionServer := gv_peer E r\<rparr>) l"
  have t: "temps ?l = temps l" "named ?l = named l" by (auto simp: temps_def named_def ses_upd_def)
  have "gate_counts ?l" "gate_names ?l" using I unfolding gate_inv_def gate_counts_def gate_names_def t by (auto simp: ses_upd_def)
  moreover have "gate_sessions ?l" using I gate_free_session [OF I False] by (auto simp: gate_inv_def gate_sessions_def ses_upd_def gs_free_def gs_ok_def machine_ok_def)
  moreover have "gate_queue ?l" using I by (auto simp: gate_inv_def gate_queue_def ses_upd_def)
  moreover have "table_ok (gl_iServerId ?l) ?l" "pool_ok ?l" using I by (auto simp: gate_inv_def table_ok_def pool_ok_def ses_upd_def)
  ultimately have "gate_inv ?l" using I by (simp add: gate_inv_def) (simp add: ses_upd_def)
  then show ?thesis using I by (simp add: GateSession_OnRegionBindReq_def)
qed

lemma wp_Gate_GetSession:
  assumes "gate_inv l" "id_index sid \<noteq> sl_iSessionMax l" "wp (f None) Q" "\<And>p. wp (f (Some p)) Q"
  shows "wp (SL_GetSession sid l \<bind> f) Q"
proof -
  obtain r where "SL_GetSession sid l = Some r" using GetSession_found [OF _ assms(2)] assms(1) by (auto simp: gate_inv_def)
  then show ?thesis using assms(3,4) by (cases r) auto
qed

lemma net_do_simps: "sl_iSessionMax (net_do c l) = sl_iSessionMax l" "sl_Session (net_do c l) = sl_Session l"
    "gl_SessionFinalizingQueue (net_do c g) = gl_SessionFinalizingQueue g" "sl_iShutdownStatus (net_do c l) = sl_iShutdownStatus l"
    "gl_iSessionMax (net_do c g) = gl_iSessionMax g"
  by (simp_all add: net_do_def)

lemma gate_send_ok:
  assumes "gate_inv l" "length data + SERVER_PACKET_HEAD \<le> SB_OUTPUT_BUFFER" "se_pConnection (sl_Session l p) \<noteq> NULL"
    "\<And>r l1. gate_inv l1 \<Longrightarrow> sl_iSessionMax l1 = sl_iSessionMax l \<Longrightarrow> wp (f r l1) Q"
  shows "wp (SBSession_SendData (E :: genv) t data p l \<bind> case_prod f) Q"
  using assms(1-3) by (auto simp: SBSession_SendData_def SB_PopOutputBuffer_def Let_def net_do_simps intro!: assms(4))

text \<open>A session that may send has a connection.\<close>

lemma wp_can_send:
  assumes I: "gate_inv l" and q: "Q l" and x: "se_pConnection (sl_Session l p) \<noteq> NULL \<Longrightarrow> wp (X l) Q"
  shows "wp (ses_fsm p SESSION_EVENT_SEND False l \<bind> (\<lambda>(r, l). if r < 0 then Some l else X l)) Q"
proof (cases "p \<in> ses_out l")
  case True
  show ?thesis
    by (rule G_fsm [OF G_refl [OF I] True])
      (auto simp: event_ok_def q wp_Some intro!: x dest: gtr_facts(2) G_connection [OF G_refl [OF I] True])
qed (simp add: free_fsm [OF I] gtr_facts event_ok_def wp_Some q)

lemma wp_session_option: "wp N Q \<Longrightarrow> (\<And>p. r = Some p \<Longrightarrow> wp (S p) Q) \<Longrightarrow> wp (case r of None \<Rightarrow> N | Some p \<Rightarrow> S p) Q"
  by (cases r) simp_all

definition data_ok :: "byte list \<Rightarrow> bool" where
  "data_ok data \<longleftrightarrow> length data + SERVER_PACKET_HEAD \<le> SB_OUTPUT_BUFFER"

lemma wp_send:
  assumes "gate_inv l" "data_ok data" "se_pConnection (sl_Session l p) \<noteq> NULL"
  shows "wp (SBSession_SendData (E :: genv) t data p l \<bind> (\<lambda>(r, l). Some l)) (\<lambda>l'. gate_inv l' \<and> sl_iSessionMax l' = sl_iSessionMax l)"
  using assms by (intro gate_send_ok) (simp_all add: data_ok_def wp_Some)

lemma SL_SendData_ok:
  assumes I: "gate_inv l" and "id_index sid \<noteq> sl_iSessionMax l" "data_ok data"
    and c: "\<And>p. SL_GetSession sid l = Some (Some p) \<Longrightarrow> se_pConnection (sl_Session l p) \<noteq> NULL"
  shows "wp (SL_OnCommandSendData (E :: genv) sid t data l) gate_inv"
proof -
  obtain r where r: "SL_GetSession sid l = Some r" using GetSession_found [OF _ assms(2)] I by (auto simp: gate_inv_def)
  then show ?thesis using c wp_mono [OF wp_send [OF I assms(3)], where Q' = gate_inv] I
    by (cases r) (simp_all add: SL_OnCommandSendData_def wp_Some)
qed

lemma Gate_SendData_ok:
  assumes I: "gate_inv l" and id: "id_index sid \<noteq> sl_iSessionMax l" and d: "data_ok data"
  shows "wp (Gate_OnCommandSendData E sid t data l) gate_inv"
proof -
  obtain r where r: "SL_GetSession sid l = Some r" using GetSession_found [OF _ id] I by (auto simp: gate_inv_def)
  show ?thesis unfolding Gate_OnCommandSendData_def r Option.bind.bind_lunit
    by (intro wp_session_option wp_if wp_can_send SL_SendData_ok) (use I id d r in \<open>auto intro: wp_Some\<close>)
qed

lemma Gate_BroadcastData_ok:
  "gate_inv l \<Longrightarrow> list_all (\<lambda>sid. id_index sid \<noteq> m) sids \<Longrightarrow> sl_iSessionMax l = m \<Longrightarrow> data_ok data \<Longrightarrow>
     wp (Gate_OnCommandBroadcastData E sids t data l) gate_inv"
proof (induction sids arbitrary: l)
  case (Cons sid sids)
  let ?Q = "\<lambda>l'. gate_inv l' \<and> sl_iSessionMax l' = m"
  obtain r where r: "SL_GetSession sid l = Some r" using GetSession_found [of "gl_iServerId l" l sid] Cons.prems by (auto simp: gate_inv_def)
  have "wp (case r of None \<Rightarrow> Some l
      | Some p \<Rightarrow> if gs_bFinalizing (sl_Session l p) \<or> gs_pRegionServer (sl_Session l p) = NULL then Some l
        else ses_fsm p SESSION_EVENT_SEND False l \<bind> (\<lambda>(r, l). if r < 0 then Some l
          else SBSession_SendData E t data p l \<bind> (\<lambda>(iRet, l). Some l))) ?Q"
    using Cons.prems wp_send [OF Cons.prems(1,4)] by (intro wp_session_option wp_if wp_can_send) (auto simp: wp_Some)
  then show ?case unfolding Gate_OnCommandBroadcastData.simps r Option.bind.bind_lunit
    by (intro wp_bind) (erule wp_mono, use Cons in auto)
qed (simp add: wp_Some)

lemma AllocReq_start:
  assumes I: "gate_inv l" and len: "length name \<le> GATE_ACCOUNTNAME_MAX"
    and fresh: "gl_mSessionMapByName l name = None" "gl_iSessionCount l < gl_iSessionMax l"
  shows "\<exists>p s l1. taken p s l l1 \<and> sess_state s = SESSION_STATE_ONGATEALLOCREQ \<and> gs_strAccountName s = name \<and> \<not> gs_bTempSession s \<and>
    gl_mSessionMapByName l1 = (gl_mSessionMapByName l)(name \<mapsto> p) \<and> gl_iTempSessionCount l1 = gl_iTempSessionCount l \<and>
    Gate_OnCommandGateAllocReq E lsid name l = (let (iRet, l) = send_peer E (GMsg_GateAllocAck (gl_iServerId l1) lsid name (se_iSessionId s)) l1 in
        if iRet \<noteq> 0 then Some l else ses_fsm p SESSION_EVENT_GATEALLOCACK True l \<bind> (\<lambda>(r, l). Some l))"
proof -
  obtain p pl where a: "ObjectPool_Allocate () (sl_SessionPool l) = Some (Some p, pl)" by (rule gate_pool_free [OF I disjI1 [OF fresh(2)]])
  note g = gate_fresh [OF I a]
  let ?s = "(sl_Session l p)\<lparr>se_StateMachine := (se_StateMachine (sl_Session l p))\<lparr>sm_iCurrState := SESSION_STATE_ONGATEALLOCREQ\<rparr>,
    se_iSessionId := next_sequence (se_iSessionId (sl_Session l p)), gs_strAccountName := name, gs_iLoginSessionId := lsid, gs_bTempSession := False\<rparr>"
  define l1 where "l1 = (l\<lparr>sl_SessionPool := pl, gl_iSessionCount := gl_iSessionCount l + 1,
    gl_mSessionMapByName := (gl_mSessionMapByName l)(name \<mapsto> p)\<rparr>)\<lparr>sl_Session := (sl_Session l)(p := ?s)\<rparr>"
  have l1: "l1 = l\<lparr>sl_SessionPool := pl, sl_Session := (sl_Session l)(p := ?s), gl_iTempSessionCount := gl_iTempSessionCount l,
    gl_iSessionCount := gl_iSessionCount l + 1, gl_mSessionMapByName := (gl_mSessionMapByName l)(name \<mapsto> p)\<rparr>"
    unfolding l1_def by (cases l) simp
  have ok: "gs_ok ?s" using g by (simp add: gs_ok_def machine_ok_def fsm_inv_def fsm_fun_def named_states_def conn_states_def)
  have inv: "gate_inv l1" unfolding l1 by (rule take_session [OF I a ok]) (use fresh g in \<open>simp_all add: gs_free_def\<close>)
  from inv have taken: "taken p ?s l l1" using gate_out [OF I a] g unfolding taken_def by (simp add: l1_def gs_free_def)
  let ?L = "l\<lparr>sl_SessionPool := pl, gl_iSessionCount := gl_iSessionCount l + 1, gl_mSessionMapByName := (gl_mSessionMapByName l)(name \<mapsto> p)\<rparr>"
  have f: "ses_fsm p SESSION_EVENT_ONGATEALLOCREQ True ?L = Some (SESSION_STATE_ONGATEALLOCREQ,
      ses_upd p (\<lambda>x. x\<lparr>se_StateMachine := (se_StateMachine x)\<lparr>sm_iCurrState := SESSION_STATE_ONGATEALLOCREQ\<rparr>\<rparr>) ?L)"
    using g by (simp add: ses_fsm_eq [of gtr] event_ok_def gtr_facts)
  have eq: "Gate_OnCommandGateAllocReq E lsid name l = (let (iRet, l) = send_peer E (GMsg_GateAllocAck (gl_iServerId l1) lsid name (se_iSessionId ?s)) l1 in
      if iRet \<noteq> 0 then Some l else ses_fsm p SESSION_EVENT_GATEALLOCACK True l \<bind> (\<lambda>(r, l). Some l))"
    using fresh(1) fresh(2) [unfolded linorder_not_le [symmetric]] a len f by (simp add: Gate_OnCommandGateAllocReq_def GateSession_OnGateAllocReq_def wcscpy_s_def hm_insert_def ses_upd_def l1_def Let_def)
  with taken show ?thesis by (intro exI [of _ p] exI [of _ ?s] exI [of _ l1]) (simp add: l1_def)
qed

lemma Gate_AllocReq_ok:
  assumes I: "gate_inv l" and len: "length name \<le> GATE_ACCOUNTNAME_MAX"
  shows "wp (Gate_OnCommandGateAllocReq E lsid name l) gate_inv"
proof -
  consider (known) "gl_mSessionMapByName l name \<noteq> None" | (full) "gl_mSessionMapByName l name = None" "gl_iSessionCount l \<ge> gl_iSessionMax l"
    | (fresh) "gl_mSessionMapByName l name = None" "gl_iSessionCount l < gl_iSessionMax l"
    by fastforce
  then show ?thesis
  proof cases
    case fresh
    obtain p s l1 where t: "taken p s l l1" and eq: "Gate_OnCommandGateAllocReq E lsid name l =
        (let (iRet, l) = send_peer E (GMsg_GateAllocAck (gl_iServerId l1) lsid name (se_iSessionId s)) l1 in
          if iRet \<noteq> 0 then Some l else ses_fsm p SESSION_EVENT_GATEALLOCACK True l \<bind> (\<lambda>(r, l). Some l))"
      using AllocReq_start [OF I len fresh, of E lsid] by blast
    have inv: "gate_inv l1" and p: "p \<in> ses_out l1" using t by (simp_all add: taken_def)
    show ?thesis unfolding eq
      by (rule G_self [OF inv], rule wp_send_peer [OF G_refl [OF inv]], intro wp_if wp_Some G_fsm p) (auto simp: event_ok_def wp_Some p)
  qed (simp_all add: Gate_OnCommandGateAllocReq_def send_peer_def Let_def wp_Some I)
qed

text \<open>An account is announced to a server that has room, and the answer is sent.\<close>

lemma AllocReq_result:
  assumes I: "gate_inv l" and len: "length name \<le> GATE_ACCOUNTNAME_MAX"
    and fresh: "gl_mSessionMapByName l name = None" "gl_iSessionCount l < gl_iSessionMax l" and r: "sv_net E (length (gl_sent l)) = 0"
  shows "\<exists>p s l'. Gate_OnCommandGateAllocReq E lsid name l = Some l' \<and> gate_inv l' \<and> p \<notin> ses_out l \<and> ses_out l' = insert p (ses_out l) \<and>
    sl_Session l' = (sl_Session l)(p := s) \<and> sess_state s = SESSION_STATE_GATEALLOCACK \<and> gs_strAccountName s = name \<and> \<not> gs_bTempSession s \<and>
    \<not> gs_bFinalizing s \<and> gl_mSessionMapByName l' = (gl_mSessionMapByName l)(name \<mapsto> p) \<and>
    gl_sent l' = gl_sent l @ [(GMsg_GateAllocAck (gl_iServerId l) lsid name (se_iSessionId s), 0)] \<and>
    gl_SessionFinalizingQueue l' = gl_SessionFinalizingQueue l \<and> sl_iShutdownStatus l' = sl_iShutdownStatus l \<and>
    gl_iTempSessionCount l' = gl_iTempSessionCount l \<and> gl_iTempSessionMax l' = gl_iTempSessionMax l"
proof -
  obtain p s l1 where t: "taken p s l l1" "sess_state s = SESSION_STATE_ONGATEALLOCREQ" "gs_strAccountName s = name" "\<not> gs_bTempSession s"
      "gl_mSessionMapByName l1 = (gl_mSessionMapByName l)(name \<mapsto> p)" "gl_iTempSessionCount l1 = gl_iTempSessionCount l"
    and eq: "Gate_OnCommandGateAllocReq E lsid name l = (let (iRet, l) = send_peer E (GMsg_GateAllocAck (gl_iServerId l1) lsid name (se_iSessionId s)) l1 in
          if iRet \<noteq> 0 then Some l else ses_fsm p SESSION_EVENT_GATEALLOCACK True l \<bind> (\<lambda>(r, l). Some l))"
    using AllocReq_start [OF I len fresh, of E lsid] by blast
  have inv: "gate_inv l1" and p: "p \<in> ses_out l1" "sl_Session l1 p = s" "gl_sent l1 = gl_sent l" using t by (simp_all add: taken_def)
  have m: "machine_ok gtr s" using G_ok [OF G_refl [OF inv] p(1)] p(2) by (simp add: gs_ok_def)
  let ?m = "(GMsg_GateAllocAck (gl_iServerId l1) lsid name (se_iSessionId s), 0)"
  let ?l = "ses_upd p (\<lambda>x. x\<lparr>se_StateMachine := (se_StateMachine x)\<lparr>sm_iCurrState := SESSION_STATE_GATEALLOCACK\<rparr>\<rparr>) (l1\<lparr>gl_sent := gl_sent l1 @ [?m]\<rparr>)"
  have "gtr SESSION_STATE_ONGATEALLOCREQ SESSION_EVENT_GATEALLOCACK = Some SESSION_STATE_GATEALLOCACK" by code_simp
  then have e: "Gate_OnCommandGateAllocReq E lsid name l = Some ?l"
    unfolding eq send_peer_def p(3) r Let_def using m t(2) p(2) by (simp add: ses_fsm_eq [of gtr] event_ok_def)
  then have "gate_inv ?l" using Gate_AllocReq_ok [OF I len, of E lsid] by (simp add: wp_def)
  moreover have "gl_iServerId l1 = gl_iServerId l" using t(1) by (simp add: taken_def)
  ultimately show ?thesis using e t p
    by (intro exI [of _ p] exI [of _ "s\<lparr>se_StateMachine := (se_StateMachine s)\<lparr>sm_iCurrState := SESSION_STATE_GATEALLOCACK\<rparr>\<rparr>"] exI [of _ ?l])
      (simp add: taken_def ses_upd_def)
qed

lemma Gate_ReleaseReq_ok:
  assumes I: "gate_inv l"
  shows "wp (Gate_OnCommandGateReleaseReq E lsid name l) gate_inv"
proof (cases "gl_mSessionMapByName l name")
  case (Some p)
  then have "p \<in> ses_out l" using I by (simp add: gate_inv_def gate_names_def named_def)
  then show ?thesis using Some G_self [OF I OnGateReleaseReq_ok [OF G_refl [OF I]]] by (simp add: Gate_OnCommandGateReleaseReq_def)
qed (simp add: Gate_OnCommandGateReleaseReq_def wp_Some I)

text \<open>The map of sessions that the shutdown goes through is always empty.\<close>

lemma Gate_Shutdown_eq:
  "gate_inv l \<Longrightarrow> order Map.empty = [] \<Longrightarrow> Gate_OnCommandShutdown E order l = Some (l\<lparr>sl_iShutdownStatus := START_SHUTDOWN\<rparr>)"
  by (simp add: Gate_OnCommandShutdown_def gate_inv_def)

lemma Gate_OnData_ok:
  assumes I: "gate_inv l"
  shows "lp (Gate_OnCommandOnData fuel E c data l) gate_inv"
proof -
  have D: "lp (SBSession_OnData fuel E (GateSession_vtable E) data p l) (\<lambda>(d, l). gate_inv l)" for p
  proof (cases "p \<in> ses_out l")
    case True
    show ?thesis by (rule lp_mono [OF gate.OnData_ok [of l l p]]) (auto simp: G_refl I True dest: G_inv)
  next
    case False
    then show ?thesis using gate_free_session [OF I False]
      by (simp add: SBSession_OnData_def free_fsm [OF I] gtr_facts event_ok_def ses_state_def GetCurrState_def gs_free_def lp_Some I)
  qed
  then show ?thesis
    by (auto simp: Gate_OnCommandOnData_def SL_OnCommandOnData_def lp_Some lp_None I split: option.split intro!: lp_bind lp_mono [OF D])
qed

fun gate_cmd_ok :: "GateServerLoop \<Rightarrow> gate_command \<Rightarrow> bool" where
  "gate_cmd_ok l (GC_GATEALLOCREQ lsid name) = (length name \<le> GATE_ACCOUNTNAME_MAX)"
| "gate_cmd_ok l (GC_GATERELEASEREQ lsid name) = True"
| "gate_cmd_ok l (GC_REGIONBINDREQ sid r) = (id_index sid \<noteq> sl_iSessionMax l)"
| "gate_cmd_ok l (GC_SESSION (SC_ONCONNECT c)) = (c \<noteq> NULL)"
| "gate_cmd_ok l (GC_SESSION (SC_DISCONNECT sid r)) = (id_index sid \<noteq> sl_iSessionMax l)"
| "gate_cmd_ok l (GC_SESSION (SC_SENDDATA sid t data)) = (id_index sid \<noteq> sl_iSessionMax l \<and> data_ok data)"
| "gate_cmd_ok l (GC_SESSION (SC_BROADCASTDATA sids t data)) = (list_all (\<lambda>sid. id_index sid \<noteq> sl_iSessionMax l) sids \<and> data_ok data)"
| "gate_cmd_ok l (GC_SESSION (SC_PACKETFORWARD sid t data)) = (id_index sid \<noteq> sl_iSessionMax l \<and> data_ok data \<and>
     (case SL_GetSession sid l of Some (Some p) \<Rightarrow> se_pConnection (sl_Session l p) \<noteq> NULL | _ \<Rightarrow> True))"
| "gate_cmd_ok l (GC_SESSION SC_SHUTDOWN) = True"
| "gate_cmd_ok l (GC_SESSION (SC_ONDISCONNECT c)) = True"
| "gate_cmd_ok l (GC_SESSION (SC_ONDATA c data)) = False"

lemma Gate_OnCommand_ok:
  assumes I: "gate_inv l" and ok: "gate_cmd_ok l cmd" and order: "order Map.empty = []"
  shows "wp (Gate_OnCommand fuel E order cmd l) gate_inv"
  using ok
proof (cases rule: gate_cmd_ok.elims(2))
  case (3 sid r)
  then show ?thesis using I Gate_OnRegionBindReq_any [OF I]
    by (auto simp: Gate_OnCommand_def Gate_OnCommandRegionBindReq_def wp_Some intro!: wp_Gate_GetSession)
next
  case (5 sid r)
  then show ?thesis using Gate_OnMasterDisconnect_any [OF I]
    by (auto simp: Gate_OnCommand_def Gate_OnCommandDisconnect_def wp_Some I intro!: wp_Gate_GetSession)
next
  case (8 sid t data)
  then show ?thesis using SL_SendData_ok [OF I, of sid data E t]
    by (auto simp: Gate_OnCommand_def SL_OnCommandPacketForward_def wp_Some I split: option.splits)
next
  case (10 c)
  have "gate_inv (ClearSession p l)" for p using I by (simp add: gate_defs ClearSession_def)
  then show ?thesis using 10 I Gate_OnDisconnect_any by (auto simp: Gate_OnCommand_def Gate_OnCommandOnDisconnect_def wp_Some split: option.split)
qed (use I order in \<open>auto simp: Gate_OnCommand_def wp_Some Gate_Shutdown_eq intro!: Gate_AllocReq_ok Gate_ReleaseReq_ok Gate_OnConnect_ok Gate_SendData_ok Gate_BroadcastData_ok\<close>)

section \<open>The round of the loop\<close>

definition same_queue :: "GateServerLoop \<Rightarrow> GateServerLoop \<Rightarrow> bool" where
  "same_queue l0 l \<longleftrightarrow> gate_inv l \<and> gl_SessionFinalizingQueue l = gl_SessionFinalizingQueue l0 \<and> sl_iShutdownStatus l = sl_iShutdownStatus l0 \<and>
     gl_iSessionMax l = gl_iSessionMax l0"

lemma gtr_timeout: "gtr SESSION_STATE_ONCONNECTION SESSION_EVENT_DISCONNECT = Some SESSION_STATE_DISCONNECT"
  by code_simp

text \<open>A session that waits for its login has a connection, which is closed from below: it is not finalized here.\<close>

lemma timeout_ok:
  assumes q: "same_queue l0 l" and s: "ses_state p l = SESSION_STATE_ONCONNECTION"
  shows "wp (GateSession_Disconnect E p l) (same_queue l0)"
proof -
  have I: "gate_inv l" using q by (simp add: same_queue_def)
  have p: "p \<in> ses_out l" by (rule ccontr) (use gate_free_session [OF I, of p] s in \<open>simp add: gs_free_def ses_state_def GetCurrState_def\<close>)
  have c: "se_pConnection (sl_Session l p) \<noteq> NULL"
    using G_connection [OF G_refl [OF I] p] s by (simp add: ses_state_def GetCurrState_def conn_states_def)
  show ?thesis unfolding GateSession_Disconnect_def
    by (intro wp_if wp_Some q, rule G_fsm [OF G_refl [OF I] p])
      (use s q c in \<open>auto simp: event_ok_def ses_state_def GetCurrState_def gtr_timeout SBSession_Disconnect_def ses_upd_def wp_def same_queue_def net_do_simps dest: G_inv\<close>)
qed

lemma gate_check_sessions_ok: "same_queue l0 l \<Longrightarrow> wp (gate_check_sessions E ps l) (same_queue l0)"
proof (induction ps arbitrary: l)
  case (Cons p ps)
  then show ?case unfolding gate_check_sessions.simps
    by (intro wp_bind wp_if) (auto intro!: wp_mono [OF timeout_ok] wp_Some)
qed (simp add: wp_Some)

lemma gate_max_le: "gate_inv l \<Longrightarrow> unat (gl_iSessionMax l) \<le> length (sl_arraySession l)"
  unfolding gate_inv_def gate_counts_def table_ok_def by linarith

lemma gate_run_alarms_ok: "same_queue l0 l \<Longrightarrow> wp (gate_run_alarms E ns l) (same_queue l0)"
proof (induction ns arbitrary: l)
  case (Cons n ns)
  have "unat (gl_iSessionMax l) \<le> length (sl_arraySession l)" using Cons.prems gate_max_le [of l] by (simp add: same_queue_def)
  then have c: "wp (Gate_CheckSessionState E l) (same_queue l0)"
    using gate_check_sessions_ok [OF Cons.prems] Cons.prems by (simp add: Gate_CheckSessionState_def wp_Some)
  have "same_queue l0 (Gate_ReportState E l)" using Cons.prems by (simp add: Gate_ReportState_def send_peer_def Let_def same_queue_def)
  then show ?case unfolding gate_run_alarms.simps
    by (intro wp_bind wp_if) (auto intro!: wp_mono [OF c] wp_Some Cons.IH)
qed (simp add: wp_Some)

lemma Gate_EndRound_ok:
  assumes I: "gate_inv l" and q: "length (gl_SessionFinalizingQueue l) \<le> 1"
  shows "wp (Gate_EndRound E now l) gate_inv"
  unfolding Gate_EndRound_def Let_def
proof (rule wp_bind, rule wp_mono [OF gate_run_alarms_ok [of l]])
  fix l1 assume "same_queue l l1"
  then show "wp (GateServerLoop_Loop l1 \<bind> (\<lambda>l. Some (l\<lparr>sl_dwCurrTime := now\<rparr>))) gate_inv"
    using q by (intro wp_bind wp_mono [OF GateLoop_ok]) (auto simp: same_queue_def wp_Some)
qed (use I in \<open>simp add: same_queue_def\<close>)

section \<open>Starting up\<close>

lemma GateSession_new_ok: "\<exists>s. GateSession_new = Some s \<and> gs_free s"
proof -
  obtain m where m: "GateSession_InitStateMachine (se_StateMachine Session_new) = Some m" "fsm_inv m" "sm_iCurrState m = SESSION_STATE_NONE"
      "fsm_fun m = (\<lambda>(s, e). gtr s e)"
    using GateSession_InitStateMachine_ok [of SESSION_STATE_NONE] by (auto simp: Session_new_def)
  then show ?thesis
    by (simp add: GateSession_new_def gs_free_def machine_ok_def Session.extend_def GateSession.fields_def) (simp add: Session_new_def)
qed

text \<open>With at most 32767 sessions the sizes of the two kinds add up to the size of the pool; with more they wrap around.\<close>

lemma gate_sizes:
  fixes m :: u16
  assumes "unat m \<le> 32767"
  shows "unat (m * 2 - (m + m div 5)) + unat (m + m div 5) = unat (m * 2)"
proof -
  have a: "unat (m + m div 5) = unat m + unat m div 5" "unat (m * 2) = 2 * unat m"
    using assms by (simp_all add: unat_word_ariths unat_div)
  then have "m + m div 5 \<le> m * 2" by (simp add: word_le_nat_alt)
  then have "unat (m * 2 - (m + m div 5)) = unat (m * 2) - unat (m + m div 5)" by (rule unat_sub)
  then show ?thesis using a by simp
qed

lemma gate_starts:
  assumes "unat iSessionMax \<le> 32767"
  shows "\<exists>l0 l. GateServerLoop_new iServerId iSessionMax = Some l0 \<and> GateServerLoop_Init l0 = Some (0, l) \<and> gate_inv l \<and>
     sl_iSessionMax l = iSessionMax * 2 \<and> sl_arraySession l = [0..<unat (iSessionMax * 2)] \<and> ses_out l = {} \<and>
     sl_iShutdownStatus l = NOT_SHUTDOWN \<and> gl_SessionFinalizingQueue l = [] \<and> gl_iSessionMax l = iSessionMax + iSessionMax div 5 \<and>
     gl_iTempSessionMax l = iSessionMax * 2 - (iSessionMax + iSessionMax div 5) \<and> gl_mSessionMapByName l = Map.empty \<and> gl_sent l = []"
proof -
  obtain s where s: "GateSession_new = Some s" "gs_free s" using GateSession_new_ok by blast
  let ?n = "iSessionMax + iSessionMax div 5"
  let ?init = "sloop.extend (sloop_new s (iSessionMax * 2)) (GateServerLoop.fields Alarm_new iServerId Map.empty [] ?n (iSessionMax * 2 - ?n) 0 0
       0 0 (replicate SB_INPUT_BUFFER 0) [])"
  have new: "GateServerLoop_new iServerId iSessionMax = Some ?init" unfolding GateServerLoop_new_def s(1) Option.bind.bind_lunit Let_def by (rule refl)
  have f: "sl_SessionPool ?init = ObjectPool_new (ucast (sl_iSessionMax ?init))" "sl_arraySession ?init = []" "sl_iSessionMax ?init = iSessionMax * 2"
      "gl_iServerId ?init = iServerId" "sl_Session ?init = (\<lambda>_. s)" "sl_mSessionMap ?init = Map.empty"
      "sl_iShutdownStatus ?init = NOT_SHUTDOWN" "gl_mSessionMapByName ?init = Map.empty" "gl_SessionFinalizingQueue ?init = []"
      "gl_iSessionMax ?init = ?n" "gl_iTempSessionMax ?init = iSessionMax * 2 - ?n" "gl_iSessionCount ?init = 0" "gl_iTempSessionCount ?init = 0"
      "gl_DelayBuf ?init = replicate SB_INPUT_BUFFER 0" "gl_sent ?init = []"
    by (simp_all add: sloop_new_def sloop.extend_def GateServerLoop.fields_def)
  let ?k = "unat (iSessionMax * 2)"
  obtain pl fin where fin: "fin = ?init\<lparr>sl_arraySession := [0..<?k], sl_SessionPool := pl,
      sl_Session := (\<lambda>p. if p < ?k then s\<lparr>se_iSessionId := mk_id 0 (of_nat p) iServerId\<rparr> else s)\<rparr>"
      "SessionServerLoop_Init iServerId ?init = Some (0, fin)" "table_ok iServerId fin" "pool_ok fin" "ob_out pl = []"
    using SessionServerLoop_Init_ok [OF f(1,2), of iServerId] unfolding f(3,5) Let_def by blast
  have g: "gl_iServerId fin = iServerId" "sl_mSessionMap fin = Map.empty" "sl_iSessionMax fin = iSessionMax * 2"
      "sl_iShutdownStatus fin = NOT_SHUTDOWN" "sl_arraySession fin = [0..<?k]" "ses_out fin = {}" "gl_mSessionMapByName fin = Map.empty"
      "gl_SessionFinalizingQueue fin = []" "gl_iSessionMax fin = ?n" "gl_iTempSessionMax fin = iSessionMax * 2 - ?n" "gl_iSessionCount fin = 0"
      "gl_iTempSessionCount fin = 0" "gl_DelayBuf fin = replicate SB_INPUT_BUFFER 0" "gl_sent fin = []" "\<And>p. gs_free (sl_Session fin p)"
    using f fin(5) s(2) unfolding fin(1) by (simp_all add: gs_free_def machine_ok_def)
  have t: "temps fin = {}" "named fin = {}" using g(6) by (simp_all add: temps_def named_def)
  have "gate_inv fin" unfolding gate_inv_def gate_counts_def gate_names_def gate_queue_def gate_sessions_def t g
    using fin(3,4) g(15) gate_sizes [OF assms] by simp
  moreover have "GateServerLoop_Init ?init = Some (0, fin)" unfolding GateServerLoop_Init_def f(4) by (rule fin(2))
  ultimately show ?thesis using new g by blast
qed

section \<open>Runs\<close>

text \<open>The states of a run.  A round of the loop is taken with at most one session to finalize: with more, \<open>_Loop\<close> clears the
  last one again and again.\<close>

datatype gate_event = GE_Cmd gate_command | GE_Round u32

definition gate_step :: "nat \<Rightarrow> genv \<Rightarrow> ((u32 \<rightharpoonup> ptr) \<Rightarrow> ptr list) \<Rightarrow> gate_event \<Rightarrow> GateServerLoop \<Rightarrow> GateServerLoop option" where
  "gate_step fuel E order e l = (case e of GE_Cmd c \<Rightarrow> Gate_OnCommand fuel E order c l | GE_Round now \<Rightarrow> Gate_EndRound E now l)"

definition gate_event_ok :: "GateServerLoop \<Rightarrow> gate_event \<Rightarrow> bool" where
  "gate_event_ok l e = (case e of GE_Cmd c \<Rightarrow> gate_cmd_ok l c | GE_Round now \<Rightarrow> length (gl_SessionFinalizingQueue l) \<le> 1)"

inductive gate_reach :: "genv \<Rightarrow> ((u32 \<rightharpoonup> ptr) \<Rightarrow> ptr list) \<Rightarrow> GateServerLoop \<Rightarrow> bool" for E order where
  start: "GateServerLoop_new v m = Some l0 \<Longrightarrow> unat m \<le> 32767 \<Longrightarrow> GateServerLoop_Init l0 = Some (r, l) \<Longrightarrow> gate_reach E order l"
| step: "gate_reach E order l \<Longrightarrow> gate_event_ok l e \<Longrightarrow> gate_step fuel E order e l = Some l' \<Longrightarrow> gate_reach E order l'"
| data: "gate_reach E order l \<Longrightarrow> Gate_OnCommand fuel E order (GC_SESSION (SC_ONDATA c data)) l = Some l' \<Longrightarrow> gate_reach E order l'"

lemma gate_step_ok:
  assumes "gate_inv l" "gate_event_ok l e" "order Map.empty = []"
  shows "wp (gate_step fuel E order e l) gate_inv"
proof (cases e)
  case (GE_Cmd c)
  then show ?thesis using Gate_OnCommand_ok [of l c order fuel E] assms by (simp add: gate_step_def gate_event_ok_def)
next
  case (GE_Round now)
  then show ?thesis using Gate_EndRound_ok [OF assms(1)] assms(2) by (simp add: gate_step_def gate_event_ok_def)
qed

lemma gate_reach_inv: "gate_reach E order l \<Longrightarrow> order Map.empty = [] \<Longrightarrow> gate_inv l"
proof (induction rule: gate_reach.induct)
  case (start v m l0 r l)
  then show ?case using gate_starts [of m v] by auto
next
  case (step l e fuel l')
  then show ?case using gate_step_ok [of l e order fuel E] by (simp add: wp_def)
next
  case (data l fuel c data l')
  then show ?case using Gate_OnData_ok [of l fuel E c data] by (auto simp: Gate_OnCommand_def lp_def split: if_splits)
qed

end
