(* ===== verification/GateProps.thy ===== *)
theory GateProps
  imports GateReach Runs
begin

text \<open>
  The properties of the gate server: its registries agree in every state of a run, what becomes of a packet of a client and of the
  connection of a client that logs in, which passwords are accepted, and what the shutdown does.
\<close>

section \<open>A run\<close>

text \<open>A server for 5 sessions: account \<open>a\<close> is announced, a client connects on connection 5.\<close>

definition gate_demo_env :: genv where
  "gate_demo_env = \<lparr>sv_keyLen = 20, sv_decrypt = Some, sv_des_check = (\<lambda>_. True), sv_des_key = (\<lambda>_. replicate 8 0), sv_des_encrypt = (\<lambda>_ b. b),
     sv_pop = (\<lambda>_. True), sv_recv = (\<lambda>t d. if t = 1 then Some (RegionChatReq d) else Some AvatarListReq), sv_wide = (\<lambda>s. Some (map ucast s)),
     sv_net = (\<lambda>_. 0), sv_connectionTimeout = 60, sv_loginTimeout = 60, gv_peer = (\<lambda>i. Suc (unat i))\<rparr>"

lemma gate_demo_env_simps [simp]: "sv_net gate_demo_env n = 0" "sv_wide gate_demo_env s = Some (map ucast s)"
    "sv_recv gate_demo_env t d = (if t = 1 then Some (RegionChatReq d) else Some AvatarListReq)"
  by (simp_all add: gate_demo_env_def)

lemma gate_demo_runs:
  "\<exists>l p q. gate_reach gate_demo_env (\<lambda>_. []) l \<and> p \<in> temps l \<and> q \<in> named l \<and> gs_strAccountName (sl_Session l q) = [97] \<and>
     gl_mSessionMapByName l [97] = Some q \<and> ses_state q l = SESSION_STATE_GATEALLOCACK \<and> ses_state p l = SESSION_STATE_ONCONNECTION \<and>
     se_pConnection (sl_Session l p) = 5 \<and> \<not> gs_bFinalizing (sl_Session l p) \<and> gl_SessionFinalizingQueue l = [] \<and> sl_iShutdownStatus l = NOT_SHUTDOWN"
proof -
  obtain l0 l1 where s: "GateServerLoop_new 3 5 = Some l0" "GateServerLoop_Init l0 = Some (0, l1)" "gate_inv l1" "ses_out l1 = {}"
      "sl_iShutdownStatus l1 = NOT_SHUTDOWN" "gl_SessionFinalizingQueue l1 = []" "gl_iSessionMax l1 = 6" "gl_iTempSessionMax l1 = 4"
      "gl_mSessionMapByName l1 = Map.empty"
    using gate_starts [of 5 3] by auto
  have 1: "gate_reach gate_demo_env (\<lambda>_. []) l1" by (rule gate_reach.start [OF s(1) _ s(2)]) simp
  have z: "gl_iSessionCount l1 = 0" "gl_iTempSessionCount l1 = 0"
    using s(3,4) by (simp_all add: gate_inv_def gate_counts_def temps_def named_def unat_eq_0)
  obtain q t l2 where 2: "Gate_OnCommandGateAllocReq gate_demo_env 1 [97] l1 = Some l2" "gate_inv l2" "ses_out l2 = {q}"
      "sl_Session l2 = (sl_Session l1)(q := t)" "sess_state t = SESSION_STATE_GATEALLOCACK" "gs_strAccountName t = [97]" "\<not> gs_bTempSession t"
      "\<not> gs_bFinalizing t" "gl_mSessionMapByName l2 = [[97] \<mapsto> q]" "gl_SessionFinalizingQueue l2 = []" "sl_iShutdownStatus l2 = NOT_SHUTDOWN"
      "gl_iTempSessionCount l2 = 0" "gl_iTempSessionMax l2 = 4"
    using AllocReq_result [OF s(3), of "[97]" gate_demo_env 1] s z by auto
  have r2: "gate_reach gate_demo_env (\<lambda>_. []) l2"
    by (rule gate_reach.step [OF 1, of "GE_Cmd (GC_GATEALLOCREQ 1 [97])" 0]) (use 2(1) s(5) in \<open>simp_all add: gate_event_ok_def gate_step_def Gate_OnCommand_def\<close>)
  obtain p u l3 where 3: "Gate_OnCommandOnConnect gate_demo_env 5 l2 = Some l3" "taken p u l2 l3" "sess_state u = SESSION_STATE_ONCONNECTION"
      "se_pConnection u = 5" "gs_bTempSession u" "gl_mSessionMapByName l3 = gl_mSessionMapByName l2"
    using Connect_result [OF 2(2), of 5 gate_demo_env] 2(12,13) by auto
  have "gate_reach gate_demo_env (\<lambda>_. []) l3"
    by (rule gate_reach.step [OF r2, of "GE_Cmd (GC_SESSION (SC_ONCONNECT 5))" 0]) (use 3(1) 2(11) in \<open>simp_all add: gate_event_ok_def gate_step_def Gate_OnCommand_def\<close>)
  then show ?thesis using 2 3
    by (intro exI [of _ l3] exI [of _ p] exI [of _ q]) (auto simp: taken_def temps_def named_def ses_state_def GetCurrState_def)
qed

section \<open>The registries\<close>





section \<open>The shutdown\<close>

text \<open>The alarms do nothing once the shutdown has started.\<close>

lemma alarms_after_shutdown: "sl_iShutdownStatus l \<noteq> NOT_SHUTDOWN \<Longrightarrow> gate_run_alarms E ns l = Some l"
  by (induction ns) (simp_all add: Gate_CheckSessionState_def Gate_ReportState_def)

text \<open>C19: The shutdown command disconnects no client and tells the master server nothing, whatever sessions there are; after the next
  round of the loop the server reports itself ready for the shutdown, with the clients still connected.\<close>

theorem gate_shutdown_disconnects_nobody:
  assumes "gate_reach E order l" "order Map.empty = []" "length (gl_SessionFinalizingQueue l) \<le> 1"
  shows "\<exists>l1 l2. Gate_OnCommand fuel E order (GC_SESSION SC_SHUTDOWN) l = Some l1 \<and> Gate_EndRound E now l1 = Some l2 \<and>
     SL_IsReadyForShutdown l2 \<and> sl_calls l2 = sl_calls l \<and> gl_sent l2 = gl_sent l \<and>
     (\<forall>p. \<not> gs_bFinalizing (sl_Session l p) \<longrightarrow> sl_Session l2 p = sl_Session l p)"
proof -
  have I: "gate_inv l" by (rule gate_reach_inv [OF assms(1,2)])
  let ?l1 = "l\<lparr>sl_iShutdownStatus := START_SHUTDOWN\<rparr>"
  let ?a = "?l1\<lparr>gl_Alarm := Alarm_Tick (sl_dwCurrTime l) (gl_Alarm l)\<rparr>"
  have "wp (GateServerLoop_Loop ?a) (\<lambda>l'. sl_calls l' = sl_calls l \<and> gl_sent l' = gl_sent l \<and>
      (\<forall>p. p \<notin> set (gl_SessionFinalizingQueue l) \<longrightarrow> sl_Session l' p = sl_Session l p) \<and> sl_iShutdownStatus l' = READY_FOR_SHUTDOWN)"
    by (rule wp_mono [OF GateLoop_ok]) (use I assms(3) in simp_all)
  then obtain l2 where "GateServerLoop_Loop ?a = Some l2" "sl_calls l2 = sl_calls l" "gl_sent l2 = gl_sent l" "sl_iShutdownStatus l2 = READY_FOR_SHUTDOWN"
      "\<forall>p. p \<notin> set (gl_SessionFinalizingQueue l) \<longrightarrow> sl_Session l2 p = sl_Session l p"
    by (auto simp: wp_def)
  moreover have "p \<notin> set (gl_SessionFinalizingQueue l)" if "\<not> gs_bFinalizing (sl_Session l p)" for p
    using that I by (simp add: gate_inv_def gate_queue_def)
  ultimately show ?thesis using Gate_Shutdown_eq [of l order E] I assms(2)
    by (intro exI [of _ ?l1] exI [of _ "l2\<lparr>sl_dwCurrTime := now\<rparr>"])
      (simp add: Gate_OnCommand_def Gate_EndRound_def alarms_after_shutdown SL_IsReadyForShutdown_def)
qed

theorem gate_shutdown_disconnects_nobody_witness:
  "\<exists>l p l1 l2. se_pConnection (sl_Session l p) = 5 \<and> p \<in> temps l \<and>
     Gate_OnCommand 0 gate_demo_env (\<lambda>_. []) (GC_SESSION SC_SHUTDOWN) l = Some l1 \<and> Gate_EndRound gate_demo_env 1 l1 = Some l2 \<and>
     SL_IsReadyForShutdown l2 \<and> se_pConnection (sl_Session l2 p) = 5"
proof -
  obtain l p where l: "gate_reach gate_demo_env (\<lambda>_. []) l" "p \<in> temps l" "se_pConnection (sl_Session l p) = 5" "gl_SessionFinalizingQueue l = []"
      "\<not> gs_bFinalizing (sl_Session l p)"
    using gate_demo_runs by blast
  obtain l1 l2 where "Gate_OnCommand 0 gate_demo_env (\<lambda>_. []) (GC_SESSION SC_SHUTDOWN) l = Some l1" "Gate_EndRound gate_demo_env 1 l1 = Some l2"
      "SL_IsReadyForShutdown l2" "sl_Session l2 p = sl_Session l p"
    using gate_shutdown_disconnects_nobody [OF l(1) refl, of 0 1] l(4,5) by auto
  with l show ?thesis by (intro exI [of _ l] exI [of _ p] exI [of _ l1] exI [of _ l2]) simp
qed

section \<open>Logging in\<close>

lemma strtok_first:
  assumes "acc \<noteq> []" "set acc \<inter> {0, 59} = {}"
  shows "strtok_s (acc @ 59 # xs) 0 = Some (Some acc, Suc (length acc), acc @ 0 # xs)"
proof -
  have a: "takeWhile (\<lambda>c. c = 59) (acc @ 59 # xs) = []" using assms by (cases acc) auto
  have b: "takeWhile (\<lambda>c. c \<noteq> 59 \<and> c \<noteq> 0) (acc @ 59 # xs) = acc" using assms(2) by (simp add: takeWhile_append disjoint_iff)
  show ?thesis using assms(1) by (simp add: strtok_s_def a b Let_def list_update_append)
qed

lemma strtok_second:
  assumes "pw \<noteq> []" "set pw \<inter> {0, 59} = {}"
  shows "strtok_s (acc @ 0 # pw @ 0 # xs) (Suc (length acc)) = Some (Some pw, Suc (length acc + length pw), acc @ 0 # pw @ 0 # xs)"
proof -
  have d: "drop (Suc (length acc)) (acc @ 0 # pw @ 0 # xs) = pw @ 0 # xs" by simp
  have a: "takeWhile (\<lambda>c. c = 59) (pw @ 0 # xs) = []" using assms by (cases pw) auto
  have b: "takeWhile (\<lambda>c. c \<noteq> 59 \<and> c \<noteq> 0) (pw @ 0 # xs) = pw" using assms(2) by (simp add: takeWhile_append disjoint_iff)
  have n: "(acc @ 0 # pw @ 0 # xs) ! Suc (length acc + length pw) = 0" by (simp add: nth_append)
  show ?thesis using assms(1) unfolding strtok_s_def d a Let_def by (simp add: b n)
qed

text \<open>C20: A token \<open>account;password\<close> of a session that is not being finalized, with an account of 1 to 96 bytes that converts to a name that is
  not empty, is accepted with every password of 1 to 32 bytes without a semicolon: the account name is taken over in lower case, and the password is
  compared with nothing.  (An empty or longer password is rejected.)\<close>

theorem gate_accepts_any_password:
  assumes "\<not> gs_bFinalizing (sl_Session l p)" "se_TokenPacket (sl_Session l p) = hdr @ acc @ [59] @ pw @ [0] @ rest" "length hdr = 10"
    and "acc \<noteq> []" "set acc \<inter> {0, 59} = {}" "length acc \<le> GATE_ACCOUNTNAME_MAX * 3"
    and "pw \<noteq> []" "set pw \<inter> {0, 59} = {}" "length pw \<le> GATE_PASSWORD_MAX"
    and "Char2WChar (sv_wide E) acc (GATE_ACCOUNTNAME_MAX + 1) = Some w" "w \<noteq> []"
  shows "\<exists>l'. GateSession_CheckLoginToken E p l = Some (0, l') \<and> gs_strAccountName (sl_Session l' p) = LowerCase w"
  using assms strtok_first [OF assms(4,5), of "pw @ 0 # rest"] strtok_second [OF assms(7,8), of acc rest]
  by (simp add: GateSession_CheckLoginToken_def put_token_def strcpy_s_def Let_def ses_upd_def)

theorem gate_accepts_any_password_witness:
  "\<exists>l p l'. p \<in> temps l \<and> GateSession_CheckLoginToken gate_demo_env p l = Some (0, l') \<and> gs_strAccountName (sl_Session l' p) = [97]"
proof -
  obtain l p where l: "p \<in> temps l" "\<not> gs_bFinalizing (sl_Session l p)" using gate_demo_runs by blast
  let ?l = "ses_upd p (\<lambda>s. s\<lparr>se_TokenPacket := replicate 10 0 @ [65] @ [59] @ [120] @ [0] @ []\<rparr>) l"
  have w: "Char2WChar (sv_wide gate_demo_env) [65] (GATE_ACCOUNTNAME_MAX + 1) = Some [65]" by (simp add: Char2WChar_def)
  have "\<exists>l'. GateSession_CheckLoginToken gate_demo_env p ?l = Some (0, l') \<and> gs_strAccountName (sl_Session l' p) = LowerCase [65]"
    by (rule gate_accepts_any_password [OF _ _ _ _ _ _ _ _ _ w, where hdr = "replicate 10 0" and pw = "[120]" and rest = "[]"])
      (use l(2) in \<open>simp_all add: ses_upd_def\<close>)
  moreover have "p \<in> temps ?l" using l(1) by (simp add: temps_def ses_upd_def)
  ultimately show ?thesis by (auto simp: LowerCase_def)
qed

section \<open>The hand-over of a connection\<close>

lemma gtr_loggedin:
  "gtr SESSION_STATE_LOGGEDIN SESSION_EVENT_DISCONNECT = None" "gtr SESSION_STATE_LOGGEDIN SESSION_EVENT_ONDISCONNECT = None"
  "gtr SESSION_STATE_GATELOGINREQ SESSION_EVENT_DISCONNECT = Some SESSION_STATE_DISCONNECT"
  by code_simp+

lemma ses_state_simps [simp]:
  "ses_state p (l\<lparr>sl_client := f\<rparr>) = ses_state p l" "ses_state p (l\<lparr>gl_sent := m\<rparr>) = ses_state p l" "ses_state p (net_do c l) = ses_state p l"
  by (simp_all add: ses_state_def net_do_def)

lemma sent_swap: "ses_upd q f (l\<lparr>gl_sent := m\<rparr>) = (ses_upd q f l)\<lparr>gl_sent := m\<rparr>" for l :: GateServerLoop
  by (cases l) (simp add: ses_upd_def)

lemma ses_upd_twice: "ses_upd q f (ses_upd q g l) = ses_upd q (\<lambda>x. f (g x)) l"
  by (simp add: ses_upd_def)

text \<open>What \<open>OnSessionTransfered\<close> does when the message to the master server is sent, and when it is not.\<close>

lemma OnSessionTransfered_eq:
  fixes E :: genv
  assumes m: "machine_ok gtr (sl_Session l q)" and s: "sess_state (sl_Session l q) = SESSION_STATE_GATEALLOCACK"
  defines "r \<equiv> sv_net E (length (gl_sent l))"
  shows "GateSession_OnSessionTransfered E q l = Some (ses_upd q (\<lambda>x. x\<lparr>se_StateMachine := (se_StateMachine x)\<lparr>sm_iCurrState :=
      if r = 0 then SESSION_STATE_GATELOGINREQ else SESSION_STATE_LOGGEDIN\<rparr>\<rparr>)
      (l\<lparr>gl_sent := gl_sent l @ [(GMsg_OnGateLoginReq (se_iSessionId (sl_Session l q)) (gs_strAccountName (sl_Session l q)), r)]\<rparr>))"
proof -
  let ?l = "ses_upd q (\<lambda>x. x\<lparr>se_StateMachine := (se_StateMachine x)\<lparr>sm_iCurrState := SESSION_STATE_LOGGEDIN\<rparr>\<rparr>) l"
  define l1 where "l1 = ?l\<lparr>gl_sent := gl_sent l @ [(GMsg_OnGateLoginReq (se_iSessionId (sl_Session l q)) (gs_strAccountName (sl_Session l q)), r)]\<rparr>"
  have 1: "ses_fsm q SESSION_EVENT_TRANSFERED True l = Some (SESSION_STATE_LOGGEDIN, ?l)" using m s by (simp add: ses_fsm_eq [of gtr] event_ok_def gtr_facts)
  have m1: "machine_ok gtr (sl_Session l1 q)" using m by (simp add: l1_def ses_upd_def machine_ok_def fsm_inv_def fsm_fun_def)
  have send: "send_peer E (GMsg_OnGateLoginReq (se_iSessionId (sl_Session ?l q)) (gs_strAccountName (sl_Session ?l q))) ?l = (r, l1)"
    by (simp add: send_peer_def ses_upd_def r_def l1_def Let_def)
  have 2: "ses_fsm q SESSION_EVENT_GATELOGINREQ True l1 = Some (SESSION_STATE_GATELOGINREQ,
      ses_upd q (\<lambda>x. x\<lparr>se_StateMachine := (se_StateMachine x)\<lparr>sm_iCurrState := SESSION_STATE_GATELOGINREQ\<rparr>\<rparr>) l1)"
    unfolding ses_fsm_eq [OF m1, of SESSION_EVENT_GATELOGINREQ, unfolded event_ok_def, simplified] by (simp add: l1_def ses_upd_def gtr_facts)
  have 3: "ses_fsm q SESSION_EVENT_DISCONNECT True l1 = Some (- 1, l1)"
    unfolding ses_fsm_eq [OF m1, of SESSION_EVENT_DISCONNECT, unfolded event_ok_def, simplified] by (simp add: l1_def ses_upd_def gtr_loggedin)
  show ?thesis
    unfolding GateSession_OnSessionTransfered_def 1 Option.bind.bind_lunit prod.case send GateSession_Disconnect_def 3 Let_def
    by (simp add: 2) (simp add: l1_def sent_swap ses_upd_twice)
qed

text \<open>C10: When a client has been checked (its temporary session is in the state \<open>ONCONNECTION\<close> and not finalized) and its account has an
  announced session (in the state \<open>GATEALLOCACK\<close>), this session takes over the connection, the login request is sent to the master server,
  and the temporary session is finalized.  When the message cannot be sent, the session of the account is left in the state \<open>LOGGEDIN\<close>, in which its
  handlers \<open>OnDisconnect\<close> and \<open>Disconnect\<close> do nothing (a release request of the master server still posts a disconnect).\<close>

theorem gate_transfer:
  fixes E :: genv
  assumes I: "gate_inv l" and p: "p \<in> temps l" "ses_state p l = SESSION_STATE_ONCONNECTION" "\<not> gs_bFinalizing (sl_Session l p)"
    and q: "gl_mSessionMapByName l (gs_strAccountName (sl_Session l p)) = Some q" "ses_state q l = SESSION_STATE_GATEALLOCACK"
  defines "c \<equiv> se_pConnection (sl_Session l p)" and "r \<equiv> sv_net E (length (gl_sent l))"
  shows "\<exists>l'. GateSession_LoggedInNtf E p l = Some (0, l') \<and> sl_client l' c = Some q \<and> se_pConnection (sl_Session l' q) = c \<and>
    ses_state q l' = (if r = 0 then SESSION_STATE_GATELOGINREQ else SESSION_STATE_LOGGEDIN) \<and> ses_state p l' = SESSION_STATE_TRANSFERED \<and>
    gs_bFinalizing (sl_Session l' p) \<and> gl_SessionFinalizingQueue l' = gl_SessionFinalizingQueue l @ [p] \<and>
    gl_sent l' = gl_sent l @ [(GMsg_OnGateLoginReq (se_iSessionId (sl_Session l q)) (gs_strAccountName (sl_Session l q)), r)] \<and>
    (r \<noteq> 0 \<longrightarrow> GateSession_OnDisconnect E q l' = Some l' \<and> GateSession_Disconnect E q l' = Some l')"
proof -
  have po: "p \<in> ses_out l" "gs_bTempSession (sl_Session l p)" using p(1) by (simp_all add: temps_def)
  have qo: "q \<in> ses_out l" "\<not> gs_bTempSession (sl_Session l q)" "gs_strAccountName (sl_Session l q) = gs_strAccountName (sl_Session l p)"
    using I q(1) by (simp_all add: gate_inv_def gate_names_def named_def)
  then have pq: "p \<noteq> q" using po by auto
  have ok: "gs_ok (sl_Session l p)" "gs_ok (sl_Session l q)" using G_ok [OF G_refl [OF I]] po qo by blast+
  then have m: "machine_ok gtr (sl_Session l p)" "machine_ok gtr (sl_Session l q)" by (simp_all add: gs_ok_def)
  have st: "sess_state (sl_Session l p) = SESSION_STATE_ONCONNECTION" "sess_state (sl_Session l q) = SESSION_STATE_GATEALLOCACK"
    using p(2) q(2) by (simp_all add: ses_state_def GetCurrState_def)
  have c: "c \<noteq> NULL" using G_connection [OF G_refl [OF I] po(1)] st(1) by (simp add: conn_states_def c_def)
  let ?clone = "\<lambda>s :: GateSession. s\<lparr>se_dwConnectionTime := se_dwConnectionTime (sl_Session l p), se_dwLoggedInTime := se_dwLoggedInTime (sl_Session l p),
    se_pConnection := c, gs_strAccountName := gs_strAccountName (sl_Session l p)\<rparr>"
  define l1 where "l1 = (ses_upd q ?clone l)\<lparr>sl_client := (sl_client l)(c \<mapsto> q)\<rparr>"
  have clone: "GateSession_Clone q p l = Some l1"
    using po qo c by (simp add: GateSession_Clone_def Let_def l1_def c_def) (simp add: ses_upd_def)
  have l1: "machine_ok gtr (sl_Session l1 q)" "sess_state (sl_Session l1 q) = SESSION_STATE_GATEALLOCACK" "sl_Session l1 p = sl_Session l p" "gl_sent l1 = gl_sent l"
    using m(2) st(2) pq by (simp_all add: l1_def ses_upd_def machine_ok_def)
  let ?msg = "(GMsg_OnGateLoginReq (se_iSessionId (sl_Session l q)) (gs_strAccountName (sl_Session l q)), r)"
  let ?s = "if r = 0 then SESSION_STATE_GATELOGINREQ else SESSION_STATE_LOGGEDIN"
  define l2 where "l2 = ses_upd q (\<lambda>x. x\<lparr>se_StateMachine := (se_StateMachine x)\<lparr>sm_iCurrState := ?s\<rparr>\<rparr>) (l1\<lparr>gl_sent := gl_sent l @ [?msg]\<rparr>)"
  have transfered: "GateSession_OnSessionTransfered E q l1 = Some l2"
    unfolding OnSessionTransfered_eq [OF l1(1,2)] l2_def r_def by (simp add: l1_def ses_upd_def qo(3))
  have get: "SL_GetSession (se_iSessionId (sl_Session l p)) l = Some (Some p)"
    using I pool_out [OF _ po(1)] by (intro GetSession_self [of "gl_iServerId l"]) (simp_all add: gate_inv_def)
  have transfer: "Gate_TransferSession E (se_iSessionId (sl_Session l p)) (gs_strAccountName (sl_Session l p)) l = Some (0, l2)"
    using q clone transfered get by (simp add: Gate_TransferSession_def)
  have l2: "sl_Session l2 p = sl_Session l p" using pq l1(3) by (simp add: l2_def ses_upd_def)
  let ?l3 = "ses_upd p (\<lambda>x. x\<lparr>se_StateMachine := (se_StateMachine x)\<lparr>sm_iCurrState := SESSION_STATE_TRANSFERED\<rparr>\<rparr>) l2"
  have f1: "ses_fsm p SESSION_EVENT_LOGGEDIN False l = Some (SESSION_STATE_TRANSFERED, l)" using m(1) st(1) by (simp add: ses_fsm_eq [of gtr] event_ok_def gtr_facts)
  have f2: "ses_fsm p SESSION_EVENT_LOGGEDIN True l2 = Some (SESSION_STATE_TRANSFERED, ?l3)" using m(1) st(1) l2 by (simp add: ses_fsm_eq [of gtr] event_ok_def gtr_facts)
  define l' where "l' = ses_upd p (\<lambda>s. s\<lparr>gs_bFinalizing := True\<rparr>) (?l3\<lparr>gl_SessionFinalizingQueue := gl_SessionFinalizingQueue ?l3 @ [p]\<rparr>)"
  have close: "Gate_CloseSession E False p ?l3 = Some l'"
    using p(3) l2 by (simp add: Gate_CloseSession_def Let_def l'_def ses_upd_def ses_state_def GetCurrState_def)
  have e: "GateSession_LoggedInNtf E p l = Some (0, l')"
    unfolding GateSession_LoggedInNtf_def using p(3) by (simp add: f1 transfer f2 close)
  have G: "gate_keeps l l'" using Gate_LoggedInNtf_ok [OF G_refl [OF I] po, of E] e by (simp add: wp_def)
  have q': "sl_Session l' q = (?clone (sl_Session l q))\<lparr>se_StateMachine := (se_StateMachine (sl_Session l q))\<lparr>sm_iCurrState := ?s\<rparr>\<rparr>"
    using pq by (simp add: l'_def l2_def l1_def ses_upd_def)
  have "GateSession_OnDisconnect E q l' = Some l' \<and> GateSession_Disconnect E q l' = Some l'" if "r \<noteq> 0"
  proof -
    have "machine_ok gtr (sl_Session l' q)" using G_ok [OF G qo(1)] by (simp add: gs_ok_def)
    then have "ses_fsm q SESSION_EVENT_ONDISCONNECT True l' = Some (- 1, l')" "ses_fsm q SESSION_EVENT_DISCONNECT True l' = Some (- 1, l')"
      using that q' by (simp_all add: ses_fsm_eq [of gtr] event_ok_def gtr_loggedin)
    then show ?thesis by (simp add: GateSession_OnDisconnect_def GateSession_Disconnect_def)
  qed
  then show ?thesis using e q' pq by (intro exI [of _ l']) (simp add: l'_def l2_def l1_def ses_upd_def ses_state_def GetCurrState_def)
qed

theorem gate_transfer_witness:
  "\<exists>l p q l'. p \<in> temps l \<and> GateSession_LoggedInNtf gate_demo_env p l = Some (0, l') \<and> sl_client l' 5 = Some q \<and> ses_state q l' = SESSION_STATE_GATELOGINREQ"
proof -
  obtain l p q where l: "gate_reach gate_demo_env (\<lambda>_. []) l" "p \<in> temps l" "ses_state p l = SESSION_STATE_ONCONNECTION" "\<not> gs_bFinalizing (sl_Session l p)"
      "gl_mSessionMapByName l [97] = Some q" "ses_state q l = SESSION_STATE_GATEALLOCACK" "se_pConnection (sl_Session l p) = 5" "q \<in> named l"
    using gate_demo_runs by blast
  have I: "gate_inv l" by (rule gate_reach_inv [OF l(1) refl])
  let ?l = "ses_upd p (\<lambda>s. s\<lparr>gs_strAccountName := [97]\<rparr>) l"
  have pq: "p \<noteq> q" using l(2,8) by (auto simp: temps_def named_def)
  have "gate_keeps l ?l" using l(2) by (intro G_plain [OF G_refl [OF I]]) (simp_all add: temps_def)
  then have I': "gate_inv ?l" by (rule G_inv)
  have p: "p \<in> temps ?l" "ses_state p ?l = SESSION_STATE_ONCONNECTION" "\<not> gs_bFinalizing (sl_Session ?l p)" "se_pConnection (sl_Session ?l p) = 5"
      "gl_mSessionMapByName ?l (gs_strAccountName (sl_Session ?l p)) = Some q" "ses_state q ?l = SESSION_STATE_GATEALLOCACK"
    using l pq by (simp_all add: ses_upd_def temps_def ses_state_def)
  obtain l' where "GateSession_LoggedInNtf gate_demo_env p ?l = Some (0, l')" "sl_client l' 5 = Some q" "ses_state q l' = SESSION_STATE_GATELOGINREQ"
    using gate_transfer [OF I' p(1-3) p(5,6), of gate_demo_env] p(4) by auto
  with p(1) show ?thesis by blast
qed

section \<open>Packets of clients\<close>

text \<open>Where a packet goes: to the master server, or to the region server of the session.\<close>

definition packet_target :: "client_packet \<Rightarrow> GateSession \<Rightarrow> ptr option" where
  "packet_target pk s = (case pk of ClientTimeReq t \<Rightarrow> Some (gs_pRegionServer s) | RegionChatReq m \<Rightarrow> Some (gs_pRegionServer s) | _ \<Rightarrow> None)"

text \<open>C13: A packet of a client that is logged in is forwarded as it came, under the id of the session, to the server it is meant for; when the
  message cannot be sent the client is disconnected.  A packet for a region server dereferences NULL when the session has not been bound to one.\<close>

theorem gate_packet_forward:
  fixes E :: genv
  assumes I: "gate_inv l" and p: "p \<in> ses_out l" "ses_state p l = SESSION_STATE_GATELOGINREQ" "\<not> gs_bFinalizing (sl_Session l p)"
    and d: "length data = unat iLen" "length data \<le> SB_INPUT_BUFFER" "sv_recv E iTypeId data = Some pk"
  defines "s \<equiv> sl_Session l p" and "to \<equiv> packet_target pk (sl_Session l p)" and "r \<equiv> sv_net E (length (gl_sent l))"
  shows "if to = Some NULL then GateSession_HandlePacket E iTypeId iLen data p l = None
    else \<exists>l'. GateSession_HandlePacket E iTypeId iLen data p l = Some l' \<and> gate_inv l' \<and>
      gl_sent l' = gl_sent l @ [(GMsg_PacketForward to (se_iSessionId s) iTypeId data, r)] \<and>
      (if r = 0 then sl_Session l' = sl_Session l \<and> sl_calls l' = sl_calls l
       else ses_state p l' = SESSION_STATE_DISCONNECT \<and> sl_calls l' = sl_calls l @ [AsyncDisconnect (se_pConnection s)])"
proof -
  define buf where "buf = data @ drop (length data) (gl_DelayBuf l)"
  let ?l = "l\<lparr>gl_iDelayTypeId := iTypeId, gl_iDelayLen := iLen, gl_DelayBuf := buf\<rparr>"
  have b: "length (gl_DelayBuf l) = SB_INPUT_BUFFER" using I by (simp add: gate_inv_def)
  have delay: "GateSession_DelaySendData iTypeId iLen data l = Some ?l"
    using d b by (simp add: GateSession_DelaySendData_def buf_def)
  have saved: "take (unat iLen) buf = data" using d(1) by (simp add: buf_def)
  have to: "gate_on_packet E pk p ?l = gate_forward E to p ?l"
    by (cases pk) (simp_all add: gate_on_packet_def to_def packet_target_def)
  have h: "GateSession_HandlePacket E iTypeId iLen data p l = gate_forward E to p ?l"
    by (simp add: GateSession_HandlePacket_def delay d(3) to)
  let ?l1 = "?l\<lparr>gl_sent := gl_sent l @ [(GMsg_PacketForward to (se_iSessionId s) iTypeId data, r)]\<rparr>"
  have f: "gate_forward E to p ?l = (if to = Some NULL then None else if r \<noteq> 0 then GateSession_Disconnect E p ?l1 else Some ?l1)"
    using saved by (simp add: gate_forward_def send_peer_def Let_def s_def r_def)
  have ok: "gs_ok s" using G_ok [OF G_refl [OF I] p(1)] by (simp add: s_def)
  have st: "sess_state s = SESSION_STATE_GATELOGINREQ" using p(2) by (simp add: s_def ses_state_def GetCurrState_def)
  have c: "se_pConnection s \<noteq> NULL" using ok st by (simp add: gs_ok_def conn_states_def)
  have m: "machine_ok gtr (sl_Session ?l1 p)" using ok by (simp add: gs_ok_def s_def)
  let ?l2 = "ses_upd p (\<lambda>x. x\<lparr>se_StateMachine := (se_StateMachine x)\<lparr>sm_iCurrState := SESSION_STATE_DISCONNECT\<rparr>\<rparr>) ?l1"
  have "ses_fsm p SESSION_EVENT_DISCONNECT True ?l1 = Some (SESSION_STATE_DISCONNECT, ?l2)"
    unfolding ses_fsm_eq [OF m, of SESSION_EVENT_DISCONNECT, unfolded event_ok_def, simplified] using st by (simp add: gtr_loggedin s_def)
  then have dis: "GateSession_Disconnect E p ?l1 = Some (net_do (AsyncDisconnect (se_pConnection s)) ?l2)"
    using p(3) c by (simp add: GateSession_Disconnect_def SBSession_Disconnect_def ses_upd_def s_def)
  have inv: "gate_inv l'" if "GateSession_HandlePacket E iTypeId iLen data p l = Some l'" for l'
    using Gate_HandlePacket_ok [OF G_refl [OF I] p(1), of E iTypeId iLen data] that by (auto simp: lp_def dest: G_inv)
  show ?thesis using inv unfolding h f dis by (auto simp: net_do_def ses_upd_def ses_state_def GetCurrState_def)
qed

theorem gate_packet_forward_witness:
  "\<exists>l p l'. p \<in> ses_out l \<and> gs_pRegionServer (sl_Session l p) = NULL \<and> GateSession_HandlePacket gate_demo_env 1 2 [104, 105] p l = None \<and>
     GateSession_HandlePacket gate_demo_env 2 0 [] p l = Some l' \<and> last (gl_sent l') = (GMsg_PacketForward None (se_iSessionId (sl_Session l p)) 2 [], 0)"
proof -
  obtain l q where l: "gate_reach gate_demo_env (\<lambda>_. []) l" "q \<in> named l" "ses_state q l = SESSION_STATE_GATEALLOCACK" "gl_SessionFinalizingQueue l = []"
    using gate_demo_runs by blast
  have I: "gate_inv l" by (rule gate_reach_inv [OF l(1) refl])
  have q: "q \<in> ses_out l" "\<not> gs_bTempSession (sl_Session l q)" using l(2) by (simp_all add: named_def)
  have nf: "\<not> gs_bFinalizing (sl_Session l q)" using I l(4) q(1) by (auto simp: gate_inv_def gate_queue_def)
  let ?f = "\<lambda>s :: GateSession. s\<lparr>se_StateMachine := (se_StateMachine s)\<lparr>sm_iCurrState := SESSION_STATE_GATELOGINREQ\<rparr>, se_pConnection := 5, gs_pRegionServer := NULL\<rparr>"
  have "gs_ok (?f (sl_Session l q))"
    using G_ok [OF G_refl [OF I] q(1)] q(2) by (simp add: gs_ok_def machine_ok_def fsm_inv_def fsm_fun_def named_states_def)
  then have "gate_keeps l (ses_upd q ?f l)" by (intro G_ses_upd [OF G_refl [OF I] q(1) refl]) simp_all
  then have I': "gate_inv (ses_upd q ?f l)" by (rule G_inv)
  have p: "q \<in> ses_out (ses_upd q ?f l)" "ses_state q (ses_upd q ?f l) = SESSION_STATE_GATELOGINREQ" "\<not> gs_bFinalizing (sl_Session (ses_upd q ?f l) q)"
      "gs_pRegionServer (sl_Session (ses_upd q ?f l) q) = NULL"
    using q nf by (simp_all add: ses_upd_def ses_state_def GetCurrState_def)
  have 1: "GateSession_HandlePacket gate_demo_env 1 2 [104, 105] q (ses_upd q ?f l) = None"
    using gate_packet_forward [OF I' p(1-3), of "[104, 105]" 2 gate_demo_env 1 "RegionChatReq [104, 105]"] p(4) by (simp add: packet_target_def)
  obtain l' where "GateSession_HandlePacket gate_demo_env 2 0 [] q (ses_upd q ?f l) = Some l'"
      "gl_sent l' = gl_sent (ses_upd q ?f l) @ [(GMsg_PacketForward None (se_iSessionId (sl_Session (ses_upd q ?f l) q)) 2 [], 0)]"
    using gate_packet_forward [OF I' p(1-3), of "[]" 0 gate_demo_env 2 AvatarListReq] by (auto simp: packet_target_def)
  with 1 p show ?thesis by (intro exI [of _ "ses_upd q ?f l"] exI [of _ q] exI [of _ l']) simp
qed

end
