(* ===== verification/CacheDB.thy ===== *)
theory CacheDB
  imports ServerBase
begin

text \<open>
  The threads that work on the database: \<open>DBConnPool\<close> and \<open>DBConn\<close> of \<open>FTServer/Src/CacheServer\<close>.

  The main loop pushes events to the waiting list; the threads move them to the processing list, fire them and put them
  to the return list.  Events that must not overtake each other are chained behind the first one, which a map finds.
  Events are on a heap: \<open>dp_heap\<close> has no entry for an event that is freed.  Each function of the pool is one section under its lock,
  so a step of a thread is what it does in one section.  The result of \<open>FireEvent\<close> and of connecting to MySQL are arguments of the
  steps.  \<open>None\<close> is the use of an event that is freed or of a connection that is closed.
\<close>

section \<open>Data\<close>

record 'd DBEvent =
  de_iEventId :: u32
  de_bFired :: bool
  de_iSequenceId :: u64
  de_bSequence :: bool
  de_bReturnable :: bool
  de_pLastEvent :: ptr
  de_pNextEvent :: ptr
  de_data :: 'd

definition DBEvent_new :: "u32 \<Rightarrow> 'd \<Rightarrow> 'd DBEvent" where
  "DBEvent_new iEventId d = \<lparr>de_iEventId = iEventId, de_bFired = False, de_iSequenceId = 0, de_bSequence = False, de_bReturnable = False,
     de_pLastEvent = NULL, de_pNextEvent = NULL, de_data = d\<rparr>"

record 'd DBConnPool =
  dp_heap :: "ptr \<rightharpoonup> 'd DBEvent"
  dp_next :: ptr
  dp_EventWaitingList :: "ptr list"
  dp_EventProcessingList :: "ptr list"
  dp_mEventProcessingSequenceMap :: "u64 \<rightharpoonup> ptr"
  dp_EventReturnList :: "ptr list"

definition DBConnPool_new :: "'d DBConnPool" where
  "DBConnPool_new = \<lparr>dp_heap = Map.empty, dp_next = 1, dp_EventWaitingList = [], dp_EventProcessingList = [],
     dp_mEventProcessingSequenceMap = Map.empty, dp_EventReturnList = []\<rparr>"

text \<open>The handle of MySQL: NULL, connected, or created but not connected.\<close>

datatype mysql = MySQL_NULL | MySQL_Open | MySQL_Unconnected
datatype connect_result = Connect_InitFailed | Connect_Failed | Connect_SelectFailed | Connect_Ok

text \<open>Where the thread is: at the head of its loop, waiting for events, about to fire an event, about to take it out of the chain, and
  about to return it.\<close>

datatype conn_pc = AtLoop | AtWait | AtFire ptr | AtPost ptr | AtReturn ptr | AtEnd

record DBConn =
  dc_pMySQL :: mysql
  dc_bQuit :: bool
  dc_iLastEventSequenceId :: u64
  dc_pc :: conn_pc

definition DBConn_new :: DBConn where
  "DBConn_new = \<lparr>dc_pMySQL = MySQL_NULL, dc_bQuit = False, dc_iLastEventSequenceId = 0, dc_pc = AtLoop\<rparr>"

section \<open>The pool\<close>

definition ev_upd :: "ptr \<Rightarrow> ('d DBEvent \<Rightarrow> 'd DBEvent) \<Rightarrow> 'd DBConnPool \<Rightarrow> 'd DBConnPool option" where
  "ev_upd p f P = do { e \<leftarrow> dp_heap P p; Some (P\<lparr>dp_heap := (dp_heap P)(p \<mapsto> f e)\<rparr>) }"

definition AllocateEvent :: "'d DBEvent \<Rightarrow> 'd DBConnPool \<Rightarrow> ptr \<times> 'd DBConnPool" where
  "AllocateEvent e P = (dp_next P, P\<lparr>dp_heap := (dp_heap P)(dp_next P \<mapsto> e), dp_next := Suc (dp_next P)\<rparr>)"

definition FreeEvent :: "ptr \<Rightarrow> 'd DBConnPool \<Rightarrow> 'd DBConnPool option" where
  "FreeEvent p P = do { e \<leftarrow> dp_heap P p; Some (P\<lparr>dp_heap := (dp_heap P)(p := None)\<rparr>) }"

definition PushSequenceEvent :: "u64 \<Rightarrow> ptr \<Rightarrow> bool \<Rightarrow> 'd DBConnPool \<Rightarrow> (int \<times> 'd DBConnPool) option" where
  "PushSequenceEvent iSequenceId p bReturnable P = (if iSequenceId = 0 then Some (- 1, P) else do {
     P \<leftarrow> ev_upd p (\<lambda>e. e\<lparr>de_iSequenceId := iSequenceId, de_bSequence := True, de_bReturnable := bReturnable\<rparr>) P;
     Some (0, P\<lparr>dp_EventWaitingList := dp_EventWaitingList P @ [p]\<rparr>)
   })"

definition pop_list :: "ptr list \<Rightarrow> ptr \<times> ptr list" where
  "pop_list ps = (case ps of [] \<Rightarrow> (NULL, []) | p # ps \<Rightarrow> (p, ps))"

definition PopFromDBEventReturnList :: "'d DBConnPool \<Rightarrow> ptr \<times> 'd DBConnPool" where
  "PopFromDBEventReturnList P = (let (p, ps) = pop_list (dp_EventReturnList P) in (p, P\<lparr>dp_EventReturnList := ps\<rparr>))"

text \<open>The end of the chain: the loop may use a freed event, or not end.\<close>

partial_function (option) link_end :: "(ptr \<rightharpoonup> 'd DBEvent) \<Rightarrow> ptr \<Rightarrow> ptr option" where
  "link_end h p = do { e \<leftarrow> h p; if de_pNextEvent e = NULL then Some p else link_end h (de_pNextEvent e) }"

text \<open>The map is searched for the id of the event, not for that of its sequence.\<close>

definition flush_event :: "ptr \<Rightarrow> 'd DBConnPool \<Rightarrow> 'd DBConnPool option" where
  "flush_event p P = do {
     e \<leftarrow> dp_heap P p;
     if \<not> de_bSequence e then Some (P\<lparr>dp_EventProcessingList := dp_EventProcessingList P @ [p]\<rparr>)
     else case dp_mEventProcessingSequenceMap P (ucast (de_iEventId e)) of
       None \<Rightarrow> do {
         P \<leftarrow> ev_upd p (\<lambda>e. e\<lparr>de_pLastEvent := NULL, de_pNextEvent := NULL\<rparr>) P;
         Some (P\<lparr>dp_mEventProcessingSequenceMap := (dp_mEventProcessingSequenceMap P)(ucast (de_iEventId e) \<mapsto> p),
           dp_EventProcessingList := dp_EventProcessingList P @ [p]\<rparr>)
       }
     | Some h \<Rightarrow> do {
         q \<leftarrow> link_end (dp_heap P) h;
         P \<leftarrow> ev_upd q (\<lambda>e. e\<lparr>de_pNextEvent := p\<rparr>) P;
         ev_upd p (\<lambda>e. e\<lparr>de_pLastEvent := q, de_pNextEvent := NULL\<rparr>) P
       }
   }"

primrec flush_events :: "ptr list \<Rightarrow> 'd DBConnPool \<Rightarrow> 'd DBConnPool option" where
  "flush_events [] P = Some P"
| "flush_events (p # ps) P = do { P \<leftarrow> flush_event p P; flush_events ps P }"

definition FlushEventWaitingList :: "'d DBConnPool \<Rightarrow> (bool \<times> 'd DBConnPool) option" where
  "FlushEventWaitingList P = (if dp_EventWaitingList P = [] then Some (False, P) else do {
     P \<leftarrow> flush_events (dp_EventWaitingList P) P;
     Some (True, P\<lparr>dp_EventWaitingList := []\<rparr>)
   })"

definition pop_processing :: "'d DBConnPool \<Rightarrow> ptr \<times> 'd DBConnPool" where
  "pop_processing P = (let (p, ps) = pop_list (dp_EventProcessingList P) in (p, P\<lparr>dp_EventProcessingList := ps\<rparr>))"

text \<open>\<open>PopFromDBEventProcessingList\<close> up to where it waits, if it does; after waiting it goes on with \<open>pop_processing\<close>.\<close>

definition PopFromDBEventProcessingList :: "u64 \<Rightarrow> 'd DBConnPool \<Rightarrow> (ptr option \<times> 'd DBConnPool) option" where
  "PopFromDBEventProcessingList iLast P =
     (case (if iLast \<noteq> 0 then dp_mEventProcessingSequenceMap P iLast else None) of
        Some p \<Rightarrow> Some (Some p, P)
      | None \<Rightarrow> if dp_EventProcessingList P = [] then do {
            (r, P) \<leftarrow> FlushEventWaitingList P;
            Some (if r then (let (p, P) = pop_processing P in (Some p, P)) else (None, P))
          } else Some (let (p, P) = pop_processing P in (Some p, P)))"

text \<open>The part of \<open>PostFireEvent\<close> under the lock; the new head of the chain is inserted while the old entry is still there.\<close>

definition PostFireEvent :: "ptr \<Rightarrow> 'd DBConnPool \<Rightarrow> (bool \<times> 'd DBConnPool) option" where
  "PostFireEvent p P = do {
     e \<leftarrow> dp_heap P p;
     if \<not> de_bSequence e then Some (False, P)
     else let k = ucast (de_iEventId e) in case dp_mEventProcessingSequenceMap P k of
       None \<Rightarrow> Some (False, P)
     | Some h \<Rightarrow> do {
         P \<leftarrow> (if de_pNextEvent e \<noteq> NULL then do {
             P \<leftarrow> ev_upd (de_pNextEvent e) (\<lambda>x. x\<lparr>de_pLastEvent := NULL\<rparr>) P;
             Some (P\<lparr>dp_mEventProcessingSequenceMap := hm_insert k (de_pNextEvent e) (dp_mEventProcessingSequenceMap P)\<rparr>)
           } else Some (P\<lparr>dp_mEventProcessingSequenceMap := (dp_mEventProcessingSequenceMap P)(k := None)\<rparr>));
         P \<leftarrow> ev_upd p (\<lambda>x. x\<lparr>de_pLastEvent := NULL, de_pNextEvent := NULL\<rparr>) P;
         Some (True, P)
       }
   }"

definition return_event :: "ptr \<Rightarrow> 'd DBConnPool \<Rightarrow> 'd DBConnPool option" where
  "return_event p P = do {
     e \<leftarrow> dp_heap P p;
     if de_bReturnable e then Some (P\<lparr>dp_EventReturnList := dp_EventReturnList P @ [p]\<rparr>) else FreeEvent p P
   }"

section \<open>The thread of a connection\<close>

text \<open>After a failure the handle is not reset to NULL; when the database cannot be selected the handle is closed and then used
  for the error message.\<close>

definition InitConnector :: "connect_result \<Rightarrow> (bool \<times> mysql) option" where
  "InitConnector r = (case r of
     Connect_InitFailed \<Rightarrow> Some (False, MySQL_NULL)
   | Connect_Failed \<Rightarrow> Some (False, MySQL_Unconnected)
   | Connect_SelectFailed \<Rightarrow> None
   | Connect_Ok \<Rightarrow> Some (True, MySQL_Open))"

definition take_event :: "ptr \<Rightarrow> DBConn \<Rightarrow> 'd DBConnPool \<Rightarrow> (DBConn \<times> 'd DBConnPool) option" where
  "take_event p c P = (if p = NULL then Some (c\<lparr>dc_pc := AtLoop\<rparr>, P) else do {
     e \<leftarrow> dp_heap P p;
     Some (c\<lparr>dc_iLastEventSequenceId := de_iSequenceId e, dc_pc := AtFire p\<rparr>, P)
   })"

text \<open>One step of the thread.  \<open>r\<close> is the result of connecting, \<open>fire\<close> what \<open>FireEvent\<close> returns for the data of the event and makes of it, if it does not crash.\<close>

definition conn_step :: "connect_result \<Rightarrow> ('d \<Rightarrow> (int \<times> 'd) option) \<Rightarrow> DBConn \<Rightarrow> 'd DBConnPool \<Rightarrow> (DBConn \<times> 'd DBConnPool) option" where
  "conn_step r fire c P = (case dc_pc c of
     AtLoop \<Rightarrow> (if dc_bQuit c then Some (c\<lparr>dc_pc := AtEnd\<rparr>, P) else do {
       (ok, h) \<leftarrow> (if dc_pMySQL c = MySQL_NULL then InitConnector r else Some (True, dc_pMySQL c));
       let c = c\<lparr>dc_pMySQL := h\<rparr>;
       if \<not> ok then Some (c, P) else do {
         (pEvent, P) \<leftarrow> PopFromDBEventProcessingList (dc_iLastEventSequenceId c) P;
         case pEvent of None \<Rightarrow> Some (c\<lparr>dc_pc := AtWait\<rparr>, P) | Some p \<Rightarrow> take_event p c P
       }
     })
   | AtWait \<Rightarrow> (let (p, P) = pop_processing P in take_event p c P)
   | AtFire p \<Rightarrow> do {
       e \<leftarrow> dp_heap P p;
       (iRet, d) \<leftarrow> fire (de_data e);
       P \<leftarrow> ev_upd p (\<lambda>e. e\<lparr>de_data := d, de_bFired := True\<rparr>) P;
       Some (c\<lparr>dc_pMySQL := (if iRet < 0 then MySQL_NULL else dc_pMySQL c), dc_pc := AtPost p\<rparr>, P)
     }
   | AtPost p \<Rightarrow> do {
       (bRet, P) \<leftarrow> PostFireEvent p P;
       Some (if bRet then c\<lparr>dc_pc := AtReturn p\<rparr> else c\<lparr>dc_iLastEventSequenceId := 0, dc_pc := AtLoop\<rparr>, P)
     }
   | AtReturn p \<Rightarrow> do { P \<leftarrow> return_event p P; Some (c\<lparr>dc_pc := AtLoop\<rparr>, P) }
   | AtEnd \<Rightarrow> Some (c, P))"

definition DBConn_Stop :: "DBConn \<Rightarrow> DBConn" where
  "DBConn_Stop c = c\<lparr>dc_bQuit := True\<rparr>"

section \<open>The threads together\<close>

record 'd dbsys =
  ds_pool :: "'d DBConnPool"
  ds_conns :: "DBConn list"

text \<open>\<open>Init\<close> creates the connections, \<open>Stop\<close> asks all threads to end.\<close>

definition db_init :: "u16 \<Rightarrow> 'd dbsys" where
  "db_init iDBConnCount = \<lparr>ds_pool = DBConnPool_new, ds_conns = replicate (unat iDBConnCount) DBConn_new\<rparr>"

definition db_stop :: "'d dbsys \<Rightarrow> 'd dbsys" where
  "db_stop s = s\<lparr>ds_conns := map DBConn_Stop (ds_conns s)\<rparr>"

text \<open>What the main loop does to the pool: allocate and push an event, and pop a result.\<close>

definition db_push :: "u64 \<Rightarrow> u32 \<Rightarrow> 'd \<Rightarrow> bool \<Rightarrow> 'd dbsys \<Rightarrow> 'd dbsys option" where
  "db_push iSequenceId iEventId d bReturnable s = do {
     let (p, P) = AllocateEvent (DBEvent_new iEventId d) (ds_pool s);
     (iRet, P) \<leftarrow> PushSequenceEvent iSequenceId p bReturnable P;
     Some (s\<lparr>ds_pool := P\<rparr>)
   }"

definition db_pop :: "'d dbsys \<Rightarrow> ptr \<times> 'd dbsys" where
  "db_pop s = (let (p, P) = PopFromDBEventReturnList (ds_pool s) in (p, s\<lparr>ds_pool := P\<rparr>))"

definition db_conn_step :: "nat \<Rightarrow> connect_result \<Rightarrow> ('d \<Rightarrow> (int \<times> 'd) option) \<Rightarrow> 'd dbsys \<Rightarrow> 'd dbsys option" where
  "db_conn_step i r fire s = (if i < length (ds_conns s) then do {
     (c, P) \<leftarrow> conn_step r fire (ds_conns s ! i) (ds_pool s);
     Some (s\<lparr>ds_pool := P, ds_conns := (ds_conns s)[i := c]\<rparr>)
   } else None)"

datatype 'd db_action = DB_Push u64 u32 'd bool | DB_Pop | DB_Conn nat connect_result "'d \<Rightarrow> (int \<times> 'd) option" | DB_Stop

definition db_step :: "'d db_action \<Rightarrow> 'd dbsys \<Rightarrow> 'd dbsys option" where
  "db_step a s = (case a of
     DB_Push sid eid d ret \<Rightarrow> db_push sid eid d ret s
   | DB_Pop \<Rightarrow> Some (snd (db_pop s))
   | DB_Conn i r fire \<Rightarrow> db_conn_step i r fire s
   | DB_Stop \<Rightarrow> Some (db_stop s))"

end
