(* ===== verification/CacheLoop.thy ===== *)
theory CacheLoop
  imports MasterServer CacheDB Runs
begin

text \<open>
  The cache server (\<open>FTServer/Src/CacheServer\<close>): \<open>CacheServerLoop\<close>, which keeps the players that the master server has logged in,
  \<open>CachePlayerContext\<close>, one player, and the database events of players, which the threads of \<open>CacheDB\<close> work on.

  \<^item> A player context is an address of the object pool, as on the master server; \<open>cl_ctx\<close> has the value of every context.
  \<^item> The pool of database connections is \<open>cl_db\<close>, a state of \<open>CacheDB\<close>; its events carry \<open>PlayerDBEvent\<close>.  The cast by the id of an event is the
    constructor of \<open>player_data\<close>, from which \<open>event_id\<close> gives the id.
  \<^item> \<open>cenv\<close> collects what comes from outside: conversions, decoding of packets, which server ids have an entry, the results of sending
    and of allocating an event, the order of a hash map, and the configuration.
  \<^item> An index outside an array, a name that fills its array, and sending through the NULL handle of an unknown server are \<open>None\<close>.
\<close>

section \<open>Data\<close>

datatype cache_state =
    PLAYER_STATE_NONE | PLAYER_STATE_ONLOGINREQ | PLAYER_STATE_ONAVATARLISTREQ | PLAYER_STATE_AVATARLISTACK | PLAYER_STATE_ONAVATARSELECTREQ
  | PLAYER_STATE_AVATARSELECTACK | PLAYER_STATE_ONREGIONENTERREQ | PLAYER_STATE_REGIONENTERACK | PLAYER_STATE_ONLOGOUTREQ

datatype cache_event =
    PLAYER_EVENT_ONLOGINREQ | PLAYER_EVENT_ONAVATARLISTREQ | PLAYER_EVENT_AVATARLISTACK | PLAYER_EVENT_ONAVATARSELECTREQ
  | PLAYER_EVENT_AVATARSELECTACK | PLAYER_EVENT_ONREGIONENTERREQ | PLAYER_EVENT_REGIONENTERACK | PLAYER_EVENT_ONLOGOUTREQ

primrec cst :: "cache_state \<Rightarrow> int" where
  "cst PLAYER_STATE_NONE = 0"
| "cst PLAYER_STATE_ONLOGINREQ = 1"
| "cst PLAYER_STATE_ONAVATARLISTREQ = 2"
| "cst PLAYER_STATE_AVATARLISTACK = 3"
| "cst PLAYER_STATE_ONAVATARSELECTREQ = 4"
| "cst PLAYER_STATE_AVATARSELECTACK = 5"
| "cst PLAYER_STATE_ONREGIONENTERREQ = 6"
| "cst PLAYER_STATE_REGIONENTERACK = 7"
| "cst PLAYER_STATE_ONLOGOUTREQ = 8"

primrec cev :: "cache_event \<Rightarrow> int" where
  "cev PLAYER_EVENT_ONLOGINREQ = 0"
| "cev PLAYER_EVENT_ONAVATARLISTREQ = 1"
| "cev PLAYER_EVENT_AVATARLISTACK = 2"
| "cev PLAYER_EVENT_ONAVATARSELECTREQ = 3"
| "cev PLAYER_EVENT_AVATARSELECTACK = 4"
| "cev PLAYER_EVENT_ONREGIONENTERREQ = 5"
| "cev PLAYER_EVENT_REGIONENTERACK = 6"
| "cev PLAYER_EVENT_ONLOGOUTREQ = 7"

definition cache_table :: "(int \<times> (int \<times> int) list) list" where
  "cache_table = [
     (cst PLAYER_STATE_NONE, [(cev PLAYER_EVENT_ONLOGINREQ, cst PLAYER_STATE_ONLOGINREQ)]),
     (cst PLAYER_STATE_ONLOGINREQ,
       [(cev PLAYER_EVENT_ONAVATARLISTREQ, cst PLAYER_STATE_ONAVATARLISTREQ), (cev PLAYER_EVENT_ONLOGOUTREQ, cst PLAYER_STATE_ONLOGOUTREQ)]),
     (cst PLAYER_STATE_ONAVATARLISTREQ, [(cev PLAYER_EVENT_AVATARLISTACK, cst PLAYER_STATE_AVATARLISTACK)]),
     (cst PLAYER_STATE_AVATARLISTACK,
       [(cev PLAYER_EVENT_ONAVATARSELECTREQ, cst PLAYER_STATE_ONAVATARSELECTREQ), (cev PLAYER_EVENT_ONLOGOUTREQ, cst PLAYER_STATE_ONLOGOUTREQ)]),
     (cst PLAYER_STATE_ONAVATARSELECTREQ, [(cev PLAYER_EVENT_AVATARSELECTACK, cst PLAYER_STATE_AVATARSELECTACK)]),
     (cst PLAYER_STATE_AVATARSELECTACK,
       [(cev PLAYER_EVENT_ONAVATARLISTREQ, cst PLAYER_STATE_ONAVATARLISTREQ), (cev PLAYER_EVENT_ONREGIONENTERREQ, cst PLAYER_STATE_ONREGIONENTERREQ),
        (cev PLAYER_EVENT_ONLOGOUTREQ, cst PLAYER_STATE_ONLOGOUTREQ)]),
     (cst PLAYER_STATE_ONREGIONENTERREQ,
       [(cev PLAYER_EVENT_REGIONENTERACK, cst PLAYER_STATE_REGIONENTERACK), (cev PLAYER_EVENT_ONLOGOUTREQ, cst PLAYER_STATE_ONLOGOUTREQ)]),
     (cst PLAYER_STATE_REGIONENTERACK, [(cev PLAYER_EVENT_ONLOGOUTREQ, cst PLAYER_STATE_ONLOGOUTREQ)])]"

definition cache_InitStateMachine :: "StateMachine \<Rightarrow> StateMachine option" where
  "cache_InitStateMachine m = init_states cache_table m"

text \<open>The events on the database.\<close>

datatype player_data =
    GetAvatarList tstring u8 "prdAvatar list" | AvatarCreate tstring prdAvatar | AvatarSelectData u64 tstring u8
  | AvatarEnterRegion u64 tstring | AvatarSaveData tstring u8 | AvatarLogout u64 | AvatarFinalize

record PlayerDBEvent =
  pd_iSessionId :: u32
  pd_iRet :: i32
  pd_data :: player_data

definition event_id :: "player_data \<Rightarrow> u32" where
  "event_id d = (case d of GetAvatarList _ _ _ \<Rightarrow> 1 | AvatarCreate _ _ \<Rightarrow> 2 | AvatarSelectData _ _ _ \<Rightarrow> 3 | AvatarEnterRegion _ _ \<Rightarrow> 4
     | AvatarSaveData _ _ \<Rightarrow> 5 | AvatarLogout _ \<Rightarrow> 6 | AvatarFinalize \<Rightarrow> 999)"

definition prdAvatar_new :: prdAvatar where
  "prdAvatar_new = \<lparr>av_iAvatarId = 0, av_strAvatarName = []\<rparr>"

definition GetAvatarList_new :: "tstring \<Rightarrow> player_data" where
  "GetAvatarList_new strAccountName = GetAvatarList strAccountName 0 (replicate AVATARCOUNT_MAX prdAvatar_new)"

record CacheAvatarContext =
  ca_strAvatarName :: tstring
  ca_iAvatarId :: u64
  ca_iLevel :: u16
  ca_iLastChannelId :: u8
  ca_bEnterRegion :: bool
  ca_arrayDirty :: "bool list"

definition CacheAvatarContext_Clear :: CacheAvatarContext where
  "CacheAvatarContext_Clear = \<lparr>ca_strAvatarName = [], ca_iAvatarId = 0, ca_iLevel = 0, ca_iLastChannelId = 0, ca_bEnterRegion = False,
     ca_arrayDirty = [False, False]\<rparr>"

record CachePlayerContext =
  cp_iSessionId :: u32
  cp_iRegionServerId :: u8
  cp_strAccountName :: tstring
  cp_StateMachine :: StateMachine
  cp_bFinalizing :: bool
  cp_iNextSaveDataTime :: u32
  cp_iAvatarCount :: u8
  cp_arrayAvatar :: "prdAvatar list"
  cp_AvatarContext :: CacheAvatarContext

datatype cache_msg = CM_PacketForward u32 u16 "byte list" | CM_RegionEnterAck u8 u32 i32 | CM_ReportState u8

record CacheServerLoop =
  cl_iShutdownStatus :: loop_status
  cl_PlayerContextPool :: ObjectPool
  cl_mPlayerContextBySessionId :: "u32 \<rightharpoonup> ptr"
  cl_mPlayerContextByAvatarId :: "u64 \<rightharpoonup> ptr"
  cl_PlayerFinalizingQueue :: "ptr list"
  cl_db :: "PlayerDBEvent dbsys"
  cl_dwCurrTime :: u32
  cl_Delay :: "u16 \<times> byte list"
  cl_iAllocated :: nat
  cl_ctx :: "ptr \<Rightarrow> CachePlayerContext"
  cl_sent :: "(cache_msg \<times> i32) list"

datatype cache_command =
    COMMAND_SHUTDOWN | COMMAND_ONLOGINREQ u32 tstring | COMMAND_ONLOGOUTREQ u32 | COMMAND_ONREGIONENTERREQ u32 u8 tstring
  | COMMAND_PACKETFORWARD u32 u16 "byte list"

record cenv =
  ce_wide :: "byte list \<Rightarrow> tstring option"
  ce_narrow :: "tstring \<Rightarrow> byte list option"
  ce_recv :: "u16 \<Rightarrow> byte list \<Rightarrow> gate_packet option"
  ce_server :: "u8 \<Rightarrow> bool"
  ce_net :: "nat \<Rightarrow> i32"
  ce_alloc :: "nat \<Rightarrow> bool"
  ce_order :: "(u32 \<rightharpoonup> ptr) \<Rightarrow> ptr list"
  ce_iServerId :: u8
  ce_iDBConnCount :: u16
  ce_iSaveDBInterval :: u32

section \<open>What the database threads do for an event\<close>

text \<open>The answer to a statement: \<open>Query\<close> fails, or there is no data, or rows of columns, of which each may be NULL.\<close>

type_synonym rows = "byte list option list list"

datatype query = Query_Failed nat | Query_Done | Query_Rows rows

fun digits :: "int \<Rightarrow> byte list \<Rightarrow> int" where
  "digits a [] = a"
| "digits a (c # cs) = (if 48 \<le> c \<and> c \<le> 57 then digits (a * 10 + uint c - 48) cs else a)"

definition parse_int :: "byte list \<Rightarrow> int" where
  "parse_int s = (case dropWhile (\<lambda>c. c = 32 \<or> 9 \<le> c \<and> c \<le> 13) s of [] \<Rightarrow> 0
     | c # cs \<Rightarrow> (if c = 45 then - digits 0 cs else if c = 43 then digits 0 cs else digits 0 (c # cs)))"

definition atoi64 :: "byte list \<Rightarrow> u64" where
  "atoi64 s = word_of_int (max (- (2 ^ 63)) (min (2 ^ 63 - 1) (parse_int s)))"

definition atoi :: "byte list \<Rightarrow> i32" where
  "atoi s = word_of_int (max (- (2 ^ 31)) (min (2 ^ 31 - 1) (parse_int s)))"

definition lit :: "string \<Rightarrow> tstring" where
  "lit s = map of_char s"

definition quoted :: "tstring \<Rightarrow> tstring" where
  "quoted s = 39 # s @ [39]"

fun decimal :: "nat \<Rightarrow> tstring" where
  "decimal n = (if n < 10 then [of_nat (48 + n)] else decimal (n div 10) @ [of_nat (48 + n mod 10)])"

text \<open>\<open>swprintf_s\<close> into an array of \<open>SQL_STATEMENT_MAX\<close> characters.\<close>

definition statement :: "tstring \<Rightarrow> tstring option" where
  "statement s = wcscpy_s 4096 s"

definition column :: "byte list option list \<Rightarrow> nat \<Rightarrow> byte list option" where
  "column row i = (if i < length row then row ! i else None)"

text \<open>A converted name is terminated once more at the returned length, which counts the terminator.\<close>

definition wide_array :: "(byte list \<Rightarrow> tstring option) \<Rightarrow> byte list \<Rightarrow> tstring option option" where
  "wide_array conv s = (case Char2WChar conv s (NAME_MAX + 1) of
     None \<Rightarrow> Some None
   | Some w \<Rightarrow> (if length w + 1 < NAME_MAX + 1 then Some (Some w) else None))"

primrec avatar_rows :: "(byte list \<Rightarrow> tstring option) \<Rightarrow> rows \<Rightarrow> u8 \<times> prdAvatar list \<Rightarrow> (bool \<times> u8 \<times> prdAvatar list) option" where
  "avatar_rows conv [] x = Some (True, x)"
| "avatar_rows conv (row # rows) x = (case x of (n, as) \<Rightarrow> do {
     a \<leftarrow> arr as n;
     c \<leftarrow> column row 0;
     let as = as[unat n := a\<lparr>av_iAvatarId := atoi64 c\<rparr>];
     c \<leftarrow> column row 2;
     w \<leftarrow> wide_array conv c;
     case w of None \<Rightarrow> Some (False, n, as)
     | Some w \<Rightarrow> avatar_rows conv rows (n + 1, as[unat n := (as ! unat n)\<lparr>av_strAvatarName := w\<rparr>])
   })"

primrec each_row :: "(byte list \<Rightarrow> 'a \<Rightarrow> 'a) \<Rightarrow> rows \<Rightarrow> 'a \<Rightarrow> 'a option" where
  "each_row g [] x = Some x"
| "each_row g (row # rows) x = do { c \<leftarrow> column row 0; each_row g rows (g c x) }"

text \<open>\<open>FireEvent\<close> of the events.  A failed query leaves \<open>m_iRet\<close> as it was.\<close>

definition run_query :: "(tstring \<Rightarrow> query) \<Rightarrow> tstring \<Rightarrow> PlayerDBEvent \<Rightarrow> (rows \<Rightarrow> (int \<times> PlayerDBEvent) option) \<Rightarrow> (int \<times> PlayerDBEvent) option" where
  "run_query q s e f = do {
     s \<leftarrow> statement s;
     case q s of Query_Failed n \<Rightarrow> Some (- 1 - int n, e)
     | Query_Done \<Rightarrow> Some (0, e\<lparr>pd_iRet := 0\<rparr>)
     | Query_Rows rows \<Rightarrow> f rows
   }"

definition FireEvent :: "cenv \<Rightarrow> (tstring \<Rightarrow> query) \<Rightarrow> PlayerDBEvent \<Rightarrow> (int \<times> PlayerDBEvent) option" where
  "FireEvent E q e = (case pd_data e of
     GetAvatarList acc n as \<Rightarrow> run_query q (lit ''call SP_GetAvatarList('' @ quoted acc @ lit '');'') e (\<lambda>rows. do {
       (ok, n, as) \<leftarrow> avatar_rows (ce_wide E) rows (n, as);
       let iRet = (if ok then 0 else - 1);
       Some (iRet, e\<lparr>pd_data := GetAvatarList acc n as, pd_iRet := word_of_int iRet\<rparr>)
     })
   | AvatarCreate acc a \<Rightarrow> run_query q (lit ''call SP_CreateAvatar('' @ quoted acc @ lit '', '' @ quoted (av_strAvatarName a) @ lit '');'') e
       (\<lambda>rows. do {
          a \<leftarrow> each_row (\<lambda>c a. a\<lparr>av_iAvatarId := atoi64 c\<rparr>) rows a;
          Some (0, e\<lparr>pd_data := AvatarCreate acc a, pd_iRet := 0\<rparr>)
        })
   | AvatarSelectData i name ch \<Rightarrow> run_query q (lit ''call SP_SelectAvatar('' @ quoted (decimal (unat i)) @ lit '');'') e (\<lambda>rows. do {
       ch \<leftarrow> each_row (\<lambda>c _. ucast (atoi c)) rows ch;
       Some (0, e\<lparr>pd_data := AvatarSelectData i name ch, pd_iRet := 0\<rparr>)
     })
   | AvatarFinalize \<Rightarrow> Some (0, e)
   | _ \<Rightarrow> Some (0, e\<lparr>pd_iRet := 0\<rparr>))"

section \<open>Basic operations\<close>

definition Cache_ctx_upd :: "ptr \<Rightarrow> (CachePlayerContext \<Rightarrow> CachePlayerContext) \<Rightarrow> CacheServerLoop \<Rightarrow> CacheServerLoop" where
  "Cache_ctx_upd p f m = m\<lparr>cl_ctx := (cl_ctx m)(p := f (cl_ctx m p))\<rparr>"

definition cache_fsm :: "ptr \<Rightarrow> cache_event \<Rightarrow> CacheServerLoop \<Rightarrow> (int \<times> CacheServerLoop) option" where
  "cache_fsm p e m = do {
     (r, sm) \<leftarrow> StateTransition (cev e) True (cp_StateMachine (cl_ctx m p));
     Some (r, Cache_ctx_upd p (\<lambda>c. c\<lparr>cp_StateMachine := sm\<rparr>) m)
   }"

definition cache_curr :: "ptr \<Rightarrow> CacheServerLoop \<Rightarrow> int" where
  "cache_curr p m = GetCurrState (cp_StateMachine (cl_ctx m p))"

definition cache_send :: "cenv \<Rightarrow> cache_msg \<Rightarrow> CacheServerLoop \<Rightarrow> i32 \<times> CacheServerLoop" where
  "cache_send E msg m = (let r = ce_net E (length (cl_sent m)) in (r, m\<lparr>cl_sent := cl_sent m @ [(msg, r)]\<rparr>))"

text \<open>\<open>FT_NEW\<close> of an event may fail.  A new event goes to the waiting list under the id of the session.\<close>

definition new_event :: "cenv \<Rightarrow> CacheServerLoop \<Rightarrow> bool \<times> CacheServerLoop" where
  "new_event E m = (ce_alloc E (cl_iAllocated m), m\<lparr>cl_iAllocated := Suc (cl_iAllocated m)\<rparr>)"

definition push_event :: "ptr \<Rightarrow> player_data \<Rightarrow> bool \<Rightarrow> CacheServerLoop \<Rightarrow> CacheServerLoop option" where
  "push_event p d bReturnable m = do {
     let sid = cp_iSessionId (cl_ctx m p);
     db \<leftarrow> db_push (ucast sid) (event_id d) \<lparr>pd_iSessionId = sid, pd_iRet = 0, pd_data = d\<rparr> bReturnable (cl_db m);
     Some (m\<lparr>cl_db := db\<rparr>)
   }"

definition Cache_DelaySendData :: "u16 \<Rightarrow> byte list \<Rightarrow> CacheServerLoop \<Rightarrow> CacheServerLoop option" where
  "Cache_DelaySendData iTypeId pBuf m = (if length pBuf \<le> DELAY_MAX then Some (m\<lparr>cl_Delay := (iTypeId, pBuf)\<rparr>) else None)"

definition Cache_SendPacket :: "u16 \<Rightarrow> byte list \<Rightarrow> CacheServerLoop \<Rightarrow> (i32 \<times> CacheServerLoop) option" where
  "Cache_SendPacket iTypeId bs m =
     (if length bs \<le> DELAY_MAX then do { m \<leftarrow> Cache_DelaySendData iTypeId bs m; Some (0, m) } else Some (- 1, m))"

definition cache_forward :: "cenv \<Rightarrow> ptr \<Rightarrow> CacheServerLoop \<Rightarrow> i32 \<times> CacheServerLoop" where
  "cache_forward E p m = cache_send E (CM_PacketForward (cp_iSessionId (cl_ctx m p)) (fst (cl_Delay m)) (snd (cl_Delay m))) m"

text \<open>The structures as they are in memory, with their padding, which their constructors clear.\<close>

definition le64 :: "u64 \<Rightarrow> byte list" where
  "le64 w = le32 (ucast w) @ le32 (ucast (drop_bit 32 w))"

definition name_bytes :: "byte list \<Rightarrow> byte list" where
  "name_bytes s = s @ replicate (NAME_MAX + 1 - length s) 0"

definition ftdAvatar_bytes :: "ftdAvatar \<Rightarrow> byte list" where
  "ftdAvatar_bytes a = le64 (fa_iAvatarId a) @ name_bytes (fa_strAvatarName a) @ replicate 7 0"

definition ftdAvatar_new :: ftdAvatar where
  "ftdAvatar_new = \<lparr>fa_iAvatarId = 0, fa_strAvatarName = []\<rparr>"

definition Send_AvatarListAck :: "i32 \<Rightarrow> u8 \<Rightarrow> ftdAvatar list \<Rightarrow> CacheServerLoop \<Rightarrow> (i32 \<times> CacheServerLoop) option" where
  "Send_AvatarListAck iReturn iAvatarCount arrayAvatar m = do {
     as \<leftarrow> mem_read arrayAvatar 0 (unat iAvatarCount);
     Cache_SendPacket 0x0300 (le32 iReturn @ iAvatarCount # le16 (ucast iAvatarCount) @ concat (map ftdAvatar_bytes as)) m
   }"

definition Send_AvatarCreateAck :: "i32 \<Rightarrow> ftdAvatar \<Rightarrow> CacheServerLoop \<Rightarrow> (i32 \<times> CacheServerLoop) option" where
  "Send_AvatarCreateAck iReturn newAvatar m = Cache_SendPacket 0x0301 (le32 iReturn @ ftdAvatar_bytes newAvatar) m"

definition Send_AvatarSelectAck :: "i32 \<Rightarrow> byte list \<times> u64 \<times> u8 \<Rightarrow> CacheServerLoop \<Rightarrow> (i32 \<times> CacheServerLoop) option" where
  "Send_AvatarSelectAck iReturn d m = (case d of (name, i, ch) \<Rightarrow>
     Cache_SendPacket 0x0302 (le32 iReturn @ name_bytes name @ replicate 7 0 @ le64 i @ ch # replicate 7 0) m)"

definition prdAvatar2ftdAvatar :: "cenv \<Rightarrow> prdAvatar \<Rightarrow> ftdAvatar option" where
  "prdAvatar2ftdAvatar E a = do {
     s \<leftarrow> WChar2Char (ce_narrow E) (av_strAvatarName a) (NAME_MAX + 1);
     Some \<lparr>fa_iAvatarId = av_iAvatarId a, fa_strAvatarName = s\<rparr>
   }"

section \<open>The loop's tables\<close>

definition Cache_AddPlayerToFinalizingQueue :: "ptr \<Rightarrow> CacheServerLoop \<Rightarrow> CacheServerLoop" where
  "Cache_AddPlayerToFinalizingQueue p m =
     (let m = Cache_ctx_upd p (\<lambda>c. c\<lparr>cp_bFinalizing := True\<rparr>) m in
      m\<lparr>cl_PlayerFinalizingQueue := cl_PlayerFinalizingQueue m @ [p]\<rparr>)"

definition AddPlayerContextByAvatarId :: "ptr \<Rightarrow> CacheServerLoop \<Rightarrow> CacheServerLoop" where
  "AddPlayerContextByAvatarId p m =
     m\<lparr>cl_mPlayerContextByAvatarId := hm_insert (ca_iAvatarId (cp_AvatarContext (cl_ctx m p))) p (cl_mPlayerContextByAvatarId m)\<rparr>"

definition GetPlayerContextByAvatarId :: "u64 \<Rightarrow> CacheServerLoop \<Rightarrow> ptr" where
  "GetPlayerContextByAvatarId iAvatarId m = (case cl_mPlayerContextByAvatarId m iAvatarId of Some p \<Rightarrow> p | None \<Rightarrow> NULL)"

definition CachePlayer_Clear :: "CachePlayerContext \<Rightarrow> CachePlayerContext" where
  "CachePlayer_Clear c = c\<lparr>cp_iSessionId := 0, cp_strAccountName := [], cp_StateMachine := SetCurrState (cst PLAYER_STATE_NONE) (cp_StateMachine c),
     cp_iAvatarCount := 0, cp_bFinalizing := False, cp_iRegionServerId := 0, cp_iNextSaveDataTime := 0,
     cp_AvatarContext := CacheAvatarContext_Clear\<rparr>"

definition Cache_DeletePlayer :: "ptr \<Rightarrow> CacheServerLoop \<Rightarrow> CacheServerLoop option" where
  "Cache_DeletePlayer p m = do {
     let m = m\<lparr>cl_mPlayerContextBySessionId := (cl_mPlayerContextBySessionId m)(cp_iSessionId (cl_ctx m p) := None)\<rparr>;
     let m = m\<lparr>cl_mPlayerContextByAvatarId := (cl_mPlayerContextByAvatarId m)(ca_iAvatarId (cp_AvatarContext (cl_ctx m p)) := None)\<rparr>;
     let m = Cache_ctx_upd p CachePlayer_Clear m;
     pool \<leftarrow> ObjectPool_Free p (cl_PlayerContextPool m);
     Some (m\<lparr>cl_PlayerContextPool := pool\<rparr>)
   }"

section \<open>The player's handlers: requests\<close>

text \<open>\<open>bNeedSave\<close> of \<open>Shutdown\<close>, as a function of the state.\<close>

definition bNeedSave :: "int \<Rightarrow> bool" where
  "bNeedSave s \<longleftrightarrow> s \<notin> set (map cst [PLAYER_STATE_ONLOGINREQ, PLAYER_STATE_ONAVATARLISTREQ, PLAYER_STATE_AVATARLISTACK, PLAYER_STATE_ONAVATARSELECTREQ,
     PLAYER_STATE_AVATARSELECTACK, PLAYER_STATE_ONREGIONENTERREQ])"

definition CachePlayer_Shutdown :: "cenv \<Rightarrow> ptr \<Rightarrow> CacheServerLoop \<Rightarrow> CacheServerLoop option" where
  "CachePlayer_Shutdown E p m =
     (if \<not> bNeedSave (cache_curr p m) then Some (Cache_AddPlayerToFinalizingQueue p m) else do {
        let (ok, m) = new_event E m;
        if \<not> ok then Some m else push_event p AvatarFinalize True m
      })"

definition Cache_ShutdownPlayer :: "cenv \<Rightarrow> ptr \<Rightarrow> CacheServerLoop \<Rightarrow> CacheServerLoop option" where
  "Cache_ShutdownPlayer E p m = (if cp_bFinalizing (cl_ctx m p) then Some m else CachePlayer_Shutdown E p m)"

definition CachePlayer_OnLoginReq :: "ptr \<Rightarrow> u32 \<Rightarrow> tstring \<Rightarrow> CacheServerLoop \<Rightarrow> CacheServerLoop option" where
  "CachePlayer_OnLoginReq p iSessionId strAccountName m = do {
     (r, m) \<leftarrow> cache_fsm p PLAYER_EVENT_ONLOGINREQ m;
     if r \<noteq> cst PLAYER_STATE_ONLOGINREQ then Some m else do {
       name \<leftarrow> wcscpy_s (NAME_MAX + 1) strAccountName;
       Some (Cache_ctx_upd p (\<lambda>c. c\<lparr>cp_strAccountName := name, cp_iSessionId := iSessionId\<rparr>) m)
     }
   }"

definition CachePlayer_OnAvatarLogoutReq :: "cenv \<Rightarrow> ptr \<Rightarrow> CacheServerLoop \<Rightarrow> CacheServerLoop option" where
  "CachePlayer_OnAvatarLogoutReq E p m = do {
     let (ok, m) = new_event E m;
     if \<not> ok then Cache_ShutdownPlayer E p m
     else push_event p (AvatarLogout (ca_iAvatarId (cp_AvatarContext (cl_ctx m p)))) True m
   }"

definition CachePlayer_OnLogoutReq :: "cenv \<Rightarrow> ptr \<Rightarrow> CacheServerLoop \<Rightarrow> CacheServerLoop option" where
  "CachePlayer_OnLogoutReq E p m = do {
     (r, m) \<leftarrow> cache_fsm p PLAYER_EVENT_ONLOGOUTREQ m;
     if r \<noteq> cst PLAYER_STATE_ONLOGOUTREQ then Some m else do {
       m \<leftarrow> (if ca_bEnterRegion (cp_AvatarContext (cl_ctx m p)) then CachePlayer_OnAvatarLogoutReq E p m else Some m);
       Cache_ShutdownPlayer E p m
     }
   }"

definition CachePlayer_OnRegionEnterReq :: "cenv \<Rightarrow> ptr \<Rightarrow> u8 \<Rightarrow> tstring \<Rightarrow> CacheServerLoop \<Rightarrow> CacheServerLoop option" where
  "CachePlayer_OnRegionEnterReq E p iServerId strAvatarName m = do {
     (r, m) \<leftarrow> cache_fsm p PLAYER_EVENT_ONREGIONENTERREQ m;
     if r \<noteq> cst PLAYER_STATE_ONREGIONENTERREQ then Some m else do {
       let (ok, m) = new_event E m;
       if \<not> ok then Some m else do {
         let m = Cache_ctx_upd p (\<lambda>c. c\<lparr>cp_iRegionServerId := iServerId\<rparr>) m;
         name \<leftarrow> wcscpy_s (NAME_MAX + 1) strAvatarName;
         push_event p (AvatarEnterRegion (ca_iAvatarId (cp_AvatarContext (cl_ctx m p))) name) True m
       }
     }
   }"

definition CachePlayer_OnAvatarListReq :: "cenv \<Rightarrow> ptr \<Rightarrow> CacheServerLoop \<Rightarrow> CacheServerLoop option" where
  "CachePlayer_OnAvatarListReq E p m = do {
     (r, m) \<leftarrow> cache_fsm p PLAYER_EVENT_ONAVATARLISTREQ m;
     if r \<noteq> cst PLAYER_STATE_ONAVATARLISTREQ then Some m else do {
       let (ok, m) = new_event E m;
       if \<not> ok then do {
         (iRet, m) \<leftarrow> Send_AvatarListAck 0 0 [] m;
         Some (if iRet \<noteq> 0 then m else snd (cache_forward E p m))
       } else do {
         name \<leftarrow> wcscpy_s (NAME_MAX + 1) (cp_strAccountName (cl_ctx m p));
         push_event p (GetAvatarList_new name) True m
       }
     }
   }"

definition CachePlayer_OnAvatarCreateReq :: "cenv \<Rightarrow> ptr \<Rightarrow> tstring \<Rightarrow> CacheServerLoop \<Rightarrow> CacheServerLoop option" where
  "CachePlayer_OnAvatarCreateReq E p strAvatarName m = do {
     let (ok, m) = new_event E m;
     if \<not> ok then do {
       (iRet, m) \<leftarrow> Send_AvatarCreateAck 0 ftdAvatar_new m;
       Some (if iRet \<noteq> 0 then m else snd (cache_forward E p m))
     } else do {
       acc \<leftarrow> wcscpy_s (NAME_MAX + 1) (cp_strAccountName (cl_ctx m p));
       name \<leftarrow> wcscpy_s (NAME_MAX + 1) strAvatarName;
       push_event p (AvatarCreate acc (prdAvatar_new\<lparr>av_strAvatarName := name\<rparr>)) True m
     }
   }"

definition CachePlayer_OnAvatarSelectReq :: "cenv \<Rightarrow> ptr \<Rightarrow> tstring \<Rightarrow> CacheServerLoop \<Rightarrow> CacheServerLoop option" where
  "CachePlayer_OnAvatarSelectReq E p strAvatarName m = do {
     (r, m) \<leftarrow> cache_fsm p PLAYER_EVENT_ONAVATARSELECTREQ m;
     if r \<noteq> cst PLAYER_STATE_ONAVATARSELECTREQ then Some m else do {
       as \<leftarrow> mem_read (cp_arrayAvatar (cl_ctx m p)) 0 (unat (cp_iAvatarCount (cl_ctx m p)));
       case find (\<lambda>a. av_strAvatarName a = strAvatarName) as of None \<Rightarrow> Some m
       | Some a \<Rightarrow> do {
           let (ok, m) = new_event E m;
           if \<not> ok then do {
             (iRet, m) \<leftarrow> Send_AvatarSelectAck (- 1) ([], 0, 0) m;
             Some (if iRet \<noteq> 0 then m else snd (cache_forward E p m))
           } else do {
             name \<leftarrow> wcscpy_s (NAME_MAX + 1) strAvatarName;
             push_event p (AvatarSelectData (av_iAvatarId a) name 0) True m
           }
         }
     }
   }"

definition CachePlayer_OnSaveDataReq :: "cenv \<Rightarrow> ptr \<Rightarrow> bool \<Rightarrow> CacheServerLoop \<Rightarrow> CacheServerLoop option" where
  "CachePlayer_OnSaveDataReq E p bSendNtf m = do {
     let (ok, m) = new_event E m;
     if \<not> ok then Some m else do {
       let a = cp_AvatarContext (cl_ctx m p);
       name \<leftarrow> wcscpy_s (NAME_MAX + 1) (ca_strAvatarName a);
       m \<leftarrow> push_event p (AvatarSaveData name (ca_iLastChannelId a)) bSendNtf m;
       Some (Cache_ctx_upd p (\<lambda>c. c\<lparr>cp_AvatarContext := (cp_AvatarContext c)\<lparr>ca_arrayDirty := [False, False]\<rparr>,
         cp_iNextSaveDataTime := cl_dwCurrTime m + ce_iSaveDBInterval E\<rparr>) m)
     }
   }"

section \<open>The player's handlers: results of the database\<close>

text \<open>The loop converts as many avatars of the event as the context has; a conversion that fails ends the handler.\<close>

primrec convert_list :: "cenv \<Rightarrow> prdAvatar list \<Rightarrow> ftdAvatar list option" where
  "convert_list E [] = Some []"
| "convert_list E (a # as) = do { b \<leftarrow> prdAvatar2ftdAvatar E a; bs \<leftarrow> convert_list E as; Some (b # bs) }"

definition OnPlayerEventGetAvatarListResult :: "cenv \<Rightarrow> ptr \<Rightarrow> i32 \<Rightarrow> u8 \<Rightarrow> prdAvatar list \<Rightarrow> CacheServerLoop \<Rightarrow> CacheServerLoop option" where
  "OnPlayerEventGetAvatarListResult E p iReturn n as m = do {
     (r, m) \<leftarrow> cache_fsm p PLAYER_EVENT_AVATARLISTACK m;
     if r \<noteq> cst PLAYER_STATE_AVATARLISTACK then Some m else do {
       let m = (if iReturn = 0 then Cache_ctx_upd p (\<lambda>c. c\<lparr>cp_iAvatarCount := n, cp_arrayAvatar := as\<rparr>) m else m);
       used \<leftarrow> mem_read as 0 (unat (cp_iAvatarCount (cl_ctx m p)));
       case convert_list E used of None \<Rightarrow> Some m
       | Some bs \<Rightarrow> do {
           (iRet, m) \<leftarrow> Send_AvatarListAck iReturn n (bs @ replicate (AVATARCOUNT_MAX - length bs) ftdAvatar_new) m;
           Some (if iRet \<noteq> 0 then m else snd (cache_forward E p m))
         }
     }
   }"

definition OnPlayerEventAvatarCreateResult :: "cenv \<Rightarrow> ptr \<Rightarrow> i32 \<Rightarrow> prdAvatar \<Rightarrow> CacheServerLoop \<Rightarrow> CacheServerLoop option" where
  "OnPlayerEventAvatarCreateResult E p iReturn a m = do {
     r \<leftarrow> (if iReturn \<noteq> 0 then Some (Some (ftdAvatar_new, m)) else
       case prdAvatar2ftdAvatar E a of None \<Rightarrow> Some None
       | Some avatar \<Rightarrow> if unat (cp_iAvatarCount (cl_ctx m p)) \<ge> AVATARCOUNT_MAX then Some None else do {
           avatars \<leftarrow> mem_write (cp_arrayAvatar (cl_ctx m p)) (unat (cp_iAvatarCount (cl_ctx m p))) [a];
           Some (Some (avatar, Cache_ctx_upd p (\<lambda>c. c\<lparr>cp_arrayAvatar := avatars, cp_iAvatarCount := cp_iAvatarCount c + 1\<rparr>) m))
         });
     case r of None \<Rightarrow> Some m
     | Some (avatar, m) \<Rightarrow> do {
         (iRet, m) \<leftarrow> Send_AvatarCreateAck iReturn avatar m;
         Some (if iRet \<noteq> 0 then m else snd (cache_forward E p m))
       }
   }"

definition narrow_array :: "(tstring \<Rightarrow> byte list option) \<Rightarrow> tstring \<Rightarrow> byte list option option" where
  "narrow_array conv s = (case WChar2Char conv s (NAME_MAX + 1) of
     None \<Rightarrow> Some None
   | Some w \<Rightarrow> (if length w + 1 < NAME_MAX + 1 then Some (Some w) else None))"

definition OnPlayerEventAvatarSelectResult :: "cenv \<Rightarrow> ptr \<Rightarrow> i32 \<Rightarrow> u64 \<Rightarrow> tstring \<Rightarrow> u8 \<Rightarrow> CacheServerLoop \<Rightarrow> CacheServerLoop option" where
  "OnPlayerEventAvatarSelectResult E p iReturn iAvatarId strAvatarName iLastChannelId m = do {
     r \<leftarrow> (if iReturn \<noteq> 0 then Some (Some ([], 0, 0), m) else do {
       name \<leftarrow> wcscpy_s (NAME_MAX + 1) strAvatarName;
       let m = Cache_ctx_upd p (\<lambda>c. c\<lparr>cp_AvatarContext := (if ca_iAvatarId (cp_AvatarContext c) \<noteq> 0 then CacheAvatarContext_Clear else cp_AvatarContext c)
           \<lparr>ca_strAvatarName := name, ca_iAvatarId := iAvatarId, ca_iLastChannelId := iLastChannelId\<rparr>\<rparr>) m;
       w \<leftarrow> narrow_array (ce_narrow E) strAvatarName;
       Some (map_option (\<lambda>w. (w, iAvatarId, iLastChannelId)) w, m)
     });
     case r of (None, m) \<Rightarrow> Some m
     | (Some data, m) \<Rightarrow> do {
         (iRet, m) \<leftarrow> Send_AvatarSelectAck iReturn data m;
         if iRet \<noteq> 0 then Some m else do {
           let (iRet, m) = cache_forward E p m;
           if iRet \<noteq> 0 then Some m else do {
             (r, m) \<leftarrow> cache_fsm p PLAYER_EVENT_AVATARSELECTACK m;
             if r \<noteq> cst PLAYER_STATE_AVATARSELECTACK then Cache_ShutdownPlayer E p m else Some m
           }
         }
       }
   }"

definition OnPlayerEventAvatarEnterRegionResult :: "cenv \<Rightarrow> ptr \<Rightarrow> i32 \<Rightarrow> CacheServerLoop \<Rightarrow> CacheServerLoop option" where
  "OnPlayerEventAvatarEnterRegionResult E p iReturn m = do {
     let m = (if iReturn = 0
       then Cache_ctx_upd p (\<lambda>c. c\<lparr>cp_AvatarContext := (cp_AvatarContext c)\<lparr>ca_bEnterRegion := True\<rparr>\<rparr>) (AddPlayerContextByAvatarId p m) else m);
     let r = cp_iRegionServerId (cl_ctx m p);
     if \<not> (unat r < SERVERCOUNT_MAX \<and> ce_server E r) then None else do {
       let (iRet, m) = cache_send E (CM_RegionEnterAck r (cp_iSessionId (cl_ctx m p)) iReturn) m;
       if iRet \<noteq> 0 then Some m else do {
         (r, m) \<leftarrow> cache_fsm p PLAYER_EVENT_REGIONENTERACK m;
         Some m
       }
     }
   }"

definition OnPlayerEventAvatarFinalizeResult :: "ptr \<Rightarrow> CacheServerLoop \<Rightarrow> CacheServerLoop" where
  "OnPlayerEventAvatarFinalizeResult p m = Cache_AddPlayerToFinalizingQueue p m"

definition OnPlayerEventAvatarSaveDataResult :: "ptr \<Rightarrow> CacheServerLoop \<Rightarrow> CacheServerLoop" where
  "OnPlayerEventAvatarSaveDataResult p m = m"

definition OnPlayerEventAvatarLogoutResult :: "ptr \<Rightarrow> CacheServerLoop \<Rightarrow> CacheServerLoop" where
  "OnPlayerEventAvatarLogoutResult p m =
     Cache_ctx_upd p (\<lambda>c. c\<lparr>cp_AvatarContext := (cp_AvatarContext c)\<lparr>ca_bEnterRegion := False\<rparr>\<rparr>) m"

definition Cache_OnPlayerEventResult :: "cenv \<Rightarrow> PlayerDBEvent \<Rightarrow> CacheServerLoop \<Rightarrow> CacheServerLoop option" where
  "Cache_OnPlayerEventResult E e m = (case cl_mPlayerContextBySessionId m (pd_iSessionId e) of None \<Rightarrow> Some m
   | Some p \<Rightarrow> (case pd_data e of
       GetAvatarList acc n as \<Rightarrow> OnPlayerEventGetAvatarListResult E p (pd_iRet e) n as m
     | AvatarCreate acc a \<Rightarrow> OnPlayerEventAvatarCreateResult E p (pd_iRet e) a m
     | AvatarSelectData i name ch \<Rightarrow> OnPlayerEventAvatarSelectResult E p (pd_iRet e) i name ch m
     | AvatarEnterRegion i name \<Rightarrow> OnPlayerEventAvatarEnterRegionResult E p (pd_iRet e) m
     | AvatarFinalize \<Rightarrow> Some (OnPlayerEventAvatarFinalizeResult p m)
     | AvatarSaveData name ch \<Rightarrow> Some (OnPlayerEventAvatarSaveDataResult p m)
     | AvatarLogout i \<Rightarrow> Some (OnPlayerEventAvatarLogoutResult p m)))"

section \<open>Commands\<close>

definition cache_on_packet :: "cenv \<Rightarrow> ptr \<Rightarrow> gate_packet \<Rightarrow> CacheServerLoop \<Rightarrow> CacheServerLoop option" where
  "cache_on_packet E p pk m = (case pk of
     AvatarListReq \<Rightarrow> CachePlayer_OnAvatarListReq E p m
   | AvatarCreateReq name \<Rightarrow> (case Char2WChar (ce_wide E) name (NAME_MAX + 1) of None \<Rightarrow> Some m | Some w \<Rightarrow> CachePlayer_OnAvatarCreateReq E p w m)
   | AvatarSelectReq name \<Rightarrow> do {
       r \<leftarrow> wide_array (ce_wide E) name;
       case r of None \<Rightarrow> Some m | Some w \<Rightarrow> CachePlayer_OnAvatarSelectReq E p w m
     }
   | _ \<Rightarrow> Some m)"

definition cache_by_session :: "u32 \<Rightarrow> (ptr \<Rightarrow> CacheServerLoop \<Rightarrow> CacheServerLoop option) \<Rightarrow> CacheServerLoop \<Rightarrow> CacheServerLoop option" where
  "cache_by_session iSessionId f m = (case cl_mPlayerContextBySessionId m iSessionId of None \<Rightarrow> Some m | Some p \<Rightarrow> f p m)"

definition Cache_OnCommandOnLoginReq :: "u32 \<Rightarrow> tstring \<Rightarrow> CacheServerLoop \<Rightarrow> CacheServerLoop option" where
  "Cache_OnCommandOnLoginReq iSessionId strAccountName m = do {
     (pPlayerContext, pool) \<leftarrow> ObjectPool_Allocate () (cl_PlayerContextPool m);
     let m = m\<lparr>cl_PlayerContextPool := pool\<rparr>;
     case pPlayerContext of None \<Rightarrow> Some m
     | Some p \<Rightarrow> do {
         let m = m\<lparr>cl_mPlayerContextBySessionId := hm_insert iSessionId p (cl_mPlayerContextBySessionId m)\<rparr>;
         CachePlayer_OnLoginReq p iSessionId strAccountName m
       }
   }"

definition Cache_OnCommandPacketForward :: "cenv \<Rightarrow> u32 \<Rightarrow> u16 \<Rightarrow> byte list \<Rightarrow> CacheServerLoop \<Rightarrow> CacheServerLoop option" where
  "Cache_OnCommandPacketForward E iSessionId iTypeId data m = cache_by_session iSessionId (\<lambda>p m.
     case ce_recv E iTypeId data of None \<Rightarrow> Some m | Some pk \<Rightarrow> cache_on_packet E p pk m) m"

definition Cache_OnCommand :: "cenv \<Rightarrow> cache_command \<Rightarrow> CacheServerLoop \<Rightarrow> CacheServerLoop option" where
  "Cache_OnCommand E cmd m =
     (if cl_iShutdownStatus m \<noteq> NOT_SHUTDOWN then Some m else
      case cmd of
        COMMAND_SHUTDOWN \<Rightarrow> Some (m\<lparr>cl_iShutdownStatus := START_SHUTDOWN\<rparr>)
      | COMMAND_ONLOGINREQ iSessionId strAccountName \<Rightarrow> Cache_OnCommandOnLoginReq iSessionId strAccountName m
      | COMMAND_ONLOGOUTREQ iSessionId \<Rightarrow> cache_by_session iSessionId (CachePlayer_OnLogoutReq E) m
      | COMMAND_ONREGIONENTERREQ iSessionId iServerId strAvatarName \<Rightarrow>
          cache_by_session iSessionId (\<lambda>p. CachePlayer_OnRegionEnterReq E p iServerId strAvatarName) m
      | COMMAND_PACKETFORWARD iSessionId iTypeId data \<Rightarrow> Cache_OnCommandPacketForward E iSessionId iTypeId data m)"

section \<open>The round of the loop\<close>

text \<open>\<open>_Loop\<close> pops results until there is none; one turn of this loop, which says whether there was one.\<close>

definition cache_pop_result :: "cenv \<Rightarrow> CacheServerLoop \<Rightarrow> (bool \<times> CacheServerLoop) option" where
  "cache_pop_result E m = do {
     let (p, db) = db_pop (cl_db m);
     let m = m\<lparr>cl_db := db\<rparr>;
     if p = NULL then Some (False, m) else do {
       e \<leftarrow> dp_heap (ds_pool db) p;
       m \<leftarrow> Cache_OnPlayerEventResult E (de_data e) m;
       Some (True, m)
     }
   }"

fun cache_finalize_loop :: "ptr list \<Rightarrow> CacheServerLoop \<Rightarrow> CacheServerLoop option" where
  "cache_finalize_loop [] m = Some m"
| "cache_finalize_loop (q # qs) m = do {
     m \<leftarrow> Cache_DeletePlayer (last (q # qs)) m;
     cache_finalize_loop qs (m\<lparr>cl_PlayerFinalizingQueue := qs\<rparr>)
   }"

text \<open>The rest of \<open>_Loop\<close>.\<close>

definition cache_finalize :: "CacheServerLoop \<Rightarrow> CacheServerLoop option" where
  "cache_finalize m = do {
     m \<leftarrow> cache_finalize_loop (cl_PlayerFinalizingQueue m) m;
     Some (if cl_iShutdownStatus m = START_SHUTDOWN then m\<lparr>cl_iShutdownStatus := READY_FOR_SHUTDOWN\<rparr> else m)
   }"

definition Cache_IsReadyForShutdown :: "CacheServerLoop \<Rightarrow> bool" where
  "Cache_IsReadyForShutdown m \<longleftrightarrow> cl_iShutdownStatus m = READY_FOR_SHUTDOWN"

text \<open>What the alarm clock calls.\<close>

definition Cache_ReportState :: "cenv \<Rightarrow> CacheServerLoop \<Rightarrow> CacheServerLoop" where
  "Cache_ReportState E m = (if cl_iShutdownStatus m \<noteq> NOT_SHUTDOWN then m else snd (cache_send E (CM_ReportState (ce_iServerId E)) m))"

primrec save_players :: "cenv \<Rightarrow> ptr list \<Rightarrow> CacheServerLoop \<Rightarrow> CacheServerLoop option" where
  "save_players E [] m = Some m"
| "save_players E (p # ps) m = do {
     m \<leftarrow> (if \<not> cp_bFinalizing (cl_ctx m p) \<and> cp_iNextSaveDataTime (cl_ctx m p) \<le> cl_dwCurrTime m then CachePlayer_OnSaveDataReq E p False m else Some m);
     save_players E ps m
   }"

definition Cache_SaveDataToDB :: "cenv \<Rightarrow> CacheServerLoop \<Rightarrow> CacheServerLoop option" where
  "Cache_SaveDataToDB E m =
     (if cl_iShutdownStatus m \<noteq> NOT_SHUTDOWN then Some m else save_players E (ce_order E (cl_mPlayerContextBySessionId m)) m)"

section \<open>Start-up and runs\<close>

definition CachePlayerContext_new :: "CachePlayerContext option" where
  "CachePlayerContext_new = do {
     sm \<leftarrow> cache_InitStateMachine (StateMachine_new (cst PLAYER_STATE_NONE));
     Some \<lparr>cp_iSessionId = 0, cp_iRegionServerId = 0, cp_strAccountName = [], cp_StateMachine = sm, cp_bFinalizing = False,
       cp_iNextSaveDataTime = 0, cp_iAvatarCount = 0, cp_arrayAvatar = replicate AVATARCOUNT_MAX prdAvatar_new,
       cp_AvatarContext = CacheAvatarContext_Clear\<rparr>
   }"

text \<open>The constructor and \<open>Init\<close>; \<open>Start\<close> starts the threads.\<close>

definition CacheServerLoop_Init :: "cenv \<Rightarrow> CacheServerLoop option" where
  "CacheServerLoop_Init E = do {
     c \<leftarrow> CachePlayerContext_new;
     Some \<lparr>cl_iShutdownStatus = NOT_SHUTDOWN, cl_PlayerContextPool = ObjectPool_new 5000, cl_mPlayerContextBySessionId = Map.empty,
       cl_mPlayerContextByAvatarId = Map.empty, cl_PlayerFinalizingQueue = [], cl_db = db_init (ce_iDBConnCount E), cl_dwCurrTime = 0,
       cl_Delay = (0, []), cl_iAllocated = 0, cl_ctx = (\<lambda>_. c), cl_sent = []\<rparr>
   }"

definition CacheServerLoop_Stop :: "CacheServerLoop \<Rightarrow> CacheServerLoop" where
  "CacheServerLoop_Stop m = m\<lparr>cl_db := db_stop (cl_db m)\<rparr>"

text \<open>A step of the main loop or of one of the threads.\<close>

datatype cache_action =
    CA_Command cache_command | CA_Result | CA_Finalize | CA_ReportState | CA_SaveData | CA_Time u32 | CA_Stop
  | CA_Thread nat connect_result "tstring \<Rightarrow> query"

definition cache_step :: "cenv \<Rightarrow> cache_action \<Rightarrow> CacheServerLoop \<Rightarrow> CacheServerLoop option" where
  "cache_step E a m = (case a of
     CA_Command cmd \<Rightarrow> Cache_OnCommand E cmd m
   | CA_Result \<Rightarrow> map_option snd (cache_pop_result E m)
   | CA_Finalize \<Rightarrow> cache_finalize m
   | CA_ReportState \<Rightarrow> Some (Cache_ReportState E m)
   | CA_SaveData \<Rightarrow> Cache_SaveDataToDB E m
   | CA_Time now \<Rightarrow> Some (m\<lparr>cl_dwCurrTime := now\<rparr>)
   | CA_Stop \<Rightarrow> Some (CacheServerLoop_Stop m)
   | CA_Thread i r q \<Rightarrow> do { db \<leftarrow> db_conn_step i r (FireEvent E q) (cl_db m); Some (m\<lparr>cl_db := db\<rparr>) })"

abbreviation cache_run :: "cenv \<Rightarrow> cache_action list \<Rightarrow> CacheServerLoop \<Rightarrow> CacheServerLoop option" where
  "cache_run E \<equiv> orun (cache_step E)"

section \<open>Messages from the other servers\<close>

text \<open>They become commands, unless there is no memory for one.\<close>

definition CachePeerRecv_OnLoginReq :: "bool \<Rightarrow> u32 \<Rightarrow> tstring \<Rightarrow> cache_command LogicLoop \<Rightarrow> cache_command LogicLoop option" where
  "CachePeerRecv_OnLoginReq memory iSessionId strAccountName L = (if \<not> memory then Some L else do {
     name \<leftarrow> wcscpy_s (NAME_MAX + 1) strAccountName;
     Some (LogicLoop_PushCommand (COMMAND_ONLOGINREQ iSessionId name) L)
   })"

definition CachePeerRecv_OnLogoutReq :: "bool \<Rightarrow> u32 \<Rightarrow> cache_command LogicLoop \<Rightarrow> cache_command LogicLoop" where
  "CachePeerRecv_OnLogoutReq memory iSessionId L = (if memory then LogicLoop_PushCommand (COMMAND_ONLOGOUTREQ iSessionId) L else L)"

definition CachePeerRecv_OnRegionEnterReq :: "bool \<Rightarrow> u32 \<Rightarrow> u8 \<Rightarrow> tstring \<Rightarrow> cache_command LogicLoop \<Rightarrow> cache_command LogicLoop option" where
  "CachePeerRecv_OnRegionEnterReq memory iSessionId iServerId strAvatarName L = (if \<not> memory then Some L else do {
     name \<leftarrow> wcscpy_s (NAME_MAX + 1) strAvatarName;
     Some (LogicLoop_PushCommand (COMMAND_ONREGIONENTERREQ iSessionId iServerId name) L)
   })"

definition Cache_SessionPeerRecv_PacketForward :: "bool \<Rightarrow> u32 \<Rightarrow> u16 \<Rightarrow> byte list \<Rightarrow> cache_command LogicLoop \<Rightarrow> cache_command LogicLoop" where
  "Cache_SessionPeerRecv_PacketForward memory iSessionId iTypeId data L =
     (if memory then LogicLoop_PushCommand (COMMAND_PACKETFORWARD iSessionId iTypeId data) L else L)"

end
