(* ===== verification/CacheDBInv.thy ===== *)
theory CacheDBInv
  imports CacheDB
begin

text \<open>
  The invariant of the database threads.  An event is active when it is in the processing list or held by a thread that fires it;
  \<open>pool_inv\<close> says that the map has for each active event exactly this event under its id, so that of each kind at most one is
  active.  It is stated for the set \<open>H\<close> of held events and the list \<open>W\<close> of those still to be moved from the waiting list, for use inside the loop that
  moves them.  \<open>ids\<close> are the ids of events; ids of sequences are not among them, so the search for the last sequence never finds anything.
\<close>

section \<open>Changes of the chain only\<close>

definition core :: "'d DBEvent \<Rightarrow> 'd DBEvent" where
  "core e = e\<lparr>de_pLastEvent := NULL, de_pNextEvent := NULL\<rparr>"

definition heap_like :: "(ptr \<rightharpoonup> 'd DBEvent) \<Rightarrow> (ptr \<rightharpoonup> 'd DBEvent) \<Rightarrow> bool" where
  "heap_like h h' \<longleftrightarrow> (\<forall>p. map_option core (h p) = map_option core (h' p))"

lemma heap_like_refl [simp]: "heap_like h h"
  by (simp add: heap_like_def)

lemma heap_like_trans: "heap_like h1 h2 \<Longrightarrow> heap_like h2 h3 \<Longrightarrow> heap_like h1 h3"
  by (simp add: heap_like_def)

lemma core_fields: "core e = core e' \<Longrightarrow> de_iEventId e = de_iEventId e' \<and> de_bFired e = de_bFired e' \<and> de_iSequenceId e = de_iSequenceId e' \<and>
    de_bSequence e = de_bSequence e' \<and> de_bReturnable e = de_bReturnable e' \<and> de_data e = de_data e'"
  by (cases e; cases e') (simp add: core_def)

lemma heap_like_Some:
  assumes "heap_like h h'" "h p = Some e"
  shows "\<exists>e'. h' p = Some e' \<and> core e' = core e"
proof -
  have "map_option core (h p) = map_option core (h' p)" using assms(1) by (simp add: heap_like_def)
  then show ?thesis using assms(2) by (cases "h' p") auto
qed

lemma heap_like_sym: "heap_like h h' \<Longrightarrow> heap_like h' h"
  by (simp add: heap_like_def)

lemma heap_like_dom: "heap_like h h' \<Longrightarrow> dom h' = dom h"
  using heap_like_Some heap_like_sym by blast

lemma ev_upd_chain:
  assumes "ev_upd p f P = Some P'" "\<And>e. core (f e) = core e"
  shows "heap_like (dp_heap P) (dp_heap P') \<and> P' = P\<lparr>dp_heap := dp_heap P'\<rparr>"
  using assms by (auto simp: ev_upd_def heap_like_def split: Option.bind_splits)

lemma core_links [simp]: "core (e\<lparr>de_pLastEvent := a\<rparr>) = core e" "core (e\<lparr>de_pNextEvent := b\<rparr>) = core e"
    "core (e\<lparr>de_pLastEvent := a, de_pNextEvent := b\<rparr>) = core e"
  by (simp_all add: core_def)

section \<open>The invariant of the pool\<close>

abbreviation ev_key :: "'d DBEvent \<Rightarrow> u64" where
  "ev_key e \<equiv> ucast (de_iEventId e)"

abbreviation seq_map :: "'d DBConnPool \<Rightarrow> u64 \<rightharpoonup> ptr" where
  "seq_map \<equiv> dp_mEventProcessingSequenceMap"

definition ev_live :: "'d DBConnPool \<Rightarrow> ptr \<Rightarrow> bool" where
  "ev_live P p \<longleftrightarrow> (\<exists>e. dp_heap P p = Some e \<and> de_bSequence e \<and> seq_map P (ev_key e) = Some p)"

definition pool_inv :: "u64 set \<Rightarrow> ptr set \<Rightarrow> ptr list \<Rightarrow> 'd DBConnPool \<Rightarrow> bool" where
  "pool_inv ids H W P \<longleftrightarrow>
     distinct (dp_EventProcessingList P) \<and> set (dp_EventProcessingList P) \<inter> H = {} \<and> (\<forall>p \<in> set (dp_EventProcessingList P) \<union> H. ev_live P p) \<and>
     distinct W \<and> (\<forall>p \<in> set W. p \<notin> ran (seq_map P) \<and> (\<exists>e. dp_heap P p = Some e \<and> de_bSequence e)) \<and>
     (\<forall>p \<in> set (dp_EventProcessingList P) \<union> set W. \<forall>e. dp_heap P p = Some e \<longrightarrow> \<not> de_bFired e) \<and>
     dom (seq_map P) \<subseteq> ids \<and> ran (seq_map P) \<subseteq> {..<dp_next P} \<and> dom (dp_heap P) \<subseteq> {0<..<dp_next P} \<and> 0 < dp_next P \<and>
     (\<forall>p e. dp_heap P p = Some e \<longrightarrow> ev_key e \<in> ids \<and> de_iSequenceId e \<notin> ids)"

lemma pool_invD:
  assumes "pool_inv ids H W P"
  shows "distinct (dp_EventProcessingList P)" "set (dp_EventProcessingList P) \<inter> H = {}"
    "\<And>p. p \<in> set (dp_EventProcessingList P) \<union> H \<Longrightarrow> ev_live P p" "distinct W"
    "\<And>p. p \<in> set W \<Longrightarrow> p \<notin> ran (seq_map P) \<and> (\<exists>e. dp_heap P p = Some e \<and> de_bSequence e)"
    "\<And>p e. p \<in> set (dp_EventProcessingList P) \<union> set W \<Longrightarrow> dp_heap P p = Some e \<Longrightarrow> \<not> de_bFired e"
    "dom (seq_map P) \<subseteq> ids" "ran (seq_map P) \<subseteq> {..<dp_next P}" "dom (dp_heap P) \<subseteq> {0<..<dp_next P}"
    "\<And>p e. dp_heap P p = Some e \<Longrightarrow> ev_key e \<in> ids \<and> de_iSequenceId e \<notin> ids" "0 < dp_next P"
  using assms unfolding pool_inv_def by blast+

text \<open>Changing the chain keeps it.\<close>

lemma pool_inv_chain:
  assumes I: "pool_inv ids H W P" and h: "heap_like (dp_heap P) h"
  shows "pool_inv ids H W (P\<lparr>dp_heap := h\<rparr>)"
proof -
  note D = pool_invD [OF I]
  have orig: "\<exists>e. dp_heap P p = Some e \<and> core e = core e'" if "h p = Some e'" for p e'
    using heap_like_Some [OF heap_like_sym [OF h] that] .
  have live: "ev_live (P\<lparr>dp_heap := h\<rparr>) p" if l: "ev_live P p" for p
  proof -
    obtain e where e: "dp_heap P p = Some e" "de_bSequence e" "seq_map P (ev_key e) = Some p" using l by (auto simp: ev_live_def)
    obtain e' where e': "h p = Some e'" "core e' = core e" using heap_like_Some [OF h e(1)] by blast
    show ?thesis using core_fields [OF e'(2)] e e'(1) by (simp add: ev_live_def)
  qed
  have W: "\<exists>e. h p = Some e \<and> de_bSequence e" if "p \<in> set W" for p
    using D(5) [OF that] heap_like_Some [OF h] core_fields by metis
  have F: "\<not> de_bFired e'" if "p \<in> set (dp_EventProcessingList P) \<union> set W" "h p = Some e'" for p e'
    using orig [OF that(2)] D(6) [OF that(1)] core_fields by metis
  have K: "ev_key e' \<in> ids \<and> de_iSequenceId e' \<notin> ids" if "h p = Some e'" for p e'
    using orig [OF that] D(10) core_fields by metis
  show ?thesis
    unfolding pool_inv_def
  proof (intro conjI ballI allI impI)
    show "ev_live (P\<lparr>dp_heap := h\<rparr>) p" if "p \<in> set (dp_EventProcessingList (P\<lparr>dp_heap := h\<rparr>)) \<union> H" for p
      using live [OF D(3)] that by simp
    show "\<exists>e. dp_heap (P\<lparr>dp_heap := h\<rparr>) p = Some e \<and> de_bSequence e" if "p \<in> set W" for p using W [OF that] by simp
    show "\<not> de_bFired e" if "p \<in> set (dp_EventProcessingList (P\<lparr>dp_heap := h\<rparr>)) \<union> set W" "dp_heap (P\<lparr>dp_heap := h\<rparr>) p = Some e" for p e
      using F [of p e] that by simp
    show "ev_key e \<in> ids" "de_iSequenceId e \<notin> ids" if "dp_heap (P\<lparr>dp_heap := h\<rparr>) p = Some e" for p e using K [of p e] that by simp_all
    show "dom (dp_heap (P\<lparr>dp_heap := h\<rparr>)) \<subseteq> {0<..<dp_next (P\<lparr>dp_heap := h\<rparr>)}" using heap_like_dom [OF h] D(9) by simp
  qed (use D in auto)
qed

section \<open>Moving events from the waiting list\<close>

text \<open>What the loop adds to the map and to the processing list.\<close>

definition flushed :: "'d DBConnPool \<Rightarrow> 'd DBConnPool \<Rightarrow> bool" where
  "flushed P P' \<longleftrightarrow> seq_map P \<subseteq>\<^sub>m seq_map P' \<and> (\<exists>ps. dp_EventProcessingList P' = dp_EventProcessingList P @ ps \<and> set ps \<inter> ran (seq_map P) = {}) \<and>
     dp_EventWaitingList P' = dp_EventWaitingList P \<and> dp_EventReturnList P' = dp_EventReturnList P \<and> heap_like (dp_heap P) (dp_heap P') \<and>
     dp_next P' = dp_next P"

lemma flush_event_ok:
  assumes I: "pool_inv ids H (p # ps) P" and f: "flush_event p P = Some P'"
  shows "pool_inv ids H ps P' \<and> flushed P P'"
proof -
  note D = pool_invD [OF I]
  obtain e where e: "dp_heap P p = Some e" "de_bSequence e" "p \<notin> ran (seq_map P)" using D(5) [of p] by auto
  have fewer: "pool_inv ids H ps Q" if "pool_inv ids H (p # ps) Q" for Q :: "'a DBConnPool" using that by (auto simp: pool_inv_def)
  show ?thesis
  proof (cases "seq_map P (ev_key e)")
    case (Some h)
    then obtain q P1 where q: "link_end (dp_heap P) h = Some q" "ev_upd q (\<lambda>e. e\<lparr>de_pNextEvent := p\<rparr>) P = Some P1"
        "ev_upd p (\<lambda>e. e\<lparr>de_pLastEvent := q, de_pNextEvent := NULL\<rparr>) P1 = Some P'"
      using f e by (auto simp: flush_event_def split: Option.bind_splits)
    have 1: "heap_like (dp_heap P) (dp_heap P1)" "P1 = P\<lparr>dp_heap := dp_heap P1\<rparr>" using ev_upd_chain [OF q(2)] by simp_all
    have 2: "heap_like (dp_heap P1) (dp_heap P')" "P' = P1\<lparr>dp_heap := dp_heap P'\<rparr>" using ev_upd_chain [OF q(3)] by simp_all
    have like: "heap_like (dp_heap P) (dp_heap P')" by (rule heap_like_trans [OF 1(1) 2(1)])
    have eq: "P' = P\<lparr>dp_heap := dp_heap P'\<rparr>" using 1(2) 2(2) by (metis DBConnPool.update_convs(1) DBConnPool.surjective)
    have "pool_inv ids H (p # ps) P'" by (subst eq) (rule pool_inv_chain [OF I like])
    moreover have "flushed P P'" by (subst eq) (simp add: flushed_def like)
    ultimately show ?thesis using fewer by blast
  next
    case None
    then obtain P1 where q: "ev_upd p (\<lambda>e. e\<lparr>de_pLastEvent := NULL, de_pNextEvent := NULL\<rparr>) P = Some P1"
        "P' = P1\<lparr>dp_mEventProcessingSequenceMap := (seq_map P1)(ev_key e \<mapsto> p), dp_EventProcessingList := dp_EventProcessingList P1 @ [p]\<rparr>"
      using f e by (auto simp: flush_event_def split: Option.bind_splits)
    have 1: "heap_like (dp_heap P) (dp_heap P1)" "P1 = P\<lparr>dp_heap := dp_heap P1\<rparr>" using ev_upd_chain [OF q(1)] by simp_all
    have I1: "pool_inv ids H (p # ps) P1" by (subst 1(2)) (rule pool_inv_chain [OF I 1(1)])
    note D1 = pool_invD [OF I1]
    have same: "seq_map P1 = seq_map P" "dp_EventProcessingList P1 = dp_EventProcessingList P" "dp_next P1 = dp_next P"
        "dp_EventWaitingList P1 = dp_EventWaitingList P" "dp_EventReturnList P1 = dp_EventReturnList P"
      by (subst 1(2), simp)+
    obtain e1 where e1: "dp_heap P1 p = Some e1" "core e1 = core e" using heap_like_Some [OF 1(1) e(1)] by blast
    note c = core_fields [OF e1(2)]
    have not_live: "\<not> ev_live P1 p" using e(3) by (auto simp: ev_live_def same ran_def)
    have p: "p \<notin> set (dp_EventProcessingList P1)" "p \<notin> H" "p \<notin> set ps" "p < dp_next P1"
      using D1(3,4,9) not_live e1(1) by auto
    have new: "ev_live P' p" using e1(1) c e(2) by (simp add: ev_live_def q(2))
    have old: "ev_live P' r" if "ev_live P1 r" for r
      using that None by (auto simp: ev_live_def q(2) same)
    have "pool_inv ids H ps P'"
      unfolding pool_inv_def
    proof (intro conjI ballI allI impI)
      show "ev_live P' r" if "r \<in> set (dp_EventProcessingList P') \<union> H" for r
        using that new old D1(3) by (auto simp: q(2))
      show "r \<notin> ran (seq_map P')" if "r \<in> set ps" for r
        using that D1(5) [of r] p(3) None by (auto simp: q(2) ran_def split: if_splits)
      show "\<exists>e. dp_heap P' r = Some e \<and> de_bSequence e" if "r \<in> set ps" for r using that D1(5) [of r] by (simp add: q(2))
      show "\<not> de_bFired x" if "r \<in> set (dp_EventProcessingList P') \<union> set ps" "dp_heap P' r = Some x" for r x
        using that D1(6) [of r x] by (auto simp: q(2))
      show "dom (seq_map P') \<subseteq> ids" using D1(7) D(10) [OF e(1)] by (auto simp: q(2))
      show "ran (seq_map P') \<subseteq> {..<dp_next P'}" using D1(8) p(4) by (auto simp: q(2) ran_def split: if_splits)
      show "distinct (dp_EventProcessingList P')" "set (dp_EventProcessingList P') \<inter> H = {}" "distinct ps"
        using D1(1,2,4) p by (simp_all add: q(2))
      show "dom (dp_heap P') \<subseteq> {0<..<dp_next P'}" "0 < dp_next P'" using D1(9,11) by (simp_all add: q(2))
      show "ev_key x \<in> ids" "de_iSequenceId x \<notin> ids" if "dp_heap P' r = Some x" for r x using D1(10) [of r x] that by (simp_all add: q(2))
    qed
    moreover have "flushed P P'"
      using None 1(1) e(3) by (auto simp: flushed_def q(2) same map_le_def)
    ultimately show ?thesis by blast
  qed
qed

lemma flushed_refl [simp]: "flushed P P"
  by (simp add: flushed_def)

lemma flushed_trans:
  assumes "flushed P P1" "flushed P1 P2"
  shows "flushed P P2"
proof -
  obtain ps ps' where ps: "dp_EventProcessingList P1 = dp_EventProcessingList P @ ps" "set ps \<inter> ran (seq_map P) = {}"
      "dp_EventProcessingList P2 = dp_EventProcessingList P1 @ ps'" "set ps' \<inter> ran (seq_map P1) = {}"
    using assms by (auto simp: flushed_def)
  have m: "seq_map P \<subseteq>\<^sub>m seq_map P1" "seq_map P1 \<subseteq>\<^sub>m seq_map P2" using assms by (simp_all add: flushed_def)
  then have "ran (seq_map P) \<subseteq> ran (seq_map P1)" by (force simp: map_le_def ran_def dom_def)
  then have "set (ps @ ps') \<inter> ran (seq_map P) = {}" using ps by auto
  moreover have "dp_EventProcessingList P2 = dp_EventProcessingList P @ (ps @ ps')" using ps by simp
  ultimately show ?thesis
    using assms map_le_trans [OF m] heap_like_trans [of "dp_heap P" "dp_heap P1" "dp_heap P2"] unfolding flushed_def by auto
qed

lemma flush_events_ok: "pool_inv ids H ps P \<Longrightarrow> flush_events ps P = Some P' \<Longrightarrow> pool_inv ids H [] P' \<and> flushed P P'"
proof (induction ps arbitrary: P)
  case (Cons p ps)
  then obtain P1 where 1: "flush_event p P = Some P1" "flush_events ps P1 = Some P'" by (auto split: Option.bind_splits)
  have 2: "pool_inv ids H ps P1" "flushed P P1" using flush_event_ok [OF Cons.prems(1) 1(1)] by simp_all
  then show ?case using Cons.IH [OF 2(1) 1(2)] flushed_trans [OF 2(2)] by blast
qed simp

lemma flushed_waiting: "flushed P P' \<Longrightarrow> pool_inv ids H [] P' \<Longrightarrow> flushed P (P'\<lparr>dp_EventWaitingList := dp_EventWaitingList P\<rparr>)"
  by (simp add: flushed_def)

lemma Flush_ok:
  assumes I: "pool_inv ids H (dp_EventWaitingList P) P" and f: "FlushEventWaitingList P = Some (b, P')"
  shows "pool_inv ids H (dp_EventWaitingList P') P' \<and> flushed P (P'\<lparr>dp_EventWaitingList := dp_EventWaitingList P\<rparr>) \<and>
    set (dp_EventWaitingList P') \<subseteq> set (dp_EventWaitingList P) \<and> set (dp_EventProcessingList P') \<subseteq> set (dp_EventProcessingList P) \<union> set (dp_EventWaitingList P)"
proof (cases "dp_EventWaitingList P = []")
  case True
  have "P\<lparr>dp_EventWaitingList := []\<rparr> = P" using True by (metis DBConnPool.surjective DBConnPool.update_convs(3))
  then have "flushed P (P\<lparr>dp_EventWaitingList := []\<rparr>)" by simp
  then show ?thesis using True f I by (auto simp: FlushEventWaitingList_def)
next
  case False
  then obtain P1 where 1: "flush_events (dp_EventWaitingList P) P = Some P1" "P' = P1\<lparr>dp_EventWaitingList := []\<rparr>"
    using f by (auto simp: FlushEventWaitingList_def split: Option.bind_splits)
  have 2: "pool_inv ids H [] P1" "flushed P P1" using flush_events_ok [OF I 1(1)] by simp_all
  have sub: "set (dp_EventProcessingList P1) \<subseteq> set (dp_EventProcessingList P) \<union> set W" if "flush_events W P = Some P1" for W P and P1 :: "'a DBConnPool"
    using that
  proof (induction W arbitrary: P)
    case (Cons p W)
    then obtain P2 where P2: "flush_event p P = Some P2" "flush_events W P2 = Some P1" by (auto split: Option.bind_splits)
    have "set (dp_EventProcessingList P2) \<subseteq> insert p (set (dp_EventProcessingList P))"
      using P2(1) by (auto simp: flush_event_def ev_upd_def split: Option.bind_splits option.splits if_splits)
    then show ?case using Cons.IH [OF P2(2)] by auto
  qed simp
  have "P1\<lparr>dp_EventWaitingList := [], dp_EventWaitingList := dp_EventWaitingList P\<rparr> = P1"
    using 2(2) by (simp add: flushed_def)
  then show ?thesis using 1(2) 2 sub [OF 1(1)] by (auto simp: pool_inv_def ev_live_def)
qed

section \<open>The other operations on the pool\<close>

lemma pool_inv_less: "pool_inv ids H W P \<Longrightarrow> H' \<subseteq> H \<Longrightarrow> pool_inv ids H' W P"
  unfolding pool_inv_def by blast

lemma pool_inv_return: "pool_inv ids H W (P\<lparr>dp_EventReturnList := r\<rparr>) = pool_inv ids H W P"
  by (simp add: pool_inv_def ev_live_def)

text \<open>The first event of the processing list is taken by a thread.\<close>

lemma pop_processing_ok:
  assumes I: "pool_inv ids H W P" and p: "pop_processing P = (p, P')"
  shows "if p = NULL then P' = P else p \<in> set (dp_EventProcessingList P) \<and> p \<notin> H \<and> pool_inv ids (insert p H) W P' \<and>
    dp_EventProcessingList P = p # dp_EventProcessingList P' \<and> P' = P\<lparr>dp_EventProcessingList := dp_EventProcessingList P'\<rparr>"
proof (cases "dp_EventProcessingList P")
  case Nil
  have "P\<lparr>dp_EventProcessingList := []\<rparr> = P" using Nil by (metis DBConnPool.surjective DBConnPool.update_convs(4))
  then show ?thesis using p Nil by (auto simp: pop_processing_def pop_list_def)
next
  case (Cons q ps)
  have "ev_live P q" using pool_invD(3) [OF I] Cons by simp
  then have "q \<noteq> NULL" using pool_invD(9) [OF I] by (auto simp: ev_live_def)
  moreover have "P' = P\<lparr>dp_EventProcessingList := ps\<rparr>" "p = q" using p Cons by (simp_all add: pop_processing_def pop_list_def)
  ultimately show ?thesis using Cons I by (auto simp: pool_inv_def ev_live_def)
qed

lemma held_not_waiting: "pool_inv ids H W P \<Longrightarrow> p \<in> set (dp_EventProcessingList P) \<union> H \<Longrightarrow> p \<notin> set W"
  using pool_invD(3,5) [of ids H W P p] by (auto simp: ev_live_def ran_def)

text \<open>A held event is fired.\<close>

lemma pool_inv_fire:
  assumes I: "pool_inv ids H W P" and p: "p \<in> H" and u: "ev_upd p (\<lambda>e. e\<lparr>de_data := d, de_bFired := True\<rparr>) P = Some P'"
  shows "pool_inv ids H W P'"
proof -
  note D = pool_invD [OF I]
  obtain e where e: "dp_heap P p = Some e" "P' = P\<lparr>dp_heap := (dp_heap P)(p \<mapsto> e\<lparr>de_data := d, de_bFired := True\<rparr>)\<rparr>"
    using u by (auto simp: ev_upd_def split: Option.bind_splits)
  have np: "p \<notin> set (dp_EventProcessingList P)" "p \<notin> set W" using D(2) p held_not_waiting [OF I] by auto
  have live: "ev_live P' r" if "ev_live P r" for r using that e(1) by (auto simp: ev_live_def e(2))
  show ?thesis
    unfolding pool_inv_def
  proof (intro conjI ballI allI impI)
    show "ev_live P' r" if "r \<in> set (dp_EventProcessingList P') \<union> H" for r using live [OF D(3)] that by (simp add: e(2))
    show "\<exists>x. dp_heap P' r = Some x \<and> de_bSequence x" if "r \<in> set W" for r using D(5) [OF that] e(1) by (auto simp: e(2))
    show "\<not> de_bFired x" if "r \<in> set (dp_EventProcessingList P') \<union> set W" "dp_heap P' r = Some x" for r x
      using D(6) [of r x] that np by (auto simp: e(2) split: if_splits)
    show "ev_key x \<in> ids" "de_iSequenceId x \<notin> ids" if "dp_heap P' r = Some x" for r x
      using D(10) [of r] that e(1) by (auto simp: e(2) split: if_splits)
    show "dom (dp_heap P') \<subseteq> {0<..<dp_next P'}" using D(9) e(1) by (auto simp: e(2))
  qed (use D in \<open>simp_all add: e(2)\<close>)
qed

text \<open>\<open>PostFireEvent\<close>: with a successor in the chain the map still has the event that is done.\<close>

lemma PostFire_ok:
  assumes I: "pool_inv ids H W P" and p: "p \<in> H" and f: "PostFireEvent p P = Some (b, P')"
  shows "b \<and> pool_inv ids (H - {p}) W P' \<and> heap_like (dp_heap P) (dp_heap P') \<and> dp_EventProcessingList P' = dp_EventProcessingList P \<and>
    dp_next P' = dp_next P \<and> dp_EventWaitingList P' = dp_EventWaitingList P \<and> dp_EventReturnList P' = dp_EventReturnList P \<and>
    (\<exists>e. dp_heap P p = Some e \<and> seq_map P' = (if de_pNextEvent e = NULL then (seq_map P)(ev_key e := None) else seq_map P))"
proof -
  note D = pool_invD [OF I]
  obtain e where e: "dp_heap P p = Some e" "de_bSequence e" "seq_map P (ev_key e) = Some p" using D(3) p by (auto simp: ev_live_def)
  show ?thesis
  proof (cases "de_pNextEvent e = NULL")
    case False
    then obtain P1 where 1: "ev_upd (de_pNextEvent e) (\<lambda>x. x\<lparr>de_pLastEvent := NULL\<rparr>) P = Some P1"
        "ev_upd p (\<lambda>x. x\<lparr>de_pLastEvent := NULL, de_pNextEvent := NULL\<rparr>) (P1\<lparr>dp_mEventProcessingSequenceMap :=
           hm_insert (ev_key e) (de_pNextEvent e) (seq_map P1)\<rparr>) = Some P'" and b: b
      using f e by (auto simp: PostFireEvent_def Let_def split: Option.bind_splits)
    have P1: "heap_like (dp_heap P) (dp_heap P1)" "P1 = P\<lparr>dp_heap := dp_heap P1\<rparr>" using ev_upd_chain [OF 1(1)] by simp_all
    have m: "seq_map P1 = seq_map P" by (subst P1(2)) simp
    then have "hm_insert (ev_key e) (de_pNextEvent e) (seq_map P1) = seq_map P1" using e(3) by (simp add: hm_insert_def)
    then have "P1\<lparr>dp_mEventProcessingSequenceMap := hm_insert (ev_key e) (de_pNextEvent e) (seq_map P1)\<rparr> = P1" by simp
    then have P': "heap_like (dp_heap P1) (dp_heap P')" "P' = P1\<lparr>dp_heap := dp_heap P'\<rparr>" using ev_upd_chain [OF 1(2)] by simp_all
    have like: "heap_like (dp_heap P) (dp_heap P')" by (rule heap_like_trans [OF P1(1) P'(1)])
    have eq: "P' = P\<lparr>dp_heap := dp_heap P'\<rparr>" using P1(2) P'(2) by (metis DBConnPool.update_convs(1) DBConnPool.surjective)
    have "pool_inv ids H W P'" by (subst eq) (rule pool_inv_chain [OF I like])
    then have "pool_inv ids (H - {p}) W P'" by (rule pool_inv_less) blast
    moreover have "seq_map P' = seq_map P" "dp_EventProcessingList P' = dp_EventProcessingList P" "dp_next P' = dp_next P"
        "dp_EventWaitingList P' = dp_EventWaitingList P" "dp_EventReturnList P' = dp_EventReturnList P" by (subst eq, simp)+
    ultimately show ?thesis using b like e(1) False by simp
  next
    case True
    let ?P1 = "P\<lparr>dp_mEventProcessingSequenceMap := (seq_map P)(ev_key e := None)\<rparr>"
    have 1: "ev_upd p (\<lambda>x. x\<lparr>de_pLastEvent := NULL, de_pNextEvent := NULL\<rparr>) ?P1 = Some P'" and b: b
      using f e True by (auto simp: PostFireEvent_def Let_def split: Option.bind_splits)
    have P': "heap_like (dp_heap ?P1) (dp_heap P')" "P' = ?P1\<lparr>dp_heap := dp_heap P'\<rparr>" using ev_upd_chain [OF 1] by simp_all
    have "pool_inv ids (H - {p}) W ?P1"
      unfolding pool_inv_def
    proof (intro conjI ballI allI impI)
      show "ev_live ?P1 r" if r: "r \<in> set (dp_EventProcessingList ?P1) \<union> (H - {p})" for r
      proof -
        obtain x where x: "dp_heap P r = Some x" "de_bSequence x" "seq_map P (ev_key x) = Some r" using D(3) r by (auto simp: ev_live_def)
        have "r \<noteq> p" using r D(2) p by auto
        then have "ev_key x \<noteq> ev_key e" using x(3) e(3) by auto
        then show ?thesis using x by (simp add: ev_live_def)
      qed
      show "r \<notin> ran (seq_map ?P1)" if "r \<in> set W" for r using D(5) [OF that] by (auto simp: ran_def split: if_splits)
      show "dom (seq_map ?P1) \<subseteq> ids" "ran (seq_map ?P1) \<subseteq> {..<dp_next ?P1}" using D(7,8) by (auto simp: ran_def split: if_splits)
    qed (use D in auto)
    then have "pool_inv ids (H - {p}) W P'" by (subst P'(2)) (rule pool_inv_chain [OF _ P'(1)])
    moreover have "seq_map P' = (seq_map P)(ev_key e := None)" "dp_EventProcessingList P' = dp_EventProcessingList P" "dp_next P' = dp_next P"
        "dp_EventWaitingList P' = dp_EventWaitingList P" "dp_EventReturnList P' = dp_EventReturnList P" by (subst P'(2), simp)+
    ultimately show ?thesis using b P'(1) e(1) True by simp
  qed
qed

text \<open>An event that nobody holds is freed.\<close>

lemma pool_inv_free:
  assumes I: "pool_inv ids H W P" and p: "p \<notin> set (dp_EventProcessingList P) \<union> H \<union> set W"
  shows "pool_inv ids H W (P\<lparr>dp_heap := (dp_heap P)(p := None)\<rparr>)"
proof -
  note D = pool_invD [OF I]
  let ?P = "P\<lparr>dp_heap := (dp_heap P)(p := None)\<rparr>"
  show ?thesis
    unfolding pool_inv_def
  proof (intro conjI ballI allI impI)
    show "ev_live ?P r" if "r \<in> set (dp_EventProcessingList ?P) \<union> H" for r using D(3) [of r] that p by (auto simp: ev_live_def)
    show "\<exists>x. dp_heap ?P r = Some x \<and> de_bSequence x" if "r \<in> set W" for r using D(5) [OF that] that p by auto
    show "\<not> de_bFired x" if "r \<in> set (dp_EventProcessingList ?P) \<union> set W" "dp_heap ?P r = Some x" for r x
      using D(6) [of r x] that by (auto split: if_splits)
    show "ev_key x \<in> ids" "de_iSequenceId x \<notin> ids" if "dp_heap ?P r = Some x" for r x using D(10) [of r x] that by (auto split: if_splits)
    show "dom (dp_heap ?P) \<subseteq> {0<..<dp_next ?P}" using D(9) by auto
  qed (use D in auto)
qed

section \<open>One step of a thread\<close>

definition fires :: "DBConn \<Rightarrow> ptr set" where
  "fires c = (case dc_pc c of AtFire p \<Rightarrow> {p} | AtPost p \<Rightarrow> {p} | _ \<Rightarrow> {})"

definition returns :: "DBConn \<Rightarrow> ptr set" where
  "returns c = (case dc_pc c of AtReturn p \<Rightarrow> {p} | _ \<Rightarrow> {})"

text \<open>A kind of events is stuck when the map has an event for it that is not active.\<close>

definition stuck :: "u64 \<Rightarrow> ptr set \<Rightarrow> 'd DBConnPool \<Rightarrow> bool" where
  "stuck k H P \<longleftrightarrow> (\<exists>h. seq_map P k = Some h \<and> h \<notin> set (dp_EventProcessingList P) \<union> H)"

text \<open>What a thread must find for its step: the others hold \<open>K\<close> and are about to return \<open>S\<close>.\<close>

definition thread_ok :: "u64 set \<Rightarrow> ptr set \<Rightarrow> ptr set \<Rightarrow> DBConn \<Rightarrow> 'd DBConnPool \<Rightarrow> bool" where
  "thread_ok ids K S c P \<longleftrightarrow> pool_inv ids (fires c \<union> K) (dp_EventWaitingList P) P \<and> fires c \<inter> K = {} \<and>
     (returns c \<union> S) \<inter> (set (dp_EventProcessingList P) \<union> set (dp_EventWaitingList P) \<union> fires c \<union> K) = {} \<and> returns c \<union> S \<subseteq> {..<dp_next P} \<and>
     dc_iLastEventSequenceId c \<notin> ids \<and> (\<forall>p e. dc_pc c = AtFire p \<longrightarrow> dp_heap P p = Some e \<longrightarrow> \<not> de_bFired e)"

text \<open>What its step leaves to the others.\<close>

definition leaves :: "ptr set \<Rightarrow> ptr set \<Rightarrow> 'd DBConnPool \<Rightarrow> ptr set \<Rightarrow> 'd DBConnPool \<Rightarrow> bool" where
  "leaves K H P H' P' \<longleftrightarrow> (\<forall>q \<in> K. map_option core (dp_heap P' q) = map_option core (dp_heap P q)) \<and> (\<forall>k. stuck k H P \<longrightarrow> stuck k H' P')"

lemma leaves_like: "heap_like (dp_heap P) (dp_heap P') \<Longrightarrow> (\<And>k. stuck k H P \<Longrightarrow> stuck k H' P') \<Longrightarrow> leaves K H P H' P'"
  by (simp add: leaves_def heap_like_def)

lemma stuck_flushed:
  assumes "flushed P P'" "stuck k H P"
  shows "stuck k H P'"
proof -
  obtain h where h: "seq_map P k = Some h" "h \<notin> set (dp_EventProcessingList P) \<union> H" using assms(2) by (auto simp: stuck_def)
  obtain ps where "dp_EventProcessingList P' = dp_EventProcessingList P @ ps" "set ps \<inter> ran (seq_map P) = {}"
      and m: "seq_map P \<subseteq>\<^sub>m seq_map P'" using assms(1) by (auto simp: flushed_def)
  moreover have "h \<in> ran (seq_map P)" using h(1) by (rule ranI)
  moreover have "seq_map P' k = Some h" using m h(1) by (auto simp: map_le_def dom_def)
  ultimately show ?thesis using h by (auto simp: stuck_def)
qed

lemma take_event_ok:
  assumes I: "thread_ok ids K S c P" and c: "fires c = {}" "returns c = {}" and p: "pop_processing P = (p, P1)" and t: "take_event p c P1 = Some (c', P')"
  shows "thread_ok ids K S c' P' \<and> leaves K K P (fires c' \<union> K) P'"
proof -
  have J: "pool_inv ids K (dp_EventWaitingList P) P" using I c by (simp add: thread_ok_def)
  note O = pop_processing_ok [OF J p]
  show ?thesis
  proof (cases "p = NULL")
    case True
    then have "c' = c\<lparr>dc_pc := AtLoop\<rparr>" "P' = P" using O t by (simp_all add: take_event_def)
    then show ?thesis using I c by (simp add: thread_ok_def fires_def returns_def leaves_def)
  next
    case False
    have o: "p \<in> set (dp_EventProcessingList P)" "p \<notin> K" "pool_inv ids (insert p K) (dp_EventWaitingList P) P1"
        "dp_EventProcessingList P = p # dp_EventProcessingList P1" "P1 = P\<lparr>dp_EventProcessingList := dp_EventProcessingList P1\<rparr>"
      using O False by simp_all
    have same: "dp_heap P1 = dp_heap P" "seq_map P1 = seq_map P" "dp_EventWaitingList P1 = dp_EventWaitingList P" "dp_next P1 = dp_next P"
      by (subst o(5), simp)+
    obtain e where e: "dp_heap P p = Some e" "c' = c\<lparr>dc_iLastEventSequenceId := de_iSequenceId e, dc_pc := AtFire p\<rparr>" "P' = P1"
      using t False same by (auto simp: take_event_def split: Option.bind_splits)
    have "de_iSequenceId e \<notin> ids" "\<not> de_bFired e" using pool_invD(10) [OF J e(1)] pool_invD(6) [OF J _ e(1)] o(1) by auto
    then have "thread_ok ids K S c' P'"
      using I c o same e(1) unfolding thread_ok_def by (auto simp: e(2,3) fires_def returns_def)
    moreover have "leaves K K P (fires c' \<union> K) P'"
      using o(4) by (auto simp: leaves_def e(2,3) same stuck_def fires_def)
    ultimately show ?thesis by blast
  qed
qed

lemma conn_step_ok:
  assumes I: "thread_ok ids K S c P" and 0: "0 \<notin> ids" and s: "conn_step r fire c P = Some (c', P')"
  shows "thread_ok ids K S c' P' \<and> leaves K (fires c \<union> K) P (fires c' \<union> K) P'"
proof (cases "dc_pc c")
  case AtEnd
  then show ?thesis using s I by (simp add: conn_step_def leaves_def)
next
  case AtWait
  then obtain p P1 where 1: "pop_processing P = (p, P1)" "take_event p c P1 = Some (c', P')" using s by (auto simp: conn_step_def split: prod.splits)
  have c: "fires c = {}" "returns c = {}" using AtWait by (simp_all add: fires_def returns_def)
  show ?thesis using take_event_ok [OF I c 1] c by simp
next
  case (AtFire p)
  then obtain e d iRet where e: "dp_heap P p = Some e" "fire (de_data e) = Some (iRet, d)"
      "ev_upd p (\<lambda>e. e\<lparr>de_data := d, de_bFired := True\<rparr>) P = Some P'"
      "c' = c\<lparr>dc_pMySQL := (if iRet < 0 then MySQL_NULL else dc_pMySQL c), dc_pc := AtPost p\<rparr>"
    using s by (auto simp: conn_step_def split: Option.bind_splits prod.splits)
  have f: "fires c = {p}" "fires c' = {p}" "returns c = {}" "returns c' = {}" using AtFire e(4) by (simp_all add: fires_def returns_def)
  have P': "P' = P\<lparr>dp_heap := (dp_heap P)(p \<mapsto> e\<lparr>de_data := d, de_bFired := True\<rparr>)\<rparr>" using e(1,3) by (simp add: ev_upd_def)
  have "pool_inv ids ({p} \<union> K) (dp_EventWaitingList P) P'" using I f pool_inv_fire [OF _ _ e(3)] by (simp add: thread_ok_def)
  then have "thread_ok ids K S c' P'" using I f by (auto simp: thread_ok_def e(4) P')
  moreover have "p \<notin> K" using I f by (auto simp: thread_ok_def)
  then have "leaves K (fires c \<union> K) P (fires c' \<union> K) P'" using f by (auto simp: leaves_def P' stuck_def)
  ultimately show ?thesis by blast
next
  case (AtPost p)
  have f: "fires c = {p}" "returns c = {}" using AtPost by (simp_all add: fires_def returns_def)
  obtain b where b: "PostFireEvent p P = Some (b, P')" "c' = (if b then c\<lparr>dc_pc := AtReturn p\<rparr> else c\<lparr>dc_iLastEventSequenceId := 0, dc_pc := AtLoop\<rparr>)"
    using AtPost s by (auto simp: conn_step_def split: Option.bind_splits)
  have J: "pool_inv ids (insert p K) (dp_EventWaitingList P) P" "p \<notin> K" using I f by (auto simp: thread_ok_def)
  note F = PostFire_ok [OF J(1) insertI1 b(1)]
  obtain e where e: "dp_heap P p = Some e" "seq_map P' = (if de_pNextEvent e = NULL then (seq_map P)(ev_key e := None) else seq_map P)" using F by blast
  have f': "fires c' = {}" "returns c' = {p}" using F b(2) by (simp_all add: fires_def returns_def)
  have K: "insert p K - {p} = K" using J(2) by blast
  have live: "ev_live P p" by (rule pool_invD(3) [OF J(1)]) simp
  have np: "p \<notin> set (dp_EventProcessingList P)" "p \<notin> set (dp_EventWaitingList P)" "p < dp_next P"
    using pool_invD(2,9) [OF J(1)] held_not_waiting [OF J(1), of p] e(1) by auto
  have JK: "pool_inv ids K (dp_EventWaitingList P) P'" using F unfolding K by blast
  have "thread_ok ids K S c' P'" using I f f' F np J(2) JK by (auto simp: thread_ok_def b(2))
  moreover have "leaves K (fires c \<union> K) P (fires c' \<union> K) P'"
  proof (rule leaves_like)
    fix k assume "stuck k (fires c \<union> K) P"
    then obtain h where h: "seq_map P k = Some h" "h \<notin> set (dp_EventProcessingList P) \<union> {p} \<union> K" using f by (auto simp: stuck_def)
    then have "k \<noteq> ev_key e" using live e(1) by (auto simp: ev_live_def)
    then show "stuck k (fires c' \<union> K) P'" using h f' F e(2) by (auto simp: stuck_def)
  qed (use F in simp)
  ultimately show ?thesis by blast
next
  case (AtReturn p)
  have f: "fires c = {}" "returns c = {p}" using AtReturn by (simp_all add: fires_def returns_def)
  have c': "c' = c\<lparr>dc_pc := AtLoop\<rparr>" "return_event p P = Some P'" using AtReturn s by (auto simp: conn_step_def split: Option.bind_splits)
  then have f': "fires c' = {}" "returns c' = {}" by (simp_all add: fires_def returns_def)
  have np: "p \<notin> set (dp_EventProcessingList P) \<union> K \<union> set (dp_EventWaitingList P)" and J: "pool_inv ids K (dp_EventWaitingList P) P"
    using I f by (auto simp: thread_ok_def)
  obtain e where e: "dp_heap P p = Some e" "P' = (if de_bReturnable e then P\<lparr>dp_EventReturnList := dp_EventReturnList P @ [p]\<rparr>
      else P\<lparr>dp_heap := (dp_heap P)(p := None)\<rparr>)"
    using c'(2) by (auto simp: return_event_def FreeEvent_def split: Option.bind_splits if_splits)
  have "pool_inv ids K (dp_EventWaitingList P) P'" using J np pool_inv_free [OF J np] by (simp add: e(2) pool_inv_return)
  then have "thread_ok ids K S c' P'" using I f f' by (auto simp: thread_ok_def c'(1) e(2))
  moreover have "leaves K (fires c \<union> K) P (fires c' \<union> K) P'" using f f' np by (auto simp: leaves_def e(2) stuck_def)
  ultimately show ?thesis by blast
next
  case AtLoop
  have f: "fires c = {}" "returns c = {}" using AtLoop by (simp_all add: fires_def returns_def)
  have upd: "thread_ok ids K S (c\<lparr>dc_pMySQL := h\<rparr>) P" "fires (c\<lparr>dc_pMySQL := h\<rparr>) = {}" "returns (c\<lparr>dc_pMySQL := h\<rparr>) = {}" for h
    using I f by (simp_all add: thread_ok_def fires_def returns_def AtLoop)
  have same: "thread_ok ids K S c P \<and> leaves K (fires c \<union> K) P (fires c \<union> K) P" using I by (simp add: leaves_def)
  show ?thesis
  proof (cases "dc_bQuit c")
    case True
    then show ?thesis using s I f AtLoop by (auto simp: conn_step_def thread_ok_def fires_def returns_def leaves_def)
  next
    case False
    obtain ok h where h: "(if dc_pMySQL c = MySQL_NULL then InitConnector r else Some (True, dc_pMySQL c)) = Some (ok, h)"
      using s AtLoop False by (auto simp: conn_step_def split: Option.bind_splits)
    let ?c = "c\<lparr>dc_pMySQL := h\<rparr>"
    show ?thesis
    proof (cases ok)
      case nok: False
      then have "c' = ?c" "P' = P" using s AtLoop False h by (auto simp: conn_step_def)
      then show ?thesis using upd f by (simp add: leaves_def)
    next
      case True
      have m: "seq_map P (dc_iLastEventSequenceId c) = None" using I pool_invD(7) by (force simp: thread_ok_def)
      have s': "PopFromDBEventProcessingList (dc_iLastEventSequenceId c) P \<bind>
          (\<lambda>(pEvent, P). case pEvent of None \<Rightarrow> Some (?c\<lparr>dc_pc := AtWait\<rparr>, P) | Some p \<Rightarrow> take_event p ?c P) = Some (c', P')"
        using s AtLoop False h True by (auto simp: conn_step_def Let_def)
      show ?thesis
      proof (cases "dp_EventProcessingList P = []")
        case ne: False
        obtain p P1 where "pop_processing P = (p, P1)" "take_event p ?c P1 = Some (c', P')"
          using s' m ne by (auto simp: PopFromDBEventProcessingList_def split: prod.splits if_splits)
        from take_event_ok [OF upd this] f show ?thesis by simp
      next
        case e: True
        obtain b P0 where b: "FlushEventWaitingList P = Some (b, P0)"
          using s' m e by (auto simp: PopFromDBEventProcessingList_def split: Option.bind_splits if_splits)
        have J: "pool_inv ids K (dp_EventWaitingList P) P" using I f by (simp add: thread_ok_def)
        note F = Flush_ok [OF J b]
        have like: "heap_like (dp_heap P) (dp_heap P0)" "dp_next P0 = dp_next P" using F by (simp_all add: flushed_def)
        have stuck: "stuck k K P \<Longrightarrow> stuck k K P0" for k
          using F stuck_flushed [of P "P0\<lparr>dp_EventWaitingList := dp_EventWaitingList P\<rparr>" k K] by (simp add: stuck_def)
        have ok0: "thread_ok ids K S ?c P0"
          using I f F like(2) by (auto simp: thread_ok_def upd(2,3) AtLoop)
        show ?thesis
        proof (cases b)
          case True
          then obtain p P1 where "pop_processing P0 = (p, P1)" "take_event p ?c P1 = Some (c', P')"
            using s' m e b by (auto simp: PopFromDBEventProcessingList_def split: prod.splits if_splits)
          from take_event_ok [OF ok0 upd(2,3) this] f like(1) stuck show ?thesis by (auto simp: leaves_def heap_like_def)
        next
          case nb: False
          then have "c' = ?c\<lparr>dc_pc := AtWait\<rparr>" "P' = P0" using s' m e b by (auto simp: PopFromDBEventProcessingList_def split: if_splits)
          then show ?thesis using ok0 like(1) stuck f by (auto simp: thread_ok_def fires_def returns_def leaves_def heap_like_def AtLoop)
        qed
      qed
    qed
  qed
qed

section \<open>The threads together\<close>

definition others :: "nat \<Rightarrow> (DBConn \<Rightarrow> ptr set) \<Rightarrow> DBConn list \<Rightarrow> ptr set" where
  "others i f cs = (\<Union>j \<in> {..<length cs} - {i}. f (cs ! j))"

definition db_inv :: "u64 set \<Rightarrow> 'd dbsys \<Rightarrow> bool" where
  "db_inv ids s \<longleftrightarrow> pool_inv ids (\<Union> (fires ` set (ds_conns s))) (dp_EventWaitingList (ds_pool s)) (ds_pool s) \<and>
     (\<forall>i < length (ds_conns s). thread_ok ids (others i fires (ds_conns s)) (others i returns (ds_conns s)) (ds_conns s ! i) (ds_pool s))"

lemma union_others:
  assumes "i < length cs"
  shows "\<Union> (f ` set cs) = f (cs ! i) \<union> others i f cs"
proof (intro set_eqI iffI)
  fix x assume "x \<in> \<Union> (f ` set cs)"
  then obtain j where "j < length cs" "x \<in> f (cs ! j)" by (auto simp: in_set_conv_nth)
  then show "x \<in> f (cs ! i) \<union> others i f cs" by (cases "j = i") (auto simp: others_def)
next
  fix x assume "x \<in> f (cs ! i) \<union> others i f cs"
  then obtain j where "j < length cs" "x \<in> f (cs ! j)" using assms by (auto simp: others_def)
  then show "x \<in> \<Union> (f ` set cs)" using nth_mem by blast
qed

lemma others_update:
  "i < length cs \<Longrightarrow> others i f (cs[i := c]) = others i f cs"
  by (auto simp: others_def)

lemma others_other: "i < length cs \<Longrightarrow> j < length cs \<Longrightarrow> j \<noteq> i \<Longrightarrow> f (cs ! j) \<subseteq> others i f cs"
  by (auto simp: others_def)

lemma others_swap: "i < length cs \<Longrightarrow> j < length cs \<Longrightarrow> j \<noteq> i \<Longrightarrow> f (cs ! j) \<union> others j f cs = f (cs ! i) \<union> others i f cs"
  by (simp add: union_others [symmetric])

lemma core_fired: "map_option core x = map_option core y \<Longrightarrow> (\<forall>e. x = Some e \<longrightarrow> \<not> de_bFired e) = (\<forall>e. y = Some e \<longrightarrow> \<not> de_bFired e)"
  by (cases x; cases y) (auto dest!: core_fields)

text \<open>A step of thread \<open>i\<close> keeps the invariant.\<close>

lemma db_conn_step_ok:
  assumes I: "db_inv ids s" and 0: "0 \<notin> ids" and st: "db_conn_step i r fire s = Some s'"
  shows "db_inv ids s' \<and> (\<forall>k. stuck k (\<Union> (fires ` set (ds_conns s))) (ds_pool s) \<longrightarrow> stuck k (\<Union> (fires ` set (ds_conns s'))) (ds_pool s'))"
proof -
  let ?cs = "ds_conns s" and ?K = "others i fires (ds_conns s)" and ?S = "others i returns (ds_conns s)"
  have i: "i < length ?cs" using st by (auto simp: db_conn_step_def split: if_splits)
  obtain c P where c: "conn_step r fire (?cs ! i) (ds_pool s) = Some (c, P)" "s' = s\<lparr>ds_pool := P, ds_conns := ?cs[i := c]\<rparr>"
    using st i by (auto simp: db_conn_step_def split: Option.bind_splits)
  have ok: "thread_ok ids ?K ?S (?cs ! i) (ds_pool s)" using I i by (simp add: db_inv_def)
  have N: "thread_ok ids ?K ?S c P" "leaves ?K (fires (?cs ! i) \<union> ?K) (ds_pool s) (fires c \<union> ?K) P"
    using conn_step_ok [OF ok 0 c(1)] by simp_all
  have U: "\<Union> (fires ` set (ds_conns s')) = fires c \<union> ?K" "\<Union> (returns ` set (ds_conns s')) = returns c \<union> ?S"
    using i union_others [of i "?cs[i := c]"] by (simp_all add: c(2) others_update)
  have "thread_ok ids (others j fires (ds_conns s')) (others j returns (ds_conns s')) (ds_conns s' ! j) (ds_pool s')" if j: "j < length (ds_conns s')" for j
  proof (cases "j = i")
    case True
    then show ?thesis using N(1) i by (simp add: c(2) others_update)
  next
    case False
    have jl: "j < length ?cs" using j by (simp add: c(2))
    have old: "thread_ok ids (others j fires ?cs) (others j returns ?cs) (?cs ! j) (ds_pool s)" using I jl by (simp add: db_inv_def)
    have e: "fires (?cs ! j) \<union> others j fires (ds_conns s') = fires c \<union> ?K" "returns (?cs ! j) \<union> others j returns (ds_conns s') = returns c \<union> ?S"
      using union_others [of j "ds_conns s'" fires] union_others [of j "ds_conns s'" returns] jl False U by (simp_all add: c(2))
    have sub: "fires (?cs ! j) \<subseteq> ?K" by (rule others_other [OF i jl False])
    have "others j fires (ds_conns s') \<subseteq> fires c \<union> others j fires ?cs" using i by (auto simp: others_def c(2) nth_list_update split: if_splits)
    moreover have "fires (?cs ! j) \<inter> others j fires ?cs = {}" using old by (simp add: thread_ok_def)
    moreover have "fires c \<inter> ?K = {}" using N(1) by (simp add: thread_ok_def)
    ultimately have dis: "fires (?cs ! j) \<inter> others j fires (ds_conns s') = {}" using sub by blast
    have unfired: "\<not> de_bFired x" if "dc_pc (?cs ! j) = AtFire p" "dp_heap P p = Some x" for p x
    proof -
      have "p \<in> ?K" using that(1) sub by (auto simp: fires_def)
      then have "map_option core (dp_heap P p) = map_option core (dp_heap (ds_pool s) p)" using N(2) by (simp add: leaves_def)
      moreover have "\<forall>x. dp_heap (ds_pool s) p = Some x \<longrightarrow> \<not> de_bFired x" using old that(1) by (simp add: thread_ok_def)
      ultimately show ?thesis using core_fired that(2) by blast
    qed
    have same: "ds_conns s' ! j = ?cs ! j" "ds_pool s' = P" using False by (simp_all add: c(2))
    have R: "returns (?cs ! j) \<union> others j returns (ds_conns s') = returns c \<union> ?S" "fires (?cs ! j) \<union> others j fires (ds_conns s') = fires c \<union> ?K"
      using e by simp_all
    have R2: "A \<inter> (B \<union> C \<union> fires (?cs ! j) \<union> others j fires (ds_conns s')) = A \<inter> (B \<union> C \<union> fires c \<union> ?K)" for A B C
      using R(2) by blast
    show ?thesis
      unfolding thread_ok_def same R R2
    proof (intro conjI allI impI)
      show "dc_iLastEventSequenceId (?cs ! j) \<notin> ids" using old by (simp add: thread_ok_def)
      show "\<not> de_bFired x" if "dc_pc (?cs ! j) = AtFire p" "dp_heap P p = Some x" for p x by (rule unfired [OF that])
    qed (use N(1) dis in \<open>simp_all add: thread_ok_def\<close>)
  qed
  moreover have "pool_inv ids (\<Union> (fires ` set (ds_conns s'))) (dp_EventWaitingList (ds_pool s')) (ds_pool s')"
    using N(1) unfolding U by (simp add: thread_ok_def c(2))
  ultimately show ?thesis using N(2) unfolding db_inv_def U(1) by (simp add: leaves_def union_others [OF i] c(2))
qed

text \<open>The main loop allocates an event and, if its sequence has an id, puts it to the waiting list.\<close>

lemma pool_inv_push:
  assumes I: "pool_inv ids H W P" and p: "p = dp_next P" and e: "ev_key e \<in> ids" "de_iSequenceId e \<notin> ids" "\<not> de_bFired e"
    and W': "W' = W \<or> W' = W @ [p] \<and> de_bSequence e"
  shows "pool_inv ids H W' (P\<lparr>dp_heap := (dp_heap P)(p \<mapsto> e), dp_next := Suc p, dp_EventWaitingList := w\<rparr>)" (is "pool_inv ids H _ ?P")
proof -
  note D = pool_invD [OF I]
  have fresh: "dp_heap P p = None" "p \<notin> ran (seq_map P)" using D(8,9) by (auto simp: p)
  have live: "ev_live ?P r" if "ev_live P r" for r using that fresh(1) by (auto simp: ev_live_def)
  have W: "p \<notin> set W" using D(5) [of p] fresh(1) by auto
  show ?thesis
    unfolding pool_inv_def
  proof (intro conjI ballI allI impI)
    show "ev_live ?P r" if "r \<in> set (dp_EventProcessingList ?P) \<union> H" for r using live [OF D(3)] that by simp
    show "distinct W'" using D(4) W W' by auto
    show "r \<notin> ran (seq_map ?P)" if "r \<in> set W'" for r using D(5) [of r] fresh(2) that W' by auto
    show "\<exists>x. dp_heap ?P r = Some x \<and> de_bSequence x" if "r \<in> set W'" for r using D(5) [of r] that W' W by auto
    show "\<not> de_bFired x" if "r \<in> set (dp_EventProcessingList ?P) \<union> set W'" "dp_heap ?P r = Some x" for r x
      using D(6) [of r x] e(3) that W' by (auto split: if_splits)
    show "ev_key x \<in> ids" "de_iSequenceId x \<notin> ids" if "dp_heap ?P r = Some x" for r x using D(10) [of r x] e that by (auto split: if_splits)
    show "dom (dp_heap ?P) \<subseteq> {0<..<dp_next ?P}" using D(9,11) p by auto
    show "ran (seq_map ?P) \<subseteq> {..<dp_next ?P}" using D(8) by (auto simp: p less_Suc_eq)
  qed (use D in auto)
qed

lemma thread_ok_push:
  assumes I: "thread_ok ids K S c P" and p: "p = dp_next P" and e: "ev_key e \<in> ids" "de_iSequenceId e \<notin> ids" "\<not> de_bFired e"
    and W': "W' = dp_EventWaitingList P \<or> W' = dp_EventWaitingList P @ [p] \<and> de_bSequence e"
  shows "thread_ok ids K S c (P\<lparr>dp_heap := (dp_heap P)(p \<mapsto> e), dp_next := Suc p, dp_EventWaitingList := W'\<rparr>)"
proof -
  have J: "pool_inv ids (fires c \<union> K) (dp_EventWaitingList P) P" using I by (simp add: thread_ok_def)
  have "ev_live P q" if "q \<in> fires c" for q by (rule pool_invD(3) [OF J]) (use that in simp)
  then have old: "p \<notin> fires c" using pool_invD(9) [OF J] p by (force simp: ev_live_def)
  have new: "p \<notin> returns c \<union> S" using I p by (force simp: thread_ok_def)
  have "\<not> de_bFired x" if "dc_pc c = AtFire q" "((dp_heap P)(p \<mapsto> e)) q = Some x" for q x
    using that I old by (auto simp: thread_ok_def fires_def split: if_splits)
  then show ?thesis using I new pool_inv_push [OF J p e W'] W' unfolding thread_ok_def by (auto simp: p less_Suc_eq)
qed

lemma db_push_ok:
  assumes I: "db_inv ids s" and e: "ucast iEventId \<in> ids" "iSequenceId \<notin> ids" "0 \<notin> ids" and st: "db_push iSequenceId iEventId d r s = Some s'"
  shows "db_inv ids s' \<and> ds_conns s' = ds_conns s \<and> seq_map (ds_pool s') = seq_map (ds_pool s) \<and>
    dp_EventProcessingList (ds_pool s') = dp_EventProcessingList (ds_pool s)"
proof -
  let ?P = "ds_pool s" and ?p = "dp_next (ds_pool s)"
  obtain x W where x: "ev_key x \<in> ids" "de_iSequenceId x \<notin> ids" "\<not> de_bFired x"
      "W = dp_EventWaitingList ?P \<or> W = dp_EventWaitingList ?P @ [?p] \<and> de_bSequence x"
      "s' = s\<lparr>ds_pool := ?P\<lparr>dp_heap := (dp_heap ?P)(?p \<mapsto> x), dp_next := Suc ?p, dp_EventWaitingList := W\<rparr>\<rparr>"
  proof (cases "iSequenceId = 0")
    case True
    show ?thesis
      by (rule that [of "DBEvent_new iEventId d" "dp_EventWaitingList ?P"])
        (use st e True in \<open>auto simp: db_push_def AllocateEvent_def PushSequenceEvent_def DBEvent_new_def\<close>)
  next
    case False
    show ?thesis
      by (rule that [of "(DBEvent_new iEventId d)\<lparr>de_iSequenceId := iSequenceId, de_bSequence := True, de_bReturnable := r\<rparr>"
            "dp_EventWaitingList ?P @ [?p]"])
        (use st e False in \<open>auto simp: db_push_def AllocateEvent_def PushSequenceEvent_def DBEvent_new_def ev_upd_def\<close>)
  qed
  show ?thesis
    using I thread_ok_push [OF _ refl x(1-4)] pool_inv_push [OF _ refl x(1-4)] unfolding db_inv_def by (auto simp: x(5))
qed

lemma db_pop_ok: "db_inv ids s \<Longrightarrow> db_inv ids (snd (db_pop s)) \<and> ds_conns (snd (db_pop s)) = ds_conns s \<and>
    seq_map (ds_pool (snd (db_pop s))) = seq_map (ds_pool s) \<and> dp_EventProcessingList (ds_pool (snd (db_pop s))) = dp_EventProcessingList (ds_pool s)"
  by (simp add: db_pop_def PopFromDBEventReturnList_def db_inv_def thread_ok_def pool_inv_return split: prod.splits)

lemma thread_ok_stop [simp]: "thread_ok ids K S (DBConn_Stop c) P = thread_ok ids K S c P"
  by (simp add: thread_ok_def DBConn_Stop_def fires_def returns_def)

lemma stop_fields [simp]: "fires (DBConn_Stop c) = fires c" "returns (DBConn_Stop c) = returns c"
  by (simp_all add: DBConn_Stop_def fires_def returns_def)

lemma db_stop_ok: "db_inv ids s \<Longrightarrow> db_inv ids (db_stop s) \<and> ds_pool (db_stop s) = ds_pool s \<and> \<Union> (fires ` set (ds_conns (db_stop s))) = \<Union> (fires ` set (ds_conns s))"
  by (simp add: db_inv_def db_stop_def others_def image_image)

section \<open>Runs\<close>

text \<open>What the main loop may push: ids of sequences are not ids of events.\<close>

definition db_ok :: "u64 set \<Rightarrow> 'd db_action \<Rightarrow> bool" where
  "db_ok ids a = (case a of DB_Push sid eid d r \<Rightarrow> sid \<notin> ids \<and> ucast eid \<in> ids | _ \<Rightarrow> True)"

primrec db_run :: "'d db_action list \<Rightarrow> 'd dbsys \<Rightarrow> 'd dbsys option" where
  "db_run [] s = Some s"
| "db_run (a # as) s = do { s \<leftarrow> db_step a s; db_run as s }"

definition db_stuck :: "u64 \<Rightarrow> 'd dbsys \<Rightarrow> bool" where
  "db_stuck k s \<longleftrightarrow> stuck k (\<Union> (fires ` set (ds_conns s))) (ds_pool s)"

lemma db_step_ok:
  assumes "db_inv ids s" "0 \<notin> ids" "db_ok ids a" "db_step a s = Some s'"
  shows "db_inv ids s' \<and> (\<forall>k. db_stuck k s \<longrightarrow> db_stuck k s')"
proof (cases a)
  case (DB_Push sid eid d r)
  then show ?thesis using assms db_push_ok [OF assms(1) _ _ assms(2), of eid sid d r s'] by (simp add: db_step_def db_ok_def db_stuck_def stuck_def)
next
  case DB_Pop
  then show ?thesis using assms db_pop_ok [OF assms(1)] by (simp add: db_step_def db_stuck_def stuck_def)
next
  case (DB_Conn i r f)
  then show ?thesis using assms db_conn_step_ok [OF assms(1,2), of i r f s'] by (simp add: db_step_def db_stuck_def)
next
  case DB_Stop
  then show ?thesis using assms db_stop_ok [OF assms(1)] by (simp add: db_step_def db_stuck_def)
qed

lemma db_run_ok: "db_inv ids s \<Longrightarrow> 0 \<notin> ids \<Longrightarrow> list_all (db_ok ids) as \<Longrightarrow> db_run as s = Some s' \<Longrightarrow>
    db_inv ids s' \<and> (\<forall>k. db_stuck k s \<longrightarrow> db_stuck k s')"
proof (induction as arbitrary: s)
  case (Cons a as)
  obtain s1 where 1: "db_step a s = Some s1" "db_run as s1 = Some s'" using Cons.prems(4) by (auto split: Option.bind_splits)
  then show ?case using db_step_ok [OF Cons.prems(1,2) _ 1(1)] Cons.IH [of s1] Cons.prems(2,3) by auto
qed simp

lemma db_init_ok: "0 \<notin> ids \<Longrightarrow> db_inv ids (db_init n)"
proof -
  assume 0: "0 \<notin> ids"
  have f: "fires DBConn_new = {}" "returns DBConn_new = {}" by (simp_all add: fires_def returns_def DBConn_new_def)
  have o: "others i fires (replicate m DBConn_new) = {}" "others i returns (replicate m DBConn_new) = {}" for i m
    by (auto simp: others_def f)
  have "pool_inv ids {} [] DBConnPool_new" by (simp add: pool_inv_def DBConnPool_new_def)
  then show ?thesis
    using 0 by (auto simp: db_inv_def db_init_def o f thread_ok_def) (simp_all add: DBConnPool_new_def DBConn_new_def)
qed

text \<open>What the invariant says of active events.\<close>

lemma db_inv_active:
  assumes I: "db_inv ids s" and p: "p \<in> set (dp_EventProcessingList (ds_pool s)) \<or> (\<exists>i < length (ds_conns s). p \<in> fires (ds_conns s ! i))"
  shows "\<exists>e. dp_heap (ds_pool s) p = Some e \<and> seq_map (ds_pool s) (ev_key e) = Some p"
proof -
  have J: "pool_inv ids (\<Union> (fires ` set (ds_conns s))) (dp_EventWaitingList (ds_pool s)) (ds_pool s)" using I by (simp add: db_inv_def)
  have "p \<in> set (dp_EventProcessingList (ds_pool s)) \<union> \<Union> (fires ` set (ds_conns s))" using p nth_mem by blast
  then show ?thesis using pool_invD(3) [OF J] by (auto simp: ev_live_def)
qed

end
