(* ===== verification/CacheLoopInv.thy ===== *)
theory CacheLoopInv
  imports CacheLoop CacheDBInv
begin

text \<open>
  The invariant of the cache server: the map of players, the object pool, the finalizing queue and the states of players agree, and the
  database threads keep their own invariant.  \<open>pl p m\<close> is the invariant with a player \<open>p\<close> that is logged in; the handlers of \<open>p\<close> keep it where they
  are defined (\<open>lp\<close> of \<open>Prelude\<close>).
\<close>

section \<open>The state machine\<close>

definition ctr :: "int \<Rightarrow> int \<Rightarrow> int option" where
  "ctr s e = rows_fun (rows_of cache_table) (s, e)"

lemma cev_ok [simp]: "event_ok (cev e)"
  by (cases e) (simp_all add: event_ok_def)

lemma cache_rows_ok: "\<forall>(s, e, out) \<in> set (rows_of cache_table). event_ok e"
  by (simp add: rows_of_def cache_table_def del: cev.simps)

lemma cache_InitStateMachine_ok:
  "\<exists>m. cache_InitStateMachine (StateMachine_new s) = Some m \<and> fsm_inv m \<and> sm_iCurrState m = s \<and> fsm_fun m = (\<lambda>(s, e). ctr s e)"
  using init_states_ok [OF new_inv(1) cache_rows_ok, of s]
  by (auto simp: cache_InitStateMachine_def new_inv(2) ctr_def fun_eq_iff) (auto simp: StateMachine_new_def)

lemma ctr_not_none: "ctr s e = Some s' \<Longrightarrow> s' \<noteq> cst PLAYER_STATE_NONE"
proof -
  assume "ctr s e = Some s'"
  then have "(s, e, s') \<in> set (rows_of cache_table)" using rows_fun_mem by (simp add: ctr_def)
  moreover have "list_all (\<lambda>(s, e, s'). s' \<noteq> cst PLAYER_STATE_NONE) (rows_of cache_table)" by code_simp
  ultimately show ?thesis by (auto simp: list_all_iff)
qed

definition cache_machine_ok :: "StateMachine \<Rightarrow> bool" where
  "cache_machine_ok sm \<longleftrightarrow> fsm_inv sm \<and> fsm_fun sm = (\<lambda>(s, e). ctr s e)"

text \<open>What a transition does.\<close>

lemma cache_fsm_eq:
  assumes "cache_machine_ok (cp_StateMachine (cl_ctx m p))"
  shows "cache_fsm p e m = (case ctr (cache_curr p m) (cev e) of None \<Rightarrow> Some (- 1, m)
    | Some s \<Rightarrow> Some (s, Cache_ctx_upd p (\<lambda>c. c\<lparr>cp_StateMachine := SetCurrState s (cp_StateMachine c)\<rparr>) m))"
proof -
  have i: "fsm_inv (cp_StateMachine (cl_ctx m p))" and f: "fsm_fun (cp_StateMachine (cl_ctx m p)) = (\<lambda>(s, e). ctr s e)"
    using assms by (simp_all add: cache_machine_ok_def)
  have "m\<lparr>cl_ctx := (cl_ctx m)(p := (cl_ctx m p)\<lparr>cp_StateMachine := cp_StateMachine (cl_ctx m p)\<rparr>)\<rparr> = m" by simp
  then show ?thesis
    using StateTransition_ok [OF i cev_ok, of e True]
    by (auto simp: cache_fsm_def cache_curr_def GetCurrState_def f Cache_ctx_upd_def SetCurrState_def split: option.splits)
qed

lemma cache_machine_ok_set [simp]: "cache_machine_ok (SetCurrState s sm) = cache_machine_ok sm"
  by (simp add: cache_machine_ok_def SetCurrState_def)

section \<open>The invariant\<close>

definition cids :: "u64 set" where
  "cids = {1, 2, 3, 4, 5, 6, 999}"

definition cache_inv :: "CacheServerLoop \<Rightarrow> bool" where
  "cache_inv m \<longleftrightarrow> op_inv (cl_PlayerContextPool m) \<and> db_inv cids (cl_db m) \<and>
     (\<forall>p. cache_machine_ok (cp_StateMachine (cl_ctx m p))) \<and>
     (\<forall>s p. cl_mPlayerContextBySessionId m s = Some p \<longrightarrow> p \<in> set (ob_out (cl_PlayerContextPool m)) \<and>
        cp_iSessionId (cl_ctx m p) = s \<and> cache_curr p m \<noteq> cst PLAYER_STATE_NONE \<and> ucast s \<notin> cids) \<and>
     (\<forall>p \<in> set (cl_PlayerFinalizingQueue m). p \<in> set (ob_out (cl_PlayerContextPool m)) \<and> cp_bFinalizing (cl_ctx m p)) \<and>
     (\<forall>p. p \<notin> set (ob_out (cl_PlayerContextPool m)) \<longrightarrow> cache_curr p m = cst PLAYER_STATE_NONE \<and> \<not> cp_bFinalizing (cl_ctx m p))"

definition pl :: "ptr \<Rightarrow> CacheServerLoop \<Rightarrow> bool" where
  "pl p m \<longleftrightarrow> cache_inv m \<and> p \<in> set (ob_out (cl_PlayerContextPool m)) \<and> cache_curr p m \<noteq> cst PLAYER_STATE_NONE \<and>
     ucast (cp_iSessionId (cl_ctx m p)) \<notin> cids"

lemma cids_0 [simp]: "0 \<notin> cids"
  by (simp add: cids_def)

lemma event_id_in [simp]: "ucast (event_id d) \<in> cids"
  by (cases d) (simp_all add: event_id_def cids_def)

lemma pl_inv: "pl p m \<Longrightarrow> cache_inv m"
  by (simp add: pl_def)

lemma pl_machine: "pl p m \<Longrightarrow> cache_machine_ok (cp_StateMachine (cl_ctx m q))"
  by (simp add: pl_def cache_inv_def)

named_theorems cache_rules

lemma pl_frame [simp]:
  "pl p (m\<lparr>cl_Delay := x\<rparr>) = pl p m" "pl p (m\<lparr>cl_sent := y\<rparr>) = pl p m" "pl p (m\<lparr>cl_iAllocated := n\<rparr>) = pl p m"
  "pl p (m\<lparr>cl_mPlayerContextByAvatarId := a\<rparr>) = pl p m"
  by (simp_all add: pl_def cache_inv_def cache_curr_def)

lemma pl_ctx_upd [cache_rules]:
  assumes "pl p m" "\<And>c. cp_iSessionId (f c) = cp_iSessionId c" "\<And>c. cp_StateMachine (f c) = cp_StateMachine c" "\<And>c. cp_bFinalizing (f c) = cp_bFinalizing c"
  shows "pl p (Cache_ctx_upd p f m)"
  using assms by (simp add: pl_def cache_inv_def cache_curr_def Cache_ctx_upd_def)

lemma pl_finalize [cache_rules]: "pl p m \<Longrightarrow> pl p (Cache_AddPlayerToFinalizingQueue p m)"
  by (auto simp: pl_def cache_inv_def cache_curr_def Cache_AddPlayerToFinalizingQueue_def Cache_ctx_upd_def Let_def)

lemma pl_state:
  assumes "pl p m" "s \<noteq> cst PLAYER_STATE_NONE"
  shows "pl p (Cache_ctx_upd p (\<lambda>c. c\<lparr>cp_StateMachine := SetCurrState s (cp_StateMachine c)\<rparr>) m)"
  using assms by (auto simp: pl_def cache_inv_def cache_curr_def Cache_ctx_upd_def GetCurrState_def SetCurrState_def cache_machine_ok_def)

lemma pl_fsm [cache_rules]:
  assumes "pl p m" "\<And>r m1. pl p m1 \<Longrightarrow> lp (f r m1) Q"
  shows "lp (cache_fsm p e m \<bind> case_prod f) Q"
proof (cases "ctr (cache_curr p m) (cev e)")
  case None
  then show ?thesis using assms by (simp add: cache_fsm_eq [OF pl_machine [OF assms(1)]])
next
  case (Some s)
  then show ?thesis using assms(2) pl_state [OF assms(1)] ctr_not_none by (simp add: cache_fsm_eq [OF pl_machine [OF assms(1)]])
qed

lemma pl_push [cache_rules]:
  assumes "pl p m" "\<And>m1. pl p m1 \<Longrightarrow> Q m1"
  shows "lp (push_event p d r m) Q"
proof -
  have "pl p (m\<lparr>cl_db := db\<rparr>)" if "db_push (ucast (cp_iSessionId (cl_ctx m p))) (event_id d) e r (cl_db m) = Some db" for e db
    using assms(1) db_push_ok [OF _ event_id_in _ cids_0 that] by (simp add: pl_def cache_inv_def cache_curr_def)
  then show ?thesis using assms(2) by (auto simp: push_event_def Let_def lp_def split: Option.bind_splits)
qed

lemma pl_push_bind [cache_rules]: "pl p m \<Longrightarrow> (\<And>m1. pl p m1 \<Longrightarrow> lp (f m1) Q) \<Longrightarrow> lp (push_event p d r m \<bind> f) Q"
  by (rule lp_bind) (rule pl_push)

lemma pl_SendPacket: "pl p m \<Longrightarrow> (\<And>r m1. pl p m1 \<Longrightarrow> lp (f r m1) Q) \<Longrightarrow> lp (Cache_SendPacket t bs m \<bind> case_prod f) Q"
  by (auto simp: Cache_SendPacket_def Cache_DelaySendData_def)

lemma pl_Acks [cache_rules]:
  assumes "pl p m" "\<And>r m1. pl p m1 \<Longrightarrow> lp (f r m1) Q"
  shows "lp (Send_AvatarListAck i n as m \<bind> case_prod f) Q" "lp (Send_AvatarCreateAck i a m \<bind> case_prod f) Q"
    "lp (Send_AvatarSelectAck i d m \<bind> case_prod f) Q"
proof -
  note S = pl_SendPacket [OF assms]
  show "lp (Send_AvatarListAck i n as m \<bind> case_prod f) Q"
    using S by (auto simp: Send_AvatarListAck_def lp_def split: Option.bind_splits)
  show "lp (Send_AvatarCreateAck i a m \<bind> case_prod f) Q" unfolding Send_AvatarCreateAck_def by (rule S)
  show "lp (Send_AvatarSelectAck i d m \<bind> case_prod f) Q" unfolding Send_AvatarSelectAck_def by (cases d) (simp add: S)
qed

lemma pl_forward [cache_rules]: "pl p m \<Longrightarrow> pl p (snd (cache_forward E q m))"
  by (simp add: cache_forward_def cache_send_def Let_def)

lemma pl_new_event [cache_rules]: "pl p m \<Longrightarrow> pl p (snd (new_event E m))"
  by (simp add: new_event_def)

lemma lp_let_pair [cache_rules]: "(\<And>r m1. X = (r, m1) \<Longrightarrow> lp (f r m1) Q) \<Longrightarrow> lp (case X of (r, m) \<Rightarrow> f r m) Q"
  by (cases X) simp

lemma lp_strings [cache_rules]:
  "(\<And>x. lp (f1 x) Q) \<Longrightarrow> lp (wcscpy_s n s \<bind> f1) Q" "(\<And>x. lp (f2 x) Q) \<Longrightarrow> lp (mem_read xs i k \<bind> f2) Q"
  "(\<And>x. lp (f3 x) Q) \<Longrightarrow> lp (wide_array w b \<bind> f3) Q" "(\<And>x. lp (f4 x) Q) \<Longrightarrow> lp (narrow_array w' b' \<bind> f4) Q"
  "(\<And>x. lp (f5 x) Q) \<Longrightarrow> lp (mem_write ys j zs \<bind> f5) Q"
  by (rule lp_bind_any, assumption)+

lemma lp_case [cache_rules]: "(x = None \<Longrightarrow> lp X Q) \<Longrightarrow> (\<And>y. x = Some y \<Longrightarrow> lp (f y) Q) \<Longrightarrow> lp (case x of None \<Rightarrow> X | Some y \<Rightarrow> f y) Q"
  by (cases x) simp_all

declare lp_Some [cache_rules] lp_None [cache_rules] lp_if [cache_rules]

lemma pl_pair: "pl p m \<Longrightarrow> new_event E m = (b, m1) \<Longrightarrow> pl p m1" "pl p m \<Longrightarrow> cache_forward E q m = (r, m2) \<Longrightarrow> pl p m2"
  using pl_new_event [of p m E] pl_forward [of p m E q] by simp_all

section \<open>The handlers of a player\<close>

lemma Shutdown_pl [cache_rules]:
  assumes "pl p m" "\<And>m1. pl p m1 \<Longrightarrow> Q m1"
  shows "lp (Cache_ShutdownPlayer E p m) Q"
  unfolding Cache_ShutdownPlayer_def CachePlayer_Shutdown_def Let_def
  by (intro cache_rules assms) (auto intro: cache_rules assms pl_pair)

lemma AvatarLogout_pl [cache_rules]:
  assumes "pl p m" "\<And>m1. pl p m1 \<Longrightarrow> Q m1"
  shows "lp (CachePlayer_OnAvatarLogoutReq E p m) Q"
  unfolding CachePlayer_OnAvatarLogoutReq_def Let_def
  by (intro cache_rules) (auto intro: cache_rules assms pl_pair)

lemmas cache_handler_defs = CachePlayer_OnLogoutReq_def CachePlayer_OnRegionEnterReq_def CachePlayer_OnAvatarListReq_def
  CachePlayer_OnAvatarCreateReq_def CachePlayer_OnAvatarSelectReq_def CachePlayer_OnSaveDataReq_def OnPlayerEventGetAvatarListResult_def
  OnPlayerEventAvatarCreateResult_def OnPlayerEventAvatarSelectResult_def OnPlayerEventAvatarEnterRegionResult_def Let_def

lemma pl_add_avatar: "pl p m \<Longrightarrow> pl p (AddPlayerContextByAvatarId q m)"
  by (simp add: AddPlayerContextByAvatarId_def)

lemma requests_pl:
  assumes I: "pl p m"
  shows "lp (CachePlayer_OnLogoutReq E p m) (pl p)" "lp (CachePlayer_OnRegionEnterReq E p i n m) (pl p)"
    "lp (CachePlayer_OnAvatarListReq E p m) (pl p)" "lp (CachePlayer_OnAvatarCreateReq E p n m) (pl p)"
    "lp (CachePlayer_OnAvatarSelectReq E p n m) (pl p)" "lp (CachePlayer_OnSaveDataReq E p b m) (pl p)"
  using I unfolding cache_handler_defs
       apply -
  subgoal by (rule pl_fsm, assumption, rule lp_if, rule lp_Some, assumption, rule lp_bind, rule lp_if) (auto intro: cache_rules)
  subgoal by (rule pl_fsm, assumption) (auto intro!: cache_rules intro: pl_pair)
  subgoal by (rule pl_fsm, assumption) (auto intro!: cache_rules intro: pl_pair)
  subgoal by (auto intro!: cache_rules intro: pl_pair)
  subgoal by (rule pl_fsm, assumption) (auto intro!: cache_rules intro: pl_pair)
  subgoal by (auto intro!: cache_rules intro: pl_pair)
  done

lemma GetAvatarListResult_pl:
  assumes I: "pl p m"
  shows "lp (OnPlayerEventGetAvatarListResult E p i n as m) (pl p)"
  using I unfolding OnPlayerEventGetAvatarListResult_def Let_def
  by (rule pl_fsm) (auto intro!: cache_rules)

lemma AvatarCreateResult_pl:
  assumes I: "pl p m"
  shows "lp (OnPlayerEventAvatarCreateResult E p i a m) (pl p)"
proof -
  have up: "pl p (Cache_ctx_upd p (\<lambda>c. c\<lparr>cp_arrayAvatar := as, cp_iAvatarCount := cp_iAvatarCount c + 1\<rparr>) m)" for as
    by (rule pl_ctx_upd [OF I]) simp_all
  have rest: "lp (case r of None \<Rightarrow> Some m
     | Some (avatar, m) \<Rightarrow> do {
         (iRet, m) \<leftarrow> Send_AvatarCreateAck i avatar m;
         Some (if iRet \<noteq> 0 then m else snd (cache_forward E p m))
       }) (pl p)" if "\<And>av m1. r = Some (av, m1) \<Longrightarrow> pl p m1" for r
    using I that by (auto intro!: cache_rules split: option.splits)
  show ?thesis
    unfolding OnPlayerEventAvatarCreateResult_def
    by (rule lp_bind, rule lp_mono [where Q = "\<lambda>r. \<forall>av m1. r = Some (av, m1) \<longrightarrow> pl p m1"])
      (use I up in \<open>auto intro!: rest cache_rules split: option.splits\<close>)
qed

lemma AvatarSelectResult_pl:
  assumes I: "pl p m"
  shows "lp (OnPlayerEventAvatarSelectResult E p i a n ch m) (pl p)"
proof -
  have up: "pl p (Cache_ctx_upd p (\<lambda>c. c\<lparr>cp_AvatarContext := f c\<rparr>) m)" for f
    by (rule pl_ctx_upd [OF I]) simp_all
  have rest: "lp (case r of (None, m) \<Rightarrow> Some m
     | (Some data, m) \<Rightarrow> do {
         (iRet, m) \<leftarrow> Send_AvatarSelectAck i data m;
         if iRet \<noteq> 0 then Some m else do {
           let (iRet, m) = cache_forward E p m;
           if iRet \<noteq> 0 then Some m else do {
             (r, m) \<leftarrow> cache_fsm p PLAYER_EVENT_AVATARSELECTACK m;
             if r \<noteq> cst PLAYER_STATE_AVATARSELECTACK then Cache_ShutdownPlayer E p m else Some m
           }
         }
       }) (pl p)" if "pl p (snd r)" for r
  proof (cases r)
    case (Pair x m1)
    then have m1: "pl p m1" using that by simp
    show ?thesis
    proof (cases x)
      case None
      then show ?thesis using m1 by (simp add: Pair lp_def)
    next
      case (Some data)
      show ?thesis
        unfolding Pair Some Let_def using m1 by (auto intro!: cache_rules intro: pl_pair)
    qed
  qed
  show ?thesis
    unfolding OnPlayerEventAvatarSelectResult_def Let_def
    by (rule lp_bind, rule lp_mono [where Q = "\<lambda>r. pl p (snd r)"]) (auto intro!: rest [unfolded Let_def] cache_rules I up intro: pl_pair)
qed

lemma EnterRegionResult_pl:
  assumes I: "pl p m"
  shows "lp (OnPlayerEventAvatarEnterRegionResult E p i m) (pl p)"
proof -
  let ?m = "if i = 0 then Cache_ctx_upd p (\<lambda>c. c\<lparr>cp_AvatarContext := (cp_AvatarContext c)\<lparr>ca_bEnterRegion := True\<rparr>\<rparr>) (AddPlayerContextByAvatarId p m) else m"
  have m: "pl p ?m" using I pl_add_avatar [OF I] by (auto intro: pl_ctx_upd)
  have sent: "pl p m2" if "pl p m1" "cache_send E msg m1 = (r, m2)" for msg m1 r m2 using that by (auto simp: cache_send_def Let_def)
  show ?thesis
    unfolding OnPlayerEventAvatarEnterRegionResult_def Let_def
    by (rule lp_if, rule lp_None, rule lp_let_pair, rule lp_if, rule lp_Some, erule sent [OF m], rule pl_fsm, erule sent [OF m], rule lp_Some)
qed

lemma result_inv:
  assumes I: "cache_inv m"
  shows "lp (Cache_OnPlayerEventResult E e m) cache_inv"
proof (cases "cl_mPlayerContextBySessionId m (pd_iSessionId e)")
  case (Some p)
  then have p: "pl p m" using I by (auto simp: pl_def cache_inv_def)
  have w: "lp X cache_inv" if "lp X (pl p)" for X using that by (auto simp: lp_def pl_def)
  show ?thesis
    using Some w [OF GetAvatarListResult_pl [OF p]] w [OF AvatarCreateResult_pl [OF p]] w [OF AvatarSelectResult_pl [OF p]] w [OF EnterRegionResult_pl [OF p]]
      pl_inv [OF pl_finalize [OF p]] pl_inv [OF pl_ctx_upd [OF p]] I
    by (auto simp: Cache_OnPlayerEventResult_def lp_def OnPlayerEventAvatarFinalizeResult_def OnPlayerEventAvatarSaveDataResult_def
        OnPlayerEventAvatarLogoutResult_def split: player_data.splits)
qed (use I in \<open>simp add: Cache_OnPlayerEventResult_def lp_def\<close>)

section \<open>Commands\<close>

lemma by_session_inv:
  assumes I: "cache_inv m" and f: "\<And>p. pl p m \<Longrightarrow> lp (f p m) (pl p)"
  shows "lp (cache_by_session s f m) cache_inv"
proof (cases "cl_mPlayerContextBySessionId m s")
  case (Some p)
  then have "pl p m" using I by (auto simp: pl_def cache_inv_def)
  from f [OF this] show ?thesis using Some by (auto simp: cache_by_session_def lp_def pl_def)
qed (use I in \<open>simp add: cache_by_session_def lp_def\<close>)

lemma on_packet_pl: "pl p m \<Longrightarrow> lp (cache_on_packet E p pk m) (pl p)"
  by (auto simp: cache_on_packet_def split: gate_packet.split intro!: cache_rules requests_pl)

text \<open>A context that was just taken from the pool logs in.\<close>

lemma LoginReq_inv:
  assumes I: "cache_inv m" and s: "ucast iSessionId \<notin> cids"
  shows "lp (Cache_OnCommandOnLoginReq iSessionId name m) cache_inv"
proof -
  have J: "op_inv (cl_PlayerContextPool m)" using I by (simp add: cache_inv_def)
  have "cache_inv m'" if m': "Cache_OnCommandOnLoginReq iSessionId name m = Some m'" for m'
  proof -
    obtain r pool where a: "ObjectPool_Allocate () (cl_PlayerContextPool m) = Some (r, pool)"
      using m' by (auto simp: Cache_OnCommandOnLoginReq_def split: Option.bind_splits)
    note P = ObjectPool_Allocate_ok [OF J a]
    show ?thesis
    proof (cases r)
      case None
      then show ?thesis using m' a P I by (auto simp: Cache_OnCommandOnLoginReq_def cache_inv_def cache_curr_def)
    next
      case (Some p)
      let ?m = "m\<lparr>cl_PlayerContextPool := pool, cl_mPlayerContextBySessionId := hm_insert iSessionId p (cl_mPlayerContextBySessionId m)\<rparr>"
      have p: "p \<notin> set (ob_out (cl_PlayerContextPool m))" "set (ob_out pool) = insert p (set (ob_out (cl_PlayerContextPool m)))" "op_inv pool"
        using P Some by auto
      have c: "cache_curr p ?m = cst PLAYER_STATE_NONE" "\<not> cp_bFinalizing (cl_ctx m p)" "cache_machine_ok (cp_StateMachine (cl_ctx ?m p))"
        using I p(1) by (auto simp: cache_inv_def cache_curr_def)
      have "ctr (cst PLAYER_STATE_NONE) (cev PLAYER_EVENT_ONLOGINREQ) = Some (cst PLAYER_STATE_ONLOGINREQ)"
        by (simp add: ctr_def rows_of_def cache_table_def)
      then have f: "cache_fsm p PLAYER_EVENT_ONLOGINREQ ?m = Some (cst PLAYER_STATE_ONLOGINREQ,
          Cache_ctx_upd p (\<lambda>c. c\<lparr>cp_StateMachine := SetCurrState (cst PLAYER_STATE_ONLOGINREQ) (cp_StateMachine c)\<rparr>) ?m)"
        using cache_fsm_eq [OF c(3)] c(1) by simp
      obtain n where n: "m' = Cache_ctx_upd p (\<lambda>c. c\<lparr>cp_strAccountName := n, cp_iSessionId := iSessionId\<rparr>)
          (Cache_ctx_upd p (\<lambda>c. c\<lparr>cp_StateMachine := SetCurrState (cst PLAYER_STATE_ONLOGINREQ) (cp_StateMachine c)\<rparr>) ?m)"
        using m' a Some f by (auto simp: Cache_OnCommandOnLoginReq_def CachePlayer_OnLoginReq_def Let_def split: Option.bind_splits)
      have old: "q \<noteq> p" if "cl_mPlayerContextBySessionId m t = Some q" for t q using that I p(1) by (auto simp: cache_inv_def)
      show ?thesis
        using I p s c(2) unfolding cache_inv_def n
        by (auto simp: Cache_ctx_upd_def cache_curr_def GetCurrState_def SetCurrState_def hm_insert_def cache_machine_ok_def dest: old split: if_splits)
    qed
  qed
  then show ?thesis by (simp add: lp_def)
qed

lemma OnCommand_inv:
  assumes I: "cache_inv m" and s: "\<And>sid n. cmd = COMMAND_ONLOGINREQ sid n \<Longrightarrow> ucast sid \<notin> cids"
  shows "lp (Cache_OnCommand E cmd m) cache_inv"
proof -
  have st: "cache_inv (m\<lparr>cl_iShutdownStatus := x\<rparr>)" for x using I by (simp add: cache_inv_def cache_curr_def)
  have fwd: "lp (Cache_OnCommandPacketForward E sid t d m) cache_inv" for sid t d
    unfolding Cache_OnCommandPacketForward_def by (rule by_session_inv [OF I]) (auto intro!: cache_rules on_packet_pl)
  show ?thesis
    unfolding Cache_OnCommand_def using I st fwd s
    by (auto split: cache_command.split intro!: lp_if lp_Some LoginReq_inv by_session_inv requests_pl)
qed

section \<open>The round\<close>

lemma DeletePlayer_inv:
  assumes I: "cache_inv m" and p: "p \<in> set (ob_out (cl_PlayerContextPool m))"
    and q: "cl_PlayerFinalizingQueue m = [p]" and d: "Cache_DeletePlayer p m = Some m'"
  shows "cache_inv (m'\<lparr>cl_PlayerFinalizingQueue := []\<rparr>)"
proof -
  have J: "op_inv (cl_PlayerContextPool m)" using I by (simp add: cache_inv_def)
  obtain pool where pool: "ObjectPool_Free p (cl_PlayerContextPool m) = Some pool" "op_inv pool" "ob_out pool = remove1 p (ob_out (cl_PlayerContextPool m))"
    using ObjectPool_Free_ok [OF J p] by blast
  have "distinct (ob_out (cl_PlayerContextPool m))" using J by (simp add: op_inv_def)
  then have out: "set (ob_out pool) = set (ob_out (cl_PlayerContextPool m)) - {p}" using pool(3) by simp
  have m': "m' = Cache_ctx_upd p CachePlayer_Clear (m\<lparr>cl_mPlayerContextBySessionId := (cl_mPlayerContextBySessionId m)(cp_iSessionId (cl_ctx m p) := None),
      cl_mPlayerContextByAvatarId := (cl_mPlayerContextByAvatarId m)(ca_iAvatarId (cp_AvatarContext (cl_ctx m p)) := None), cl_PlayerContextPool := pool\<rparr>)"
    using d pool(1) by (auto simp: Cache_DeletePlayer_def Cache_ctx_upd_def Let_def)
  show ?thesis
    using I out pool(2) unfolding cache_inv_def m'
    by (auto simp: Cache_ctx_upd_def cache_curr_def CachePlayer_Clear_def GetCurrState_def SetCurrState_def cache_machine_ok_def split: if_splits)
qed

lemma finalize_inv:
  assumes I: "cache_inv m" and l: "length (cl_PlayerFinalizingQueue m) \<le> 1"
  shows "lp (cache_finalize m) cache_inv"
proof -
  have st: "cache_inv (n\<lparr>cl_iShutdownStatus := x\<rparr>)" if "cache_inv n" for n x using that by (simp add: cache_inv_def cache_curr_def)
  have "lp (cache_finalize_loop (cl_PlayerFinalizingQueue m) m) cache_inv"
  proof (cases "cl_PlayerFinalizingQueue m")
    case (Cons p ps)
    then have q: "cl_PlayerFinalizingQueue m = [p]" using l by simp
    then have "p \<in> set (ob_out (cl_PlayerContextPool m))" using I by (simp add: cache_inv_def)
    then show ?thesis using DeletePlayer_inv [OF I _ q] by (auto simp: q lp_def split: Option.bind_splits)
  qed (use I in \<open>simp add: lp_def\<close>)
  then show ?thesis using st by (auto simp: cache_finalize_def lp_def split: Option.bind_splits)
qed

lemma SaveDataReq_map: "CachePlayer_OnSaveDataReq E p b m = Some m' \<Longrightarrow> cl_mPlayerContextBySessionId m' = cl_mPlayerContextBySessionId m"
  by (auto simp: CachePlayer_OnSaveDataReq_def new_event_def push_event_def Cache_ctx_upd_def Let_def split: Option.bind_splits if_splits)

lemma save_inv: "cache_inv m \<Longrightarrow> set ps \<subseteq> ran (cl_mPlayerContextBySessionId m) \<Longrightarrow> lp (save_players E ps m) cache_inv"
proof (induction ps arbitrary: m)
  case (Cons p ps)
  then have p: "pl p m" by (auto simp: pl_def cache_inv_def ran_def)
  have "lp (save_players E ps m1) cache_inv" if "CachePlayer_OnSaveDataReq E p False m = Some m1" for m1
    using Cons.prems requests_pl(6) [OF p, of E False] SaveDataReq_map [OF that] that by (intro Cons.IH) (auto simp: lp_def pl_def)
  moreover have "lp (save_players E ps m) cache_inv" using Cons by simp
  ultimately show ?case by (auto simp: lp_def split: Option.bind_splits)
qed (simp add: lp_def)

section \<open>Runs\<close>

text \<open>What may happen: ids of sessions are not ids of events, a hash map has its players in some order, and the queue is emptied when
  it has at most one player.\<close>

definition cache_ok :: "cache_action \<Rightarrow> CacheServerLoop \<Rightarrow> bool" where
  "cache_ok a m = (case a of
     CA_Command cmd \<Rightarrow> (case cmd of COMMAND_ONLOGINREQ sid n \<Rightarrow> ucast sid \<notin> cids | _ \<Rightarrow> True)
   | CA_Finalize \<Rightarrow> length (cl_PlayerFinalizingQueue m) \<le> 1
   | _ \<Rightarrow> True)"

inductive cache_reach :: "cenv \<Rightarrow> CacheServerLoop \<Rightarrow> bool" for E where
  start: "CacheServerLoop_Init E = Some m \<Longrightarrow> cache_reach E m"
| step: "cache_reach E m \<Longrightarrow> cache_ok a m \<Longrightarrow> cache_step E a m = Some m' \<Longrightarrow> cache_reach E m'"

lemma Init_inv: "CacheServerLoop_Init E = Some m \<Longrightarrow> cache_inv m"
proof -
  assume i: "CacheServerLoop_Init E = Some m"
  obtain sm where sm: "cache_InitStateMachine (StateMachine_new (cst PLAYER_STATE_NONE)) = Some sm" "cache_machine_ok sm" "sm_iCurrState sm = cst PLAYER_STATE_NONE"
    using cache_InitStateMachine_ok [of "cst PLAYER_STATE_NONE"] by (auto simp: cache_machine_ok_def)
  then show ?thesis using i db_init_ok [OF cids_0, of "ce_iDBConnCount E"]
    by (auto simp: CacheServerLoop_Init_def CachePlayerContext_new_def cache_inv_def op_new cache_curr_def GetCurrState_def)
qed

lemma cache_step_inv:
  assumes I: "cache_inv m" and a: "cache_ok a m" and o: "\<And>f. set (ce_order E f) \<subseteq> ran f" and s: "cache_step E a m = Some m'"
  shows "cache_inv m'"
proof -
  have db: "cache_inv (n\<lparr>cl_db := d\<rparr>)" if "cache_inv n" "db_inv cids d" for n d using that by (simp add: cache_inv_def cache_curr_def)
  have D: "db_inv cids (cl_db m)" using I by (simp add: cache_inv_def)
  show ?thesis
  proof (cases a)
    case (CA_Command cmd)
    have "lp (Cache_OnCommand E cmd m) cache_inv" by (rule OnCommand_inv [OF I]) (use a CA_Command in \<open>simp add: cache_ok_def\<close>)
    then show ?thesis using s CA_Command by (simp add: cache_step_def lp_def)
  next
    case CA_Result
    have "cache_inv (m\<lparr>cl_db := snd (db_pop (cl_db m))\<rparr>)" using db [OF I] db_pop_ok [OF D] by blast
    from result_inv [OF this] this show ?thesis using CA_Result s
      by (auto simp: cache_step_def cache_pop_result_def lp_def Let_def split: prod.splits if_splits Option.bind_splits)
  next
    case CA_Finalize
    then show ?thesis using finalize_inv [OF I] a s by (auto simp: cache_step_def cache_ok_def lp_def)
  next
    case CA_SaveData
    then show ?thesis using save_inv [OF I o, of E] I s by (auto simp: cache_step_def Cache_SaveDataToDB_def lp_def split: if_splits)
  next
    case CA_ReportState
    have "cache_inv (m\<lparr>cl_sent := x\<rparr>)" for x using I by (simp add: cache_inv_def cache_curr_def)
    then show ?thesis using I s CA_ReportState by (auto simp: cache_step_def Cache_ReportState_def cache_send_def Let_def split: if_splits)
  next
    case (CA_Time now)
    then show ?thesis using I s by (auto simp: cache_step_def cache_inv_def cache_curr_def)
  next
    case CA_Stop
    then show ?thesis using db [OF I] db_stop_ok [OF D] s by (auto simp: cache_step_def CacheServerLoop_Stop_def)
  next
    case (CA_Thread i r q)
    then obtain d where "db_conn_step i r (FireEvent E q) (cl_db m) = Some d" "m' = m\<lparr>cl_db := d\<rparr>"
      using s by (auto simp: cache_step_def split: Option.bind_splits)
    then show ?thesis using db [OF I] db_conn_step_ok [OF D cids_0] by blast
  qed
qed

lemma cache_reach_inv: "cache_reach E m \<Longrightarrow> (\<And>f. set (ce_order E f) \<subseteq> ran f) \<Longrightarrow> cache_inv m"
  by (induction rule: cache_reach.induct) (auto intro: Init_inv cache_step_inv)

end
