(* ===== verification/CacheDBProps.thy ===== *)
theory CacheDBProps
  imports CacheDBInv
begin

text \<open>
  The properties of the database threads of the cache server: mutual exclusion by kind, the life of an event that meets nothing else, and what
  happens to those that meet: a kind with two events in a row is never handled again, the order within a sequence
  is not kept, and saving data twice uses a freed event.
\<close>

lemma db_reach_ok: "0 \<notin> ids \<Longrightarrow> list_all (db_ok ids) as \<Longrightarrow> db_run as (db_init n) = Some s \<Longrightarrow> db_inv ids s"
  using db_run_ok [OF db_init_ok] by blast

lemma others_disjoint:
  assumes I: "db_inv ids s" and "i < length (ds_conns s)" "j < length (ds_conns s)" "p \<in> fires (ds_conns s ! i)" "p \<in> fires (ds_conns s ! j)"
  shows "i = j"
proof (rule ccontr)
  assume "i \<noteq> j"
  then have "fires (ds_conns s ! j) \<subseteq> others i fires (ds_conns s)" using assms(2,3) others_other by simp
  moreover have "fires (ds_conns s ! i) \<inter> others i fires (ds_conns s) = {}" using I assms(2) by (simp add: db_inv_def thread_ok_def)
  ultimately show False using assms(4,5) by blast
qed

text \<open>C14: For every number of threads and all interleavings of their steps with those of the main loop, two threads never fire events of the
  same kind at the same time; the event a thread is about to fire is allocated and was not fired before.\<close>

theorem db_mutual_exclusion:
  assumes "0 \<notin> ids" "list_all (db_ok ids) as" "db_run as (db_init n) = Some s"
    and "i < length (ds_conns s)" "p \<in> fires (ds_conns s ! i)"
  shows "\<exists>e. dp_heap (ds_pool s) p = Some e \<and> (dc_pc (ds_conns s ! i) = AtFire p \<longrightarrow> \<not> de_bFired e) \<and>
    (\<forall>j < length (ds_conns s). \<forall>q \<in> fires (ds_conns s ! j). \<forall>e'. dp_heap (ds_pool s) q = Some e' \<longrightarrow> de_iEventId e' = de_iEventId e \<longrightarrow> j = i)"
proof -
  have I: "db_inv ids s" by (rule db_reach_ok [OF assms(1-3)])
  obtain e where e: "dp_heap (ds_pool s) p = Some e" "seq_map (ds_pool s) (ev_key e) = Some p" using db_inv_active [OF I] assms(4,5) by blast
  have "\<not> de_bFired e" if "dc_pc (ds_conns s ! i) = AtFire p" using I assms(4) e(1) that by (simp add: db_inv_def thread_ok_def)
  moreover have "j = i" if j: "j < length (ds_conns s)" "q \<in> fires (ds_conns s ! j)" "dp_heap (ds_pool s) q = Some e'" "de_iEventId e' = de_iEventId e" for j q e'
  proof -
    obtain x where "dp_heap (ds_pool s) q = Some x" "seq_map (ds_pool s) (ev_key x) = Some q" using db_inv_active [OF I] j(1,2) by blast
    then have "q = p" using j(3,4) e(2) by simp
    then show ?thesis using others_disjoint [OF I j(1) assms(4)] j(2) assms(5) by blast
  qed
  ultimately show ?thesis using e(1) by blast
qed

text \<open>C16: When a thread ends an event that has a successor, then in all continuations no thread fires an event of this kind any more and
  none gets to the processing list: the entry of the map is not replaced, so all that follow are appended to an event that is done.\<close>

theorem db_kind_dies:
  assumes "0 \<notin> ids" "list_all (db_ok ids) (as @ as')" "db_run as (db_init n) = Some s" "i < length (ds_conns s)"
    and "dc_pc (ds_conns s ! i) = AtPost p" "dp_heap (ds_pool s) p = Some e" "de_pNextEvent e \<noteq> NULL"
    and "db_conn_step i r f s = Some s1" "db_run as' s1 = Some s2"
    and "q \<in> set (dp_EventProcessingList (ds_pool s2)) \<or> (\<exists>j < length (ds_conns s2). q \<in> fires (ds_conns s2 ! j))" "dp_heap (ds_pool s2) q = Some e'"
  shows "de_iEventId e' \<noteq> de_iEventId e"
proof -
  have ok: "list_all (db_ok ids) as" "list_all (db_ok ids) as'" using assms(2) by simp_all
  have I: "db_inv ids s" by (rule db_reach_ok [OF assms(1) ok(1) assms(3)])
  let ?P = "ds_pool s" and ?k = "ev_key e"
  obtain c P where c: "conn_step r f (ds_conns s ! i) ?P = Some (c, P)" "s1 = s\<lparr>ds_pool := P, ds_conns := (ds_conns s)[i := c]\<rparr>"
    using assms(4,8) by (auto simp: db_conn_step_def split: Option.bind_splits)
  obtain b where b: "PostFireEvent p ?P = Some (b, P)" "c = (if b then (ds_conns s ! i)\<lparr>dc_pc := AtReturn p\<rparr>
      else (ds_conns s ! i)\<lparr>dc_iLastEventSequenceId := 0, dc_pc := AtLoop\<rparr>)"
    using c(1) assms(5) by (auto simp: conn_step_def split: Option.bind_splits)
  have f: "fires (ds_conns s ! i) = {p}" "fires c = {}" using assms(5) b(2) by (simp_all add: fires_def)
  have J: "pool_inv ids (\<Union> (fires ` set (ds_conns s))) (dp_EventWaitingList ?P) ?P" using I by (simp add: db_inv_def)
  have p: "p \<in> \<Union> (fires ` set (ds_conns s))" using f(1) assms(4) nth_mem by blast
  note F = PostFire_ok [OF J p b(1)]
  have "ev_live ?P p" using pool_invD(3) [OF J] p by blast
  then have m: "seq_map P ?k = Some p" using F assms(6,7) by (auto simp: ev_live_def)
  have u: "\<Union> (fires ` set (ds_conns s1)) = others i fires (ds_conns s)"
    using union_others [of i "(ds_conns s)[i := c]" fires] assms(4) f(2) by (simp add: c(2) others_update)
  have "p \<notin> others i fires (ds_conns s)" using I assms(4) f(1) by (auto simp: db_inv_def thread_ok_def)
  moreover have "p \<notin> set (dp_EventProcessingList P)" using pool_invD(2) [OF J] p F by auto
  ultimately have "db_stuck ?k s1" using m unfolding db_stuck_def u by (simp add: stuck_def c(2))
  moreover have I1: "db_inv ids s1" using db_conn_step_ok [OF I assms(1,8)] by blast
  ultimately have "db_stuck ?k s2" "db_inv ids s2" using db_run_ok [OF I1 assms(1) ok(2) assms(9)] by simp_all
  then obtain h where h: "seq_map (ds_pool s2) ?k = Some h" "h \<notin> set (dp_EventProcessingList (ds_pool s2))"
      "\<forall>c \<in> set (ds_conns s2). h \<notin> fires c"
    by (auto simp: db_stuck_def stuck_def)
  have "q \<noteq> h" using assms(10) h(2,3) nth_mem by blast
  moreover have "seq_map (ds_pool s2) (ev_key e') = Some q" using db_inv_active [OF \<open>db_inv ids s2\<close> assms(10)] assms(11) by auto
  ultimately show ?thesis using h(1) by auto
qed

text \<open>A single event, pushed and handled, from any state that keeps the invariant.\<close>

lemma single_event_run:
  assumes I: "db_inv ids s"
    and "0 \<notin> ids" "sid \<notin> ids" "ucast eid \<in> ids" "sid \<noteq> 0" "i < length (ds_conns s)" "dc_pc (ds_conns s ! i) = AtLoop" "\<not> dc_bQuit (ds_conns s ! i)"
    and "dp_EventWaitingList (ds_pool s) = []" "dp_EventProcessingList (ds_pool s) = []" "seq_map (ds_pool s) (ucast eid) = None"
    and "f d = Some (iRet, d')"
  shows "\<exists>s1 s'. db_push sid eid d ret s = Some s1 \<and> db_run (replicate 4 (DB_Conn i Connect_Ok f)) s1 = Some s' \<and> dc_pc (ds_conns s' ! i) = AtLoop \<and>
    dp_EventWaitingList (ds_pool s') = [] \<and> dp_EventProcessingList (ds_pool s') = [] \<and> seq_map (ds_pool s') = seq_map (ds_pool s) \<and>
    (if ret then dp_EventReturnList (ds_pool s') = dp_EventReturnList (ds_pool s) @ [dp_next (ds_pool s)] \<and>
        (\<exists>e. dp_heap (ds_pool s') (dp_next (ds_pool s)) = Some e \<and> de_iEventId e = eid \<and> de_bFired e \<and> de_data e = d')
      else dp_EventReturnList (ds_pool s') = dp_EventReturnList (ds_pool s) \<and> dp_heap (ds_pool s') = (dp_heap (ds_pool s))(dp_next (ds_pool s) := None))"
proof -
  let ?P = "ds_pool s" and ?c = "ds_conns s ! i" and ?p = "dp_next (ds_pool s)" and ?k = "ucast eid :: u64"
  let ?h = "if dc_pMySQL ?c = MySQL_NULL then MySQL_Open else dc_pMySQL ?c"
  have ok: "thread_ok ids (others i fires (ds_conns s)) (others i returns (ds_conns s)) ?c ?P" using I assms(6) by (simp add: db_inv_def)
  then have "dc_iLastEventSequenceId ?c \<notin> ids" "0 < ?p" "dom (seq_map ?P) \<subseteq> ids" by (auto simp: thread_ok_def pool_inv_def)
  then have last: "seq_map ?P (dc_iLastEventSequenceId ?c) = None" and p: "?p \<noteq> NULL" by auto
  define e where "e = (DBEvent_new eid d)\<lparr>de_iSequenceId := sid, de_bSequence := True, de_bReturnable := ret\<rparr>"
  have ev: "de_iEventId e = eid" "de_bSequence e" "de_bReturnable e = ret" "de_iSequenceId e = sid" "de_data e = d" "de_pNextEvent e = NULL"
      "e\<lparr>de_pLastEvent := NULL, de_pNextEvent := NULL\<rparr> = e"
    by (simp_all add: e_def DBEvent_new_def)
  define P1 where "P1 = ?P\<lparr>dp_heap := (dp_heap ?P)(?p \<mapsto> e), dp_next := Suc ?p, dp_EventWaitingList := [?p]\<rparr>"
  have 1: "db_push sid eid d ret s = Some (s\<lparr>ds_pool := P1\<rparr>)"
    using assms(5,9) by (simp add: db_push_def AllocateEvent_def PushSequenceEvent_def ev_upd_def P1_def e_def)
  define P2 where "P2 = P1\<lparr>dp_EventWaitingList := [], dp_mEventProcessingSequenceMap := (seq_map ?P)(?k \<mapsto> ?p)\<rparr>"
  define c2 where "c2 = ?c\<lparr>dc_pMySQL := ?h, dc_iLastEventSequenceId := sid, dc_pc := AtFire ?p\<rparr>"
  have 2: "conn_step Connect_Ok f ?c P1 = Some (c2, P2)"
    using assms(7,8,10,11) last p ev
    by (simp add: conn_step_def InitConnector_def PopFromDBEventProcessingList_def FlushEventWaitingList_def flush_event_def ev_upd_def
        pop_processing_def pop_list_def take_event_def P1_def P2_def c2_def Let_def)
  define P3 where "P3 = P2\<lparr>dp_heap := (dp_heap P2)(?p \<mapsto> e\<lparr>de_data := d', de_bFired := True\<rparr>)\<rparr>"
  define c3 where "c3 = c2\<lparr>dc_pMySQL := (if iRet < 0 then MySQL_NULL else dc_pMySQL c2), dc_pc := AtPost ?p\<rparr>"
  have 3: "conn_step Connect_Ok f c2 P2 = Some (c3, P3)"
    using ev(5) assms(12) by (simp add: conn_step_def ev_upd_def c2_def P2_def P1_def P3_def c3_def)
  define P4 where "P4 = P3\<lparr>dp_mEventProcessingSequenceMap := (seq_map P3)(?k := None)\<rparr>"
  have 4: "conn_step Connect_Ok f c3 P3 = Some (c3\<lparr>dc_pc := AtReturn ?p\<rparr>, P4)"
    using ev by (simp add: conn_step_def PostFireEvent_def ev_upd_def P4_def P3_def P2_def P1_def c3_def Let_def e_def DBEvent_new_def)
  define P5 where "P5 = (if ret then P4\<lparr>dp_EventReturnList := dp_EventReturnList P4 @ [?p]\<rparr> else P4\<lparr>dp_heap := (dp_heap P4)(?p := None)\<rparr>)"
  have 5: "conn_step Connect_Ok f (c3\<lparr>dc_pc := AtReturn ?p\<rparr>) P4 = Some (c3\<lparr>dc_pc := AtLoop\<rparr>, P5)"
    using ev(3) by (simp add: conn_step_def return_event_def FreeEvent_def P5_def P4_def P3_def)
  have run: "db_run (replicate 4 (DB_Conn i Connect_Ok f)) (s\<lparr>ds_pool := P1\<rparr>) =
      Some (s\<lparr>ds_pool := P5, ds_conns := (ds_conns s)[i := c3\<lparr>dc_pc := AtLoop\<rparr>]\<rparr>)"
    using assms(6) by (simp add: numeral_eq_Suc db_step_def [of "DB_Conn _ _ _"] db_conn_step_def 2 3 4 5)
  show ?thesis
    unfolding 1 using run assms(6,10,11) ev
    by (auto simp: P5_def P4_def P3_def P2_def P1_def fun_eq_iff)
qed

text \<open>C15: An event that is pushed when no event is waiting, none is to be processed and none of its kind is known to the map is fired and
  given back by four steps of a thread; the pool and the thread are idle as before, also when the event failed.\<close>

theorem db_single_event:
  assumes "0 \<notin> ids" "list_all (db_ok ids) as" "db_run as (db_init n) = Some s"
    and "sid \<notin> ids" "ucast eid \<in> ids" "sid \<noteq> 0" "i < length (ds_conns s)" "dc_pc (ds_conns s ! i) = AtLoop" "\<not> dc_bQuit (ds_conns s ! i)"
    and "dp_EventWaitingList (ds_pool s) = []" "dp_EventProcessingList (ds_pool s) = []" "seq_map (ds_pool s) (ucast eid) = None"
    and "f d = Some (iRet, d')"
  shows "\<exists>s'. db_run (DB_Push sid eid d ret # replicate 4 (DB_Conn i Connect_Ok f)) s = Some s' \<and> dc_pc (ds_conns s' ! i) = AtLoop \<and>
    dp_EventWaitingList (ds_pool s') = [] \<and> dp_EventProcessingList (ds_pool s') = [] \<and> seq_map (ds_pool s') = seq_map (ds_pool s) \<and>
    (if ret then dp_EventReturnList (ds_pool s') = dp_EventReturnList (ds_pool s) @ [dp_next (ds_pool s)] \<and>
        (\<exists>e. dp_heap (ds_pool s') (dp_next (ds_pool s)) = Some e \<and> de_iEventId e = eid \<and> de_bFired e \<and> de_data e = d')
      else dp_EventReturnList (ds_pool s') = dp_EventReturnList (ds_pool s) \<and> dp_heap (ds_pool s') = (dp_heap (ds_pool s))(dp_next (ds_pool s) := None))"
proof -
  have I: "db_inv ids s" by (rule db_reach_ok [OF assms(1-3)])
  show ?thesis
    using single_event_run [of ids s sid eid i f d iRet d' ret, OF I assms(1,4-13)] by (auto simp: db_step_def [of "DB_Push _ _ _ _"])
qed

section \<open>Runs of concrete events\<close>

lemma db_init_small: "db_init 1 = \<lparr>ds_pool = DBConnPool_new, ds_conns = [DBConn_new]\<rparr>"
    "db_init 2 = \<lparr>ds_pool = DBConnPool_new, ds_conns = [DBConn_new, DBConn_new]\<rparr>"
proof -
  have "replicate 2 DBConn_new = [DBConn_new, DBConn_new]" by (simp add: numeral_2_eq_2)
  then show "db_init 1 = \<lparr>ds_pool = DBConnPool_new, ds_conns = [DBConn_new]\<rparr>"
      "db_init 2 = \<lparr>ds_pool = DBConnPool_new, ds_conns = [DBConn_new, DBConn_new]\<rparr>"
    by (simp_all add: db_init_def)
qed

lemmas db_eval = db_step_def db_push_def db_conn_step_def db_init_small DBConnPool_new_def DBConn_new_def DBEvent_new_def AllocateEvent_def
  PushSequenceEvent_def conn_step_def InitConnector_def PopFromDBEventProcessingList_def FlushEventWaitingList_def flush_event_def ev_upd_def
  pop_processing_def pop_list_def take_event_def PostFireEvent_def return_event_def FreeEvent_def hm_insert_def Let_def

lemma ucast_key_eq: "(ucast (a :: u32) :: u64) = ucast b \<longleftrightarrow> a = b"
proof
  assume "(ucast a :: u64) = ucast b"
  then have "(ucast (ucast a :: u64) :: u32) = ucast (ucast b :: u64)" by simp
  then show "a = b" by (simp add: ucast_up_ucast_id is_up)
qed simp

lemma link_end_last: "h p = Some e \<Longrightarrow> de_pNextEvent e = NULL \<Longrightarrow> link_end h p = Some p"
  by (simp add: link_end.simps [of h p])

lemma link_end_freed: "h p = None \<Longrightarrow> link_end h p = None"
  by (simp add: link_end.simps [of h p])

text \<open>C34: Two events of one sequence and of different kinds, which the main loop pushes one after the other: a second thread can fire and
  give back the second one before the first is fired.\<close>

theorem db_order_not_kept:
  assumes "sid \<noteq> 0" "eid \<noteq> eid'" "sid \<noteq> ucast eid" "sid \<noteq> ucast eid'" "f d' = Some (iRet, d1)"
  shows "\<exists>s. db_run ([DB_Push sid eid d True, DB_Push sid eid' d' True, DB_Conn 0 Connect_Ok f] @ replicate 4 (DB_Conn 1 Connect_Ok f)) (db_init 2) = Some s \<and>
    dp_EventReturnList (ds_pool s) = [2] \<and> dc_pc (ds_conns s ! 0) = AtFire 1 \<and>
    (\<exists>e e'. dp_heap (ds_pool s) 1 = Some e \<and> dp_heap (ds_pool s) 2 = Some e' \<and> de_iSequenceId e = de_iSequenceId e' \<and> \<not> de_bFired e \<and> de_bFired e')"
proof -
  have "(ucast eid :: u64) \<noteq> ucast eid'" using assms(2) by (simp add: ucast_key_eq)
  then show ?thesis using assms by (simp add: db_eval numeral_eq_Suc)
qed

text \<open>Two events of a kind, whose results nobody asks for: the first one is freed, and the map keeps it.\<close>

lemma two_of_a_kind_run:
  assumes "sid \<noteq> 0" "sid' \<noteq> 0" "sid \<noteq> ucast eid" "f d = Some (r, x)"
  shows "\<exists>s. db_run ([DB_Push sid eid d False, DB_Push sid' eid d' False] @ replicate 4 (DB_Conn 0 Connect_Ok f)) (db_init 1) = Some s \<and>
      seq_map (ds_pool s) = [ucast eid \<mapsto> 1] \<and> dp_heap (ds_pool s) 1 = None \<and> dp_EventWaitingList (ds_pool s) = [] \<and>
      dp_EventProcessingList (ds_pool s) = [] \<and> dp_next (ds_pool s) = 3 \<and>
      ds_conns s = [\<lparr>dc_pMySQL = (if r < 0 then MySQL_NULL else MySQL_Open), dc_bQuit = False, dc_iLastEventSequenceId = sid, dc_pc = AtLoop\<rparr>]"
  using assms by (simp add: db_eval numeral_eq_Suc link_end_last)

lemma freed_head_crash:
  assumes "seq_map (ds_pool s) (ucast eid) = Some h" "dp_heap (ds_pool s) h = None" "dp_EventProcessingList (ds_pool s) = []"
    and "dp_EventWaitingList (ds_pool s) = q # qs" "dp_heap (ds_pool s) q = Some e" "de_bSequence e" "de_iEventId e = eid"
    and "ds_conns s = [\<lparr>dc_pMySQL = h', dc_bQuit = False, dc_iLastEventSequenceId = sid, dc_pc = AtLoop\<rparr>]" "seq_map (ds_pool s) sid = None"
  shows "db_conn_step 0 Connect_Ok f s = None"
  using assms by (auto simp: db_conn_step_def conn_step_def InitConnector_def PopFromDBEventProcessingList_def FlushEventWaitingList_def flush_event_def
      link_end_freed Let_def)

text \<open>C33: When data is saved twice before a thread gets to it and once more afterwards, by the same or by other players and without
  results being asked for, the thread appends the third event to the first one, which is freed.\<close>

theorem db_save_uses_freed_event:
  assumes "sid \<noteq> 0" "sid' \<noteq> 0" "sid'' \<noteq> 0" "sid \<noteq> ucast eid" "f d = Some (r, x)"
  shows "\<exists>s. db_run ([DB_Push sid eid d False, DB_Push sid' eid d' False] @ replicate 4 (DB_Conn 0 Connect_Ok f)) (db_init 1) = Some s \<and>
    seq_map (ds_pool s) (ucast eid) = Some 1 \<and> dp_heap (ds_pool s) 1 = None \<and>
    db_run [DB_Push sid'' eid d'' False, DB_Conn 0 Connect_Ok f] s = None"
proof -
  obtain s where s: "db_run ([DB_Push sid eid d False, DB_Push sid' eid d' False] @ replicate 4 (DB_Conn 0 Connect_Ok f)) (db_init 1) = Some s"
      "seq_map (ds_pool s) = [ucast eid \<mapsto> 1]" "dp_heap (ds_pool s) 1 = None" "dp_EventWaitingList (ds_pool s) = []"
      "dp_EventProcessingList (ds_pool s) = []" "dp_next (ds_pool s) = 3"
      "ds_conns s = [\<lparr>dc_pMySQL = (if r < 0 then MySQL_NULL else MySQL_Open), dc_bQuit = False, dc_iLastEventSequenceId = sid, dc_pc = AtLoop\<rparr>]"
    using two_of_a_kind_run [of sid sid' eid f d r x d', OF assms(1,2,4,5)] by blast
  obtain s1 where s1: "db_push sid'' eid d'' False s = Some s1" "ds_conns s1 = ds_conns s" "seq_map (ds_pool s1) = seq_map (ds_pool s)"
      "dp_EventProcessingList (ds_pool s1) = []" "dp_EventWaitingList (ds_pool s1) = [3]" "dp_heap (ds_pool s1) 1 = None"
      "\<exists>e. dp_heap (ds_pool s1) 3 = Some e \<and> de_bSequence e \<and> de_iEventId e = eid"
    using assms(3) s(3-6) by (simp add: db_push_def AllocateEvent_def PushSequenceEvent_def ev_upd_def DBEvent_new_def Let_def)
  have "db_conn_step 0 Connect_Ok f s1 = None"
    using freed_head_crash [of s1 eid 1 3 "[]" _ _ sid f] s1 s(2,7) assms(4) by auto
  then show ?thesis using s(1-3) s1(1) by (auto simp: db_step_def)
qed

section \<open>Witnesses\<close>

definition demo_fire :: "nat \<Rightarrow> (int \<times> nat) option" where
  "demo_fire d = Some (0, Suc d)"

lemma demo_two_threads: "\<exists>s. db_run [DB_Push 100 1 7 True, DB_Push 100 3 8 True, DB_Conn 0 Connect_Ok demo_fire, DB_Conn 1 Connect_Ok demo_fire] (db_init 2) = Some s \<and>
    length (ds_conns s) = 2 \<and> dc_pc (ds_conns s ! 0) = AtFire 1 \<and> dc_pc (ds_conns s ! 1) = AtFire 2"
  by (simp add: db_eval)

theorem db_mutual_exclusion_witness: "\<exists>s e. db_run [DB_Push 100 1 7 True, DB_Push 100 3 8 True, DB_Conn 0 Connect_Ok demo_fire, DB_Conn 1 Connect_Ok demo_fire]
      (db_init 2) = Some s \<and> dp_heap (ds_pool s) 1 = Some e \<and> \<not> de_bFired e \<and>
    (\<forall>j < length (ds_conns s). \<forall>q \<in> fires (ds_conns s ! j). \<forall>e'. dp_heap (ds_pool s) q = Some e' \<longrightarrow> de_iEventId e' = de_iEventId e \<longrightarrow> j = 0)"
proof -
  let ?as = "[DB_Push 100 1 7 True, DB_Push 100 3 8 True, DB_Conn 0 Connect_Ok demo_fire, DB_Conn 1 Connect_Ok demo_fire]"
  obtain s where s: "db_run ?as (db_init 2) = Some s" "length (ds_conns s) = 2" "dc_pc (ds_conns s ! 0) = AtFire 1" using demo_two_threads by blast
  have ok: "list_all (db_ok {1, 3}) ?as" by (simp add: db_ok_def)
  show ?thesis using db_mutual_exclusion [of "{1, 3}" ?as 2 s 0 1] s ok by (auto simp: fires_def)
qed

lemma demo_chain: "\<exists>s s1 s2 e e'. db_run [DB_Push 100 3 7 True, DB_Push 100 3 8 True, DB_Conn 0 Connect_Ok demo_fire, DB_Conn 0 Connect_Ok demo_fire] (db_init 1) = Some s \<and>
    length (ds_conns s) = 1 \<and> dc_pc (ds_conns s ! 0) = AtPost 1 \<and> dp_heap (ds_pool s) 1 = Some e \<and> de_pNextEvent e = 2 \<and> de_iEventId e = 3 \<and>
    db_conn_step 0 Connect_Ok demo_fire s = Some s1 \<and> db_run [DB_Push 100 3 9 True, DB_Push 100 1 9 True, DB_Conn 0 Connect_Ok demo_fire, DB_Conn 0 Connect_Ok demo_fire] s1 = Some s2 \<and>
    length (ds_conns s2) = 1 \<and> dc_pc (ds_conns s2 ! 0) = AtFire 4 \<and> dp_heap (ds_pool s2) 4 = Some e' \<and> de_iEventId e' = 1"
  by (simp add: db_eval link_end_last demo_fire_def link_end.simps)

theorem db_kind_dies_witness: "\<exists>s s1 s2 e e'. dp_heap (ds_pool s) 1 = Some e \<and> de_pNextEvent e \<noteq> NULL \<and> db_conn_step 0 Connect_Ok demo_fire s = Some s1 \<and>
    db_run [DB_Push 100 3 9 True, DB_Push 100 1 9 True, DB_Conn 0 Connect_Ok demo_fire, DB_Conn 0 Connect_Ok demo_fire] s1 = Some s2 \<and>
    dc_pc (ds_conns s2 ! 0) = AtFire 4 \<and> dp_heap (ds_pool s2) 4 = Some e' \<and> de_iEventId e' \<noteq> de_iEventId e"
proof -
  let ?as = "[DB_Push 100 3 7 True, DB_Push 100 3 8 True, DB_Conn 0 Connect_Ok demo_fire, DB_Conn 0 Connect_Ok demo_fire]"
    and ?as' = "[DB_Push 100 3 9 True, DB_Push 100 1 9 True, DB_Conn 0 Connect_Ok demo_fire, DB_Conn 0 Connect_Ok demo_fire]"
  obtain s s1 s2 e e' where s: "db_run ?as (db_init 1) = Some s" "length (ds_conns s) = 1" "dc_pc (ds_conns s ! 0) = AtPost 1" "dp_heap (ds_pool s) 1 = Some e"
      "de_pNextEvent e = 2" "db_conn_step 0 Connect_Ok demo_fire s = Some s1" "db_run ?as' s1 = Some s2" "length (ds_conns s2) = 1"
      "dc_pc (ds_conns s2 ! 0) = AtFire 4" "dp_heap (ds_pool s2) 4 = Some e'"
    using demo_chain by blast
  have ok: "list_all (db_ok {1, 3}) (?as @ ?as')" by (simp add: db_ok_def)
  have q: "\<exists>j < length (ds_conns s2). 4 \<in> fires (ds_conns s2 ! j)" using s(8,9) by (intro exI [of _ 0]) (simp add: fires_def)
  have "de_iEventId e' \<noteq> de_iEventId e"
    by (rule db_kind_dies [OF _ ok s(1) _ s(3,4) _ s(6,7) disjI2 [OF q] s(10)]) (use s in simp_all)
  moreover have "de_pNextEvent e \<noteq> NULL" using s(5) by simp
  ultimately show ?thesis using s by blast
qed

theorem db_single_event_witness: "\<exists>s'. db_run (DB_Push 100 1 7 True # replicate 4 (DB_Conn 0 Connect_Ok demo_fire)) (db_init 1) = Some s' \<and>
    dp_EventReturnList (ds_pool s') = [1] \<and> (\<exists>e. dp_heap (ds_pool s') 1 = Some e \<and> de_bFired e \<and> de_data e = 8)"
  using db_single_event [of "{1}" "[]" 1 "db_init 1" 100 1 0 demo_fire 7 0 8 True]
  by (auto simp: db_init_small DBConnPool_new_def DBConn_new_def demo_fire_def)

theorem db_order_not_kept_witness: "\<exists>s. db_run ([DB_Push 100 1 7 True, DB_Push 100 3 8 True, DB_Conn 0 Connect_Ok demo_fire] @
      replicate 4 (DB_Conn 1 Connect_Ok demo_fire)) (db_init 2) = Some s \<and> dp_EventReturnList (ds_pool s) = [2]"
  using db_order_not_kept [of 100 1 3 demo_fire 8 0 9 7] by (auto simp: demo_fire_def)

theorem db_save_uses_freed_event_witness: "\<exists>s. db_run ([DB_Push 100 5 7 False, DB_Push 200 5 8 False] @ replicate 4 (DB_Conn 0 Connect_Ok demo_fire)) (db_init 1) = Some s \<and>
    db_run [DB_Push 100 5 9 False, DB_Conn 0 Connect_Ok demo_fire] s = None"
  using db_save_uses_freed_event [of 100 200 100 5 demo_fire 7 0 8 8 9] by (auto simp: demo_fire_def)

end
