(* ===== verification/CacheLoopProps.thy ===== *)
theory CacheLoopProps
  imports CacheLoopInv CacheDBProps
begin

text \<open>
  The properties of the cache server: the registry of players in every reachable state, the list of avatars from the request of a client through
  the database to the answer, what a logout does in every state, and the periodic saving with two players.
\<close>

lemma ctr_facts [simp]:
  "ctr 0 0 = Some 1" "ctr 1 1 = Some 2" "ctr 5 1 = Some 2" "ctr 2 2 = Some 3" "ctr 3 3 = Some 4" "ctr 4 4 = Some 5" "ctr 5 5 = Some 6" "ctr 6 6 = Some 7"
  "ctr s 7 = (if s \<in> {1, 3, 5, 6, 7} then Some 8 else None)"
  by (simp_all add: ctr_def rows_of_def cache_table_def)

interpretation cache: guarded_system "cache_step E" cache_ok "\<lambda>m. (\<forall>f. set (ce_order E f) \<subseteq> ran f) \<and> cache_inv m" for E
  by unfold_locales (blast intro: cache_step_inv)

text \<open>C17: The registry.  Start the server and let any sequence of commands, results, alarms and steps of the database threads happen.  At
  its end a session in the map is a
  logged-in player of its own with this session id, the players to be deleted are in use, a player that is not in use is in its first state, and the pool
  never hands out a player twice: unless the run comes, in a state in which all this still holds, to a step that is undefined
  or outside \<open>cache_ok\<close>: the deletion of two or more waiting players in one round, or a login under a session id that, as a number, is the
  id of an event (1 to 6, 999) and so collides in the map of the database pool.\<close>

theorem cache_registry:
  assumes "CacheServerLoop_Init E = Some m0" "\<And>f. set (ce_order E f) \<subseteq> ran f"
  shows "\<exists>bs cs m. as = bs @ cs \<and> orun (cache_step E) bs m0 = Some m \<and> (cs = [] \<or> \<not> cache_ok (hd cs) m \<or> cache_step E (hd cs) m = None) \<and>
    (\<forall>s p. cl_mPlayerContextBySessionId m s = Some p \<longrightarrow> p \<in> set (ob_out (cl_PlayerContextPool m)) \<and> cp_iSessionId (cl_ctx m p) = s \<and>
      cache_curr p m \<noteq> cst PLAYER_STATE_NONE) \<and>
    inj_on (cl_mPlayerContextBySessionId m) (dom (cl_mPlayerContextBySessionId m)) \<and>
    set (cl_PlayerFinalizingQueue m) \<subseteq> {p \<in> set (ob_out (cl_PlayerContextPool m)). cp_bFinalizing (cl_ctx m p)} \<and>
    (\<forall>p. p \<notin> set (ob_out (cl_PlayerContextPool m)) \<longrightarrow> cache_curr p m = cst PLAYER_STATE_NONE \<and> \<not> cp_bFinalizing (cl_ctx m p)) \<and>
    distinct (ob_out (cl_PlayerContextPool m)) \<and> length (ob_out (cl_PlayerContextPool m)) \<le> unat (ob_iMaxSize (cl_PlayerContextPool m))"
proof -
  have "(\<forall>f. set (ce_order E f) \<subseteq> ran f) \<and> cache_inv m0" using assms Init_inv by blast
  then obtain bs cs m where run: "as = bs @ cs" "orun (cache_step E) bs m0 = Some m"
      "cs = [] \<or> \<not> cache_ok (hd cs) m \<or> cache_step E (hd cs) m = None" and I: "cache_inv m"
    using cache.run_until [of E m0 as] by blast
  have "op_inv (cl_PlayerContextPool m)" using I by (simp add: cache_inv_def)
  moreover have "inj_on (cl_mPlayerContextBySessionId m) (dom (cl_mPlayerContextBySessionId m))"
  proof (rule inj_onI)
    fix s t assume "s \<in> dom (cl_mPlayerContextBySessionId m)" "cl_mPlayerContextBySessionId m s = cl_mPlayerContextBySessionId m t"
    then obtain p where p: "cl_mPlayerContextBySessionId m s = Some p" "cl_mPlayerContextBySessionId m t = Some p" by force
    have "cp_iSessionId (cl_ctx m p) = u" if "cl_mPlayerContextBySessionId m u = Some p" for u using I that unfolding cache_inv_def by blast
    then show "s = t" using p by metis
  qed
  ultimately show ?thesis
  proof (intro exI conjI)
    show "as = bs @ cs" "cache_run E bs m0 = Some m" "cs = [] \<or> \<not> cache_ok (hd cs) m \<or> cache_step E (hd cs) m = None" by (fact run)+
  qed (use I in \<open>auto simp: cache_inv_def op_inv_def word_le_nat_alt\<close>)
qed

text \<open>What a logout request does.  In the five states in which nothing is awaited from the database the player goes to its last
  state and, in this order, the events for leaving the region, if it has entered one, and for finalizing the player are pushed; in the others,
  while the list of avatars or an avatar is awaited, nothing happens at all: the request is lost and the player stays.\<close>

theorem cache_logout:
  assumes "cache_reach E m" "\<And>f. set (ce_order E f) \<subseteq> ran f" "\<And>k. ce_alloc E k"
    and "cl_iShutdownStatus m = NOT_SHUTDOWN" "cl_mPlayerContextBySessionId m sid = Some p" "\<not> cp_bFinalizing (cl_ctx m p)" "sid \<noteq> 0"
  shows "if cache_curr p m \<in> cst ` {PLAYER_STATE_ONLOGINREQ, PLAYER_STATE_AVATARLISTACK, PLAYER_STATE_AVATARSELECTACK, PLAYER_STATE_ONREGIONENTERREQ, PLAYER_STATE_REGIONENTERACK}
    then \<exists>m' new. cache_step E (CA_Command (COMMAND_ONLOGOUTREQ sid)) m = Some m' \<and> cache_curr p m' = cst PLAYER_STATE_ONLOGOUTREQ \<and>
      dp_EventWaitingList (ds_pool (cl_db m')) = dp_EventWaitingList (ds_pool (cl_db m)) @ new \<and>
      map (\<lambda>q. map_option (\<lambda>e. (de_iSequenceId e, pd_data (de_data e))) (dp_heap (ds_pool (cl_db m')) q)) new =
        (if ca_bEnterRegion (cp_AvatarContext (cl_ctx m p)) then [Some (ucast sid, AvatarLogout (ca_iAvatarId (cp_AvatarContext (cl_ctx m p))))] else []) @
        [Some (ucast sid, AvatarFinalize)]
    else cache_step E (CA_Command (COMMAND_ONLOGOUTREQ sid)) m = Some m"
proof -
  have I: "cache_inv m" by (rule cache_reach_inv [OF assms(1,2)])
  then have p: "cache_machine_ok (cp_StateMachine (cl_ctx m p))" "cp_iSessionId (cl_ctx m p) = sid" using assms(5) by (auto simp: cache_inv_def)
  have s0: "(ucast sid :: u64) \<noteq> 0" using ucast_key_eq [of sid 0] assms(7) by simp
  have step: "cache_step E (CA_Command (COMMAND_ONLOGOUTREQ sid)) m = CachePlayer_OnLogoutReq E p m"
    using assms(4,5) by (simp add: cache_step_def Cache_OnCommand_def cache_by_session_def)
  show ?thesis
  proof (cases "cache_curr p m \<in> {1, 3, 5, 6, 7}")
    case False
    then show ?thesis unfolding step CachePlayer_OnLogoutReq_def cache_fsm_eq [OF p(1)] by simp
  next
    case True
    have n: "dp_next (ds_pool (cl_db m)) \<noteq> Suc (dp_next (ds_pool (cl_db m)))" by simp
    show ?thesis
      unfolding step CachePlayer_OnLogoutReq_def cache_fsm_eq [OF p(1)] using True s0 assms(3,6) p(2) n
      by (auto simp: Cache_ctx_upd_def CachePlayer_OnAvatarLogoutReq_def Cache_ShutdownPlayer_def CachePlayer_Shutdown_def bNeedSave_def cache_curr_def
          GetCurrState_def SetCurrState_def new_event_def push_event_def db_push_def AllocateEvent_def PushSequenceEvent_def ev_upd_def DBEvent_new_def Let_def)
  qed
qed


section \<open>The list of avatars\<close>

lemma cache_run_threads: "cache_run E (replicate k (CA_Thread i r q)) m =
    map_option (\<lambda>db. m\<lparr>cl_db := db\<rparr>) (db_run (replicate k (DB_Conn i r (FireEvent E q))) (cl_db m))"
proof (induction k arbitrary: m)
  case (Suc k)
  then show ?case by (cases "db_conn_step i r (FireEvent E q) (cl_db m)") (auto simp: cache_step_def db_step_def)
qed simp

lemma arr_less: "arr xs i = Some x \<Longrightarrow> unat i < length xs"
  by (simp add: arr_def split: if_splits)

lemma avatar_rows_len: "avatar_rows conv rows (n, as) = Some (ok, n', as') \<Longrightarrow> unat n \<le> length as \<Longrightarrow> length as < 255 \<Longrightarrow> length as' = length as \<and> unat n' \<le> length as"
proof (induction rows arbitrary: n as)
  case (Cons row rows)
  have "unat n < length as" using Cons.prems(1) by (cases "arr as n") (auto dest: arr_less)
  moreover from this have "unat (n + 1) = Suc (unat n)" using Cons.prems(3) by (intro unat_succ_less [of n "255"]) (simp add: word_less_nat_alt)
  moreover have "(\<exists>as1. length as1 = length as \<and> avatar_rows conv rows (n + 1, as1) = Some (ok, n', as')) \<or> n' = n \<and> length as' = length as"
    using Cons.prems(1) by (auto simp: Let_def split: Option.bind_splits option.splits)
  ultimately show ?case using Cons.IH [of "n + 1"] Cons.prems(3) by (metis Suc_leI less_imp_le_nat)
qed auto


lemma length_ftdAvatar_bytes: "length (fa_strAvatarName a) \<le> 33 \<Longrightarrow> length (ftdAvatar_bytes a) = 48"
  by (simp add: ftdAvatar_bytes_def le64_def name_bytes_def)

lemma convert_list_names: "convert_list E as = Some bs \<Longrightarrow> length bs = length as \<and> (\<forall>b \<in> set bs. length (fa_strAvatarName b) \<le> 32)"
  by (induction as arbitrary: bs) (auto simp: prdAvatar2ftdAvatar_def WChar2Char_def split: Option.bind_splits if_splits)

lemma list_bytes: "\<forall>b \<in> set bs. length (fa_strAvatarName b) \<le> 32 \<Longrightarrow> length (concat (map ftdAvatar_bytes bs)) = 48 * length bs"
  by (induction bs) (auto simp: length_ftdAvatar_bytes)

text \<open>The answer to a list of avatars.\<close>

lemma ListResult_eq:
  assumes p: "cache_machine_ok (cp_StateMachine (cl_ctx m p))" "cache_curr p m = cst PLAYER_STATE_ONAVATARLISTREQ"
    and n: "unat n \<le> AVATARCOUNT_MAX" "length as = AVATARCOUNT_MAX" and bs: "convert_list E (take (unat n) as) = Some bs"
  shows "\<exists>m'. OnPlayerEventGetAvatarListResult E p 0 n as m = Some m' \<and> cache_curr p m' = cst PLAYER_STATE_AVATARLISTACK \<and>
    cp_iAvatarCount (cl_ctx m' p) = n \<and> cp_arrayAvatar (cl_ctx m' p) = as \<and>
    cl_sent m' = cl_sent m @ [(CM_PacketForward (cp_iSessionId (cl_ctx m p)) 0x0300 (le32 0 @ n # le16 (ucast n) @ concat (map ftdAvatar_bytes bs)),
      ce_net E (length (cl_sent m)))]"
proof -
  have b: "length bs = unat n" "length (concat (map ftdAvatar_bytes bs)) \<le> 480"
    using convert_list_names [OF bs] list_bytes [of bs] n by auto
  have r: "mem_read (bs @ replicate (10 - length bs) ftdAvatar_new) 0 (unat n) = Some bs" using b(1) n(1) by simp
  show ?thesis
    unfolding OnPlayerEventGetAvatarListResult_def cache_fsm_eq [OF p(1)] using p(2) n bs b r
    by (simp add: Cache_ctx_upd_def Send_AvatarListAck_def Cache_SendPacket_def Cache_DelaySendData_def cache_forward_def cache_send_def Let_def
        cache_curr_def GetCurrState_def SetCurrState_def)
qed


lemma Fire_list:
  assumes "length acc \<le> NAME_MAX" "q (lit ''call SP_GetAvatarList('' @ quoted acc @ lit '');'') = Query_Rows rows"
    and "avatar_rows (ce_wide E) rows (0, replicate AVATARCOUNT_MAX prdAvatar_new) = Some (True, n, as)"
  shows "FireEvent E q \<lparr>pd_iSessionId = sid, pd_iRet = 0, pd_data = GetAvatarList_new acc\<rparr> =
    Some (0, \<lparr>pd_iSessionId = sid, pd_iRet = 0, pd_data = GetAvatarList acc n as\<rparr>)"
proof -
  have "statement (lit ''call SP_GetAvatarList('' @ quoted acc @ lit '');'') = Some (lit ''call SP_GetAvatarList('' @ quoted acc @ lit '');'')"
    using assms(1) by (simp add: statement_def wcscpy_s_def lit_def quoted_def)
  then show ?thesis using assms(2,3) by (simp add: FireEvent_def GetAvatarList_new_def run_query_def)
qed

text \<open>C38: The list of avatars, from the request to the answer: a player that may ask sends the request, a thread of the idle database
  runs the statement with its account name, and the loop takes the result; the context then has the avatars of the rows, and one packet
  with them goes to the master server under the id of the session.\<close>

theorem cache_avatar_list:
  assumes "cache_reach E m" "\<And>f. set (ce_order E f) \<subseteq> ran f" "\<And>k. ce_alloc E k" "cl_iShutdownStatus m = NOT_SHUTDOWN"
    and "cl_mPlayerContextBySessionId m sid = Some p" "sid \<noteq> 0" "cache_curr p m \<in> cst ` {PLAYER_STATE_ONLOGINREQ, PLAYER_STATE_AVATARSELECTACK}"
    and "ce_recv E t d = Some AvatarListReq" "length (cp_strAccountName (cl_ctx m p)) \<le> NAME_MAX"
    and "dp_EventWaitingList (ds_pool (cl_db m)) = []" "dp_EventProcessingList (ds_pool (cl_db m)) = []" "dp_EventReturnList (ds_pool (cl_db m)) = []"
    and "seq_map (ds_pool (cl_db m)) 1 = None" "i < length (ds_conns (cl_db m))" "dc_pc (ds_conns (cl_db m) ! i) = AtLoop" "\<not> dc_bQuit (ds_conns (cl_db m) ! i)"
    and "q (lit ''call SP_GetAvatarList('' @ quoted (cp_strAccountName (cl_ctx m p)) @ lit '');'') = Query_Rows rows"
    and "avatar_rows (ce_wide E) rows (0, replicate AVATARCOUNT_MAX prdAvatar_new) = Some (True, n, as)" "convert_list E (take (unat n) as) = Some bs"
  shows "\<exists>m'. cache_run E (CA_Command (COMMAND_PACKETFORWARD sid t d) # replicate 4 (CA_Thread i Connect_Ok q) @ [CA_Result]) m = Some m' \<and>
    cache_curr p m' = cst PLAYER_STATE_AVATARLISTACK \<and> cp_iAvatarCount (cl_ctx m' p) = n \<and> cp_arrayAvatar (cl_ctx m' p) = as \<and>
    cl_sent m' = cl_sent m @ [(CM_PacketForward sid 0x0300 (le32 0 @ n # le16 (ucast n) @ concat (map ftdAvatar_bytes bs)), ce_net E (length (cl_sent m)))]"
proof -
  have I: "cache_inv m" by (rule cache_reach_inv [OF assms(1,2)])
  then have p: "cache_machine_ok (cp_StateMachine (cl_ctx m p))" "cp_iSessionId (cl_ctx m p) = sid" "ucast sid \<notin> cids" and D: "db_inv cids (cl_db m)"
    using assms(5) unfolding cache_inv_def by blast+
  have s0: "(ucast sid :: u64) \<noteq> 0" using ucast_key_eq [of sid 0] assms(6) by simp
  let ?acc = "cp_strAccountName (cl_ctx m p)"
  let ?d = "\<lparr>pd_iSessionId = sid, pd_iRet = 0, pd_data = GetAvatarList_new ?acc\<rparr>"
  note F = Fire_list [of ?acc q rows E n as sid, OF assms(9,17,18)]
  have e1: "(ucast (1 :: u32) :: u64) = 1" by simp
  obtain db1 db2 where db: "db_push (ucast sid) 1 ?d True (cl_db m) = Some db1" "db_run (replicate 4 (DB_Conn i Connect_Ok (FireEvent E q))) db1 = Some db2"
      "dp_EventReturnList (ds_pool db2) = [dp_next (ds_pool (cl_db m))]"
      "\<exists>e. dp_heap (ds_pool db2) (dp_next (ds_pool (cl_db m))) = Some e \<and> de_data e = \<lparr>pd_iSessionId = sid, pd_iRet = 0, pd_data = GetAvatarList ?acc n as\<rparr>"
    using single_event_run [of cids "cl_db m" "ucast sid" 1 i "FireEvent E q" ?d 0 _ True, OF D cids_0 p(3) _ s0 assms(14-16,10,11) _ F]
      assms(12,13) e1 by (auto simp: cids_def)
  have nx: "dp_next (ds_pool (cl_db m)) \<noteq> NULL" using D by (simp add: db_inv_def pool_inv_def)
  let ?m1 = "Cache_ctx_upd p (\<lambda>c. c\<lparr>cp_StateMachine := SetCurrState (cst PLAYER_STATE_ONAVATARLISTREQ) (cp_StateMachine c)\<rparr>) m\<lparr>cl_iAllocated := Suc (cl_iAllocated m), cl_db := db1\<rparr>"
  have ctr: "ctr (cache_curr p m) (cev PLAYER_EVENT_ONAVATARLISTREQ) = Some (cst PLAYER_STATE_ONAVATARLISTREQ)" using assms(7) by auto
  have 1: "cache_step E (CA_Command (COMMAND_PACKETFORWARD sid t d)) m = Some ?m1"
    using assms(3-5,8,9) p(1,2) ctr db(1)
    by (simp add: cache_step_def Cache_OnCommand_def Cache_OnCommandPacketForward_def cache_by_session_def cache_on_packet_def CachePlayer_OnAvatarListReq_def
        cache_fsm_eq new_event_def push_event_def wcscpy_s_def Cache_ctx_upd_def event_id_def GetAvatarList_new_def Let_def)
  let ?m3 = "?m1\<lparr>cl_db := snd (db_pop db2)\<rparr>"
  have len: "length as = AVATARCOUNT_MAX" "unat n \<le> AVATARCOUNT_MAX" using avatar_rows_len [OF assms(18)] by simp_all
  have c3: "cache_machine_ok (cp_StateMachine (cl_ctx ?m3 p))" "cache_curr p ?m3 = cst PLAYER_STATE_ONAVATARLISTREQ"
    using p(1) by (simp_all add: Cache_ctx_upd_def cache_curr_def GetCurrState_def SetCurrState_def cache_machine_ok_def)
  obtain m' where m': "OnPlayerEventGetAvatarListResult E p 0 n as ?m3 = Some m'" "cache_curr p m' = cst PLAYER_STATE_AVATARLISTACK"
      "cp_iAvatarCount (cl_ctx m' p) = n" "cp_arrayAvatar (cl_ctx m' p) = as"
      "cl_sent m' = cl_sent m @ [(CM_PacketForward sid 0x0300 (le32 0 @ n # le16 (ucast n) @ concat (map ftdAvatar_bytes bs)), ce_net E (length (cl_sent m)))]"
    using ListResult_eq [OF c3 len(2,1) assms(19)] p(2) by (auto simp: Cache_ctx_upd_def)
  have "cache_step E CA_Result (?m1\<lparr>cl_db := db2\<rparr>) = Some m'"
    using m'(1) db(3,4) nx assms(5)
    by (auto simp: cache_step_def cache_pop_result_def db_pop_def PopFromDBEventReturnList_def pop_list_def Let_def Cache_OnPlayerEventResult_def Cache_ctx_upd_def)
  then have "cache_run E (CA_Command (COMMAND_PACKETFORWARD sid t d) # replicate 4 (CA_Thread i Connect_Ok q) @ [CA_Result]) m = Some m'"
    unfolding orun.simps(2) 1 by (simp add: orun_append cache_run_threads db(2))
  then show ?thesis using m' by blast
qed


section \<open>Saving\<close>

lemma SaveDataReq_eq:
  assumes "ce_alloc E (cl_iAllocated m)" "length (ca_strAvatarName (cp_AvatarContext (cl_ctx m p))) \<le> NAME_MAX" "cp_iSessionId (cl_ctx m p) \<noteq> 0"
  shows "\<exists>db f. CachePlayer_OnSaveDataReq E p False m = Some (Cache_ctx_upd p f (m\<lparr>cl_iAllocated := Suc (cl_iAllocated m), cl_db := db\<rparr>)) \<and>
    db_push (ucast (cp_iSessionId (cl_ctx m p))) 5 \<lparr>pd_iSessionId = cp_iSessionId (cl_ctx m p), pd_iRet = 0,
      pd_data = AvatarSaveData (ca_strAvatarName (cp_AvatarContext (cl_ctx m p))) (ca_iLastChannelId (cp_AvatarContext (cl_ctx m p)))\<rparr> False (cl_db m) = Some db \<and>
    cp_iNextSaveDataTime (f (cl_ctx m p)) = cl_dwCurrTime m + ce_iSaveDBInterval E \<and> cp_iSessionId (f (cl_ctx m p)) = cp_iSessionId (cl_ctx m p) \<and>
    cp_bFinalizing (f (cl_ctx m p)) = cp_bFinalizing (cl_ctx m p) \<and>
    ca_strAvatarName (cp_AvatarContext (f (cl_ctx m p))) = ca_strAvatarName (cp_AvatarContext (cl_ctx m p))"
  using assms ucast_key_eq [of "cp_iSessionId (cl_ctx m p)" 0]
  by (auto simp: CachePlayer_OnSaveDataReq_def new_event_def push_event_def wcscpy_s_def event_id_def db_push_def AllocateEvent_def PushSequenceEvent_def
      ev_upd_def Let_def intro!: exI [of _ "\<lambda>c. c\<lparr>cp_AvatarContext := (cp_AvatarContext c)\<lparr>ca_arrayDirty := [False, False]\<rparr>,
         cp_iNextSaveDataTime := cl_dwCurrTime m + ce_iSaveDBInterval E\<rparr>"])

text \<open>The alarm with two players that are due: two events, and the players are due again after the interval.\<close>

definition due :: "ptr \<Rightarrow> u32 \<Rightarrow> CacheServerLoop \<Rightarrow> bool" where
  "due p sid m \<longleftrightarrow> \<not> cp_bFinalizing (cl_ctx m p) \<and> cp_iNextSaveDataTime (cl_ctx m p) \<le> cl_dwCurrTime m \<and> cp_iSessionId (cl_ctx m p) = sid \<and> sid \<noteq> 0 \<and>
     length (ca_strAvatarName (cp_AvatarContext (cl_ctx m p))) \<le> NAME_MAX"

lemma SaveData_two:
  assumes "\<And>k. ce_alloc E k" "cl_iShutdownStatus m = NOT_SHUTDOWN" "ce_order E (cl_mPlayerContextBySessionId m) = [p1, p2]" "p1 \<noteq> p2"
    and d: "due p1 s1 m" "due p2 s2 m"
  shows "\<exists>m' d1 d2. Cache_SaveDataToDB E m = Some m' \<and> db_run [DB_Push (ucast s1) 5 d1 False, DB_Push (ucast s2) 5 d2 False] (cl_db m) = Some (cl_db m') \<and>
    (\<exists>n c. d1 = \<lparr>pd_iSessionId = s1, pd_iRet = 0, pd_data = AvatarSaveData n c\<rparr>) \<and>
    (\<forall>y. due p1 s1 (m'\<lparr>cl_db := y, cl_dwCurrTime := cl_dwCurrTime m + ce_iSaveDBInterval E\<rparr>)) \<and>
    (\<forall>y. due p2 s2 (m'\<lparr>cl_db := y, cl_dwCurrTime := cl_dwCurrTime m + ce_iSaveDBInterval E\<rparr>)) \<and>
    cl_iShutdownStatus m' = NOT_SHUTDOWN \<and> cl_mPlayerContextBySessionId m' = cl_mPlayerContextBySessionId m"
proof -
  obtain db f where 1: "CachePlayer_OnSaveDataReq E p1 False m = Some (Cache_ctx_upd p1 f (m\<lparr>cl_iAllocated := Suc (cl_iAllocated m), cl_db := db\<rparr>))"
      "db_push (ucast s1) 5 \<lparr>pd_iSessionId = s1, pd_iRet = 0,
        pd_data = AvatarSaveData (ca_strAvatarName (cp_AvatarContext (cl_ctx m p1))) (ca_iLastChannelId (cp_AvatarContext (cl_ctx m p1)))\<rparr> False (cl_db m) = Some db"
      "cp_iNextSaveDataTime (f (cl_ctx m p1)) = cl_dwCurrTime m + ce_iSaveDBInterval E" "cp_iSessionId (f (cl_ctx m p1)) = s1"
      "\<not> cp_bFinalizing (f (cl_ctx m p1))" "ca_strAvatarName (cp_AvatarContext (f (cl_ctx m p1))) = ca_strAvatarName (cp_AvatarContext (cl_ctx m p1))"
    using SaveDataReq_eq [of E m p1] assms(1) d(1) by (auto simp: due_def)
  let ?m1 = "Cache_ctx_upd p1 f (m\<lparr>cl_iAllocated := Suc (cl_iAllocated m), cl_db := db\<rparr>)"
  have d2: "due p2 s2 ?m1" "cl_ctx ?m1 p2 = cl_ctx m p2" "cl_dwCurrTime ?m1 = cl_dwCurrTime m" using d(2) assms(4) by (simp_all add: due_def Cache_ctx_upd_def)
  obtain db' f' where 2: "CachePlayer_OnSaveDataReq E p2 False ?m1 = Some (Cache_ctx_upd p2 f' (?m1\<lparr>cl_iAllocated := Suc (cl_iAllocated ?m1), cl_db := db'\<rparr>))"
      "db_push (ucast s2) 5 \<lparr>pd_iSessionId = s2, pd_iRet = 0,
        pd_data = AvatarSaveData (ca_strAvatarName (cp_AvatarContext (cl_ctx m p2))) (ca_iLastChannelId (cp_AvatarContext (cl_ctx m p2)))\<rparr> False (cl_db ?m1) = Some db'"
      "cp_iNextSaveDataTime (f' (cl_ctx m p2)) = cl_dwCurrTime m + ce_iSaveDBInterval E" "cp_iSessionId (f' (cl_ctx m p2)) = s2"
      "\<not> cp_bFinalizing (f' (cl_ctx m p2))" "ca_strAvatarName (cp_AvatarContext (f' (cl_ctx m p2))) = ca_strAvatarName (cp_AvatarContext (cl_ctx m p2))"
    using SaveDataReq_eq [of E ?m1 p2] assms(1) d2 by (auto simp: due_def)
  let ?m2 = "Cache_ctx_upd p2 f' (?m1\<lparr>cl_iAllocated := Suc (cl_iAllocated ?m1), cl_db := db'\<rparr>)"
  have s: "Cache_SaveDataToDB E m = Some ?m2"
    using assms(2,3) d(1) d2(1) 1(1) 2(1) by (simp add: Cache_SaveDataToDB_def due_def)
  let ?d = "\<lambda>p sid. \<lparr>pd_iSessionId = sid, pd_iRet = 0,
      pd_data = AvatarSaveData (ca_strAvatarName (cp_AvatarContext (cl_ctx m p))) (ca_iLastChannelId (cp_AvatarContext (cl_ctx m p)))\<rparr>"
  have db: "cl_db ?m1 = db" "cl_db ?m2 = db'" by (simp_all add: Cache_ctx_upd_def)
  show ?thesis
    unfolding s using 1(2-6) 2(2-6) d assms(2,4) db
    by (intro exI [of _ ?m2] exI [of _ "?d p1 s1"] exI [of _ "?d p2 s2"]) (auto simp: db_step_def due_def Cache_ctx_upd_def)
qed


lemma db_run_append: "db_run (as @ bs) s = db_run as s \<bind> db_run bs"
  by (induction as arbitrary: s) (auto split: Option.bind_splits)

lemma two_pushes:
  assumes "sid \<noteq> 0" "sid' \<noteq> 0" "db_run [DB_Push sid eid d False, DB_Push sid' eid d' False] s = Some s'"
    and "dp_heap (ds_pool s) 1 = None" "dp_EventWaitingList (ds_pool s) = []" "dp_EventProcessingList (ds_pool s) = []" "dp_next (ds_pool s) = 3"
  shows "ds_conns s' = ds_conns s" "seq_map (ds_pool s') = seq_map (ds_pool s)" "dp_EventProcessingList (ds_pool s') = []"
    "dp_EventWaitingList (ds_pool s') = [3, 4]" "dp_heap (ds_pool s') 1 = None"
    "\<exists>e. dp_heap (ds_pool s') 3 = Some e \<and> de_bSequence e \<and> de_iEventId e = eid"
  using assms by (auto simp: db_step_def db_push_def AllocateEvent_def PushSequenceEvent_def ev_upd_def DBEvent_new_def Let_def)

text \<open>The periodic saving of two players crashes the server: after the first alarm one round of the only database thread frees the event of the
  first player while the map keeps it; after the next alarm the thread reads the freed event.\<close>

theorem cache_save_crashes:
  assumes "cache_reach E m" "\<And>f. set (ce_order E f) \<subseteq> ran f" "\<And>k. ce_alloc E k" "cl_iShutdownStatus m = NOT_SHUTDOWN" "cl_db m = db_init 1"
    and "cl_mPlayerContextBySessionId m s1 = Some p1" "cl_mPlayerContextBySessionId m s2 = Some p2" "s1 \<noteq> s2" "s1 \<noteq> 0" "s2 \<noteq> 0"
    and "ce_order E (cl_mPlayerContextBySessionId m) = [p1, p2]"
    and "\<And>p. p \<in> {p1, p2} \<Longrightarrow> \<not> cp_bFinalizing (cl_ctx m p) \<and> cp_iNextSaveDataTime (cl_ctx m p) \<le> cl_dwCurrTime m \<and>
      length (ca_strAvatarName (cp_AvatarContext (cl_ctx m p))) \<le> NAME_MAX"
  shows "\<exists>m'. cache_run E (CA_SaveData # replicate 4 (CA_Thread 0 Connect_Ok q) @ [CA_Time (cl_dwCurrTime m + ce_iSaveDBInterval E), CA_SaveData]) m = Some m' \<and>
    cache_step E (CA_Thread 0 Connect_Ok q) m' = None"
proof -
  have I: "cache_inv m" by (rule cache_reach_inv [OF assms(1,2)])
  then have sid: "cp_iSessionId (cl_ctx m p1) = s1" "cp_iSessionId (cl_ctx m p2) = s2" "ucast s1 \<notin> cids"
    using assms(6,7) unfolding cache_inv_def by blast+
  have ne: "p1 \<noteq> p2" using sid(1,2) assms(8) by auto
  have due: "due p1 s1 m" "due p2 s2 m" using assms(9,10,12) sid by (simp_all add: due_def)
  have u: "(ucast s1 :: u64) \<noteq> 0" "(ucast s2 :: u64) \<noteq> 0" "(ucast s1 :: u64) \<noteq> ucast (5 :: u32)"
    using ucast_key_eq [of _ 0] assms(9,10) sid(3) by (auto simp: cids_def)
  obtain m1 d1 d2 n c where 1: "Cache_SaveDataToDB E m = Some m1" "db_run [DB_Push (ucast s1) 5 d1 False, DB_Push (ucast s2) 5 d2 False] (cl_db m) = Some (cl_db m1)"
      "d1 = \<lparr>pd_iSessionId = s1, pd_iRet = 0, pd_data = AvatarSaveData n c\<rparr>"
      "due p1 s1 (m1\<lparr>cl_db := y, cl_dwCurrTime := cl_dwCurrTime m + ce_iSaveDBInterval E\<rparr>)"
      "due p2 s2 (m1\<lparr>cl_db := y, cl_dwCurrTime := cl_dwCurrTime m + ce_iSaveDBInterval E\<rparr>)"
      "cl_iShutdownStatus m1 = NOT_SHUTDOWN" "cl_mPlayerContextBySessionId m1 = cl_mPlayerContextBySessionId m" for y
    using SaveData_two [OF assms(3,4,11) ne due] by blast
  have f: "FireEvent E q d1 = Some (0, d1\<lparr>pd_iRet := 0\<rparr>)" by (simp add: 1(3) FireEvent_def)
  obtain db where db: "db_run (replicate 4 (DB_Conn 0 Connect_Ok (FireEvent E q))) (cl_db m1) = Some db" "seq_map (ds_pool db) = [ucast (5 :: u32) \<mapsto> 1]"
      "dp_heap (ds_pool db) 1 = None" "dp_EventWaitingList (ds_pool db) = []" "dp_EventProcessingList (ds_pool db) = []" "dp_next (ds_pool db) = 3"
      "ds_conns db = [\<lparr>dc_pMySQL = MySQL_Open, dc_bQuit = False, dc_iLastEventSequenceId = ucast s1, dc_pc = AtLoop\<rparr>]"
  proof -
    have "db_run ([DB_Push (ucast s1) 5 d1 False, DB_Push (ucast s2) 5 d2 False] @ replicate 4 (DB_Conn 0 Connect_Ok (FireEvent E q))) (db_init 1) =
        db_run (replicate 4 (DB_Conn 0 Connect_Ok (FireEvent E q))) (cl_db m1)"
      unfolding db_run_append 1(2) [unfolded assms(5)] by simp
    then show ?thesis
      using two_of_a_kind_run [of "ucast s1" "ucast s2" 5 "FireEvent E q" d1 0 _ d2, OF u f] that by (simp only:) auto
  qed
  let ?m2 = "m1\<lparr>cl_db := db, cl_dwCurrTime := cl_dwCurrTime m + ce_iSaveDBInterval E\<rparr>"
  have st: "cl_iShutdownStatus ?m2 = NOT_SHUTDOWN" "ce_order E (cl_mPlayerContextBySessionId ?m2) = [p1, p2]" using 1(6,7) assms(11) by simp_all
  obtain m3 e1 e2 where 3: "Cache_SaveDataToDB E ?m2 = Some m3" "db_run [DB_Push (ucast s1) 5 e1 False, DB_Push (ucast s2) 5 e2 False] db = Some (cl_db m3)"
    using SaveData_two [OF assms(3) st ne 1(4,5)] by auto
  note d3 = two_pushes [OF u(1,2) 3(2) db(3-6)]
  have "db_conn_step 0 Connect_Ok (FireEvent E q) (cl_db m3) = None"
    using freed_head_crash [of "cl_db m3" 5 1 3 "[4]" _ _ "ucast s1" "FireEvent E q"] d3 db(2,7) u(3) by auto
  moreover have "cache_run E (CA_SaveData # replicate 4 (CA_Thread 0 Connect_Ok q) @ [CA_Time (cl_dwCurrTime m + ce_iSaveDBInterval E), CA_SaveData]) m = Some m3"
    using 1(1) 3(1) db(1) by (simp add: cache_step_def [of _ CA_SaveData] cache_step_def [of _ "CA_Time _"] orun_append cache_run_threads)
  ultimately show ?thesis by (intro exI [of _ m3]) (simp add: cache_step_def)
qed


section \<open>Witnesses\<close>

lemma login_eq:
  assumes "cache_inv m" "cl_iShutdownStatus m = NOT_SHUTDOWN" "ObjectPool_Allocate () (cl_PlayerContextPool m) = Some (Some p, obp)" "length name \<le> NAME_MAX"
    and "cl_mPlayerContextBySessionId m sid = None"
  shows "cache_step E (CA_Command (COMMAND_ONLOGINREQ sid name)) m = Some (m\<lparr>cl_PlayerContextPool := obp,
    cl_mPlayerContextBySessionId := (cl_mPlayerContextBySessionId m)(sid \<mapsto> p),
    cl_ctx := (cl_ctx m)(p := (cl_ctx m p)\<lparr>cp_StateMachine := SetCurrState 1 (cp_StateMachine (cl_ctx m p)), cp_strAccountName := name, cp_iSessionId := sid\<rparr>)\<rparr>)"
proof -
  have J: "op_inv (cl_PlayerContextPool m)" using assms(1) by (simp add: cache_inv_def)
  have "p \<notin> set (ob_out (cl_PlayerContextPool m))" using ObjectPool_Allocate_ok [OF J assms(3)] by auto
  then have c: "cache_curr p m = 0" "cache_machine_ok (cp_StateMachine (cl_ctx m p))" using assms(1) by (auto simp: cache_inv_def)
  let ?m = "m\<lparr>cl_PlayerContextPool := obp, cl_mPlayerContextBySessionId := (cl_mPlayerContextBySessionId m)(sid \<mapsto> p)\<rparr>"
  have "cache_machine_ok (cp_StateMachine (cl_ctx ?m p))" "cache_curr p ?m = 0" using c by (simp_all add: cache_curr_def)
  then show ?thesis
    using assms(2-5) cache_fsm_eq [of ?m p PLAYER_EVENT_ONLOGINREQ]
    by (simp add: cache_step_def Cache_OnCommand_def Cache_OnCommandOnLoginReq_def CachePlayer_OnLoginReq_def hm_insert_def wcscpy_s_def Cache_ctx_upd_def Let_def)
qed

definition cache_demo_env :: cenv where
  "cache_demo_env = \<lparr>ce_wide = (\<lambda>b. Some (map ucast b)), ce_narrow = (\<lambda>w. Some (map ucast w)), ce_recv = (\<lambda>t d. Some AvatarListReq),
     ce_server = (\<lambda>i. True), ce_net = (\<lambda>k. 0), ce_alloc = (\<lambda>k. True),
     ce_order = (\<lambda>f. (case f 100 of Some p \<Rightarrow> [p] | None \<Rightarrow> []) @ (case f 200 of Some p \<Rightarrow> [p] | None \<Rightarrow> [])),
     ce_iServerId = 1, ce_iDBConnCount = 1, ce_iSaveDBInterval = 1000\<rparr>"

lemma demo_order: "set (ce_order cache_demo_env f) \<subseteq> ran f"
  by (auto simp: cache_demo_env_def ran_def split: option.splits)

text \<open>Two players log in.\<close>

lemma demo_two_players: "\<exists>m0 m. CacheServerLoop_Init cache_demo_env = Some m0 \<and>
    cache_run cache_demo_env [CA_Command (COMMAND_ONLOGINREQ 100 [65]), CA_Command (COMMAND_ONLOGINREQ 200 [65])] m0 = Some m \<and>
    cache_reach cache_demo_env m \<and> cl_iShutdownStatus m = NOT_SHUTDOWN \<and> cl_mPlayerContextBySessionId m = [100 \<mapsto> 0, 200 \<mapsto> 1] \<and>
    cl_db m = db_init 1 \<and> cl_dwCurrTime m = 0 \<and> cl_sent m = [] \<and> (\<forall>p \<in> {0, 1}. cache_curr p m = 1 \<and> \<not> cp_bFinalizing (cl_ctx m p) \<and>
      cp_iNextSaveDataTime (cl_ctx m p) = 0 \<and> cp_AvatarContext (cl_ctx m p) = CacheAvatarContext_Clear \<and> cp_strAccountName (cl_ctx m p) = [65])"
proof -
  obtain sm where sm: "cache_InitStateMachine (StateMachine_new (cst PLAYER_STATE_NONE)) = Some sm" using cache_InitStateMachine_ok by blast
  then obtain m0 where m0: "CacheServerLoop_Init cache_demo_env = Some m0" by (simp add: CacheServerLoop_Init_def CachePlayerContext_new_def)
  have f: "cl_iShutdownStatus m0 = NOT_SHUTDOWN" "cl_mPlayerContextBySessionId m0 = Map.empty" "cl_db m0 = db_init 1" "cl_dwCurrTime m0 = 0" "cl_sent m0 = []"
      "cl_PlayerContextPool m0 = ObjectPool_new 5000" "\<not> cp_bFinalizing (cl_ctx m0 p)" "cp_iNextSaveDataTime (cl_ctx m0 p) = 0"
      "cp_AvatarContext (cl_ctx m0 p) = CacheAvatarContext_Clear" for p
    using m0 sm by (auto simp: CacheServerLoop_Init_def CachePlayerContext_new_def cache_demo_env_def)
  have r0: "cache_reach cache_demo_env m0" by (rule cache_reach.start [OF m0])
  note I0 = cache_reach_inv [OF r0 demo_order]
  obtain obp where a0: "ObjectPool_Allocate () (cl_PlayerContextPool m0) = Some (Some 0, obp)" "ob_next obp = 1" "ob_ObjectList obp = []" "ob_iUsedSize obp = 1" "ob_iMaxSize obp = 5000"
    by (simp add: f ObjectPool_new_def ObjectPool_Allocate_def)
  obtain m1 where m1: "cache_step cache_demo_env (CA_Command (COMMAND_ONLOGINREQ 100 [65])) m0 = Some m1"
      "m1 = m0\<lparr>cl_PlayerContextPool := obp, cl_mPlayerContextBySessionId := [100 \<mapsto> 0],
        cl_ctx := (cl_ctx m0)(0 := (cl_ctx m0 0)\<lparr>cp_StateMachine := SetCurrState 1 (cp_StateMachine (cl_ctx m0 0)), cp_strAccountName := [65], cp_iSessionId := 100\<rparr>)\<rparr>"
    using login_eq [OF I0 f(1) a0(1), of "[65]" 100] by (simp add: f(2))
  have r1: "cache_reach cache_demo_env m1" by (rule cache_reach.step [OF r0 _ m1(1)]) (simp add: cache_ok_def cids_def)
  note I1 = cache_reach_inv [OF r1 demo_order]
  obtain obq where a1: "ObjectPool_Allocate () (cl_PlayerContextPool m1) = Some (Some 1, obq)"
    using a0(2-5) by (simp add: m1(2) ObjectPool_Allocate_def)
  have s1: "cl_iShutdownStatus m1 = NOT_SHUTDOWN" "cl_mPlayerContextBySessionId m1 200 = None" by (simp_all add: m1(2) f)
  obtain m2 where m2: "cache_step cache_demo_env (CA_Command (COMMAND_ONLOGINREQ 200 [65])) m1 = Some m2"
      "m2 = m1\<lparr>cl_PlayerContextPool := obq, cl_mPlayerContextBySessionId := [100 \<mapsto> 0, 200 \<mapsto> 1],
        cl_ctx := (cl_ctx m1)(1 := (cl_ctx m1 1)\<lparr>cp_StateMachine := SetCurrState 1 (cp_StateMachine (cl_ctx m1 1)), cp_strAccountName := [65], cp_iSessionId := 200\<rparr>)\<rparr>"
    using login_eq [OF I1 s1(1) a1, of "[65]" 200] s1(2) by (simp add: m1(2))
  have "cache_reach cache_demo_env m2" by (rule cache_reach.step [OF r1 _ m2(1)]) (simp add: cache_ok_def cids_def)
  then show ?thesis
    using m0 m1(1) m2(1) by (intro exI [of _ m0] exI [of _ m2]) (simp add: m2(2) m1(2) f cache_curr_def GetCurrState_def SetCurrState_def)
qed

theorem cache_registry_witness: "\<exists>m0 m. CacheServerLoop_Init cache_demo_env = Some m0 \<and>
    cache_run cache_demo_env [CA_Command (COMMAND_ONLOGINREQ 100 [65]), CA_Command (COMMAND_ONLOGINREQ 200 [65])] m0 = Some m \<and>
    cl_mPlayerContextBySessionId m = [100 \<mapsto> 0, 200 \<mapsto> 1] \<and> cp_iSessionId (cl_ctx m 0) = 100 \<and> cp_iSessionId (cl_ctx m 1) = 200"
proof -
  let ?as = "[CA_Command (COMMAND_ONLOGINREQ 100 [65]), CA_Command (COMMAND_ONLOGINREQ 200 [65])]"
  obtain m0 m where m0: "CacheServerLoop_Init cache_demo_env = Some m0" and m: "cache_run cache_demo_env ?as m0 = Some m"
      and f: "cl_mPlayerContextBySessionId m = [100 \<mapsto> 0, 200 \<mapsto> 1]"
    using demo_two_players by (elim exE conjE) (rule that)
  obtain bs cs t where r: "?as = bs @ cs" "cache_run cache_demo_env bs m0 = Some t"
      "cs = [] \<or> \<not> cache_ok (hd cs) t \<or> cache_step cache_demo_env (hd cs) t = None"
      "\<forall>s p. cl_mPlayerContextBySessionId t s = Some p \<longrightarrow> p \<in> set (ob_out (cl_PlayerContextPool t)) \<and> cp_iSessionId (cl_ctx t p) = s \<and>
        cache_curr p t \<noteq> cst PLAYER_STATE_NONE"
    using cache_registry [OF m0 demo_order, of ?as] by (elim exE conjE) (rule that)
  have ok: "cache_ok a t" if "a \<in> set ?as" for a using that by (auto simp: cache_ok_def cids_def)
  have "cs = []"
  proof (rule ccontr)
    assume c: "cs \<noteq> []"
    then have "hd cs \<in> set ?as" unfolding r(1) by simp
    with c r(3) ok orun_next [OF m [unfolded r(1)] r(2) c] show False by blast
  qed
  then have "t = m" using r(2) m [unfolded r(1)] by (simp only: append_Nil2 option.inject)
  have "cl_mPlayerContextBySessionId m 100 = Some 0" "cl_mPlayerContextBySessionId m 200 = Some 1" by (simp_all add: f)
  with r(4) have "cp_iSessionId (cl_ctx m 0) = 100" "cp_iSessionId (cl_ctx m 1) = 200" unfolding \<open>t = m\<close> by blast+
  with m0 m f show ?thesis by blast
qed

theorem cache_logout_witness: "\<exists>m m'. cache_reach cache_demo_env m \<and> cache_curr 0 m = 1 \<and> cache_step cache_demo_env (CA_Command (COMMAND_ONLOGOUTREQ 100)) m = Some m' \<and>
    cache_curr 0 m' = cst PLAYER_STATE_ONLOGOUTREQ"
proof -
  obtain m where m: "cache_reach cache_demo_env m" "cl_iShutdownStatus m = NOT_SHUTDOWN" "cl_mPlayerContextBySessionId m 100 = Some 0" "cache_curr 0 m = 1"
      "\<not> cp_bFinalizing (cl_ctx m 0)"
    using demo_two_players by force
  have a: "ce_alloc cache_demo_env k" for k by (simp add: cache_demo_env_def)
  show ?thesis using cache_logout [OF m(1) demo_order a m(2,3,5)] m(1,4) by auto
qed

theorem cache_avatar_list_witness: "\<exists>m m'. cache_reach cache_demo_env m \<and>
    cache_run cache_demo_env (CA_Command (COMMAND_PACKETFORWARD 100 0 []) #
      replicate 4 (CA_Thread 0 Connect_Ok (\<lambda>s. Query_Rows [[Some [53], None, Some [66]]])) @ [CA_Result]) m = Some m' \<and>
    cp_iAvatarCount (cl_ctx m' 0) = 1 \<and> cp_arrayAvatar (cl_ctx m' 0) ! 0 = \<lparr>av_iAvatarId = 5, av_strAvatarName = [66]\<rparr>"
proof -
  obtain m where m: "cache_reach cache_demo_env m" "cl_iShutdownStatus m = NOT_SHUTDOWN" "cl_mPlayerContextBySessionId m 100 = Some 0" "cache_curr 0 m = 1"
      "cl_db m = db_init 1" "cp_strAccountName (cl_ctx m 0) = [65]"
    using demo_two_players by force
  let ?as = "\<lparr>av_iAvatarId = 5, av_strAvatarName = [66]\<rparr> # replicate 9 prdAvatar_new"
  have rows: "avatar_rows (ce_wide cache_demo_env) [[Some [53], None, Some [66]]] (0, replicate AVATARCOUNT_MAX prdAvatar_new) = Some (True, 1, ?as)"
  proof -
    have "atoi64 [53] = 5" by (simp add: atoi64_def parse_int_def)
    moreover have "replicate 10 prdAvatar_new = prdAvatar_new # replicate 9 prdAvatar_new" by (simp add: numeral_eq_Suc)
    ultimately show ?thesis
      by (simp add: cache_demo_env_def arr_def column_def wide_array_def Char2WChar_def prdAvatar_new_def)
  qed
  have conv: "convert_list cache_demo_env (take (unat (1 :: u8)) ?as) = Some [\<lparr>fa_iAvatarId = 5, fa_strAvatarName = [66]\<rparr>]"
    by (simp add: cache_demo_env_def prdAvatar2ftdAvatar_def WChar2Char_def)
  have e: "ce_alloc cache_demo_env k" "ce_recv cache_demo_env t d = Some AvatarListReq" for k t d by (simp_all add: cache_demo_env_def)
  show ?thesis
    using cache_avatar_list [of cache_demo_env m 100 0 0 "[]" 0 "\<lambda>s. Query_Rows [[Some [53], None, Some [66]]]" _ 1 ?as, OF m(1) demo_order e(1) m(2,3) _ _ e(2) _ _ _ _ _ _ _ _ refl rows conv]
      m by (auto simp: db_init_small DBConnPool_new_def DBConn_new_def)
qed

theorem cache_save_crashes_witness: "\<exists>m m'. cache_reach cache_demo_env m \<and> cache_run cache_demo_env (CA_SaveData #
      replicate 4 (CA_Thread 0 Connect_Ok (\<lambda>s. Query_Done)) @ [CA_Time 1000, CA_SaveData]) m = Some m' \<and>
    cache_step cache_demo_env (CA_Thread 0 Connect_Ok (\<lambda>s. Query_Done)) m' = None"
proof -
  obtain m where m: "cache_reach cache_demo_env m" "cl_iShutdownStatus m = NOT_SHUTDOWN" "cl_mPlayerContextBySessionId m = [100 \<mapsto> 0, 200 \<mapsto> 1]"
      "cl_db m = db_init 1" "cl_dwCurrTime m = 0" "\<forall>p \<in> {0, 1}. \<not> cp_bFinalizing (cl_ctx m p) \<and> cp_iNextSaveDataTime (cl_ctx m p) = 0 \<and>
        cp_AvatarContext (cl_ctx m p) = CacheAvatarContext_Clear"
    using demo_two_players by (metis (no_types, lifting))
  have e: "ce_alloc cache_demo_env k" for k by (simp add: cache_demo_env_def)
  show ?thesis
    using cache_save_crashes [of cache_demo_env m 100 0 200 1 "\<lambda>s. Query_Done", OF m(1) demo_order e m(2,4)] m
    by (auto simp: cache_demo_env_def CacheAvatarContext_Clear_def)
qed

end
