(* ===== verification/Spec2Isabelle.thy ===== *)
theory Spec2Isabelle
  imports EasyLog EasyStream EasyMidware EasyNetV1 EasyNetwork FSM ToolBuffer ToolPool StarNetReach PeerData MasterProps LoginProps GateProps CacheLoopProps
begin

text \<open>
  This development verifies the server side of the repository: the C network library EasyNet with its
  logger and the C++ layer EasyMidware on top of it, two further variants of the library, the completion
  port network layer StarNet of the FT servers with its peer protocol, the master, login, gate and cache servers among the FT servers, and the tool library
  in \<open>FTCommon\<close>.

  \<^bold>\<open>The program.\<close>  A server is a stack of layers.  The bottom layer talks to Winsock through completion ports:
  it owns connections, acceptors, contexts (one per outstanding request) and worker threads, and calls back into the
  layer above when a request completes.  The middle layer turns callbacks into commands of a queue that a
  single main loop takes one after the other; sessions of that loop cut the received bytes into packets and dispatch
  them.  The repository holds this stack three times: \<open>EasyServer/EasyNet\<close> with \<open>EasyServer/EasyMidware\<close> (C and C++), its
  first version \<open>EasyNet/EasyNet\<close> (C), and \<open>FTServer/Src/StarNet\<close> with \<open>FTServer/Src/ServerBase\<close> (C++); \<open>EasyNetwork\<close> is
  an experiment with \<open>select\<close>.

  \<^bold>\<open>Modelling conventions.\<close>  C integers are words of their width; a C array is a list of bytes with a fixed
  length; heap objects live in one map per struct type, pointers are addresses that are never reused within a run, and a
  read or write outside an array, of a freed object or through NULL is the value \<open>None\<close>.  A Windows call that may fail is a
  parameter: in the network layers a function from the number of calls made so far to its answer (allocation, sockets, ports, binding, options,
  posted requests, threads), in the logger the answers of \<open>CreateFile\<close> and \<open>WriteFile\<close>, in the queue of \<open>EasyMidware\<close> the one of
  \<open>ReleaseSemaphore\<close>, in the servers the result of each message sent.  A theorem holds for every pattern of failures unless it assumes a call to
  succeed.  Taken to succeed are critical sections, events, waits, and the semaphore of \<open>LogicLoop\<close> once it exists.  Application callbacks are parameters too.  Debug assertions are not part of the model (release build).
  A loop whose end is not obvious runs with fuel and says whether it has ended; theorems that state that it ends give the
  fuel that is enough: the bytes received plus two (at most 1026) for \<open>OnData\<close>, 65538 for \<open>OnPeerData\<close>,
  the number of sockets plus 65 for a turn of the select loop.  Waiting for another thread is either a list of what that
  thread does meanwhile, or \<open>None\<close> when nobody acts.  Threads interleave at the granularity of one API call, one section under a lock or one completed
  request; in \<open>EasyMidware\<close> appending a command, releasing the semaphore, waiting for it and taking the command are steps of their own, in
  \<open>LogicLoop\<close> appending and releasing are one.

  \<^bold>\<open>Runs of the servers.\<close>  \<open>Runs\<close> executes an arbitrary list of events.  The registry theorems of the four servers hold for every such list, up to the
  first event outside a condition that the proof needs and the code does not check: \<open>master_ok\<close>, \<open>login_ok\<close>, \<open>gate_event_ok\<close>, \<open>cache_ok\<close>.  The
  one they share: a tick or round of the master, gate or cache server finds at most one player or session to be
  finalized, because with more the loop deletes the last one again and again.  The others are on the values in commands; the
  texts of the theorems list them.  \<open>master_reach\<close>, \<open>login_reach\<close>, \<open>gate_reach\<close> and \<open>cache_reach\<close> are the states reached by events within
  these conditions; other theorems about the servers start from them.

  \<^bold>\<open>Theories.\<close>
  \<^item> \<open>Prelude\<close>: words, byte memory, interlocked operations, little-endian integers, shared lemmas.
  \<^item> \<open>Runs\<close>: runs over lists of events; the locales \<open>guarded_system\<close> and \<open>total_system\<close> with the lemma that cuts a run at the first
    event outside the condition; interpreted in the property theories of the four servers.
  \<^item> \<open>ByteStack\<close>: the contract of the byte buffers as the locale \<open>byte_stack\<close>, with what its clients rely on.  It is
    interpreted on \<open>EasyBuffer\<close> in \<open>EasyLog\<close> and on \<open>SingleBuffer\<close> in \<open>ToolBuffer\<close>.
  \<^item> \<open>EasyLog\<close> (\<open>EasyNet/EasyLog\<close>): the logger, its two buffers and its output thread as a step relation.
    Nothing is reordered, and lost only by a write that fails or is short, the thread empties the buffer, and the boundary cases in which the logger aborts, spins or leaks.
  \<^item> \<open>EasyNet\<close> (\<open>EasyServer/EasyNet\<close>): connections, acceptors, contexts, workers.  \<open>EasyNetInv\<close>: an ownership invariant (every
    context is in exactly one place) kept by every operation under a contract for the callbacks, the locale of the
    theory; outcomes of creating, connecting, accepting, disconnecting; what goes wrong when an accept fails.
  \<^item> \<open>EasyNetV1\<close> (\<open>EasyNet/EasyNet\<close>): the first version.  Forgetting the fields that were added or removed maps it to the
    second one, operation by operation, up to the socket addresses and to the guard of \<open>AsyncDisconnect\<close> that it lacks; the use after free that follows.
  \<^item> \<open>EasyNetwork\<close> (\<open>EasyNetwork/EasyNetwork\<close>): the \<open>select\<close> loop turn by turn.
  \<^item> \<open>Framing\<close>: packets in a byte stream as three locales: cutting, a sender, and a bounded receiver; reassembly is
    proved once.  Interpreted in \<open>EasySession\<close> and in \<open>PeerData\<close>.
  \<^item> \<open>EasyStream\<close>, \<open>EasySession\<close>, \<open>EasyMidware\<close> (\<open>EasyServer/EasyMidware\<close>): typed streams, reassembly of packets, sessions, the
    command queue and the callbacks.  Round trip of the streams; reassembly in any pieces; the callbacks meet the contract of \<open>EasyNetInv\<close>, so
    the composed server keeps its invariant; consistency of queue and semaphore.
  \<^item> \<open>FSM\<close> (\<open>FTCommon/Src/Tool\<close>): the finite state machine refines its transition table.
  \<^item> \<open>ToolBuffer\<close>, \<open>ToolPool\<close> (\<open>FTCommon/Src/Tool\<close>): buffers, memory pool, object pool, alarm clock.
  \<^item> \<open>StarNet\<close> (\<open>connection.cpp\<close>, \<open>context_pool.cpp\<close>, \<open>acceptor.cpp\<close>, \<open>worker.cpp\<close> of \<open>FTServer/Src/StarNet\<close>): the
    second network layer, with pooled contexts and counted requests.  \<open>StarNetAcc\<close>: the acceptor and its list of
    free connections.  \<open>StarNetInv\<close>: the reference counting invariant on a view of the state, with its elementary steps;
    \<open>StarNetRefs\<close>: every operation is made of such steps; \<open>StarNetReach\<close>: the step relation, the contract of the
    application as the locale \<open>sn_handlers\<close>, and reference counting in every reachable state.
  \<^item> \<open>StarNetPeer\<close> (\<open>peer_client.cpp\<close>, \<open>peer_server.cpp\<close>, \<open>peer_dispatch.cpp\<close>, \<open>peer_stream.h\<close>, \<open>starnet.cpp\<close>): servers talking
    to servers, the application of StarNet that interprets \<open>sn_handlers\<close>.  \<open>PeerData\<close>: reassembly of their messages, round
    trip of their streams, what sending does.
  \<^item> \<open>MasterStates\<close> (\<open>master_player_context.h\<close>, \<open>master_player_state.cpp\<close> of \<open>FTServer/Src/MasterServer\<close>): the states and events of
    a player, and the table of its state machine; which states the handlers can reach.
  \<^item> \<open>MasterServer\<close> (\<open>master_server_loop.cpp\<close>, \<open>master_player_context.cpp\<close>, \<open>packet_impl.cpp\<close>, \<open>server_context.h\<close>): the loop of the
    master server, which knows the players that are logged in, and the handlers of a player.  It is composed from the state
    machine of \<open>FSM\<close> and the object pool of \<open>ToolPool\<close>.  \<open>MasterInv\<close>: its invariant, with rules of total correctness for the
    handlers (\<open>wp\<close> of \<open>Prelude\<close>); \<open>MasterReach\<close>: every command and every tick keeps it, reachable states; \<open>MasterProps\<close>: the
    registry of players, the types of their states, the login, and what goes wrong when several players are finalized at
    once, when the server is shut down with a player in a region, and when a player leaves while its region is allocated.
  \<^item> \<open>ServerBase\<close> (\<open>logic_loop.cpp\<close>, \<open>util.cpp\<close>): the thread that executes the commands of a server.  The server is an argument; any interleaving
    with threads that push commands is the server executing the commands in order.
  \<^item> \<open>SessionBase\<close> (\<open>session.cpp\<close>, \<open>session_state.cpp\<close>, \<open>session_server_loop.inl\<close>, \<open>session_server.cpp\<close> of \<open>FTServer/Src/ServerBase\<close>): sessions of
    clients, and the loop that owns them.  \<open>Session\<close> is an extensible record; the virtual methods are a record of functions, \<open>vtable\<close>, so a
    server passes its own.  Cryptography, decoding of packets and the pool of output buffers are arguments (\<open>senv\<close>); \<open>OnData\<close> has fuel, one unit
    for each turn of its loops, and says whether it has ended.
  \<^item> \<open>SessionTable\<close>: what the session servers share about the table of their sessions, the ids and the start; \<open>SessionFrame\<close>: the locale
    \<open>session_frame\<close>, the contract under which receiving data keeps a property of a server, interpreted by the login and the gate server.
  \<^item> \<open>LoginServer\<close> (\<open>login_session.cpp\<close>, \<open>login_server_loop.cpp\<close>): the login server, on top of \<open>SessionBase\<close>, \<open>FSM\<close> and the alarm
    clock of \<open>ToolPool\<close>.  \<open>LoginInv\<close>: ids, states and what the handlers of a session keep; \<open>LoginReach\<close>: every command keeps the
    invariant of the pool, the connections and the map; \<open>LoginProps\<close>: runs, and what follows for ids, the map of sessions, disconnecting, the version
    check and receiving.
  \<^item> \<open>GateServer\<close> (\<open>gate_session.cpp\<close>, \<open>gate_server_loop.cpp\<close>, \<open>packet_impl.cpp\<close>, \<open>peer_impl.cpp\<close> of \<open>FTServer/Src/GateServer\<close>): the gate server,
    the second instance of \<open>SessionBase\<close>.  A client gets a temporary session and is handed over to the session of its account when it has logged
    in.  \<open>GateInv\<close>: the invariant and what the handlers of a session keep of it; \<open>GateReach\<close>: taking sessions from the pool and giving them
    back, every command, the round of the loop, the start, and runs; \<open>GateProps\<close>: the registries, the hand-over, the forwarding of packets, the
    password that is not checked and the shutdown that disconnects nobody.  A round is taken with at most one session to finalize: with
    more, the loop clears the last one several times.
  \<^item> \<open>CacheDB\<close> (\<open>db_conn_pool.cpp\<close>, \<open>db_conn.cpp\<close>, \<open>db_event.cpp\<close> of \<open>FTServer/Src/CacheServer\<close>): the threads of the cache server that work on the
    database.  Events are on a heap, the section under a lock is a step, what the database answers is an argument.  \<open>CacheDBInv\<close>: the
    invariant, for any number of threads, and that every step keeps it; \<open>CacheDBProps\<close>: at most one event of each kind is being fired; a
    single event goes through; and what happens to two events of one kind and to two of one sequence.
  \<^item> \<open>CacheLoop\<close> (\<open>cache_server_loop.cpp\<close>, \<open>cache_player_context.cpp\<close>, \<open>cache_player_state.cpp\<close>, \<open>cache_event_result.cpp\<close>,
    \<open>cache_db_event.cpp\<close>): the players of the cache server, its commands, alarms and the results of the database, on top of \<open>CacheDB\<close>, \<open>FSM\<close> and
    \<open>ToolPool\<close>.  \<open>CacheLoopInv\<close>: the invariant and that every step keeps it; \<open>CacheLoopProps\<close>: the registry of players, the list of avatars from
    the request to the answer, what a logout does in every state, and periodic saving with two players, which uses a freed event.
  \<^bold>\<open>What is not modelled.\<close>  The region and chat servers, which run game logic in Lua scripts and would be further clients of
  \<open>ServerBase\<close> and \<open>StarNetPeer\<close>; the start-up of the servers and their configuration files; the MFC
  client, the code generators and what they generate, crash dumps and performance counters, and everything under
  \<open>FTCommon/External\<close>: file, screen and database input and output, or third-party code.  Memory that is freed and
  handed out again at the same address, and data races between single machine instructions, are outside the model.
\<close>

end
